(* ===== verification/Prelude.thy ===== *)
theory Prelude
  imports Main "HOL-Library.Word" "HOL-Library.AList" "HOL-Library.List_Lexorder"
    "HOL-Library.Char_ord" "HOL-Library.Multiset"
begin

text \<open>
  What every component of the development shares: the names of the Go integer types, the model
  of \<open>sort.Slice\<close>, checked slicing, Go maps as association lists, and the two
  interfaces (a machine with an invariant, a codec that returns the rest of its input) that the
  components interpret.
\<close>

unbundle bit_operations_syntax

named_theorems go_list \<open>rewrite rules for the list and map operations of the Go code\<close>

section \<open>Machine integers\<close>

type_synonym u8 = "8 word"
type_synonym u16 = "16 word"
type_synonym u32 = "32 word"
type_synonym u64 = "64 word"

section \<open>Sorting with a comparison function\<close>

text \<open>
  \<open>sort.Slice(xs, less)\<close>: Go's sort is not stable, so its result is determined only
  where \<open>less\<close> is a strict total order on the elements; this model is a stable
  insertion sort, one of the results Go may give.
\<close>

fun insort_by :: "('a \<Rightarrow> 'a \<Rightarrow> bool) \<Rightarrow> 'a \<Rightarrow> 'a list \<Rightarrow> 'a list" where
  "insort_by lt x [] = [x]"
| "insort_by lt x (y # ys) = (if lt y x then y # insort_by lt x ys else x # y # ys)"

fun sort_by :: "('a \<Rightarrow> 'a \<Rightarrow> bool) \<Rightarrow> 'a list \<Rightarrow> 'a list" where
  "sort_by lt [] = []"
| "sort_by lt (x # xs) = insort_by lt x (sort_by lt xs)"

lemma mset_insort_by [simp]: "mset (insort_by lt x xs) = add_mset x (mset xs)"
  by (induction xs) auto

lemma mset_sort_by [simp]: "mset (sort_by lt xs) = mset xs"
  by (induction xs) auto

lemma set_sort_by [simp]: "set (sort_by lt xs) = set xs"
  by (rule mset_eq_setD) simp

lemma length_sort_by [simp]: "length (sort_by lt xs) = length xs"
  by (rule mset_eq_length) simp

lemma distinct_sort_by [simp]: "distinct (sort_by lt xs) = distinct xs"
  by (rule mset_eq_imp_distinct_iff) simp

lemma sort_by_Nil_iff [simp]: "sort_by lt xs = [] \<longleftrightarrow> xs = []"
  by (metis length_0_conv length_sort_by)

lemma insort_by_key:
  assumes "\<And>a b. lt a b \<longleftrightarrow> f a < (f b :: 'k :: linorder)"
  shows "insort_by lt x xs = insort_key f x xs"
  by (induction xs) (auto simp: assms)

lemma sort_by_key:
  assumes "\<And>a b. lt a b \<longleftrightarrow> f a < (f b :: 'k :: linorder)"
  shows "sort_by lt xs = sort_key f xs"
  by (induction xs) (auto simp: insort_by_key [OF assms])

lemma sort_by_less [simp]: "sort_by (<) xs = sort (xs :: 'a :: linorder list)"
  using sort_by_key [where f = "\<lambda>x :: 'a. x" and lt = "(<)"] by simp

lemma sort_by_fst: "sort_by (\<lambda>a b. f a < f b) xs = sort_key (f :: 'a \<Rightarrow> 'k :: linorder) xs"
  by (rule sort_by_key) simp

text \<open>A sorted list is a fixed point; the comparison need not be total for this.\<close>

lemma insort_by_sorted:
  "\<forall>y \<in> set xs. \<not> lt y x \<Longrightarrow> insort_by lt x xs = x # xs"
  by (cases xs) auto

lemma sort_by_sorted:
  "sorted_wrt (\<lambda>a b. \<not> lt b a) xs \<Longrightarrow> sort_by lt xs = xs"
  by (induction xs) (auto simp: insort_by_sorted)

lemma sorted_wrt_insort_by:
  assumes tot: "\<And>a b c. \<not> lt b a \<Longrightarrow> \<not> lt c b \<Longrightarrow> \<not> lt c a"
    and asym: "\<And>a b. lt a b \<Longrightarrow> \<not> lt b a"
  shows "sorted_wrt (\<lambda>a b. \<not> lt b a) xs \<Longrightarrow> sorted_wrt (\<lambda>a b. \<not> lt b a) (insort_by lt x xs)"
proof (induction xs)
  case Nil
  then show ?case by simp
next
  case (Cons y ys)
  have *: "set (insort_by lt x ys) = insert x (set ys)"
    by (metis mset_insort_by set_mset_add_mset_insert set_mset_mset)
  show ?case
  proof (cases "lt y x")
    case True
    with Cons show ?thesis by (auto simp: * dest: asym)
  next
    case False
    then have "\<not> lt z x" if "z \<in> set ys" for z
      using Cons.prems tot that by auto
    with False Cons.prems show ?thesis by auto
  qed
qed

lemma sorted_wrt_sort_by:
  assumes tot: "\<And>a b c. \<not> lt b a \<Longrightarrow> \<not> lt c b \<Longrightarrow> \<not> lt c a"
    and asym: "\<And>a b. lt a b \<Longrightarrow> \<not> lt b a"
  shows "sorted_wrt (\<lambda>a b. \<not> lt b a) (sort_by lt xs)"
proof (induction xs)
  case (Cons x xs)
  then show ?case by (auto intro: sorted_wrt_insort_by [OF tot asym])
qed simp

text \<open>Sorting downwards is the reverse of sorting upwards.\<close>

lemma sorted_sort_by_greater: "sorted (rev (sort_by (\<lambda>a b. b < a) (xs :: 'a :: linorder list)))"
proof -
  have "sorted_wrt (\<lambda>a b. \<not> a < b) (sort_by (\<lambda>a b. b < a) xs)"
    by (rule sorted_wrt_sort_by) auto
  then show ?thesis by (simp add: sorted_wrt_rev not_less)
qed

lemma sort_by_greater: "sort_by (\<lambda>a b. b < a) xs = rev (sort (xs :: 'a :: linorder list))"
proof -
  have "sort xs = rev (sort_by (\<lambda>a b. b < a) xs)"
    by (rule properties_for_sort) (simp_all add: sorted_sort_by_greater)
  then show ?thesis by simp
qed

text \<open>The k-th largest element, as a quorum rule reads it off a list sorted downwards.\<close>

lemma nth_down_sorted:
  "sorted (rev ys) \<Longrightarrow> i < length ys \<Longrightarrow>
    t \<le> ys ! i \<longleftrightarrow> i < length (filter (\<lambda>m. t \<le> m) (ys :: 'a :: linorder list))"
proof (induction ys arbitrary: i)
  case (Cons y ys)
  have le: "z \<le> y" if "z \<in> set ys" for z
    using Cons.prems(1) that by (auto simp: sorted_append)
  show ?case
  proof (cases "t \<le> y")
    case True
    with Cons show ?thesis by (cases i) (auto simp: sorted_append)
  next
    case False
    then have "filter (\<lambda>m. t \<le> m) ys = []"
      using le by (force simp: filter_empty_conv)
    moreover have "(y # ys) ! i \<le> y"
      using Cons.prems(2) le by (cases i) auto
    ultimately show ?thesis using False by auto
  qed
qed simp

lemma kth_largest:
  assumes "0 < k" "k \<le> length xs"
  shows "t \<le> sort_by (\<lambda>a b. b < a) xs ! (k - 1)
    \<longleftrightarrow> k \<le> length (filter (\<lambda>m. t \<le> m) (xs :: 'a :: linorder list))"
proof -
  let ?ys = "sort_by (\<lambda>a b. b < a) xs"
  have "t \<le> ?ys ! (k - 1) \<longleftrightarrow> k - 1 < length (filter (\<lambda>m. t \<le> m) ?ys)"
    by (rule nth_down_sorted) (use assms in \<open>simp_all add: sorted_sort_by_greater\<close>)
  also have "length (filter (\<lambda>m. t \<le> m) ?ys) = length (filter (\<lambda>m. t \<le> m) xs)"
    by (metis mset_filter mset_sort_by size_mset)
  finally show ?thesis using assms(1) by linarith
qed

section \<open>Slices\<close>

text \<open>\<open>xs[lo:hi]\<close>: \<open>None\<close> is the run-time panic of a slice out of range.\<close>

definition go_slice :: "'a list \<Rightarrow> nat \<Rightarrow> nat \<Rightarrow> 'a list option" where
  "go_slice xs lo hi =
     (if lo \<le> hi \<and> hi \<le> length xs then Some (take (hi - lo) (drop lo xs)) else None)"

text \<open>The consecutive segments of a list that a list of lengths cuts off.\<close>

fun segments :: "nat list \<Rightarrow> 'a list \<Rightarrow> 'a list list" where
  "segments [] xs = []"
| "segments (c # cs) xs = take c xs # segments cs (drop c xs)"

lemma length_segments [simp, go_list]: "length (segments cs xs) = length cs"
  by (induction cs xs rule: segments.induct) auto

lemma concat_segments: "sum_list cs = length xs \<Longrightarrow> concat (segments cs xs) = xs"
  by (induction cs xs rule: segments.induct) auto

lemma segments_map: "segments cs (map f xs) = map (map f) (segments cs xs)"
  by (induction cs xs rule: segments.induct) (auto simp: take_map drop_map)

lemma segments_concat: "segments (map length xss) (concat xss) = xss"
  by (induction xss) auto

section \<open>Go maps\<close>

text \<open>
  A map whose entries the code counts or iterates is an association list with distinct keys;
  \<open>m[k]\<close> is \<^term>\<open>map_of m k\<close>, \<open>m[k] = v\<close> is \<^term>\<open>AList.update k v m\<close> and
  \<open>delete(m, k)\<close> is \<^term>\<open>AList.delete k m\<close>. A map that is only read and written by
  key is a function.
\<close>

type_synonym ('k, 'v) gomap = "('k \<times> 'v) list"

lemma map_of_update [simp, go_list]:
  "map_of (AList.update k v m) = (map_of m)(k \<mapsto> v)"
  by (rule update_conv')

lemma map_of_delete [simp, go_list]:
  "map_of (AList.delete k m) = (map_of m)(k := None)"
  by (rule delete_conv')

lemma keys_update [simp, go_list]: "fst ` set (AList.update k v m) = insert k (fst ` set m)"
  by (induction m) auto

lemma keys_delete [simp, go_list]: "fst ` set (AList.delete k m) = fst ` set m - {k}"
  by (induction m) auto

lemma distinct_keys_update [simp, intro]:
  "distinct (map fst m) \<Longrightarrow> distinct (map fst (AList.update k v m))"
  by (rule distinct_update)

lemma distinct_keys_delete [simp, intro]:
  "distinct (map fst m) \<Longrightarrow> distinct (map fst (AList.delete k m))"
  by (rule distinct_delete)

lemma map_of_None_iff: "map_of m k = None \<longleftrightarrow> k \<notin> fst ` set m"
  by (rule map_of_eq_None_iff)

lemma keysI: "(k, v) \<in> set m \<Longrightarrow> k \<in> fst ` set m"
  by force

lemma delete_eq_filter: "AList.delete k m = filter (\<lambda>(k', _). k' \<noteq> k) m"
  by (induction m) auto

lemma update_fresh: "k \<notin> fst ` set m \<Longrightarrow> AList.update k v m = m @ [(k, v)]"
  by (induction m) auto

lemma update_present:
  "k \<in> fst ` set m \<Longrightarrow> distinct (map fst m) \<Longrightarrow>
    AList.update k v m = map (\<lambda>(k', w). (k', if k' = k then v else w)) m"
proof (induction m)
  case (Cons p m)
  then show ?case
    by (cases "fst p = k") (auto simp: image_iff split_def intro!: map_idI [symmetric])
qed simp

lemma map_of_filter_keys:
  "map_of (filter (\<lambda>(k, _). P k) m) k = (if P k then map_of m k else None)"
  by (induction m) auto

lemma keys_filter: "fst ` set (filter (\<lambda>(k, _). P k) m) = {k \<in> fst ` set m. P k}"
  by force

lemma distinct_keys_filter:
  "distinct (map fst m) \<Longrightarrow> distinct (map fst (filter (\<lambda>(k, _). P k) m))"
  by (induction m) (auto simp: image_iff)

section \<open>Results\<close>

text \<open>Go's early return on an error.\<close>

definition bind_res :: "'e + 'a \<Rightarrow> ('a \<Rightarrow> 'e + 'b) \<Rightarrow> 'e + 'b" where
  "bind_res r f = (case r of Inl e \<Rightarrow> Inl e | Inr x \<Rightarrow> f x)"

section \<open>Machines with an invariant\<close>

text \<open>
  A stateful component as a partial step function: \<open>None\<close> is a run-time panic. Its
  contract: under the caller's obligation \<open>ok\<close> every step returns and keeps the invariant.
\<close>

fun run_steps :: "('s \<Rightarrow> 'e \<Rightarrow> 's option) \<Rightarrow> 's \<Rightarrow> 'e list \<Rightarrow> 's option" where
  "run_steps step s [] = Some s"
| "run_steps step s (e # es) = (case step s e of None \<Rightarrow> None | Some s' \<Rightarrow> run_steps step s' es)"

fun run_ok :: "('s \<Rightarrow> 'e \<Rightarrow> 's option) \<Rightarrow> ('s \<Rightarrow> 'e \<Rightarrow> bool) \<Rightarrow> 's \<Rightarrow> 'e list \<Rightarrow> bool" where
  "run_ok step ok s [] = True"
| "run_ok step ok s (e # es) =
     (ok s e \<and> (case step s e of None \<Rightarrow> False | Some s' \<Rightarrow> run_ok step ok s' es))"

locale machine =
  fixes step :: "'s \<Rightarrow> 'e \<Rightarrow> 's option"
    and ok :: "'s \<Rightarrow> 'e \<Rightarrow> bool"
    and inv :: "'s \<Rightarrow> bool"
  assumes step_inv: "inv s \<Longrightarrow> ok s e \<Longrightarrow> \<exists>s'. step s e = Some s' \<and> inv s'"
begin

lemma step_keeps: "inv s \<Longrightarrow> ok s e \<Longrightarrow> step s e = Some s' \<Longrightarrow> inv s'"
  using step_inv by fastforce

lemma run_safe: "inv s \<Longrightarrow> run_ok step ok s es \<Longrightarrow> \<exists>s'. run_steps step s es = Some s' \<and> inv s'"
proof (induction es arbitrary: s)
  case (Cons e es)
  from Cons.prems obtain s1 where "step s e = Some s1" "inv s1"
    using step_inv by fastforce
  with Cons show ?case by simp
qed simp

end

text \<open>A machine with a gauge that no step lowers.\<close>

locale monotone_machine = machine step ok inv
  for step :: "'s \<Rightarrow> 'e \<Rightarrow> 's option" and ok :: "'s \<Rightarrow> 'e \<Rightarrow> bool" and inv :: "'s \<Rightarrow> bool" +
  fixes gauge :: "'s \<Rightarrow> 'g :: preorder"
  assumes step_gauge: "inv s \<Longrightarrow> ok s e \<Longrightarrow> step s e = Some s' \<Longrightarrow> gauge s \<le> gauge s'"
begin

lemma run_gauge:
  "inv s \<Longrightarrow> run_ok step ok s es \<Longrightarrow> run_steps step s es = Some s' \<Longrightarrow> gauge s \<le> gauge s'"
proof (induction es arbitrary: s)
  case (Cons e es)
  from Cons.prems obtain s1 where s1: "step s e = Some s1" "inv s1"
    using step_inv by fastforce
  with Cons have "gauge s1 \<le> gauge s'" by simp
  moreover have "gauge s \<le> gauge s1" using Cons.prems s1 step_gauge [of s e s1] by simp
  ultimately show ?case by (rule order_trans [rotated])
qed simp

end

section \<open>Codecs\<close>

text \<open>
  An encoder and a decoder that hands back the bytes after the value. \<open>valid\<close> are the
  values the encoder is meant for.
\<close>

locale codec =
  fixes put :: "'a \<Rightarrow> u8 list"
    and get :: "u8 list \<Rightarrow> ('a \<times> u8 list) option"
    and valid :: "'a \<Rightarrow> bool"
  assumes get_put: "valid x \<Longrightarrow> get (put x @ rest) = Some (x, rest)"
begin

lemma put_inject:
  "valid x \<Longrightarrow> valid y \<Longrightarrow> put x @ r = put y @ r' \<longleftrightarrow> x = y \<and> r = r'"
  by (metis get_put option.inject prod.inject)

lemma put_prefix_free: "valid x \<Longrightarrow> valid y \<Longrightarrow> x \<noteq> y \<Longrightarrow> put x \<noteq> put y @ r"
  using put_inject [of x y "[]" r] by simp

end

text \<open>Reading a given number of values with a decoder.\<close>

fun get_many :: "(u8 list \<Rightarrow> ('a \<times> u8 list) option) \<Rightarrow> nat \<Rightarrow> u8 list \<Rightarrow> ('a list \<times> u8 list) option" where
  "get_many get 0 bs = Some ([], bs)"
| "get_many get (Suc n) bs =
     (case get bs of None \<Rightarrow> None
      | Some (x, bs') \<Rightarrow> (case get_many get n bs' of None \<Rightarrow> None
          | Some (xs, bs'') \<Rightarrow> Some (x # xs, bs'')))"

context codec
begin

lemma get_many_put:
  "list_all valid xs \<Longrightarrow> get_many get (length xs) (concat (map put xs) @ rest) = Some (xs, rest)"
  by (induction xs) (simp_all add: get_put)

end

end
