(* ===== verification/ChannelTypes.thy ===== *)
theory ChannelTypes
  imports Prelude
begin

text \<open>
  The data of the channel log machine: \<open>pkg/channelv2/machine/channel.go\<close> and what it uses of
  \<open>pkg/channelv2/types.go\<close> and \<open>errors.go\<close>, one record per struct.
  A nil slice and an empty one are the same list; the enumerations have a constructor for Go's zero value and one for each
  declared constant. \<open>PendingAppends\<close> is an association list since the code counts and
  iterates it; \<open>Progress\<close> is only read and written by key, so it is a function with Go's zero
  value where no entry is stored.
\<close>

section \<open>Data\<close>

type_synonym NodeID = u64
type_synonym OpID = u64
type_synonym ChannelKey = string

record ChannelID =
  cid_ID :: string
  cid_Type :: u8

datatype Status = StatusZero | StatusCreating | StatusActive | StatusDeleting | StatusDeleted

datatype Role = RoleZero | RoleFollower | RoleLeader

datatype CommitMode = CommitModeZero | CommitModeQuorum | CommitModeLocal

datatype ChErr = ErrInvalidConfig | ErrBackpressured | ErrNotLeader | ErrNotReady | ErrStaleMeta
  | ErrChannelNotFound | ErrNotReplica | ErrClosed | ErrTooManyChannels | StoreErr string

record Meta =
  m_Key :: ChannelKey
  m_ID :: ChannelID
  m_Epoch :: u64
  m_LeaderEpoch :: u64
  m_Leader :: NodeID
  m_Replicas :: "NodeID list"
  m_ISR :: "NodeID list"
  m_MinISR :: int
  m_LeaseUntil :: int
  m_RetentionThroughSeq :: u64
  m_Status :: Status

record Message =
  msg_MessageID :: u64
  msg_MessageSeq :: u64
  msg_ChannelID :: string
  msg_ChannelType :: u8
  msg_FromUID :: string
  msg_ClientMsgNo :: string
  msg_ServerTimestampMS :: int
  msg_TraceID :: string
  msg_ChannelKey :: string
  msg_SyncOnce :: bool
  msg_Payload :: "u8 list"

record Fence =
  f_ChannelKey :: ChannelKey
  f_Generation :: u64
  f_Epoch :: u64
  f_LeaderEpoch :: u64
  f_OpID :: OpID

record Record =
  r_ID :: u64
  r_Index :: u64
  r_Epoch :: u64
  r_FromUID :: string
  r_ClientMsgNo :: string
  r_ServerTimestampMS :: int
  r_SyncOnce :: bool
  r_Payload :: "u8 list"
  r_SizeBytes :: int

record AppendBatchItemResult =
  it_MessageID :: u64
  it_MessageSeq :: u64
  it_Message :: Message
  it_Err :: "ChErr option"

datatype TaskKind = TaskKindStoreAppend | TaskKindStoreReadLog | TaskKindStoreApply
  | TaskKindRPCPull | TaskKindRPCAck

record StoreAppendTask =
  sa_Records :: "Record list"
  sa_Sync :: bool

record ReadLogTask =
  rl_FromOffset :: u64
  rl_MaxOffset :: u64
  rl_MaxBytes :: int

record StoreApplyTask =
  sy_Records :: "Record list"
  sy_LeaderHW :: u64

record AckTask =
  at_Follower :: NodeID
  at_MatchOffset :: u64

record Task =
  t_Kind :: TaskKind
  t_Fence :: Fence
  t_StoreAppend :: "StoreAppendTask option"
  t_ReadLog :: "ReadLogTask option"
  t_StoreApply :: "StoreApplyTask option"
  t_Ack :: "AckTask option"

datatype ReplyKind = ReplyKindAppend

record Reply =
  rp_Kind :: ReplyKind
  rp_OpID :: OpID
  rp_Err :: "ChErr option"
  rp_Append :: AppendBatchItemResult
  rp_AppendItems :: "AppendBatchItemResult list"

datatype Signal = SignalKindReplicate

record Decision =
  d_Err :: "ChErr option"
  d_Tasks :: "Task list"
  d_Replies :: "Reply list"
  d_Signals :: "Signal list"

record ReplicaProgress =
  pr_Match :: u64

record AppendBatchWaiter =
  bw_OpID :: OpID
  bw_CommitMode :: CommitMode
  bw_OmitResultPayload :: bool
  bw_Records :: "Record list"

record AppendBatchCommand =
  bc_BatchOpID :: OpID
  bc_Waiters :: "AppendBatchWaiter list"

record AppendCommand =
  ac_OpID :: OpID
  ac_CommitMode :: CommitMode
  ac_Records :: "Record list"

record AppendStoredResult =
  as_Fence :: Fence
  as_BaseOffset :: u64
  as_LastOffset :: u64
  as_Err :: "ChErr option"

record FollowerAck =
  fa_Follower :: NodeID
  fa_MatchOffset :: u64

record AppendWaiter =
  w_OpID :: OpID
  w_Target :: u64
  w_CommitMode :: CommitMode
  w_OmitResultPayload :: bool
  w_Records :: "Record list"

record AppendOp =
  op_OpID :: OpID
  op_Records :: "Record list"
  op_WaiterOpIDs :: "OpID list"
  op_WaiterRecordCounts :: "nat list"

record ChannelState =
  cs_Key :: ChannelKey
  cs_LocalNode :: NodeID
  cs_Generation :: u64
  cs_ID :: ChannelID
  cs_Epoch :: u64
  cs_LeaderEpoch :: u64
  cs_Role :: Role
  cs_Status :: Status
  cs_Leader :: NodeID
  cs_Replicas :: "NodeID list"
  cs_ISR :: "NodeID list"
  cs_MinISR :: int
  cs_LEO :: u64
  cs_HW :: u64
  cs_CheckpointHW :: u64
  cs_RetentionThroughSeq :: u64
  cs_LocalRetentionThroughSeq :: u64
  cs_PhysicalRetentionThroughSeq :: u64
  cs_CommitReady :: bool
  cs_Progress :: "NodeID \<Rightarrow> ReplicaProgress"
  cs_PendingAppends :: "(OpID, AppendWaiter) gomap"
  cs_PendingAppendOrder :: "OpID list"
  cs_InflightAppend :: "AppendOp option"

text \<open>\<open>Decision{}\<close> and the zero values the code writes out.\<close>

definition no_decision :: Decision where
  "no_decision = \<lparr>d_Err = None, d_Tasks = [], d_Replies = [], d_Signals = []\<rparr>"

definition fail_decision :: "ChErr \<Rightarrow> Decision" where
  "fail_decision e = no_decision\<lparr>d_Err := Some e\<rparr>"

definition zero_message :: Message where
  "zero_message = \<lparr>msg_MessageID = 0, msg_MessageSeq = 0, msg_ChannelID = [], msg_ChannelType = 0,
     msg_FromUID = [], msg_ClientMsgNo = [], msg_ServerTimestampMS = 0, msg_TraceID = [],
     msg_ChannelKey = [], msg_SyncOnce = False, msg_Payload = []\<rparr>"

definition zero_item :: AppendBatchItemResult where
  "zero_item = \<lparr>it_MessageID = 0, it_MessageSeq = 0, it_Message = zero_message, it_Err = None\<rparr>"

definition NewChannelState :: "ChannelKey \<Rightarrow> NodeID \<Rightarrow> u64 \<Rightarrow> ChannelState" where
  "NewChannelState key local generation =
     \<lparr>cs_Key = key, cs_LocalNode = local, cs_Generation = generation,
      cs_ID = \<lparr>cid_ID = [], cid_Type = 0\<rparr>, cs_Epoch = 0, cs_LeaderEpoch = 0, cs_Role = RoleZero,
      cs_Status = StatusZero, cs_Leader = 0, cs_Replicas = [], cs_ISR = [], cs_MinISR = 0,
      cs_LEO = 0, cs_HW = 0, cs_CheckpointHW = 0, cs_RetentionThroughSeq = 0,
      cs_LocalRetentionThroughSeq = 0, cs_PhysicalRetentionThroughSeq = 0, cs_CommitReady = False,
      cs_Progress = (\<lambda>_. \<lparr>pr_Match = 0\<rparr>), cs_PendingAppends = [], cs_PendingAppendOrder = [],
      cs_InflightAppend = None\<rparr>"

end
