(* ===== verification/ChannelMachine.thy ===== *)
theory ChannelMachine
  imports ChannelTypes
begin

text \<open>
  The operations of the channel log machine, \<open>pkg/channelv2/machine\<close>: one definition per method
  of \<open>ChannelState\<close>. A method that mutates the receiver returns the new state; \<open>None\<close>
  is a run-time panic (a slice or index out of range).
\<close>

section \<open>Metadata (meta.go)\<close>

definition ValidateMeta :: "ChannelState \<Rightarrow> Meta \<Rightarrow> ChErr option" where
  "ValidateMeta s meta =
     (if m_Key meta \<noteq> [] \<and> m_Key meta \<noteq> cs_Key s then Some ErrStaleMeta
      else if m_MinISR meta \<le> 0 \<or> m_MinISR meta > int (length (m_ISR meta)) then Some ErrInvalidConfig
      else None)"

definition shouldClearAppendStateForMeta :: "ChannelState \<Rightarrow> Meta \<Rightarrow> bool" where
  "shouldClearAppendStateForMeta s meta =
     (let nextRole = (if m_Leader meta = cs_LocalNode s then RoleLeader else RoleFollower)
      in cs_Epoch s \<noteq> m_Epoch meta \<or> cs_LeaderEpoch s \<noteq> m_LeaderEpoch meta
         \<or> cs_Leader s \<noteq> m_Leader meta \<or> cs_Role s \<noteq> nextRole \<or> cs_Status s \<noteq> m_Status meta)"

definition clearAppendState :: "ChannelState \<Rightarrow> ChannelState" where
  "clearAppendState s =
     s\<lparr>cs_InflightAppend := None, cs_PendingAppends := [], cs_PendingAppendOrder := []\<rparr>"

definition ApplyMeta :: "ChannelState \<Rightarrow> Meta \<Rightarrow> ChannelState \<times> Decision" where
  "ApplyMeta s meta =
     (case ValidateMeta s meta of
        Some err \<Rightarrow> (s, fail_decision err)
      | None \<Rightarrow>
          let s = (if shouldClearAppendStateForMeta s meta then clearAppendState s else s);
              s = s\<lparr>cs_ID := m_ID meta, cs_Epoch := m_Epoch meta, cs_LeaderEpoch := m_LeaderEpoch meta,
                    cs_Leader := m_Leader meta, cs_Replicas := m_Replicas meta, cs_ISR := m_ISR meta,
                    cs_MinISR := m_MinISR meta\<rparr>;
              s = (if m_RetentionThroughSeq meta > cs_RetentionThroughSeq s
                   then s\<lparr>cs_RetentionThroughSeq := m_RetentionThroughSeq meta\<rparr> else s);
              s = s\<lparr>cs_Status := m_Status meta\<rparr>
          in if m_Status meta = StatusDeleted then (s\<lparr>cs_CommitReady := False\<rparr>, no_decision)
             else
               let s = (if m_Leader meta = cs_LocalNode s
                        then s\<lparr>cs_Role := RoleLeader,
                               cs_Progress := (cs_Progress s)(cs_LocalNode s := \<lparr>pr_Match = cs_LEO s\<rparr>)\<rparr>
                        else s\<lparr>cs_Role := RoleFollower\<rparr>)
               in (s\<lparr>cs_CommitReady := (m_Status meta = StatusActive \<or> m_Status meta = StatusCreating)\<rparr>,
                   no_decision))"

definition IsReplica :: "ChannelState \<Rightarrow> NodeID \<Rightarrow> bool" where
  "IsReplica s node = list_ex (\<lambda>replica. replica = node) (cs_Replicas s)"

definition IsISR :: "ChannelState \<Rightarrow> NodeID \<Rightarrow> bool" where
  "IsISR s node = list_ex (\<lambda>replica. replica = node) (cs_ISR s)"

section \<open>High watermark (progress.go) and invariants (invariant.go)\<close>

definition AdvanceHW :: "ChannelState \<Rightarrow> ChannelState \<times> bool" where
  "AdvanceHW s =
     (if cs_MinISR s \<le> 0 \<or> int (length (cs_ISR s)) < cs_MinISR s then (s, False)
      else
        let matches = map (\<lambda>replica. pr_Match (cs_Progress s replica)) (cs_ISR s);
            sorted = sort_by (\<lambda>a b. a > b) matches;
            nxt = sorted ! nat (cs_MinISR s - 1)
        in if nxt \<le> cs_HW s then (s, False) else (s\<lparr>cs_HW := nxt\<rparr>, True))"

definition CheckInvariants :: "ChannelState \<Rightarrow> ChErr option" where
  "CheckInvariants s =
     (if cs_CheckpointHW s > cs_HW s \<or> cs_HW s > cs_LEO s then Some ErrInvalidConfig else None)"

section \<open>Appends (append.go)\<close>

definition cloneBytes :: "u8 list \<Rightarrow> u8 list" where
  "cloneBytes b = (if length b = 0 then [] else b)"

definition cloneRecords :: "Record list \<Rightarrow> Record list" where
  "cloneRecords rs = map (\<lambda>r. r\<lparr>r_Payload := cloneBytes (r_Payload r)\<rparr>) rs"

definition maxUint64 :: "u64 \<Rightarrow> u64 \<Rightarrow> u64" where
  "maxUint64 left right = (if left > right then left else right)"

definition appendPendingAppendOrder :: "ChannelState \<Rightarrow> OpID \<Rightarrow> ChannelState" where
  "appendPendingAppendOrder s opID =
     (if opID \<in> set (cs_PendingAppendOrder s) then s
      else s\<lparr>cs_PendingAppendOrder := cs_PendingAppendOrder s @ [opID]\<rparr>)"

definition removePendingAppendOrder :: "ChannelState \<Rightarrow> OpID list \<Rightarrow> ChannelState" where
  "removePendingAppendOrder s opIDs =
     (if length opIDs = 0 \<or> length (cs_PendingAppendOrder s) = 0 then s
      else s\<lparr>cs_PendingAppendOrder :=
               filter (\<lambda>opID. opID \<notin> set opIDs) (cs_PendingAppendOrder s)\<rparr>)"

definition pendingAppendOrder :: "ChannelState \<Rightarrow> OpID list" where
  "pendingAppendOrder s = cs_PendingAppendOrder s"

definition sortedPendingAppendOpIDs :: "ChannelState \<Rightarrow> OpID list" where
  "sortedPendingAppendOpIDs s = sort_by (\<lambda>a b. a < b) (map fst (cs_PendingAppends s))"

text \<open>The validation loop of \<open>ProposeAppendBatch\<close>, with the operations seen so far.\<close>

fun check_waiters ::
  "(OpID, AppendWaiter) gomap \<Rightarrow> OpID list \<Rightarrow> AppendBatchWaiter list \<Rightarrow> ChErr option" where
  "check_waiters pending seen [] = None"
| "check_waiters pending seen (w # ws) =
     (if length (bw_Records w) = 0 then Some ErrInvalidConfig
      else if bw_OpID w \<in> set seen then Some ErrInvalidConfig
      else if map_of pending (bw_OpID w) \<noteq> None then Some ErrNotReady
      else check_waiters pending (bw_OpID w # seen) ws)"

text \<open>The registration loop: one pending waiter per request, the records flattened in order.\<close>

definition new_waiter :: "AppendBatchWaiter \<Rightarrow> AppendWaiter" where
  "new_waiter w =
     (let mode = (if bw_CommitMode w = CommitModeZero then CommitModeQuorum else bw_CommitMode w)
      in \<lparr>w_OpID = bw_OpID w, w_Target = 0, w_CommitMode = mode,
          w_OmitResultPayload = bw_OmitResultPayload w, w_Records = cloneRecords (bw_Records w)\<rparr>)"

definition register_waiter :: "ChannelState \<Rightarrow> AppendBatchWaiter \<Rightarrow> ChannelState" where
  "register_waiter s w =
     appendPendingAppendOrder
       (s\<lparr>cs_PendingAppends := AList.update (bw_OpID w) (new_waiter w) (cs_PendingAppends s)\<rparr>)
       (bw_OpID w)"

fun register_waiters :: "ChannelState \<Rightarrow> AppendBatchWaiter list \<Rightarrow> ChannelState" where
  "register_waiters s [] = s"
| "register_waiters s (w # ws) = register_waiters (register_waiter s w) ws"

definition flat_records :: "AppendBatchWaiter list \<Rightarrow> Record list" where
  "flat_records ws = concat (map (\<lambda>w. cloneRecords (bw_Records w)) ws)"

definition state_fence :: "ChannelState \<Rightarrow> OpID \<Rightarrow> Fence" where
  "state_fence s opID = \<lparr>f_ChannelKey = cs_Key s, f_Generation = cs_Generation s, f_Epoch = cs_Epoch s,
     f_LeaderEpoch = cs_LeaderEpoch s, f_OpID = opID\<rparr>"

definition ProposeAppendBatch :: "ChannelState \<Rightarrow> AppendBatchCommand \<Rightarrow> ChannelState \<times> Decision" where
  "ProposeAppendBatch s cmd =
     (if cs_Status s = StatusDeleted \<or> cs_Status s = StatusDeleting
        then (s, fail_decision ErrChannelNotFound)
      else if cs_Role s \<noteq> RoleLeader then (s, fail_decision ErrNotLeader)
      else if \<not> cs_CommitReady s then (s, fail_decision ErrNotReady)
      else if cs_InflightAppend s \<noteq> None then (s, fail_decision ErrNotReady)
      else case check_waiters (cs_PendingAppends s) [] (bc_Waiters cmd) of
        Some err \<Rightarrow> (s, fail_decision err)
      | None \<Rightarrow>
        if sum_list (map (\<lambda>w. length (bw_Records w)) (bc_Waiters cmd)) = 0 then (s, no_decision)
        else
          let records = flat_records (bc_Waiters cmd);
              s' = register_waiters s (bc_Waiters cmd);
              s' = s'\<lparr>cs_InflightAppend := Some
                      \<lparr>op_OpID = bc_BatchOpID cmd, op_Records = records,
                       op_WaiterOpIDs = map bw_OpID (bc_Waiters cmd),
                       op_WaiterRecordCounts =
                         map (\<lambda>w. length (cloneRecords (bw_Records w))) (bc_Waiters cmd)\<rparr>\<rparr>
          in (s', no_decision\<lparr>d_Tasks :=
                [\<lparr>t_Kind = TaskKindStoreAppend, t_Fence = state_fence s' (bc_BatchOpID cmd),
                  t_StoreAppend = Some \<lparr>sa_Records = records, sa_Sync = True\<rparr>,
                  t_ReadLog = None, t_StoreApply = None, t_Ack = None\<rparr>]\<rparr>))"

definition ProposeAppend :: "ChannelState \<Rightarrow> AppendCommand \<Rightarrow> ChannelState \<times> Decision" where
  "ProposeAppend s cmd = ProposeAppendBatch s
     \<lparr>bc_BatchOpID = ac_OpID cmd,
      bc_Waiters = [\<lparr>bw_OpID = ac_OpID cmd, bw_CommitMode = ac_CommitMode cmd,
                     bw_OmitResultPayload = False, bw_Records = ac_Records cmd\<rparr>]\<rparr>"

definition CancelAppendWaiter :: "ChannelState \<Rightarrow> OpID \<Rightarrow> ChannelState \<times> bool" where
  "CancelAppendWaiter s opID =
     (if map_of (cs_PendingAppends s) opID = None then (s, False)
      else (removePendingAppendOrder
              (s\<lparr>cs_PendingAppends := AList.delete opID (cs_PendingAppends s)\<rparr>) [opID], True))"

fun delete_all :: "'k list \<Rightarrow> ('k, 'v) gomap \<Rightarrow> ('k, 'v) gomap" where
  "delete_all [] m = m"
| "delete_all (k # ks) m = delete_all ks (AList.delete k m)"

definition AbortAppendBatchProposal :: "ChannelState \<Rightarrow> OpID \<Rightarrow> ChannelState" where
  "AbortAppendBatchProposal s batchOpID =
     (case cs_InflightAppend s of
        None \<Rightarrow> s
      | Some op \<Rightarrow>
          if op_OpID op \<noteq> batchOpID then s
          else
            let s = s\<lparr>cs_PendingAppends := delete_all (op_WaiterOpIDs op) (cs_PendingAppends s)\<rparr>;
                s = removePendingAppendOrder s (op_WaiterOpIDs op)
            in s\<lparr>cs_InflightAppend := None\<rparr>)"

definition matchesInflightFence :: "ChannelState \<Rightarrow> Fence \<Rightarrow> bool" where
  "matchesInflightFence s fence =
     (f_ChannelKey fence = cs_Key s \<and> f_Generation fence = cs_Generation s
      \<and> f_Epoch fence = cs_Epoch s \<and> f_LeaderEpoch fence = cs_LeaderEpoch s
      \<and> (case cs_InflightAppend s of None \<Rightarrow> False | Some op \<Rightarrow> op_OpID op = f_OpID fence))"

definition fail_reply :: "ChErr \<Rightarrow> OpID \<Rightarrow> Reply" where
  "fail_reply err opID = \<lparr>rp_Kind = ReplyKindAppend, rp_OpID = opID, rp_Err = Some err,
     rp_Append = zero_item, rp_AppendItems = []\<rparr>"

text \<open>The loop of \<open>failInflightAppend\<close>: the failed replies and the pending map after it.\<close>

fun fail_loop ::
  "ChErr \<Rightarrow> OpID list \<Rightarrow> (OpID, AppendWaiter) gomap \<Rightarrow> Reply list \<times> OpID list \<times> (OpID, AppendWaiter) gomap" where
  "fail_loop err [] pending = ([], [], pending)"
| "fail_loop err (opID # ids) pending =
     (if map_of pending opID = None then fail_loop err ids pending
      else
        let (replies, completed, pending') = fail_loop err ids (AList.delete opID pending)
        in (fail_reply err opID # replies, opID # completed, pending'))"

definition failInflightAppend :: "ChannelState \<Rightarrow> ChErr \<Rightarrow> ChannelState \<times> Decision" where
  "failInflightAppend s err =
     (case cs_InflightAppend s of
        None \<Rightarrow> (s, no_decision)
      | Some op \<Rightarrow>
          let (replies, completed, pending) = fail_loop err (op_WaiterOpIDs op) (cs_PendingAppends s);
              s = removePendingAppendOrder (s\<lparr>cs_PendingAppends := pending\<rparr>) completed
          in (s\<lparr>cs_InflightAppend := None\<rparr>, no_decision\<lparr>d_Replies := replies\<rparr>))"

definition stored_record :: "u64 \<Rightarrow> u64 \<Rightarrow> nat \<Rightarrow> Record \<Rightarrow> Record" where
  "stored_record epoch base i r =
     (let r = r\<lparr>r_Index := base + of_nat i\<rparr>
      in if r_Epoch r = 0 then r\<lparr>r_Epoch := epoch\<rparr> else r)"

definition assignStoredOffsets :: "ChannelState \<Rightarrow> Record list \<Rightarrow> u64 \<Rightarrow> Record list" where
  "assignStoredOffsets s records base =
     map (\<lambda>(i, r). stored_record (cs_Epoch s) base i r) (List.enumerate 0 records)"

definition assignStoredRecordMetadata :: "Record list \<Rightarrow> Record list \<Rightarrow> Record list" where
  "assignStoredRecordMetadata target source =
     map (\<lambda>(t, r). t\<lparr>r_ID := r_ID r, r_Index := r_Index r, r_Epoch := r_Epoch r,
                     r_SizeBytes := r_SizeBytes r\<rparr>) (zip target source)"

text \<open>The new value of one waiter that is given the segment \<open>source\<close> of the stored batch.\<close>

definition assign_waiter :: "AppendWaiter \<Rightarrow> Record list \<Rightarrow> AppendWaiter" where
  "assign_waiter w source =
     (let recs = (if length (w_Records w) = length source
                  then assignStoredRecordMetadata (w_Records w) source
                  else cloneRecords source);
          w = w\<lparr>w_Records := recs\<rparr>
      in if length recs > 0 then w\<lparr>w_Target := r_Index (last recs)\<rparr> else w)"

text \<open>
  The loop of \<open>assignInflightRecordsToWaiters\<close>: \<open>counts\<close> is what is left of
  \<open>WaiterRecordCounts\<close>, \<open>nxt\<close> the offset in the flattened records.
\<close>

fun assign_loop ::
  "Record list \<Rightarrow> nat \<Rightarrow> OpID list \<Rightarrow> nat list \<Rightarrow> (OpID, AppendWaiter) gomap
     \<Rightarrow> (OpID, AppendWaiter) gomap option" where
  "assign_loop records nxt [] counts pending = Some pending"
| "assign_loop records nxt (opID # ids) counts pending =
     (let count = (case counts of [] \<Rightarrow> 0 | c # _ \<Rightarrow> c); rest = tl counts
      in case map_of pending opID of
           None \<Rightarrow> assign_loop records (nxt + count) ids rest pending
         | Some w \<Rightarrow>
             let count = (if count = 0 then length (w_Records w) else count);
                 stop = (if count > 0 then nxt + count else nxt + length (w_Records w));
                 stop = (if stop > length records then length records else stop)
             in case go_slice records nxt stop of
                  None \<Rightarrow> None
                | Some source \<Rightarrow>
                    assign_loop records stop ids rest
                      (AList.update opID (assign_waiter w source) pending))"

definition assignInflightRecordsToWaiters :: "ChannelState \<Rightarrow> AppendOp \<Rightarrow> ChannelState option" where
  "assignInflightRecordsToWaiters s op =
     map_option (\<lambda>pending. s\<lparr>cs_PendingAppends := pending\<rparr>)
       (assign_loop (op_Records op) 0 (op_WaiterOpIDs op) (op_WaiterRecordCounts op)
          (cs_PendingAppends s))"

definition appendItemsForRecords ::
  "ChannelID \<Rightarrow> Record list \<Rightarrow> bool \<Rightarrow> AppendBatchItemResult list" where
  "appendItemsForRecords cid records omitPayload =
     map (\<lambda>record.
       let msg = zero_message\<lparr>msg_MessageID := r_ID record, msg_MessageSeq := r_Index record,
                   msg_ChannelID := cid_ID cid, msg_ChannelType := cid_Type cid,
                   msg_FromUID := r_FromUID record, msg_ClientMsgNo := r_ClientMsgNo record,
                   msg_ServerTimestampMS := r_ServerTimestampMS record,
                   msg_SyncOnce := r_SyncOnce record\<rparr>;
           msg = (if \<not> omitPayload then msg\<lparr>msg_Payload := cloneBytes (r_Payload record)\<rparr> else msg)
       in \<lparr>it_MessageID = r_ID record, it_MessageSeq = r_Index record, it_Message = msg,
           it_Err = None\<rparr>) records"

text \<open>The guard and the reply of the completion loop.\<close>

definition waiter_ready :: "u64 \<Rightarrow> AppendWaiter \<Rightarrow> bool" where
  "waiter_ready hw w = (w_Target w \<noteq> 0 \<and> \<not> (w_CommitMode w = CommitModeQuorum \<and> hw < w_Target w))"

definition append_reply :: "ChannelID \<Rightarrow> OpID \<Rightarrow> AppendWaiter \<Rightarrow> Reply" where
  "append_reply cid opID w =
     (let items = appendItemsForRecords cid (w_Records w) (w_OmitResultPayload w)
      in \<lparr>rp_Kind = ReplyKindAppend, rp_OpID = opID, rp_Err = None,
          rp_Append = (case items of [] \<Rightarrow> zero_item | it # _ \<Rightarrow> it), rp_AppendItems = items\<rparr>)"

fun complete_loop ::
  "ChannelID \<Rightarrow> u64 \<Rightarrow> OpID list \<Rightarrow> (OpID, AppendWaiter) gomap
     \<Rightarrow> Reply list \<times> OpID list \<times> (OpID, AppendWaiter) gomap" where
  "complete_loop cid hw [] pending = ([], [], pending)"
| "complete_loop cid hw (opID # ids) pending =
     (case map_of pending opID of
        None \<Rightarrow> complete_loop cid hw ids pending
      | Some w \<Rightarrow>
          if \<not> waiter_ready hw w then complete_loop cid hw ids pending
          else
            let (replies, completed, pending') = complete_loop cid hw ids (AList.delete opID pending)
            in (append_reply cid opID w # replies, opID # completed, pending'))"

definition completion_order :: "ChannelState \<Rightarrow> OpID list \<Rightarrow> OpID list" where
  "completion_order s order =
     (if length order = 0
      then (if length (pendingAppendOrder s) = 0 then sortedPendingAppendOpIDs s
            else pendingAppendOrder s)
      else order)"

definition completeAppendWaiters :: "ChannelState \<Rightarrow> OpID list \<Rightarrow> ChannelState \<times> Decision" where
  "completeAppendWaiters s order =
     (if length (cs_PendingAppends s) = 0 then (s, no_decision)
      else
        let (replies, completed, pending) =
              complete_loop (cs_ID s) (cs_HW s) (completion_order s order) (cs_PendingAppends s);
            s = removePendingAppendOrder (s\<lparr>cs_PendingAppends := pending\<rparr>) completed
        in (s, no_decision\<lparr>d_Replies := replies\<rparr>))"

definition ApplyAppendStored :: "ChannelState \<Rightarrow> AppendStoredResult \<Rightarrow> (ChannelState \<times> Decision) option" where
  "ApplyAppendStored s res =
     (if \<not> matchesInflightFence s (as_Fence res) then Some (s, no_decision)
      else case as_Err res of
        Some err \<Rightarrow> Some (failInflightAppend s err)
      | None \<Rightarrow>
        (case cs_InflightAppend s of None \<Rightarrow> None
         | Some op \<Rightarrow>
            let op = op\<lparr>op_Records := assignStoredOffsets s (op_Records op) (as_BaseOffset res)\<rparr>
            in case assignInflightRecordsToWaiters s op of None \<Rightarrow> None
               | Some s \<Rightarrow>
                  let s = s\<lparr>cs_LEO := maxUint64 (cs_LEO s) (as_LastOffset res)\<rparr>;
                      s = (if cs_Role s = RoleLeader
                           then fst (AdvanceHW (s\<lparr>cs_Progress :=
                                  (cs_Progress s)(cs_LocalNode s := \<lparr>pr_Match = cs_LEO s\<rparr>)\<rparr>))
                           else s);
                      s = s\<lparr>cs_InflightAppend := None\<rparr>;
                      (s, decision) = completeAppendWaiters s (op_WaiterOpIDs op)
                  in Some (s, decision\<lparr>d_Signals := d_Signals decision @ [SignalKindReplicate]\<rparr>)))"

definition ApplyFollowerAck :: "ChannelState \<Rightarrow> FollowerAck \<Rightarrow> ChannelState \<times> Decision" where
  "ApplyFollowerAck s ack =
     (if cs_Role s \<noteq> RoleLeader \<or> \<not> IsReplica s (fa_Follower ack) then (s, no_decision)
      else
        let progress = cs_Progress s (fa_Follower ack);
            s = (if fa_MatchOffset ack > pr_Match progress
                 then s\<lparr>cs_Progress := (cs_Progress s)(fa_Follower ack := \<lparr>pr_Match = fa_MatchOffset ack\<rparr>)\<rparr>
                 else s);
            s = fst (AdvanceHW s)
        in completeAppendWaiters s (pendingAppendOrder s))"

end
