(* ===== verification/ChannelInvariant.thy ===== *)
theory ChannelInvariant
  imports ChannelMachine
begin

text \<open>
  The bookkeeping invariant of the channel machine and the proof that every operation keeps it.
  Each loop of \<open>append.go\<close> is first rewritten to a closed form (a filter or a map over the pending
  map), which the later proofs use.
\<close>

section \<open>The closed forms of the loops\<close>

lemma cloneRecords_id [simp, go_list]: "cloneRecords rs = rs"
  by (induction rs) (auto simp: cloneRecords_def cloneBytes_def)

lemma delete_all_eq_filter: "delete_all ks m = filter (\<lambda>(k, _). k \<notin> set ks) m"
  by (induction ks arbitrary: m) (auto simp: delete_eq_filter intro!: filter_cong)

lemma removePendingAppendOrder_eq:
  "removePendingAppendOrder s ids =
     s\<lparr>cs_PendingAppendOrder := filter (\<lambda>k. k \<notin> set ids) (cs_PendingAppendOrder s)\<rparr>"
  by (cases s) (auto simp: removePendingAppendOrder_def)

lemma check_waiters_None:
  "check_waiters pending seen ws = None \<longleftrightarrow>
     distinct (map bw_OpID ws) \<and>
     (\<forall>w \<in> set ws. bw_Records w \<noteq> [] \<and> bw_OpID w \<notin> set seen \<and> map_of pending (bw_OpID w) = None)"
  by (induction pending seen ws rule: check_waiters.induct) (auto simp: image_iff)

lemma register_waiter_eq:
  assumes "bw_OpID w \<notin> fst ` set (cs_PendingAppends s)" "bw_OpID w \<notin> set (cs_PendingAppendOrder s)"
  shows "register_waiter s w =
     s\<lparr>cs_PendingAppends := cs_PendingAppends s @ [(bw_OpID w, new_waiter w)],
       cs_PendingAppendOrder := cs_PendingAppendOrder s @ [bw_OpID w]\<rparr>"
  using assms by (simp add: register_waiter_def appendPendingAppendOrder_def update_fresh)

lemma register_waiters_eq:
  assumes "distinct (map bw_OpID ws)"
    and "\<forall>w \<in> set ws. bw_OpID w \<notin> fst ` set (cs_PendingAppends s)"
    and "\<forall>w \<in> set ws. bw_OpID w \<notin> set (cs_PendingAppendOrder s)"
  shows "register_waiters s ws =
     s\<lparr>cs_PendingAppends := cs_PendingAppends s @ map (\<lambda>w. (bw_OpID w, new_waiter w)) ws,
       cs_PendingAppendOrder := cs_PendingAppendOrder s @ map bw_OpID ws\<rparr>"
  using assms
proof (induction ws arbitrary: s)
  case Nil
  then show ?case by simp
next
  case (Cons w ws)
  have "register_waiters s (w # ws) = register_waiters (register_waiter s w) ws" by simp
  also have "register_waiter s w =
     s\<lparr>cs_PendingAppends := cs_PendingAppends s @ [(bw_OpID w, new_waiter w)],
       cs_PendingAppendOrder := cs_PendingAppendOrder s @ [bw_OpID w]\<rparr>"
    using Cons.prems by (intro register_waiter_eq) auto
  finally show ?case
    using Cons.prems by (subst (asm) Cons.IH) (auto simp: image_iff)
qed

lemma fail_loop_eq:
  "distinct ids \<Longrightarrow> fail_loop err ids pending =
     (let fin = filter (\<lambda>k. map_of pending k \<noteq> None) ids
      in (map (fail_reply err) fin, fin, filter (\<lambda>(k, _). k \<notin> set ids) pending))"
proof (induction ids arbitrary: pending)
  case Nil
  then show ?case by simp
next
  case (Cons k ids)
  show ?case
  proof (cases "map_of pending k")
    case None
    then have "filter (\<lambda>(k', _). k' \<notin> set (k # ids)) pending = filter (\<lambda>(k', _). k' \<notin> set ids) pending"
      by (intro filter_cong) (auto simp: map_of_None_iff image_iff)
    with None Cons show ?thesis by (simp add: Let_def)
  next
    case (Some w)
    have "filter (\<lambda>k'. map_of (AList.delete k pending) k' \<noteq> None) ids
        = filter (\<lambda>k'. map_of pending k' \<noteq> None) ids"
      using Cons.prems by (intro filter_cong) auto
    moreover have "filter (\<lambda>(k', _). k' \<notin> set ids) (AList.delete k pending)
        = filter (\<lambda>(k', _). k' \<notin> set (k # ids)) pending"
      by (auto simp: delete_eq_filter intro!: filter_cong)
    ultimately show ?thesis using Some Cons by (simp add: Let_def)
  qed
qed

text \<open>The operations of \<open>ids\<close> whose waiter the completion loop replies to.\<close>

definition ready_ids :: "u64 \<Rightarrow> (OpID, AppendWaiter) gomap \<Rightarrow> OpID list \<Rightarrow> OpID list" where
  "ready_ids hw pending ids =
     filter (\<lambda>k. case map_of pending k of None \<Rightarrow> False | Some w \<Rightarrow> waiter_ready hw w) ids"

lemma set_ready_ids:
  "k \<in> set (ready_ids hw pending ids) \<longleftrightarrow>
     k \<in> set ids \<and> (\<exists>w. map_of pending k = Some w \<and> waiter_ready hw w)"
  by (auto simp: ready_ids_def split: option.splits)

lemma complete_loop_eq:
  "distinct ids \<Longrightarrow> complete_loop cid hw ids pending =
     (let fin = ready_ids hw pending ids
      in (map (\<lambda>k. append_reply cid k (the (map_of pending k))) fin, fin,
          filter (\<lambda>(k, _). k \<notin> set fin) pending))"
proof (induction ids arbitrary: pending)
  case Nil
  then show ?case by (simp add: ready_ids_def)
next
  case (Cons k ids)
  show ?case
  proof (cases "\<exists>w. map_of pending k = Some w \<and> waiter_ready hw w")
    case False
    then have "complete_loop cid hw (k # ids) pending = complete_loop cid hw ids pending"
      by (auto split: option.splits)
    moreover have "ready_ids hw pending (k # ids) = ready_ids hw pending ids"
      using False by (auto simp: ready_ids_def split: option.splits)
    ultimately show ?thesis using Cons by simp
  next
    case True
    then obtain w where w: "map_of pending k = Some w" "waiter_ready hw w" by blast
    have same: "map_of (AList.delete k pending) k' = map_of pending k'" if "k' \<in> set ids" for k'
      using that Cons.prems by auto
    have fin: "ready_ids hw (AList.delete k pending) ids = ready_ids hw pending ids"
      unfolding ready_ids_def using same by (intro filter_cong) auto
    have "filter (\<lambda>(k', _). k' \<notin> set (ready_ids hw pending ids)) (AList.delete k pending)
        = filter (\<lambda>(k', _). k' \<notin> set (k # ready_ids hw pending ids)) pending"
      by (auto simp: delete_eq_filter intro!: filter_cong)
    moreover have "ready_ids hw pending (k # ids) = k # ready_ids hw pending ids"
      using w by (simp add: ready_ids_def)
    moreover have "map (\<lambda>k'. append_reply cid k' (the (map_of (AList.delete k pending) k')))
          (ready_ids hw pending ids)
        = map (\<lambda>k'. append_reply cid k' (the (map_of pending k'))) (ready_ids hw pending ids)"
      using same by (auto simp: set_ready_ids)
    ultimately show ?thesis using w Cons by (simp add: Let_def fin)
  qed
qed

lemma completeAppendWaiters_eq:
  assumes "distinct (completion_order s order)"
  defines "fin \<equiv> ready_ids (cs_HW s) (cs_PendingAppends s) (completion_order s order)"
  shows "completeAppendWaiters s order =
     (s\<lparr>cs_PendingAppends := filter (\<lambda>(k, _). k \<notin> set fin) (cs_PendingAppends s),
        cs_PendingAppendOrder := filter (\<lambda>k. k \<notin> set fin) (cs_PendingAppendOrder s)\<rparr>,
      no_decision\<lparr>d_Replies := map (\<lambda>k. append_reply (cs_ID s) k (the (map_of (cs_PendingAppends s) k))) fin\<rparr>)"
proof (cases "cs_PendingAppends s = []")
  case True
  then have "fin = []" by (simp add: fin_def ready_ids_def)
  with True show ?thesis
    by (cases s) (simp add: completeAppendWaiters_def no_decision_def)
next
  case False
  then show ?thesis
    by (simp add: completeAppendWaiters_def complete_loop_eq [OF assms(1)] Let_def
        removePendingAppendOrder_eq fin_def)
qed

text \<open>
  The assignment loop gives each pending waiter of the batch its segment of the stored records,
  provided the counts cut the records up exactly; in particular it never slices out of range.
\<close>

definition assigned :: "(OpID \<rightharpoonup> Record list) \<Rightarrow> OpID \<times> AppendWaiter \<Rightarrow> OpID \<times> AppendWaiter" where
  "assigned segs p = (case segs (fst p) of None \<Rightarrow> p | Some seg \<Rightarrow> (fst p, assign_waiter (snd p) seg))"

lemma fst_assigned [simp]: "fst (assigned segs p) = fst p"
  by (simp add: assigned_def split: option.splits)

lemma assign_loop_eq:
  assumes "distinct ids" "length counts = length ids" "0 \<notin> set counts"
    "nxt + sum_list counts = length records" "distinct (map fst pending)"
  shows "assign_loop records nxt ids counts pending =
    Some (map (assigned (map_of (zip ids (segments counts (drop nxt records))))) pending)"
  using assms
proof (induction ids arbitrary: nxt counts pending)
  case Nil
  then show ?case by (simp add: assigned_def)
next
  case (Cons k ids)
  then obtain c cs where counts: "counts = c # cs" by (cases counts) auto
  let ?rest = "map_of (zip ids (segments cs (drop (nxt + c) records)))"
  let ?segs = "map_of (zip (k # ids) (segments counts (drop nxt records)))"
  have segs: "?segs = ?rest(k \<mapsto> take c (drop nxt records))"
    by (simp add: counts add.commute)
  have rest_k: "?rest k = None"
    using Cons.prems by (auto simp: map_of_eq_None_iff counts dest: set_zip_leftD)
  show ?case
  proof (cases "map_of pending k")
    case None
    then have "k \<notin> fst ` set pending" by (simp add: map_of_None_iff)
    then have "map (assigned ?segs) pending = map (assigned ?rest) pending"
      by (auto simp: assigned_def segs)
    moreover have "assign_loop records (nxt + c) ids cs pending = Some (map (assigned ?rest) pending)"
      using Cons.prems by (intro Cons.IH) (auto simp: counts)
    moreover have "assign_loop records nxt (k # ids) counts pending
        = assign_loop records (nxt + c) ids cs pending"
      using None by (simp add: counts)
    ultimately show ?thesis by (simp only:)
  next
    case (Some w)
    let ?seg = "take c (drop nxt records)"
    let ?upd = "AList.update k (assign_waiter w ?seg) pending"
    have kin: "k \<in> fst ` set pending" using Some by (metis map_of_None_iff option.distinct(1))
    have slice: "go_slice records nxt (nxt + c) = Some ?seg"
      using Cons.prems by (simp add: go_slice_def counts)
    have c: "c \<noteq> 0" "nxt + c \<le> length records" using Cons.prems by (auto simp: counts)
    have "assign_loop records nxt (k # ids) counts pending = assign_loop records (nxt + c) ids cs ?upd"
      using Some slice c by (simp add: counts Let_def)
    also have "\<dots> = Some (map (assigned ?rest) ?upd)"
      using Cons.prems by (intro Cons.IH) (auto simp: counts)
    also have "map (assigned ?rest) ?upd = map (assigned ?segs) pending"
    proof -
      have "assigned ?rest (k', if k' = k then assign_waiter w ?seg else w') = assigned ?segs (k', w')"
        if "(k', w') \<in> set pending" for k' w'
      proof (cases "k' = k")
        case True
        with that Some Cons.prems(5) have "w' = w" by (auto dest: map_of_is_SomeI)
        with True show ?thesis by (simp add: assigned_def segs rest_k)
      qed (simp add: assigned_def segs)
      then show ?thesis
        by (auto simp: update_present [OF kin Cons.prems(5)])
    qed
    finally show ?thesis .
  qed
qed

section \<open>The bookkeeping invariant\<close>

text \<open>
  The pending map has one entry per operation, stored under its own id, and the proposal order
  lists exactly these ids once; the counts of the in-flight batch cut its flattened records into
  one non-empty segment per waiter (there is at least one), and a waiter that is still pending has the records of its
  segment.
\<close>

definition pending_ok :: "(OpID, AppendWaiter) gomap \<Rightarrow> OpID list \<Rightarrow> bool" where
  "pending_ok pending order \<longleftrightarrow>
     distinct (map fst pending) \<and> list_all (\<lambda>(k, w). w_OpID w = k) pending
     \<and> distinct order \<and> set order = fst ` set pending"

definition inflight_ok :: "(OpID, AppendWaiter) gomap \<Rightarrow> AppendOp option \<Rightarrow> bool" where
  "inflight_ok pending inflight \<longleftrightarrow>
     (case inflight of None \<Rightarrow> True
      | Some op \<Rightarrow>
          op_WaiterOpIDs op \<noteq> [] \<and> distinct (op_WaiterOpIDs op)
          \<and> length (op_WaiterRecordCounts op) = length (op_WaiterOpIDs op)
          \<and> 0 \<notin> set (op_WaiterRecordCounts op)
          \<and> sum_list (op_WaiterRecordCounts op) = length (op_Records op)
          \<and> list_all (\<lambda>(k, seg). case map_of pending k of None \<Rightarrow> True | Some w \<Rightarrow> w_Records w = seg)
              (zip (op_WaiterOpIDs op) (segments (op_WaiterRecordCounts op) (op_Records op))))"

definition watermark_ok :: "ChannelState \<Rightarrow> bool" where
  "watermark_ok s \<longleftrightarrow> CheckInvariants s = None \<and> (\<forall>n. pr_Match (cs_Progress s n) \<le> cs_LEO s)"

definition channel_inv :: "ChannelState \<Rightarrow> bool" where
  "channel_inv s \<longleftrightarrow>
     pending_ok (cs_PendingAppends s) (cs_PendingAppendOrder s)
     \<and> inflight_ok (cs_PendingAppends s) (cs_InflightAppend s) \<and> watermark_ok s"

lemma watermark_ok_iff:
  "watermark_ok s \<longleftrightarrow> cs_CheckpointHW s \<le> cs_HW s \<and> cs_HW s \<le> cs_LEO s
     \<and> (\<forall>n. pr_Match (cs_Progress s n) \<le> cs_LEO s)"
  by (auto simp: watermark_ok_def CheckInvariants_def not_less)

lemma pending_ok_Nil [simp]: "pending_ok [] []"
  by (simp add: pending_ok_def)

lemma inflight_ok_None [simp]: "inflight_ok pending None"
  by (simp add: inflight_ok_def)

lemma pending_ok_filter:
  "pending_ok pending order \<Longrightarrow> pending_ok (filter (\<lambda>(k, _). P k) pending) (filter P order)"
  by (auto simp: pending_ok_def distinct_keys_filter list_all_iff keys_filter)

lemma inflight_ok_filter:
  "inflight_ok pending inflight \<Longrightarrow> inflight_ok (filter (\<lambda>(k, _). P k) pending) inflight"
  by (fastforce simp: inflight_ok_def list_all_iff map_of_filter_keys split: option.splits if_splits)

lemma pending_ok_append:
  assumes "pending_ok pending order" and "distinct (map key ws)"
    and "\<forall>w \<in> set ws. key w \<notin> fst ` set pending" and "\<And>w. w_OpID (val w) = key w"
  shows "pending_ok (pending @ map (\<lambda>w. (key w, val w)) ws) (order @ map key ws)"
proof -
  have "map fst (map (\<lambda>w. (key w, val w)) ws) = map key ws" by simp
  moreover have "fst ` set (map (\<lambda>w. (key w, val w)) ws) = key ` set ws" by force
  moreover have "list_all (\<lambda>(k, w). w_OpID w = k) (map (\<lambda>w. (key w, val w)) ws)"
    using assms(4) by (simp add: list_all_iff)
  moreover have disj: "fst ` set pending \<inter> key ` set ws = {}"
    using assms(3) unfolding disjoint_iff by (metis imageE)
  ultimately show ?thesis
    using assms(1,2) disj
    unfolding pending_ok_def map_append distinct_append list_all_append set_append set_map image_Un
    by (simp add: comp_def image_image)
qed

text \<open>A removal is a filter of both the map and the order.\<close>

lemma filter_order_cong:
  assumes "pending_ok pending order" and "\<And>k. k \<in> fst ` set pending \<Longrightarrow> P k \<longleftrightarrow> Q k"
  shows "filter P order = filter Q order"
  using assms by (intro filter_cong) (auto simp: pending_ok_def)

lemma AdvanceHW_frame:
  "fst (AdvanceHW s) = s\<lparr>cs_HW := cs_HW (fst (AdvanceHW s))\<rparr>"
  by (simp add: AdvanceHW_def Let_def)

lemma AdvanceHW_fields [simp]:
  "cs_PendingAppends (fst (AdvanceHW s)) = cs_PendingAppends s"
  "cs_PendingAppendOrder (fst (AdvanceHW s)) = cs_PendingAppendOrder s"
  "cs_InflightAppend (fst (AdvanceHW s)) = cs_InflightAppend s"
  "cs_LEO (fst (AdvanceHW s)) = cs_LEO s"
  "cs_CheckpointHW (fst (AdvanceHW s)) = cs_CheckpointHW s"
  "cs_Progress (fst (AdvanceHW s)) = cs_Progress s"
  "cs_ISR (fst (AdvanceHW s)) = cs_ISR s" "cs_MinISR (fst (AdvanceHW s)) = cs_MinISR s"
  "cs_ID (fst (AdvanceHW s)) = cs_ID s"
  "cs_Role (fst (AdvanceHW s)) = cs_Role s"
  "cs_LocalNode (fst (AdvanceHW s)) = cs_LocalNode s"
  by (subst AdvanceHW_frame, simp)+

lemma AdvanceHW_mono: "cs_HW s \<le> cs_HW (fst (AdvanceHW s))"
  by (auto simp: AdvanceHW_def Let_def)

lemma AdvanceHW_from_match:
  "cs_HW (fst (AdvanceHW s)) = cs_HW s
     \<or> (\<exists>n \<in> set (cs_ISR s). cs_HW (fst (AdvanceHW s)) = pr_Match (cs_Progress s n))"
proof (cases "cs_MinISR s \<le> 0 \<or> int (length (cs_ISR s)) < cs_MinISR s")
  case False
  let ?ms = "map (\<lambda>n. pr_Match (cs_Progress s n)) (cs_ISR s)"
  have "sort_by (\<lambda>a b. a > b) ?ms ! nat (cs_MinISR s - 1) \<in> set (sort_by (\<lambda>a b. a > b) ?ms)"
    using False by (intro nth_mem) auto
  then show ?thesis using False by (auto simp: AdvanceHW_def Let_def)
qed (simp add: AdvanceHW_def)

lemma AdvanceHW_watermark: "watermark_ok s \<Longrightarrow> watermark_ok (fst (AdvanceHW s))"
  using AdvanceHW_mono [of s] AdvanceHW_from_match [of s]
  by (auto simp: watermark_ok_iff intro: order_trans)

section \<open>Every operation keeps the invariant\<close>

lemma completion_order_distinct:
  "pending_ok (cs_PendingAppends s) (cs_PendingAppendOrder s) \<Longrightarrow> distinct order \<Longrightarrow>
    distinct (completion_order s order)"
  by (auto simp: completion_order_def pendingAppendOrder_def sortedPendingAppendOpIDs_def pending_ok_def)

lemma completeAppendWaiters_inv:
  assumes "channel_inv s" "distinct order"
  shows "channel_inv (fst (completeAppendWaiters s order))"
proof -
  have "distinct (completion_order s order)"
    using assms completion_order_distinct by (simp add: channel_inv_def)
  then show ?thesis
    using assms(1)
    by (simp add: completeAppendWaiters_eq channel_inv_def watermark_ok_iff
        pending_ok_filter inflight_ok_filter)
qed

lemma completeAppendWaiters_frame:
  assumes "distinct (completion_order s order)"
  shows "cs_HW (fst (completeAppendWaiters s order)) = cs_HW s"
    "cs_LEO (fst (completeAppendWaiters s order)) = cs_LEO s"
    "cs_InflightAppend (fst (completeAppendWaiters s order)) = cs_InflightAppend s"
  by (simp_all add: completeAppendWaiters_eq [OF assms])

lemma ApplyMeta_inv: "channel_inv s \<Longrightarrow> channel_inv (fst (ApplyMeta s meta))"
  by (auto simp: ApplyMeta_def Let_def channel_inv_def watermark_ok_iff clearAppendState_def
      split: option.splits)

lemma ApplyMeta_frame [simp]:
  "cs_HW (fst (ApplyMeta s meta)) = cs_HW s" "cs_LEO (fst (ApplyMeta s meta)) = cs_LEO s"
  by (simp_all add: ApplyMeta_def Let_def clearAppendState_def split: option.splits)

text \<open>The guards of \<open>ProposeAppendBatch\<close> on the state alone.\<close>

definition propose_ready :: "ChannelState \<Rightarrow> bool" where
  "propose_ready s \<longleftrightarrow> cs_Status s \<noteq> StatusDeleted \<and> cs_Status s \<noteq> StatusDeleting
     \<and> cs_Role s = RoleLeader \<and> cs_CommitReady s \<and> cs_InflightAppend s = None"

definition propose_accepts :: "ChannelState \<Rightarrow> AppendBatchCommand \<Rightarrow> bool" where
  "propose_accepts s cmd \<longleftrightarrow> propose_ready s \<and> bc_Waiters cmd \<noteq> []
     \<and> check_waiters (cs_PendingAppends s) [] (bc_Waiters cmd) = None"

lemma ProposeAppendBatch_not_ready:
  "\<not> propose_ready s \<Longrightarrow> \<exists>e. ProposeAppendBatch s cmd = (s, fail_decision e)"
  by (auto simp: propose_ready_def ProposeAppendBatch_def)

lemma ProposeAppendBatch_ready:
  assumes "propose_ready s"
  shows "ProposeAppendBatch s cmd =
     (case check_waiters (cs_PendingAppends s) [] (bc_Waiters cmd) of
        Some err \<Rightarrow> (s, fail_decision err)
      | None \<Rightarrow> if bc_Waiters cmd = [] then (s, no_decision) else ProposeAppendBatch s cmd)"
  using assms by (auto simp: propose_ready_def ProposeAppendBatch_def split: option.splits)

lemma ProposeAppendBatch_refused:
  assumes "\<not> propose_accepts s cmd"
  shows "fst (ProposeAppendBatch s cmd) = s" "d_Tasks (snd (ProposeAppendBatch s cmd)) = []"
    "d_Replies (snd (ProposeAppendBatch s cmd)) = []"
proof -
  have "fst (ProposeAppendBatch s cmd) = s
     \<and> snd (ProposeAppendBatch s cmd) \<in> insert no_decision (range fail_decision)"
  proof (cases "propose_ready s")
    case True
    then show ?thesis
      using assms ProposeAppendBatch_ready [OF True, of cmd]
      by (auto simp: propose_accepts_def split: option.splits if_splits)
  next
    case False
    then show ?thesis using ProposeAppendBatch_not_ready [OF False, of cmd] by auto
  qed
  then show "fst (ProposeAppendBatch s cmd) = s" "d_Tasks (snd (ProposeAppendBatch s cmd)) = []"
    "d_Replies (snd (ProposeAppendBatch s cmd)) = []"
    by (auto simp: fail_decision_def no_decision_def)
qed

definition batch_op :: "AppendBatchCommand \<Rightarrow> AppendOp" where
  "batch_op cmd = \<lparr>op_OpID = bc_BatchOpID cmd, op_Records = concat (map bw_Records (bc_Waiters cmd)),
     op_WaiterOpIDs = map bw_OpID (bc_Waiters cmd),
     op_WaiterRecordCounts = map (\<lambda>w. length (bw_Records w)) (bc_Waiters cmd)\<rparr>"

lemma ProposeAppendBatch_accepted:
  assumes acc: "propose_accepts s cmd"
    and pend: "pending_ok (cs_PendingAppends s) (cs_PendingAppendOrder s)"
  shows "ProposeAppendBatch s cmd =
     (s\<lparr>cs_PendingAppends := cs_PendingAppends s @ map (\<lambda>w. (bw_OpID w, new_waiter w)) (bc_Waiters cmd),
        cs_PendingAppendOrder := cs_PendingAppendOrder s @ map bw_OpID (bc_Waiters cmd),
        cs_InflightAppend := Some (batch_op cmd)\<rparr>,
      no_decision\<lparr>d_Tasks := [\<lparr>t_Kind = TaskKindStoreAppend, t_Fence = state_fence s (bc_BatchOpID cmd),
        t_StoreAppend = Some \<lparr>sa_Records = op_Records (batch_op cmd), sa_Sync = True\<rparr>,
        t_ReadLog = None, t_StoreApply = None, t_Ack = None\<rparr>]\<rparr>)"
proof -
  have chk: "check_waiters (cs_PendingAppends s) [] (bc_Waiters cmd) = None"
    using acc by (simp add: propose_accepts_def)
  then have ws: "distinct (map bw_OpID (bc_Waiters cmd))"
    "\<forall>w \<in> set (bc_Waiters cmd). bw_OpID w \<notin> fst ` set (cs_PendingAppends s)"
    "\<forall>w \<in> set (bc_Waiters cmd). bw_Records w \<noteq> []"
    by (auto simp: check_waiters_None map_of_None_iff)
  have "\<forall>w \<in> set (bc_Waiters cmd). bw_OpID w \<notin> set (cs_PendingAppendOrder s)"
    using ws(2) pend by (simp add: pending_ok_def)
  note reg = register_waiters_eq [OF ws(1,2) this]
  have nz: "sum_list (map (\<lambda>w. length (bw_Records w)) (bc_Waiters cmd)) \<noteq> 0"
    using acc ws(3) by (cases "bc_Waiters cmd") (auto simp: propose_accepts_def)
  show ?thesis
    using acc chk nz unfolding propose_accepts_def propose_ready_def
    by (simp add: ProposeAppendBatch_def reg batch_op_def flat_records_def state_fence_def Let_def
        del: sum_list_eq_0_iff)
qed

lemma batch_op_segments:
  "segments (op_WaiterRecordCounts (batch_op cmd)) (op_Records (batch_op cmd))
     = map bw_Records (bc_Waiters cmd)"
  using segments_concat [of "map bw_Records (bc_Waiters cmd)"]
  by (simp add: batch_op_def comp_def)

lemma ProposeAppendBatch_inv:
  assumes "channel_inv s"
  shows "channel_inv (fst (ProposeAppendBatch s cmd))"
proof (cases "propose_accepts s cmd")
  case True
  have pend: "pending_ok (cs_PendingAppends s) (cs_PendingAppendOrder s)"
    using assms by (simp add: channel_inv_def)
  have ws: "distinct (map bw_OpID (bc_Waiters cmd))"
    "\<forall>w \<in> set (bc_Waiters cmd). bw_Records w \<noteq> [] \<and> bw_OpID w \<notin> fst ` set (cs_PendingAppends s)"
    using True by (auto simp: propose_accepts_def check_waiters_None map_of_None_iff)
  let ?pend = "cs_PendingAppends s @ map (\<lambda>w. (bw_OpID w, new_waiter w)) (bc_Waiters cmd)"
  have "pending_ok ?pend (cs_PendingAppendOrder s @ map bw_OpID (bc_Waiters cmd))"
    using pend ws by (intro pending_ok_append) (auto simp: new_waiter_def)
  moreover have "inflight_ok ?pend (Some (batch_op cmd))"
  proof -
    have look: "map_of ?pend (bw_OpID w) = Some (new_waiter w)" if "w \<in> set (bc_Waiters cmd)" for w
    proof -
      have "map_of (map (\<lambda>w. (bw_OpID w, new_waiter w)) (bc_Waiters cmd)) (bw_OpID w) = Some (new_waiter w)"
        using that ws(1) by (intro map_of_is_SomeI) (auto simp: comp_def)
      moreover have "map_of (cs_PendingAppends s) (bw_OpID w) = None"
        using that ws(2) by (simp add: map_of_None_iff)
      ultimately show ?thesis by (simp add: map_add_def)
    qed
    have "zip (map bw_OpID (bc_Waiters cmd)) (map bw_Records (bc_Waiters cmd))
        = map (\<lambda>w. (bw_OpID w, bw_Records w)) (bc_Waiters cmd)"
      by (simp add: zip_map_map zip_same_conv_map)
    then have "list_all (\<lambda>(k, seg). case map_of ?pend k of None \<Rightarrow> True | Some w \<Rightarrow> w_Records w = seg)
        (zip (op_WaiterOpIDs (batch_op cmd))
          (segments (op_WaiterRecordCounts (batch_op cmd)) (op_Records (batch_op cmd))))"
      using look by (simp only: batch_op_segments) (simp add: batch_op_def list_all_iff new_waiter_def)
    moreover have "0 \<notin> set (op_WaiterRecordCounts (batch_op cmd))"
      using ws(2) by (auto simp: batch_op_def)
    ultimately show ?thesis
      using ws(1) True by (simp add: inflight_ok_def)
        (simp add: batch_op_def length_concat comp_def propose_accepts_def)
  qed
  ultimately show ?thesis
    using assms by (simp add: ProposeAppendBatch_accepted [OF True pend] channel_inv_def watermark_ok_iff)
qed (simp add: ProposeAppendBatch_refused assms)

lemma CancelAppendWaiter_eq:
  assumes "pending_ok (cs_PendingAppends s) (cs_PendingAppendOrder s)"
  shows "fst (CancelAppendWaiter s k) =
     s\<lparr>cs_PendingAppends := filter (\<lambda>(k', _). k' \<noteq> k) (cs_PendingAppends s),
       cs_PendingAppendOrder := filter (\<lambda>k'. k' \<noteq> k) (cs_PendingAppendOrder s)\<rparr>"
proof (cases "map_of (cs_PendingAppends s) k")
  case None
  then have k: "k \<notin> fst ` set (cs_PendingAppends s)" by (simp add: map_of_None_iff)
  then have "filter (\<lambda>(k', _). k' \<noteq> k) (cs_PendingAppends s) = cs_PendingAppends s"
    by (auto intro!: filter_True dest: keysI)
  moreover have "filter (\<lambda>k'. k' \<noteq> k) (cs_PendingAppendOrder s) = cs_PendingAppendOrder s"
    using assms k by (auto simp: pending_ok_def intro!: filter_True)
  ultimately show ?thesis using None by (cases s) (simp add: CancelAppendWaiter_def)
next
  case (Some w)
  then show ?thesis
    by (simp add: CancelAppendWaiter_def removePendingAppendOrder_eq delete_eq_filter)
qed

lemma CancelAppendWaiter_inv: "channel_inv s \<Longrightarrow> channel_inv (fst (CancelAppendWaiter s k))"
  by (subst CancelAppendWaiter_eq)
    (auto simp: channel_inv_def watermark_ok_iff pending_ok_filter inflight_ok_filter)

lemma AbortAppendBatchProposal_inv:
  "channel_inv s \<Longrightarrow> channel_inv (AbortAppendBatchProposal s batchOpID)"
  by (auto simp: AbortAppendBatchProposal_def Let_def delete_all_eq_filter removePendingAppendOrder_eq
      channel_inv_def watermark_ok_iff pending_ok_filter split: option.splits)

lemma failInflightAppend_eq:
  assumes "channel_inv s" and "cs_InflightAppend s = Some op"
  shows "failInflightAppend s err =
     (let fin = filter (\<lambda>k. map_of (cs_PendingAppends s) k \<noteq> None) (op_WaiterOpIDs op)
      in (s\<lparr>cs_PendingAppends := filter (\<lambda>(k, _). k \<notin> set (op_WaiterOpIDs op)) (cs_PendingAppends s),
            cs_PendingAppendOrder := filter (\<lambda>k. k \<notin> set (op_WaiterOpIDs op)) (cs_PendingAppendOrder s),
            cs_InflightAppend := None\<rparr>,
          no_decision\<lparr>d_Replies := map (fail_reply err) fin\<rparr>))"
proof -
  let ?fin = "filter (\<lambda>k. map_of (cs_PendingAppends s) k \<noteq> None) (op_WaiterOpIDs op)"
  have "distinct (op_WaiterOpIDs op)"
    using assms by (simp add: channel_inv_def inflight_ok_def)
  moreover have "filter (\<lambda>k. k \<notin> set ?fin) (cs_PendingAppendOrder s)
      = filter (\<lambda>k. k \<notin> set (op_WaiterOpIDs op)) (cs_PendingAppendOrder s)"
    using assms(1) by (intro filter_order_cong) (auto simp: channel_inv_def map_of_None_iff)
  ultimately show ?thesis
    using assms(2)
    by (simp add: failInflightAppend_def fail_loop_eq removePendingAppendOrder_eq Let_def del: set_filter)
qed

lemma failInflightAppend_inv:
  assumes "channel_inv s" shows "channel_inv (fst (failInflightAppend s err))"
proof (cases "cs_InflightAppend s")
  case None
  then show ?thesis using assms by (simp add: failInflightAppend_def)
next
  case (Some op)
  then show ?thesis
    using assms by (simp add: failInflightAppend_eq Let_def)
      (auto simp: channel_inv_def watermark_ok_iff pending_ok_filter)
qed

lemma ApplyFollowerAck_inv:
  assumes "channel_inv s" and "fa_MatchOffset ack \<le> cs_LEO s"
  shows "channel_inv (fst (ApplyFollowerAck s ack))"
proof -
  let ?s = "if fa_MatchOffset ack > pr_Match (cs_Progress s (fa_Follower ack))
     then s\<lparr>cs_Progress := (cs_Progress s)(fa_Follower ack := \<lparr>pr_Match = fa_MatchOffset ack\<rparr>)\<rparr> else s"
  have "channel_inv ?s"
    using assms by (auto simp: channel_inv_def watermark_ok_iff)
  then have "channel_inv (fst (AdvanceHW ?s))"
    using AdvanceHW_watermark [of ?s] by (simp add: channel_inv_def)
  moreover from this have "distinct (pendingAppendOrder (fst (AdvanceHW ?s)))"
    by (simp add: channel_inv_def pending_ok_def pendingAppendOrder_def)
  ultimately show ?thesis
    using assms(1) completeAppendWaiters_inv
    by (simp add: ApplyFollowerAck_def Let_def)
qed

text \<open>The successful branch of \<open>ApplyAppendStored\<close>, its state before the replies.\<close>

definition stored_segments :: "ChannelState \<Rightarrow> AppendOp \<Rightarrow> u64 \<Rightarrow> (OpID \<rightharpoonup> Record list)" where
  "stored_segments s op base =
     map_of (zip (op_WaiterOpIDs op)
       (segments (op_WaiterRecordCounts op) (assignStoredOffsets s (op_Records op) base)))"

definition stored_state :: "ChannelState \<Rightarrow> AppendOp \<Rightarrow> AppendStoredResult \<Rightarrow> ChannelState" where
  "stored_state s op res =
     (let s = s\<lparr>cs_PendingAppends :=
                map (assigned (stored_segments s op (as_BaseOffset res))) (cs_PendingAppends s),
                cs_LEO := maxUint64 (cs_LEO s) (as_LastOffset res)\<rparr>
      in (if cs_Role s = RoleLeader
          then fst (AdvanceHW (s\<lparr>cs_Progress :=
                 (cs_Progress s)(cs_LocalNode s := \<lparr>pr_Match = cs_LEO s\<rparr>)\<rparr>))
          else s)\<lparr>cs_InflightAppend := None\<rparr>)"

lemma length_assignStoredOffsets [simp]: "length (assignStoredOffsets s rs base) = length rs"
  by (simp add: assignStoredOffsets_def)

lemma ApplyAppendStored_eq:
  assumes inv: "channel_inv s" and "cs_InflightAppend s = Some op"
    and "matchesInflightFence s (as_Fence res)" and "as_Err res = None"
  shows "ApplyAppendStored s res =
    (let (s', d) = completeAppendWaiters (stored_state s op res) (op_WaiterOpIDs op)
     in Some (s', d\<lparr>d_Signals := d_Signals d @ [SignalKindReplicate]\<rparr>))"
proof -
  let ?recs = "assignStoredOffsets s (op_Records op) (as_BaseOffset res)"
  have "assign_loop ?recs 0 (op_WaiterOpIDs op) (op_WaiterRecordCounts op) (cs_PendingAppends s)
      = Some (map (assigned (map_of (zip (op_WaiterOpIDs op)
            (segments (op_WaiterRecordCounts op) (drop 0 ?recs))))) (cs_PendingAppends s))"
    using inv assms(2)
    by (intro assign_loop_eq) (auto simp: channel_inv_def inflight_ok_def pending_ok_def)
  then show ?thesis
    using assms(2-4)
    by (simp add: ApplyAppendStored_def assignInflightRecordsToWaiters_def stored_state_def
        stored_segments_def Let_def)
qed

lemma stored_state_fields [simp]:
  "cs_InflightAppend (stored_state s op res) = None"
  "cs_PendingAppends (stored_state s op res) =
     map (assigned (stored_segments s op (as_BaseOffset res))) (cs_PendingAppends s)"
  "cs_PendingAppendOrder (stored_state s op res) = cs_PendingAppendOrder s"
  "cs_LEO (stored_state s op res) = maxUint64 (cs_LEO s) (as_LastOffset res)"
  "cs_ID (stored_state s op res) = cs_ID s"
  by (simp_all add: stored_state_def Let_def)

lemma stored_state_HW: "cs_HW s \<le> cs_HW (stored_state s op res)"
proof -
  let ?s = "s\<lparr>cs_PendingAppends :=
                map (assigned (stored_segments s op (as_BaseOffset res))) (cs_PendingAppends s),
                cs_LEO := maxUint64 (cs_LEO s) (as_LastOffset res),
                cs_Progress := (cs_Progress s)(cs_LocalNode s := \<lparr>pr_Match = maxUint64 (cs_LEO s) (as_LastOffset res)\<rparr>)\<rparr>"
  show ?thesis
    using AdvanceHW_mono [of ?s] by (simp add: stored_state_def Let_def)
qed

lemma assign_waiter_OpID [simp]: "w_OpID (assign_waiter w seg) = w_OpID w"
  by (simp add: assign_waiter_def Let_def)

lemma pending_ok_assigned: "pending_ok (map (assigned segs) pending) order = pending_ok pending order"
proof -
  have "fst \<circ> assigned segs = fst" by auto
  moreover have "w_OpID (snd (assigned segs p)) = w_OpID (snd p)" for p
    by (simp add: assigned_def split: option.splits)
  ultimately show ?thesis
    by (simp add: pending_ok_def list_all_iff split_def image_image)
qed

lemma stored_state_inv:
  assumes "channel_inv s"
  shows "channel_inv (stored_state s op res)"
proof -
  let ?leo = "maxUint64 (cs_LEO s) (as_LastOffset res)"
  have le: "cs_LEO s \<le> ?leo" by (auto simp: maxUint64_def)
  let ?s = "s\<lparr>cs_PendingAppends :=
                map (assigned (stored_segments s op (as_BaseOffset res))) (cs_PendingAppends s),
                cs_LEO := ?leo\<rparr>"
  have w: "watermark_ok ?s" "watermark_ok (?s\<lparr>cs_Progress := (cs_Progress s)(cs_LocalNode s := \<lparr>pr_Match = ?leo\<rparr>)\<rparr>)"
    using assms le by (auto simp: channel_inv_def watermark_ok_iff intro: order_trans)
  have "watermark_ok (stored_state s op res)"
    using w(1) AdvanceHW_watermark [OF w(2)]
    by (simp add: stored_state_def Let_def watermark_ok_iff)
  then show ?thesis
    using assms by (simp add: channel_inv_def pending_ok_assigned)
qed

lemma ApplyAppendStored_inv:
  assumes inv: "channel_inv s"
  shows "\<exists>s' d. ApplyAppendStored s res = Some (s', d) \<and> channel_inv s'"
proof (cases "matchesInflightFence s (as_Fence res) \<and> as_Err res = None")
  case True
  then obtain op where op: "cs_InflightAppend s = Some op"
    by (auto simp: matchesInflightFence_def split: option.splits)
  then have "distinct (op_WaiterOpIDs op)" using inv by (simp add: channel_inv_def inflight_ok_def)
  from completeAppendWaiters_inv [OF stored_state_inv [OF inv] this]
  show ?thesis
    using True by (auto simp: ApplyAppendStored_eq [OF inv op] split_def Let_def)
next
  case False
  then show ?thesis
    using failInflightAppend_inv [OF inv] inv
    by (cases "as_Err res") (auto simp: ApplyAppendStored_def intro: prod.collapse [symmetric])
qed

end
