(* ===== verification/ChannelSafety.thy ===== *)
theory ChannelSafety
  imports ChannelInvariant
begin

text \<open>
  The promises of the channel machine: it never panics and keeps its invariant over any run, its
  watermarks only grow, the high watermark is the largest quorum-covered offset, replies are given
  once, in order and only to committed waiters, and stored offsets are handed out contiguously in
  request order.
\<close>

section \<open>The machine as a whole\<close>

text \<open>One constructor per entry point of the reactor into the machine.\<close>

datatype ChEvent = EvMeta Meta | EvPropose AppendBatchCommand | EvCancel OpID | EvAbort OpID
  | EvStored AppendStoredResult | EvAck FollowerAck

fun ch_step :: "ChannelState \<Rightarrow> ChEvent \<Rightarrow> ChannelState option" where
  "ch_step s (EvMeta meta) = Some (fst (ApplyMeta s meta))"
| "ch_step s (EvPropose cmd) = Some (fst (ProposeAppendBatch s cmd))"
| "ch_step s (EvCancel k) = Some (fst (CancelAppendWaiter s k))"
| "ch_step s (EvAbort k) = Some (AbortAppendBatchProposal s k)"
| "ch_step s (EvStored res) = map_option fst (ApplyAppendStored s res)"
| "ch_step s (EvAck ack) = Some (fst (ApplyFollowerAck s ack))"

text \<open>The caller's obligation: a follower acknowledges only offsets the leader's log has.\<close>

fun ch_ok :: "ChannelState \<Rightarrow> ChEvent \<Rightarrow> bool" where
  "ch_ok s (EvAck ack) = (fa_MatchOffset ack \<le> cs_LEO s)"
| "ch_ok s _ = True"

lemma ch_step_inv: "channel_inv s \<Longrightarrow> ch_ok s e \<Longrightarrow> \<exists>s'. ch_step s e = Some s' \<and> channel_inv s'"
  using ApplyAppendStored_inv [of s]
  by (cases e) (fastforce simp: ApplyMeta_inv ProposeAppendBatch_inv CancelAppendWaiter_inv
      AbortAppendBatchProposal_inv ApplyFollowerAck_inv)+

lemma AbortAppendBatchProposal_frame [simp]:
  "cs_HW (AbortAppendBatchProposal s k) = cs_HW s" "cs_LEO (AbortAppendBatchProposal s k) = cs_LEO s"
  by (simp_all add: AbortAppendBatchProposal_def Let_def removePendingAppendOrder_eq split: option.splits)

lemma CancelAppendWaiter_frame [simp]:
  "cs_HW (fst (CancelAppendWaiter s k)) = cs_HW s" "cs_LEO (fst (CancelAppendWaiter s k)) = cs_LEO s"
  by (simp_all add: CancelAppendWaiter_def removePendingAppendOrder_eq)

lemma register_waiters_frame [simp]:
  "cs_HW (register_waiters s ws) = cs_HW s" "cs_LEO (register_waiters s ws) = cs_LEO s"
  "cs_Epoch (register_waiters s ws) = cs_Epoch s"
  "cs_LeaderEpoch (register_waiters s ws) = cs_LeaderEpoch s"
  by (induction s ws rule: register_waiters.induct)
    (simp_all add: register_waiter_def appendPendingAppendOrder_def)

lemma ProposeAppendBatch_frame [simp]:
  "cs_HW (fst (ProposeAppendBatch s cmd)) = cs_HW s" "cs_LEO (fst (ProposeAppendBatch s cmd)) = cs_LEO s"
  "cs_Epoch (fst (ProposeAppendBatch s cmd)) = cs_Epoch s"
  "cs_LeaderEpoch (fst (ProposeAppendBatch s cmd)) = cs_LeaderEpoch s"
  by (simp_all add: ProposeAppendBatch_def Let_def split: option.splits)

lemma failInflightAppend_frame [simp]:
  "cs_HW (fst (failInflightAppend s e)) = cs_HW s" "cs_LEO (fst (failInflightAppend s e)) = cs_LEO s"
  by (simp_all add: failInflightAppend_def Let_def removePendingAppendOrder_eq split_def split: option.splits)

lemma completeAppendWaiters_HW [simp]:
  "cs_HW (fst (completeAppendWaiters s order)) = cs_HW s"
  "cs_LEO (fst (completeAppendWaiters s order)) = cs_LEO s"
  by (simp_all add: completeAppendWaiters_def Let_def removePendingAppendOrder_eq split_def)

lemma ApplyAppendStored_marks:
  assumes "channel_inv s" and "ApplyAppendStored s res = Some (s', d)"
  shows "cs_HW s \<le> cs_HW s'" "cs_LEO s \<le> cs_LEO s'"
proof -
  have "cs_HW s \<le> cs_HW s' \<and> cs_LEO s \<le> cs_LEO s'"
  proof (cases "matchesInflightFence s (as_Fence res) \<and> as_Err res = None")
    case True
    then obtain op where op: "cs_InflightAppend s = Some op"
      by (auto simp: matchesInflightFence_def split: option.splits)
    have "s' = fst (completeAppendWaiters (stored_state s op res) (op_WaiterOpIDs op))"
      using assms True by (simp add: ApplyAppendStored_eq [OF assms(1) op] split_def Let_def)
    then show ?thesis using stored_state_HW [of s op res] by (auto simp: maxUint64_def)
  next
    case False
    then have "s' = s \<or> (\<exists>e. failInflightAppend s e = (s', d))"
      using assms(2) by (auto simp: ApplyAppendStored_def split: if_splits option.splits)
    moreover have "cs_HW s' = cs_HW s \<and> cs_LEO s' = cs_LEO s" if "failInflightAppend s e = (s', d)" for e
      using failInflightAppend_frame [of s e] that by simp
    ultimately show ?thesis by auto
  qed
  then show "cs_HW s \<le> cs_HW s'" "cs_LEO s \<le> cs_LEO s'" by auto
qed

lemma ApplyFollowerAck_marks:
  "cs_HW s \<le> cs_HW (fst (ApplyFollowerAck s ack))" "cs_LEO (fst (ApplyFollowerAck s ack)) = cs_LEO s"
proof -
  have "cs_HW s \<le> cs_HW (fst (AdvanceHW (s\<lparr>cs_Progress := p\<rparr>)))" for p
    using AdvanceHW_mono [of "s\<lparr>cs_Progress := p\<rparr>"] by simp
  then show "cs_HW s \<le> cs_HW (fst (ApplyFollowerAck s ack))"
    by (auto simp: ApplyFollowerAck_def Let_def AdvanceHW_mono)
  show "cs_LEO (fst (ApplyFollowerAck s ack)) = cs_LEO s"
    by (simp add: ApplyFollowerAck_def Let_def)
qed

lemma ch_step_marks:
  assumes "channel_inv s" "ch_step s e = Some s'"
  shows "cs_HW s \<le> cs_HW s'" "cs_LEO s \<le> cs_LEO s'"
proof -
  have "cs_HW s \<le> cs_HW s' \<and> cs_LEO s \<le> cs_LEO s'"
    using assms(2) ApplyFollowerAck_marks
    by (cases e) (auto dest: ApplyAppendStored_marks [OF assms(1)])
  then show "cs_HW s \<le> cs_HW s'" "cs_LEO s \<le> cs_LEO s'" by auto
qed

interpretation hw_machine: monotone_machine ch_step ch_ok channel_inv cs_HW
  by unfold_locales (use ch_step_inv ch_step_marks in auto)

interpretation leo_machine: monotone_machine ch_step ch_ok channel_inv cs_LEO
  by unfold_locales (use ch_step_marks in auto)

lemma NewChannelState_inv: "channel_inv (NewChannelState key local gen)"
  by (simp add: NewChannelState_def channel_inv_def watermark_ok_iff)

section \<open>Quorum commit\<close>

text \<open>Enough in-sync replicas have the log up to \<open>t\<close>: what the high watermark stands for.\<close>

definition quorum_covers :: "ChannelState \<Rightarrow> u64 \<Rightarrow> bool" where
  "quorum_covers s t \<longleftrightarrow>
     cs_MinISR s \<le> int (length (filter (\<lambda>n. t \<le> pr_Match (cs_Progress s n)) (cs_ISR s)))"

text \<open>
  When an acknowledgement completes a waiter: its records have a place in the log, and, unless it asked for a local commit only, the
  last of them was committed before or is now held by enough in-sync replicas, the acknowledging one included.
\<close>

definition holds_after :: "ChannelState \<Rightarrow> FollowerAck \<Rightarrow> u64 \<Rightarrow> NodeID \<Rightarrow> bool" where
  "holds_after s ack t n \<longleftrightarrow> t \<le> pr_Match (cs_Progress s n) \<or> n = fa_Follower ack \<and> t \<le> fa_MatchOffset ack"

definition completed_by :: "ChannelState \<Rightarrow> FollowerAck \<Rightarrow> AppendWaiter \<Rightarrow> bool" where
  "completed_by s ack w \<longleftrightarrow>
     w_Target w \<noteq> 0
     \<and> (w_CommitMode w \<noteq> CommitModeQuorum \<or> w_Target w \<le> cs_HW s
        \<or> 0 < cs_MinISR s \<and> cs_MinISR s \<le> int (length (filter (holds_after s ack (w_Target w)) (cs_ISR s))))"

section \<open>Sequences of the stored records\<close>

lemma nth_segments:
  "i < length cs \<Longrightarrow> segments cs xs ! i = take (cs ! i) (drop (sum_list (take i cs)) xs)"
  by (induction cs arbitrary: i xs) (auto simp: nth_Cons' take_Cons' add.commute gr0_conv_Suc)

lemma stored_record_fields [simp]:
  "r_Index (stored_record e b i r) = b + of_nat i" "r_ID (stored_record e b i r) = r_ID r"
  "r_Payload (stored_record e b i r) = r_Payload r"
  by (simp_all add: stored_record_def Let_def)

lemma assignStoredOffsets_Index:
  "map r_Index (assignStoredOffsets s rs base) = map (\<lambda>i. base + of_nat i) [0..<length rs]"
  by (rule nth_equalityI) (simp_all add: assignStoredOffsets_def nth_enumerate_eq)

lemma assignStoredOffsets_ID: "map r_ID (assignStoredOffsets s rs base) = map r_ID rs"
  by (rule nth_equalityI) (simp_all add: assignStoredOffsets_def nth_enumerate_eq)

lemma assign_waiter_records:
  "map r_Index (w_Records (assign_waiter w seg)) = map r_Index seg"
  "map r_ID (w_Records (assign_waiter w seg)) = map r_ID seg"
  "length (w_Records w) = length seg \<Longrightarrow>
     map r_Payload (w_Records (assign_waiter w seg)) = map r_Payload (w_Records w)"
proof -
  have zip: "map f (map (\<lambda>(t, r). g t r) (zip xs ys)) = map h ys"
    if "length xs = length ys" "\<And>t r. f (g t r) = h r" for f g h and xs ys :: "Record list"
    using that by (induction xs ys rule: list_induct2) auto
  have zip': "map f (map (\<lambda>(t, r). g t r) (zip xs ys)) = map h xs"
    if "length xs = length ys" "\<And>t r. f (g t r) = h t" for f g h and xs ys :: "Record list"
    using that by (induction xs ys rule: list_induct2) auto
  show "map r_Index (w_Records (assign_waiter w seg)) = map r_Index seg"
    "map r_ID (w_Records (assign_waiter w seg)) = map r_ID seg"
    by (auto simp: assign_waiter_def Let_def assignStoredRecordMetadata_def zip simp del: map_map)
  show "map r_Payload (w_Records (assign_waiter w seg)) = map r_Payload (w_Records w)"
    if "length (w_Records w) = length seg"
    using that by (simp add: assign_waiter_def Let_def assignStoredRecordMetadata_def zip' del: map_map)
qed

lemma append_reply_items:
  "rp_OpID (append_reply cid k w) = k" "rp_Err (append_reply cid k w) = None"
  "map it_MessageSeq (rp_AppendItems (append_reply cid k w)) = map r_Index (w_Records w)"
  "map it_MessageID (rp_AppendItems (append_reply cid k w)) = map r_ID (w_Records w)"
  by (simp_all add: append_reply_def appendItemsForRecords_def Let_def)

lemma map_of_assigned:
  "map_of (map (assigned segs) pending) k =
     map_option (\<lambda>w. case segs k of None \<Rightarrow> w | Some seg \<Rightarrow> assign_waiter w seg) (map_of pending k)"
  by (induction pending) (auto simp: assigned_def split: option.splits)

text \<open>The part of the stored batch that belongs to the i-th request.\<close>

lemma stored_segments_nth:
  assumes "inflight_ok pending (Some op)" "i < length (op_WaiterOpIDs op)"
  defines "off \<equiv> sum_list (take i (op_WaiterRecordCounts op))"
    and "n \<equiv> op_WaiterRecordCounts op ! i"
  shows "stored_segments s op base (op_WaiterOpIDs op ! i) =
      Some (take n (drop off (assignStoredOffsets s (op_Records op) base)))"
    and "off + n \<le> length (op_Records op)"
proof -
  let ?segs = "segments (op_WaiterRecordCounts op) (assignStoredOffsets s (op_Records op) base)"
  have len: "length (op_WaiterOpIDs op) = length ?segs" "distinct (op_WaiterOpIDs op)"
    using assms(1) by (simp_all add: inflight_ok_def)
  have "map_of (zip (op_WaiterOpIDs op) ?segs) (op_WaiterOpIDs op ! i) = Some (?segs ! i)"
    using len assms(2) by (intro map_of_zip_nth) simp_all
  then show "stored_segments s op base (op_WaiterOpIDs op ! i) =
      Some (take n (drop off (assignStoredOffsets s (op_Records op) base)))"
    using len(1) assms(2) by (simp add: stored_segments_def nth_segments off_def n_def)
  have "off + n = sum_list (take (Suc i) (op_WaiterRecordCounts op))"
    using len(1) assms(2) by (simp add: take_Suc_conv_app_nth off_def n_def)
  also have "\<dots> \<le> sum_list (op_WaiterRecordCounts op)"
    by (metis append_take_drop_id le_add1 sum_list_append)
  finally show "off + n \<le> length (op_Records op)"
    using assms(1) by (simp add: inflight_ok_def)
qed

lemma stored_segment_Index:
  assumes "off + n \<le> length rs"
  shows "map r_Index (take n (drop off (assignStoredOffsets s rs base)))
    = map (\<lambda>j. base + of_nat j) [off..<off + n]"
proof -
  have "map r_Index (take n (drop off (assignStoredOffsets s rs base)))
      = take n (drop off (map r_Index (assignStoredOffsets s rs base)))"
    by (simp add: take_map drop_map)
  then show ?thesis using assms by (simp add: assignStoredOffsets_Index take_map drop_map take_upt)
qed

section \<open>Properties\<close>

text \<open>
  C1: From a state that satisfies the bookkeeping invariant, any sequence of metadata updates,
  proposals, cancellations, aborts, store completions and honest follower acknowledgements runs
  without a panic, keeps the invariant (CheckpointHW \<le> HW \<le> LEO included), and never lowers
  the high watermark or the log end.
\<close>

theorem channel_runs_safely:
  assumes "channel_inv s" and "run_ok ch_step ch_ok s es"
  shows "\<exists>s'. run_steps ch_step s es = Some s' \<and> channel_inv s'
    \<and> cs_HW s \<le> cs_HW s' \<and> cs_LEO s \<le> cs_LEO s'"
  using hw_machine.run_safe [OF assms] hw_machine.run_gauge [OF assms] leo_machine.run_gauge [OF assms]
  by blast

lemma AdvanceHW_covers:
  assumes "0 < cs_MinISR s" and "cs_MinISR s \<le> int (length (cs_ISR s))"
  shows "t \<le> cs_HW (fst (AdvanceHW s)) \<longleftrightarrow> t \<le> cs_HW s \<or> quorum_covers s t"
proof -
  let ?ms = "map (\<lambda>n. pr_Match (cs_Progress s n)) (cs_ISR s)"
  let ?k = "nat (cs_MinISR s)"
  have k: "0 < ?k" "?k \<le> length ?ms" "nat (cs_MinISR s - 1) = ?k - 1" using assms by auto
  have "t \<le> sort_by (\<lambda>a b. b < a) ?ms ! (?k - 1) \<longleftrightarrow> quorum_covers s t"
    using kth_largest [OF k(1,2), of t] assms(1)
    by (simp add: quorum_covers_def filter_map comp_def nat_le_iff)
  then show ?thesis using assms by (auto simp: AdvanceHW_def Let_def k(3))
qed

lemma AdvanceHW_reaches:
  "t \<le> cs_HW (fst (AdvanceHW s)) \<longleftrightarrow>
     t \<le> cs_HW s \<or> 0 < cs_MinISR s \<and> quorum_covers s t"
proof (cases "0 < cs_MinISR s \<and> cs_MinISR s \<le> int (length (cs_ISR s))")
  case True
  then show ?thesis using AdvanceHW_covers by blast
next
  case False
  have "\<not> quorum_covers s t" if "int (length (cs_ISR s)) < cs_MinISR s"
  proof -
    have "int (length (filter (\<lambda>n. t \<le> pr_Match (cs_Progress s n)) (cs_ISR s))) \<le> int (length (cs_ISR s))" by simp
    then show ?thesis using that unfolding quorum_covers_def by linarith
  qed
  with False show ?thesis by (auto simp: AdvanceHW_def not_less)
qed

text \<open>
  C4: \<open>AdvanceHW\<close> is exact: an offset is below the new high watermark iff it was below the old one
  or at least \<open>MinISR\<close> in-sync replicas match it.
\<close>

theorem AdvanceHW_quorum:
  assumes "0 < cs_MinISR s" and "cs_MinISR s \<le> int (length (cs_ISR s))"
  shows "t \<le> cs_HW (fst (AdvanceHW s)) \<longleftrightarrow> t \<le> cs_HW s \<or> quorum_covers s t"
  by (rule AdvanceHW_covers [OF assms])

lemma ack_completes:
  assumes "cs_Role s = RoleLeader" and "IsReplica s (fa_Follower ack)"
  obtains s1 where "ApplyFollowerAck s ack = completeAppendWaiters s1 (pendingAppendOrder s1)"
    "cs_PendingAppends s1 = cs_PendingAppends s" "cs_PendingAppendOrder s1 = cs_PendingAppendOrder s"
    "waiter_ready (cs_HW s1) = completed_by s ack"
proof -
  define v where "v = (if fa_MatchOffset ack > pr_Match (cs_Progress s (fa_Follower ack))
      then s\<lparr>cs_Progress := (cs_Progress s)(fa_Follower ack := \<lparr>pr_Match = fa_MatchOffset ack\<rparr>)\<rparr> else s)"
  have v: "cs_HW v = cs_HW s" "cs_MinISR v = cs_MinISR s" "cs_ISR v = cs_ISR s" "cs_PendingAppends v = cs_PendingAppends s"
    "cs_PendingAppendOrder v = cs_PendingAppendOrder s" by (simp_all add: v_def)
  have h: "t \<le> pr_Match (cs_Progress v n) \<longleftrightarrow> holds_after s ack t n" for t n by (auto simp: v_def holds_after_def)
  have "waiter_ready (cs_HW (fst (AdvanceHW v))) w = completed_by s ack w" for w
    using AdvanceHW_reaches [of "w_Target w" v]
    by (auto simp: waiter_ready_def completed_by_def quorum_covers_def v h not_less)
  then show ?thesis
    using assms by (intro that [of "fst (AdvanceHW v)"]) (simp_all add: ApplyFollowerAck_def Let_def v_def [symmetric] v fun_eq_iff)
qed

lemma ack_replies_aux:
  assumes inv: "channel_inv s" and "cs_Role s = RoleLeader" and "IsReplica s (fa_Follower ack)"
    and run: "ApplyFollowerAck s ack = (s', d)"
  shows "map (\<lambda>r. (rp_OpID r, map it_MessageSeq (rp_AppendItems r))) (d_Replies d) =
      map (\<lambda>k. (k, map r_Index (w_Records (the (map_of (cs_PendingAppends s) k)))))
        (filter (\<lambda>k. \<exists>w. map_of (cs_PendingAppends s) k = Some w \<and> completed_by s ack w) (cs_PendingAppendOrder s))
    \<and> distinct (map rp_OpID (d_Replies d)) \<and> list_all (\<lambda>r. rp_Err r = None) (d_Replies d)
    \<and> (\<forall>k w. map_of (cs_PendingAppends s') k = Some w \<longleftrightarrow>
        map_of (cs_PendingAppends s) k = Some w \<and> \<not> completed_by s ack w)"
proof -
  obtain s1 where s1: "ApplyFollowerAck s ack = completeAppendWaiters s1 (pendingAppendOrder s1)"
    "cs_PendingAppends s1 = cs_PendingAppends s" "cs_PendingAppendOrder s1 = cs_PendingAppendOrder s"
    and ready: "waiter_ready (cs_HW s1) = completed_by s ack"
    using ack_completes [OF assms(2,3)] by blast
  have pend: "pending_ok (cs_PendingAppends s) (cs_PendingAppendOrder s)"
    using inv by (simp add: channel_inv_def)
  then have order: "completion_order s1 (pendingAppendOrder s1) = cs_PendingAppendOrder s"
    by (auto simp: completion_order_def pendingAppendOrder_def s1 sortedPendingAppendOpIDs_def pending_ok_def)
  have dist: "distinct (cs_PendingAppendOrder s)" using pend by (simp add: pending_ok_def)
  note eq = run [unfolded s1(1) completeAppendWaiters_eq [of s1 "pendingAppendOrder s1", unfolded order, OF dist]]
  have hw: "cs_HW s' = cs_HW s1" using eq by auto
  let ?fin = "ready_ids (cs_HW s') (cs_PendingAppends s) (cs_PendingAppendOrder s)"
  have replies: "d_Replies d = map (\<lambda>k. append_reply (cs_ID s1) k (the (map_of (cs_PendingAppends s) k))) ?fin"
    using eq hw s1 by auto
  note ready = ready [folded hw]
  have fin: "?fin = filter (\<lambda>k. \<exists>w. map_of (cs_PendingAppends s) k = Some w \<and> completed_by s ack w) (cs_PendingAppendOrder s)"
    by (auto simp: ready_ids_def ready intro!: filter_cong split: option.splits)
  have "map (\<lambda>r. (rp_OpID r, map it_MessageSeq (rp_AppendItems r))) (d_Replies d) =
      map (\<lambda>k. (k, map r_Index (w_Records (the (map_of (cs_PendingAppends s) k))))) ?fin"
    by (simp add: replies append_reply_items comp_def)
  moreover have "distinct (map rp_OpID (d_Replies d))"
    using dist by (simp add: replies append_reply_items comp_def fin)
  moreover have "list_all (\<lambda>r. rp_Err r = None) (d_Replies d)"
    by (simp add: replies append_reply_items list_all_iff)
  moreover have "map_of (cs_PendingAppends s') k = Some w \<longleftrightarrow>
      map_of (cs_PendingAppends s) k = Some w \<and> \<not> completed_by s ack w" for k w
  proof -
    have "k \<in> set (cs_PendingAppendOrder s)" if "map_of (cs_PendingAppends s) k = Some w" for k w
      using that pend by (auto simp: pending_ok_def dest: map_of_SomeD keysI)
    moreover have "cs_PendingAppends s' = filter (\<lambda>(k, _). k \<notin> set ?fin) (cs_PendingAppends s)"
      using eq hw s1 by auto
    ultimately show ?thesis by (auto simp: map_of_filter_keys set_ready_ids ready split: if_splits)
  qed
  ultimately show ?thesis unfolding fin by simp
qed

text \<open>
  C9: When the leader accepts an acknowledgement it answers, once each, in proposal order and without an error, exactly the waiters
  that are committed now: those whose records are stored and, where a quorum was asked for, whose last record was committed before or
  is held by \<open>MinISR\<close> in-sync replicas, counting the offset that was just acknowledged. A reply lists the sequences of its own
  waiter's records; exactly the other waiters are kept.
\<close>

theorem ack_replies:
  assumes "channel_inv s" and "cs_Role s = RoleLeader" and "IsReplica s (fa_Follower ack)"
    and "ApplyFollowerAck s ack = (s', d)"
  shows "map (\<lambda>r. (rp_OpID r, map it_MessageSeq (rp_AppendItems r))) (d_Replies d) =
      map (\<lambda>k. (k, map r_Index (w_Records (the (map_of (cs_PendingAppends s) k)))))
        (filter (\<lambda>k. \<exists>w. map_of (cs_PendingAppends s) k = Some w \<and> completed_by s ack w) (cs_PendingAppendOrder s))
    \<and> distinct (map rp_OpID (d_Replies d)) \<and> list_all (\<lambda>r. rp_Err r = None) (d_Replies d)
    \<and> (\<forall>k w. map_of (cs_PendingAppends s') k = Some w \<longleftrightarrow>
        map_of (cs_PendingAppends s) k = Some w \<and> \<not> completed_by s ack w)"
  by (rule ack_replies_aux [OF assms])

text \<open>
  C18: A successful store completion hands out the stored offsets in request order without gaps:
  each reply belongs to a request i of the batch and lists the batch's own message ids at
  base + (records before request i), base + ..., also when other requests were cancelled meanwhile.
\<close>

theorem stored_reply_sequences:
  assumes inv: "channel_inv s" and op: "cs_InflightAppend s = Some op"
    and fence: "matchesInflightFence s (as_Fence res)" "as_Err res = None"
    and run: "ApplyAppendStored s res = Some (s', d)" and r: "r \<in> set (d_Replies d)"
  shows "\<exists>i off n. i < length (op_WaiterOpIDs op) \<and> rp_OpID r = op_WaiterOpIDs op ! i \<and> rp_Err r = None
    \<and> off = sum_list (take i (op_WaiterRecordCounts op)) \<and> n = op_WaiterRecordCounts op ! i
    \<and> map it_MessageSeq (rp_AppendItems r) = map (\<lambda>j. as_BaseOffset res + of_nat j) [off..<off + n]
    \<and> map it_MessageID (rp_AppendItems r) = map r_ID (take n (drop off (op_Records op)))"
proof -
  let ?s1 = "stored_state s op res" and ?base = "as_BaseOffset res"
  have ok: "inflight_ok (cs_PendingAppends s) (Some op)" "pending_ok (cs_PendingAppends s) (cs_PendingAppendOrder s)"
    using inv op by (simp_all add: channel_inv_def)
  have dist: "distinct (completion_order ?s1 (op_WaiterOpIDs op))"
    using stored_state_inv [OF inv] ok(1)
    by (intro completion_order_distinct) (simp_all add: channel_inv_def inflight_ok_def)
  let ?ready = "ready_ids (cs_HW ?s1) (cs_PendingAppends ?s1) (completion_order ?s1 (op_WaiterOpIDs op))"
  have "completion_order ?s1 (op_WaiterOpIDs op) = op_WaiterOpIDs op"
    using ok(1) by (simp add: completion_order_def inflight_ok_def)
  moreover have "d_Replies d = map (\<lambda>k. append_reply (cs_ID ?s1) k (the (map_of (cs_PendingAppends ?s1) k))) ?ready"
    using run by (auto simp: ApplyAppendStored_eq [OF inv op fence] completeAppendWaiters_eq [OF dist] Let_def)
  ultimately obtain k w1 where k: "k \<in> set (op_WaiterOpIDs op)" "map_of (cs_PendingAppends ?s1) k = Some w1"
    "r = append_reply (cs_ID ?s1) k w1"
    using r by (auto simp: set_ready_ids)
  then obtain i where i: "i < length (op_WaiterOpIDs op)" "k = op_WaiterOpIDs op ! i"
    by (auto simp: in_set_conv_nth)
  let ?off = "sum_list (take i (op_WaiterRecordCounts op))" and ?n = "op_WaiterRecordCounts op ! i"
  let ?seg = "take ?n (drop ?off (assignStoredOffsets s (op_Records op) ?base))"
  from k(2) stored_segments_nth(1) [OF ok(1) i(1), of s ?base] i(2)
  obtain w where w: "w1 = assign_waiter w ?seg" by (auto simp: map_of_assigned)
  have "map r_ID ?seg = map r_ID (take ?n (drop ?off (op_Records op)))"
    by (metis assignStoredOffsets_ID drop_map take_map)
  moreover have "map r_Index ?seg = map (\<lambda>j. ?base + of_nat j) [?off..<?off + ?n]"
    using stored_segments_nth(2) [OF ok(1) i(1)] by (rule stored_segment_Index)
  ultimately show ?thesis
    using i w by - (rule exI [of _ i], simp add: k(3) append_reply_items assign_waiter_records)
qed

text \<open>
  A metadata update that moves the epoch or the leader epoch drops every append in flight, and
  a store completion fenced by the old epochs then has no effect at all, even after a new batch
  was proposed under the same operation id.
\<close>

lemma stale_completion_ignored:
  assumes "ValidateMeta s meta = None"
    and "m_Epoch meta \<noteq> cs_Epoch s \<or> m_LeaderEpoch meta \<noteq> cs_LeaderEpoch s"
    and "as_Fence res = state_fence s opID"
  shows "cs_PendingAppends (fst (ApplyMeta s meta)) = []
    \<and> cs_InflightAppend (fst (ApplyMeta s meta)) = None
    \<and> (\<forall>cmd. let s' = fst (ProposeAppendBatch (fst (ApplyMeta s meta)) cmd)
        in ApplyAppendStored s' res = Some (s', no_decision))"
proof -
  let ?s = "fst (ApplyMeta s meta)"
  have "shouldClearAppendStateForMeta s meta"
    using assms(2) by (auto simp: shouldClearAppendStateForMeta_def Let_def)
  then have "cs_PendingAppends ?s = []" and "cs_InflightAppend ?s = None"
    and epochs: "cs_Epoch ?s = m_Epoch meta" "cs_LeaderEpoch ?s = m_LeaderEpoch meta"
    using assms(1) by (simp_all add: ApplyMeta_def clearAppendState_def Let_def)
  moreover have "\<not> matchesInflightFence (fst (ProposeAppendBatch ?s cmd)) (as_Fence res)" for cmd
    using assms(2,3) by (auto simp: matchesInflightFence_def state_fence_def epochs)
  ultimately show ?thesis by (simp add: ApplyAppendStored_def Let_def)
qed

text \<open>
  C28: A proposal is all or nothing: it emits its one store task, carrying the batch's records in
  order under the current fence, exactly when the leader is ready and every request is non-empty
  and fresh; otherwise the state is left as it was and nothing is emitted.
\<close>

theorem propose_all_or_nothing:
  assumes "channel_inv s" and "ProposeAppendBatch s cmd = (s', d)"
  shows "if propose_accepts s cmd
    then d_Err d = None \<and> map t_Fence (d_Tasks d) = [state_fence s (bc_BatchOpID cmd)]
      \<and> map t_StoreAppend (d_Tasks d) =
          [Some \<lparr>sa_Records = concat (map bw_Records (bc_Waiters cmd)), sa_Sync = True\<rparr>]
      \<and> cs_PendingAppendOrder s' = cs_PendingAppendOrder s @ map bw_OpID (bc_Waiters cmd)
      \<and> matchesInflightFence s' (state_fence s (bc_BatchOpID cmd))
    else s' = s \<and> d_Tasks d = [] \<and> d_Replies d = []"
proof (cases "propose_accepts s cmd")
  case True
  have "pending_ok (cs_PendingAppends s) (cs_PendingAppendOrder s)"
    using assms(1) by (simp add: channel_inv_def)
  from ProposeAppendBatch_accepted [OF True this] show ?thesis
    using assms(2) True
    by (auto simp: no_decision_def batch_op_def matchesInflightFence_def state_fence_def)
next
  case False
  with ProposeAppendBatch_refused [OF False] assms(2) show ?thesis by simp
qed

text \<open>
  A failed store completion answers every request of the batch that is still waiting, and only
  those, in request order with the store's error, forgets them and frees the channel for the
  next batch.
\<close>

lemma store_failure_replies:
  assumes inv: "channel_inv s" and op: "cs_InflightAppend s = Some op"
    and "matchesInflightFence s (as_Fence res)" and "as_Err res = Some err"
    and run: "ApplyAppendStored s res = Some (s', d)"
  shows "d_Replies d = map (fail_reply err)
      (filter (\<lambda>k. map_of (cs_PendingAppends s) k \<noteq> None) (op_WaiterOpIDs op))
    \<and> cs_InflightAppend s' = None
    \<and> fst ` set (cs_PendingAppends s') = fst ` set (cs_PendingAppends s) - set (op_WaiterOpIDs op)"
  using assms(3-5)
  by (auto simp: ApplyAppendStored_def failInflightAppend_eq [OF inv op] Let_def keys_filter)

section \<open>Witnesses\<close>

text \<open>A three-replica channel led by node 1 with a commit quorum of two, and a batch of two requests.\<close>

definition demo_meta :: Meta where
  "demo_meta = \<lparr>m_Key = [], m_ID = \<lparr>cid_ID = ''g'', cid_Type = 2\<rparr>, m_Epoch = 1, m_LeaderEpoch = 1,
     m_Leader = 1, m_Replicas = [1, 2, 3], m_ISR = [1, 2, 3], m_MinISR = 2, m_LeaseUntil = 0,
     m_RetentionThroughSeq = 0, m_Status = StatusActive\<rparr>"

definition demo_record :: "u64 \<Rightarrow> Record" where
  "demo_record i = \<lparr>r_ID = i, r_Index = 0, r_Epoch = 0, r_FromUID = ''u'', r_ClientMsgNo = [],
     r_ServerTimestampMS = 0, r_SyncOnce = False, r_Payload = [1], r_SizeBytes = 1\<rparr>"

definition demo_batch :: AppendBatchCommand where
  "demo_batch = \<lparr>bc_BatchOpID = 9, bc_Waiters =
     [\<lparr>bw_OpID = 11, bw_CommitMode = CommitModeZero, bw_OmitResultPayload = False,
       bw_Records = [demo_record 101, demo_record 102]\<rparr>,
      \<lparr>bw_OpID = 12, bw_CommitMode = CommitModeLocal, bw_OmitResultPayload = False,
       bw_Records = [demo_record 103]\<rparr>]\<rparr>"

definition demo_leader :: ChannelState where
  "demo_leader = fst (ApplyMeta (NewChannelState ''k'' 1 1) demo_meta)"

definition demo_proposed :: ChannelState where
  "demo_proposed = fst (ProposeAppendBatch demo_leader demo_batch)"

definition demo_stored :: AppendStoredResult where
  "demo_stored = \<lparr>as_Fence = \<lparr>f_ChannelKey = ''k'', f_Generation = 1, f_Epoch = 1, f_LeaderEpoch = 1,
     f_OpID = 9\<rparr>, as_BaseOffset = 1, as_LastOffset = 3, as_Err = None\<rparr>"

definition demo_ack :: FollowerAck where
  "demo_ack = \<lparr>fa_Follower = 2, fa_MatchOffset = 2\<rparr>"

lemmas demo_defs = demo_meta_def demo_record_def demo_batch_def demo_leader_def demo_proposed_def
  demo_stored_def demo_ack_def NewChannelState_def

lemmas machine_defs = ApplyMeta_def ValidateMeta_def shouldClearAppendStateForMeta_def
  clearAppendState_def ProposeAppendBatch_def register_waiter_def new_waiter_def
  appendPendingAppendOrder_def flat_records_def state_fence_def no_decision_def fail_decision_def
  ApplyAppendStored_def matchesInflightFence_def assignStoredOffsets_def stored_record_def
  assignInflightRecordsToWaiters_def go_slice_def assign_waiter_def assignStoredRecordMetadata_def
  maxUint64_def AdvanceHW_def completeAppendWaiters_def completion_order_def waiter_ready_def
  removePendingAppendOrder_def append_reply_def appendItemsForRecords_def cloneBytes_def
  ApplyFollowerAck_def IsReplica_def pendingAppendOrder_def

lemma demo_leader_inv: "channel_inv demo_leader"
  unfolding demo_leader_def by (rule ApplyMeta_inv) (rule NewChannelState_inv)

lemma demo_proposed_inv: "channel_inv demo_proposed"
  unfolding demo_proposed_def by (rule ProposeAppendBatch_inv) (rule demo_leader_inv)

lemma demo_leader_eq:
  "demo_leader = (NewChannelState ''k'' 1 1)\<lparr>cs_ID := \<lparr>cid_ID = ''g'', cid_Type = 2\<rparr>, cs_Epoch := 1,
     cs_LeaderEpoch := 1, cs_Leader := 1, cs_Replicas := [1, 2, 3], cs_ISR := [1, 2, 3], cs_MinISR := 2,
     cs_Status := StatusActive, cs_Role := RoleLeader, cs_CommitReady := True\<rparr>"
  by (simp add: demo_defs machine_defs Let_def fun_upd_idem)

lemma demo_accepts: "propose_accepts demo_leader demo_batch"
  by (simp add: demo_leader_eq demo_batch_def propose_accepts_def propose_ready_def NewChannelState_def demo_record_def)

lemma demo_proposed_eq:
  "demo_proposed = demo_leader\<lparr>cs_PendingAppends := map (\<lambda>w. (bw_OpID w, new_waiter w)) (bc_Waiters demo_batch),
     cs_PendingAppendOrder := [11, 12], cs_InflightAppend := Some (batch_op demo_batch)\<rparr>"
  using ProposeAppendBatch_accepted [OF demo_accepts] demo_leader_inv
  by (simp add: demo_proposed_def channel_inv_def) (simp add: demo_leader_eq demo_batch_def NewChannelState_def)

lemma demo_fence: "matchesInflightFence demo_proposed (as_Fence demo_stored)" "as_Err demo_stored = None"
  by (simp_all add: demo_proposed_eq demo_leader_eq NewChannelState_def demo_stored_def
      matchesInflightFence_def batch_op_def demo_batch_def)

text \<open>The state after the batch was stored: request 12 (local commit) is answered, 11 waits.\<close>

definition demo_waiting :: ChannelState where
  "demo_waiting = fst (the (ApplyAppendStored demo_proposed demo_stored))"

lemma demo_waiting_run:
  "ApplyAppendStored demo_proposed demo_stored =
     Some (demo_waiting, snd (the (ApplyAppendStored demo_proposed demo_stored)))"
  using ApplyAppendStored_inv [OF demo_proposed_inv, of demo_stored] by (auto simp: demo_waiting_def)

lemma demo_waiting_inv: "channel_inv demo_waiting"
  using ApplyAppendStored_inv [OF demo_proposed_inv, of demo_stored] by (auto simp: demo_waiting_def)

lemma demo_stored_eval:
  "ApplyAppendStored demo_proposed demo_stored = Some (demo_waiting, snd (the (ApplyAppendStored demo_proposed demo_stored)))
   \<and> map rp_OpID (d_Replies (snd (the (ApplyAppendStored demo_proposed demo_stored)))) = [12]
   \<and> cs_Role demo_waiting = RoleLeader \<and> cs_Replicas demo_waiting = [1, 2, 3]
   \<and> cs_PendingAppendOrder demo_waiting = [11] \<and> cs_LEO demo_waiting = 3
   \<and> map_option (\<lambda>w. (w_Target w, w_CommitMode w, map r_Index (w_Records w))) (map_of (cs_PendingAppends demo_waiting) 11)
       = Some (2, CommitModeQuorum, [1, 2])
   \<and> cs_HW demo_waiting = 0 \<and> cs_MinISR demo_waiting = 2 \<and> cs_ISR demo_waiting = [1, 2, 3]
   \<and> map (\<lambda>n. pr_Match (cs_Progress demo_waiting n)) [1, 2, 3] = [3, 0, 0]"
  by (simp add: demo_waiting_def demo_proposed_eq demo_leader_eq NewChannelState_def demo_stored_def
      batch_op_def demo_batch_def demo_record_def new_waiter_def machine_defs Let_def)

theorem channel_runs_safely_witness:
  "channel_inv demo_leader
   \<and> run_ok ch_step ch_ok demo_leader [EvPropose demo_batch, EvStored demo_stored, EvAck demo_ack]
   \<and> (\<exists>s'. run_steps ch_step demo_leader [EvPropose demo_batch, EvStored demo_stored, EvAck demo_ack] = Some s'
        \<and> channel_inv s' \<and> cs_HW demo_leader \<le> cs_HW s' \<and> cs_LEO demo_leader \<le> cs_LEO s')"
proof -
  have ok: "run_ok ch_step ch_ok demo_leader [EvPropose demo_batch, EvStored demo_stored, EvAck demo_ack]"
  proof -
    obtain d where "ApplyAppendStored demo_proposed demo_stored = Some (demo_waiting, d)"
      using demo_waiting_run by blast
    then show ?thesis
      using demo_stored_eval by (simp add: demo_proposed_def [symmetric] demo_ack_def)
  qed
  show ?thesis using channel_runs_safely [OF demo_leader_inv ok] demo_leader_inv ok by blast
qed

theorem AdvanceHW_quorum_witness:
  "let s = demo_leader\<lparr>cs_Progress := (cs_Progress demo_leader)(1 := \<lparr>pr_Match = 7\<rparr>, 2 := \<lparr>pr_Match = 5\<rparr>)\<rparr>
   in 0 < cs_MinISR s \<and> cs_MinISR s \<le> int (length (cs_ISR s)) \<and> quorum_covers s 5
      \<and> 5 \<le> cs_HW (fst (AdvanceHW s)) \<and> \<not> 6 \<le> cs_HW (fst (AdvanceHW s))"
proof -
  let ?s = "demo_leader\<lparr>cs_Progress := (cs_Progress demo_leader)(1 := \<lparr>pr_Match = 7\<rparr>, 2 := \<lparr>pr_Match = 5\<rparr>)\<rparr>"
  have h: "0 < cs_MinISR ?s" "cs_MinISR ?s \<le> int (length (cs_ISR ?s))"
    and q: "quorum_covers ?s 5" "\<not> quorum_covers ?s 6" "cs_HW ?s = 0"
    by (simp_all add: quorum_covers_def demo_leader_eq NewChannelState_def)
  show ?thesis
    using AdvanceHW_quorum [OF h, of 5] AdvanceHW_quorum [OF h, of 6] h q unfolding Let_def by simp
qed

theorem ack_replies_witness:
  "map (\<lambda>r. (rp_OpID r, map it_MessageSeq (rp_AppendItems r))) (d_Replies (snd (ApplyFollowerAck demo_waiting demo_ack)))
     = [(11, [1, 2])]
   \<and> d_Replies (snd (ApplyFollowerAck demo_waiting \<lparr>fa_Follower = 2, fa_MatchOffset = 1\<rparr>)) = []"
proof -
  have h: "cs_Role demo_waiting = RoleLeader" "IsReplica demo_waiting 2"
    using demo_stored_eval by (simp_all add: IsReplica_def)
  obtain w where w: "map_of (cs_PendingAppends demo_waiting) 11 = Some w" "w_Target w = 2" "w_CommitMode w = CommitModeQuorum"
    "map r_Index (w_Records w) = [1, 2]" using demo_stored_eval by auto
  have c: "completed_by demo_waiting \<lparr>fa_Follower = 2, fa_MatchOffset = t\<rparr> w \<longleftrightarrow> 2 \<le> t" for t
    using demo_stored_eval by (simp add: completed_by_def holds_after_def w(2,3))
  have le: "\<not> (2 :: u64) \<le> 1" by code_simp
  note A = ack_replies [OF demo_waiting_inv h(1) _ prod.collapse [symmetric]]
  show ?thesis
    using A [of demo_ack] A [of "\<lparr>fa_Follower = 2, fa_MatchOffset = 1\<rparr>"] h(2) c [of 1] c [of 2] demo_stored_eval w(1,4) le
    by (simp add: demo_ack_def)
qed

theorem stored_reply_sequences_witness:
  "\<exists>r i off n. r \<in> set (d_Replies (snd (the (ApplyAppendStored demo_proposed demo_stored))))
    \<and> rp_OpID r = op_WaiterOpIDs (batch_op demo_batch) ! i
    \<and> map it_MessageSeq (rp_AppendItems r) = map (\<lambda>j. 1 + of_nat j) [off..<off + n]"
proof -
  let ?d = "snd (the (ApplyAppendStored demo_proposed demo_stored))"
  obtain r where r: "r \<in> set (d_Replies ?d)"
    using demo_stored_eval by (metis list.map_disc_iff list.set_intros(1) neq_Nil_conv not_Cons_self2)
  have op: "cs_InflightAppend demo_proposed = Some (batch_op demo_batch)"
    by (simp add: demo_proposed_eq)
  have base: "as_BaseOffset demo_stored = 1" by (simp add: demo_stored_def)
  from stored_reply_sequences [OF demo_proposed_inv op demo_fence demo_waiting_run r] r base
  show ?thesis by metis
qed

theorem propose_all_or_nothing_witness:
  "channel_inv demo_leader \<and> propose_accepts demo_leader demo_batch
   \<and> map t_Fence (d_Tasks (snd (ProposeAppendBatch demo_leader demo_batch))) = [state_fence demo_leader 9]"
  using propose_all_or_nothing [OF demo_leader_inv prod.collapse [symmetric], of demo_batch]
    demo_leader_inv demo_accepts
  by (simp add: demo_batch_def)

end
