(* ===== verification/Bytes.thy ===== *)
theory Bytes
  imports Prelude
begin

text \<open>
  Big-endian fixed-width integers, Go's \<open>encoding/binary.BigEndian\<close>: \<open>put16\<close>, \<open>put32\<close>,
  \<open>put64\<close> are \<open>AppendUint16\<close> and its kin, the \<open>get\<close> functions read them back with the
  rest of the input (\<open>None\<close> where the slice is too short). Each pair is a codec, and the
  encodings compare like the numbers.
\<close>

fun be_bytes :: "nat \<Rightarrow> nat \<Rightarrow> u8 list" where
  "be_bytes 0 v = []"
| "be_bytes (Suc n) v = be_bytes n (v div 256) @ [of_nat v]"

definition be_val :: "u8 list \<Rightarrow> nat" where
  "be_val bs = foldl (\<lambda>a b. a * 256 + unat b) 0 bs"

lemma length_be_bytes [simp]: "length (be_bytes n v) = n"
  by (induction n arbitrary: v) auto

lemma be_val_append [simp]: "be_val (bs @ [b]) = be_val bs * 256 + unat b"
  by (simp add: be_val_def)

lemma unat_byte: "unat (of_nat v :: u8) = v mod 256"
  by (simp add: unat_of_nat)

lemma be_val_be_bytes: "be_val (be_bytes n v) = v mod 256 ^ n"
proof (induction n arbitrary: v)
  case 0
  then show ?case by (simp add: be_val_def)
next
  case (Suc n)
  have "v mod (256 * 256 ^ n) = 256 * (v div 256 mod 256 ^ n) + v mod 256"
    by (rule mod_mult2_eq)
  then show ?case by (simp add: Suc unat_byte)
qed

definition put16 :: "u16 \<Rightarrow> u8 list" where
  "put16 x = be_bytes 2 (unat x)"

definition put32 :: "u32 \<Rightarrow> u8 list" where
  "put32 x = be_bytes 4 (unat x)"

definition put64 :: "u64 \<Rightarrow> u8 list" where
  "put64 x = be_bytes 8 (unat x)"

definition get_be :: "nat \<Rightarrow> u8 list \<Rightarrow> ('w :: len word \<times> u8 list) option" where
  "get_be n bs = (if length bs < n then None else Some (of_nat (be_val (take n bs)), drop n bs))"

definition get16 :: "u8 list \<Rightarrow> (u16 \<times> u8 list) option" where
  "get16 = get_be 2"

definition get32 :: "u8 list \<Rightarrow> (u32 \<times> u8 list) option" where
  "get32 = get_be 4"

definition get64 :: "u8 list \<Rightarrow> (u64 \<times> u8 list) option" where
  "get64 = get_be 8"

lemma length_put [simp]: "length (put16 x) = 2" "length (put32 y) = 4" "length (put64 z) = 8"
  by (simp_all add: put16_def put32_def put64_def)

lemma get_be_bytes:
  fixes x :: "'w :: len word"
  assumes "LENGTH('w) \<le> 8 * n"
  shows "get_be n (be_bytes n (unat x) @ rest) = Some (x, rest)"
proof -
  have "unat x < 2 ^ LENGTH('w)" by (rule unsigned_less)
  also have "\<dots> \<le> 2 ^ (8 * n)" using assms by (intro power_increasing) auto
  also have "\<dots> = (256 :: nat) ^ n" by (simp add: power_mult)
  finally have "be_val (be_bytes n (unat x)) = unat x" by (simp add: be_val_be_bytes)
  then show ?thesis by (simp add: get_be_def)
qed

interpretation be16: codec put16 get16 "\<lambda>_. True"
  by unfold_locales (simp add: put16_def get16_def get_be_bytes)

interpretation be32: codec put32 get32 "\<lambda>_. True"
  by unfold_locales (simp add: put32_def get32_def get_be_bytes)

interpretation be64: codec put64 get64 "\<lambda>_. True"
  by unfold_locales (simp add: put64_def get64_def get_be_bytes)

section \<open>Reading back\<close>

lemma be_val_less: "be_val bs < 256 ^ length bs"
proof (induction bs rule: rev_induct)
  case (snoc b bs)
  have "unat b < 2 ^ LENGTH(8)" by (rule unsigned_less)
  then show ?case using snoc by simp
qed (simp add: be_val_def)

lemma be_bytes_be_val: "be_bytes (length bs) (be_val bs) = bs"
proof (induction bs rule: rev_induct)
  case (snoc b bs)
  have "unat b < 2 ^ LENGTH(8)" by (rule unsigned_less)
  then have "unat b < 256" by simp
  moreover have "(of_nat (be_val bs * 256 + unat b) :: u8) = b"
    unfolding word_unat_eq_iff unat_byte using \<open>unat b < 256\<close> by simp
  ultimately show ?case using snoc by simp
qed simp

lemma get_be_split:
  assumes "get_be n bs = Some (x :: 'w :: len word, r)" "LENGTH('w) = 8 * n"
  shows "bs = be_bytes n (unat x) @ r"
proof -
  have l: "n \<le> length bs" "r = drop n bs" "x = of_nat (be_val (take n bs))"
    using assms(1) by (auto simp: get_be_def split: if_splits)
  have "be_val (take n bs) < 256 ^ n" using be_val_less [of "take n bs"] l by (simp add: min_absorb2)
  also have "(256 :: nat) ^ n = 2 ^ LENGTH('w)" by (simp add: assms(2) power_mult)
  finally have "unat x = be_val (take n bs)" using l by (simp add: unsigned_of_nat take_bit_nat_eq_self)
  then have "be_bytes n (unat x) = take n bs" using l be_bytes_be_val [of "take n bs"] by (simp add: min_absorb2)
  then show ?thesis using l by simp
qed

lemma get64_split: "get64 bs = Some (x, r) \<Longrightarrow> bs = put64 x @ r"
  using get_be_split [where 'w = 64] by (simp add: get64_def put64_def)

lemma get32_split: "get32 bs = Some (x, r) \<Longrightarrow> bs = put32 x @ r"
  using get_be_split [where 'w = 32] by (simp add: get32_def put32_def)

lemma get16_split: "get16 bs = Some (x, r) \<Longrightarrow> bs = put16 x @ r"
  using get_be_split [where 'w = 16] by (simp add: get16_def put16_def)

lemma get64_put: "get64 bs = Some (x, r) \<Longrightarrow> length bs = 8 \<Longrightarrow> put64 x = bs"
  using get64_split [of bs x r] by simp

lemma get16_put: "get16 bs = Some (x, r) \<Longrightarrow> length bs = 2 \<Longrightarrow> put16 x = bs"
  using get16_split [of bs x r] by simp

section \<open>Byte order is numeric order\<close>

lemma list_less_snoc:
  "length xs = length ys \<Longrightarrow>
    xs @ [a] < ys @ [b] \<longleftrightarrow> xs < ys \<or> xs = ys \<and> a < (b :: 'a :: linorder)"
  by (induction xs ys rule: list_induct2) auto

lemma list_less_append:
  "length xs = length ys \<Longrightarrow>
    xs @ r < ys @ r' \<longleftrightarrow> xs < ys \<or> xs = ys \<and> r < (r' :: 'a :: linorder list)"
  by (induction xs ys rule: list_induct2) auto

lemma digit_less:
  "a < 256 \<Longrightarrow> b < 256 \<Longrightarrow> 256 * x + a < 256 * y + b \<longleftrightarrow> x < y \<or> x = y \<and> a < (b :: nat)"
  by linarith

lemma be_bytes_less:
  "u < 256 ^ n \<Longrightarrow> v < 256 ^ n \<Longrightarrow> be_bytes n u < be_bytes n v \<longleftrightarrow> u < v"
proof (induction n arbitrary: u v)
  case (Suc n)
  have b: "u div 256 < 256 ^ n" "v div 256 < 256 ^ n"
    using Suc.prems by (simp_all add: less_mult_imp_div_less mult.commute)
  have eq: "be_bytes n (u div 256) = be_bytes n (v div 256) \<longleftrightarrow> u div 256 = v div 256"
    by (metis b be_val_be_bytes mod_less)
  have "(of_nat u :: u8) < of_nat v \<longleftrightarrow> u mod 256 < v mod 256"
    by (simp add: word_less_nat_alt unat_byte)
  then have "be_bytes (Suc n) u < be_bytes (Suc n) v \<longleftrightarrow>
      u div 256 < v div 256 \<or> u div 256 = v div 256 \<and> u mod 256 < v mod 256"
    by (simp add: list_less_snoc Suc.IH [OF b] eq)
  also have "\<dots> \<longleftrightarrow> 256 * (u div 256) + u mod 256 < 256 * (v div 256) + v mod 256"
    by (rule digit_less [symmetric]) simp_all
  also have "\<dots> \<longleftrightarrow> u < v" by (simp only: mult_div_mod_eq)
  finally show ?case .
qed simp

lemma put64_less: "put64 x < put64 y \<longleftrightarrow> x < y"
proof -
  have "unat x < 256 ^ 8" "unat y < 256 ^ 8"
    using unsigned_less [of x] unsigned_less [of y] by simp_all
  then show ?thesis by (simp add: put64_def be_bytes_less word_less_nat_alt)
qed

lemma put32_less: "put32 x < put32 y \<longleftrightarrow> x < y"
proof -
  have "unat x < 256 ^ 4" "unat y < 256 ^ 4"
    using unsigned_less [of x] unsigned_less [of y] by simp_all
  then show ?thesis by (simp add: put32_def be_bytes_less word_less_nat_alt)
qed

lemma put16_less: "put16 x < put16 y \<longleftrightarrow> x < y"
proof -
  have "unat x < 256 ^ 2" "unat y < 256 ^ 2"
    using unsigned_less [of x] unsigned_less [of y] by simp_all
  then show ?thesis by (simp add: put16_def be_bytes_less word_less_nat_alt)
qed

section \<open>Writing into a buffer\<close>

text \<open>\<open>dst[pos] = b\<close> and \<open>PutUvarint(dst[pos:], v)\<close> panic out of range (\<open>None\<close>); \<open>copy\<close> stops at the end.\<close>

definition put_at :: "u8 list \<Rightarrow> nat \<Rightarrow> u8 list \<Rightarrow> u8 list option" where
  "put_at dst pos bs =
     (if length dst < pos + length bs then None else Some (take pos dst @ bs @ drop (pos + length bs) dst))"

definition copy_at :: "u8 list \<Rightarrow> nat \<Rightarrow> u8 list \<Rightarrow> u8 list option" where
  "copy_at dst pos bs =
     (if length dst < pos then None
      else let bs = take (length dst - pos) bs in Some (take pos dst @ bs @ drop (pos + length bs) dst))"

lemma put_at_end:
  "length bs \<le> length rest \<Longrightarrow> put_at (out @ rest) (length out) bs = Some ((out @ bs) @ drop (length bs) rest)"
  by (simp add: put_at_def)

lemma copy_at_end:
  "length bs \<le> length rest \<Longrightarrow> copy_at (out @ rest) (length out) bs = Some ((out @ bs) @ drop (length bs) rest)"
  by (simp add: copy_at_def)

section \<open>CRC-32\<close>

text \<open>
  The table-free form of \<open>hash/crc32.Checksum\<close> for a reflected polynomial: 0xEDB88320 is the IEEE
  polynomial, 0x82F63B78 Castagnoli's.
\<close>

fun crc32_bits :: "u32 \<Rightarrow> nat \<Rightarrow> u32 \<Rightarrow> u32" where
  "crc32_bits poly 0 c = c"
| "crc32_bits poly (Suc n) c =
     crc32_bits poly n (if c AND 1 = 1 then (drop_bit 1 c) XOR poly else drop_bit 1 c)"

definition crc32_with :: "u32 \<Rightarrow> u8 list \<Rightarrow> u32" where
  "crc32_with poly bs = NOT (foldl (\<lambda>c b. crc32_bits poly 8 (c XOR ucast b)) (NOT 0) bs)"

end
