(* ===== verification/HashSlotTable.thy ===== *)
theory HashSlotTable
  imports Bytes
begin

text \<open>
  The hash-slot routing table of \<open>pkg/cluster/hashslot/hashslottable.go\<close>: which physical slot owns
  each hash slot, the migrations in progress, and the binary encoding of the table. Methods are
  modelled on a non-nil receiver (a nil receiver has no table and every method returns a zero value
  for it); a method that mutates the table returns the new one.
\<close>

section \<open>Data\<close>

type_synonym SlotID = u64

type_synonym MigrationPhase = u8

definition PhaseSnapshot :: MigrationPhase where "PhaseSnapshot = 0"

definition PhaseDelta :: MigrationPhase where "PhaseDelta = 1"

definition PhaseSwitching :: MigrationPhase where "PhaseSwitching = 2"

definition PhaseDone :: MigrationPhase where "PhaseDone = 3"

record HashSlotMigration =
  hm_HashSlot :: u16
  hm_Source :: SlotID
  hm_Target :: SlotID
  hm_Phase :: MigrationPhase

record HashSlotTable =
  ht_version :: u64
  ht_hashSlotCount :: u16
  ht_assignment :: "SlotID list"
  ht_migrations :: "(u16, HashSlotMigration) gomap"

datatype HashSlotErr = PayloadTooShort | UnknownVersion u16 | LengthMismatch

definition hashSlotTableEncodingVersion :: u16 where "hashSlotTableEncodingVersion = 2"

section \<open>Construction\<close>

text \<open>
  The two nested loops of \<open>NewHashSlotTable\<close>: \<open>fill_run\<close> is the inner one (\<open>n\<close> is
  the number of hash slots, \<open>nxt\<close> the next one to fill), \<open>fill_slots\<close> the outer one.
\<close>

fun fill_run :: "nat \<Rightarrow> SlotID \<Rightarrow> nat \<Rightarrow> nat \<times> SlotID list \<Rightarrow> nat \<times> SlotID list" where
  "fill_run 0 slotID n st = st"
| "fill_run (Suc cnt) slotID n (nxt, assignment) =
     (if nxt < n then fill_run cnt slotID n (Suc nxt, assignment[nxt := slotID]) else (nxt, assignment))"

fun fill_slots :: "nat \<Rightarrow> nat \<Rightarrow> nat \<Rightarrow> nat list \<Rightarrow> nat \<times> SlotID list \<Rightarrow> nat \<times> SlotID list" where
  "fill_slots base remainder n [] st = st"
| "fill_slots base remainder n (slotIdx # idxs) st =
     (let cnt = (if slotIdx < remainder then Suc base else base);
          slotID = of_nat (slotIdx + 1)
      in fill_slots base remainder n idxs (fill_run cnt slotID n st))"

definition NewHashSlotTable :: "u16 \<Rightarrow> int \<Rightarrow> HashSlotTable" where
  "NewHashSlotTable hashSlotCount physicalSlotCount =
     (let n = unat hashSlotCount;
          table = \<lparr>ht_version = 1, ht_hashSlotCount = hashSlotCount, ht_assignment = replicate n 0,
                   ht_migrations = []\<rparr>
      in if hashSlotCount = 0 \<or> physicalSlotCount \<le> 0 then table
         else
           let p = nat physicalSlotCount; base = n div p; remainder = n mod p
           in table\<lparr>ht_assignment :=
                snd (fill_slots base remainder n [0..<p] (0, ht_assignment table))\<rparr>)"

section \<open>Operations\<close>

definition Lookup :: "HashSlotTable \<Rightarrow> u16 \<Rightarrow> SlotID" where
  "Lookup t hashSlot =
     (if unat hashSlot \<ge> length (ht_assignment t) then 0 else ht_assignment t ! unat hashSlot)"

definition Reassign :: "HashSlotTable \<Rightarrow> u16 \<Rightarrow> SlotID \<Rightarrow> HashSlotTable" where
  "Reassign t hashSlot slotID =
     (if unat hashSlot \<ge> length (ht_assignment t) then t
      else if ht_assignment t ! unat hashSlot = slotID then t
      else t\<lparr>ht_assignment := (ht_assignment t)[unat hashSlot := slotID],
             ht_version := ht_version t + 1\<rparr>)"

definition StartMigration :: "HashSlotTable \<Rightarrow> u16 \<Rightarrow> SlotID \<Rightarrow> SlotID \<Rightarrow> HashSlotTable" where
  "StartMigration t hashSlot sourceSlot targetSlot =
     (if unat hashSlot \<ge> length (ht_assignment t) then t
      else
        let current = ht_assignment t ! unat hashSlot
        in if sourceSlot = 0 \<or> targetSlot = 0 \<or> sourceSlot = targetSlot \<or> current \<noteq> sourceSlot then t
           else if map_of (ht_migrations t) hashSlot \<noteq> None then t
           else t\<lparr>ht_migrations := AList.update hashSlot
                    \<lparr>hm_HashSlot = hashSlot, hm_Source = sourceSlot, hm_Target = targetSlot,
                     hm_Phase = PhaseSnapshot\<rparr> (ht_migrations t),
                  ht_version := ht_version t + 1\<rparr>)"

definition AdvanceMigration :: "HashSlotTable \<Rightarrow> u16 \<Rightarrow> MigrationPhase \<Rightarrow> HashSlotTable" where
  "AdvanceMigration t hashSlot phase =
     (case map_of (ht_migrations t) hashSlot of
        None \<Rightarrow> t
      | Some migration \<Rightarrow>
          if hm_Phase migration = phase then t
          else t\<lparr>ht_migrations := AList.update hashSlot (migration\<lparr>hm_Phase := phase\<rparr>) (ht_migrations t),
                 ht_version := ht_version t + 1\<rparr>)"

definition FinalizeMigration :: "HashSlotTable \<Rightarrow> u16 \<Rightarrow> HashSlotTable" where
  "FinalizeMigration t hashSlot =
     (case map_of (ht_migrations t) hashSlot of
        None \<Rightarrow> t
      | Some migration \<Rightarrow>
          let t = (if unat hashSlot < length (ht_assignment t)
                   then t\<lparr>ht_assignment := (ht_assignment t)[unat hashSlot := hm_Target migration]\<rparr>
                   else t)
          in t\<lparr>ht_migrations := AList.delete hashSlot (ht_migrations t),
               ht_version := ht_version t + 1\<rparr>)"

definition AbortMigration :: "HashSlotTable \<Rightarrow> u16 \<Rightarrow> HashSlotTable" where
  "AbortMigration t hashSlot =
     (if map_of (ht_migrations t) hashSlot = None then t
      else t\<lparr>ht_migrations := AList.delete hashSlot (ht_migrations t),
             ht_version := ht_version t + 1\<rparr>)"

definition GetMigration :: "HashSlotTable \<Rightarrow> u16 \<Rightarrow> HashSlotMigration option" where
  "GetMigration t hashSlot = map_of (ht_migrations t) hashSlot"

definition ActiveMigrations :: "HashSlotTable \<Rightarrow> HashSlotMigration list" where
  "ActiveMigrations t =
     (if length (ht_migrations t) = 0 then []
      else sort_by (\<lambda>a b. hm_HashSlot a < hm_HashSlot b) (map snd (ht_migrations t)))"

definition HashSlotsOf :: "HashSlotTable \<Rightarrow> SlotID \<Rightarrow> u16 list" where
  "HashSlotsOf t slotID =
     map (\<lambda>(hashSlot, _). of_nat hashSlot)
       (filter (\<lambda>(_, assigned). assigned = slotID) (List.enumerate 0 (ht_assignment t)))"

text \<open>The loop that collects distinct non-zero slot ids in order of first occurrence.\<close>

fun collect_ids :: "SlotID list \<Rightarrow> SlotID list \<Rightarrow> SlotID list" where
  "collect_ids seen [] = []"
| "collect_ids seen (slotID # ids) =
     (if slotID = 0 then collect_ids seen ids
      else if slotID \<in> set seen then collect_ids seen ids
      else slotID # collect_ids (slotID # seen) ids)"

definition sortSlotIDs :: "SlotID list \<Rightarrow> SlotID list" where
  "sortSlotIDs slots = sort_by (\<lambda>a b. a < b) slots"

definition AssignedSlotIDs :: "HashSlotTable \<Rightarrow> SlotID list" where
  "AssignedSlotIDs t = sortSlotIDs (collect_ids [] (ht_assignment t))"

definition Clone :: "HashSlotTable \<Rightarrow> HashSlotTable" where
  "Clone t = \<lparr>ht_version = ht_version t, ht_hashSlotCount = ht_hashSlotCount t,
     ht_assignment = ht_assignment t, ht_migrations = ht_migrations t\<rparr>"

section \<open>Encoding\<close>

definition put_migration :: "HashSlotMigration \<Rightarrow> u8 list" where
  "put_migration m = put16 (hm_HashSlot m) @ [hm_Phase m, 0] @ put64 (hm_Source m) @ put64 (hm_Target m)"

definition Encode :: "HashSlotTable \<Rightarrow> u8 list" where
  "Encode t =
     (let migrations = ActiveMigrations t
      in put16 hashSlotTableEncodingVersion @ put16 (ht_hashSlotCount t) @ put64 (ht_version t)
         @ concat (map put64 (ht_assignment t))
         @ put16 (of_nat (length migrations)) @ concat (map put_migration migrations))"

text \<open>One 20-byte record: hash slot, phase, a padding byte, source, target.\<close>

definition get_migration :: "u8 list \<Rightarrow> (HashSlotMigration \<times> u8 list) option" where
  "get_migration bs =
     (if length bs < 20 then None
      else case get16 bs of None \<Rightarrow> None
        | Some (hashSlot, _) \<Rightarrow> (case get64 (drop 4 bs) of None \<Rightarrow> None
          | Some (source, _) \<Rightarrow> (case get64 (drop 12 bs) of None \<Rightarrow> None
            | Some (target, rest) \<Rightarrow>
                Some (\<lparr>hm_HashSlot = hashSlot, hm_Source = source, hm_Target = target,
                       hm_Phase = bs ! 2\<rparr>, rest))))"

fun store_migrations :: "HashSlotMigration list \<Rightarrow> (u16, HashSlotMigration) gomap \<Rightarrow> (u16, HashSlotMigration) gomap" where
  "store_migrations [] ms = ms"
| "store_migrations (m # rest) ms = store_migrations rest (AList.update (hm_HashSlot m) m ms)"

text \<open>
  The decoder keeps an offset into \<open>data\<close>; the model keeps the rest of the data after it.
\<close>

definition decode_migrations :: "HashSlotTable \<Rightarrow> u8 list \<Rightarrow> HashSlotErr + HashSlotTable" where
  "decode_migrations table rest =
     (if length rest = 0 then Inr table
      else case get16 rest of None \<Rightarrow> Inl LengthMismatch
        | Some (migrationCount, rest) \<Rightarrow>
            if length rest \<noteq> unat migrationCount * 20 then Inl LengthMismatch
            else (case get_many get_migration (unat migrationCount) rest of
                None \<Rightarrow> Inl LengthMismatch
              | Some (ms, _) \<Rightarrow>
                  Inr (table\<lparr>ht_migrations := store_migrations ms (ht_migrations table)\<rparr>)))"

definition DecodeHashSlotTable :: "u8 list \<Rightarrow> HashSlotErr + HashSlotTable" where
  "DecodeHashSlotTable data =
     (if length data < 12 then Inl PayloadTooShort
      else
        let version = fst (the (get16 data));
            hashSlotCount = fst (the (get16 (drop 2 data)));
            tableVersion = fst (the (get64 (drop 4 data)))
        in if version \<noteq> 1 \<and> version \<noteq> hashSlotTableEncodingVersion then Inl (UnknownVersion version)
           else case get_many get64 (unat hashSlotCount) (drop 12 data) of
               None \<Rightarrow> Inl LengthMismatch
             | Some (assignment, rest) \<Rightarrow>
                 let table = \<lparr>ht_version = tableVersion, ht_hashSlotCount = hashSlotCount,
                              ht_assignment = assignment, ht_migrations = []\<rparr>
                 in if version = 1
                    then (if length rest \<noteq> 0 then Inl LengthMismatch else Inr table)
                    else decode_migrations table rest)"

section \<open>Routing a key (CRC-32, \<open>hash/crc32.ChecksumIEEE\<close>)\<close>

definition ChecksumIEEE :: "u8 list \<Rightarrow> u32" where
  "ChecksumIEEE bs = crc32_with 0xEDB88320 bs"

definition HashSlotForKey :: "u8 list \<Rightarrow> u16 \<Rightarrow> u16" where
  "HashSlotForKey key hashSlotCount =
     (if hashSlotCount = 0 then 0 else ucast (ChecksumIEEE key mod ucast hashSlotCount))"


end
