(* ===== verification/HashSlotSafety.thy ===== *)
theory HashSlotSafety
  imports HashSlotTable
begin

text \<open>
  The hash-slot table's promises: every mutation keeps the table well formed, routes change only
  when a migration is finalised, the initial table is balanced, and decoding inverts encoding.
\<close>

section \<open>The table as a machine\<close>

definition migration_ok :: "HashSlotTable \<Rightarrow> u16 \<times> HashSlotMigration \<Rightarrow> bool" where
  "migration_ok t = (\<lambda>(h, m). hm_HashSlot m = h \<and> unat h < length (ht_assignment t)
     \<and> hm_Source m \<noteq> 0 \<and> hm_Target m \<noteq> 0 \<and> hm_Source m \<noteq> hm_Target m)"

definition table_inv :: "HashSlotTable \<Rightarrow> bool" where
  "table_inv t \<longleftrightarrow> length (ht_assignment t) = unat (ht_hashSlotCount t)
     \<and> distinct (map fst (ht_migrations t)) \<and> list_all (migration_ok t) (ht_migrations t)"

datatype TableEvent = EvReassign u16 SlotID | EvStart u16 SlotID SlotID | EvAdvance u16 MigrationPhase
  | EvFinalize u16 | EvAbortMigration u16

fun table_step :: "HashSlotTable \<Rightarrow> TableEvent \<Rightarrow> HashSlotTable option" where
  "table_step t (EvReassign h slotID) = Some (Reassign t h slotID)"
| "table_step t (EvStart h source target) = Some (StartMigration t h source target)"
| "table_step t (EvAdvance h phase) = Some (AdvanceMigration t h phase)"
| "table_step t (EvFinalize h) = Some (FinalizeMigration t h)"
| "table_step t (EvAbortMigration h) = Some (AbortMigration t h)"

lemma list_all_update:
  "list_all P m \<Longrightarrow> P (k, v) \<Longrightarrow> list_all P (AList.update k v m)"
  by (induction m) auto

lemma list_all_delete: "list_all P m \<Longrightarrow> list_all P (AList.delete k m)"
  by (induction m) auto

lemma migration_ok_cong: "length (ht_assignment t') = length (ht_assignment t) \<Longrightarrow> migration_ok t' = migration_ok t"
  by (auto simp: migration_ok_def)

lemma table_inv_lookup:
  "table_inv t \<Longrightarrow> map_of (ht_migrations t) h = Some m \<Longrightarrow> migration_ok t (h, m)"
  by (auto simp: table_inv_def list_all_iff dest: map_of_SomeD)

lemma Reassign_inv: "table_inv t \<Longrightarrow> table_inv (Reassign t h slotID)"
  by (auto simp: table_inv_def Reassign_def migration_ok_def)

lemma StartMigration_inv: "table_inv t \<Longrightarrow> table_inv (StartMigration t h source target)"
  by (simp add: table_inv_def StartMigration_def Let_def)
    (auto simp: migration_ok_def intro!: list_all_update)

lemma AdvanceMigration_inv: "table_inv t \<Longrightarrow> table_inv (AdvanceMigration t h phase)"
  using table_inv_lookup [of t h]
  by (simp add: table_inv_def AdvanceMigration_def split: option.splits)
    (auto simp: migration_ok_def intro!: list_all_update)

lemma FinalizeMigration_inv: "table_inv t \<Longrightarrow> table_inv (FinalizeMigration t h)"
  by (auto simp: table_inv_def FinalizeMigration_def Let_def migration_ok_def
      intro!: list_all_delete split: option.splits)

lemma AbortMigration_inv: "table_inv t \<Longrightarrow> table_inv (AbortMigration t h)"
  by (auto simp: table_inv_def AbortMigration_def migration_ok_def intro!: list_all_delete)

interpretation table_machine: machine table_step "\<lambda>_ _. True" table_inv
proof unfold_locales
  fix t e
  assume "table_inv t"
  then show "\<exists>t'. table_step t e = Some t' \<and> table_inv t'"
    by (cases e) (simp_all add: Reassign_inv StartMigration_inv AdvanceMigration_inv
        FinalizeMigration_inv AbortMigration_inv)
qed

section \<open>Ownership and migrations\<close>

lemma Lookup_frame:
  "ht_assignment t' = ht_assignment t \<Longrightarrow> Lookup t' = Lookup t"
  by (simp add: Lookup_def fun_eq_iff)

lemma StartMigration_assignment [simp]: "ht_assignment (StartMigration t h s g) = ht_assignment t"
  by (simp add: StartMigration_def Let_def)

lemma AdvanceMigration_assignment [simp]: "ht_assignment (AdvanceMigration t h p) = ht_assignment t"
  by (simp add: AdvanceMigration_def split: option.splits)

lemma AbortMigration_assignment [simp]: "ht_assignment (AbortMigration t h) = ht_assignment t"
  by (simp add: AbortMigration_def)

definition advance_all :: "HashSlotTable \<Rightarrow> u16 \<Rightarrow> MigrationPhase list \<Rightarrow> HashSlotTable" where
  "advance_all t h phases = foldl (\<lambda>t p. AdvanceMigration t h p) t phases"

lemma AdvanceMigration_lookup:
  "map_of (ht_migrations (AdvanceMigration t h p)) k =
     (if k = h then map_option (\<lambda>m. m\<lparr>hm_Phase := p\<rparr>) (map_of (ht_migrations t) h)
      else map_of (ht_migrations t) k)"
  by (auto simp: AdvanceMigration_def split: option.splits)

lemma advance_all_assignment [simp]: "ht_assignment (advance_all t h ps) = ht_assignment t"
  by (induction ps arbitrary: t) (simp_all add: advance_all_def)

lemma advance_all_lookup:
  "k \<noteq> h \<Longrightarrow> map_of (ht_migrations (advance_all t h ps)) k = map_of (ht_migrations t) k"
  "map_of (ht_migrations t) h = Some m \<Longrightarrow>
     \<exists>p. map_of (ht_migrations (advance_all t h ps)) h = Some (m\<lparr>hm_Phase := p\<rparr>)"
proof (induction ps arbitrary: t m)
  case Nil
  { case 1 show ?case by (simp add: advance_all_def) }
  { case 2 then show ?case by (auto simp: advance_all_def intro!: exI [of _ "hm_Phase m"]) }
next
  case (Cons p ps)
  { case 1 then show ?case using Cons.IH(1) [of "AdvanceMigration t h p"]
      by (simp add: advance_all_def AdvanceMigration_lookup) }
  { case 2 then show ?case using Cons.IH(2) [of "AdvanceMigration t h p" "m\<lparr>hm_Phase := p\<rparr>"]
      by (simp add: advance_all_def AdvanceMigration_lookup) }
qed

lemma FinalizeMigration_Lookup:
  assumes "map_of (ht_migrations t) h = Some m" "unat h < length (ht_assignment t)"
  shows "Lookup (FinalizeMigration t h) k = (if k = h then hm_Target m else Lookup t k)"
proof -
  have "unat h = unat k \<longleftrightarrow> h = k" by (simp add: word_unat_eq_iff)
  then show ?thesis using assms by (auto simp: FinalizeMigration_def Lookup_def Let_def nth_list_update)
qed

lemma StartMigration_accepted:
  assumes "Lookup t h = source" "source \<noteq> 0" "target \<noteq> 0" "source \<noteq> target" "GetMigration t h = None"
  shows "ht_migrations (StartMigration t h source target) = AList.update h
     \<lparr>hm_HashSlot = h, hm_Source = source, hm_Target = target, hm_Phase = PhaseSnapshot\<rparr> (ht_migrations t)"
    and "unat h < length (ht_assignment t)"
  using assms by (auto simp: StartMigration_def Lookup_def GetMigration_def Let_def split: if_splits)

section \<open>Encoding\<close>

interpretation migration_codec: codec put_migration get_migration "\<lambda>_. True"
proof unfold_locales
  fix m :: HashSlotMigration and rest
  have "drop 4 (put_migration m @ rest) = put64 (hm_Source m) @ put64 (hm_Target m) @ rest"
    "drop 12 (put_migration m @ rest) = put64 (hm_Target m) @ rest"
    "(put_migration m @ rest) ! 2 = hm_Phase m" "20 \<le> length (put_migration m @ rest)"
    by (simp_all add: put_migration_def nth_append)
  moreover have "\<exists>r. get16 (put_migration m @ rest) = Some (hm_HashSlot m, r)"
    by (simp add: put_migration_def be16.get_put)
  ultimately show "get_migration (put_migration m @ rest) = Some (m, rest)"
    by (auto simp: get_migration_def be64.get_put)
qed

lemma length_put_migration [simp]: "length (put_migration m) = 20"
  by (simp add: put_migration_def)

lemma length_concat_const: "(\<And>x. length (f x) = k) \<Longrightarrow> length (concat (map f xs)) = length xs * k"
  by (induction xs) auto

lemma store_migrations_eq:
  assumes "distinct (map hm_HashSlot ms)" and "hm_HashSlot ` set ms \<inter> fst ` set acc = {}"
  shows "store_migrations ms acc = acc @ map (\<lambda>m. (hm_HashSlot m, m)) ms"
  using assms
proof (induction ms arbitrary: acc)
  case (Cons m ms)
  then have "hm_HashSlot m \<notin> fst ` set acc" by auto
  then have "store_migrations (m # ms) acc = store_migrations ms (acc @ [(hm_HashSlot m, m)])"
    by (simp add: update_fresh)
  with Cons show ?case by auto
qed simp

lemma migrations_keys:
  assumes "table_inv t"
  shows "map hm_HashSlot (map snd (ht_migrations t)) = map fst (ht_migrations t)"
  using assms by (auto simp: table_inv_def list_all_iff migration_ok_def)

lemma ActiveMigrations_eq: "ActiveMigrations t = sort_key hm_HashSlot (map snd (ht_migrations t))"
  by (simp add: ActiveMigrations_def sort_by_fst)

lemma ActiveMigrations_props:
  assumes "table_inv t"
  shows "distinct (map hm_HashSlot (ActiveMigrations t))"
    and "map_of (map (\<lambda>m. (hm_HashSlot m, m)) (ActiveMigrations t)) = map_of (ht_migrations t)"
    and "length (ActiveMigrations t) \<le> unat (ht_hashSlotCount t)"
proof -
  let ?ms = "map snd (ht_migrations t)"
  have dist: "distinct (map hm_HashSlot ?ms)"
    using assms migrations_keys by (metis table_inv_def)
  have "mset (map hm_HashSlot (ActiveMigrations t)) = mset (map hm_HashSlot ?ms)"
    by (simp add: ActiveMigrations_eq image_mset.compositionality)
  then show d: "distinct (map hm_HashSlot (ActiveMigrations t))"
    using dist mset_eq_imp_distinct_iff by metis
  show "map_of (map (\<lambda>m. (hm_HashSlot m, m)) (ActiveMigrations t)) = map_of (ht_migrations t)"
  proof (rule map_of_eqI)
    show "set (map fst (map (\<lambda>m. (hm_HashSlot m, m)) (ActiveMigrations t))) = set (map fst (ht_migrations t))"
    proof -
      have "hm_HashSlot ` snd ` set (ht_migrations t) = fst ` set (ht_migrations t)"
        using arg_cong [OF migrations_keys [OF assms], of set] by (simp only: set_map)
      then show ?thesis by (simp only: set_map image_image fst_conv ActiveMigrations_eq set_sort)
    qed
  next
    show "\<forall>k \<in> set (map fst (map (\<lambda>m. (hm_HashSlot m, m)) (ActiveMigrations t))).
        map_of (map (\<lambda>m. (hm_HashSlot m, m)) (ActiveMigrations t)) k = map_of (ht_migrations t) k"
    proof
      fix k assume "k \<in> set (map fst (map (\<lambda>m. (hm_HashSlot m, m)) (ActiveMigrations t)))"
      then obtain m where m: "m \<in> set (ActiveMigrations t)" "k = hm_HashSlot m" by auto
      then have "(k, m) \<in> set (ht_migrations t)"
        using assms by (auto simp: ActiveMigrations_eq table_inv_def list_all_iff migration_ok_def)
      moreover have "distinct (map fst (ht_migrations t))" using assms by (simp add: table_inv_def)
      ultimately have "map_of (ht_migrations t) k = Some m" by simp
      moreover have "map_of (map (\<lambda>m. (hm_HashSlot m, m)) (ActiveMigrations t)) k = Some m"
        using d m by (intro map_of_is_SomeI) (auto simp: comp_def)
      ultimately show "map_of (map (\<lambda>m. (hm_HashSlot m, m)) (ActiveMigrations t)) k = map_of (ht_migrations t) k"
        by simp
    qed
  qed
  have "card (unat ` set (map fst (ht_migrations t))) \<le> card {..<unat (ht_hashSlotCount t)}"
    using assms by (intro card_mono) (auto simp: table_inv_def list_all_iff migration_ok_def)
  moreover have "card (unat ` set (map fst (ht_migrations t))) = length (ht_migrations t)"
    using assms distinct_card [of "map fst (ht_migrations t)"]
    by (subst card_image) (auto simp: table_inv_def inj_on_def word_unat_eq_iff)
  ultimately show "length (ActiveMigrations t) \<le> unat (ht_hashSlotCount t)"
    by (simp add: ActiveMigrations_eq)
qed

lemma decode_migrations_encoded:
  assumes "distinct (map hm_HashSlot ms)" and "length ms < 2 ^ 16" and "ht_migrations table = []"
  shows "decode_migrations table (put16 (of_nat (length ms)) @ concat (map put_migration ms))
    = Inr (table\<lparr>ht_migrations := map (\<lambda>m. (hm_HashSlot m, m)) ms\<rparr>)"
proof -
  have n: "unat (of_nat (length ms) :: u16) = length ms"
    using assms(2) by (simp add: unat_of_nat)
  have "get_many get_migration (length ms) (concat (map put_migration ms) @ []) = Some (ms, [])"
    by (rule migration_codec.get_many_put) (simp add: list_all_iff)
  moreover have "length (concat (map put_migration ms)) = length ms * 20"
    by (rule length_concat_const) simp
  ultimately show ?thesis
    using assms(1,3) by (simp add: decode_migrations_def be16.get_put n store_migrations_eq)
qed

section \<open>The initial table\<close>

lemma fill_run_eq:
  "nxt + c \<le> n \<Longrightarrow> length as = n \<Longrightarrow>
    fill_run c slotID n (nxt, as) = (nxt + c, take nxt as @ replicate c slotID @ drop (nxt + c) as)"
proof (induction c arbitrary: nxt as)
  case (Suc c)
  have "take (Suc nxt) (as[nxt := slotID]) = take nxt as @ [slotID]"
    using Suc.prems by (simp add: take_Suc_conv_app_nth)
  with Suc show ?case by simp
qed simp

definition slot_count :: "nat \<Rightarrow> nat \<Rightarrow> nat \<Rightarrow> nat" where
  "slot_count base remainder i = (if i < remainder then Suc base else base)"

definition slot_run :: "nat \<Rightarrow> nat \<Rightarrow> nat \<Rightarrow> SlotID list" where
  "slot_run base remainder i = replicate (slot_count base remainder i) (of_nat (i + 1))"

lemma fill_slots_eq:
  "nxt + sum_list (map (slot_count b r) idxs) \<le> n \<Longrightarrow> length as = n \<Longrightarrow>
    fill_slots b r n idxs (nxt, as) =
      (nxt + sum_list (map (slot_count b r) idxs),
       take nxt as @ concat (map (slot_run b r) idxs) @ drop (nxt + sum_list (map (slot_count b r) idxs)) as)"
proof (induction idxs arbitrary: nxt as)
  case (Cons i idxs)
  let ?c = "slot_count b r i" and ?id = "of_nat (i + 1) :: SlotID"
  have "fill_slots b r n (i # idxs) (nxt, as) = fill_slots b r n idxs (fill_run ?c ?id n (nxt, as))"
    by (simp add: slot_count_def Let_def)
  also have "fill_run ?c ?id n (nxt, as) = (nxt + ?c, take nxt as @ replicate ?c ?id @ drop (nxt + ?c) as)"
    using Cons.prems by (intro fill_run_eq) auto
  also have "fill_slots b r n idxs \<dots> =
      (nxt + ?c + sum_list (map (slot_count b r) idxs),
       (take nxt as @ replicate ?c ?id) @ concat (map (slot_run b r) idxs)
         @ drop (nxt + ?c + sum_list (map (slot_count b r) idxs)) as)"
    using Cons.prems by (subst Cons.IH) (auto simp: min_def ac_simps)
  finally show ?case by (simp add: slot_run_def [of b r i] add.assoc)
qed simp

lemma sum_slot_count:
  "sum_list (map (slot_count b r) [0..<p]) = p * b + min r p"
  by (induction p) (auto simp: slot_count_def min_def)

lemma sum_slot_count_total:
  assumes "0 < p" shows "sum_list (map (slot_count (n div p) (n mod p)) [0..<p]) = n"
proof -
  have "min (n mod p) p = n mod p" using assms by (simp add: min_def less_imp_le)
  then show ?thesis by (simp add: sum_slot_count)
qed

lemma NewHashSlotTable_assignment:
  assumes "0 < n" "0 < p"
  shows "ht_assignment (NewHashSlotTable n p) =
     concat (map (slot_run (unat n div nat p) (unat n mod nat p)) [0..<nat p])"
proof -
  have p: "0 < nat p" using assms(2) by simp
  have "n \<noteq> 0" using assms(1) by auto
  then show ?thesis
    using assms sum_slot_count_total [OF p, of "unat n"]
    by (simp add: NewHashSlotTable_def Let_def fill_slots_eq)
qed

lemma length_concat_runs: "length (concat (map (slot_run b r) idxs)) = sum_list (map (slot_count b r) idxs)"
  by (induction idxs) (simp_all add: slot_run_def)

lemma NewHashSlotTable_inv: "table_inv (NewHashSlotTable n p)"
proof (cases "n = 0 \<or> p \<le> 0")
  case True
  then show ?thesis by (auto simp: NewHashSlotTable_def table_inv_def Let_def)
next
  case False
  then have "0 < n" "0 < p" "0 < nat p" by (auto simp: word_gt_0)
  then have "length (ht_assignment (NewHashSlotTable n p)) = unat n"
    using sum_slot_count_total [of "nat p" "unat n"]
    by (simp add: NewHashSlotTable_assignment length_concat_runs)
  then show ?thesis by (simp add: table_inv_def NewHashSlotTable_def Let_def)
qed

text \<open>How many hash slots a physical slot owns is how often it occurs in the assignment.\<close>

lemma length_HashSlotsOf: "length (HashSlotsOf t s) = count_list (ht_assignment t) s"
proof -
  have "length (filter (\<lambda>(_, a). a = s) (List.enumerate n xs)) = count_list xs s" for n and xs :: "SlotID list"
    by (induction xs arbitrary: n) auto
  then show ?thesis by (simp add: HashSlotsOf_def)
qed

lemma count_list_runs:
  assumes "p < 2 ^ 64" "i < p"
  shows "count_list (concat (map (slot_run b r) [0..<p])) (of_nat (i + 1)) = slot_count b r i"
  using assms
proof (induction p)
  case (Suc p)
  have "count_list (replicate c x) y = (if x = y then c else 0)" for c and x y :: SlotID
    by (induction c) auto
  then have run: "count_list (slot_run b r j) y = (if of_nat (j + 1) = y then slot_count b r j else 0)" for j y
    by (simp only: slot_run_def)
  have inj: "(of_nat (p + 1) :: SlotID) = of_nat (j + 1) \<longleftrightarrow> p = j" if "j \<le> p" for j
    using Suc.prems(1) that by (simp add: word_unat_eq_iff unat_of_nat del: of_nat_add of_nat_Suc)
  have none: "count_list (concat (map (slot_run b r) [0..<q])) (of_nat (p + 1)) = 0" if "q \<le> p" for q
    using that
  proof (induction q)
    case (Suc q)
    have "(of_nat (q + 1) :: SlotID) \<noteq> of_nat (p + 1)" using inj [of q] Suc.prems by auto
    with Suc show ?case by (simp add: run)
  qed simp
  show ?case
  proof (cases "i = p")
    case True
    then show ?thesis using none [of p] by (simp add: run)
  next
    case False
    then show ?thesis using Suc inj [of i] by (simp add: run)
  qed
qed simp

section \<open>Properties\<close>

text \<open>
  Decoding an encoded well-formed table gives the same version, size and owners and the same
  migration for every hash slot.
\<close>

lemma table_roundtrip:
  assumes inv: "table_inv t"
  shows "\<exists>t'. DecodeHashSlotTable (Encode t) = Inr t' \<and> ht_version t' = ht_version t
    \<and> ht_hashSlotCount t' = ht_hashSlotCount t \<and> ht_assignment t' = ht_assignment t
    \<and> GetMigration t' = GetMigration t"
proof -
  let ?ms = "ActiveMigrations t"
  let ?tail = "put16 (of_nat (length ?ms)) @ concat (map put_migration ?ms)"
  let ?body = "concat (map put64 (ht_assignment t)) @ ?tail"
  let ?table = "\<lparr>ht_version = ht_version t, ht_hashSlotCount = ht_hashSlotCount t,
      ht_assignment = ht_assignment t, ht_migrations = []\<rparr>"
  have enc: "Encode t = put16 2 @ put16 (ht_hashSlotCount t) @ put64 (ht_version t) @ ?body"
    by (simp add: Encode_def Let_def hashSlotTableEncodingVersion_def)
  have parts: "12 \<le> length (Encode t)" "fst (the (get16 (Encode t))) = 2"
    "fst (the (get16 (drop 2 (Encode t)))) = ht_hashSlotCount t"
    "fst (the (get64 (drop 4 (Encode t)))) = ht_version t" "drop 12 (Encode t) = ?body"
    by (simp_all add: enc be16.get_put be64.get_put)
  have "get_many get64 (length (ht_assignment t)) ?body = Some (ht_assignment t, ?tail)"
    by (rule be64.get_many_put) (simp add: list_all_iff)
  moreover have "length (ht_assignment t) = unat (ht_hashSlotCount t)"
    using inv by (simp add: table_inv_def)
  moreover have "length ?ms < 2 ^ 16"
    using ActiveMigrations_props(3) [OF inv] unsigned_less [of "ht_hashSlotCount t", where ?'a = nat]
    by simp
  ultimately have "DecodeHashSlotTable (Encode t) =
      Inr (?table\<lparr>ht_migrations := map (\<lambda>m. (hm_HashSlot m, m)) ?ms\<rparr>)"
    using ActiveMigrations_props(1) [OF inv]
    by (simp add: DecodeHashSlotTable_def parts not_less hashSlotTableEncodingVersion_def decode_migrations_encoded Let_def)
  then show ?thesis
    using ActiveMigrations_props(2) [OF inv] by (simp add: GetMigration_def fun_eq_iff)
qed

text \<open>
  C23: A migration that is accepted changes no route while it is started and advanced through any
  phases; finalising it hands exactly its hash slot to the target, aborting it leaves every route,
  and either way no migration of that hash slot remains and the others are untouched.
\<close>

theorem migration_lifecycle:
  assumes "Lookup t h = source" and "source \<noteq> 0" and "target \<noteq> 0" and "source \<noteq> target"
    and "GetMigration t h = None"
  shows "let t2 = advance_all (StartMigration t h source target) h phases;
        fin = FinalizeMigration t2 h; ab = AbortMigration t2 h
    in (\<exists>m. GetMigration t2 h = Some m \<and> hm_Source m = source \<and> hm_Target m = target)
      \<and> Lookup t2 = Lookup t \<and> Lookup ab = Lookup t \<and> Lookup fin = (Lookup t)(h := target)
      \<and> GetMigration fin = GetMigration t \<and> GetMigration ab = GetMigration t"
proof -
  let ?t1 = "StartMigration t h source target"
  let ?t2 = "advance_all ?t1 h phases"
  note acc = StartMigration_accepted [OF assms]
  have "map_of (ht_migrations ?t1) h = Some \<lparr>hm_HashSlot = h, hm_Source = source, hm_Target = target, hm_Phase = PhaseSnapshot\<rparr>"
    by (simp add: acc(1))
  from advance_all_lookup(2) [OF this, of phases] obtain m where
    m: "map_of (ht_migrations ?t2) h = Some m" "hm_Source m = source" "hm_Target m = target" by auto
  have others: "map_of (ht_migrations ?t2) k = map_of (ht_migrations t) k" if "k \<noteq> h" for k
    using that by (simp add: advance_all_lookup(1) acc(1))
  have "Lookup (FinalizeMigration ?t2 h) k = ((Lookup t)(h := target)) k" for k
    using FinalizeMigration_Lookup [OF m(1), of k] acc(2) m(3) Lookup_frame [of ?t2 t] by simp
  moreover have "GetMigration (FinalizeMigration ?t2 h) k = GetMigration t k"
    "GetMigration (AbortMigration ?t2 h) k = GetMigration t k" for k
    using m(1) others [of k] assms(5)
    by (auto simp: FinalizeMigration_def AbortMigration_def GetMigration_def Let_def)
  moreover have "Lookup ?t2 = Lookup t" "Lookup (AbortMigration ?t2 h) = Lookup t"
    by (auto intro: Lookup_frame)
  ultimately show ?thesis
    using m by (simp add: GetMigration_def fun_eq_iff Let_def)
qed

text \<open>
  The initial table shares the hash slots out evenly: physical slot i + 1 owns n div p hash
  slots, one more when i < n mod p, and every key routes to a physical slot.
\<close>

lemma initial_table_balanced:
  assumes "0 < n" and "0 < p" and "p < 2 ^ 64" and "p \<le> int (unat n)"
  shows "(i < nat p \<longrightarrow> length (HashSlotsOf (NewHashSlotTable n p) (of_nat (i + 1)))
        = unat n div nat p + (if i < unat n mod nat p then 1 else 0))
    \<and> Lookup (NewHashSlotTable n p) (HashSlotForKey key n) \<noteq> 0"
proof -
  let ?t = "NewHashSlotTable n p" and ?b = "unat n div nat p" and ?r = "unat n mod nat p"
  have as: "ht_assignment ?t = concat (map (slot_run ?b ?r) [0..<nat p])"
    by (rule NewHashSlotTable_assignment) (use assms in auto)
  have np: "nat p < 2 ^ 64" using assms(2,3) by (simp add: nat_less_iff)
  have "x \<noteq> 0" if "x \<in> set (ht_assignment ?t)" for x
  proof -
    from that obtain j where j: "x = of_nat (j + 1)" "j < nat p"
      by (auto simp: as slot_run_def set_replicate_conv_if split: if_splits)
    have "unat (of_nat (j + 1) :: u64) = j + 1"
      using j(2) np by (simp add: unat_of_nat del: of_nat_add of_nat_Suc)
    then show ?thesis using j(1) by (metis add_is_0 unat_0 one_neq_zero)
  qed
  moreover have "unat (HashSlotForKey key n) < length (ht_assignment ?t)"
  proof -
    have n: "unat n < 65536" "0 < unat n"
      using unsigned_less [of n, where ?'a = nat] assms(1) by (simp_all add: word_less_nat_alt)
    have "unat (HashSlotForKey key n) = unat (ChecksumIEEE key) mod unat n"
    proof -
      have "unat (ChecksumIEEE key) mod unat n < 65536" using n by (meson mod_less_divisor less_trans)
      then show ?thesis
        using assms(1) n
        by (auto simp: HashSlotForKey_def unsigned_ucast_eq unat_mod_distrib take_bit_nat_eq_self)
    qed
    then have "unat (HashSlotForKey key n) < unat n" using n(2) by simp
    then show ?thesis using NewHashSlotTable_inv [of n p]
      by (simp add: table_inv_def) (simp add: NewHashSlotTable_def Let_def split: if_splits)
  qed
  ultimately have "Lookup ?t (HashSlotForKey key n) \<noteq> 0"
    by (simp add: Lookup_def)
  then show ?thesis
    using count_list_runs [OF np] by (simp add: length_HashSlotsOf as slot_count_def del: of_nat_add of_nat_Suc)
qed

text \<open>The version counts the changes: a step leaves the table as it is or raises the version by one.\<close>

lemma table_step_version:
  assumes "table_step t e = Some t'"
  shows "ht_hashSlotCount t' = ht_hashSlotCount t \<and> (t' = t \<or> ht_version t' = ht_version t + 1)"
  using assms by (cases e) (auto simp: Reassign_def StartMigration_def AdvanceMigration_def FinalizeMigration_def AbortMigration_def
      Let_def split: option.splits)

lemma version_succ:
  assumes "unat (v :: u64) + Suc n < 2 ^ 64"
  shows "unat (v + 1) = Suc (unat v)"
proof -
  have "unat v + 1 < 2 ^ LENGTH(64)" using assms by simp
  then show ?thesis by (simp add: unat_word_ariths)
qed

lemma table_run_version:
  assumes "run_steps table_step t es = Some t'" "unat (ht_version t) + length es < 2 ^ 64"
  shows "ht_hashSlotCount t' = ht_hashSlotCount t \<and> (t' = t \<or> ht_version t < ht_version t')
    \<and> unat (ht_version t') \<le> unat (ht_version t) + length es"
  using assms
proof (induction es arbitrary: t)
  case (Cons e es)
  from Cons.prems(1) obtain u where u: "table_step t e = Some u" "run_steps table_step u es = Some t'" by (auto split: option.splits)
  note c = table_step_version [OF u(1)]
  show ?case
  proof (cases "u = t")
    case True
    then show ?thesis using Cons.IH [OF u(2)] Cons.prems(2) by auto
  next
    case False
    then have v: "ht_version u = ht_version t + 1" using c by simp
    have n: "unat (ht_version u) = Suc (unat (ht_version t))" unfolding v by (rule version_succ) (use Cons.prems(2) in simp)
    have ih: "ht_hashSlotCount t' = ht_hashSlotCount u \<and> (t' = u \<or> ht_version u < ht_version t')
        \<and> unat (ht_version t') \<le> unat (ht_version u) + length es"
      by (rule Cons.IH [OF u(2)]) (use n Cons.prems(2) in simp)
    have "ht_version t < ht_version u" by (simp add: word_less_nat_alt n)
    then show ?thesis using ih c n by auto
  qed
qed simp

text \<open>
  C30: Any sequence of reassignments and migration steps keeps the table well formed: one owner per hash slot, and at most one migration
  per hash slot, between two different physical slots. The number of hash slots stays, and the version, until its 64 bits overflow,
  grows with every change: after the run it is the same exactly when the table is, and larger otherwise.
\<close>

theorem table_runs_safely:
  assumes "table_inv t"
  shows "\<exists>t'. run_steps table_step t es = Some t' \<and> table_inv t'
    \<and> (unat (ht_version t) + length es < 2 ^ 64 \<longrightarrow>
        ht_hashSlotCount t' = ht_hashSlotCount t \<and> ht_version t \<le> ht_version t' \<and> (ht_version t' = ht_version t \<longleftrightarrow> t' = t))"
proof -
  have "run_ok table_step (\<lambda>_ _. True) t es"
  proof (induction es arbitrary: t)
    case (Cons e es)
    then show ?case by (cases e) auto
  qed simp
  with assms obtain t' where t': "run_steps table_step t es = Some t'" "table_inv t'" using table_machine.run_safe by blast
  then show ?thesis using table_run_version [OF t'(1)] by (intro exI [of _ t']) auto
qed

section \<open>Witnesses\<close>

definition demo_table :: HashSlotTable where
  "demo_table = StartMigration (NewHashSlotTable 10 3) 2 1 3"

lemma demo_table_inv: "table_inv demo_table"
  unfolding demo_table_def by (rule StartMigration_inv) (rule NewHashSlotTable_inv)

lemma demo_route: "Lookup (NewHashSlotTable 10 3) 2 = 1" "GetMigration (NewHashSlotTable 10 3) 2 = None"
  by code_simp+

theorem migration_lifecycle_witness:
  "Lookup (FinalizeMigration (advance_all demo_table 2 [PhaseDelta, PhaseSwitching]) 2) 2 = 3"
  using migration_lifecycle [OF demo_route(1) _ _ _ demo_route(2), of 3 "[PhaseDelta, PhaseSwitching]"]
  by (simp add: Let_def demo_table_def)

theorem table_runs_safely_witness:
  "table_inv demo_table \<and> (\<exists>t'. run_steps table_step demo_table [EvAdvance 2 1, EvFinalize 2] = Some t' \<and> table_inv t'
     \<and> ht_version demo_table \<le> ht_version t')"
proof -
  have "ht_version demo_table = 2" unfolding demo_table_def by code_simp
  then have "unat (ht_version demo_table) + length [EvAdvance 2 1, EvFinalize 2] < 2 ^ 64" by simp
  then show ?thesis using table_runs_safely [OF demo_table_inv, of "[EvAdvance 2 1, EvFinalize 2]"] demo_table_inv by blast
qed

end
