(* ===== verification/Rebalancer.thy ===== *)
theory Rebalancer
  imports HashSlotSafety
begin

text \<open>
  The rebalancer of \<open>pkg/cluster/hashslot/rebalancer.go\<close>: plans that move hash slots when a physical
  slot is added or removed or when the table is uneven. The count and ownership maps are only read
  and written by key, so they are functions with Go's zero value; the \<open>for\<close> loops that
  pop one hash slot per round are recursive functions, which stop since a round takes one hash
  slot off a donor's list.
\<close>

record MigrationPlan =
  mp_HashSlot :: u16
  mp_From :: SlotID
  mp_To :: SlotID

section \<open>Helpers\<close>

definition containsSlotID :: "SlotID list \<Rightarrow> SlotID \<Rightarrow> bool" where
  "containsSlotID slots want = list_ex (\<lambda>slotID. slotID = want) slots"

definition tableActiveSlotIDs :: "HashSlotTable \<Rightarrow> SlotID list" where
  "tableActiveSlotIDs table =
     sortSlotIDs (collect_ids []
       (map (\<lambda>hashSlot. Lookup table (of_nat hashSlot)) [0..<unat (ht_hashSlotCount table)]))"

definition tableActiveSlotIDsExcluding :: "HashSlotTable \<Rightarrow> SlotID \<Rightarrow> SlotID list" where
  "tableActiveSlotIDsExcluding table exclude =
     filter (\<lambda>slotID. slotID \<noteq> exclude) (tableActiveSlotIDs table)"

definition slotCounts :: "HashSlotTable \<Rightarrow> SlotID list \<Rightarrow> SlotID \<Rightarrow> int" where
  "slotCounts table slots =
     foldl (\<lambda>counts slotID. counts(slotID := int (length (HashSlotsOf table slotID)))) (\<lambda>_. 0) slots"

definition slotHashSlots :: "HashSlotTable \<Rightarrow> SlotID list \<Rightarrow> SlotID \<Rightarrow> u16 list" where
  "slotHashSlots table slots =
     foldl (\<lambda>owned slotID. owned(slotID := HashSlotsOf table slotID)) (\<lambda>_. []) slots"

definition idealSlotCounts :: "int \<Rightarrow> SlotID list \<Rightarrow> SlotID \<Rightarrow> int" where
  "idealSlotCounts totalHashSlots slots =
     (if length slots = 0 then (\<lambda>_. 0)
      else
        let sorted = sortSlotIDs slots;
            base = totalHashSlots div int (length sorted);
            remainder = totalHashSlots mod int (length sorted)
        in foldl (\<lambda>target (i, slotID). target(slotID := (if int i < remainder then base + 1 else base)))
             (\<lambda>_. 0) (List.enumerate 0 sorted))"

text \<open>The loops of the two selection functions, with the best candidate so far.\<close>

fun surplus_loop ::
  "(SlotID \<Rightarrow> int) \<Rightarrow> (SlotID \<Rightarrow> int) \<Rightarrow> SlotID \<Rightarrow> int \<Rightarrow> int \<Rightarrow> SlotID list \<Rightarrow> SlotID" where
  "surplus_loop current target chosen bestSurplus bestCount [] = chosen"
| "surplus_loop current target chosen bestSurplus bestCount (slotID # slots) =
     (let surplus = current slotID - target slotID
      in if surplus \<le> 0 then surplus_loop current target chosen bestSurplus bestCount slots
         else if chosen = 0 \<or> surplus > bestSurplus
           \<or> (surplus = bestSurplus \<and> current slotID > bestCount)
           \<or> (surplus = bestSurplus \<and> current slotID = bestCount \<and> slotID < chosen)
         then surplus_loop current target slotID surplus (current slotID) slots
         else surplus_loop current target chosen bestSurplus bestCount slots)"

definition selectLargestSurplusSlot ::
  "(SlotID \<Rightarrow> int) \<Rightarrow> (SlotID \<Rightarrow> int) \<Rightarrow> SlotID list \<Rightarrow> SlotID" where
  "selectLargestSurplusSlot current target candidates = surplus_loop current target 0 0 0 candidates"

fun deficit_loop ::
  "(SlotID \<Rightarrow> int) \<Rightarrow> (SlotID \<Rightarrow> int) \<Rightarrow> SlotID \<Rightarrow> int \<Rightarrow> int \<Rightarrow> SlotID list \<Rightarrow> SlotID" where
  "deficit_loop current target chosen bestDeficit bestCount [] = chosen"
| "deficit_loop current target chosen bestDeficit bestCount (slotID # slots) =
     (let deficit = target slotID - current slotID
      in if deficit \<le> 0 then deficit_loop current target chosen bestDeficit bestCount slots
         else if chosen = 0 \<or> deficit > bestDeficit
           \<or> (deficit = bestDeficit \<and> current slotID < bestCount)
           \<or> (deficit = bestDeficit \<and> current slotID = bestCount \<and> slotID < chosen)
         then deficit_loop current target slotID deficit (current slotID) slots
         else deficit_loop current target chosen bestDeficit bestCount slots)"

definition selectSmallestDeficitSlot ::
  "(SlotID \<Rightarrow> int) \<Rightarrow> (SlotID \<Rightarrow> int) \<Rightarrow> SlotID list \<Rightarrow> SlotID" where
  "selectSmallestDeficitSlot current target candidates = deficit_loop current target 0 0 0 candidates"

definition popOwnedHashSlot ::
  "(SlotID \<Rightarrow> u16 list) \<Rightarrow> SlotID \<Rightarrow> (u16 \<times> (SlotID \<Rightarrow> u16 list)) option" where
  "popOwnedHashSlot owned slotID =
     (if length (owned slotID) = 0 then None
      else Some (last (owned slotID), owned(slotID := butlast (owned slotID))))"

definition move_count :: "(SlotID \<Rightarrow> int) \<Rightarrow> SlotID \<Rightarrow> SlotID \<Rightarrow> SlotID \<Rightarrow> int" where
  "move_count current donor receiver =
     (let current = current(donor := current donor - 1)
      in current(receiver := current receiver + 1))"

lemma surplus_loop_in:
  "surplus_loop cur tgt chosen b c slots \<noteq> chosen \<Longrightarrow> surplus_loop cur tgt chosen b c slots \<in> set slots"
proof (induction cur tgt chosen b c slots rule: surplus_loop.induct)
  case (2 cur tgt chosen b c slotID slots)
  then show ?case by (auto simp: Let_def split: if_splits)
qed simp

lemma surplus_in: "selectLargestSurplusSlot cur tgt slots \<noteq> 0 \<Longrightarrow> selectLargestSurplusSlot cur tgt slots \<in> set slots"
  unfolding selectLargestSurplusSlot_def by (rule surplus_loop_in)

lemma pop_less:
  assumes "popOwnedHashSlot owned d = Some (h, owned')" "d \<in> set slots"
  shows "sum_list (map (\<lambda>s. length (owned' s)) slots) < sum_list (map (\<lambda>s. length (owned s)) slots)"
proof -
  have le: "length (owned' s) \<le> length (owned s)" for s
    using assms(1) by (auto simp: popOwnedHashSlot_def split: if_splits)
  have lt: "length (owned' d) < length (owned d)"
    using assms(1) by (auto simp: popOwnedHashSlot_def split: if_splits)
  show ?thesis using assms(2)
  proof (induction slots)
    case (Cons s slots)
    have mono: "sum_list (map (\<lambda>s. length (owned' s)) slots) \<le> sum_list (map (\<lambda>s. length (owned s)) slots)"
      by (rule sum_list_mono) (rule le)
    show ?case using Cons mono le [of s] lt by (cases "s = d") auto
  qed simp
qed

section \<open>Plans\<close>

function (sequential) add_loop ::
  "(SlotID \<Rightarrow> int) \<Rightarrow> SlotID list \<Rightarrow> SlotID \<Rightarrow> (SlotID \<Rightarrow> int) \<Rightarrow> (SlotID \<Rightarrow> u16 list) \<Rightarrow> MigrationPlan list" where
  "add_loop target existing newSlotID current owned =
     (if current newSlotID < target newSlotID then
        let donor = selectLargestSurplusSlot current target existing
        in if donor = 0 then []
           else case popOwnedHashSlot owned donor of
               None \<Rightarrow> []
             | Some (hashSlot, owned') \<Rightarrow>
                 \<lparr>mp_HashSlot = hashSlot, mp_From = donor, mp_To = newSlotID\<rparr>
                 # add_loop target existing newSlotID (move_count current donor newSlotID) owned'
      else [])"
  by pat_completeness auto
termination
  by (relation "measure (\<lambda>(target, existing, newSlotID, current, owned).
        sum_list (map (\<lambda>s. length (owned s)) existing))") (auto simp: pop_less surplus_in)

definition ComputeAddSlotPlan :: "HashSlotTable \<Rightarrow> SlotID \<Rightarrow> MigrationPlan list" where
  "ComputeAddSlotPlan table newSlotID =
     (if newSlotID = 0 then []
      else
        let existingSlots = tableActiveSlotIDs table
        in if containsSlotID existingSlots newSlotID then []
           else
             let slots = sortSlotIDs (existingSlots @ [newSlotID]);
                 current = slotCounts table slots;
                 target = idealSlotCounts (int (unat (ht_hashSlotCount table))) slots;
                 owned = slotHashSlots table existingSlots
             in add_loop target existingSlots newSlotID current owned)"

function (sequential) remove_loop ::
  "(SlotID \<Rightarrow> int) \<Rightarrow> SlotID list \<Rightarrow> SlotID \<Rightarrow> (SlotID \<Rightarrow> int) \<Rightarrow> (SlotID \<Rightarrow> u16 list) \<Rightarrow> MigrationPlan list" where
  "remove_loop target remaining removeSlotID current owned =
     (if current removeSlotID > 0 then
        let receiver = selectSmallestDeficitSlot current target remaining
        in if receiver = 0 then []
           else case popOwnedHashSlot owned removeSlotID of
               None \<Rightarrow> []
             | Some (hashSlot, owned') \<Rightarrow>
                 \<lparr>mp_HashSlot = hashSlot, mp_From = removeSlotID, mp_To = receiver\<rparr>
                 # remove_loop target remaining removeSlotID (move_count current removeSlotID receiver) owned'
      else [])"
  by pat_completeness auto
termination
  by (relation "measure (\<lambda>(target, remaining, removeSlotID, current, owned). length (owned removeSlotID))")
    (auto simp: popOwnedHashSlot_def split: if_splits)

definition ComputeRemoveSlotPlan :: "HashSlotTable \<Rightarrow> SlotID \<Rightarrow> MigrationPlan list" where
  "ComputeRemoveSlotPlan table removeSlotID =
     (if removeSlotID = 0 then []
      else if length (HashSlotsOf table removeSlotID) = 0 then []
      else
        let remaining = tableActiveSlotIDsExcluding table removeSlotID
        in if length remaining = 0 then []
           else
             let current = slotCounts table (remaining @ [removeSlotID]);
                 target = idealSlotCounts (int (unat (ht_hashSlotCount table))) remaining;
                 owned = slotHashSlots table [removeSlotID]
             in remove_loop target remaining removeSlotID current owned)"

function (sequential) rebalance_loop ::
  "(SlotID \<Rightarrow> int) \<Rightarrow> SlotID list \<Rightarrow> (SlotID \<Rightarrow> int) \<Rightarrow> (SlotID \<Rightarrow> u16 list) \<Rightarrow> MigrationPlan list" where
  "rebalance_loop target slots current owned =
     (let donor = selectLargestSurplusSlot current target slots;
          receiver = selectSmallestDeficitSlot current target slots
      in if donor = 0 \<or> receiver = 0 then []
         else case popOwnedHashSlot owned donor of
             None \<Rightarrow> []
           | Some (hashSlot, owned') \<Rightarrow>
               \<lparr>mp_HashSlot = hashSlot, mp_From = donor, mp_To = receiver\<rparr>
               # rebalance_loop target slots (move_count current donor receiver) owned')"
  by pat_completeness auto
termination
  by (relation "measure (\<lambda>(target, slots, current, owned). sum_list (map (\<lambda>s. length (owned s)) slots))")
    (auto simp: pop_less surplus_in)

definition ComputeRebalancePlan :: "HashSlotTable \<Rightarrow> MigrationPlan list" where
  "ComputeRebalancePlan table =
     (let slots = tableActiveSlotIDs table
      in if length slots \<le> 1 then []
         else
           let current = slotCounts table slots;
               target = idealSlotCounts (int (unat (ht_hashSlotCount table))) slots;
               owned = slotHashSlots table slots
           in rebalance_loop target slots current owned)"

declare add_loop.simps [simp del] remove_loop.simps [simp del] rebalance_loop.simps [simp del]

end
