(* ===== verification/RebalancerSafety.thy ===== *)
theory RebalancerSafety
  imports Rebalancer
begin

text \<open>
  Correctness of the rebalancing plans: every planned migration is accepted when the plan is carried
  out in order, no plan moves more hash slots than it must, and the tables that result have the
  promised shares.
\<close>

section \<open>Carrying out a plan\<close>

definition move_step :: "HashSlotTable \<Rightarrow> MigrationPlan \<Rightarrow> HashSlotTable option" where
  "move_step t p =
     (let t1 = StartMigration t (mp_HashSlot p) (mp_From p) (mp_To p)
      in if GetMigration t1 (mp_HashSlot p) =
           Some \<lparr>hm_HashSlot = mp_HashSlot p, hm_Source = mp_From p, hm_Target = mp_To p, hm_Phase = PhaseSnapshot\<rparr>
         then Some (FinalizeMigration t1 (mp_HashSlot p)) else None)"

definition share :: "HashSlotTable \<Rightarrow> SlotID \<Rightarrow> int" where
  "share t s = int (length (HashSlotsOf t s))"

lemma share_count: "share t s = int (count_list (ht_assignment t) s)"
  by (simp add: share_def length_HashSlotsOf)

lemma count_list_list_update:
  "i < length xs \<Longrightarrow> xs ! i = d \<Longrightarrow> d \<noteq> r \<Longrightarrow>
    int (count_list (xs[i := r]) s) =
      int (count_list xs s) + (if s = r then 1 else if s = d then - 1 else 0)"
proof (induction xs arbitrary: i)
  case (Cons x xs)
  show ?case
  proof (cases i)
    case 0
    then show ?thesis using Cons.prems by auto
  next
    case (Suc j)
    then show ?thesis using Cons.prems Cons.IH [of j] by (auto split: if_splits)
  qed
qed simp

lemma move_step_accepted:
  assumes "ht_migrations t = []" "unat h < length (ht_assignment t)" "Lookup t h = d"
    "d \<noteq> 0" "r \<noteq> 0" "d \<noteq> r"
  shows "\<exists>t'. move_step t \<lparr>mp_HashSlot = h, mp_From = d, mp_To = r\<rparr> = Some t' \<and> ht_migrations t' = []
    \<and> ht_assignment t' = (ht_assignment t)[unat h := r] \<and> ht_hashSlotCount t' = ht_hashSlotCount t"
  using assms
  by (auto simp: move_step_def StartMigration_def FinalizeMigration_def GetMigration_def Lookup_def Let_def
      split: if_splits)

section \<open>The invariant of the planning loops\<close>

text \<open>
  \<open>S\<close> are the slots of the plan, \<open>D\<close> those that may give hash slots away and
  \<open>tgt\<close> the shares aimed at.
\<close>

definition plan_inv ::
  "SlotID set \<Rightarrow> SlotID set \<Rightarrow> (SlotID \<Rightarrow> int) \<Rightarrow> HashSlotTable \<Rightarrow> (SlotID \<Rightarrow> int) \<Rightarrow> (SlotID \<Rightarrow> u16 list) \<Rightarrow> bool" where
  "plan_inv S D tgt t cur owned \<longleftrightarrow>
     ht_migrations t = [] \<and> finite S \<and> 0 \<notin> S \<and> D \<subseteq> S \<and> set (ht_assignment t) \<subseteq> S
     \<and> (\<forall>s\<in>S. cur s = share t s \<and> 0 \<le> tgt s) \<and> (\<Sum>s\<in>S. tgt s) = int (length (ht_assignment t))
     \<and> (\<forall>s\<in>D. distinct (owned s) \<and> (\<forall>h\<in>set (owned s). unat h < length (ht_assignment t) \<and> Lookup t h = s)
          \<and> (tgt s < cur s \<longrightarrow> int (length (owned s)) = cur s))"

definition deficit :: "SlotID set \<Rightarrow> (SlotID \<Rightarrow> int) \<Rightarrow> (SlotID \<Rightarrow> int) \<Rightarrow> int" where
  "deficit S tgt cur = (\<Sum>s\<in>S. max 0 (tgt s - cur s))"

lemma plan_inv_sum:
  assumes "plan_inv S D tgt t cur owned"
  shows "(\<Sum>s\<in>S. cur s) = (\<Sum>s\<in>S. tgt s)"
proof -
  have "(\<Sum>s\<in>S. cur s) = int (\<Sum>s\<in>S. count_list (ht_assignment t) s)"
    using assms by (simp add: plan_inv_def share_count cong: sum.cong)
  also have "(\<Sum>s\<in>S. count_list (ht_assignment t) s) = length (ht_assignment t)"
    by (rule sum_count_set) (use assms in \<open>auto simp: plan_inv_def\<close>)
  finally show ?thesis using assms by (simp add: plan_inv_def)
qed

lemma move_count_eq:
  "d \<noteq> r \<Longrightarrow> move_count cur d r s = cur s + (if s = r then 1 else if s = d then - 1 else 0)"
  by (simp add: move_count_def)

text \<open>One round: the donor's last hash slot moves to the receiver, and the invariant goes on.\<close>

lemma plan_round:
  assumes inv: "plan_inv S D tgt t cur owned"
    and d: "d \<in> D" "tgt d < cur d" and r: "r \<in> S" "cur r < tgt r"
  shows "\<exists>h owned' t'. popOwnedHashSlot owned d = Some (h, owned')
    \<and> move_step t \<lparr>mp_HashSlot = h, mp_From = d, mp_To = r\<rparr> = Some t'
    \<and> plan_inv S D tgt t' (move_count cur d r) owned' \<and> ht_hashSlotCount t' = ht_hashSlotCount t"
proof -
  have dr: "d \<noteq> r" using d r by auto
  have z: "d \<noteq> 0" "r \<noteq> 0" "0 \<le> tgt d" using inv d r by (auto simp: plan_inv_def)
  have own: "distinct (owned d)" "\<forall>h\<in>set (owned d). unat h < length (ht_assignment t) \<and> Lookup t h = d"
    "int (length (owned d)) = cur d" using inv d by (auto simp: plan_inv_def)
  with z d have ne: "owned d \<noteq> []" by auto
  let ?h = "last (owned d)" let ?o = "owned(d := butlast (owned d))"
  have h: "unat ?h < length (ht_assignment t)" "Lookup t ?h = d" using own ne by auto
  obtain t' where t': "move_step t \<lparr>mp_HashSlot = ?h, mp_From = d, mp_To = r\<rparr> = Some t'"
    "ht_migrations t' = []" "ht_assignment t' = (ht_assignment t)[unat ?h := r]" "ht_hashSlotCount t' = ht_hashSlotCount t"
    using move_step_accepted [OF _ h z(1,2) dr] inv by (auto simp: plan_inv_def)
  have sh: "share t' s = move_count cur d r s" if "s \<in> S" for s
    using inv that h dr
    by (simp add: share_count t' count_list_list_update Lookup_def plan_inv_def move_count_eq)
  have lk: "Lookup t' k = (if k = ?h then r else Lookup t k)" if "unat k < length (ht_assignment t)" for k
    using that h by (auto simp: Lookup_def t' nth_list_update word_unat_eq_iff)
  have nin: "?h \<notin> set (butlast (owned d))"
    using own(1) ne by (metis append_butlast_last_id distinct_append disjoint_insert(1) list.simps(15))
  have ow: "distinct (?o s) \<and> (\<forall>k\<in>set (?o s). unat k < length (ht_assignment t') \<and> Lookup t' k = s)
      \<and> (tgt s < move_count cur d r s \<longrightarrow> int (length (?o s)) = move_count cur d r s)" if s: "s \<in> D" for s
  proof (cases "s = d")
    case True
    have "Lookup t' k = d" "unat k < length (ht_assignment t')" if k: "k \<in> set (butlast (owned d))" for k
      using in_set_butlastD [OF k] own(2) k nin by (auto simp: lk t')
    moreover have "int (length (owned d) - Suc 0) = int (length (owned d)) - 1"
      using ne by (cases "owned d") auto
    ultimately show ?thesis using True own ne dr by (auto simp: distinct_butlast move_count_eq)
  next
    case False
    have "k \<noteq> ?h" if "k \<in> set (owned s)" for k using that s inv h False by (auto simp: plan_inv_def)
    then show ?thesis using inv s False dr r by (auto simp: plan_inv_def lk t' move_count_eq)
  qed
  have "plan_inv S D tgt t' (move_count cur d r) ?o"
    using inv sh ow r(1) set_update_subset_insert [of "ht_assignment t" "unat ?h" r]
    unfolding plan_inv_def by (auto simp: t'(2,3))
  with t' show ?thesis using ne by (auto simp: popOwnedHashSlot_def)
qed

lemma deficit_move:
  assumes "finite S" "d \<noteq> r" "tgt d < cur d" "r \<in> S" "cur r < tgt r"
  shows "deficit S tgt (move_count cur d r) = deficit S tgt cur - 1"
proof -
  have "deficit S tgt (move_count cur d r) - deficit S tgt cur
      = (\<Sum>s\<in>S. max 0 (tgt s - move_count cur d r s) - max 0 (tgt s - cur s))"
    by (simp add: deficit_def sum_subtractf)
  also have "\<dots> = (\<Sum>s\<in>S. if s = r then - 1 else 0)"
    by (rule sum.cong) (use assms in \<open>auto simp: move_count_eq\<close>)
  also have "\<dots> = - 1" using assms by simp
  finally show ?thesis by simp
qed

section \<open>Selection\<close>

lemma surplus_loop_zero:
  "0 \<notin> set slots \<Longrightarrow> surplus_loop cur tgt chosen b c slots = 0
    \<longleftrightarrow> chosen = 0 \<and> (\<forall>s\<in>set slots. cur s \<le> tgt s)"
  by (induction cur tgt chosen b c slots rule: surplus_loop.induct) (auto simp: Let_def)

lemma surplus_loop_positive:
  "surplus_loop cur tgt chosen b c slots = d \<Longrightarrow> d = chosen \<or> tgt d < cur d"
  by (induction cur tgt chosen b c slots rule: surplus_loop.induct) (auto simp: Let_def split: if_splits)

lemma deficit_loop_zero:
  "0 \<notin> set slots \<Longrightarrow> deficit_loop cur tgt chosen b c slots = 0
    \<longleftrightarrow> chosen = 0 \<and> (\<forall>s\<in>set slots. tgt s \<le> cur s)"
  by (induction cur tgt chosen b c slots rule: deficit_loop.induct) (auto simp: Let_def)

lemma deficit_loop_positive:
  "deficit_loop cur tgt chosen b c slots = r \<Longrightarrow> r = chosen \<or> (r \<in> set slots \<and> cur r < tgt r)"
  by (induction cur tgt chosen b c slots rule: deficit_loop.induct) (auto simp: Let_def split: if_splits)

lemma donor_zero:
  "0 \<notin> set slots \<Longrightarrow> selectLargestSurplusSlot cur tgt slots = 0 \<longleftrightarrow> (\<forall>s\<in>set slots. cur s \<le> tgt s)"
  by (simp add: selectLargestSurplusSlot_def surplus_loop_zero)

lemma donor_some:
  "selectLargestSurplusSlot cur tgt slots \<noteq> 0 \<Longrightarrow>
    selectLargestSurplusSlot cur tgt slots \<in> set slots
    \<and> tgt (selectLargestSurplusSlot cur tgt slots) < cur (selectLargestSurplusSlot cur tgt slots)"
  using surplus_loop_positive [of cur tgt 0 0 0 slots] surplus_in [of cur tgt slots]
  by (simp add: selectLargestSurplusSlot_def)

lemma receiver_zero:
  "0 \<notin> set slots \<Longrightarrow> selectSmallestDeficitSlot cur tgt slots = 0 \<longleftrightarrow> (\<forall>s\<in>set slots. tgt s \<le> cur s)"
  by (simp add: selectSmallestDeficitSlot_def deficit_loop_zero)

lemma receiver_some:
  "selectSmallestDeficitSlot cur tgt slots \<noteq> 0 \<Longrightarrow>
    selectSmallestDeficitSlot cur tgt slots \<in> set slots
    \<and> cur (selectSmallestDeficitSlot cur tgt slots) < tgt (selectSmallestDeficitSlot cur tgt slots)"
  using deficit_loop_positive [of cur tgt 0 0 0 slots] by (simp add: selectSmallestDeficitSlot_def)

section \<open>The loops\<close>

text \<open>
  What every loop delivers: a run of accepted migrations that ends in a table which satisfies the
  invariant again with the final counts, as long as the deficit that is gone.
\<close>

definition plan_result ::
  "SlotID set \<Rightarrow> SlotID set \<Rightarrow> (SlotID \<Rightarrow> int) \<Rightarrow> HashSlotTable \<Rightarrow> (SlotID \<Rightarrow> int) \<Rightarrow> MigrationPlan list
    \<Rightarrow> HashSlotTable \<Rightarrow> (SlotID \<Rightarrow> int) \<Rightarrow> bool" where
  "plan_result S D tgt t cur plan t' cur' \<longleftrightarrow>
     run_steps move_step t plan = Some t' \<and> (\<exists>owned'. plan_inv S D tgt t' cur' owned')
     \<and> ht_hashSlotCount t' = ht_hashSlotCount t
     \<and> int (length plan) = deficit S tgt cur - deficit S tgt cur'
     \<and> (\<forall>s\<in>S. min (cur s) (tgt s) \<le> cur' s \<and> cur' s \<le> max (cur s) (tgt s))"

lemma plan_result_Nil: "plan_inv S D tgt t cur owned \<Longrightarrow> plan_result S D tgt t cur [] t cur"
  by (auto simp: plan_result_def)

lemma plan_result_Cons:
  assumes "plan_inv S D tgt t cur owned" "d \<in> D" "tgt d < cur d" "r \<in> S" "cur r < tgt r"
    and "move_step t p = Some t1"
    and "plan_result S D tgt t1 (move_count cur d r) plan t' cur'" "ht_hashSlotCount t1 = ht_hashSlotCount t"
  shows "plan_result S D tgt t cur (p # plan) t' cur'"
proof -
  have fin: "finite S" and dr: "d \<noteq> r" using assms(1,3,5) by (auto simp: plan_inv_def)
  have bounds: "min (cur s) (tgt s) \<le> cur' s \<and> cur' s \<le> max (cur s) (tgt s)" if "s \<in> S" for s
  proof -
    have "min (move_count cur d r s) (tgt s) \<le> cur' s \<and> cur' s \<le> max (move_count cur d r s) (tgt s)"
      using assms(7) that by (simp add: plan_result_def)
    then show ?thesis using assms(3,5) unfolding move_count_eq [OF dr]
      by (cases "s = d"; cases "s = r") (auto simp: min_def max_def split: if_splits)
  qed
  have "int (length plan) = deficit S tgt cur - 1 - deficit S tgt cur'"
    using assms(7) deficit_move [of S d r tgt cur, OF fin dr assms(3-5)] by (simp add: plan_result_def)
  then show ?thesis
    using assms(6-8) bounds by (simp add: plan_result_def)
qed

lemma rebalance_loop_result:
  "plan_inv (set slots) (set slots) tgt t cur owned \<Longrightarrow>
    \<exists>t' cur'. plan_result (set slots) (set slots) tgt t cur (rebalance_loop tgt slots cur owned) t' cur'
      \<and> ((\<forall>s\<in>set slots. cur' s \<le> tgt s) \<or> (\<forall>s\<in>set slots. tgt s \<le> cur' s))"
proof (induction tgt slots cur owned arbitrary: t rule: rebalance_loop.induct)
  case (1 tgt slots cur owned)
  let ?d = "selectLargestSurplusSlot cur tgt slots" and ?r = "selectSmallestDeficitSlot cur tgt slots"
  have z: "0 \<notin> set slots" using "1.prems" by (simp add: plan_inv_def)
  show ?case
  proof (cases "?d = 0 \<or> ?r = 0")
    case True
    then show ?thesis using plan_result_Nil [OF "1.prems"] z
      by (subst rebalance_loop.simps) (auto simp: Let_def donor_zero receiver_zero)
  next
    case False
    note d = donor_some [of cur tgt slots] and r = receiver_some [of cur tgt slots]
    obtain h o' t1 where step: "popOwnedHashSlot owned ?d = Some (h, o')"
      "move_step t \<lparr>mp_HashSlot = h, mp_From = ?d, mp_To = ?r\<rparr> = Some t1"
      "plan_inv (set slots) (set slots) tgt t1 (move_count cur ?d ?r) o'" "ht_hashSlotCount t1 = ht_hashSlotCount t"
      using plan_round [OF "1.prems"] d r False by blast
    have d': "?d \<noteq> 0" and r': "?r \<noteq> 0" using False by auto
    obtain t' cur' where rest: "plan_result (set slots) (set slots) tgt t1 (move_count cur ?d ?r)
        (rebalance_loop tgt slots (move_count cur ?d ?r) o') t' cur'"
      "(\<forall>s\<in>set slots. cur' s \<le> tgt s) \<or> (\<forall>s\<in>set slots. tgt s \<le> cur' s)"
      using "1.IH" [OF refl refl False step(1) refl step(3)] by blast
    have "rebalance_loop tgt slots cur owned =
        \<lparr>mp_HashSlot = h, mp_From = ?d, mp_To = ?r\<rparr> # rebalance_loop tgt slots (move_count cur ?d ?r) o'"
      using False step(1) by (subst rebalance_loop.simps) (simp add: Let_def)
    with plan_result_Cons [OF "1.prems" _ _ _ _ step(2) rest(1) step(4)] d [OF d'] r [OF r'] rest(2)
    show ?thesis by auto
  qed
qed

lemma sum_balance:
  fixes f g :: "'a \<Rightarrow> int"
  assumes "finite S" "x \<in> S" "(\<Sum>s\<in>S. f s) = (\<Sum>s\<in>S. g s)" "\<forall>s\<in>S - {x}. f s \<le> g s"
  shows "g x \<le> f x"
proof -
  have "(\<Sum>s\<in>S - {x}. f s) \<le> (\<Sum>s\<in>S - {x}. g s)" using assms by (intro sum_mono) auto
  then show ?thesis using assms(1-3) by (simp add: sum.remove)
qed

lemma sum_equal:
  fixes f g :: "'a \<Rightarrow> int"
  assumes "finite S" "(\<Sum>s\<in>S. f s) = (\<Sum>s\<in>S. g s)" "\<forall>s\<in>S. f s \<le> g s" "x \<in> S"
  shows "f x = g x"
  using assms sum_balance [of S x f g] by force

lemma add_loop_result:
  assumes "n \<notin> set slots"
  shows "plan_inv (insert n (set slots)) (set slots) tgt t cur owned \<Longrightarrow>
    \<exists>t' cur'. plan_result (insert n (set slots)) (set slots) tgt t cur (add_loop tgt slots n cur owned) t' cur'
      \<and> tgt n \<le> cur' n"
  using assms
proof (induction tgt slots n cur owned arbitrary: t rule: add_loop.induct)
  case (1 tgt slots n cur owned)
  let ?d = "selectLargestSurplusSlot cur tgt slots" and ?S = "insert n (set slots)"
  have z: "0 \<notin> set slots" "finite ?S" using "1.prems" by (auto simp: plan_inv_def)
  show ?case
  proof (cases "cur n < tgt n \<and> ?d \<noteq> 0")
    case False
    have "tgt n \<le> cur n"
    proof (rule ccontr)
      assume less: "\<not> tgt n \<le> cur n"
      with False z have "\<forall>s\<in>?S - {n}. cur s \<le> tgt s" by (auto simp: donor_zero)
      from sum_balance [OF z(2) _ plan_inv_sum [OF "1.prems"(1)] this] less show False by simp
    qed
    then show ?thesis using plan_result_Nil [OF "1.prems"(1)] by (subst add_loop.simps) auto
  next
    case True
    then have less: "cur n < tgt n" and d0: "?d \<noteq> 0" by auto
    note d = donor_some [OF d0]
    obtain h o' t1 where step: "popOwnedHashSlot owned ?d = Some (h, o')"
      "move_step t \<lparr>mp_HashSlot = h, mp_From = ?d, mp_To = n\<rparr> = Some t1"
      "plan_inv ?S (set slots) tgt t1 (move_count cur ?d n) o'" "ht_hashSlotCount t1 = ht_hashSlotCount t"
      using plan_round [OF "1.prems"(1), of ?d n] d less by blast
    obtain t' cur' where rest: "plan_result ?S (set slots) tgt t1 (move_count cur ?d n)
        (add_loop tgt slots n (move_count cur ?d n) o') t' cur'" "tgt n \<le> cur' n"
      using "1.IH" [OF less refl d0 step(1) refl step(3) "1.prems"(2)] by blast
    have "add_loop tgt slots n cur owned =
        \<lparr>mp_HashSlot = h, mp_From = ?d, mp_To = n\<rparr> # add_loop tgt slots n (move_count cur ?d n) o'"
      using less d0 step(1) by (subst add_loop.simps) (simp add: Let_def)
    with plan_result_Cons [OF "1.prems"(1) _ _ _ less step(2) rest(1) step(4)] d rest(2) show ?thesis by auto
  qed
qed

lemma remove_loop_result:
  assumes "n \<notin> set slots" "tgt n = 0"
  shows "plan_inv (insert n (set slots)) {n} tgt t cur owned \<Longrightarrow>
    \<exists>t' cur'. plan_result (insert n (set slots)) {n} tgt t cur (remove_loop tgt slots n cur owned) t' cur'
      \<and> cur' n \<le> 0"
  using assms
proof (induction tgt slots n cur owned arbitrary: t rule: remove_loop.induct)
  case (1 tgt slots n cur owned)
  let ?r = "selectSmallestDeficitSlot cur tgt slots" and ?S = "insert n (set slots)"
  have z: "0 \<notin> set slots" "finite ?S" using "1.prems" by (auto simp: plan_inv_def)
  show ?case
  proof (cases "0 < cur n \<and> ?r \<noteq> 0")
    case False
    have "cur n \<le> 0"
    proof (rule ccontr)
      assume less: "\<not> cur n \<le> 0"
      with False z have "\<forall>s\<in>?S - {n}. tgt s \<le> cur s" by (auto simp: receiver_zero)
      from sum_balance [OF z(2) _ plan_inv_sum [OF "1.prems"(1), symmetric] this] less "1.prems"(3)
      show False by simp
    qed
    then show ?thesis using plan_result_Nil [OF "1.prems"(1)] by (subst remove_loop.simps) auto
  next
    case True
    then have less: "cur n > 0" and r0: "?r \<noteq> 0" by auto
    note r = receiver_some [OF r0]
    have d: "tgt n < cur n" using less "1.prems"(3) by simp
    obtain h o' t1 where step: "popOwnedHashSlot owned n = Some (h, o')"
      "move_step t \<lparr>mp_HashSlot = h, mp_From = n, mp_To = ?r\<rparr> = Some t1"
      "plan_inv ?S {n} tgt t1 (move_count cur n ?r) o'" "ht_hashSlotCount t1 = ht_hashSlotCount t"
      using plan_round [OF "1.prems"(1) _ d, of ?r] r by blast
    obtain t' cur' where rest: "plan_result ?S {n} tgt t1 (move_count cur n ?r)
        (remove_loop tgt slots n (move_count cur n ?r) o') t' cur'" "cur' n \<le> 0"
      using "1.IH" [OF less refl r0 step(1) refl step(3) "1.prems"(2,3)] by blast
    have "remove_loop tgt slots n cur owned =
        \<lparr>mp_HashSlot = h, mp_From = n, mp_To = ?r\<rparr> # remove_loop tgt slots n (move_count cur n ?r) o'"
      using less r0 step(1) by (subst remove_loop.simps) (simp add: Let_def)
    with plan_result_Cons [OF "1.prems"(1) _ d _ _ step(2) rest(1) step(4)] r rest(2) show ?thesis by auto
  qed
qed

lemma add_loop_moves:
  "p \<in> set (add_loop tgt slots n cur owned) \<Longrightarrow> mp_To p = n \<and> mp_From p \<in> set slots"
proof (induction tgt slots n cur owned rule: add_loop.induct)
  case (1 tgt slots n cur owned)
  show ?case using "1.prems" "1.IH" surplus_in [of cur tgt slots]
    by (subst (asm) add_loop.simps, cases "popOwnedHashSlot owned (selectLargestSurplusSlot cur tgt slots)")
      (auto simp: Let_def split: if_splits)
qed

lemma remove_loop_moves:
  "p \<in> set (remove_loop tgt slots n cur owned) \<Longrightarrow> mp_From p = n \<and> mp_To p \<in> set slots"
proof (induction tgt slots n cur owned rule: remove_loop.induct)
  case (1 tgt slots n cur owned)
  show ?case using "1.prems" "1.IH" receiver_some [of cur tgt slots]
    by (subst (asm) remove_loop.simps, cases "popOwnedHashSlot owned n") (auto simp: Let_def split: if_splits)
qed

section \<open>Where the loops start\<close>

definition settled :: "HashSlotTable \<Rightarrow> bool" where
  "settled t \<longleftrightarrow> table_inv t \<and> ht_migrations t = [] \<and> 0 \<notin> set (ht_assignment t)"

lemma set_collect_ids: "set (collect_ids seen ids) = set ids - set seen - {0}"
  by (induction seen ids rule: collect_ids.induct) auto

lemma distinct_collect_ids: "distinct (collect_ids seen ids)"
  by (induction seen ids rule: collect_ids.induct) (auto simp: set_collect_ids)

lemma table_small: "table_inv t \<Longrightarrow> i < length (ht_assignment t) \<Longrightarrow> i < 2 ^ 16"
  using unsigned_less [where 'b = 16 and w = "ht_hashSlotCount t", where 'a = nat] by (simp add: table_inv_def)

lemma lookup_all:
  assumes "table_inv t"
  shows "map (\<lambda>h. Lookup t (of_nat h)) [0..<unat (ht_hashSlotCount t)] = ht_assignment t"
proof (rule nth_equalityI)
  show "length (map (\<lambda>h. Lookup t (of_nat h)) [0..<unat (ht_hashSlotCount t)]) = length (ht_assignment t)"
    using assms by (simp add: table_inv_def)
  fix i assume "i < length (map (\<lambda>h. Lookup t (of_nat h)) [0..<unat (ht_hashSlotCount t)])"
  then have i: "i < length (ht_assignment t)" "i < 2 ^ 16"
    using assms table_small [OF assms, of i] by (auto simp: table_inv_def)
  then have "unat (of_nat i :: u16) = i" by (simp add: unsigned_of_nat take_bit_nat_eq_self)
  then show "map (\<lambda>h. Lookup t (of_nat h)) [0..<unat (ht_hashSlotCount t)] ! i = ht_assignment t ! i"
    using i assms by (simp add: Lookup_def table_inv_def)
qed

lemma active_slots:
  assumes "table_inv t"
  shows "set (tableActiveSlotIDs t) = set (ht_assignment t) - {0}" "distinct (tableActiveSlotIDs t)"
  using assms by (simp_all add: tableActiveSlotIDs_def lookup_all sortSlotIDs_def set_collect_ids distinct_collect_ids)

lemma foldl_fun_upd:
  "foldl (\<lambda>f s. f(s := g s)) f0 slots s = (if s \<in> set slots then g s else f0 s)"
  by (induction slots arbitrary: f0) auto

lemma slotCounts_eq: "slotCounts t slots s = (if s \<in> set slots then share t s else 0)"
  by (simp add: slotCounts_def foldl_fun_upd share_def)

lemma slotHashSlots_eq: "slotHashSlots t slots s = (if s \<in> set slots then HashSlotsOf t s else [])"
  by (simp add: slotHashSlots_def foldl_fun_upd)

lemma HashSlotsOf_owned:
  assumes "table_inv t"
  shows "distinct (HashSlotsOf t s)" "h \<in> set (HashSlotsOf t s) \<Longrightarrow> unat h < length (ht_assignment t) \<and> Lookup t h = s"
proof -
  have small: "i < 2 ^ 16" if "i < length (ht_assignment t)" for i
    using table_small [OF assms that] .
  then have u: "unat (of_nat i :: u16) = i" if "i < length (ht_assignment t)" for i
    using that by (simp add: unsigned_of_nat take_bit_nat_eq_self)
  have fst_enum: "distinct (map fst (filter P (List.enumerate 0 (ht_assignment t))))" for P
    by (rule distinct_map_filter) simp
  have "distinct (map (\<lambda>i. of_nat i :: u16) (map fst (filter (\<lambda>(_, a). a = s) (List.enumerate 0 (ht_assignment t)))))"
    by (subst distinct_map, intro conjI fst_enum inj_onI)
      (auto simp: in_set_enumerate_eq dest!: arg_cong [where f = "unat :: u16 \<Rightarrow> nat"] simp: u)
  then show "distinct (HashSlotsOf t s)"
    by (simp add: HashSlotsOf_def comp_def case_prod_unfold)
  show "h \<in> set (HashSlotsOf t s) \<Longrightarrow> unat h < length (ht_assignment t) \<and> Lookup t h = s"
    by (auto simp: HashSlotsOf_def in_set_enumerate_eq Lookup_def u)
qed

text \<open>The ideal shares: the first slots get one more, and they add up to the whole table.\<close>

lemma foldl_enumerate_other:
  "s \<notin> set xs \<Longrightarrow> foldl (\<lambda>f (i, s). f(s := g i)) f0 (List.enumerate n xs) s = f0 s"
  by (induction xs arbitrary: n f0) auto

lemma foldl_enumerate_nth:
  "distinct xs \<Longrightarrow> i < length xs \<Longrightarrow>
    foldl (\<lambda>f (i, s). f(s := g i)) f0 (List.enumerate n xs) (xs ! i) = g (n + i)"
proof (induction xs arbitrary: n f0 i)
  case (Cons x xs)
  then show ?case by (cases i) (simp_all add: foldl_enumerate_other fun_upd_same del: fun_upd_apply)
qed simp

definition ideal_at :: "nat \<Rightarrow> nat \<Rightarrow> nat \<Rightarrow> int" where
  "ideal_at n k i = int (slot_count (n div k) (n mod k) i)"

lemma ideal_nth:
  assumes "distinct slots" "i < length slots"
  shows "idealSlotCounts (int n) slots (sort slots ! i) = ideal_at n (length slots) i"
proof -
  let ?k = "length (sort slots)"
  let ?g = "\<lambda>i. if int i < int n mod int ?k then int n div int ?k + 1 else int n div int ?k"
  have "length slots \<noteq> 0" using assms(2) by linarith
  then have "idealSlotCounts (int n) slots
      = foldl (\<lambda>f (i, s). f(s := ?g i)) (\<lambda>_. 0) (List.enumerate 0 (sort slots))"
    unfolding idealSlotCounts_def Let_def sortSlotIDs_def sort_by_less by (simp only: if_False)
  then have "idealSlotCounts (int n) slots (sort slots ! i) = ?g (0 + i)"
    using assms by (simp only: foldl_enumerate_nth length_sort distinct_sort)
  then show ?thesis
    by (simp add: ideal_at_def slot_count_def flip: zmod_int zdiv_int)
qed

lemma ideal_other: "s \<notin> set slots \<Longrightarrow> idealSlotCounts n slots s = 0"
  by (simp add: idealSlotCounts_def Let_def sortSlotIDs_def foldl_enumerate_other)

lemma ideal_exists:
  assumes "distinct slots" "s \<in> set slots"
  obtains i where "i < length slots" "idealSlotCounts (int n) slots s = ideal_at n (length slots) i"
proof -
  from assms(2) have "s \<in> set (sort slots)" by simp
  then obtain i where "i < length (sort slots)" "sort slots ! i = s" unfolding in_set_conv_nth by blast
  then show thesis using ideal_nth [OF assms(1), of i n] that by auto
qed

lemma ideal_nonneg: "distinct slots \<Longrightarrow> 0 \<le> idealSlotCounts (int n) slots s"
  by (cases "s \<in> set slots") (auto simp: ideal_other ideal_at_def elim: ideal_exists [of slots s n])

lemma ideal_even:
  assumes "distinct slots" "s \<in> set slots" "s' \<in> set slots"
  shows "\<bar>idealSlotCounts (int n) slots s - idealSlotCounts (int n) slots s'\<bar> \<le> 1"
proof -
  obtain i j where "idealSlotCounts (int n) slots s = ideal_at n (length slots) i"
    "idealSlotCounts (int n) slots s' = ideal_at n (length slots) j"
    using ideal_exists [OF assms(1,2), of n] ideal_exists [OF assms(1,3), of n] by metis
  then show ?thesis by (simp add: ideal_at_def slot_count_def)
qed

lemma ideal_sum:
  assumes "distinct slots" "slots \<noteq> []"
  shows "(\<Sum>s\<in>set slots. idealSlotCounts (int n) slots s) = int n"
proof -
  let ?f = "idealSlotCounts (int n) slots"
  have "(\<Sum>s\<in>set slots. ?f s) = (\<Sum>s\<in>set (sort slots). ?f s)" by simp
  also have "\<dots> = sum_list (map ?f (sort slots))"
    by (rule sum_list_distinct_conv_sum_set [symmetric]) (use assms in simp)
  also have "map ?f (sort slots) = map (ideal_at n (length slots)) [0..<length slots]"
    by (rule nth_equalityI) (simp_all add: ideal_nth assms(1))
  also have "sum_list \<dots> = int (sum_list (map (slot_count (n div length slots) (n mod length slots)) [0..<length slots]))"
    by (simp add: ideal_at_def [abs_def] comp_def flip: sum_list_of_nat)
  finally show ?thesis using assms by (simp add: sum_slot_count_total)
qed

text \<open>The invariant where a loop starts, for slots that cover the table.\<close>

lemma plan_inv_start:
  assumes t: "settled t" and S: "set (ht_assignment t) \<subseteq> set slots" "0 \<notin> set slots" "set donors \<subseteq> set slots"
    and tgt: "\<forall>s\<in>set slots. 0 \<le> tgt s" "(\<Sum>s\<in>set slots. tgt s) = int (unat (ht_hashSlotCount t))"
    and cur: "\<forall>s\<in>set slots. cur s = share t s"
  shows "plan_inv (set slots) (set donors) tgt t cur (slotHashSlots t donors)"
  using assms HashSlotsOf_owned [of t]
  unfolding plan_inv_def by (auto simp: settled_def slotHashSlots_eq table_inv_def share_def)

lemma share_zero: "s \<notin> set (ht_assignment t) \<Longrightarrow> share t s = 0"
  by (simp add: share_count)

lemma plan_result_shares:
  assumes "plan_result S D tgt t cur plan t' cur'" "s \<in> S"
  shows "cur' s = share t' s"
  using assms by (auto simp: plan_result_def plan_inv_def)

section \<open>Properties\<close>

text \<open>
  C26: carrying out the rebalance plan of a table with no migration in flight succeeds move by move
  and gives every active slot exactly its ideal share, so two slots differ by at most one hash slot;
  and the plan has as many moves as hash slots were missing, so none can be spared.
\<close>

theorem rebalance_balances:
  assumes t: "settled t"
  shows "\<exists>t'. run_steps move_step t (ComputeRebalancePlan t) = Some t'
    \<and> (\<forall>s\<in>set (tableActiveSlotIDs t). share t' s
          = idealSlotCounts (int (unat (ht_hashSlotCount t))) (tableActiveSlotIDs t) s
        \<and> (\<forall>s'\<in>set (tableActiveSlotIDs t). \<bar>share t' s - share t' s'\<bar> \<le> 1))
    \<and> int (length (ComputeRebalancePlan t)) = (\<Sum>s\<in>set (tableActiveSlotIDs t).
          max 0 (idealSlotCounts (int (unat (ht_hashSlotCount t))) (tableActiveSlotIDs t) s - share t s))"
proof -
  let ?slots = "tableActiveSlotIDs t" and ?n = "unat (ht_hashSlotCount t)"
  let ?tgt = "idealSlotCounts (int ?n) ?slots" and ?cur = "slotCounts t ?slots"
  let ?plan = "rebalance_loop ?tgt ?slots ?cur (slotHashSlots t ?slots)"
  have act: "set ?slots = set (ht_assignment t)" "distinct ?slots" "0 \<notin> set ?slots"
    using t active_slots [of t] by (auto simp: settled_def)
  have sum: "(\<Sum>s\<in>set ?slots. ?tgt s) = int ?n"
  proof (cases "?slots = []")
    case True
    then show ?thesis using act t by (auto simp: settled_def table_inv_def)
  qed (use ideal_sum act in blast)
  have nonneg: "\<forall>s\<in>set ?slots. 0 \<le> ?tgt s" using ideal_nonneg act(2) by blast
  have inv: "plan_inv (set ?slots) (set ?slots) ?tgt t ?cur (slotHashSlots t ?slots)"
    by (rule plan_inv_start [OF t _ act(3) _ nonneg sum]) (use act in \<open>auto simp: slotCounts_eq\<close>)
  obtain t' cur' where r: "plan_result (set ?slots) (set ?slots) ?tgt t ?cur ?plan t' cur'"
    "(\<forall>s\<in>set ?slots. cur' s \<le> ?tgt s) \<or> (\<forall>s\<in>set ?slots. ?tgt s \<le> cur' s)"
    using rebalance_loop_result [OF inv] by blast
  from r(1) obtain o' where inv': "plan_inv (set ?slots) (set ?slots) ?tgt t' cur' o'"
    by (auto simp: plan_result_def)
  have eq: "cur' s = ?tgt s" if "s \<in> set ?slots" for s
    using r(2) sum_equal [of "set ?slots" cur' ?tgt s] sum_equal [of "set ?slots" ?tgt cur' s]
      plan_inv_sum [OF inv'] that by fastforce
  have shares: "share t' s = ?tgt s" if "s \<in> set ?slots" for s
    using plan_result_shares [OF r(1) that] eq [OF that] by simp
  have plan: "ComputeRebalancePlan t = ?plan"
  proof (cases "length ?slots \<le> 1")
    case True
    then have "\<forall>s\<in>set ?slots. ?cur s = ?tgt s"
      using plan_inv_sum [OF inv] by (cases ?slots) auto
    then have "?plan = []" using act(3) by (subst rebalance_loop.simps) (simp add: donor_zero)
    then show ?thesis using True by (simp add: ComputeRebalancePlan_def)
  qed (simp add: ComputeRebalancePlan_def Let_def)
  have "int (length ?plan) = deficit (set ?slots) ?tgt ?cur"
    using r(1) eq by (simp add: plan_result_def deficit_def)
  also have "\<dots> = (\<Sum>s\<in>set ?slots. max 0 (?tgt s - share t s))"
    by (simp add: deficit_def slotCounts_eq)
  finally have len: "int (length ?plan) = (\<Sum>s\<in>set ?slots. max 0 (?tgt s - share t s))" .
  have even: "\<forall>s\<in>set ?slots. \<forall>s'\<in>set ?slots. \<bar>?tgt s - ?tgt s'\<bar> \<le> 1" using ideal_even act(2) by blast
  have run: "run_steps move_step t ?plan = Some t'" using r(1) by (simp add: plan_result_def)
  show ?thesis unfolding plan by (intro exI [of _ t'] conjI run len ballI) (use shares even in auto)
qed

text \<open>
  Carrying out the plan for a new slot succeeds move by move, moves hash slots to that slot only
  and gives it exactly its ideal share; no old slot falls below the lesser of its share and its ideal.
\<close>

lemma add_plan_fills:
  assumes t: "settled t" and new: "n \<noteq> 0" "n \<notin> set (ht_assignment t)"
  shows "\<exists>t'. run_steps move_step t (ComputeAddSlotPlan t n) = Some t'
    \<and> (\<forall>p\<in>set (ComputeAddSlotPlan t n). mp_To p = n)
    \<and> (let ideal = idealSlotCounts (int (unat (ht_hashSlotCount t))) (tableActiveSlotIDs t @ [n])
       in share t' n = ideal n
        \<and> (\<forall>s\<in>set (tableActiveSlotIDs t). min (share t s) (ideal s) \<le> share t' s \<and> share t' s \<le> max (share t s) (ideal s)))"
proof -
  let ?old = "tableActiveSlotIDs t" and ?n = "unat (ht_hashSlotCount t)"
  let ?slots = "sort (?old @ [n])"
  let ?tgt = "idealSlotCounts (int ?n) ?slots" and ?cur = "slotCounts t ?slots"
  let ?plan = "add_loop ?tgt ?old n ?cur (slotHashSlots t ?old)"
  have act: "set ?old = set (ht_assignment t)" "distinct ?old" "0 \<notin> set ?old" "n \<notin> set ?old"
    using t new active_slots [of t] by (auto simp: settled_def)
  have tgt: "?tgt = idealSlotCounts (int ?n) (?old @ [n])"
    by (simp add: idealSlotCounts_def sortSlotIDs_def sorted_sort_id)
  have S: "set ?slots = insert n (set ?old)" "distinct ?slots" using act by auto
  have sum: "(\<Sum>s\<in>set ?slots. ?tgt s) = int ?n" by (rule ideal_sum [OF S(2)]) (use S(1) in fastforce)
  have nonneg: "\<forall>s\<in>set ?slots. 0 \<le> ?tgt s" using ideal_nonneg S(2) by blast
  have inv: "plan_inv (set ?slots) (set ?old) ?tgt t ?cur (slotHashSlots t ?old)"
    by (rule plan_inv_start [OF t _ _ _ nonneg sum]) (use act new in \<open>auto simp: slotCounts_eq\<close>)
  obtain t' cur' where r: "plan_result (set ?slots) (set ?old) ?tgt t ?cur ?plan t' cur'" "?tgt n \<le> cur' n"
    using add_loop_result [OF act(4)] inv unfolding S by blast
  have bounds: "min (share t s) (?tgt s) \<le> share t' s \<and> share t' s \<le> max (share t s) (?tgt s)"
    if "s \<in> set ?slots" for s
    using r(1) plan_result_shares [OF r(1) that] that by (auto simp: plan_result_def slotCounts_eq)
  have n: "n \<in> set ?slots" by simp
  have "share t' n = ?tgt n"
    using bounds [OF n] r(2) plan_result_shares [OF r(1) n] share_zero [OF new(2)] ideal_nonneg [OF S(2), of ?n n]
    by auto
  moreover have "ComputeAddSlotPlan t n = ?plan"
    using new act by (simp add: ComputeAddSlotPlan_def Let_def containsSlotID_def list_ex_iff sortSlotIDs_def)
  moreover have "run_steps move_step t ?plan = Some t'" using r(1) by (simp add: plan_result_def)
  moreover have "\<forall>p\<in>set ?plan. mp_To p = n" using add_loop_moves by blast
  ultimately show ?thesis using bounds unfolding Let_def tgt by auto
qed

text \<open>
  Carrying out the plan for a slot to be removed succeeds move by move, takes hash slots from
  that slot only, all of them, and no remaining slot is lifted above the greater of its share and its
  ideal.
\<close>

lemma remove_plan_empties:
  assumes t: "settled t" and old: "n \<in> set (ht_assignment t)" and rest: "s0 \<in> set (ht_assignment t)" "s0 \<noteq> n"
  shows "\<exists>t'. run_steps move_step t (ComputeRemoveSlotPlan t n) = Some t'
    \<and> (\<forall>p\<in>set (ComputeRemoveSlotPlan t n). mp_From p = n)
    \<and> (let remaining = tableActiveSlotIDsExcluding t n;
           ideal = idealSlotCounts (int (unat (ht_hashSlotCount t))) remaining
       in share t' n = 0
        \<and> (\<forall>s\<in>set remaining. min (share t s) (ideal s) \<le> share t' s \<and> share t' s \<le> max (share t s) (ideal s)))"
proof -
  let ?rem = "tableActiveSlotIDsExcluding t n" and ?n = "unat (ht_hashSlotCount t)"
  let ?slots = "?rem @ [n]"
  let ?tgt = "idealSlotCounts (int ?n) ?rem" and ?cur = "slotCounts t ?slots"
  let ?plan = "remove_loop ?tgt ?rem n ?cur (slotHashSlots t [n])"
  have act: "set ?rem = set (ht_assignment t) - {n}" "distinct ?rem" "0 \<notin> set ?rem" "n \<noteq> 0"
    using t old active_slots [of t] unfolding settled_def tableActiveSlotIDsExcluding_def by force+
  have z: "?tgt n = 0" by (rule ideal_other) (use act in simp)
  have "s0 \<in> set ?rem" using rest unfolding act(1) by simp
  then have ne: "?rem \<noteq> []" by (metis empty_iff empty_set)
  have "n \<notin> set ?rem" unfolding act(1) by simp
  then have S: "set ?slots = insert n (set ?rem)" "n \<notin> set ?rem" "?rem \<noteq> []" using ne by simp_all
  have "(\<Sum>s\<in>set ?slots. ?tgt s) = (\<Sum>s\<in>set ?rem. ?tgt s)" using S z by simp
  then have sum: "(\<Sum>s\<in>set ?slots. ?tgt s) = int ?n" using ideal_sum [OF act(2) S(3), of ?n] by argo
  have nonneg: "\<forall>s\<in>set ?slots. 0 \<le> ?tgt s" using ideal_nonneg act(2) by blast
  have inv: "plan_inv (set ?slots) (set [n]) ?tgt t ?cur (slotHashSlots t [n])"
    by (rule plan_inv_start [OF t _ _ _ nonneg sum]) (use act old in \<open>auto simp: slotCounts_eq\<close>)
  obtain t' cur' where r: "plan_result (set ?slots) {n} ?tgt t ?cur ?plan t' cur'" "cur' n \<le> 0"
    using remove_loop_result [of n ?rem ?tgt, OF S(2) z] inv unfolding S list.set by blast
  have bounds: "min (share t s) (?tgt s) \<le> share t' s \<and> share t' s \<le> max (share t s) (?tgt s)"
    if "s \<in> set ?slots" for s
    using r(1) plan_result_shares [OF r(1) that] that by (auto simp: plan_result_def slotCounts_eq)
  have "share t' n = 0"
    using r(2) plan_result_shares [OF r(1), of n] by (simp add: share_def)
  moreover have "ComputeRemoveSlotPlan t n = ?plan"
    using old act S(3) by (simp add: ComputeRemoveSlotPlan_def Let_def length_HashSlotsOf count_list_0_iff)
  moreover have "run_steps move_step t ?plan = Some t'" using r(1) by (simp add: plan_result_def)
  moreover have "\<forall>p\<in>set ?plan. mp_From p = n" using remove_loop_moves by blast
  ultimately show ?thesis using bounds unfolding Let_def by auto
qed

section \<open>Instances\<close>

definition uneven_table :: HashSlotTable where
  "uneven_table = Reassign (Reassign (NewHashSlotTable 10 3) 9 1) 8 1"

lemma uneven_table_settled: "settled uneven_table"
  unfolding settled_def uneven_table_def
  by (intro conjI Reassign_inv NewHashSlotTable_inv; code_simp)

theorem rebalance_balances_witness:
  "\<exists>t'. run_steps move_step uneven_table (ComputeRebalancePlan uneven_table) = Some t'"
  using rebalance_balances [OF uneven_table_settled] by blast

end
