(* ===== verification/CtrlState.thy ===== *)
theory CtrlState
  imports Bytes
begin

text \<open>
  The durable cluster state of the controller, \<open>pkg/controllerv2/state\<close>: the data of
  \<open>types.go\<close>, the canonical form of \<open>normalize.go\<close>, the checks of \<open>validate.go\<close> and the
  initial routing table of \<open>hashslots.go\<close>. Go's string enumerations stay strings, since values
  outside the named constants can be read from a file or a command and are rejected by the checks.
  A nil slice and an empty one are both the empty list. A time is the number of nanoseconds since Go's
  zero time, so the zero time is 0 and conversion to UTC changes nothing.
\<close>

section \<open>Data\<close>

type_synonym NodeRole = string
type_synonym NodeJoinState = string
type_synonym NodeStatus = string
type_synonym ControllerRole = string
type_synonym TaskKindName = string
type_synonym TaskStep = string
type_synonym TaskStatus = string
type_synonym TaskCompletionPolicy = string
type_synonym TaskParticipantStatus = string
type_synonym Time = int

definition CurrentSchemaVersion :: u32 where "CurrentSchemaVersion = 1"
definition CurrentHashSlotTableVersion :: u32 where "CurrentHashSlotTableVersion = 1"

definition NodeRoleControllerVoter :: NodeRole where "NodeRoleControllerVoter = ''controller_voter''"
definition NodeRoleData :: NodeRole where "NodeRoleData = ''data''"

definition NodeJoinStateActive :: NodeJoinState where "NodeJoinStateActive = ''active''"
definition NodeJoinStateJoining :: NodeJoinState where "NodeJoinStateJoining = ''joining''"
definition NodeJoinStateLeaving :: NodeJoinState where "NodeJoinStateLeaving = ''leaving''"
definition NodeJoinStateRemoved :: NodeJoinState where "NodeJoinStateRemoved = ''removed''"

definition NodeStatusAlive :: NodeStatus where "NodeStatusAlive = ''alive''"
definition NodeStatusSuspect :: NodeStatus where "NodeStatusSuspect = ''suspect''"
definition NodeStatusDown :: NodeStatus where "NodeStatusDown = ''down''"

definition ControllerRoleVoter :: ControllerRole where "ControllerRoleVoter = ''voter''"

definition TaskKindBootstrap :: TaskKindName where "TaskKindBootstrap = ''bootstrap''"
definition TaskKindLeaderTransfer :: TaskKindName where "TaskKindLeaderTransfer = ''leader_transfer''"
definition TaskKindSlotReplicaMove :: TaskKindName where "TaskKindSlotReplicaMove = ''slot_replica_move''"

definition TaskStepCreateSlot :: TaskStep where "TaskStepCreateSlot = ''create_slot''"
definition TaskStepTransferLeader :: TaskStep where "TaskStepTransferLeader = ''transfer_leader''"
definition TaskStepOpenLearner :: TaskStep where "TaskStepOpenLearner = ''open_learner''"
definition TaskStepAddLearner :: TaskStep where "TaskStepAddLearner = ''add_learner''"
definition TaskStepPromoteLearner :: TaskStep where "TaskStepPromoteLearner = ''promote_learner''"
definition TaskStepRemoveVoter :: TaskStep where "TaskStepRemoveVoter = ''remove_voter''"
definition TaskStepCommitAssignment :: TaskStep where "TaskStepCommitAssignment = ''commit_assignment''"

definition TaskStatusPending :: TaskStatus where "TaskStatusPending = ''pending''"
definition TaskStatusRunning :: TaskStatus where "TaskStatusRunning = ''running''"
definition TaskStatusFailed :: TaskStatus where "TaskStatusFailed = ''failed''"

definition PolicySingleObserver :: TaskCompletionPolicy where "PolicySingleObserver = ''single_observer''"
definition PolicyAllTargetPeers :: TaskCompletionPolicy where "PolicyAllTargetPeers = ''all_target_peers''"

definition ParticipantPending :: TaskParticipantStatus where "ParticipantPending = ''pending''"
definition ParticipantDone :: TaskParticipantStatus where "ParticipantDone = ''done''"
definition ParticipantFailed :: TaskParticipantStatus where "ParticipantFailed = ''failed''"

record TaskParticipantProgress =
  tp_NodeID :: u64
  tp_Attempt :: u32
  tp_Status :: TaskParticipantStatus
  tp_LastError :: string

record ClusterConfig =
  cc_SlotCount :: u32
  cc_HashSlotCount :: u16
  cc_ReplicaCount :: u16
  cc_DefaultCapacityWeight :: u32

record ControllerVoter =
  cv_NodeID :: u64
  cv_Addr :: string
  cv_Role :: ControllerRole

record Node =
  nd_NodeID :: u64
  nd_Name :: string
  nd_Addr :: string
  nd_Roles :: "NodeRole list"
  nd_JoinState :: NodeJoinState
  nd_Status :: NodeStatus
  nd_CapacityWeight :: u32

record SlotAssignment =
  sa_SlotID :: u32
  sa_DesiredPeers :: "u64 list"
  sa_ConfigEpoch :: u64
  sa_PreferredLeader :: u64

record HashSlotRange =
  hr_From :: u16
  hr_To :: u16
  hr_SlotID :: u32

record RangeTable =
  rg_Version :: u32
  rg_SlotCount :: u16
  rg_Ranges :: "HashSlotRange list"

record ReconcileTask =
  rt_TaskID :: string
  rt_SlotID :: u32
  rt_Kind :: TaskKindName
  rt_Step :: TaskStep
  rt_SourceNode :: u64
  rt_TargetNode :: u64
  rt_TargetPeers :: "u64 list"
  rt_CompletionPolicy :: TaskCompletionPolicy
  rt_ParticipantProgress :: "TaskParticipantProgress list"
  rt_ConfigEpoch :: u64
  rt_Attempt :: u32
  rt_Status :: TaskStatus
  rt_LastError :: string
  rt_PhaseIndex :: u32
  rt_ObservedConfigIndex :: u64
  rt_ObservedVoters :: "u64 list"
  rt_ObservedLearners :: "u64 list"

record ClusterState =
  cs_SchemaVersion :: u32
  cs_ClusterID :: string
  cs_Revision :: u64
  cs_AppliedRaftIndex :: u64
  cs_UpdatedAt :: Time
  cs_Config :: ClusterConfig
  cs_Controllers :: "ControllerVoter list"
  cs_Nodes :: "Node list"
  cs_Slots :: "SlotAssignment list"
  cs_HashSlots :: RangeTable
  cs_Tasks :: "ReconcileTask list"
  cs_Checksum :: string

text \<open>The zero value of \<open>ClusterState\<close>, the state before initialisation.\<close>

definition zero_config :: ClusterConfig where
  "zero_config = \<lparr>cc_SlotCount = 0, cc_HashSlotCount = 0, cc_ReplicaCount = 0, cc_DefaultCapacityWeight = 0\<rparr>"

definition zero_ranges :: RangeTable where
  "zero_ranges = \<lparr>rg_Version = 0, rg_SlotCount = 0, rg_Ranges = []\<rparr>"

definition zero_state :: ClusterState where
  "zero_state = \<lparr>cs_SchemaVersion = 0, cs_ClusterID = [], cs_Revision = 0, cs_AppliedRaftIndex = 0,
     cs_UpdatedAt = 0, cs_Config = zero_config, cs_Controllers = [], cs_Nodes = [], cs_Slots = [],
     cs_HashSlots = zero_ranges, cs_Tasks = [], cs_Checksum = []\<rparr>"

datatype StateErr = ErrUnsupportedSchema u32 | ErrInvalidState string

definition invalid :: "string \<Rightarrow> StateErr" where
  "invalid reason = ErrInvalidState reason"

section \<open>Normal form\<close>

definition pending_progress :: "u64 \<Rightarrow> TaskParticipantProgress" where
  "pending_progress peerID =
     \<lparr>tp_NodeID = peerID, tp_Attempt = 0, tp_Status = ParticipantPending, tp_LastError = []\<rparr>"

definition normalizeTaskProgress :: "ReconcileTask \<Rightarrow> ReconcileTask" where
  "normalizeTaskProgress task =
     (let task = (if rt_Kind task = TaskKindBootstrap \<and> rt_CompletionPolicy task = []
                  then task\<lparr>rt_CompletionPolicy := PolicyAllTargetPeers\<rparr> else task);
          task = (if rt_Kind task = TaskKindLeaderTransfer \<and> rt_CompletionPolicy task = []
                  then task\<lparr>rt_CompletionPolicy := PolicySingleObserver\<rparr> else task);
          task = (if rt_Kind task = TaskKindSlotReplicaMove \<and> rt_CompletionPolicy task = []
                  then task\<lparr>rt_CompletionPolicy := PolicySingleObserver\<rparr> else task);
          task = (if rt_CompletionPolicy task = PolicyAllTargetPeers
                    \<and> length (rt_ParticipantProgress task) = 0
                  then task\<lparr>rt_ParticipantProgress := map pending_progress (rt_TargetPeers task)\<rparr> else task)
      in task\<lparr>rt_ParticipantProgress :=
           sort_by (\<lambda>a b. tp_NodeID a < tp_NodeID b) (rt_ParticipantProgress task)\<rparr>)"

definition normalize_node :: "Node \<Rightarrow> Node" where
  "normalize_node n =
     (let n = (if nd_CapacityWeight n = 0 then n\<lparr>nd_CapacityWeight := 1\<rparr> else n)
      in n\<lparr>nd_Roles := sort_by (<) (nd_Roles n)\<rparr>)"

definition normalize_slot :: "SlotAssignment \<Rightarrow> SlotAssignment" where
  "normalize_slot a = a\<lparr>sa_DesiredPeers := sort_by (<) (sa_DesiredPeers a)\<rparr>"

definition normalize_task :: "ReconcileTask \<Rightarrow> ReconcileTask" where
  "normalize_task t =
     normalizeTaskProgress
       (t\<lparr>rt_TargetPeers := sort_by (<) (rt_TargetPeers t),
          rt_ObservedVoters := sort_by (<) (rt_ObservedVoters t),
          rt_ObservedLearners := sort_by (<) (rt_ObservedLearners t)\<rparr>)"

definition range_less :: "HashSlotRange \<Rightarrow> HashSlotRange \<Rightarrow> bool" where
  "range_less a b = (if hr_From a = hr_From b then hr_To a < hr_To b else hr_From a < hr_From b)"

definition task_less :: "ReconcileTask \<Rightarrow> ReconcileTask \<Rightarrow> bool" where
  "task_less a b = (if rt_SlotID a = rt_SlotID b then rt_TaskID a < rt_TaskID b else rt_SlotID a < rt_SlotID b)"

definition Normalize :: "ClusterState \<Rightarrow> ClusterState" where
  "Normalize s = s\<lparr>
     cs_Controllers := sort_by (\<lambda>a b. cv_NodeID a < cv_NodeID b) (cs_Controllers s),
     cs_Nodes := sort_by (\<lambda>a b. nd_NodeID a < nd_NodeID b) (map normalize_node (cs_Nodes s)),
     cs_Slots := sort_by (\<lambda>a b. sa_SlotID a < sa_SlotID b) (map normalize_slot (cs_Slots s)),
     cs_HashSlots := (cs_HashSlots s)\<lparr>rg_Ranges := sort_by range_less (rg_Ranges (cs_HashSlots s))\<rparr>,
     cs_Tasks := sort_by task_less (map normalize_task (cs_Tasks s))\<rparr>"

definition HasRole :: "Node \<Rightarrow> NodeRole \<Rightarrow> bool" where
  "HasRole n role = list_ex (\<lambda>candidate. candidate = role) (nd_Roles n)"

section \<open>Initial routing table\<close>

fun build_ranges :: "u32 \<Rightarrow> u32 \<Rightarrow> u32 \<Rightarrow> u32 list \<Rightarrow> HashSlotRange list" where
  "build_ranges base remainder nxt [] = []"
| "build_ranges base remainder nxt (slotID # slotIDs) =
     (let width = (if slotID \<le> remainder then base + 1 else base);
          lo = nxt;
          hi = nxt + width - 1
      in \<lparr>hr_From = ucast lo, hr_To = ucast hi, hr_SlotID = slotID\<rparr>
         # build_ranges base remainder (hi + 1) slotIDs)"

definition BuildInitialHashSlotTable :: "u32 \<Rightarrow> u16 \<Rightarrow> StateErr + RangeTable" where
  "BuildInitialHashSlotTable slotCount hashSlotCount =
     (if slotCount = 0 \<or> hashSlotCount = 0 \<or> slotCount > ucast hashSlotCount
      then Inl (ErrInvalidState ''invalid hash slot counts'')
      else
        let base = ucast hashSlotCount div slotCount;
            remainder = ucast hashSlotCount mod slotCount
        in Inr \<lparr>rg_Version = CurrentHashSlotTableVersion, rg_SlotCount = hashSlotCount,
                rg_Ranges = build_ranges base remainder 0 (map of_nat [1..<Suc (unat slotCount)])\<rparr>)"

end
