(* ===== verification/CtrlValidate.thy ===== *)
theory CtrlValidate
  imports CtrlState
begin

text \<open>
  The invariants of the durable cluster state as the code checks them
  (\<open>pkg/controllerv2/state/validate.go\<close>). A checker returns the error it finds first, or none;
  the maps it builds are functions to options.
\<close>

section \<open>Nodes and controllers\<close>

fun validate_roles :: "NodeRole list \<Rightarrow> NodeRole list \<Rightarrow> StateErr + NodeRole list" where
  "validate_roles seenRoles [] = Inr seenRoles"
| "validate_roles seenRoles (role # roles) =
     (if role \<noteq> NodeRoleControllerVoter \<and> role \<noteq> NodeRoleData then Inl (invalid ''unknown node role'')
      else if role \<in> set seenRoles then Inl (invalid ''duplicate node role'')
      else validate_roles (role # seenRoles) roles)"

definition validate_node :: "(u64 \<rightharpoonup> Node) \<Rightarrow> Node \<Rightarrow> StateErr option" where
  "validate_node byID node =
     (if nd_NodeID node = 0 then Some (invalid ''node_id must be non-zero'')
      else if byID (nd_NodeID node) \<noteq> None then Some (invalid ''duplicate node_id'')
      else if nd_Addr node = [] then Some (invalid ''node addr is required'')
      else if nd_JoinState node = [] then Some (invalid ''node join_state is required'')
      else if nd_JoinState node \<noteq> NodeJoinStateActive \<and> nd_JoinState node \<noteq> NodeJoinStateJoining
        \<and> nd_JoinState node \<noteq> NodeJoinStateLeaving \<and> nd_JoinState node \<noteq> NodeJoinStateRemoved
      then Some (invalid ''unknown node join_state'')
      else if nd_Status node = [] then Some (invalid ''node status is required'')
      else if nd_Status node \<noteq> NodeStatusAlive \<and> nd_Status node \<noteq> NodeStatusSuspect \<and> nd_Status node \<noteq> NodeStatusDown
      then Some (invalid ''unknown node status'')
      else case validate_roles [] (nd_Roles node) of
          Inl e \<Rightarrow> Some e
        | Inr seenRoles \<Rightarrow>
            if length seenRoles = 0 then Some (invalid ''node roles are required'') else None)"

fun validate_nodes_from :: "(u64 \<rightharpoonup> Node) \<Rightarrow> Node list \<Rightarrow> StateErr + (u64 \<rightharpoonup> Node)" where
  "validate_nodes_from byID [] = Inr byID"
| "validate_nodes_from byID (node # nodes) =
     (case validate_node byID node of
        Some e \<Rightarrow> Inl e
      | None \<Rightarrow> validate_nodes_from (byID(nd_NodeID node \<mapsto> node)) nodes)"

definition validateNodes :: "Node list \<Rightarrow> StateErr + (u64 \<rightharpoonup> Node)" where
  "validateNodes nodes = validate_nodes_from (\<lambda>_. None) nodes"

fun validate_controllers_from :: "(u64 \<rightharpoonup> Node) \<Rightarrow> u64 list \<Rightarrow> ControllerVoter list \<Rightarrow> StateErr option" where
  "validate_controllers_from nodes seen [] = None"
| "validate_controllers_from nodes seen (controller # controllers) =
     (if cv_NodeID controller = 0 then Some (invalid ''controller node_id must be non-zero'')
      else if cv_NodeID controller \<in> set seen then Some (invalid ''duplicate controller node_id'')
      else if cv_Addr controller = [] then Some (invalid ''controller addr is required'')
      else if cv_Role controller \<noteq> ControllerRoleVoter then Some (invalid ''controller role must be voter'')
      else
        let bad = Some (invalid ''controller voter must reference active controller_voter node'')
        in case nodes (cv_NodeID controller) of
             None \<Rightarrow> bad
           | Some node \<Rightarrow>
               if \<not> HasRole node NodeRoleControllerVoter \<or> nd_JoinState node \<noteq> NodeJoinStateActive then bad
               else validate_controllers_from nodes (cv_NodeID controller # seen) controllers)"

definition validateControllers :: "ControllerVoter list \<Rightarrow> (u64 \<rightharpoonup> Node) \<Rightarrow> StateErr option" where
  "validateControllers controllers nodes =
     (if length controllers = 0 then Some (invalid ''controller voters are required'')
      else validate_controllers_from nodes [] controllers)"

section \<open>Slots and hash slots\<close>

definition slotDesiredPeerNodeAllowed :: "Node \<Rightarrow> bool" where
  "slotDesiredPeerNodeAllowed node \<longleftrightarrow>
     HasRole node NodeRoleData
     \<and> (nd_JoinState node = NodeJoinStateActive \<or> nd_JoinState node = NodeJoinStateLeaving)"

fun validate_peers :: "(u64 \<rightharpoonup> Node) \<Rightarrow> u64 list \<Rightarrow> u64 list \<Rightarrow> StateErr + u64 list" where
  "validate_peers nodes seenPeers [] = Inr seenPeers"
| "validate_peers nodes seenPeers (peerID # peers) =
     (if peerID = 0 then Inl (invalid ''slot peer must be non-zero'')
      else if peerID \<in> set seenPeers then Inl (invalid ''duplicate slot peer'')
      else
        let bad = Inl (invalid ''slot peer must be an active or leaving data node'')
        in case nodes peerID of
             None \<Rightarrow> bad
           | Some node \<Rightarrow> if \<not> slotDesiredPeerNodeAllowed node then bad
                          else validate_peers nodes (peerID # seenPeers) peers)"

definition validate_slot ::
  "ClusterConfig \<Rightarrow> (u64 \<rightharpoonup> Node) \<Rightarrow> (u32 \<rightharpoonup> SlotAssignment) \<Rightarrow> SlotAssignment \<Rightarrow> StateErr option" where
  "validate_slot config nodes byID slot =
     (if sa_SlotID slot = 0 \<or> sa_SlotID slot > cc_SlotCount config then Some (invalid ''slot_id out of range'')
      else if byID (sa_SlotID slot) \<noteq> None then Some (invalid ''duplicate slot_id'')
      else if sa_ConfigEpoch slot = 0 then Some (invalid ''slot config_epoch is required'')
      else if length (sa_DesiredPeers slot) \<noteq> unat (cc_ReplicaCount config)
      then Some (invalid ''slot desired_peers must match replica_count'')
      else case validate_peers nodes [] (sa_DesiredPeers slot) of
          Inl e \<Rightarrow> Some e
        | Inr seenPeers \<Rightarrow>
            if sa_PreferredLeader slot \<noteq> 0 \<and> sa_PreferredLeader slot \<notin> set seenPeers
            then Some (invalid ''preferred leader must be a desired peer'') else None)"

fun validate_slots_from ::
  "ClusterConfig \<Rightarrow> (u64 \<rightharpoonup> Node) \<Rightarrow> (u32 \<rightharpoonup> SlotAssignment) \<Rightarrow> SlotAssignment list
    \<Rightarrow> StateErr + (u32 \<rightharpoonup> SlotAssignment)" where
  "validate_slots_from config nodes byID [] = Inr byID"
| "validate_slots_from config nodes byID (slot # slots) =
     (case validate_slot config nodes byID slot of
        Some e \<Rightarrow> Inl e
      | None \<Rightarrow> validate_slots_from config nodes (byID(sa_SlotID slot \<mapsto> slot)) slots)"

definition validateSlots ::
  "ClusterConfig \<Rightarrow> SlotAssignment list \<Rightarrow> (u64 \<rightharpoonup> Node) \<Rightarrow> StateErr + (u32 \<rightharpoonup> SlotAssignment)" where
  "validateSlots config slots nodes = validate_slots_from config nodes (\<lambda>_. None) slots"

text \<open>The loop over the ranges, which returns the hash slot it expects next.\<close>

fun validate_ranges :: "ClusterConfig \<Rightarrow> u32 \<Rightarrow> u32 \<Rightarrow> HashSlotRange list \<Rightarrow> StateErr + u32" where
  "validate_ranges config lastSlot expectedFrom [] = Inr expectedFrom"
| "validate_ranges config lastSlot expectedFrom (r # ranges) =
     (if hr_SlotID r = 0 \<or> hr_SlotID r > cc_SlotCount config
      then Inl (invalid ''hash slot range target out of range'')
      else if hr_From r > hr_To r then Inl (invalid ''hash slot range from must not exceed to'')
      else if ucast (hr_From r) \<noteq> expectedFrom then Inl (invalid ''hash slot ranges must be contiguous'')
      else if ucast (hr_To r) > lastSlot then Inl (invalid ''hash slot range exceeds hash_slot_count'')
      else validate_ranges config lastSlot (ucast (hr_To r) + 1) ranges)"

definition validateHashSlots :: "ClusterConfig \<Rightarrow> RangeTable \<Rightarrow> StateErr option" where
  "validateHashSlots config table =
     (if rg_Version table \<noteq> CurrentHashSlotTableVersion then Some (invalid ''unsupported hash slot table version'')
      else if rg_SlotCount table \<noteq> cc_HashSlotCount config
      then Some (invalid ''hash slot table slot_count must match config'')
      else if length (rg_Ranges table) = 0 then Some (invalid ''hash slot ranges are required'')
      else case validate_ranges config (ucast (cc_HashSlotCount config) - 1) 0 (rg_Ranges table) of
          Inl e \<Rightarrow> Some e
        | Inr expectedFrom \<Rightarrow>
            if expectedFrom \<noteq> ucast (cc_HashSlotCount config)
            then Some (invalid ''hash slot ranges must cover full hash_slot_count'') else None)"

section \<open>Tasks\<close>

definition containsUint64 :: "u64 list \<Rightarrow> u64 \<Rightarrow> bool" where
  "containsUint64 items want = list_ex (\<lambda>item. item = want) items"

fun replace_first :: "u64 list \<Rightarrow> u64 \<Rightarrow> u64 \<Rightarrow> u64 list" where
  "replace_first [] source target = []"
| "replace_first (peer # peers) source target =
     (if peer = source then target # peers else peer # replace_first peers source target)"

definition replacePeer :: "u64 list \<Rightarrow> u64 \<Rightarrow> u64 \<Rightarrow> u64 list" where
  "replacePeer peers source target = sort_by (<) (replace_first peers source target)"

fun duplicate_from :: "u64 list \<Rightarrow> u64 list \<Rightarrow> bool" where
  "duplicate_from seen [] = False"
| "duplicate_from seen (item # items) =
     (if item = 0 then True else if item \<in> set seen then True else duplicate_from (item # seen) items)"

definition hasDuplicateUint64 :: "u64 list \<Rightarrow> bool" where
  "hasDuplicateUint64 items = duplicate_from [] items"

fun validate_progress :: "u64 list \<Rightarrow> u64 list \<Rightarrow> TaskParticipantProgress list \<Rightarrow> StateErr option" where
  "validate_progress targets seen [] = None"
| "validate_progress targets seen (progress # rest) =
     (if tp_NodeID progress = 0 then Some (invalid ''task participant node_id must be non-zero'')
      else if tp_NodeID progress \<notin> set targets then Some (invalid ''task participant must be a target peer'')
      else if tp_NodeID progress \<in> set seen then Some (invalid ''duplicate task participant'')
      else if tp_Status progress = ParticipantPending \<or> tp_Status progress = ParticipantDone
        \<or> tp_Status progress = ParticipantFailed
      then validate_progress targets (tp_NodeID progress # seen) rest
      else Some (invalid ''unknown task participant status''))"

definition validateParticipantProgress :: "ReconcileTask \<Rightarrow> StateErr option" where
  "validateParticipantProgress task =
     (if rt_CompletionPolicy task = PolicySingleObserver then
        (if length (rt_ParticipantProgress task) \<noteq> 0
         then Some (invalid ''single_observer task must not have participant progress'') else None)
      else if rt_CompletionPolicy task \<noteq> PolicyAllTargetPeers
      then Some (invalid ''unknown task completion_policy'')
      else if length (rt_ParticipantProgress task) \<noteq> length (rt_TargetPeers task)
      then Some (invalid ''all_target_peers task progress must match target peers'')
      else validate_progress (rt_TargetPeers task) [] (rt_ParticipantProgress task))"

definition validate_bootstrap :: "(u32 \<rightharpoonup> SlotAssignment) \<Rightarrow> ReconcileTask \<Rightarrow> StateErr option" where
  "validate_bootstrap assignments task =
     (if rt_Step task \<noteq> TaskStepCreateSlot then Some (invalid ''bootstrap task step must be create_slot'')
      else case assignments (rt_SlotID task) of
          None \<Rightarrow> Some (invalid ''bootstrap task requires slot assignment'')
        | Some assignment \<Rightarrow>
            if rt_TargetPeers task \<noteq> sa_DesiredPeers assignment
            then Some (invalid ''bootstrap target peers must match assignment'')
            else if rt_ConfigEpoch task \<noteq> sa_ConfigEpoch assignment
            then Some (invalid ''bootstrap config_epoch must match assignment'')
            else if rt_TargetNode task \<noteq> sa_PreferredLeader assignment
            then Some (invalid ''bootstrap target node must match preferred leader'')
            else None)"

definition validate_leader_transfer :: "(u32 \<rightharpoonup> SlotAssignment) \<Rightarrow> ReconcileTask \<Rightarrow> StateErr option" where
  "validate_leader_transfer assignments task =
     (if rt_Step task \<noteq> TaskStepTransferLeader
      then Some (invalid ''leader transfer task step must be transfer_leader'')
      else case assignments (rt_SlotID task) of
          None \<Rightarrow> Some (invalid ''leader transfer task requires slot assignment'')
        | Some assignment \<Rightarrow>
            if rt_SourceNode task = 0 \<or> rt_TargetNode task = 0
            then Some (invalid ''leader transfer source and target must be non-zero'')
            else if rt_SourceNode task = rt_TargetNode task
            then Some (invalid ''leader transfer source and target must differ'')
            else if \<not> containsUint64 (sa_DesiredPeers assignment) (rt_SourceNode task)
            then Some (invalid ''leader transfer source must be a desired peer'')
            else if \<not> containsUint64 (sa_DesiredPeers assignment) (rt_TargetNode task)
            then Some (invalid ''leader transfer target must be a desired peer'')
            else if rt_TargetPeers task \<noteq> sa_DesiredPeers assignment
            then Some (invalid ''leader transfer target peers must match assignment'')
            else if rt_ConfigEpoch task \<noteq> sa_ConfigEpoch assignment
            then Some (invalid ''leader transfer config_epoch must match assignment'')
            else if rt_TargetNode task \<noteq> sa_PreferredLeader assignment
            then Some (invalid ''leader transfer target node must match preferred leader'')
            else if rt_CompletionPolicy task \<noteq> PolicySingleObserver
            then Some (invalid ''leader transfer completion_policy must be single_observer'')
            else if length (rt_ParticipantProgress task) \<noteq> 0
            then Some (invalid ''leader transfer task must not have participant progress'')
            else None)"

definition validate_replica_move ::
  "(u32 \<rightharpoonup> SlotAssignment) \<Rightarrow> (u64 \<rightharpoonup> Node) \<Rightarrow> ReconcileTask \<Rightarrow> StateErr option" where
  "validate_replica_move assignments nodes task =
     (if rt_Step task \<noteq> TaskStepOpenLearner \<and> rt_Step task \<noteq> TaskStepAddLearner
        \<and> rt_Step task \<noteq> TaskStepPromoteLearner \<and> rt_Step task \<noteq> TaskStepRemoveVoter
        \<and> rt_Step task \<noteq> TaskStepCommitAssignment
      then Some (invalid ''slot replica move task step is invalid'')
      else case assignments (rt_SlotID task) of
          None \<Rightarrow> Some (invalid ''slot replica move task requires slot assignment'')
        | Some assignment \<Rightarrow>
            if rt_SourceNode task = 0 \<or> rt_TargetNode task = 0
            then Some (invalid ''slot replica move source and target must be non-zero'')
            else if rt_SourceNode task = rt_TargetNode task
            then Some (invalid ''slot replica move source and target must differ'')
            else if rt_ConfigEpoch task \<noteq> sa_ConfigEpoch assignment
            then Some (invalid ''slot replica move config_epoch must match assignment'')
            else if \<not> containsUint64 (sa_DesiredPeers assignment) (rt_SourceNode task)
            then Some (invalid ''slot replica move source must be a desired peer'')
            else if containsUint64 (sa_DesiredPeers assignment) (rt_TargetNode task)
            then Some (invalid ''slot replica move target must not already be a desired peer'')
            else if (case nodes (rt_TargetNode task) of None \<Rightarrow> True
                     | Some target \<Rightarrow> nd_JoinState target \<noteq> NodeJoinStateActive \<or> \<not> HasRole target NodeRoleData)
            then Some (invalid ''slot replica move target must be an active data node'')
            else if rt_TargetPeers task \<noteq> replacePeer (sa_DesiredPeers assignment) (rt_SourceNode task) (rt_TargetNode task)
            then Some (invalid ''slot replica move target peers must replace source with target'')
            else if rt_CompletionPolicy task \<noteq> PolicySingleObserver
            then Some (invalid ''slot replica move completion_policy must be single_observer'')
            else if length (rt_ParticipantProgress task) \<noteq> 0
            then Some (invalid ''slot replica move task must not have participant progress'')
            else if hasDuplicateUint64 (rt_ObservedVoters task) \<or> hasDuplicateUint64 (rt_ObservedLearners task)
            then Some (invalid ''slot replica move observed sets must be unique'')
            else None)"

definition validate_task_kind ::
  "(u32 \<rightharpoonup> SlotAssignment) \<Rightarrow> (u64 \<rightharpoonup> Node) \<Rightarrow> ReconcileTask \<Rightarrow> StateErr option" where
  "validate_task_kind assignments nodes task =
     (if rt_Kind task = TaskKindBootstrap then validate_bootstrap assignments task
      else if rt_Kind task = TaskKindLeaderTransfer then validate_leader_transfer assignments task
      else if rt_Kind task = TaskKindSlotReplicaMove then validate_replica_move assignments nodes task
      else Some (invalid ''unknown task kind''))"

definition validate_task ::
  "(u32 \<rightharpoonup> SlotAssignment) \<Rightarrow> (u64 \<rightharpoonup> Node) \<Rightarrow> string list \<Rightarrow> u32 list \<Rightarrow> ReconcileTask \<Rightarrow> StateErr option" where
  "validate_task assignments nodes seenTaskIDs seenSlots task =
     (if rt_TaskID task = [] then Some (invalid ''task_id is required'')
      else if rt_TaskID task \<in> set seenTaskIDs then Some (invalid ''duplicate task_id'')
      else if rt_SlotID task = 0 then Some (invalid ''task slot_id is required'')
      else if rt_SlotID task \<in> set seenSlots then Some (invalid ''only one active task per slot is allowed'')
      else if rt_Status task \<noteq> TaskStatusPending \<and> rt_Status task \<noteq> TaskStatusRunning \<and> rt_Status task \<noteq> TaskStatusFailed
      then Some (invalid ''unknown task status'')
      else if rt_CompletionPolicy task \<noteq> PolicySingleObserver \<and> rt_CompletionPolicy task \<noteq> PolicyAllTargetPeers
      then Some (invalid ''unknown task completion_policy'')
      else case validateParticipantProgress task of
          Some e \<Rightarrow> Some e
        | None \<Rightarrow> validate_task_kind assignments nodes task)"

fun validate_tasks_from ::
  "(u32 \<rightharpoonup> SlotAssignment) \<Rightarrow> (u64 \<rightharpoonup> Node) \<Rightarrow> string list \<Rightarrow> u32 list \<Rightarrow> ReconcileTask list \<Rightarrow> StateErr option" where
  "validate_tasks_from assignments nodes seenTaskIDs seenSlots [] = None"
| "validate_tasks_from assignments nodes seenTaskIDs seenSlots (task # tasks) =
     (case validate_task assignments nodes seenTaskIDs seenSlots task of
        Some e \<Rightarrow> Some e
      | None \<Rightarrow> validate_tasks_from assignments nodes (rt_TaskID task # seenTaskIDs) (rt_SlotID task # seenSlots) tasks)"

definition validateTasks ::
  "ReconcileTask list \<Rightarrow> (u32 \<rightharpoonup> SlotAssignment) \<Rightarrow> (u64 \<rightharpoonup> Node) \<Rightarrow> StateErr option" where
  "validateTasks tasks assignments nodes = validate_tasks_from assignments nodes [] [] tasks"

section \<open>The whole state\<close>

definition validate_parts :: "ClusterState \<Rightarrow> StateErr option" where
  "validate_parts s =
     (case validateNodes (cs_Nodes s) of
        Inl e \<Rightarrow> Some e
      | Inr nodes \<Rightarrow>
          (case validateControllers (cs_Controllers s) nodes of
             Some e \<Rightarrow> Some e
           | None \<Rightarrow>
               (case validateSlots (cs_Config s) (cs_Slots s) nodes of
                  Inl e \<Rightarrow> Some e
                | Inr assignments \<Rightarrow>
                    (case validateHashSlots (cs_Config s) (cs_HashSlots s) of
                       Some e \<Rightarrow> Some e
                     | None \<Rightarrow> validateTasks (cs_Tasks s) assignments nodes))))"

definition Validate :: "ClusterState \<Rightarrow> StateErr option" where
  "Validate s0 =
     (let s = Normalize s0
      in if cs_SchemaVersion s \<noteq> CurrentSchemaVersion then Some (ErrUnsupportedSchema (cs_SchemaVersion s))
         else if cs_ClusterID s = [] then Some (invalid ''cluster_id is required'')
         else if cs_Revision s = 0 then Some (invalid ''revision is required'')
         else if cc_SlotCount (cs_Config s) = 0 \<or> cc_HashSlotCount (cs_Config s) = 0 \<or> cc_ReplicaCount (cs_Config s) = 0
         then Some (invalid ''slot_count, hash_slot_count, and replica_count must be positive'')
         else if cc_SlotCount (cs_Config s) > ucast (cc_HashSlotCount (cs_Config s))
         then Some (invalid ''slot_count must not exceed hash_slot_count'')
         else validate_parts s)"

end
