(* ===== verification/CtrlStateSafety.thy ===== *)
theory CtrlStateSafety
  imports CtrlValidate HashSlotSafety
begin

text \<open>
  What the checks of the cluster state decide. \<open>well_formed\<close> states the invariant of the durable
  state without the code's loops and early exits; the checks succeed exactly on the states whose normal
  form satisfies it.
\<close>

section \<open>The invariant\<close>

definition node_ok :: "Node \<Rightarrow> bool" where
  "node_ok n \<longleftrightarrow> nd_NodeID n \<noteq> 0 \<and> nd_Addr n \<noteq> []
     \<and> nd_JoinState n \<in> {NodeJoinStateActive, NodeJoinStateJoining, NodeJoinStateLeaving, NodeJoinStateRemoved}
     \<and> nd_Status n \<in> {NodeStatusAlive, NodeStatusSuspect, NodeStatusDown}
     \<and> nd_Roles n \<noteq> [] \<and> distinct (nd_Roles n) \<and> set (nd_Roles n) \<subseteq> {NodeRoleControllerVoter, NodeRoleData}"

definition node_of :: "ClusterState \<Rightarrow> u64 \<rightharpoonup> Node" where
  "node_of s = map_of (map (\<lambda>n. (nd_NodeID n, n)) (cs_Nodes s))"

definition slot_of :: "ClusterState \<Rightarrow> u32 \<rightharpoonup> SlotAssignment" where
  "slot_of s = map_of (map (\<lambda>a. (sa_SlotID a, a)) (cs_Slots s))"

definition controller_ok :: "(u64 \<rightharpoonup> Node) \<Rightarrow> ControllerVoter \<Rightarrow> bool" where
  "controller_ok nodes c \<longleftrightarrow> cv_NodeID c \<noteq> 0 \<and> cv_Addr c \<noteq> [] \<and> cv_Role c = ControllerRoleVoter
     \<and> (case nodes (cv_NodeID c) of None \<Rightarrow> False
        | Some n \<Rightarrow> HasRole n NodeRoleControllerVoter \<and> nd_JoinState n = NodeJoinStateActive)"

definition peer_ok :: "(u64 \<rightharpoonup> Node) \<Rightarrow> u64 \<Rightarrow> bool" where
  "peer_ok nodes p \<longleftrightarrow> p \<noteq> 0 \<and> (case nodes p of None \<Rightarrow> False | Some n \<Rightarrow> slotDesiredPeerNodeAllowed n)"

definition slot_ok :: "ClusterConfig \<Rightarrow> (u64 \<rightharpoonup> Node) \<Rightarrow> SlotAssignment \<Rightarrow> bool" where
  "slot_ok config nodes a \<longleftrightarrow> sa_SlotID a \<noteq> 0 \<and> sa_SlotID a \<le> cc_SlotCount config \<and> sa_ConfigEpoch a \<noteq> 0
     \<and> length (sa_DesiredPeers a) = unat (cc_ReplicaCount config) \<and> distinct (sa_DesiredPeers a)
     \<and> (\<forall>p\<in>set (sa_DesiredPeers a). peer_ok nodes p)
     \<and> (sa_PreferredLeader a = 0 \<or> sa_PreferredLeader a \<in> set (sa_DesiredPeers a))"

text \<open>The hash slots of a range list in order; the table must list every hash slot exactly once.\<close>

definition covered :: "HashSlotRange list \<Rightarrow> nat list" where
  "covered ranges = concat (map (\<lambda>r. [unat (hr_From r)..<Suc (unat (hr_To r))]) ranges)"

definition ranges_ok :: "ClusterConfig \<Rightarrow> RangeTable \<Rightarrow> bool" where
  "ranges_ok config t \<longleftrightarrow> rg_Version t = CurrentHashSlotTableVersion \<and> rg_SlotCount t = cc_HashSlotCount config
     \<and> (\<forall>r\<in>set (rg_Ranges t). hr_SlotID r \<noteq> 0 \<and> hr_SlotID r \<le> cc_SlotCount config \<and> hr_From r \<le> hr_To r)
     \<and> covered (rg_Ranges t) = [0..<unat (cc_HashSlotCount config)]"

definition progress_ok :: "ReconcileTask \<Rightarrow> bool" where
  "progress_ok t \<longleftrightarrow>
     (rt_CompletionPolicy t = PolicySingleObserver \<and> rt_ParticipantProgress t = [])
     \<or> (rt_CompletionPolicy t = PolicyAllTargetPeers
        \<and> length (rt_ParticipantProgress t) = length (rt_TargetPeers t)
        \<and> distinct (map tp_NodeID (rt_ParticipantProgress t))
        \<and> (\<forall>p\<in>set (rt_ParticipantProgress t). tp_NodeID p \<noteq> 0 \<and> tp_NodeID p \<in> set (rt_TargetPeers t)
             \<and> tp_Status p \<in> {ParticipantPending, ParticipantDone, ParticipantFailed}))"

definition move_steps :: "TaskStep set" where
  "move_steps = {TaskStepOpenLearner, TaskStepAddLearner, TaskStepPromoteLearner, TaskStepRemoveVoter,
     TaskStepCommitAssignment}"

definition bootstrap_ok :: "SlotAssignment \<Rightarrow> ReconcileTask \<Rightarrow> bool" where
  "bootstrap_ok a t \<longleftrightarrow> rt_Step t = TaskStepCreateSlot \<and> rt_TargetPeers t = sa_DesiredPeers a
     \<and> rt_TargetNode t = sa_PreferredLeader a"

definition transfer_ok :: "SlotAssignment \<Rightarrow> ReconcileTask \<Rightarrow> bool" where
  "transfer_ok a t \<longleftrightarrow> rt_Step t = TaskStepTransferLeader \<and> rt_SourceNode t \<noteq> 0 \<and> rt_TargetNode t \<noteq> 0
     \<and> rt_SourceNode t \<noteq> rt_TargetNode t \<and> rt_SourceNode t \<in> set (sa_DesiredPeers a)
     \<and> rt_TargetNode t \<in> set (sa_DesiredPeers a) \<and> rt_TargetPeers t = sa_DesiredPeers a
     \<and> rt_TargetNode t = sa_PreferredLeader a \<and> rt_CompletionPolicy t = PolicySingleObserver"

definition move_ok :: "(u64 \<rightharpoonup> Node) \<Rightarrow> SlotAssignment \<Rightarrow> ReconcileTask \<Rightarrow> bool" where
  "move_ok nodes a t \<longleftrightarrow> rt_Step t \<in> move_steps \<and> rt_SourceNode t \<noteq> 0 \<and> rt_TargetNode t \<noteq> 0
     \<and> rt_SourceNode t \<noteq> rt_TargetNode t \<and> rt_SourceNode t \<in> set (sa_DesiredPeers a)
     \<and> rt_TargetNode t \<notin> set (sa_DesiredPeers a)
     \<and> (case nodes (rt_TargetNode t) of None \<Rightarrow> False
        | Some n \<Rightarrow> nd_JoinState n = NodeJoinStateActive \<and> HasRole n NodeRoleData)
     \<and> rt_TargetPeers t = replacePeer (sa_DesiredPeers a) (rt_SourceNode t) (rt_TargetNode t)
     \<and> rt_CompletionPolicy t = PolicySingleObserver
     \<and> distinct (rt_ObservedVoters t) \<and> 0 \<notin> set (rt_ObservedVoters t)
     \<and> distinct (rt_ObservedLearners t) \<and> 0 \<notin> set (rt_ObservedLearners t)"

definition task_ok :: "(u32 \<rightharpoonup> SlotAssignment) \<Rightarrow> (u64 \<rightharpoonup> Node) \<Rightarrow> ReconcileTask \<Rightarrow> bool" where
  "task_ok slots nodes t \<longleftrightarrow> rt_TaskID t \<noteq> [] \<and> rt_SlotID t \<noteq> 0
     \<and> rt_Status t \<in> {TaskStatusPending, TaskStatusRunning, TaskStatusFailed} \<and> progress_ok t
     \<and> (case slots (rt_SlotID t) of None \<Rightarrow> False
        | Some a \<Rightarrow> rt_ConfigEpoch t = sa_ConfigEpoch a
            \<and> (rt_Kind t = TaskKindBootstrap \<and> bootstrap_ok a t
               \<or> rt_Kind t = TaskKindLeaderTransfer \<and> transfer_ok a t
               \<or> rt_Kind t = TaskKindSlotReplicaMove \<and> move_ok nodes a t))"

definition well_formed :: "ClusterState \<Rightarrow> bool" where
  "well_formed s \<longleftrightarrow>
     cs_SchemaVersion s = CurrentSchemaVersion \<and> cs_ClusterID s \<noteq> [] \<and> cs_Revision s \<noteq> 0
     \<and> cc_SlotCount (cs_Config s) \<noteq> 0 \<and> cc_HashSlotCount (cs_Config s) \<noteq> 0 \<and> cc_ReplicaCount (cs_Config s) \<noteq> 0
     \<and> cc_SlotCount (cs_Config s) \<le> ucast (cc_HashSlotCount (cs_Config s))
     \<and> distinct (map nd_NodeID (cs_Nodes s)) \<and> (\<forall>n\<in>set (cs_Nodes s). node_ok n)
     \<and> cs_Controllers s \<noteq> [] \<and> distinct (map cv_NodeID (cs_Controllers s))
     \<and> (\<forall>c\<in>set (cs_Controllers s). controller_ok (node_of s) c)
     \<and> distinct (map sa_SlotID (cs_Slots s)) \<and> (\<forall>a\<in>set (cs_Slots s). slot_ok (cs_Config s) (node_of s) a)
     \<and> ranges_ok (cs_Config s) (cs_HashSlots s)
     \<and> distinct (map rt_TaskID (cs_Tasks s)) \<and> distinct (map rt_SlotID (cs_Tasks s))
     \<and> (\<forall>t\<in>set (cs_Tasks s). task_ok (slot_of s) (node_of s) t)"

section \<open>The checks decide it\<close>

lemma case_result_None:
  assumes "\<And>y. r = Inr y \<longleftrightarrow> P \<and> y = y0"
  shows "(case r of Inl e \<Rightarrow> Some e | Inr y \<Rightarrow> f y) = None \<longleftrightarrow> P \<and> f y0 = None"
  using assms [of y0] assms by (cases r) (simp_all, metis)

lemma map_of_keyed_None: "map_of (map (\<lambda>x. (f x, x)) xs) k = None \<longleftrightarrow> k \<notin> f ` set xs"
  by (simp add: map_of_eq_None_iff image_image)

lemma map_of_keyed:
  assumes "distinct (map f xs)" "x \<in> set xs"
  shows "map_of (map (\<lambda>x. (f x, x)) xs) (f x) = Some x"
  using assms by (intro map_of_is_SomeI) (auto simp: comp_def)

lemma map_add_upd_keyed:
  "k \<notin> f ` set xs \<Longrightarrow>
    m(k \<mapsto> v) ++ map_of (map (\<lambda>x. (f x, x)) xs) = m ++ (map_of (map (\<lambda>x. (f x, x)) xs))(k \<mapsto> v)"
  using map_of_keyed_None [of f xs k] by (auto simp: map_add_def fun_eq_iff split: option.splits)

lemma keyed_step:
  "(P n \<and> byID (f n) = None) \<and> ((\<forall>x\<in>set ns. P x \<and> (byID(f n \<mapsto> n)) (f x) = None) \<and> distinct (map f ns))
     \<and> m = byID(f n \<mapsto> n) ++ map_of (map (\<lambda>x. (f x, x)) ns)
   \<longleftrightarrow> ((\<forall>x\<in>set (n # ns). P x \<and> byID (f x) = None) \<and> distinct (map f (n # ns)))
     \<and> m = byID ++ map_of (map (\<lambda>x. (f x, x)) (n # ns))"
proof (cases "f n \<in> f ` set ns")
  case True
  then show ?thesis by auto
next
  case False
  have "(byID(f n \<mapsto> n)) (f x) = None \<longleftrightarrow> byID (f x) = None" if "x \<in> set ns" for x
    using False that by (metis fun_upd_other imageI)
  then show ?thesis using False unfolding map_add_upd_keyed [OF False] by auto
qed

lemma validate_roles_Inr:
  "validate_roles seen roles = Inr seen' \<longleftrightarrow> (set roles \<subseteq> {NodeRoleControllerVoter, NodeRoleData}
     \<and> distinct roles \<and> set roles \<inter> set seen = {}) \<and> seen' = rev roles @ seen"
  by (induction seen roles rule: validate_roles.induct) auto

lemma validate_node_None:
  "validate_node byID n = None \<longleftrightarrow> node_ok n \<and> byID (nd_NodeID n) = None"
  unfolding validate_node_def case_result_None [OF validate_roles_Inr]
  by (auto simp: case_result_None [OF validate_roles_Inr] node_ok_def NodeJoinStateActive_def
      NodeJoinStateJoining_def NodeJoinStateLeaving_def NodeJoinStateRemoved_def NodeStatusAlive_def
      NodeStatusSuspect_def NodeStatusDown_def)

lemma validate_nodes_from_Inr:
  "validate_nodes_from byID ns = Inr m \<longleftrightarrow>
     ((\<forall>n\<in>set ns. node_ok n \<and> byID (nd_NodeID n) = None) \<and> distinct (map nd_NodeID ns))
     \<and> m = byID ++ map_of (map (\<lambda>n. (nd_NodeID n, n)) ns)"
proof (induction ns arbitrary: byID)
  case (Cons n ns)
  have "validate_nodes_from byID (n # ns) = Inr m \<longleftrightarrow> (node_ok n \<and> byID (nd_NodeID n) = None)
      \<and> validate_nodes_from (byID(nd_NodeID n \<mapsto> n)) ns = Inr m"
    using validate_node_None [of byID n] by (cases "validate_node byID n") simp_all
  then show ?case unfolding Cons.IH keyed_step .
qed auto

lemma validateNodes_Inr:
  "validateNodes ns = Inr m \<longleftrightarrow>
     ((\<forall>n\<in>set ns. node_ok n) \<and> distinct (map nd_NodeID ns)) \<and> m = map_of (map (\<lambda>n. (nd_NodeID n, n)) ns)"
  by (simp add: validateNodes_def validate_nodes_from_Inr)

lemma validate_controllers_step:
  "validate_controllers_from nodes seen (c # cs) = None \<longleftrightarrow>
     controller_ok nodes c \<and> cv_NodeID c \<notin> set seen \<and> validate_controllers_from nodes (cv_NodeID c # seen) cs = None"
  by (auto simp: controller_ok_def Let_def split: option.splits)

lemma validate_controllers_from_None:
  "validate_controllers_from nodes seen cs = None \<longleftrightarrow>
     (\<forall>c\<in>set cs. controller_ok nodes c \<and> cv_NodeID c \<notin> set seen) \<and> distinct (map cv_NodeID cs)"
proof (induction cs arbitrary: seen)
  case (Cons c cs)
  show ?case unfolding validate_controllers_step Cons.IH by (auto simp: image_iff)
qed simp

lemma validateControllers_None:
  "validateControllers cs nodes = None \<longleftrightarrow>
     cs \<noteq> [] \<and> (\<forall>c\<in>set cs. controller_ok nodes c) \<and> distinct (map cv_NodeID cs)"
  by (simp add: validateControllers_def validate_controllers_from_None)

lemma validate_peers_step:
  "validate_peers nodes seen (p # ps) = Inr seen' \<longleftrightarrow>
     peer_ok nodes p \<and> p \<notin> set seen \<and> validate_peers nodes (p # seen) ps = Inr seen'"
  by (auto simp: peer_ok_def Let_def split: option.splits)

lemma validate_peers_Inr:
  "validate_peers nodes seen ps = Inr seen' \<longleftrightarrow>
     ((\<forall>p\<in>set ps. peer_ok nodes p \<and> p \<notin> set seen) \<and> distinct ps) \<and> seen' = rev ps @ seen"
proof (induction ps arbitrary: seen)
  case (Cons p ps)
  show ?case unfolding validate_peers_step Cons.IH by auto
qed auto

lemma validate_slot_None:
  "validate_slot config nodes byID a = None \<longleftrightarrow> slot_ok config nodes a \<and> byID (sa_SlotID a) = None"
  by (auto simp: validate_slot_def case_result_None [OF validate_peers_Inr] slot_ok_def not_less not_le)

lemma validate_slots_from_Inr:
  "validate_slots_from config nodes byID as = Inr m \<longleftrightarrow>
     ((\<forall>a\<in>set as. slot_ok config nodes a \<and> byID (sa_SlotID a) = None) \<and> distinct (map sa_SlotID as))
     \<and> m = byID ++ map_of (map (\<lambda>a. (sa_SlotID a, a)) as)"
proof (induction as arbitrary: byID)
  case (Cons a as)
  have "validate_slots_from config nodes byID (a # as) = Inr m \<longleftrightarrow>
      (slot_ok config nodes a \<and> byID (sa_SlotID a) = None)
      \<and> validate_slots_from config nodes (byID(sa_SlotID a \<mapsto> a)) as = Inr m"
    using validate_slot_None [of config nodes byID a] by (cases "validate_slot config nodes byID a") simp_all
  then show ?case unfolding Cons.IH keyed_step .
qed auto

lemma validateSlots_Inr:
  "validateSlots config as nodes = Inr m \<longleftrightarrow>
     ((\<forall>a\<in>set as. slot_ok config nodes a) \<and> distinct (map sa_SlotID as)) \<and> m = map_of (map (\<lambda>a. (sa_SlotID a, a)) as)"
  by (simp add: validateSlots_def validate_slots_from_Inr)

section \<open>Hash-slot ranges\<close>

lemma unat_ucast_u16 [simp]: "unat (ucast (x :: u16) :: u32) = unat x"
proof -
  have "unat x < 2 ^ 16" using unsigned_less [of x] by simp
  then have "unat x < 2 ^ 32" by simp
  then show ?thesis by (simp add: unsigned_ucast_eq take_bit_nat_eq_self)
qed

lemma Nil_eq_upt: "[] = [i..<j] \<longleftrightarrow> j \<le> i"
  by (cases "i < j") (auto simp: upt_conv_Cons)

lemma upt_append_eq:
  assumes "a < b" "i \<le> n"
  shows "[a..<b] @ ys = [i..<n] \<longleftrightarrow> a = i \<and> b \<le> n \<and> ys = [b..<n]"
proof
  assume eq: "[a..<b] @ ys = [i..<n]"
  have "[i..<n] \<noteq> []" using assms(1) by (simp flip: eq)
  then have ne: "i < n" by simp
  then have a: "a = i" using arg_cong [OF eq, of hd] assms(1) by (simp add: hd_append upt_conv_Cons)
  have "length [a..<b] \<le> length [i..<n]" unfolding eq [symmetric] by simp
  then have b: "b \<le> n" using a ne by simp
  have "[i..<n] = [a..<b] @ [b..<n]" using a b assms(1) upt_add_eq_append [of a b "n - b"] by simp
  then show "a = i \<and> b \<le> n \<and> ys = [b..<n]" using eq a b by simp
next
  assume "a = i \<and> b \<le> n \<and> ys = [b..<n]"
  then show "[a..<b] @ ys = [i..<n]" using assms upt_add_eq_append [of a b "n - b"] by simp
qed

lemma validate_ranges_step:
  assumes "0 < hc" "unat expected \<le> unat (hc :: u16)"
  shows "validate_ranges config (ucast hc - 1) expected (r # rs) = Inr (ucast hc) \<longleftrightarrow>
     hr_SlotID r \<noteq> 0 \<and> hr_SlotID r \<le> cc_SlotCount config \<and> hr_From r \<le> hr_To r
     \<and> unat (hr_From r) = unat expected \<and> Suc (unat (hr_To r)) \<le> unat hc
     \<and> validate_ranges config (ucast hc - 1) (ucast (hr_To r) + 1) rs = Inr (ucast hc)"
proof -
  have pos: "0 < unat hc" using assms(1) by (simp add: word_less_nat_alt)
  have last: "unat (ucast hc - 1 :: u32) = unat hc - 1"
    using pos by (subst unat_minus_one) (auto simp: word_unat_eq_iff)
  have to: "ucast (hr_To r) > (ucast hc - 1 :: u32) \<longleftrightarrow> \<not> Suc (unat (hr_To r)) \<le> unat hc"
    using pos by (auto simp: word_less_nat_alt last)
  have lo: "ucast (hr_From r) = expected \<longleftrightarrow> unat (hr_From r) = unat expected"
    by (auto simp: word_unat_eq_iff)
  show ?thesis
    unfolding validate_ranges.simps to lo by (auto simp: not_less not_le)
qed

lemma unat_Suc_u16: "unat (ucast (x :: u16) + 1 :: u32) = Suc (unat x)"
proof -
  have "unat x < 2 ^ 16" using unsigned_less [of x] by simp
  then show ?thesis by (simp add: unat_word_ariths(1))
qed

lemma validate_ranges_Inr:
  assumes "0 < hc" "unat expected \<le> unat (hc :: u16)"
  shows "validate_ranges config (ucast hc - 1) expected rs = Inr (ucast hc) \<longleftrightarrow>
     (\<forall>r\<in>set rs. hr_SlotID r \<noteq> 0 \<and> hr_SlotID r \<le> cc_SlotCount config \<and> hr_From r \<le> hr_To r)
     \<and> covered rs = [unat expected..<unat hc]"
  using assms(2)
proof (induction rs arbitrary: expected)
  case Nil
  have "expected = ucast hc \<longleftrightarrow> unat expected = unat hc"
    by (simp add: word_unat_eq_iff)
  then show ?case using Nil by (auto simp: covered_def Nil_eq_upt)
next
  case (Cons r rs)
  let ?C = "\<lambda>r. hr_SlotID r \<noteq> 0 \<and> hr_SlotID r \<le> cc_SlotCount config \<and> hr_From r \<le> hr_To r"
  show ?case
  proof (cases "?C r")
    case True
    then have le: "unat (hr_From r) < Suc (unat (hr_To r))" by (simp add: word_le_nat_alt)
    have cov: "covered (r # rs) = [unat expected..<unat hc] \<longleftrightarrow> unat (hr_From r) = unat expected
        \<and> Suc (unat (hr_To r)) \<le> unat hc \<and> covered rs = [Suc (unat (hr_To r))..<unat hc]"
      using upt_append_eq [OF le Cons.prems] by (simp add: covered_def)
    show ?thesis
      unfolding validate_ranges_step [OF assms(1) Cons.prems] cov
      using True Cons.IH [of "ucast (hr_To r) + 1"] by (auto simp: unat_Suc_u16)
  next
    case False
    then show ?thesis unfolding validate_ranges_step [OF assms(1) Cons.prems] by auto
  qed
qed

lemma validateHashSlots_None:
  assumes "cc_HashSlotCount config \<noteq> 0"
  shows "validateHashSlots config t = None \<longleftrightarrow> ranges_ok config t"
proof -
  have pos: "0 < cc_HashSlotCount config" using assms by (simp add: word_neq_0_conv)
  have loop: "(case validate_ranges config (ucast (cc_HashSlotCount config) - 1) 0 (rg_Ranges t) of
        Inl e \<Rightarrow> Some e
      | Inr expected \<Rightarrow> if expected \<noteq> ucast (cc_HashSlotCount config)
          then Some (invalid ''hash slot ranges must cover full hash_slot_count'') else None) = None
    \<longleftrightarrow> validate_ranges config (ucast (cc_HashSlotCount config) - 1) 0 (rg_Ranges t) = Inr (ucast (cc_HashSlotCount config))"
    by (auto split: sum.splits)
  have ne: "covered (rg_Ranges t) = [0..<unat (cc_HashSlotCount config)] \<Longrightarrow> rg_Ranges t \<noteq> []"
    using pos by (auto simp: covered_def word_less_nat_alt Nil_eq_upt)
  show ?thesis
    unfolding validateHashSlots_def ranges_ok_def
    using validate_ranges_Inr [OF pos, of 0 config "rg_Ranges t"] loop ne by (auto simp: Let_def)
qed

section \<open>Tasks\<close>

lemmas kind_defs = TaskKindBootstrap_def TaskKindLeaderTransfer_def TaskKindSlotReplicaMove_def

lemmas policy_defs = PolicySingleObserver_def PolicyAllTargetPeers_def

lemma containsUint64_iff [simp]: "containsUint64 xs x \<longleftrightarrow> x \<in> set xs"
  by (auto simp: containsUint64_def list_ex_iff)

lemma duplicate_from_iff: "\<not> duplicate_from seen xs \<longleftrightarrow> 0 \<notin> set xs \<and> distinct xs \<and> set xs \<inter> set seen = {}"
  by (induction seen xs rule: duplicate_from.induct) auto

lemma hasDuplicateUint64_iff [simp]: "\<not> hasDuplicateUint64 xs \<longleftrightarrow> 0 \<notin> set xs \<and> distinct xs"
  by (simp add: hasDuplicateUint64_def duplicate_from_iff)

lemma validate_progress_None:
  "validate_progress targets seen ps = None \<longleftrightarrow>
     (\<forall>p\<in>set ps. tp_NodeID p \<noteq> 0 \<and> tp_NodeID p \<in> set targets \<and> tp_NodeID p \<notin> set seen
        \<and> tp_Status p \<in> {ParticipantPending, ParticipantDone, ParticipantFailed})
     \<and> distinct (map tp_NodeID ps)"
proof (induction ps arbitrary: seen)
  case (Cons p ps)
  have "validate_progress targets seen (p # ps) = None \<longleftrightarrow>
      tp_NodeID p \<noteq> 0 \<and> tp_NodeID p \<in> set targets \<and> tp_NodeID p \<notin> set seen
      \<and> tp_Status p \<in> {ParticipantPending, ParticipantDone, ParticipantFailed}
      \<and> validate_progress targets (tp_NodeID p # seen) ps = None"
    by simp
  then show ?case unfolding Cons.IH by (auto simp: image_iff)
qed simp

lemma policies_differ: "PolicySingleObserver \<noteq> PolicyAllTargetPeers"
  by (simp add: policy_defs)

lemma validateParticipantProgress_None: "validateParticipantProgress t = None \<longleftrightarrow> progress_ok t"
  using policies_differ by (auto simp: validateParticipantProgress_def progress_ok_def validate_progress_None)

lemma validate_bootstrap_None:
  "validate_bootstrap slots t = None \<longleftrightarrow>
     (case slots (rt_SlotID t) of None \<Rightarrow> False | Some a \<Rightarrow> rt_ConfigEpoch t = sa_ConfigEpoch a \<and> bootstrap_ok a t)"
  by (auto simp: validate_bootstrap_def bootstrap_ok_def split: option.splits)

lemma validate_leader_transfer_None:
  "progress_ok t \<Longrightarrow> validate_leader_transfer slots t = None \<longleftrightarrow>
     (case slots (rt_SlotID t) of None \<Rightarrow> False | Some a \<Rightarrow> rt_ConfigEpoch t = sa_ConfigEpoch a \<and> transfer_ok a t)"
  using policies_differ
  by (auto simp: validate_leader_transfer_def transfer_ok_def progress_ok_def split: option.splits)

lemma validate_replica_move_None:
  "progress_ok t \<Longrightarrow> validate_replica_move slots nodes t = None \<longleftrightarrow>
     (case slots (rt_SlotID t) of None \<Rightarrow> False | Some a \<Rightarrow> rt_ConfigEpoch t = sa_ConfigEpoch a \<and> move_ok nodes a t)"
proof -
  assume pr: "progress_ok t"
  then have pp: "rt_CompletionPolicy t = PolicySingleObserver \<Longrightarrow> rt_ParticipantProgress t = []"
    using policies_differ by (auto simp: progress_ok_def)
  have st: "rt_Step t \<in> move_steps \<longleftrightarrow> \<not> (rt_Step t \<noteq> TaskStepOpenLearner \<and> rt_Step t \<noteq> TaskStepAddLearner
        \<and> rt_Step t \<noteq> TaskStepPromoteLearner \<and> rt_Step t \<noteq> TaskStepRemoveVoter
        \<and> rt_Step t \<noteq> TaskStepCommitAssignment)"
    by (auto simp: move_steps_def)
  have dup: "hasDuplicateUint64 xs \<longleftrightarrow> \<not> (0 \<notin> set xs \<and> distinct xs)" for xs
    using hasDuplicateUint64_iff by blast
  show ?thesis
  proof (cases "slots (rt_SlotID t)")
    case None
    then show ?thesis by (simp add: validate_replica_move_def)
  next
    case (Some a)
    show ?thesis
      unfolding validate_replica_move_def move_ok_def Some option.case st dup
      by (cases "nodes (rt_TargetNode t)") (auto simp: pp)
  qed
qed

lemma validate_task_kind_None:
  assumes "progress_ok t"
  shows "validate_task_kind slots nodes t = None \<longleftrightarrow>
     (case slots (rt_SlotID t) of None \<Rightarrow> False
      | Some a \<Rightarrow> rt_ConfigEpoch t = sa_ConfigEpoch a
          \<and> (rt_Kind t = TaskKindBootstrap \<and> bootstrap_ok a t
             \<or> rt_Kind t = TaskKindLeaderTransfer \<and> transfer_ok a t
             \<or> rt_Kind t = TaskKindSlotReplicaMove \<and> move_ok nodes a t))"
proof -
  have d: "TaskKindBootstrap \<noteq> TaskKindLeaderTransfer" "TaskKindBootstrap \<noteq> TaskKindSlotReplicaMove"
    "TaskKindLeaderTransfer \<noteq> TaskKindSlotReplicaMove" by (simp_all add: kind_defs)
  consider "rt_Kind t = TaskKindBootstrap" | "rt_Kind t = TaskKindLeaderTransfer"
    | "rt_Kind t = TaskKindSlotReplicaMove"
    | "rt_Kind t \<noteq> TaskKindBootstrap" "rt_Kind t \<noteq> TaskKindLeaderTransfer" "rt_Kind t \<noteq> TaskKindSlotReplicaMove"
    by blast
  then show ?thesis
    using d d [symmetric]
    by cases (simp_all add: validate_task_kind_def validate_bootstrap_None
        validate_leader_transfer_None [OF assms] validate_replica_move_None [OF assms] del: not_None_eq
        split: option.splits)
qed

lemma validate_task_None:
  "validate_task slots nodes seenIDs seenSlots t = None \<longleftrightarrow>
     task_ok slots nodes t \<and> rt_TaskID t \<notin> set seenIDs \<and> rt_SlotID t \<notin> set seenSlots"
proof (cases "progress_ok t")
  case True
  then have "validateParticipantProgress t = None" by (simp add: validateParticipantProgress_None)
  with True show ?thesis
    unfolding validate_task_def task_ok_def
    by (auto simp: validate_task_kind_None progress_ok_def)
next
  case False
  then have "validateParticipantProgress t \<noteq> None" by (simp add: validateParticipantProgress_None)
  with False show ?thesis by (auto simp: validate_task_def task_ok_def)
qed

lemma validate_tasks_from_None:
  "validate_tasks_from slots nodes seenIDs seenSlots ts = None \<longleftrightarrow>
     (\<forall>t\<in>set ts. task_ok slots nodes t \<and> rt_TaskID t \<notin> set seenIDs \<and> rt_SlotID t \<notin> set seenSlots)
     \<and> distinct (map rt_TaskID ts) \<and> distinct (map rt_SlotID ts)"
proof (induction ts arbitrary: seenIDs seenSlots)
  case (Cons t ts)
  have "validate_tasks_from slots nodes seenIDs seenSlots (t # ts) = None \<longleftrightarrow>
      validate_task slots nodes seenIDs seenSlots t = None
      \<and> validate_tasks_from slots nodes (rt_TaskID t # seenIDs) (rt_SlotID t # seenSlots) ts = None"
    by (simp split: option.splits)
  then show ?case unfolding Cons.IH validate_task_None by (auto simp: image_iff)
qed simp

lemma validateTasks_None:
  "validateTasks ts slots nodes = None \<longleftrightarrow>
     (\<forall>t\<in>set ts. task_ok slots nodes t) \<and> distinct (map rt_TaskID ts) \<and> distinct (map rt_SlotID ts)"
  by (simp add: validateTasks_def validate_tasks_from_None)

section \<open>The whole state\<close>

lemma validate_parts_None:
  assumes "cc_HashSlotCount (cs_Config s) \<noteq> 0"
  shows "validate_parts s = None \<longleftrightarrow>
     (\<forall>n\<in>set (cs_Nodes s). node_ok n) \<and> distinct (map nd_NodeID (cs_Nodes s))
     \<and> cs_Controllers s \<noteq> [] \<and> (\<forall>c\<in>set (cs_Controllers s). controller_ok (node_of s) c)
     \<and> distinct (map cv_NodeID (cs_Controllers s))
     \<and> (\<forall>a\<in>set (cs_Slots s). slot_ok (cs_Config s) (node_of s) a) \<and> distinct (map sa_SlotID (cs_Slots s))
     \<and> ranges_ok (cs_Config s) (cs_HashSlots s)
     \<and> (\<forall>t\<in>set (cs_Tasks s). task_ok (slot_of s) (node_of s) t)
     \<and> distinct (map rt_TaskID (cs_Tasks s)) \<and> distinct (map rt_SlotID (cs_Tasks s))"
proof -
  have opt: "(case x of None \<Rightarrow> y | Some e \<Rightarrow> Some e) = None \<longleftrightarrow> x = None \<and> y = None"
    for x y :: "StateErr option" by (cases x) auto
  show ?thesis
    unfolding validate_parts_def case_result_None [OF validateNodes_Inr] opt
      case_result_None [OF validateSlots_Inr] validateControllers_None validateHashSlots_None [OF assms]
      validateTasks_None node_of_def [symmetric] slot_of_def [symmetric]
    by blast
qed

lemma Validate_None: "Validate s = None \<longleftrightarrow> well_formed (Normalize s)"
proof (cases "cc_HashSlotCount (cs_Config (Normalize s)) = 0")
  case True
  then show ?thesis by (simp add: Validate_def well_formed_def Let_def)
next
  case False
  let ?s = "Normalize s"
  have "Validate s = None \<longleftrightarrow> cs_SchemaVersion ?s = CurrentSchemaVersion \<and> cs_ClusterID ?s \<noteq> [] \<and> cs_Revision ?s \<noteq> 0
      \<and> \<not> (cc_SlotCount (cs_Config ?s) = 0 \<or> cc_HashSlotCount (cs_Config ?s) = 0 \<or> cc_ReplicaCount (cs_Config ?s) = 0)
      \<and> \<not> cc_SlotCount (cs_Config ?s) > ucast (cc_HashSlotCount (cs_Config ?s)) \<and> validate_parts ?s = None"
    by (simp add: Validate_def Let_def)
  then show ?thesis unfolding well_formed_def validate_parts_None [OF False] not_less by blast
qed

section \<open>Normal form\<close>

lemma sort_by_idem:
  assumes "\<And>a b c. \<not> lt b a \<Longrightarrow> \<not> lt c b \<Longrightarrow> \<not> lt c a" "\<And>a b. lt a b \<Longrightarrow> \<not> lt b a"
  shows "sort_by lt (sort_by lt xs) = sort_by lt xs"
  by (rule sort_by_sorted) (rule sorted_wrt_sort_by [OF assms])

lemma sort_by_key_idem: "sort_by (\<lambda>a b. f a < (f b :: 'k :: linorder)) (sort_by (\<lambda>a b. f a < f b) xs) = sort_by (\<lambda>a b. f a < f b) xs"
  by (rule sort_by_idem) auto

text \<open>Two orders of the same records with distinct keys sort to the same list.\<close>

lemma sort_by_canonical:
  assumes "\<And>a b c. \<not> lt b a \<Longrightarrow> \<not> lt c b \<Longrightarrow> \<not> lt c a" "\<And>a b. lt a b \<Longrightarrow> \<not> lt b a"
    and sep: "\<And>a b. a \<in> set xs \<Longrightarrow> b \<in> set xs \<Longrightarrow> \<not> lt a b \<Longrightarrow> \<not> lt b a \<Longrightarrow> a = b"
    and "mset xs = mset ys"
  shows "sort_by lt xs = sort_by lt ys"
proof -
  have uniq: "as = bs" if "sorted_wrt (\<lambda>a b. \<not> lt b a) as" "sorted_wrt (\<lambda>a b. \<not> lt b a) bs"
    "mset as = mset bs" "set as \<subseteq> set xs" for as bs
    using that
  proof (induction as arbitrary: bs)
    case (Cons a as)
    from Cons.prems(3) obtain b bs' where bs: "bs = b # bs'" by (cases bs) auto
    have sets: "set (a # as) = set bs" using mset_eq_setD [OF Cons.prems(3)] .
    have irr: "\<not> lt x x" for x using assms(2) by blast
    have "\<forall>y\<in>set bs'. \<not> lt y b" "\<forall>y\<in>set as. \<not> lt y a" using Cons.prems(1,2) bs by simp_all
    moreover have "a = b \<or> a \<in> set bs'" "b = a \<or> b \<in> set as" using sets bs by auto
    ultimately have "\<not> lt b a" "\<not> lt a b" using irr by metis+
    moreover have "a \<in> set xs" "b \<in> set xs" using Cons.prems(4) sets bs by auto
    ultimately have "a = b" using sep by blast
    then show ?case using Cons bs by auto
  qed auto
  have sorted: "sorted_wrt (\<lambda>a b. \<not> lt b a) (sort_by lt zs)" for zs
    by (rule sorted_wrt_sort_by, erule (1) assms(1), erule assms(2))
  show ?thesis
    by (rule uniq) (simp_all only: sorted mset_sort_by assms(4) set_sort_by subset_refl)
qed

lemma task_less_order:
  "\<not> task_less b a \<Longrightarrow> \<not> task_less c b \<Longrightarrow> \<not> task_less c a"
  "task_less a b \<Longrightarrow> \<not> task_less b a"
  by (auto simp: task_less_def split: if_splits)

lemma range_less_order:
  "\<not> range_less b a \<Longrightarrow> \<not> range_less c b \<Longrightarrow> \<not> range_less c a"
  "range_less a b \<Longrightarrow> \<not> range_less b a"
  by (auto simp: range_less_def split: if_splits)

lemma normalize_node_idem: "normalize_node (normalize_node n) = normalize_node n"
  by (simp add: normalize_node_def Let_def sorted_sort_id)

lemma normalize_slot_idem: "normalize_slot (normalize_slot a) = normalize_slot a"
  by (simp add: normalize_slot_def sorted_sort_id)

lemma normalizeTaskProgress_fields [simp]:
  "rt_TaskID (normalizeTaskProgress t) = rt_TaskID t" "rt_SlotID (normalizeTaskProgress t) = rt_SlotID t"
  "rt_Kind (normalizeTaskProgress t) = rt_Kind t" "rt_Step (normalizeTaskProgress t) = rt_Step t"
  "rt_SourceNode (normalizeTaskProgress t) = rt_SourceNode t" "rt_TargetNode (normalizeTaskProgress t) = rt_TargetNode t"
  "rt_TargetPeers (normalizeTaskProgress t) = rt_TargetPeers t"
  "rt_ConfigEpoch (normalizeTaskProgress t) = rt_ConfigEpoch t" "rt_Attempt (normalizeTaskProgress t) = rt_Attempt t"
  "rt_Status (normalizeTaskProgress t) = rt_Status t" "rt_LastError (normalizeTaskProgress t) = rt_LastError t"
  "rt_PhaseIndex (normalizeTaskProgress t) = rt_PhaseIndex t"
  "rt_ObservedConfigIndex (normalizeTaskProgress t) = rt_ObservedConfigIndex t"
  "rt_ObservedVoters (normalizeTaskProgress t) = rt_ObservedVoters t"
  "rt_ObservedLearners (normalizeTaskProgress t) = rt_ObservedLearners t"
  by (simp_all add: normalizeTaskProgress_def Let_def)

definition default_policy :: "ReconcileTask \<Rightarrow> TaskCompletionPolicy" where
  "default_policy t = (if rt_CompletionPolicy t \<noteq> [] then rt_CompletionPolicy t
     else if rt_Kind t = TaskKindBootstrap then PolicyAllTargetPeers
     else if rt_Kind t = TaskKindLeaderTransfer \<or> rt_Kind t = TaskKindSlotReplicaMove then PolicySingleObserver
     else [])"

definition default_progress :: "ReconcileTask \<Rightarrow> TaskParticipantProgress list" where
  "default_progress t = (if default_policy t = PolicyAllTargetPeers \<and> rt_ParticipantProgress t = []
     then map pending_progress (rt_TargetPeers t) else rt_ParticipantProgress t)"

lemma normalizeTaskProgress_policy [simp]:
  "rt_CompletionPolicy (normalizeTaskProgress t) = default_policy t"
  "rt_ParticipantProgress (normalizeTaskProgress t) = sort_by (\<lambda>a b. tp_NodeID a < tp_NodeID b) (default_progress t)"
  by (simp_all add: normalizeTaskProgress_def default_policy_def default_progress_def Let_def kind_defs policy_defs)

lemma default_policy_normal [simp]: "default_policy (normalizeTaskProgress t) = default_policy t"
  unfolding default_policy_def [of "normalizeTaskProgress t"] by (simp add: default_policy_def)

lemma default_progress_normal [simp]:
  "default_progress (normalizeTaskProgress t) = sort_by (\<lambda>a b. tp_NodeID a < tp_NodeID b) (default_progress t)"
  unfolding default_progress_def [of "normalizeTaskProgress t"] by (auto simp: default_progress_def)

lemma task_eqI:
  fixes t u :: ReconcileTask
  assumes "rt_TaskID t = rt_TaskID u" "rt_SlotID t = rt_SlotID u" "rt_Kind t = rt_Kind u" "rt_Step t = rt_Step u"
    "rt_SourceNode t = rt_SourceNode u" "rt_TargetNode t = rt_TargetNode u" "rt_TargetPeers t = rt_TargetPeers u"
    "rt_CompletionPolicy t = rt_CompletionPolicy u" "rt_ParticipantProgress t = rt_ParticipantProgress u"
    "rt_ConfigEpoch t = rt_ConfigEpoch u" "rt_Attempt t = rt_Attempt u" "rt_Status t = rt_Status u"
    "rt_LastError t = rt_LastError u" "rt_PhaseIndex t = rt_PhaseIndex u"
    "rt_ObservedConfigIndex t = rt_ObservedConfigIndex u" "rt_ObservedVoters t = rt_ObservedVoters u"
    "rt_ObservedLearners t = rt_ObservedLearners u"
  shows "t = u"
  using assms by (cases t, cases u) simp

lemma normalizeTaskProgress_idem: "normalizeTaskProgress (normalizeTaskProgress t) = normalizeTaskProgress t"
  by (rule task_eqI) (simp_all add: sort_by_key_idem)

lemma normalize_task_idem: "normalize_task (normalize_task t) = normalize_task t"
proof -
  let ?t = "t\<lparr>rt_TargetPeers := sort_by (<) (rt_TargetPeers t), rt_ObservedVoters := sort_by (<) (rt_ObservedVoters t),
    rt_ObservedLearners := sort_by (<) (rt_ObservedLearners t)\<rparr>"
  let ?n = "normalizeTaskProgress ?t"
  have inner: "?n\<lparr>rt_TargetPeers := sort_by (<) (rt_TargetPeers ?n), rt_ObservedVoters := sort_by (<) (rt_ObservedVoters ?n),
      rt_ObservedLearners := sort_by (<) (rt_ObservedLearners ?n)\<rparr> = ?n"
    by (rule task_eqI) (simp_all add: sorted_sort_id)
  show ?thesis unfolding normalize_task_def inner by (rule normalizeTaskProgress_idem)
qed

lemma map_sorted_fixed:
  assumes "\<And>x. f (f x) = f x"
  shows "map f (sort_by lt (map f xs)) = sort_by lt (map f xs)"
  by (rule map_idI) (auto simp: assms)

lemma Normalize_fields [simp]:
  "cs_SchemaVersion (Normalize s) = cs_SchemaVersion s" "cs_ClusterID (Normalize s) = cs_ClusterID s"
  "cs_Revision (Normalize s) = cs_Revision s" "cs_AppliedRaftIndex (Normalize s) = cs_AppliedRaftIndex s"
  "cs_UpdatedAt (Normalize s) = cs_UpdatedAt s" "cs_Config (Normalize s) = cs_Config s"
  "cs_Checksum (Normalize s) = cs_Checksum s"
  "rg_Version (cs_HashSlots (Normalize s)) = rg_Version (cs_HashSlots s)"
  "rg_SlotCount (cs_HashSlots (Normalize s)) = rg_SlotCount (cs_HashSlots s)"
  by (simp_all add: Normalize_def)

lemma Normalize_idem: "Normalize (Normalize s) = Normalize s"
  by (simp add: Normalize_def map_sorted_fixed [OF normalize_node_idem] map_sorted_fixed [OF normalize_slot_idem]
      map_sorted_fixed [OF normalize_task_idem] sort_by_key_idem
      sort_by_idem [OF task_less_order] sort_by_idem [OF range_less_order])

section \<open>The initial routing table\<close>

text \<open>The ranges with their bounds as natural numbers.\<close>

fun ranges_at :: "nat \<Rightarrow> nat \<Rightarrow> nat \<Rightarrow> nat list \<Rightarrow> HashSlotRange list" where
  "ranges_at b r nxt [] = []"
| "ranges_at b r nxt (i # idxs) =
     \<lparr>hr_From = of_nat nxt, hr_To = of_nat (nxt + slot_count b r i - 1), hr_SlotID = of_nat (Suc i)\<rparr>
     # ranges_at b r (nxt + slot_count b r i) idxs"

lemma ucast_of_nat_u16: "x < 2 ^ 32 \<Longrightarrow> ucast (of_nat x :: u32) = (of_nat x :: u16)"
  by (simp add: word_unat_eq_iff unsigned_ucast_eq unsigned_of_nat take_bit_nat_eq_self)

lemma unat_of_nat_u16: "x < 2 ^ 16 \<Longrightarrow> unat (of_nat x :: u16) = x"
  by (simp add: unsigned_of_nat take_bit_nat_eq_self)

lemma build_ranges_at:
  "0 < b \<Longrightarrow> r < 2 ^ 32 \<Longrightarrow> \<forall>i\<in>set idxs. Suc i < 2 ^ 32 \<Longrightarrow>
    nxt + sum_list (map (slot_count b r) idxs) < 2 ^ 32 \<Longrightarrow>
    build_ranges (of_nat b) (of_nat r) (of_nat nxt) (map (\<lambda>i. of_nat (Suc i)) idxs) = ranges_at b r nxt idxs"
proof (induction idxs arbitrary: nxt)
  case (Cons i idxs)
  let ?w = "slot_count b r i"
  have w: "0 < ?w" "nxt + ?w < 2 ^ 32" using Cons.prems by (simp_all add: slot_count_def)
  have lo: "nxt < 2 ^ 32" and up: "nxt + ?w - 1 < 2 ^ 32" using w by simp_all
  have le: "(of_nat (Suc i) :: u32) \<le> of_nat r \<longleftrightarrow> i < r"
    using Cons.prems(2,3) by (simp add: word_le_nat_alt unsigned_of_nat take_bit_nat_eq_self Suc_le_eq del: of_nat_Suc)
  have width: "(if (of_nat (Suc i) :: u32) \<le> of_nat r then of_nat b + 1 else of_nat b) = (of_nat ?w :: u32)"
    unfolding le by (simp add: slot_count_def)
  have hi: "of_nat nxt + of_nat ?w - 1 = (of_nat (nxt + ?w - 1) :: u32)"
    using w(1) by (simp add: of_nat_diff)
  have nx: "of_nat (nxt + ?w - 1) + 1 = (of_nat (nxt + ?w) :: u32)"
    using w(1) by (simp add: of_nat_diff)
  have "build_ranges (of_nat b) (of_nat r) (of_nat nxt) (of_nat (Suc i) # map (\<lambda>i. of_nat (Suc i)) idxs) =
      \<lparr>hr_From = ucast (of_nat nxt :: u32), hr_To = ucast (of_nat (nxt + ?w - 1) :: u32), hr_SlotID = of_nat (Suc i)\<rparr>
      # build_ranges (of_nat b) (of_nat r) (of_nat (nxt + ?w)) (map (\<lambda>i. of_nat (Suc i)) idxs)"
    unfolding build_ranges.simps Let_def width hi nx ..
  also have "build_ranges (of_nat b) (of_nat r) (of_nat (nxt + ?w)) (map (\<lambda>i. of_nat (Suc i)) idxs)
      = ranges_at b r (nxt + ?w) idxs"
    by (rule Cons.IH) (use Cons.prems in simp_all)
  finally show ?case
    unfolding ucast_of_nat_u16 [OF lo] ucast_of_nat_u16 [OF up] ranges_at.simps list.map .
qed simp

definition expand_range :: "HashSlotRange \<Rightarrow> SlotID list" where
  "expand_range r = replicate (Suc (unat (hr_To r)) - unat (hr_From r)) (ucast (hr_SlotID r))"

lemma ranges_at_props:
  "0 < b \<Longrightarrow> nxt + sum_list (map (slot_count b r) idxs) < 2 ^ 16 \<Longrightarrow> \<forall>i\<in>set idxs. Suc i < 2 ^ 16 \<Longrightarrow>
    covered (ranges_at b r nxt idxs) = [nxt..<nxt + sum_list (map (slot_count b r) idxs)]
    \<and> concat (map expand_range (ranges_at b r nxt idxs)) = concat (map (slot_run b r) idxs)
    \<and> (\<forall>x\<in>set (ranges_at b r nxt idxs). hr_From x \<le> hr_To x \<and> (\<exists>i\<in>set idxs. hr_SlotID x = of_nat (Suc i)))"
proof (induction idxs arbitrary: nxt)
  case (Cons i idxs)
  let ?w = "slot_count b r i"
  let ?x = "\<lparr>hr_From = of_nat nxt, hr_To = of_nat (nxt + ?w - 1), hr_SlotID = of_nat (Suc i)\<rparr> :: HashSlotRange"
  have w: "0 < ?w" "nxt + ?w + sum_list (map (slot_count b r) idxs) < 2 ^ 16"
    using Cons.prems by (simp_all add: add.assoc) (simp add: slot_count_def)
  have u: "unat (hr_From ?x) = nxt" "unat (hr_To ?x) = nxt + ?w - 1"
    unfolding HashSlotRange.simps by (rule unat_of_nat_u16, use w in linarith)+
  have e: "expand_range ?x = slot_run b r i"
    unfolding expand_range_def u using w(1) Cons.prems(3)
    by (simp add: slot_run_def word_unat_eq_iff unsigned_ucast_eq unsigned_of_nat take_bit_nat_eq_self del: of_nat_Suc)
  have c: "[unat (hr_From ?x)..<Suc (unat (hr_To ?x))] = [nxt..<nxt + ?w]" unfolding u using w(1) by simp
  have IH: "covered (ranges_at b r (nxt + ?w) idxs) = [nxt + ?w..<nxt + ?w + sum_list (map (slot_count b r) idxs)]"
    "concat (map expand_range (ranges_at b r (nxt + ?w) idxs)) = concat (map (slot_run b r) idxs)"
    "\<forall>x\<in>set (ranges_at b r (nxt + ?w) idxs). hr_From x \<le> hr_To x \<and> (\<exists>i\<in>set idxs. hr_SlotID x = of_nat (Suc i))"
    using Cons.IH [of "nxt + ?w"] Cons.prems w by simp_all
  have "covered (?x # ranges_at b r (nxt + ?w) idxs) = [nxt..<nxt + ?w] @ covered (ranges_at b r (nxt + ?w) idxs)"
    unfolding covered_def list.map concat.simps c ..
  then have "covered (?x # ranges_at b r (nxt + ?w) idxs) = [nxt..<nxt + (?w + sum_list (map (slot_count b r) idxs))]"
    unfolding IH(1) using upt_add_eq_append [of nxt "nxt + ?w" "sum_list (map (slot_count b r) idxs)"]
    by (simp add: add.assoc)
  moreover have "hr_From ?x \<le> hr_To ?x" unfolding word_le_nat_alt u using w(1) by simp
  ultimately show ?case using IH e by (simp del: of_nat_Suc of_nat_add)
qed (simp add: covered_def)

lemma initial_table:
  assumes "BuildInitialHashSlotTable sc hc = Inr t"
  shows "rg_Version t = CurrentHashSlotTableVersion \<and> rg_SlotCount t = hc
    \<and> covered (rg_Ranges t) = [0..<unat hc]
    \<and> (\<forall>r\<in>set (rg_Ranges t). hr_SlotID r \<noteq> 0 \<and> hr_SlotID r \<le> sc \<and> hr_From r \<le> hr_To r)
    \<and> concat (map expand_range (rg_Ranges t)) = ht_assignment (NewHashSlotTable hc (int (unat sc)))"
proof -
  have ok: "sc \<noteq> 0" "hc \<noteq> 0" "unat sc \<le> unat hc"
    using assms by (auto simp: BuildInitialHashSlotTable_def not_less word_le_nat_alt split: if_splits)
  let ?p = "unat sc" and ?n = "unat hc"
  let ?b = "?n div ?p" and ?r = "?n mod ?p"
  have n: "?n < 2 ^ 16" using unsigned_less [of hc] by simp
  have p: "0 < ?p" "?p < 2 ^ 16" using ok n by (simp_all add: unat_gt_0)
  have b: "0 < ?b" using ok(3) p(1) by (simp add: div_greater_zero_iff)
  have r: "?r < 2 ^ 16" using p by (meson mod_less_divisor order_less_trans)
  have sum: "0 + sum_list (map (slot_count ?b ?r) [0..<?p]) = ?n" using sum_slot_count_total [OF p(1)] by simp
  have wb: "ucast hc div sc = (of_nat ?b :: u32)" and wr: "ucast hc mod sc = (of_nat ?r :: u32)"
    by (simp_all add: word_unat_eq_iff unat_div unat_mod unsigned_of_nat take_bit_nat_eq_self
        order_le_less_trans [OF div_le_dividend] order_le_less_trans [OF mod_less_eq_dividend]
        less_trans [OF n])
  have ids: "map of_nat [1..<Suc ?p] = map (\<lambda>i. of_nat (Suc i) :: u32) [0..<?p]"
    by (simp add: map_Suc_upt [symmetric] comp_def del: of_nat_Suc upt_Suc)
  have ranges: "rg_Ranges t = ranges_at ?b ?r 0 [0..<?p]"
  proof -
    have "build_ranges (of_nat ?b) (of_nat ?r) (of_nat 0) (map (\<lambda>i. of_nat (Suc i)) [0..<?p]) = ranges_at ?b ?r 0 [0..<?p]"
      by (rule build_ranges_at [OF b]) (use r p n sum in auto)
    then show ?thesis
      using assms ok unfolding BuildInitialHashSlotTable_def Let_def wb wr ids
      by (auto simp: word_le_nat_alt not_less split: if_splits)
  qed
  have "\<forall>i\<in>set [0..<?p]. Suc i < 2 ^ 16" using p by auto
  note props = ranges_at_props [OF b, of 0 ?r "[0..<?p]", unfolded sum, OF n this]
  have asg: "ht_assignment (NewHashSlotTable hc (int ?p)) = concat (map (slot_run ?b ?r) [0..<?p])"
  proof -
    have "0 < hc" "(0 :: int) < int ?p" using ok(2) p(1) by (simp add: word_gt_0, linarith)
    from NewHashSlotTable_assignment [OF this] show ?thesis unfolding nat_int .
  qed
  have id: "hr_SlotID x \<noteq> 0 \<and> hr_SlotID x \<le> sc" if x: "x \<in> set (ranges_at ?b ?r 0 [0..<?p])" for x
  proof -
    obtain i where i: "i < ?p" "hr_SlotID x = of_nat (Suc i)" using props x by (metis atLeastLessThan_iff set_upt)
    then have "unat (hr_SlotID x) = Suc i"
      using p by (simp add: unsigned_of_nat take_bit_nat_eq_self del: of_nat_Suc)
    then show ?thesis using i(1) by (auto simp: word_le_nat_alt)
  qed
  have "rg_Version t = CurrentHashSlotTableVersion" "rg_SlotCount t = hc"
    using assms by (auto simp: BuildInitialHashSlotTable_def Let_def split: if_splits)
  then show ?thesis using props id unfolding ranges asg by blast
qed

section \<open>Orders of the same records\<close>

lemma distinct_map_mset: "mset xs = mset ys \<Longrightarrow> distinct (map f xs) = distinct (map f ys)"
  by (metis mset_eq_imp_distinct_iff mset_map)

lemma sort_by_key_canonical:
  assumes "distinct (map f (sort_by (\<lambda>a b. f a < (f b :: 'k :: linorder)) xs))" "mset xs = mset ys"
  shows "sort_by (\<lambda>a b. f a < f b) xs = sort_by (\<lambda>a b. f a < f b) ys"
proof (rule sort_by_canonical)
  have "distinct (map f xs)" using assms(1) distinct_map_mset [of _ xs f] by (metis mset_sort_by)
  then show "a = b" if "a \<in> set xs" "b \<in> set xs" "\<not> f a < f b" "\<not> f b < f a" for a b
    using that by (auto simp: distinct_map dest: inj_onD)
qed (use assms in auto)

lemma sort_tasks_canonical:
  assumes "distinct (map rt_TaskID (sort_by task_less xs))" "mset xs = mset ys"
  shows "sort_by task_less xs = sort_by task_less ys"
proof (rule sort_by_canonical [OF task_less_order])
  have "distinct (map rt_TaskID xs)" using assms(1) distinct_map_mset [of _ xs rt_TaskID] by (metis mset_sort_by)
  then show "a = b" if "a \<in> set xs" "b \<in> set xs" "\<not> task_less a b" "\<not> task_less b a" for a b
    using that by (auto simp: task_less_def distinct_map dest: inj_onD split: if_splits)
qed (use assms in auto)

section \<open>Properties\<close>

text \<open>
  C29: the checks of the cluster state accept a state exactly when its normal form satisfies the
  durable invariant, and their verdict, errors included, does not depend on the order in which the
  records were given.
\<close>

theorem validate_decides:
  "(Validate s = None \<longleftrightarrow> well_formed (Normalize s)) \<and> Validate (Normalize s) = Validate s"
  using Validate_None [of s] by (simp add: Validate_def Normalize_idem)

text \<open>
  an initial routing table can be built exactly for 1 to \<open>hashSlotCount\<close> slots; its ranges
  list every hash slot once, in order, and they route every hash slot to the slot the runtime table of
  \<open>NewHashSlotTable\<close> assigns it to.
\<close>

lemma initial_routing:
  "(\<exists>t. BuildInitialHashSlotTable sc hc = Inr t) = (0 < sc \<and> sc \<le> ucast hc)
   \<and> (BuildInitialHashSlotTable sc hc = Inr t \<longrightarrow>
        (cc_SlotCount config = sc \<longrightarrow> cc_HashSlotCount config = hc \<longrightarrow> ranges_ok config t)
        \<and> concat (map expand_range (rg_Ranges t)) = ht_assignment (NewHashSlotTable hc (int (unat sc))))"
proof -
  have "(\<exists>t. BuildInitialHashSlotTable sc hc = Inr t) = (0 < sc \<and> sc \<le> ucast hc)"
  proof -
    have "\<not> (sc = 0 \<or> hc = 0 \<or> ucast hc < sc) \<longleftrightarrow> 0 < sc \<and> sc \<le> ucast hc"
      by (cases "hc = 0") (auto simp: word_gt_0 not_less)
    moreover have "(\<exists>t. BuildInitialHashSlotTable sc hc = Inr t) = (\<not> (sc = 0 \<or> hc = 0 \<or> ucast hc < sc))"
      unfolding BuildInitialHashSlotTable_def Let_def by (simp split: if_split)
    ultimately show ?thesis by blast
  qed
  then show ?thesis using initial_table [of sc hc t] unfolding ranges_ok_def by blast
qed

text \<open>
  The normal form is a canonical form: normalising twice changes nothing, and two states whose
  records are the same in another order have the same normal form, provided their keys are distinct as
  in every valid state.
\<close>

lemma normal_form_canonical:
  assumes "well_formed (Normalize s)"
    and "mset cs = mset (cs_Controllers s)" "mset ns = mset (cs_Nodes s)"
    and "mset as = mset (cs_Slots s)" "mset ts = mset (cs_Tasks s)"
  shows "Normalize (Normalize s) = Normalize s
    \<and> Normalize (s\<lparr>cs_Controllers := cs, cs_Nodes := ns, cs_Slots := as, cs_Tasks := ts\<rparr>) = Normalize s"
proof -
  have d: "distinct (map cv_NodeID (cs_Controllers (Normalize s)))" "distinct (map nd_NodeID (cs_Nodes (Normalize s)))"
    "distinct (map sa_SlotID (cs_Slots (Normalize s)))" "distinct (map rt_TaskID (cs_Tasks (Normalize s)))"
    using assms(1) by (simp_all add: well_formed_def)
  have m: "mset (map f xs) = mset (map f ys)" if "mset xs = mset ys" for f :: "'b \<Rightarrow> 'b" and xs ys
    using that by simp
  have "sort_by (\<lambda>a b. cv_NodeID a < cv_NodeID b) (cs_Controllers s) = sort_by (\<lambda>a b. cv_NodeID a < cv_NodeID b) cs"
    "sort_by (\<lambda>a b. nd_NodeID a < nd_NodeID b) (map normalize_node (cs_Nodes s))
      = sort_by (\<lambda>a b. nd_NodeID a < nd_NodeID b) (map normalize_node ns)"
    "sort_by (\<lambda>a b. sa_SlotID a < sa_SlotID b) (map normalize_slot (cs_Slots s))
      = sort_by (\<lambda>a b. sa_SlotID a < sa_SlotID b) (map normalize_slot as)"
    using d(1-3) assms(2-4) by (auto simp: Normalize_def intro!: sort_by_key_canonical)
  moreover have "sort_by task_less (map normalize_task (cs_Tasks s)) = sort_by task_less (map normalize_task ts)"
    using d(4) assms(5) by (auto simp: Normalize_def intro!: sort_tasks_canonical)
  ultimately show ?thesis by (simp add: Normalize_idem) (simp add: Normalize_def)
qed

section \<open>Instances\<close>

definition demo_node :: "u64 \<Rightarrow> Node" where
  "demo_node i = \<lparr>nd_NodeID = i, nd_Name = [], nd_Addr = ''a'',
     nd_Roles = [NodeRoleData, NodeRoleControllerVoter], nd_JoinState = NodeJoinStateActive,
     nd_Status = NodeStatusAlive, nd_CapacityWeight = 0\<rparr>"

definition demo_state :: ClusterState where
  "demo_state = zero_state\<lparr>cs_SchemaVersion := 1, cs_ClusterID := ''c'', cs_Revision := 1,
     cs_Config := \<lparr>cc_SlotCount = 2, cc_HashSlotCount = 4, cc_ReplicaCount = 1, cc_DefaultCapacityWeight = 0\<rparr>,
     cs_Controllers := [\<lparr>cv_NodeID = 1, cv_Addr = ''a'', cv_Role = ControllerRoleVoter\<rparr>],
     cs_Nodes := [demo_node 2, demo_node 1],
     cs_HashSlots := \<lparr>rg_Version = 1, rg_SlotCount = 4,
       rg_Ranges = [\<lparr>hr_From = 0, hr_To = 1, hr_SlotID = 1\<rparr>, \<lparr>hr_From = 2, hr_To = 3, hr_SlotID = 2\<rparr>]\<rparr>\<rparr>"

lemma demo_state_valid: "Validate demo_state = None"
  by code_simp

end
