(* ===== verification/CtrlCommand.thy ===== *)
theory CtrlCommand
  imports CtrlValidate
begin

text \<open>
  The replicated controller commands (\<open>pkg/controllerv2/command/command.go\<close>), the outcomes of
  applying them and the list helpers of the state machine
  (\<open>pkg/controllerv2/fsm/mutation_helpers.go\<close>). A pointer that may be nil is an option, and so is
  the index that a search returns, where the code returns -1 for a missing entry. Deep copies are not
  needed in a model without sharing and are left out.
\<close>

section \<open>Commands\<close>

type_synonym CommandKind = string

definition KindInitClusterState :: CommandKind where "KindInitClusterState = ''init_cluster_state''"
definition KindUpsertNode :: CommandKind where "KindUpsertNode = ''upsert_node''"
definition KindUpdateControllerVoters :: CommandKind where "KindUpdateControllerVoters = ''update_controller_voters''"
definition KindUpsertSlotAssignmentAndTask :: CommandKind where
  "KindUpsertSlotAssignmentAndTask = ''upsert_slot_assignment_and_task''"
definition KindUpsertSlotReplicaMoveTask :: CommandKind where
  "KindUpsertSlotReplicaMoveTask = ''upsert_slot_replica_move_task''"
definition KindAdvanceSlotReplicaMovePhase :: CommandKind where
  "KindAdvanceSlotReplicaMovePhase = ''advance_slot_replica_move_phase''"
definition KindCommitSlotReplicaMove :: CommandKind where "KindCommitSlotReplicaMove = ''commit_slot_replica_move''"
definition KindCompleteTask :: CommandKind where "KindCompleteTask = ''complete_task''"
definition KindFailTask :: CommandKind where "KindFailTask = ''fail_task''"
definition KindReportTaskProgress :: CommandKind where "KindReportTaskProgress = ''report_task_progress''"
definition KindReplaceHashSlotTable :: CommandKind where "KindReplaceHashSlotTable = ''replace_hash_slot_table''"

record InitClusterState =
  ic_ClusterID :: string
  ic_Config :: ClusterConfig
  ic_Controllers :: "ControllerVoter list"
  ic_Nodes :: "Node list"

record SlotReplicaMovePhaseAdvance =
  pa_TaskID :: string
  pa_SlotID :: u32
  pa_ConfigEpoch :: u64
  pa_Attempt :: u32
  pa_ExpectedPhaseIndex :: u32
  pa_NextStep :: TaskStep
  pa_ObservedConfigIndex :: u64
  pa_ObservedVoters :: "u64 list"
  pa_ObservedLearners :: "u64 list"

record SlotReplicaMoveCommit =
  mc_TaskID :: string
  mc_SlotID :: u32
  mc_ConfigEpoch :: u64
  mc_Attempt :: u32
  mc_ObservedConfigIndex :: u64
  mc_ObservedVoters :: "u64 list"

record TaskResult =
  tr_TaskID :: string
  tr_SlotID :: u32
  tr_TaskKind :: TaskKindName
  tr_ConfigEpoch :: u64
  tr_Attempt :: u32
  tr_Err :: string
  tr_FinishedAt :: Time

record TaskProgress =
  pr_TaskID :: string
  pr_SlotID :: u32
  pr_TaskKind :: TaskKindName
  pr_ConfigEpoch :: u64
  pr_TaskAttempt :: u32
  pr_ParticipantNodeID :: u64
  pr_ParticipantAttempt :: u32
  pr_Status :: TaskParticipantStatus
  pr_Err :: string
  pr_FinishedAt :: Time

record Command =
  cm_Kind :: CommandKind
  cm_IssuedAt :: Time
  cm_ExpectedRevision :: "u64 option"
  cm_Init :: "InitClusterState option"
  cm_Node :: "Node option"
  cm_Controllers :: "ControllerVoter list"
  cm_Assignment :: "SlotAssignment option"
  cm_Task :: "ReconcileTask option"
  cm_SlotReplicaMovePhase :: "SlotReplicaMovePhaseAdvance option"
  cm_SlotReplicaMoveCommit :: "SlotReplicaMoveCommit option"
  cm_TaskResult :: "TaskResult option"
  cm_TaskProgress :: "TaskProgress option"
  cm_HashSlots :: "RangeTable option"

text \<open>A command with only a kind, for building others.\<close>

definition blank_command :: "CommandKind \<Rightarrow> Command" where
  "blank_command kind = \<lparr>cm_Kind = kind, cm_IssuedAt = 0, cm_ExpectedRevision = None, cm_Init = None, cm_Node = None,
     cm_Controllers = [], cm_Assignment = None, cm_Task = None, cm_SlotReplicaMovePhase = None,
     cm_SlotReplicaMoveCommit = None, cm_TaskResult = None, cm_TaskProgress = None, cm_HashSlots = None\<rparr>"

section \<open>Outcomes\<close>

record ApplyResult =
  ar_Changed :: bool
  ar_Noop :: bool
  ar_Rejected :: bool
  ar_Reason :: string
  ar_Revision :: u64
  ar_AppliedRaftIndex :: u64

definition zero_result :: ApplyResult where
  "zero_result = \<lparr>ar_Changed = False, ar_Noop = False, ar_Rejected = False, ar_Reason = [], ar_Revision = 0,
     ar_AppliedRaftIndex = 0\<rparr>"

definition changed :: ApplyResult where "changed = zero_result\<lparr>ar_Changed := True\<rparr>"

definition noop :: "string \<Rightarrow> ApplyResult" where
  "noop reason = zero_result\<lparr>ar_Noop := True, ar_Reason := reason\<rparr>"

definition reject :: "string \<Rightarrow> ApplyResult" where
  "reject reason = zero_result\<lparr>ar_Rejected := True, ar_Reason := reason\<rparr>"

definition ReasonNoChange :: string where "ReasonNoChange = ''no_change''"
definition ReasonAlreadyApplied :: string where "ReasonAlreadyApplied = ''already_applied''"
definition ReasonStaleBootstrapObsolete :: string where "ReasonStaleBootstrapObsolete = ''stale_bootstrap_obsolete''"
definition ReasonStaleBootstrapMissingSlot :: string where "ReasonStaleBootstrapMissingSlot = ''stale_bootstrap_missing_slot''"
definition ReasonExpectedRevisionMismatch :: string where "ReasonExpectedRevisionMismatch = ''expected_revision_mismatch''"
definition ReasonInvalidState :: string where "ReasonInvalidState = ''invalid_state''"
definition ReasonInvalidCommand :: string where "ReasonInvalidCommand = ''invalid_command''"
definition ReasonInvalidTaskResult :: string where "ReasonInvalidTaskResult = ''invalid_task_result''"
definition ReasonTaskMissing :: string where "ReasonTaskMissing = ''task_missing''"
definition ReasonTaskSlotMismatch :: string where "ReasonTaskSlotMismatch = ''task_slot_mismatch''"
definition ReasonTaskKindMismatch :: string where "ReasonTaskKindMismatch = ''task_kind_mismatch''"
definition ReasonTaskEpochMismatch :: string where "ReasonTaskEpochMismatch = ''task_epoch_mismatch''"
definition ReasonTaskAttemptMismatch :: string where "ReasonTaskAttemptMismatch = ''task_attempt_mismatch''"
definition ReasonTaskParticipantUnexpected :: string where "ReasonTaskParticipantUnexpected = ''task_participant_unexpected''"
definition ReasonTaskParticipantAttemptStale :: string where
  "ReasonTaskParticipantAttemptStale = ''task_participant_attempt_stale''"
definition ReasonTaskPhaseMismatch :: string where "ReasonTaskPhaseMismatch = ''task_phase_mismatch''"
definition ReasonTaskStepMismatch :: string where "ReasonTaskStepMismatch = ''task_step_mismatch''"
definition ReasonTaskObservedVotersMismatch :: string where
  "ReasonTaskObservedVotersMismatch = ''task_observed_voters_mismatch''"
definition ReasonTaskObservedLearnersMismatch :: string where
  "ReasonTaskObservedLearnersMismatch = ''task_observed_learners_mismatch''"
definition ReasonTaskObservedConfigMissing :: string where
  "ReasonTaskObservedConfigMissing = ''task_observed_config_missing''"
definition ReasonInitConflict :: string where "ReasonInitConflict = ''init_conflict''"

definition MaxTaskLastErrorBytes :: int where "MaxTaskLastErrorBytes = 1024"

section \<open>Searches\<close>

fun find_index :: "('a \<Rightarrow> bool) \<Rightarrow> 'a list \<Rightarrow> nat option" where
  "find_index P [] = None"
| "find_index P (x # xs) = (if P x then Some 0 else map_option Suc (find_index P xs))"

definition findNode :: "Node list \<Rightarrow> u64 \<Rightarrow> nat option" where
  "findNode nodes nodeID = find_index (\<lambda>n. nd_NodeID n = nodeID) nodes"

definition findAssignment :: "SlotAssignment list \<Rightarrow> u32 \<Rightarrow> SlotAssignment option" where
  "findAssignment assignments slotID = List.find (\<lambda>a. sa_SlotID a = slotID) assignments"

definition findTaskBySlot :: "ReconcileTask list \<Rightarrow> u32 \<Rightarrow> ReconcileTask option" where
  "findTaskBySlot tasks slotID = List.find (\<lambda>t. rt_SlotID t = slotID) tasks"

definition findTaskByID :: "ReconcileTask list \<Rightarrow> string \<Rightarrow> nat option" where
  "findTaskByID tasks taskID = find_index (\<lambda>t. rt_TaskID t = taskID) tasks"

definition findParticipant :: "TaskParticipantProgress list \<Rightarrow> u64 \<Rightarrow> nat option" where
  "findParticipant items nodeID = find_index (\<lambda>i. tp_NodeID i = nodeID) items"

section \<open>Updates\<close>

fun upsert :: "('a \<Rightarrow> bool) \<Rightarrow> 'a \<Rightarrow> 'a list \<Rightarrow> 'a list" where
  "upsert same new [] = [new]"
| "upsert same new (x # xs) = (if same x then new # xs else x # upsert same new xs)"

definition upsertNode :: "ClusterState \<Rightarrow> Node \<Rightarrow> ClusterState" where
  "upsertNode st node = st\<lparr>cs_Nodes := upsert (\<lambda>n. nd_NodeID n = nd_NodeID node) node (cs_Nodes st)\<rparr>"

definition upsertAssignment :: "ClusterState \<Rightarrow> SlotAssignment \<Rightarrow> ClusterState" where
  "upsertAssignment st assignment =
     st\<lparr>cs_Slots := upsert (\<lambda>a. sa_SlotID a = sa_SlotID assignment) assignment (cs_Slots st)\<rparr>"

definition upsertTask :: "ClusterState \<Rightarrow> ReconcileTask \<Rightarrow> ClusterState" where
  "upsertTask st task = st\<lparr>cs_Tasks := upsert (\<lambda>t. rt_TaskID t = rt_TaskID task) task (cs_Tasks st)\<rparr>"

definition remove_nth :: "nat \<Rightarrow> 'a list \<Rightarrow> 'a list" where
  "remove_nth i xs = take i xs @ drop (Suc i) xs"

section \<open>Comparisons\<close>

definition equivalentInit :: "ClusterState \<Rightarrow> ClusterState \<Rightarrow> bool" where
  "equivalentInit current0 initial0 =
     (let current = Normalize (current0\<lparr>cs_Revision := 1, cs_AppliedRaftIndex := 0, cs_UpdatedAt := 0, cs_Checksum := []\<rparr>);
          initial = Normalize (initial0\<lparr>cs_Revision := 1, cs_AppliedRaftIndex := 0, cs_UpdatedAt := 0, cs_Checksum := []\<rparr>)
      in cs_ClusterID current = cs_ClusterID initial \<and> cs_Config current = cs_Config initial
         \<and> cs_Controllers current = cs_Controllers initial \<and> cs_Nodes current = cs_Nodes initial
         \<and> cs_HashSlots current = cs_HashSlots initial
         \<and> length (cs_Slots current) = 0 \<and> length (cs_Tasks current) = 0)"

definition equivalentNode :: "Node \<Rightarrow> Node \<Rightarrow> bool" where
  "equivalentNode a b =
     (let left = a\<lparr>nd_Roles := sort_by (<) (nd_Roles a)\<rparr>;
          right = b\<lparr>nd_Roles := sort_by (<) (nd_Roles b)\<rparr>;
          left = (if nd_CapacityWeight left = 0 then left\<lparr>nd_CapacityWeight := 1\<rparr> else left);
          right = (if nd_CapacityWeight right = 0 then right\<lparr>nd_CapacityWeight := 1\<rparr> else right)
      in left = right)"

definition equivalentAssignment :: "SlotAssignment \<Rightarrow> SlotAssignment \<Rightarrow> bool" where
  "equivalentAssignment a b =
     (a\<lparr>sa_DesiredPeers := sort_by (<) (sa_DesiredPeers a)\<rparr> = b\<lparr>sa_DesiredPeers := sort_by (<) (sa_DesiredPeers b)\<rparr>)"

definition sorted_task :: "ReconcileTask \<Rightarrow> ReconcileTask" where
  "sorted_task t = t\<lparr>rt_TargetPeers := sort_by (<) (rt_TargetPeers t),
     rt_ObservedVoters := sort_by (<) (rt_ObservedVoters t),
     rt_ObservedLearners := sort_by (<) (rt_ObservedLearners t)\<rparr>"

definition equivalentTask :: "ReconcileTask \<Rightarrow> ReconcileTask \<Rightarrow> bool" where
  "equivalentTask a b = (sorted_task a = sorted_task b)"

definition sameUint64Set :: "u64 list \<Rightarrow> u64 list \<Rightarrow> bool" where
  "sameUint64Set a b = (if length a \<noteq> length b then False else sort_by (<) a = sort_by (<) b)"

text \<open>The state machine's own \<open>replacePeer\<close> keeps the order, unlike the one of the checks.\<close>

definition fsm_replacePeer :: "u64 list \<Rightarrow> u64 \<Rightarrow> u64 \<Rightarrow> u64 list" where
  "fsm_replacePeer peers source target = replace_first peers source target"

section \<open>Bounded error texts\<close>

text \<open>
  Go's \<open>utf8.ValidString\<close>: the number of continuation bytes that the first byte asks for, with the
  range of the second byte that rules out overlong forms, surrogates and values above U+10FFFF.
\<close>

definition cont_byte :: "nat \<Rightarrow> nat \<Rightarrow> nat \<Rightarrow> bool" where
  "cont_byte lo hi b \<longleftrightarrow> lo \<le> b \<and> b \<le> hi"

definition rune_rest :: "nat \<Rightarrow> nat list \<Rightarrow> nat list option" where
  "rune_rest b rest =
     (let two = (\<lambda>lo hi. case rest of b1 # r \<Rightarrow> if cont_byte lo hi b1 then Some r else None | _ \<Rightarrow> None);
          three = (\<lambda>lo hi. case rest of b1 # b2 # r \<Rightarrow>
             if cont_byte lo hi b1 \<and> cont_byte 128 191 b2 then Some r else None | _ \<Rightarrow> None);
          four = (\<lambda>lo hi. case rest of b1 # b2 # b3 # r \<Rightarrow>
             if cont_byte lo hi b1 \<and> cont_byte 128 191 b2 \<and> cont_byte 128 191 b3 then Some r else None | _ \<Rightarrow> None)
      in if b < 128 then Some rest
         else if cont_byte 194 223 b then two 128 191
         else if b = 224 then three 160 191
         else if b = 237 then three 128 159
         else if cont_byte 225 239 b then three 128 191
         else if b = 240 then four 144 191
         else if cont_byte 241 243 b then four 128 191
         else if b = 244 then four 128 143
         else None)"

lemma rune_rest_length: "rune_rest b rest = Some r \<Longrightarrow> length r \<le> length rest"
  by (auto simp: rune_rest_def Let_def split: if_splits list.splits)

function (sequential) utf8_bytes_ok :: "nat list \<Rightarrow> bool" where
  "utf8_bytes_ok [] = True"
| "utf8_bytes_ok (b # rest) = (case rune_rest b rest of None \<Rightarrow> False | Some r \<Rightarrow> utf8_bytes_ok r)"
  by pat_completeness auto
termination
  by (relation "measure length") (auto dest: rune_rest_length)

definition ValidString :: "string \<Rightarrow> bool" where
  "ValidString s = utf8_bytes_ok (map of_char s)"

lemma invalid_nonempty: "\<not> ValidString s \<Longrightarrow> s \<noteq> []"
  by (auto simp: ValidString_def)

function trim_invalid :: "string \<Rightarrow> string" where
  "trim_invalid trimmed = (if \<not> ValidString trimmed then trim_invalid (butlast trimmed) else trimmed)"
  by auto
termination
  by (relation "measure length") (auto dest: invalid_nonempty)

declare trim_invalid.simps [simp del]

definition truncateUTF8 :: "string \<Rightarrow> int \<Rightarrow> string" where
  "truncateUTF8 s maxBytes =
     (if maxBytes \<le> 0 \<or> int (length s) \<le> maxBytes then s else trim_invalid (take (nat maxBytes) s))"

end
