(* ===== verification/CtrlFSM.thy ===== *)
theory CtrlFSM
  imports CtrlCommand
begin

text \<open>
  The controller state machine, \<open>pkg/controllerv2/fsm\<close>: the guards of \<open>mutation_guards.go\<close>, the
  handlers of \<open>mutation_handlers.go\<close>, the dispatch of \<open>mutations.go\<close> and the batches of
  \<open>fsm.go\<close>. A handler takes the candidate state and returns it with the outcome. The checksum and
  the store are parameters of \<open>ApplyBatch\<close>: \<open>checksum\<close> returns none when the state cannot be
  encoded, \<open>save\<close> returns the store's error, if any, and the store after the call.
\<close>

section \<open>Guards\<close>

definition nextUpdatedAt :: "Time \<Rightarrow> Time \<Rightarrow> Time" where
  "nextUpdatedAt previous issuedAt = (if issuedAt = 0 then previous else issuedAt)"

definition commandIssuedAt :: "Time \<Rightarrow> Time" where
  "commandIssuedAt issuedAt = (if issuedAt = 0 then 0 else issuedAt)"

text \<open>\<open>before\<close> is the state to fall back to when the candidate \<open>next\<close> is invalid.\<close>

definition validateChanged :: "ClusterState \<Rightarrow> ClusterState \<Rightarrow> Command \<Rightarrow> ClusterState \<times> ApplyResult" where
  "validateChanged next before cmd =
     (let next = next\<lparr>cs_Revision := cs_Revision next + 1,
                      cs_UpdatedAt := nextUpdatedAt (cs_UpdatedAt before) (cm_IssuedAt cmd)\<rparr>
      in case Validate next of
           Some _ \<Rightarrow> (before, reject ReasonInvalidState)
         | None \<Rightarrow> (next, changed))"

definition revision_mismatch :: "ClusterState \<Rightarrow> Command \<Rightarrow> bool" where
  "revision_mismatch current cmd =
     (case cm_ExpectedRevision cmd of None \<Rightarrow> False | Some expected \<Rightarrow> expected \<noteq> cs_Revision current)"

definition handleBootstrapRevisionMismatch :: "ClusterState \<Rightarrow> Command \<Rightarrow> ApplyResult option" where
  "handleBootstrapRevisionMismatch current cmd =
     (if \<not> revision_mismatch current cmd then None
      else case (cm_Assignment cmd, cm_Task cmd) of
          (Some assignment, Some task) \<Rightarrow>
            if rt_Kind task \<noteq> TaskKindBootstrap then Some (reject ReasonExpectedRevisionMismatch)
            else
              let slotID = sa_SlotID assignment
              in case findAssignment (cs_Slots current) slotID of
                   Some existing \<Rightarrow>
                     if equivalentAssignment existing assignment then Some (noop ReasonStaleBootstrapObsolete)
                     else Some (noop ReasonStaleBootstrapObsolete)
                 | None \<Rightarrow>
                     (case findTaskBySlot (cs_Tasks current) slotID of
                        Some existing \<Rightarrow>
                          if equivalentTask existing task then Some (noop ReasonStaleBootstrapObsolete)
                          else Some (noop ReasonStaleBootstrapObsolete)
                      | None \<Rightarrow> Some (reject ReasonStaleBootstrapMissingSlot))
        | _ \<Rightarrow> Some (reject ReasonExpectedRevisionMismatch))"

definition equivalentLeaderTransferTaskIgnoringID :: "ReconcileTask \<Rightarrow> ReconcileTask \<Rightarrow> bool" where
  "equivalentLeaderTransferTaskIgnoringID a b =
     (if rt_Kind a \<noteq> TaskKindLeaderTransfer \<or> rt_Kind b \<noteq> TaskKindLeaderTransfer then False
      else if rt_Status a \<noteq> TaskStatusPending \<or> rt_Status b \<noteq> TaskStatusPending then False
      else equivalentTask (a\<lparr>rt_TaskID := [], rt_ParticipantProgress := []\<rparr>)
             (b\<lparr>rt_TaskID := [], rt_ParticipantProgress := []\<rparr>))"

definition handleLeaderTransferRevisionMismatch :: "ClusterState \<Rightarrow> Command \<Rightarrow> ApplyResult option" where
  "handleLeaderTransferRevisionMismatch current cmd =
     (if \<not> revision_mismatch current cmd then None
      else case (cm_Assignment cmd, cm_Task cmd) of
          (Some wanted, Some task) \<Rightarrow>
            if rt_Kind task \<noteq> TaskKindLeaderTransfer then Some (reject ReasonExpectedRevisionMismatch)
            else (case findAssignment (cs_Slots current) (sa_SlotID wanted) of
                None \<Rightarrow> Some (reject ReasonExpectedRevisionMismatch)
              | Some assignment \<Rightarrow>
                  if \<not> equivalentAssignment assignment wanted then Some (reject ReasonExpectedRevisionMismatch)
                  else (case findTaskBySlot (cs_Tasks current) (rt_SlotID task) of
                      None \<Rightarrow> Some (reject ReasonExpectedRevisionMismatch)
                    | Some existing \<Rightarrow>
                        if \<not> equivalentLeaderTransferTaskIgnoringID existing task
                        then Some (reject ReasonExpectedRevisionMismatch)
                        else Some (noop ReasonNoChange)))
        | _ \<Rightarrow> Some (reject ReasonExpectedRevisionMismatch))"

definition handleFailTaskRevisionMismatch :: "ClusterState \<Rightarrow> Command \<Rightarrow> ApplyResult option" where
  "handleFailTaskRevisionMismatch current cmd =
     (if \<not> revision_mismatch current cmd then None
      else case cm_TaskResult cmd of
          None \<Rightarrow> Some (reject ReasonInvalidTaskResult)
        | Some result \<Rightarrow>
            if tr_TaskID result = [] then Some (reject ReasonInvalidTaskResult)
            else if findTaskByID (cs_Tasks current) (tr_TaskID result) = None then Some (noop ReasonTaskMissing)
            else Some (reject ReasonExpectedRevisionMismatch))"

definition handleTaskProgressRevisionMismatch :: "ClusterState \<Rightarrow> Command \<Rightarrow> ApplyResult option" where
  "handleTaskProgressRevisionMismatch current cmd =
     (if \<not> revision_mismatch current cmd then None
      else case cm_TaskProgress cmd of
          None \<Rightarrow> Some (reject ReasonInvalidTaskResult)
        | Some progress \<Rightarrow>
            if pr_TaskID progress = [] then Some (reject ReasonInvalidTaskResult)
            else if findTaskByID (cs_Tasks current) (pr_TaskID progress) = None then Some (noop ReasonTaskMissing)
            else Some (reject ReasonExpectedRevisionMismatch))"

text \<open>
  Lists stand for nil and for empty slices alike. The code compares the voters with \<open>reflect.DeepEqual\<close>, which tells the two apart; they
  differ only while no voter is known, before the cluster is initialised, where a command without voters is a no-op here and rejected there.
\<close>

definition isNonBootstrapIdempotent :: "ClusterState \<Rightarrow> Command \<Rightarrow> bool" where
  "isNonBootstrapIdempotent current cmd =
     (if cm_Kind cmd = KindUpsertNode then
        (case cm_Node cmd of
           None \<Rightarrow> False
         | Some node \<Rightarrow>
             (case findNode (cs_Nodes current) (nd_NodeID node) of
                None \<Rightarrow> False
              | Some idx \<Rightarrow> equivalentNode (cs_Nodes current ! idx) node))
      else if cm_Kind cmd = KindUpdateControllerVoters then
        (let candidate = Normalize (current\<lparr>cs_Controllers := cm_Controllers cmd\<rparr>)
         in cs_Controllers current = cs_Controllers candidate)
      else if cm_Kind cmd = KindReplaceHashSlotTable then
        (case cm_HashSlots cmd of None \<Rightarrow> False | Some table \<Rightarrow> cs_HashSlots current = table)
      else if cm_Kind cmd = KindCompleteTask then
        (case cm_TaskResult cmd of
           None \<Rightarrow> False
         | Some result \<Rightarrow> tr_TaskID result \<noteq> [] \<and> findTaskByID (cs_Tasks current) (tr_TaskID result) = None)
      else False)"

section \<open>Handlers\<close>

definition initialStateFromCommand :: "InitClusterState \<Rightarrow> Time \<Rightarrow> u64 \<Rightarrow> StateErr + ClusterState" where
  "initialStateFromCommand init issuedAt raftIndex =
     (case BuildInitialHashSlotTable (cc_SlotCount (ic_Config init)) (cc_HashSlotCount (ic_Config init)) of
        Inl e \<Rightarrow> Inl e
      | Inr table \<Rightarrow>
          let st = Normalize \<lparr>cs_SchemaVersion = CurrentSchemaVersion, cs_ClusterID = ic_ClusterID init,
                 cs_Revision = 1, cs_AppliedRaftIndex = raftIndex, cs_UpdatedAt = commandIssuedAt issuedAt,
                 cs_Config = ic_Config init, cs_Controllers = ic_Controllers init, cs_Nodes = ic_Nodes init,
                 cs_Slots = [], cs_HashSlots = table, cs_Tasks = [], cs_Checksum = []\<rparr>
          in case Validate st of Some e \<Rightarrow> Inl e | None \<Rightarrow> Inr st)"

definition applyInit :: "ClusterState \<Rightarrow> u64 \<Rightarrow> Command \<Rightarrow> ClusterState \<times> ApplyResult" where
  "applyInit next raftIndex cmd =
     (case cm_Init cmd of
        None \<Rightarrow> (next, reject ReasonInvalidCommand)
      | Some init \<Rightarrow>
          (case initialStateFromCommand init (cm_IssuedAt cmd) raftIndex of
             Inl e \<Rightarrow> (next, reject ReasonInvalidState)
           | Inr initial \<Rightarrow>
               if cs_Revision next = 0 then (initial, changed)
               else if equivalentInit next initial then (next, noop ReasonNoChange)
               else (next, reject ReasonInitConflict)))"

definition applyUpsertNode :: "ClusterState \<Rightarrow> Command \<Rightarrow> ClusterState \<times> ApplyResult" where
  "applyUpsertNode next cmd =
     (case cm_Node cmd of
        None \<Rightarrow> (next, reject ReasonInvalidCommand)
      | Some node \<Rightarrow>
          if cs_Revision next = 0 then (next, reject ReasonInvalidCommand)
          else
            let before = next; next = Normalize (upsertNode next node)
            in if cs_Nodes before = cs_Nodes next then (next, noop ReasonNoChange)
               else validateChanged next before cmd)"

definition applyUpdateControllerVoters :: "ClusterState \<Rightarrow> Command \<Rightarrow> ClusterState \<times> ApplyResult" where
  "applyUpdateControllerVoters next cmd =
     (if cs_Revision next = 0 then (next, reject ReasonInvalidCommand)
      else
        let before = next; next = Normalize (next\<lparr>cs_Controllers := cm_Controllers cmd\<rparr>)
        in if cs_Controllers before = cs_Controllers next then (next, noop ReasonNoChange)
           else validateChanged next before cmd)"

definition applyReplaceHashSlotTable :: "ClusterState \<Rightarrow> Command \<Rightarrow> ClusterState \<times> ApplyResult" where
  "applyReplaceHashSlotTable next cmd =
     (case cm_HashSlots cmd of
        None \<Rightarrow> (next, reject ReasonInvalidCommand)
      | Some table \<Rightarrow>
          if cs_Revision next = 0 then (next, reject ReasonInvalidCommand)
          else
            let before = next; next = Normalize (next\<lparr>cs_HashSlots := table\<rparr>)
            in if cs_HashSlots before = cs_HashSlots next then (next, noop ReasonNoChange)
               else validateChanged next before cmd)"

definition applyUpsertSlotAssignmentAndTask :: "ClusterState \<Rightarrow> Command \<Rightarrow> ClusterState \<times> ApplyResult" where
  "applyUpsertSlotAssignmentAndTask next cmd =
     (case (cm_Assignment cmd, cm_Task cmd) of
        (Some assignment, Some task) \<Rightarrow>
          if cs_Revision next = 0 then (next, reject ReasonInvalidCommand)
          else if rt_SlotID task \<noteq> sa_SlotID assignment then (next, reject ReasonTaskSlotMismatch)
          else
            let before = next; next = Normalize (upsertTask (upsertAssignment next assignment) task)
            in if cs_Slots before = cs_Slots next \<and> cs_Tasks before = cs_Tasks next
               then (next, noop ReasonNoChange)
               else validateChanged next before cmd
      | _ \<Rightarrow> (next, reject ReasonInvalidCommand))"

definition applyUpsertSlotReplicaMoveTask :: "ClusterState \<Rightarrow> Command \<Rightarrow> ClusterState \<times> ApplyResult" where
  "applyUpsertSlotReplicaMoveTask next cmd =
     (case cm_Task cmd of
        None \<Rightarrow> (next, reject ReasonInvalidCommand)
      | Some task \<Rightarrow>
          if cs_Revision next = 0 \<or> rt_Kind task \<noteq> TaskKindSlotReplicaMove then (next, reject ReasonInvalidCommand)
          else
            let before = next; next = Normalize (upsertTask next task)
            in if cs_Tasks before = cs_Tasks next then (next, noop ReasonNoChange)
               else validateChanged next before cmd)"

definition sourcePeersForSlotReplicaMove :: "ReconcileTask \<Rightarrow> u64 list" where
  "sourcePeersForSlotReplicaMove task =
     fsm_replacePeer (rt_TargetPeers task) (rt_TargetNode task) (rt_SourceNode task)"

text \<open>The reason for refusing a phase, or the empty string.\<close>

definition validateSlotReplicaMovePhaseAdvance :: "ReconcileTask \<Rightarrow> SlotReplicaMovePhaseAdvance \<Rightarrow> string" where
  "validateSlotReplicaMovePhaseAdvance task phase =
     (if rt_Step task = TaskStepOpenLearner then
        (if pa_NextStep phase \<noteq> TaskStepAddLearner then ReasonTaskStepMismatch else [])
      else if rt_Step task = TaskStepAddLearner then
        (if pa_NextStep phase \<noteq> TaskStepPromoteLearner \<and> pa_NextStep phase \<noteq> TaskStepRemoveVoter
         then ReasonTaskStepMismatch
         else if pa_ObservedConfigIndex phase = 0 then ReasonTaskObservedConfigMissing
         else if pa_NextStep phase = TaskStepPromoteLearner then
           (if \<not> sameUint64Set (pa_ObservedVoters phase) (sourcePeersForSlotReplicaMove task)
            then ReasonTaskObservedVotersMismatch
            else if \<not> containsUint64 (pa_ObservedLearners phase) (rt_TargetNode task)
            then ReasonTaskObservedLearnersMismatch
            else [])
         else if \<not> containsUint64 (pa_ObservedVoters phase) (rt_TargetNode task)
         then ReasonTaskObservedVotersMismatch
         else [])
      else if rt_Step task = TaskStepPromoteLearner then
        (if pa_NextStep phase \<noteq> TaskStepRemoveVoter then ReasonTaskStepMismatch
         else if pa_ObservedConfigIndex phase = 0 then ReasonTaskObservedConfigMissing
         else if \<not> containsUint64 (pa_ObservedVoters phase) (rt_TargetNode task)
         then ReasonTaskObservedVotersMismatch
         else [])
      else if rt_Step task = TaskStepRemoveVoter then
        (if pa_NextStep phase \<noteq> TaskStepRemoveVoter \<and> pa_NextStep phase \<noteq> TaskStepCommitAssignment
         then ReasonTaskStepMismatch
         else if pa_ObservedConfigIndex phase = 0 then ReasonTaskObservedConfigMissing
         else if pa_NextStep phase = TaskStepCommitAssignment then
           (if \<not> sameUint64Set (pa_ObservedVoters phase) (rt_TargetPeers task)
            then ReasonTaskObservedVotersMismatch else [])
         else if \<not> containsUint64 (pa_ObservedVoters phase) (rt_SourceNode task)
           \<or> \<not> containsUint64 (pa_ObservedVoters phase) (rt_TargetNode task)
         then ReasonTaskObservedVotersMismatch
         else [])
      else ReasonTaskStepMismatch)"

definition advance_task :: "SlotReplicaMovePhaseAdvance \<Rightarrow> ReconcileTask \<Rightarrow> ReconcileTask" where
  "advance_task phase task = task\<lparr>rt_Step := pa_NextStep phase, rt_PhaseIndex := rt_PhaseIndex task + 1,
     rt_ObservedConfigIndex := pa_ObservedConfigIndex phase, rt_ObservedVoters := pa_ObservedVoters phase,
     rt_ObservedLearners := pa_ObservedLearners phase\<rparr>"

definition applyAdvanceSlotReplicaMovePhase :: "ClusterState \<Rightarrow> Command \<Rightarrow> ClusterState \<times> ApplyResult" where
  "applyAdvanceSlotReplicaMovePhase next cmd =
     (case cm_SlotReplicaMovePhase cmd of
        None \<Rightarrow> (next, reject ReasonInvalidTaskResult)
      | Some phase \<Rightarrow>
          if cs_Revision next = 0 \<or> pa_TaskID phase = [] \<or> pa_SlotID phase = 0 \<or> pa_ConfigEpoch phase = 0
            \<or> pa_NextStep phase = [] then (next, reject ReasonInvalidTaskResult)
          else (case findTaskByID (cs_Tasks next) (pa_TaskID phase) of
              None \<Rightarrow> (next, noop ReasonTaskMissing)
            | Some idx \<Rightarrow>
                let task = cs_Tasks next ! idx;
                    reason = validateSlotReplicaMovePhaseAdvance task phase
                in if rt_SlotID task \<noteq> pa_SlotID phase then (next, reject ReasonTaskSlotMismatch)
                   else if rt_Kind task \<noteq> TaskKindSlotReplicaMove then (next, noop ReasonTaskKindMismatch)
                   else if rt_ConfigEpoch task \<noteq> pa_ConfigEpoch phase then (next, noop ReasonTaskEpochMismatch)
                   else if rt_Attempt task \<noteq> pa_Attempt phase then (next, noop ReasonTaskAttemptMismatch)
                   else if rt_PhaseIndex task \<noteq> pa_ExpectedPhaseIndex phase then (next, reject ReasonTaskPhaseMismatch)
                   else if reason \<noteq> [] then (next, reject reason)
                   else validateChanged
                     (Normalize (next\<lparr>cs_Tasks := (cs_Tasks next)[idx := advance_task phase task]\<rparr>)) next cmd))"

definition committed_assignment :: "ReconcileTask \<Rightarrow> SlotAssignment \<Rightarrow> SlotAssignment" where
  "committed_assignment task assignment =
     (let a = assignment\<lparr>sa_DesiredPeers := rt_TargetPeers task, sa_ConfigEpoch := sa_ConfigEpoch assignment + 1\<rparr>
      in if \<not> containsUint64 (sa_DesiredPeers a) (sa_PreferredLeader a)
         then a\<lparr>sa_PreferredLeader := rt_TargetNode task\<rparr> else a)"

definition applyCommitSlotReplicaMove :: "ClusterState \<Rightarrow> Command \<Rightarrow> ClusterState \<times> ApplyResult" where
  "applyCommitSlotReplicaMove next cmd =
     (case cm_SlotReplicaMoveCommit cmd of
        None \<Rightarrow> (next, reject ReasonInvalidTaskResult)
      | Some commit \<Rightarrow>
          if cs_Revision next = 0 \<or> mc_TaskID commit = [] \<or> mc_SlotID commit = 0 \<or> mc_ConfigEpoch commit = 0
          then (next, reject ReasonInvalidTaskResult)
          else (case findTaskByID (cs_Tasks next) (mc_TaskID commit) of
              None \<Rightarrow> (next, noop ReasonTaskMissing)
            | Some idx \<Rightarrow>
                let task = cs_Tasks next ! idx
                in if rt_SlotID task \<noteq> mc_SlotID commit then (next, reject ReasonTaskSlotMismatch)
                   else if rt_Kind task \<noteq> TaskKindSlotReplicaMove then (next, noop ReasonTaskKindMismatch)
                   else if rt_ConfigEpoch task \<noteq> mc_ConfigEpoch commit then (next, noop ReasonTaskEpochMismatch)
                   else if rt_Attempt task \<noteq> mc_Attempt commit then (next, noop ReasonTaskAttemptMismatch)
                   else if rt_Step task \<noteq> TaskStepCommitAssignment then (next, reject ReasonTaskStepMismatch)
                   else if mc_ObservedConfigIndex commit = 0 then (next, reject ReasonTaskObservedConfigMissing)
                   else if \<not> sameUint64Set (mc_ObservedVoters commit) (rt_TargetPeers task)
                   then (next, reject ReasonTaskObservedVotersMismatch)
                   else if rt_ObservedConfigIndex task = 0 then (next, reject ReasonTaskObservedConfigMissing)
                   else if \<not> sameUint64Set (rt_ObservedVoters task) (rt_TargetPeers task)
                   then (next, reject ReasonTaskObservedVotersMismatch)
                   else (case find_index (\<lambda>a. sa_SlotID a = rt_SlotID task) (cs_Slots next) of
                       None \<Rightarrow> (next, reject ReasonInvalidState)
                     | Some assignmentIdx \<Rightarrow>
                         let assignment = cs_Slots next ! assignmentIdx
                         in if sa_ConfigEpoch assignment \<noteq> rt_ConfigEpoch task
                            then (next, reject ReasonTaskEpochMismatch)
                            else if \<not> containsUint64 (sa_DesiredPeers assignment) (rt_SourceNode task)
                              \<or> containsUint64 (sa_DesiredPeers assignment) (rt_TargetNode task)
                            then (next, reject ReasonInvalidState)
                            else if \<not> sameUint64Set (rt_TargetPeers task)
                              (fsm_replacePeer (sa_DesiredPeers assignment) (rt_SourceNode task) (rt_TargetNode task))
                            then (next, reject ReasonInvalidState)
                            else validateChanged
                              (Normalize (next\<lparr>cs_Slots := (cs_Slots next)[assignmentIdx := committed_assignment task assignment],
                                 cs_Tasks := remove_nth idx (cs_Tasks next)\<rparr>)) next cmd)))"

text \<open>The guards on a report, which return the zero result when the report may be applied.\<close>

definition taskResultGuard :: "ReconcileTask \<Rightarrow> TaskResult \<Rightarrow> ApplyResult" where
  "taskResultGuard task result =
     (if tr_TaskID result = [] \<or> tr_SlotID result = 0 \<or> tr_TaskKind result = [] \<or> tr_ConfigEpoch result = 0
      then reject ReasonInvalidTaskResult
      else if tr_SlotID result \<noteq> rt_SlotID task then reject ReasonTaskSlotMismatch
      else if tr_TaskKind result \<noteq> rt_Kind task then noop ReasonTaskKindMismatch
      else if tr_ConfigEpoch result \<noteq> rt_ConfigEpoch task then noop ReasonTaskEpochMismatch
      else if tr_Attempt result \<noteq> rt_Attempt task then noop ReasonTaskAttemptMismatch
      else zero_result)"

definition taskProgressGuard :: "ReconcileTask \<Rightarrow> TaskProgress \<Rightarrow> ApplyResult" where
  "taskProgressGuard task progress =
     (if pr_TaskID progress = [] \<or> pr_SlotID progress = 0 \<or> pr_TaskKind progress = [] \<or> pr_ConfigEpoch progress = 0
        \<or> pr_ParticipantNodeID progress = 0
      then reject ReasonInvalidTaskResult
      else if pr_SlotID progress \<noteq> rt_SlotID task then reject ReasonTaskSlotMismatch
      else if pr_TaskKind progress \<noteq> rt_Kind task then noop ReasonTaskKindMismatch
      else if pr_ConfigEpoch progress \<noteq> rt_ConfigEpoch task then noop ReasonTaskEpochMismatch
      else if pr_TaskAttempt progress \<noteq> rt_Attempt task then noop ReasonTaskAttemptMismatch
      else if pr_Status progress = ParticipantPending \<or> pr_Status progress = ParticipantDone
        \<or> pr_Status progress = ParticipantFailed
      then zero_result
      else reject ReasonInvalidTaskResult)"

definition applyCompleteTask :: "ClusterState \<Rightarrow> Command \<Rightarrow> ClusterState \<times> ApplyResult" where
  "applyCompleteTask next cmd =
     (case cm_TaskResult cmd of
        None \<Rightarrow> (next, reject ReasonInvalidTaskResult)
      | Some result \<Rightarrow>
          if cs_Revision next = 0 \<or> tr_TaskID result = [] then (next, reject ReasonInvalidTaskResult)
          else (case findTaskByID (cs_Tasks next) (tr_TaskID result) of
              None \<Rightarrow> (next, noop ReasonTaskMissing)
            | Some idx \<Rightarrow>
                let guard = taskResultGuard (cs_Tasks next ! idx) result
                in if guard \<noteq> zero_result then (next, guard)
                   else validateChanged (Normalize (next\<lparr>cs_Tasks := remove_nth idx (cs_Tasks next)\<rparr>)) next cmd))"

definition failed_task :: "string \<Rightarrow> ReconcileTask \<Rightarrow> ReconcileTask" where
  "failed_task err task =
     (let t = task\<lparr>rt_Status := TaskStatusFailed, rt_Attempt := rt_Attempt task + 1,
                   rt_LastError := truncateUTF8 err MaxTaskLastErrorBytes\<rparr>
      in if rt_CompletionPolicy t = PolicyAllTargetPeers
         then t\<lparr>rt_ParticipantProgress := map pending_progress (rt_TargetPeers t)\<rparr> else t)"

definition applyFailTask :: "ClusterState \<Rightarrow> Command \<Rightarrow> ClusterState \<times> ApplyResult" where
  "applyFailTask next cmd =
     (case cm_TaskResult cmd of
        None \<Rightarrow> (next, reject ReasonInvalidTaskResult)
      | Some result \<Rightarrow>
          if cs_Revision next = 0 \<or> tr_TaskID result = [] then (next, reject ReasonInvalidTaskResult)
          else (case findTaskByID (cs_Tasks next) (tr_TaskID result) of
              None \<Rightarrow> (next, noop ReasonTaskMissing)
            | Some idx \<Rightarrow>
                let task = cs_Tasks next ! idx; guard = taskResultGuard task result
                in if guard \<noteq> zero_result then (next, guard)
                   else validateChanged
                     (Normalize (next\<lparr>cs_Tasks := (cs_Tasks next)[idx := failed_task (tr_Err result) task]\<rparr>)) next cmd))"

definition report_participant :: "TaskProgress \<Rightarrow> TaskParticipantProgress \<Rightarrow> TaskParticipantProgress" where
  "report_participant progress p =
     (let p = p\<lparr>tp_Status := pr_Status progress, tp_Attempt := pr_ParticipantAttempt progress, tp_LastError := []\<rparr>
      in if pr_Status progress = ParticipantFailed
         then p\<lparr>tp_Attempt := tp_Attempt p + 1, tp_LastError := truncateUTF8 (pr_Err progress) MaxTaskLastErrorBytes\<rparr>
         else p)"

definition report_task :: "TaskProgress \<Rightarrow> nat \<Rightarrow> ReconcileTask \<Rightarrow> ReconcileTask" where
  "report_task progress i task =
     (let ps = rt_ParticipantProgress task;
          task = task\<lparr>rt_ParticipantProgress := ps[i := report_participant progress (ps ! i)]\<rparr>
      in if pr_Status progress = ParticipantFailed then task\<lparr>rt_Status := TaskStatusFailed\<rparr> else task)"

definition applyReportTaskProgress :: "ClusterState \<Rightarrow> Command \<Rightarrow> ClusterState \<times> ApplyResult" where
  "applyReportTaskProgress next cmd =
     (case cm_TaskProgress cmd of
        None \<Rightarrow> (next, reject ReasonInvalidTaskResult)
      | Some progress \<Rightarrow>
          if cs_Revision next = 0 \<or> pr_TaskID progress = [] then (next, reject ReasonInvalidTaskResult)
          else (case findTaskByID (cs_Tasks next) (pr_TaskID progress) of
              None \<Rightarrow> (next, noop ReasonTaskMissing)
            | Some idx \<Rightarrow>
                let task = cs_Tasks next ! idx; guard = taskProgressGuard task progress
                in if guard \<noteq> zero_result then (next, guard)
                   else (case findParticipant (rt_ParticipantProgress task) (pr_ParticipantNodeID progress) of
                       None \<Rightarrow> (next, reject ReasonTaskParticipantUnexpected)
                     | Some i \<Rightarrow>
                         if pr_ParticipantAttempt progress < tp_Attempt (rt_ParticipantProgress task ! i)
                         then (next, noop ReasonTaskParticipantAttemptStale)
                         else
                           let before = next;
                               next = Normalize (next\<lparr>cs_Tasks := (cs_Tasks next)[idx := report_task progress i task]\<rparr>)
                           in if cs_Tasks before = cs_Tasks next then (next, noop ReasonNoChange)
                              else validateChanged next before cmd)))"

section \<open>Dispatch\<close>

text \<open>
  The first switch of \<open>applyMutation\<close>: the outcome that settles the command before its handler runs,
  if any.
\<close>

definition mutation_guard :: "ClusterState \<Rightarrow> Command \<Rightarrow> ApplyResult option" where
  "mutation_guard next cmd =
     (if cm_Kind cmd = KindUpsertSlotAssignmentAndTask then
        (case (cm_Assignment cmd, cm_Task cmd) of
           (Some assignment, Some task) \<Rightarrow>
             if rt_SlotID task \<noteq> sa_SlotID assignment then Some (reject ReasonTaskSlotMismatch)
             else if rt_Kind task = TaskKindBootstrap then handleBootstrapRevisionMismatch next cmd
             else if rt_Kind task = TaskKindLeaderTransfer then handleLeaderTransferRevisionMismatch next cmd
             else if revision_mismatch next cmd then Some (reject ReasonExpectedRevisionMismatch)
             else None
         | _ \<Rightarrow> Some (reject ReasonInvalidCommand))
      else if cm_Kind cmd = KindUpsertSlotReplicaMoveTask then
        (case cm_Task cmd of
           None \<Rightarrow> Some (reject ReasonInvalidCommand)
         | Some task \<Rightarrow>
             if rt_Kind task \<noteq> TaskKindSlotReplicaMove then Some (reject ReasonInvalidCommand)
             else if revision_mismatch next cmd then Some (reject ReasonExpectedRevisionMismatch)
             else None)
      else if cm_Kind cmd = KindFailTask then handleFailTaskRevisionMismatch next cmd
      else if cm_Kind cmd = KindReportTaskProgress then handleTaskProgressRevisionMismatch next cmd
      else if revision_mismatch next cmd then
        (if isNonBootstrapIdempotent next cmd then Some (noop ReasonNoChange)
         else Some (reject ReasonExpectedRevisionMismatch))
      else None)"

text \<open>The second switch, which runs the handler.\<close>

definition mutation_handler :: "ClusterState \<Rightarrow> Command \<Rightarrow> ClusterState \<times> ApplyResult" where
  "mutation_handler next cmd =
     (if cm_Kind cmd = KindUpsertNode then applyUpsertNode next cmd
      else if cm_Kind cmd = KindUpdateControllerVoters then applyUpdateControllerVoters next cmd
      else if cm_Kind cmd = KindReplaceHashSlotTable then applyReplaceHashSlotTable next cmd
      else if cm_Kind cmd = KindUpsertSlotAssignmentAndTask then applyUpsertSlotAssignmentAndTask next cmd
      else if cm_Kind cmd = KindUpsertSlotReplicaMoveTask then applyUpsertSlotReplicaMoveTask next cmd
      else if cm_Kind cmd = KindAdvanceSlotReplicaMovePhase then applyAdvanceSlotReplicaMovePhase next cmd
      else if cm_Kind cmd = KindCommitSlotReplicaMove then applyCommitSlotReplicaMove next cmd
      else if cm_Kind cmd = KindCompleteTask then applyCompleteTask next cmd
      else if cm_Kind cmd = KindFailTask then applyFailTask next cmd
      else if cm_Kind cmd = KindReportTaskProgress then applyReportTaskProgress next cmd
      else (next, reject ReasonInvalidCommand))"

definition applyMutation :: "ClusterState \<Rightarrow> u64 \<Rightarrow> Command \<Rightarrow> ClusterState \<times> ApplyResult" where
  "applyMutation next raftIndex cmd =
     (if cm_Kind cmd = KindInitClusterState then applyInit next raftIndex cmd
      else case mutation_guard next cmd of
          Some result \<Rightarrow> (next, result)
        | None \<Rightarrow> mutation_handler next cmd)"

section \<open>The machine\<close>

record AppliedCommand =
  ac_Index :: u64
  ac_Term :: u64
  ac_Command :: Command

record StateMachine =
  sm_state :: ClusterState
  sm_degraded :: bool

datatype FsmErr = FsmChecksumErr | FsmStoreErr string

record BatchApplyResult =
  br_Results :: "ApplyResult list"
  br_FinalState :: ClusterState

definition New :: StateMachine where
  "New = \<lparr>sm_state = zero_state, sm_degraded = False\<rparr>"

text \<open>One round of the loop of \<open>ApplyBatch\<close>; \<open>current\<close> is the state before the batch.\<close>

definition apply_entry :: "ClusterState \<Rightarrow> ClusterState \<Rightarrow> AppliedCommand \<Rightarrow> ClusterState \<times> ApplyResult" where
  "apply_entry current next entry =
     (if cs_Revision current \<noteq> 0 \<and> ac_Index entry \<le> cs_AppliedRaftIndex next
      then (next, (noop ReasonAlreadyApplied)\<lparr>ar_Revision := cs_Revision next,
                    ar_AppliedRaftIndex := cs_AppliedRaftIndex next\<rparr>)
      else
        let (next, result) = applyMutation next (ac_Index entry) (ac_Command entry);
            next = (if cs_Revision next \<noteq> 0 \<and> ac_Index entry > cs_AppliedRaftIndex next
                    then next\<lparr>cs_AppliedRaftIndex := ac_Index entry\<rparr> else next);
            result = result\<lparr>ar_Revision := cs_Revision next, ar_AppliedRaftIndex := cs_AppliedRaftIndex next\<rparr>;
            result = (if cs_Revision next = 0 \<and> ar_Rejected result
                      then result\<lparr>ar_AppliedRaftIndex := ac_Index entry\<rparr> else result)
        in (next, result))"

fun apply_entries ::
  "ClusterState \<Rightarrow> ClusterState \<Rightarrow> AppliedCommand list \<Rightarrow> ClusterState \<times> ApplyResult list" where
  "apply_entries current next [] = (next, [])"
| "apply_entries current next (entry # entries) =
     (let (next, result) = apply_entry current next entry;
          (next, results) = apply_entries current next entries
      in (next, result # results))"

definition ApplyBatch ::
  "(ClusterState \<Rightarrow> string option) \<Rightarrow> ('d \<Rightarrow> ClusterState \<Rightarrow> string option \<times> 'd)
    \<Rightarrow> StateMachine \<Rightarrow> 'd \<Rightarrow> AppliedCommand list
    \<Rightarrow> StateMachine \<times> 'd \<times> BatchApplyResult \<times> FsmErr option" where
  "ApplyBatch checksum save sm d entries =
     (let current = sm_state sm;
          (next, results) = apply_entries current current entries;
          out = \<lparr>br_Results = results, br_FinalState = zero_state\<rparr>
      in if cs_Revision next = 0 then (sm, d, out\<lparr>br_FinalState := next\<rparr>, None)
         else case checksum next of
             None \<Rightarrow> (sm\<lparr>sm_degraded := True\<rparr>, d, out, Some FsmChecksumErr)
           | Some c \<Rightarrow>
               let next = next\<lparr>cs_Checksum := c\<rparr>
               in (case save d next of
                     (Some e, d) \<Rightarrow> (sm\<lparr>sm_degraded := True\<rparr>, d, out, Some (FsmStoreErr e))
                   | (None, d) \<Rightarrow> (\<lparr>sm_state = next, sm_degraded = False\<rparr>, d, out\<lparr>br_FinalState := next\<rparr>, None)))"

definition Apply ::
  "(ClusterState \<Rightarrow> string option) \<Rightarrow> ('d \<Rightarrow> ClusterState \<Rightarrow> string option \<times> 'd)
    \<Rightarrow> StateMachine \<Rightarrow> 'd \<Rightarrow> u64 \<Rightarrow> Command \<Rightarrow> StateMachine \<times> 'd \<times> ApplyResult \<times> FsmErr option" where
  "Apply checksum save sm d raftIndex cmd =
     (let (sm, d, result, err) =
            ApplyBatch checksum save sm d [\<lparr>ac_Index = raftIndex, ac_Term = 0, ac_Command = cmd\<rparr>];
          first = (if length (br_Results result) > 0 then br_Results result ! 0 else zero_result)
      in (sm, d, first, err))"

definition Snapshot :: "StateMachine \<Rightarrow> ClusterState" where
  "Snapshot sm = sm_state sm"

definition IsDegraded :: "StateMachine \<Rightarrow> bool" where
  "IsDegraded sm = sm_degraded sm"

definition Reset :: "StateMachine \<Rightarrow> StateMachine" where
  "Reset sm = \<lparr>sm_state = zero_state, sm_degraded = False\<rparr>"

text \<open>\<open>Load\<close> takes what the store returned: nothing stored, an error, or a state.\<close>

datatype LoadResult = NotExist | LoadErr string | Loaded ClusterState

definition Load :: "StateMachine \<Rightarrow> LoadResult \<Rightarrow> StateMachine \<times> string option" where
  "Load sm loaded =
     (case loaded of
        NotExist \<Rightarrow> (\<lparr>sm_state = zero_state, sm_degraded = False\<rparr>, None)
      | LoadErr e \<Rightarrow> (sm\<lparr>sm_degraded := True\<rparr>, Some e)
      | Loaded st \<Rightarrow> (\<lparr>sm_state = st, sm_degraded = False\<rparr>, None))"

definition Restore ::
  "(ClusterState \<Rightarrow> string option) \<Rightarrow> ('d \<Rightarrow> ClusterState \<Rightarrow> string option \<times> 'd)
    \<Rightarrow> StateMachine \<Rightarrow> 'd \<Rightarrow> ClusterState \<Rightarrow> StateMachine \<times> 'd \<times> FsmErr option" where
  "Restore checksum save sm d st =
     (if cs_Revision st \<noteq> 0 then
        (case checksum st of
           None \<Rightarrow> (sm\<lparr>sm_degraded := True\<rparr>, d, Some FsmChecksumErr)
         | Some c \<Rightarrow>
             let next = st\<lparr>cs_Checksum := c\<rparr>
             in (case save d next of
                   (Some e, d) \<Rightarrow> (sm\<lparr>sm_degraded := True\<rparr>, d, Some (FsmStoreErr e))
                 | (None, d) \<Rightarrow> (\<lparr>sm_state = next, sm_degraded = False\<rparr>, d, None)))
      else (\<lparr>sm_state = st, sm_degraded = False\<rparr>, d, None))"

end
