(* ===== verification/CtrlFSMSafety.thy ===== *)
theory CtrlFSMSafety
  imports CtrlStateSafety CtrlFSM
begin

text \<open>
  Correctness of the controller state machine: every command leaves the state valid and either changes
  it to exactly the next revision or leaves it alone, batches act as the single commands do, and a store
  that fails never lets an unsaved state out.
\<close>

section \<open>Outcomes\<close>

definition ctrl_inv :: "ClusterState \<Rightarrow> bool" where
  "ctrl_inv s \<longleftrightarrow> cs_Revision s = 0 \<or> (Normalize s = s \<and> Validate s = None)"

text \<open>
  What a handler may do: nothing, with a reason, or move to a valid state in normal form that is one
  revision on and keeps the identity of the cluster.
\<close>

definition fsm_outcome :: "ClusterState \<Rightarrow> ClusterState \<times> ApplyResult \<Rightarrow> bool" where
  "fsm_outcome s = (\<lambda>(s', r).
     (s' = s \<and> (\<exists>reason. r = noop reason \<or> r = reject reason))
     \<or> (r = changed \<and> Validate s' = None \<and> Normalize s' = s' \<and> cs_Revision s' = cs_Revision s + 1
        \<and> (cs_Revision s \<noteq> 0 \<longrightarrow> cs_ClusterID s' = cs_ClusterID s \<and> cs_Config s' = cs_Config s
            \<and> cs_AppliedRaftIndex s' = cs_AppliedRaftIndex s)))"

lemma outcome_noop [simp]: "fsm_outcome s (s, noop reason)" and outcome_reject [simp]: "fsm_outcome s (s, reject reason)"
  by (auto simp: fsm_outcome_def)

lemma flags [simp]:
  "ar_Changed changed" "\<not> ar_Noop changed" "\<not> ar_Rejected changed"
  "\<not> ar_Changed (noop x)" "ar_Noop (noop x)" "\<not> ar_Rejected (noop x)" "ar_Reason (noop x) = x"
  "\<not> ar_Changed (reject x)" "\<not> ar_Noop (reject x)" "ar_Rejected (reject x)" "ar_Reason (reject x) = x"
  by (simp_all add: changed_def noop_def reject_def zero_result_def)

lemma Normalize_revision [simp]:
  "Normalize (s\<lparr>cs_Revision := r, cs_UpdatedAt := u\<rparr>) = (Normalize s)\<lparr>cs_Revision := r, cs_UpdatedAt := u\<rparr>"
  by (simp add: Normalize_def)

lemma validateChanged_cases:
  assumes "validateChanged (Normalize n) s cmd = (s', r)"
  obtains "s' = s" "r = reject ReasonInvalidState"
  | "r = changed" "Validate s' = None" "Normalize s' = s'"
    "s' = (Normalize n)\<lparr>cs_Revision := cs_Revision n + 1, cs_UpdatedAt := nextUpdatedAt (cs_UpdatedAt s) (cm_IssuedAt cmd)\<rparr>"
  using assms by (auto simp: validateChanged_def Let_def Normalize_idem split: option.splits)

lemma validateChanged_outcome:
  assumes "cs_Revision n = cs_Revision s" "cs_ClusterID n = cs_ClusterID s" "cs_Config n = cs_Config s"
    "cs_AppliedRaftIndex n = cs_AppliedRaftIndex s"
  shows "fsm_outcome s (validateChanged (Normalize n) s cmd)"
proof (cases "validateChanged (Normalize n) s cmd")
  case (Pair s' r)
  then show ?thesis using assms by (elim validateChanged_cases) (auto simp: fsm_outcome_def Pair)
qed

text \<open>A handler that compares its part of the state with the normal form after the update.\<close>

lemma compare_Nodes:
  assumes "Normalize s = s"
  shows "fsm_outcome s (if cs_Nodes s = cs_Nodes (Normalize (s\<lparr>cs_Nodes := x\<rparr>)) then (Normalize (s\<lparr>cs_Nodes := x\<rparr>), noop reason)
    else validateChanged (Normalize (s\<lparr>cs_Nodes := x\<rparr>)) s cmd)"
proof (cases "cs_Nodes s = cs_Nodes (Normalize (s\<lparr>cs_Nodes := x\<rparr>))")
  case True
  then have "Normalize (s\<lparr>cs_Nodes := x\<rparr>) = s" using assms by (cases s) (simp add: Normalize_def)
  with True show ?thesis by (simp only: if_True conj_absorb simp_thms outcome_noop)
next
  case False
  then show ?thesis unfolding if_not_P [OF False] by (intro validateChanged_outcome) simp_all
qed

lemma compare_Controllers:
  assumes "Normalize s = s"
  shows "fsm_outcome s (if cs_Controllers s = cs_Controllers (Normalize (s\<lparr>cs_Controllers := x\<rparr>)) then (Normalize (s\<lparr>cs_Controllers := x\<rparr>), noop reason)
    else validateChanged (Normalize (s\<lparr>cs_Controllers := x\<rparr>)) s cmd)"
proof (cases "cs_Controllers s = cs_Controllers (Normalize (s\<lparr>cs_Controllers := x\<rparr>))")
  case True
  then have "Normalize (s\<lparr>cs_Controllers := x\<rparr>) = s" using assms by (cases s) (simp add: Normalize_def)
  with True show ?thesis by (simp only: if_True conj_absorb simp_thms outcome_noop)
next
  case False
  then show ?thesis unfolding if_not_P [OF False] by (intro validateChanged_outcome) simp_all
qed

lemma compare_HashSlots:
  assumes "Normalize s = s"
  shows "fsm_outcome s (if cs_HashSlots s = cs_HashSlots (Normalize (s\<lparr>cs_HashSlots := x\<rparr>)) then (Normalize (s\<lparr>cs_HashSlots := x\<rparr>), noop reason)
    else validateChanged (Normalize (s\<lparr>cs_HashSlots := x\<rparr>)) s cmd)"
proof (cases "cs_HashSlots s = cs_HashSlots (Normalize (s\<lparr>cs_HashSlots := x\<rparr>))")
  case True
  then have "Normalize (s\<lparr>cs_HashSlots := x\<rparr>) = s" using assms by (cases s) (simp add: Normalize_def)
  with True show ?thesis by (simp only: if_True conj_absorb simp_thms outcome_noop)
next
  case False
  then show ?thesis unfolding if_not_P [OF False] by (intro validateChanged_outcome) simp_all
qed

lemma compare_Tasks:
  assumes "Normalize s = s"
  shows "fsm_outcome s (if cs_Tasks s = cs_Tasks (Normalize (s\<lparr>cs_Tasks := x\<rparr>)) then (Normalize (s\<lparr>cs_Tasks := x\<rparr>), noop reason)
    else validateChanged (Normalize (s\<lparr>cs_Tasks := x\<rparr>)) s cmd)"
proof (cases "cs_Tasks s = cs_Tasks (Normalize (s\<lparr>cs_Tasks := x\<rparr>))")
  case True
  then have "Normalize (s\<lparr>cs_Tasks := x\<rparr>) = s" using assms by (cases s) (simp add: Normalize_def)
  with True show ?thesis by (simp only: if_True conj_absorb simp_thms outcome_noop)
next
  case False
  then show ?thesis unfolding if_not_P [OF False] by (intro validateChanged_outcome) simp_all
qed

lemma compare_Slots_Tasks:
  assumes "Normalize s = s"
  shows "fsm_outcome s (if cs_Slots s = cs_Slots (Normalize (s\<lparr>cs_Slots := y, cs_Tasks := x\<rparr>)) \<and> cs_Tasks s = cs_Tasks (Normalize (s\<lparr>cs_Slots := y, cs_Tasks := x\<rparr>)) then (Normalize (s\<lparr>cs_Slots := y, cs_Tasks := x\<rparr>), noop reason)
    else validateChanged (Normalize (s\<lparr>cs_Slots := y, cs_Tasks := x\<rparr>)) s cmd)"
proof (cases "cs_Slots s = cs_Slots (Normalize (s\<lparr>cs_Slots := y, cs_Tasks := x\<rparr>)) \<and> cs_Tasks s = cs_Tasks (Normalize (s\<lparr>cs_Slots := y, cs_Tasks := x\<rparr>))")
  case True
  then have "Normalize (s\<lparr>cs_Slots := y, cs_Tasks := x\<rparr>) = s" using assms by (cases s) (simp add: Normalize_def)
  with True show ?thesis by (simp only: if_True conj_absorb simp_thms outcome_noop)
next
  case False
  then show ?thesis unfolding if_not_P [OF False] by (intro validateChanged_outcome) simp_all
qed

section \<open>Handlers\<close>

lemma guard_outcome: "taskResultGuard t r \<noteq> zero_result \<Longrightarrow> fsm_outcome s (s, taskResultGuard t r)"
  by (auto simp: taskResultGuard_def split: if_splits)

lemma progress_guard_outcome: "taskProgressGuard t r \<noteq> zero_result \<Longrightarrow> fsm_outcome s (s, taskProgressGuard t r)"
  by (auto simp: taskProgressGuard_def split: if_splits)

lemma applyInit_outcome: "fsm_outcome s (applyInit s i cmd)"
proof (cases "cm_Init cmd")
  case (Some init)
  show ?thesis
  proof (cases "initialStateFromCommand init (cm_IssuedAt cmd) i")
    case (Inr st)
    then have "Validate st = None" "Normalize st = st" "cs_Revision st = 1"
      by (auto simp: initialStateFromCommand_def Let_def Normalize_idem split: sum.splits option.splits)
    then show ?thesis using Some Inr by (auto simp: applyInit_def fsm_outcome_def)
  qed (simp add: applyInit_def Some)
qed (simp add: applyInit_def)

lemma applyUpsertNode_outcome: "Normalize s = s \<Longrightarrow> fsm_outcome s (applyUpsertNode s cmd)"
  unfolding applyUpsertNode_def Let_def upsertNode_def
  by (cases "cm_Node cmd") (simp_all add: compare_Nodes)

lemma applyUpdateControllerVoters_outcome: "Normalize s = s \<Longrightarrow> fsm_outcome s (applyUpdateControllerVoters s cmd)"
  unfolding applyUpdateControllerVoters_def Let_def by (simp add: compare_Controllers)

lemma applyReplaceHashSlotTable_outcome: "Normalize s = s \<Longrightarrow> fsm_outcome s (applyReplaceHashSlotTable s cmd)"
  unfolding applyReplaceHashSlotTable_def Let_def
  by (cases "cm_HashSlots cmd") (simp_all add: compare_HashSlots)

lemma applyUpsertSlotAssignmentAndTask_outcome:
  "Normalize s = s \<Longrightarrow> fsm_outcome s (applyUpsertSlotAssignmentAndTask s cmd)"
proof -
  assume s: "Normalize s = s"
  show ?thesis
  proof (cases "cm_Assignment cmd = None \<or> cm_Task cmd = None")
    case True
    then show ?thesis
      unfolding applyUpsertSlotAssignmentAndTask_def by (cases "cm_Assignment cmd"; cases "cm_Task cmd") simp_all
  next
    case False
    then obtain a k where ak: "cm_Assignment cmd = Some a" "cm_Task cmd = Some k" by auto
    show ?thesis
      using compare_Slots_Tasks [OF s, where y = "upsert (\<lambda>x. sa_SlotID x = sa_SlotID a) a (cs_Slots s)"
          and x = "upsert (\<lambda>x. rt_TaskID x = rt_TaskID k) k (cs_Tasks s)" and reason = ReasonNoChange and cmd = cmd]
      unfolding applyUpsertSlotAssignmentAndTask_def Let_def upsertTask_def upsertAssignment_def ak option.case prod.case
      by (cases "cs_Revision s = 0"; cases "rt_SlotID k = sa_SlotID a") (simp_all split del: if_split cong: if_cong)
  qed
qed

lemma applyUpsertSlotReplicaMoveTask_outcome: "Normalize s = s \<Longrightarrow> fsm_outcome s (applyUpsertSlotReplicaMoveTask s cmd)"
  unfolding applyUpsertSlotReplicaMoveTask_def Let_def upsertTask_def
  by (cases "cm_Task cmd") (simp_all add: compare_Tasks)

lemma applyAdvance_outcome: "fsm_outcome s (applyAdvanceSlotReplicaMovePhase s cmd)"
  unfolding applyAdvanceSlotReplicaMovePhase_def Let_def
  by (auto split: option.split intro!: validateChanged_outcome)

lemma applyCommit_outcome: "fsm_outcome s (applyCommitSlotReplicaMove s cmd)"
  unfolding applyCommitSlotReplicaMove_def Let_def
  by (auto split: option.split intro!: validateChanged_outcome)

lemma applyCompleteTask_outcome: "fsm_outcome s (applyCompleteTask s cmd)"
  unfolding applyCompleteTask_def Let_def
  by (auto split: option.split intro!: validateChanged_outcome guard_outcome)

lemma applyFailTask_outcome: "fsm_outcome s (applyFailTask s cmd)"
  unfolding applyFailTask_def Let_def
  by (auto split: option.split intro!: validateChanged_outcome guard_outcome)

lemma applyReportTaskProgress_outcome: "Normalize s = s \<Longrightarrow> fsm_outcome s (applyReportTaskProgress s cmd)"
  unfolding applyReportTaskProgress_def Let_def
  by (simp add: compare_Tasks progress_guard_outcome split: option.split)

section \<open>Dispatch\<close>

lemma uninitialised_handler:
  assumes "cs_Revision s = 0" shows "\<exists>reason. mutation_handler s cmd = (s, reject reason)"
proof -
  have "\<exists>reason. applyUpsertNode s cmd = (s, reject reason)" "\<exists>reason. applyUpdateControllerVoters s cmd = (s, reject reason)"
    "\<exists>reason. applyReplaceHashSlotTable s cmd = (s, reject reason)"
    "\<exists>reason. applyUpsertSlotAssignmentAndTask s cmd = (s, reject reason)"
    "\<exists>reason. applyUpsertSlotReplicaMoveTask s cmd = (s, reject reason)"
    "\<exists>reason. applyAdvanceSlotReplicaMovePhase s cmd = (s, reject reason)"
    "\<exists>reason. applyCommitSlotReplicaMove s cmd = (s, reject reason)"
    "\<exists>reason. applyCompleteTask s cmd = (s, reject reason)" "\<exists>reason. applyFailTask s cmd = (s, reject reason)"
    "\<exists>reason. applyReportTaskProgress s cmd = (s, reject reason)"
    unfolding applyUpsertNode_def applyUpdateControllerVoters_def applyReplaceHashSlotTable_def
      applyUpsertSlotAssignmentAndTask_def applyUpsertSlotReplicaMoveTask_def applyReportTaskProgress_def
      applyAdvanceSlotReplicaMovePhase_def applyCommitSlotReplicaMove_def applyCompleteTask_def applyFailTask_def assms
    by (simp_all split: option.split) blast+
  then show ?thesis unfolding mutation_handler_def by (simp split: if_split) blast
qed

lemma handler_outcome: "Normalize s = s \<Longrightarrow> fsm_outcome s (mutation_handler s cmd)"
  by (simp add: mutation_handler_def applyUpsertNode_outcome applyUpdateControllerVoters_outcome
      applyReplaceHashSlotTable_outcome applyUpsertSlotAssignmentAndTask_outcome applyUpsertSlotReplicaMoveTask_outcome
      applyAdvance_outcome applyCommit_outcome applyCompleteTask_outcome applyFailTask_outcome applyReportTaskProgress_outcome)

lemma mutation_guard_refuses:
  "mutation_guard s cmd = Some r \<Longrightarrow> \<exists>reason. r = noop reason \<or> r = reject reason"
  unfolding mutation_guard_def handleBootstrapRevisionMismatch_def handleLeaderTransferRevisionMismatch_def
    handleFailTaskRevisionMismatch_def handleTaskProgressRevisionMismatch_def Let_def
  by (auto split: if_splits option.splits)

lemma applyMutation_outcome: "ctrl_inv s \<Longrightarrow> fsm_outcome s (applyMutation s i cmd)"
proof -
  assume inv: "ctrl_inv s"
  have h: "fsm_outcome s (mutation_handler s cmd)"
    using inv uninitialised_handler [of s cmd] handler_outcome [of s cmd] unfolding ctrl_inv_def by fastforce
  show ?thesis
  proof (cases "cm_Kind cmd = KindInitClusterState")
    case False
    show ?thesis
    proof (cases "mutation_guard s cmd")
      case (Some r)
      then show ?thesis using mutation_guard_refuses [OF Some] False by (auto simp: applyMutation_def)
    qed (simp add: applyMutation_def False h)
  qed (simp add: applyMutation_def applyInit_outcome)
qed

lemma first_state:
  assumes "cs_Revision s = 0" "applyMutation s i cmd = (s', r)" "cs_Revision s' \<noteq> 0"
  shows "cs_AppliedRaftIndex s' = i"
proof (cases "cm_Kind cmd = KindInitClusterState")
  case True
  then show ?thesis using assms
    by (auto simp: applyMutation_def applyInit_def initialStateFromCommand_def Let_def split: option.splits sum.splits)
next
  case False
  then show ?thesis using assms uninitialised_handler [OF assms(1), of cmd]
    by (auto simp: applyMutation_def split: option.splits)
qed

lemma outcome_inv: "ctrl_inv s \<Longrightarrow> fsm_outcome s (s', r) \<Longrightarrow> ctrl_inv s'"
  by (auto simp: fsm_outcome_def ctrl_inv_def)

lemma valid_revision: "Validate s = None \<Longrightarrow> cs_Revision s \<noteq> 0"
  using Validate_None [of s] by (simp add: well_formed_def)

text \<open>Under a failed compare-and-set every command but the first initialisation is settled by its guard.\<close>

lemma mismatch_handled:
  assumes "revision_mismatch s cmd"
  shows "handleBootstrapRevisionMismatch s cmd \<noteq> None" "handleLeaderTransferRevisionMismatch s cmd \<noteq> None"
    "handleFailTaskRevisionMismatch s cmd \<noteq> None" "handleTaskProgressRevisionMismatch s cmd \<noteq> None"
  using assms
  by (simp_all add: handleBootstrapRevisionMismatch_def handleLeaderTransferRevisionMismatch_def
      handleFailTaskRevisionMismatch_def handleTaskProgressRevisionMismatch_def Let_def del: not_None_eq split: option.split)

lemma mismatch_guarded: "revision_mismatch s cmd \<Longrightarrow> mutation_guard s cmd \<noteq> None"
  unfolding mutation_guard_def
  by (simp add: mismatch_handled del: not_None_eq split: option.split)

section \<open>Batches\<close>

text \<open>The facts about an entry that a batch relies on, for a state that satisfies the invariant.\<close>

lemma Normalize_applied [simp]:
  "Normalize (s\<lparr>cs_AppliedRaftIndex := i\<rparr>) = (Normalize s)\<lparr>cs_AppliedRaftIndex := i\<rparr>"
  "Normalize (s\<lparr>cs_Checksum := c\<rparr>) = (Normalize s)\<lparr>cs_Checksum := c\<rparr>"
  by (simp_all add: Normalize_def)

lemma validate_parts_cong:
  "cs_Nodes s = cs_Nodes t \<Longrightarrow> cs_Controllers s = cs_Controllers t \<Longrightarrow> cs_Config s = cs_Config t \<Longrightarrow>
    cs_Slots s = cs_Slots t \<Longrightarrow> cs_HashSlots s = cs_HashSlots t \<Longrightarrow> cs_Tasks s = cs_Tasks t \<Longrightarrow>
    validate_parts s = validate_parts t"
  by (simp only: validate_parts_def)

lemma validate_parts_applied [simp]:
  "validate_parts (s\<lparr>cs_AppliedRaftIndex := i\<rparr>) = validate_parts s"
  "validate_parts (s\<lparr>cs_Checksum := c\<rparr>) = validate_parts s"
  by (rule validate_parts_cong; simp)+

lemma Validate_applied [simp]:
  "Validate (s\<lparr>cs_AppliedRaftIndex := i\<rparr>) = Validate s" "Validate (s\<lparr>cs_Checksum := c\<rparr>) = Validate s"
  by (simp_all add: Validate_def Let_def)

lemma apply_entry_state:
  assumes "ctrl_inv next"
  shows "ctrl_inv (fst (apply_entry current next e))
    \<and> (cs_Revision next \<noteq> 0 \<longrightarrow> cs_Revision (fst (apply_entry current next e)) \<noteq> 0
         \<and> cs_AppliedRaftIndex next \<le> cs_AppliedRaftIndex (fst (apply_entry current next e)))
    \<and> (cs_Revision (fst (apply_entry current next e)) \<noteq> 0 \<longrightarrow>
         ac_Index e \<le> cs_AppliedRaftIndex (fst (apply_entry current next e)))"
proof (cases "cs_Revision current \<noteq> 0 \<and> ac_Index e \<le> cs_AppliedRaftIndex next")
  case True
  then show ?thesis using assms by (simp add: apply_entry_def)
next
  case False
  obtain s' r where m: "applyMutation next (ac_Index e) (ac_Command e) = (s', r)" by fastforce
  then have out: "fsm_outcome next (s', r)" using applyMutation_outcome [OF assms, of "ac_Index e" "ac_Command e"] by simp
  have inv: "ctrl_inv s'" by (rule outcome_inv [OF assms out])
  have rev: "cs_Revision next \<noteq> 0 \<Longrightarrow> cs_Revision s' \<noteq> 0 \<and> cs_AppliedRaftIndex s' = cs_AppliedRaftIndex next"
    using out valid_revision by (auto simp: fsm_outcome_def)
  let ?s = "if cs_Revision s' \<noteq> 0 \<and> ac_Index e > cs_AppliedRaftIndex s' then s'\<lparr>cs_AppliedRaftIndex := ac_Index e\<rparr> else s'"
  have st: "fst (apply_entry current next e) = ?s"
    using False by (auto simp: apply_entry_def m Let_def)
  have i: "ctrl_inv ?s" using inv by (auto simp: ctrl_inv_def)
  have r: "cs_Revision ?s = cs_Revision s'" by simp
  have a: "cs_AppliedRaftIndex s' \<le> cs_AppliedRaftIndex ?s" by (simp add: less_imp_le)
  have x: "cs_Revision s' \<noteq> 0 \<Longrightarrow> ac_Index e \<le> cs_AppliedRaftIndex ?s" by (simp add: not_less)
  show ?thesis unfolding st r using i rev a x by metis
qed

lemma apply_entries_state:
  "ctrl_inv next \<Longrightarrow> ctrl_inv (fst (apply_entries current next es))
    \<and> (cs_Revision next \<noteq> 0 \<longrightarrow> cs_Revision (fst (apply_entries current next es)) \<noteq> 0
         \<and> cs_AppliedRaftIndex next \<le> cs_AppliedRaftIndex (fst (apply_entries current next es)))
    \<and> (cs_Revision (fst (apply_entries current next es)) \<noteq> 0 \<longrightarrow> es \<noteq> [] \<longrightarrow>
         ac_Index (last es) \<le> cs_AppliedRaftIndex (fst (apply_entries current next es)))
    \<and> length (snd (apply_entries current next es)) = length es"
proof (induction es arbitrary: "next")
  case (Cons e es)
  let ?n = "fst (apply_entry current next e)"
  have one: "fst (apply_entries current next (e # es)) = fst (apply_entries current ?n es)"
    "length (snd (apply_entries current next (e # es))) = Suc (length (snd (apply_entries current ?n es)))"
    by (simp_all add: case_prod_unfold Let_def)
  note st = apply_entry_state [OF Cons.prems, of current e]
  then have inv: "ctrl_inv ?n" by blast
  show ?case unfolding one using Cons.IH [OF inv] st by (cases es) (auto intro: order_trans)
qed simp

section \<open>The stored checksum plays no part\<close>

lemma checksum_last [simp]:
  "s\<lparr>cs_Checksum := c, cs_Nodes := x1\<rparr> = s\<lparr>cs_Nodes := x1, cs_Checksum := c\<rparr>"
  "s\<lparr>cs_Checksum := c, cs_Controllers := x2\<rparr> = s\<lparr>cs_Controllers := x2, cs_Checksum := c\<rparr>"
  "s\<lparr>cs_Checksum := c, cs_HashSlots := x3\<rparr> = s\<lparr>cs_HashSlots := x3, cs_Checksum := c\<rparr>"
  "s\<lparr>cs_Checksum := c, cs_Slots := x4\<rparr> = s\<lparr>cs_Slots := x4, cs_Checksum := c\<rparr>"
  "s\<lparr>cs_Checksum := c, cs_Tasks := x5\<rparr> = s\<lparr>cs_Tasks := x5, cs_Checksum := c\<rparr>"
  "s\<lparr>cs_Checksum := c, cs_Revision := x6\<rparr> = s\<lparr>cs_Revision := x6, cs_Checksum := c\<rparr>"
  "s\<lparr>cs_Checksum := c, cs_UpdatedAt := x7\<rparr> = s\<lparr>cs_UpdatedAt := x7, cs_Checksum := c\<rparr>"
  "s\<lparr>cs_Checksum := c, cs_AppliedRaftIndex := x8\<rparr> = s\<lparr>cs_AppliedRaftIndex := x8, cs_Checksum := c\<rparr>"
  by simp_all

definition mark :: "string \<Rightarrow> ClusterState \<times> ApplyResult \<Rightarrow> ClusterState \<times> ApplyResult" where
  "mark c = (\<lambda>(s, r). (s\<lparr>cs_Checksum := c\<rparr>, r))"

lemma mark_Pair [simp]: "mark c (s, r) = (s\<lparr>cs_Checksum := c\<rparr>, r)"
  by (simp add: mark_def)

lemma validateChanged_mark:
  "validateChanged (n\<lparr>cs_Checksum := c\<rparr>) (s\<lparr>cs_Checksum := c\<rparr>) cmd = mark c (validateChanged n s cmd)"
  by (simp add: validateChanged_def Let_def split: option.split)

lemma mark_if: "mark c (if P then x else y) = (if P then mark c x else mark c y)"
  by simp

lemma mark_option: "mark c (case x of None \<Rightarrow> a | Some y \<Rightarrow> f y) = (case x of None \<Rightarrow> mark c a | Some y \<Rightarrow> mark c (f y))"
  by (cases x) simp_all

lemmas mark_simps = validateChanged_mark mark_if mark_option upsertNode_def upsertTask_def upsertAssignment_def Let_def

lemma handler_mark: "mutation_handler (s\<lparr>cs_Checksum := c\<rparr>) cmd = mark c (mutation_handler s cmd)"
proof -
  let ?s = "s\<lparr>cs_Checksum := c\<rparr>"
  have a1: "applyUpsertNode ?s cmd = mark c (applyUpsertNode s cmd)"
    by (cases "cm_Node cmd") (simp_all add: applyUpsertNode_def mark_simps)
  have a2: "applyUpdateControllerVoters ?s cmd = mark c (applyUpdateControllerVoters s cmd)"
    by (simp add: applyUpdateControllerVoters_def mark_simps)
  have a3: "applyReplaceHashSlotTable ?s cmd = mark c (applyReplaceHashSlotTable s cmd)"
    by (cases "cm_HashSlots cmd") (simp_all add: applyReplaceHashSlotTable_def mark_simps)
  have a4: "applyUpsertSlotAssignmentAndTask ?s cmd = mark c (applyUpsertSlotAssignmentAndTask s cmd)"
    by (cases "cm_Assignment cmd"; cases "cm_Task cmd")
      (simp_all add: applyUpsertSlotAssignmentAndTask_def mark_simps)
  have a5: "applyUpsertSlotReplicaMoveTask ?s cmd = mark c (applyUpsertSlotReplicaMoveTask s cmd)"
    by (cases "cm_Task cmd") (simp_all add: applyUpsertSlotReplicaMoveTask_def mark_simps)
  have a6: "applyAdvanceSlotReplicaMovePhase ?s cmd = mark c (applyAdvanceSlotReplicaMovePhase s cmd)"
    by (cases "cm_SlotReplicaMovePhase cmd") (simp_all add: applyAdvanceSlotReplicaMovePhase_def mark_simps split: option.split)
  have a7: "applyCommitSlotReplicaMove ?s cmd = mark c (applyCommitSlotReplicaMove s cmd)"
    by (cases "cm_SlotReplicaMoveCommit cmd") (simp_all add: applyCommitSlotReplicaMove_def mark_simps split: option.split)
  have a8: "applyCompleteTask ?s cmd = mark c (applyCompleteTask s cmd)"
    by (cases "cm_TaskResult cmd") (simp_all add: applyCompleteTask_def mark_simps split: option.split)
  have a9: "applyFailTask ?s cmd = mark c (applyFailTask s cmd)"
    by (cases "cm_TaskResult cmd") (simp_all add: applyFailTask_def mark_simps split: option.split)
  have a10: "applyReportTaskProgress ?s cmd = mark c (applyReportTaskProgress s cmd)"
    by (cases "cm_TaskProgress cmd") (simp_all add: applyReportTaskProgress_def mark_simps split: option.split)
  show ?thesis by (simp add: mutation_handler_def a1 a2 a3 a4 a5 a6 a7 a8 a9 a10)
qed

lemma guard_mark: "mutation_guard (s\<lparr>cs_Checksum := c\<rparr>) cmd = mutation_guard s cmd"
proof -
  have m: "revision_mismatch (s\<lparr>cs_Checksum := c\<rparr>) cmd = revision_mismatch s cmd"
    by (simp add: revision_mismatch_def split: option.split)
  have "handleBootstrapRevisionMismatch (s\<lparr>cs_Checksum := c\<rparr>) cmd = handleBootstrapRevisionMismatch s cmd"
    "handleLeaderTransferRevisionMismatch (s\<lparr>cs_Checksum := c\<rparr>) cmd = handleLeaderTransferRevisionMismatch s cmd"
    "handleFailTaskRevisionMismatch (s\<lparr>cs_Checksum := c\<rparr>) cmd = handleFailTaskRevisionMismatch s cmd"
    "handleTaskProgressRevisionMismatch (s\<lparr>cs_Checksum := c\<rparr>) cmd = handleTaskProgressRevisionMismatch s cmd"
    unfolding handleBootstrapRevisionMismatch_def handleLeaderTransferRevisionMismatch_def
      handleFailTaskRevisionMismatch_def handleTaskProgressRevisionMismatch_def m Let_def
    by (simp_all cong: option.case_cong if_cong)
  moreover have "isNonBootstrapIdempotent (s\<lparr>cs_Checksum := c\<rparr>) cmd = isNonBootstrapIdempotent s cmd"
    by (simp add: isNonBootstrapIdempotent_def Let_def split del: if_split cong: option.case_cong if_cong)
  ultimately show ?thesis unfolding mutation_guard_def m
    by (simp split del: if_split cong: option.case_cong if_cong)
qed

lemma equivalentInit_mark: "equivalentInit (s\<lparr>cs_Checksum := c\<rparr>) i = equivalentInit s i"
  by (simp add: equivalentInit_def Let_def)

lemma applyMutation_mark: "\<exists>c'. applyMutation (s\<lparr>cs_Checksum := c\<rparr>) i cmd = mark c' (applyMutation s i cmd)"
proof (cases "cm_Kind cmd = KindInitClusterState")
  case True
  show ?thesis
  proof (cases "cm_Init cmd")
    case None
    then have "applyMutation (s\<lparr>cs_Checksum := c\<rparr>) i cmd = mark c (applyMutation s i cmd)"
      using True by (simp add: applyMutation_def applyInit_def)
    then show ?thesis ..
  next
    case (Some init)
    show ?thesis
    proof (cases "initialStateFromCommand init (cm_IssuedAt cmd) i")
      case (Inl e)
      then have "applyMutation (s\<lparr>cs_Checksum := c\<rparr>) i cmd = mark c (applyMutation s i cmd)"
        using True Some by (simp add: applyMutation_def applyInit_def)
      then show ?thesis ..
    next
      case (Inr st)
      have "applyMutation (s\<lparr>cs_Checksum := c\<rparr>) i cmd
          = mark (if cs_Revision s = 0 then cs_Checksum st else c) (applyMutation s i cmd)"
        using True Some Inr by (simp add: applyMutation_def applyInit_def equivalentInit_mark)
      then show ?thesis ..
    qed
  qed
next
  case False
  then have "applyMutation (s\<lparr>cs_Checksum := c\<rparr>) i cmd = mark c (applyMutation s i cmd)"
    by (simp add: applyMutation_def guard_mark handler_mark split: option.split)
  then show ?thesis ..
qed

text \<open>Single entries in a row, each saved on its own, against one batch.\<close>

fun apply_each ::
  "(ClusterState \<Rightarrow> string option) \<Rightarrow> ('d \<Rightarrow> ClusterState \<Rightarrow> string option \<times> 'd)
    \<Rightarrow> StateMachine \<Rightarrow> 'd \<Rightarrow> AppliedCommand list \<Rightarrow> StateMachine \<times> ApplyResult list" where
  "apply_each checksum save sm d [] = (sm, [])"
| "apply_each checksum save sm d (e # es) =
     (let (sm, d, out, err) = ApplyBatch checksum save sm d [e];
          (sm, results) = apply_each checksum save sm d es
      in (sm, br_Results out @ results))"

definition log_ready :: "ClusterState \<Rightarrow> ClusterState \<Rightarrow> AppliedCommand list \<Rightarrow> bool" where
  "log_ready current next es \<longleftrightarrow> sorted_wrt (<) (map ac_Index es)
     \<and> (cs_Revision current \<noteq> 0 \<longrightarrow> cs_Revision next \<noteq> 0)
     \<and> (cs_Revision current = 0 \<longrightarrow> cs_Revision next \<noteq> 0 \<longrightarrow> (\<forall>e\<in>set es. cs_AppliedRaftIndex next < ac_Index e))"

lemma apply_entry_mark:
  assumes "log_ready current next (e # es)"
  shows "\<exists>c'. apply_entry (next\<lparr>cs_Checksum := c\<rparr>) (next\<lparr>cs_Checksum := c\<rparr>) e = mark c' (apply_entry current next e)"
proof -
  let ?n = "next\<lparr>cs_Checksum := c\<rparr>"
  have test: "(cs_Revision ?n \<noteq> 0 \<and> ac_Index e \<le> cs_AppliedRaftIndex ?n)
      \<longleftrightarrow> (cs_Revision current \<noteq> 0 \<and> ac_Index e \<le> cs_AppliedRaftIndex next)"
    using assms by (auto simp: log_ready_def)
  obtain c' where c': "applyMutation ?n (ac_Index e) (ac_Command e) = mark c' (applyMutation next (ac_Index e) (ac_Command e))"
    using applyMutation_mark by blast
  obtain s r where sr: "applyMutation next (ac_Index e) (ac_Command e) = (s, r)" by fastforce
  show ?thesis
  proof (cases "cs_Revision current \<noteq> 0 \<and> ac_Index e \<le> cs_AppliedRaftIndex next")
    case True
    have "apply_entry ?n ?n e = mark c (apply_entry current next e)"
      unfolding apply_entry_def test if_P [OF True] by simp
    then show ?thesis ..
  next
    case False
    have "apply_entry ?n ?n e = mark c' (apply_entry current next e)"
      unfolding apply_entry_def test if_not_P [OF False] c' sr mark_Pair Let_def prod.case by (simp split del: if_split cong: if_cong) (simp)
    then show ?thesis ..
  qed
qed

lemma log_ready_next:
  assumes "log_ready current next (e # es)" "ctrl_inv next"
  shows "log_ready current (fst (apply_entry current next e)) es"
proof -
  let ?n = "fst (apply_entry current next e)"
  note st = apply_entry_state [OF assms(2), of current e]
  have srt: "sorted_wrt (<) (map ac_Index es)" "\<forall>x\<in>set es. ac_Index e < ac_Index x"
    using assms(1) by (auto simp: log_ready_def)
  obtain s' r where m: "applyMutation next (ac_Index e) (ac_Command e) = (s', r)" by fastforce
  then have out: "fsm_outcome next (s', r)" using applyMutation_outcome [OF assms(2), of "ac_Index e" "ac_Command e"] by simp
  have "cs_AppliedRaftIndex ?n \<le> ac_Index e" if "cs_Revision current = 0" "cs_Revision ?n \<noteq> 0"
  proof -
    have n: "?n = (if cs_Revision s' \<noteq> 0 \<and> ac_Index e > cs_AppliedRaftIndex s' then s'\<lparr>cs_AppliedRaftIndex := ac_Index e\<rparr> else s')"
      using that(1) m by (simp add: apply_entry_def Let_def)
    have "cs_Revision s' \<noteq> 0" using that(2) unfolding n by (simp split: if_splits)
    moreover have "cs_AppliedRaftIndex s' \<le> ac_Index e"
    proof (cases "cs_Revision next = 0")
      case True
      then show ?thesis using first_state [OF True m] calculation by simp
    next
      case False
      then have "cs_AppliedRaftIndex next < ac_Index e" using assms(1) that(1) by (simp add: log_ready_def)
      then show ?thesis using out False by (auto simp: fsm_outcome_def)
    qed
    ultimately show ?thesis unfolding n by simp
  qed
  then have "\<forall>x\<in>set es. cs_AppliedRaftIndex ?n < ac_Index x" if "cs_Revision current = 0" "cs_Revision ?n \<noteq> 0"
    using srt(2) that by (meson order_le_less_trans)
  moreover have "cs_Revision current \<noteq> 0 \<Longrightarrow> cs_Revision ?n \<noteq> 0" using st assms(1) by (simp add: log_ready_def)
  ultimately show ?thesis using srt(1) unfolding log_ready_def by blast
qed

lemma apply_entry_unborn:
  assumes "ctrl_inv next" "cs_Revision (fst (apply_entry current next e)) = 0"
  shows "fst (apply_entry current next e) = next"
proof (cases "cs_Revision current \<noteq> 0 \<and> ac_Index e \<le> cs_AppliedRaftIndex next")
  case True
  then show ?thesis by (simp add: apply_entry_def)
next
  case False
  obtain s' r where m: "applyMutation next (ac_Index e) (ac_Command e) = (s', r)" by fastforce
  then have out: "fsm_outcome next (s', r)" using applyMutation_outcome [OF assms(1), of "ac_Index e" "ac_Command e"] by simp
  have n: "fst (apply_entry current next e)
      = (if cs_Revision s' \<noteq> 0 \<and> ac_Index e > cs_AppliedRaftIndex s' then s'\<lparr>cs_AppliedRaftIndex := ac_Index e\<rparr> else s')"
    using False m by (auto simp: apply_entry_def Let_def)
  have "cs_Revision s' = 0" using assms(2) unfolding n by (simp split: if_splits)
  then show ?thesis unfolding n using out valid_revision by (auto simp: fsm_outcome_def)
qed

locale state_checksum =
  fixes checksum :: "ClusterState \<Rightarrow> string option"
  assumes ignores_itself: "checksum (s\<lparr>cs_Checksum := c\<rparr>) = checksum s"
begin

lemma apply_one:
  assumes "checksum (fst (apply_entry (sm_state sm) (sm_state sm) e)) \<noteq> None" "\<And>d s. fst (save d s) = None"
  shows "\<exists>d' f. ApplyBatch checksum save sm d [e] =
    (let (n, r) = apply_entry (sm_state sm) (sm_state sm) e
     in (if cs_Revision n = 0 then sm else \<lparr>sm_state = n\<lparr>cs_Checksum := the (checksum n)\<rparr>, sm_degraded = False\<rparr>,
         d', \<lparr>br_Results = [r], br_FinalState = f\<rparr>, None))"
proof -
  obtain n r where nr: "apply_entry (sm_state sm) (sm_state sm) e = (n, r)" by fastforce
  then obtain ck where ck: "checksum n = Some ck" using assms(1) by auto
  obtain d' where d': "save d (n\<lparr>cs_Checksum := ck\<rparr>) = (None, d')" using assms(2) by (metis prod.collapse)
  show ?thesis by (cases "cs_Revision n = 0") (simp_all add: ApplyBatch_def Let_def nr ck d')
qed

lemma batch_from_marked:
  assumes total: "\<And>s. checksum s \<noteq> None" and saves: "\<And>d s. fst (save d s) = None"
  shows "log_ready current next es \<Longrightarrow> ctrl_inv next \<Longrightarrow> sm_state sm = next\<lparr>cs_Checksum := c\<rparr> \<Longrightarrow>
    apply_entries current next es = (s', rs) \<Longrightarrow>
    \<exists>sm'. apply_each checksum save sm d es = (sm', rs)
      \<and> (cs_Revision s' \<noteq> 0 \<longrightarrow> es \<noteq> [] \<longrightarrow> sm' = \<lparr>sm_state = s'\<lparr>cs_Checksum := the (checksum s')\<rparr>, sm_degraded = False\<rparr>)
      \<and> (cs_Revision s' = 0 \<longrightarrow> sm' = sm)"
proof (induction es arbitrary: "next" sm d c rs)
  case (Cons e es)
  obtain n r where nr: "apply_entry current next e = (n, r)" by fastforce
  obtain rs' where rest: "apply_entries current n es = (s', rs')" "rs = r # rs'"
    using Cons.prems(4) nr by (auto simp: Let_def case_prod_unfold prod_eq_iff)
  obtain c' where c': "apply_entry (sm_state sm) (sm_state sm) e = (n\<lparr>cs_Checksum := c'\<rparr>, r)"
    using apply_entry_mark [OF Cons.prems(1), of c] nr Cons.prems(3) by auto
  let ?sm = "if cs_Revision n = 0 then sm else \<lparr>sm_state = n\<lparr>cs_Checksum := the (checksum n)\<rparr>, sm_degraded = False\<rparr>"
  obtain d' f where one: "ApplyBatch checksum save sm d [e] = (?sm, d', \<lparr>br_Results = [r], br_FinalState = f\<rparr>, None)"
    using apply_one [of sm e save d, OF total saves] unfolding c' Let_def prod.case ClusterState.simps ignores_itself
    by auto
  have inv: "ctrl_inv n" using apply_entry_state [OF Cons.prems(2), of current e] nr by simp
  have ready: "log_ready current n es" using log_ready_next [OF Cons.prems(1,2)] nr by simp
  obtain c2 where sm1: "sm_state ?sm = n\<lparr>cs_Checksum := c2\<rparr>"
    using apply_entry_unborn [OF Cons.prems(2), of current e] nr Cons.prems(3) by (cases "cs_Revision n = 0") auto
  have late: "cs_Revision s' = 0 \<Longrightarrow> cs_Revision n = 0"
    using apply_entries_state [OF inv, of current es] rest(1) by auto
  obtain sm' where sm': "apply_each checksum save ?sm d' es = (sm', rs')"
    "cs_Revision s' \<noteq> 0 \<longrightarrow> es \<noteq> [] \<longrightarrow> sm' = \<lparr>sm_state = s'\<lparr>cs_Checksum := the (checksum s')\<rparr>, sm_degraded = False\<rparr>"
    "cs_Revision s' = 0 \<longrightarrow> sm' = ?sm"
    using Cons.IH [OF ready inv sm1 rest(1)] by blast
  have "apply_each checksum save sm d (e # es) = (sm', rs)"
    unfolding apply_each.simps one Let_def prod.case sm'(1) rest(2) by simp
  moreover have "es = [] \<Longrightarrow> s' = n \<and> sm' = ?sm" using rest(1) sm'(1) by auto
  ultimately show ?case using sm'(2,3) late by (cases es) auto
qed simp

end

end
