(* ===== verification/CtrlStore.thy ===== *)
theory CtrlStore
  imports CtrlFSM Bytes
begin

text \<open>
  The durable form of the cluster state: encoding and checksum (\<open>pkg/controllerv2/state/codec.go\<close>)
  and the state file (\<open>pkg/controllerv2/statefile/store.go\<close>). The JSON text is produced and read by
  \<open>encoding/json\<close>, which is not modelled: \<open>marshal\<close>, \<open>unmarshal\<close> and \<open>view\<close> are parameters
  (\<open>view\<close> is the text of all fields but the checksum; \<open>unmarshal\<close> fails on unknown fields and on
  trailing tokens). The file system is the content of the main file and of the temporary one.
\<close>

section \<open>Encoding\<close>

datatype CodecErr = JsonErr | ErrChecksumMismatch | StateErr StateErr

definition hex_digit :: "u32 \<Rightarrow> char" where
  "hex_digit d = ''0123456789abcdef'' ! unat d"

text \<open>\<open>fmt.Sprintf("%08x")\<close>.\<close>

definition hex8 :: "u32 \<Rightarrow> string" where
  "hex8 w = map (\<lambda>i. hex_digit (drop_bit (4 * (7 - i)) w AND 15)) [0..<8]"

definition Checksum :: "(ClusterState \<Rightarrow> u8 list option) \<Rightarrow> ClusterState \<Rightarrow> string option" where
  "Checksum view st =
     (case view (Normalize (st\<lparr>cs_Checksum := []\<rparr>)) of
        None \<Rightarrow> None
      | Some payload \<Rightarrow> Some (''crc32c:'' @ hex8 (crc32_with 0x82F63B78 payload)))"

definition StateEncode ::
  "(ClusterState \<Rightarrow> u8 list option) \<Rightarrow> (ClusterState \<Rightarrow> u8 list option) \<Rightarrow> ClusterState \<Rightarrow> CodecErr + u8 list" where
  "StateEncode view marshal st0 =
     (let st = Normalize st0
      in case Validate st of
           Some e \<Rightarrow> Inl (StateErr e)
         | None \<Rightarrow>
             (case Checksum view st of
                None \<Rightarrow> Inl JsonErr
              | Some checksum \<Rightarrow>
                  (case marshal (st\<lparr>cs_Checksum := checksum\<rparr>) of None \<Rightarrow> Inl JsonErr | Some data \<Rightarrow> Inr data)))"

definition StateDecode ::
  "(ClusterState \<Rightarrow> u8 list option) \<Rightarrow> (u8 list \<Rightarrow> ClusterState option) \<Rightarrow> u8 list \<Rightarrow> CodecErr + ClusterState" where
  "StateDecode view unmarshal data =
     (case unmarshal data of
        None \<Rightarrow> Inl JsonErr
      | Some st \<Rightarrow>
          if cs_SchemaVersion st \<noteq> CurrentSchemaVersion then Inl (StateErr (ErrUnsupportedSchema (cs_SchemaVersion st)))
          else if cs_Checksum st = [] then Inl ErrChecksumMismatch
          else (case Checksum view st of
              None \<Rightarrow> Inl JsonErr
            | Some expected \<Rightarrow>
                if cs_Checksum st \<noteq> expected then Inl ErrChecksumMismatch
                else
                  let st = (Normalize st)\<lparr>cs_Checksum := expected\<rparr>
                  in case Validate st of Some e \<Rightarrow> Inl (StateErr e) | None \<Rightarrow> Inr st))"

section \<open>The state file\<close>

record StateDir =
  sd_main :: "u8 list option"
  sd_temp :: "u8 list option"

text \<open>
  The points at which \<open>Save\<close> can fail: the context checks, the system calls and the test hook.
  \<open>fault\<close> says which of them do.
\<close>

datatype SaveStep = CtxAtStart | CtxAfterEncode | CreateTemp | WriteTemp | SyncTemp | CloseTemp | AfterTempWrite
  | CtxBeforeRename | RenameTemp | SyncDir

text \<open>The effect of a step that succeeds.\<close>

fun save_effect :: "u8 list \<Rightarrow> StateDir \<Rightarrow> SaveStep \<Rightarrow> StateDir" where
  "save_effect data dir CreateTemp = dir\<lparr>sd_temp := Some []\<rparr>"
| "save_effect data dir WriteTemp = dir\<lparr>sd_temp := Some data\<rparr>"
| "save_effect data dir RenameTemp = dir\<lparr>sd_main := sd_temp dir, sd_temp := None\<rparr>"
| "save_effect data dir _ = dir"

text \<open>
  The deferred clean-up removes the temporary file unless it has been renamed, that is in every
  failure before \<open>SyncDir\<close>.
\<close>

definition save_cleanup :: "StateDir \<Rightarrow> SaveStep \<Rightarrow> StateDir" where
  "save_cleanup dir step = (if step = SyncDir then dir else dir\<lparr>sd_temp := None\<rparr>)"

fun save_steps ::
  "(SaveStep \<Rightarrow> string option) \<Rightarrow> u8 list \<Rightarrow> SaveStep list \<Rightarrow> StateDir \<Rightarrow> string option \<times> StateDir" where
  "save_steps fault data [] dir = (None, dir)"
| "save_steps fault data (step # steps) dir =
     (case fault step of
        Some e \<Rightarrow> (Some e, save_cleanup dir step)
      | None \<Rightarrow> save_steps fault data steps (save_effect data dir step))"

definition temp_steps :: "SaveStep list" where
  "temp_steps = [CreateTemp, WriteTemp, SyncTemp, CloseTemp, AfterTempWrite, CtxBeforeRename, RenameTemp, SyncDir]"

definition Save ::
  "(ClusterState \<Rightarrow> u8 list option) \<Rightarrow> (ClusterState \<Rightarrow> u8 list option) \<Rightarrow> (SaveStep \<Rightarrow> string option)
    \<Rightarrow> StateDir \<Rightarrow> ClusterState \<Rightarrow> string option \<times> StateDir" where
  "Save view marshal fault dir st =
     (case fault CtxAtStart of
        Some e \<Rightarrow> (Some e, dir)
      | None \<Rightarrow>
          (case StateEncode view marshal st of
             Inl _ \<Rightarrow> (Some ''encode'', dir)
           | Inr data \<Rightarrow>
               (case fault CtxAfterEncode of
                  Some e \<Rightarrow> (Some e, dir)
                | None \<Rightarrow> save_steps fault data temp_steps dir)))"

text \<open>Reading the main file; a temporary file is not looked at.\<close>

datatype FileResult = FileMissing | FileErr CodecErr | FileState ClusterState

definition LoadFile ::
  "(ClusterState \<Rightarrow> u8 list option) \<Rightarrow> (u8 list \<Rightarrow> ClusterState option) \<Rightarrow> StateDir \<Rightarrow> FileResult" where
  "LoadFile view unmarshal dir =
     (case sd_main dir of
        None \<Rightarrow> FileMissing
      | Some data \<Rightarrow> (case StateDecode view unmarshal data of Inl e \<Rightarrow> FileErr e | Inr st \<Rightarrow> FileState st))"

end
