(* ===== verification/CtrlStoreSafety.thy ===== *)
theory CtrlStoreSafety
  imports CtrlFSMSafety CtrlStore
begin

text \<open>
  The state machine over the state file: what a command, a batch, a failing store and a replayed batch
  do to the published state and to the file.
\<close>

section \<open>The checksum and the file as the interfaces the machine uses\<close>

interpretation durable: state_checksum "Checksum view" for view
  by unfold_locales (simp add: Checksum_def)

text \<open>
  A store: what it holds after a save is the image of the state when the save succeeds, and that image
  or what it held before when the save fails, never anything else.
\<close>

locale state_store =
  fixes save :: "'d \<Rightarrow> ClusterState \<Rightarrow> string option \<times> 'd"
    and contents :: "'d \<Rightarrow> 'c"
    and holds :: "'c \<Rightarrow> ClusterState \<Rightarrow> bool"
  assumes save_ok: "save d s = (None, d') \<Longrightarrow> holds (contents d') s"
    and save_failed: "save d s = (Some e, d') \<Longrightarrow> contents d' = contents d \<or> holds (contents d') s"
begin

lemma batch_effect:
  assumes "ApplyBatch checksum save sm d es = (sm', d', out, err)" "ctrl_inv (sm_state sm)"
  shows "(err = None \<longrightarrow> sm_state sm' = br_FinalState out \<or> cs_Revision (br_FinalState out) = 0)
    \<and> (err = None \<longrightarrow> cs_Revision (sm_state sm') \<noteq> 0 \<longrightarrow> holds (contents d') (sm_state sm') \<and> \<not> sm_degraded sm')
    \<and> (err \<noteq> None \<longrightarrow> sm_state sm' = sm_state sm \<and> sm_degraded sm')
    \<and> (contents d' = contents d \<or> (\<exists>s. holds (contents d') s \<and> ctrl_inv s))
    \<and> length (br_Results out) = length es \<and> ctrl_inv (sm_state sm')"
proof -
  obtain n rs where nr: "apply_entries (sm_state sm) (sm_state sm) es = (n, rs)" by fastforce
  have st: "ctrl_inv n" "length rs = length es" "cs_Revision (sm_state sm) \<noteq> 0 \<longrightarrow> cs_Revision n \<noteq> 0"
    using apply_entries_state [OF assms(2), of "sm_state sm" es] nr by auto
  show ?thesis
  proof (cases "cs_Revision n = 0")
    case True
    then show ?thesis using assms nr st by (auto simp: ApplyBatch_def Let_def)
  next
    case False
    show ?thesis
    proof (cases "checksum n")
      case None
      then show ?thesis using assms nr st False by (auto simp: ApplyBatch_def Let_def)
    next
      case (Some c)
      let ?n = "n\<lparr>cs_Checksum := c\<rparr>"
      have inv: "ctrl_inv ?n" using st(1) by (auto simp: ctrl_inv_def)
      obtain e d2 where sv: "save d ?n = (e, d2)" by fastforce
      show ?thesis
      proof (cases e)
        case None
        then have "sm' = \<lparr>sm_state = ?n, sm_degraded = False\<rparr>" "d' = d2" "err = None"
          "out = \<lparr>br_Results = rs, br_FinalState = ?n\<rparr>"
          using assms(1) nr False Some sv by (auto simp: ApplyBatch_def Let_def)
        then show ?thesis using save_ok [of d ?n d2] sv None inv st(2) by auto
      next
        case err: (Some x)
        then have "sm' = sm\<lparr>sm_degraded := True\<rparr>" "d' = d2" "err = Some (FsmStoreErr x)"
          "out = \<lparr>br_Results = rs, br_FinalState = zero_state\<rparr>"
          using assms(1) nr False Some sv by (auto simp: ApplyBatch_def Let_def)
        then show ?thesis using save_failed [of d ?n x d2] sv err inv st(2) assms(2) by auto
      qed
    qed
  qed
qed

end

text \<open>The state file is such a store.\<close>

lemma save_steps_cases:
  "save_steps fault data temp_steps dir = (e, dir') \<Longrightarrow>
    (e = None \<longrightarrow> sd_main dir' = Some data \<and> sd_temp dir' = None)
    \<and> (e \<noteq> None \<longrightarrow> sd_temp dir' = None
        \<and> (sd_main dir' = sd_main dir \<or> (fault SyncDir \<noteq> None \<and> sd_main dir' = Some data)))"
  by (auto simp: temp_steps_def save_cleanup_def split: option.splits)

definition file_holds ::
  "(ClusterState \<Rightarrow> u8 list option) \<Rightarrow> (ClusterState \<Rightarrow> u8 list option) \<Rightarrow> u8 list option \<Rightarrow> ClusterState \<Rightarrow> bool" where
  "file_holds view marshal file s \<longleftrightarrow> (\<exists>data. StateEncode view marshal s = Inr data \<and> file = Some data)"

lemma Save_cases:
  assumes "Save view marshal fault dir s = (e, dir')"
  shows "(e = None \<longrightarrow> file_holds view marshal (sd_main dir') s)
    \<and> (e \<noteq> None \<longrightarrow> sd_main dir' = sd_main dir \<or> (fault SyncDir \<noteq> None \<and> file_holds view marshal (sd_main dir') s))"
proof (cases "StateEncode view marshal s")
  case (Inl x)
  then show ?thesis using assms by (auto simp: Save_def split: option.splits)
next
  case (Inr data)
  show ?thesis
  proof (cases "fault CtxAtStart = None \<and> fault CtxAfterEncode = None")
    case True
    then have "save_steps fault data temp_steps dir = (e, dir')" using assms Inr by (simp add: Save_def)
    from save_steps_cases [OF this] show ?thesis using Inr by (auto simp: file_holds_def)
  next
    case False
    then show ?thesis using assms Inr by (auto simp: Save_def split: option.splits)
  qed
qed

interpretation state_file: state_store "Save view marshal fault" sd_main "file_holds view marshal" for view marshal fault
  by unfold_locales (use Save_cases in fastforce)+

section \<open>Properties\<close>

text \<open>
  C5: a command applied to a valid state leaves a valid state. Either it changes the state and the
  revision goes up by exactly one, or the state is left alone and the command is reported as a no-op or as
  rejected, never as both.
\<close>

theorem command_outcome:
  assumes inv: "ctrl_inv s" and app: "applyMutation s i cmd = (s', r)"
  shows "ctrl_inv s' \<and> (ar_Changed r \<longleftrightarrow> s' \<noteq> s)
    \<and> (ar_Changed r \<longrightarrow> \<not> ar_Noop r \<and> \<not> ar_Rejected r \<and> Validate s' = None
        \<and> unat (cs_Revision s') = Suc (unat (cs_Revision s)))
    \<and> (\<not> ar_Changed r \<longrightarrow> ar_Noop r \<noteq> ar_Rejected r)"
proof -
  have out: "fsm_outcome s (s', r)" using applyMutation_outcome [OF inv, of i cmd] app by simp
  then consider "s' = s" "\<exists>reason. r = noop reason \<or> r = reject reason"
    | "r = changed" "Validate s' = None" "cs_Revision s' = cs_Revision s + 1"
    by (auto simp: fsm_outcome_def)
  then show ?thesis
  proof cases
    case 1
    then show ?thesis using inv by auto
  next
    case 2
    then have "cs_Revision s + 1 \<noteq> 0" using valid_revision by metis
    then have "unat (cs_Revision s') = Suc (unat (cs_Revision s))" using 2(3) unatSuc [of "cs_Revision s"] by (simp add: add.commute)
    then show ?thesis using 2 outcome_inv [OF inv out] by auto
  qed
qed

text \<open>
  Compare-and-set: a command that names a revision other than the current one changes nothing,
  whatever its kind, initialisation apart.
\<close>

lemma cas_guard:
  assumes "cm_ExpectedRevision cmd = Some expected" "expected \<noteq> cs_Revision s" "cm_Kind cmd \<noteq> KindInitClusterState"
  shows "\<exists>r. applyMutation s i cmd = (s, r) \<and> \<not> ar_Changed r"
proof -
  have "revision_mismatch s cmd" using assms by (simp add: revision_mismatch_def)
  then obtain r where r: "mutation_guard s cmd = Some r" using mismatch_guarded by blast
  then have "applyMutation s i cmd = (s, r)" using assms(3) by (simp add: applyMutation_def)
  then show ?thesis using mutation_guard_refuses [OF r] by auto
qed

text \<open>
  a batch is its commands one by one: for entries in the order of the Raft log, applying them as one
  batch that is saved once gives the same results and the same published state as applying and saving
  each on its own, when the saves succeed.
\<close>

lemma batch_is_sequential:
  assumes inv: "ctrl_inv (sm_state sm)" and log: "sorted_wrt (<) (map ac_Index es)" "es \<noteq> []"
    and total: "\<And>s. view s \<noteq> None" and saves: "\<And>d s. fst (save d s) = None"
  shows "\<exists>sm' d' out. ApplyBatch (Checksum view) save sm d es = (sm', d', out, None)
    \<and> apply_each (Checksum view) save sm d es = (sm', br_Results out)"
proof -
  obtain s' rs where ent: "apply_entries (sm_state sm) (sm_state sm) es = (s', rs)" by fastforce
  have ck: "Checksum view s \<noteq> None" for s using total by (simp add: Checksum_def split: option.split)
  have ready: "log_ready (sm_state sm) (sm_state sm) es" using log(1) by (simp add: log_ready_def)
  have self: "sm_state sm = (sm_state sm)\<lparr>cs_Checksum := cs_Checksum (sm_state sm)\<rparr>" by simp
  obtain sm' where each: "apply_each (Checksum view) save sm d es = (sm', rs)"
    "cs_Revision s' \<noteq> 0 \<longrightarrow> es \<noteq> [] \<longrightarrow>
       sm' = \<lparr>sm_state = s'\<lparr>cs_Checksum := the (Checksum view s')\<rparr>, sm_degraded = False\<rparr>"
    "cs_Revision s' = 0 \<longrightarrow> sm' = sm"
    using durable.batch_from_marked [where save = save and sm = sm and d = d, OF ck saves ready inv self ent] by blast
  obtain c where c: "Checksum view s' = Some c" using ck by blast
  obtain d' where d': "save d (s'\<lparr>cs_Checksum := c\<rparr>) = (None, d')" using saves by (metis prod.collapse)
  show ?thesis using each log(2) c d' by (cases "cs_Revision s' = 0") (auto simp: ApplyBatch_def Let_def ent)
qed

text \<open>
  C6: what is published is durable: after a batch without error the state file holds the published
  state; after any failure the published state is the old one, the machine is degraded, and the file holds
  what it held before or a valid state that the batch computed. Every entry has its result.
\<close>

theorem batch_durable:
  assumes "ctrl_inv (sm_state sm)"
    and "ApplyBatch (Checksum view) (Save view marshal fault) sm dir es = (sm', dir', out, err)"
  shows "ctrl_inv (sm_state sm') \<and> length (br_Results out) = length es
    \<and> (err = None \<longrightarrow> cs_Revision (sm_state sm') \<noteq> 0 \<longrightarrow>
         file_holds view marshal (sd_main dir') (sm_state sm') \<and> \<not> sm_degraded sm')
    \<and> (err \<noteq> None \<longrightarrow> sm_state sm' = sm_state sm \<and> sm_degraded sm'
         \<and> (sd_main dir' = sd_main dir \<or> (\<exists>s. file_holds view marshal (sd_main dir') s \<and> ctrl_inv s)))"
  using state_file.batch_effect [OF assms(2,1)] by blast

lemma replayed_entries:
  "cs_Revision s \<noteq> 0 \<Longrightarrow> \<forall>e\<in>set es. ac_Index e \<le> cs_AppliedRaftIndex s \<Longrightarrow>
    apply_entries s s es = (s, map (\<lambda>_. (noop ReasonAlreadyApplied)\<lparr>ar_Revision := cs_Revision s,
        ar_AppliedRaftIndex := cs_AppliedRaftIndex s\<rparr>) es)"
  by (induction es) (auto simp: apply_entry_def)

text \<open>
  C21: replay: a batch that was applied and is delivered again, whether its save then succeeds or fails,
  changes nothing, and each of its entries is reported as already applied.
\<close>

theorem batch_replay:
  assumes inv: "ctrl_inv (sm_state sm)" and log: "sorted_wrt (<) (map ac_Index es)" "es \<noteq> []"
    and first: "ApplyBatch (Checksum view) save sm d es = (sm1, d1, out1, None)" and born: "cs_Revision (sm_state sm1) \<noteq> 0"
    and again: "ApplyBatch (Checksum view) save' sm1 d1 es = (sm2, d2, out2, err)"
  shows "sm_state sm2 = sm_state sm1
    \<and> (\<forall>r\<in>set (br_Results out2). ar_Noop r \<and> ar_Reason r = ReasonAlreadyApplied)"
proof -
  obtain n rs where ent: "apply_entries (sm_state sm) (sm_state sm) es = (n, rs)" by fastforce
  have st: "cs_Revision (sm_state sm) \<noteq> 0 \<longrightarrow> cs_Revision n \<noteq> 0"
    "cs_Revision n \<noteq> 0 \<longrightarrow> ac_Index (last es) \<le> cs_AppliedRaftIndex n"
    using apply_entries_state [OF inv, of "sm_state sm" es] ent log(2) by auto
  have n: "cs_Revision n \<noteq> 0"
  proof
    assume "cs_Revision n = 0"
    moreover then have "sm1 = sm" using first ent by (simp add: ApplyBatch_def Let_def)
    ultimately show False using st(1) born by simp
  qed
  then obtain c where c: "Checksum view n = Some c" and s1: "sm_state sm1 = n\<lparr>cs_Checksum := c\<rparr>"
    using first ent by (auto simp: ApplyBatch_def Let_def split: option.splits prod.splits)
  have "ac_Index e \<le> ac_Index (last es)" if "e \<in> set es" for e
    using that log by (induction es) (auto intro: less_imp_le)
  then have old: "\<forall>e\<in>set es. ac_Index e \<le> cs_AppliedRaftIndex (sm_state sm1)"
    using st(2) n s1 by (auto intro: order_trans)
  have c1: "Checksum view (sm_state sm1) = Some c" using c unfolding s1 durable.ignores_itself .
  note rep = replayed_entries [OF born old]
  show ?thesis
  proof (cases "save' d1 (sm_state sm1)")
    case (Pair e d3)
    have eq: "(sm_state sm1)\<lparr>cs_Checksum := c\<rparr> = sm_state sm1" using s1 by simp
    show ?thesis using again born Pair
      by (cases e) (auto simp: ApplyBatch_def Let_def rep c1 eq)
  qed
qed

lemma checksum_nonempty: "Checksum view s = Some c \<Longrightarrow> c \<noteq> []"
  by (auto simp: Checksum_def split: option.splits)

text \<open>
  what a save without failures writes, a load reads back as the normal form of the state with its
  checksum, valid and fit for the machine; the hypothesis is that \<open>encoding/json\<close> reads back the text
  it wrote for this state.
\<close>

lemma save_load:
  assumes "\<And>step. fault step = None" and "StateEncode view marshal st = Inr data"
    and "unmarshal data = Some ((Normalize st)\<lparr>cs_Checksum := the (Checksum view (Normalize st))\<rparr>)"
  shows "\<exists>dir' st'. Save view marshal fault dir st = (None, dir') \<and> sd_temp dir' = None
    \<and> LoadFile view unmarshal dir' = FileState st' \<and> ctrl_inv st' \<and> cs_Revision st' \<noteq> 0
    \<and> st'\<lparr>cs_Checksum := cs_Checksum st\<rparr> = Normalize st"
proof -
  let ?n = "Normalize st" and ?c = "the (Checksum view (Normalize st))"
  obtain c where v: "Validate ?n = None" "Checksum view ?n = Some c"
    using assms(2) by (auto simp: StateEncode_def Let_def split: option.splits)
  have wf: "well_formed ?n" using v(1) Validate_None [of ?n] by (simp add: Normalize_idem)
  obtain dir' where sv: "Save view marshal fault dir st = (None, dir')" "sd_main dir' = Some data" "sd_temp dir' = None"
  proof -
    have "fst (Save view marshal fault dir st) = None" "sd_main (snd (Save view marshal fault dir st)) = Some data"
      "sd_temp (snd (Save view marshal fault dir st)) = None"
      using assms(1,2) by (simp_all add: Save_def temp_steps_def)
    then show thesis using that by (metis prod.collapse)
  qed
  have load: "LoadFile view unmarshal dir' = FileState (?n\<lparr>cs_Checksum := c\<rparr>)"
    using sv(2) assms(3) v wf checksum_nonempty [OF v(2)]
    by (simp add: LoadFile_def StateDecode_def Let_def durable.ignores_itself Normalize_idem well_formed_def)
  show ?thesis
    using sv load v wf by (intro exI [of _ dir'] exI [of _ "?n\<lparr>cs_Checksum := c\<rparr>"])
      (simp add: ctrl_inv_def Normalize_idem well_formed_def)
qed

section \<open>Instances\<close>

definition live_state :: ClusterState where
  "live_state = Normalize demo_state"

definition join_command :: Command where
  "join_command = (blank_command KindUpsertNode)\<lparr>cm_Node := Some (demo_node 3), cm_ExpectedRevision := Some 1\<rparr>"

definition join_entry :: "u64 \<Rightarrow> AppliedCommand" where
  "join_entry i = \<lparr>ac_Index = i, ac_Term = 1, ac_Command = join_command\<rparr>"

definition live_machine :: StateMachine where
  "live_machine = \<lparr>sm_state = live_state, sm_degraded = False\<rparr>"

text \<open>A text that says nothing, a text for every state, and a store that takes everything.\<close>

definition some_text :: "ClusterState \<Rightarrow> u8 list option" where
  "some_text s = Some []"

definition keep :: "unit \<Rightarrow> ClusterState \<Rightarrow> string option \<times> unit" where
  "keep d s = (None, ())"

lemma live_inv: "ctrl_inv live_state" "ctrl_inv (sm_state live_machine)" "cs_Revision live_state = 1"
  using demo_state_valid validate_decides [of demo_state]
  by (simp_all add: ctrl_inv_def live_state_def live_machine_def Normalize_idem) (simp add: demo_state_def)

lemma join_changes: "ar_Changed (snd (applyMutation live_state 5 join_command))"
  by code_simp

theorem command_outcome_witness:
  "Validate (fst (applyMutation live_state 5 join_command)) = None
   \<and> cs_Revision (fst (applyMutation live_state 5 join_command)) \<noteq> 1"
proof -
  obtain s' r where sr: "applyMutation live_state 5 join_command = (s', r)" by fastforce
  have "ar_Changed r" using join_changes sr by simp
  then show ?thesis using command_outcome [OF live_inv(1) sr] live_inv(3) sr by auto
qed

theorem batch_is_sequential_witness:
  "\<exists>sm' d' out. ApplyBatch (Checksum some_text) keep live_machine () [join_entry 5, join_entry 6] = (sm', d', out, None)
    \<and> apply_each (Checksum some_text) keep live_machine () [join_entry 5, join_entry 6] = (sm', br_Results out)"
  by (rule batch_is_sequential) (simp_all add: live_inv join_entry_def some_text_def keep_def)

lemma join_batch:
  obtains sm' d' out where "ApplyBatch (Checksum some_text) keep live_machine () [join_entry 5] = (sm', d', out, None)"
    "cs_Revision (sm_state sm') \<noteq> 0"
proof -
  obtain n rs where ent: "apply_entries live_state live_state [join_entry 5] = (n, rs)" by fastforce
  have "cs_Revision n \<noteq> 0" using apply_entries_state [OF live_inv(1), of live_state "[join_entry 5]"] ent live_inv(3) by simp
  moreover obtain c where "Checksum some_text n = Some c" by (simp add: Checksum_def some_text_def)
  ultimately show thesis using ent that by (simp add: ApplyBatch_def Let_def live_machine_def keep_def)
qed

theorem batch_durable_witness:
  "\<exists>sm' dir' out. ApplyBatch (Checksum some_text) (Save some_text some_text (\<lambda>step. if step = SyncDir then Some ''io'' else None))
      live_machine \<lparr>sd_main = None, sd_temp = None\<rparr> [join_entry 5] = (sm', dir', out, Some (FsmStoreErr ''io''))
    \<and> sm_state sm' = live_state \<and> sm_degraded sm'"
proof -
  let ?fault = "\<lambda>step. if step = SyncDir then Some ''io'' else None"
  let ?dir = "\<lparr>sd_main = None, sd_temp = None\<rparr> :: StateDir"
  obtain n rs where ent: "apply_entries live_state live_state [join_entry 5] = (n, rs)" by fastforce
  have n: "ctrl_inv n" "cs_Revision n \<noteq> 0"
    using apply_entries_state [OF live_inv(1), of live_state "[join_entry 5]"] ent live_inv(3) by simp_all
  obtain c where c: "Checksum some_text n = Some c" by (simp add: Checksum_def some_text_def)
  have "StateEncode some_text some_text (n\<lparr>cs_Checksum := c\<rparr>) = Inr []"
    using n c by (simp add: StateEncode_def Let_def ctrl_inv_def durable.ignores_itself some_text_def)
  then have "\<exists>dir'. Save some_text some_text ?fault ?dir (n\<lparr>cs_Checksum := c\<rparr>) = (Some ''io'', dir')"
    by (simp add: Save_def temp_steps_def)
  then obtain sm' dir' out where app: "ApplyBatch (Checksum some_text) (Save some_text some_text ?fault)
      live_machine ?dir [join_entry 5] = (sm', dir', out, Some (FsmStoreErr ''io''))"
    using ent n(2) c by (auto simp: ApplyBatch_def Let_def live_machine_def)
  then show ?thesis using batch_durable [OF live_inv(2) app] by (simp add: live_machine_def)
qed

theorem batch_replay_witness:
  "\<exists>sm1 sm2 d2 out2 err. ApplyBatch (Checksum some_text) keep sm1 () [join_entry 5] = (sm2, d2, out2, err)
    \<and> sm_state sm2 = sm_state sm1 \<and> (\<forall>r\<in>set (br_Results out2). ar_Noop r)"
proof -
  obtain sm1 d1 out1 where first: "ApplyBatch (Checksum some_text) keep live_machine () [join_entry 5] = (sm1, d1, out1, None)"
    "cs_Revision (sm_state sm1) \<noteq> 0" by (rule join_batch)
  obtain sm2 d2 out2 err where again: "ApplyBatch (Checksum some_text) keep sm1 d1 [join_entry 5] = (sm2, d2, out2, err)"
    by (metis prod.collapse)
  then show ?thesis using batch_replay [OF live_inv(2) _ _ first again] by (cases d1) auto
qed

theorem save_load_witness:
  "\<exists>dir' st' unmarshal. Save some_text some_text (\<lambda>_. None) \<lparr>sd_main = None, sd_temp = None\<rparr> demo_state = (None, dir')
    \<and> LoadFile some_text unmarshal dir' = FileState st' \<and> ctrl_inv st'"
proof -
  have "Validate (Normalize demo_state) = None" using demo_state_valid validate_decides [of demo_state] by simp
  then have "StateEncode some_text some_text demo_state = Inr []"
    by (simp add: StateEncode_def Let_def Checksum_def some_text_def)
  then show ?thesis
    using save_load [of "\<lambda>_. None" some_text some_text demo_state "[]"
        "\<lambda>_. Some ((Normalize demo_state)\<lparr>cs_Checksum := the (Checksum some_text (Normalize demo_state))\<rparr>)"]
    by blast
qed

end
