(* ===== verification/CtrlPlanner.thy ===== *)
theory CtrlPlanner
  imports CtrlFSM
begin

text \<open>
  The bootstrap planner, \<open>pkg/controllerv2/planner\<close>: which slot to place next, on which nodes and
  under which preferred leader. The context of \<open>Next\<close> is taken to be alive, so it returns no error; the
  counters kept in maps are functions with Go's zero value.
\<close>

section \<open>Decisions\<close>

datatype DecisionKind = DecisionKindNone | DecisionKindBlocked | DecisionKindCommand

record Decision =
  dc_Kind :: DecisionKind
  dc_Reason :: string
  dc_Command :: "Command option"

record View =
  vw_State :: ClusterState
  vw_Now :: Time

definition reasonNoMissingSlot :: string where "reasonNoMissingSlot = ''no_missing_slot''"
definition reasonInvalidReplicaCount :: string where "reasonInvalidReplicaCount = ''invalid_replica_count''"
definition reasonInsufficientDataNodes :: string where "reasonInsufficientDataNodes = ''insufficient_data_nodes''"

section \<open>Candidates\<close>

record candidateNode =
  cd_nodeID :: u64
  cd_weight :: u64
  cd_load :: u64
  cd_tie :: u64

definition eligible :: "Node \<Rightarrow> bool" where
  "eligible node \<longleftrightarrow> HasRole node NodeRoleData \<and> nd_JoinState node = NodeJoinStateActive \<and> nd_Status node = NodeStatusAlive"

definition candidate_of :: "Node \<Rightarrow> candidateNode" where
  "candidate_of node =
     (let weight = (if nd_CapacityWeight node = 0 then 1 else nd_CapacityWeight node)
      in \<lparr>cd_nodeID = nd_NodeID node, cd_weight = ucast weight, cd_load = 0, cd_tie = 0\<rparr>)"

definition eligibleDataNodes :: "Node list \<Rightarrow> candidateNode list" where
  "eligibleDataNodes nodes =
     sort_by (\<lambda>a b. cd_nodeID a < cd_nodeID b) (map candidate_of (filter eligible nodes))"

definition lowestMissingSlot :: "ClusterState \<Rightarrow> u32 option" where
  "lowestMissingSlot st =
     List.find (\<lambda>slotID. slotID \<notin> sa_SlotID ` set (cs_Slots st) \<and> slotID \<notin> rt_SlotID ` set (cs_Tasks st))
       (map of_nat [1..<Suc (unat (cc_SlotCount (cs_Config st)))])"

definition add_load :: "(u64 \<Rightarrow> u64) \<Rightarrow> u64 \<Rightarrow> (u64 \<Rightarrow> u64)" where
  "add_load load node = load(node := load node + 1)"

definition desiredPeerLoad :: "SlotAssignment list \<Rightarrow> u64 \<Rightarrow> u64" where
  "desiredPeerLoad assignments =
     foldl (\<lambda>load assignment. foldl add_load load (sa_DesiredPeers assignment)) (\<lambda>_. 0) assignments"

definition preferredLeaderLoad :: "SlotAssignment list \<Rightarrow> u64 \<Rightarrow> u64" where
  "preferredLeaderLoad assignments =
     foldl (\<lambda>load assignment.
        if sa_PreferredLeader assignment \<noteq> 0 then add_load load (sa_PreferredLeader assignment) else load)
       (\<lambda>_. 0) assignments"

definition stableTie :: "u32 \<Rightarrow> u64 \<Rightarrow> u64 \<Rightarrow> u64" where
  "stableTie slotID nodeID candidateCount =
     (if candidateCount = 0 then 0 else (ucast slotID + nodeID) mod candidateCount)"

text \<open>\<open>bits.Mul64\<close>: the 128-bit product as its high and low halves.\<close>

definition Mul64 :: "u64 \<Rightarrow> u64 \<Rightarrow> u64 \<times> u64" where
  "Mul64 x y = (word_of_int (uint x * uint y div 2 ^ 64), word_of_int (uint x * uint y mod 2 ^ 64))"

definition compareWeightedLoad :: "candidateNode \<Rightarrow> candidateNode \<Rightarrow> int" where
  "compareWeightedLoad a b =
     (let (leftHi, leftLo) = Mul64 (cd_load a) (cd_weight b);
          (rightHi, rightLo) = Mul64 (cd_load b) (cd_weight a)
      in if leftHi \<noteq> rightHi then (if leftHi < rightHi then - 1 else 1)
         else if leftLo < rightLo then - 1
         else if leftLo > rightLo then 1
         else 0)"

section \<open>Selection\<close>

definition peer_less :: "candidateNode \<Rightarrow> candidateNode \<Rightarrow> bool" where
  "peer_less a b =
     (let cmp = compareWeightedLoad a b
      in if cmp \<noteq> 0 then cmp < 0
         else if cd_tie a \<noteq> cd_tie b then cd_tie a < cd_tie b
         else cd_nodeID a < cd_nodeID b)"

definition leader_less :: "candidateNode \<Rightarrow> candidateNode \<Rightarrow> bool" where
  "leader_less a b =
     (if cd_load a \<noteq> cd_load b then cd_load a < cd_load b
      else if cd_tie a \<noteq> cd_tie b then cd_tie a < cd_tie b
      else cd_nodeID a < cd_nodeID b)"

definition rank_candidate :: "u32 \<Rightarrow> nat \<Rightarrow> (u64 \<Rightarrow> u64) \<Rightarrow> candidateNode \<Rightarrow> candidateNode" where
  "rank_candidate slotID candidateCount load c =
     c\<lparr>cd_load := load (cd_nodeID c), cd_tie := stableTie slotID (cd_nodeID c) (of_nat candidateCount)\<rparr>"

definition selectPeers :: "u32 \<Rightarrow> candidateNode list \<Rightarrow> (u64 \<Rightarrow> u64) \<Rightarrow> nat \<Rightarrow> candidateNode list" where
  "selectPeers slotID candidates load replicaCount =
     take replicaCount (sort_by peer_less (map (rank_candidate slotID (length candidates) load) candidates))"

definition selectPreferredLeader :: "u32 \<Rightarrow> candidateNode list \<Rightarrow> nat \<Rightarrow> (u64 \<Rightarrow> u64) \<Rightarrow> u64" where
  "selectPreferredLeader slotID selected candidateCount load =
     cd_nodeID (sort_by leader_less (map (rank_candidate slotID candidateCount load) selected) ! 0)"

definition selectedNodeIDs :: "candidateNode list \<Rightarrow> u64 list" where
  "selectedNodeIDs selected = map cd_nodeID selected"

definition bootstrapParticipantProgress :: "u64 list \<Rightarrow> TaskParticipantProgress list" where
  "bootstrapParticipantProgress peers =
     map (\<lambda>peerID. \<lparr>tp_NodeID = peerID, tp_Attempt = 0, tp_Status = ParticipantPending, tp_LastError = []\<rparr>) peers"

section \<open>The next command\<close>

text \<open>\<open>%d\<close> of a non-negative number.\<close>

fun decimal :: "nat \<Rightarrow> string" where
  "decimal n = (if n < 10 then [''0123456789'' ! n] else decimal (n div 10) @ [''0123456789'' ! (n mod 10)])"

declare decimal.simps [simp del]

definition bootstrap_assignment :: "u32 \<Rightarrow> u64 list \<Rightarrow> u64 \<Rightarrow> SlotAssignment" where
  "bootstrap_assignment slotID peers leader =
     \<lparr>sa_SlotID = slotID, sa_DesiredPeers = peers, sa_ConfigEpoch = 1, sa_PreferredLeader = leader\<rparr>"

definition bootstrap_task :: "u32 \<Rightarrow> u64 list \<Rightarrow> u64 \<Rightarrow> ReconcileTask" where
  "bootstrap_task slotID peers leader =
     \<lparr>rt_TaskID = ''slot-'' @ decimal (unat slotID) @ ''-bootstrap-'' @ decimal 1, rt_SlotID = slotID,
      rt_Kind = TaskKindBootstrap, rt_Step = TaskStepCreateSlot, rt_SourceNode = 0, rt_TargetNode = leader,
      rt_TargetPeers = peers, rt_CompletionPolicy = PolicyAllTargetPeers,
      rt_ParticipantProgress = bootstrapParticipantProgress peers, rt_ConfigEpoch = 1, rt_Attempt = 0,
      rt_Status = TaskStatusPending, rt_LastError = [], rt_PhaseIndex = 0, rt_ObservedConfigIndex = 0,
      rt_ObservedVoters = [], rt_ObservedLearners = []\<rparr>"

definition Next :: "View \<Rightarrow> Decision" where
  "Next view =
     (let st = vw_State view; replicaCount = unat (cc_ReplicaCount (cs_Config st))
      in if replicaCount \<le> 0
         then \<lparr>dc_Kind = DecisionKindBlocked, dc_Reason = reasonInvalidReplicaCount, dc_Command = None\<rparr>
         else case lowestMissingSlot st of
             None \<Rightarrow> \<lparr>dc_Kind = DecisionKindNone, dc_Reason = reasonNoMissingSlot, dc_Command = None\<rparr>
           | Some slotID \<Rightarrow>
               let candidates = eligibleDataNodes (cs_Nodes st)
               in if length candidates < replicaCount
                  then \<lparr>dc_Kind = DecisionKindBlocked, dc_Reason = reasonInsufficientDataNodes, dc_Command = None\<rparr>
                  else
                    let peerLoad = desiredPeerLoad (cs_Slots st);
                        leaderLoad = preferredLeaderLoad (cs_Slots st);
                        selected = selectPeers slotID candidates peerLoad replicaCount;
                        leader = selectPreferredLeader slotID selected (length candidates) leaderLoad;
                        peers = sort_by (<) (selectedNodeIDs selected)
                    in \<lparr>dc_Kind = DecisionKindCommand, dc_Reason = [],
                        dc_Command = Some ((blank_command KindUpsertSlotAssignmentAndTask)
                          \<lparr>cm_IssuedAt := vw_Now view, cm_ExpectedRevision := Some (cs_Revision st),
                           cm_Assignment := Some (bootstrap_assignment slotID peers leader),
                           cm_Task := Some (bootstrap_task slotID peers leader)\<rparr>)\<rparr>)"

section \<open>The planner tick\<close>

text \<open>
  \<open>Server.TickPlanner\<close> of \<open>pkg/controllerv2/server/server.go\<close>. The state source and the proposer are
  interfaces the server may have been given or not: functions on the world \<open>'w\<close> they act on. The result is the
  error, the local state and the world.
\<close>

definition errStateSourceRequired :: string where
  "errStateSourceRequired = ''controllerv2/server: state source is required for planner command decisions''"

definition errProposerRequired :: string where
  "errProposerRequired = ''controllerv2/server: proposer is required''"

definition localStateSnapshot :: "('w \<Rightarrow> ClusterState) option \<Rightarrow> ClusterState \<Rightarrow> 'w \<Rightarrow> ClusterState" where
  "localStateSnapshot stateSource localState w = (case stateSource of None \<Rightarrow> localState | Some snapshot \<Rightarrow> snapshot w)"

definition TickPlanner ::
    "('w \<Rightarrow> ClusterState) option \<Rightarrow> (Command \<Rightarrow> 'w \<Rightarrow> string option \<times> 'w) option \<Rightarrow> Time
      \<Rightarrow> ClusterState \<Rightarrow> 'w \<Rightarrow> string option \<times> ClusterState \<times> 'w" where
  "TickPlanner stateSource proposer now localState w =
     (let localState = localStateSnapshot stateSource localState w;
          decision = Next \<lparr>vw_State = localState, vw_Now = now\<rparr>
      in if dc_Kind decision \<noteq> DecisionKindCommand then (None, localState, w)
         else if stateSource = None then (Some errStateSourceRequired, localState, w)
         else case proposer of
             None \<Rightarrow> (Some errProposerRequired, localState, w)
           | Some propose \<Rightarrow>
               (case propose (the (dc_Command decision)) w of
                  (Some err, w) \<Rightarrow> (Some err, localState, w)
                | (None, w) \<Rightarrow> (None, localStateSnapshot stateSource localState w, w)))"

end
