(* ===== verification/CtrlPlannerSafety.thy ===== *)
theory CtrlPlannerSafety
  imports CtrlPlanner CtrlStoreSafety
begin

text \<open>
  The planner against the state machine: which nodes it picks, that the state machine accepts what it
  proposes, and that repeating it places every slot.
\<close>

section \<open>Weighted loads\<close>

lemma halves:
  fixes p q :: nat
  assumes "p < 2 ^ 128" "q < 2 ^ 128"
  shows "(of_nat (p div 2 ^ 64) :: u64) = of_nat (q div 2 ^ 64) \<longleftrightarrow> p div 2 ^ 64 = q div 2 ^ 64"
    "(of_nat (p div 2 ^ 64) :: u64) < of_nat (q div 2 ^ 64) \<longleftrightarrow> p div 2 ^ 64 < q div 2 ^ 64"
    "(of_nat (p mod 2 ^ 64) :: u64) < of_nat (q mod 2 ^ 64) \<longleftrightarrow> p mod 2 ^ 64 < q mod 2 ^ 64"
proof -
  have u: "unat (of_nat x :: u64) = x" if "x < 2 ^ 64" for x
    using that by (simp add: unsigned_of_nat take_bit_nat_eq_self)
  have d: "p div 2 ^ 64 < 2 ^ 64" "q div 2 ^ 64 < 2 ^ 64" using assms by (simp_all add: div_less_iff_less_mult)
  have m: "p mod 2 ^ 64 < 2 ^ 64" "q mod 2 ^ 64 < 2 ^ 64" by simp_all
  show "(of_nat (p div 2 ^ 64) :: u64) = of_nat (q div 2 ^ 64) \<longleftrightarrow> p div 2 ^ 64 = q div 2 ^ 64"
    unfolding word_unat_eq_iff u [OF d(1)] u [OF d(2)] ..
  show "(of_nat (p div 2 ^ 64) :: u64) < of_nat (q div 2 ^ 64) \<longleftrightarrow> p div 2 ^ 64 < q div 2 ^ 64"
    unfolding word_less_nat_alt u [OF d(1)] u [OF d(2)] ..
  show "(of_nat (p mod 2 ^ 64) :: u64) < of_nat (q mod 2 ^ 64) \<longleftrightarrow> p mod 2 ^ 64 < q mod 2 ^ 64"
    unfolding word_less_nat_alt u [OF m(1)] u [OF m(2)] ..
qed

lemma Mul64_nat: "Mul64 x y = (of_nat (unat x * unat y div 2 ^ 64), of_nat (unat x * unat y mod 2 ^ 64))"
proof -
  have w: "(of_nat n :: u64) = word_of_int (int n)" for n by simp
  have u: "int (unat x * unat y) = uint x * uint y" by simp
  show ?thesis unfolding Mul64_def w of_nat_div zmod_int u by simp
qed

lemma div_mod_less:
  fixes p q m :: nat
  assumes "0 < m"
  shows "p < q \<longleftrightarrow> p div m < q div m \<or> (p div m = q div m \<and> p mod m < q mod m)"
proof (cases "p div m = q div m")
  case True
  then show ?thesis using div_mult_mod_eq [of p m] div_mult_mod_eq [of q m] by (metis add_less_cancel_left less_irrefl)
next
  case False
  then show ?thesis by (metis div_le_mono leD le_neq_implies_less less_imp_le_nat linorder_neqE_nat)
qed

definition weighted :: "candidateNode \<Rightarrow> candidateNode \<Rightarrow> nat" where
  "weighted a b = unat (cd_load a) * unat (cd_weight b)"

lemma compareWeightedLoad_eq:
  "compareWeightedLoad a b = (if weighted a b < weighted b a then - 1 else if weighted b a < weighted a b then 1 else 0)"
proof -
  have bound: "unat x * unat y < 2 ^ 128" for x y :: u64
  proof -
    have "unat x < 2 ^ 64" "unat y < 2 ^ 64" using unsigned_less [of x] unsigned_less [of y] by simp_all
    then have "unat x * unat y < 2 ^ 64 * 2 ^ 64" by (intro mult_strict_mono') simp_all
    then show ?thesis by simp
  qed
  let ?p = "unat (cd_load a) * unat (cd_weight b)" and ?q = "unat (cd_load b) * unat (cd_weight a)"
  note hp = halves [OF bound [of "cd_load a" "cd_weight b"] bound [of "cd_load b" "cd_weight a"]]
  note hq = halves [OF bound [of "cd_load b" "cd_weight a"] bound [of "cd_load a" "cd_weight b"]]
  have l: "?p < ?q \<longleftrightarrow> ?p div 2 ^ 64 < ?q div 2 ^ 64 \<or> (?p div 2 ^ 64 = ?q div 2 ^ 64 \<and> ?p mod 2 ^ 64 < ?q mod 2 ^ 64)"
    and g: "?q < ?p \<longleftrightarrow> ?q div 2 ^ 64 < ?p div 2 ^ 64 \<or> (?q div 2 ^ 64 = ?p div 2 ^ 64 \<and> ?q mod 2 ^ 64 < ?p mod 2 ^ 64)"
    by (rule div_mod_less, simp)+
  show ?thesis
    unfolding compareWeightedLoad_def Mul64_nat Let_def prod.case weighted_def hp hq l g by auto
qed

lemma peer_less_iff:
  "peer_less a b \<longleftrightarrow> weighted a b < weighted b a
     \<or> (weighted a b = weighted b a \<and> (cd_tie a < cd_tie b \<or> (cd_tie a = cd_tie b \<and> cd_nodeID a < cd_nodeID b)))"
  by (auto simp: peer_less_def compareWeightedLoad_eq Let_def)

lemma weighted_trans:
  assumes "0 < unat (cd_weight a)" "0 < unat (cd_weight b)" "0 < unat (cd_weight c)"
    and "weighted a b \<le> weighted b a" "weighted b c \<le> weighted c b"
  shows "weighted a c \<le> weighted c a"
proof -
  have "weighted a c * unat (cd_weight b) = weighted a b * unat (cd_weight c)" by (simp add: weighted_def)
  also have "\<dots> \<le> weighted b a * unat (cd_weight c)" using assms(4) by simp
  also have "\<dots> = weighted b c * unat (cd_weight a)" by (simp add: weighted_def)
  also have "\<dots> \<le> weighted c b * unat (cd_weight a)" using assms(5) by simp
  also have "\<dots> = weighted c a * unat (cd_weight b)" by (simp add: weighted_def)
  finally show ?thesis using assms(2) by simp
qed

section \<open>The nodes picked\<close>

lemma sorted_wrt_insort_by_on:
  assumes tot: "\<And>a b c. a \<in> A \<Longrightarrow> b \<in> A \<Longrightarrow> c \<in> A \<Longrightarrow> \<not> lt b a \<Longrightarrow> \<not> lt c b \<Longrightarrow> \<not> lt c a"
    and asym: "\<And>a b. a \<in> A \<Longrightarrow> b \<in> A \<Longrightarrow> lt a b \<Longrightarrow> \<not> lt b a"
  shows "x \<in> A \<Longrightarrow> set xs \<subseteq> A \<Longrightarrow> sorted_wrt (\<lambda>a b. \<not> lt b a) xs \<Longrightarrow> sorted_wrt (\<lambda>a b. \<not> lt b a) (insort_by lt x xs)"
proof (induction xs)
  case (Cons y ys)
  have "set (insort_by lt x ys) = insert x (set ys)"
    by (metis mset_insort_by set_mset_add_mset_insert set_mset_mset)
  then show ?case
    using Cons tot [of x y] asym [of y x] by (cases "lt y x") auto
qed simp

lemma sorted_wrt_sort_by_on:
  assumes "\<And>a b c. a \<in> A \<Longrightarrow> b \<in> A \<Longrightarrow> c \<in> A \<Longrightarrow> \<not> lt b a \<Longrightarrow> \<not> lt c b \<Longrightarrow> \<not> lt c a"
    "\<And>a b. a \<in> A \<Longrightarrow> b \<in> A \<Longrightarrow> lt a b \<Longrightarrow> \<not> lt b a"
  shows "set xs \<subseteq> A \<Longrightarrow> sorted_wrt (\<lambda>a b. \<not> lt b a) (sort_by lt xs)"
proof (induction xs)
  case (Cons x xs)
  then show ?case using sorted_wrt_insort_by_on [of A lt, OF assms] by simp
qed simp

lemma peer_less_order:
  assumes "0 < unat (cd_weight a)" "0 < unat (cd_weight b)" "0 < unat (cd_weight c)"
  shows "\<not> peer_less b a \<Longrightarrow> \<not> peer_less c b \<Longrightarrow> \<not> peer_less c a"
proof -
  assume ab: "\<not> peer_less b a" and bc: "\<not> peer_less c b"
  then have le: "weighted a b \<le> weighted b a" "weighted b c \<le> weighted c b" by (auto simp: peer_less_iff)
  then have ac: "weighted a c \<le> weighted c a" by (rule weighted_trans [OF assms])
  show "\<not> peer_less c a"
  proof
    assume "peer_less c a"
    with ac have eq: "weighted a c = weighted c a" "cd_tie c < cd_tie a \<or> (cd_tie c = cd_tie a \<and> cd_nodeID c < cd_nodeID a)"
      by (auto simp: peer_less_iff)
    have "weighted b a \<le> weighted a b" by (rule weighted_trans [of b c a]) (use assms le eq in auto)
    moreover have "weighted c b \<le> weighted b c" by (rule weighted_trans [of c a b]) (use assms le eq in auto)
    ultimately have "cd_tie a < cd_tie b \<or> (cd_tie a = cd_tie b \<and> cd_nodeID a \<le> cd_nodeID b)"
      "cd_tie b < cd_tie c \<or> (cd_tie b = cd_tie c \<and> cd_nodeID b \<le> cd_nodeID c)"
      using ab bc le by (auto simp: peer_less_iff not_less)
    then show False using eq(2) by (auto dest: order_less_trans order_less_le_trans order_le_less_trans)
  qed
qed

lemma peer_less_asym: "peer_less a b \<Longrightarrow> \<not> peer_less b a"
  by (auto simp: peer_less_iff)

lemma selected_least:
  assumes pos: "\<forall>c\<in>set cs. 0 < unat (cd_weight c)"
    and ranked: "rs = map (rank_candidate slotID (length cs) load) cs"
    and x: "x \<in> set (selectPeers slotID cs load k)" and y: "y \<in> set rs" "y \<notin> set (selectPeers slotID cs load k)"
  shows "\<not> peer_less y x"
proof -
  let ?A = "{c. 0 < unat (cd_weight c)}"
  have sub: "set rs \<subseteq> ?A" using pos by (auto simp: ranked rank_candidate_def)
  have srt: "sorted_wrt (\<lambda>a b. \<not> peer_less b a) (sort_by peer_less rs)"
    by (rule sorted_wrt_sort_by_on [OF _ _ sub]) (use peer_less_order peer_less_asym in blast)+
  have sel: "selectPeers slotID cs load k = take k (sort_by peer_less rs)" by (simp add: selectPeers_def ranked)
  have "y \<in> set (drop k (sort_by peer_less rs))"
    using y unfolding sel by (metis UnE append_take_drop_id set_append set_sort_by)
  moreover have "sorted_wrt (\<lambda>a b. \<not> peer_less b a) (take k (sort_by peer_less rs) @ drop k (sort_by peer_less rs))"
    using srt by simp
  ultimately show ?thesis using x unfolding sel sorted_wrt_append by blast
qed

section \<open>Candidates and peers\<close>

lemma eligible_ids:
  assumes "distinct (map nd_NodeID nodes)"
  shows "distinct (map cd_nodeID (eligibleDataNodes nodes))"
    "set (map cd_nodeID (eligibleDataNodes nodes)) = nd_NodeID ` {n \<in> set nodes. eligible n}"
proof -
  have c: "cd_nodeID (candidate_of n) = nd_NodeID n" for n by (simp add: candidate_of_def Let_def)
  have "mset (map cd_nodeID (eligibleDataNodes nodes)) = mset (map nd_NodeID (filter eligible nodes))"
    by (simp add: eligibleDataNodes_def c comp_def flip: mset_map) (simp add: image_mset.compositionality comp_def c)
  moreover have "distinct (map nd_NodeID (filter eligible nodes))" using assms by (rule distinct_map_filter)
  ultimately show "distinct (map cd_nodeID (eligibleDataNodes nodes))"
    by (metis mset_eq_imp_distinct_iff)
  show "set (map cd_nodeID (eligibleDataNodes nodes)) = nd_NodeID ` {n \<in> set nodes. eligible n}"
    by (auto simp: eligibleDataNodes_def c image_iff)
qed

lemma selected_ids:
  assumes "distinct (map cd_nodeID cs)" "k \<le> length cs"
  shows "distinct (map cd_nodeID (selectPeers slotID cs load k))"
    "set (map cd_nodeID (selectPeers slotID cs load k)) \<subseteq> set (map cd_nodeID cs)"
    "length (selectPeers slotID cs load k) = k"
proof -
  let ?rs = "map (rank_candidate slotID (length cs) load) cs"
  have r: "map cd_nodeID ?rs = map cd_nodeID cs" by (simp add: rank_candidate_def)
  have "distinct (map cd_nodeID (sort_by peer_less ?rs))"
    using assms(1) unfolding distinct_map_mset [OF mset_sort_by] r .
  then show "distinct (map cd_nodeID (selectPeers slotID cs load k))"
    by (simp add: selectPeers_def take_map [symmetric] del: map_map)
  have "set (map cd_nodeID (sort_by peer_less ?rs)) = set (map cd_nodeID cs)"
    using r by (metis set_map set_sort_by)
  then show "set (map cd_nodeID (selectPeers slotID cs load k)) \<subseteq> set (map cd_nodeID cs)"
    unfolding selectPeers_def take_map [symmetric] using set_take_subset by metis
  show "length (selectPeers slotID cs load k) = k" using assms(2) by (simp add: selectPeers_def)
qed

lemma leader_selected:
  assumes "selected \<noteq> []"
  shows "selectPreferredLeader slotID selected n load \<in> set (map cd_nodeID selected)"
proof -
  let ?rs = "map (rank_candidate slotID n load) selected"
  have "sort_by leader_less ?rs \<noteq> []" using assms by simp
  then have "sort_by leader_less ?rs ! 0 \<in> set ?rs" by (metis nth_mem length_greater_0_conv set_sort_by)
  then show ?thesis by (auto simp: selectPreferredLeader_def rank_candidate_def)
qed

section \<open>Adding a slot and its task\<close>

lemma upsert_fresh: "\<forall>x\<in>set xs. \<not> same x \<Longrightarrow> upsert same new xs = xs @ [new]"
  by (induction xs) auto

lemma map_of_keyed_perm:
  assumes "distinct (map f xs)" "mset xs = mset ys"
  shows "map_of (map (\<lambda>x. (f x, x)) xs) = map_of (map (\<lambda>x. (f x, x)) ys)"
proof
  fix k
  have d: "distinct (map f ys)" using assms distinct_map_mset by blast
  have s: "set xs = set ys" using assms(2) mset_eq_setD by blast
  show "map_of (map (\<lambda>x. (f x, x)) xs) k = map_of (map (\<lambda>x. (f x, x)) ys) k"
  proof (cases "k \<in> f ` set xs")
    case True
    then obtain x where "x \<in> set xs" "k = f x" by blast
    then show ?thesis using map_of_keyed [OF assms(1)] map_of_keyed [OF d] s by simp
  next
    case False
    then show ?thesis using s map_of_keyed_None by metis
  qed
qed

lemma map_of_keyed_snoc:
  "k \<notin> f ` set xs \<Longrightarrow> map_of (map (\<lambda>x. (f x, x)) (xs @ [y])) = (map_of (map (\<lambda>x. (f x, x)) xs))(f y \<mapsto> y)"
  if "f y \<notin> f ` set xs" for f :: "'b \<Rightarrow> 'c"
  using that map_of_keyed_None [of f xs "f y"] by (auto simp: fun_eq_iff map_add_def split: option.splits)

lemma normal_elements:
  assumes "Normalize s = s"
  shows "map normalize_slot (cs_Slots s) = cs_Slots s" "map normalize_task (cs_Tasks s) = cs_Tasks s"
    "cs_Nodes (Normalize s) = cs_Nodes s"
proof -
  have "cs_Slots s = sort_by (\<lambda>a b. sa_SlotID a < sa_SlotID b) (map normalize_slot (cs_Slots s))"
    "cs_Tasks s = sort_by task_less (map normalize_task (cs_Tasks s))"
    using arg_cong [OF assms, of cs_Slots] arg_cong [OF assms, of cs_Tasks] by (simp_all add: Normalize_def)
  then show "map normalize_slot (cs_Slots s) = cs_Slots s" "map normalize_task (cs_Tasks s) = cs_Tasks s"
    using map_sorted_fixed [OF normalize_slot_idem] map_sorted_fixed [OF normalize_task_idem] by metis+
qed (simp add: assms)

lemma task_ok_more_slots:
  assumes "task_ok slots nodes t" "\<And>k a. slots k = Some a \<Longrightarrow> slots' k = Some a"
  shows "task_ok slots' nodes t"
  using assms unfolding task_ok_def by (cases "slots (rt_SlotID t)") auto

definition extended :: "ClusterState \<Rightarrow> SlotAssignment \<Rightarrow> ReconcileTask \<Rightarrow> ClusterState" where
  "extended s a t = Normalize (s\<lparr>cs_Slots := cs_Slots s @ [a], cs_Tasks := cs_Tasks s @ [t]\<rparr>)"

lemma extended_rest [simp]:
  "cs_SchemaVersion (extended s a t) = cs_SchemaVersion s" "cs_ClusterID (extended s a t) = cs_ClusterID s"
  "cs_Revision (extended s a t) = cs_Revision s" "cs_Config (extended s a t) = cs_Config s"
  by (simp_all add: extended_def)

lemma extended_fields:
  assumes "Normalize s = s" "normalize_slot a = a" "normalize_task t = t"
  shows "cs_Nodes (extended s a t) = cs_Nodes s" "cs_Controllers (extended s a t) = cs_Controllers s"
    "cs_HashSlots (extended s a t) = cs_HashSlots s"
    "cs_Slots (extended s a t) = sort_by (\<lambda>a b. sa_SlotID a < sa_SlotID b) (cs_Slots s @ [a])"
    "cs_Tasks (extended s a t) = sort_by task_less (cs_Tasks s @ [t])"
proof -
  have "cs_Nodes (Normalize s) = cs_Nodes s" "cs_Controllers (Normalize s) = cs_Controllers s"
    "cs_HashSlots (Normalize s) = cs_HashSlots s" using assms(1) by simp_all
  then show "cs_Nodes (extended s a t) = cs_Nodes s" "cs_Controllers (extended s a t) = cs_Controllers s"
    "cs_HashSlots (extended s a t) = cs_HashSlots s"
    by (simp_all add: extended_def Normalize_def)
  show "cs_Slots (extended s a t) = sort_by (\<lambda>a b. sa_SlotID a < sa_SlotID b) (cs_Slots s @ [a])"
    "cs_Tasks (extended s a t) = sort_by task_less (cs_Tasks s @ [t])"
    using normal_elements [OF assms(1)] assms(2,3) by (simp_all add: extended_def Normalize_def)
qed

lemma extended_slot_of:
  assumes "Normalize s = s" "normalize_slot a = a" "normalize_task t = t"
    and "distinct (map sa_SlotID (cs_Slots s))" "sa_SlotID a \<notin> sa_SlotID ` set (cs_Slots s)"
  shows "slot_of (extended s a t) = (slot_of s)(sa_SlotID a \<mapsto> a)"
proof -
  have "distinct (map sa_SlotID (cs_Slots s @ [a]))" using assms(4,5) by simp
  then have "map_of (map (\<lambda>a. (sa_SlotID a, a)) (sort_by (\<lambda>a b. sa_SlotID a < sa_SlotID b) (cs_Slots s @ [a])))
      = map_of (map (\<lambda>a. (sa_SlotID a, a)) (cs_Slots s @ [a]))"
    by (intro map_of_keyed_perm) (simp_all add: distinct_map_mset [OF mset_sort_by])
  also have "\<dots> = (slot_of s)(sa_SlotID a \<mapsto> a)"
    unfolding slot_of_def by (rule map_of_keyed_snoc [OF assms(5,5)])
  finally show ?thesis by (simp add: slot_of_def extended_fields [OF assms(1-3)])
qed

lemma extended_valid:
  assumes nf: "Normalize s = s" "normalize_slot a = a" "normalize_task t = t" and wf: "well_formed s"
    and a: "slot_ok (cs_Config s) (node_of s) a" "sa_SlotID a \<notin> sa_SlotID ` set (cs_Slots s)"
    and t: "task_ok ((slot_of s)(sa_SlotID a \<mapsto> a)) (node_of s) t" "rt_SlotID t \<notin> rt_SlotID ` set (cs_Tasks s)"
      "rt_TaskID t \<notin> rt_TaskID ` set (cs_Tasks s)"
    and rev: "r \<noteq> 0"
  shows "well_formed ((extended s a t)\<lparr>cs_Revision := r, cs_UpdatedAt := u\<rparr>)"
proof -
  let ?e = "extended s a t"
  note f = extended_fields [OF nf]
  have d: "distinct (map sa_SlotID (cs_Slots s))" using wf by (simp add: well_formed_def)
  have so: "slot_of ?e = (slot_of s)(sa_SlotID a \<mapsto> a)" by (rule extended_slot_of [OF nf d a(2)])
  have no: "node_of ?e = node_of s" by (simp add: node_of_def f)
  have same: "slot_of (?e\<lparr>cs_Revision := r, cs_UpdatedAt := u\<rparr>) = slot_of ?e"
    "node_of (?e\<lparr>cs_Revision := r, cs_UpdatedAt := u\<rparr>) = node_of ?e" by (simp_all add: slot_of_def node_of_def)
  have fresh: "slot_of s (sa_SlotID a) = None" using a(2) by (simp add: slot_of_def map_of_keyed_None)
  have tasks: "\<forall>x\<in>set (cs_Tasks ?e). task_ok (slot_of ?e) (node_of s) x"
  proof
    fix x assume "x \<in> set (cs_Tasks ?e)"
    then consider "x = t" | "x \<in> set (cs_Tasks s)" by (auto simp: f)
    then show "task_ok (slot_of ?e) (node_of s) x"
    proof cases
      case 2
      then have "task_ok (slot_of s) (node_of s) x" using wf by (simp add: well_formed_def)
      then show ?thesis by (rule task_ok_more_slots) (use fresh in \<open>auto simp: so\<close>)
    qed (use t(1) so in simp)
  qed
  have slots: "\<forall>x\<in>set (cs_Slots ?e). slot_ok (cs_Config s) (node_of s) x"
    using a(1) wf by (auto simp: f well_formed_def)
  have "distinct (map sa_SlotID (cs_Slots ?e))" "distinct (map rt_SlotID (cs_Tasks ?e))" "distinct (map rt_TaskID (cs_Tasks ?e))"
    unfolding f distinct_map_mset [OF mset_sort_by] using wf a(2) t(2,3) by (simp_all add: well_formed_def)
  then show ?thesis
    using wf rev tasks slots unfolding well_formed_def same no by (simp add: f(1-3))
qed

section \<open>The proposal\<close>

lemma lowestMissing_Some:
  assumes "lowestMissingSlot st = Some k"
  shows "k \<noteq> 0 \<and> k \<le> cc_SlotCount (cs_Config st) \<and> k \<notin> sa_SlotID ` set (cs_Slots st) \<and> k \<notin> rt_SlotID ` set (cs_Tasks st)"
proof -
  let ?n = "unat (cc_SlotCount (cs_Config st))"
  have n: "?n < 2 ^ 32" using unsigned_less [of "cc_SlotCount (cs_Config st)"] by simp
  obtain i where i: "i < ?n" "k = of_nat (Suc i)" and k: "k \<notin> sa_SlotID ` set (cs_Slots st)" "k \<notin> rt_SlotID ` set (cs_Tasks st)"
    using assms unfolding lowestMissingSlot_def find_Some_iff
    by (auto simp: nth_map less_Suc_eq_le simp del: upt_Suc of_nat_Suc)
  have "unat k = Suc i" using i n by (simp add: unsigned_of_nat take_bit_nat_eq_self del: of_nat_Suc)
  then show ?thesis using i(1) k by (auto simp: word_le_nat_alt)
qed

lemma Next_command:
  assumes "dc_Command (Next \<lparr>vw_State = st, vw_Now = now\<rparr>) = Some cmd"
  obtains k selected leader where "lowestMissingSlot st = Some k"
    "unat (cc_ReplicaCount (cs_Config st)) \<le> length (eligibleDataNodes (cs_Nodes st))"
    "0 < unat (cc_ReplicaCount (cs_Config st))"
    "selected = selectPeers k (eligibleDataNodes (cs_Nodes st)) (desiredPeerLoad (cs_Slots st)) (unat (cc_ReplicaCount (cs_Config st)))"
    "leader = selectPreferredLeader k selected (length (eligibleDataNodes (cs_Nodes st))) (preferredLeaderLoad (cs_Slots st))"
    "cmd = (blank_command KindUpsertSlotAssignmentAndTask)\<lparr>cm_IssuedAt := now, cm_ExpectedRevision := Some (cs_Revision st),
       cm_Assignment := Some (bootstrap_assignment k (sort (map cd_nodeID selected)) leader),
       cm_Task := Some (bootstrap_task k (sort (map cd_nodeID selected)) leader)\<rparr>"
proof (cases "lowestMissingSlot st")
  case None
  then show thesis using assms by (auto simp: Next_def Let_def split: if_splits)
next
  case (Some k)
  then show thesis using assms that [OF Some _ _ refl refl]
    by (auto simp: Next_def Let_def selectedNodeIDs_def not_less split: if_splits)
qed

lemma bootstrap_normal:
  assumes "sorted peers"
  shows "normalize_slot (bootstrap_assignment k peers leader) = bootstrap_assignment k peers leader"
    "normalize_task (bootstrap_task k peers leader) = bootstrap_task k peers leader"
proof -
  show "normalize_slot (bootstrap_assignment k peers leader) = bootstrap_assignment k peers leader"
    using assms by (simp add: normalize_slot_def bootstrap_assignment_def sorted_sort_id)
  let ?t = "bootstrap_task k peers leader"
  have inner: "?t\<lparr>rt_TargetPeers := sort_by (<) (rt_TargetPeers ?t), rt_ObservedVoters := sort_by (<) (rt_ObservedVoters ?t),
      rt_ObservedLearners := sort_by (<) (rt_ObservedLearners ?t)\<rparr> = ?t"
    using assms by (simp add: bootstrap_task_def sorted_sort_id)
  have p: "default_policy ?t = rt_CompletionPolicy ?t"
    by (simp add: default_policy_def bootstrap_task_def policy_defs)
  have "default_progress ?t = rt_ParticipantProgress ?t"
    unfolding default_progress_def p by (simp add: bootstrap_task_def bootstrapParticipantProgress_def pending_progress_def)
  moreover have "sort_by (\<lambda>a b. tp_NodeID a < tp_NodeID b) (rt_ParticipantProgress ?t) = rt_ParticipantProgress ?t"
    using assms by (intro sort_by_sorted)
      (simp add: bootstrap_task_def bootstrapParticipantProgress_def sorted_wrt_map not_less)
  ultimately have "normalizeTaskProgress ?t = ?t" by (intro task_eqI) (simp_all add: p)
  then show "normalize_task ?t = ?t" unfolding normalize_task_def inner .
qed

lemma bootstrap_task_valid:
  assumes "slot_ok config nodes (bootstrap_assignment k peers leader)"
  shows "task_ok (slots(k \<mapsto> bootstrap_assignment k peers leader)) nodes (bootstrap_task k peers leader)"
proof -
  have "distinct peers" "0 \<notin> set peers" "k \<noteq> 0"
    using assms by (auto simp: slot_ok_def bootstrap_assignment_def peer_ok_def)
  then have "progress_ok (bootstrap_task k peers leader)"
    by (auto simp: progress_ok_def bootstrap_task_def bootstrapParticipantProgress_def comp_def)
  then show ?thesis using \<open>k \<noteq> 0\<close>
    by (simp add: task_ok_def bootstrap_ok_def bootstrap_task_def bootstrap_assignment_def)
qed

lemma eligible_peer_ok:
  assumes wf: "well_formed st" and p: "p \<in> nd_NodeID ` {n \<in> set (cs_Nodes st). eligible n}"
  shows "peer_ok (node_of st) p"
proof -
  have dn: "distinct (map nd_NodeID (cs_Nodes st))" and ok: "\<forall>n\<in>set (cs_Nodes st). node_ok n"
    using wf by (simp_all add: well_formed_def)
  obtain n where n: "n \<in> set (cs_Nodes st)" "eligible n" "p = nd_NodeID n" using p by blast
  have "node_of st p = Some n" using map_of_keyed [OF dn n(1)] n(3) by (simp add: node_of_def)
  moreover have "node_ok n" using ok n(1) ..
  ultimately show ?thesis using n(2,3)
    by (simp add: peer_ok_def node_ok_def eligible_def slotDesiredPeerNodeAllowed_def)
qed

lemma proposal_slot_ok:
  assumes wf: "well_formed st" and k: "lowestMissingSlot st = Some k"
    and rc: "unat (cc_ReplicaCount (cs_Config st)) \<le> length (eligibleDataNodes (cs_Nodes st))"
    and sel: "selected = selectPeers k (eligibleDataNodes (cs_Nodes st)) load (unat (cc_ReplicaCount (cs_Config st)))"
    and leader: "leader \<in> set (map cd_nodeID selected)"
  shows "slot_ok (cs_Config st) (node_of st) (bootstrap_assignment k (sort (map cd_nodeID selected)) leader)"
proof -
  have dn: "distinct (map nd_NodeID (cs_Nodes st))" using wf by (simp add: well_formed_def)
  note e = eligible_ids [OF dn] and s = selected_ids [OF eligible_ids(1) [OF dn] rc, of k load, folded sel]
  have "peer_ok (node_of st) p" if "p \<in> set (map cd_nodeID selected)" for p
    by (rule eligible_peer_ok [OF wf]) (use subsetD [OF s(2) that] in \<open>unfold e(2)\<close>)
  then show ?thesis
    using lowestMissing_Some [OF k] s(1,3) leader
    unfolding slot_ok_def bootstrap_assignment_def SlotAssignment.simps by (simp del: distinct_map)
qed

section \<open>Task names\<close>

fun decimal_value :: "nat \<Rightarrow> string \<Rightarrow> nat" where
  "decimal_value acc [] = acc"
| "decimal_value acc (c # cs) = decimal_value (acc * 10 + (of_char c - 48)) cs"

lemma decimal_value_append: "decimal_value acc (xs @ ys) = decimal_value (decimal_value acc xs) ys"
  by (induction acc xs rule: decimal_value.induct) auto

lemma digit_value: "d < 10 \<Longrightarrow> of_char (''0123456789'' ! d) - 48 = d"
proof -
  assume "d < 10"
  then have "d \<in> {0, 1, 2, 3, 4, 5, 6, 7, 8, 9}" by auto
  then show ?thesis by auto
qed

lemma decimal_value_decimal: "decimal_value 0 (decimal n) = n"
proof (induction n rule: decimal.induct)
  case (1 n)
  then show ?case by (subst decimal.simps) (auto simp: decimal_value_append digit_value)
qed

definition bootstrap_name :: "u32 \<Rightarrow> string" where
  "bootstrap_name k = ''slot-'' @ decimal (unat k) @ ''-bootstrap-'' @ decimal 1"

lemma bootstrap_name_inject: "bootstrap_name k = bootstrap_name l \<Longrightarrow> k = l"
proof -
  assume "bootstrap_name k = bootstrap_name l"
  then have "decimal (unat k) = decimal (unat l)" by (simp add: bootstrap_name_def)
  then have "unat k = unat l" by (metis decimal_value_decimal)
  then show ?thesis by (simp add: word_unat_eq_iff)
qed

text \<open>Bootstrap names are used for the slot they name only.\<close>

definition names_ok :: "ClusterState \<Rightarrow> bool" where
  "names_ok s \<longleftrightarrow> (\<forall>t\<in>set (cs_Tasks s). \<forall>k. rt_TaskID t = bootstrap_name k \<longrightarrow> rt_SlotID t = k)"

section \<open>The state machine accepts the proposal\<close>

lemma upsert_extends:
  assumes "k \<notin> sa_SlotID ` set (cs_Slots s)" "sa_SlotID a = k" "rt_TaskID t \<notin> rt_TaskID ` set (cs_Tasks s)"
  shows "Normalize (upsertTask (upsertAssignment s a) t) = extended s a t"
proof -
  have "upsert (\<lambda>x. sa_SlotID x = sa_SlotID a) a (cs_Slots s) = cs_Slots s @ [a]"
    "upsert (\<lambda>x. rt_TaskID x = rt_TaskID t) t (cs_Tasks s) = cs_Tasks s @ [t]"
  proof -
    show "upsert (\<lambda>x. sa_SlotID x = sa_SlotID a) a (cs_Slots s) = cs_Slots s @ [a]"
      by (rule upsert_fresh) (use assms(1,2) in \<open>auto simp: image_iff\<close>)
    show "upsert (\<lambda>x. rt_TaskID x = rt_TaskID t) t (cs_Tasks s) = cs_Tasks s @ [t]"
      by (rule upsert_fresh) (use assms(3) in \<open>auto simp: image_iff\<close>)
  qed
  then show ?thesis by (simp add: upsertTask_def upsertAssignment_def extended_def)
qed

lemma proposal_applied:
  assumes s: "Normalize s = s" "well_formed s" "names_ok s" "cs_Revision s + 1 \<noteq> 0"
    and next_: "dc_Command (Next \<lparr>vw_State = s, vw_Now = now\<rparr>) = Some cmd"
  obtains k a s' where "applyMutation s i cmd = (s', changed)" "lowestMissingSlot s = Some k" "sa_SlotID a = k"
    "slot_ok (cs_Config s) (node_of s) a"
    "set (sa_DesiredPeers a) \<subseteq> nd_NodeID ` {n \<in> set (cs_Nodes s). eligible n}"
    "s' = (extended s a (bootstrap_task k (sa_DesiredPeers a) (sa_PreferredLeader a)))
       \<lparr>cs_Revision := cs_Revision s + 1, cs_UpdatedAt := nextUpdatedAt (cs_UpdatedAt s) now\<rparr>"
    "Normalize s' = s'" "well_formed s'" "names_ok s'"
    "slot_of s' = (slot_of s)(k \<mapsto> a)" "rt_SlotID ` set (cs_Tasks s') = insert k (rt_SlotID ` set (cs_Tasks s))"
proof -
  obtain k selected leader where p: "lowestMissingSlot s = Some k"
    "unat (cc_ReplicaCount (cs_Config s)) \<le> length (eligibleDataNodes (cs_Nodes s))" "0 < unat (cc_ReplicaCount (cs_Config s))"
    "selected = selectPeers k (eligibleDataNodes (cs_Nodes s)) (desiredPeerLoad (cs_Slots s)) (unat (cc_ReplicaCount (cs_Config s)))"
    "leader = selectPreferredLeader k selected (length (eligibleDataNodes (cs_Nodes s))) (preferredLeaderLoad (cs_Slots s))"
    "cmd = (blank_command KindUpsertSlotAssignmentAndTask)\<lparr>cm_IssuedAt := now, cm_ExpectedRevision := Some (cs_Revision s),
       cm_Assignment := Some (bootstrap_assignment k (sort (map cd_nodeID selected)) leader),
       cm_Task := Some (bootstrap_task k (sort (map cd_nodeID selected)) leader)\<rparr>"
    by (rule Next_command [OF next_])
  let ?peers = "sort (map cd_nodeID selected)"
  let ?a = "bootstrap_assignment k ?peers leader" and ?t = "bootstrap_task k ?peers leader"
  let ?e = "extended s ?a ?t"
  let ?s = "?e\<lparr>cs_Revision := cs_Revision s + 1, cs_UpdatedAt := nextUpdatedAt (cs_UpdatedAt s) now\<rparr>"
  have dn: "distinct (map nd_NodeID (cs_Nodes s))" using s(2) by (simp add: well_formed_def)
  note sel = selected_ids [OF eligible_ids(1) [OF dn] p(2), of k "desiredPeerLoad (cs_Slots s)", folded p(4)]
  have "selected \<noteq> []" using sel(3) p(3) by auto
  then have leader: "leader \<in> set (map cd_nodeID selected)" unfolding p(5) by (rule leader_selected)
  have ok: "slot_ok (cs_Config s) (node_of s) ?a" by (rule proposal_slot_ok [OF s(2) p(1,2,4) leader])
  have fresh: "k \<notin> sa_SlotID ` set (cs_Slots s)" "k \<notin> rt_SlotID ` set (cs_Tasks s)" using lowestMissing_Some [OF p(1)] by auto
  have ids: "sa_SlotID ?a = k" "rt_SlotID ?t = k" "rt_TaskID ?t = bootstrap_name k" "rt_Kind ?t = TaskKindBootstrap"
    "sa_DesiredPeers ?a = ?peers" "sa_PreferredLeader ?a = leader"
    by (simp_all add: bootstrap_assignment_def bootstrap_task_def bootstrap_name_def)
  have name: "rt_TaskID ?t \<notin> rt_TaskID ` set (cs_Tasks s)"
  proof
    assume "rt_TaskID ?t \<in> rt_TaskID ` set (cs_Tasks s)"
    then obtain u where u: "u \<in> set (cs_Tasks s)" "rt_TaskID u = bootstrap_name k" unfolding ids by auto
    then have "rt_SlotID u = k" using s(3) by (simp add: names_ok_def)
    then show False using fresh(2) u(1) by blast
  qed
  note nf = bootstrap_normal [of ?peers k leader, OF sorted_sort]
  have task: "task_ok ((slot_of s)(sa_SlotID ?a \<mapsto> ?a)) (node_of s) ?t"
    unfolding ids(1) by (rule bootstrap_task_valid [OF ok])
  have wf: "well_formed ?s"
    by (rule extended_valid [OF s(1) nf s(2) ok _ task _ name s(4)]) (use fresh in \<open>unfold ids\<close>)
  have ne: "Normalize ?e = ?e" by (simp add: extended_def Normalize_idem)
  then have norm: "Normalize ?s = ?s" by simp
  have valid: "Validate ?s = None" using Validate_None [of ?s] wf norm by simp
  note f = extended_fields [OF s(1) nf]
  have tasks: "set (cs_Tasks ?s) = insert ?t (set (cs_Tasks s))" by (simp add: f)
  have d: "distinct (map sa_SlotID (cs_Slots s))" using s(2) by (simp add: well_formed_def)
  have slots: "slot_of ?s = (slot_of s)(k \<mapsto> ?a)"
    using extended_slot_of [OF s(1) nf d] fresh(1) by (simp add: ids slot_of_def)
  have changed_slots: "cs_Slots s \<noteq> cs_Slots ?e"
  proof
    assume "cs_Slots s = cs_Slots ?e"
    then have "length (cs_Slots s) = length (cs_Slots ?e)" by (rule arg_cong)
    then show False by (simp add: f)
  qed
  have guard: "mutation_guard s cmd = None"
    by (simp add: p(6) mutation_guard_def blank_command_def handleBootstrapRevisionMismatch_def revision_mismatch_def ids)
  have up: "Normalize (upsertTask (upsertAssignment s ?a) ?t) = ?e" by (rule upsert_extends [OF fresh(1) ids(1) name])
  have rev: "cs_Revision s \<noteq> 0" using s(2) by (simp add: well_formed_def)
  have "applyUpsertSlotAssignmentAndTask s cmd = validateChanged ?e s cmd"
    using rev changed_slots up
    by (simp add: p(6) applyUpsertSlotAssignmentAndTask_def Let_def blank_command_def ids)
  also have "\<dots> = (?s, changed)"
    using valid by (simp add: validateChanged_def Let_def p(6) blank_command_def)
  finally have "applyMutation s i cmd = (?s, changed)"
    using guard by (simp add: applyMutation_def mutation_handler_def p(6) blank_command_def KindInitClusterState_def
        KindUpsertNode_def KindUpdateControllerVoters_def KindReplaceHashSlotTable_def KindUpsertSlotAssignmentAndTask_def)
  then have applied: "applyMutation s i cmd = (?s, changed)" .
  have n: "names_ok ?s"
    using s(3) unfolding names_ok_def tasks by (auto simp: ids dest: bootstrap_name_inject)
  have task_slots: "rt_SlotID ` set (cs_Tasks ?s) = insert k (rt_SlotID ` set (cs_Tasks s))"
    unfolding tasks image_insert ids ..
  have peers: "set (sa_DesiredPeers ?a) \<subseteq> nd_NodeID ` {n \<in> set (cs_Nodes s). eligible n}"
    using sel(2) unfolding eligible_ids(2) [OF dn] ids by simp
  have eq: "?s = (extended s ?a (bootstrap_task k (sa_DesiredPeers ?a) (sa_PreferredLeader ?a)))
       \<lparr>cs_Revision := cs_Revision s + 1, cs_UpdatedAt := nextUpdatedAt (cs_UpdatedAt s) now\<rparr>"
    unfolding ids ..
  show thesis by (rule that [OF applied p(1) ids(1) ok peers eq norm wf n slots task_slots])
qed

section \<open>Counting the slots still to place\<close>

definition missing :: "ClusterState \<Rightarrow> u32 set" where
  "missing s = {k. k \<noteq> 0 \<and> k \<le> cc_SlotCount (cs_Config s)
     \<and> k \<notin> sa_SlotID ` set (cs_Slots s) \<and> k \<notin> rt_SlotID ` set (cs_Tasks s)}"

lemma lowestMissing_None: "lowestMissingSlot s = None \<longleftrightarrow> missing s = {}"
proof
  assume none: "lowestMissingSlot s = None"
  show "missing s = {}"
  proof (rule equals0I)
    fix k assume k: "k \<in> missing s"
    then have "unat k \<in> set [1..<Suc (unat (cc_SlotCount (cs_Config s)))]"
      by (auto simp: missing_def word_le_nat_alt Suc_le_eq unat_gt_0 simp del: upt_Suc)
    then have "of_nat (unat k) \<in> (of_nat ` set [1..<Suc (unat (cc_SlotCount (cs_Config s)))] :: u32 set)" by blast
    then have "k \<in> set (map of_nat [1..<Suc (unat (cc_SlotCount (cs_Config s)))])" by (simp del: upt_Suc)
    then show False using none k unfolding lowestMissingSlot_def find_None_iff missing_def by blast
  qed
next
  assume "missing s = {}"
  then show "lowestMissingSlot s = None" using lowestMissing_Some [of s] by (cases "lowestMissingSlot s") (auto simp: missing_def)
qed

lemma missing_bound: "finite (missing s)" "card (missing s) \<le> unat (cc_SlotCount (cs_Config s))"
proof -
  show "finite (missing s)" by simp
  have "inj_on unat (missing s)" by (auto intro!: inj_onI simp: word_unat_eq_iff)
  moreover have "unat ` missing s \<subseteq> {1..unat (cc_SlotCount (cs_Config s))}"
    by (auto simp: missing_def word_le_nat_alt Suc_le_eq unat_gt_0)
  ultimately show "card (missing s) \<le> unat (cc_SlotCount (cs_Config s))"
    using card_inj_on_le [of unat "missing s" "{1..unat (cc_SlotCount (cs_Config s))}"] by simp
qed

lemma slot_ids: "distinct (map sa_SlotID (cs_Slots s)) \<Longrightarrow> dom (slot_of s) = sa_SlotID ` set (cs_Slots s)"
  by (auto simp: slot_of_def dom_map_of_conv_image_fst image_image)

section \<open>Rounds of planning\<close>

text \<open>The proposer and the state source of a controller whose proposals are applied in order, at raft index \<open>i\<close>.\<close>

definition commit_directly :: "u64 \<Rightarrow> Command \<Rightarrow> ClusterState \<Rightarrow> string option \<times> ClusterState" where
  "commit_directly i cmd s = (None, fst (applyMutation s i cmd))"

definition tick :: "u64 \<Rightarrow> Time \<Rightarrow> ClusterState \<Rightarrow> ClusterState" where
  "tick i now s = snd (snd (TickPlanner (Some (\<lambda>w. w)) (Some (commit_directly i)) now s s))"

definition placeable :: "ClusterState \<Rightarrow> bool" where
  "placeable s \<longleftrightarrow> Normalize s = s \<and> well_formed s \<and> names_ok s
     \<and> unat (cc_ReplicaCount (cs_Config s)) \<le> card {n \<in> set (cs_Nodes s). eligible n}
     \<and> unat (cs_Revision s) + card (missing s) < 2 ^ 64"

lemma eligible_count:
  assumes "distinct (map nd_NodeID nodes)"
  shows "length (eligibleDataNodes nodes) = card {n \<in> set nodes. eligible n}"
proof -
  have "distinct nodes" using assms by (simp add: distinct_map)
  then have "card (set (filter eligible nodes)) = length (filter eligible nodes)"
    using distinct_card distinct_filter by blast
  then show ?thesis by (simp add: eligibleDataNodes_def)
qed

lemma Next_kind: "dc_Kind (Next v) = DecisionKindCommand \<longleftrightarrow> dc_Command (Next v) \<noteq> None"
  by (auto simp: Next_def Let_def split: option.splits if_splits)

lemma tick_eq:
  "tick i now s = (case dc_Command (Next \<lparr>vw_State = s, vw_Now = now\<rparr>) of None \<Rightarrow> s | Some cmd \<Rightarrow> fst (applyMutation s i cmd))"
  using Next_kind [of "\<lparr>vw_State = s, vw_Now = now\<rparr>"]
  by (auto simp: tick_def TickPlanner_def localStateSnapshot_def commit_directly_def Let_def)

lemma Next_proposes:
  assumes "placeable s" "missing s \<noteq> {}"
  shows "dc_Command (Next \<lparr>vw_State = s, vw_Now = now\<rparr>) \<noteq> None"
proof -
  have "lowestMissingSlot s \<noteq> None" using assms(2) by (simp add: lowestMissing_None)
  then obtain k where k: "lowestMissingSlot s = Some k" by blast
  have rc: "unat (cc_ReplicaCount (cs_Config s)) \<noteq> 0"
    using assms(1) by (simp add: placeable_def well_formed_def unat_eq_zero)
  have "\<not> length (eligibleDataNodes (cs_Nodes s)) < unat (cc_ReplicaCount (cs_Config s))"
    using assms(1) eligible_count [of "cs_Nodes s"] by (simp add: placeable_def well_formed_def)
  then show ?thesis using k rc by (simp add: Next_def Let_def)
qed

lemma tick_progress:
  assumes p: "placeable s" and m: "missing s \<noteq> {}"
  shows "placeable (tick i now s)" "card (missing (tick i now s)) < card (missing s)"
    "cs_Config (tick i now s) = cs_Config s" "cs_Nodes (tick i now s) = cs_Nodes s"
proof -
  obtain cmd where cmd: "dc_Command (Next \<lparr>vw_State = s, vw_Now = now\<rparr>) = Some cmd"
    using Next_proposes [OF p m, of now] by blast
  have inv: "Normalize s = s" "well_formed s" "names_ok s" using p by (simp_all add: placeable_def)
  have "card (missing s) > 0" using m missing_bound(1) [of s] by (simp add: card_gt_0_iff)
  then have "unat (cs_Revision s) + 1 < 2 ^ 64" using p by (simp add: placeable_def)
  then have rev: "cs_Revision s + 1 \<noteq> 0" "unat (cs_Revision s + 1) = Suc (unat (cs_Revision s))"
    by (simp_all add: unatSuc word_unat_eq_iff unat_word_ariths)
  obtain k a s' where a: "applyMutation s i cmd = (s', changed)" "lowestMissingSlot s = Some k" "sa_SlotID a = k"
    "s' = (extended s a (bootstrap_task k (sa_DesiredPeers a) (sa_PreferredLeader a)))
       \<lparr>cs_Revision := cs_Revision s + 1, cs_UpdatedAt := nextUpdatedAt (cs_UpdatedAt s) now\<rparr>"
    "Normalize s' = s'" "well_formed s'" "names_ok s'"
    "slot_of s' = (slot_of s)(k \<mapsto> a)" "rt_SlotID ` set (cs_Tasks s') = insert k (rt_SlotID ` set (cs_Tasks s))"
    by (rule proposal_applied [OF inv rev(1) cmd])
  have t: "tick i now s = s'" using cmd a(1) by (simp add: tick_eq)
  have cfg: "cs_Config s' = cs_Config s" by (simp add: a(4))
  have nodes: "cs_Nodes s' = cs_Nodes s"
    by (simp add: a(4) extended_def Normalize_def normal_elements(3) [OF inv(1), unfolded Normalize_def, simplified])
  have "sa_SlotID ` set (cs_Slots s') = insert k (sa_SlotID ` set (cs_Slots s))"
    using slot_ids [of s'] slot_ids [of s] a(8) inv(2) a(6) by (simp add: well_formed_def)
  then have mis: "missing s' = missing s - {k}" by (auto simp: missing_def cfg a(9))
  have k: "k \<in> missing s" using lowestMissing_Some [OF a(2)] by (simp add: missing_def)
  show less: "card (missing (tick i now s)) < card (missing s)"
    unfolding t mis by (rule card_Diff1_less [OF missing_bound(1) k])
  show "placeable (tick i now s)"
    using p a(5,6,7) less rev(2) by (simp add: placeable_def t cfg nodes) (simp add: a(4))
  show "cs_Config (tick i now s) = cs_Config s" "cs_Nodes (tick i now s) = cs_Nodes s" by (simp_all add: t cfg nodes)
qed


fun ticks :: "(u64 \<times> Time) list \<Rightarrow> ClusterState \<Rightarrow> ClusterState" where
  "ticks [] s = s"
| "ticks ((i, now) # rest) s = ticks rest (tick i now s)"

lemma tick_idle: "missing s = {} \<Longrightarrow> tick i now s = s"
  using lowestMissing_None [of s] by (simp add: tick_eq Next_def Let_def)

lemma ticks_progress:
  assumes "placeable s" "card (missing s) \<le> length rounds"
  shows "placeable (ticks rounds s) \<and> missing (ticks rounds s) = {} \<and> cs_Config (ticks rounds s) = cs_Config s
    \<and> cs_Nodes (ticks rounds s) = cs_Nodes s"
  using assms
proof (induction rounds s rule: ticks.induct)
  case (1 s)
  then show ?case using missing_bound(1) [of s] by simp
next
  case (2 i now rest s)
  show ?case
  proof (cases "missing s = {}")
    case True
    then show ?thesis using 2 by (simp add: tick_idle)
  next
    case False
    note p = tick_progress [OF "2.prems"(1) False, of i now]
    have "card (missing (tick i now s)) \<le> length rest" using p(2) "2.prems"(2) by simp
    from "2.IH" [OF p(1) this] show ?thesis using p(3,4) by simp
  qed
qed

section \<open>Load counters\<close>

definition hosted :: "SlotAssignment list \<Rightarrow> u64 \<Rightarrow> nat" where
  "hosted slots node = length (filter (\<lambda>a. node \<in> set (sa_DesiredPeers a)) slots)"

lemma add_loads: "distinct peers \<Longrightarrow> foldl add_load load peers node = load node + (if node \<in> set peers then 1 else 0)"
  by (induction peers arbitrary: load) (auto simp: add_load_def)

lemma desiredPeerLoad_hosted:
  assumes "\<forall>a\<in>set slots. distinct (sa_DesiredPeers a)"
  shows "desiredPeerLoad slots node = of_nat (hosted slots node)"
proof -
  have "foldl (\<lambda>load a. foldl add_load load (sa_DesiredPeers a)) load slots node = load node + of_nat (hosted slots node)" for load
    using assms by (induction slots arbitrary: load) (auto simp: hosted_def add_loads)
  then show ?thesis by (simp add: desiredPeerLoad_def)
qed

lemma hosted_small:
  assumes "distinct (map sa_SlotID slots)"
  shows "hosted slots node < 2 ^ 64"
proof -
  have "length slots = card (sa_SlotID ` set slots)" using distinct_card [OF assms] by simp
  also have "\<dots> \<le> CARD(u32)" by (rule card_mono) simp_all
  also have "\<dots> < 2 ^ 64" by (simp add: card_word)
  finally show ?thesis using length_filter_le [of "\<lambda>a. node \<in> set (sa_DesiredPeers a)" slots]
    unfolding hosted_def by (rule le_less_trans [rotated])
qed

lemma desiredPeerLoad_unat:
  assumes "well_formed s"
  shows "unat (desiredPeerLoad (cs_Slots s) node) = hosted (cs_Slots s) node"
proof -
  have "distinct (map sa_SlotID (cs_Slots s))" "\<forall>a\<in>set (cs_Slots s). distinct (sa_DesiredPeers a)"
    using assms by (auto simp: well_formed_def slot_ok_def)
  then show ?thesis using hosted_small [of "cs_Slots s" node] desiredPeerLoad_hosted [of "cs_Slots s" node]
    by (simp add: unsigned_of_nat take_bit_nat_eq_self)
qed

definition capacity :: "Node \<Rightarrow> nat" where
  "capacity n = max 1 (unat (nd_CapacityWeight n))"

lemma candidate_weight [simp]:
  "unat (cd_weight (candidate_of n)) = capacity n" "cd_nodeID (candidate_of n) = nd_NodeID n"
proof -
  have "unat (ucast (nd_CapacityWeight n) :: u64) = unat (nd_CapacityWeight n)"
  proof -
    have "unat (nd_CapacityWeight n) < 2 ^ LENGTH(32)" by (rule unsigned_less)
    then have "unat (nd_CapacityWeight n) < 2 ^ 64" by simp
    then show ?thesis by (simp add: unsigned_ucast_eq take_bit_nat_eq_self)
  qed
  moreover have "nd_CapacityWeight n \<noteq> 0 \<Longrightarrow> 1 \<le> unat (nd_CapacityWeight n)"
    by (simp add: Suc_le_eq unat_gt_0)
  ultimately show "unat (cd_weight (candidate_of n)) = capacity n" "cd_nodeID (candidate_of n) = nd_NodeID n"
    by (auto simp: candidate_of_def Let_def capacity_def max_def)
qed


section \<open>Properties\<close>

text \<open>
  a proposal of the planner is accepted: in a valid state whose bootstrap task names are not taken, the
  command it builds raises the revision by one, adds exactly one assignment, for the lowest slot without
  assignment or task, on replica-count distinct eligible nodes with the preferred leader among them, and adds its
  bootstrap task; every other slot keeps its assignment and the new state is valid.
\<close>

lemma proposal_accepted:
  assumes "Normalize s = s" "well_formed s" "names_ok s" "cs_Revision s + 1 \<noteq> 0"
    and "dc_Command (Next \<lparr>vw_State = s, vw_Now = now\<rparr>) = Some cmd"
  shows "\<exists>k a s'. applyMutation s i cmd = (s', changed) \<and> cs_Revision s' = cs_Revision s + 1
    \<and> lowestMissingSlot s = Some k \<and> sa_SlotID a = k \<and> slot_of s' = (slot_of s)(k \<mapsto> a)
    \<and> rt_SlotID ` set (cs_Tasks s') = insert k (rt_SlotID ` set (cs_Tasks s))
    \<and> length (sa_DesiredPeers a) = unat (cc_ReplicaCount (cs_Config s)) \<and> distinct (sa_DesiredPeers a)
    \<and> set (sa_DesiredPeers a) \<subseteq> nd_NodeID ` {n \<in> set (cs_Nodes s). eligible n}
    \<and> sa_PreferredLeader a \<in> insert 0 (set (sa_DesiredPeers a))
    \<and> Normalize s' = s' \<and> well_formed s'"
proof -
  obtain k a s' where a: "applyMutation s i cmd = (s', changed)" "lowestMissingSlot s = Some k" "sa_SlotID a = k"
    "slot_ok (cs_Config s) (node_of s) a" "set (sa_DesiredPeers a) \<subseteq> nd_NodeID ` {n \<in> set (cs_Nodes s). eligible n}"
    "s' = (extended s a (bootstrap_task k (sa_DesiredPeers a) (sa_PreferredLeader a)))
       \<lparr>cs_Revision := cs_Revision s + 1, cs_UpdatedAt := nextUpdatedAt (cs_UpdatedAt s) now\<rparr>"
    "Normalize s' = s'" "well_formed s'"
    "slot_of s' = (slot_of s)(k \<mapsto> a)" "rt_SlotID ` set (cs_Tasks s') = insert k (rt_SlotID ` set (cs_Tasks s))"
    by (rule proposal_applied [OF assms])
  have "cs_Revision s' = cs_Revision s + 1" by (simp add: a(6))
  then show ?thesis using a(1-5,7-) unfolding slot_ok_def by (intro exI [of _ k] exI [of _ a] exI [of _ s']) blast
qed

text \<open>
  The planner balances by capacity: when it places a slot on node \<open>m\<close> and not on the eligible node \<open>n\<close>, the
  number of slots \<open>m\<close> already hosts relative to its capacity weight is at most that of \<open>n\<close>.
\<close>

lemma peers_least_loaded:
  assumes "well_formed s" and "dc_Command (Next \<lparr>vw_State = s, vw_Now = now\<rparr>) = Some cmd"
    and "cm_Assignment cmd = Some a"
    and "m \<in> set (cs_Nodes s)" "nd_NodeID m \<in> set (sa_DesiredPeers a)"
    and "n \<in> set (cs_Nodes s)" "eligible n" "nd_NodeID n \<notin> set (sa_DesiredPeers a)"
  shows "hosted (cs_Slots s) (nd_NodeID m) * capacity n \<le> hosted (cs_Slots s) (nd_NodeID n) * capacity m"
proof -
  obtain k selected leader where p: "unat (cc_ReplicaCount (cs_Config s)) \<le> length (eligibleDataNodes (cs_Nodes s))"
    "selected = selectPeers k (eligibleDataNodes (cs_Nodes s)) (desiredPeerLoad (cs_Slots s)) (unat (cc_ReplicaCount (cs_Config s)))"
    "cmd = (blank_command KindUpsertSlotAssignmentAndTask)\<lparr>cm_IssuedAt := now, cm_ExpectedRevision := Some (cs_Revision s),
       cm_Assignment := Some (bootstrap_assignment k (sort (map cd_nodeID selected)) leader),
       cm_Task := Some (bootstrap_task k (sort (map cd_nodeID selected)) leader)\<rparr>"
    by (rule Next_command [OF assms(2)])
  let ?cs = "eligibleDataNodes (cs_Nodes s)" and ?load = "desiredPeerLoad (cs_Slots s)"
  let ?rank = "rank_candidate k (length ?cs) ?load"
  have peers: "set (sa_DesiredPeers a) = cd_nodeID ` set selected"
    using assms(3) by (auto simp: p(3) bootstrap_assignment_def)
  have dn: "distinct (map nd_NodeID (cs_Nodes s))" using assms(1) by (simp add: well_formed_def)
  have cs: "set ?cs = candidate_of ` {x \<in> set (cs_Nodes s). eligible x}" by (auto simp: eligibleDataNodes_def)
  have pos: "\<forall>c\<in>set ?cs. 0 < unat (cd_weight c)" by (auto simp: cs capacity_def)
  obtain x where x: "x \<in> set selected" "cd_nodeID x = nd_NodeID m" using assms(5) peers by auto
  have "x \<in> ?rank ` set ?cs" using x(1) in_set_takeD by (fastforce simp: p(2) selectPeers_def)
  then obtain m' where m': "m' \<in> set (cs_Nodes s)" "x = ?rank (candidate_of m')" by (auto simp: cs)
  have "nd_NodeID m' = nd_NodeID m" using x(2) by (simp add: m'(2) rank_candidate_def)
  then have x_eq: "x = ?rank (candidate_of m)"
    using dn m' assms(4) by (metis (no_types) inj_onD distinct_map)
  let ?y = "?rank (candidate_of n)"
  have y: "?y \<in> set (map ?rank ?cs)" using assms(6,7) by (auto simp: cs)
  have "cd_nodeID ?y = nd_NodeID n" by (simp add: rank_candidate_def)
  then have out: "?y \<notin> set selected" using assms(8) unfolding peers by (metis imageI)
  have "\<not> peer_less ?y x"
    by (rule selected_least [OF pos refl x(1) [unfolded p(2)] y out [unfolded p(2)]])
  then have "weighted x ?y \<le> weighted ?y x" by (auto simp: peer_less_iff)
  then show ?thesis by (simp add: x_eq weighted_def rank_candidate_def desiredPeerLoad_unat [OF assms(1)])
qed

text \<open>
  C20: bootstrap completes: from a valid state with at least replica-count eligible data nodes, when every tick's
  proposal is committed before the next tick, as many ticks as there are slots leave no slot to place: every slot
  has an assignment to replica-count distinct nodes, and the state is valid, with the same nodes and configuration.
\<close>

theorem ticks_place_all_slots:
  assumes "placeable s" "unat (cc_SlotCount (cs_Config s)) \<le> length rounds"
    and "k \<noteq> 0" "k \<le> cc_SlotCount (cs_Config s)"
  shows "\<exists>a. slot_of (ticks rounds s) k = Some a \<and> distinct (sa_DesiredPeers a)
    \<and> length (sa_DesiredPeers a) = unat (cc_ReplicaCount (cs_Config s))
    \<and> Validate (ticks rounds s) = None \<and> cs_Nodes (ticks rounds s) = cs_Nodes s"
proof -
  let ?s = "ticks rounds s"
  have "card (missing s) \<le> length rounds" using missing_bound(2) [of s] assms(2) by simp
  from ticks_progress [OF assms(1) this]
  have p: "Normalize ?s = ?s" "well_formed ?s" "missing ?s = {}" "cs_Config ?s = cs_Config s" "cs_Nodes ?s = cs_Nodes s"
    by (auto simp: placeable_def)
  have ids: "dom (slot_of ?s) = sa_SlotID ` set (cs_Slots ?s)" using p(2) by (simp add: well_formed_def slot_ids)
  have "k \<in> dom (slot_of ?s)"
  proof (cases "k \<in> rt_SlotID ` set (cs_Tasks ?s)")
    case True
    then obtain t where "t \<in> set (cs_Tasks ?s)" "rt_SlotID t = k" by blast
    then show ?thesis using p(2) by (fastforce simp: well_formed_def task_ok_def split: option.splits)
  next
    case False
    then show ?thesis using p(3,4) assms(3,4) ids by (auto simp: missing_def)
  qed
  then obtain a where a: "slot_of ?s k = Some a" by blast
  then have "a \<in> set (cs_Slots ?s)" by (auto simp: slot_of_def dest: map_of_SomeD)
  then have "slot_ok (cs_Config ?s) (node_of ?s) a" using p(2) by (simp add: well_formed_def)
  moreover have "Validate ?s = None" using p(1,2) by (simp add: Validate_None)
  ultimately show ?thesis using a p(4,5) by (simp add: slot_ok_def)
qed

section \<open>Instances\<close>

lemma live_placeable: "placeable live_state"
proof -
  have e: "unat (cc_ReplicaCount (cs_Config live_state)) = 1" "cs_Tasks live_state = []"
    "unat (cs_Revision live_state) = 1" "unat (cc_SlotCount (cs_Config live_state)) = 2"
    "list_ex eligible (cs_Nodes live_state)"
    by code_simp+
  have "{n \<in> set (cs_Nodes live_state). eligible n} \<noteq> {}" using e(5) by (auto simp: list_ex_iff)
  then have "1 \<le> card {n \<in> set (cs_Nodes live_state). eligible n}"
    using card_gt_0_iff [of "{n \<in> set (cs_Nodes live_state). eligible n}"] by simp
  moreover have "well_formed live_state" "Normalize live_state = live_state"
    using demo_state_valid by (simp_all add: live_state_def Validate_None Normalize_idem)
  ultimately show ?thesis using e missing_bound(2) [of live_state] by (simp add: placeable_def names_ok_def)
qed

definition first_proposal :: Command where
  "first_proposal = the (dc_Command (Next \<lparr>vw_State = live_state, vw_Now = 7\<rparr>))"

lemma first_proposal:
  "dc_Command (Next \<lparr>vw_State = live_state, vw_Now = 7\<rparr>) = Some first_proposal"
  "cm_Assignment first_proposal = Some (bootstrap_assignment 1 [1] 1)"
proof -
  have "map_option cm_Assignment (dc_Command (Next \<lparr>vw_State = live_state, vw_Now = 7\<rparr>)) = Some (Some (bootstrap_assignment 1 [1] 1))"
    by code_simp
  then show "dc_Command (Next \<lparr>vw_State = live_state, vw_Now = 7\<rparr>) = Some first_proposal"
    "cm_Assignment first_proposal = Some (bootstrap_assignment 1 [1] 1)"
    by (auto simp: first_proposal_def)
qed

lemma live_nodes: "cs_Nodes live_state = [normalize_node (demo_node 1), normalize_node (demo_node 2)]"
  "eligible (normalize_node (demo_node 2))"
  by code_simp+

theorem proposal_accepted_witness:
  "\<exists>k a s'. applyMutation live_state 9 first_proposal = (s', changed) \<and> sa_SlotID a = k
    \<and> slot_of s' = (slot_of live_state)(k \<mapsto> a)"
proof -
  have "Normalize live_state = live_state" "well_formed live_state" "names_ok live_state" "cs_Revision live_state + 1 \<noteq> 0"
    using live_placeable live_inv(3) by (simp_all add: placeable_def)
  from proposal_accepted [OF this first_proposal(1), of 9] show ?thesis by blast
qed

theorem ticks_place_all_slots_witness:
  "\<exists>a. slot_of (ticks [(1, 5), (2, 6)] live_state) 2 = Some a \<and> length (sa_DesiredPeers a) = 1"
proof -
  have e: "cc_SlotCount (cs_Config live_state) = 2" "cc_ReplicaCount (cs_Config live_state) = 1" by code_simp+
  from ticks_place_all_slots [OF live_placeable, of "[(1, 5), (2, 6)]" 2] show ?thesis by (auto simp: e)
qed

end
