(* ===== verification/CtrlTasks.thy ===== *)
theory CtrlTasks
  imports CtrlPlannerSafety "HOL-Library.Sublist"
begin

text \<open>
  The life of a reconcile task in the controller state machine: replica moves advance only along the steps
  of the workflow and replace the assignment only with the evidence that Slot Raft has converged, failed
  attempts fence what reports about them, and error texts are cut at a character boundary.
\<close>

section \<open>Looking up and replacing elements\<close>

lemma find_index_Some:
  "find_index P xs = Some i \<longleftrightarrow> i < length xs \<and> P (xs ! i) \<and> (\<forall>j<i. \<not> P (xs ! j))"
proof (induction xs arbitrary: i)
  case (Cons x xs)
  show ?case
  proof (cases i)
    case (Suc j)
    then show ?thesis using Cons [of j] by (auto simp: less_Suc_eq_0_disj)
  qed auto
qed simp

lemma find_index_unique:
  "distinct (map f xs) \<Longrightarrow> i < length xs \<Longrightarrow> find_index (\<lambda>x. f x = f (xs ! i)) xs = Some i"
  unfolding find_index_Some by (auto simp: distinct_conv_nth)

lemma map_of_list_update:
  assumes "distinct (map f xs)" "i < length xs" "f y = f (xs ! i)"
  shows "map_of (map (\<lambda>x. (f x, x)) (xs[i := y])) = (map_of (map (\<lambda>x. (f x, x)) xs))(f y \<mapsto> y)"
  using assms
proof (induction xs arbitrary: i)
  case (Cons x xs)
  show ?case
  proof (cases i)
    case (Suc j)
    have "f y \<noteq> f x" using Cons.prems Suc by (metis Suc_less_eq distinct.simps(2) length_Cons list.map(2) nth_Cons_Suc nth_map nth_mem length_map)
    then show ?thesis using Cons Suc by (auto simp: fun_eq_iff)
  qed (use Cons in auto)
qed simp

lemma set_remove_nth:
  assumes "distinct xs" "i < length xs"
  shows "set (remove_nth i xs) = set xs - {xs ! i}"
proof -
  obtain a x b where xs: "xs = a @ x # b" "a = take i xs" "b = drop (Suc i) xs" "x = xs ! i"
    using id_take_nth_drop [OF assms(2)] by blast
  have "distinct (a @ x # b)" using assms(1) unfolding xs(1) [symmetric] .
  then have d: "x \<notin> set a" "x \<notin> set b" by auto
  have "set xs = insert x (set a \<union> set b)" using arg_cong [OF xs(1), of set] by simp
  then show ?thesis
    unfolding remove_nth_def set_append xs(2) [symmetric] xs(3) [symmetric] xs(4) [symmetric] using d by auto
qed

lemma sameUint64Set_iff: "sameUint64Set xs ys \<longleftrightarrow> mset xs = mset ys"
proof
  assume "sameUint64Set xs ys"
  then have "sort xs = sort ys" by (simp add: sameUint64Set_def split: if_splits)
  then show "mset xs = mset ys" by (metis mset_sort)
next
  assume m: "mset xs = mset ys"
  then have "sort xs = sort ys" by (metis mset_sort properties_for_sort sorted_sort)
  then show "sameUint64Set xs ys" using mset_eq_length [OF m] by (simp add: sameUint64Set_def)
qed

lemma replace_first_set:
  "distinct xs \<Longrightarrow> y \<in> set xs \<Longrightarrow> set (replace_first xs y z) = insert z (set xs - {y})"
  by (induction xs) auto

section \<open>Normal form and the maps of a state\<close>

lemma map_of_map_normal:
  assumes "distinct (map f xs)" "\<And>x. f (g x) = f x" "mset ys = mset (map g xs)"
  shows "map_of (map (\<lambda>x. (f x, x)) ys) = map_option g \<circ> map_of (map (\<lambda>x. (f x, x)) xs)"
proof -
  have "distinct (map f (map g xs))" using assms(1,2) by (simp add: comp_def)
  then have "map_of (map (\<lambda>x. (f x, x)) ys) = map_of (map (\<lambda>x. (f x, x)) (map g xs))"
    using map_of_keyed_perm [of f "map g xs" ys] assms(3) by metis
  also have "\<dots> = map_of (map (\<lambda>(k, v). (k, g v)) (map (\<lambda>x. (f x, x)) xs))"
    by (simp add: comp_def assms(2))
  finally show ?thesis by (simp only: map_of_map)
qed

lemma slot_of_Normalize:
  assumes "distinct (map sa_SlotID (cs_Slots s))"
  shows "slot_of (Normalize s) = map_option normalize_slot \<circ> slot_of s"
  unfolding slot_of_def by (rule map_of_map_normal [OF assms]) (simp_all add: Normalize_def normalize_slot_def)

lemma tasks_Normalize: "set (cs_Tasks (Normalize s)) = normalize_task ` set (cs_Tasks s)"
  by (simp add: Normalize_def)

lemma normal_slot: "Normalize s = s \<Longrightarrow> a \<in> set (cs_Slots s) \<Longrightarrow> normalize_slot a = a"
  using normal_elements(1) [of s] map_idI by (metis map_eq_conv list.map_id id_apply)

lemma normal_task: "Normalize s = s \<Longrightarrow> t \<in> set (cs_Tasks s) \<Longrightarrow> normalize_task t = t"
  using normal_elements(2) [of s] by (metis map_eq_conv list.map_id id_apply)

section \<open>Handlers that change the state\<close>

lemmas command_kinds = KindInitClusterState_def KindUpsertNode_def KindUpdateControllerVoters_def
  KindReplaceHashSlotTable_def KindUpsertSlotAssignmentAndTask_def KindUpsertSlotReplicaMoveTask_def
  KindAdvanceSlotReplicaMovePhase_def KindCommitSlotReplicaMove_def KindCompleteTask_def KindFailTask_def
  KindReportTaskProgress_def

lemma changed_by_handler:
  assumes "applyMutation s i cmd = (s', r)" "ar_Changed r" "cm_Kind cmd \<noteq> KindInitClusterState"
  shows "mutation_guard s cmd = None" "mutation_handler s cmd = (s', r)"
proof -
  show "mutation_guard s cmd = None"
  proof (cases "mutation_guard s cmd")
    case (Some x)
    then show ?thesis using assms mutation_guard_refuses [OF Some] by (auto simp: applyMutation_def)
  qed
  then show "mutation_handler s cmd = (s', r)" using assms(1,3) by (simp add: applyMutation_def)
qed

lemma commit_cases:
  assumes "applyCommitSlotReplicaMove s cmd = (s', r)" "ar_Changed r"
  obtains commit idx ai where "cm_SlotReplicaMoveCommit cmd = Some commit"
    "findTaskByID (cs_Tasks s) (mc_TaskID commit) = Some idx"
    "rt_Kind (cs_Tasks s ! idx) = TaskKindSlotReplicaMove" "rt_Step (cs_Tasks s ! idx) = TaskStepCommitAssignment"
    "rt_Attempt (cs_Tasks s ! idx) = mc_Attempt commit"
    "mset (mc_ObservedVoters commit) = mset (rt_TargetPeers (cs_Tasks s ! idx))"
    "mset (rt_ObservedVoters (cs_Tasks s ! idx)) = mset (rt_TargetPeers (cs_Tasks s ! idx))"
    "find_index (\<lambda>a. sa_SlotID a = rt_SlotID (cs_Tasks s ! idx)) (cs_Slots s) = Some ai"
    "validateChanged (Normalize (s\<lparr>cs_Slots := (cs_Slots s)[ai := committed_assignment (cs_Tasks s ! idx) (cs_Slots s ! ai)],
       cs_Tasks := remove_nth idx (cs_Tasks s)\<rparr>)) s cmd = (s', r)"
  using assms unfolding applyCommitSlotReplicaMove_def Let_def sameUint64Set_iff
  by (auto split: option.splits if_splits)

lemma committed_fields [simp]:
  "sa_SlotID (committed_assignment t a) = sa_SlotID a" "sa_DesiredPeers (committed_assignment t a) = rt_TargetPeers t"
  "sa_ConfigEpoch (committed_assignment t a) = sa_ConfigEpoch a + 1"
  "sa_PreferredLeader (committed_assignment t a) =
     (if sa_PreferredLeader a \<in> set (rt_TargetPeers t) then sa_PreferredLeader a else rt_TargetNode t)"
  by (simp_all add: committed_assignment_def Let_def)

section \<open>Replica moves\<close>

text \<open>
  C27: a replica move replaces the assignment only with proof of convergence: a commit that changes the state
  names a move task at the commit step, both the task's recorded voters and those the command reports are exactly
  the target peers (the old peers with the source replaced by the target), and then the slot alone changes, to
  those peers under the next epoch with a leader among them, and the task alone is removed.
\<close>

theorem move_commit:
  assumes "ctrl_inv s" "applyMutation s i cmd = (s', r)" "ar_Changed r" "cm_Kind cmd = KindCommitSlotReplicaMove"
  shows "\<exists>c t a a'. cm_SlotReplicaMoveCommit cmd = Some c \<and> t \<in> set (cs_Tasks s) \<and> rt_TaskID t = mc_TaskID c
    \<and> rt_Attempt t = mc_Attempt c \<and> rt_Step t = TaskStepCommitAssignment \<and> slot_of s (rt_SlotID t) = Some a
    \<and> set (rt_TargetPeers t) = insert (rt_TargetNode t) (set (sa_DesiredPeers a) - {rt_SourceNode t})
    \<and> mset (mc_ObservedVoters c) = mset (rt_TargetPeers t) \<and> mset (rt_ObservedVoters t) = mset (rt_TargetPeers t)
    \<and> slot_of s' = (slot_of s)(rt_SlotID t \<mapsto> a') \<and> sa_DesiredPeers a' = sort (rt_TargetPeers t)
    \<and> sa_ConfigEpoch a' = sa_ConfigEpoch a + 1
    \<and> sa_PreferredLeader a' = (if sa_PreferredLeader a \<in> set (rt_TargetPeers t) then sa_PreferredLeader a else rt_TargetNode t)
    \<and> set (cs_Tasks s') = set (cs_Tasks s) - {t}"
proof -
  have h: "applyCommitSlotReplicaMove s cmd = (s', r)"
    using changed_by_handler(2) [OF assms(2,3)] assms(4) by (simp add: mutation_handler_def command_kinds)
  obtain c idx ai where c: "cm_SlotReplicaMoveCommit cmd = Some c"
    "findTaskByID (cs_Tasks s) (mc_TaskID c) = Some idx"
    "rt_Kind (cs_Tasks s ! idx) = TaskKindSlotReplicaMove" "rt_Step (cs_Tasks s ! idx) = TaskStepCommitAssignment"
    "rt_Attempt (cs_Tasks s ! idx) = mc_Attempt c"
    "mset (mc_ObservedVoters c) = mset (rt_TargetPeers (cs_Tasks s ! idx))"
    "mset (rt_ObservedVoters (cs_Tasks s ! idx)) = mset (rt_TargetPeers (cs_Tasks s ! idx))"
    "find_index (\<lambda>a. sa_SlotID a = rt_SlotID (cs_Tasks s ! idx)) (cs_Slots s) = Some ai"
    and v: "validateChanged (Normalize (s\<lparr>cs_Slots := (cs_Slots s)[ai := committed_assignment (cs_Tasks s ! idx) (cs_Slots s ! ai)],
       cs_Tasks := remove_nth idx (cs_Tasks s)\<rparr>)) s cmd = (s', r)"
    by (rule commit_cases [OF h assms(3)])
  let ?t = "cs_Tasks s ! idx" and ?a = "cs_Slots s ! ai"
  let ?n = "s\<lparr>cs_Slots := (cs_Slots s)[ai := committed_assignment ?t ?a], cs_Tasks := remove_nth idx (cs_Tasks s)\<rparr>"
  have rev: "cs_Revision s \<noteq> 0" using h assms(3) c(1) by (auto simp: applyCommitSlotReplicaMove_def split: if_splits)
  then have nf: "Normalize s = s" and wf: "well_formed s"
    using assms(1) Validate_None [of s] by (auto simp: ctrl_inv_def)
  have s': "slot_of s' = slot_of (Normalize ?n)" "set (cs_Tasks s') = set (cs_Tasks (Normalize ?n))"
    using v by (rule validateChanged_cases; use assms(3) in \<open>simp add: slot_of_def\<close>)+
  have t: "idx < length (cs_Tasks s)" "rt_TaskID ?t = mc_TaskID c"
    using c(2) by (simp_all add: findTaskByID_def find_index_Some)
  have a: "ai < length (cs_Slots s)" "sa_SlotID ?a = rt_SlotID ?t" using c(8) by (simp_all add: find_index_Some)
  have ds: "distinct (map sa_SlotID (cs_Slots s))" and dt: "distinct (map rt_TaskID (cs_Tasks s))"
    using wf by (simp_all add: well_formed_def)
  have tin: "?t \<in> set (cs_Tasks s)" and ain: "?a \<in> set (cs_Slots s)" using t(1) a(1) by simp_all
  have slot: "slot_of s (rt_SlotID ?t) = Some ?a" using map_of_keyed [OF ds ain] a(2) by (simp add: slot_of_def)
  have "task_ok (slot_of s) (node_of s) ?t" using wf tin by (simp add: well_formed_def)
  then have move: "move_ok (node_of s) ?a ?t"
    using slot c(3) by (auto simp: task_ok_def kind_defs)
  have "slot_ok (cs_Config s) (node_of s) ?a" using wf ain by (simp add: well_formed_def)
  then have peers: "set (rt_TargetPeers ?t) = insert (rt_TargetNode ?t) (set (sa_DesiredPeers ?a) - {rt_SourceNode ?t})"
    using move by (simp add: move_ok_def replacePeer_def slot_ok_def replace_first_set)
  let ?a' = "normalize_slot (committed_assignment ?t ?a)"
  have n: "slot_of ?n = (slot_of s)(rt_SlotID ?t \<mapsto> committed_assignment ?t ?a)"
    using map_of_list_update [OF ds a(1), of "committed_assignment ?t ?a"] a(2) by (simp add: slot_of_def)
  have "distinct (map sa_SlotID (cs_Slots ?n))"
    using ds a(1) by (simp add: map_update list_update_same_conv [THEN iffD2])
  then have "slot_of s' = map_option normalize_slot \<circ> slot_of ?n" unfolding s'(1) by (rule slot_of_Normalize)
  also have "\<dots> = (map_option normalize_slot \<circ> slot_of s)(rt_SlotID ?t \<mapsto> ?a')" unfolding n by (auto simp: fun_eq_iff)
  also have "map_option normalize_slot \<circ> slot_of s = slot_of s" using slot_of_Normalize [OF ds] nf by simp
  finally have slots: "slot_of s' = (slot_of s)(rt_SlotID ?t \<mapsto> ?a')" .
  have "set (remove_nth idx (cs_Tasks s)) = set (cs_Tasks s) - {?t}"
    using set_remove_nth [OF _ t(1)] dt by (simp add: distinct_map)
  then have "set (cs_Tasks s') = normalize_task ` (set (cs_Tasks s) - {?t})" unfolding s'(2) tasks_Normalize by simp
  also have "\<dots> = (\<lambda>x. x) ` (set (cs_Tasks s) - {?t})" by (rule image_cong) (use normal_task [OF nf] in auto)
  finally have tasks: "set (cs_Tasks s') = set (cs_Tasks s) - {?t}" by simp
  show ?thesis
    using c(1,4,5,6,7) tin t(2) slot peers slots tasks
    by (intro exI [of _ c] exI [of _ ?t] exI [of _ ?a] exI [of _ ?a']) (simp add: normalize_slot_def)
qed

section \<open>Phases of a move\<close>

text \<open>The steps that may follow one another, with what Slot Raft must have been seen to do.\<close>

inductive move_edge :: "ReconcileTask \<Rightarrow> TaskStep \<Rightarrow> u64 list \<Rightarrow> u64 list \<Rightarrow> u64 \<Rightarrow> bool" for t where
  opened: "rt_Step t = TaskStepOpenLearner \<Longrightarrow> move_edge t TaskStepAddLearner voters learners index"
| learning: "rt_Step t = TaskStepAddLearner \<Longrightarrow> index \<noteq> 0 \<Longrightarrow> mset voters = mset (sourcePeersForSlotReplicaMove t)
    \<Longrightarrow> rt_TargetNode t \<in> set learners \<Longrightarrow> move_edge t TaskStepPromoteLearner voters learners index"
| joined: "rt_Step t \<in> {TaskStepAddLearner, TaskStepPromoteLearner} \<Longrightarrow> index \<noteq> 0 \<Longrightarrow> rt_TargetNode t \<in> set voters
    \<Longrightarrow> move_edge t TaskStepRemoveVoter voters learners index"
| removing: "rt_Step t = TaskStepRemoveVoter \<Longrightarrow> index \<noteq> 0 \<Longrightarrow> {rt_SourceNode t, rt_TargetNode t} \<subseteq> set voters
    \<Longrightarrow> move_edge t TaskStepRemoveVoter voters learners index"
| converged: "rt_Step t = TaskStepRemoveVoter \<Longrightarrow> index \<noteq> 0 \<Longrightarrow> mset voters = mset (rt_TargetPeers t)
    \<Longrightarrow> move_edge t TaskStepCommitAssignment voters learners index"

lemmas move_step_defs = TaskStepOpenLearner_def TaskStepAddLearner_def TaskStepPromoteLearner_def
  TaskStepRemoveVoter_def TaskStepCommitAssignment_def

lemmas reason_texts = ReasonTaskStepMismatch_def ReasonTaskObservedConfigMissing_def
  ReasonTaskObservedVotersMismatch_def ReasonTaskObservedLearnersMismatch_def

lemma phase_edge:
  "validateSlotReplicaMovePhaseAdvance t phase = [] \<longleftrightarrow>
    move_edge t (pa_NextStep phase) (pa_ObservedVoters phase) (pa_ObservedLearners phase) (pa_ObservedConfigIndex phase)"
  unfolding validateSlotReplicaMovePhaseAdvance_def sameUint64Set_iff move_edge.simps reason_texts
  by (auto simp: move_step_defs)

lemma advance_normal:
  assumes "normalize_task t = t"
  shows "normalize_task (advance_task p t) = t\<lparr>rt_Step := pa_NextStep p, rt_PhaseIndex := rt_PhaseIndex t + 1,
    rt_ObservedConfigIndex := pa_ObservedConfigIndex p, rt_ObservedVoters := sort (pa_ObservedVoters p),
    rt_ObservedLearners := sort (pa_ObservedLearners p)\<rparr>"
proof -
  have "normalize_task (advance_task p t) = (normalize_task t)\<lparr>rt_Step := pa_NextStep p, rt_PhaseIndex := rt_PhaseIndex t + 1,
    rt_ObservedConfigIndex := pa_ObservedConfigIndex p, rt_ObservedVoters := sort (pa_ObservedVoters p),
    rt_ObservedLearners := sort (pa_ObservedLearners p)\<rparr>"
    by (rule task_eqI) (simp_all add: normalize_task_def advance_task_def default_policy_def default_progress_def)
  then show ?thesis using assms by simp
qed

lemma advance_cases:
  assumes "applyAdvanceSlotReplicaMovePhase s cmd = (s', r)" "ar_Changed r"
  obtains phase idx where "cm_SlotReplicaMovePhase cmd = Some phase"
    "findTaskByID (cs_Tasks s) (pa_TaskID phase) = Some idx"
    "rt_Kind (cs_Tasks s ! idx) = TaskKindSlotReplicaMove" "rt_Attempt (cs_Tasks s ! idx) = pa_Attempt phase"
    "rt_PhaseIndex (cs_Tasks s ! idx) = pa_ExpectedPhaseIndex phase"
    "validateSlotReplicaMovePhaseAdvance (cs_Tasks s ! idx) phase = []" "cs_Revision s \<noteq> 0"
    "validateChanged (Normalize (s\<lparr>cs_Tasks := (cs_Tasks s)[idx := advance_task phase (cs_Tasks s ! idx)]\<rparr>)) s cmd = (s', r)"
  using assms unfolding applyAdvanceSlotReplicaMovePhase_def Let_def
  by (auto split: option.splits if_splits)

lemma set_update_distinct: "distinct xs \<Longrightarrow> i < length xs \<Longrightarrow> set (xs[i := y]) = insert y (set xs - {xs ! i})"
  by (auto simp: set_conv_nth nth_list_update nth_eq_iff_index_eq)

text \<open>Replacing one task: what the new state holds, whichever handler did it.\<close>

lemma task_replaced:
  assumes s: "Normalize s = s" "well_formed s" and idx: "idx < length (cs_Tasks s)"
    and v: "validateChanged (Normalize (s\<lparr>cs_Tasks := (cs_Tasks s)[idx := t']\<rparr>)) s cmd = (s', r)" "ar_Changed r"
  shows "set (cs_Tasks s') = insert (normalize_task t') (set (cs_Tasks s) - {cs_Tasks s ! idx})"
    "slot_of s' = slot_of s" "Normalize s' = s'" "well_formed s'"
proof -
  let ?n = "s\<lparr>cs_Tasks := (cs_Tasks s)[idx := t']\<rparr>"
  have dt: "distinct (cs_Tasks s)" and ds: "distinct (map sa_SlotID (cs_Slots s))"
    using s(2) by (auto simp: well_formed_def distinct_map)
  have e: "cs_Tasks s' = cs_Tasks (Normalize ?n)" "slot_of s' = slot_of (Normalize ?n)" "Normalize s' = s'" "Validate s' = None"
    using v(1) by (rule validateChanged_cases; use v(2) in \<open>simp add: slot_of_def\<close>)+
  then show "Normalize s' = s'" "well_formed s'" using Validate_None [of s'] by simp_all
  have "slot_of (Normalize ?n) = map_option normalize_slot \<circ> slot_of ?n" by (rule slot_of_Normalize) (simp add: ds)
  also have "slot_of ?n = slot_of s" by (simp add: slot_of_def)
  finally show "slot_of s' = slot_of s" using slot_of_Normalize [OF ds] s(1) e(2) by metis
  have "set (cs_Tasks s') = normalize_task ` insert t' (set (cs_Tasks s) - {cs_Tasks s ! idx})"
    unfolding e(1) tasks_Normalize by (simp add: set_update_distinct [OF dt idx])
  also have "\<dots> = insert (normalize_task t') ((\<lambda>x. x) ` (set (cs_Tasks s) - {cs_Tasks s ! idx}))"
    unfolding image_insert using normal_task [OF s(1)] by (intro arg_cong [where f = "insert _"] image_cong) auto
  finally show "set (cs_Tasks s') = insert (normalize_task t') (set (cs_Tasks s) - {cs_Tasks s ! idx})" by simp
qed

lemma initialised: "ctrl_inv s \<Longrightarrow> cs_Revision s \<noteq> 0 \<Longrightarrow> Normalize s = s \<and> well_formed s"
  using Validate_None [of s] by (auto simp: ctrl_inv_def)

text \<open>
  a replica move advances only along the workflow: a phase report that changes the state is for the attempt
  and phase the task is in, its next step follows the current one with the evidence that edge asks for, the task
  records exactly that step and evidence under the next phase number, and no assignment changes.
\<close>

lemma move_phases:
  assumes "ctrl_inv s" "applyMutation s i cmd = (s', r)" "ar_Changed r" "cm_Kind cmd = KindAdvanceSlotReplicaMovePhase"
  shows "\<exists>p t. cm_SlotReplicaMovePhase cmd = Some p \<and> t \<in> set (cs_Tasks s) \<and> rt_TaskID t = pa_TaskID p
    \<and> rt_Attempt t = pa_Attempt p \<and> rt_PhaseIndex t = pa_ExpectedPhaseIndex p
    \<and> move_edge t (pa_NextStep p) (pa_ObservedVoters p) (pa_ObservedLearners p) (pa_ObservedConfigIndex p)
    \<and> slot_of s' = slot_of s
    \<and> set (cs_Tasks s') = insert (t\<lparr>rt_Step := pa_NextStep p, rt_PhaseIndex := rt_PhaseIndex t + 1,
        rt_ObservedConfigIndex := pa_ObservedConfigIndex p, rt_ObservedVoters := sort (pa_ObservedVoters p),
        rt_ObservedLearners := sort (pa_ObservedLearners p)\<rparr>) (set (cs_Tasks s) - {t})"
proof -
  have h: "applyAdvanceSlotReplicaMovePhase s cmd = (s', r)"
    using changed_by_handler(2) [OF assms(2,3)] assms(4) by (simp add: mutation_handler_def command_kinds)
  obtain p idx where p: "cm_SlotReplicaMovePhase cmd = Some p" "findTaskByID (cs_Tasks s) (pa_TaskID p) = Some idx"
    "rt_Attempt (cs_Tasks s ! idx) = pa_Attempt p" "rt_PhaseIndex (cs_Tasks s ! idx) = pa_ExpectedPhaseIndex p"
    "validateSlotReplicaMovePhaseAdvance (cs_Tasks s ! idx) p = []" "cs_Revision s \<noteq> 0"
    and v: "validateChanged (Normalize (s\<lparr>cs_Tasks := (cs_Tasks s)[idx := advance_task p (cs_Tasks s ! idx)]\<rparr>)) s cmd = (s', r)"
    by (rule advance_cases [OF h assms(3)])
  have nf: "Normalize s = s" and wf: "well_formed s" using initialised [OF assms(1) p(6)] by simp_all
  have t: "idx < length (cs_Tasks s)" "rt_TaskID (cs_Tasks s ! idx) = pa_TaskID p"
    using p(2) by (simp_all add: findTaskByID_def find_index_Some)
  note new = task_replaced [OF nf wf t(1) v assms(3)]
  have tin: "cs_Tasks s ! idx \<in> set (cs_Tasks s)" using t(1) by simp
  show ?thesis
    using p tin t(2) new(1,2) phase_edge advance_normal [OF normal_task [OF nf tin], of p]
    by (intro exI [of _ p] exI [of _ "cs_Tasks s ! idx"]) simp
qed

section \<open>Failed attempts\<close>

lemma guard_unchanged [simp]: "\<not> ar_Changed (taskResultGuard t result)"
  by (simp add: taskResultGuard_def zero_result_def)

lemma fail_cases:
  assumes "applyFailTask s cmd = (s', r)" "ar_Changed r"
  obtains result idx where "cm_TaskResult cmd = Some result"
    "findTaskByID (cs_Tasks s) (tr_TaskID result) = Some idx" "taskResultGuard (cs_Tasks s ! idx) result = zero_result"
    "cs_Revision s \<noteq> 0" "tr_TaskID result \<noteq> []"
    "validateChanged (Normalize (s\<lparr>cs_Tasks := (cs_Tasks s)[idx := failed_task (tr_Err result) (cs_Tasks s ! idx)]\<rparr>)) s cmd = (s', r)"
  using assms unfolding applyFailTask_def Let_def
  by (auto split: option.splits if_splits)

lemma guard_passes:
  "taskResultGuard t result = zero_result \<longleftrightarrow> tr_TaskID result \<noteq> [] \<and> tr_SlotID result \<noteq> 0 \<and> tr_TaskKind result \<noteq> []
    \<and> tr_ConfigEpoch result \<noteq> 0 \<and> tr_SlotID result = rt_SlotID t \<and> tr_TaskKind result = rt_Kind t
    \<and> tr_ConfigEpoch result = rt_ConfigEpoch t \<and> tr_Attempt result = rt_Attempt t"
  by (auto simp: taskResultGuard_def zero_result_def noop_def reject_def)

lemma normalize_task_fields [simp]:
  "rt_TaskID (normalize_task t) = rt_TaskID t" "rt_SlotID (normalize_task t) = rt_SlotID t"
  "rt_Kind (normalize_task t) = rt_Kind t" "rt_Step (normalize_task t) = rt_Step t"
  "rt_Status (normalize_task t) = rt_Status t" "rt_Attempt (normalize_task t) = rt_Attempt t"
  "rt_LastError (normalize_task t) = rt_LastError t" "rt_ConfigEpoch (normalize_task t) = rt_ConfigEpoch t"
  by (simp_all add: normalize_task_def)

lemma failed_fields [simp]:
  "rt_TaskID (failed_task err t) = rt_TaskID t" "rt_SlotID (failed_task err t) = rt_SlotID t"
  "rt_Kind (failed_task err t) = rt_Kind t" "rt_Step (failed_task err t) = rt_Step t"
  "rt_ConfigEpoch (failed_task err t) = rt_ConfigEpoch t" "rt_Attempt (failed_task err t) = rt_Attempt t + 1"
  "rt_Status (failed_task err t) = TaskStatusFailed" "rt_LastError (failed_task err t) = truncateUTF8 err MaxTaskLastErrorBytes"
  "rt_CompletionPolicy (failed_task err t) = rt_CompletionPolicy t" "rt_TargetPeers (failed_task err t) = rt_TargetPeers t"
  "rt_ParticipantProgress (failed_task err t) = (if rt_CompletionPolicy t = PolicyAllTargetPeers
     then map pending_progress (rt_TargetPeers t) else rt_ParticipantProgress t)"
  by (simp_all add: failed_task_def Let_def)

text \<open>A result for another attempt than the task's never changes the state.\<close>

lemma stale_result_kept:
  assumes t: "t \<in> set (cs_Tasks s)" "distinct (map rt_TaskID (cs_Tasks s))" "rt_TaskID t = tr_TaskID result"
    and cmd: "cm_TaskResult cmd = Some result" "cm_Kind cmd \<in> {KindCompleteTask, KindFailTask}"
    and stale: "tr_Attempt result \<noteq> rt_Attempt t"
  shows "fst (applyMutation s i cmd) = s"
proof -
  obtain idx where idx: "idx < length (cs_Tasks s)" "cs_Tasks s ! idx = t" using t(1) by (auto simp: in_set_conv_nth)
  have found: "findTaskByID (cs_Tasks s) (tr_TaskID result) = Some idx"
    using find_index_unique [OF t(2) idx(1)] t(3) idx(2) by (simp add: findTaskByID_def)
  have g: "taskResultGuard (cs_Tasks s ! idx) result \<noteq> zero_result"
    using stale by (simp add: guard_passes idx(2))
  have "fst (applyCompleteTask s cmd) = s" "fst (applyFailTask s cmd) = s"
    using found g by (simp_all add: applyCompleteTask_def applyFailTask_def cmd(1) Let_def)
  then have h: "fst (mutation_handler s cmd) = s"
    using cmd(2) by (auto simp: mutation_handler_def command_kinds)
  have "cm_Kind cmd \<noteq> KindInitClusterState" using cmd(2) by (auto simp: command_kinds)
  then show ?thesis using h by (cases "mutation_guard s cmd") (simp_all add: applyMutation_def)
qed

text \<open>
  A failed attempt is fenced: recording it marks the task failed under the next attempt number, with the
  bounded error text and no participant progress left, changes no assignment and no other task, and the same
  result, delivered again as a failure or as a completion, leaves the state as it is.
\<close>

lemma failed_attempt:
  assumes "ctrl_inv s" "applyMutation s i cmd = (s', r)" "ar_Changed r" "cm_Kind cmd = KindFailTask"
  shows "\<exists>result t t'. cm_TaskResult cmd = Some result \<and> t \<in> set (cs_Tasks s) \<and> rt_TaskID t = tr_TaskID result
    \<and> rt_Attempt t = tr_Attempt result \<and> set (cs_Tasks s') = insert t' (set (cs_Tasks s) - {t}) \<and> slot_of s' = slot_of s
    \<and> rt_TaskID t' = rt_TaskID t \<and> rt_Attempt t' = rt_Attempt t + 1 \<and> rt_Status t' = TaskStatusFailed
    \<and> rt_LastError t' = truncateUTF8 (tr_Err result) 1024
    \<and> (\<forall>p\<in>set (rt_ParticipantProgress t'). p = pending_progress (tp_NodeID p))
    \<and> (\<forall>j kind. kind \<in> {KindCompleteTask, KindFailTask} \<longrightarrow> fst (applyMutation s' j (cmd\<lparr>cm_Kind := kind\<rparr>)) = s')"
proof -
  have h: "applyFailTask s cmd = (s', r)"
    using changed_by_handler(2) [OF assms(2,3)] assms(4) by (simp add: mutation_handler_def command_kinds)
  obtain result idx where f: "cm_TaskResult cmd = Some result" "findTaskByID (cs_Tasks s) (tr_TaskID result) = Some idx"
    "taskResultGuard (cs_Tasks s ! idx) result = zero_result" "cs_Revision s \<noteq> 0"
    and v: "validateChanged (Normalize (s\<lparr>cs_Tasks := (cs_Tasks s)[idx := failed_task (tr_Err result) (cs_Tasks s ! idx)]\<rparr>)) s cmd = (s', r)"
    by (rule fail_cases [OF h assms(3)])
  have nf: "Normalize s = s" and wf: "well_formed s" using initialised [OF assms(1) f(4)] by simp_all
  have t: "idx < length (cs_Tasks s)" "rt_TaskID (cs_Tasks s ! idx) = tr_TaskID result"
    using f(2) by (simp_all add: findTaskByID_def find_index_Some)
  let ?t = "cs_Tasks s ! idx" and ?t' = "normalize_task (failed_task (tr_Err result) (cs_Tasks s ! idx))"
  have tin: "?t \<in> set (cs_Tasks s)" using t(1) by simp
  note new = task_replaced [OF nf wf t(1) v assms(3)]
  have g: "rt_Attempt ?t = tr_Attempt result" using f(3) by (simp add: guard_passes)
  have "progress_ok ?t" using wf tin by (simp add: well_formed_def task_ok_def)
  then have progress: "\<forall>p\<in>set (rt_ParticipantProgress ?t'). p = pending_progress (tp_NodeID p)"
    by (auto simp: normalize_task_def default_progress_def default_policy_def progress_ok_def policy_defs pending_progress_def)
  have t': "?t' \<in> set (cs_Tasks s')" "distinct (map rt_TaskID (cs_Tasks s'))"
    using new(1,4) by (simp_all add: well_formed_def)
  have "rt_Attempt ?t + 1 \<noteq> rt_Attempt ?t" by simp
  then have "fst (applyMutation s' j (cmd\<lparr>cm_Kind := kind\<rparr>)) = s'" if "kind \<in> {KindCompleteTask, KindFailTask}" for j kind
    using that t(2) g f(1) by (intro stale_result_kept [OF t', of result]) simp_all
  then show ?thesis using f(1) t(2) tin new(1,2) g progress
    by (intro exI [of _ result] exI [of _ ?t] exI [of _ ?t']) (simp add: MaxTaskLastErrorBytes_def)
qed

section \<open>Bounded error texts\<close>

lemma trim_invalid_prefix: "prefix (trim_invalid s) s \<and> ValidString (trim_invalid s)
  \<and> (\<forall>p. prefix p s \<and> ValidString p \<longrightarrow> length p \<le> length (trim_invalid s))"
proof (induction s rule: trim_invalid.induct)
  case (1 s)
  show ?case
  proof (cases "ValidString s")
    case True
    then show ?thesis by (simp add: trim_invalid.simps [of s] prefix_length_le)
  next
    case False
    then have e: "trim_invalid s = trim_invalid (butlast s)" by (subst trim_invalid.simps) simp
    have sub: "prefix p (butlast s)" if "prefix p s" "ValidString p" for p
      using that False by (metis butlast_append prefix_def append_Nil2 append_butlast_last_id prefix_snoc)
    have "prefix (butlast s) s" by (metis append_butlast_last_id prefixI prefix_order.refl butlast.simps(1))
    then show ?thesis unfolding e using 1 [OF False] sub by (meson prefix_order.trans)
  qed
qed

lemma rune_rest_split:
  assumes "rune_rest b rest = Some r"
  shows "\<exists>c. rest = c @ r \<and> length c \<le> 3 \<and> (\<forall>z. rune_rest b (c @ z) = Some z)"
  using assms by (auto simp: rune_rest_def Let_def split: if_splits list.splits)

lemma valid_near:
  "utf8_bytes_ok xs \<Longrightarrow> n \<le> length xs \<Longrightarrow> \<exists>m\<le>n. n \<le> m + 3 \<and> utf8_bytes_ok (take m xs)"
proof (induction xs arbitrary: n rule: utf8_bytes_ok.induct)
  case (2 b rest)
  then obtain r where r: "rune_rest b rest = Some r" "utf8_bytes_ok r" by (auto split: option.splits)
  obtain c where c: "rest = c @ r" "length c \<le> 3" "\<And>z. rune_rest b (c @ z) = Some z"
    using rune_rest_split [OF r(1)] by blast
  show ?case
  proof (cases "n \<le> length c")
    case True
    then show ?thesis using c(2) by (intro exI [of _ 0]) simp
  next
    case False
    then have "n - Suc (length c) \<le> length r" using "2.prems"(2) c(1) by simp
    then obtain m where m: "m \<le> n - Suc (length c)" "n - Suc (length c) \<le> m + 3" "utf8_bytes_ok (take m r)"
      using "2.IH" [OF r(1,2)] by blast
    have "utf8_bytes_ok (take (Suc (length c) + m) (b # rest))" using m(3) c by simp
    moreover have "Suc (length c) + m \<le> n \<and> n \<le> Suc (length c) + m + 3" using m(1,2) False by arith
    ultimately show ?thesis by blast
  qed
qed simp

text \<open>
  C31: a stored error text is bounded: it is a prefix of the error of at most the limit, the whole of it when it
  fits, valid UTF-8 whenever it was cut, and cutting a valid text loses at most three bytes more than it must.
\<close>

theorem truncate_utf8:
  assumes "0 < n"
  shows "prefix (truncateUTF8 s n) s \<and> int (length (truncateUTF8 s n)) \<le> n
    \<and> (int (length s) \<le> n \<longrightarrow> truncateUTF8 s n = s) \<and> (int (length s) > n \<longrightarrow> ValidString (truncateUTF8 s n))
    \<and> (ValidString s \<longrightarrow> ValidString (truncateUTF8 s n) \<and> min (length s) (nat n) \<le> length (truncateUTF8 s n) + 3)"
proof (cases "int (length s) \<le> n")
  case False
  let ?p = "take (nat n) s" and ?t = "trim_invalid (take (nat n) s)"
  have t: "truncateUTF8 s n = ?t" using False assms by (simp add: truncateUTF8_def)
  have p: "prefix ?t ?p" "ValidString ?t" "\<And>q. prefix q ?p \<Longrightarrow> ValidString q \<Longrightarrow> length q \<le> length ?t"
    using trim_invalid_prefix [of ?p] by blast+
  have "prefix ?t s" using p(1) take_is_prefix prefix_order.trans by blast
  moreover have "length ?t \<le> nat n" using prefix_length_le [OF p(1)] by simp
  moreover have "nat n \<le> length ?t + 3" if v: "ValidString s"
  proof -
    obtain m where m: "m \<le> nat n" "nat n \<le> m + 3" "utf8_bytes_ok (take m (map of_char s))"
      using valid_near [of "map of_char s" "nat n"] v False by (force simp: ValidString_def)
    have "length (take m s) \<le> length ?t"
      using m(1,3) take_is_prefix [of m ?p] by (intro p(3)) (simp_all add: ValidString_def take_map min_absorb1)
    then show ?thesis using m(1,2) False assms by simp
  qed
  ultimately show ?thesis using False assms p(2) by (auto simp: t)
qed (use assms in \<open>simp add: truncateUTF8_def\<close>)


section \<open>Instances\<close>

definition placed_state :: ClusterState where
  "placed_state = live_state\<lparr>cs_Revision := 2, cs_Slots := [bootstrap_assignment 1 [1] 1],
     cs_Tasks := [bootstrap_task 1 [1] 1]\<rparr>"

definition bootstrap_failure :: Command where
  "bootstrap_failure = (blank_command KindFailTask)\<lparr>cm_TaskResult := Some
     \<lparr>tr_TaskID = bootstrap_name 1, tr_SlotID = 1, tr_TaskKind = TaskKindBootstrap, tr_ConfigEpoch = 1, tr_Attempt = 0,
      tr_Err = ''disk'', tr_FinishedAt = 0\<rparr>\<rparr>"

definition moving_task :: "TaskStep \<Rightarrow> ReconcileTask" where
  "moving_task step = (bootstrap_task 1 [2] 2)\<lparr>rt_Kind := TaskKindSlotReplicaMove, rt_Step := step, rt_SourceNode := 1,
     rt_CompletionPolicy := PolicySingleObserver, rt_ParticipantProgress := [], rt_PhaseIndex := 3,
     rt_ObservedConfigIndex := 7, rt_ObservedVoters := [2]\<rparr>"

definition moving_state :: "TaskStep \<Rightarrow> ClusterState" where
  "moving_state step = placed_state\<lparr>cs_Tasks := [moving_task step]\<rparr>"

definition commit_command :: Command where
  "commit_command = (blank_command KindCommitSlotReplicaMove)\<lparr>cm_SlotReplicaMoveCommit := Some
     \<lparr>mc_TaskID = bootstrap_name 1, mc_SlotID = 1, mc_ConfigEpoch = 1, mc_Attempt = 0, mc_ObservedConfigIndex = 8,
      mc_ObservedVoters = [2]\<rparr>\<rparr>"

definition converged_command :: Command where
  "converged_command = (blank_command KindAdvanceSlotReplicaMovePhase)\<lparr>cm_SlotReplicaMovePhase := Some
     \<lparr>pa_TaskID = bootstrap_name 1, pa_SlotID = 1, pa_ConfigEpoch = 1, pa_Attempt = 0, pa_ExpectedPhaseIndex = 3,
      pa_NextStep = TaskStepCommitAssignment, pa_ObservedConfigIndex = 8, pa_ObservedVoters = [2], pa_ObservedLearners = []\<rparr>\<rparr>"

lemma task_instances:
  "Normalize placed_state = placed_state" "Validate placed_state = None"
  "Normalize (moving_state TaskStepCommitAssignment) = moving_state TaskStepCommitAssignment"
  "Validate (moving_state TaskStepCommitAssignment) = None"
  "Normalize (moving_state TaskStepRemoveVoter) = moving_state TaskStepRemoveVoter"
  "Validate (moving_state TaskStepRemoveVoter) = None"
  "ar_Changed (snd (applyMutation placed_state 5 bootstrap_failure))"
  "ar_Changed (snd (applyMutation (moving_state TaskStepCommitAssignment) 5 commit_command))"
  "ar_Changed (snd (applyMutation (moving_state TaskStepRemoveVoter) 5 converged_command))"
  by code_simp+

lemma task_instances_inv:
  "ctrl_inv placed_state" "ctrl_inv (moving_state TaskStepCommitAssignment)" "ctrl_inv (moving_state TaskStepRemoveVoter)"
  by (simp_all add: ctrl_inv_def task_instances)

theorem move_commit_witness:
  "\<exists>a'. slot_of (fst (applyMutation (moving_state TaskStepCommitAssignment) 5 commit_command)) 1 = Some a'
    \<and> sa_DesiredPeers a' = [2] \<and> sa_ConfigEpoch a' = 2"
proof -
  have k: "cm_Kind commit_command = KindCommitSlotReplicaMove" by (simp add: commit_command_def blank_command_def)
  have e: "cs_Tasks (moving_state TaskStepCommitAssignment) = [moving_task TaskStepCommitAssignment]"
    "rt_SlotID (moving_task TaskStepCommitAssignment) = 1" "rt_TargetPeers (moving_task TaskStepCommitAssignment) = [2]"
    "slot_of (moving_state TaskStepCommitAssignment) 1 = Some (bootstrap_assignment 1 [1] 1)"
    "sa_ConfigEpoch (bootstrap_assignment 1 [1] 1) = 1"
    by (simp_all add: moving_state_def moving_task_def bootstrap_task_def placed_state_def slot_of_def bootstrap_assignment_def)
  from move_commit [OF task_instances_inv(2) prod.collapse [symmetric] task_instances(8) k] show ?thesis using e by auto
qed

theorem move_phases_witness:
  "\<exists>t\<in>set (cs_Tasks (fst (applyMutation (moving_state TaskStepRemoveVoter) 5 converged_command))).
    rt_Step t = TaskStepCommitAssignment \<and> rt_PhaseIndex t = 4"
proof -
  have k: "cm_Kind converged_command = KindAdvanceSlotReplicaMovePhase" by (simp add: converged_command_def blank_command_def)
  have e: "cs_Tasks (moving_state TaskStepRemoveVoter) = [moving_task TaskStepRemoveVoter]"
    "rt_PhaseIndex (moving_task TaskStepRemoveVoter) = 3"
    by (simp_all add: moving_state_def moving_task_def bootstrap_task_def)
  have p: "cm_SlotReplicaMovePhase converged_command = Some p \<Longrightarrow> pa_NextStep p = TaskStepCommitAssignment" for p
    by (auto simp: converged_command_def)
  let ?s' = "fst (applyMutation (moving_state TaskStepRemoveVoter) 5 converged_command)"
  from move_phases [OF task_instances_inv(3) prod.collapse [symmetric] task_instances(9) k]
  obtain q t where q: "cm_SlotReplicaMovePhase converged_command = Some q" "t \<in> set (cs_Tasks (moving_state TaskStepRemoveVoter))"
    and new: "t\<lparr>rt_Step := pa_NextStep q, rt_PhaseIndex := rt_PhaseIndex t + 1,
      rt_ObservedConfigIndex := pa_ObservedConfigIndex q, rt_ObservedVoters := sort (pa_ObservedVoters q),
      rt_ObservedLearners := sort (pa_ObservedLearners q)\<rparr> \<in> set (cs_Tasks ?s')"
    by (elim exE conjE) blast
  show ?thesis using e p [OF q(1)] q(2) by (intro bexI [OF _ new]) simp
qed

theorem truncate_utf8_witness:
  "prefix (truncateUTF8 ''abc'' 2) ''abc'' \<and> int (length (truncateUTF8 ''abc'' 2)) \<le> 2"
  using truncate_utf8 [of 2 "''abc''"] by simp

end
