(* ===== verification/ProtoFrame.thy ===== *)
theory ProtoFrame
  imports Bytes
begin

text \<open>
  The packets of the client protocol (\<open>pkg/protocol/frame\<close>): the embedded \<open>Framer\<close>, one record
  per packet and the \<open>Frame\<close> interface as their sum. Strings and payloads are byte lists; signed
  64- and 32-bit fields are kept as words (two's complement). A nil and an empty payload are the
  same list.
\<close>

section \<open>Framer and frame types\<close>

type_synonym FrameType = u8
type_synonym ReasonCode = u8
type_synonym Setting = u8
type_synonym bytes = "u8 list"

record Framer =
  fr_FrameType :: FrameType
  fr_RemainingLength :: u32
  fr_NoPersist :: bool
  fr_RedDot :: bool
  fr_SyncOnce :: bool
  fr_DUP :: bool
  fr_HasServerVersion :: bool
  fr_End :: bool
  fr_FrameSize :: u64

definition UNKNOWN :: FrameType where "UNKNOWN = 0"
definition CONNECT :: FrameType where "CONNECT = 1"
definition CONNACK :: FrameType where "CONNACK = 2"
definition SEND :: FrameType where "SEND = 3"
definition SENDACK :: FrameType where "SENDACK = 4"
definition RECV :: FrameType where "RECV = 5"
definition RECVACK :: FrameType where "RECVACK = 6"
definition PING :: FrameType where "PING = 7"
definition PONG :: FrameType where "PONG = 8"
definition DISCONNECT :: FrameType where "DISCONNECT = 9"
definition SUB :: FrameType where "SUB = 10"
definition SUBACK :: FrameType where "SUBACK = 11"
definition EVENT :: FrameType where "EVENT = 12"

lemmas frame_types = UNKNOWN_def CONNECT_def CONNACK_def SEND_def SENDACK_def RECV_def RECVACK_def
  PING_def PONG_def DISCONNECT_def SUB_def SUBACK_def EVENT_def

definition LegacyMessageSeqVersion :: u8 where "LegacyMessageSeqVersion = 5"
definition LatestVersion :: u8 where "LatestVersion = 6"

definition MessageSeqLegacyByteSize :: nat where "MessageSeqLegacyByteSize = 4"
definition MessageSeqU64ByteSize :: nat where "MessageSeqU64ByteSize = 8"

section \<open>Settings\<close>

definition SettingReceiptEnabled :: Setting where "SettingReceiptEnabled = push_bit 7 1"
definition SettingSignal :: Setting where "SettingSignal = push_bit 5 1"
definition SettingNoEncrypt :: Setting where "SettingNoEncrypt = push_bit 4 1"
definition SettingTopic :: Setting where "SettingTopic = push_bit 3 1"
definition SettingStream :: Setting where "SettingStream = push_bit 1 1"

definition IsSet :: "Setting \<Rightarrow> Setting \<Rightarrow> bool" where
  "IsSet s v \<longleftrightarrow> s AND v \<noteq> 0"

definition SettingClear :: "Setting \<Rightarrow> Setting \<Rightarrow> Setting" where
  "SettingClear s v = s AND NOT v"

definition SettingSet :: "Setting \<Rightarrow> Setting \<Rightarrow> Setting" where
  "SettingSet s v = s OR v"

section \<open>Packets\<close>

record ConnectPacket =
  cn_Framer :: Framer
  cn_Version :: u8
  cn_ClientKey :: bytes
  cn_DeviceID :: bytes
  cn_DeviceFlag :: u8
  cn_ClientTimestamp :: u64
  cn_UID :: bytes
  cn_Token :: bytes

record ConnackPacket =
  ca_Framer :: Framer
  ca_ServerVersion :: u8
  ca_ServerKey :: bytes
  ca_Salt :: bytes
  ca_TimeDiff :: u64
  ca_ReasonCode :: ReasonCode
  ca_NodeId :: u64

record SendPacket =
  sp_Framer :: Framer
  sp_Setting :: Setting
  sp_MsgKey :: bytes
  sp_Expire :: u32
  sp_ClientSeq :: u64
  sp_ClientMsgNo :: bytes
  sp_StreamNo :: bytes
  sp_ChannelID :: bytes
  sp_ChannelType :: u8
  sp_Topic :: bytes
  sp_Payload :: bytes

record SendackPacket =
  sa_Framer :: Framer
  sa_MessageID :: u64
  sa_MessageSeq :: u64
  sa_ClientSeq :: u64
  sa_ClientMsgNo :: bytes
  sa_ReasonCode :: ReasonCode

record RecvPacket =
  rp_Framer :: Framer
  rp_Setting :: Setting
  rp_MsgKey :: bytes
  rp_Expire :: u32
  rp_MessageID :: u64
  rp_MessageSeq :: u64
  rp_ClientMsgNo :: bytes
  rp_StreamNo :: bytes
  rp_StreamId :: u64
  rp_StreamFlag :: u8
  rp_Timestamp :: u32
  rp_ChannelID :: bytes
  rp_ChannelType :: u8
  rp_Topic :: bytes
  rp_FromUID :: bytes
  rp_Payload :: bytes
  rp_ClientSeq :: u64

record RecvackPacket =
  ra_Framer :: Framer
  ra_MessageID :: u64
  ra_MessageSeq :: u64

record DisconnectPacket =
  dc_Framer :: Framer
  dc_ReasonCode :: ReasonCode
  dc_Reason :: bytes

record SubPacket =
  su_Framer :: Framer
  su_Setting :: Setting
  su_SubNo :: bytes
  su_ChannelID :: bytes
  su_ChannelType :: u8
  su_Action :: u8
  su_Param :: bytes

record SubackPacket =
  sk_Framer :: Framer
  sk_SubNo :: bytes
  sk_ChannelID :: bytes
  sk_ChannelType :: u8
  sk_Action :: u8
  sk_ReasonCode :: ReasonCode

record EventPacket =
  ev_Framer :: Framer
  ev_Id :: bytes
  ev_Type :: bytes
  ev_Timestamp :: u64
  ev_Data :: bytes

section \<open>The Frame interface\<close>

text \<open>The dynamic types behind \<open>Frame\<close> that the codec handles; all are pointers, never nil.\<close>

datatype Frame =
    FConnect ConnectPacket | FConnack ConnackPacket | FSend SendPacket | FSendack SendackPacket
  | FRecv RecvPacket | FRecvack RecvackPacket | FPing Framer | FPong Framer
  | FDisconnect DisconnectPacket | FSub SubPacket | FSuback SubackPacket | FEvent EventPacket

fun GetFrameType :: "Frame \<Rightarrow> FrameType" where
  "GetFrameType (FConnect _) = CONNECT"
| "GetFrameType (FConnack _) = CONNACK"
| "GetFrameType (FSend _) = SEND"
| "GetFrameType (FSendack _) = SENDACK"
| "GetFrameType (FRecv _) = RECV"
| "GetFrameType (FRecvack _) = RECVACK"
| "GetFrameType (FPing _) = PING"
| "GetFrameType (FPong _) = PONG"
| "GetFrameType (FDisconnect _) = DISCONNECT"
| "GetFrameType (FSub _) = SUB"
| "GetFrameType (FSuback _) = SUBACK"
| "GetFrameType (FEvent _) = EVENT"

text \<open>The promoted methods \<open>GetDUP\<close>, \<open>GetNoPersist\<close>, ... read the embedded \<open>Framer\<close>.\<close>

fun frame_framer :: "Frame \<Rightarrow> Framer" where
  "frame_framer (FConnect p) = cn_Framer p"
| "frame_framer (FConnack p) = ca_Framer p"
| "frame_framer (FSend p) = sp_Framer p"
| "frame_framer (FSendack p) = sa_Framer p"
| "frame_framer (FRecv p) = rp_Framer p"
| "frame_framer (FRecvack p) = ra_Framer p"
| "frame_framer (FPing p) = p"
| "frame_framer (FPong p) = p"
| "frame_framer (FDisconnect p) = dc_Framer p"
| "frame_framer (FSub p) = su_Framer p"
| "frame_framer (FSuback p) = sk_Framer p"
| "frame_framer (FEvent p) = ev_Framer p"

section \<open>The fixed header\<close>

definition encodeBool :: "bool \<Rightarrow> u8" where
  "encodeBool b = (if b then 1 else 0)"

definition ToFixHeaderUint8 :: "Frame \<Rightarrow> u8" where
  "ToFixHeaderUint8 f =
     (let h = frame_framer f;
          typeAndFlags = push_bit 3 (encodeBool (fr_DUP h)) OR push_bit 2 (encodeBool (fr_SyncOnce h))
            OR push_bit 1 (encodeBool (fr_RedDot h)) OR encodeBool (fr_NoPersist h);
          typeAndFlags = (if GetFrameType f = CONNACK then encodeBool (fr_HasServerVersion h) else typeAndFlags)
      in push_bit 4 (GetFrameType f) OR typeAndFlags)"

definition zero_Framer :: Framer where
  "zero_Framer = \<lparr>fr_FrameType = UNKNOWN, fr_RemainingLength = 0, fr_NoPersist = False, fr_RedDot = False,
     fr_SyncOnce = False, fr_DUP = False, fr_HasServerVersion = False, fr_End = False, fr_FrameSize = 0\<rparr>"

definition FramerFromUint8 :: "u8 \<Rightarrow> Framer" where
  "FramerFromUint8 v =
     (let p = zero_Framer\<lparr>fr_NoPersist := 0 < v AND 1, fr_RedDot := 0 < drop_bit 1 v AND 1,
            fr_SyncOnce := 0 < drop_bit 2 v AND 1, fr_DUP := 0 < drop_bit 3 v AND 1,
            fr_FrameType := drop_bit 4 v\<rparr>
      in if fr_FrameType p = CONNACK then p\<lparr>fr_HasServerVersion := 0 < v AND 1\<rparr> else p)"

end
