(* ===== verification/ProtoCodec.thy ===== *)
theory ProtoCodec
  imports ProtoFrame
begin

text \<open>
  The binary encoding of the packets (\<open>pkg/protocol/codec\<close>). A writer is the bytes it has put
  into the buffer and, if it stopped early, the reason: a panic of \<open>WriteString\<close> or an error.
  A decoder takes the unread bytes \<open>p[offset:]\<close> and returns a value with the bytes after it.
  The wrapped texts of the errors are the names of the fields.
\<close>

section \<open>Writers\<close>

datatype EncStop = PanicStringTooLong nat | ErrSeqExceedsLegacy | ErrPayloadTooLarge

type_synonym writer = "bytes \<times> EncStop option"

definition wr :: "bytes \<Rightarrow> writer" where
  "wr bs = (bs, None)"

fun seq_enc :: "writer list \<Rightarrow> writer" where
  "seq_enc [] = ([], None)"
| "seq_enc ((bs, Some e) # ws) = (bs, Some e)"
| "seq_enc ((bs, None) # ws) = (case seq_enc ws of (bs', e) \<Rightarrow> (bs @ bs', e))"

definition if_enc :: "bool \<Rightarrow> writer \<Rightarrow> writer" where
  "if_enc c w = (if c then w else wr [])"

definition WriteUint8 :: "u8 \<Rightarrow> writer" where
  "WriteUint8 i = wr [i]"

definition WriteUint32 :: "u32 \<Rightarrow> writer" where
  "WriteUint32 i = wr (put32 i)"

definition WriteUint64 :: "u64 \<Rightarrow> writer" where
  "WriteUint64 i = wr (put64 i)"

definition MaxInt16 :: nat where "MaxInt16 = 32767"

definition WriteString :: "bytes \<Rightarrow> writer" where
  "WriteString str =
     (if str = [] then wr (put16 0)
      else if MaxInt16 < length str then ([], Some (PanicStringTooLong (length str)))
      else wr (put16 (of_nat (length str)) @ str))"

definition WriteBytes :: "bytes \<Rightarrow> writer" where
  "WriteBytes b = wr b"

section \<open>The decoder\<close>

datatype DecErr = ErrShort | ErrNegativeSize u16 | ErrTrailing string | ErrField string DecErr
  | ErrTooLarge u32 | ErrUnsupported FrameType | ErrPacket FrameType DecErr

type_synonym 'a decoder = "bytes \<Rightarrow> DecErr + 'a \<times> bytes"

definition ret_dec :: "'a \<Rightarrow> 'a decoder" where
  "ret_dec x bs = Inr (x, bs)"

definition bind_dec :: "'a decoder \<Rightarrow> ('a \<Rightarrow> 'b decoder) \<Rightarrow> 'b decoder" where
  "bind_dec r k bs = (case r bs of Inl e \<Rightarrow> Inl e | Inr (x, bs') \<Rightarrow> k x bs')"

text \<open>\<open>if cond { if v, err = read(); err != nil { return wrap } }\<close>, the field keeping its zero value
  otherwise.\<close>

definition if_dec :: "bool \<Rightarrow> 'a \<Rightarrow> 'a decoder \<Rightarrow> 'a decoder" where
  "if_dec c z r = (if c then r else ret_dec z)"

definition field :: "string \<Rightarrow> 'a decoder \<Rightarrow> 'a decoder" where
  "field l r bs = map_sum (ErrField l) (\<lambda>x. x) (r bs)"

definition run_dec :: "'a decoder \<Rightarrow> bytes \<Rightarrow> DecErr + 'a" where
  "run_dec r bs = map_sum (\<lambda>e. e) fst (r bs)"

definition or_short :: "('a \<times> bytes) option \<Rightarrow> DecErr + 'a \<times> bytes" where
  "or_short r = (case r of None \<Rightarrow> Inl ErrShort | Some xr \<Rightarrow> Inr xr)"

definition DecUint8 :: "u8 decoder" where
  "DecUint8 bs = (case bs of [] \<Rightarrow> Inl ErrShort | b # bs' \<Rightarrow> Inr (b, bs'))"

definition DecInt16 :: "u16 decoder" where
  "DecInt16 bs = or_short (get16 bs)"

definition DecUint32 :: "u32 decoder" where
  "DecUint32 bs = or_short (get32 bs)"

definition DecUint64 :: "u64 decoder" where
  "DecUint64 bs = or_short (get64 bs)"

definition DecBinary :: "bytes decoder" where
  "DecBinary = bind_dec DecInt16 (\<lambda>sz bs.
     if sint sz < 0 then Inl (ErrNegativeSize sz)
     else if length bs < unat sz then Inl ErrShort
     else Inr (take (unat sz) bs, drop (unat sz) bs))"

definition DecString :: "bytes decoder" where
  "DecString = DecBinary"

definition BinaryAll :: "bytes decoder" where
  "BinaryAll bs = Inr (bs, [])"

section \<open>Message sequences\<close>

definition encodeMessageSeq :: "u8 \<Rightarrow> u64 \<Rightarrow> writer" where
  "encodeMessageSeq version value =
     (if version \<le> LegacyMessageSeqVersion then
        if 0xFFFFFFFF < value then ([], Some ErrSeqExceedsLegacy) else WriteUint32 (ucast value)
      else WriteUint64 value)"

definition decodeMessageSeq :: "u8 \<Rightarrow> u64 decoder" where
  "decodeMessageSeq version =
     (if version \<le> LegacyMessageSeqVersion then bind_dec DecUint32 (\<lambda>value. ret_dec (ucast value))
      else DecUint64)"

definition messageSeqSize :: "u8 \<Rightarrow> nat" where
  "messageSeqSize version =
     (if version \<le> LegacyMessageSeqVersion then MessageSeqLegacyByteSize else MessageSeqU64ByteSize)"

section \<open>CONNECT\<close>

definition encodeConnect :: "ConnectPacket \<Rightarrow> u8 \<Rightarrow> writer" where
  "encodeConnect p version = seq_enc
     [WriteUint8 (cn_Version p), WriteUint8 (cn_DeviceFlag p), WriteString (cn_DeviceID p),
      WriteString (cn_UID p), WriteString (cn_Token p), WriteUint64 (cn_ClientTimestamp p),
      WriteString (cn_ClientKey p)]"

definition encodeConnectSize :: "ConnectPacket \<Rightarrow> u8 \<Rightarrow> nat" where
  "encodeConnectSize p version = 1 + 1 + (length (cn_DeviceID p) + 2) + (length (cn_UID p) + 2)
     + (length (cn_Token p) + 2) + 8 + (length (cn_ClientKey p) + 2)"

definition decodeConnect :: "Framer \<Rightarrow> bytes \<Rightarrow> u8 \<Rightarrow> DecErr + ConnectPacket" where
  "decodeConnect f data version = run_dec (
     bind_dec (field ''version'' DecUint8) (\<lambda>ver.
     bind_dec (field ''DeviceFlag'' DecUint8) (\<lambda>deviceFlag.
     bind_dec (field ''DeviceId'' DecString) (\<lambda>deviceID.
     bind_dec (field ''UID'' DecString) (\<lambda>uid.
     bind_dec (field ''Token'' DecString) (\<lambda>token.
     bind_dec (field ''ClientTimestamp'' DecUint64) (\<lambda>clientTimestamp.
     bind_dec (field ''ClientKey'' DecString) (\<lambda>clientKey.
     ret_dec \<lparr>cn_Framer = f, cn_Version = ver, cn_ClientKey = clientKey, cn_DeviceID = deviceID,
       cn_DeviceFlag = deviceFlag, cn_ClientTimestamp = clientTimestamp, cn_UID = uid,
       cn_Token = token\<rparr>)))))))) data"

section \<open>CONNACK\<close>

definition encodeConnack :: "ConnackPacket \<Rightarrow> u8 \<Rightarrow> writer" where
  "encodeConnack p version = seq_enc
     [if_enc (fr_HasServerVersion (ca_Framer p)) (WriteUint8 (ca_ServerVersion p)),
      WriteUint64 (ca_TimeDiff p), WriteUint8 (ca_ReasonCode p), WriteString (ca_ServerKey p),
      WriteString (ca_Salt p), if_enc (4 \<le> version) (WriteUint64 (ca_NodeId p))]"

definition encodeConnackSize :: "ConnackPacket \<Rightarrow> u8 \<Rightarrow> nat" where
  "encodeConnackSize p version = (if fr_HasServerVersion (ca_Framer p) then 1 else 0) + 8 + 1
     + (length (ca_ServerKey p) + 2) + (length (ca_Salt p) + 2) + (if 4 \<le> version then 8 else 0)"

definition decodeConnack :: "Framer \<Rightarrow> bytes \<Rightarrow> u8 \<Rightarrow> DecErr + ConnackPacket" where
  "decodeConnack f data version = run_dec (
     bind_dec (if_dec (fr_HasServerVersion f) 0 (field ''version'' DecUint8)) (\<lambda>serverVersion.
     bind_dec (field ''TimeDiff'' DecUint64) (\<lambda>timeDiff.
     bind_dec (field ''ReasonCode'' DecUint8) (\<lambda>reasonCode.
     bind_dec (field ''ServerKey'' DecString) (\<lambda>serverKey.
     bind_dec (field ''Salt'' DecString) (\<lambda>salt.
     bind_dec (if_dec (4 \<le> version) 0 (field ''NodeId'' DecUint64)) (\<lambda>nodeId.
     ret_dec \<lparr>ca_Framer = f, ca_ServerVersion = serverVersion, ca_ServerKey = serverKey,
       ca_Salt = salt, ca_TimeDiff = timeDiff, ca_ReasonCode = reasonCode,
       ca_NodeId = nodeId\<rparr>))))))) data"

section \<open>SEND\<close>

definition has_stream :: "u8 \<Rightarrow> Setting \<Rightarrow> bool" where
  "has_stream version s \<longleftrightarrow> version < 5 \<and> 2 \<le> version \<and> IsSet s SettingStream"

definition encodeSend :: "SendPacket \<Rightarrow> u8 \<Rightarrow> writer" where
  "encodeSend p version = seq_enc
     [WriteUint8 (sp_Setting p), WriteUint32 (ucast (sp_ClientSeq p)), WriteString (sp_ClientMsgNo p),
      if_enc (has_stream version (sp_Setting p)) (WriteString (sp_StreamNo p)),
      WriteString (sp_ChannelID p), WriteUint8 (sp_ChannelType p),
      if_enc (3 \<le> version) (WriteUint32 (sp_Expire p)), WriteString (sp_MsgKey p),
      if_enc (IsSet (sp_Setting p) SettingTopic) (WriteString (sp_Topic p)),
      WriteBytes (sp_Payload p)]"

definition encodeSendSize :: "SendPacket \<Rightarrow> u8 \<Rightarrow> nat" where
  "encodeSendSize p version = 1 + 4 + (length (sp_ClientMsgNo p) + 2)
     + (if has_stream version (sp_Setting p) then length (sp_StreamNo p) + 2 else 0)
     + (length (sp_ChannelID p) + 2) + 1 + (if 3 \<le> version then 4 else 0)
     + (length (sp_MsgKey p) + 2)
     + (if IsSet (sp_Setting p) SettingTopic then length (sp_Topic p) + 2 else 0)
     + length (sp_Payload p)"

definition decodeSend :: "Framer \<Rightarrow> bytes \<Rightarrow> u8 \<Rightarrow> DecErr + SendPacket" where
  "decodeSend f data version = run_dec (
     bind_dec (field ''Setting'' DecUint8) (\<lambda>setting.
     bind_dec (field ''ClientSeq'' DecUint32) (\<lambda>clientSeq.
     bind_dec (field ''ClientMsgNo'' DecString) (\<lambda>clientMsgNo.
     bind_dec (if_dec (has_stream version setting) [] (field ''StreamNo'' DecString)) (\<lambda>streamNo.
     bind_dec (field ''ChannelId'' DecString) (\<lambda>channelID.
     bind_dec (field ''ChannelType'' DecUint8) (\<lambda>channelType.
     bind_dec (if_dec (3 \<le> version) 0 (field ''Expire'' DecUint32)) (\<lambda>expire.
     bind_dec (field ''MsgKey'' DecString) (\<lambda>msgKey.
     bind_dec (if_dec (IsSet setting SettingTopic) [] (field ''topic'' DecString)) (\<lambda>topic.
     bind_dec (field ''payload'' BinaryAll) (\<lambda>payload.
     ret_dec \<lparr>sp_Framer = f, sp_Setting = setting, sp_MsgKey = msgKey, sp_Expire = expire,
       sp_ClientSeq = ucast clientSeq, sp_ClientMsgNo = clientMsgNo, sp_StreamNo = streamNo,
       sp_ChannelID = channelID, sp_ChannelType = channelType, sp_Topic = topic,
       sp_Payload = payload\<rparr>))))))))))) data"

section \<open>SENDACK\<close>

definition encodeSendack :: "SendackPacket \<Rightarrow> u8 \<Rightarrow> writer" where
  "encodeSendack p version = seq_enc
     [WriteUint64 (sa_MessageID p), WriteUint32 (ucast (sa_ClientSeq p)),
      encodeMessageSeq version (sa_MessageSeq p), WriteUint8 (sa_ReasonCode p),
      if_enc (sa_ClientMsgNo p \<noteq> []) (WriteString (sa_ClientMsgNo p))]"

definition encodeSendackSize :: "SendackPacket \<Rightarrow> u8 \<Rightarrow> nat" where
  "encodeSendackSize p version = 8 + 4 + messageSeqSize version + 1
     + (if sa_ClientMsgNo p \<noteq> [] then length (sa_ClientMsgNo p) + 2 else 0)"

definition expect_end :: "string \<Rightarrow> 'a \<Rightarrow> 'a decoder" where
  "expect_end l x bs = (if bs \<noteq> [] then Inl (ErrTrailing l) else Inr (x, bs))"

definition decodeSendackBodyCoreFirst :: "bytes \<Rightarrow> u8 \<Rightarrow> DecErr + bytes \<times> u64 \<times> ReasonCode" where
  "decodeSendackBodyCoreFirst data version = run_dec (
     bind_dec (field ''MessageSeq'' (decodeMessageSeq version)) (\<lambda>messageSeq.
     bind_dec (field ''ReasonCode'' DecUint8) (\<lambda>reasonCode.
     bind_dec (\<lambda>bs. if_dec (bs \<noteq> []) [] (field ''ClientMsgNo'' DecString) bs) (\<lambda>clientMsgNo.
     expect_end ''core-first'' (clientMsgNo, messageSeq, reasonCode))))) data"

definition decodeSendackBodyClientMsgNoFirst :: "bytes \<Rightarrow> u8 \<Rightarrow> DecErr + bytes \<times> u64 \<times> ReasonCode" where
  "decodeSendackBodyClientMsgNoFirst data version = run_dec (
     bind_dec (field ''ClientMsgNo'' DecString) (\<lambda>clientMsgNo.
     bind_dec (field ''MessageSeq'' (decodeMessageSeq version)) (\<lambda>messageSeq.
     bind_dec (field ''ReasonCode'' DecUint8) (\<lambda>reasonCode.
     expect_end ''client-msg-no-first'' (clientMsgNo, messageSeq, reasonCode))))) data"

definition decodeSendackBody :: "bytes \<Rightarrow> u8 \<Rightarrow> DecErr + bytes \<times> u64 \<times> ReasonCode" where
  "decodeSendackBody data version =
     (case decodeSendackBodyCoreFirst data version of
        Inr r \<Rightarrow> Inr r
      | Inl _ \<Rightarrow> map_sum (ErrField ''SendackBody'') (\<lambda>r. r) (decodeSendackBodyClientMsgNoFirst data version))"

definition decodeSendack :: "Framer \<Rightarrow> bytes \<Rightarrow> u8 \<Rightarrow> DecErr + SendackPacket" where
  "decodeSendack f data version = run_dec (
     bind_dec (field ''MessageId'' DecUint64) (\<lambda>messageID.
     bind_dec (field ''ClientSeq'' DecUint32) (\<lambda>clientSeq.
     bind_dec BinaryAll (\<lambda>body bs.
       case decodeSendackBody body version of
         Inl e \<Rightarrow> Inl e
       | Inr (clientMsgNo, messageSeq, reasonCode) \<Rightarrow>
           Inr (\<lparr>sa_Framer = f, sa_MessageID = messageID, sa_MessageSeq = messageSeq,
                 sa_ClientSeq = ucast clientSeq, sa_ClientMsgNo = clientMsgNo,
                 sa_ReasonCode = reasonCode\<rparr>, bs))))) data"

section \<open>RECV\<close>

definition encodeRecv :: "RecvPacket \<Rightarrow> u8 \<Rightarrow> writer" where
  "encodeRecv p version = seq_enc
     [WriteUint8 (rp_Setting p), WriteString (rp_MsgKey p), WriteString (rp_FromUID p),
      WriteString (rp_ChannelID p), WriteUint8 (rp_ChannelType p),
      if_enc (3 \<le> version) (WriteUint32 (rp_Expire p)), WriteString (rp_ClientMsgNo p),
      if_enc (has_stream version (rp_Setting p)) (WriteUint8 (rp_StreamFlag p)),
      if_enc (has_stream version (rp_Setting p)) (WriteString (rp_StreamNo p)),
      if_enc (has_stream version (rp_Setting p)) (WriteUint64 (rp_StreamId p)),
      WriteUint64 (rp_MessageID p), encodeMessageSeq version (rp_MessageSeq p),
      WriteUint32 (rp_Timestamp p),
      if_enc (IsSet (rp_Setting p) SettingTopic) (WriteString (rp_Topic p)),
      WriteBytes (rp_Payload p)]"

definition encodeRecvSize :: "RecvPacket \<Rightarrow> u8 \<Rightarrow> nat" where
  "encodeRecvSize p version = 1 + (length (rp_MsgKey p) + 2) + (length (rp_FromUID p) + 2)
     + (length (rp_ChannelID p) + 2) + 1 + (if 3 \<le> version then 4 else 0)
     + (length (rp_ClientMsgNo p) + 2)
     + (if has_stream version (rp_Setting p) then 1 + (length (rp_StreamNo p) + 2) + 8 else 0)
     + 8 + messageSeqSize version + 4
     + (if IsSet (rp_Setting p) SettingTopic then length (rp_Topic p) + 2 else 0)
     + length (rp_Payload p)"

definition decodeRecv :: "Framer \<Rightarrow> bytes \<Rightarrow> u8 \<Rightarrow> DecErr + RecvPacket" where
  "decodeRecv f data version = run_dec (
     bind_dec (field ''Setting'' DecUint8) (\<lambda>setting.
     bind_dec (field ''MsgKey'' DecString) (\<lambda>msgKey.
     bind_dec (field ''FromUID'' DecString) (\<lambda>fromUID.
     bind_dec (field ''ChannelId'' DecString) (\<lambda>channelID.
     bind_dec (field ''ChannelType'' DecUint8) (\<lambda>channelType.
     bind_dec (if_dec (3 \<le> version) 0 (field ''Expire'' DecUint32)) (\<lambda>expire.
     bind_dec (field ''ClientMsgNo'' DecString) (\<lambda>clientMsgNo.
     bind_dec (if_dec (has_stream version setting) 0 (field ''StreamFlag'' DecUint8)) (\<lambda>streamFlag.
     bind_dec (if_dec (has_stream version setting) [] (field ''StreamNo'' DecString)) (\<lambda>streamNo.
     bind_dec (if_dec (has_stream version setting) 0 (field ''StreamId'' DecUint64)) (\<lambda>streamId.
     bind_dec (field ''MessageId'' DecUint64) (\<lambda>messageID.
     bind_dec (field ''MessageSeq'' (decodeMessageSeq version)) (\<lambda>messageSeq.
     bind_dec (field ''Timestamp'' DecUint32) (\<lambda>timestamp.
     bind_dec (if_dec (IsSet setting SettingTopic) [] (field ''topic'' DecString)) (\<lambda>topic.
     bind_dec (field ''payload'' BinaryAll) (\<lambda>payload.
     ret_dec \<lparr>rp_Framer = f, rp_Setting = setting, rp_MsgKey = msgKey, rp_Expire = expire,
       rp_MessageID = messageID, rp_MessageSeq = messageSeq, rp_ClientMsgNo = clientMsgNo,
       rp_StreamNo = streamNo, rp_StreamId = streamId, rp_StreamFlag = streamFlag,
       rp_Timestamp = timestamp, rp_ChannelID = channelID, rp_ChannelType = channelType,
       rp_Topic = topic, rp_FromUID = fromUID, rp_Payload = payload,
       rp_ClientSeq = 0\<rparr>)))))))))))))))) data"

section \<open>RECVACK\<close>

definition encodeRecvack :: "RecvackPacket \<Rightarrow> u8 \<Rightarrow> writer" where
  "encodeRecvack p version =
     seq_enc [WriteUint64 (ra_MessageID p), encodeMessageSeq version (ra_MessageSeq p)]"

definition encodeRecvackSize :: "RecvackPacket \<Rightarrow> u8 \<Rightarrow> nat" where
  "encodeRecvackSize p version = 8 + messageSeqSize version"

definition decodeRecvack :: "Framer \<Rightarrow> bytes \<Rightarrow> u8 \<Rightarrow> DecErr + RecvackPacket" where
  "decodeRecvack f data version = run_dec (
     bind_dec (field ''MessageId'' DecUint64) (\<lambda>messageID.
     bind_dec (field ''MessageSeq'' (decodeMessageSeq version)) (\<lambda>messageSeq.
     ret_dec \<lparr>ra_Framer = f, ra_MessageID = messageID, ra_MessageSeq = messageSeq\<rparr>))) data"

section \<open>DISCONNECT\<close>

definition encodeDisConnect :: "DisconnectPacket \<Rightarrow> u8 \<Rightarrow> writer" where
  "encodeDisConnect p version = seq_enc [WriteUint8 (dc_ReasonCode p), WriteString (dc_Reason p)]"

definition encodeDisConnectSize :: "DisconnectPacket \<Rightarrow> u8 \<Rightarrow> nat" where
  "encodeDisConnectSize p version = 1 + length (dc_Reason p) + 2"

definition decodeDisConnect :: "Framer \<Rightarrow> bytes \<Rightarrow> u8 \<Rightarrow> DecErr + DisconnectPacket" where
  "decodeDisConnect f data version = run_dec (
     bind_dec (field ''reasonCode'' DecUint8) (\<lambda>reasonCode.
     bind_dec (field ''reason'' DecString) (\<lambda>reason.
     ret_dec \<lparr>dc_Framer = f, dc_ReasonCode = reasonCode, dc_Reason = reason\<rparr>))) data"

section \<open>SUB and SUBACK\<close>

definition encodeSub :: "SubPacket \<Rightarrow> u8 \<Rightarrow> writer" where
  "encodeSub p version = seq_enc
     [WriteUint8 (su_Setting p), WriteString (su_SubNo p), WriteString (su_ChannelID p),
      WriteUint8 (su_ChannelType p), WriteUint8 (su_Action p), WriteString (su_Param p)]"

definition encodeSubSize :: "SubPacket \<Rightarrow> u8 \<Rightarrow> nat" where
  "encodeSubSize p version = 1 + (length (su_SubNo p) + 2) + (length (su_ChannelID p) + 2) + 1 + 1
     + (length (su_Param p) + 2)"

definition decodeSub :: "Framer \<Rightarrow> bytes \<Rightarrow> u8 \<Rightarrow> DecErr + SubPacket" where
  "decodeSub f data version = run_dec (
     bind_dec (field ''Setting'' DecUint8) (\<lambda>setting.
     bind_dec (field ''SubNo'' DecString) (\<lambda>subNo.
     bind_dec (field ''ChannelId'' DecString) (\<lambda>channelID.
     bind_dec (field ''ChannelType'' DecUint8) (\<lambda>channelType.
     bind_dec (field ''Action'' DecUint8) (\<lambda>action.
     bind_dec (field ''Param'' DecString) (\<lambda>param.
     ret_dec \<lparr>su_Framer = f, su_Setting = setting, su_SubNo = subNo, su_ChannelID = channelID,
       su_ChannelType = channelType, su_Action = action, su_Param = param\<rparr>))))))) data"

definition encodeSuback :: "SubackPacket \<Rightarrow> u8 \<Rightarrow> writer" where
  "encodeSuback p version = seq_enc
     [WriteString (sk_SubNo p), WriteString (sk_ChannelID p), WriteUint8 (sk_ChannelType p),
      WriteUint8 (sk_Action p), WriteUint8 (sk_ReasonCode p)]"

definition encodeSubackSize :: "SubackPacket \<Rightarrow> u8 \<Rightarrow> nat" where
  "encodeSubackSize p version = (length (sk_SubNo p) + 2) + (length (sk_ChannelID p) + 2) + 1 + 1 + 1"

definition decodeSuback :: "Framer \<Rightarrow> bytes \<Rightarrow> u8 \<Rightarrow> DecErr + SubackPacket" where
  "decodeSuback f data version = run_dec (
     bind_dec (field ''SubNo'' DecString) (\<lambda>subNo.
     bind_dec (field ''ChannelId'' DecString) (\<lambda>channelID.
     bind_dec (field ''ChannelType'' DecUint8) (\<lambda>channelType.
     bind_dec (field ''Action'' DecUint8) (\<lambda>action.
     bind_dec (field ''ReasonCode'' DecUint8) (\<lambda>reasonCode.
     ret_dec \<lparr>sk_Framer = f, sk_SubNo = subNo, sk_ChannelID = channelID,
       sk_ChannelType = channelType, sk_Action = action, sk_ReasonCode = reasonCode\<rparr>)))))) data"

section \<open>EVENT\<close>

definition encodeEvent :: "EventPacket \<Rightarrow> u8 \<Rightarrow> writer" where
  "encodeEvent p version = seq_enc
     [WriteString (ev_Id p), WriteString (ev_Type p), WriteUint64 (ev_Timestamp p),
      WriteBytes (ev_Data p)]"

definition encodeEventSize :: "EventPacket \<Rightarrow> u8 \<Rightarrow> nat" where
  "encodeEventSize p version =
     (length (ev_Id p) + 2) + (length (ev_Type p) + 2) + 8 + length (ev_Data p)"

definition decodeEvent :: "Framer \<Rightarrow> bytes \<Rightarrow> u8 \<Rightarrow> DecErr + EventPacket" where
  "decodeEvent f data version = run_dec (
     bind_dec DecString (\<lambda>eid.
     bind_dec DecString (\<lambda>typ.
     bind_dec DecUint64 (\<lambda>timestamp.
     bind_dec BinaryAll (\<lambda>data'.
     ret_dec \<lparr>ev_Framer = f, ev_Id = eid, ev_Type = typ, ev_Timestamp = timestamp,
       ev_Data = data'\<rparr>))))) data"

end
