(* ===== verification/ProtoWire.thy ===== *)
theory ProtoWire
  imports ProtoCodec
begin

text \<open>
  Framing (\<open>pkg/protocol/codec/protocol.go\<close>): one byte of type and flags, the length of the body
  in 7-bit groups, the body. \<open>Incomplete\<close> is Go's result \<open>nil, 0, nil\<close>.
\<close>

definition MaxRemaingLength :: u32 where "MaxRemaingLength = 1024 * 1024"
definition PayloadMaxSize :: nat where "PayloadMaxSize = 2 ^ 15 - 1"

section \<open>The variable-length size\<close>

lemma u32_div_128_less: "0 < n \<Longrightarrow> unat (n div 0x80 :: u32) < unat n"
  by (simp add: unat_div word_less_nat_alt)

function encodeVariable2 :: "u32 \<Rightarrow> bytes" where
  "encodeVariable2 n =
     (if 0 < n then
        let digit = ucast (n mod 0x80) :: u8;
            rest = n div 0x80
        in (if 0 < rest then digit OR 0x80 else digit) # encodeVariable2 rest
      else [])"
  by pat_completeness auto
termination
  by (relation "measure unat") (simp_all add: u32_div_128_less)

function encodedVariableSize :: "u32 \<Rightarrow> nat" where
  "encodedVariableSize n = (if 0 < n then 1 + encodedVariableSize (n div 0x80) else 0)"
  by pat_completeness auto
termination
  by (relation "measure unat") (simp_all add: u32_div_128_less)

declare encodeVariable2.simps [simp del] encodedVariableSize.simps [simp del]

text \<open>The loop of \<open>decodeLength\<close> from a given multiplier, offset and partial result.\<close>

function decode_length_loop :: "bytes \<Rightarrow> nat \<Rightarrow> nat \<Rightarrow> u32 \<Rightarrow> (u32 \<times> nat) option" where
  "decode_length_loop data multiplier offset rLength =
     (if multiplier < 27 then
        if length data \<le> offset then None
        else
          let digit = data ! offset;
              rLength = rLength OR push_bit multiplier (ucast (digit AND 127))
          in if digit AND 128 = 0 then Some (rLength, offset + 1)
             else decode_length_loop data (multiplier + 7) (offset + 1) rLength
      else Some (rLength, offset + 1))"
  by pat_completeness auto
termination
  by (relation "measure (\<lambda>(_, m, _, _). 27 - m)") auto

declare decode_length_loop.simps [simp del]

definition decodeLength :: "bytes \<Rightarrow> (u32 \<times> nat) option" where
  "decodeLength data = decode_length_loop data 0 0 0"

section \<open>Encoding a frame\<close>

text \<open>The fields that \<open>encodeFrameWithWriter\<close> switches over: the body of a frame and its size.\<close>

fun encode_body :: "Frame \<Rightarrow> u8 \<Rightarrow> writer" where
  "encode_body (FConnect p) version = encodeConnect p version"
| "encode_body (FConnack p) version = encodeConnack p version"
| "encode_body (FSend p) version = encodeSend p version"
| "encode_body (FSendack p) version = encodeSendack p version"
| "encode_body (FRecv p) version = encodeRecv p version"
| "encode_body (FRecvack p) version = encodeRecvack p version"
| "encode_body (FDisconnect p) version = encodeDisConnect p version"
| "encode_body (FSub p) version = encodeSub p version"
| "encode_body (FSuback p) version = encodeSuback p version"
| "encode_body (FEvent p) version = encodeEvent p version"
| "encode_body (FPing p) version = wr []"
| "encode_body (FPong p) version = wr []"

fun encode_body_size :: "Frame \<Rightarrow> u8 \<Rightarrow> nat" where
  "encode_body_size (FConnect p) version = encodeConnectSize p version"
| "encode_body_size (FConnack p) version = encodeConnackSize p version"
| "encode_body_size (FSend p) version = encodeSendSize p version"
| "encode_body_size (FSendack p) version = encodeSendackSize p version"
| "encode_body_size (FRecv p) version = encodeRecvSize p version"
| "encode_body_size (FRecvack p) version = encodeRecvackSize p version"
| "encode_body_size (FDisconnect p) version = encodeDisConnectSize p version"
| "encode_body_size (FSub p) version = encodeSubSize p version"
| "encode_body_size (FSuback p) version = encodeSubackSize p version"
| "encode_body_size (FEvent p) version = encodeEventSize p version"
| "encode_body_size (FPing p) version = 0"
| "encode_body_size (FPong p) version = 0"

definition payload_too_large :: "Frame \<Rightarrow> bool" where
  "payload_too_large f = (case f of FSend p \<Rightarrow> PayloadMaxSize < length (sp_Payload p) | _ \<Rightarrow> False)"

definition encodeFrame :: "Frame \<Rightarrow> u32 \<Rightarrow> writer" where
  "encodeFrame f remainingLength = wr (ToFixHeaderUint8 f # encodeVariable2 remainingLength)"

definition encodeFrameWithWriter :: "Frame \<Rightarrow> u8 \<Rightarrow> writer" where
  "encodeFrameWithWriter f version =
     (let frameType = GetFrameType f
      in if frameType = PING \<or> frameType = PONG then wr [push_bit 4 frameType]
         else if payload_too_large f then ([], Some ErrPayloadTooLarge)
         else seq_enc [encodeFrame f (of_nat (encode_body_size f version)), encode_body f version])"

definition WriteFrame :: "bytes \<Rightarrow> Frame \<Rightarrow> u8 \<Rightarrow> writer" where
  "WriteFrame w f version = seq_enc [wr w, encodeFrameWithWriter f version]"

definition EncodeFrame :: "Frame \<Rightarrow> u8 \<Rightarrow> EncStop + bytes" where
  "EncodeFrame f version =
     (case encodeFrameWithWriter f version of (bs, None) \<Rightarrow> Inr bs | (_, Some e) \<Rightarrow> Inl e)"

definition encodedFrameBodySize :: "Frame \<Rightarrow> u8 \<Rightarrow> nat option" where
  "encodedFrameBodySize f version =
     (case f of FPing _ \<Rightarrow> None | FPong _ \<Rightarrow> None
      | _ \<Rightarrow> if payload_too_large f then None else Some (encode_body_size f version))"

definition encodedFrameSize :: "Frame \<Rightarrow> u8 \<Rightarrow> nat" where
  "encodedFrameSize f version =
     (let frameType = GetFrameType f
      in if frameType = PING \<or> frameType = PONG then 1
         else (case encodedFrameBodySize f version of
             None \<Rightarrow> 0
           | Some bodySize \<Rightarrow> 1 + encodedVariableSize (of_nat bodySize) + bodySize))"

section \<open>Decoding a frame\<close>

text \<open>\<open>data[0]\<close> of an empty slice is a panic (\<open>None\<close>); a size that is cut off gives the zero
  \<open>Framer\<close>.\<close>

definition decodeFramer :: "bytes \<Rightarrow> (Framer \<times> nat) option" where
  "decodeFramer data =
     (case data of
        [] \<Rightarrow> None
      | typeAndFlags # data1 \<Rightarrow>
          let p = FramerFromUint8 typeAndFlags
          in if fr_FrameType p \<noteq> PING \<and> fr_FrameType p \<noteq> PONG then
               (case decodeLength data1 of
                  None \<Rightarrow> Some (zero_Framer, 0)
                | Some (n, k) \<Rightarrow> Some (p\<lparr>fr_RemainingLength := n, fr_FrameSize := of_nat (length data)\<rparr>, k))
             else Some (p\<lparr>fr_FrameSize := of_nat (length data)\<rparr>, 0))"

definition packetDecode :: "FrameType \<Rightarrow> (Framer \<Rightarrow> bytes \<Rightarrow> u8 \<Rightarrow> DecErr + Frame) option" where
  "packetDecode t =
     (if t = CONNECT then Some (\<lambda>f d v. map_sum (\<lambda>e. e) FConnect (decodeConnect f d v))
      else if t = CONNACK then Some (\<lambda>f d v. map_sum (\<lambda>e. e) FConnack (decodeConnack f d v))
      else if t = SEND then Some (\<lambda>f d v. map_sum (\<lambda>e. e) FSend (decodeSend f d v))
      else if t = SENDACK then Some (\<lambda>f d v. map_sum (\<lambda>e. e) FSendack (decodeSendack f d v))
      else if t = RECV then Some (\<lambda>f d v. map_sum (\<lambda>e. e) FRecv (decodeRecv f d v))
      else if t = RECVACK then Some (\<lambda>f d v. map_sum (\<lambda>e. e) FRecvack (decodeRecvack f d v))
      else if t = DISCONNECT then Some (\<lambda>f d v. map_sum (\<lambda>e. e) FDisconnect (decodeDisConnect f d v))
      else if t = SUB then Some (\<lambda>f d v. map_sum (\<lambda>e. e) FSub (decodeSub f d v))
      else if t = SUBACK then Some (\<lambda>f d v. map_sum (\<lambda>e. e) FSuback (decodeSuback f d v))
      else if t = EVENT then Some (\<lambda>f d v. map_sum (\<lambda>e. e) FEvent (decodeEvent f d v))
      else None)"

datatype DecodeOut = Panicked | Incomplete | Failed DecErr | Decoded Frame nat

definition DecodeFrame :: "bytes \<Rightarrow> u8 \<Rightarrow> DecodeOut" where
  "DecodeFrame data version =
     (case decodeFramer data of
        None \<Rightarrow> Panicked
      | Some (framer, remainingLengthLength) \<Rightarrow>
          let frameType = fr_FrameType framer
          in if frameType = UNKNOWN then Incomplete
             else if frameType = PING then Decoded (FPing framer) 1
             else if frameType = PONG then Decoded (FPong framer) 1
             else if MaxRemaingLength < fr_RemainingLength framer
             then Failed (ErrTooLarge MaxRemaingLength)
             else
               let msgLen = unat (fr_RemainingLength framer) + 1 + remainingLengthLength
               in if length data < msgLen then Incomplete
                  else
                    let body = drop (1 + remainingLengthLength) (take msgLen data)
                    in case packetDecode frameType of
                         None \<Rightarrow> Failed (ErrUnsupported frameType)
                       | Some decodeFunc \<Rightarrow>
                           (case decodeFunc framer body version of
                              Inl e \<Rightarrow> Failed (ErrPacket frameType e)
                            | Inr f \<Rightarrow>
                                Decoded f (1 + remainingLengthLength + unat (fr_RemainingLength framer))))"

section \<open>Decoding from a connection\<close>

text \<open>
  The connection is the bytes that will still arrive before it is closed; \<open>io.ReadFull\<close> fails
  with \<open>ConnEOF\<close> when they are too few.
\<close>

datatype ConnErr = ConnEOF | ConnDec DecErr

definition ReadFull :: "bytes \<Rightarrow> nat \<Rightarrow> ConnErr + bytes \<times> bytes" where
  "ReadFull conn n = (if length conn < n then Inl ConnEOF else Inr (take n conn, drop n conn))"

function decode_length_conn_loop :: "bytes \<Rightarrow> nat \<Rightarrow> u32 \<Rightarrow> ConnErr + u32 \<times> bytes" where
  "decode_length_conn_loop r multiplier rLength =
     (if multiplier < 27 then
        (case ReadFull r 1 of
           Inl e \<Rightarrow> Inl e
         | Inr (b, r') \<Rightarrow>
             let digit = b ! 0;
                 rLength = rLength OR push_bit multiplier (ucast (digit AND 127))
             in if digit AND 128 = 0 then Inr (rLength, r')
                else decode_length_conn_loop r' (multiplier + 7) rLength)
      else Inr (rLength, r))"
  by pat_completeness auto
termination
  by (relation "measure (\<lambda>(_, m, _). 27 - m)") auto

declare decode_length_conn_loop.simps [simp del]

definition decodeLengthWithConn :: "bytes \<Rightarrow> ConnErr + u32 \<times> bytes" where
  "decodeLengthWithConn r = decode_length_conn_loop r 0 0"

definition decodeFramerWithConn :: "bytes \<Rightarrow> ConnErr + Framer \<times> bytes" where
  "decodeFramerWithConn conn =
     (case ReadFull conn 1 of
        Inl e \<Rightarrow> Inl e
      | Inr (b, conn1) \<Rightarrow>
          let p = FramerFromUint8 (b ! 0)
          in if fr_FrameType p \<noteq> PING \<and> fr_FrameType p \<noteq> PONG then
               (case decodeLengthWithConn conn1 of
                  Inl e \<Rightarrow> Inl e
                | Inr (n, conn2) \<Rightarrow> Inr (p\<lparr>fr_RemainingLength := n\<rparr>, conn2))
             else Inr (p, conn1))"

definition DecodePacketWithConn :: "bytes \<Rightarrow> u8 \<Rightarrow> ConnErr + Frame \<times> bytes" where
  "DecodePacketWithConn conn version =
     (case decodeFramerWithConn conn of
        Inl e \<Rightarrow> Inl e
      | Inr (framer, conn1) \<Rightarrow>
          if fr_FrameType framer = PING then Inr (FPing zero_Framer, conn1)
          else if fr_FrameType framer = PONG then Inr (FPong zero_Framer, conn1)
          else if MaxRemaingLength < fr_RemainingLength framer then Inl (ConnDec (ErrTooLarge MaxRemaingLength))
          else (case ReadFull conn1 (unat (fr_RemainingLength framer)) of
              Inl e \<Rightarrow> Inl e
            | Inr (body, conn2) \<Rightarrow>
                (case packetDecode (fr_FrameType framer) of
                   None \<Rightarrow> Inl (ConnDec (ErrUnsupported (fr_FrameType framer)))
                 | Some decodeFunc \<Rightarrow>
                     (case decodeFunc framer body version of
                        Inl e \<Rightarrow> Inl (ConnDec (ErrPacket (fr_FrameType framer) e))
                      | Inr f \<Rightarrow> Inr (f, conn2)))))"

end
