(* ===== verification/ProtoPackets.thy ===== *)
theory ProtoPackets
  imports ProtoWire
begin

text \<open>
  The bodies of the packets: an encoder that ends without error writes as many bytes as the size
  function says, and the decoder reads the packet back. What the encoding does not carry is lost;
  \<open>wire_Send\<close> and its kin say what remains.
\<close>

section \<open>Writers and readers\<close>

named_theorems wire_simps \<open>what the writers put and the readers take\<close>

lemma snd_seq_enc [wire_simps]: "snd (seq_enc ws) = None \<longleftrightarrow> list_all (\<lambda>w. snd w = None) ws"
  by (induction ws rule: seq_enc.induct) (auto split: prod.splits)

lemma fst_seq_enc [wire_simps]:
  "list_all (\<lambda>w. snd w = None) ws \<Longrightarrow> fst (seq_enc ws) = concat (map fst ws)"
  by (induction ws rule: seq_enc.induct) (auto split: prod.splits)

lemma wr_simps [wire_simps]: "snd (wr bs) = None" "fst (wr bs) = bs"
  by (simp_all add: wr_def)

lemma WriteUint_simps [wire_simps]:
  "snd (WriteUint8 b) = None" "fst (WriteUint8 b) = [b]"
  "snd (WriteUint32 i) = None" "fst (WriteUint32 i) = put32 i"
  "snd (WriteUint64 j) = None" "fst (WriteUint64 j) = put64 j"
  "snd (WriteBytes bs) = None" "fst (WriteBytes bs) = bs"
  by (simp_all add: WriteUint8_def WriteUint32_def WriteUint64_def WriteBytes_def wr_def)

lemma if_enc_simps [wire_simps]:
  "snd (if_enc c w) = None \<longleftrightarrow> (c \<longrightarrow> snd w = None)" "fst (if_enc c w) = (if c then fst w else [])"
  by (simp_all add: if_enc_def wr_def)

lemma snd_WriteString [wire_simps]: "snd (WriteString s) = None \<longleftrightarrow> length s \<le> MaxInt16"
  by (auto simp: WriteString_def wr_def)

lemma fst_WriteString [wire_simps]:
  "length s \<le> MaxInt16 \<Longrightarrow> fst (WriteString s) = put16 (of_nat (length s)) @ s"
  by (auto simp: WriteString_def wr_def)

lemma snd_encodeMessageSeq [wire_simps]:
  "snd (encodeMessageSeq v q) = None \<longleftrightarrow> (v \<le> LegacyMessageSeqVersion \<longrightarrow> q \<le> 0xFFFFFFFF)"
  by (auto simp: encodeMessageSeq_def wire_simps)

lemma length_encodeMessageSeq [wire_simps]:
  "snd (encodeMessageSeq v q) = None \<Longrightarrow> length (fst (encodeMessageSeq v q)) = messageSeqSize v"
  by (auto simp: encodeMessageSeq_def messageSeqSize_def wire_simps MessageSeqLegacyByteSize_def
      MessageSeqU64ByteSize_def split: if_splits)

lemma bind_dec_Inr [wire_simps]: "r bs = Inr (x, bs') \<Longrightarrow> bind_dec r k bs = k x bs'"
  by (simp add: bind_dec_def)

lemma field_Inr [wire_simps]: "r bs = Inr y \<Longrightarrow> field l r bs = Inr y"
  by (simp add: field_def)

lemma if_dec_simps [wire_simps]: "if_dec True z r = r" "if_dec False z r bs = Inr (z, bs)"
  by (simp_all add: if_dec_def ret_dec_def)

lemma ret_dec_simps [wire_simps]: "ret_dec x bs = Inr (x, bs)"
  by (simp add: ret_dec_def)

lemma run_dec_Inr [wire_simps]: "r bs = Inr (x, bs') \<Longrightarrow> run_dec r bs = Inr x"
  by (simp add: run_dec_def)

lemma DecUint_simps [wire_simps]:
  "DecUint8 (b # rest) = Inr (b, rest)"
  "DecUint32 (put32 i @ rest) = Inr (i, rest)"
  "DecUint64 (put64 j @ rest) = Inr (j, rest)"
  "DecUint64 (put64 j) = Inr (j, [])"
  "BinaryAll bs = Inr (bs, [])"
  using be64.get_put [of j "[]"]
  by (simp_all add: DecUint8_def DecUint32_def DecUint64_def BinaryAll_def or_short_def
      be32.get_put be64.get_put)

lemma string_size:
  assumes "n \<le> MaxInt16"
  shows "unat (of_nat n :: u16) = n" "\<not> sint (of_nat n :: u16) < 0"
proof -
  show u: "unat (of_nat n :: u16) = n"
    using assms by (simp add: MaxInt16_def unsigned_of_nat take_bit_nat_eq_self)
  have "sint (of_nat n :: u16) = int n"
    using assms by (simp add: MaxInt16_def signed_of_nat signed_take_bit_int_eq_self)
  then show "\<not> sint (of_nat n :: u16) < 0" by simp
qed

lemma DecString_put [wire_simps]:
  "length s \<le> MaxInt16 \<Longrightarrow> DecString (put16 (of_nat (length s)) @ s @ rest) = Inr (s, rest)"
  "length s \<le> MaxInt16 \<Longrightarrow> DecString (put16 (of_nat (length s)) @ s) = Inr (s, [])"
  using be16.get_put [of "of_nat (length s)" "s @ rest"] be16.get_put [of "of_nat (length s)" s]
  by (simp_all add: DecString_def DecBinary_def bind_dec_def DecInt16_def or_short_def string_size)

lemma decodeMessageSeq_put [wire_simps]:
  "snd (encodeMessageSeq v q) = None \<Longrightarrow>
    decodeMessageSeq v (fst (encodeMessageSeq v q) @ rest) = Inr (q, rest)"
proof (cases "v \<le> LegacyMessageSeqVersion")
  case True
  assume "snd (encodeMessageSeq v q) = None"
  with True have "q \<le> 0xFFFFFFFF" by (simp add: wire_simps)
  then have "unat q < 2 ^ 32" by (simp add: word_le_nat_alt)
  then have "ucast (ucast q :: u32) = q"
    by (simp add: word_unat_eq_iff unsigned_ucast_eq unsigned_take_bit_eq take_bit_nat_eq_self)
  with True \<open>q \<le> 0xFFFFFFFF\<close> show ?thesis
    by (simp add: encodeMessageSeq_def decodeMessageSeq_def wire_simps not_less [symmetric])
next
  case False
  then show ?thesis by (simp add: encodeMessageSeq_def decodeMessageSeq_def wire_simps)
qed

lemma decodeMessageSeq_end [wire_simps]:
  "snd (encodeMessageSeq v q) = None \<Longrightarrow> decodeMessageSeq v (fst (encodeMessageSeq v q)) = Inr (q, [])"
  using decodeMessageSeq_put [of v q "[]"] by simp

section \<open>The contract of a packet body\<close>

locale packet_body =
  fixes enc :: "'p \<Rightarrow> u8 \<Rightarrow> writer"
    and enc_size :: "'p \<Rightarrow> u8 \<Rightarrow> nat"
    and dec :: "Framer \<Rightarrow> bytes \<Rightarrow> u8 \<Rightarrow> DecErr + 'p"
    and wire :: "Framer \<Rightarrow> u8 \<Rightarrow> 'p \<Rightarrow> 'p"
    and hdr :: "Framer \<Rightarrow> 'p \<Rightarrow> bool"
  assumes length_enc: "snd (enc p v) = None \<Longrightarrow> length (fst (enc p v)) = enc_size p v"
    and dec_enc: "snd (enc p v) = None \<Longrightarrow> hdr h p \<Longrightarrow> dec h (fst (enc p v)) v = Inr (wire h v p)"

section \<open>What the wire carries\<close>

definition wire_Connect :: "Framer \<Rightarrow> u8 \<Rightarrow> ConnectPacket \<Rightarrow> ConnectPacket" where
  "wire_Connect h v p = p\<lparr>cn_Framer := h\<rparr>"

definition wire_Connack :: "Framer \<Rightarrow> u8 \<Rightarrow> ConnackPacket \<Rightarrow> ConnackPacket" where
  "wire_Connack h v p = p\<lparr>ca_Framer := h,
     ca_ServerVersion := (if fr_HasServerVersion (ca_Framer p) then ca_ServerVersion p else 0),
     ca_NodeId := (if 4 \<le> v then ca_NodeId p else 0)\<rparr>"

definition wire_Send :: "Framer \<Rightarrow> u8 \<Rightarrow> SendPacket \<Rightarrow> SendPacket" where
  "wire_Send h v p = p\<lparr>sp_Framer := h, sp_ClientSeq := ucast (ucast (sp_ClientSeq p) :: u32),
     sp_StreamNo := (if has_stream v (sp_Setting p) then sp_StreamNo p else []),
     sp_Expire := (if 3 \<le> v then sp_Expire p else 0),
     sp_Topic := (if IsSet (sp_Setting p) SettingTopic then sp_Topic p else [])\<rparr>"

definition wire_Sendack :: "Framer \<Rightarrow> u8 \<Rightarrow> SendackPacket \<Rightarrow> SendackPacket" where
  "wire_Sendack h v p = p\<lparr>sa_Framer := h, sa_ClientSeq := ucast (ucast (sa_ClientSeq p) :: u32)\<rparr>"

definition wire_Recv :: "Framer \<Rightarrow> u8 \<Rightarrow> RecvPacket \<Rightarrow> RecvPacket" where
  "wire_Recv h v p = p\<lparr>rp_Framer := h,
     rp_StreamNo := (if has_stream v (rp_Setting p) then rp_StreamNo p else []),
     rp_StreamId := (if has_stream v (rp_Setting p) then rp_StreamId p else 0),
     rp_StreamFlag := (if has_stream v (rp_Setting p) then rp_StreamFlag p else 0),
     rp_Expire := (if 3 \<le> v then rp_Expire p else 0),
     rp_Topic := (if IsSet (rp_Setting p) SettingTopic then rp_Topic p else []),
     rp_ClientSeq := 0\<rparr>"

definition wire_Recvack :: "Framer \<Rightarrow> u8 \<Rightarrow> RecvackPacket \<Rightarrow> RecvackPacket" where
  "wire_Recvack h v p = p\<lparr>ra_Framer := h\<rparr>"

definition wire_Disconnect :: "Framer \<Rightarrow> u8 \<Rightarrow> DisconnectPacket \<Rightarrow> DisconnectPacket" where
  "wire_Disconnect h v p = p\<lparr>dc_Framer := h\<rparr>"

definition wire_Sub :: "Framer \<Rightarrow> u8 \<Rightarrow> SubPacket \<Rightarrow> SubPacket" where
  "wire_Sub h v p = p\<lparr>su_Framer := h\<rparr>"

definition wire_Suback :: "Framer \<Rightarrow> u8 \<Rightarrow> SubackPacket \<Rightarrow> SubackPacket" where
  "wire_Suback h v p = p\<lparr>sk_Framer := h\<rparr>"

definition wire_Event :: "Framer \<Rightarrow> u8 \<Rightarrow> EventPacket \<Rightarrow> EventPacket" where
  "wire_Event h v p = p\<lparr>ev_Framer := h\<rparr>"

interpretation connect: packet_body encodeConnect encodeConnectSize decodeConnect wire_Connect "\<lambda>_ _. True"
  by unfold_locales
    (simp_all add: encodeConnect_def encodeConnectSize_def decodeConnect_def wire_Connect_def wire_simps)

interpretation connack: packet_body encodeConnack encodeConnackSize decodeConnack wire_Connack
  "\<lambda>h p. fr_HasServerVersion h = fr_HasServerVersion (ca_Framer p)"
  by unfold_locales
    (simp_all add: encodeConnack_def encodeConnackSize_def decodeConnack_def wire_Connack_def wire_simps)

interpretation send: packet_body encodeSend encodeSendSize decodeSend wire_Send "\<lambda>_ _. True"
  by unfold_locales
    (simp_all add: encodeSend_def encodeSendSize_def decodeSend_def wire_Send_def wire_simps)

interpretation recv: packet_body encodeRecv encodeRecvSize decodeRecv wire_Recv "\<lambda>_ _. True"
  by unfold_locales
    (simp_all add: encodeRecv_def encodeRecvSize_def decodeRecv_def wire_Recv_def wire_simps)

interpretation recvack: packet_body encodeRecvack encodeRecvackSize decodeRecvack wire_Recvack "\<lambda>_ _. True"
  by unfold_locales
    (simp_all add: encodeRecvack_def encodeRecvackSize_def decodeRecvack_def wire_Recvack_def wire_simps)

interpretation disconnect: packet_body encodeDisConnect encodeDisConnectSize decodeDisConnect
  wire_Disconnect "\<lambda>_ _. True"
  by unfold_locales
    (simp_all add: encodeDisConnect_def encodeDisConnectSize_def decodeDisConnect_def wire_Disconnect_def wire_simps)

interpretation sub: packet_body encodeSub encodeSubSize decodeSub wire_Sub "\<lambda>_ _. True"
  by unfold_locales
    (simp_all add: encodeSub_def encodeSubSize_def decodeSub_def wire_Sub_def wire_simps)

interpretation suback: packet_body encodeSuback encodeSubackSize decodeSuback wire_Suback "\<lambda>_ _. True"
  by unfold_locales
    (simp_all add: encodeSuback_def encodeSubackSize_def decodeSuback_def wire_Suback_def wire_simps)

interpretation event: packet_body encodeEvent encodeEventSize decodeEvent wire_Event "\<lambda>_ _. True"
  by unfold_locales
    (simp_all add: encodeEvent_def encodeEventSize_def decodeEvent_def wire_Event_def wire_simps)

lemma put16_not_Nil [simp]: "put16 x \<noteq> []"
  by (metis length_put(1) list.size(3) zero_neq_numeral)

text \<open>The core fields of SENDACK come first, so the first of the two decoders succeeds.\<close>

lemma decodeSendackBody_enc:
  assumes "snd (encodeMessageSeq v q) = None" "length m \<le> MaxInt16"
  shows "decodeSendackBody
    (fst (encodeMessageSeq v q) @ [r] @ (if m = [] then [] else put16 (of_nat (length m)) @ m)) v
      = Inr (m, q, r)"
  using assms
  by (simp add: decodeSendackBody_def decodeSendackBodyCoreFirst_def expect_end_def wire_simps)

interpretation sendack: packet_body encodeSendack encodeSendackSize decodeSendack wire_Sendack "\<lambda>_ _. True"
proof
  fix p v
  show "length (fst (encodeSendack p v)) = encodeSendackSize p v" if "snd (encodeSendack p v) = None"
    using that by (simp add: encodeSendack_def encodeSendackSize_def wire_simps)
  show "decodeSendack h (fst (encodeSendack p v)) v = Inr (wire_Sendack h v p)"
    if "snd (encodeSendack p v) = None" for h
    using that decodeSendackBody_enc [of v "sa_MessageSeq p" "sa_ClientMsgNo p" "sa_ReasonCode p"]
    by (cases "sa_ClientMsgNo p = []")
      (simp_all add: encodeSendack_def decodeSendack_def wire_Sendack_def wire_simps)
qed

end
