(* ===== verification/Varint.thy ===== *)
theory Varint
  imports Bytes
begin

text \<open>
  Unsigned varints, Go's \<open>binary.AppendUvarint\<close> and \<open>binary.Uvarint\<close>: groups of seven bits, the
  least significant first, at most ten bytes.
\<close>

section \<open>Groups of seven bits\<close>

lemma group_digit:
  fixes n :: "'a :: len word"
  defines "d \<equiv> ucast (take_bit 7 n) :: u8"
  shows "ucast (d AND 127) = take_bit 7 n" "d AND 128 = 0"
    "ucast ((d OR 128) AND 127) = take_bit 7 n" "(d OR 128) AND 128 \<noteq> 0"
proof -
  have m: "(127 :: u8) = mask 7" by (simp add: mask_eq_exp_minus_1)
  have t: "take_bit 7 (128 :: u8) = 0" by simp
  have d: "take_bit 7 d = d"
    unfolding d_def by (rule bit_word_eqI) (auto simp: bit_simps)
  have u: "ucast d = take_bit 7 n"
    unfolding d_def by (rule bit_word_eqI) (auto simp: bit_simps)
  show "ucast (d AND 127) = take_bit 7 n" "ucast ((d OR 128) AND 127) = take_bit 7 n"
    using d u t by (simp_all add: m take_bit_eq_mask [symmetric] take_bit_or)
  have e: "(128 :: u8) = 2 ^ 7" by simp
  have b: "\<not> bit d 7" unfolding d_def by (simp add: bit_simps)
  show "d AND 128 = 0" "(d OR 128) AND 128 \<noteq> 0"
    unfolding e and_exp_eq_0_iff_not_bit bit_or_iff bit_exp_iff using b by simp_all
qed

lemma group_join:
  fixes n acc :: "'a :: len word"
  shows "(acc OR push_bit m (take_bit 7 n)) OR push_bit (m + 7) (drop_bit 7 n) = acc OR push_bit m n"
proof -
  have *: "7 + (k - (m + 7)) = k - m" if "\<not> k - m < 7" for k using that by arith
  show ?thesis by (rule bit_word_eqI) (auto simp: bit_simps, metis *)
qed

lemma byte_less_128: "(b :: u8) < 128 \<longleftrightarrow> \<not> bit b 7"
proof -
  have "bit b 7 \<longleftrightarrow> bit (unat b) 7" by (simp add: bit_unsigned_iff)
  also have "\<dots> \<longleftrightarrow> odd (unat b div 128)" by (simp add: bit_iff_odd)
  also have "\<dots> \<longleftrightarrow> \<not> unat b < 128"
  proof
    assume "\<not> unat b < 128"
    moreover have "unat b < 256" using unsigned_less [of b] by simp
    ultimately have "unat b div 128 = 1" by (simp add: div_nat_eqI)
    then show "odd (unat b div 128)" by simp
  qed auto
  finally show ?thesis by (simp add: word_less_nat_alt)
qed

section \<open>Varints\<close>

function put_uvarint :: "u64 \<Rightarrow> u8 list" where
  "put_uvarint x =
     (if 0x80 \<le> x then (ucast x OR 0x80) # put_uvarint (drop_bit 7 x) else [ucast x])"
  by pat_completeness auto
termination
proof (relation "measure unat")
  fix x :: u64
  assume "0x80 \<le> x"
  then have "0 < unat x" by (simp add: word_le_nat_alt)
  then show "(drop_bit 7 x, x) \<in> measure unat" by (simp add: unsigned_drop_bit_eq drop_bit_eq_div unat_div)
qed simp

declare put_uvarint.simps [simp del]

text \<open>\<open>MaxVarintLen64\<close> is 10; the tenth byte may only be 0 or 1.\<close>

fun uvarint_from :: "nat \<Rightarrow> u64 \<Rightarrow> u8 list \<Rightarrow> (u64 \<times> u8 list) option" where
  "uvarint_from i x [] = None"
| "uvarint_from i x (b # bs) =
     (if i = 10 then None
      else if b < 0x80 then
        if i = 9 \<and> 1 < b then None else Some (x OR push_bit (7 * i) (ucast b), bs)
      else uvarint_from (i + 1) (x OR push_bit (7 * i) (ucast (b AND 0x7F))) bs)"

definition get_uvarint :: "u8 list \<Rightarrow> (u64 \<times> u8 list) option" where
  "get_uvarint bs = uvarint_from 0 0 bs"

lemma ucast_byte: "(ucast (x :: u64) :: u8) OR 0x80 = ucast (take_bit 7 x) OR 0x80"
proof -
  have e: "(0x80 :: u8) = 2 ^ 7" by simp
  show ?thesis unfolding e by (rule bit_word_eqI) (auto simp: bit_simps simp del: power_numeral)
qed

lemma uvarint_from_put:
  "unat v < 2 ^ (64 - 7 * i) \<Longrightarrow> i \<le> 9 \<Longrightarrow>
    uvarint_from i acc (put_uvarint v @ rest) = Some (acc OR push_bit (7 * i) v, rest)"
proof (induction v arbitrary: i acc rule: put_uvarint.induct)
  case (1 v)
  show ?case
  proof (cases "0x80 \<le> v")
    case True
    let ?d = "ucast (take_bit 7 v) :: u8"
    have "i \<noteq> 9" using True "1.prems"(1) by (auto simp: word_le_nat_alt)
    then have i: "i \<le> 8" using "1.prems"(2) by simp
    have e: "2 ^ (64 - 7 * i) = 2 ^ (64 - 7 * (i + 1)) * (128 :: nat)"
      using i power_add [of "2 :: nat" "64 - 7 * (i + 1)" 7] by (simp add: Suc_diff_le)
    have "unat (drop_bit 7 v) = unat v div 128" by (simp add: drop_bit_eq_div unat_div)
    also have "\<dots> < 2 ^ (64 - 7 * (i + 1))"
      using "1.prems"(1) unfolding e by (rule less_mult_imp_div_less)
    finally have lt: "unat (drop_bit 7 v) < 2 ^ (64 - 7 * (i + 1))" .
    have IH: "uvarint_from (i + 1) a (put_uvarint (drop_bit 7 v) @ rest)
        = Some (a OR push_bit (7 * (i + 1)) (drop_bit 7 v), rest)" for a
      by (rule "1.IH" [OF True lt]) (use i in simp)
    have "\<not> ?d OR 0x80 < 0x80" using group_digit(4) [of v] by (simp add: byte_less_128 bit_simps)
    then have "uvarint_from i acc (put_uvarint v @ rest)
        = uvarint_from (i + 1) (acc OR push_bit (7 * i) (ucast ((?d OR 0x80) AND 0x7F))) (put_uvarint (drop_bit 7 v) @ rest)"
      using True i unfolding put_uvarint.simps [of v] ucast_byte [of v] by simp
    also have "\<dots> = Some ((acc OR push_bit (7 * i) (take_bit 7 v)) OR push_bit (7 * i + 7) (drop_bit 7 v), rest)"
      unfolding IH group_digit(3) by (simp add: add.commute)
    finally show ?thesis unfolding group_join .
  next
    case False
    then have small: "unat v < 128" by (simp add: word_le_nat_alt)
    then have u: "unat (ucast v :: u8) = unat v"
      by (simp add: unsigned_ucast_eq take_bit_nat_eq_self)
    then have "(ucast v :: u8) < 0x80" using small by (simp add: word_less_nat_alt)
    moreover have "ucast (ucast v :: u8) = v"
      using small by (simp add: word_unat_eq_iff unsigned_ucast_eq unsigned_take_bit_eq take_bit_nat_eq_self)
    moreover have "\<not> 1 < (ucast v :: u8)" if "i = 9" using "1.prems"(1) u that by (simp add: word_less_nat_alt)
    ultimately show ?thesis
      using False "1.prems"(2) by (auto simp: put_uvarint.simps [of v])
  qed
qed

interpretation uvarint: codec put_uvarint get_uvarint "\<lambda>_. True"
proof
  fix v :: u64 and rest
  have "unat v < 2 ^ LENGTH(64)" by (rule unsigned_less)
  then have "unat v < 2 ^ (64 - 7 * 0)" by simp
  then have "uvarint_from 0 0 (put_uvarint v @ rest) = Some (0 OR push_bit (7 * 0) v, rest)"
    by (rule uvarint_from_put) simp
  then show "get_uvarint (put_uvarint v @ rest) = Some (v, rest)" by (simp add: get_uvarint_def)
qed

section \<open>Zig-zag\<close>

text \<open>Signed 64-bit integers as words; \<open>value >> 63\<close> is the arithmetic shift.\<close>

definition encodeZigZagInt64 :: "u64 \<Rightarrow> u64" where
  "encodeZigZagInt64 v = push_bit 1 v XOR signed_drop_bit 63 v"

definition decodeZigZagInt64 :: "u64 \<Rightarrow> u64" where
  "decodeZigZagInt64 u = drop_bit 1 u XOR - (u AND 1)"

lemma signed_drop_63: "signed_drop_bit 63 (v :: u64) = (if bit v 63 then - 1 else 0)"
proof (rule bit_word_eqI)
  fix n assume "n < LENGTH(64)"
  then show "bit (signed_drop_bit 63 v) n \<longleftrightarrow> bit (if bit v 63 then - 1 else 0 :: u64) n"
    by (cases n) (auto simp: bit_simps)
qed

lemma low_bit: "x AND 1 = (if bit x 0 then 1 else 0 :: u64)"
  by (simp add: and_one_eq mod_2_eq_odd bit_0)

lemma zigzag_roundtrip: "decodeZigZagInt64 (encodeZigZagInt64 v) = v"
proof -
  obtain p where p: "push_bit 1 v = p" by blast
  have bit_p: "bit p k \<longleftrightarrow> 1 \<le> k \<and> k < 64 \<and> bit v (k - 1)" for k
    unfolding p [symmetric] bit_push_bit_iff by auto
  show ?thesis
  proof (cases "bit v 63")
    case True
    then have "encodeZigZagInt64 v = NOT p"
      unfolding encodeZigZagInt64_def signed_drop_63 p by simp
    moreover have "bit (NOT p) 0" using bit_p by (simp add: bit_not_iff)
    ultimately have d: "decodeZigZagInt64 (encodeZigZagInt64 v) = NOT (drop_bit 1 (NOT p))"
      unfolding decodeZigZagInt64_def low_bit by simp
    show ?thesis unfolding d
    proof (rule bit_word_eqI)
      fix n assume "n < LENGTH(64)"
      then show "bit (NOT (drop_bit 1 (NOT p))) n \<longleftrightarrow> bit v n"
        using True bit_p [of "Suc n"] by (cases "n = 63") (simp_all add: bit_simps)
    qed
  next
    case False
    then have "encodeZigZagInt64 v = p"
      unfolding encodeZigZagInt64_def signed_drop_63 p by simp
    moreover have "\<not> bit p 0" using bit_p by simp
    ultimately have d: "decodeZigZagInt64 (encodeZigZagInt64 v) = drop_bit 1 p"
      unfolding decodeZigZagInt64_def low_bit by simp
    show ?thesis unfolding d
    proof (rule bit_word_eqI)
      fix n assume "n < LENGTH(64)"
      then show "bit (drop_bit 1 p) n \<longleftrightarrow> bit v n"
        using False bit_p [of "Suc n"] by (cases "n = 63") (simp_all add: bit_simps)
    qed
  qed
qed

end
