(* ===== verification/ProtoLength.thy ===== *)
theory ProtoLength
  imports ProtoPackets Varint
begin

text \<open>
  The variable-length size and the fixed header: for sizes below \<open>2 ^ 28\<close> (four groups of seven
  bits, what the decoder reads) the decoder inverts the encoder, and asks for more bytes on every
  proper prefix.
\<close>

section \<open>Groups of seven bits\<close>

lemma mod_128: "n mod 0x80 = take_bit 7 (n :: u32)"
  using take_bit_eq_mod [of 7 n] by simp

lemma div_128: "n div 0x80 = drop_bit 7 (n :: u32)"
  using drop_bit_eq_div [of 7 n] by simp

lemma encodeVariable2_split:
  "0 < n \<Longrightarrow> encodeVariable2 n =
    (if 0 < drop_bit 7 n then (ucast (take_bit 7 n) OR 128) # encodeVariable2 (drop_bit 7 n)
     else [ucast (take_bit 7 n)])"
  by (auto simp: encodeVariable2.simps [of n] encodeVariable2.simps [of 0] mod_128 div_128 Let_def
      word_greater_zero_iff)

lemma length_encodeVariable2: "length (encodeVariable2 n) = encodedVariableSize n"
proof (induction n rule: encodeVariable2.induct)
  case (1 n)
  then show ?case
    by (cases "0 < n") (simp_all add: encodeVariable2.simps [of n] encodedVariableSize.simps [of n] Let_def)
qed

lemma unat_drop7: "unat n < 2 ^ (k + 7) \<Longrightarrow> unat (drop_bit 7 n :: u32) < 2 ^ k"
  by (simp add: drop_bit_eq_div unat_div power_add less_mult_imp_div_less)

text \<open>After \<open>i\<close> groups \<open>4 - i\<close> more are read.\<close>

lemma decode_length_loop_enc:
  "0 < n \<Longrightarrow> unat n < 2 ^ (7 * j) \<Longrightarrow> i + j = 4 \<Longrightarrow> length pre = i \<Longrightarrow>
    decode_length_loop (pre @ encodeVariable2 n @ rest) (7 * i) i acc
      = Some (acc OR push_bit (7 * i) n, i + length (encodeVariable2 n))"
proof (induction j arbitrary: n i pre acc)
  case 0
  then show ?case by (simp add: word_less_nat_alt)
next
  case (Suc j)
  then have i: "7 * i < 27" by simp
  let ?d = "ucast (take_bit 7 n) :: u8"
  show ?case
  proof (cases "0 < drop_bit 7 n")
    case True
    let ?n = "drop_bit 7 n"
    have le: "unat ?n < 2 ^ (7 * j)"
      using Suc.prems unat_drop7 [of n "7 * j"] by (simp add: add.commute)
    have "decode_length_loop ((pre @ [?d OR 128]) @ encodeVariable2 ?n @ rest) (7 * Suc i) (Suc i)
        (acc OR push_bit (7 * i) (take_bit 7 n))
      = Some ((acc OR push_bit (7 * i) (take_bit 7 n)) OR push_bit (7 * Suc i) ?n,
          Suc i + length (encodeVariable2 ?n))"
      by (rule Suc.IH) (use Suc.prems True le in simp_all)
    with True i Suc.prems show ?thesis
      using group_digit [of n] group_join [of acc "7 * i" n]
      by (simp add: encodeVariable2_split decode_length_loop.simps [of _ "7 * i"] nth_append Let_def
          add.commute)
  next
    case False
    then have "take_bit 7 n = n" using group_join [of 0 0 n] by (simp add: word_greater_zero_iff)
    with False i Suc.prems show ?thesis
      using group_digit [of n]
      by (simp add: encodeVariable2_split decode_length_loop.simps [of _ "7 * i"] nth_append Let_def)
  qed
qed

lemma decodeLength_enc:
  "0 < n \<Longrightarrow> unat n < 2 ^ 28 \<Longrightarrow>
    decodeLength (encodeVariable2 n @ rest) = Some (n, length (encodeVariable2 n))"
  using decode_length_loop_enc [of n 4 0 "[]" rest 0] by (simp add: decodeLength_def)

lemma length_encodeVariable2_loop:
  "unat n < 2 ^ (7 * j) \<Longrightarrow> length (encodeVariable2 n) \<le> j"
proof (induction j arbitrary: n)
  case 0
  then show ?case by (simp add: encodeVariable2.simps [of n] word_less_nat_alt)
next
  case (Suc j)
  then have "unat (drop_bit 7 n) < 2 ^ (7 * j)"
    using unat_drop7 [of n "7 * j"] by (simp add: add.commute)
  from Suc.IH [OF this] show ?case
    using encodeVariable2_split [of n] encodeVariable2.simps [of n] by (cases "0 < n") auto
qed

lemma length_encodeVariable2_le: "0 < n \<Longrightarrow> unat n < 2 ^ 28 \<Longrightarrow> length (encodeVariable2 n) \<le> 4"
  using length_encodeVariable2_loop [of n 4] by simp

lemma decode_length_loop_short:
  "0 < n \<Longrightarrow> unat n < 2 ^ (7 * j) \<Longrightarrow> i + j = 4 \<Longrightarrow> length pre = i \<Longrightarrow>
    k < length (encodeVariable2 n) \<Longrightarrow>
    decode_length_loop (pre @ take k (encodeVariable2 n)) (7 * i) i acc = None"
proof (induction j arbitrary: n i pre acc k)
  case 0
  then show ?case by (simp add: word_less_nat_alt)
next
  case (Suc j)
  then have i: "7 * i < 27" by simp
  show ?case
  proof (cases k)
    case 0
    with i Suc.prems show ?thesis by (simp add: decode_length_loop.simps [of _ "7 * i"])
  next
    case (Suc k')
    let ?d = "ucast (take_bit 7 n) :: u8" and ?n = "drop_bit 7 n"
    have pos: "0 < ?n"
      using Suc Suc.prems by (rule_tac ccontr) (simp add: encodeVariable2_split)
    have le: "unat ?n < 2 ^ (7 * j)"
      using Suc.prems unat_drop7 [of n "7 * j"] by (simp add: add.commute)
    have "decode_length_loop ((pre @ [?d OR 128]) @ take k' (encodeVariable2 ?n)) (7 * Suc i) (Suc i)
        (acc OR push_bit (7 * i) (take_bit 7 n)) = None"
      by (rule Suc.IH)
        (use Suc Suc.prems pos le in \<open>simp_all add: encodeVariable2_split\<close>)
    with pos i Suc Suc.prems show ?thesis
      using group_digit [of n]
      by (simp add: encodeVariable2_split decode_length_loop.simps [of _ "7 * i"] nth_append Let_def
          add.commute)
  qed
qed

lemma decodeLength_short:
  "0 < n \<Longrightarrow> unat n < 2 ^ 28 \<Longrightarrow> k < length (encodeVariable2 n) \<Longrightarrow>
    decodeLength (take k (encodeVariable2 n)) = None"
  using decode_length_loop_short [of n 4 0 "[]" k 0] by (simp add: decodeLength_def)

section \<open>The fixed header\<close>

text \<open>The header a receiver reconstructs: CONNACK carries only the server-version flag, in the
  place of \<open>NoPersist\<close>; PING and PONG carry no flags.\<close>

definition wire_framer :: "Frame \<Rightarrow> nat \<Rightarrow> nat \<Rightarrow> Framer" where
  "wire_framer f body tot =
     (let h = frame_framer f; t = GetFrameType f; plain = (t \<noteq> CONNACK \<and> t \<noteq> PING \<and> t \<noteq> PONG)
      in \<lparr>fr_FrameType = t, fr_RemainingLength = of_nat body,
          fr_NoPersist = (if t = CONNACK then fr_HasServerVersion h else plain \<and> fr_NoPersist h),
          fr_RedDot = (plain \<and> fr_RedDot h), fr_SyncOnce = (plain \<and> fr_SyncOnce h),
          fr_DUP = (plain \<and> fr_DUP h), fr_HasServerVersion = (t = CONNACK \<and> fr_HasServerVersion h),
          fr_End = False, fr_FrameSize = of_nat tot\<rparr>)"

lemma FramerFromUint8_header:
  assumes "GetFrameType f \<noteq> PING" "GetFrameType f \<noteq> PONG"
  shows "(FramerFromUint8 (ToFixHeaderUint8 f))\<lparr>fr_RemainingLength := of_nat body, fr_FrameSize := of_nat tot\<rparr>
    = wire_framer f body tot"
  using assms
  by (cases f; cases "fr_DUP (frame_framer f)"; cases "fr_SyncOnce (frame_framer f)";
      cases "fr_RedDot (frame_framer f)"; cases "fr_NoPersist (frame_framer f)";
      cases "fr_HasServerVersion (frame_framer f)")
    (simp_all add: FramerFromUint8_def ToFixHeaderUint8_def wire_framer_def zero_Framer_def encodeBool_def
      frame_types)

lemma FramerFromUint8_ping:
  "GetFrameType f = PING \<or> GetFrameType f = PONG \<Longrightarrow>
    (FramerFromUint8 (push_bit 4 (GetFrameType f)))\<lparr>fr_FrameSize := of_nat tot\<rparr> = wire_framer f 0 tot"
  by (cases f) (simp_all add: FramerFromUint8_def wire_framer_def zero_Framer_def frame_types)

end
