(* ===== verification/ProtoSafety.thy ===== *)
theory ProtoSafety
  imports ProtoLength
begin

text \<open>
  Properties of the client protocol codec: a frame survives encoding and decoding, a cut-off frame
  is never taken for a complete one, the encoder fails exactly on the frames the format cannot
  carry, and the decoder of a connection agrees with the decoder of a buffer.
\<close>

section \<open>The shape of an encoded frame\<close>

fun wire_frame :: "Framer \<Rightarrow> u8 \<Rightarrow> Frame \<Rightarrow> Frame" where
  "wire_frame h v (FConnect p) = FConnect (wire_Connect h v p)"
| "wire_frame h v (FConnack p) = FConnack (wire_Connack h v p)"
| "wire_frame h v (FSend p) = FSend (wire_Send h v p)"
| "wire_frame h v (FSendack p) = FSendack (wire_Sendack h v p)"
| "wire_frame h v (FRecv p) = FRecv (wire_Recv h v p)"
| "wire_frame h v (FRecvack p) = FRecvack (wire_Recvack h v p)"
| "wire_frame h v (FPing p) = FPing h"
| "wire_frame h v (FPong p) = FPong h"
| "wire_frame h v (FDisconnect p) = FDisconnect (wire_Disconnect h v p)"
| "wire_frame h v (FSub p) = FSub (wire_Sub h v p)"
| "wire_frame h v (FSuback p) = FSuback (wire_Suback h v p)"
| "wire_frame h v (FEvent p) = FEvent (wire_Event h v p)"

text \<open>What a receiver whose buffer holds \<open>tot\<close> bytes gets for the frame \<open>f\<close>.\<close>

definition received :: "Frame \<Rightarrow> u8 \<Rightarrow> nat \<Rightarrow> Frame" where
  "received f v tot = wire_frame (wire_framer f (encode_body_size f v) tot) v f"

definition bare :: "Frame \<Rightarrow> bool" where
  "bare f \<longleftrightarrow> GetFrameType f = PING \<or> GetFrameType f = PONG"

lemmas packet_lengths = connect.length_enc connack.length_enc send.length_enc sendack.length_enc
  recv.length_enc recvack.length_enc disconnect.length_enc sub.length_enc suback.length_enc event.length_enc

lemmas packet_decs = connect.dec_enc connack.dec_enc send.dec_enc sendack.dec_enc
  recv.dec_enc recvack.dec_enc disconnect.dec_enc sub.dec_enc suback.dec_enc event.dec_enc

lemma length_body:
  "snd (encode_body f v) = None \<Longrightarrow> length (fst (encode_body f v)) = encode_body_size f v"
  by (cases f) (simp_all add: packet_lengths wire_simps)

lemma dec_body:
  assumes "\<not> bare f" "snd (encode_body f v) = None"
  shows "\<exists>d. packetDecode (GetFrameType f) = Some d
    \<and> d (wire_framer f b tot) (fst (encode_body f v)) v = Inr (wire_frame (wire_framer f b tot) v f)"
  using assms
  by (cases f) (simp_all add: bare_def packetDecode_def frame_types packet_decs wire_framer_def Let_def)

lemma body_size_pos: "\<not> bare f \<Longrightarrow> 0 < encode_body_size f v"
  by (cases f) (simp_all add: bare_def encodeConnectSize_def encodeConnackSize_def encodeSendSize_def
      encodeSendackSize_def encodeRecvSize_def encodeRecvackSize_def encodeDisConnectSize_def
      encodeSubSize_def encodeSubackSize_def encodeEventSize_def frame_types)

lemma EncodeFrame_bare: "bare f \<Longrightarrow> EncodeFrame f v = Inr [push_bit 4 (GetFrameType f)]"
  by (simp add: EncodeFrame_def encodeFrameWithWriter_def bare_def wr_def)

lemma EncodeFrame_Inr:
  assumes "EncodeFrame f v = Inr bs" "\<not> bare f"
  shows "snd (encode_body f v) = None" "\<not> payload_too_large f"
    "bs = ToFixHeaderUint8 f # encodeVariable2 (of_nat (encode_body_size f v)) @ fst (encode_body f v)"
proof -
  let ?w = "seq_enc [encodeFrame f (of_nat (encode_body_size f v)), encode_body f v]"
  from assms have p: "\<not> payload_too_large f" and w: "?w = (bs, None)"
    by (auto simp: EncodeFrame_def encodeFrameWithWriter_def bare_def split: if_splits prod.splits option.splits)
  show "\<not> payload_too_large f" by (fact p)
  have n: "snd ?w = None" using w by simp
  then show "snd (encode_body f v) = None" by (simp add: wire_simps)
  have "fst ?w = bs" using w by simp
  moreover have "fst ?w = ToFixHeaderUint8 f # encodeVariable2 (of_nat (encode_body_size f v)) @ fst (encode_body f v)"
    using n by (simp add: wire_simps encodeFrame_def)
  ultimately show "bs = ToFixHeaderUint8 f # encodeVariable2 (of_nat (encode_body_size f v)) @ fst (encode_body f v)"
    by simp
qed

lemma wire_framer_type [simp]: "fr_FrameType (wire_framer f b tot) = GetFrameType f"
  and wire_framer_length [simp]: "fr_RemainingLength (wire_framer f b tot) = of_nat b"
  by (simp_all add: wire_framer_def Let_def)

lemma not_unknown [simp]: "GetFrameType f \<noteq> UNKNOWN"
  by (cases f) (simp_all add: frame_types)

lemma unat_body_size: "n \<le> unat MaxRemaingLength \<Longrightarrow> unat (of_nat n :: u32) = n"
  by (simp add: MaxRemaingLength_def unsigned_of_nat take_bit_nat_eq_self)

lemma header_type [simp]:
  "\<not> bare f \<Longrightarrow> fr_FrameType (FramerFromUint8 (ToFixHeaderUint8 f)) = GetFrameType f"
  using FramerFromUint8_header [of f 0 0] unfolding bare_def
  by (metis Framer.select_convs(1) Framer.surjective Framer.update_convs(2,9) wire_framer_type)

lemma decodeFramer_enc:
  assumes "\<not> bare f" "encode_body_size f v \<le> unat MaxRemaingLength"
  shows "decodeFramer (ToFixHeaderUint8 f # encodeVariable2 (of_nat (encode_body_size f v)) @ rest)
    = Some (wire_framer f (encode_body_size f v) (1 + length (encodeVariable2 (of_nat (encode_body_size f v))) + length rest),
        length (encodeVariable2 (of_nat (encode_body_size f v))))"
proof -
  let ?n = "of_nat (encode_body_size f v) :: u32"
  have u: "unat ?n = encode_body_size f v" using assms(2) by (rule unat_body_size)
  have "unat ?n < 2 ^ 28" unfolding u using assms(2) by (simp add: MaxRemaingLength_def)
  moreover have "0 < ?n" using u body_size_pos [OF assms(1), of v] by (simp add: word_less_nat_alt)
  ultimately show ?thesis
    using assms FramerFromUint8_header [of f "1 + length (encodeVariable2 ?n) + length rest" "encode_body_size f v"]
    by (simp add: decodeFramer_def decodeLength_enc bare_def Let_def header_type [unfolded bare_def])
qed

section \<open>Round trip\<close>

lemma frame_decodes:
  assumes "EncodeFrame f v = Inr bs" "encode_body_size f v \<le> unat MaxRemaingLength"
  shows "length bs = encodedFrameSize f v
    \<and> DecodeFrame (bs @ rest) v = Decoded (received f v (length (bs @ rest))) (length bs)"
proof (cases "bare f")
  case True
  with assms have "bs = [push_bit 4 (GetFrameType f)]" by (simp add: EncodeFrame_bare)
  with True FramerFromUint8_ping [of f "Suc (length rest)"] show ?thesis
    by (cases f) (simp_all add: bare_def encodedFrameSize_def DecodeFrame_def decodeFramer_def received_def
        frame_types Let_def FramerFromUint8_def zero_Framer_def wire_framer_def)
next
  case False
  let ?n = "of_nat (encode_body_size f v) :: u32"
  note e = EncodeFrame_Inr [OF assms(1) False]
  have u: "unat ?n = encode_body_size f v" using assms(2) by (rule unat_body_size)
  have l: "length (fst (encode_body f v)) = encode_body_size f v" by (rule length_body [OF e(1)])
  have "encodedFrameBodySize f v = Some (encode_body_size f v)"
    using False e(2) by (cases f) (simp_all add: encodedFrameBodySize_def bare_def)
  then have len: "length bs = encodedFrameSize f v"
    using False l by (simp add: e(3) encodedFrameSize_def bare_def length_encodeVariable2)
  obtain d where d: "packetDecode (GetFrameType f) = Some d"
      "d (wire_framer f (encode_body_size f v) (length (bs @ rest))) (fst (encode_body f v)) v
        = Inr (received f v (length (bs @ rest)))"
    using dec_body [OF False e(1)] unfolding received_def by blast
  have "decodeFramer (bs @ rest) = Some (wire_framer f (encode_body_size f v) (length (bs @ rest)), length (encodeVariable2 ?n))"
    using decodeFramer_enc [OF False assms(2), of "fst (encode_body f v) @ rest"] by (simp add: e(3) add.assoc)
  moreover have "drop (1 + length (encodeVariable2 ?n))
      (take (encode_body_size f v + 1 + length (encodeVariable2 ?n)) (bs @ rest)) = fst (encode_body f v)"
    by (simp add: e(3) l)
  moreover have "\<not> MaxRemaingLength < ?n" using assms(2) u by (simp add: word_less_nat_alt)
  moreover have "encode_body_size f v + 1 + length (encodeVariable2 ?n) = length bs"
    by (simp add: e(3) l)
  ultimately have "DecodeFrame (bs @ rest) v = Decoded (received f v (length (bs @ rest))) (length bs)"
    using False d u unfolding DecodeFrame_def bare_def by (simp add: Let_def)
  with len show ?thesis by simp
qed

text \<open>
  C19: A frame that \<open>EncodeFrame\<close> accepts and whose body is within the limit of the decoder is
  encoded in exactly the number of bytes \<open>encodedFrameSize\<close> reserves, and \<open>DecodeFrame\<close> on these
  bytes, followed by anything, consumes exactly them and returns the frame as far as the protocol
  version carries it.
\<close>

theorem frame_roundtrip:
  assumes "EncodeFrame f v = Inr bs" "encode_body_size f v \<le> unat MaxRemaingLength"
  shows "length bs = encodedFrameSize f v
    \<and> DecodeFrame (bs @ rest) v = Decoded (received f v (length (bs @ rest))) (length bs)"
  using assms by (rule frame_decodes)

lemma frame_cut:
  assumes "EncodeFrame f v = Inr bs" "encode_body_size f v \<le> unat MaxRemaingLength"
    and "0 < k" "k < length bs"
  shows "DecodeFrame (take k bs) v = Incomplete"
proof (cases "bare f")
  case True
  with assms show ?thesis by (auto simp: EncodeFrame_bare)
next
  case False
  let ?n = "of_nat (encode_body_size f v) :: u32" and ?h = "ToFixHeaderUint8 f"
  let ?len = "encodeVariable2 ?n" and ?body = "fst (encode_body f v)"
  note e = EncodeFrame_Inr [OF assms(1) False]
  have u: "unat ?n = encode_body_size f v" using assms(2) by (rule unat_body_size)
  have pos: "0 < ?n" using u body_size_pos [OF False, of v] by (simp add: word_less_nat_alt)
  have lt: "unat ?n < 2 ^ 28" unfolding u using assms(2) by (simp add: MaxRemaingLength_def)
  obtain j where k: "k = Suc j" using assms(3) by (cases k) auto
  show ?thesis
  proof (cases "j < length ?len")
    case True
    then have "decodeLength (take j ?len) = None" by (rule decodeLength_short [OF pos lt])
    with True k show ?thesis
      using False by (simp add: e(3) DecodeFrame_def decodeFramer_def header_type Let_def bare_def
          zero_Framer_def header_type [unfolded bare_def])
  next
    case notshort: False
    let ?rest = "take (j - length ?len) ?body"
    have t: "take k bs = ?h # ?len @ ?rest" using k notshort by (simp add: e(3))
    have "length ?body = encode_body_size f v" by (rule length_body [OF e(1)])
    then have "length (take k bs) < encode_body_size f v + 1 + length ?len"
      using assms(4) k by (simp add: e(3))
    moreover have "\<not> MaxRemaingLength < ?n" using assms(2) u by (simp add: word_less_nat_alt)
    ultimately show ?thesis
      using False decodeFramer_enc [OF False assms(2), of ?rest] u
      unfolding t DecodeFrame_def bare_def by (simp add: Let_def)
  qed
qed

text \<open>
  A non-empty proper prefix of an encoded frame within the limit is reported as incomplete, with
  nothing consumed and no error, whatever the type of the frame and wherever it is cut.
\<close>

lemma frame_incomplete:
  assumes "EncodeFrame f v = Inr bs" "encode_body_size f v \<le> unat MaxRemaingLength"
    and "0 < k" "k < length bs"
  shows "DecodeFrame (take k bs) v = Incomplete"
  using assms by (rule frame_cut)

section \<open>What cannot be encoded\<close>

text \<open>The strings a frame puts on the wire, each behind a 16-bit signed size.\<close>

fun wire_strings :: "Frame \<Rightarrow> u8 \<Rightarrow> bytes list" where
  "wire_strings (FConnect p) v = [cn_DeviceID p, cn_UID p, cn_Token p, cn_ClientKey p]"
| "wire_strings (FConnack p) v = [ca_ServerKey p, ca_Salt p]"
| "wire_strings (FSend p) v = sp_ClientMsgNo p # (if has_stream v (sp_Setting p) then [sp_StreamNo p] else [])
     @ [sp_ChannelID p, sp_MsgKey p] @ (if IsSet (sp_Setting p) SettingTopic then [sp_Topic p] else [])"
| "wire_strings (FSendack p) v = [sa_ClientMsgNo p]"
| "wire_strings (FRecv p) v = [rp_MsgKey p, rp_FromUID p, rp_ChannelID p, rp_ClientMsgNo p]
     @ (if has_stream v (rp_Setting p) then [rp_StreamNo p] else [])
     @ (if IsSet (rp_Setting p) SettingTopic then [rp_Topic p] else [])"
| "wire_strings (FDisconnect p) v = [dc_Reason p]"
| "wire_strings (FSub p) v = [su_SubNo p, su_ChannelID p, su_Param p]"
| "wire_strings (FSuback p) v = [sk_SubNo p, sk_ChannelID p]"
| "wire_strings (FEvent p) v = [ev_Id p, ev_Type p]"
| "wire_strings _ v = []"

definition seq_too_large :: "Frame \<Rightarrow> u8 \<Rightarrow> bool" where
  "seq_too_large f v \<longleftrightarrow> v \<le> LegacyMessageSeqVersion \<and>
     (case f of FSendack p \<Rightarrow> 0xFFFFFFFF < sa_MessageSeq p | FRecv p \<Rightarrow> 0xFFFFFFFF < rp_MessageSeq p
      | FRecvack p \<Rightarrow> 0xFFFFFFFF < ra_MessageSeq p | _ \<Rightarrow> False)"

lemma seq_enc_Some: "snd (seq_enc ws) = Some e \<Longrightarrow> list_ex (\<lambda>w. snd w = Some e) ws"
  by (induction ws rule: seq_enc.induct) (auto split: prod.splits)

lemma list_ex_pairD: "list_ex P [a, b] \<Longrightarrow> \<not> P a \<Longrightarrow> P b"
  by simp

lemma writer_Some:
  "snd (wr bs) = Some e \<longleftrightarrow> False" "snd (WriteUint8 b) = Some e \<longleftrightarrow> False"
  "snd (WriteUint32 i) = Some e \<longleftrightarrow> False" "snd (WriteUint64 j) = Some e \<longleftrightarrow> False"
  "snd (WriteBytes bs) = Some e \<longleftrightarrow> False"
  "snd (WriteString s) = Some e \<longleftrightarrow> MaxInt16 < length s \<and> e = PanicStringTooLong (length s)"
  "snd (if_enc c w) = Some e \<longleftrightarrow> c \<and> snd w = Some e"
  "snd (encodeMessageSeq v q) = Some e \<longleftrightarrow> v \<le> LegacyMessageSeqVersion \<and> 0xFFFFFFFF < q \<and> e = ErrSeqExceedsLegacy"
  by (auto simp: WriteUint8_def WriteUint32_def WriteUint64_def WriteBytes_def WriteString_def
      if_enc_def encodeMessageSeq_def wr_def)

lemmas body_defs = encodeConnect_def encodeConnack_def encodeSend_def encodeSendack_def encodeRecv_def
  encodeRecvack_def encodeDisConnect_def encodeSub_def encodeSuback_def encodeEvent_def

lemma body_ok_iff:
  "snd (encode_body f v) = None \<longleftrightarrow>
    (\<forall>s \<in> set (wire_strings f v). length s \<le> MaxInt16) \<and> \<not> seq_too_large f v"
  by (cases f) (auto simp: body_defs wire_simps seq_too_large_def not_less)

lemma body_stop:
  "snd (encode_body f v) = Some e \<Longrightarrow>
    (\<exists>s \<in> set (wire_strings f v). MaxInt16 < length s \<and> e = PanicStringTooLong (length s))
      \<or> seq_too_large f v \<and> e = ErrSeqExceedsLegacy"
  by (cases f; simp only: encode_body.simps body_defs writer_Some; (drule seq_enc_Some)?;
      simp add: writer_Some seq_too_large_def; blast?)

text \<open>
  \<open>EncodeFrame\<close> succeeds exactly on the frames whose strings fit a signed 16-bit size, whose
  SEND payload is within \<open>PayloadMaxSize\<close> and whose message sequence fits the 32 bits of the legacy
  versions; otherwise it stops with the cause: an error, or a panic for a string too long.
\<close>

lemma encode_outcome:
  "case EncodeFrame f v of
     Inr bs \<Rightarrow> \<not> payload_too_large f \<and> \<not> seq_too_large f v
       \<and> list_all (\<lambda>s. length s \<le> MaxInt16) (wire_strings f v)
   | Inl ErrPayloadTooLarge \<Rightarrow> payload_too_large f
   | Inl ErrSeqExceedsLegacy \<Rightarrow> seq_too_large f v
   | Inl (PanicStringTooLong n) \<Rightarrow> MaxInt16 < n \<and> n \<in> length ` set (wire_strings f v)"
proof (cases "EncodeFrame f v")
  case (Inr bs)
  show ?thesis
  proof (cases "bare f")
    case True
    then show ?thesis
      unfolding Inr by (cases f) (simp_all add: bare_def frame_types payload_too_large_def seq_too_large_def)
  next
    case False
    with EncodeFrame_Inr [OF Inr False] show ?thesis by (simp add: Inr body_ok_iff list_all_iff)
  qed
next
  case (Inl e)
  then have nb: "\<not> bare f" using EncodeFrame_bare by fastforce
  show ?thesis
  proof (cases "payload_too_large f")
    case True
    with nb have "EncodeFrame f v = Inl ErrPayloadTooLarge"
      by (simp add: EncodeFrame_def encodeFrameWithWriter_def bare_def)
    with True show ?thesis by simp
  next
    case False
    with nb Inl have "snd (seq_enc [encodeFrame f (of_nat (encode_body_size f v)), encode_body f v]) = Some e"
      by (auto simp: EncodeFrame_def encodeFrameWithWriter_def bare_def split: prod.splits option.splits)
    then have "snd (encode_body f v) = Some e"
      by (rule seq_enc_Some [THEN list_ex_pairD]) (simp add: encodeFrame_def wr_def)
    from body_stop [OF this] show ?thesis
      unfolding Inl by (auto simp: not_less)
  qed
qed

section \<open>Decoding from a connection\<close>

text \<open>
  The two readers of the size agree on the value; the buffered one reports one byte too many when
  all of the first four bytes announce another.
\<close>

lemma conn_loop_agrees:
  "length pre \<le> 4 \<Longrightarrow>
    decode_length_conn_loop r (7 * length pre) acc =
      (case decode_length_loop (pre @ r) (7 * length pre) (length pre) acc of
         None \<Rightarrow> Inl ConnEOF
       | Some (x, k) \<Rightarrow> Inr (x, drop (min k 4 - length pre) r))
    \<and> (\<forall>x k. decode_length_loop (pre @ r) (7 * length pre) (length pre) acc = Some (x, k) \<longrightarrow> length pre < k)"
proof (induction "4 - length pre" arbitrary: pre r acc)
  case 0
  then have "length pre = 4" by simp
  then show ?case by (simp add: decode_length_conn_loop.simps decode_length_loop.simps)
next
  case (Suc j)
  then have l: "7 * length pre < 27" "length pre < 4" by linarith+
  show ?case
  proof (cases r)
    case Nil
    with l show ?thesis
      by (simp add: decode_length_conn_loop.simps [of _ "7 * length pre"]
          decode_length_loop.simps [of _ "7 * length pre"] ReadFull_def)
  next
    case (Cons b r')
    let ?acc = "acc OR push_bit (7 * length pre) (ucast (b AND 127))"
    have IH: "decode_length_conn_loop r' (7 * length (pre @ [b])) ?acc =
        (case decode_length_loop ((pre @ [b]) @ r') (7 * length (pre @ [b])) (length (pre @ [b])) ?acc of
           None \<Rightarrow> Inl ConnEOF
         | Some (x, k) \<Rightarrow> Inr (x, drop (min k 4 - length (pre @ [b])) r'))
      \<and> (\<forall>x k. decode_length_loop ((pre @ [b]) @ r') (7 * length (pre @ [b])) (length (pre @ [b])) ?acc
            = Some (x, k) \<longrightarrow> length (pre @ [b]) < k)"
      using Suc l by (intro Suc.hyps(1)) simp_all
    with IH Cons l show ?thesis
      by (auto simp: decode_length_conn_loop.simps [of "b # r'" "7 * length pre"]
          decode_length_loop.simps [of _ "7 * length pre"] ReadFull_def Let_def nth_append add.commute
          min_def Suc_diff_Suc [symmetric] split: option.splits)
  qed
qed

lemma decodeLength_conn:
  "decodeLengthWithConn r =
    (case decodeLength r of None \<Rightarrow> Inl ConnEOF | Some (x, k) \<Rightarrow> Inr (x, drop (min k 4) r))"
  using conn_loop_agrees [of "[]" r 0] by (simp add: decodeLengthWithConn_def decodeLength_def split: option.splits)

lemma FramerFromUint8_conn:
  "\<not> bare f \<Longrightarrow> (FramerFromUint8 (ToFixHeaderUint8 f))\<lparr>fr_RemainingLength := of_nat b\<rparr> = wire_framer f b 0"
  using FramerFromUint8_header [of f 0 b] unfolding bare_def
  by (simp add: FramerFromUint8_def zero_Framer_def Let_def split: if_splits)

lemma FramerFromUint8_bare:
  "bare f \<Longrightarrow> fr_FrameType (FramerFromUint8 (push_bit 4 (GetFrameType f))) = GetFrameType f"
  by (cases f) (simp_all add: bare_def FramerFromUint8_def zero_Framer_def frame_types)

text \<open>The frame a connection reader gets: no total size, and nothing but the type of a PING or PONG.\<close>

definition from_conn :: "Frame \<Rightarrow> u8 \<Rightarrow> Frame" where
  "from_conn f v = (if bare f then wire_frame zero_Framer v f else received f v 0)"

text \<open>
  Reading from a connection is the same as decoding a buffer: the reader takes exactly the bytes
  of an encoded frame off the connection and returns the frame (without its total size), and a
  connection that closes within the frame is an end-of-file error.
\<close>

lemma conn_decoder:
  assumes "EncodeFrame f v = Inr bs" "encode_body_size f v \<le> unat MaxRemaingLength"
  shows "DecodePacketWithConn (bs @ rest) v = Inr (from_conn f v, rest)
    \<and> (\<forall>k < length bs. DecodePacketWithConn (take k bs) v = Inl ConnEOF)"
proof (cases "bare f")
  case True
  with assms have "bs = [push_bit 4 (GetFrameType f)]" by (simp add: EncodeFrame_bare)
  with True show ?thesis
    using FramerFromUint8_bare [OF True]
    by (cases f) (simp_all add: bare_def DecodePacketWithConn_def decodeFramerWithConn_def ReadFull_def
        Let_def from_conn_def frame_types)
next
  case False
  let ?n = "of_nat (encode_body_size f v) :: u32" and ?h = "ToFixHeaderUint8 f"
  let ?len = "encodeVariable2 ?n" and ?body = "fst (encode_body f v)"
  note e = EncodeFrame_Inr [OF assms(1) False]
  have u: "unat ?n = encode_body_size f v" using assms(2) by (rule unat_body_size)
  have l: "length ?body = encode_body_size f v" by (rule length_body [OF e(1)])
  have pos: "0 < ?n" using u body_size_pos [OF False, of v] by (simp add: word_less_nat_alt)
  have lt: "unat ?n < 2 ^ 28" unfolding u using assms(2) by (simp add: MaxRemaingLength_def)
  have le: "\<not> MaxRemaingLength < ?n" using assms(2) u by (simp add: word_less_nat_alt)
  obtain d where d: "packetDecode (GetFrameType f) = Some d"
      "d (wire_framer f (encode_body_size f v) 0) ?body v = Inr (received f v 0)"
    using dec_body [OF False e(1)] unfolding received_def by blast
  have "decodeLengthWithConn (?len @ r) = Inr (?n, r)" for r
    using decodeLength_conn [of "?len @ r"] decodeLength_enc [OF pos lt, of r]
      length_encodeVariable2_le [OF pos lt] by simp
  then have fr: "decodeFramerWithConn (?h # ?len @ r) = Inr (wire_framer f (encode_body_size f v) 0, r)" for r
    using False FramerFromUint8_conn [OF False, of "encode_body_size f v"]
    by (simp add: decodeFramerWithConn_def ReadFull_def Let_def bare_def header_type [unfolded bare_def])
  have cut: "DecodePacketWithConn (take k bs) v = Inl ConnEOF" if k: "k < length bs" for k
  proof (cases k)
    case 0
    then show ?thesis by (simp add: DecodePacketWithConn_def decodeFramerWithConn_def ReadFull_def)
  next
    case (Suc j)
    show ?thesis
    proof (cases "j < length ?len")
      case True
      then have "decodeLengthWithConn (take j ?len) = Inl ConnEOF"
        using decodeLength_short [OF pos lt] decodeLength_conn [of "take j ?len"] by simp
      with True Suc show ?thesis
        using False by (simp add: e(3) DecodePacketWithConn_def decodeFramerWithConn_def ReadFull_def
            Let_def bare_def header_type [unfolded bare_def])
    next
      case notshort: False
      then have "take k bs = ?h # ?len @ take (j - length ?len) ?body" using Suc by (simp add: e(3))
      moreover have "j - length ?len < length ?body" using k Suc notshort by (simp add: e(3))
      ultimately show ?thesis
        using False le u l fr by (simp add: DecodePacketWithConn_def ReadFull_def bare_def)
    qed
  qed
  have "bs @ rest = ?h # ?len @ ?body @ rest" by (simp add: e(3))
  then have "DecodePacketWithConn (bs @ rest) v = Inr (from_conn f v, rest)"
    using False le u l fr d by (simp add: DecodePacketWithConn_def ReadFull_def bare_def from_conn_def)
  with cut show ?thesis by blast
qed

section \<open>Instances\<close>

definition sample_header :: Framer where
  "sample_header = zero_Framer\<lparr>fr_NoPersist := True, fr_DUP := True\<rparr>"

definition sample_disconnect :: Frame where
  "sample_disconnect = FDisconnect \<lparr>dc_Framer = sample_header, dc_ReasonCode = 12, dc_Reason = [98, 121]\<rparr>"

definition sample_bytes :: bytes where
  "sample_bytes = [153, 5, 12, 0, 2, 98, 121]"

lemma sample_encode: "EncodeFrame sample_disconnect 6 = Inr sample_bytes"
  by code_simp

lemma sample_size: "encode_body_size sample_disconnect 6 \<le> unat MaxRemaingLength"
  by (simp add: sample_disconnect_def encodeDisConnectSize_def MaxRemaingLength_def)

theorem frame_roundtrip_witness:
  "DecodeFrame ([153, 5, 12, 0, 2, 98, 121, 112, 0]) 6 = Decoded
     (FDisconnect \<lparr>dc_Framer = sample_header\<lparr>fr_FrameType := DISCONNECT, fr_RemainingLength := 5, fr_FrameSize := 9\<rparr>,
        dc_ReasonCode = 12, dc_Reason = [98, 121]\<rparr>) 7"
  using frame_roundtrip [OF sample_encode sample_size, of "[112, 0]"]
  by (simp add: sample_bytes_def received_def sample_disconnect_def wire_Disconnect_def wire_framer_def
      encodeDisConnectSize_def sample_header_def zero_Framer_def frame_types)

end
