(* ===== verification/ProtoStream.thy ===== *)
theory ProtoStream
  imports ProtoSafety
begin

text \<open>
  Byte streams: the read loop of the client (\<open>readerLoop\<close> of \<open>pkg/client/reader.go\<close>) and the
  decode loop of the gateway (\<open>Decode\<close> of \<open>pkg/gateway/protocol/wkproto/adapter.go\<close>). What is done
  with a frame is a parameter: \<open>route\<close> for the client, \<open>open_send\<close> (validation and decryption with
  the keys of the session) for the gateway. However the stream is cut into chunks, exactly the frames
  that were sent are delivered, in order.
\<close>

section \<open>The client's read loop\<close>

datatype 'e ReadStop = StopDecode DecErr | StopRoute 'e | StopRead | StopPanic

text \<open>The inner loop: the state after routing, the unread bytes and why it stopped, if it did.\<close>

function drain :: "('s \<Rightarrow> Frame \<Rightarrow> 's \<times> 'e option) \<Rightarrow> 's \<Rightarrow> bytes \<Rightarrow> 's \<times> bytes \<times> 'e ReadStop option" where
  "drain route s buf =
     (if buf = [] then (s, buf, None)
      else (case DecodeFrame buf LatestVersion of
          Panicked \<Rightarrow> (s, buf, Some StopPanic)
        | Failed e \<Rightarrow> (s, buf, Some (StopDecode e))
        | Incomplete \<Rightarrow> (s, buf, None)
        | Decoded f consumed \<Rightarrow>
            if consumed = 0 then (s, buf, None)
            else (case route s f of
                (s', Some e) \<Rightarrow> (s', buf, Some (StopRoute e))
              | (s', None) \<Rightarrow> drain route s' (drop consumed buf))))"
  by pat_completeness auto
termination
  by (relation "measure (\<lambda>(_, _, buf). length buf)") auto

declare drain.simps [simp del]

text \<open>The outer loop over what the connection delivers before its read error.\<close>

fun read_loop :: "('s \<Rightarrow> Frame \<Rightarrow> 's \<times> 'e option) \<Rightarrow> 's \<Rightarrow> bytes \<Rightarrow> bytes list \<Rightarrow> 's \<times> 'e ReadStop" where
  "read_loop route s buf [] = (s, StopRead)"
| "read_loop route s buf (chunk # chunks) =
     (case drain route s (buf @ chunk) of
        (s', buf', Some stop) \<Rightarrow> (s', stop)
      | (s', buf', None) \<Rightarrow> read_loop route s' buf' chunks)"

definition readerLoop :: "('s \<Rightarrow> Frame \<Rightarrow> 's \<times> 'e option) \<Rightarrow> 's \<Rightarrow> bytes list \<Rightarrow> 's \<times> 'e ReadStop" where
  "readerLoop route s chunks = read_loop route s [] chunks"

section \<open>The gateway's decode loop\<close>

text \<open>\<open>version\<close> is the one of the session; \<open>open_send\<close> is the identity for a session without
  encryption.\<close>

function decode_loop ::
  "(SendPacket \<Rightarrow> 'e + SendPacket) \<Rightarrow> u8 \<Rightarrow> bytes \<Rightarrow> nat \<Rightarrow> Frame list \<Rightarrow> (DecErr + 'e) + Frame list \<times> nat" where
  "decode_loop open_send version ins consumed frames =
     (if consumed < length ins then
        (case DecodeFrame (drop consumed ins) version of
           Failed e \<Rightarrow> Inl (Inl e)
         | Decoded f n \<Rightarrow>
             if n = 0 then Inr (frames, consumed)
             else
               (case f of
                  FSend send \<Rightarrow>
                    if \<not> IsSet (sp_Setting send) SettingNoEncrypt then
                      (case open_send send of
                         Inl e \<Rightarrow> Inl (Inr e)
                       | Inr send' \<Rightarrow> decode_loop open_send version ins (consumed + n) (frames @ [FSend send']))
                    else decode_loop open_send version ins (consumed + n) (frames @ [f])
                | _ \<Rightarrow> decode_loop open_send version ins (consumed + n) (frames @ [f]))
         | _ \<Rightarrow> Inr (frames, consumed))
      else Inr (frames, consumed))"
  by pat_completeness auto
termination
  by (relation "measure (\<lambda>(_, _, ins, consumed, _). length ins - consumed)") auto

declare decode_loop.simps [simp del]

definition AdapterDecode ::
  "(SendPacket \<Rightarrow> 'e + SendPacket) \<Rightarrow> u8 \<Rightarrow> bytes \<Rightarrow> (DecErr + 'e) + Frame list \<times> nat" where
  "AdapterDecode open_send version ins =
     (if ins = [] then Inr ([], 0) else decode_loop open_send version ins 0 [])"

text \<open>\<open>sessionVersion\<close>: the negotiated version, the latest for a session that has none.\<close>

definition sessionVersion :: "u8 option \<Rightarrow> bool \<Rightarrow> u8 option" where
  "sessionVersion val outbound =
     (case val of
        Some v \<Rightarrow> if v = 0 then if outbound then None else Some LatestVersion else Some v
      | None \<Rightarrow> if outbound then None else Some LatestVersion)"

definition AdapterEncode ::
  "(RecvPacket \<Rightarrow> 'e + RecvPacket) \<Rightarrow> u8 option \<Rightarrow> Frame \<Rightarrow> 'e + (EncStop + bytes)" where
  "AdapterEncode seal val f =
     (let version = (case sessionVersion val True of Some v \<Rightarrow> v | None \<Rightarrow> LegacyMessageSeqVersion)
      in case f of
           FRecv recv \<Rightarrow>
             if \<not> IsSet (rp_Setting recv) SettingNoEncrypt then
               (case seal recv of Inl e \<Rightarrow> Inl e | Inr sealed \<Rightarrow> Inr (EncodeFrame (FRecv sealed) version))
             else Inr (EncodeFrame f version)
         | _ \<Rightarrow> Inr (EncodeFrame f version))"

section \<open>Streams of frames\<close>

text \<open>A stream: the encoding of the frames, then the beginning of another one (or nothing).\<close>

definition sent_frame :: "u8 \<Rightarrow> Frame \<Rightarrow> bytes \<Rightarrow> bool" where
  "sent_frame v f bs \<longleftrightarrow> EncodeFrame f v = Inr bs \<and> encode_body_size f v \<le> unat MaxRemaingLength"

definition cut_frame :: "u8 \<Rightarrow> bytes \<Rightarrow> bool" where
  "cut_frame v tl_bytes \<longleftrightarrow> tl_bytes = [] \<or> (\<exists>f bs. sent_frame v f bs \<and> length tl_bytes < length bs \<and> tl_bytes = take (length tl_bytes) bs)"

definition sent_stream :: "u8 \<Rightarrow> Frame list \<Rightarrow> bytes list \<Rightarrow> bytes \<Rightarrow> bool" where
  "sent_stream v fs bss tl_bytes \<longleftrightarrow> list_all2 (sent_frame v) fs bss \<and> cut_frame v tl_bytes"

lemma sent_frame_not_Nil: "sent_frame v f bs \<Longrightarrow> bs \<noteq> []"
  unfolding sent_frame_def
  by (cases "bare f") (auto simp: EncodeFrame_bare dest: EncodeFrame_Inr(3))

lemma decode_sent:
  "sent_frame v f bs \<Longrightarrow> DecodeFrame (bs @ rest) v = Decoded (received f v (length (bs @ rest))) (length bs)"
  unfolding sent_frame_def using frame_decodes by blast

lemma decode_cut:
  "sent_frame v f bs \<Longrightarrow> buf \<noteq> [] \<Longrightarrow> length buf < length bs \<Longrightarrow> buf = take (length buf) bs \<Longrightarrow>
    DecodeFrame buf v = Incomplete"
  unfolding sent_frame_def using frame_cut [of f v bs "length buf"] by auto

lemma decode_tail: "cut_frame v (buf @ later) \<Longrightarrow> buf \<noteq> [] \<Longrightarrow> DecodeFrame buf v = Incomplete"
  unfolding cut_frame_def
proof (elim disjE exE conjE)
  fix f bs
  assume *: "buf \<noteq> []" "sent_frame v f bs" "length (buf @ later) < length bs"
    "buf @ later = take (length (buf @ later)) bs"
  then have "buf = take (length buf) bs"
    by (metis append_eq_conv_conj length_append min.absorb1 le_add1 take_take)
  with * show ?thesis by (intro decode_cut) auto
qed simp

text \<open>The effect of routing frames one after the other up to the first error.\<close>

fun route_all :: "('s \<Rightarrow> Frame \<Rightarrow> 's \<times> 'e option) \<Rightarrow> 's \<Rightarrow> Frame list \<Rightarrow> 's \<times> 'e option" where
  "route_all route s [] = (s, None)"
| "route_all route s (f # fs) =
     (case route s f of (s', Some e) \<Rightarrow> (s', Some e) | (s', None) \<Rightarrow> route_all route s' fs)"

lemma route_all_append:
  "route_all route s (fs @ gs) =
    (case route_all route s fs of (s', Some e) \<Rightarrow> (s', Some e) | (s', None) \<Rightarrow> route_all route s' gs)"
  by (induction fs arbitrary: s) (auto split: prod.splits option.splits)

definition received_all :: "u8 \<Rightarrow> Frame list \<Rightarrow> nat list \<Rightarrow> Frame list" where
  "received_all v fs ns = map2 (\<lambda>f n. received f v n) fs ns"

lemma received_all_Cons: "received_all v (f # fs) (n # ns) = received f v n # received_all v fs ns"
  by (simp add: received_all_def)

text \<open>
  One run of the inner loop routes the frames that are complete in the buffer; the bytes left over are
  the beginning of the next.
\<close>

lemma drain_Nil [simp]: "drain route s [] = (s, [], None)"
  by (simp add: drain.simps)

definition begins :: "bytes \<Rightarrow> bytes list \<Rightarrow> bool" where
  "begins buf bss \<longleftrightarrow> (case bss of [] \<Rightarrow> True | bs # _ \<Rightarrow> length buf < length bs)"

lemma drain_stream:
  assumes "list_all2 (sent_frame LatestVersion) fs bss" "cut_frame LatestVersion tl_bytes"
    and "buf @ later = concat bss @ tl_bytes"
  shows "\<exists>k ns. k \<le> length fs \<and> length ns = k \<and>
    (case route_all route s (received_all LatestVersion (take k fs) ns) of
       (s', Some e) \<Rightarrow> \<exists>buf'. drain route s buf = (s', buf', Some (StopRoute e))
     | (s', None) \<Rightarrow> \<exists>buf'. drain route s buf = (s', buf', None)
         \<and> buf' @ later = concat (drop k bss) @ tl_bytes \<and> begins buf' (drop k bss))"
  using assms
proof (induction fs bss arbitrary: s buf rule: list_all2_induct)
  case Nil
  have "drain route s buf = (s, buf, None)"
    using decode_tail [of _ buf later] Nil by (cases "buf = []") (simp_all add: drain.simps [of _ _ buf])
  with Nil show ?case by (intro exI [of _ 0] exI [of _ "[]"]) (simp add: received_all_def begins_def)
next
  case (Cons f fs bs bss)
  show ?case
  proof (cases "length bs \<le> length buf")
    case False
    then have "buf = take (length buf) bs"
      using Cons.prems(2) by (metis append_assoc append_eq_append_conv_if concat.simps(2) not_le)
    with False have "drain route s buf = (s, buf, None)"
      using decode_cut [OF Cons.hyps(1)] by (cases "buf = []") (simp_all add: drain.simps [of _ _ buf])
    with Cons.prems False show ?thesis
      by (intro exI [of _ 0] exI [of _ "[]"]) (simp add: received_all_def begins_def)
  next
    case True
    then obtain buf2 where buf: "buf = bs @ buf2" and rest: "buf2 @ later = concat bss @ tl_bytes"
      using Cons.prems(2) by (auto simp: append_eq_append_conv2) (metis append_Nil2 append_eq_append_conv le_antisym length_append le_add1)
    obtain g where g: "g = received f LatestVersion (length buf)" by simp
    have "bs \<noteq> []" using Cons.hyps(1) by (rule sent_frame_not_Nil)
    then have d: "drain route s buf = (case route s g of
        (s', Some e) \<Rightarrow> (s', buf, Some (StopRoute e)) | (s', None) \<Rightarrow> drain route s' buf2)"
      using decode_sent [OF Cons.hyps(1), of buf2] unfolding buf g by (simp add: drain.simps [of _ _ "bs @ buf2"])
    show ?thesis
    proof (cases "route s g")
      case (Pair s1 r)
      show ?thesis
      proof (cases r)
        case (Some e)
        with Pair d show ?thesis
          by (intro exI [of _ 1] exI [of _ "[length buf]"]) (simp add: received_all_def g)
      next
        case None
        from Cons.IH [OF Cons.prems(1) rest, of s1] obtain k ns where kn: "k \<le> length fs" "length ns = k"
          "case route_all route s1 (received_all LatestVersion (take k fs) ns) of
             (s', Some e) \<Rightarrow> \<exists>buf'. drain route s1 buf2 = (s', buf', Some (StopRoute e))
           | (s', None) \<Rightarrow> \<exists>buf'. drain route s1 buf2 = (s', buf', None)
               \<and> buf' @ later = concat (drop k bss) @ tl_bytes \<and> begins buf' (drop k bss)"
          by (elim exE conjE) (rule that)
        with Pair None d show ?thesis
          by (intro exI [of _ "Suc k"] exI [of _ "length buf # ns"])
            (simp add: received_all_Cons g [symmetric] cong: prod.case_cong option.case_cong)
      qed
    qed
  qed
qed

lemma route_all_take:
  assumes "route_all route s (received_all v (take k fs) ns) = (s', Some e)" "length ns = k" "k \<le> length fs"
  shows "route_all route s (received_all v fs (ns @ replicate (length fs - k) 0)) = (s', Some e)"
proof -
  have "received_all v fs (ns @ replicate (length fs - k) 0)
      = received_all v (take k fs) ns @ received_all v (drop k fs) (replicate (length fs - k) 0)"
    using assms(2,3) by (simp add: received_all_def zip_append2)
  with assms(1) show ?thesis by (simp add: route_all_append)
qed

lemma read_loop_stream:
  assumes "list_all2 (sent_frame LatestVersion) fs bss" "cut_frame LatestVersion tl_bytes"
    and "buf @ concat chunks = concat bss @ tl_bytes" "begins buf bss"
  shows "\<exists>ns. length ns = length fs \<and> read_loop route s buf chunks =
    (case route_all route s (received_all LatestVersion fs ns) of
       (s', Some e) \<Rightarrow> (s', StopRoute e) | (s', None) \<Rightarrow> (s', StopRead))"
  using assms
proof (induction chunks arbitrary: fs bss s buf)
  case Nil
  then have "bss = []" by (cases bss) (auto simp: begins_def)
  with Nil show ?case by (simp add: received_all_def)
next
  case (Cons chunk chunks)
  have "(buf @ chunk) @ concat chunks = concat bss @ tl_bytes" using Cons.prems(3) by simp
  from drain_stream [OF Cons.prems(1,2) this, where route = route and s = s] obtain k ns where k: "k \<le> length fs" "length ns = k"
    and d: "case route_all route s (received_all LatestVersion (take k fs) ns) of
       (s', Some e) \<Rightarrow> \<exists>buf'. drain route s (buf @ chunk) = (s', buf', Some (StopRoute e))
     | (s', None) \<Rightarrow> \<exists>buf'. drain route s (buf @ chunk) = (s', buf', None)
         \<and> buf' @ concat chunks = concat (drop k bss) @ tl_bytes \<and> begins buf' (drop k bss)"
    by (elim exE conjE) (rule that)
  obtain s1 r where r: "route_all route s (received_all LatestVersion (take k fs) ns) = (s1, r)"
    by (cases "route_all route s (received_all LatestVersion (take k fs) ns)")
  show ?case
  proof (cases r)
    case (Some e)
    with d r have "\<exists>buf'. drain route s (buf @ chunk) = (s1, buf', Some (StopRoute e))" by simp
    then obtain buf' where "drain route s (buf @ chunk) = (s1, buf', Some (StopRoute e))" ..
    moreover have "route_all route s (received_all LatestVersion fs (ns @ replicate (length fs - k) 0)) = (s1, Some e)"
      using r Some by (intro route_all_take k) simp
    ultimately show ?thesis
      using k by (intro exI [of _ "ns @ replicate (length fs - k) 0"]) simp
  next
    case None
    with d r have "\<exists>buf'. drain route s (buf @ chunk) = (s1, buf', None)
        \<and> buf' @ concat chunks = concat (drop k bss) @ tl_bytes \<and> begins buf' (drop k bss)"
      by simp
    then obtain buf' where b: "drain route s (buf @ chunk) = (s1, buf', None)"
        "buf' @ concat chunks = concat (drop k bss) @ tl_bytes" "begins buf' (drop k bss)"
      by blast
    have "list_all2 (sent_frame LatestVersion) (drop k fs) (drop k bss)"
      using Cons.prems(1) by (rule list_all2_dropI)
    from Cons.IH [OF this Cons.prems(2) b(2,3)] obtain ms where ms: "length ms = length (drop k fs)"
      "read_loop route s1 buf' chunks = (case route_all route s1 (received_all LatestVersion (drop k fs) ms) of
         (s', Some e) \<Rightarrow> (s', StopRoute e) | (s', None) \<Rightarrow> (s', StopRead))"
      by blast
    have "received_all LatestVersion fs (ns @ ms)
        = received_all LatestVersion (take k fs) ns @ received_all LatestVersion (drop k fs) ms"
      using k by (simp add: received_all_def zip_append2)
    with ms b r None k show ?thesis
      by (intro exI [of _ "ns @ ms"]) (simp add: route_all_append)
  qed
qed

text \<open>
  C32: Whatever the sizes of the reads, the client hands to its router exactly the frames the server
  encoded, in order and each once, until the router rejects one or the connection ends; bytes of a
  frame that never becomes complete are not delivered. (\<open>ns\<close> are the sizes of the buffer when each
  frame was taken from it.)
\<close>

theorem stream_reassembly:
  assumes "list_all2 (sent_frame LatestVersion) fs bss" "cut_frame LatestVersion tl_bytes"
    and "concat chunks = concat bss @ tl_bytes"
  shows "\<exists>ns. length ns = length fs \<and> readerLoop route s chunks =
    (case route_all route s (map2 (\<lambda>f n. received f LatestVersion n) fs ns) of
       (s', Some e) \<Rightarrow> (s', StopRoute e) | (s', None) \<Rightarrow> (s', StopRead))"
proof -
  have "begins [] bss"
    using assms(1) by (cases bss) (auto simp: begins_def list_all2_Cons2 dest: sent_frame_not_Nil)
  with read_loop_stream [OF assms(1,2), of "[]" chunks route s] assms(3) show ?thesis
    by (simp add: readerLoop_def received_all_def)
qed

section \<open>What the gateway delivers\<close>

text \<open>What \<open>Decode\<close> does with a decoded frame.\<close>

definition opened :: "(SendPacket \<Rightarrow> 'e + SendPacket) \<Rightarrow> Frame \<Rightarrow> 'e + Frame" where
  "opened open_send f =
     (case f of
        FSend send \<Rightarrow>
          if \<not> IsSet (sp_Setting send) SettingNoEncrypt then map_sum (\<lambda>e. e) FSend (open_send send) else Inr f
      | _ \<Rightarrow> Inr f)"

lemma decode_loop_step:
  assumes "sent_frame v f bs" "consumed \<le> length ins" "drop consumed ins = bs @ rest"
  shows "decode_loop open_send v ins consumed frames =
    (case opened open_send (received f v (length bs + length rest)) of
       Inl e \<Rightarrow> Inl (Inr e)
     | Inr g \<Rightarrow> decode_loop open_send v ins (consumed + length bs) (frames @ [g]))"
proof -
  have "bs \<noteq> []" using assms(1) by (rule sent_frame_not_Nil)
  moreover have "consumed < length ins"
    using assms(2,3) \<open>bs \<noteq> []\<close> by (metis Nil_is_append_conv drop_eq_Nil not_le)
  ultimately show ?thesis
    using decode_sent [OF assms(1), of rest] assms(3)
    by (simp add: decode_loop.simps [of _ _ ins consumed] opened_def split: Frame.splits sum.splits)
qed

lemma decode_loop_end:
  assumes "cut_frame v (drop consumed ins)"
  shows "decode_loop open_send v ins consumed frames = Inr (frames, consumed)"
  using decode_tail [of v "drop consumed ins" "[]"] assms
  by (simp add: decode_loop.simps [of _ _ ins consumed])

text \<open>The frames one after the other, with the number of bytes that were in the buffer from there on.\<close>

fun open_all :: "(SendPacket \<Rightarrow> 'e + SendPacket) \<Rightarrow> u8 \<Rightarrow> Frame list \<Rightarrow> bytes list \<Rightarrow> bytes \<Rightarrow> 'e + Frame list" where
  "open_all open_send v (f # fs) (bs # bss) tl_bytes =
     (case opened open_send (received f v (length bs + length (concat bss @ tl_bytes))) of
        Inl e \<Rightarrow> Inl e
      | Inr g \<Rightarrow> map_sum (\<lambda>e. e) ((#) g) (open_all open_send v fs bss tl_bytes))"
| "open_all open_send v _ _ tl_bytes = Inr []"

lemma decode_loop_stream:
  assumes "list_all2 (sent_frame v) fs bss" "cut_frame v tl_bytes"
    and "consumed \<le> length ins" "drop consumed ins = concat bss @ tl_bytes"
  shows "decode_loop open_send v ins consumed frames =
    map_sum Inr (\<lambda>gs. (frames @ gs, consumed + length (concat bss))) (open_all open_send v fs bss tl_bytes)"
  using assms
proof (induction fs bss arbitrary: consumed frames rule: list_all2_induct)
  case Nil
  then show ?case by (simp add: decode_loop_end)
next
  case (Cons f fs bs bss)
  have d: "drop consumed ins = bs @ concat bss @ tl_bytes" using Cons.prems(3) by simp
  have "length ins - consumed = length (bs @ concat bss @ tl_bytes)"
    by (metis d length_drop)
  then have le: "consumed + length bs \<le> length ins" using Cons.prems(2) by simp
  have d': "drop (consumed + length bs) ins = concat bss @ tl_bytes"
    using d by (metis add.commute append_eq_conv_conj drop_drop)
  show ?case
    using decode_loop_step [OF Cons.hyps(1) Cons.prems(2) d, of open_send frames]
      Cons.IH [OF Cons.prems(1) le d']
    by (simp split: sum.splits) (simp add: map_sum_def sum.case_distrib split: sum.splits)
qed

text \<open>
  Handed a buffer with complete frames and the beginning of another, the gateway returns exactly
  the complete frames, SEND packets opened with the keys of the session, and consumes exactly their
  bytes; if a packet cannot be opened the whole buffer is rejected with that error.
\<close>

lemma gateway_decode:
  assumes "list_all2 (sent_frame v) fs bss" "cut_frame v tl_bytes"
  shows "AdapterDecode open_send v (concat bss @ tl_bytes) =
    map_sum Inr (\<lambda>gs. (gs, length (concat bss))) (open_all open_send v fs bss tl_bytes)"
proof (cases "concat bss @ tl_bytes = []")
  case True
  then have "bss = []"
    using assms(1) by (cases bss) (auto simp: list_all2_Cons2 dest: sent_frame_not_Nil)
  with True assms(1) show ?thesis by (simp add: AdapterDecode_def)
next
  case False
  with decode_loop_stream [OF assms, of 0 "concat bss @ tl_bytes" open_send "[]"] show ?thesis
    by (simp only: AdapterDecode_def if_False) simp
qed

section \<open>Instances\<close>

definition sample_ping :: Frame where
  "sample_ping = FPing zero_Framer"

lemma sample_stream:
  "list_all2 (sent_frame LatestVersion) [sample_disconnect, sample_ping] [sample_bytes, [112]]"
  "cut_frame LatestVersion [153, 5]"
proof -
  have s: "sent_frame LatestVersion sample_disconnect sample_bytes"
    using sample_encode sample_size by (simp add: sent_frame_def LatestVersion_def)
  moreover have "sent_frame LatestVersion sample_ping [112]"
    by (simp add: sent_frame_def sample_ping_def EncodeFrame_bare bare_def PING_def)
  ultimately show "list_all2 (sent_frame LatestVersion) [sample_disconnect, sample_ping] [sample_bytes, [112]]"
    by simp
  have "take (length [153, 5 :: u8]) sample_bytes = [153, 5]" "length [153, 5 :: u8] < length sample_bytes"
    by (simp_all add: sample_bytes_def)
  with s show "cut_frame LatestVersion [153, 5]" unfolding cut_frame_def by metis
qed

theorem stream_reassembly_witness:
  "\<exists>n m. readerLoop (\<lambda>s f. (s @ [f], None :: unit option)) [] [[153, 5, 12], [0, 2, 98, 121, 112, 153], [5]]
    = ([received sample_disconnect LatestVersion n, received sample_ping LatestVersion m], StopRead)"
proof -
  have "concat [[153, 5, 12], [0, 2, 98, 121, 112, 153], [5]] = concat [sample_bytes, [112]] @ [153, 5]"
    by (simp add: sample_bytes_def)
  from stream_reassembly [OF sample_stream this, of "\<lambda>s f. (s @ [f], None :: unit option)" "[]"]
  obtain ns where ns: "length ns = 2"
    "readerLoop (\<lambda>s f. (s @ [f], None :: unit option)) [] [[153, 5, 12], [0, 2, 98, 121, 112, 153], [5]]
      = (case route_all (\<lambda>s f. (s @ [f], None :: unit option)) []
           (map2 (\<lambda>f n. received f LatestVersion n) [sample_disconnect, sample_ping] ns) of
          (s', Some e) \<Rightarrow> (s', StopRoute e) | (s', None) \<Rightarrow> (s', StopRead))"
    by (elim exE conjE) (rule that, simp_all only: length_Cons list.size numeral_2_eq_2)
  obtain n m where "ns = [n, m]" using ns(1) by (auto simp: length_Suc_conv eval_nat_numeral)
  with ns(2) show ?thesis by auto
qed

lemma sample_opened:
  "opened open_send (received sample_disconnect v n) = Inr (received sample_disconnect v n)"
  "opened open_send (received sample_ping v n) = Inr (received sample_ping v n)"
  by (simp_all add: opened_def received_def sample_disconnect_def sample_ping_def)

theorem gateway_decode_witness:
  "AdapterDecode (\<lambda>send. Inr send :: unit + SendPacket) LatestVersion (sample_bytes @ [112, 153, 5])
    = Inr ([received sample_disconnect LatestVersion (length sample_bytes + 3),
            received sample_ping LatestVersion 3], length sample_bytes + 1)"
  using gateway_decode [OF sample_stream, of "\<lambda>send. Inr send :: unit + SendPacket"]
  by (simp add: sample_opened numeral_3_eq_3)

end
