(* ===== verification/ClientPending.thy ===== *)
theory ClientPending
  imports ProtoFrame
begin

text \<open>
  The sends of a client that wait for their SENDACK (\<open>pkg/client/pending.go\<close>), the waiter of a
  batch (\<open>pkg/client/batch_waiter.go\<close>) and the queue of received messages (\<open>pkg/client/reader.go\<close>).
  Each operation runs under a mutex, so it is one atomic step. Entries and waiters are shared by
  pointer: they live in a heap and are named by their index, and an expiry that races with an
  acknowledgement is told apart by that identity. A timer is the operation \<open>expire\<close>, at any time.
\<close>

section \<open>Outcomes\<close>

record SendResult =
  sr_ClientSeq :: u64
  sr_ClientMsgNo :: bytes
  sr_MessageID :: u64
  sr_MessageSeq :: u64
  sr_ReasonCode :: ReasonCode

datatype ClientErr =
    ErrClientClosed | ErrAckTimeout | ErrDuplicatePendingSend | ErrClientOther string
  | SendError u64 bytes ReasonCode

record sendOutcome =
  so_result :: SendResult
  so_err :: "ClientErr option"

definition zero_SendResult :: SendResult where
  "zero_SendResult = \<lparr>sr_ClientSeq = 0, sr_ClientMsgNo = [], sr_MessageID = 0, sr_MessageSeq = 0,
     sr_ReasonCode = 0\<rparr>"

definition failed_outcome :: "ClientErr \<Rightarrow> sendOutcome" where
  "failed_outcome e = \<lparr>so_result = zero_SendResult, so_err = Some e\<rparr>"

definition ReasonSuccess :: ReasonCode where "ReasonSuccess = 1"

section \<open>The waiter of a batch\<close>

record sendBatchWaiter =
  bw_results :: "SendResult list"
  bw_errs :: "ClientErr option list"
  bw_completed :: "bool list"
  bw_remaining :: int
  bw_scan :: nat
  bw_terminalErr :: "ClientErr option"
  bw_closed :: bool
  bw_returned :: bool

definition newSendBatchWaiter :: "nat \<Rightarrow> sendBatchWaiter" where
  "newSendBatchWaiter n = \<lparr>bw_results = replicate n zero_SendResult, bw_errs = replicate n None,
     bw_completed = replicate n False, bw_remaining = int n, bw_scan = 0, bw_terminalErr = None,
     bw_closed = False, bw_returned = False\<rparr>"

text \<open>The loop over the outcomes that are next in the order of the input.\<close>

function scan_loop :: "sendBatchWaiter \<Rightarrow> sendBatchWaiter" where
  "scan_loop w =
     (if bw_scan w < length (bw_completed w) \<and> bw_completed w ! bw_scan w then
        if bw_errs w ! bw_scan w \<noteq> None
        then w\<lparr>bw_terminalErr := bw_errs w ! bw_scan w, bw_closed := True\<rparr>
        else scan_loop (w\<lparr>bw_scan := bw_scan w + 1\<rparr>)
      else if bw_remaining w = 0 then w\<lparr>bw_closed := True\<rparr> else w)"
  by pat_completeness auto
termination
  by (relation "measure (\<lambda>w. length (bw_completed w) - bw_scan w)") auto

declare scan_loop.simps [simp del]

definition complete :: "sendBatchWaiter \<Rightarrow> nat \<Rightarrow> sendOutcome \<Rightarrow> sendBatchWaiter" where
  "complete w index out =
     (if length (bw_completed w) \<le> index \<or> bw_completed w ! index then w
      else if bw_returned w \<or> bw_closed w \<and> bw_terminalErr w \<noteq> None
      then w\<lparr>bw_completed := (bw_completed w)[index := True], bw_remaining := bw_remaining w - 1\<rparr>
      else
        let w = w\<lparr>bw_results := (bw_results w)[index := so_result out],
              bw_errs := (bw_errs w)[index := so_err out],
              bw_completed := (bw_completed w)[index := True], bw_remaining := bw_remaining w - 1\<rparr>
        in if bw_returned w \<or> bw_closed w then w else scan_loop w)"

text \<open>\<open>wait\<close>: \<open>None\<close> while it blocks; \<open>ctx_err\<close> is the error of a context that is done.\<close>

definition wait :: "sendBatchWaiter \<Rightarrow> ClientErr option \<Rightarrow> (sendBatchWaiter \<times> SendResult list \<times> ClientErr option) option" where
  "wait w ctx_err =
     (if bw_closed w then Some (w\<lparr>bw_returned := True\<rparr>, bw_results w, bw_terminalErr w)
      else (case ctx_err of
          Some e \<Rightarrow> Some (w\<lparr>bw_returned := True\<rparr>, bw_results w, Some e)
        | None \<Rightarrow> None))"

section \<open>The pending tracker\<close>

type_synonym pendingKey = "u64 \<times> bytes"

text \<open>\<open>done\<close> is a channel of capacity one, \<open>batch\<close> and \<open>batchIndex\<close> a place in a waiter.\<close>

datatype Target = ToDone | ToBatch nat nat

record pendingEntry =
  pe_key :: pendingKey
  pe_target :: Target
  pe_once :: bool
  pe_sent :: "sendOutcome list"
  pe_onFinish :: nat

record pendingTracker =
  pt_closed :: bool
  pt_entries :: "(pendingKey, nat) gomap"
  pt_heap :: "pendingEntry list"
  pt_waiters :: "sendBatchWaiter list"

definition newPendingTracker :: "sendBatchWaiter list \<Rightarrow> pendingTracker" where
  "newPendingTracker ws = \<lparr>pt_closed = False, pt_entries = [], pt_heap = [], pt_waiters = ws\<rparr>"

definition finish_entry :: "nat \<Rightarrow> sendOutcome \<Rightarrow> pendingTracker \<Rightarrow> pendingTracker" where
  "finish_entry i out t =
     (let e = pt_heap t ! i
      in if pe_once e then t
         else
           let t = (case pe_target e of
                 ToBatch b index \<Rightarrow> t\<lparr>pt_waiters := (pt_waiters t)[b := complete (pt_waiters t ! b) index out]\<rparr>
               | ToDone \<Rightarrow> t)
           in t\<lparr>pt_heap := (pt_heap t)[i := e\<lparr>pe_once := True, pe_sent := pe_sent e @ [out],
                  pe_onFinish := pe_onFinish e + 1\<rparr>]\<rparr>)"

definition addWithTarget :: "pendingKey \<Rightarrow> Target \<Rightarrow> pendingTracker \<Rightarrow> pendingTracker \<times> (ClientErr + nat)" where
  "addWithTarget key target t =
     (if pt_closed t then (t, Inl ErrClientClosed)
      else if map_of (pt_entries t) key \<noteq> None then (t, Inl ErrDuplicatePendingSend)
      else
        let i = length (pt_heap t)
        in (t\<lparr>pt_heap := pt_heap t @ [\<lparr>pe_key = key, pe_target = target, pe_once = False, pe_sent = [], pe_onFinish = 0\<rparr>],
              pt_entries := AList.update key i (pt_entries t)\<rparr>, Inr i))"

definition take_key :: "pendingKey \<Rightarrow> pendingTracker \<Rightarrow> pendingTracker \<times> nat option" where
  "take_key key t =
     (case map_of (pt_entries t) key of
        None \<Rightarrow> (t, None)
      | Some i \<Rightarrow> (t\<lparr>pt_entries := AList.delete key (pt_entries t)\<rparr>, Some i))"

definition takeEntry :: "nat \<Rightarrow> pendingTracker \<Rightarrow> pendingTracker \<times> bool" where
  "takeEntry i t =
     (let key = pe_key (pt_heap t ! i)
      in if map_of (pt_entries t) key \<noteq> Some i then (t, False)
         else (t\<lparr>pt_entries := AList.delete key (pt_entries t)\<rparr>, True))"

definition ack_outcome :: "SendackPacket \<Rightarrow> sendOutcome" where
  "ack_outcome ack =
     \<lparr>so_result = \<lparr>sr_ClientSeq = sa_ClientSeq ack, sr_ClientMsgNo = sa_ClientMsgNo ack,
        sr_MessageID = sa_MessageID ack, sr_MessageSeq = sa_MessageSeq ack,
        sr_ReasonCode = sa_ReasonCode ack\<rparr>,
      so_err = (if sa_ReasonCode ack \<noteq> ReasonSuccess
        then Some (SendError (sa_ClientSeq ack) (sa_ClientMsgNo ack) (sa_ReasonCode ack)) else None)\<rparr>"

definition resolve :: "SendackPacket \<Rightarrow> pendingTracker \<Rightarrow> pendingTracker \<times> bool" where
  "resolve ack t =
     (let (t, entry) = take_key (sa_ClientSeq ack, sa_ClientMsgNo ack) t;
          (t, entry) = (if entry = None \<and> sa_ClientMsgNo ack \<noteq> [] then take_key (sa_ClientSeq ack, []) t
            else (t, entry))
      in case entry of
           None \<Rightarrow> (t, False)
         | Some i \<Rightarrow> (finish_entry i (ack_outcome ack) t, True))"

definition close_tracker :: "ClientErr \<Rightarrow> pendingTracker \<Rightarrow> pendingTracker" where
  "close_tracker err t =
     (if pt_closed t then t
      else fold (\<lambda>(_, i). finish_entry i (failed_outcome err)) (pt_entries t)
             (t\<lparr>pt_closed := True, pt_entries := []\<rparr>))"

definition fail_entry :: "nat \<Rightarrow> ClientErr \<Rightarrow> pendingTracker \<Rightarrow> pendingTracker" where
  "fail_entry i err t =
     (case takeEntry i t of
        (t, False) \<Rightarrow> t
      | (t, True) \<Rightarrow> finish_entry i (failed_outcome err) t)"

definition expire :: "nat \<Rightarrow> pendingTracker \<Rightarrow> pendingTracker" where
  "expire i = fail_entry i ErrAckTimeout"

section \<open>The queue of received messages\<close>

text \<open>\<open>enqueueRecv\<close>: a channel of capacity \<open>c\<close>; a full one loses its oldest packet. \<open>current\<close> says
  that the client is open and still on the connection of the packet.\<close>

definition enqueueRecv :: "bool \<Rightarrow> nat \<Rightarrow> RecvPacket \<Rightarrow> RecvPacket list \<Rightarrow> RecvPacket list" where
  "enqueueRecv current c pkt q =
     (if \<not> current then q
      else if c = 0 then q
      else if length q < c then q @ [pkt]
      else
        let q' = tl q
        in if length q' < c then q' @ [pkt] else q')"

end
