(* ===== verification/ClientSafety.thy ===== *)
theory ClientSafety
  imports ClientPending
begin

text \<open>
  Every send admitted by the tracker gets exactly one outcome; a batch is decided by the first error
  in the order of its messages, whatever the order of the acknowledgements; the receive queue keeps
  the newest packets.
\<close>

section \<open>What a batch promises\<close>

text \<open>The abstract state of a batch: the first outcome of each message.\<close>

definition good :: "sendOutcome option \<Rightarrow> bool" where
  "good r = (case r of None \<Rightarrow> False | Some out \<Rightarrow> so_err out = None)"

lemma good_None [simp]: "\<not> good None"
  by (simp add: good_def)

definition record_first :: "sendOutcome option list \<Rightarrow> nat \<Rightarrow> sendOutcome \<Rightarrow> sendOutcome option list" where
  "record_first outs i out = (if i < length outs \<and> outs ! i = None then outs[i := Some out] else outs)"

text \<open>Undecided, or decided with the first error in input order, or without error.\<close>

definition verdict :: "sendOutcome option list \<Rightarrow> ClientErr option option" where
  "verdict outs =
     (let k = length (takeWhile good outs)
      in if k = length outs then Some None
         else (case outs ! k of None \<Rightarrow> None | Some out \<Rightarrow> Some (so_err out)))"

definition unresolved :: "sendOutcome option list \<Rightarrow> nat" where
  "unresolved outs = length (filter (\<lambda>r. r = None) outs)"

definition waiter_abs :: "sendBatchWaiter \<Rightarrow> sendOutcome option list \<Rightarrow> bool" where
  "waiter_abs w outs \<longleftrightarrow>
     length (bw_results w) = length outs \<and> length (bw_errs w) = length outs
     \<and> length (bw_completed w) = length outs
     \<and> (\<forall>i < length outs. bw_completed w ! i \<longleftrightarrow> outs ! i \<noteq> None)
     \<and> bw_remaining w = int (unresolved outs)
     \<and> bw_scan w = length (takeWhile good outs)
     \<and> (bw_closed w \<longleftrightarrow> verdict outs \<noteq> None)
     \<and> bw_terminalErr w = (case verdict outs of None \<Rightarrow> None | Some e \<Rightarrow> e)
     \<and> (\<forall>i < length outs. \<forall>out. (bw_terminalErr w = None \<or> i \<le> bw_scan w) \<longrightarrow> outs ! i = Some out \<longrightarrow>
          bw_results w ! i = so_result out \<and> bw_errs w ! i = so_err out)
     \<and> \<not> bw_returned w"

lemma length_takeWhile_eq:
  assumes "k \<le> length xs" "\<And>j. j < k \<Longrightarrow> P (xs ! j)" "k < length xs \<Longrightarrow> \<not> P (xs ! k)"
  shows "length (takeWhile P xs) = k"
proof -
  have "takeWhile P xs = take k xs"
    by (rule takeWhile_eq_take_P_nth) (use assms in auto)
  with assms(1) show ?thesis by simp
qed

lemma unresolved_0_iff: "unresolved outs = 0 \<longleftrightarrow> (\<forall>i < length outs. outs ! i \<noteq> None)"
  by (auto simp: unresolved_def filter_empty_conv in_set_conv_nth)

lemma unresolved_update:
  "i < length outs \<Longrightarrow> outs ! i = None \<Longrightarrow> int (unresolved (outs[i := Some out])) = int (unresolved outs) - 1"
proof -
  assume i: "i < length outs" "outs ! i = None"
  let ?f = "\<lambda>xs. length (filter (\<lambda>r. r = None) xs)"
  have "?f outs = ?f (take i outs) + 1 + ?f (drop (Suc i) outs)"
    using i by (subst id_take_nth_drop [OF i(1)]) simp
  moreover have "?f (outs[i := Some out]) = ?f (take i outs) + ?f (drop (Suc i) outs)"
    using i by (simp add: upd_conv_take_nth_drop)
  ultimately show ?thesis by (simp add: unresolved_def)
qed

lemma verdict_at:
  assumes "length (takeWhile good outs) = k" "k < length outs"
  shows "verdict outs = (case outs ! k of None \<Rightarrow> None | Some out \<Rightarrow> Some (so_err out))"
  using assms by (simp add: verdict_def Let_def)

lemma scan_loop_decides:
  assumes "length (bw_completed w) = length outs" "length (bw_errs w) = length outs" "0 < length outs"
    and "\<And>j. j < length outs \<Longrightarrow> bw_completed w ! j \<longleftrightarrow> outs ! j \<noteq> None"
    and "\<And>j out. j < length outs \<Longrightarrow> outs ! j = Some out \<Longrightarrow> bw_errs w ! j = so_err out"
    and "bw_scan w \<le> length outs" "\<And>j. j < bw_scan w \<Longrightarrow> good (outs ! j)"
    and "\<not> bw_closed w" "bw_terminalErr w = None" "bw_remaining w = int (unresolved outs)"
  shows "scan_loop w = w\<lparr>bw_scan := length (takeWhile good outs), bw_closed := (verdict outs \<noteq> None),
    bw_terminalErr := (case verdict outs of None \<Rightarrow> None | Some e \<Rightarrow> e)\<rparr>"
  using assms
proof (induction w rule: scan_loop.induct)
  case (1 w)
  show ?case
  proof (cases "bw_scan w < length outs \<and> bw_completed w ! bw_scan w")
    case True
    then obtain out where out: "outs ! bw_scan w = Some out" using "1.prems"(4) by auto
    then have err: "bw_errs w ! bw_scan w = so_err out" using True "1.prems"(5) by blast
    show ?thesis
    proof (cases "so_err out")
      case None
      have "scan_loop (w\<lparr>bw_scan := bw_scan w + 1\<rparr>) = (w\<lparr>bw_scan := bw_scan w + 1\<rparr>)
          \<lparr>bw_scan := length (takeWhile good outs), bw_closed := (verdict outs \<noteq> None),
           bw_terminalErr := (case verdict outs of None \<Rightarrow> None | Some e \<Rightarrow> e)\<rparr>"
        by (rule "1.IH") (use "1.prems" True None out err in \<open>auto simp: good_def less_Suc_eq\<close>)
      with True None err "1.prems"(1) show ?thesis by (simp add: scan_loop.simps [of w])
    next
      case (Some e)
      have "length (takeWhile good outs) = bw_scan w"
        by (rule length_takeWhile_eq) (use "1.prems" out Some in \<open>auto simp: good_def\<close>)
      with True Some err out "1.prems"(1,9) show ?thesis
        by (simp add: scan_loop.simps [of w] verdict_at)
    qed
  next
    case False
    then have k: "length (takeWhile good outs) = bw_scan w"
      using "1.prems"(4,6,7) by (intro length_takeWhile_eq) (auto simp: good_def)
    show ?thesis
    proof (cases "bw_scan w < length outs")
      case True
      with False have none: "outs ! bw_scan w = None" using "1.prems"(4) by blast
      with True have "unresolved outs \<noteq> 0" unfolding unresolved_0_iff by blast
      with False True none k "1.prems"(1,8,9,10) show ?thesis
        by (simp add: scan_loop.simps [of w] verdict_at)
    next
      case all: False
      then have eq: "bw_scan w = length outs" using "1.prems"(6) by simp
      then have "outs ! j \<noteq> None" if "j < length outs" for j
        using "1.prems"(7) [of j] that eq by (metis good_None)
      then have "unresolved outs = 0" by (simp add: unresolved_0_iff)
      with eq k "1.prems"(1,8,9,10) show ?thesis
        by (simp add: scan_loop.simps [of w] verdict_def)
    qed
  qed
qed

lemma waiter_abs_new:
  assumes "0 < n"
  shows "waiter_abs (newSendBatchWaiter n) (replicate n None)"
proof -
  have k: "length (takeWhile good (replicate n None)) = 0" using assms by (cases n) simp_all
  with assms have "verdict (replicate n None) = None" by (simp add: verdict_at)
  with k show ?thesis by (simp add: waiter_abs_def newSendBatchWaiter_def unresolved_def)
qed

text \<open>The prefix that decides is complete, so a late outcome does not touch it.\<close>

lemma good_prefix: "j < length (takeWhile good outs) \<Longrightarrow> good (outs ! j)"
  by (metis nth_mem set_takeWhileD takeWhile_nth)

lemma verdict_all_good:
  assumes "verdict outs = Some None" "i < length outs"
  shows "good (outs ! i)"
proof (cases "length (takeWhile good outs) = length outs")
  case True
  with assms(2) show ?thesis by (intro good_prefix) simp
next
  case False
  then have k: "length (takeWhile good outs) < length outs"
    using length_takeWhile_le [of good outs] by simp
  then have "good (outs ! length (takeWhile good outs))"
    using assms(1) by (auto simp: verdict_at [OF refl k] good_def split: option.splits)
  with nth_length_takeWhile [OF k] show ?thesis by simp
qed

lemma verdict_late:
  assumes "length (takeWhile good outs) = k" "k < length outs" "outs ! k \<noteq> None" "i < length outs" "outs ! i = None"
  shows "length (takeWhile good (outs[i := Some out])) = k \<and> verdict (outs[i := Some out]) = verdict outs"
proof -
  have "good (outs ! j)" if "j < k" for j
    using assms(1) that by (metis nth_mem set_takeWhileD takeWhile_nth)
  moreover from this have "\<not> i < k" using assms(5) by (metis good_None)
  moreover have "\<not> good (outs ! k)" using assms(1,2) by (metis nth_length_takeWhile)
  moreover have "i \<noteq> k" using assms(3,5) by blast
  ultimately have "length (takeWhile good (outs[i := Some out])) = k"
    using assms(2) by (intro length_takeWhile_eq) (auto simp: nth_list_update)
  with assms \<open>i \<noteq> k\<close> show ?thesis by (simp add: verdict_at nth_list_update)
qed

lemma complete_refines:
  assumes abs: "waiter_abs w outs" and pos: "0 < length outs"
  shows "waiter_abs (complete w i out) (record_first outs i out)"
proof -
  let ?outs = "outs[i := Some out]"
  have len: "length (bw_completed w) = length outs" "length (bw_results w) = length outs"
      "length (bw_errs w) = length outs"
    and comp: "\<And>i. i < length outs \<Longrightarrow> bw_completed w ! i \<longleftrightarrow> outs ! i \<noteq> None"
    and rem: "bw_remaining w = int (unresolved outs)"
    and scan: "bw_scan w = length (takeWhile good outs)"
    and cl: "bw_closed w \<longleftrightarrow> verdict outs \<noteq> None"
    and tm: "bw_terminalErr w = (case verdict outs of None \<Rightarrow> None | Some e \<Rightarrow> e)"
    and res: "\<And>i out. i < length outs \<Longrightarrow> bw_terminalErr w = None \<or> i \<le> bw_scan w \<Longrightarrow> outs ! i = Some out \<Longrightarrow>
      bw_results w ! i = so_result out \<and> bw_errs w ! i = so_err out"
    and ret: "\<not> bw_returned w"
    using abs by (auto simp: waiter_abs_def)
  show ?thesis
  proof (cases "i < length outs \<and> outs ! i = None")
    case False
    with len comp abs show ?thesis by (auto simp: complete_def record_first_def)
  next
    case True
    then have i: "i < length outs" "outs ! i = None" "\<not> bw_completed w ! i" using comp by auto
    have rem': "bw_remaining w - 1 = int (unresolved ?outs)"
      using i rem unresolved_update [of i outs out] by simp
    show ?thesis
    proof (cases "bw_closed w \<and> bw_terminalErr w \<noteq> None")
      case True
      then have v: "verdict outs \<noteq> None" "verdict outs \<noteq> Some None" using cl tm by auto
      have k: "bw_scan w < length outs" "outs ! bw_scan w \<noteq> None"
        using v scan length_takeWhile_le [of good outs]
        by (auto simp: verdict_def Let_def le_less split: if_splits option.splits)
      note late = verdict_late [OF scan [symmetric] k i(1,2), of out]
      have "\<not> i \<le> bw_scan w" using k i scan good_prefix [of i outs] by (auto simp: le_less)
      then have "i \<noteq> bw_scan w" by simp
      have "waiter_abs (w\<lparr>bw_completed := (bw_completed w)[i := True], bw_remaining := bw_remaining w - 1\<rparr>) ?outs"
        using len comp rem' cl tm res ret late scan i True \<open>\<not> i \<le> bw_scan w\<close>
        by (auto simp: waiter_abs_def nth_list_update split: option.splits)
      with True len i show ?thesis by (simp add: complete_def record_first_def)
    next
      case undecided: False
      have nv: "verdict outs = None"
      proof (rule ccontr)
        assume "verdict outs \<noteq> None"
        with undecided cl tm have "verdict outs = Some None" by (auto split: option.splits)
        then have "good (outs ! i)" using i(1) by (rule verdict_all_good)
        with i(2) show False by simp
      qed
      let ?w = "w\<lparr>bw_results := (bw_results w)[i := so_result out], bw_errs := (bw_errs w)[i := so_err out],
          bw_completed := (bw_completed w)[i := True], bw_remaining := bw_remaining w - 1\<rparr>"
      have closed: "\<not> bw_closed w" "bw_terminalErr w = None" using nv cl tm by auto
      have pre: "good (?outs ! j)" if "j < bw_scan w" for j
      proof -
        have "good (outs ! j)" using that scan by (metis nth_mem set_takeWhileD takeWhile_nth)
        moreover from this have "j \<noteq> i" using i(2) by auto
        ultimately show ?thesis by simp
      qed
      have le: "bw_scan w \<le> length outs" using scan length_takeWhile_le by metis
      have "scan_loop ?w = ?w\<lparr>bw_scan := length (takeWhile good ?outs), bw_closed := (verdict ?outs \<noteq> None),
          bw_terminalErr := (case verdict ?outs of None \<Rightarrow> None | Some e \<Rightarrow> e)\<rparr>"
        by (rule scan_loop_decides)
          (use len comp rem' closed pre le pos i res in \<open>auto simp: nth_list_update split: if_splits\<close>)
      moreover have "complete w i out = scan_loop ?w"
        using i len ret closed by (simp add: complete_def Let_def)
      ultimately show ?thesis
        using len comp rem' closed res i ret True
        by (auto simp: waiter_abs_def record_first_def nth_list_update split: if_splits)
    qed
  qed
qed

text \<open>A batch of \<open>n\<close> messages after some completions, and the outcomes they stand for.\<close>

definition run_completions :: "nat \<Rightarrow> (nat \<times> sendOutcome) list \<Rightarrow> sendBatchWaiter" where
  "run_completions n evs = fold (\<lambda>(i, out) w. complete w i out) evs (newSendBatchWaiter n)"

definition first_outcomes :: "nat \<Rightarrow> (nat \<times> sendOutcome) list \<Rightarrow> sendOutcome option list" where
  "first_outcomes n evs = fold (\<lambda>(i, out) outs. record_first outs i out) evs (replicate n None)"

lemma fold_refines:
  "waiter_abs w outs \<Longrightarrow> 0 < length outs \<Longrightarrow>
    waiter_abs (fold (\<lambda>(i, out) w. complete w i out) evs w) (fold (\<lambda>(i, out) outs. record_first outs i out) evs outs)"
proof (induction evs arbitrary: w outs)
  case (Cons ev evs)
  obtain i out where ev: "ev = (i, out)" by (cases ev)
  have "length (record_first outs i out) = length outs" by (simp add: record_first_def)
  with Cons.prems(2) have "0 < length (record_first outs i out)" by simp
  from Cons.IH [OF complete_refines [OF Cons.prems] this] show ?case by (simp add: ev)
qed simp

lemma waiter_refines: "0 < n \<Longrightarrow> waiter_abs (run_completions n evs) (first_outcomes n evs)"
  unfolding run_completions_def first_outcomes_def by (intro fold_refines waiter_abs_new) simp_all

lemma waiter_decides:
  assumes "0 < n" "out = first_outcomes n evs ! i" "i \<le> length (takeWhile good (first_outcomes n evs))"
    "i < n" "out = Some r"
  shows "bw_results (run_completions n evs) ! i = so_result r"
proof -
  have l: "length (fold (\<lambda>(i, out) outs. record_first outs i out) evs xs) = length xs" for xs
    by (induction evs arbitrary: xs) (auto simp: record_first_def)
  have "length (first_outcomes n evs) = n" by (simp add: first_outcomes_def l)
  with waiter_refines [OF assms(1), of evs] assms show ?thesis by (auto simp: waiter_abs_def)
qed

text \<open>
  \<open>SendBatch\<close> waits as long as the outcome is open and returns with the first error in the order
  of the messages as soon as all messages before it have succeeded, or without error when all have;
  in whatever order, and however often, the acknowledgements, expiries and failures complete the
  messages. The results up to the deciding message are those of their first outcomes.
\<close>

lemma batch_waiter:
  assumes "0 < n"
  shows "let w = run_completions n evs; outs = first_outcomes n evs
    in wait w None = map_option (\<lambda>e. (w\<lparr>bw_returned := True\<rparr>, bw_results w, e)) (verdict outs)
      \<and> (\<forall>i < n. \<forall>out. i \<le> length (takeWhile good outs) \<longrightarrow> outs ! i = Some out \<longrightarrow>
           bw_results w ! i = so_result out)"
proof -
  have "waiter_abs (run_completions n evs) (first_outcomes n evs)" using assms by (rule waiter_refines)
  then have "wait (run_completions n evs) None = map_option
      (\<lambda>e. ((run_completions n evs)\<lparr>bw_returned := True\<rparr>, bw_results (run_completions n evs), e))
      (verdict (first_outcomes n evs))"
    by (auto simp: waiter_abs_def wait_def split: option.splits)
  with waiter_decides [OF assms] show ?thesis by (simp add: Let_def)
qed

theorem batch_waiter_witness:
  "let out = (\<lambda>e. \<lparr>so_result = zero_SendResult, so_err = e\<rparr>);
       evs = [(2, out (Some ErrAckTimeout)), (1, out (Some ErrClientClosed)), (0, out None)]
   in wait (run_completions 3 (take 2 evs)) None = None
     \<and> (\<exists>w. wait (run_completions 3 evs) None = Some (w, bw_results w, Some ErrClientClosed))"
  using batch_waiter [of 3 "[(2, \<lparr>so_result = zero_SendResult, so_err = Some ErrAckTimeout\<rparr>),
      (1, \<lparr>so_result = zero_SendResult, so_err = Some ErrClientClosed\<rparr>)]"]
    batch_waiter [of 3 "[(2, \<lparr>so_result = zero_SendResult, so_err = Some ErrAckTimeout\<rparr>),
      (1, \<lparr>so_result = zero_SendResult, so_err = Some ErrClientClosed\<rparr>),
      (0, \<lparr>so_result = zero_SendResult, so_err = None\<rparr>)]"]
  by (simp add: first_outcomes_def record_first_def verdict_def good_def eval_nat_numeral Let_def)

section \<open>Every send completes once\<close>

datatype PendOp =
    OpAdd pendingKey Target | OpResolve SendackPacket | OpClose ClientErr | OpFail nat ClientErr

fun pend_step :: "pendingTracker \<Rightarrow> PendOp \<Rightarrow> pendingTracker option" where
  "pend_step t (OpAdd key target) = Some (fst (addWithTarget key target t))"
| "pend_step t (OpResolve ack) = Some (fst (resolve ack t))"
| "pend_step t (OpClose err) = Some (close_tracker err t)"
| "pend_step t (OpFail i err) = Some (fail_entry i err t)"

text \<open>A failure or expiry names an entry that exists.\<close>

fun pend_ok :: "pendingTracker \<Rightarrow> PendOp \<Rightarrow> bool" where
  "pend_ok t (OpFail i err) = (i < length (pt_heap t))"
| "pend_ok t _ = True"

definition waiting :: "pendingTracker \<Rightarrow> nat \<Rightarrow> bool" where
  "waiting t i \<longleftrightarrow> map_of (pt_entries t) (pe_key (pt_heap t ! i)) = Some i"

definition untouched :: "pendingEntry \<Rightarrow> bool" where
  "untouched e \<longleftrightarrow> \<not> pe_once e \<and> pe_sent e = [] \<and> pe_onFinish e = 0"

definition finished_once :: "pendingEntry \<Rightarrow> bool" where
  "finished_once e \<longleftrightarrow> pe_once e \<and> length (pe_sent e) = 1 \<and> pe_onFinish e = 1"

text \<open>The entries in \<open>X\<close> are taken out of the map and about to be finished.\<close>

definition tracker_inv :: "nat set \<Rightarrow> pendingTracker \<Rightarrow> bool" where
  "tracker_inv X t \<longleftrightarrow>
     distinct (map fst (pt_entries t)) \<and> (pt_closed t \<longrightarrow> pt_entries t = [])
     \<and> (\<forall>(k, i) \<in> set (pt_entries t). i < length (pt_heap t) \<and> pe_key (pt_heap t ! i) = k \<and> i \<notin> X)
     \<and> (\<forall>i < length (pt_heap t).
          if i \<in> X \<or> waiting t i then untouched (pt_heap t ! i) else finished_once (pt_heap t ! i))"

lemma tracker_inv_new: "tracker_inv {} (newPendingTracker ws)"
  by (simp add: tracker_inv_def newPendingTracker_def)

lemma tracker_entry:
  "tracker_inv X t \<Longrightarrow> map_of (pt_entries t) k = Some i \<Longrightarrow>
    i < length (pt_heap t) \<and> pe_key (pt_heap t ! i) = k \<and> i \<notin> X \<and> waiting t i"
  by (auto simp: tracker_inv_def waiting_def dest!: map_of_SomeD)

lemma finish_entry_entries [simp]:
  "pt_entries (finish_entry i out t) = pt_entries t" "pt_closed (finish_entry i out t) = pt_closed t"
  "length (pt_heap (finish_entry i out t)) = length (pt_heap t)"
  by (simp_all add: finish_entry_def Let_def split: Target.splits)

lemma finish_entry_heap:
  "i < length (pt_heap t) \<Longrightarrow> untouched (pt_heap t ! i) \<Longrightarrow>
    pt_heap (finish_entry i out t) = (pt_heap t)[i := (pt_heap t ! i)\<lparr>pe_once := True, pe_sent := [out], pe_onFinish := 1\<rparr>]"
  by (simp add: finish_entry_def untouched_def Let_def split: Target.splits)

lemma finish_entry_inv:
  assumes "tracker_inv X t" "i \<in> X" "i < length (pt_heap t)"
  shows "tracker_inv (X - {i}) (finish_entry i out t)"
proof -
  have u: "untouched (pt_heap t ! i)" using assms by (auto simp: tracker_inv_def split: if_splits)
  have "\<not> waiting t i"
    using assms tracker_entry [OF assms(1)] unfolding waiting_def by blast
  moreover have "waiting (finish_entry i out t) j \<longleftrightarrow> waiting t j" if "j < length (pt_heap t)" for j
    using that u assms(3) by (simp add: waiting_def finish_entry_heap nth_list_update)
  ultimately show ?thesis
    using assms u unfolding tracker_inv_def
    by (auto simp: finish_entry_heap nth_list_update finished_once_def split: if_splits)
qed

lemma remove_entry_inv:
  assumes "tracker_inv {} t" "map_of (pt_entries t) k = Some i"
  shows "tracker_inv {i} (t\<lparr>pt_entries := AList.delete k (pt_entries t)\<rparr>)"
proof -
  have i: "i < length (pt_heap t)" "pe_key (pt_heap t ! i) = k" "waiting t i"
    using tracker_entry [OF assms] by auto
  have w: "waiting (t\<lparr>pt_entries := AList.delete k (pt_entries t)\<rparr>) j \<longleftrightarrow> waiting t j \<and> j \<noteq> i" for j
    using i(2,3) by (auto simp: waiting_def)
  have "j \<noteq> i" if "(k', j) \<in> set (AList.delete k (pt_entries t))" for k' j
    using assms(1) that i(2) by (auto simp: tracker_inv_def delete_eq_filter)
  with assms(1) i w show ?thesis
    unfolding tracker_inv_def by (auto simp: delete_eq_filter distinct_keys_filter split: if_splits)
qed

lemma addWithTarget_inv: "tracker_inv {} t \<Longrightarrow> tracker_inv {} (fst (addWithTarget key target t))"
proof -
  assume inv: "tracker_inv {} t"
  show ?thesis
  proof (cases "pt_closed t \<or> map_of (pt_entries t) key \<noteq> None")
    case True
    with inv show ?thesis by (auto simp: addWithTarget_def)
  next
    case False
    let ?t = "fst (addWithTarget key target t)" and ?n = "length (pt_heap t)"
    have t: "\<not> pt_closed t" "pt_closed ?t = pt_closed t" "pt_entries ?t = pt_entries t @ [(key, ?n)]"
      "pt_heap ?t = pt_heap t @ [\<lparr>pe_key = key, pe_target = target, pe_once = False, pe_sent = [], pe_onFinish = 0\<rparr>]"
      using False by (auto simp: addWithTarget_def Let_def map_of_eq_None_iff intro!: update_fresh)
    have fresh: "key \<notin> fst ` set (pt_entries t)" using False by (simp add: map_of_eq_None_iff)
    have w: "waiting ?t j \<longleftrightarrow> waiting t j" if "j < ?n" for j
      using that fresh t by (auto simp: waiting_def map_add_def nth_append split: option.splits)
    have "waiting ?t ?n" using t False by (simp add: waiting_def map_add_def)
    with inv t fresh w show ?thesis
      unfolding tracker_inv_def
      by (auto simp: less_Suc_eq nth_append untouched_def split: if_splits)
  qed
qed

lemma resolve_inv: "tracker_inv {} t \<Longrightarrow> tracker_inv {} (fst (resolve ack t))"
proof -
  assume inv: "tracker_inv {} t"
  have step: "tracker_inv {} (finish_entry i out (t\<lparr>pt_entries := AList.delete k (pt_entries t)\<rparr>))"
    if "map_of (pt_entries t) k = Some i" for k i out
    using finish_entry_inv [OF remove_entry_inv [OF inv that], of i out] tracker_entry [OF inv that] by simp
  show ?thesis
    using inv step by (auto simp: resolve_def take_key_def Let_def split: option.splits)
qed

lemma fail_entry_inv: "tracker_inv {} t \<Longrightarrow> i < length (pt_heap t) \<Longrightarrow> tracker_inv {} (fail_entry i err t)"
  using finish_entry_inv [OF remove_entry_inv, of t _ i i]
  by (auto simp: fail_entry_def takeEntry_def Let_def)

lemma finish_all_inv:
  "tracker_inv (snd ` set es) t \<Longrightarrow> distinct (map snd es) \<Longrightarrow> snd ` set es \<subseteq> {..<length (pt_heap t)} \<Longrightarrow>
    tracker_inv {} (fold (\<lambda>(_, i). finish_entry i out) es t)"
proof (induction es arbitrary: t)
  case (Cons e es)
  obtain k i where e: "e = (k, i)" by (cases e)
  have "tracker_inv (insert i (snd ` set es) - {i}) (finish_entry i out t)"
    using Cons.prems e by (intro finish_entry_inv) auto
  moreover have "insert i (snd ` set es) - {i} = snd ` set es" using Cons.prems(2) e by auto
  ultimately have "tracker_inv (snd ` set es) (finish_entry i out t)" by simp
  then show ?case using Cons e by simp
qed simp

lemma close_tracker_inv: "tracker_inv {} t \<Longrightarrow> tracker_inv {} (close_tracker err t)"
proof -
  assume inv: "tracker_inv {} t"
  show ?thesis
  proof (cases "pt_closed t")
    case True
    with inv show ?thesis by (simp add: close_tracker_def)
  next
    case False
    let ?t = "t\<lparr>pt_closed := True, pt_entries := []\<rparr>" and ?es = "pt_entries t"
    have keys: "k = pe_key (pt_heap t ! i)" "i < length (pt_heap t)" if "(k, i) \<in> set ?es" for k i
      using inv that by (auto simp: tracker_inv_def)
    have "fst p = pe_key (pt_heap t ! snd p)" if "p \<in> set ?es" for p
      using that keys(1) [of "fst p" "snd p"] by simp
    then have "p = q" if "p \<in> set ?es" "q \<in> set ?es" "snd p = snd q" for p q
      using that by (simp add: prod_eq_iff [of p q])
    then have "inj_on snd (set ?es)" by (rule inj_onI)
    moreover have "distinct ?es" using inv by (simp add: tracker_inv_def distinct_map)
    ultimately have "distinct (map snd ?es)" by (simp add: distinct_map)
    moreover have "waiting t i \<longleftrightarrow> i \<in> snd ` set ?es" if "i < length (pt_heap t)" for i
    proof
      assume "waiting t i"
      then show "i \<in> snd ` set ?es" unfolding waiting_def by (metis imageI map_of_SomeD snd_conv)
    next
      assume "i \<in> snd ` set ?es"
      then obtain k where k: "(k, i) \<in> set ?es" by auto
      with inv keys show "waiting t i" by (auto simp: waiting_def tracker_inv_def)
    qed
    then have "tracker_inv (snd ` set ?es) ?t"
      using inv unfolding tracker_inv_def by (auto simp: waiting_def [of ?t] split: if_splits)
    ultimately show ?thesis
      using False keys by (auto simp: close_tracker_def intro!: finish_all_inv)
  qed
qed

interpretation pending: machine pend_step pend_ok "tracker_inv {}"
proof
  fix t op
  assume "tracker_inv {} t" "pend_ok t op"
  then show "\<exists>t'. pend_step t op = Some t' \<and> tracker_inv {} t'"
    by (cases op) (simp_all add: addWithTarget_inv resolve_inv close_tracker_inv fail_entry_inv)
qed

text \<open>
  C7: In any interleaving of admissions, acknowledgements, expiries, failures and the close of the
  session, every admitted send either still waits under its key and has been told nothing, or has
  received exactly one outcome and released its in-flight slot exactly once; after the close no send
  waits.
\<close>

theorem sends_complete_once:
  assumes "run_ok pend_step pend_ok (newPendingTracker ws) ops"
  shows "\<exists>t. run_steps pend_step (newPendingTracker ws) ops = Some t
    \<and> (\<forall>i < length (pt_heap t). let e = pt_heap t ! i in
         if waiting t i then pe_sent e = [] \<and> pe_onFinish e = 0 else length (pe_sent e) = 1 \<and> pe_onFinish e = 1)
    \<and> (pt_closed t \<longrightarrow> (\<forall>i < length (pt_heap t). \<not> waiting t i))"
proof -
  from pending.run_safe [OF tracker_inv_new assms] obtain t
    where t: "run_steps pend_step (newPendingTracker ws) ops = Some t" "tracker_inv {} t"
    by blast
  have "let e = pt_heap t ! i in
      if waiting t i then pe_sent e = [] \<and> pe_onFinish e = 0 else length (pe_sent e) = 1 \<and> pe_onFinish e = 1"
    if "i < length (pt_heap t)" for i
    using t(2) that by (auto simp: tracker_inv_def untouched_def finished_once_def Let_def split: if_splits)
  moreover have "\<not> waiting t i" if "pt_closed t" for i
    using t(2) that by (simp add: tracker_inv_def waiting_def)
  ultimately show ?thesis using t(1) by blast
qed

definition sample_ops :: "PendOp list" where
  "sample_ops = [OpAdd (1, []) ToDone, OpAdd (2, []) ToDone,
     OpResolve \<lparr>sa_Framer = zero_Framer, sa_MessageID = 77, sa_MessageSeq = 5, sa_ClientSeq = 1,
       sa_ClientMsgNo = [97], sa_ReasonCode = 1\<rparr>,
     OpFail 0 ErrAckTimeout, OpClose ErrClientClosed]"

lemma sample_ops_ok: "run_ok pend_step pend_ok (newPendingTracker []) sample_ops"
  by code_simp

theorem sends_complete_once_witness:
  "\<exists>t. run_steps pend_step (newPendingTracker []) sample_ops = Some t
    \<and> map (\<lambda>e. length (pe_sent e)) (pt_heap t) = [1, 1]"
proof -
  have ev: "length (pt_heap (the (run_steps pend_step (newPendingTracker []) sample_ops))) = 2"
    "pt_closed (the (run_steps pend_step (newPendingTracker []) sample_ops))"
    by code_simp+
  from sends_complete_once [OF sample_ops_ok] obtain t
    where t: "run_steps pend_step (newPendingTracker []) sample_ops = Some t"
      "\<forall>i < length (pt_heap t). let e = pt_heap t ! i in
         if waiting t i then pe_sent e = [] \<and> pe_onFinish e = 0 else length (pe_sent e) = 1 \<and> pe_onFinish e = 1"
      "pt_closed t \<longrightarrow> (\<forall>i < length (pt_heap t). \<not> waiting t i)"
    by (elim exE conjE) (rule that)
  have len: "length (pt_heap t) = 2" and closed: "pt_closed t" using ev unfolding t(1) by simp_all
  have one: "length (pe_sent (pt_heap t ! i)) = 1" if "i < 2" for i
    using t(2) [rule_format, of i] t(3) closed len that by (simp add: Let_def)
  obtain a b where "pt_heap t = [a, b]" using len by (auto simp: length_Suc_conv eval_nat_numeral)
  with one [of 0] one [of 1] have "map (\<lambda>e. length (pe_sent e)) (pt_heap t) = [1, 1]" by simp
  with t(1) show ?thesis by (intro exI [of _ t] conjI)
qed

section \<open>The receive queue\<close>

lemma enqueueRecv_step:
  "0 < c \<Longrightarrow> length q \<le> c \<Longrightarrow>
    enqueueRecv True c pkt q = drop (Suc (length q) - c) (q @ [pkt])"
  by (cases q) (auto simp: enqueueRecv_def Let_def Suc_diff_le)

lemma enqueueRecv_newest:
  "0 < c \<Longrightarrow> fold (enqueueRecv True c) pkts [] = drop (length pkts - c) pkts"
proof (induction pkts rule: rev_induct)
  case (snoc p pkts)
  then have "fold (enqueueRecv True c) (pkts @ [p]) [] = enqueueRecv True c p (drop (length pkts - c) pkts)" by simp
  also have "\<dots> = drop (Suc (length pkts) - c) (pkts @ [p])"
    using snoc.prems by (cases "length pkts \<le> c") (subst enqueueRecv_step; simp add: Suc_diff_le)+
  finally show ?case by simp
qed simp

end
