(* ===== verification/ClientReader.thy ===== *)
theory ClientReader
  imports ProtoStream ClientSafety
begin

text \<open>
  The router of the client (\<open>routeInboundFrameWithPending\<close> of \<open>pkg/client/reader.go\<close>) on an open
  connection, plugged into the read loop: acknowledgements go to the pending tracker, messages to the
  bounded receive queue and, when configured, a RECVACK to the write queue, which is skipped when
  full. \<open>decrypt\<close> is the decryption with the keys of the session (the identity without encryption).
\<close>

record ReaderState =
  rs_pending :: pendingTracker
  rs_recvCh :: "RecvPacket list"
  rs_writeCh :: "Frame list"

record ReaderConfig =
  rc_InboundFrameBufferSize :: nat
  rc_SendQueueCapacity :: nat
  rc_AutoRecvAck :: bool

datatype 'e RouteErr = DecryptFailed 'e | Disconnected ReasonCode bytes

text \<open>\<open>writeControlToConn\<close> without waiting.\<close>

definition offer_write :: "ReaderConfig \<Rightarrow> Frame \<Rightarrow> Frame list \<Rightarrow> Frame list" where
  "offer_write cfg f q = (if length q < rc_SendQueueCapacity cfg then q @ [f] else q)"

definition recv_ack :: "RecvPacket \<Rightarrow> Frame" where
  "recv_ack pkt = FRecvack \<lparr>ra_Framer = zero_Framer, ra_MessageID = rp_MessageID pkt, ra_MessageSeq = rp_MessageSeq pkt\<rparr>"

definition routeInbound ::
  "ReaderConfig \<Rightarrow> (RecvPacket \<Rightarrow> 'e + RecvPacket) \<Rightarrow> ReaderState \<Rightarrow> Frame \<Rightarrow> ReaderState \<times> 'e RouteErr option" where
  "routeInbound cfg decrypt s f =
     (case f of
        FSendack ack \<Rightarrow> (s\<lparr>rs_pending := fst (resolve ack (rs_pending s))\<rparr>, None)
      | FRecv pkt \<Rightarrow>
          (case (if IsSet (rp_Setting pkt) SettingNoEncrypt then Inr pkt else decrypt pkt) of
             Inl e \<Rightarrow> (s, Some (DecryptFailed e))
           | Inr pkt \<Rightarrow>
               let s = s\<lparr>rs_recvCh := enqueueRecv True (rc_InboundFrameBufferSize cfg) pkt (rs_recvCh s)\<rparr>
               in (if rc_AutoRecvAck cfg then s\<lparr>rs_writeCh := offer_write cfg (recv_ack pkt) (rs_writeCh s)\<rparr>
                   else s, None))
      | FDisconnect pkt \<Rightarrow> (s, Some (Disconnected (dc_ReasonCode pkt) (dc_Reason pkt)))
      | _ \<Rightarrow> (s, None))"

section \<open>An acknowledgement finds its send\<close>

text \<open>
  The send with the acknowledged sequence and message number, or else the one with the sequence and
  no message number, gets the outcome of the acknowledgement; no other entry changes.
\<close>

lemma resolve_hit:
  assumes "tracker_inv {} t" "map_of (pt_entries t) (sa_ClientSeq ack, sa_ClientMsgNo ack) = Some i"
  shows "snd (resolve ack t) \<and> pe_sent (pt_heap (fst (resolve ack t)) ! i) = [ack_outcome ack]
    \<and> (\<forall>j < length (pt_heap t). j \<noteq> i \<longrightarrow> pt_heap (fst (resolve ack t)) ! j = pt_heap t ! j)"
proof -
  from tracker_entry [OF assms] have i: "i < length (pt_heap t)" "waiting t i" by auto
  then have "untouched (pt_heap t ! i)" using assms(1) by (auto simp: tracker_inv_def)
  with i assms(2) show ?thesis
    by (simp add: resolve_def take_key_def Let_def finish_entry_heap nth_list_update)
qed

lemma resolve_miss:
  "map_of (pt_entries t) (sa_ClientSeq ack, sa_ClientMsgNo ack) = None \<Longrightarrow>
    map_of (pt_entries t) (sa_ClientSeq ack, []) = None \<Longrightarrow> resolve ack t = (t, False)"
  by (simp add: resolve_def take_key_def Let_def)

section \<open>Messages reach the receive queue\<close>

lemma route_recvs:
  assumes "\<And>p. p \<in> set pkts \<Longrightarrow> IsSet (rp_Setting p) SettingNoEncrypt" "\<not> rc_AutoRecvAck cfg"
  shows "route_all (routeInbound cfg decrypt) s (map FRecv pkts) =
    (s\<lparr>rs_recvCh := fold (enqueueRecv True (rc_InboundFrameBufferSize cfg)) pkts (rs_recvCh s)\<rparr>, None)"
  using assms(1) by (induction pkts arbitrary: s) (simp_all add: routeInbound_def assms(2))

end
