(* ===== verification/KeyCodec.thy ===== *)
theory KeyCodec
  imports Bytes
begin

text \<open>
  Ordered storage keys (\<open>pkg/db/internal/keycodec\<close>) and the keys of the message store
  (\<open>pkg/db/message/keys.go\<close>) and of the metadata store (\<open>pkg/db/meta/keys.go\<close>). A key is built by
  appending parts; \<open>None\<close> is the panic of a string part that is too long. Keys compare byte by byte,
  which is the order \<open><\<close> on lists.
\<close>

type_synonym key = "u8 list"

text \<open>One call of the builder.\<close>

type_synonym key_part = "key \<Rightarrow> key option"

definition maxStringLen :: nat where "maxStringLen = 2 ^ 16 - 1"

definition DomainMessage :: u8 where "DomainMessage = 0x01"
definition DomainMeta :: u8 where "DomainMeta = 0x02"
definition PartitionGlobal :: u8 where "PartitionGlobal = 0x00"
definition PartitionChannel :: u8 where "PartitionChannel = 0x01"
definition PartitionHashSlot :: u8 where "PartitionHashSlot = 0x02"
definition SpaceRow :: u8 where "SpaceRow = 0x10"
definition SpaceIndex :: u8 where "SpaceIndex = 0x11"
definition SpaceSystem :: u8 where "SpaceSystem = 0x12"
definition SpaceCatalog :: u8 where "SpaceCatalog = 0x13"

lemmas key_consts = DomainMessage_def DomainMeta_def PartitionGlobal_def PartitionChannel_def
  PartitionHashSlot_def SpaceRow_def SpaceIndex_def SpaceSystem_def SpaceCatalog_def

section \<open>Key parts\<close>

definition AppendByte :: "u8 \<Rightarrow> key_part" where
  "AppendByte b dst = Some (dst @ [b])"

definition AppendString :: "u8 list \<Rightarrow> key_part" where
  "AppendString val dst =
     (if maxStringLen < length val then None else Some (dst @ put16 (of_nat (length val)) @ val))"

definition ReadString :: "u8 list \<Rightarrow> (u8 list \<times> u8 list) option" where
  "ReadString src =
     (case get16 src of
        None \<Rightarrow> None
      | Some (n, src) \<Rightarrow> if length src < unat n then None else Some (take (unat n) src, drop (unat n) src))"

definition AppendUint16 :: "u16 \<Rightarrow> key_part" where
  "AppendUint16 val dst = Some (dst @ put16 val)"

definition AppendUint32 :: "u32 \<Rightarrow> key_part" where
  "AppendUint32 val dst = Some (dst @ put32 val)"

definition AppendUint64 :: "u64 \<Rightarrow> key_part" where
  "AppendUint64 val dst = Some (dst @ put64 val)"

text \<open>Signed values are words in two's complement.\<close>

definition AppendInt64Ordered :: "u64 \<Rightarrow> key_part" where
  "AppendInt64Ordered val dst = Some (dst @ put64 (val XOR push_bit 63 1))"

definition AppendInt64Desc :: "u64 \<Rightarrow> key_part" where
  "AppendInt64Desc val dst = Some (dst @ put64 (NOT (val XOR push_bit 63 1)))"

section \<open>The builder\<close>

fun append_parts :: "key_part list \<Rightarrow> key \<Rightarrow> key option" where
  "append_parts [] dst = Some dst"
| "append_parts (p # ps) dst = (case p dst of None \<Rightarrow> None | Some dst' \<Rightarrow> append_parts ps dst')"

definition build :: "key_part list \<Rightarrow> key option" where
  "build ps = append_parts ps []"

text \<open>\<open>Partition\<close> with the identifier that the caller has encoded.\<close>

definition Partition :: "u8 \<Rightarrow> key option \<Rightarrow> key_part" where
  "Partition kind ident dst = map_option (\<lambda>i. dst @ [kind] @ i) ident"

definition Row :: "u32 \<Rightarrow> key_part" where
  "Row tableID = append_parts [AppendByte SpaceRow, AppendUint32 tableID]"

definition Index :: "u32 \<Rightarrow> u16 \<Rightarrow> key_part" where
  "Index tableID indexID = append_parts [AppendByte SpaceIndex, AppendUint32 tableID, AppendUint16 indexID]"

definition System :: "u32 \<Rightarrow> u16 \<Rightarrow> key_part" where
  "System tableID systemID = append_parts [AppendByte SpaceSystem, AppendUint32 tableID, AppendUint16 systemID]"

definition Catalog :: key_part where
  "Catalog = AppendByte SpaceCatalog"

text \<open>More parts behind a key that is built.\<close>

definition with_parts :: "key option \<Rightarrow> key_part list \<Rightarrow> key option" where
  "with_parts k ps = (case k of None \<Rightarrow> None | Some dst \<Rightarrow> append_parts ps dst)"

section \<open>Spans\<close>

record Span =
  span_Start :: key
  span_End :: key

fun prefix_end_loop :: "key \<Rightarrow> nat \<Rightarrow> key" where
  "prefix_end_loop end' 0 = [0xFF]"
| "prefix_end_loop end' (Suc i) =
     (if end' ! i = 0xFF then prefix_end_loop end' i else take (Suc i) (end'[i := end' ! i + 1]))"

definition PrefixEnd :: "key \<Rightarrow> key" where
  "PrefixEnd prefix = prefix_end_loop prefix (length prefix)"

definition NewPrefixSpan :: "key \<Rightarrow> Span" where
  "NewPrefixSpan prefix = \<lparr>span_Start = prefix, span_End = PrefixEnd prefix\<rparr>"

text \<open>The keys an iterator over a span visits.\<close>

definition in_span :: "key \<Rightarrow> Span \<Rightarrow> bool" where
  "in_span k s \<longleftrightarrow> span_Start s \<le> k \<and> k < span_End s"

definition HasPrefix :: "key \<Rightarrow> key \<Rightarrow> bool" where
  "HasPrefix k p \<longleftrightarrow> take (length p) k = p"

section \<open>Keys of the message store\<close>

type_synonym ChannelKeyBytes = "u8 list"

definition TableIDMessage :: u32 where "TableIDMessage = 1"
definition messageIndexIDMessageID :: u16 where "messageIndexIDMessageID = 2"
definition messageIndexIDClientMsgNo :: u16 where "messageIndexIDClientMsgNo = 3"
definition messageIndexIDFromUIDClientMsgNo :: u16 where "messageIndexIDFromUIDClientMsgNo = 4"
definition messageHeaderFamilyID :: u16 where "messageHeaderFamilyID = 0"
definition messagePayloadFamilyID :: u16 where "messagePayloadFamilyID = 1"
definition messageSystemIDCheckpoint :: u16 where "messageSystemIDCheckpoint = 1"
definition messageSystemIDHistory :: u16 where "messageSystemIDHistory = 2"
definition messageSystemIDSnapshot :: u16 where "messageSystemIDSnapshot = 3"
definition messageSystemIDRetention :: u16 where "messageSystemIDRetention = 4"
definition messageSystemIDCursor :: u16 where "messageSystemIDCursor = 5"

definition channelPartitionID :: "ChannelKeyBytes \<Rightarrow> key option" where
  "channelPartitionID ck = AppendString ck []"

definition encodeMessageRowPrefix :: "ChannelKeyBytes \<Rightarrow> key option" where
  "encodeMessageRowPrefix ck =
     build [AppendByte DomainMessage, Partition PartitionChannel (channelPartitionID ck), Row TableIDMessage]"

definition encodeMessageRowKey :: "ChannelKeyBytes \<Rightarrow> u64 \<Rightarrow> u16 \<Rightarrow> key option" where
  "encodeMessageRowKey ck seq familyID =
     build [AppendByte DomainMessage, Partition PartitionChannel (channelPartitionID ck), Row TableIDMessage,
       AppendUint64 seq, AppendUint16 familyID]"

text \<open>The outer option is the panic of the prefix, the inner one the flag \<open>ok\<close>.\<close>

definition decodeMessageRowKey :: "ChannelKeyBytes \<Rightarrow> key \<Rightarrow> (u64 \<times> u16) option option" where
  "decodeMessageRowKey ck k =
     (case encodeMessageRowPrefix ck of
        None \<Rightarrow> None
      | Some p \<Rightarrow> Some (
          if \<not> HasPrefix k p then None
          else
            let rest = drop (length p) k
            in if length rest \<noteq> 10 then None
               else (case get64 (take 8 rest) of
                   None \<Rightarrow> None
                 | Some (seq, _) \<Rightarrow> (case get16 (drop 8 rest) of
                     None \<Rightarrow> None
                   | Some (familyID, _) \<Rightarrow> Some (seq, familyID)))))"

definition encodeMessageIndexPrefix :: "ChannelKeyBytes \<Rightarrow> u16 \<Rightarrow> key option" where
  "encodeMessageIndexPrefix ck indexID =
     build [AppendByte DomainMessage, Partition PartitionChannel (channelPartitionID ck),
       Index TableIDMessage indexID]"

definition encodeMessageIDIndexKey :: "ChannelKeyBytes \<Rightarrow> u64 \<Rightarrow> key option" where
  "encodeMessageIDIndexKey ck messageID =
     with_parts (encodeMessageIndexPrefix ck messageIndexIDMessageID) [AppendUint64 messageID]"

definition encodeMessageClientMsgNoIndexPrefix :: "ChannelKeyBytes \<Rightarrow> u8 list \<Rightarrow> key option" where
  "encodeMessageClientMsgNoIndexPrefix ck clientMsgNo =
     with_parts (encodeMessageIndexPrefix ck messageIndexIDClientMsgNo) [AppendString clientMsgNo]"

definition encodeMessageClientMsgNoIndexKey :: "ChannelKeyBytes \<Rightarrow> u8 list \<Rightarrow> u64 \<Rightarrow> key option" where
  "encodeMessageClientMsgNoIndexKey ck clientMsgNo seq =
     with_parts (encodeMessageClientMsgNoIndexPrefix ck clientMsgNo) [AppendUint64 seq]"

definition decodeMessageClientMsgNoIndexSeq :: "ChannelKeyBytes \<Rightarrow> u8 list \<Rightarrow> key \<Rightarrow> u64 option option" where
  "decodeMessageClientMsgNoIndexSeq ck clientMsgNo k =
     (case encodeMessageClientMsgNoIndexPrefix ck clientMsgNo of
        None \<Rightarrow> None
      | Some p \<Rightarrow> Some (
          if \<not> HasPrefix k p then None
          else
            let rest = drop (length p) k
            in if length rest \<noteq> 8 then None else map_option fst (get64 rest)))"

definition encodeMessageIdempotencyIndexKey :: "ChannelKeyBytes \<Rightarrow> u8 list \<Rightarrow> u8 list \<Rightarrow> key option" where
  "encodeMessageIdempotencyIndexKey ck fromUID clientMsgNo =
     with_parts (encodeMessageIndexPrefix ck messageIndexIDFromUIDClientMsgNo)
       [AppendString fromUID, AppendString clientMsgNo]"

definition encodeMessageSystemPrefix :: "ChannelKeyBytes \<Rightarrow> u16 \<Rightarrow> key option" where
  "encodeMessageSystemPrefix ck systemID =
     build [AppendByte DomainMessage, Partition PartitionChannel (channelPartitionID ck),
       System TableIDMessage systemID]"

definition encodeRetentionStateKey :: "ChannelKeyBytes \<Rightarrow> key option" where
  "encodeRetentionStateKey ck = encodeMessageSystemPrefix ck messageSystemIDRetention"

definition encodeCommittedCursorKey :: "ChannelKeyBytes \<Rightarrow> u8 list \<Rightarrow> key option" where
  "encodeCommittedCursorKey ck name =
     with_parts (encodeMessageSystemPrefix ck messageSystemIDCursor) [AppendString name]"

definition encodeCheckpointKey :: "ChannelKeyBytes \<Rightarrow> key option" where
  "encodeCheckpointKey ck = encodeMessageSystemPrefix ck messageSystemIDCheckpoint"

definition encodeHistoryPrefix :: "ChannelKeyBytes \<Rightarrow> key option" where
  "encodeHistoryPrefix ck = encodeMessageSystemPrefix ck messageSystemIDHistory"

definition encodeHistoryOffsetKey :: "ChannelKeyBytes \<Rightarrow> u64 \<Rightarrow> key option" where
  "encodeHistoryOffsetKey ck startOffset = with_parts (encodeHistoryPrefix ck) [AppendUint64 startOffset]"

definition encodeHistoryPointKey :: "ChannelKeyBytes \<Rightarrow> u64 \<Rightarrow> u64 \<Rightarrow> key option" where
  "encodeHistoryPointKey ck startOffset epoch =
     with_parts (encodeHistoryOffsetKey ck startOffset) [AppendUint64 epoch]"

definition encodeSnapshotKey :: "ChannelKeyBytes \<Rightarrow> key option" where
  "encodeSnapshotKey ck = encodeMessageSystemPrefix ck messageSystemIDSnapshot"

definition encodeCatalogPrefix :: "key option" where
  "encodeCatalogPrefix = build [AppendByte DomainMessage, Partition PartitionGlobal (Some []), Catalog]"

definition encodeCatalogKey :: "ChannelKeyBytes \<Rightarrow> key option" where
  "encodeCatalogKey ck = with_parts encodeCatalogPrefix [AppendString ck]"

definition decodeCatalogKey :: "key \<Rightarrow> ChannelKeyBytes option option" where
  "decodeCatalogKey k =
     (case encodeCatalogPrefix of
        None \<Rightarrow> None
      | Some p \<Rightarrow> Some (
          if \<not> HasPrefix k p then None
          else (case ReadString (drop (length p) k) of
              None \<Rightarrow> None
            | Some (val, rest) \<Rightarrow> if rest \<noteq> [] then None else Some val)))"

end
