(* ===== verification/MetaKeys.thy ===== *)
theory MetaKeys
  imports KeyCodec
begin

text \<open>
  The keys of the metadata store (\<open>pkg/db/meta/keys.go\<close>): everything of a hash slot lies under the
  slot's partition, rows and indexes under their table.
\<close>

type_synonym HashSlot = u16

definition TableIDUser :: u32 where "TableIDUser = 1"
definition TableIDChannel :: u32 where "TableIDChannel = 2"
definition TableIDChannelRuntimeMeta :: u32 where "TableIDChannelRuntimeMeta = 3"
definition TableIDSubscriber :: u32 where "TableIDSubscriber = 5"
definition TableIDConversation :: u32 where "TableIDConversation = 6"
definition TableIDPluginBinding :: u32 where "TableIDPluginBinding = 8"
definition TableIDChannelMigration :: u32 where "TableIDChannelMigration = 9"
definition TableIDHashSlotMigration :: u32 where "TableIDHashSlotMigration = 10"
definition channelIDIndexID :: u16 where "channelIDIndexID = 2"
definition conversationActiveIndexID :: u16 where "conversationActiveIndexID = 2"
definition pluginBindingPluginIndexID :: u16 where "pluginBindingPluginIndexID = 2"
definition channelMigrationActiveIndexID :: u16 where "channelMigrationActiveIndexID = 2"
definition channelMigrationTerminalIndexID :: u16 where "channelMigrationTerminalIndexID = 3"
definition hashSlotMigrationRecordState :: u8 where "hashSlotMigrationRecordState = 1"
definition hashSlotMigrationRecordAppliedDelta :: u8 where "hashSlotMigrationRecordAppliedDelta = 2"
definition hashSlotMigrationRecordOutbox :: u8 where "hashSlotMigrationRecordOutbox = 3"

section \<open>Prefixes\<close>

definition hashSlotPartitionID :: "HashSlot \<Rightarrow> key option" where
  "hashSlotPartitionID hs = AppendUint16 hs []"

definition encodeHashSlotSpacePrefix :: "HashSlot \<Rightarrow> u8 \<Rightarrow> key option" where
  "encodeHashSlotSpacePrefix hs space =
     with_parts (build [AppendByte DomainMeta, Partition PartitionHashSlot (hashSlotPartitionID hs)])
       [AppendByte space]"

definition encodeRowPrefix :: "HashSlot \<Rightarrow> u32 \<Rightarrow> key option" where
  "encodeRowPrefix hs tableID =
     build [AppendByte DomainMeta, Partition PartitionHashSlot (hashSlotPartitionID hs), Row tableID]"

definition encodeIndexPrefix :: "HashSlot \<Rightarrow> u32 \<Rightarrow> u16 \<Rightarrow> key option" where
  "encodeIndexPrefix hs tableID indexID =
     build [AppendByte DomainMeta, Partition PartitionHashSlot (hashSlotPartitionID hs), Index tableID indexID]"

definition encodeSystemPrefix :: "HashSlot \<Rightarrow> u16 \<Rightarrow> key option" where
  "encodeSystemPrefix hs systemID =
     build [AppendByte DomainMeta, Partition PartitionHashSlot (hashSlotPartitionID hs), System 0 systemID]"

section \<open>Rows and indexes\<close>

definition encodeUserRowKey :: "HashSlot \<Rightarrow> u8 list \<Rightarrow> u16 \<Rightarrow> key option" where
  "encodeUserRowKey hs uid familyID =
     with_parts (encodeRowPrefix hs TableIDUser) [AppendString uid, AppendUint16 familyID]"

definition encodeChannelRowKey :: "HashSlot \<Rightarrow> u8 list \<Rightarrow> u64 \<Rightarrow> u16 \<Rightarrow> key option" where
  "encodeChannelRowKey hs channelID channelType familyID =
     with_parts (encodeRowPrefix hs TableIDChannel)
       [AppendString channelID, AppendInt64Ordered channelType, AppendUint16 familyID]"

definition encodeChannelRuntimeMetaRowPrefix :: "HashSlot \<Rightarrow> key option" where
  "encodeChannelRuntimeMetaRowPrefix hs = encodeRowPrefix hs TableIDChannelRuntimeMeta"

definition encodeChannelRuntimeMetaRowKey :: "HashSlot \<Rightarrow> u8 list \<Rightarrow> u64 \<Rightarrow> u16 \<Rightarrow> key option" where
  "encodeChannelRuntimeMetaRowKey hs channelID channelType familyID =
     with_parts (encodeChannelRuntimeMetaRowPrefix hs)
       [AppendString channelID, AppendInt64Ordered channelType, AppendUint16 familyID]"

definition encodeSubscriberRowPrefix :: "HashSlot \<Rightarrow> u8 list \<Rightarrow> u64 \<Rightarrow> key option" where
  "encodeSubscriberRowPrefix hs channelID channelType =
     with_parts (encodeRowPrefix hs TableIDSubscriber) [AppendString channelID, AppendInt64Ordered channelType]"

definition encodeSubscriberRowKey :: "HashSlot \<Rightarrow> u8 list \<Rightarrow> u64 \<Rightarrow> u8 list \<Rightarrow> u16 \<Rightarrow> key option" where
  "encodeSubscriberRowKey hs channelID channelType uid familyID =
     with_parts (encodeSubscriberRowPrefix hs channelID channelType) [AppendString uid, AppendUint16 familyID]"

definition encodeConversationRowPrefix :: "HashSlot \<Rightarrow> u8 list \<Rightarrow> u64 \<Rightarrow> key option" where
  "encodeConversationRowPrefix hs uid kind =
     with_parts (encodeRowPrefix hs TableIDConversation) [AppendString uid, AppendUint64 kind]"

definition encodeConversationRowKey ::
  "HashSlot \<Rightarrow> u8 list \<Rightarrow> u64 \<Rightarrow> u8 list \<Rightarrow> u64 \<Rightarrow> u16 \<Rightarrow> key option" where
  "encodeConversationRowKey hs uid kind channelID channelType familyID =
     with_parts (encodeConversationRowPrefix hs uid kind)
       [AppendString channelID, AppendInt64Ordered channelType, AppendUint16 familyID]"

definition encodeConversationActiveIndexPrefix :: "HashSlot \<Rightarrow> u8 list \<Rightarrow> u64 \<Rightarrow> key option" where
  "encodeConversationActiveIndexPrefix hs uid kind =
     with_parts (encodeIndexPrefix hs TableIDConversation conversationActiveIndexID)
       [AppendString uid, AppendUint64 kind]"

definition encodeConversationActiveIndexKey ::
  "HashSlot \<Rightarrow> u8 list \<Rightarrow> u64 \<Rightarrow> u64 \<Rightarrow> u8 list \<Rightarrow> u64 \<Rightarrow> key option" where
  "encodeConversationActiveIndexKey hs uid kind activeAt channelID channelType =
     with_parts (encodeConversationActiveIndexPrefix hs uid kind)
       [AppendInt64Desc activeAt, AppendString channelID, AppendInt64Ordered channelType]"

definition encodePluginBindingRowPrefix :: "HashSlot \<Rightarrow> u8 list \<Rightarrow> key option" where
  "encodePluginBindingRowPrefix hs uid = with_parts (encodeRowPrefix hs TableIDPluginBinding) [AppendString uid]"

definition encodePluginBindingRowKey :: "HashSlot \<Rightarrow> u8 list \<Rightarrow> u8 list \<Rightarrow> u16 \<Rightarrow> key option" where
  "encodePluginBindingRowKey hs uid pluginNo familyID =
     with_parts (encodePluginBindingRowPrefix hs uid) [AppendString pluginNo, AppendUint16 familyID]"

definition encodePluginBindingPluginIndexPrefix :: "HashSlot \<Rightarrow> u8 list \<Rightarrow> key option" where
  "encodePluginBindingPluginIndexPrefix hs pluginNo =
     with_parts (encodeIndexPrefix hs TableIDPluginBinding pluginBindingPluginIndexID) [AppendString pluginNo]"

definition encodePluginBindingPluginIndexKey :: "HashSlot \<Rightarrow> u8 list \<Rightarrow> u8 list \<Rightarrow> key option" where
  "encodePluginBindingPluginIndexKey hs pluginNo uid =
     with_parts (encodePluginBindingPluginIndexPrefix hs pluginNo) [AppendString uid]"

definition encodeHashSlotMigrationRowPrefix :: "HashSlot \<Rightarrow> key option" where
  "encodeHashSlotMigrationRowPrefix hs = encodeRowPrefix hs TableIDHashSlotMigration"

definition encodeHashSlotMigrationStateKey :: "HashSlot \<Rightarrow> key option" where
  "encodeHashSlotMigrationStateKey hs =
     with_parts (encodeHashSlotMigrationRowPrefix hs) [AppendByte hashSlotMigrationRecordState]"

definition encodeAppliedHashSlotDeltaPrefix :: "HashSlot \<Rightarrow> key option" where
  "encodeAppliedHashSlotDeltaPrefix hs =
     with_parts (encodeHashSlotMigrationRowPrefix hs) [AppendByte hashSlotMigrationRecordAppliedDelta]"

definition encodeAppliedHashSlotDeltaKey :: "HashSlot \<Rightarrow> u64 \<Rightarrow> u64 \<Rightarrow> key option" where
  "encodeAppliedHashSlotDeltaKey hs sourceSlot sourceIndex =
     with_parts (encodeAppliedHashSlotDeltaPrefix hs) [AppendUint64 sourceSlot, AppendUint64 sourceIndex]"

definition encodeHashSlotMigrationOutboxHashSlotPrefix :: "HashSlot \<Rightarrow> key option" where
  "encodeHashSlotMigrationOutboxHashSlotPrefix hs =
     with_parts (encodeHashSlotMigrationRowPrefix hs) [AppendByte hashSlotMigrationRecordOutbox]"

definition encodeHashSlotMigrationOutboxPrefix :: "HashSlot \<Rightarrow> u64 \<Rightarrow> u64 \<Rightarrow> key option" where
  "encodeHashSlotMigrationOutboxPrefix hs sourceSlot targetSlot =
     with_parts (encodeHashSlotMigrationOutboxHashSlotPrefix hs) [AppendUint64 sourceSlot, AppendUint64 targetSlot]"

definition encodeHashSlotMigrationOutboxKey :: "HashSlot \<Rightarrow> u64 \<Rightarrow> u64 \<Rightarrow> u64 \<Rightarrow> key option" where
  "encodeHashSlotMigrationOutboxKey hs sourceSlot targetSlot sourceIndex =
     with_parts (encodeHashSlotMigrationOutboxPrefix hs sourceSlot targetSlot) [AppendUint64 sourceIndex]"

definition encodeChannelMigrationRowPrefix :: "HashSlot \<Rightarrow> key option" where
  "encodeChannelMigrationRowPrefix hs = encodeRowPrefix hs TableIDChannelMigration"

definition encodeChannelMigrationTaskRowKey :: "HashSlot \<Rightarrow> u8 list \<Rightarrow> u64 \<Rightarrow> u8 list \<Rightarrow> u16 \<Rightarrow> key option" where
  "encodeChannelMigrationTaskRowKey hs channelID channelType taskID familyID =
     with_parts (encodeChannelMigrationRowPrefix hs)
       [AppendString channelID, AppendInt64Ordered channelType, AppendString taskID, AppendUint16 familyID]"

definition encodeChannelMigrationActiveIndexKey :: "HashSlot \<Rightarrow> u8 list \<Rightarrow> u64 \<Rightarrow> key option" where
  "encodeChannelMigrationActiveIndexKey hs channelID channelType =
     with_parts (encodeIndexPrefix hs TableIDChannelMigration channelMigrationActiveIndexID)
       [AppendString channelID, AppendInt64Ordered channelType]"

definition encodeChannelMigrationTerminalIndexPrefix :: "HashSlot \<Rightarrow> key option" where
  "encodeChannelMigrationTerminalIndexPrefix hs =
     encodeIndexPrefix hs TableIDChannelMigration channelMigrationTerminalIndexID"

definition encodeChannelMigrationTerminalIndexKey ::
  "HashSlot \<Rightarrow> u64 \<Rightarrow> u8 list \<Rightarrow> u64 \<Rightarrow> u8 list \<Rightarrow> key option" where
  "encodeChannelMigrationTerminalIndexKey hs completedAtMS channelID channelType taskID =
     with_parts (encodeChannelMigrationTerminalIndexPrefix hs)
       [AppendInt64Ordered completedAtMS, AppendString channelID, AppendInt64Ordered channelType, AppendString taskID]"

definition encodeChannelIDIndexPrefix :: "HashSlot \<Rightarrow> u8 list \<Rightarrow> key option" where
  "encodeChannelIDIndexPrefix hs channelID =
     with_parts (encodeIndexPrefix hs TableIDChannel channelIDIndexID) [AppendString channelID]"

definition encodeChannelIDIndexKey :: "HashSlot \<Rightarrow> u8 list \<Rightarrow> u64 \<Rightarrow> key option" where
  "encodeChannelIDIndexKey hs channelID channelType =
     with_parts (encodeChannelIDIndexPrefix hs channelID) [AppendInt64Ordered channelType]"

definition encodeActiveIndexKey :: "HashSlot \<Rightarrow> u32 \<Rightarrow> u16 \<Rightarrow> u64 \<Rightarrow> u8 list list \<Rightarrow> key option" where
  "encodeActiveIndexKey hs tableID indexID activeAt parts =
     with_parts (encodeIndexPrefix hs tableID indexID) (AppendInt64Desc activeAt # map AppendString parts)"

definition encodeHashSlotSystemKey :: "HashSlot \<Rightarrow> u16 \<Rightarrow> key option" where
  "encodeHashSlotSystemKey hs systemID = encodeSystemPrefix hs systemID"

section \<open>Spans\<close>

definition prefixSpan :: "key option \<Rightarrow> Span option" where
  "prefixSpan p = map_option NewPrefixSpan p"

definition hashSlotRowSpan :: "HashSlot \<Rightarrow> Span option" where
  "hashSlotRowSpan hs = prefixSpan (encodeHashSlotSpacePrefix hs SpaceRow)"

definition hashSlotIndexSpan :: "HashSlot \<Rightarrow> Span option" where
  "hashSlotIndexSpan hs = prefixSpan (encodeHashSlotSpacePrefix hs SpaceIndex)"

definition hashSlotSystemSpan :: "HashSlot \<Rightarrow> Span option" where
  "hashSlotSystemSpan hs = prefixSpan (encodeHashSlotSpacePrefix hs SpaceSystem)"

end
