(* ===== verification/KeySafety.thy ===== *)
theory KeySafety
  imports MetaKeys
begin

text \<open>
  What the storage relies on in its keys: a prefix span holds exactly the keys with the prefix, the
  rows of a channel lie together in the order of their sequence and family, keys read back, and the
  time-ordered indexes sort newest first.
\<close>

section \<open>Prefix spans\<close>

lemma HasPrefix_append [simp]: "HasPrefix (p @ r) p"
  by (simp add: HasPrefix_def)

lemma HasPrefix_iff: "HasPrefix k p \<longleftrightarrow> (\<exists>r. k = p @ r)"
  unfolding HasPrefix_def by (metis append_eq_conv_conj append_take_drop_id)

lemma HasPrefix_same [simp]: "HasPrefix (q @ k) (q @ p) \<longleftrightarrow> HasPrefix k p"
  by (auto simp: HasPrefix_iff)

lemma le_append_same [simp]: "(q @ a \<le> q @ b) \<longleftrightarrow> (a \<le> (b :: u8 list))" "(q @ a < q @ b) \<longleftrightarrow> (a < b)"
  by (induction q) auto

lemma max_byte: "\<not> (0xFF :: u8) < b"
proof -
  have "unat b < 2 ^ LENGTH(8)" by (rule unsigned_less)
  then show ?thesis by (simp add: word_less_nat_alt)
qed

lemma replicate_le: "replicate n 0xFF \<le> k \<longleftrightarrow> HasPrefix k (replicate n (0xFF :: u8))"
proof (induction n arbitrary: k)
  case (Suc n)
  then show ?case using max_byte by (cases k) (auto simp: HasPrefix_def)
qed (simp add: HasPrefix_def)

lemma PrefixEnd_split:
  assumes "b \<noteq> 0xFF"
  shows "PrefixEnd (q @ b # replicate n 0xFF) = q @ [b + 1]"
proof -
  have "prefix_end_loop (q @ b # replicate n 0xFF) (Suc (length q) + m) = q @ [b + 1]" if "m \<le> n" for m
    using that
  proof (induction m)
    case 0
    with assms show ?case by (simp add: nth_append)
  next
    case (Suc m)
    then have "(q @ b # replicate n 0xFF) ! (Suc (length q) + m) = 0xFF" by (simp add: nth_append)
    with Suc show ?case by simp
  qed
  from this [of n] show ?thesis by (simp add: PrefixEnd_def)
qed

lemma last_below_max:
  assumes "\<exists>b \<in> set p. b \<noteq> (0xFF :: u8)"
  obtains q b n where "p = q @ b # replicate n 0xFF" "b \<noteq> 0xFF"
proof -
  from split_list_last_prop [OF assms] obtain q b r where *: "p = q @ b # r" "b \<noteq> 0xFF" "\<forall>x \<in> set r. \<not> x \<noteq> 0xFF"
    by blast
  then have "r = replicate (length r) 0xFF" by (metis replicate_length_same)
  with * that show ?thesis by metis
qed

lemma less_next_byte: "b \<noteq> 0xFF \<Longrightarrow> c < b + 1 \<longleftrightarrow> c \<le> (b :: u8)"
proof -
  assume "b \<noteq> 0xFF"
  then have "unat b \<noteq> 255" by (simp add: word_unat_eq_iff)
  moreover have "unat b < 2 ^ LENGTH(8)" by (rule unsigned_less)
  ultimately have "unat (b + 1) = unat b + 1" by (simp add: unat_word_ariths)
  then show ?thesis by (simp add: word_less_nat_alt word_le_nat_alt less_Suc_eq_le)
qed

lemma span_exact:
  assumes "\<exists>b \<in> set p. b \<noteq> 0xFF"
  shows "in_span k (NewPrefixSpan p) \<longleftrightarrow> HasPrefix k p"
proof -
  from assms obtain q b n where p: "p = q @ b # replicate n 0xFF" and b: "b \<noteq> 0xFF"
    by (rule last_below_max)
  have "q @ b # replicate n 0xFF \<le> k \<and> k < q @ [b + 1] \<longleftrightarrow> HasPrefix k (q @ b # replicate n 0xFF)"
  proof (induction q arbitrary: k)
    case Nil
    show ?case
    proof (cases k)
      case (Cons c k')
      have "b # replicate n 0xFF \<le> c # k' \<and> c # k' < [b + 1] \<longleftrightarrow> b = c \<and> replicate n 0xFF \<le> k'"
        using less_next_byte [OF b, of c] by auto
      with Cons show ?thesis by (simp add: replicate_le) (auto simp: HasPrefix_def)
    qed (simp add: HasPrefix_def)
  next
    case (Cons a q)
    show ?case
    proof (cases k)
      case Nil
      then show ?thesis by (simp add: HasPrefix_def)
    next
      case (Cons c k')
      with Cons.IH [of k'] show ?thesis by (auto simp: HasPrefix_def)
    qed
  qed
  with p b show ?thesis by (simp add: in_span_def NewPrefixSpan_def PrefixEnd_split)
qed

text \<open>A prefix of bytes 0xFF only has no such bound: the span then misses keys.\<close>

lemma span_all_max: "in_span [0xFF, 0xFF] (NewPrefixSpan [0xFF]) = False"
  by (simp add: in_span_def NewPrefixSpan_def PrefixEnd_def)

section \<open>Keys of a channel\<close>

lemmas build_simps = build_def with_parts_def Partition_def Row_def Index_def System_def Catalog_def
  AppendByte_def AppendUint16_def AppendUint32_def AppendUint64_def AppendInt64Ordered_def
  AppendInt64Desc_def

definition channel_bytes :: "ChannelKeyBytes \<Rightarrow> key" where
  "channel_bytes ck = put16 (of_nat (length ck)) @ ck"

definition row_tail :: "u64 \<Rightarrow> u16 \<Rightarrow> key" where
  "row_tail seq fam = put64 seq @ put16 fam"

definition row_head :: "ChannelKeyBytes \<Rightarrow> key" where
  "row_head ck = DomainMessage # PartitionChannel # channel_bytes ck @ SpaceRow # put32 TableIDMessage"

lemma channelPartitionID_some:
  "length ck \<le> maxStringLen \<Longrightarrow> channelPartitionID ck = Some (channel_bytes ck)"
  by (simp add: channelPartitionID_def AppendString_def channel_bytes_def)

lemma row_prefix: "length ck \<le> maxStringLen \<Longrightarrow> encodeMessageRowPrefix ck = Some (row_head ck)"
  by (simp add: encodeMessageRowPrefix_def build_simps channelPartitionID_some row_head_def)

lemma row_key: "length ck \<le> maxStringLen \<Longrightarrow> encodeMessageRowKey ck seq fam = Some (row_head ck @ row_tail seq fam)"
  by (simp add: encodeMessageRowKey_def build_simps channelPartitionID_some row_head_def row_tail_def)

lemma channel_bytes_prefix:
  assumes "length ck \<le> maxStringLen" "length ck' \<le> maxStringLen"
    and "channel_bytes ck @ r = channel_bytes ck' @ r'"
  shows "ck = ck' \<and> r = r'"
proof -
  from be16.put_inject [of _ "ck @ r" _ "ck' @ r'"] assms(3)
  have "of_nat (length ck) = (of_nat (length ck') :: u16)" and *: "ck @ r = ck' @ r'"
    by (simp_all add: channel_bytes_def)
  then have "length ck = length ck'"
    using assms(1,2) by (simp add: maxStringLen_def word_unat_eq_iff unsigned_of_nat take_bit_nat_eq_self)
  with * show ?thesis by simp
qed

lemma row_head_prefix:
  assumes "length ck \<le> maxStringLen" "length ck' \<le> maxStringLen"
  shows "HasPrefix (row_head ck' @ r) (row_head ck) \<longleftrightarrow> ck' = ck"
proof
  assume "HasPrefix (row_head ck' @ r) (row_head ck)"
  then obtain s where "row_head ck' @ r = row_head ck @ s" by (auto simp: HasPrefix_iff)
  then have "channel_bytes ck' @ (SpaceRow # put32 TableIDMessage @ r)
      = channel_bytes ck @ (SpaceRow # put32 TableIDMessage @ s)" by (simp add: row_head_def)
  from channel_bytes_prefix [OF assms(2,1) this] show "ck' = ck" by simp
qed simp

lemma row_head_below_max: "\<exists>b \<in> set (row_head ck). b \<noteq> 0xFF"
  by (simp add: row_head_def key_consts)

lemma row_tail_le: "row_tail s f \<le> row_tail s' f' \<longleftrightarrow> s < s' \<or> s = s' \<and> f \<le> f'"
proof -
  have inj: "put64 a = put64 b \<Longrightarrow> a = b" for a b using be64.put_inject [of a "[]" b "[]"] by simp
  have inj': "put16 a = put16 b \<Longrightarrow> a = b" for a b using be16.put_inject [of a "[]" b "[]"] by simp
  have "row_tail s f < row_tail s' f' \<longleftrightarrow> s < s' \<or> s = s' \<and> f < f'"
    using inj by (auto simp: row_tail_def list_less_append put64_less put16_less)
  moreover have "row_tail s f = row_tail s' f' \<longleftrightarrow> s = s' \<and> f = f'"
    using inj inj' by (auto simp: row_tail_def)
  ultimately show ?thesis by (auto simp: order_le_less)
qed


section \<open>Scanning the messages of a channel\<close>

lemma scan_bounds:
  assumes "length ck \<le> maxStringLen" "length ck' \<le> maxStringLen"
  shows "row_head ck @ row_tail from messageHeaderFamilyID \<le> row_head ck' @ row_tail seq fam \<and>
      row_head ck' @ row_tail seq fam < PrefixEnd (row_head ck) \<longleftrightarrow> ck' = ck \<and> from \<le> seq"
proof -
  let ?k = "row_head ck' @ row_tail seq fam"
  have below: "row_head ck \<le> row_head ck @ r" for r
    using le_append_same [of "row_head ck" "[]" r] by simp
  have "row_head ck \<le> ?k \<and> ?k < PrefixEnd (row_head ck) \<longleftrightarrow> ck' = ck"
    using span_exact [OF row_head_below_max, of ?k ck] row_head_prefix [OF assms]
    by (simp add: in_span_def NewPrefixSpan_def)
  moreover have "row_head ck \<le> ?k" if "row_head ck @ row_tail from messageHeaderFamilyID \<le> ?k"
    using below that by (rule order_trans)
  moreover have "row_head ck @ row_tail from messageHeaderFamilyID \<le> row_head ck @ row_tail seq fam \<longleftrightarrow> from \<le> seq"
    by (auto simp: row_tail_le messageHeaderFamilyID_def)
  ultimately show ?thesis by metis
qed

lemma row_key_decodes:
  assumes "length ck \<le> maxStringLen" "length ck' \<le> maxStringLen"
  shows "decodeMessageRowKey ck (row_head ck' @ row_tail seq fam) = Some (if ck' = ck then Some (seq, fam) else None)"
proof -
  have "get64 (take 8 (row_tail seq fam)) = Some (seq, [])" "get16 (drop 8 (row_tail seq fam)) = Some (fam, [])"
    using be64.get_put [of seq "[]"] be16.get_put [of fam "[]"] by (simp_all add: row_tail_def)
  moreover have "length (row_tail seq fam) = 10" by (simp add: row_tail_def)
  ultimately show ?thesis
    using assms by (simp add: decodeMessageRowKey_def row_prefix row_head_prefix Let_def)
qed

lemma with_some: "channelPartitionID ck = Some i \<Longrightarrow> length ck \<le> maxStringLen"
  by (simp add: channelPartitionID_def AppendString_def split: if_splits)

lemma row_key_some: "encodeMessageRowKey ck seq fam = Some k \<Longrightarrow>
    length ck \<le> maxStringLen \<and> k = row_head ck @ row_tail seq fam"
proof -
  assume a: "encodeMessageRowKey ck seq fam = Some k"
  then obtain i where "channelPartitionID ck = Some i"
    by (auto simp: encodeMessageRowKey_def build_simps split: option.splits)
  then have "length ck \<le> maxStringLen" by (rule with_some)
  with a show ?thesis by (simp add: row_key)
qed

text \<open>
  C33: a read of a channel from a sequence visits exactly that channel's rows of this sequence and
  later. The iterator's bounds are the header key of the first sequence and the end of the channel's
  row prefix, as \<open>read.go\<close> sets them; for the row key of any channel, sequence and
  column family, the key is between the bounds iff the channel is the one read and the sequence is
  not before the first one, so no other channel's rows (whatever its name) are seen and none of its own is
  missed. Decoding a visited key gives the sequence and the family, and fails on another channel's
  key.
\<close>

theorem message_scan:
  assumes "encodeMessageRowPrefix ck = Some p"
    and "encodeMessageRowKey ck from messageHeaderFamilyID = Some lo"
    and "encodeMessageRowKey ck' seq fam = Some k"
  shows "(in_span k \<lparr>span_Start = lo, span_End = span_End (NewPrefixSpan p)\<rparr> \<longleftrightarrow> ck' = ck \<and> from \<le> seq)
    \<and> decodeMessageRowKey ck k = Some (if ck' = ck then Some (seq, fam) else None)"
proof -
  have ck: "length ck \<le> maxStringLen" and lo: "lo = row_head ck @ row_tail from messageHeaderFamilyID"
    using row_key_some [OF assms(2)] by auto
  have ck': "length ck' \<le> maxStringLen" and k: "k = row_head ck' @ row_tail seq fam"
    using row_key_some [OF assms(3)] by auto
  have "p = row_head ck" using assms(1) by (simp add: row_prefix ck)
  then show ?thesis
    using scan_bounds [OF ck ck'] row_key_decodes [OF ck ck'] by (simp add: in_span_def NewPrefixSpan_def lo k)
qed

lemma message_scan_witness:
  "in_span (the (encodeMessageRowKey [97] 7 1)) \<lparr>span_Start = the (encodeMessageRowKey [97] 5 0),
      span_End = PrefixEnd (the (encodeMessageRowPrefix [97]))\<rparr>
   \<and> \<not> in_span (the (encodeMessageRowKey [97, 98] 7 1)) \<lparr>span_Start = the (encodeMessageRowKey [97] 5 0),
      span_End = PrefixEnd (the (encodeMessageRowPrefix [97]))\<rparr>"
proof -
  have "length [97 :: u8] \<le> maxStringLen" "length [97, 98 :: u8] \<le> maxStringLen" by (simp_all add: maxStringLen_def)
  then show ?thesis
    using message_scan [of "[97]" _ 5 _ "[97]" 7 1] message_scan [of "[97]" _ 5 _ "[97, 98]" 7 1]
    by (simp add: row_prefix row_key messageHeaderFamilyID_def NewPrefixSpan_def)
qed

section \<open>The rows of a hash slot\<close>

definition slot_head :: "HashSlot \<Rightarrow> u8 \<Rightarrow> key" where
  "slot_head hs space = DomainMeta # PartitionHashSlot # put16 hs @ [space]"

lemma slot_space_prefix: "encodeHashSlotSpacePrefix hs space = Some (slot_head hs space)"
  by (simp add: encodeHashSlotSpacePrefix_def build_simps hashSlotPartitionID_def slot_head_def)

lemma slot_row_prefix: "encodeRowPrefix hs t = Some (slot_head hs SpaceRow @ put32 t)"
  by (simp add: encodeRowPrefix_def build_simps hashSlotPartitionID_def slot_head_def)

lemma slot_index_prefix: "encodeIndexPrefix hs t i = Some (slot_head hs SpaceIndex @ put32 t @ put16 i)"
  by (simp add: encodeIndexPrefix_def build_simps hashSlotPartitionID_def slot_head_def)

lemma slot_head_prefix: "HasPrefix (slot_head hs' sp' @ r) (slot_head hs sp) \<longleftrightarrow> hs' = hs \<and> sp' = sp"
proof
  assume "HasPrefix (slot_head hs' sp' @ r) (slot_head hs sp)"
  then obtain s where "slot_head hs' sp' @ r = slot_head hs sp @ s" by (auto simp: HasPrefix_iff)
  then have "put16 hs' @ (sp' # r) = put16 hs @ (sp # s)" by (simp add: slot_head_def)
  then show "hs' = hs \<and> sp' = sp" using be16.put_inject [of hs' "sp' # r" hs "sp # s"] by simp
qed simp

lemma slot_span: "in_span (slot_head hs' sp' @ r) (NewPrefixSpan (slot_head hs sp)) \<longleftrightarrow> hs' = hs \<and> sp' = sp"
  by (subst span_exact) (simp_all add: slot_head_prefix, simp add: slot_head_def key_consts)

text \<open>A snapshot of a slot takes its rows and indexes and no other slot's.\<close>

lemma hashSlotRowSpan_rows:
  "in_span (slot_head hs' SpaceRow @ put32 t @ r) (the (hashSlotRowSpan hs)) \<longleftrightarrow> hs' = hs"
  "\<not> in_span (slot_head hs' SpaceIndex @ r) (the (hashSlotRowSpan hs))"
  by (simp_all add: hashSlotRowSpan_def prefixSpan_def slot_space_prefix slot_span key_consts)

section \<open>Ordered and descending integers\<close>

lemma xor_top:
  fixes v t :: u64
  assumes bit_t: "\<And>n. bit t n \<longleftrightarrow> n = 63" and top: "t + t = 0"
  shows "v XOR t = v + t"
proof (cases "bit v 63")
  case True
  have "v XOR t = v AND NOT t" by (rule bit_word_eqI) (use True in \<open>auto simp: bit_simps bit_t\<close>)
  also have "\<dots> = (v AND NOT t) + t + t" by (simp add: add.assoc top)
  also have "(v AND NOT t) + t = (v AND NOT t) OR t"
    by (rule disjunctive_add) (auto simp: bit_simps)
  also have "\<dots> = v" by (rule bit_word_eqI) (use True in \<open>auto simp: bit_simps bit_t\<close>)
  finally show ?thesis .
next
  case False
  have "v XOR t = v OR t" by (rule bit_word_eqI) (use False in \<open>auto simp: bit_simps bit_t\<close>)
  also have "\<dots> = v + t" by (rule disjunctive_add [symmetric]) (use False in \<open>auto simp: bit_t\<close>)
  finally show ?thesis .
qed

lemma uint_flip: "uint (v XOR push_bit 63 1 :: u64) = sint v + 2 ^ 63"
proof -
  have *: "v XOR push_bit 63 1 = v + push_bit 63 1"
  proof (rule xor_top)
    show "bit (push_bit 63 (1 :: u64)) n \<longleftrightarrow> n = 63" for n
      unfolding bit_push_bit_iff bit_1_iff by auto
  qed simp
  have "sint v = signed_take_bit 63 (uint v)" by (simp add: sint_uint)
  also have "\<dots> = take_bit 64 (uint v + 2 ^ 63) - 2 ^ 63"
    by (subst signed_take_bit_eq_take_bit_shift) simp
  finally show ?thesis unfolding * by (simp add: uint_word_ariths take_bit_eq_mod)
qed

lemma not_less_word: "NOT x < NOT y \<longleftrightarrow> y < (x :: u64)"
proof -
  have "take_bit 64 (uint v) = uint v" for v :: u64 by (rule bintr_uint) simp
  then show ?thesis by (simp add: word_less_def unsigned_not_eq take_bit_not_eq_mask_diff)
qed

lemma ordered_int: "put64 (v XOR push_bit 63 1) < put64 (w XOR push_bit 63 1) \<longleftrightarrow> sint v < sint w"
  unfolding put64_less word_less_def uint_flip by simp

lemma desc_int: "put64 (NOT (v XOR push_bit 63 1)) < put64 (NOT (w XOR push_bit 63 1)) \<longleftrightarrow> sint w < sint v"
  unfolding put64_less not_less_word unfolding word_less_def uint_flip by simp

text \<open>The active conversations of a user are listed latest first.\<close>

lemma active_index_newest_first:
  assumes "encodeConversationActiveIndexKey hs uid kind t ch ty = Some k"
    and "encodeConversationActiveIndexKey hs uid kind t' ch' ty' = Some k'"
    and "sint t' < sint t"
  shows "k < k'"
proof -
  obtain p where p: "encodeConversationActiveIndexPrefix hs uid kind = Some p"
    using assms(1) by (auto simp: encodeConversationActiveIndexKey_def with_parts_def split: option.splits)
  obtain r r' where "k = p @ put64 (NOT (t XOR push_bit 63 1)) @ r" "k' = p @ put64 (NOT (t' XOR push_bit 63 1)) @ r'"
    using assms(1,2) by (auto simp: encodeConversationActiveIndexKey_def p with_parts_def AppendInt64Desc_def
        AppendInt64Ordered_def AppendString_def split: if_splits)
  moreover have "put64 (NOT (t XOR push_bit 63 1)) < put64 (NOT (t' XOR push_bit 63 1))"
    using assms(3) unfolding desc_int .
  ultimately show ?thesis by (simp only: le_append_same list_less_append length_put simp_thms)
qed

end
