(* ===== verification/RowCodec.thy ===== *)
theory RowCodec
  imports Varint
begin

text \<open>
  The value side of the store (\<open>pkg/db/internal/rowcodec\<close>): a row family is a list of columns with
  ascending ids, each a tag with the distance from the previous id and a typed value; a stored
  value is an envelope around such a payload, with a CRC-32C over key, header and payload. Byte
  strings of Go (\<open>string\<close>, \<open>[]byte\<close>) are byte lists, signed integers are words in two's
  complement. The nil scanner is not modelled.
\<close>

datatype db_error = DBErrInvalidArgument | DBErrNotFound | DBErrAlreadyExists | DBErrConflict | DBErrCorruptValue | DBErrCorruptState
  | DBErrChecksumMismatch | DBErrCommit | DBPanic

text \<open>A key whose encoding panics.\<close>

definition key_or_panic :: "'a option \<Rightarrow> db_error + 'a" where
  "key_or_panic k = (case k of None \<Rightarrow> Inl DBPanic | Some k \<Rightarrow> Inr k)"

definition check_error :: "db_error option \<Rightarrow> db_error + unit" where
  "check_error e = (case e of Some e \<Rightarrow> Inl e | None \<Rightarrow> Inr ())"

section \<open>The writer\<close>

type_synonym ColumnType = u8

definition TypeString :: ColumnType where "TypeString = 0x01"
definition TypeBytes :: ColumnType where "TypeBytes = 0x02"
definition TypeInt64 :: ColumnType where "TypeInt64 = 0x03"
definition TypeUint64 :: ColumnType where "TypeUint64 = 0x04"
definition TypeBool :: ColumnType where "TypeBool = 0x05"
definition TypeUint8 :: ColumnType where "TypeUint8 = 0x06"

lemmas column_types = TypeString_def TypeBytes_def TypeInt64_def TypeUint64_def TypeBool_def TypeUint8_def

record Writer =
  wr_buf :: "u8 list"
  wr_last :: u16

definition WriterReset :: "Writer \<Rightarrow> Writer" where
  "WriterReset w = w\<lparr>wr_buf := [], wr_last := 0\<rparr>"

definition WriterBytes :: "Writer \<Rightarrow> u8 list" where
  "WriterBytes w = wr_buf w"

definition appendUvarint :: "u8 list \<Rightarrow> u64 \<Rightarrow> u8 list" where
  "appendUvarint dst val = dst @ put_uvarint val"

definition readUvarint :: "u8 list \<Rightarrow> (u64 \<times> u8 list) option" where
  "readUvarint src = get_uvarint src"

definition begin_column :: "u16 \<Rightarrow> ColumnType \<Rightarrow> Writer \<Rightarrow> db_error + Writer" where
  "begin_column columnID typ w =
     (if columnID \<le> wr_last w then Inl DBErrInvalidArgument
      else
        let delta = columnID - wr_last w
        in if delta = 0 then Inl DBErrInvalidArgument
           else Inr (w\<lparr>
             wr_buf := (if delta \<le> 15 then wr_buf w @ [ucast (push_bit 4 delta) OR typ]
                        else appendUvarint (wr_buf w @ [typ]) (ucast delta)),
             wr_last := columnID\<rparr>))"

definition then_write :: "db_error + Writer \<Rightarrow> (u8 list \<Rightarrow> u8 list) \<Rightarrow> db_error + Writer" where
  "then_write r f = map_sum (\<lambda>e. e) (\<lambda>w. w\<lparr>wr_buf := f (wr_buf w)\<rparr>) r"

definition WriterString :: "u16 \<Rightarrow> u8 list \<Rightarrow> Writer \<Rightarrow> db_error + Writer" where
  "WriterString columnID val w =
     then_write (begin_column columnID TypeString w) (\<lambda>buf. appendUvarint buf (of_nat (length val)) @ val)"

definition WriterRawBytes :: "u16 \<Rightarrow> u8 list \<Rightarrow> Writer \<Rightarrow> db_error + Writer" where
  "WriterRawBytes columnID val w =
     then_write (begin_column columnID TypeBytes w) (\<lambda>buf. appendUvarint buf (of_nat (length val)) @ val)"

definition WriterInt64 :: "u16 \<Rightarrow> u64 \<Rightarrow> Writer \<Rightarrow> db_error + Writer" where
  "WriterInt64 columnID val w =
     then_write (begin_column columnID TypeInt64 w) (\<lambda>buf. appendUvarint buf (encodeZigZagInt64 val))"

definition WriterUint64 :: "u16 \<Rightarrow> u64 \<Rightarrow> Writer \<Rightarrow> db_error + Writer" where
  "WriterUint64 columnID val w =
     then_write (begin_column columnID TypeUint64 w) (\<lambda>buf. appendUvarint buf val)"

definition WriterBool :: "u16 \<Rightarrow> bool \<Rightarrow> Writer \<Rightarrow> db_error + Writer" where
  "WriterBool columnID val w =
     then_write (begin_column columnID TypeBool w) (\<lambda>buf. if val then buf @ [1] else buf @ [0])"

definition WriterUint8 :: "u16 \<Rightarrow> u8 \<Rightarrow> Writer \<Rightarrow> db_error + Writer" where
  "WriterUint8 columnID val w =
     then_write (begin_column columnID TypeUint8 w) (\<lambda>buf. buf @ [val])"

section \<open>The scanner\<close>

record Scanner =
  sc_data :: "u8 list"
  sc_columnID :: u16
  sc_typ :: ColumnType
  sc_bytes :: "u8 list"
  sc_u64 :: u64
  sc_boolVal :: bool
  sc_u8 :: u8
  sc_err :: "db_error option"
  sc_ok :: bool

definition NewScanner :: "u8 list \<Rightarrow> Scanner" where
  "NewScanner payload =
     \<lparr>sc_data = payload, sc_columnID = 0, sc_typ = 0, sc_bytes = [], sc_u64 = 0, sc_boolVal = False,
      sc_u8 = 0, sc_err = None, sc_ok = False\<rparr>"

definition readValue :: "Scanner \<Rightarrow> Scanner \<times> bool" where
  "readValue s =
     (let corrupt = (s\<lparr>sc_err := Some DBErrCorruptValue\<rparr>, False)
      in if sc_typ s = TypeString \<or> sc_typ s = TypeBytes then
           (case readUvarint (sc_data s) of
              None \<Rightarrow> corrupt
            | Some (len, rest) \<Rightarrow>
                if length rest < unat len then corrupt
                else (s\<lparr>sc_bytes := take (unat len) rest, sc_data := drop (unat len) rest\<rparr>, True))
         else if sc_typ s = TypeInt64 \<or> sc_typ s = TypeUint64 then
           (case readUvarint (sc_data s) of
              None \<Rightarrow> corrupt
            | Some (val, rest) \<Rightarrow> (s\<lparr>sc_u64 := val, sc_data := rest\<rparr>, True))
         else if sc_typ s = TypeBool then
           (case sc_data s of
              [] \<Rightarrow> corrupt
            | b # rest \<Rightarrow> (s\<lparr>sc_boolVal := b \<noteq> 0, sc_data := rest\<rparr>, True))
         else if sc_typ s = TypeUint8 then
           (case sc_data s of
              [] \<Rightarrow> corrupt
            | b # rest \<Rightarrow> (s\<lparr>sc_u8 := b, sc_data := rest\<rparr>, True))
         else corrupt)"

definition step_column :: "u16 \<Rightarrow> Scanner \<Rightarrow> Scanner \<times> bool" where
  "step_column delta s =
     (let (s, ok) = readValue (s\<lparr>sc_columnID := sc_columnID s + delta\<rparr>)
      in (s\<lparr>sc_ok := ok\<rparr>, ok))"

definition NextColumn :: "Scanner \<Rightarrow> Scanner \<times> bool" where
  "NextColumn s =
     (if sc_err s \<noteq> None \<or> sc_data s = [] then (s\<lparr>sc_ok := False\<rparr>, False)
      else
        let s = s\<lparr>sc_ok := False, sc_bytes := [], sc_u64 := 0, sc_boolVal := False, sc_u8 := 0\<rparr>;
            tag = hd (sc_data s);
            s = s\<lparr>sc_data := tl (sc_data s)\<rparr>;
            delta = ucast (drop_bit 4 tag) :: u16;
            s = s\<lparr>sc_typ := tag AND 0x0f\<rparr>
        in if delta = 0 then
             (case readUvarint (sc_data s) of
                None \<Rightarrow> (s\<lparr>sc_err := Some DBErrCorruptValue\<rparr>, False)
              | Some (ext, rest) \<Rightarrow>
                  if ext = 0 \<or> 0xFFFF < ext then (s\<lparr>sc_err := Some DBErrCorruptValue\<rparr>, False)
                  else step_column (ucast ext) (s\<lparr>sc_data := rest\<rparr>))
           else step_column delta s)"

definition require :: "ColumnType \<Rightarrow> Scanner \<Rightarrow> 'a \<Rightarrow> db_error + 'a" where
  "require typ s val =
     (if \<not> sc_ok s then Inl DBErrCorruptValue
      else if sc_typ s \<noteq> typ then Inl DBErrCorruptValue
      else Inr val)"

definition ScanString :: "Scanner \<Rightarrow> db_error + u8 list" where
  "ScanString s = require TypeString s (sc_bytes s)"

definition ScanBytes :: "Scanner \<Rightarrow> db_error + u8 list" where
  "ScanBytes s = require TypeBytes s (sc_bytes s)"

definition ScanInt64 :: "Scanner \<Rightarrow> db_error + u64" where
  "ScanInt64 s = require TypeInt64 s (decodeZigZagInt64 (sc_u64 s))"

definition ScanUint64 :: "Scanner \<Rightarrow> db_error + u64" where
  "ScanUint64 s = require TypeUint64 s (sc_u64 s)"

definition ScanBool :: "Scanner \<Rightarrow> db_error + bool" where
  "ScanBool s = require TypeBool s (sc_boolVal s)"

definition ScanUint8 :: "Scanner \<Rightarrow> db_error + u8" where
  "ScanUint8 s = require TypeUint8 s (sc_u8 s)"

section \<open>The envelope\<close>

definition CodecColumns :: u8 where "CodecColumns = 0x01"
definition CodecRaw :: u8 where "CodecRaw = 0x02"
definition CodecFixed :: u8 where "CodecFixed = 0x03"
definition FlagChecksum :: u8 where "FlagChecksum = 1"

record Envelope =
  ev_Version :: u8
  ev_Codec :: u8
  ev_Flags :: u8
  ev_Payload :: "u8 list"

definition envelopeHeaderLen :: nat where "envelopeHeaderLen = 7"

definition EnvelopeLen :: "nat \<Rightarrow> nat" where
  "EnvelopeLen payloadLen = envelopeHeaderLen + payloadLen"

text \<open>\<open>crc32.Update(crc, crc32cTable, bs)\<close>, with Castagnoli's polynomial.\<close>

definition crc32c_step :: "u32 \<Rightarrow> u8 \<Rightarrow> u32" where
  "crc32c_step c b = crc32_bits 0x82F63B78 8 (c XOR ucast b)"

definition crc32c_update :: "u32 \<Rightarrow> u8 list \<Rightarrow> u32" where
  "crc32c_update crc bs = NOT (foldl crc32c_step (NOT crc) bs)"

definition envelopeChecksum :: "u8 list \<Rightarrow> u8 list \<Rightarrow> u32" where
  "envelopeChecksum key val =
     (let crc = crc32c_update 0 key;
          crc = crc32c_update crc (take 3 val);
          crc = crc32c_update crc [0, 0, 0, 0];
          crc = crc32c_update crc (drop envelopeHeaderLen val)
      in if crc = 0 then 1 else crc)"

definition WrapTo ::
  "u8 list \<Rightarrow> u8 list \<Rightarrow> u8 \<Rightarrow> u8 \<Rightarrow> u8 \<Rightarrow> u8 list \<Rightarrow> db_error + u8 list" where
  "WrapTo dst key version cdc flags payload =
     (if length dst \<noteq> EnvelopeLen (length payload) then Inl DBErrInvalidArgument
      else
        let dst = dst[0 := version, 1 := cdc, 2 := flags, 3 := 0, 4 := 0, 5 := 0, 6 := 0];
            dst = take envelopeHeaderLen dst @ payload
        in if flags AND FlagChecksum \<noteq> 0 then
             let crc = envelopeChecksum key dst
             in Inr (take 3 dst @ put32 crc @ drop 7 dst)
           else Inr dst)"

text \<open>\<open>Wrap\<close> panics where \<open>WrapTo\<close> fails, which it cannot (\<open>Wrap_total\<close>).\<close>

definition Wrap :: "u8 list \<Rightarrow> u8 \<Rightarrow> u8 \<Rightarrow> u8 \<Rightarrow> u8 list \<Rightarrow> db_error + u8 list" where
  "Wrap key version cdc flags payload =
     WrapTo (replicate (EnvelopeLen (length payload)) 0) key version cdc flags payload"

definition Unwrap :: "u8 list \<Rightarrow> u8 list \<Rightarrow> db_error + Envelope" where
  "Unwrap key val =
     (if length val < envelopeHeaderLen then Inl DBErrCorruptValue
      else
        let flags = val ! 2;
            want = (of_nat (be_val (take 4 (drop 3 val))) :: u32)
        in if flags AND FlagChecksum \<noteq> 0 \<and> envelopeChecksum key val \<noteq> want
           then Inl DBErrChecksumMismatch
           else Inr \<lparr>ev_Version = val ! 0, ev_Codec = val ! 1, ev_Flags = flags,
                     ev_Payload = drop envelopeHeaderLen val\<rparr>)"

end
