(* ===== verification/RowSafety.thy ===== *)
theory RowSafety
  imports RowCodec
begin

text \<open>
  What the storage relies on in its values: a family read back gives the columns written, and on any
  input the scan ends.
\<close>

section \<open>Rows as lists of columns\<close>

datatype Column = StringCol "u8 list" | BytesCol "u8 list" | Int64Col u64 | Uint64Col u64 | BoolCol bool | Uint8Col u8

fun write_column :: "u16 \<times> Column \<Rightarrow> Writer \<Rightarrow> db_error + Writer" where
  "write_column (i, StringCol v) w = WriterString i v w"
| "write_column (i, BytesCol v) w = WriterRawBytes i v w"
| "write_column (i, Int64Col v) w = WriterInt64 i v w"
| "write_column (i, Uint64Col v) w = WriterUint64 i v w"
| "write_column (i, BoolCol v) w = WriterBool i v w"
| "write_column (i, Uint8Col v) w = WriterUint8 i v w"

fun write_columns :: "(u16 \<times> Column) list \<Rightarrow> Writer \<Rightarrow> db_error + Writer" where
  "write_columns [] w = Inr w"
| "write_columns (c # cs) w = (case write_column c w of Inl e \<Rightarrow> Inl e | Inr w \<Rightarrow> write_columns cs w)"

definition EmptyWriter :: Writer where
  "EmptyWriter = \<lparr>wr_buf = [], wr_last = 0\<rparr>"

text \<open>The column under the scanner, with the getter of its type.\<close>

definition scanned :: "Scanner \<Rightarrow> u16 \<times> Column" where
  "scanned s = (sc_columnID s,
     case ScanString s of Inr v \<Rightarrow> StringCol v | Inl _ \<Rightarrow>
     case ScanBytes s of Inr v \<Rightarrow> BytesCol v | Inl _ \<Rightarrow>
     case ScanInt64 s of Inr v \<Rightarrow> Int64Col v | Inl _ \<Rightarrow>
     case ScanUint64 s of Inr v \<Rightarrow> Uint64Col v | Inl _ \<Rightarrow>
     case ScanBool s of Inr v \<Rightarrow> BoolCol v | Inl _ \<Rightarrow>
     case ScanUint8 s of Inr v \<Rightarrow> Uint8Col v | Inl _ \<Rightarrow> Uint8Col 0)"

lemma uvarint_shrinks: "uvarint_from i x bs = Some (v, rest) \<Longrightarrow> length rest < length bs"
  by (induction i x bs rule: uvarint_from.induct) (auto split: if_splits)

lemma readUvarint_shrinks: "readUvarint bs = Some (v, rest) \<Longrightarrow> length rest < length bs"
  unfolding readUvarint_def get_uvarint_def by (rule uvarint_shrinks)

lemma readValue_shrinks: "readValue s = (s', ok) \<Longrightarrow> length (sc_data s') \<le> length (sc_data s)"
  by (auto simp: readValue_def Let_def dest!: readUvarint_shrinks split: if_splits option.splits prod.splits list.splits)

lemma NextColumn_shrinks: "NextColumn s = (s', True) \<Longrightarrow> length (sc_data s') < length (sc_data s)"
  by (cases "sc_data s")
    (auto simp: NextColumn_def step_column_def Let_def dest!: readUvarint_shrinks readValue_shrinks
      split: if_splits option.splits prod.splits)

text \<open>
  The loop of the table codecs, \<open>for s.Next() { ... }\<close>, collecting the columns; \<open>None\<close>
  would be a loop that does not end.
\<close>

partial_function (option) scan_columns :: "Scanner \<Rightarrow> ((u16 \<times> Column) list \<times> Scanner) option" where
  "scan_columns s =
     (case NextColumn s of
        (s', ok) \<Rightarrow>
          if \<not> ok then Some ([], s')
          else Option.bind (scan_columns s') (\<lambda>(cs, s''). Some (scanned s' # cs, s'')))"

section \<open>A written row scans back\<close>

fun column_bytes :: "Column \<Rightarrow> u8 list" where
  "column_bytes (StringCol v) = put_uvarint (of_nat (length v)) @ v"
| "column_bytes (BytesCol v) = put_uvarint (of_nat (length v)) @ v"
| "column_bytes (Int64Col v) = put_uvarint (encodeZigZagInt64 v)"
| "column_bytes (Uint64Col v) = put_uvarint v"
| "column_bytes (BoolCol v) = [if v then 1 else 0]"
| "column_bytes (Uint8Col v) = [v]"

fun column_type :: "Column \<Rightarrow> ColumnType" where
  "column_type (StringCol v) = TypeString"
| "column_type (BytesCol v) = TypeBytes"
| "column_type (Int64Col v) = TypeInt64"
| "column_type (Uint64Col v) = TypeUint64"
| "column_type (BoolCol v) = TypeBool"
| "column_type (Uint8Col v) = TypeUint8"

text \<open>Go's slices are shorter than \<open>2 ^ 63\<close>.\<close>

fun column_fits :: "Column \<Rightarrow> bool" where
  "column_fits (StringCol v) \<longleftrightarrow> length v < 2 ^ 63"
| "column_fits (BytesCol v) \<longleftrightarrow> length v < 2 ^ 63"
| "column_fits _ \<longleftrightarrow> True"

definition tag_bytes :: "u16 \<Rightarrow> ColumnType \<Rightarrow> u8 list" where
  "tag_bytes delta typ =
     (if delta \<le> 15 then [ucast (push_bit 4 delta) OR typ] else typ # put_uvarint (ucast delta))"

lemma write_column_eq:
  "write_column (i, c) w =
     (if i \<le> wr_last w then Inl DBErrInvalidArgument
      else Inr \<lparr>wr_buf = wr_buf w @ tag_bytes (i - wr_last w) (column_type c) @ column_bytes c, wr_last = i\<rparr>)"
proof -
  have "i - wr_last w \<noteq> 0" if "\<not> i \<le> wr_last w" using that by auto
  then have "then_write (begin_column i t w) f = (if i \<le> wr_last w then Inl DBErrInvalidArgument
      else Inr \<lparr>wr_buf = f (wr_buf w @ tag_bytes (i - wr_last w) t), wr_last = i\<rparr>)" for t f
    by (cases w) (simp add: then_write_def begin_column_def tag_bytes_def appendUvarint_def Let_def)
  then show ?thesis
    by (cases c) (simp_all add: WriterString_def WriterRawBytes_def WriterInt64_def WriterUint64_def
        WriterBool_def WriterUint8_def appendUvarint_def)
qed

definition positioned :: "Scanner \<Rightarrow> u16 \<Rightarrow> Column \<Rightarrow> u8 list \<Rightarrow> bool" where
  "positioned s i c rest \<longleftrightarrow> scanned s = (i, c) \<and> sc_data s = rest \<and> sc_err s = None \<and> sc_columnID s = i
    \<and> sc_ok s \<and> sc_typ s = column_type c"

lemma readUvarint_put [simp]: "readUvarint (put_uvarint v @ rest) = Some (v, rest)"
  by (simp add: readUvarint_def uvarint.get_put)

lemma unat_len: "length v < 2 ^ 63 \<Longrightarrow> unat (of_nat (length v) :: u64) = length v"
  by (simp add: unsigned_of_nat take_bit_nat_eq_self)

lemma readValue_column:
  assumes "sc_data s = column_bytes c @ rest" "sc_typ s = column_type c" "column_fits c" "sc_err s = None"
  shows "\<exists>s'. readValue s = (s', True) \<and> positioned (s'\<lparr>sc_ok := True\<rparr>) (sc_columnID s) c rest"
  using assms
  by (cases c)
    (simp_all add: readValue_def column_types positioned_def scanned_def ScanString_def ScanBytes_def
      ScanInt64_def ScanUint64_def ScanBool_def ScanUint8_def require_def zigzag_roundtrip unat_len)

lemma positioned_getters:
  "positioned s i (StringCol b) rest \<Longrightarrow> ScanString s = Inr b"
  "positioned s i (BytesCol b) rest \<Longrightarrow> ScanBytes s = Inr b"
  "positioned s i (Int64Col v) rest \<Longrightarrow> ScanInt64 s = Inr v"
  "positioned s i (Uint64Col v) rest \<Longrightarrow> ScanUint64 s = Inr v"
  "positioned s i (BoolCol t) rest \<Longrightarrow> ScanBool s = Inr t"
  "positioned s i (Uint8Col u) rest \<Longrightarrow> ScanUint8 s = Inr u"
  by (auto simp: positioned_def scanned_def ScanString_def ScanBytes_def ScanInt64_def ScanUint64_def
      ScanBool_def ScanUint8_def require_def column_types)

lemma low_bits: "unat (x :: 'a :: len word) < 2 ^ k \<Longrightarrow> bit x n \<Longrightarrow> n < k"
proof -
  assume "unat x < 2 ^ k" and b: "bit x n"
  then have "take_bit k x = x" by (simp add: word_unat_eq_iff unsigned_take_bit_eq take_bit_nat_eq_self)
  with b show "n < k" by (metis bit_take_bit_iff)
qed

lemma tag_short:
  fixes d :: u16 and t :: u8
  assumes "d \<le> 15" "t < 16"
  shows "ucast (drop_bit 4 (ucast (push_bit 4 d) OR t)) = d" "(ucast (push_bit 4 d) OR t) AND 0x0f = t"
proof -
  have "unat d < 2 ^ 4" using assms(1) by (simp add: word_le_nat_alt)
  note d = low_bits [OF this]
  have "unat t < 2 ^ 4" using assms(2) by (simp add: word_less_nat_alt)
  note t = low_bits [OF this]
  show "ucast (drop_bit 4 (ucast (push_bit 4 d) OR t)) = d"
    by (rule bit_word_eqI) (auto simp: bit_simps dest: d t)
  have m: "(0x0f :: u8) = mask 4" by (simp add: mask_eq_exp_minus_1)
  show "(ucast (push_bit 4 d) OR t) AND 0x0f = t"
    unfolding m by (rule bit_word_eqI) (auto simp: bit_simps dest: d t)
qed

lemma tag_long: "t < 16 \<Longrightarrow> drop_bit 4 t = 0" "t < 16 \<Longrightarrow> t AND 0x0f = (t :: u8)"
  using tag_short [of 0 t] by (simp_all add: word_unat_eq_iff word_less_nat_alt unsigned_drop_bit_eq drop_bit_eq_div unat_div)

lemma column_type_small: "column_type c < 16"
  by (cases c) (simp_all add: column_types)

lemma delta_back: "ucast (ucast d :: u64) = (d :: u16)" "ucast d = (0 :: u64) \<longleftrightarrow> d = 0"
    "\<not> 0xFFFF < (ucast d :: u64)"
proof -
  have u: "unat (ucast d :: u64) = unat d"
    by (simp add: unsigned_ucast_eq take_bit_nat_eq_self order_less_trans [OF unsigned_less])
  show "ucast (ucast d :: u64) = d" by (rule bit_word_eqI) (auto simp: bit_simps)
  show "ucast d = (0 :: u64) \<longleftrightarrow> d = 0" by (simp add: word_unat_eq_iff u)
  have "unat d < 2 ^ LENGTH(16)" by (rule unsigned_less)
  then show "\<not> 0xFFFF < (ucast d :: u64)" by (simp add: word_less_nat_alt u)
qed

lemma NextColumn_short:
  "sc_data s = b # r \<Longrightarrow> sc_err s = None \<Longrightarrow> ucast (drop_bit 4 b) = d \<Longrightarrow> d \<noteq> 0 \<Longrightarrow>
    NextColumn s = step_column d (s\<lparr>sc_ok := False, sc_bytes := [], sc_u64 := 0, sc_boolVal := False,
      sc_u8 := 0, sc_data := r, sc_typ := b AND 0x0f\<rparr>)"
  by (simp add: NextColumn_def Let_def)

lemma NextColumn_tag:
  assumes "sc_data s = tag_bytes d (column_type c) @ column_bytes c @ rest" "d \<noteq> 0" "column_fits c"
    and "sc_err s = None"
  shows "\<exists>s'. NextColumn s = (s', True) \<and> positioned s' (sc_columnID s + d) c rest"
proof -
  let ?t = "column_type c"
  define r where "r = s\<lparr>sc_ok := False, sc_bytes := [], sc_u64 := 0, sc_boolVal := False, sc_u8 := 0,
    sc_data := column_bytes c @ rest, sc_typ := ?t\<rparr>"
  have "NextColumn s = step_column d r"
  proof (cases "d \<le> 15")
    case True
    show ?thesis
      using NextColumn_short [OF _ _ tag_short(1) [OF True column_type_small, of c], of s] assms True
      unfolding tag_short(2) [OF True column_type_small] by (simp add: tag_bytes_def r_def)
  next
    case False
    then show ?thesis using assms
      by (cases s) (simp add: NextColumn_def tag_bytes_def tag_long [OF column_type_small] delta_back r_def Let_def)
  qed
  moreover have "\<exists>s'. readValue (r\<lparr>sc_columnID := sc_columnID r + d\<rparr>) = (s', True) \<and>
      positioned (s'\<lparr>sc_ok := True\<rparr>) (sc_columnID s + d) c rest"
    using readValue_column [of "r\<lparr>sc_columnID := sc_columnID r + d\<rparr>" c rest] assms
    by (simp add: r_def)
  ultimately show ?thesis by (auto simp: step_column_def)
qed

fun row_bytes :: "u16 \<Rightarrow> (u16 \<times> Column) list \<Rightarrow> u8 list" where
  "row_bytes prev [] = []"
| "row_bytes prev ((i, c) # cs) = tag_bytes (i - prev) (column_type c) @ column_bytes c @ row_bytes i cs"

lemma write_columns_eq:
  "write_columns cs w =
     (if sorted_wrt (<) (wr_last w # map fst cs)
      then Inr \<lparr>wr_buf = wr_buf w @ row_bytes (wr_last w) cs, wr_last = last (wr_last w # map fst cs)\<rparr>
      else Inl DBErrInvalidArgument)"
proof (induction cs arbitrary: w)
  case (Cons c cs)
  obtain i v where c: "c = (i, v)" by (cases c)
  show ?case
  proof (cases "i \<le> wr_last w")
    case False
    then show ?thesis using order_less_trans [of "wr_last w" i]
      by (auto simp: c write_column_eq Cons.IH simp del: write_column.simps)
  qed (auto simp: c write_column_eq simp del: write_column.simps)
qed simp

lemma scan_row:
  assumes "sc_data s = row_bytes (sc_columnID s) cs" "sc_err s = None"
    and "sorted_wrt (<) (sc_columnID s # map fst cs)" "\<forall>c \<in> set cs. column_fits (snd c)"
  shows "\<exists>s'. scan_columns s = Some (cs, s') \<and> sc_err s' = None \<and> sc_data s' = []"
  using assms
proof (induction cs arbitrary: s)
  case Nil
  then show ?case by (simp add: scan_columns.simps [of s] NextColumn_def)
next
  case (Cons c cs)
  obtain i v where c: "c = (i, v)" by (cases c)
  have d: "i - sc_columnID s \<noteq> 0" "sc_columnID s + (i - sc_columnID s) = i" using Cons.prems(3) c by auto
  obtain s' where s': "NextColumn s = (s', True)" "positioned s' i v (row_bytes i cs)"
    using NextColumn_tag [of s "i - sc_columnID s" v] Cons.prems c d by auto
  then have "sc_data s' = row_bytes (sc_columnID s') cs" "sc_err s' = None" "sc_columnID s' = i" "scanned s' = (i, v)"
    by (auto simp: positioned_def)
  moreover from this obtain s'' where "scan_columns s' = Some (cs, s'')" "sc_err s'' = None" "sc_data s'' = []"
    using Cons.IH [of s'] Cons.prems c by auto
  ultimately show ?case by (simp add: scan_columns.simps [of s] s' c)
qed

text \<open>
  C34: a row family survives the store. The writer accepts exactly the column lists whose ids ascend
  strictly from a first id above 0 (and refuses any other with \<open>ErrInvalidArgument\<close>);
  scanning the bytes of an accepted list, whose strings a Go program can hold, yields
  the same ids with the same typed values in the same order, each by the getter of its type, and
  ends without an error with every byte consumed.
\<close>

theorem row_roundtrip:
  assumes "\<forall>c \<in> set cs. column_fits (snd c)"
  shows "case write_columns cs EmptyWriter of
      Inl e \<Rightarrow> e = DBErrInvalidArgument \<and> \<not> sorted_wrt (<) (0 # map fst cs)
    | Inr w \<Rightarrow> sorted_wrt (<) (0 # map fst cs) \<and>
        (\<exists>s. scan_columns (NewScanner (WriterBytes w)) = Some (cs, s) \<and> sc_err s = None \<and> sc_data s = [])"
proof (cases "sorted_wrt (<) (0 # map fst cs)")
  case True
  with scan_row [of "NewScanner (row_bytes 0 cs)" cs] assms show ?thesis
    by (simp add: write_columns_eq EmptyWriter_def WriterBytes_def NewScanner_def)
qed (auto simp: write_columns_eq EmptyWriter_def)

lemma row_roundtrip_witness:
  "\<exists>w s. write_columns [(1, StringCol [104, 105]), (20, Int64Col (- 5))] EmptyWriter = Inr w \<and>
    scan_columns (NewScanner (WriterBytes w)) = Some ([(1, StringCol [104, 105]), (20, Int64Col (- 5))], s)"
proof -
  let ?cs = "[(1 :: u16, StringCol [104, 105]), (20, Int64Col (- 5))]"
  have "\<forall>c \<in> set ?cs. column_fits (snd c)" by simp
  from row_roundtrip [OF this] show ?thesis by (auto split: sum.splits)
qed

section \<open>Scanning arbitrary bytes\<close>

lemma readValue_fails: "readValue s = (s', False) \<Longrightarrow> sc_err s' = Some DBErrCorruptValue"
  by (auto simp: readValue_def Let_def split: if_splits option.splits prod.splits list.splits)

lemma readValue_reads: "readValue s = (s', True) \<Longrightarrow> sc_err s' = sc_err s"
  by (auto simp: readValue_def Let_def split: if_splits option.splits prod.splits list.splits)

lemma NextColumn_false:
  "NextColumn s = (s', False) \<Longrightarrow>
    \<not> sc_ok s' \<and> (sc_err s' = Some DBErrCorruptValue \<or> sc_err s' = sc_err s \<and> (sc_err s \<noteq> None \<or> sc_data s' = []))"
  by (auto simp: NextColumn_def step_column_def Let_def dest: readValue_fails
      split: if_splits option.splits prod.splits)

lemma NextColumn_err: "NextColumn s = (s', True) \<Longrightarrow> sc_err s' = None"
  by (auto simp: NextColumn_def step_column_def Let_def dest: readValue_reads
      split: if_splits option.splits prod.splits)

lemma NextColumn_stops:
  assumes "NextColumn s = (s', False)" "sc_err s = None \<or> sc_err s = Some DBErrCorruptValue"
  shows "NextColumn s' = (s', False)"
    and "if sc_err s' = None then sc_data s' = [] else sc_err s' = Some DBErrCorruptValue"
proof -
  note * = NextColumn_false [OF assms(1)]
  then have "s'\<lparr>sc_ok := False\<rparr> = s'" by (cases s') simp
  with * show "NextColumn s' = (s', False)" by (auto simp: NextColumn_def)
  show "if sc_err s' = None then sc_data s' = [] else sc_err s' = Some DBErrCorruptValue"
    using * assms(2) by auto
qed

lemma scan_ends:
  assumes "sc_err s = None \<or> sc_err s = Some DBErrCorruptValue"
  shows "\<exists>cs s'. scan_columns s = Some (cs, s') \<and> length cs \<le> length (sc_data s) \<and> NextColumn s' = (s', False) \<and>
    (if sc_err s' = None then sc_data s' = [] else sc_err s' = Some DBErrCorruptValue)"
  using assms
proof (induction "length (sc_data s)" arbitrary: s rule: less_induct)
  case less
  obtain s' ok where n: "NextColumn s = (s', ok)" by (cases "NextColumn s")
  show ?case
  proof (cases ok)
    case True
    with n have n': "NextColumn s = (s', True)" by simp
    note lt = NextColumn_shrinks [OF n']
    have "sc_err s' = None" using n' by (rule NextColumn_err)
    then obtain cs s'' where "scan_columns s' = Some (cs, s'')" "length cs \<le> length (sc_data s')"
      "NextColumn s'' = (s'', False)" "if sc_err s'' = None then sc_data s'' = [] else sc_err s'' = Some DBErrCorruptValue"
      using less.hyps [OF lt] by auto
    with n True lt show ?thesis by (simp add: scan_columns.simps [of s])
  next
    case False
    with n show ?thesis
      using NextColumn_stops [OF _ less.prems] by (simp add: scan_columns.simps [of s])
  qed
qed

text \<open>
  on any stored bytes, damaged or not, the scan ends: it yields at most one column
  per byte, then stays where it is (calling Next again changes nothing), and either all bytes are consumed and there is no
  error, or the error is \<open>ErrCorruptValue\<close>.
\<close>

lemma scan_terminates:
  "\<exists>cs s. scan_columns (NewScanner bs) = Some (cs, s) \<and> length cs \<le> length bs \<and> NextColumn s = (s, False) \<and>
    (if sc_err s = None then sc_data s = [] else sc_err s = Some DBErrCorruptValue)"
  using scan_ends [of "NewScanner bs"] by (simp add: NewScanner_def)

end
