(* ===== verification/RowLoop.thy ===== *)
theory RowLoop
  imports RowSafety
begin

text \<open>
  The loops the row codecs of the stores share: columns written one after the other, and columns read in a row until the
  scanner stops.
\<close>

section \<open>Writing\<close>

fun run_writes :: "(Writer \<Rightarrow> db_error + Writer) list \<Rightarrow> Writer \<Rightarrow> db_error + Writer" where
  "run_writes [] w = Inr w"
| "run_writes (f # fs) w = (case f w of Inl e \<Rightarrow> Inl e | Inr w \<Rightarrow> run_writes fs w)"

lemma run_writes_columns: "run_writes (map write_column cs) w = write_columns cs w"
  by (induction cs arbitrary: w) (auto split: sum.splits)

section \<open>Reading\<close>

definition set_column :: "db_error + 'a \<Rightarrow> ('a \<Rightarrow> 'r) \<Rightarrow> db_error + 'r" where
  "set_column v f = map_sum (\<lambda>e. e) f v"

text \<open>\<open>for s.Next() { if err := column(s, row); err != nil { return err } }; return s.Err()\<close>\<close>

function decode_columns :: "(Scanner \<Rightarrow> 'r \<Rightarrow> db_error + 'r) \<Rightarrow> Scanner \<Rightarrow> 'r \<Rightarrow> db_error + 'r" where
  "decode_columns column s row =
     (case NextColumn s of
        (s, ok) \<Rightarrow>
          if \<not> ok then (case sc_err s of Some e \<Rightarrow> Inl e | None \<Rightarrow> Inr row)
          else (case column s row of Inl e \<Rightarrow> Inl e | Inr row \<Rightarrow> decode_columns column s row))"
  by pat_completeness auto
termination
  by (relation "measure (\<lambda>(column, s, row). length (sc_data s))") (auto dest: sym NextColumn_shrinks)

declare decode_columns.simps [simp del]

text \<open>A payload of columns is read column by column.\<close>

lemma decode_row:
  assumes "sc_data s = row_bytes (sc_columnID s) cs" "sc_err s = None"
    and "sorted_wrt (<) (sc_columnID s # map fst cs)" "\<forall>c \<in> set cs. column_fits (snd c)"
    and "\<And>i c s row rest. (i, c) \<in> set cs \<Longrightarrow> positioned s i c rest \<Longrightarrow> column s row = Inr (f (i, c) row)"
  shows "decode_columns column s row = Inr (fold f cs row)"
  using assms
proof (induction cs arbitrary: s row)
  case Nil
  then show ?case by (simp add: decode_columns.simps [of column s] NextColumn_def)
next
  case (Cons c cs)
  obtain i v where c: "c = (i, v)" by (cases c)
  have d: "i - sc_columnID s \<noteq> 0" "sc_columnID s + (i - sc_columnID s) = i" using Cons.prems(3) c by auto
  obtain s' where s': "NextColumn s = (s', True)" "positioned s' i v (row_bytes i cs)"
    using NextColumn_tag [of s "i - sc_columnID s" v] Cons.prems(1-4) c d by auto
  then have col: "column s' row = Inr (f (i, v) row)" using Cons.prems(5) [of i v] c by auto
  have "sc_data s' = row_bytes (sc_columnID s') cs" "sc_err s' = None" "sc_columnID s' = i"
    using s'(2) by (auto simp: positioned_def)
  moreover have "sorted_wrt (<) (i # map fst cs)" "\<forall>c \<in> set cs. column_fits (snd c)"
    using Cons.prems(3,4) c by auto
  ultimately have "decode_columns column s' (f (i, v) row) = Inr (fold f cs (f (i, v) row))"
    using Cons.IH [of s'] Cons.prems(5) by simp
  with s' col show ?case by (simp add: decode_columns.simps [of column s] c)
qed

end
