(* ===== verification/EnvelopeSafety.thy ===== *)
theory EnvelopeSafety
  imports RowCodec
begin

text \<open>
  The envelope of a stored value: it reads back, and where it carries its CRC-32C, a change of one payload byte is noticed unless
  both checksums are 0 or 1, which are stored alike.
\<close>

section \<open>A CRC step loses nothing\<close>

lemma xor_cancel: "(x :: u32) XOR c = y XOR c \<longleftrightarrow> x = y"
proof
  assume "x XOR c = y XOR c"
  then have "(x XOR c) XOR c = (y XOR c) XOR c" by simp
  then show "x = y" by (simp add: xor.assoc)
qed simp

lemma crc32_bits_inject:
  assumes poly: "bit poly 31"
  shows "crc32_bits poly n c = crc32_bits poly n c' \<longleftrightarrow> c = c'"
proof (induction n arbitrary: c c')
  case (Suc n)
  let ?f = "\<lambda>c. if c AND 1 = 1 then (drop_bit 1 c) XOR poly else drop_bit 1 c"
  have low: "x AND 1 = 1 \<longleftrightarrow> bit x 0" for x :: u32 by (simp add: and_one_eq mod_2_eq_odd bit_0)
  have f31: "bit (?f x) 31 \<longleftrightarrow> bit x 0" for x
    using not_bit_length [of x] by (simp add: low bit_xor_iff bit_drop_bit_eq poly)
  have "c = c'" if eq: "?f c = ?f c'"
  proof -
    have b0: "bit c 0 \<longleftrightarrow> bit c' 0" using f31 [of c] f31 [of c'] eq by simp
    have d: "drop_bit 1 c = drop_bit 1 c'"
    proof (cases "bit c 0")
      case True
      with eq b0 show ?thesis by (simp add: low xor_cancel)
    qed (use eq b0 in \<open>simp add: low\<close>)
    show ?thesis
    proof (rule bit_word_eqI)
      fix n assume "n < LENGTH(32)"
      show "bit c n \<longleftrightarrow> bit c' n"
      proof (cases n)
        case (Suc m)
        from d have "bit (drop_bit 1 c) m \<longleftrightarrow> bit (drop_bit 1 c') m" by simp
        then show ?thesis by (simp add: bit_drop_bit_eq Suc)
      qed (use b0 in simp)
    qed
  qed
  then show ?case by (auto simp: Suc.IH)
qed simp

lemma bit_poly: "bit (0x82F63B78 :: u32) 31"
  by simp

lemma ucast_byte_inject: "ucast (a :: u8) = (ucast b :: u32) \<longleftrightarrow> a = b"
proof
  assume "ucast a = (ucast b :: u32)"
  then have "ucast (ucast a :: u32) = (ucast (ucast b :: u32) :: u8)" by simp
  moreover have "ucast (ucast x :: u32) = x" for x :: u8 by (rule bit_word_eqI) (auto simp: bit_simps)
  ultimately show "a = b" by simp
qed simp

lemma crc32c_step_state: "crc32c_step c b = crc32c_step c' b \<longleftrightarrow> c = c'"
  by (simp add: crc32c_step_def crc32_bits_inject [OF bit_poly] xor_cancel)

lemma crc32c_step_byte: "crc32c_step c a = crc32c_step c b \<longleftrightarrow> a = b"
  by (simp add: crc32c_step_def crc32_bits_inject [OF bit_poly] xor.commute [of c] xor_cancel ucast_byte_inject)

lemma crc_state: "foldl crc32c_step c bs = foldl crc32c_step c' bs \<longleftrightarrow> c = c'"
  by (induction bs arbitrary: c c') (simp_all add: crc32c_step_state)

lemma crc_byte: "a \<noteq> b \<Longrightarrow> foldl crc32c_step c (xs @ a # ys) \<noteq> foldl crc32c_step c (xs @ b # ys)"
  by (simp add: crc_state crc32c_step_byte)

lemma crc_update_changed:
  assumes "i < length bs" "b \<noteq> bs ! i"
  shows "crc32c_update c (bs[i := b]) \<noteq> crc32c_update c bs"
proof -
  have "bs = take i bs @ bs ! i # drop (Suc i) bs" using assms(1) by (rule id_take_nth_drop)
  moreover have "bs[i := b] = take i bs @ b # drop (Suc i) bs" using assms(1) by (rule upd_conv_take_nth_drop)
  ultimately show ?thesis using crc_byte [OF assms(2)] unfolding crc32c_update_def
    by (metis bit.double_compl)
qed

section \<open>Wrapping and unwrapping\<close>

definition raw_checksum :: "u8 list \<Rightarrow> u8 list \<Rightarrow> u32" where
  "raw_checksum key val = crc32c_update (crc32c_update (crc32c_update (crc32c_update 0 key) (take 3 val)) [0, 0, 0, 0])
     (drop 7 val)"

lemma checksum_raw: "envelopeChecksum key val = (if raw_checksum key val = 0 then 1 else raw_checksum key val)"
  by (simp add: envelopeChecksum_def raw_checksum_def envelopeHeaderLen_def Let_def)

lemma list_update_header: "length xs = 7 \<Longrightarrow>
    xs[0 := a, 1 := b, 2 := c, 3 := d, 4 := e, 5 := f, 6 := g] = [a, b, c, d, e, f, g]"
proof -
  assume "length xs = 7"
  then have "length xs = Suc (Suc (Suc (Suc (Suc (Suc (Suc 0))))))" by simp
  then obtain p q r s t u v where "xs = [p, q, r, s, t, u, v]" by (auto simp only: length_Suc_conv length_0_conv)
  then show ?thesis by (simp add: eval_nat_numeral)
qed

definition envelope_sum :: "u8 list \<Rightarrow> u8 \<Rightarrow> u8 \<Rightarrow> u8 \<Rightarrow> u8 list \<Rightarrow> u32" where
  "envelope_sum key version cdc flags payload =
     (if flags AND FlagChecksum \<noteq> 0
      then envelopeChecksum key ([version, cdc, flags, 0, 0, 0, 0] @ payload) else 0)"

lemma put32_0: "put32 0 = [0, 0, 0, 0]"
  by code_simp

lemma WrapTo_bytes:
  assumes "length dst = EnvelopeLen (length payload)"
  shows "WrapTo dst key version cdc flags payload =
     Inr ([version, cdc, flags] @ put32 (envelope_sum key version cdc flags payload) @ payload)"
proof -
  have "take 7 (dst[0 := version, 1 := cdc, 2 := flags, 3 := 0, 4 := 0, 5 := 0, 6 := 0]) =
      [version, cdc, flags, 0, 0, 0, 0]"
    unfolding take_update_swap
    by (rule list_update_header) (use assms in \<open>simp add: EnvelopeLen_def envelopeHeaderLen_def\<close>)
  with assms show ?thesis
    unfolding WrapTo_def EnvelopeLen_def envelopeHeaderLen_def Let_def envelope_sum_def
    by (simp only: simp_thms if_False if_True) (simp add: put32_0)
qed

lemma Wrap_total:
  "Wrap key version cdc flags payload =
     Inr ([version, cdc, flags] @ put32 (envelope_sum key version cdc flags payload) @ payload)"
  unfolding Wrap_def by (rule WrapTo_bytes) simp

text \<open>What the buffer held does not matter.\<close>

lemma WrapTo_any:
  "length dst = EnvelopeLen (length payload) \<Longrightarrow>
    WrapTo dst key version cdc flags payload = Wrap key version cdc flags payload"
  by (simp only: WrapTo_bytes Wrap_total)

lemma checksum_stored:
  "envelopeChecksum key ([version, cdc, flags] @ put32 x @ payload) =
   envelopeChecksum key ([version, cdc, flags] @ put32 y @ payload)"
  by (simp add: checksum_raw raw_checksum_def)

lemma be_val_put32: "of_nat (be_val (put32 x)) = x"
proof -
  have "get32 (put32 x @ []) = Some (x, [])" by (rule be32.get_put) simp
  then show ?thesis by (simp add: get32_def get_be_def)
qed

lemma Unwrap_put:
  "Unwrap key ([version, cdc, flags] @ put32 x @ payload) =
     (if flags AND FlagChecksum \<noteq> 0 \<and> envelopeChecksum key ([version, cdc, flags, 0, 0, 0, 0] @ payload) \<noteq> x
      then Inl DBErrChecksumMismatch
      else Inr \<lparr>ev_Version = version, ev_Codec = cdc, ev_Flags = flags, ev_Payload = payload\<rparr>)"
  using checksum_stored [of key version cdc flags x payload 0]
  by (simp add: Unwrap_def envelopeHeaderLen_def be_val_put32 put32_0)

lemma envelope_reads_back:
  "\<exists>val. Wrap key version cdc flags payload = Inr val \<and>
    Unwrap key val = Inr \<lparr>ev_Version = version, ev_Codec = cdc, ev_Flags = flags, ev_Payload = payload\<rparr>"
  by (intro exI conjI, rule Wrap_total) (subst Unwrap_put, simp add: envelope_sum_def)

lemma raw_changed:
  assumes "i < length payload" "b \<noteq> payload ! i" "length hdr = 7"
  shows "raw_checksum key (hdr @ payload[i := b]) \<noteq> raw_checksum key (hdr @ payload)"
  using crc_update_changed [OF assms(1,2)] assms(3) by (simp add: raw_checksum_def)

lemma change_unwrapped:
  assumes w: "Wrap key version cdc flags payload = Inr val" and i: "i < length payload" "b \<noteq> payload ! i"
  shows "Unwrap key (val[7 + i := b]) =
    (if flags AND FlagChecksum \<noteq> 0 \<and> \<not> (envelopeChecksum key val = 1 \<and> envelopeChecksum key (val[7 + i := b]) = 1)
     then Inl DBErrChecksumMismatch
     else Inr \<lparr>ev_Version = version, ev_Codec = cdc, ev_Flags = flags, ev_Payload = payload[i := b]\<rparr>)"
proof -
  let ?h = "[version, cdc, flags, 0, 0, 0, 0]"
  let ?x = "envelope_sum key version cdc flags payload"
  have v: "val = [version, cdc, flags] @ put32 ?x @ payload" using w by (simp add: Wrap_total)
  then have v': "val[7 + i := b] = [version, cdc, flags] @ put32 ?x @ payload[i := b]"
    by (simp add: list_update_append)
  have s: "envelopeChecksum key val = envelopeChecksum key (?h @ payload)"
      "envelopeChecksum key (val[7 + i := b]) = envelopeChecksum key (?h @ payload[i := b])"
    using checksum_stored [of key version cdc flags ?x _ 0] unfolding v' unfolding v by (simp_all add: put32_0)
  have "raw_checksum key (?h @ payload[i := b]) \<noteq> raw_checksum key (?h @ payload)"
    by (rule raw_changed [OF i]) simp
  then have "envelopeChecksum key (?h @ payload[i := b]) = envelopeChecksum key (?h @ payload) \<longleftrightarrow>
      envelopeChecksum key (?h @ payload) = 1 \<and> envelopeChecksum key (?h @ payload[i := b]) = 1"
    by (auto simp only: checksum_raw split: if_splits)
  then show ?thesis unfolding s unfolding v' Unwrap_put by (auto simp only: envelope_sum_def split: if_splits)
qed

text \<open>
  C35: Wrapping never fails, and unwrapping under the same key returns version, codec, flags and payload, whatever they are. After one
  byte of the stored payload was changed to another value, \<open>Unwrap\<close> reports \<open>ErrChecksumMismatch\<close> exactly when the envelope carries the
  checksum flag and the checksums of the old and the new bytes are not both stored as 1 (the checksum 0 is stored as 1 too); otherwise the
  changed payload is returned as it is.
\<close>

theorem envelope_integrity:
  assumes "Wrap key version cdc flags payload = w"
  shows "\<exists>val. w = Inr val
    \<and> Unwrap key val = Inr \<lparr>ev_Version = version, ev_Codec = cdc, ev_Flags = flags, ev_Payload = payload\<rparr>
    \<and> (i < length payload \<and> b \<noteq> payload ! i \<longrightarrow>
        Unwrap key (val[7 + i := b]) =
          (if flags AND FlagChecksum \<noteq> 0 \<and> \<not> (envelopeChecksum key val = 1 \<and> envelopeChecksum key (val[7 + i := b]) = 1)
           then Inl DBErrChecksumMismatch
           else Inr \<lparr>ev_Version = version, ev_Codec = cdc, ev_Flags = flags, ev_Payload = payload[i := b]\<rparr>))"
  using envelope_reads_back [of key version cdc flags payload] change_unwrapped assms by blast

lemma sum_example: "envelopeChecksum [7] ([1, 1, 1] @ put32 x @ [5]) \<noteq> 1"
proof -
  have "envelopeChecksum [7] ([1, 1, 1] @ put32 0 @ [5]) \<noteq> 1" by code_simp
  then show ?thesis unfolding checksum_stored [of _ _ _ _ x _ 0] .
qed

lemma envelope_integrity_witness:
  "(\<exists>val. Wrap [7] 1 CodecColumns FlagChecksum [5] = Inr val \<and> Unwrap [7] (val[7 + 0 := 6]) = Inl DBErrChecksumMismatch)
    \<and> (\<exists>val. Wrap [7] 1 CodecColumns 0 [5] = Inr val
        \<and> Unwrap [7] (val[7 + 0 := 6]) = Inr \<lparr>ev_Version = 1, ev_Codec = CodecColumns, ev_Flags = 0, ev_Payload = [6]\<rparr>)"
proof
  let ?w = "Wrap [7] 1 CodecColumns FlagChecksum [5]"
  from envelope_integrity [OF refl, of "[7]" 1 CodecColumns FlagChecksum "[5]" 0 6]
  obtain val where w: "?w = Inr val"
    and c: "envelopeChecksum [7] val \<noteq> 1 \<Longrightarrow> Unwrap [7] (val[7 + 0 := 6]) = Inl DBErrChecksumMismatch"
    by (auto simp: FlagChecksum_def)
  from w have "envelopeChecksum [7] val \<noteq> 1"
    using sum_example by (auto simp: Wrap_total CodecColumns_def FlagChecksum_def)
  with w c show "\<exists>val. ?w = Inr val \<and> Unwrap [7] (val[7 + 0 := 6]) = Inl DBErrChecksumMismatch" by blast
next
  show "\<exists>val. Wrap [7] 1 CodecColumns 0 [5] = Inr val
      \<and> Unwrap [7] (val[7 + 0 := 6]) = Inr \<lparr>ev_Version = 1, ev_Codec = CodecColumns, ev_Flags = 0, ev_Payload = [6]\<rparr>"
    using envelope_integrity [OF refl, of "[7]" 1 CodecColumns 0 "[5]" 0 6] by auto
qed

end
