(* ===== verification/MsgRow.thy ===== *)
theory MsgRow
  imports KeySafety RowLoop EnvelopeSafety
begin

text \<open>
  The rows of the message table (\<open>pkg/db/message/row.go\<close>, \<open>codec.go\<close>): a message is stored in
  two families, a header and a payload, each an envelope of columns. The header has a reference
  encoder over the column writer and the encoder of the append path, which computes the length first and writes
  into a buffer of the engine; there \<open>None\<close> is the panic of a write out of range.
\<close>

section \<open>Rows\<close>

record messageRow =
  mr_MessageSeq :: u64
  mr_MessageID :: u64
  mr_FramerFlags :: u8
  mr_Setting :: u8
  mr_StreamFlag :: u8
  mr_MsgKey :: "u8 list"
  mr_Expire :: u64
  mr_ClientSeq :: u64
  mr_ClientMsgNo :: "u8 list"
  mr_StreamNo :: "u8 list"
  mr_StreamID :: u64
  mr_Timestamp :: u64
  mr_ServerTimestampMS :: u64
  mr_ChannelID :: "u8 list"
  mr_ChannelType :: u8
  mr_Topic :: "u8 list"
  mr_FromUID :: "u8 list"
  mr_PayloadHash :: u64
  mr_PayloadSize :: u64
  mr_Payload :: "u8 list"

definition zero_row :: messageRow where
  "zero_row = \<lparr>mr_MessageSeq = 0, mr_MessageID = 0, mr_FramerFlags = 0, mr_Setting = 0, mr_StreamFlag = 0,
     mr_MsgKey = [], mr_Expire = 0, mr_ClientSeq = 0, mr_ClientMsgNo = [], mr_StreamNo = [], mr_StreamID = 0,
     mr_Timestamp = 0, mr_ServerTimestampMS = 0, mr_ChannelID = [], mr_ChannelType = 0, mr_Topic = [],
     mr_FromUID = [], mr_PayloadHash = 0, mr_PayloadSize = 0, mr_Payload = []\<rparr>"

definition fnv64aOffset :: u64 where "fnv64aOffset = 14695981039346656037"
definition fnv64aPrime :: u64 where "fnv64aPrime = 1099511628211"

definition hashPayload :: "u8 list \<Rightarrow> u64" where
  "hashPayload payload = foldl (\<lambda>h b. (h XOR ucast b) * fnv64aPrime) fnv64aOffset payload"

definition validate_row :: "messageRow \<Rightarrow> db_error option" where
  "validate_row r = (if mr_MessageID r = 0 then Some DBErrInvalidArgument else None)"

definition normalizeMessageRow :: "messageRow \<Rightarrow> messageRow" where
  "normalizeMessageRow row =
     (let row = (if mr_PayloadHash row = 0 \<and> 0 < length (mr_Payload row)
                 then row\<lparr>mr_PayloadHash := hashPayload (mr_Payload row)\<rparr> else row)
      in if mr_PayloadSize row = 0 \<and> 0 < length (mr_Payload row)
         then row\<lparr>mr_PayloadSize := of_nat (length (mr_Payload row))\<rparr> else row)"

section \<open>Column ids\<close>

definition messageColumnIDMessageID :: u16 where "messageColumnIDMessageID = 2"
definition messageColumnIDFramerFlags :: u16 where "messageColumnIDFramerFlags = 3"
definition messageColumnIDSetting :: u16 where "messageColumnIDSetting = 4"
definition messageColumnIDStreamFlag :: u16 where "messageColumnIDStreamFlag = 5"
definition messageColumnIDMsgKey :: u16 where "messageColumnIDMsgKey = 6"
definition messageColumnIDExpire :: u16 where "messageColumnIDExpire = 7"
definition messageColumnIDClientSeq :: u16 where "messageColumnIDClientSeq = 8"
definition messageColumnIDClientMsgNo :: u16 where "messageColumnIDClientMsgNo = 9"
definition messageColumnIDStreamNo :: u16 where "messageColumnIDStreamNo = 10"
definition messageColumnIDStreamID :: u16 where "messageColumnIDStreamID = 11"
definition messageColumnIDTimestamp :: u16 where "messageColumnIDTimestamp = 12"
definition messageColumnIDChannelID :: u16 where "messageColumnIDChannelID = 13"
definition messageColumnIDChannelType :: u16 where "messageColumnIDChannelType = 14"
definition messageColumnIDTopic :: u16 where "messageColumnIDTopic = 15"
definition messageColumnIDFromUID :: u16 where "messageColumnIDFromUID = 16"
definition messageColumnIDPayloadHash :: u16 where "messageColumnIDPayloadHash = 17"
definition messageColumnIDPayloadSize :: u16 where "messageColumnIDPayloadSize = 18"
definition messageColumnIDPayload :: u16 where "messageColumnIDPayload = 19"
definition messageColumnIDServerTimestampMS :: u16 where "messageColumnIDServerTimestampMS = 20"

lemmas column_ids = messageColumnIDMessageID_def messageColumnIDFramerFlags_def messageColumnIDSetting_def
  messageColumnIDStreamFlag_def messageColumnIDMsgKey_def messageColumnIDExpire_def messageColumnIDClientSeq_def
  messageColumnIDClientMsgNo_def messageColumnIDStreamNo_def messageColumnIDStreamID_def
  messageColumnIDTimestamp_def messageColumnIDChannelID_def messageColumnIDChannelType_def
  messageColumnIDTopic_def messageColumnIDFromUID_def messageColumnIDPayloadHash_def
  messageColumnIDPayloadSize_def messageColumnIDPayload_def messageColumnIDServerTimestampMS_def

definition messageValueVersion :: u8 where "messageValueVersion = 1"

section \<open>The reference encoder\<close>

definition header_writers :: "messageRow \<Rightarrow> (Writer \<Rightarrow> db_error + Writer) list" where
  "header_writers row =
     [WriterUint64 messageColumnIDMessageID (mr_MessageID row),
      WriterUint8 messageColumnIDFramerFlags (mr_FramerFlags row),
      WriterUint8 messageColumnIDSetting (mr_Setting row),
      WriterUint8 messageColumnIDStreamFlag (mr_StreamFlag row),
      WriterString messageColumnIDMsgKey (mr_MsgKey row),
      WriterUint64 messageColumnIDExpire (mr_Expire row),
      WriterUint64 messageColumnIDClientSeq (mr_ClientSeq row),
      WriterString messageColumnIDClientMsgNo (mr_ClientMsgNo row),
      WriterString messageColumnIDStreamNo (mr_StreamNo row),
      WriterUint64 messageColumnIDStreamID (mr_StreamID row),
      WriterInt64 messageColumnIDTimestamp (mr_Timestamp row),
      WriterString messageColumnIDChannelID (mr_ChannelID row),
      WriterUint8 messageColumnIDChannelType (mr_ChannelType row),
      WriterString messageColumnIDTopic (mr_Topic row),
      WriterString messageColumnIDFromUID (mr_FromUID row),
      WriterUint64 messageColumnIDPayloadHash (mr_PayloadHash row),
      WriterUint64 messageColumnIDPayloadSize (mr_PayloadSize row),
      WriterInt64 messageColumnIDServerTimestampMS (mr_ServerTimestampMS row)]"

definition encodeMessageHeader :: "key \<Rightarrow> messageRow \<Rightarrow> db_error + u8 list" where
  "encodeMessageHeader k row =
     (let row = normalizeMessageRow row
      in case validate_row row of
           Some e \<Rightarrow> Inl e
         | None \<Rightarrow>
             (case run_writes (header_writers row) EmptyWriter of
                Inl e \<Rightarrow> Inl e
              | Inr w \<Rightarrow> Wrap k messageValueVersion CodecColumns FlagChecksum (WriterBytes w)))"

definition encodeMessagePayload :: "key \<Rightarrow> messageRow \<Rightarrow> db_error + u8 list" where
  "encodeMessagePayload k row =
     (let row = normalizeMessageRow row
      in case validate_row row of
           Some e \<Rightarrow> Inl e
         | None \<Rightarrow> (case WriterRawBytes messageColumnIDPayload (mr_Payload row) EmptyWriter of
                Inl e \<Rightarrow> Inl e
              | Inr w \<Rightarrow> Wrap k messageValueVersion CodecColumns FlagChecksum (WriterBytes w)))"

section \<open>Lengths\<close>

definition uvarintLen :: "u64 \<Rightarrow> nat" where
  "uvarintLen v = length (put_uvarint v)"

text \<open>The pointer \<open>last\<close> of the Go code is an argument and part of the result.\<close>

definition encodedColumnBeginLen :: "u16 \<Rightarrow> u16 \<Rightarrow> nat \<times> u16" where
  "encodedColumnBeginLen prev columnID =
     (let delta = columnID - prev
      in (if delta \<le> 15 then 1 else 1 + uvarintLen (ucast delta), columnID))"

definition encodedStringColumnLen :: "u16 \<Rightarrow> u8 list \<Rightarrow> u16 \<Rightarrow> nat \<times> u16" where
  "encodedStringColumnLen columnID val prev =
     (let (n, prev) = encodedColumnBeginLen prev columnID
      in (n + uvarintLen (of_nat (length val)) + length val, prev))"

definition encodedUint64ColumnLen :: "u16 \<Rightarrow> u64 \<Rightarrow> u16 \<Rightarrow> nat \<times> u16" where
  "encodedUint64ColumnLen columnID val prev =
     (let (n, prev) = encodedColumnBeginLen prev columnID in (n + uvarintLen val, prev))"

definition encodedInt64ColumnLen :: "u16 \<Rightarrow> u64 \<Rightarrow> u16 \<Rightarrow> nat \<times> u16" where
  "encodedInt64ColumnLen columnID val prev =
     (let (n, prev) = encodedColumnBeginLen prev columnID in (n + uvarintLen (encodeZigZagInt64 val), prev))"

definition encodedUint8ColumnLen :: "u16 \<Rightarrow> u8 \<Rightarrow> u16 \<Rightarrow> nat \<times> u16" where
  "encodedUint8ColumnLen columnID val prev =
     (let (n, prev) = encodedColumnBeginLen prev columnID in (n + 1, prev))"

fun sum_lens :: "(u16 \<Rightarrow> nat \<times> u16) list \<Rightarrow> nat \<Rightarrow> u16 \<Rightarrow> nat" where
  "sum_lens [] n prev = n"
| "sum_lens (f # fs) n prev = (let (m, prev) = f prev in sum_lens fs (n + m) prev)"

definition header_lens :: "messageRow \<Rightarrow> (u16 \<Rightarrow> nat \<times> u16) list" where
  "header_lens row =
     [encodedUint64ColumnLen messageColumnIDMessageID (mr_MessageID row),
      encodedUint8ColumnLen messageColumnIDFramerFlags (mr_FramerFlags row),
      encodedUint8ColumnLen messageColumnIDSetting (mr_Setting row),
      encodedUint8ColumnLen messageColumnIDStreamFlag (mr_StreamFlag row),
      encodedStringColumnLen messageColumnIDMsgKey (mr_MsgKey row),
      encodedUint64ColumnLen messageColumnIDExpire (mr_Expire row),
      encodedUint64ColumnLen messageColumnIDClientSeq (mr_ClientSeq row),
      encodedStringColumnLen messageColumnIDClientMsgNo (mr_ClientMsgNo row),
      encodedStringColumnLen messageColumnIDStreamNo (mr_StreamNo row),
      encodedUint64ColumnLen messageColumnIDStreamID (mr_StreamID row),
      encodedInt64ColumnLen messageColumnIDTimestamp (mr_Timestamp row),
      encodedStringColumnLen messageColumnIDChannelID (mr_ChannelID row),
      encodedUint8ColumnLen messageColumnIDChannelType (mr_ChannelType row),
      encodedStringColumnLen messageColumnIDTopic (mr_Topic row),
      encodedStringColumnLen messageColumnIDFromUID (mr_FromUID row),
      encodedUint64ColumnLen messageColumnIDPayloadHash (mr_PayloadHash row),
      encodedUint64ColumnLen messageColumnIDPayloadSize (mr_PayloadSize row),
      encodedInt64ColumnLen messageColumnIDServerTimestampMS (mr_ServerTimestampMS row)]"

definition encodedMessageHeaderLen :: "messageRow \<Rightarrow> nat" where
  "encodedMessageHeaderLen row =
     (let row = normalizeMessageRow row
      in EnvelopeLen (sum_lens (header_lens row) 0 0))"

definition encodedMessagePayloadColumnLen :: "nat \<Rightarrow> nat" where
  "encodedMessagePayloadColumnLen payloadLen =
     1 + uvarintLen (ucast messageColumnIDPayload) + uvarintLen (of_nat payloadLen) + payloadLen"

definition encodedMessagePayloadLen :: "messageRow \<Rightarrow> nat" where
  "encodedMessagePayloadLen row = EnvelopeLen (encodedMessagePayloadColumnLen (length (mr_Payload row)))"

section \<open>The encoder of the append path\<close>

type_synonym cursor = "u8 list \<times> nat \<times> u16"

definition putUvarint :: "cursor \<Rightarrow> u64 \<Rightarrow> cursor option" where
  "putUvarint c v =
     (case c of (dst, pos, prev) \<Rightarrow>
        map_option (\<lambda>dst. (dst, pos + uvarintLen v, prev)) (put_at dst pos (put_uvarint v)))"

definition putColumnBegin :: "u16 \<Rightarrow> ColumnType \<Rightarrow> cursor \<Rightarrow> cursor option" where
  "putColumnBegin columnID typ c =
     (case c of (dst, pos, prev) \<Rightarrow>
        let delta = columnID - prev
        in if delta \<le> 15
           then map_option (\<lambda>dst. (dst, pos + 1, columnID)) (put_at dst pos [ucast (push_bit 4 delta) OR typ])
           else Option.bind (put_at dst pos [typ]) (\<lambda>dst. putUvarint (dst, pos + 1, columnID) (ucast delta)))"

definition putStringColumn :: "u16 \<Rightarrow> u8 list \<Rightarrow> cursor \<Rightarrow> cursor option" where
  "putStringColumn columnID val c =
     Option.bind (putColumnBegin columnID TypeString c) (\<lambda>c.
     Option.bind (putUvarint c (of_nat (length val))) (\<lambda>(dst, pos, prev).
     map_option (\<lambda>dst. (dst, pos + length val, prev)) (copy_at dst pos val)))"

definition putUint64Column :: "u16 \<Rightarrow> u64 \<Rightarrow> cursor \<Rightarrow> cursor option" where
  "putUint64Column columnID val c =
     Option.bind (putColumnBegin columnID TypeUint64 c) (\<lambda>c. putUvarint c val)"

definition putInt64Column :: "u16 \<Rightarrow> u64 \<Rightarrow> cursor \<Rightarrow> cursor option" where
  "putInt64Column columnID val c =
     Option.bind (putColumnBegin columnID TypeInt64 c) (\<lambda>c. putUvarint c (encodeZigZagInt64 val))"

definition putUint8Column :: "u16 \<Rightarrow> u8 \<Rightarrow> cursor \<Rightarrow> cursor option" where
  "putUint8Column columnID val c =
     Option.bind (putColumnBegin columnID TypeUint8 c) (\<lambda>(dst, pos, prev).
     map_option (\<lambda>dst. (dst, pos + 1, prev)) (put_at dst pos [val]))"

fun run_puts :: "(cursor \<Rightarrow> cursor option) list \<Rightarrow> cursor \<Rightarrow> cursor option" where
  "run_puts [] c = Some c"
| "run_puts (f # fs) c = Option.bind (f c) (run_puts fs)"

definition header_puts :: "messageRow \<Rightarrow> (cursor \<Rightarrow> cursor option) list" where
  "header_puts row =
     [putUint64Column messageColumnIDMessageID (mr_MessageID row),
      putUint8Column messageColumnIDFramerFlags (mr_FramerFlags row),
      putUint8Column messageColumnIDSetting (mr_Setting row),
      putUint8Column messageColumnIDStreamFlag (mr_StreamFlag row),
      putStringColumn messageColumnIDMsgKey (mr_MsgKey row),
      putUint64Column messageColumnIDExpire (mr_Expire row),
      putUint64Column messageColumnIDClientSeq (mr_ClientSeq row),
      putStringColumn messageColumnIDClientMsgNo (mr_ClientMsgNo row),
      putStringColumn messageColumnIDStreamNo (mr_StreamNo row),
      putUint64Column messageColumnIDStreamID (mr_StreamID row),
      putInt64Column messageColumnIDTimestamp (mr_Timestamp row),
      putStringColumn messageColumnIDChannelID (mr_ChannelID row),
      putUint8Column messageColumnIDChannelType (mr_ChannelType row),
      putStringColumn messageColumnIDTopic (mr_Topic row),
      putStringColumn messageColumnIDFromUID (mr_FromUID row),
      putUint64Column messageColumnIDPayloadHash (mr_PayloadHash row),
      putUint64Column messageColumnIDPayloadSize (mr_PayloadSize row),
      putInt64Column messageColumnIDServerTimestampMS (mr_ServerTimestampMS row)]"

definition encodeMessageHeaderTo :: "u8 list \<Rightarrow> key \<Rightarrow> messageRow \<Rightarrow> (db_error + u8 list) option" where
  "encodeMessageHeaderTo dst k row =
     (let row = normalizeMessageRow row
      in case validate_row row of
           Some e \<Rightarrow> Some (Inl e)
         | None \<Rightarrow>
             if length dst \<noteq> encodedMessageHeaderLen row then Some (Inl DBErrInvalidArgument)
             else map_option (\<lambda>(payload, pos, _).
                 if pos \<noteq> length payload then Inl DBErrInvalidArgument
                 else WrapTo (take (EnvelopeLen 0) dst @ payload) k messageValueVersion CodecColumns FlagChecksum payload)
               (run_puts (header_puts row) (drop (EnvelopeLen 0) dst, 0, 0)))"

definition encodeMessagePayloadTo :: "u8 list \<Rightarrow> key \<Rightarrow> messageRow \<Rightarrow> (db_error + u8 list) option" where
  "encodeMessagePayloadTo dst k row =
     (let row = normalizeMessageRow row
      in case validate_row row of
           Some e \<Rightarrow> Some (Inl e)
         | None \<Rightarrow>
             if length dst \<noteq> encodedMessagePayloadLen row then Some (Inl DBErrInvalidArgument)
             else map_option (\<lambda>payload.
                 WrapTo (take (EnvelopeLen 0) dst @ payload) k messageValueVersion CodecColumns FlagChecksum payload)
               (Option.bind (put_at (drop (EnvelopeLen 0) dst) 0 [TypeBytes]) (\<lambda>payload.
                Option.bind (putUvarint (payload, 1, 0) (ucast messageColumnIDPayload)) (\<lambda>c.
                Option.bind (putUvarint c (of_nat (length (mr_Payload row)))) (\<lambda>(payload, pos, _).
                copy_at payload pos (mr_Payload row))))))"

section \<open>Decoding\<close>

definition decodeMessageHeaderColumn :: "Scanner \<Rightarrow> messageRow \<Rightarrow> db_error + messageRow" where
  "decodeMessageHeaderColumn s row =
     (let i = sc_columnID s
      in if i = messageColumnIDMessageID then set_column (ScanUint64 s) (\<lambda>v. row\<lparr>mr_MessageID := v\<rparr>)
         else if i = messageColumnIDFramerFlags then set_column (ScanUint8 s) (\<lambda>v. row\<lparr>mr_FramerFlags := v\<rparr>)
         else if i = messageColumnIDSetting then set_column (ScanUint8 s) (\<lambda>v. row\<lparr>mr_Setting := v\<rparr>)
         else if i = messageColumnIDStreamFlag then set_column (ScanUint8 s) (\<lambda>v. row\<lparr>mr_StreamFlag := v\<rparr>)
         else if i = messageColumnIDMsgKey then set_column (ScanString s) (\<lambda>v. row\<lparr>mr_MsgKey := v\<rparr>)
         else if i = messageColumnIDExpire then set_column (ScanUint64 s) (\<lambda>v. row\<lparr>mr_Expire := v\<rparr>)
         else if i = messageColumnIDClientSeq then set_column (ScanUint64 s) (\<lambda>v. row\<lparr>mr_ClientSeq := v\<rparr>)
         else if i = messageColumnIDClientMsgNo then set_column (ScanString s) (\<lambda>v. row\<lparr>mr_ClientMsgNo := v\<rparr>)
         else if i = messageColumnIDStreamNo then set_column (ScanString s) (\<lambda>v. row\<lparr>mr_StreamNo := v\<rparr>)
         else if i = messageColumnIDStreamID then set_column (ScanUint64 s) (\<lambda>v. row\<lparr>mr_StreamID := v\<rparr>)
         else if i = messageColumnIDTimestamp then set_column (ScanInt64 s) (\<lambda>v. row\<lparr>mr_Timestamp := v\<rparr>)
         else if i = messageColumnIDChannelID then set_column (ScanString s) (\<lambda>v. row\<lparr>mr_ChannelID := v\<rparr>)
         else if i = messageColumnIDChannelType then set_column (ScanUint8 s) (\<lambda>v. row\<lparr>mr_ChannelType := v\<rparr>)
         else if i = messageColumnIDTopic then set_column (ScanString s) (\<lambda>v. row\<lparr>mr_Topic := v\<rparr>)
         else if i = messageColumnIDFromUID then set_column (ScanString s) (\<lambda>v. row\<lparr>mr_FromUID := v\<rparr>)
         else if i = messageColumnIDPayloadHash then set_column (ScanUint64 s) (\<lambda>v. row\<lparr>mr_PayloadHash := v\<rparr>)
         else if i = messageColumnIDPayloadSize then set_column (ScanUint64 s) (\<lambda>v. row\<lparr>mr_PayloadSize := v\<rparr>)
         else if i = messageColumnIDServerTimestampMS
         then set_column (ScanInt64 s) (\<lambda>v. row\<lparr>mr_ServerTimestampMS := v\<rparr>)
         else Inr row)"

definition decodePayloadColumn :: "Scanner \<Rightarrow> messageRow \<Rightarrow> db_error + messageRow" where
  "decodePayloadColumn s row =
     (if sc_columnID s \<noteq> messageColumnIDPayload then Inr row
      else set_column (ScanBytes s) (\<lambda>v. row\<lparr>mr_Payload := v\<rparr>))"

definition open_envelope :: "key \<Rightarrow> u8 list \<Rightarrow> db_error + u8 list" where
  "open_envelope k val =
     (case Unwrap k val of
        Inl e \<Rightarrow> Inl e
      | Inr env \<Rightarrow>
          if ev_Version env \<noteq> messageValueVersion \<or> ev_Codec env \<noteq> CodecColumns then Inl DBErrCorruptValue
          else Inr (ev_Payload env))"

definition decodeMessageHeader :: "key \<Rightarrow> u8 list \<Rightarrow> messageRow \<Rightarrow> db_error + messageRow" where
  "decodeMessageHeader k val row =
     (case open_envelope k val of
        Inl e \<Rightarrow> Inl e
      | Inr payload \<Rightarrow>
          (case decode_columns decodeMessageHeaderColumn (NewScanner payload) row of
             Inl e \<Rightarrow> Inl e
           | Inr row \<Rightarrow> if mr_MessageID row = 0 then Inl DBErrCorruptValue else Inr row))"

definition decodeMessagePayload :: "key \<Rightarrow> u8 list \<Rightarrow> messageRow \<Rightarrow> db_error + messageRow" where
  "decodeMessagePayload k val row =
     (case open_envelope k val of
        Inl e \<Rightarrow> Inl e
      | Inr payload \<Rightarrow> decode_columns decodePayloadColumn (NewScanner payload) row)"

end
