(* ===== verification/StoreEngine.thy ===== *)
theory StoreEngine
  imports KeySafety RowCodec
begin

text \<open>
  The ordered key-value engine under the stores (\<open>pkg/db/internal/engine\<close>, a wrapper of Pebble) as a parameter:
  \<open>eg_Get\<close> looks a key up, \<open>eg_Commit\<close> carries out a batch as a whole (\<open>None\<close> when it fails, nothing is written then),
  \<open>eg_Scan\<close> lists the entries from a key up to a key in the order of an iterator. Its contract is the locale
  \<open>ordered_engine\<close>, and an association list is one such engine.
\<close>

section \<open>The engine\<close>

datatype BatchOp = OpSet key "u8 list" | OpDelete key | OpDeleteRange key key

record 'db Engine =
  eg_Get :: "'db \<Rightarrow> key \<Rightarrow> u8 list option"
  eg_Commit :: "'db \<Rightarrow> BatchOp list \<Rightarrow> 'db option"
  eg_Scan :: "'db \<Rightarrow> key \<Rightarrow> key \<Rightarrow> (key \<times> u8 list) list"

definition scan_span :: "'db Engine \<Rightarrow> 'db \<Rightarrow> Span \<Rightarrow> (key \<times> u8 list) list" where
  "scan_span eng d s = eg_Scan eng d (span_Start s) (span_End s)"

section \<open>The engine's contract\<close>

fun apply_op :: "BatchOp \<Rightarrow> (key \<Rightarrow> u8 list option) \<Rightarrow> key \<Rightarrow> u8 list option" where
  "apply_op (OpSet k v) m = m(k := Some v)"
| "apply_op (OpDelete k) m = m(k := None)"
| "apply_op (OpDeleteRange lo hi) m = (\<lambda>k. if lo \<le> k \<and> k < hi then None else m k)"

abbreviation apply_ops :: "BatchOp list \<Rightarrow> (key \<Rightarrow> u8 list option) \<Rightarrow> key \<Rightarrow> u8 list option" where
  "apply_ops \<equiv> fold apply_op"

text \<open>
  What Pebble documents: a committed batch takes effect operation by operation, and an iterator lists
  the entries within its bounds in the order of their keys.
\<close>

locale batch_engine =
  fixes eng :: "'db Engine"
  assumes get_commit: "eg_Commit eng d ops = Some d' \<Longrightarrow> eg_Get eng d' = apply_ops ops (eg_Get eng d)"

locale ordered_engine = batch_engine +
  assumes scan_sorted: "sorted_wrt (<) (map fst (eg_Scan eng d lo hi))"
    and scan_entries: "(k, v) \<in> set (eg_Scan eng d lo hi) \<longleftrightarrow> lo \<le> k \<and> k < hi \<and> eg_Get eng d k = Some v"
begin

lemma scan_unique:
  assumes "sorted_wrt (<) (map fst es)" "\<And>k v. (k, v) \<in> set es \<longleftrightarrow> lo \<le> k \<and> k < hi \<and> P k \<and> eg_Get eng d k = Some v"
  shows "filter (\<lambda>(k, v). P k) (eg_Scan eng d lo hi) = es"
proof (rule map_sorted_distinct_set_unique [where f = fst])
  have s: "sorted_wrt (<) xs \<Longrightarrow> sorted xs \<and> distinct xs" for xs :: "key list"
    using strict_sorted_iff by blast
  show "set (filter (\<lambda>(k, v). P k) (eg_Scan eng d lo hi)) = set es"
    using assms(2) scan_entries by auto
  have "sorted_wrt (<) (map fst (filter (\<lambda>(k, v). P k) (eg_Scan eng d lo hi)))"
    using scan_sorted [of d lo hi] by (simp add: sorted_wrt_map sorted_wrt_filter)
  then show "sorted (map fst (filter (\<lambda>(k, v). P k) (eg_Scan eng d lo hi)))"
    "distinct (map fst (filter (\<lambda>(k, v). P k) (eg_Scan eng d lo hi)))" using s by auto
  show "sorted (map fst es)" "distinct (map fst es)" using s assms(1) by auto
  show "inj_on fst (set (filter (\<lambda>(k, v). P k) (eg_Scan eng d lo hi)) \<union> set es)"
    using assms(2) scan_entries by (auto simp: inj_on_def)
qed

end

text \<open>An association list is such an engine.\<close>

fun list_op :: "BatchOp \<Rightarrow> (key \<times> u8 list) list \<Rightarrow> (key \<times> u8 list) list" where
  "list_op (OpSet k v) es = AList.update k v es"
| "list_op (OpDelete k) es = AList.delete k es"
| "list_op (OpDeleteRange lo hi) es = filter (\<lambda>(k, v). \<not> (lo \<le> k \<and> k < hi)) es"

definition list_scan :: "(key \<times> u8 list) list \<Rightarrow> key \<Rightarrow> key \<Rightarrow> (key \<times> u8 list) list" where
  "list_scan es lo hi = sort_key fst (filter (\<lambda>(k, v). lo \<le> k \<and> k < hi) (AList.clearjunk es))"

definition list_engine :: "(key \<times> u8 list) list Engine" where
  "list_engine = \<lparr>eg_Get = map_of, eg_Commit = (\<lambda>es ops. Some (fold list_op ops es)), eg_Scan = list_scan\<rparr>"

lemma map_of_list_op: "map_of (list_op x es) = apply_op x (map_of es)"
proof (cases x)
  case (OpDeleteRange lo hi)
  have "map_of (filter (\<lambda>(k, v). \<not> (lo \<le> k \<and> k < hi)) es) k = (if lo \<le> k \<and> k < hi then None else map_of es k)" for k
    by (induction es) auto
  with OpDeleteRange show ?thesis by auto
qed (simp_all add: update_conv' delete_conv')

lemma map_of_list_ops: "map_of (fold list_op ops es) = apply_ops ops (map_of es)"
  by (induction ops arbitrary: es) (simp_all add: map_of_list_op)

interpretation list_engine: ordered_engine list_engine
proof
  fix d d' ops lo hi k v
  show "eg_Commit list_engine d ops = Some d' \<Longrightarrow> eg_Get list_engine d' = apply_ops ops (eg_Get list_engine d)"
    by (auto simp: list_engine_def map_of_list_ops)
  have "distinct (map fst (filter (\<lambda>(k, v). lo \<le> k \<and> k < hi) (AList.clearjunk d)))"
    by (rule distinct_map_filter) (rule distinct_clearjunk)
  then have "distinct (map fst (list_scan d lo hi))"
    by (metis (mono_tags, lifting) list_scan_def distinct_map distinct_sort set_sort)
  then show "sorted_wrt (<) (map fst (eg_Scan list_engine d lo hi))"
    by (simp add: list_engine_def strict_sorted_iff list_scan_def)
  have "map_of d k = map_of (AList.clearjunk d) k" by (simp add: map_of_clearjunk)
  moreover have "map_of (AList.clearjunk d) k = Some v \<longleftrightarrow> (k, v) \<in> set (AList.clearjunk d)"
    by (intro map_of_eq_Some_iff distinct_clearjunk)
  ultimately show "(k, v) \<in> set (eg_Scan list_engine d lo hi) \<longleftrightarrow> lo \<le> k \<and> k < hi \<and> eg_Get list_engine d k = Some v"
    by (auto simp: list_engine_def list_scan_def)
qed

end
