(* ===== verification/MsgStore.thy ===== *)
theory MsgStore
  imports MsgRow StoreEngine
begin

text \<open>
  The log of a channel over the ordered key-value engine (\<open>pkg/db/message\<close>). The context is live, the log and its engine are not nil, and
  reads of the engine do not fail. An operation that takes \<open>appendMu\<close> runs as one step; it returns its
  result, the engine's state and the log with its cached frontier.
\<close>

section \<open>Data\<close>

record ChannelID =
  ci_ID :: "u8 list"
  ci_Type :: u8

record Record =
  rc_ID :: u64
  rc_ClientMsgNo :: "u8 list"
  rc_FromUID :: "u8 list"
  rc_Payload :: "u8 list"
  rc_SizeBytes :: int
  rc_ServerTimestampMS :: u64

record AppendResult =
  ar_BaseSeq :: u64
  ar_LastSeq :: u64
  ar_Count :: nat

definition zero_AppendResult :: AppendResult where
  "zero_AppendResult = \<lparr>ar_BaseSeq = 0, ar_LastSeq = 0, ar_Count = 0\<rparr>"

record Message =
  mg_MessageSeq :: u64
  mg_MessageID :: u64
  mg_ClientMsgNo :: "u8 list"
  mg_FromUID :: "u8 list"
  mg_PayloadHash :: u64
  mg_Payload :: "u8 list"
  mg_ServerTimestampMS :: u64

record IdempotencyKey =
  ik_FromUID :: "u8 list"
  ik_ClientMsgNo :: "u8 list"

record IdempotencyHit =
  ih_MessageSeq :: u64
  ih_MessageID :: u64
  ih_Offset :: u64
  ih_PayloadHash :: u64

record Checkpoint =
  cp_Epoch :: u64
  cp_LogStartOffset :: u64
  cp_HW :: u64

record EpochPoint =
  ep_Epoch :: u64
  ep_StartOffset :: u64

record Snapshot =
  sn_Epoch :: u64
  sn_EndOffset :: u64
  sn_Payload :: "u8 list"

record RetentionState =
  rt_Local :: u64
  rt_Physical :: u64
  rt_RetainedMax :: u64

definition zero_RetentionState :: RetentionState where
  "zero_RetentionState = \<lparr>rt_Local = 0, rt_Physical = 0, rt_RetainedMax = 0\<rparr>"

record RetentionTrimOptions =
  to_MaxMessages :: int
  to_MaxBytes :: int

record RetentionTrimResult =
  tr_DeletedThroughSeq :: u64
  tr_Deleted :: nat
  tr_More :: bool

type_synonym AppendMode = u8

definition AppendStrict :: AppendMode where "AppendStrict = 0"
definition AppendTrustedContiguous :: AppendMode where "AppendTrustedContiguous = 1"

record AppendOptions =
  ao_Mode :: AppendMode
  ao_BaseSeq :: u64

record ReadOptions =
  ro_Limit :: int
  ro_MaxBytes :: int

record MessagePage =
  mp_Messages :: "Message list"
  mp_NextBeforeSeq :: u64
  mp_HasMore :: bool

section \<open>The key cache of the append path\<close>

text \<open>
  The writers fill a buffer of exactly the length that the length functions give, so the key is the
  prefix followed by the parts.
\<close>

record appendKeyCache =
  kc_rowPrefix :: key
  kc_messageIDIndexPrefix :: key
  kc_clientMsgNoIndexPrefix :: key
  kc_idempotencyIndexPrefix :: key
  kc_catalogKey :: key
  kc_catalogValue :: "u8 list"

definition encodeCatalogValue :: "ChannelID \<Rightarrow> u8 list option" where
  "encodeCatalogValue i = map_option (\<lambda>bs. bs @ [ci_Type i]) (AppendString (ci_ID i) [])"

definition decodeCatalogValue :: "u8 list \<Rightarrow> db_error + ChannelID" where
  "decodeCatalogValue bs =
     (case ReadString bs of
        Some (i, [t]) \<Rightarrow> Inr \<lparr>ci_ID = i, ci_Type = t\<rparr>
      | _ \<Rightarrow> Inl DBErrCorruptValue)"

definition newAppendKeyCache :: "ChannelKeyBytes \<Rightarrow> ChannelID \<Rightarrow> appendKeyCache option" where
  "newAppendKeyCache k i =
     Option.bind (encodeMessageRowPrefix k) (\<lambda>rowPrefix.
     Option.bind (encodeMessageIndexPrefix k messageIndexIDMessageID) (\<lambda>idPrefix.
     Option.bind (encodeMessageIndexPrefix k messageIndexIDClientMsgNo) (\<lambda>clientPrefix.
     Option.bind (encodeMessageIndexPrefix k messageIndexIDFromUIDClientMsgNo) (\<lambda>idemPrefix.
     Option.bind (encodeCatalogKey k) (\<lambda>catalogKey.
     Option.bind (encodeCatalogValue i) (\<lambda>catalogValue.
       Some \<lparr>kc_rowPrefix = rowPrefix, kc_messageIDIndexPrefix = idPrefix,
         kc_clientMsgNoIndexPrefix = clientPrefix, kc_idempotencyIndexPrefix = idemPrefix,
         kc_catalogKey = catalogKey, kc_catalogValue = catalogValue\<rparr>))))))"

definition maxAppendKeyStringLen :: nat where "maxAppendKeyStringLen = 2 ^ 16 - 1"

definition appendKeyString :: "u8 list \<Rightarrow> db_error + u8 list" where
  "appendKeyString val =
     (if maxAppendKeyStringLen < length val then Inl DBPanic else Inr (put16 (of_nat (length val)) @ val))"

definition messageRowKey :: "appendKeyCache \<Rightarrow> u64 \<Rightarrow> u16 \<Rightarrow> key" where
  "messageRowKey c seq familyID = kc_rowPrefix c @ put64 seq @ put16 familyID"

definition messageIDIndexKey :: "appendKeyCache \<Rightarrow> u64 \<Rightarrow> key" where
  "messageIDIndexKey c messageID = kc_messageIDIndexPrefix c @ put64 messageID"

definition clientMsgNoIndexKey :: "appendKeyCache \<Rightarrow> u8 list \<Rightarrow> u64 \<Rightarrow> db_error + key" where
  "clientMsgNoIndexKey c clientMsgNo seq =
     bind_res (appendKeyString clientMsgNo) (\<lambda>s. Inr (kc_clientMsgNoIndexPrefix c @ s @ put64 seq))"

definition idempotencyIndexKey :: "appendKeyCache \<Rightarrow> u8 list \<Rightarrow> u8 list \<Rightarrow> db_error + key" where
  "idempotencyIndexKey c fromUID clientMsgNo =
     bind_res (appendKeyString fromUID) (\<lambda>f.
     bind_res (appendKeyString clientMsgNo) (\<lambda>s. Inr (kc_idempotencyIndexPrefix c @ f @ s)))"

section \<open>The log\<close>

record ChannelLog =
  cl_key :: ChannelKeyBytes
  cl_id :: ChannelID
  cl_cache :: appendKeyCache
  cl_leo :: u64
  cl_loaded :: bool

text \<open>The handle that \<open>MessageDB.Channel\<close> creates for a channel it has not seen.\<close>

definition NewChannelLog :: "ChannelKeyBytes \<Rightarrow> ChannelID \<Rightarrow> ChannelLog option" where
  "NewChannelLog k i =
     map_option (\<lambda>c. \<lparr>cl_key = k, cl_id = i, cl_cache = c, cl_leo = 0, cl_loaded = False\<rparr>) (newAppendKeyCache k i)"

definition stageCatalog :: "ChannelLog \<Rightarrow> BatchOp list" where
  "stageCatalog l = [OpSet (kc_catalogKey (cl_cache l)) (kc_catalogValue (cl_cache l))]"

section \<open>Retention state\<close>

definition validateRetentionState :: "RetentionState \<Rightarrow> db_error option" where
  "validateRetentionState st =
     (if rt_Local st = 0 \<and> 0 < rt_RetainedMax st then Some DBErrCorruptValue
      else if rt_Local st < rt_Physical st then Some DBErrCorruptValue
      else if 0 < rt_Local st \<and> rt_RetainedMax st < rt_Local st then Some DBErrCorruptValue
      else None)"

definition retentionStateVersion :: u8 where "retentionStateVersion = 1"

definition encodeRetentionState :: "RetentionState \<Rightarrow> u8 list" where
  "encodeRetentionState st =
     retentionStateVersion # put64 (rt_Local st) @ put64 (rt_Physical st) @ put64 (rt_RetainedMax st)"

definition get_u64 :: "u8 list \<Rightarrow> nat \<Rightarrow> u64" where
  "get_u64 bs i = of_nat (be_val (take 8 (drop i bs)))"

definition decodeRetentionState :: "u8 list \<Rightarrow> db_error + RetentionState" where
  "decodeRetentionState bs =
     (if length bs \<noteq> 25 \<or> bs ! 0 \<noteq> retentionStateVersion then Inl DBErrCorruptValue
      else
        let st = \<lparr>rt_Local = get_u64 bs 1, rt_Physical = get_u64 bs 9, rt_RetainedMax = get_u64 bs 17\<rparr>
        in case validateRetentionState st of Some e \<Rightarrow> Inl e | None \<Rightarrow> Inr st)"

definition LoadRetentionState :: "'db Engine \<Rightarrow> 'db \<Rightarrow> ChannelLog \<Rightarrow> db_error + RetentionState option" where
  "LoadRetentionState eng d l =
     bind_res (key_or_panic (encodeRetentionStateKey (cl_key l))) (\<lambda>k.
       case eg_Get eng d k of
         None \<Rightarrow> Inr None
       | Some bs \<Rightarrow> bind_res (decodeRetentionState bs) (\<lambda>st. Inr (Some st)))"

section \<open>The frontier\<close>

definition row_seq :: "ChannelKeyBytes \<Rightarrow> key \<Rightarrow> (u64 \<times> u16) option" where
  "row_seq ck k = (case decodeMessageRowKey ck k of Some r \<Rightarrow> r | None \<Rightarrow> None)"

definition max_header_seq :: "ChannelKeyBytes \<Rightarrow> (key \<times> u8 list) list \<Rightarrow> u64" where
  "max_header_seq ck entries =
     foldl (\<lambda>leo (k, _). case row_seq ck k of
         None \<Rightarrow> leo
       | Some (seq, familyID) \<Rightarrow>
           if familyID \<noteq> messageHeaderFamilyID then leo else if leo < seq then seq else leo) 0 entries"

definition recoverLEO :: "'db Engine \<Rightarrow> 'db \<Rightarrow> ChannelLog \<Rightarrow> db_error + u64" where
  "recoverLEO eng d l =
     bind_res (key_or_panic (encodeMessageRowPrefix (cl_key l))) (\<lambda>prefix.
     let leo = max_header_seq (cl_key l) (scan_span eng d (NewPrefixSpan prefix))
     in bind_res (LoadRetentionState eng d l) (\<lambda>st.
        Inr (case st of
               Some st \<Rightarrow> if leo < rt_RetainedMax st then rt_RetainedMax st else leo
             | None \<Rightarrow> leo)))"

definition loadLEOLocked :: "'db Engine \<Rightarrow> 'db \<Rightarrow> ChannelLog \<Rightarrow> (db_error + u64) \<times> ChannelLog" where
  "loadLEOLocked eng d l =
     (if cl_loaded l then (Inr (cl_leo l), l)
      else case recoverLEO eng d l of
        Inl e \<Rightarrow> (Inl e, l)
      | Inr leo \<Rightarrow> (Inr leo, l\<lparr>cl_leo := leo, cl_loaded := True\<rparr>))"

section \<open>Reading\<close>

definition messageFromRow :: "messageRow \<Rightarrow> Message" where
  "messageFromRow row =
     \<lparr>mg_MessageSeq = mr_MessageSeq row, mg_MessageID = mr_MessageID row, mg_ClientMsgNo = mr_ClientMsgNo row,
      mg_FromUID = mr_FromUID row, mg_PayloadHash = mr_PayloadHash row, mg_Payload = mr_Payload row,
      mg_ServerTimestampMS = mr_ServerTimestampMS row\<rparr>"

definition validateMaterializedMessageRow :: "messageRow \<Rightarrow> db_error option" where
  "validateMaterializedMessageRow row =
     (if mr_MessageID row = 0 then Some DBErrCorruptValue
      else if mr_PayloadHash row \<noteq> hashPayload (mr_Payload row) then Some DBErrCorruptState
      else None)"

definition getRowBySeq :: "'db Engine \<Rightarrow> 'db \<Rightarrow> ChannelLog \<Rightarrow> u64 \<Rightarrow> db_error + messageRow option" where
  "getRowBySeq eng d l seq =
     (if seq = 0 then Inl DBErrInvalidArgument
      else
        bind_res (key_or_panic (encodeMessageRowKey (cl_key l) seq messageHeaderFamilyID)) (\<lambda>headerKey.
        bind_res (key_or_panic (encodeMessageRowKey (cl_key l) seq messagePayloadFamilyID)) (\<lambda>payloadKey.
          case (eg_Get eng d headerKey, eg_Get eng d payloadKey) of
            (None, None) \<Rightarrow> Inr None
          | (Some header, Some payload) \<Rightarrow>
              bind_res (decodeMessageHeader headerKey header (zero_row\<lparr>mr_MessageSeq := seq\<rparr>)) (\<lambda>row.
              bind_res (decodeMessagePayload payloadKey payload row) (\<lambda>row.
                case validateMaterializedMessageRow row of
                  Some e \<Rightarrow> Inl e
                | None \<Rightarrow> Inr (Some row)))
          | _ \<Rightarrow> Inl DBErrCorruptState)))"

definition GetBySeq :: "'db Engine \<Rightarrow> 'db \<Rightarrow> ChannelLog \<Rightarrow> u64 \<Rightarrow> db_error + Message option" where
  "GetBySeq eng d l seq = bind_res (getRowBySeq eng d l seq) (\<lambda>row. Inr (map_option messageFromRow row))"

text \<open>
  \<open>appendReadMessage\<close>, for any kind of output with the length of its payload; the flag says to
  stop.
\<close>

definition appendReadMessage :: "('m \<Rightarrow> nat) \<Rightarrow> 'm list \<Rightarrow> nat \<Rightarrow> 'm \<Rightarrow> ReadOptions \<Rightarrow> 'm list \<times> nat \<times> bool" where
  "appendReadMessage payloadLen messages totalBytes msg opts =
     (if 0 < ro_MaxBytes opts \<and> messages \<noteq> [] \<and> ro_MaxBytes opts < int (totalBytes + payloadLen msg)
      then (messages, totalBytes, True)
      else
        let messages = messages @ [msg]; totalBytes = totalBytes + payloadLen msg
        in (messages, totalBytes, 0 < ro_Limit opts \<and> ro_Limit opts \<le> int (length messages)))"

record 'm ReadState =
  rd_messages :: "'m list"
  rd_totalBytes :: nat
  rd_current :: messageRow
  rd_currentSeq :: u64
  rd_haveRow :: bool
  rd_haveHeader :: bool
  rd_havePayload :: bool

definition read_start :: "'m ReadState" where
  "read_start = \<lparr>rd_messages = [], rd_totalBytes = 0, rd_current = zero_row, rd_currentSeq = 0,
     rd_haveRow = False, rd_haveHeader = False, rd_havePayload = False\<rparr>"

definition flush_row :: "(messageRow \<Rightarrow> 'm) \<Rightarrow> ('m \<Rightarrow> nat) \<Rightarrow> ReadOptions \<Rightarrow> 'm ReadState \<Rightarrow> db_error + (bool \<times> 'm ReadState)" where
  "flush_row out payloadLen opts r =
     (if \<not> rd_haveRow r then Inr (False, r)
      else if \<not> rd_haveHeader r \<or> \<not> rd_havePayload r then Inl DBErrCorruptState
      else case validateMaterializedMessageRow (rd_current r) of
        Some e \<Rightarrow> Inl e
      | None \<Rightarrow>
          let (messages, totalBytes, stop) =
                appendReadMessage payloadLen (rd_messages r) (rd_totalBytes r) (out (rd_current r)) opts
          in Inr (stop, \<lparr>rd_messages = messages, rd_totalBytes = totalBytes, rd_current = zero_row,
               rd_currentSeq = 0, rd_haveRow = False, rd_haveHeader = False, rd_havePayload = False\<rparr>))"

definition read_family :: "key \<Rightarrow> u8 list \<Rightarrow> u16 \<Rightarrow> 'm ReadState \<Rightarrow> db_error + 'm ReadState" where
  "read_family k val familyID r =
     (if familyID = messageHeaderFamilyID then
        bind_res (decodeMessageHeader k val (rd_current r)) (\<lambda>row.
          Inr (r\<lparr>rd_current := row, rd_haveHeader := True\<rparr>))
      else if familyID = messagePayloadFamilyID then
        bind_res (decodeMessagePayload k val (rd_current r)) (\<lambda>row.
          Inr (r\<lparr>rd_current := row, rd_havePayload := True\<rparr>))
      else Inr r)"

fun read_loop ::
  "(messageRow \<Rightarrow> 'm) \<Rightarrow> ('m \<Rightarrow> nat) \<Rightarrow> ReadOptions \<Rightarrow> u64 \<Rightarrow> ChannelKeyBytes \<Rightarrow> (key \<times> u8 list) list \<Rightarrow> 'm ReadState \<Rightarrow>
   db_error + 'm list" where
  "read_loop out payloadLen opts maxSeq ck [] r =
     bind_res (flush_row out payloadLen opts r) (\<lambda>(_, r). Inr (rd_messages r))"
| "read_loop out payloadLen opts maxSeq ck ((k, val) # es) r =
     (case row_seq ck k of
        None \<Rightarrow> read_loop out payloadLen opts maxSeq ck es r
      | Some (seq, familyID) \<Rightarrow>
          if 0 < maxSeq \<and> maxSeq < seq then
            bind_res (flush_row out payloadLen opts r) (\<lambda>(_, r). Inr (rd_messages r))
          else if \<not> rd_haveRow r \<or> seq \<noteq> rd_currentSeq r then
            bind_res (flush_row out payloadLen opts r) (\<lambda>(stop, r).
              if stop then Inr (rd_messages r)
              else
                bind_res (read_family k val familyID
                    (r\<lparr>rd_current := zero_row\<lparr>mr_MessageSeq := seq\<rparr>, rd_currentSeq := seq, rd_haveRow := True\<rparr>))
                  (read_loop out payloadLen opts maxSeq ck es))
          else
            bind_res (read_family k val familyID r) (read_loop out payloadLen opts maxSeq ck es))"

definition read_from ::
  "(messageRow \<Rightarrow> 'm) \<Rightarrow> ('m \<Rightarrow> nat) \<Rightarrow> 'db Engine \<Rightarrow> 'db \<Rightarrow> ChannelLog \<Rightarrow> u64 \<Rightarrow> u64 \<Rightarrow> ReadOptions \<Rightarrow> db_error + 'm list" where
  "read_from out payloadLen eng d l fromSeq maxSeq opts =
     bind_res (key_or_panic (encodeMessageRowPrefix (cl_key l))) (\<lambda>prefix.
     bind_res (key_or_panic (encodeMessageRowKey (cl_key l) fromSeq messageHeaderFamilyID)) (\<lambda>start.
       read_loop out payloadLen opts maxSeq (cl_key l)
         (eg_Scan eng d start (span_End (NewPrefixSpan prefix))) read_start))"

definition readForward :: "'db Engine \<Rightarrow> 'db \<Rightarrow> ChannelLog \<Rightarrow> u64 \<Rightarrow> u64 \<Rightarrow> ReadOptions \<Rightarrow> db_error + Message list" where
  "readForward = read_from messageFromRow (\<lambda>m. length (mg_Payload m))"

text \<open>\<open>readRows\<close> of \<open>compat.go\<close> repeats the loop with rows as its output.\<close>

definition readRows :: "'db Engine \<Rightarrow> 'db \<Rightarrow> ChannelLog \<Rightarrow> u64 \<Rightarrow> u64 \<Rightarrow> ReadOptions \<Rightarrow> db_error + messageRow list" where
  "readRows eng d l fromSeq maxSeq opts =
     read_from (\<lambda>row. row) (\<lambda>row. length (mr_Payload row)) eng d l (if fromSeq = 0 then 1 else fromSeq) maxSeq opts"

definition Read :: "'db Engine \<Rightarrow> 'db \<Rightarrow> ChannelLog \<Rightarrow> u64 \<Rightarrow> ReadOptions \<Rightarrow> db_error + Message list" where
  "Read eng d l fromSeq opts = readForward eng d l (if fromSeq = 0 then 1 else fromSeq) 0 opts"

fun take_messages :: "('m \<Rightarrow> nat) \<Rightarrow> ReadOptions \<Rightarrow> 'm list \<Rightarrow> nat \<Rightarrow> 'm list \<Rightarrow> 'm list" where
  "take_messages payloadLen opts messages totalBytes [] = messages"
| "take_messages payloadLen opts messages totalBytes (m # ms) =
     (case appendReadMessage payloadLen messages totalBytes m opts of
        (messages, totalBytes, stop) \<Rightarrow>
          if stop then messages else take_messages payloadLen opts messages totalBytes ms)"

definition ReadReverse :: "'db Engine \<Rightarrow> 'db \<Rightarrow> ChannelLog \<Rightarrow> u64 \<Rightarrow> ReadOptions \<Rightarrow> (db_error + Message list) \<times> ChannelLog" where
  "ReadReverse eng d l fromSeq opts =
     (let (start, l) = (if fromSeq = 0 then loadLEOLocked eng d l else (Inr fromSeq, l))
      in (bind_res start (\<lambda>fromSeq.
          bind_res (readForward eng d l 1 fromSeq \<lparr>ro_Limit = 0, ro_MaxBytes = 0\<rparr>) (\<lambda>all.
            Inr (take_messages (\<lambda>m. length (mg_Payload m)) opts [] 0 (rev all)))), l))"

fun last_visible :: "'db Engine \<Rightarrow> 'db \<Rightarrow> ChannelLog \<Rightarrow> u64 \<Rightarrow> (key \<times> u8 list) list \<Rightarrow> db_error + Message option" where
  "last_visible eng d l after [] = Inr None"
| "last_visible eng d l after ((k, _) # es) =
     (case row_seq (cl_key l) k of
        None \<Rightarrow> last_visible eng d l after es
      | Some (seq, familyID) \<Rightarrow>
          if seq \<le> after then Inr None
          else if familyID \<noteq> messageHeaderFamilyID then last_visible eng d l after es
          else bind_res (GetBySeq eng d l seq) (\<lambda>msg.
            case msg of Some m \<Rightarrow> Inr (Some m) | None \<Rightarrow> last_visible eng d l after es))"

definition GetLastVisibleMessage :: "'db Engine \<Rightarrow> 'db \<Rightarrow> ChannelLog \<Rightarrow> u64 \<Rightarrow> db_error + Message option" where
  "GetLastVisibleMessage eng d l visibleAfterSeq =
     bind_res (key_or_panic (encodeMessageRowPrefix (cl_key l))) (\<lambda>prefix.
       last_visible eng d l visibleAfterSeq (rev (scan_span eng d (NewPrefixSpan prefix))))"

section \<open>Indexes\<close>

definition messageIDIndexValueLen :: nat where "messageIDIndexValueLen = 8"

definition decodeMessageIDIndexValue :: "u8 list \<Rightarrow> db_error + u64" where
  "decodeMessageIDIndexValue bs =
     (if length bs \<noteq> messageIDIndexValueLen then Inl DBErrCorruptValue else Inr (get_u64 bs 0))"

definition lookupMessageIDSeqByKey :: "'db Engine \<Rightarrow> 'db \<Rightarrow> key \<Rightarrow> db_error + u64 option" where
  "lookupMessageIDSeqByKey eng d k =
     (case eg_Get eng d k of
        None \<Rightarrow> Inr None
      | Some bs \<Rightarrow> bind_res (decodeMessageIDIndexValue bs) (\<lambda>seq. Inr (Some seq)))"

definition lookupMessageIDSeq :: "'db Engine \<Rightarrow> 'db \<Rightarrow> ChannelLog \<Rightarrow> u64 \<Rightarrow> db_error + u64 option" where
  "lookupMessageIDSeq eng d l messageID =
     (if messageID = 0 then Inl DBErrInvalidArgument
      else lookupMessageIDSeqByKey eng d (messageIDIndexKey (cl_cache l) messageID))"

definition GetByMessageID :: "'db Engine \<Rightarrow> 'db \<Rightarrow> ChannelLog \<Rightarrow> u64 \<Rightarrow> db_error + Message option" where
  "GetByMessageID eng d l messageID =
     bind_res (lookupMessageIDSeq eng d l messageID) (\<lambda>seq.
       case seq of
         None \<Rightarrow> Inr None
       | Some seq \<Rightarrow>
           bind_res (getRowBySeq eng d l seq) (\<lambda>row.
             case row of
               None \<Rightarrow> Inl DBErrCorruptState
             | Some row \<Rightarrow>
                 if mr_MessageID row \<noteq> messageID then Inl DBErrCorruptState else Inr (Some (messageFromRow row))))"

fun client_seqs :: "ChannelKeyBytes \<Rightarrow> u8 list \<Rightarrow> u64 \<Rightarrow> (key \<times> u8 list) list \<Rightarrow> db_error + u64 list" where
  "client_seqs ck no before [] = Inr []"
| "client_seqs ck no before ((k, _) # es) =
     (case decodeMessageClientMsgNoIndexSeq ck no k of
        Some (Some seq) \<Rightarrow>
          bind_res (client_seqs ck no before es) (\<lambda>seqs.
            Inr (if before = 0 \<or> seq < before then seq # seqs else seqs))
      | _ \<Rightarrow> Inl DBErrCorruptValue)"

fun page_rows :: "'db Engine \<Rightarrow> 'db \<Rightarrow> ChannelLog \<Rightarrow> u8 list \<Rightarrow> int \<Rightarrow> u64 list \<Rightarrow> MessagePage \<Rightarrow> db_error + MessagePage" where
  "page_rows eng d l no limit [] page = Inr page"
| "page_rows eng d l no limit (seq # seqs) page =
     (if int (length (mp_Messages page)) = limit
      then Inr (page\<lparr>mp_HasMore := True, mp_NextBeforeSeq := mg_MessageSeq (last (mp_Messages page))\<rparr>)
      else
        bind_res (getRowBySeq eng d l seq) (\<lambda>row.
          case row of
            None \<Rightarrow> Inl DBErrCorruptState
          | Some row \<Rightarrow>
              if mr_ClientMsgNo row \<noteq> no then Inl DBErrCorruptState
              else page_rows eng d l no limit seqs (page\<lparr>mp_Messages := mp_Messages page @ [messageFromRow row]\<rparr>)))"

definition ListByClientMsgNo :: "'db Engine \<Rightarrow> 'db \<Rightarrow> ChannelLog \<Rightarrow> u8 list \<Rightarrow> u64 \<Rightarrow> int \<Rightarrow> db_error + MessagePage" where
  "ListByClientMsgNo eng d l clientMsgNo beforeSeq limit =
     (if clientMsgNo = [] \<or> limit \<le> 0 then Inl DBErrInvalidArgument
      else
        bind_res (key_or_panic (encodeMessageClientMsgNoIndexPrefix (cl_key l) clientMsgNo)) (\<lambda>prefix.
        bind_res (client_seqs (cl_key l) clientMsgNo beforeSeq (scan_span eng d (NewPrefixSpan prefix))) (\<lambda>seqs.
          page_rows eng d l clientMsgNo limit (rev seqs)
            \<lparr>mp_Messages = [], mp_NextBeforeSeq = 0, mp_HasMore = False\<rparr>)))"

section \<open>Idempotency\<close>

definition idempotencyIndexValueLen :: nat where "idempotencyIndexValueLen = 24"

definition idempotencyIndexValue :: "messageRow \<Rightarrow> db_error + u8 list" where
  "idempotencyIndexValue row =
     (let row = normalizeMessageRow row
      in case validate_row row of
           Some e \<Rightarrow> Inl e
         | None \<Rightarrow> Inr (put64 (mr_MessageSeq row) @ put64 (mr_MessageID row) @ put64 (mr_PayloadHash row)))"

definition decodeIdempotencyIndexValue :: "u8 list \<Rightarrow> db_error + IdempotencyHit" where
  "decodeIdempotencyIndexValue bs =
     (if length bs \<noteq> idempotencyIndexValueLen then Inl DBErrCorruptValue
      else
        let seq = get_u64 bs 0; off = (if 0 < seq then seq - 1 else 0)
        in Inr \<lparr>ih_MessageSeq = seq, ih_MessageID = get_u64 bs 8, ih_Offset = off, ih_PayloadHash = get_u64 bs 16\<rparr>)"

definition lookupIdempotencyByKey :: "'db Engine \<Rightarrow> 'db \<Rightarrow> ChannelLog \<Rightarrow> IdempotencyKey \<Rightarrow> key \<Rightarrow> db_error + IdempotencyHit option" where
  "lookupIdempotencyByKey eng d l ik k =
     (case eg_Get eng d k of
        None \<Rightarrow> Inr None
      | Some bs \<Rightarrow>
          bind_res (decodeIdempotencyIndexValue bs) (\<lambda>hit.
          bind_res (getRowBySeq eng d l (ih_MessageSeq hit)) (\<lambda>row.
            case row of
              None \<Rightarrow> Inl DBErrCorruptState
            | Some row \<Rightarrow>
                if mr_MessageID row \<noteq> ih_MessageID hit \<or> mr_PayloadHash row \<noteq> ih_PayloadHash hit
                  \<or> mr_FromUID row \<noteq> ik_FromUID ik \<or> mr_ClientMsgNo row \<noteq> ik_ClientMsgNo ik
                then Inl DBErrCorruptState
                else Inr (Some hit))))"

definition LookupIdempotency :: "'db Engine \<Rightarrow> 'db \<Rightarrow> ChannelLog \<Rightarrow> IdempotencyKey \<Rightarrow> db_error + IdempotencyHit option" where
  "LookupIdempotency eng d l ik =
     (if ik_FromUID ik = [] \<or> ik_ClientMsgNo ik = [] then Inl DBErrInvalidArgument
      else bind_res (idempotencyIndexKey (cl_cache l) (ik_FromUID ik) (ik_ClientMsgNo ik)) (\<lambda>k.
        lookupIdempotencyByKey eng d l ik k))"

end
