(* ===== verification/MsgLog.thy ===== *)
theory MsgLog
  imports MsgStore
begin

text \<open>
  The operations that change the log of a channel: appending, truncation, retention, checkpoints, epoch
  history, snapshots and the application of fetched records, and the catalog of channels.
\<close>

section \<open>Staging rows\<close>

text \<open>
  \<open>SetDeferred\<close> lets the caller fill a value buffer of the length it asked for; what the buffer
  holds before does not matter (\<open>header_encoders\<close>, \<open>payload_encoders\<close>).
\<close>

definition SetDeferred :: "key \<Rightarrow> nat \<Rightarrow> (u8 list \<Rightarrow> key \<Rightarrow> (db_error + u8 list) option) \<Rightarrow> db_error + BatchOp list" where
  "SetDeferred k valueLen fill =
     (case fill (replicate valueLen 0) k of
        None \<Rightarrow> Inl DBPanic
      | Some r \<Rightarrow> bind_res r (\<lambda>val. Inr [OpSet k val]))"

definition stageMessageHeaderRow :: "ChannelLog \<Rightarrow> messageRow \<Rightarrow> db_error + BatchOp list" where
  "stageMessageHeaderRow l row =
     SetDeferred (messageRowKey (cl_cache l) (mr_MessageSeq row) messageHeaderFamilyID)
       (encodedMessageHeaderLen row) (\<lambda>val k. encodeMessageHeaderTo val k row)"

definition stageMessagePayloadRow :: "ChannelLog \<Rightarrow> messageRow \<Rightarrow> db_error + BatchOp list" where
  "stageMessagePayloadRow l row =
     SetDeferred (messageRowKey (cl_cache l) (mr_MessageSeq row) messagePayloadFamilyID)
       (encodedMessagePayloadLen row) (\<lambda>val k. encodeMessagePayloadTo val k row)"

definition stageMessageIDIndexRow :: "ChannelLog \<Rightarrow> messageRow \<Rightarrow> db_error + BatchOp list" where
  "stageMessageIDIndexRow l row =
     Inr [OpSet (messageIDIndexKey (cl_cache l) (mr_MessageID row)) (put64 (mr_MessageSeq row))]"

definition stageClientMsgNoIndexRow :: "ChannelLog \<Rightarrow> messageRow \<Rightarrow> db_error + BatchOp list" where
  "stageClientMsgNoIndexRow l row =
     bind_res (clientMsgNoIndexKey (cl_cache l) (mr_ClientMsgNo row) (mr_MessageSeq row)) (\<lambda>k.
       Inr [OpSet k (put64 (mr_MessageSeq row))])"

definition stageIdempotencyIndexRow :: "ChannelLog \<Rightarrow> messageRow \<Rightarrow> db_error + BatchOp list" where
  "stageIdempotencyIndexRow l row =
     bind_res (idempotencyIndexKey (cl_cache l) (mr_FromUID row) (mr_ClientMsgNo row)) (\<lambda>k.
     bind_res (idempotencyIndexValue row) (\<lambda>val. Inr [OpSet k val]))"

fun stage_all :: "(db_error + BatchOp list) list \<Rightarrow> db_error + BatchOp list" where
  "stage_all [] = Inr []"
| "stage_all (s # ss) = bind_res s (\<lambda>ops. bind_res (stage_all ss) (\<lambda>ops'. Inr (ops @ ops')))"

definition stageMessageRow :: "ChannelLog \<Rightarrow> messageRow \<Rightarrow> db_error + BatchOp list" where
  "stageMessageRow l row =
     stage_all ([stageMessageHeaderRow l row, stageMessagePayloadRow l row, stageMessageIDIndexRow l row]
       @ (if mr_ClientMsgNo row \<noteq> [] then [stageClientMsgNoIndexRow l row] else [])
       @ (if mr_FromUID row \<noteq> [] \<and> mr_ClientMsgNo row \<noteq> [] then [stageIdempotencyIndexRow l row] else []))"

section \<open>Validation of an append\<close>

record AppendSeen =
  as_messageIDs :: "u64 list"
  as_firstKey :: "IdempotencyKey option"
  as_keys :: "IdempotencyKey list option"

definition newAppendValidationSeen :: AppendSeen where
  "newAppendValidationSeen = \<lparr>as_messageIDs = [], as_firstKey = None, as_keys = None\<rparr>"

definition rememberMessageID :: "u64 \<Rightarrow> AppendSeen \<Rightarrow> bool \<times> AppendSeen" where
  "rememberMessageID messageID s =
     (if messageID \<in> set (as_messageIDs s) then (True, s)
      else (False, s\<lparr>as_messageIDs := messageID # as_messageIDs s\<rparr>))"

definition rememberIdempotencyKey :: "IdempotencyKey \<Rightarrow> AppendSeen \<Rightarrow> bool \<times> AppendSeen" where
  "rememberIdempotencyKey k s =
     (case as_firstKey s of
        None \<Rightarrow> (False, s\<lparr>as_firstKey := Some k\<rparr>)
      | Some first \<Rightarrow>
          if first = k then (True, s)
          else
            let ks = (case as_keys s of None \<Rightarrow> [first] | Some ks \<Rightarrow> ks)
            in if k \<in> set ks then (True, s\<lparr>as_keys := Some ks\<rparr>)
               else (False, s\<lparr>as_keys := Some (k # ks)\<rparr>))"

definition row_idempotency_key :: "messageRow \<Rightarrow> IdempotencyKey" where
  "row_idempotency_key row = \<lparr>ik_FromUID = mr_FromUID row, ik_ClientMsgNo = mr_ClientMsgNo row\<rparr>"

definition check_message_id :: "'db Engine \<Rightarrow> 'db \<Rightarrow> ChannelLog \<Rightarrow> messageRow \<Rightarrow> db_error + unit" where
  "check_message_id eng d l row =
     bind_res (lookupMessageIDSeqByKey eng d (messageIDIndexKey (cl_cache l) (mr_MessageID row))) (\<lambda>existing.
       case existing of
         Some seq \<Rightarrow> if seq \<noteq> mr_MessageSeq row then Inl DBErrConflict else Inr ()
       | None \<Rightarrow> Inr ())"

definition check_idempotency :: "'db Engine \<Rightarrow> 'db \<Rightarrow> ChannelLog \<Rightarrow> messageRow \<Rightarrow> db_error + unit" where
  "check_idempotency eng d l row =
     bind_res (idempotencyIndexKey (cl_cache l) (mr_FromUID row) (mr_ClientMsgNo row)) (\<lambda>k.
     bind_res (lookupIdempotencyByKey eng d l (row_idempotency_key row) k) (\<lambda>hit.
       case hit of
         Some h \<Rightarrow> if ih_MessageSeq h \<noteq> mr_MessageSeq row then Inl DBErrConflict else Inr ()
       | None \<Rightarrow> Inr ()))"

definition validateAppendRow ::
  "'db Engine \<Rightarrow> 'db \<Rightarrow> ChannelLog \<Rightarrow> messageRow \<Rightarrow> AppendSeen \<Rightarrow> AppendMode \<Rightarrow> db_error + AppendSeen" where
  "validateAppendRow eng d l row seen mode =
     bind_res (check_error (validate_row row)) (\<lambda>_.
     let (dup, seen) = rememberMessageID (mr_MessageID row) seen
     in if dup then Inl DBErrConflict
        else
          bind_res (if mode = AppendStrict then check_message_id eng d l row else Inr ()) (\<lambda>_.
            if mr_FromUID row = [] \<or> mr_ClientMsgNo row = [] then Inr seen
            else
              let (dup, seen) = rememberIdempotencyKey (row_idempotency_key row) seen
              in if dup then Inl DBErrConflict
                 else if mode = AppendTrustedContiguous then Inr seen
                 else bind_res (check_idempotency eng d l row) (\<lambda>_. Inr seen)))"

definition recordToRow :: "ChannelLog \<Rightarrow> u64 \<Rightarrow> Record \<Rightarrow> u64 \<Rightarrow> messageRow" where
  "recordToRow l seq record defaultServerTimestampMS =
     zero_row\<lparr>mr_MessageSeq := seq, mr_MessageID := rc_ID record, mr_ClientMsgNo := rc_ClientMsgNo record,
       mr_FromUID := rc_FromUID record, mr_ChannelID := ci_ID (cl_id l), mr_ChannelType := ci_Type (cl_id l),
       mr_Payload := rc_Payload record,
       mr_ServerTimestampMS := (if rc_ServerTimestampMS record = 0 then defaultServerTimestampMS else rc_ServerTimestampMS record),
       mr_PayloadSize := (if 0 < rc_SizeBytes record then of_int (rc_SizeBytes record) else 0)\<rparr>"

section \<open>Appending\<close>

text \<open>The loop over the records; \<open>onRow\<close> adds to what the caller collects.\<close>

fun walk_rows ::
  "'db Engine \<Rightarrow> 'db \<Rightarrow> ChannelLog \<Rightarrow> AppendMode \<Rightarrow> u64 \<Rightarrow> (messageRow \<Rightarrow> 'acc \<Rightarrow> db_error + 'acc) \<Rightarrow> u64 \<Rightarrow>
   Record list \<Rightarrow> AppendSeen \<Rightarrow> 'acc \<Rightarrow> db_error + 'acc" where
  "walk_rows eng d l mode now onRow seq [] seen acc = Inr acc"
| "walk_rows eng d l mode now onRow seq (record # records) seen acc =
     (let row = normalizeMessageRow (recordToRow l seq record now)
      in bind_res (validateAppendRow eng d l row seen mode) (\<lambda>seen.
         bind_res (onRow row acc) (\<lambda>acc.
           walk_rows eng d l mode now onRow (seq + 1) records seen acc)))"

definition walkAppendRowsLocked ::
  "'db Engine \<Rightarrow> 'db \<Rightarrow> ChannelLog \<Rightarrow> Record list \<Rightarrow> AppendOptions \<Rightarrow> u64 \<Rightarrow> (messageRow \<Rightarrow> 'acc \<Rightarrow> db_error + 'acc) \<Rightarrow> 'acc \<Rightarrow>
   (db_error + AppendResult \<times> 'acc) \<times> ChannelLog" where
  "walkAppendRowsLocked eng d l records opts now onRow acc =
     (if ao_Mode opts \<noteq> AppendStrict \<and> ao_Mode opts \<noteq> AppendTrustedContiguous then (Inl DBErrInvalidArgument, l)
      else case loadLEOLocked eng d l of
        (Inl e, l) \<Rightarrow> (Inl e, l)
      | (Inr leo, l) \<Rightarrow>
          let base = leo + 1
          in if ao_BaseSeq opts \<noteq> 0 \<and> ao_BaseSeq opts \<noteq> base then (Inl DBErrConflict, l)
             else if records = [] then (Inr (zero_AppendResult, acc), l)
             else
               (bind_res (walk_rows eng d l (ao_Mode opts) now onRow base records newAppendValidationSeen acc) (\<lambda>acc.
                 Inr (\<lparr>ar_BaseSeq = base, ar_LastSeq = base + of_nat (length records - 1),
                   ar_Count = length records\<rparr>, acc)), l))"

definition prepareAndStageAppendLocked ::
  "'db Engine \<Rightarrow> 'db \<Rightarrow> ChannelLog \<Rightarrow> Record list \<Rightarrow> AppendOptions \<Rightarrow> u64 \<Rightarrow> (db_error + AppendResult \<times> BatchOp list) \<times> ChannelLog" where
  "prepareAndStageAppendLocked eng d l records opts now =
     walkAppendRowsLocked eng d l records opts now
       (\<lambda>row ops. bind_res (stageMessageRow l row) (\<lambda>ops'. Inr (ops @ ops'))) []"

definition prepareAppendRowsLocked ::
  "'db Engine \<Rightarrow> 'db \<Rightarrow> ChannelLog \<Rightarrow> Record list \<Rightarrow> AppendOptions \<Rightarrow> u64 \<Rightarrow> (db_error + AppendResult \<times> messageRow list) \<times> ChannelLog" where
  "prepareAppendRowsLocked eng d l records opts now =
     walkAppendRowsLocked eng d l records opts now (\<lambda>row rows. Inr (rows @ [row])) []"

definition publishAppendLocked :: "AppendResult \<Rightarrow> ChannelLog \<Rightarrow> ChannelLog" where
  "publishAppendLocked r l = (if ar_Count r = 0 then l else l\<lparr>cl_leo := ar_LastSeq r, cl_loaded := True\<rparr>)"

definition Append ::
  "'db Engine \<Rightarrow> 'db \<Rightarrow> ChannelLog \<Rightarrow> Record list \<Rightarrow> AppendOptions \<Rightarrow> u64 \<Rightarrow> (db_error + AppendResult) \<times> 'db \<times> ChannelLog" where
  "Append eng d l records opts now =
     (case prepareAndStageAppendLocked eng d l records opts now of
        (Inl e, l) \<Rightarrow> (Inl e, d, l)
      | (Inr (r, ops), l) \<Rightarrow>
          if ar_Count r = 0 then (Inr zero_AppendResult, d, l)
          else case eg_Commit eng d (ops @ stageCatalog l) of
            None \<Rightarrow> (Inl DBErrCommit, d, l)
          | Some d \<Rightarrow> (Inr r, d, publishAppendLocked r l))"

section \<open>Truncation\<close>

definition key_ops :: "key option \<Rightarrow> db_error + BatchOp list" where
  "key_ops k = bind_res (key_or_panic k) (\<lambda>k. Inr [OpDelete k])"

definition stageDeleteMessage :: "ChannelLog \<Rightarrow> Message \<Rightarrow> db_error + BatchOp list" where
  "stageDeleteMessage l msg =
     (let ck = cl_key l; seq = mg_MessageSeq msg
      in stage_all ([key_ops (encodeMessageRowKey ck seq messageHeaderFamilyID),
           key_ops (encodeMessageRowKey ck seq messagePayloadFamilyID)]
         @ (if mg_MessageID msg \<noteq> 0 then [key_ops (encodeMessageIDIndexKey ck (mg_MessageID msg))] else [])
         @ (if mg_ClientMsgNo msg \<noteq> [] then [key_ops (encodeMessageClientMsgNoIndexKey ck (mg_ClientMsgNo msg) seq)] else [])
         @ (if mg_FromUID msg \<noteq> [] \<and> mg_ClientMsgNo msg \<noteq> []
            then [key_ops (encodeMessageIdempotencyIndexKey ck (mg_FromUID msg) (mg_ClientMsgNo msg))] else [])))"

definition TruncateFrom :: "'db Engine \<Rightarrow> 'db \<Rightarrow> ChannelLog \<Rightarrow> u64 \<Rightarrow> db_error option \<times> 'db \<times> ChannelLog" where
  "TruncateFrom eng d l fromSeq =
     (let fromSeq = (if fromSeq = 0 then 1 else fromSeq)
      in case loadLEOLocked eng d l of
           (Inl e, l) \<Rightarrow> (Some e, d, l)
         | (Inr leo, l) \<Rightarrow>
             if leo < fromSeq then (None, d, l)
             else case bind_res (Read eng d l fromSeq \<lparr>ro_Limit = 0, ro_MaxBytes = 0\<rparr>) (\<lambda>messages.
                 stage_all (map (stageDeleteMessage l) messages)) of
               Inl e \<Rightarrow> (Some e, d, l)
             | Inr ops \<Rightarrow>
                 (case eg_Commit eng d (ops @ stageCatalog l) of
                    None \<Rightarrow> (Some DBErrCommit, d, l)
                  | Some d \<Rightarrow> (None, d, l\<lparr>cl_leo := fromSeq - 1, cl_loaded := True\<rparr>)))"

end
