(* ===== verification/MsgSystem.thy ===== *)
theory MsgSystem
  imports MsgLog
begin

text \<open>
  Retention, checkpoints, epoch history, snapshots, the application of fetched records and the
  catalog of channels (\<open>retention.go\<close>, \<open>checkpoint.go\<close>, \<open>history.go\<close>, \<open>snapshot.go\<close>, \<open>apply_fetch.go\<close>,
  \<open>catalog.go\<close>).
\<close>

text \<open>A batch that is committed with the catalog entry of its channel.\<close>

definition commit_ops :: "'db Engine \<Rightarrow> 'db \<Rightarrow> ChannelLog \<Rightarrow> db_error + BatchOp list \<Rightarrow> db_error option \<times> 'db" where
  "commit_ops eng d l ops =
     (case ops of
        Inl e \<Rightarrow> (Some e, d)
      | Inr ops \<Rightarrow>
          (case eg_Commit eng d (ops @ stageCatalog l) of None \<Rightarrow> (Some DBErrCommit, d) | Some d \<Rightarrow> (None, d)))"

section \<open>Retention\<close>

definition StoreRetentionState :: "'db Engine \<Rightarrow> 'db \<Rightarrow> ChannelLog \<Rightarrow> RetentionState \<Rightarrow> db_error option \<times> 'db" where
  "StoreRetentionState eng d l st =
     commit_ops eng d l
       (bind_res (check_error (validateRetentionState st)) (\<lambda>_.
        bind_res (key_or_panic (encodeRetentionStateKey (cl_key l))) (\<lambda>k.
          Inr [OpSet k (encodeRetentionState st)])))"

definition zero_TrimResult :: RetentionTrimResult where
  "zero_TrimResult = \<lparr>tr_DeletedThroughSeq = 0, tr_Deleted = 0, tr_More = False\<rparr>"

definition next_retention :: "RetentionState \<Rightarrow> u64 \<Rightarrow> u64 \<Rightarrow> bool \<Rightarrow> RetentionState" where
  "next_retention st leo throughSeq adoptBoundary =
     (let st = (if adoptBoundary \<and> rt_Local st < throughSeq then st\<lparr>rt_Local := throughSeq\<rparr> else st);
          st = (if adoptBoundary \<and> rt_RetainedMax st < throughSeq then st\<lparr>rt_RetainedMax := throughSeq\<rparr> else st)
      in if rt_RetainedMax st < leo then st\<lparr>rt_RetainedMax := leo\<rparr> else st)"

definition trim_rows ::
  "'db Engine \<Rightarrow> 'db \<Rightarrow> ChannelLog \<Rightarrow> u64 \<Rightarrow> u64 \<Rightarrow> RetentionTrimOptions \<Rightarrow> db_error + messageRow list \<times> bool" where
  "trim_rows eng d l startSeq throughSeq opts =
     bind_res (readRows eng d l startSeq throughSeq
         \<lparr>ro_Limit = (if 0 < to_MaxMessages opts then to_MaxMessages opts + 1 else 0), ro_MaxBytes = to_MaxBytes opts\<rparr>) (\<lambda>rows.
       let over = 0 < to_MaxMessages opts \<and> to_MaxMessages opts < int (length rows);
           deleteRows = (if over then take (nat (to_MaxMessages opts)) rows else rows);
           cut = 0 < to_MaxBytes opts \<and> deleteRows \<noteq> [] \<and> mr_MessageSeq (last deleteRows) < throughSeq
       in Inr (deleteRows, over \<or> cut))"

definition trimPrefixThroughLimit ::
  "'db Engine \<Rightarrow> 'db \<Rightarrow> ChannelLog \<Rightarrow> u64 \<Rightarrow> RetentionTrimOptions \<Rightarrow> bool \<Rightarrow> (db_error + RetentionTrimResult) \<times> 'db \<times> ChannelLog" where
  "trimPrefixThroughLimit eng d l throughSeq opts adoptBoundary =
     (if throughSeq = 0 then (Inr zero_TrimResult, d, l)
      else case loadLEOLocked eng d l of
        (Inl e, l) \<Rightarrow> (Inl e, d, l)
      | (Inr leo, l) \<Rightarrow>
          (case bind_res (LoadRetentionState eng d l) (\<lambda>loaded.
             let st = (case loaded of Some st \<Rightarrow> st | None \<Rightarrow> zero_RetentionState)
             in if \<not> adoptBoundary \<and> rt_Local st < throughSeq then Inl DBErrCorruptState
                else if rt_Physical st + 1 = 0 then Inl DBErrCorruptState
                else
                  bind_res (trim_rows eng d l (rt_Physical st + 1) throughSeq opts) (\<lambda>(rows, more).
                  bind_res (stage_all (map (\<lambda>row. stageDeleteMessage l (messageFromRow row)) rows)) (\<lambda>ops.
                    let through = (if rows = [] then 0 else mr_MessageSeq (last rows));
                        st = next_retention st leo throughSeq adoptBoundary;
                        st = (if rt_Physical st < through then st\<lparr>rt_Physical := through\<rparr> else st)
                    in bind_res (check_error (validateRetentionState st)) (\<lambda>_.
                       bind_res (key_or_panic (encodeRetentionStateKey (cl_key l))) (\<lambda>k.
                         Inr (\<lparr>tr_DeletedThroughSeq = through, tr_Deleted = length rows, tr_More = more\<rparr>, st,
                              ops @ [OpSet k (encodeRetentionState st)])))))) of
             Inl e \<Rightarrow> (Inl e, d, l)
           | Inr (result, st, ops) \<Rightarrow>
               (case commit_ops eng d l (Inr ops) of
                  (Some e, d) \<Rightarrow> (Inl e, d, l)
                | (None, d) \<Rightarrow> (Inr result, d,
                    l\<lparr>cl_leo := (if leo < rt_RetainedMax st then rt_RetainedMax st else leo), cl_loaded := True\<rparr>))))"

definition TrimPrefixThroughLimit ::
  "'db Engine \<Rightarrow> 'db \<Rightarrow> ChannelLog \<Rightarrow> u64 \<Rightarrow> RetentionTrimOptions \<Rightarrow> (db_error + RetentionTrimResult) \<times> 'db \<times> ChannelLog" where
  "TrimPrefixThroughLimit eng d l throughSeq opts = trimPrefixThroughLimit eng d l throughSeq opts True"

definition TrimPrefixThrough ::
  "'db Engine \<Rightarrow> 'db \<Rightarrow> ChannelLog \<Rightarrow> u64 \<Rightarrow> (db_error + RetentionTrimResult) \<times> 'db \<times> ChannelLog" where
  "TrimPrefixThrough eng d l throughSeq =
     TrimPrefixThroughLimit eng d l throughSeq \<lparr>to_MaxMessages = 0, to_MaxBytes = 0\<rparr>"

section \<open>Checkpoints\<close>

definition encodeCheckpoint :: "Checkpoint \<Rightarrow> u8 list" where
  "encodeCheckpoint c = put64 (cp_Epoch c) @ put64 (cp_LogStartOffset c) @ put64 (cp_HW c)"

definition decodeCheckpoint :: "u8 list \<Rightarrow> db_error + Checkpoint" where
  "decodeCheckpoint bs =
     (if length bs \<noteq> 24 then Inl DBErrCorruptValue
      else Inr \<lparr>cp_Epoch = get_u64 bs 0, cp_LogStartOffset = get_u64 bs 8, cp_HW = get_u64 bs 16\<rparr>)"

definition validateCheckpoint :: "Checkpoint \<Rightarrow> db_error option" where
  "validateCheckpoint c = (if cp_HW c < cp_LogStartOffset c then Some DBErrCorruptState else None)"

definition LoadCheckpoint :: "'db Engine \<Rightarrow> 'db \<Rightarrow> ChannelLog \<Rightarrow> db_error + Checkpoint option" where
  "LoadCheckpoint eng d l =
     bind_res (key_or_panic (encodeCheckpointKey (cl_key l))) (\<lambda>k.
       case eg_Get eng d k of
         None \<Rightarrow> Inr None
       | Some bs \<Rightarrow> bind_res (decodeCheckpoint bs) (\<lambda>c. Inr (Some c)))"

definition StoreCheckpoint :: "'db Engine \<Rightarrow> 'db \<Rightarrow> ChannelLog \<Rightarrow> Checkpoint \<Rightarrow> db_error option \<times> 'db" where
  "StoreCheckpoint eng d l c =
     commit_ops eng d l
       (bind_res (check_error (validateCheckpoint c)) (\<lambda>_.
        bind_res (key_or_panic (encodeCheckpointKey (cl_key l))) (\<lambda>k. Inr [OpSet k (encodeCheckpoint c)])))"

definition validateCheckpointMonotonic :: "'db Engine \<Rightarrow> 'db \<Rightarrow> ChannelLog \<Rightarrow> Checkpoint \<Rightarrow> u64 \<Rightarrow> u64 \<Rightarrow> db_error + unit" where
  "validateCheckpointMonotonic eng d l c visibleHW leo =
     bind_res (check_error (validateCheckpoint c)) (\<lambda>_.
       if visibleHW < cp_HW c then Inl DBErrCorruptState
       else if leo < cp_HW c then Inl DBErrCorruptState
       else
         bind_res (LoadCheckpoint eng d l) (\<lambda>current.
           case current of
             None \<Rightarrow> Inr ()
           | Some cur \<Rightarrow>
               if cp_HW c < cp_HW cur then Inl DBErrCorruptState
               else if cp_LogStartOffset c < cp_LogStartOffset cur then Inl DBErrCorruptState
               else if cp_Epoch c < cp_Epoch cur then Inl DBErrCorruptState
               else Inr ()))"

definition StoreCheckpointMonotonic ::
  "'db Engine \<Rightarrow> 'db \<Rightarrow> ChannelLog \<Rightarrow> Checkpoint \<Rightarrow> u64 \<Rightarrow> u64 \<Rightarrow> db_error option \<times> 'db" where
  "StoreCheckpointMonotonic eng d l c visibleHW leo =
     (case validateCheckpointMonotonic eng d l c visibleHW leo of
        Inl e \<Rightarrow> (Some e, d)
      | Inr _ \<Rightarrow> StoreCheckpoint eng d l c)"

section \<open>Epoch history\<close>

definition encodeEpochPoint :: "EpochPoint \<Rightarrow> u8 list" where
  "encodeEpochPoint p = put64 (ep_Epoch p) @ put64 (ep_StartOffset p)"

definition decodeEpochPoint :: "u8 list \<Rightarrow> db_error + EpochPoint" where
  "decodeEpochPoint bs =
     (if length bs \<noteq> 16 then Inl DBErrCorruptValue
      else Inr \<lparr>ep_Epoch = get_u64 bs 0, ep_StartOffset = get_u64 bs 8\<rparr>)"

definition decodeEpochPointFromKeyValue :: "key \<Rightarrow> key \<Rightarrow> u8 list \<Rightarrow> db_error + EpochPoint" where
  "decodeEpochPointFromKeyValue prefix k val =
     (if length k \<noteq> length prefix + 16 then Inl DBErrCorruptValue
      else bind_res (decodeEpochPoint val) (\<lambda>p.
        if ep_StartOffset p \<noteq> get_u64 k (length prefix) \<or> ep_Epoch p \<noteq> get_u64 k (length prefix + 8)
        then Inl DBErrCorruptState
        else Inr p))"

fun decode_points :: "key \<Rightarrow> (key \<times> u8 list) list \<Rightarrow> db_error + EpochPoint list" where
  "decode_points prefix [] = Inr []"
| "decode_points prefix ((k, val) # es) =
     bind_res (decodeEpochPointFromKeyValue prefix k val) (\<lambda>p.
     bind_res (decode_points prefix es) (\<lambda>ps. Inr (p # ps)))"

text \<open>No points and an empty list are the same to every caller.\<close>

definition LoadHistory :: "'db Engine \<Rightarrow> 'db \<Rightarrow> ChannelLog \<Rightarrow> db_error + EpochPoint list" where
  "LoadHistory eng d l =
     bind_res (key_or_panic (encodeHistoryPrefix (cl_key l))) (\<lambda>prefix.
       decode_points prefix (scan_span eng d (NewPrefixSpan prefix)))"

definition shouldAppendHistoryPoint :: "EpochPoint list \<Rightarrow> EpochPoint \<Rightarrow> db_error + bool" where
  "shouldAppendHistoryPoint points p =
     (if ep_Epoch p = 0 then Inl DBErrCorruptState
      else if points = [] then Inr True
      else
        let lst = last points
        in if ep_Epoch lst < ep_Epoch p then
             if ep_StartOffset p < ep_StartOffset lst then Inl DBErrCorruptState else Inr True
           else if ep_Epoch p = ep_Epoch lst \<and> ep_StartOffset p = ep_StartOffset lst then Inr False
           else Inl DBErrCorruptState)"

definition writeHistoryPoint :: "ChannelLog \<Rightarrow> EpochPoint \<Rightarrow> db_error + BatchOp list" where
  "writeHistoryPoint l p =
     (if ep_Epoch p = 0 then Inl DBErrCorruptState
      else bind_res (key_or_panic (encodeHistoryPointKey (cl_key l) (ep_StartOffset p) (ep_Epoch p))) (\<lambda>k.
        Inr [OpSet k (encodeEpochPoint p)]))"

definition AppendHistory :: "'db Engine \<Rightarrow> 'db \<Rightarrow> ChannelLog \<Rightarrow> EpochPoint \<Rightarrow> db_error option \<times> 'db" where
  "AppendHistory eng d l p =
     (case bind_res (LoadHistory eng d l) (\<lambda>points. shouldAppendHistoryPoint points p) of
        Inl e \<Rightarrow> (Some e, d)
      | Inr needsAppend \<Rightarrow> if \<not> needsAppend then (None, d) else commit_ops eng d l (writeHistoryPoint l p))"

definition deleteHistoryFrom :: "ChannelLog \<Rightarrow> u64 \<Rightarrow> db_error + BatchOp list" where
  "deleteHistoryFrom l start =
     bind_res (key_or_panic (encodeHistoryPrefix (cl_key l))) (\<lambda>prefix.
     bind_res (key_or_panic (encodeHistoryOffsetKey (cl_key l) start)) (\<lambda>k.
       Inr [OpDeleteRange k (span_End (NewPrefixSpan prefix))]))"

definition TruncateHistoryTo :: "'db Engine \<Rightarrow> 'db \<Rightarrow> ChannelLog \<Rightarrow> u64 \<Rightarrow> db_error option \<times> 'db" where
  "TruncateHistoryTo eng d l leo =
     (if leo = NOT 0 then (None, d) else commit_ops eng d l (deleteHistoryFrom l (leo + 1)))"

section \<open>Snapshots\<close>

definition LoadSnapshotPayload :: "'db Engine \<Rightarrow> 'db \<Rightarrow> ChannelLog \<Rightarrow> db_error + u8 list option" where
  "LoadSnapshotPayload eng d l =
     bind_res (key_or_panic (encodeSnapshotKey (cl_key l))) (\<lambda>k. Inr (eg_Get eng d k))"

definition StoreSnapshotPayload :: "'db Engine \<Rightarrow> 'db \<Rightarrow> ChannelLog \<Rightarrow> u8 list \<Rightarrow> db_error option \<times> 'db" where
  "StoreSnapshotPayload eng d l payload =
     commit_ops eng d l (bind_res (key_or_panic (encodeSnapshotKey (cl_key l))) (\<lambda>k. Inr [OpSet k payload]))"

definition snapshot_guard :: "Snapshot \<Rightarrow> Checkpoint \<Rightarrow> EpochPoint \<Rightarrow> u64 \<Rightarrow> db_error option" where
  "snapshot_guard snap c p leo =
     (if leo < sn_EndOffset snap then Some DBErrCorruptState
      else if cp_LogStartOffset c \<noteq> sn_EndOffset snap \<or> cp_HW c \<noteq> sn_EndOffset snap then Some DBErrCorruptState
      else if cp_Epoch c \<noteq> sn_Epoch snap \<or> ep_Epoch p \<noteq> sn_Epoch snap \<or> sn_EndOffset snap < ep_StartOffset p
      then Some DBErrCorruptState
      else None)"

definition snapshot_ops :: "ChannelLog \<Rightarrow> Snapshot \<Rightarrow> Checkpoint \<Rightarrow> EpochPoint \<Rightarrow> db_error + BatchOp list" where
  "snapshot_ops l snap c p =
     stage_all
       [bind_res (key_or_panic (encodeSnapshotKey (cl_key l))) (\<lambda>k. Inr [OpSet k (sn_Payload snap)]),
        bind_res (key_or_panic (encodeCheckpointKey (cl_key l))) (\<lambda>k. Inr [OpSet k (encodeCheckpoint c)]),
        (if sn_EndOffset snap \<noteq> NOT 0 then deleteHistoryFrom l (sn_EndOffset snap + 1) else Inr []),
        writeHistoryPoint l p]"

definition InstallSnapshot ::
  "'db Engine \<Rightarrow> 'db \<Rightarrow> ChannelLog \<Rightarrow> Snapshot \<Rightarrow> Checkpoint \<Rightarrow> EpochPoint \<Rightarrow> (db_error + u64) \<times> 'db \<times> ChannelLog" where
  "InstallSnapshot eng d l snap c p =
     (case loadLEOLocked eng d l of
        (Inl e, l) \<Rightarrow> (Inl e, d, l)
      | (Inr leo, l) \<Rightarrow>
          (case bind_res (check_error (snapshot_guard snap c p leo)) (\<lambda>_.
                validateCheckpointMonotonic eng d l c (sn_EndOffset snap) leo) of
             Inl e \<Rightarrow> (Inl e, d, l)
           | Inr _ \<Rightarrow>
               (case commit_ops eng d l (snapshot_ops l snap c p) of
                  (Some e, d) \<Rightarrow> (Inl e, d, l)
                | (None, d) \<Rightarrow>
                    (bind_res (LoadSnapshotPayload eng d l) (\<lambda>payload.
                       if payload = Some (sn_Payload snap) then Inr (sn_EndOffset snap) else Inl DBErrCorruptState), d, l))))"

section \<open>Fetched records\<close>

record ApplyFetchRequest =
  af_BaseSeq :: u64
  af_Records :: "Record list"
  af_Checkpoint :: "Checkpoint option"
  af_EpochPoint :: "EpochPoint option"

fun stageMessageRows :: "ChannelLog \<Rightarrow> messageRow list \<Rightarrow> db_error + BatchOp list" where
  "stageMessageRows l [] = Inr []"
| "stageMessageRows l (row # rows) =
     bind_res (stageMessageRow l row) (\<lambda>ops. bind_res (stageMessageRows l rows) (\<lambda>ops'. Inr (ops @ ops')))"

definition fetch_checks ::
  "'db Engine \<Rightarrow> 'db \<Rightarrow> ChannelLog \<Rightarrow> ApplyFetchRequest \<Rightarrow> u64 \<Rightarrow> db_error + bool" where
  "fetch_checks eng d l req visibleLEO =
     bind_res (case af_Checkpoint req of
         None \<Rightarrow> Inr ()
       | Some c \<Rightarrow> validateCheckpointMonotonic eng d l c visibleLEO visibleLEO) (\<lambda>_.
       case af_EpochPoint req of
         None \<Rightarrow> Inr False
       | Some p \<Rightarrow> bind_res (LoadHistory eng d l) (\<lambda>points. shouldAppendHistoryPoint points p))"

definition fetch_ops :: "ChannelLog \<Rightarrow> ApplyFetchRequest \<Rightarrow> messageRow list \<Rightarrow> bool \<Rightarrow> db_error + BatchOp list" where
  "fetch_ops l req rows shouldWriteEpoch =
     stage_all
       [stageMessageRows l rows,
        (case af_Checkpoint req of
           None \<Rightarrow> Inr []
         | Some c \<Rightarrow> bind_res (key_or_panic (encodeCheckpointKey (cl_key l))) (\<lambda>k. Inr [OpSet k (encodeCheckpoint c)])),
        (case af_EpochPoint req of
           Some p \<Rightarrow> if shouldWriteEpoch then writeHistoryPoint l p else Inr []
         | None \<Rightarrow> Inr [])]"

definition ApplyFetch ::
  "'db Engine \<Rightarrow> 'db \<Rightarrow> ChannelLog \<Rightarrow> ApplyFetchRequest \<Rightarrow> u64 \<Rightarrow> (db_error + AppendResult) \<times> 'db \<times> ChannelLog" where
  "ApplyFetch eng d l req now =
     (case prepareAppendRowsLocked eng d l (af_Records req)
         \<lparr>ao_Mode = AppendTrustedContiguous, ao_BaseSeq = af_BaseSeq req\<rparr> now of
        (Inl e, l) \<Rightarrow> (Inl e, d, l)
      | (Inr (result, rows), l) \<Rightarrow>
          let visibleLEO = (if 0 < ar_Count result then ar_LastSeq result else cl_leo l)
          in case fetch_checks eng d l req visibleLEO of
               Inl e \<Rightarrow> (Inl e, d, l)
             | Inr shouldWriteEpoch \<Rightarrow>
                 if rows = [] \<and> af_Checkpoint req = None \<and> \<not> shouldWriteEpoch then (Inr zero_AppendResult, d, l)
                 else (case commit_ops eng d l (fetch_ops l req rows shouldWriteEpoch) of
                   (Some e, d) \<Rightarrow> (Inl e, d, l)
                 | (None, d) \<Rightarrow> (Inr result, d, publishAppendLocked result l)))"

section \<open>The catalog\<close>

fun catalog_loop ::
  "ChannelKeyBytes \<Rightarrow> int \<Rightarrow> (key \<times> u8 list) list \<Rightarrow> (ChannelKeyBytes \<times> ChannelID) list \<Rightarrow>
   db_error + (ChannelKeyBytes \<times> ChannelID) list \<times> bool" where
  "catalog_loop after limit [] acc = Inr (acc, False)"
| "catalog_loop after limit ((k, val) # es) acc =
     (case decodeCatalogKey k of
        Some (Some ck) \<Rightarrow>
          if after \<noteq> [] \<and> ck \<le> after then catalog_loop after limit es acc
          else bind_res (decodeCatalogValue val) (\<lambda>i.
            if 0 < limit \<and> int (length acc) = limit then Inr (acc, True)
            else catalog_loop after limit es (acc @ [(ck, i)]))
      | _ \<Rightarrow> Inl DBErrCorruptValue)"

definition ListChannelsPage ::
  "'db Engine \<Rightarrow> 'db \<Rightarrow> ChannelKeyBytes \<Rightarrow> int \<Rightarrow> db_error + (ChannelKeyBytes \<times> ChannelID) list \<times> ChannelKeyBytes \<times> bool" where
  "ListChannelsPage eng d after limit =
     bind_res (key_or_panic encodeCatalogPrefix) (\<lambda>prefix.
     bind_res (if after = [] then Inr prefix else key_or_panic (encodeCatalogKey after)) (\<lambda>start.
     bind_res (catalog_loop after limit (eg_Scan eng d start (span_End (NewPrefixSpan prefix))) []) (\<lambda>(entries, more).
       Inr (entries, (if entries = [] then [] else fst (last entries)), more))))"

definition ListChannels :: "'db Engine \<Rightarrow> 'db \<Rightarrow> db_error + (ChannelKeyBytes \<times> ChannelID) list" where
  "ListChannels eng d = bind_res (ListChannelsPage eng d [] 0) (\<lambda>(entries, _). Inr entries)"

end
