(* ===== verification/MsgRowSafety.thy ===== *)
theory MsgRowSafety
  imports MsgRow
begin

text \<open>
  The two encoders of a message row agree, whatever the engine's buffer held, and a stored row reads
  back.
\<close>

section \<open>The columns of a header\<close>

definition header_columns :: "messageRow \<Rightarrow> (u16 \<times> Column) list" where
  "header_columns row =
     [(messageColumnIDMessageID, Uint64Col (mr_MessageID row)),
      (messageColumnIDFramerFlags, Uint8Col (mr_FramerFlags row)),
      (messageColumnIDSetting, Uint8Col (mr_Setting row)),
      (messageColumnIDStreamFlag, Uint8Col (mr_StreamFlag row)),
      (messageColumnIDMsgKey, StringCol (mr_MsgKey row)),
      (messageColumnIDExpire, Uint64Col (mr_Expire row)),
      (messageColumnIDClientSeq, Uint64Col (mr_ClientSeq row)),
      (messageColumnIDClientMsgNo, StringCol (mr_ClientMsgNo row)),
      (messageColumnIDStreamNo, StringCol (mr_StreamNo row)),
      (messageColumnIDStreamID, Uint64Col (mr_StreamID row)),
      (messageColumnIDTimestamp, Int64Col (mr_Timestamp row)),
      (messageColumnIDChannelID, StringCol (mr_ChannelID row)),
      (messageColumnIDChannelType, Uint8Col (mr_ChannelType row)),
      (messageColumnIDTopic, StringCol (mr_Topic row)),
      (messageColumnIDFromUID, StringCol (mr_FromUID row)),
      (messageColumnIDPayloadHash, Uint64Col (mr_PayloadHash row)),
      (messageColumnIDPayloadSize, Uint64Col (mr_PayloadSize row)),
      (messageColumnIDServerTimestampMS, Int64Col (mr_ServerTimestampMS row))]"

lemma header_ascending: "sorted_wrt (<) (0 # map fst (header_columns row))"
  by (simp add: header_columns_def column_ids)

lemma payload_ascending: "sorted_wrt (<) (0 # map fst [(messageColumnIDPayload, c)])"
  by (simp add: column_ids)

lemma normalize_idem [simp]: "normalizeMessageRow (normalizeMessageRow row) = normalizeMessageRow row"
  by (simp add: normalizeMessageRow_def Let_def)

lemma normalize_id [simp]:
  "mr_MessageID (normalizeMessageRow row) = mr_MessageID row" "mr_Payload (normalizeMessageRow row) = mr_Payload row"
  "mr_MessageSeq (normalizeMessageRow row) = mr_MessageSeq row"
  by (simp_all add: normalizeMessageRow_def Let_def)

lemma validate_normal [simp]: "validate_row (normalizeMessageRow row) = validate_row row"
  by (simp add: validate_row_def)

section \<open>The reference encoder\<close>

lemma header_writers_eq: "header_writers row = map write_column (header_columns row)"
  by (simp add: header_writers_def header_columns_def fun_eq_iff)

lemma header_writes:
  "encodeMessageHeader k row =
    (if mr_MessageID row = 0 then Inl DBErrInvalidArgument
     else Wrap k messageValueVersion CodecColumns FlagChecksum (row_bytes 0 (header_columns (normalizeMessageRow row))))"
proof -
  let ?r = "normalizeMessageRow row"
  have "write_columns (header_columns ?r) EmptyWriter =
      Inr \<lparr>wr_buf = row_bytes 0 (header_columns ?r), wr_last = last (0 # map fst (header_columns ?r))\<rparr>"
    using header_ascending [of ?r] by (simp add: write_columns_eq EmptyWriter_def)
  then show ?thesis
    by (simp add: encodeMessageHeader_def header_writers_eq run_writes_columns validate_row_def WriterBytes_def Let_def)
qed

lemma payload_writes:
  "encodeMessagePayload k row =
    (if mr_MessageID row = 0 then Inl DBErrInvalidArgument
     else Wrap k messageValueVersion CodecColumns FlagChecksum
       (row_bytes 0 [(messageColumnIDPayload, BytesCol (mr_Payload row))]))"
proof -
  have "write_column (messageColumnIDPayload, BytesCol (mr_Payload row)) EmptyWriter =
      Inr \<lparr>wr_buf = row_bytes 0 [(messageColumnIDPayload, BytesCol (mr_Payload row))], wr_last = messageColumnIDPayload\<rparr>"
    by (simp only: write_column_eq) (simp add: EmptyWriter_def column_ids)
  then show ?thesis
    by (simp add: encodeMessagePayload_def validate_row_def WriterBytes_def Let_def)
qed

section \<open>Lengths\<close>

fun column_len :: "u16 \<times> Column \<Rightarrow> u16 \<Rightarrow> nat \<times> u16" where
  "column_len (i, StringCol v) = encodedStringColumnLen i v"
| "column_len (i, Int64Col v) = encodedInt64ColumnLen i v"
| "column_len (i, Uint64Col v) = encodedUint64ColumnLen i v"
| "column_len (i, Uint8Col v) = encodedUint8ColumnLen i v"
| "column_len (i, _) = (\<lambda>prev. (0, prev))"

fun in_header :: "Column \<Rightarrow> bool" where
  "in_header (BytesCol _) = False"
| "in_header (BoolCol _) = False"
| "in_header _ = True"

lemma header_types: "\<forall>c \<in> set (header_columns row). in_header (snd c)"
  by (simp add: header_columns_def)

lemma column_len_bytes:
  "in_header c \<Longrightarrow> column_len (i, c) prev = (length (tag_bytes (i - prev) (column_type c) @ column_bytes c), i)"
  by (cases c) (simp_all add: encodedStringColumnLen_def encodedInt64ColumnLen_def encodedUint64ColumnLen_def
      encodedUint8ColumnLen_def encodedColumnBeginLen_def tag_bytes_def uvarintLen_def Let_def)

lemma sum_lens_bytes:
  "\<forall>c \<in> set cs. in_header (snd c) \<Longrightarrow> sum_lens (map column_len cs) n prev = n + length (row_bytes prev cs)"
proof (induction cs arbitrary: n prev)
  case (Cons c cs)
  obtain i v where c: "c = (i, v)" by (cases c)
  with Cons show ?case by (simp add: column_len_bytes del: column_len.simps)
qed simp

lemma header_lens_eq: "header_lens row = map column_len (header_columns row)"
  by (simp add: header_lens_def header_columns_def)

lemma header_len:
  "encodedMessageHeaderLen row = 7 + length (row_bytes 0 (header_columns (normalizeMessageRow row)))"
  by (simp add: encodedMessageHeaderLen_def EnvelopeLen_def envelopeHeaderLen_def header_lens_eq
      sum_lens_bytes [OF header_types] Let_def)

lemma payload_len:
  "encodedMessagePayloadLen row = 7 + length (row_bytes 0 [(messageColumnIDPayload, BytesCol (mr_Payload row))])"
  by (simp add: encodedMessagePayloadLen_def encodedMessagePayloadColumnLen_def EnvelopeLen_def
      envelopeHeaderLen_def tag_bytes_def uvarintLen_def column_ids)

section \<open>Writing into the buffer\<close>

text \<open>The buffer is what is written so far and what the engine left in the rest.\<close>

definition at_end :: "u8 list \<Rightarrow> u8 list \<Rightarrow> u16 \<Rightarrow> cursor" where
  "at_end out rest prev = (out @ rest, length out, prev)"

lemma putUvarint_end:
  "length (put_uvarint v) \<le> length rest \<Longrightarrow>
    putUvarint (at_end out rest prev) v = Some (at_end (out @ put_uvarint v) (drop (length (put_uvarint v)) rest) prev)"
  by (simp add: putUvarint_def at_end_def put_at_end uvarintLen_def)

lemma putColumnBegin_end:
  "length (tag_bytes (i - prev) t) \<le> length rest \<Longrightarrow>
    putColumnBegin i t (at_end out rest prev) =
      Some (at_end (out @ tag_bytes (i - prev) t) (drop (length (tag_bytes (i - prev) t)) rest) i)"
  using putUvarint_end [of "ucast (i - prev)" "drop 1 rest" "out @ [t]" i]
  by (cases rest) (auto simp: putColumnBegin_def at_end_def put_at_end tag_bytes_def Let_def)

fun put_column :: "u16 \<times> Column \<Rightarrow> cursor \<Rightarrow> cursor option" where
  "put_column (i, StringCol v) = putStringColumn i v"
| "put_column (i, Int64Col v) = putInt64Column i v"
| "put_column (i, Uint64Col v) = putUint64Column i v"
| "put_column (i, Uint8Col v) = putUint8Column i v"
| "put_column (i, _) = Some"

lemma header_puts_eq: "header_puts row = map put_column (header_columns row)"
  by (simp add: header_puts_def header_columns_def)

lemma put_column_end:
  assumes "in_header c" "length (tag_bytes (i - prev) (column_type c) @ column_bytes c) \<le> length rest"
  shows "put_column (i, c) (at_end out rest prev) =
    Some (at_end (out @ tag_bytes (i - prev) (column_type c) @ column_bytes c)
      (drop (length (tag_bytes (i - prev) (column_type c) @ column_bytes c)) rest) i)"
proof -
  let ?tag = "tag_bytes (i - prev) (column_type c)"
  let ?out = "out @ ?tag" and ?rest = "drop (length ?tag) rest"
  have b: "putColumnBegin i (column_type c) (at_end out rest prev) = Some (at_end ?out ?rest i)"
    using assms(2) by (intro putColumnBegin_end) simp
  have v: "length (put_uvarint v) \<le> length ?rest \<Longrightarrow> putUvarint (at_end ?out ?rest i) v =
      Some (at_end (?out @ put_uvarint v) (drop (length (put_uvarint v)) ?rest) i)" for v
    by (rule putUvarint_end)
  show ?thesis
  proof (cases c)
    case (StringCol s)
    then show ?thesis using assms(2) b v [of "of_nat (length s)"]
        copy_at_end [of s "drop (length (put_uvarint (of_nat (length s)))) ?rest" "?out @ put_uvarint (of_nat (length s))"]
      by (simp add: putStringColumn_def at_end_def ac_simps)
  next
    case (Int64Col x)
    then show ?thesis using assms(2) b v [of "encodeZigZagInt64 x"]
      by (simp add: putInt64Column_def ac_simps)
  next
    case (Uint64Col x)
    then show ?thesis using assms(2) b v [of x] by (simp add: putUint64Column_def ac_simps)
  next
    case (Uint8Col x)
    then show ?thesis using assms(2) b put_at_end [of "[x]" ?rest ?out]
      by (simp add: putUint8Column_def at_end_def)
  qed (use assms(1) in auto)
qed

lemma run_puts_end:
  "\<forall>c \<in> set cs. in_header (snd c) \<Longrightarrow> length (row_bytes prev cs) \<le> length rest \<Longrightarrow>
    run_puts (map put_column cs) (at_end out rest prev) =
      Some (at_end (out @ row_bytes prev cs) (drop (length (row_bytes prev cs)) rest) (last (prev # map fst cs)))"
proof (induction cs arbitrary: out rest prev)
  case (Cons c cs)
  obtain i v where c: "c = (i, v)" by (cases c)
  have *: "length (tag_bytes (i - prev) (column_type v) @ column_bytes v) \<le> length rest" "in_header v"
    using Cons.prems c by auto
  show ?case
    using Cons.prems Cons.IH [of i "drop (length (tag_bytes (i - prev) (column_type v) @ column_bytes v)) rest"]
    by (simp add: c put_column_end [OF *(2,1)] ac_simps del: put_column.simps)
qed simp

section \<open>The encoders agree\<close>

lemma header_encoders:
  assumes "length dst = encodedMessageHeaderLen row"
  shows "encodeMessageHeaderTo dst k row = Some (encodeMessageHeader k row)"
proof (cases "mr_MessageID row = 0")
  case False
  let ?b = "row_bytes 0 (header_columns (normalizeMessageRow row))"
  have l: "length dst = 7 + length ?b" using assms by (simp add: header_len)
  have "run_puts (header_puts (normalizeMessageRow row)) (drop 7 dst, 0, 0) =
      Some (?b, length ?b, last (0 # map fst (header_columns (normalizeMessageRow row))))"
    using run_puts_end [OF header_types, of 0 "normalizeMessageRow row" "drop 7 dst" "[]"] l
    by (simp add: header_puts_eq at_end_def)
  moreover have "WrapTo (take 7 dst @ ?b) k messageValueVersion CodecColumns FlagChecksum ?b =
      Wrap k messageValueVersion CodecColumns FlagChecksum ?b"
    by (rule WrapTo_any) (simp add: l EnvelopeLen_def envelopeHeaderLen_def)
  ultimately show ?thesis
    using assms False
    by (simp add: encodeMessageHeaderTo_def header_writes validate_row_def header_len EnvelopeLen_def
        envelopeHeaderLen_def Let_def)
qed (simp add: encodeMessageHeaderTo_def header_writes validate_row_def Let_def)

lemma payload_encoders:
  assumes "length dst = encodedMessagePayloadLen row"
  shows "encodeMessagePayloadTo dst k row = Some (encodeMessagePayload k row)"
proof (cases "mr_MessageID row = 0")
  case False
  let ?p = "mr_Payload row"
  let ?i = "put_uvarint (ucast messageColumnIDPayload)" and ?n = "put_uvarint (of_nat (length ?p))"
  let ?b = "row_bytes 0 [(messageColumnIDPayload, BytesCol ?p)]"
  have b: "?b = TypeBytes # ?i @ ?n @ ?p" by (simp add: tag_bytes_def column_ids)
  have l: "length dst = 7 + length ?b" using assms by (simp add: payload_len)
  let ?d = "drop 7 dst"
  have d: "length ?d = 1 + length ?i + length ?n + length ?p" using l b by simp
  have "put_at ?d 0 [TypeBytes] = Some ([TypeBytes] @ drop 1 ?d)"
    using put_at_end [of "[TypeBytes]" ?d "[]"] d by simp
  moreover have "putUvarint ([TypeBytes] @ drop 1 ?d, 1, 0) (ucast messageColumnIDPayload) =
      Some (at_end ([TypeBytes] @ ?i) (drop (length ?i) (drop 1 ?d)) 0)"
    using putUvarint_end [of "ucast messageColumnIDPayload" "drop 1 ?d" "[TypeBytes]" 0] d by (simp add: at_end_def)
  moreover have "putUvarint (at_end ([TypeBytes] @ ?i) (drop (length ?i) (drop 1 ?d)) 0) (of_nat (length ?p)) =
      Some (at_end (([TypeBytes] @ ?i) @ ?n) (drop (length ?n) (drop (length ?i) (drop 1 ?d))) 0)"
    by (rule putUvarint_end) (use d in simp)
  moreover have "copy_at ((([TypeBytes] @ ?i) @ ?n) @ drop (length ?n) (drop (length ?i) (drop 1 ?d)))
      (length (([TypeBytes] @ ?i) @ ?n)) ?p = Some ?b"
    by (subst copy_at_end) (use d b in simp_all)
  moreover have "WrapTo (take 7 dst @ ?b) k messageValueVersion CodecColumns FlagChecksum ?b =
      Wrap k messageValueVersion CodecColumns FlagChecksum ?b"
    by (rule WrapTo_any) (simp add: l EnvelopeLen_def envelopeHeaderLen_def)
  ultimately show ?thesis
    using assms False
    by (simp add: encodeMessagePayloadTo_def payload_writes validate_row_def payload_len EnvelopeLen_def
        envelopeHeaderLen_def at_end_def Let_def del: row_bytes.simps)
qed (simp add: encodeMessagePayloadTo_def payload_writes validate_row_def Let_def)

section \<open>Decoding\<close>

definition set_header :: "messageRow \<Rightarrow> u16 \<times> Column \<Rightarrow> messageRow \<Rightarrow> messageRow" where
  "set_header r ic row =
     (let i = fst ic
      in if i = messageColumnIDMessageID then row\<lparr>mr_MessageID := mr_MessageID r\<rparr>
         else if i = messageColumnIDFramerFlags then row\<lparr>mr_FramerFlags := mr_FramerFlags r\<rparr>
         else if i = messageColumnIDSetting then row\<lparr>mr_Setting := mr_Setting r\<rparr>
         else if i = messageColumnIDStreamFlag then row\<lparr>mr_StreamFlag := mr_StreamFlag r\<rparr>
         else if i = messageColumnIDMsgKey then row\<lparr>mr_MsgKey := mr_MsgKey r\<rparr>
         else if i = messageColumnIDExpire then row\<lparr>mr_Expire := mr_Expire r\<rparr>
         else if i = messageColumnIDClientSeq then row\<lparr>mr_ClientSeq := mr_ClientSeq r\<rparr>
         else if i = messageColumnIDClientMsgNo then row\<lparr>mr_ClientMsgNo := mr_ClientMsgNo r\<rparr>
         else if i = messageColumnIDStreamNo then row\<lparr>mr_StreamNo := mr_StreamNo r\<rparr>
         else if i = messageColumnIDStreamID then row\<lparr>mr_StreamID := mr_StreamID r\<rparr>
         else if i = messageColumnIDTimestamp then row\<lparr>mr_Timestamp := mr_Timestamp r\<rparr>
         else if i = messageColumnIDChannelID then row\<lparr>mr_ChannelID := mr_ChannelID r\<rparr>
         else if i = messageColumnIDChannelType then row\<lparr>mr_ChannelType := mr_ChannelType r\<rparr>
         else if i = messageColumnIDTopic then row\<lparr>mr_Topic := mr_Topic r\<rparr>
         else if i = messageColumnIDFromUID then row\<lparr>mr_FromUID := mr_FromUID r\<rparr>
         else if i = messageColumnIDPayloadHash then row\<lparr>mr_PayloadHash := mr_PayloadHash r\<rparr>
         else if i = messageColumnIDPayloadSize then row\<lparr>mr_PayloadSize := mr_PayloadSize r\<rparr>
         else row\<lparr>mr_ServerTimestampMS := mr_ServerTimestampMS r\<rparr>)"

lemma header_column_read:
  assumes "(i, c) \<in> set (header_columns r)" "positioned s i c rest"
  shows "decodeMessageHeaderColumn s row = Inr (set_header r (i, c) row)"
proof -
  have i: "sc_columnID s = i" using assms(2) by (simp add: positioned_def)
  show ?thesis
    using assms(1) unfolding header_columns_def
    apply (simp only: list.set insert_iff empty_iff prod.inject simp_thms)
    apply (elim disjE conjE)
    apply (use assms(2) in \<open>simp add: decodeMessageHeaderColumn_def set_header_def set_column_def i column_ids positioned_getters\<close>)+
    done
qed

lemma set_header_all: "fold (set_header r) (header_columns r) row =
    r\<lparr>mr_MessageSeq := mr_MessageSeq row, mr_Payload := mr_Payload row\<rparr>"
  by (cases r; cases row) (simp add: header_columns_def set_header_def column_ids)

definition row_fits :: "messageRow \<Rightarrow> bool" where
  "row_fits r \<longleftrightarrow> (\<forall>v \<in> {mr_MsgKey r, mr_ClientMsgNo r, mr_StreamNo r, mr_ChannelID r, mr_Topic r, mr_FromUID r, mr_Payload r}.
     length v < 2 ^ 63)"

lemma header_fits: "row_fits r \<Longrightarrow> \<forall>c \<in> set (header_columns r). column_fits (snd c)"
  by (simp add: row_fits_def header_columns_def)

lemma open_wrapped:
  "Wrap k messageValueVersion CodecColumns FlagChecksum payload = Inr val \<Longrightarrow> open_envelope k val = Inr payload"
  using envelope_reads_back [of k messageValueVersion CodecColumns FlagChecksum payload]
  by (auto simp: open_envelope_def)

lemma header_decodes:
  assumes "row_fits (normalizeMessageRow r)" "encodeMessageHeader k r = Inr val"
  shows "decodeMessageHeader k val row =
    Inr ((normalizeMessageRow r)\<lparr>mr_MessageSeq := mr_MessageSeq row, mr_Payload := mr_Payload row\<rparr>)"
proof -
  let ?n = "normalizeMessageRow r"
  have nz: "mr_MessageID r \<noteq> 0" and w: "Wrap k messageValueVersion CodecColumns FlagChecksum (row_bytes 0 (header_columns ?n)) = Inr val"
    using assms(2) by (auto simp: header_writes split: if_splits)
  have "decode_columns decodeMessageHeaderColumn (NewScanner (row_bytes 0 (header_columns ?n))) row =
      Inr (fold (set_header ?n) (header_columns ?n) row)"
  proof (rule decode_row)
    show "sorted_wrt (<) (sc_columnID (NewScanner (row_bytes 0 (header_columns ?n))) # map fst (header_columns ?n))"
      using header_ascending by (simp add: NewScanner_def)
    show "\<forall>c \<in> set (header_columns ?n). column_fits (snd c)" using assms(1) by (rule header_fits)
  qed (simp_all add: NewScanner_def header_column_read)
  with nz show ?thesis by (simp add: decodeMessageHeader_def open_wrapped [OF w] set_header_all)
qed

lemma payload_decodes:
  assumes "row_fits r" "encodeMessagePayload k r = Inr val"
  shows "decodeMessagePayload k val row = Inr (row\<lparr>mr_Payload := mr_Payload r\<rparr>)"
proof -
  let ?cs = "[(messageColumnIDPayload, BytesCol (mr_Payload r))]"
  have w: "Wrap k messageValueVersion CodecColumns FlagChecksum (row_bytes 0 ?cs) = Inr val"
    using assms(2) by (simp only: payload_writes split: if_splits) simp_all
  have "decode_columns decodePayloadColumn (NewScanner (row_bytes 0 ?cs)) row =
      Inr (fold (\<lambda>_ row. row\<lparr>mr_Payload := mr_Payload r\<rparr>) ?cs row)"
  proof (rule decode_row)
    show "sorted_wrt (<) (sc_columnID (NewScanner (row_bytes 0 ?cs)) # map fst ?cs)"
      using payload_ascending by (simp add: NewScanner_def)
    show "\<forall>c \<in> set ?cs. column_fits (snd c)" using assms(1) by (simp add: row_fits_def)
    fix i c s row rest
    assume "(i, c) \<in> set ?cs" "positioned s i c rest"
    then show "decodePayloadColumn s row = Inr (row\<lparr>mr_Payload := mr_Payload r\<rparr>)"
      by (auto simp: decodePayloadColumn_def set_column_def positioned_getters) (simp add: positioned_def)
  qed (simp_all add: NewScanner_def del: row_bytes.simps)
  then show ?thesis by (simp add: decodeMessagePayload_def open_wrapped [OF w] del: row_bytes.simps)
qed

end
