(* ===== verification/MsgKeys.thy ===== *)
theory MsgKeys
  imports MsgSystem MsgRowSafety
begin

text \<open>
  The keys of a channel as values: which keys differ, so that a write to one entry leaves the others alone.
\<close>

section \<open>The keys of a channel\<close>

definition chan_key :: "ChannelKeyBytes \<Rightarrow> key \<Rightarrow> key" where
  "chan_key ck rest = DomainMessage # PartitionChannel # channel_bytes ck @ rest"

definition fits_key :: "u8 list \<Rightarrow> bool" where
  "fits_key s \<longleftrightarrow> length s \<le> maxStringLen"

lemma chan_key_eq:
  "fits_key ck \<Longrightarrow> fits_key ck' \<Longrightarrow> chan_key ck r = chan_key ck' r' \<longleftrightarrow> ck = ck' \<and> r = r'"
  using channel_bytes_prefix [of ck ck' r r'] by (auto simp: chan_key_def fits_key_def)

definition row_rest :: "key \<Rightarrow> key" where "row_rest r = SpaceRow # put32 TableIDMessage @ r"
definition index_rest :: "u16 \<Rightarrow> key \<Rightarrow> key" where "index_rest i r = SpaceIndex # put32 TableIDMessage @ put16 i @ r"
definition system_rest :: "u16 \<Rightarrow> key \<Rightarrow> key" where "system_rest i r = SpaceSystem # put32 TableIDMessage @ put16 i @ r"

lemma put16_eq: "put16 a @ r = put16 b @ r' \<longleftrightarrow> a = b \<and> r = r'"
  using be16.put_inject [of a r b r'] by simp

lemma put64_eq: "put64 a @ r = put64 b @ r' \<longleftrightarrow> a = b \<and> r = r'"
  using be64.put_inject [of a r b r'] by simp

lemma put64_inj [simp]: "put64 a = put64 b \<longleftrightarrow> a = b"
  using put64_eq [of a "[]" b "[]"] by simp

lemma rest_neq:
  "row_rest a \<noteq> index_rest i b" "row_rest a \<noteq> system_rest i b" "index_rest i a \<noteq> system_rest j b"
  "index_rest i b \<noteq> row_rest a" "system_rest i b \<noteq> row_rest a" "system_rest j b \<noteq> index_rest i a"
  by (simp_all add: row_rest_def index_rest_def system_rest_def key_consts)

lemma rest_eq [simp]:
  "row_rest a = row_rest b \<longleftrightarrow> a = b" "index_rest i a = index_rest j b \<longleftrightarrow> i = j \<and> a = b"
  "system_rest i a = system_rest j b \<longleftrightarrow> i = j \<and> a = b"
  by (simp_all add: row_rest_def index_rest_def system_rest_def put16_eq)

definition row_key_of :: "ChannelKeyBytes \<Rightarrow> u64 \<Rightarrow> u16 \<Rightarrow> key" where
  "row_key_of ck seq fam = chan_key ck (row_rest (row_tail seq fam))"

definition id_key :: "ChannelKeyBytes \<Rightarrow> u64 \<Rightarrow> key" where
  "id_key ck mid = chan_key ck (index_rest messageIndexIDMessageID (put64 mid))"

definition client_key :: "ChannelKeyBytes \<Rightarrow> u8 list \<Rightarrow> u64 \<Rightarrow> key" where
  "client_key ck no seq = chan_key ck (index_rest messageIndexIDClientMsgNo (channel_bytes no @ put64 seq))"

definition idem_key :: "ChannelKeyBytes \<Rightarrow> u8 list \<Rightarrow> u8 list \<Rightarrow> key" where
  "idem_key ck f no = chan_key ck (index_rest messageIndexIDFromUIDClientMsgNo (channel_bytes f @ channel_bytes no))"

definition system_key :: "ChannelKeyBytes \<Rightarrow> u16 \<Rightarrow> key \<Rightarrow> key" where
  "system_key ck i r = chan_key ck (system_rest i r)"

definition catalog_key :: "ChannelKeyBytes \<Rightarrow> key" where
  "catalog_key ck = DomainMessage # PartitionGlobal # SpaceCatalog # channel_bytes ck"

lemma row_tail_eq: "row_tail s f = row_tail s' f' \<longleftrightarrow> s = s' \<and> f = f'"
  using be16.put_inject [of f "[]" f' "[]"] by (auto simp: row_tail_def put64_eq)

lemma str_eq: "fits_key a \<Longrightarrow> fits_key b \<Longrightarrow> channel_bytes a @ r = channel_bytes b @ r' \<longleftrightarrow> a = b \<and> r = r'"
  using channel_bytes_prefix [of a b r r'] by (auto simp: fits_key_def)

lemma str_inj: "fits_key a \<Longrightarrow> fits_key b \<Longrightarrow> channel_bytes a = channel_bytes b \<longleftrightarrow> a = b"
  using str_eq [of a b "[]" "[]"] by simp

lemma catalog_neq: "catalog_key ck \<noteq> chan_key ck' r" "chan_key ck' r \<noteq> catalog_key ck"
  by (simp_all add: catalog_key_def chan_key_def key_consts)

lemmas key_defs = row_key_of_def id_key_def client_key_def idem_key_def system_key_def

lemmas key_eqs = chan_key_eq rest_neq row_tail_eq str_eq str_inj put64_eq catalog_neq
  messageIndexIDMessageID_def messageIndexIDClientMsgNo_def messageIndexIDFromUIDClientMsgNo_def

section \<open>The encoders\<close>

lemma row_head_chan: "row_head ck @ r = chan_key ck (row_rest r)"
  by (simp add: row_head_def chan_key_def row_rest_def)

lemma encode_keys:
  assumes "fits_key ck"
  shows "encodeMessageRowPrefix ck = Some (chan_key ck (row_rest []))"
    "encodeMessageRowKey ck seq fam = Some (row_key_of ck seq fam)"
    "encodeMessageIndexPrefix ck i = Some (chan_key ck (index_rest i []))"
    "encodeMessageIDIndexKey ck mid = Some (id_key ck mid)"
    "encodeMessageSystemPrefix ck i = Some (system_key ck i [])"
    "encodeCatalogKey ck = Some (catalog_key ck)"
proof -
  have l: "length ck \<le> maxStringLen" using assms by (simp add: fits_key_def)
  show "encodeMessageRowPrefix ck = Some (chan_key ck (row_rest []))"
    using row_head_chan [of ck "[]"] by (simp add: row_prefix l)
  show "encodeMessageRowKey ck seq fam = Some (row_key_of ck seq fam)"
    by (simp add: row_key l row_head_chan row_key_of_def)
  show i: "encodeMessageIndexPrefix ck i = Some (chan_key ck (index_rest i []))" for i
    by (simp add: encodeMessageIndexPrefix_def build_simps channelPartitionID_some l chan_key_def index_rest_def)
  show "encodeMessageIDIndexKey ck mid = Some (id_key ck mid)"
    by (simp add: encodeMessageIDIndexKey_def i build_simps id_key_def chan_key_def index_rest_def)
  show "encodeMessageSystemPrefix ck i = Some (system_key ck i [])"
    by (simp add: encodeMessageSystemPrefix_def build_simps channelPartitionID_some l system_key_def chan_key_def system_rest_def)
  show "encodeCatalogKey ck = Some (catalog_key ck)"
    using l by (simp add: encodeCatalogKey_def encodeCatalogPrefix_def build_simps AppendString_def catalog_key_def channel_bytes_def)
qed

lemma encode_client_keys:
  assumes "fits_key ck" "fits_key no"
  shows "encodeMessageClientMsgNoIndexPrefix ck no = Some (chan_key ck (index_rest messageIndexIDClientMsgNo (channel_bytes no)))"
    "encodeMessageClientMsgNoIndexKey ck no seq = Some (client_key ck no seq)"
proof -
  show p: "encodeMessageClientMsgNoIndexPrefix ck no = Some (chan_key ck (index_rest messageIndexIDClientMsgNo (channel_bytes no)))"
    using assms by (simp add: encodeMessageClientMsgNoIndexPrefix_def encode_keys build_simps AppendString_def
        fits_key_def channel_bytes_def chan_key_def index_rest_def)
  show "encodeMessageClientMsgNoIndexKey ck no seq = Some (client_key ck no seq)"
    by (simp add: encodeMessageClientMsgNoIndexKey_def p build_simps client_key_def chan_key_def index_rest_def)
qed

lemma encode_idem_key:
  "fits_key ck \<Longrightarrow> fits_key f \<Longrightarrow> fits_key no \<Longrightarrow>
    encodeMessageIdempotencyIndexKey ck f no = Some (idem_key ck f no)"
  by (simp add: encodeMessageIdempotencyIndexKey_def encode_keys build_simps AppendString_def
      fits_key_def channel_bytes_def chan_key_def index_rest_def idem_key_def)

lemma row_seq_row_key: "fits_key ck \<Longrightarrow> row_seq ck (row_key_of ck seq fam) = Some (seq, fam)"
  using row_key_decodes [of ck ck seq fam] by (simp add: row_seq_def row_key_of_def row_head_chan fits_key_def)

lemma row_seq_some:
  assumes "fits_key ck" "row_seq ck k = Some (seq, fam)"
  shows "k = row_key_of ck seq fam"
proof -
  have l: "length ck \<le> maxStringLen" using assms(1) by (simp add: fits_key_def)
  let ?p = "row_head ck"
  have "HasPrefix k ?p" and len: "length (drop (length ?p) k) = 10"
    and g: "get64 (take 8 (drop (length ?p) k)) = Some (seq, drop 8 (take 8 (drop (length ?p) k)))"
    "\<exists>r. get16 (drop 8 (drop (length ?p) k)) = Some (fam, r)"
    using assms(2) l
    by (auto simp: row_seq_def decodeMessageRowKey_def row_prefix Let_def get64_def get16_def get_be_def
        split: if_splits option.splits)
  then obtain r where k: "k = ?p @ r" by (auto simp: HasPrefix_iff)
  with len have r: "length r = 10" by simp
  from g k have g1: "get64 (take 8 r) = Some (seq, drop 8 (take 8 r))" and g2: "\<exists>r'. get16 (drop 8 r) = Some (fam, r')"
    by simp_all
  have "put64 seq = take 8 r" using g1 r by (auto intro: get64_put)
  moreover have "put16 fam = drop 8 r" using g2 r by (auto intro: get16_put)
  ultimately have "r = row_tail seq fam" by (simp add: row_tail_def)
  with k show ?thesis by (simp add: row_key_of_def row_head_chan)
qed

end
