(* ===== verification/MsgRep.thy ===== *)
theory MsgRep
  imports MsgKeys
begin

text \<open>
  What the entries of the engine say about a channel: its log as a finite map from sequences to rows,
  and how the entries of the row table and of the three indexes represent it.
\<close>

section \<open>The representation\<close>

type_synonym rows = "u64 \<Rightarrow> messageRow option"

definition good_row :: "u64 \<Rightarrow> messageRow \<Rightarrow> bool" where
  "good_row seq r \<longleftrightarrow> mr_MessageSeq r = seq \<and> seq \<noteq> 0 \<and> mr_MessageID r \<noteq> 0 \<and> normalizeMessageRow r = r \<and> row_fits r
     \<and> fits_key (mr_ClientMsgNo r) \<and> (mr_ClientMsgNo r \<noteq> [] \<longrightarrow> fits_key (mr_FromUID r))"

definition stored :: "db_error + u8 list \<Rightarrow> u8 list" where
  "stored r = (case r of Inr bs \<Rightarrow> bs | Inl _ \<Rightarrow> [])"

definition row_entry :: "ChannelKeyBytes \<Rightarrow> rows \<Rightarrow> u64 \<Rightarrow> u16 \<Rightarrow> u8 list option" where
  "row_entry ck rows seq fam =
     (case rows seq of
        None \<Rightarrow> None
      | Some r \<Rightarrow>
          if fam = messageHeaderFamilyID then Some (stored (encodeMessageHeader (row_key_of ck seq fam) r))
          else if fam = messagePayloadFamilyID then Some (stored (encodeMessagePayload (row_key_of ck seq fam) r))
          else None)"

definition idem_value :: "messageRow \<Rightarrow> u8 list" where
  "idem_value r = put64 (mr_MessageSeq r) @ put64 (mr_MessageID r) @ put64 (mr_PayloadHash r)"

definition rows_held :: "(key \<Rightarrow> u8 list option) \<Rightarrow> ChannelKeyBytes \<Rightarrow> rows \<Rightarrow> bool" where
  "rows_held m ck rows \<longleftrightarrow> (\<forall>seq fam. m (row_key_of ck seq fam) = row_entry ck rows seq fam)"

definition ids_held :: "(key \<Rightarrow> u8 list option) \<Rightarrow> ChannelKeyBytes \<Rightarrow> rows \<Rightarrow> bool" where
  "ids_held m ck rows \<longleftrightarrow> (\<forall>mid v. m (id_key ck mid) = Some v \<longleftrightarrow>
     (\<exists>seq r. rows seq = Some r \<and> mr_MessageID r = mid \<and> v = put64 seq))"

definition clients_held :: "(key \<Rightarrow> u8 list option) \<Rightarrow> ChannelKeyBytes \<Rightarrow> rows \<Rightarrow> bool" where
  "clients_held m ck rows \<longleftrightarrow> (\<forall>no seq v. fits_key no \<longrightarrow> (m (client_key ck no seq) = Some v \<longleftrightarrow>
     no \<noteq> [] \<and> (\<exists>r. rows seq = Some r \<and> mr_ClientMsgNo r = no) \<and> v = put64 seq))"

definition idems_held :: "(key \<Rightarrow> u8 list option) \<Rightarrow> ChannelKeyBytes \<Rightarrow> rows \<Rightarrow> bool" where
  "idems_held m ck rows \<longleftrightarrow> (\<forall>f no v. fits_key f \<longrightarrow> fits_key no \<longrightarrow> (m (idem_key ck f no) = Some v \<longleftrightarrow>
     f \<noteq> [] \<and> no \<noteq> [] \<and> (\<exists>seq r. rows seq = Some r \<and> mr_FromUID r = f \<and> mr_ClientMsgNo r = no \<and> v = idem_value r)))"

definition holds :: "(key \<Rightarrow> u8 list option) \<Rightarrow> ChannelKeyBytes \<Rightarrow> rows \<Rightarrow> bool" where
  "holds m ck rows \<longleftrightarrow> fits_key ck \<and> (\<forall>seq r. rows seq = Some r \<longrightarrow> good_row seq r)
     \<and> rows_held m ck rows \<and> ids_held m ck rows \<and> clients_held m ck rows \<and> idems_held m ck rows"

lemma holds_good: "holds m ck rows \<Longrightarrow> rows seq = Some r \<Longrightarrow> good_row seq r"
  by (simp add: holds_def)

text \<open>Message ids, and pairs of sender and client number, are unique.\<close>

lemma holds_ids:
  "holds m ck rows \<Longrightarrow>
    m (id_key ck mid) = Some v \<longleftrightarrow> (\<exists>seq r. rows seq = Some r \<and> mr_MessageID r = mid \<and> v = put64 seq)"
  by (simp add: holds_def ids_held_def)

lemma holds_clients:
  "holds m ck rows \<Longrightarrow> fits_key no \<Longrightarrow>
    m (client_key ck no seq) = Some v \<longleftrightarrow> no \<noteq> [] \<and> (\<exists>r. rows seq = Some r \<and> mr_ClientMsgNo r = no) \<and> v = put64 seq"
  by (simp add: holds_def clients_held_def)

lemma holds_idems:
  "holds m ck rows \<Longrightarrow> fits_key f \<Longrightarrow> fits_key no \<Longrightarrow>
    m (idem_key ck f no) = Some v \<longleftrightarrow>
     f \<noteq> [] \<and> no \<noteq> [] \<and> (\<exists>seq r. rows seq = Some r \<and> mr_FromUID r = f \<and> mr_ClientMsgNo r = no \<and> v = idem_value r)"
  by (simp add: holds_def idems_held_def)

lemma holds_row_entry: "holds m ck rows \<Longrightarrow> m (row_key_of ck seq fam) = row_entry ck rows seq fam"
  by (simp add: holds_def rows_held_def)

lemma holds_id_unique:
  "holds m ck rows \<Longrightarrow> rows s = Some r \<Longrightarrow> rows s' = Some r' \<Longrightarrow> mr_MessageID r = mr_MessageID r' \<Longrightarrow> s = s'"
proof -
  assume a: "holds m ck rows" "rows s = Some r" "rows s' = Some r'" "mr_MessageID r = mr_MessageID r'"
  then have "m (id_key ck (mr_MessageID r)) = Some (put64 s)" "m (id_key ck (mr_MessageID r)) = Some (put64 s')"
    by (auto simp: holds_ids [OF a(1)])
  then show ?thesis by simp
qed

section \<open>Scanning the rows\<close>

definition seqs_from :: "rows \<Rightarrow> u64 \<Rightarrow> u64 list" where
  "seqs_from rows s = sorted_list_of_set {t \<in> dom rows. s \<le> t}"

definition row_entries :: "ChannelKeyBytes \<Rightarrow> rows \<Rightarrow> u64 \<Rightarrow> (key \<times> u8 list) list" where
  "row_entries ck rows s =
     [(row_key_of ck s messageHeaderFamilyID, the (row_entry ck rows s messageHeaderFamilyID)),
      (row_key_of ck s messagePayloadFamilyID, the (row_entry ck rows s messagePayloadFamilyID))]"

lemma set_seqs_from [simp]: "set (seqs_from rows s) = {t \<in> dom rows. s \<le> t}"
  by (simp add: seqs_from_def)

lemma seqs_from_sorted: "sorted_wrt (<) (seqs_from rows s)"
  by (simp add: seqs_from_def)

lemma row_key_less: "row_key_of ck s f < row_key_of ck s' f' \<longleftrightarrow> s < s' \<or> s = s' \<and> f < f'"
proof -
  have "row_key_of ck s f \<le> row_key_of ck s' f' \<longleftrightarrow> row_tail s f \<le> row_tail s' f'" for s f s' f'
    by (simp add: row_key_of_def row_head_chan [symmetric])
  then have "row_key_of ck s f < row_key_of ck s' f' \<longleftrightarrow> \<not> row_tail s' f' \<le> row_tail s f"
    by (metis not_less)
  then show ?thesis by (auto simp: row_tail_le)
qed

lemma entries_sorted:
  "sorted_wrt (<) ss \<Longrightarrow> sorted_wrt (<) (map fst (concat (map (row_entries ck rows) ss)))"
  by (induction ss)
    (auto simp: row_entries_def row_key_less messageHeaderFamilyID_def messagePayloadFamilyID_def)

lemma in_row_entries:
  assumes "t \<in> dom rows"
  shows "(k, v) \<in> set (row_entries ck rows t) \<longleftrightarrow> (\<exists>fam. k = row_key_of ck t fam \<and> row_entry ck rows t fam = Some v)"
  using assms
  by (auto simp: row_entries_def row_entry_def messageHeaderFamilyID_def messagePayloadFamilyID_def split: if_splits)

lemma row_bounds:
  assumes "fits_key ck"
  shows "row_key_of ck s messageHeaderFamilyID \<le> row_key_of ck t fam \<and>
      row_key_of ck t fam < span_End (NewPrefixSpan (chan_key ck (row_rest []))) \<longleftrightarrow> s \<le> t"
  using scan_bounds [of ck ck s t fam] assms row_head_chan [of ck "[]"]
  by (simp add: row_key_of_def row_head_chan [symmetric] fits_key_def NewPrefixSpan_def)

lemma row_above_prefix: "chan_key ck (row_rest []) \<le> row_key_of ck t fam"
  using le_append_same [of "chan_key ck (row_rest [])" "[]" "row_tail t fam"]
  by (simp add: row_key_of_def row_head_chan [symmetric] flip: row_head_chan [of ck "[]", simplified])

context ordered_engine
begin

lemma scan_from:
  assumes h: "holds (eg_Get eng d) ck rows"
    and lo: "\<And>t fam. lo \<le> row_key_of ck t fam \<and> row_key_of ck t fam < span_End (NewPrefixSpan (chan_key ck (row_rest []))) \<longleftrightarrow> s \<le> t"
  shows "filter (\<lambda>(k, v). row_seq ck k \<noteq> None) (eg_Scan eng d lo (span_End (NewPrefixSpan (chan_key ck (row_rest [])))))
    = concat (map (row_entries ck rows) (seqs_from rows s))"
proof (rule scan_unique)
  show "sorted_wrt (<) (map fst (concat (map (row_entries ck rows) (seqs_from rows s))))"
    by (rule entries_sorted) (rule seqs_from_sorted)
  fix k v
  have f: "fits_key ck" and g: "eg_Get eng d (row_key_of ck t fam) = row_entry ck rows t fam" for t fam
    using h by (auto simp: holds_def rows_held_def)
  have dom: "t \<in> dom rows" if "row_entry ck rows t fam = Some v" for t fam
    using that by (auto simp: row_entry_def split: option.splits)
  show "(k, v) \<in> set (concat (map (row_entries ck rows) (seqs_from rows s))) \<longleftrightarrow>
      lo \<le> k \<and> k < span_End (NewPrefixSpan (chan_key ck (row_rest []))) \<and> row_seq ck k \<noteq> None \<and> eg_Get eng d k = Some v"
  proof
    assume "(k, v) \<in> set (concat (map (row_entries ck rows) (seqs_from rows s)))"
    then obtain t fam where "s \<le> t" "k = row_key_of ck t fam" "row_entry ck rows t fam = Some v"
      by (auto simp: in_row_entries)
    then show "lo \<le> k \<and> k < span_End (NewPrefixSpan (chan_key ck (row_rest []))) \<and> row_seq ck k \<noteq> None \<and> eg_Get eng d k = Some v"
      using lo [of t fam] g by (simp add: row_seq_row_key f)
  next
    assume a: "lo \<le> k \<and> k < span_End (NewPrefixSpan (chan_key ck (row_rest []))) \<and> row_seq ck k \<noteq> None \<and> eg_Get eng d k = Some v"
    then obtain t fam where k: "k = row_key_of ck t fam" using row_seq_some [OF f] by fastforce
    with a have "s \<le> t" "row_entry ck rows t fam = Some v" using lo [of t fam] g by auto
    then show "(k, v) \<in> set (concat (map (row_entries ck rows) (seqs_from rows s)))"
      using dom [of t fam] k by (auto simp: in_row_entries)
  qed
qed

end

end
