(* ===== verification/MsgRead.thy ===== *)
theory MsgRead
  imports MsgRep
begin

text \<open>
  Reading from the entries of a channel gives the rows of its log: by sequence, in order with the limits, and
  the frontier that recovery computes.
\<close>

section \<open>Decoding what is stored\<close>

definition readable :: "messageRow \<Rightarrow> bool" where
  "readable r \<longleftrightarrow> validateMaterializedMessageRow r = None"

lemma good_row_normal: "good_row seq r \<Longrightarrow> normalizeMessageRow r = r"
  by (simp add: good_row_def)

lemma stored_header:
  assumes "good_row seq r"
  shows "decodeMessageHeader k (stored (encodeMessageHeader k r)) row =
    Inr (r\<lparr>mr_MessageSeq := mr_MessageSeq row, mr_Payload := mr_Payload row\<rparr>)"
proof -
  have g: "normalizeMessageRow r = r" "row_fits r" "mr_MessageID r \<noteq> 0" using assms by (auto simp: good_row_def)
  obtain val where "encodeMessageHeader k r = Inr val" using g by (simp add: header_writes Wrap_total)
  with header_decodes [of r k val row] g show ?thesis by (simp add: stored_def)
qed

lemma stored_payload:
  assumes "good_row seq r"
  shows "decodeMessagePayload k (stored (encodeMessagePayload k r)) row = Inr (row\<lparr>mr_Payload := mr_Payload r\<rparr>)"
proof -
  have g: "row_fits r" "mr_MessageID r \<noteq> 0" using assms by (auto simp: good_row_def)
  obtain val where "encodeMessagePayload k r = Inr val" using g by (simp add: payload_writes Wrap_total)
  with payload_decodes [of r k val row] g show ?thesis by (simp add: stored_def)
qed

lemma row_rebuilt: "good_row seq r \<Longrightarrow> r\<lparr>mr_MessageSeq := seq\<rparr> = r"
  by (cases r) (simp add: good_row_def)

lemma payload_last [simp]: "r\<lparr>mr_Payload := p, mr_Payload := q\<rparr> = r\<lparr>mr_Payload := q\<rparr>"
  "r\<lparr>mr_Payload := mr_Payload r\<rparr> = r" "r\<lparr>mr_MessageSeq := seq, mr_Payload := q\<rparr> = r\<lparr>mr_Payload := q\<rparr>\<lparr>mr_MessageSeq := seq\<rparr>"
  by (cases r; simp)+

context ordered_engine
begin

lemma getRowBySeq_held:
  assumes "holds (eg_Get eng d) (cl_key l) rows" "seq \<noteq> 0"
  shows "getRowBySeq eng d l seq =
    (case rows seq of
       None \<Rightarrow> Inr None
     | Some r \<Rightarrow> (case validateMaterializedMessageRow r of Some e \<Rightarrow> Inl e | None \<Rightarrow> Inr (Some r)))"
proof -
  have f: "fits_key (cl_key l)" using assms(1) by (simp add: holds_def)
  note e = holds_row_entry [OF assms(1)]
  show ?thesis
  proof (cases "rows seq")
    case None
    with assms(2) e show ?thesis by (simp add: getRowBySeq_def encode_keys f key_or_panic_def bind_res_def row_entry_def)
  next
    case (Some r)
    note g = holds_good [OF assms(1) Some]
    show ?thesis
      using assms(2) Some row_rebuilt [OF g]
      by (simp add: getRowBySeq_def encode_keys f key_or_panic_def bind_res_def e row_entry_def stored_header [OF g]
          stored_payload [OF g] messageHeaderFamilyID_def messagePayloadFamilyID_def zero_row_def cong: option.case_cong)
  qed
qed

end

section \<open>The loop\<close>

definition idle :: "'m list \<Rightarrow> nat \<Rightarrow> 'm ReadState" where
  "idle ms n = \<lparr>rd_messages = ms, rd_totalBytes = n, rd_current = zero_row, rd_currentSeq = 0,
     rd_haveRow = False, rd_haveHeader = False, rd_havePayload = False\<rparr>"

definition pending_row :: "'m list \<Rightarrow> nat \<Rightarrow> messageRow \<Rightarrow> 'm ReadState" where
  "pending_row ms n r = \<lparr>rd_messages = ms, rd_totalBytes = n, rd_current = r, rd_currentSeq = mr_MessageSeq r,
     rd_haveRow = True, rd_haveHeader = True, rd_havePayload = True\<rparr>"

lemma flush_idle: "flush_row out len opts (idle ms n) = Inr (False, idle ms n)"
  by (simp add: flush_row_def idle_def)

lemma flush_pending:
  "readable r \<Longrightarrow> flush_row out len opts (pending_row ms n r) =
    (case appendReadMessage len ms n (out r) opts of (ms, n, stop) \<Rightarrow> Inr (stop, idle ms n))"
  by (simp add: flush_row_def pending_row_def idle_def readable_def split: prod.splits)

definition is_row :: "ChannelKeyBytes \<Rightarrow> key \<times> u8 list \<Rightarrow> bool" where
  "is_row ck e = (\<lambda>(k, v). row_seq ck k \<noteq> None) e"

lemma is_row [simp]: "is_row ck (k, v) \<longleftrightarrow> row_seq ck k \<noteq> None"
  by (simp add: is_row_def)

lemma read_loop_filter:
  "read_loop out len opts maxSeq ck es st = read_loop out len opts maxSeq ck (filter (is_row ck) es) st"
proof (induction es arbitrary: st)
  case (Cons e es)
  obtain k v where e: "e = (k, v)" by (cases e)
  have IH: "read_loop out len opts maxSeq ck es = read_loop out len opts maxSeq ck (filter (is_row ck) es)"
    using Cons.IH by (rule ext)
  show ?case by (cases "row_seq ck k") (simp_all add: e IH cong: if_cong)
qed simp

definition within :: "u64 \<Rightarrow> u64 \<Rightarrow> bool" where
  "within maxSeq s \<longleftrightarrow> \<not> (0 < maxSeq \<and> maxSeq < s)"

text \<open>The steps of the loop.\<close>

lemma read_beyond:
  "row_seq ck k = Some (s, fam) \<Longrightarrow> \<not> within maxSeq s \<Longrightarrow>
    read_loop out len opts maxSeq ck ((k, v) # es) st = bind_res (flush_row out len opts st) (\<lambda>(_, r). Inr (rd_messages r))"
  by (simp add: within_def)

lemma read_new:
  "row_seq ck k = Some (s, fam) \<Longrightarrow> within maxSeq s \<Longrightarrow> \<not> rd_haveRow st \<or> s \<noteq> rd_currentSeq st \<Longrightarrow>
    flush_row out len opts st = Inr (stop, st') \<Longrightarrow>
    read_loop out len opts maxSeq ck ((k, v) # es) st =
      (if stop then Inr (rd_messages st')
       else bind_res (read_family k v fam (st'\<lparr>rd_current := zero_row\<lparr>mr_MessageSeq := s\<rparr>, rd_currentSeq := s, rd_haveRow := True\<rparr>))
         (read_loop out len opts maxSeq ck es))"
  by (cases "0 < maxSeq \<and> maxSeq < s") (auto simp: within_def bind_res_def)

lemma read_same:
  "row_seq ck k = Some (s, fam) \<Longrightarrow> within maxSeq s \<Longrightarrow> rd_haveRow st \<Longrightarrow> s = rd_currentSeq st \<Longrightarrow>
    read_loop out len opts maxSeq ck ((k, v) # es) st = bind_res (read_family k v fam st) (read_loop out len opts maxSeq ck es)"
  by (cases "0 < maxSeq \<and> maxSeq < s") (auto simp: within_def)

lemma read_family_header:
  assumes "good_row s r" "rows s = Some r"
  shows "read_family (row_key_of ck s messageHeaderFamilyID) (the (row_entry ck rows s messageHeaderFamilyID)) messageHeaderFamilyID
      ((idle ms n)\<lparr>rd_current := zero_row\<lparr>mr_MessageSeq := s\<rparr>, rd_currentSeq := s, rd_haveRow := True\<rparr>)
    = Inr ((pending_row ms n r)\<lparr>rd_current := r\<lparr>mr_Payload := []\<rparr>, rd_havePayload := False\<rparr>)"
proof -
  have "mr_MessageSeq r = s" using assms(1) by (simp add: good_row_def)
  then have "r\<lparr>mr_Payload := [], mr_MessageSeq := s\<rparr> = r\<lparr>mr_Payload := []\<rparr>" by (cases r) simp
  with \<open>mr_MessageSeq r = s\<close> show ?thesis
    by (simp add: read_family_def row_entry_def assms(2) stored_header [OF assms(1)] bind_res_def idle_def pending_row_def zero_row_def)
qed

lemma read_family_payload:
  assumes "good_row s r" "rows s = Some r"
  shows "read_family (row_key_of ck s messagePayloadFamilyID) (the (row_entry ck rows s messagePayloadFamilyID)) messagePayloadFamilyID
      ((pending_row ms n r)\<lparr>rd_current := r\<lparr>mr_Payload := []\<rparr>, rd_havePayload := False\<rparr>)
    = Inr (pending_row ms n r)"
  by (simp add: read_family_def row_entry_def assms(2) stored_payload [OF assms(1)] bind_res_def pending_row_def
      messageHeaderFamilyID_def messagePayloadFamilyID_def)

lemma read_step:
  assumes g: "good_row s r" "rows s = Some r" "fits_key ck" and n: "\<not> rd_haveRow st \<or> s \<noteq> rd_currentSeq st"
    and f: "flush_row out len opts st = Inr (stop, idle ms n)" and w: "within maxSeq s"
  shows "read_loop out len opts maxSeq ck (row_entries ck rows s @ es) st =
    (if stop then Inr ms else read_loop out len opts maxSeq ck es (pending_row ms n r))"
proof -
  note k = row_seq_row_key [OF g(3)]
  have p: "read_loop out len opts maxSeq ck
      ((row_key_of ck s messagePayloadFamilyID, the (row_entry ck rows s messagePayloadFamilyID)) # es)
      ((pending_row ms n r)\<lparr>rd_current := r\<lparr>mr_Payload := []\<rparr>, rd_havePayload := False\<rparr>) =
    read_loop out len opts maxSeq ck es (pending_row ms n r)"
    using g(1) unfolding good_row_def by (subst read_same [OF k w])
      (simp_all add: read_family_payload [where s = s and r = r and rows = rows] g bind_res_def, simp_all add: pending_row_def)
  show ?thesis
    unfolding row_entries_def
    by (simp add: read_new [OF k w n f] read_family_header [where s = s and r = r and rows = rows] g bind_res_def [of "Inr _"] p del: read_loop.simps)
      (simp add: idle_def)
qed

section \<open>What a read returns\<close>

fun read_rows :: "(messageRow \<Rightarrow> 'm) \<Rightarrow> ('m \<Rightarrow> nat) \<Rightarrow> ReadOptions \<Rightarrow> u64 \<Rightarrow> 'm list \<Rightarrow> nat \<Rightarrow> messageRow list \<Rightarrow> db_error + 'm list" where
  "read_rows out len opts maxSeq ms n [] = Inr ms"
| "read_rows out len opts maxSeq ms n (r # rs) =
     (if \<not> within maxSeq (mr_MessageSeq r) then Inr ms
      else case validateMaterializedMessageRow r of
        Some e \<Rightarrow> Inl e
      | None \<Rightarrow>
          (case appendReadMessage len ms n (out r) opts of
             (ms, n, stop) \<Rightarrow> if stop then Inr ms else read_rows out len opts maxSeq ms n rs))"

lemma flush_bad:
  "validateMaterializedMessageRow r = Some e \<Longrightarrow> flush_row out len opts (pending_row ms n r) = Inl e"
  by (simp add: flush_row_def pending_row_def)

lemma read_loop_pending:
  assumes "fits_key ck" "\<forall>s \<in> set ss. \<exists>r. rows s = Some r \<and> good_row s r" "sorted_wrt (<) (mr_MessageSeq r # ss)"
  shows "read_loop out len opts maxSeq ck (concat (map (row_entries ck rows) ss)) (pending_row ms n r) =
    (case validateMaterializedMessageRow r of
        Some e \<Rightarrow> Inl e
      | None \<Rightarrow>
          (case appendReadMessage len ms n (out r) opts of
             (ms, n, stop) \<Rightarrow> if stop then Inr ms else read_rows out len opts maxSeq ms n (map (the \<circ> rows) ss)))"
  using assms(2,3)
proof (induction ss arbitrary: ms n r)
  case Nil
  show ?case
  proof (cases "validateMaterializedMessageRow r")
    case None
    then show ?thesis by (simp add: flush_pending readable_def bind_res_def idle_def split: prod.splits)
  next
    case (Some e)
    then show ?thesis by (simp add: flush_bad bind_res_def)
  qed
next
  case (Cons s ss)
  obtain q where q: "rows s = Some q" "good_row s q" using Cons.prems by auto
  have sq: "mr_MessageSeq q = s" using q(2) by (simp add: good_row_def)
  have n: "\<not> rd_haveRow (pending_row ms n r) \<or> s \<noteq> rd_currentSeq (pending_row ms n r)"
    using Cons.prems(2) by (auto simp: pending_row_def)
  have e: "row_entries ck rows s = (row_key_of ck s messageHeaderFamilyID, the (row_entry ck rows s messageHeaderFamilyID)) #
      [(row_key_of ck s messagePayloadFamilyID, the (row_entry ck rows s messagePayloadFamilyID))]"
    by (simp add: row_entries_def)
  note k = row_seq_row_key [OF assms(1)]
  show ?case
  proof (cases "validateMaterializedMessageRow r")
    case None
    obtain ms' n' stop where a: "appendReadMessage len ms n (out r) opts = (ms', n', stop)" by (cases "appendReadMessage len ms n (out r) opts") auto
    have f: "flush_row out len opts (pending_row ms n r) = Inr (stop, idle ms' n')"
      using None a by (simp add: flush_pending readable_def)
    show ?thesis
    proof (cases "within maxSeq s")
      case True
      then show ?thesis
        using Cons.IH [of q ms' n'] Cons.prems
        by (simp add: read_step [where rows = rows, OF q(2,1) assms(1) n f] None a q(1) sq)
    next
      case False
      then show ?thesis
        by (simp add: e read_beyond [OF k False] f bind_res_def None a q(1) sq del: read_loop.simps) (simp add: idle_def)
    qed
  next
    case (Some x)
    have "read_loop out len opts maxSeq ck (row_entries ck rows s @ es) (pending_row ms n r) = Inl x" for es
      using n flush_bad [OF Some, of out len opts ms n]
      by (simp add: e k bind_res_def)
    then show ?thesis by (simp add: Some)
  qed
qed

lemma read_loop_rows:
  assumes "fits_key ck" "\<forall>s \<in> set ss. \<exists>r. rows s = Some r \<and> good_row s r" "sorted_wrt (<) ss"
  shows "read_loop out len opts maxSeq ck (concat (map (row_entries ck rows) ss)) read_start =
    read_rows out len opts maxSeq [] 0 (map (the \<circ> rows) ss)"
proof (cases ss)
  case Nil
  then show ?thesis by (simp add: read_start_def flush_row_def bind_res_def)
next
  case (Cons s ts)
  obtain q where q: "rows s = Some q" "good_row s q" using assms(2) Cons by auto
  have sq: "mr_MessageSeq q = s" using q(2) by (simp add: good_row_def)
  have st: "read_start = idle [] 0" by (simp add: read_start_def idle_def)
  show ?thesis
  proof (cases "within maxSeq s")
    case True
    have "\<not> rd_haveRow (idle [] 0) \<or> s \<noteq> rd_currentSeq (idle [] 0)" by (simp add: idle_def)
    note r = read_step [where rows = rows and ms = "[]" and n = 0, OF q(2,1) assms(1) this flush_idle True]
    show ?thesis
      using read_loop_pending [OF assms(1), of ts rows q out len opts maxSeq "[]" 0] assms(2,3) True
      by (simp add: Cons st r q(1) sq)
  next
    case False
    then show ?thesis
      by (simp add: Cons st row_entries_def read_beyond [OF row_seq_row_key [OF assms(1)] False] flush_idle bind_res_def q(1) sq
          del: read_loop.simps) (simp add: idle_def)
  qed
qed

definition rows_from :: "rows \<Rightarrow> u64 \<Rightarrow> messageRow list" where
  "rows_from rows s = map (the \<circ> rows) (seqs_from rows s)"

context ordered_engine
begin

lemma read_from_held:
  assumes h: "holds (eg_Get eng d) (cl_key l) rows"
  shows "read_from out len eng d l s maxSeq opts = read_rows out len opts maxSeq [] 0 (rows_from rows s)"
proof -
  let ?ck = "cl_key l"
  let ?hi = "span_End (NewPrefixSpan (chan_key ?ck (row_rest [])))"
  have f: "fits_key ?ck" using h by (simp add: holds_def)
  have "filter (is_row ?ck) (eg_Scan eng d (row_key_of ?ck s messageHeaderFamilyID) ?hi) =
      concat (map (row_entries ?ck rows) (seqs_from rows s))"
    using scan_from [OF h row_bounds [OF f]] by (simp add: is_row_def [abs_def])
  moreover have "\<forall>t \<in> set (seqs_from rows s). \<exists>r. rows t = Some r \<and> good_row t r"
    using holds_good [OF h] by auto
  ultimately show ?thesis
    using read_loop_rows [OF f _ seqs_from_sorted [of rows s], where rows = rows and out = out and len = len and opts = opts and maxSeq = maxSeq]
    by (subst read_from_def) (simp add: encode_keys f key_or_panic_def bind_res_def rows_from_def, subst read_loop_filter, simp)
qed

end

end
