(* ===== verification/MsgWrite.thy ===== *)
theory MsgWrite
  imports MsgRead
begin

text \<open>
  Writing rows: what the batch of a row contains, and that it adds exactly the row to the log of its
  channel and leaves every other channel alone.
\<close>

section \<open>Frame\<close>

lemma holds_cong:
  assumes "\<And>rest. m' (chan_key ck rest) = m (chan_key ck rest)"
  shows "holds m' ck rows = holds m ck rows"
  using assms by (simp add: holds_def rows_held_def ids_held_def clients_held_def idems_held_def key_defs)

fun op_in :: "(key \<Rightarrow> bool) \<Rightarrow> BatchOp \<Rightarrow> bool" where
  "op_in P (OpSet k v) = P k"
| "op_in P (OpDelete k) = P k"
| "op_in P (OpDeleteRange lo hi) = False"

lemma apply_ops_outside: "list_all (op_in P) ops \<Longrightarrow> \<not> P k \<Longrightarrow> apply_ops ops m k = m k"
proof (induction ops arbitrary: m)
  case (Cons x ops)
  then show ?case by (cases x) auto
qed simp

section \<open>The batch of a row\<close>

definition row_ops :: "ChannelKeyBytes \<Rightarrow> messageRow \<Rightarrow> BatchOp list" where
  "row_ops ck r =
     (let s = mr_MessageSeq r; h = row_key_of ck s messageHeaderFamilyID; p = row_key_of ck s messagePayloadFamilyID
      in [OpSet h (stored (encodeMessageHeader h r)), OpSet p (stored (encodeMessagePayload p r)),
          OpSet (id_key ck (mr_MessageID r)) (put64 s)]
         @ (if mr_ClientMsgNo r \<noteq> [] then [OpSet (client_key ck (mr_ClientMsgNo r) s) (put64 s)] else [])
         @ (if mr_FromUID r \<noteq> [] \<and> mr_ClientMsgNo r \<noteq> []
            then [OpSet (idem_key ck (mr_FromUID r) (mr_ClientMsgNo r)) (idem_value r)] else []))"

definition cache_ok :: "ChannelLog \<Rightarrow> bool" where
  "cache_ok l \<longleftrightarrow> fits_key (cl_key l) \<and> newAppendKeyCache (cl_key l) (cl_id l) = Some (cl_cache l)"

lemma cache_fields:
  assumes "cache_ok l"
  shows "kc_rowPrefix (cl_cache l) = chan_key (cl_key l) (row_rest [])"
    "kc_messageIDIndexPrefix (cl_cache l) = chan_key (cl_key l) (index_rest messageIndexIDMessageID [])"
    "kc_clientMsgNoIndexPrefix (cl_cache l) = chan_key (cl_key l) (index_rest messageIndexIDClientMsgNo [])"
    "kc_idempotencyIndexPrefix (cl_cache l) = chan_key (cl_key l) (index_rest messageIndexIDFromUIDClientMsgNo [])"
    "kc_catalogKey (cl_cache l) = catalog_key (cl_key l)"
  by (cases "cl_cache l", use assms in \<open>auto simp: cache_ok_def newAppendKeyCache_def encode_keys bind_eq_Some_conv\<close>)+

lemma chan_key_append: "chan_key ck (row_rest a) @ b = chan_key ck (row_rest (a @ b))"
  "chan_key ck (index_rest i a) @ b = chan_key ck (index_rest i (a @ b))"
  by (simp_all add: chan_key_def row_rest_def index_rest_def)

lemma cache_keys:
  assumes "cache_ok l"
  shows "messageRowKey (cl_cache l) s fam = row_key_of (cl_key l) s fam"
    "messageIDIndexKey (cl_cache l) mid = id_key (cl_key l) mid"
    "fits_key no \<Longrightarrow> clientMsgNoIndexKey (cl_cache l) no s = Inr (client_key (cl_key l) no s)"
    "fits_key f \<Longrightarrow> fits_key no \<Longrightarrow> idempotencyIndexKey (cl_cache l) f no = Inr (idem_key (cl_key l) f no)"
  by (simp_all add: messageRowKey_def messageIDIndexKey_def clientMsgNoIndexKey_def idempotencyIndexKey_def
      cache_fields [OF assms] chan_key_append key_defs row_tail_def appendKeyString_def bind_res_def fits_key_def
      maxAppendKeyStringLen_def maxStringLen_def channel_bytes_def)

lemma stage_row:
  assumes c: "cache_ok l" and g: "good_row s r"
  shows "stageMessageRow l r = Inr (row_ops (cl_key l) r)"
proof -
  have g': "mr_MessageSeq r = s" "mr_MessageID r \<noteq> 0" "normalizeMessageRow r = r" "fits_key (mr_ClientMsgNo r)"
    "mr_ClientMsgNo r \<noteq> [] \<Longrightarrow> fits_key (mr_FromUID r)" using g by (auto simp: good_row_def)
  have e: "encodeMessageHeader k r = Inr (stored (encodeMessageHeader k r))"
    "encodeMessagePayload k r = Inr (stored (encodeMessagePayload k r))" for k
    using g'(2) by (simp_all add: header_writes payload_writes Wrap_total stored_def)
  have h: "stageMessageHeaderRow l r = Inr [OpSet (row_key_of (cl_key l) s messageHeaderFamilyID)
      (stored (encodeMessageHeader (row_key_of (cl_key l) s messageHeaderFamilyID) r))]"
    by (simp add: stageMessageHeaderRow_def SetDeferred_def header_encoders cache_keys [OF c] g'(1))
      (subst e(1), simp add: bind_res_def)
  have p: "stageMessagePayloadRow l r = Inr [OpSet (row_key_of (cl_key l) s messagePayloadFamilyID)
      (stored (encodeMessagePayload (row_key_of (cl_key l) s messagePayloadFamilyID) r))]"
    by (simp add: stageMessagePayloadRow_def SetDeferred_def payload_encoders cache_keys [OF c] g'(1))
      (subst e(2), simp add: bind_res_def)
  have i: "idempotencyIndexValue r = Inr (idem_value r)"
    using g' by (simp add: idempotencyIndexValue_def idem_value_def validate_row_def)
  show ?thesis
    using g' by (simp add: stageMessageRow_def row_ops_def h p stageMessageIDIndexRow_def stageClientMsgNoIndexRow_def
        stageIdempotencyIndexRow_def cache_keys [OF c] i bind_res_def Let_def)
qed

section \<open>What the batch does\<close>

definition keyed :: "messageRow \<Rightarrow> bool" where
  "keyed r \<longleftrightarrow> mr_FromUID r \<noteq> [] \<and> mr_ClientMsgNo r \<noteq> []"

definition row_pair :: "messageRow \<Rightarrow> u8 list \<times> u8 list" where
  "row_pair r = (mr_FromUID r, mr_ClientMsgNo r)"

definition log_ids :: "rows \<Rightarrow> u64 set" where
  "log_ids rows = mr_MessageID ` ran rows"

definition log_pairs :: "rows \<Rightarrow> (u8 list \<times> u8 list) set" where
  "log_pairs rows = row_pair ` {r \<in> ran rows. keyed r}"

lemma log_ids_upd: "rows s = None \<Longrightarrow> log_ids (rows(s \<mapsto> r)) = insert (mr_MessageID r) (log_ids rows)"
  by (auto simp: log_ids_def)

lemma log_pairs_upd:
  "rows s = None \<Longrightarrow> log_pairs (rows(s \<mapsto> r)) = (if keyed r then insert (row_pair r) (log_pairs rows) else log_pairs rows)"
  by (auto simp: log_pairs_def)

lemma row_ops_keys: "list_all (op_in (\<lambda>k. \<exists>rest. k = chan_key ck rest)) (row_ops ck r)"
  by (simp add: row_ops_def Let_def key_defs) metis

text \<open>The keys of one channel.\<close>

lemma chan_key_same [simp]: "chan_key ck a = chan_key ck b \<longleftrightarrow> a = b"
  by (simp add: chan_key_def)

lemma same_keys [simp]:
  "row_key_of ck s f = row_key_of ck s' f' \<longleftrightarrow> s = s' \<and> f = f'"
  "id_key ck a = id_key ck b \<longleftrightarrow> a = b"
  "fits_key n \<Longrightarrow> fits_key n' \<Longrightarrow> client_key ck n s = client_key ck n' s' \<longleftrightarrow> n = n' \<and> s = s'"
  "fits_key u \<Longrightarrow> fits_key u' \<Longrightarrow> fits_key n \<Longrightarrow> fits_key n' \<Longrightarrow> idem_key ck u n = idem_key ck u' n' \<longleftrightarrow> u = u' \<and> n = n'"
  by (simp_all add: key_defs row_tail_eq str_eq str_inj)

lemma other_keys [simp]:
  "row_key_of ck s f \<noteq> id_key ck a" "row_key_of ck s f \<noteq> client_key ck n t" "row_key_of ck s f \<noteq> idem_key ck u n"
  "id_key ck a \<noteq> row_key_of ck s f" "id_key ck a \<noteq> client_key ck n t" "id_key ck a \<noteq> idem_key ck u n"
  "client_key ck n t \<noteq> row_key_of ck s f" "client_key ck n t \<noteq> id_key ck a" "client_key ck n t \<noteq> idem_key ck u n'"
  "idem_key ck u n \<noteq> row_key_of ck s f" "idem_key ck u n \<noteq> id_key ck a" "idem_key ck u n \<noteq> client_key ck n' t"
  by (simp_all add: key_defs rest_neq messageIndexIDMessageID_def messageIndexIDClientMsgNo_def messageIndexIDFromUIDClientMsgNo_def)

lemma families [simp]: "messageHeaderFamilyID \<noteq> messagePayloadFamilyID" "messagePayloadFamilyID \<noteq> messageHeaderFamilyID"
  by (simp_all add: messageHeaderFamilyID_def messagePayloadFamilyID_def)

lemma row_ops_lookup:
  "apply_ops (row_ops ck r) m (row_key_of ck s fam) =
    (if s = mr_MessageSeq r \<and> fam = messageHeaderFamilyID then Some (stored (encodeMessageHeader (row_key_of ck s fam) r))
     else if s = mr_MessageSeq r \<and> fam = messagePayloadFamilyID then Some (stored (encodeMessagePayload (row_key_of ck s fam) r))
     else m (row_key_of ck s fam))"
  "apply_ops (row_ops ck r) m (id_key ck mid) = (if mid = mr_MessageID r then Some (put64 (mr_MessageSeq r)) else m (id_key ck mid))"
  "fits_key (mr_ClientMsgNo r) \<Longrightarrow> fits_key n \<Longrightarrow> apply_ops (row_ops ck r) m (client_key ck n t) =
    (if n \<noteq> [] \<and> n = mr_ClientMsgNo r \<and> t = mr_MessageSeq r then Some (put64 t) else m (client_key ck n t))"
  "fits_key (mr_ClientMsgNo r) \<Longrightarrow> (mr_ClientMsgNo r \<noteq> [] \<Longrightarrow> fits_key (mr_FromUID r)) \<Longrightarrow> fits_key u \<Longrightarrow> fits_key n \<Longrightarrow>
    apply_ops (row_ops ck r) m (idem_key ck u n) =
    (if keyed r \<and> row_pair r = (u, n) then Some (idem_value r) else m (idem_key ck u n))"
  by (auto simp: row_ops_def Let_def keyed_def row_pair_def)

lemma ex_row_upd:
  "rows s = None \<Longrightarrow> (\<exists>t q. (rows(s \<mapsto> r)) t = Some q \<and> P t q) \<longleftrightarrow> P s r \<or> (\<exists>t q. rows t = Some q \<and> P t q)"
  by (metis fun_upd_other fun_upd_same option.discI option.inject)

lemma in_log_ids: "rows t = Some q \<Longrightarrow> mr_MessageID q \<in> log_ids rows"
  by (auto simp: log_ids_def ran_def)

lemma in_log_pairs: "rows t = Some q \<Longrightarrow> keyed q \<Longrightarrow> row_pair q \<in> log_pairs rows"
  by (auto simp: log_pairs_def ran_def)

lemma row_ops_rows:
  assumes "rows_held m ck rows" "mr_MessageSeq r = s" "rows s = None"
  shows "rows_held (apply_ops (row_ops ck r) m) ck (rows(s \<mapsto> r))"
  using assms by (auto simp: rows_held_def row_ops_lookup row_entry_def)

lemma row_ops_ids:
  assumes "ids_held m ck rows" "mr_MessageSeq r = s" "mr_MessageID r \<notin> log_ids rows" "rows s = None"
  shows "ids_held (apply_ops (row_ops ck r) m) ck (rows(s \<mapsto> r))"
  unfolding ids_held_def ex_row_upd [where rows = rows, OF assms(4)]
proof (intro allI)
  fix mid v
  show "apply_ops (row_ops ck r) m (id_key ck mid) = Some v \<longleftrightarrow>
      mr_MessageID r = mid \<and> v = put64 s \<or> (\<exists>t q. rows t = Some q \<and> mr_MessageID q = mid \<and> v = put64 t)"
  proof (cases "mid = mr_MessageID r")
    case True
    then have "rows t = Some q \<Longrightarrow> mr_MessageID q \<noteq> mid" for t q using in_log_ids [of rows t q] assms(3) by auto
    with True assms(2) show ?thesis by (auto simp: row_ops_lookup)
  next
    case False
    with assms(1,2) show ?thesis by (auto simp: row_ops_lookup ids_held_def)
  qed
qed

lemma row_ops_clients:
  assumes "clients_held m ck rows" "mr_MessageSeq r = s" "fits_key (mr_ClientMsgNo r)" "rows s = None"
  shows "clients_held (apply_ops (row_ops ck r) m) ck (rows(s \<mapsto> r))"
  using assms by (auto simp: clients_held_def row_ops_lookup)

lemma row_ops_idems:
  assumes "idems_held m ck rows" "mr_MessageSeq r = s" "fits_key (mr_ClientMsgNo r)" "mr_ClientMsgNo r \<noteq> [] \<Longrightarrow> fits_key (mr_FromUID r)"
    "rows s = None" "keyed r \<Longrightarrow> row_pair r \<notin> log_pairs rows"
  shows "idems_held (apply_ops (row_ops ck r) m) ck (rows(s \<mapsto> r))"
  unfolding idems_held_def ex_row_upd [where rows = rows, OF assms(5)]
proof (intro allI impI)
  fix u n v
  assume fits: "fits_key u" "fits_key n"
  note look = row_ops_lookup(4) [OF assms(3,4) fits]
  show "apply_ops (row_ops ck r) m (idem_key ck u n) = Some v \<longleftrightarrow>
      u \<noteq> [] \<and> n \<noteq> [] \<and> (mr_FromUID r = u \<and> mr_ClientMsgNo r = n \<and> v = idem_value r
        \<or> (\<exists>t q. rows t = Some q \<and> mr_FromUID q = u \<and> mr_ClientMsgNo q = n \<and> v = idem_value q))"
  proof (cases "keyed r \<and> row_pair r = (u, n)")
    case True
    then have "rows t = Some q \<Longrightarrow> \<not> (mr_FromUID q = u \<and> mr_ClientMsgNo q = n)" for t q
      using assms(6) in_log_pairs [of rows t q] by (auto simp: keyed_def row_pair_def)
    moreover have "apply_ops (row_ops ck r) m (idem_key ck u n) = Some (idem_value r)" using True by (simp only: look if_True simp_thms)
    ultimately show ?thesis using True by (auto simp: keyed_def row_pair_def)
  next
    case False
    have "m (idem_key ck u n) = Some v \<longleftrightarrow>
      u \<noteq> [] \<and> n \<noteq> [] \<and> (\<exists>t q. rows t = Some q \<and> mr_FromUID q = u \<and> mr_ClientMsgNo q = n \<and> v = idem_value q)"
      using assms(1) fits by (simp add: idems_held_def)
    moreover have "apply_ops (row_ops ck r) m (idem_key ck u n) = m (idem_key ck u n)" using False by (simp only: look if_False simp_thms)
    moreover have "u \<noteq> [] \<Longrightarrow> n \<noteq> [] \<Longrightarrow> mr_FromUID r = u \<Longrightarrow> mr_ClientMsgNo r \<noteq> n" using False by (auto simp: keyed_def row_pair_def)
    ultimately show ?thesis by auto
  qed
qed

lemma row_ops_hold:
  assumes h: "holds m ck rows" and g: "good_row s r" and n: "rows s = None" "mr_MessageID r \<notin> log_ids rows"
    "keyed r \<Longrightarrow> row_pair r \<notin> log_pairs rows"
  shows "holds (apply_ops (row_ops ck r) m) ck (rows(s \<mapsto> r))"
  using assms row_ops_rows [of m ck rows r s] row_ops_ids [of m ck rows r s] row_ops_clients [of m ck rows r s]
    row_ops_idems [of m ck rows r s]
  by (simp add: holds_def good_row_def)

section \<open>The batch that deletes a row\<close>

definition del_ops :: "ChannelKeyBytes \<Rightarrow> messageRow \<Rightarrow> BatchOp list" where
  "del_ops ck r =
     (let s = mr_MessageSeq r
      in [OpDelete (row_key_of ck s messageHeaderFamilyID), OpDelete (row_key_of ck s messagePayloadFamilyID),
          OpDelete (id_key ck (mr_MessageID r))]
         @ (if mr_ClientMsgNo r \<noteq> [] then [OpDelete (client_key ck (mr_ClientMsgNo r) s)] else [])
         @ (if mr_FromUID r \<noteq> [] \<and> mr_ClientMsgNo r \<noteq> [] then [OpDelete (idem_key ck (mr_FromUID r) (mr_ClientMsgNo r))] else []))"

lemma del_ops_keys: "list_all (op_in (\<lambda>k. \<exists>rest. k = chan_key ck rest)) (del_ops ck r)"
  by (auto simp: del_ops_def Let_def key_defs)

lemma stage_delete:
  assumes "fits_key (cl_key l)" "good_row s r"
  shows "stageDeleteMessage l (messageFromRow r) = Inr (del_ops (cl_key l) r)"
  using assms by (simp add: stageDeleteMessage_def messageFromRow_def del_ops_def key_ops_def key_or_panic_def bind_res_def Let_def
      encode_keys encode_client_keys encode_idem_key good_row_def)

lemma del_ops_lookup:
  "apply_ops (del_ops ck r) m (row_key_of ck s fam) =
    (if s = mr_MessageSeq r \<and> (fam = messageHeaderFamilyID \<or> fam = messagePayloadFamilyID) then None else m (row_key_of ck s fam))"
  "apply_ops (del_ops ck r) m (id_key ck mid) = (if mid = mr_MessageID r then None else m (id_key ck mid))"
  "fits_key (mr_ClientMsgNo r) \<Longrightarrow> fits_key n \<Longrightarrow> apply_ops (del_ops ck r) m (client_key ck n t) =
    (if n \<noteq> [] \<and> n = mr_ClientMsgNo r \<and> t = mr_MessageSeq r then None else m (client_key ck n t))"
  "fits_key (mr_ClientMsgNo r) \<Longrightarrow> (mr_ClientMsgNo r \<noteq> [] \<Longrightarrow> fits_key (mr_FromUID r)) \<Longrightarrow> fits_key u \<Longrightarrow> fits_key n \<Longrightarrow>
    apply_ops (del_ops ck r) m (idem_key ck u n) =
    (if keyed r \<and> row_pair r = (u, n) then None else m (idem_key ck u n))"
  by (auto simp: del_ops_def Let_def keyed_def row_pair_def)

lemma holds_pair_unique:
  assumes h: "holds m ck rows" and a: "rows s = Some r" "rows s' = Some r'" "keyed r" "row_pair r = row_pair r'"
  shows "s = s'"
proof -
  have g: "good_row s r" "good_row s' r'" using holds_good [OF h] a by auto
  have f: "fits_key (mr_FromUID r)" "fits_key (mr_ClientMsgNo r)" using g(1) a(3) by (auto simp: good_row_def keyed_def)
  have "m (idem_key ck (mr_FromUID r) (mr_ClientMsgNo r)) = Some (idem_value r)"
    "m (idem_key ck (mr_FromUID r) (mr_ClientMsgNo r)) = Some (idem_value r')"
    unfolding holds_idems [OF h f] using a by (auto simp: keyed_def row_pair_def)
  then show ?thesis using g by (simp add: idem_value_def put64_eq good_row_def)
qed

lemma ex_row_del:
  "rows s = Some r \<Longrightarrow> (\<exists>t q. (rows(s := None)) t = Some q \<and> P t q) \<longleftrightarrow> (\<exists>t q. t \<noteq> s \<and> rows t = Some q \<and> P t q)"
  by auto

lemma del_ops_hold:
  assumes h: "holds m ck rows" and r: "rows s = Some r"
  shows "holds (apply_ops (del_ops ck r) m) ck (rows(s := None))"
proof -
  have g: "good_row s r" by (rule holds_good [OF h r])
  have q: "mr_MessageSeq r = s" "fits_key (mr_ClientMsgNo r)" using g by (auto simp: good_row_def)
  have fu: "fits_key (mr_FromUID r)" if "mr_ClientMsgNo r \<noteq> []" using g that by (auto simp: good_row_def)
  have h': "rows_held m ck rows" "ids_held m ck rows" "clients_held m ck rows" "idems_held m ck rows"
    using h by (simp_all add: holds_def)
  have 1: "rows_held (apply_ops (del_ops ck r) m) ck (rows(s := None))"
    using h'(1) r q by (auto simp: rows_held_def del_ops_lookup row_entry_def)
  have 2: "ids_held (apply_ops (del_ops ck r) m) ck (rows(s := None))"
    unfolding ids_held_def ex_row_del [where rows = rows, OF r]
  proof (intro allI)
    fix mid v
    show "apply_ops (del_ops ck r) m (id_key ck mid) = Some v \<longleftrightarrow> (\<exists>t q. t \<noteq> s \<and> rows t = Some q \<and> mr_MessageID q = mid \<and> v = put64 t)"
    proof (cases "mid = mr_MessageID r")
      case True
      then show ?thesis using holds_id_unique [OF h r] by (auto simp: del_ops_lookup)
    next
      case False
      then show ?thesis using r by (simp add: del_ops_lookup holds_ids [OF h]) (metis option.inject)
    qed
  qed
  have 3: "clients_held (apply_ops (del_ops ck r) m) ck (rows(s := None))"
    using h'(3) r q by (auto simp: clients_held_def del_ops_lookup)
  have 4: "idems_held (apply_ops (del_ops ck r) m) ck (rows(s := None))"
    unfolding idems_held_def ex_row_del [where rows = rows, OF r]
  proof (intro allI impI)
    fix u n v
    assume fits: "fits_key u" "fits_key n"
    note look = del_ops_lookup(4) [OF q(2) fu fits]
    show "apply_ops (del_ops ck r) m (idem_key ck u n) = Some v \<longleftrightarrow>
      u \<noteq> [] \<and> n \<noteq> [] \<and> (\<exists>t q. t \<noteq> s \<and> rows t = Some q \<and> mr_FromUID q = u \<and> mr_ClientMsgNo q = n \<and> v = idem_value q)"
    proof (cases "keyed r \<and> row_pair r = (u, n)")
      case True
      then have "t \<noteq> s \<Longrightarrow> rows t = Some p \<Longrightarrow> \<not> (mr_FromUID p = u \<and> mr_ClientMsgNo p = n)" for t p
        using holds_pair_unique [OF h r, of t p] by (auto simp: row_pair_def)
      moreover have "apply_ops (del_ops ck r) m (idem_key ck u n) = None" using True by (simp only: look if_True simp_thms)
      ultimately show ?thesis by auto
    next
      case False
      have "apply_ops (del_ops ck r) m (idem_key ck u n) = m (idem_key ck u n)" using False by (simp only: look if_False simp_thms)
      moreover have "u \<noteq> [] \<Longrightarrow> n \<noteq> [] \<Longrightarrow> mr_FromUID r = u \<Longrightarrow> mr_ClientMsgNo r \<noteq> n" using False by (auto simp: keyed_def row_pair_def)
      ultimately show ?thesis using r by (simp add: holds_idems [OF h fits]) (metis option.inject)
    qed
  qed
  show ?thesis using h 1 2 3 4 by (auto simp: holds_def split: if_splits)
qed

end
