(* ===== verification/MsgAppend.thy ===== *)
theory MsgAppend
  imports MsgWrite
begin

text \<open>
  Appending to a log of rows: an append is accepted exactly when its records are new, it adds their rows
  behind the frontier, and a refused one changes nothing.
\<close>

section \<open>Values of the indexes\<close>

lemma put64_length [simp]: "length (put64 a) = 8"
  by (simp add: put64_def)

lemma get_u64_put64: "get_u64 (xs @ put64 a @ ys) (length xs) = a"
  using be64.get_put [of a "[]"] by (simp add: get_u64_def get64_def get_be_def split: if_splits)

lemma decode_id_value: "decodeMessageIDIndexValue (put64 s) = Inr s"
  using get_u64_put64 [of "[]" s "[]"] by (simp add: decodeMessageIDIndexValue_def messageIDIndexValueLen_def)

lemma decode_idem_value:
  "decodeIdempotencyIndexValue (idem_value r) =
    Inr \<lparr>ih_MessageSeq = mr_MessageSeq r, ih_MessageID = mr_MessageID r,
      ih_Offset = (if 0 < mr_MessageSeq r then mr_MessageSeq r - 1 else 0), ih_PayloadHash = mr_PayloadHash r\<rparr>"
  using get_u64_put64 [of "[]" "mr_MessageSeq r" "put64 (mr_MessageID r) @ put64 (mr_PayloadHash r)"]
    get_u64_put64 [of "put64 (mr_MessageSeq r)" "mr_MessageID r" "put64 (mr_PayloadHash r)"]
    get_u64_put64 [of "put64 (mr_MessageSeq r) @ put64 (mr_MessageID r)" "mr_PayloadHash r" "[]"]
  by (simp add: decodeIdempotencyIndexValue_def idem_value_def idempotencyIndexValueLen_def Let_def)

section \<open>Checks against the log\<close>

context ordered_engine
begin

lemma check_message_id_held:
  assumes h: "holds (eg_Get eng d) (cl_key l) rows" and c: "cache_ok l" and n: "mr_MessageSeq r \<notin> dom rows"
  shows "check_message_id eng d l r = (if mr_MessageID r \<in> log_ids rows then Inl DBErrConflict else Inr ())"
proof (cases "eg_Get eng d (id_key (cl_key l) (mr_MessageID r))")
  case None
  have "mr_MessageID r \<notin> log_ids rows"
  proof
    assume "mr_MessageID r \<in> log_ids rows"
    then obtain s q where "rows s = Some q" "mr_MessageID q = mr_MessageID r" by (auto simp: log_ids_def ran_def)
    then show False using None holds_ids [OF h, of "mr_MessageID r" "put64 s"] by auto
  qed
  then show ?thesis using None
    by (simp add: check_message_id_def lookupMessageIDSeqByKey_def cache_keys [OF c] bind_res_def)
next
  case (Some v)
  then obtain s q where q: "rows s = Some q" "mr_MessageID q = mr_MessageID r" "v = put64 s" by (auto simp: holds_ids [OF h])
  then have "s \<noteq> mr_MessageSeq r" "mr_MessageID r \<in> log_ids rows" using n in_log_ids [where rows = rows, OF q(1)] by auto
  then show ?thesis using Some q
    by (simp add: check_message_id_def lookupMessageIDSeqByKey_def cache_keys [OF c] bind_res_def decode_id_value)
qed

lemma check_idempotency_held:
  assumes h: "holds (eg_Get eng d) (cl_key l) rows" and c: "cache_ok l" and n: "mr_MessageSeq r \<notin> dom rows"
    and f: "fits_key (mr_FromUID r)" "fits_key (mr_ClientMsgNo r)" and k: "keyed r"
  shows "row_pair r \<notin> log_pairs rows \<Longrightarrow> check_idempotency eng d l r = Inr ()"
    "row_pair r \<in> log_pairs rows \<Longrightarrow> \<exists>e. check_idempotency eng d l r = Inl e"
proof -
  note get = holds_idems [OF h f]
  have kr: "mr_FromUID r \<noteq> []" "mr_ClientMsgNo r \<noteq> []" using k by (auto simp: keyed_def)
  {
    assume a: "row_pair r \<notin> log_pairs rows"
    have "eg_Get eng d (idem_key (cl_key l) (mr_FromUID r) (mr_ClientMsgNo r)) \<noteq> Some v" for v
    proof
      assume "eg_Get eng d (idem_key (cl_key l) (mr_FromUID r) (mr_ClientMsgNo r)) = Some v"
      then obtain s q where "rows s = Some q" "row_pair q = row_pair r" "keyed q"
        using get kr by (auto simp: row_pair_def keyed_def)
      then show False using a in_log_pairs [of rows s q] by simp
    qed
    then have "eg_Get eng d (idem_key (cl_key l) (mr_FromUID r) (mr_ClientMsgNo r)) = None"
      by (metis not_Some_eq)
    then show "check_idempotency eng d l r = Inr ()"
      by (simp add: check_idempotency_def cache_keys [OF c] f bind_res_def lookupIdempotencyByKey_def)
  next
    assume "row_pair r \<in> log_pairs rows"
    then obtain s q where q: "rows s = Some q" "mr_FromUID q = mr_FromUID r" "mr_ClientMsgNo q = mr_ClientMsgNo r"
      by (auto simp: log_pairs_def ran_def row_pair_def)
    then have v: "eg_Get eng d (idem_key (cl_key l) (mr_FromUID r) (mr_ClientMsgNo r)) = Some (idem_value q)"
      unfolding get using kr by auto
    have s: "mr_MessageSeq q = s" "s \<noteq> 0" using holds_good [OF h q(1)] by (auto simp: good_row_def)
    have "s \<noteq> mr_MessageSeq r" using n q(1) by auto
    then show "\<exists>e. check_idempotency eng d l r = Inl e"
      using q s getRowBySeq_held [OF h s(2)]
      by (cases "validateMaterializedMessageRow q")
        (simp_all add: check_idempotency_def cache_keys [OF c] f bind_res_def lookupIdempotencyByKey_def v decode_idem_value
          row_idempotency_key_def)
  }
qed

end

section \<open>What the validation has seen\<close>

definition pair_of :: "IdempotencyKey \<Rightarrow> u8 list \<times> u8 list" where
  "pair_of k = (ik_FromUID k, ik_ClientMsgNo k)"

definition seen_keys :: "AppendSeen \<Rightarrow> IdempotencyKey set" where
  "seen_keys s = (case as_firstKey s of None \<Rightarrow> {} | Some f \<Rightarrow> insert f (case as_keys s of None \<Rightarrow> {} | Some ks \<Rightarrow> set ks))"

definition seen_rep :: "AppendSeen \<Rightarrow> u64 set \<Rightarrow> (u8 list \<times> u8 list) set \<Rightarrow> bool" where
  "seen_rep s ids pairs \<longleftrightarrow> set (as_messageIDs s) = ids \<and> pair_of ` seen_keys s = pairs
     \<and> (case as_keys s of None \<Rightarrow> True | Some ks \<Rightarrow> (case as_firstKey s of None \<Rightarrow> False | Some f \<Rightarrow> f \<in> set ks))"

lemma seen_start: "seen_rep newAppendValidationSeen {} {}"
  by (simp add: seen_rep_def newAppendValidationSeen_def seen_keys_def)

lemma pair_of_inj: "pair_of a = pair_of b \<longleftrightarrow> a = b"
  by (cases a; cases b) (simp add: pair_of_def)

lemma remember_id:
  "seen_rep s ids pairs \<Longrightarrow>
    fst (rememberMessageID i s) = (i \<in> ids) \<and> (i \<notin> ids \<longrightarrow> seen_rep (snd (rememberMessageID i s)) (insert i ids) pairs)"
  by (auto simp: seen_rep_def rememberMessageID_def seen_keys_def cong: option.case_cong)

lemma remember_key:
  "seen_rep s ids pairs \<Longrightarrow>
    fst (rememberIdempotencyKey k s) = (pair_of k \<in> pairs) \<and>
    (pair_of k \<notin> pairs \<longrightarrow> seen_rep (snd (rememberIdempotencyKey k s)) ids (insert (pair_of k) pairs))"
  by (cases s) (auto simp: seen_rep_def rememberIdempotencyKey_def seen_keys_def Let_def pair_of_inj image_iff split: option.splits)

section \<open>Validation\<close>

text \<open>The rows of a batch are new: their ids, and their pairs of sender and client number where both are given.\<close>

fun fresh :: "bool \<Rightarrow> rows \<Rightarrow> u64 set \<Rightarrow> (u8 list \<times> u8 list) set \<Rightarrow> messageRow list \<Rightarrow> bool" where
  "fresh strict rows ids pairs [] = True"
| "fresh strict rows ids pairs (r # rs) =
     (mr_MessageID r \<noteq> 0 \<and> mr_MessageID r \<notin> ids \<and> (strict \<longrightarrow> mr_MessageID r \<notin> log_ids rows)
      \<and> (keyed r \<longrightarrow> row_pair r \<notin> pairs \<and> (strict \<longrightarrow> row_pair r \<notin> log_pairs rows))
      \<and> fresh strict rows (insert (mr_MessageID r) ids) (if keyed r then insert (row_pair r) pairs else pairs) rs)"

definition fresh_row :: "bool \<Rightarrow> rows \<Rightarrow> u64 set \<Rightarrow> (u8 list \<times> u8 list) set \<Rightarrow> messageRow \<Rightarrow> bool" where
  "fresh_row strict rows ids pairs r \<longleftrightarrow>
     mr_MessageID r \<noteq> 0 \<and> mr_MessageID r \<notin> ids \<and> (strict \<longrightarrow> mr_MessageID r \<notin> log_ids rows)
      \<and> (keyed r \<longrightarrow> row_pair r \<notin> pairs \<and> (strict \<longrightarrow> row_pair r \<notin> log_pairs rows))"

lemma fresh_step:
  "fresh strict rows ids pairs (r # rs) \<longleftrightarrow> fresh_row strict rows ids pairs r
     \<and> fresh strict rows (insert (mr_MessageID r) ids) (if keyed r then insert (row_pair r) pairs else pairs) rs"
  by (auto simp: fresh_row_def)

lemma modes: "AppendStrict \<noteq> AppendTrustedContiguous" "AppendTrustedContiguous \<noteq> AppendStrict"
  by (simp_all add: AppendStrict_def AppendTrustedContiguous_def)

lemma row_key_pair: "pair_of (row_idempotency_key r) = row_pair r"
  by (simp add: pair_of_def row_idempotency_key_def row_pair_def)

context ordered_engine
begin

lemma validate_new_row:
  assumes h: "holds (eg_Get eng d) (cl_key l) rows" and c: "cache_ok l" and n: "mr_MessageSeq r \<notin> dom rows"
    and f: "fits_key (mr_ClientMsgNo r)" "mr_ClientMsgNo r \<noteq> [] \<Longrightarrow> fits_key (mr_FromUID r)"
    and s: "seen_rep seen ids pairs" and m: "mode = AppendStrict \<or> mode = AppendTrustedContiguous"
  shows "if fresh_row (mode = AppendStrict) rows ids pairs r
    then \<exists>seen'. validateAppendRow eng d l r seen mode = Inr seen'
      \<and> seen_rep seen' (insert (mr_MessageID r) ids) (if keyed r then insert (row_pair r) pairs else pairs)
    else \<exists>e. validateAppendRow eng d l r seen mode = Inl e"
proof -
  obtain dup seen1 where i: "rememberMessageID (mr_MessageID r) seen = (dup, seen1)" by fastforce
  have i': "dup = (mr_MessageID r \<in> ids)" "mr_MessageID r \<notin> ids \<Longrightarrow> seen_rep seen1 (insert (mr_MessageID r) ids) pairs"
    using remember_id [OF s, of "mr_MessageID r"] i by auto
  note mid = check_message_id_held [OF h c n]
  show ?thesis
  proof (cases "mr_MessageID r \<noteq> 0 \<and> mr_MessageID r \<notin> ids \<and> (mode = AppendStrict \<longrightarrow> mr_MessageID r \<notin> log_ids rows)")
    case False
    then show ?thesis
      by (auto simp: validateAppendRow_def check_error_def validate_row_def bind_res_def i i'(1) mid fresh_row_def)
  next
    case True
    then have s1: "seen_rep seen1 (insert (mr_MessageID r) ids) pairs" using i'(2) by simp
    show ?thesis
    proof (cases "keyed r")
      case False
      then show ?thesis using True s1
        by (auto simp: validateAppendRow_def check_error_def validate_row_def bind_res_def i i'(1) mid fresh_row_def keyed_def)
    next
      case k: True
      obtain dup2 seen2 where j: "rememberIdempotencyKey (row_idempotency_key r) seen1 = (dup2, seen2)" by fastforce
      have j': "dup2 = (row_pair r \<in> pairs)" "row_pair r \<notin> pairs \<Longrightarrow> seen_rep seen2 (insert (mr_MessageID r) ids) (insert (row_pair r) pairs)"
        using remember_key [OF s1, of "row_idempotency_key r"] j by (auto simp: row_key_pair)
      have v: "validateAppendRow eng d l r seen mode =
          (if row_pair r \<in> pairs then Inl DBErrConflict
           else if mode = AppendTrustedContiguous then Inr seen2
           else bind_res (check_idempotency eng d l r) (\<lambda>_. Inr seen2))"
        using True k by (simp add: validateAppendRow_def check_error_def validate_row_def bind_res_def [of "Inr _"] i i'(1) mid j j'(1) keyed_def)
      have fu: "fits_key (mr_FromUID r)" using f k by (simp add: keyed_def)
      note ci = check_idempotency_held [OF h c n fu f(1) k]
      show ?thesis
      proof (cases "row_pair r \<in> pairs \<or> (mode = AppendStrict \<and> row_pair r \<in> log_pairs rows)")
        case False
        then show ?thesis using True k j'(2) m ci(1) by (auto simp: v fresh_row_def bind_res_def)
      next
        case bad: True
        then show ?thesis using k ci(2) by (auto simp: v fresh_row_def bind_res_def modes)
      qed
    qed
  qed
qed

end

section \<open>The rows of a batch\<close>

definition new_row :: "ChannelLog \<Rightarrow> u64 \<Rightarrow> u64 \<Rightarrow> Record \<Rightarrow> messageRow" where
  "new_row l now seq record = normalizeMessageRow (recordToRow l seq record now)"

fun new_rows :: "ChannelLog \<Rightarrow> u64 \<Rightarrow> u64 \<Rightarrow> Record list \<Rightarrow> messageRow list" where
  "new_rows l now seq [] = []"
| "new_rows l now seq (record # records) = new_row l now seq record # new_rows l now (seq + 1) records"

text \<open>What the Go runtime and the key encoding allow a record to hold.\<close>

definition record_fits :: "Record \<Rightarrow> bool" where
  "record_fits r \<longleftrightarrow> fits_key (rc_ClientMsgNo r) \<and> (rc_ClientMsgNo r \<noteq> [] \<longrightarrow> fits_key (rc_FromUID r))
     \<and> length (rc_FromUID r) < 2 ^ 63 \<and> length (rc_Payload r) < 2 ^ 63"

lemma new_row_fields [simp]:
  "mr_MessageSeq (new_row l now seq r) = seq" "mr_MessageID (new_row l now seq r) = rc_ID r"
  "mr_ClientMsgNo (new_row l now seq r) = rc_ClientMsgNo r" "mr_FromUID (new_row l now seq r) = rc_FromUID r"
  "mr_Payload (new_row l now seq r) = rc_Payload r" "mr_ChannelID (new_row l now seq r) = ci_ID (cl_id l)"
  "mr_MsgKey (new_row l now seq r) = []" "mr_StreamNo (new_row l now seq r) = []" "mr_Topic (new_row l now seq r) = []"
  by (simp_all add: new_row_def normalizeMessageRow_def recordToRow_def Let_def zero_row_def)

lemma channel_id_fits: "cache_ok l \<Longrightarrow> length (ci_ID (cl_id l)) \<le> maxStringLen"
  by (auto simp: cache_ok_def newAppendKeyCache_def encodeCatalogValue_def AppendString_def bind_eq_Some_conv split: if_splits)

lemma good_new_row:
  assumes "cache_ok l" "record_fits r" "rc_ID r \<noteq> 0" "seq \<noteq> 0"
  shows "good_row seq (new_row l now seq r)"
proof -
  have "length (ci_ID (cl_id l)) < 2 ^ 63" using channel_id_fits [OF assms(1)] by (simp add: maxStringLen_def)
  moreover have "normalizeMessageRow (new_row l now seq r) = new_row l now seq r" by (simp add: new_row_def)
  moreover have "length (rc_ClientMsgNo r) < 2 ^ 63" using assms(2) by (simp add: record_fits_def fits_key_def maxStringLen_def)
  ultimately show ?thesis using assms(2-4) by (auto simp: good_row_def row_fits_def record_fits_def)
qed

lemma new_row_keys:
  "record_fits r \<Longrightarrow> fits_key (mr_ClientMsgNo (new_row l now seq r))"
  "record_fits r \<Longrightarrow> mr_ClientMsgNo (new_row l now seq r) \<noteq> [] \<Longrightarrow> fits_key (mr_FromUID (new_row l now seq r))"
  by (auto simp: record_fits_def)

lemma next_seq: "unat seq + Suc n \<le> 2 ^ 64 \<Longrightarrow> 0 < n \<Longrightarrow> unat (seq + 1 :: u64) = unat seq + 1"
  by (simp add: unat_word_ariths)

lemma next_seq_above:
  "unat (seq :: u64) + Suc n \<le> 2 ^ 64 \<Longrightarrow> 0 < n \<Longrightarrow> seq < seq + 1"
  using next_seq [of seq n] by (simp add: word_less_nat_alt)

context ordered_engine
begin

lemma walk_rows_held:
  assumes h: "holds (eg_Get eng d) (cl_key l) rows" and c: "cache_ok l"
    and m: "mode = AppendStrict \<or> mode = AppendTrustedContiguous"
    and on: "\<And>r acc. good_row (mr_MessageSeq r) r \<Longrightarrow> onRow r acc = Inr (f r acc)"
    and "list_all record_fits records" "unat seq + length records \<le> 2 ^ 64" "\<forall>s \<in> dom rows. s < seq" "seq \<noteq> 0"
    and "seen_rep seen ids pairs"
  shows "if fresh (mode = AppendStrict) rows ids pairs (new_rows l now seq records)
    then walk_rows eng d l mode now onRow seq records seen acc = Inr (fold f (new_rows l now seq records) acc)
    else \<exists>e. walk_rows eng d l mode now onRow seq records seen acc = Inl e"
  using assms(5-)
proof (induction records arbitrary: seq seen ids pairs acc)
  case (Cons x records)
  let ?r = "new_row l now seq x"
  have rf: "record_fits x" using Cons.prems by simp
  have n: "mr_MessageSeq ?r \<notin> dom rows" using Cons.prems by auto
  note v = validate_new_row [OF h c n new_row_keys(1) [OF rf] new_row_keys(2) [OF rf] Cons.prems(5) m]
  show ?case
  proof (cases "fresh_row (mode = AppendStrict) rows ids pairs ?r")
    case False
    with v obtain e where "validateAppendRow eng d l ?r seen mode = Inl e" by auto
    with False show ?thesis by (simp add: fresh_step bind_res_def new_row_def [symmetric] del: fresh.simps)
  next
    case True
    with v obtain seen' where s': "validateAppendRow eng d l ?r seen mode = Inr seen'"
      "seen_rep seen' (insert (mr_MessageID ?r) ids) (if keyed ?r then insert (row_pair ?r) pairs else pairs)" by auto
    have "rc_ID x \<noteq> 0" using True by (simp add: fresh_row_def)
    then have o: "onRow ?r acc = Inr (f ?r acc)" using good_new_row [OF c rf _ Cons.prems(4), of now] by (simp add: on)
    show ?thesis
    proof (cases records)
      case Nil
      then show ?thesis using True s'(1) o by (simp add: fresh_row_def bind_res_def new_row_def [symmetric])
    next
      case (Cons y ys)
      have up: "seq < seq + 1" using Cons.prems(2) Cons next_seq_above [of seq "length records"] by simp
      have "unat (seq + 1) + length records \<le> 2 ^ 64" using Cons.prems(2) Cons next_seq [of seq "length records"] by simp
      moreover have "\<forall>s \<in> dom rows. s < seq + 1" using Cons.prems(3) up by (blast intro: order.strict_trans)
      moreover have "seq + 1 \<noteq> 0" using up by auto
      ultimately show ?thesis
        using Cons.IH [OF _ _ _ _ s'(2), of "seq + 1" "f ?r acc"] Cons.prems(1) True s'(1) o
        by (simp add: fresh_step bind_res_def new_row_def [symmetric] del: fresh.simps)
    qed
  qed
qed simp

end

section \<open>The effect of a batch\<close>

definition add_rows :: "rows \<Rightarrow> messageRow list \<Rightarrow> rows" where
  "add_rows rows rs = fold (\<lambda>r rows. rows(mr_MessageSeq r \<mapsto> r)) rs rows"

lemma add_rows_simps [simp]:
  "add_rows rows [] = rows" "add_rows rows (r # rs) = add_rows (rows(mr_MessageSeq r \<mapsto> r)) rs"
  by (simp_all add: add_rows_def)

lemma add_rows_dom: "dom (add_rows rows rs) = dom rows \<union> mr_MessageSeq ` set rs"
  by (induction rs arbitrary: rows) auto

definition log_rows_batch :: "ChannelKeyBytes \<Rightarrow> messageRow list \<Rightarrow> BatchOp list" where
  "log_rows_batch ck rs = concat (map (row_ops ck) rs)"

lemma fresh_union:
  "fresh True rows ids pairs rs = fresh False rows' (ids \<union> log_ids rows) (pairs \<union> log_pairs rows) rs"
  by (induction rs arbitrary: ids pairs) (auto simp: Un_insert_left)

lemma batch_holds:
  assumes "holds m ck rows" "fresh False rows' ids pairs rs" "log_ids rows \<subseteq> ids" "log_pairs rows \<subseteq> pairs"
    and "\<forall>r \<in> set rs. good_row (mr_MessageSeq r) r" "sorted_wrt (<) (map mr_MessageSeq rs)"
    and "\<forall>s \<in> dom rows. \<forall>r \<in> set rs. s < mr_MessageSeq r"
  shows "holds (apply_ops (log_rows_batch ck rs) m) ck (add_rows rows rs)"
  using assms
proof (induction rs arbitrary: m rows ids pairs)
  case (Cons r rs)
  let ?s = "mr_MessageSeq r"
  have n: "rows ?s = None" using Cons.prems(7) by (cases "rows ?s") auto
  have step: "holds (apply_ops (row_ops ck r) m) ck (rows(?s \<mapsto> r))"
    using Cons.prems n by (intro row_ops_hold) auto
  have "holds (apply_ops (log_rows_batch ck rs) (apply_ops (row_ops ck r) m)) ck (add_rows (rows(?s \<mapsto> r)) rs)"
  proof (rule Cons.IH [OF step])
    show "fresh False rows' (insert (mr_MessageID r) ids) (if keyed r then insert (row_pair r) pairs else pairs) rs"
      using Cons.prems(2) by simp
    show "log_ids (rows(?s \<mapsto> r)) \<subseteq> insert (mr_MessageID r) ids" using Cons.prems(3) log_ids_upd [where rows = rows, OF n] by auto
    show "log_pairs (rows(?s \<mapsto> r)) \<subseteq> (if keyed r then insert (row_pair r) pairs else pairs)"
      using Cons.prems(4) log_pairs_upd [where rows = rows, OF n] by auto
    show "\<forall>t \<in> dom (rows(?s \<mapsto> r)). \<forall>q \<in> set rs. t < mr_MessageSeq q" using Cons.prems(6,7) by auto
  qed (use Cons.prems in auto)
  then show ?case by (simp add: log_rows_batch_def)
qed (simp add: log_rows_batch_def)

lemma batch_keys: "list_all (op_in (\<lambda>k. \<exists>rest. k = chan_key ck rest)) (log_rows_batch ck rs)"
  using row_ops_keys by (induction rs) (auto simp: log_rows_batch_def)

lemma map_add_upt_Suc: "map (\<lambda>i. a + i) [0..<Suc n] = a # map (\<lambda>i. Suc a + i) [0..<n]"
  by (induction n) auto

lemma new_rows_seqs:
  assumes "unat seq + length records \<le> 2 ^ 64"
  shows "map (unat \<circ> mr_MessageSeq) (new_rows l now seq records) = map (\<lambda>i. unat seq + i) [0..<length records]"
  using assms
proof (induction records arbitrary: seq)
  case (Cons x records)
  show ?case
  proof (cases records)
    case (Cons y ys)
    have "unat (seq + 1) = unat seq + 1" using next_seq [of seq "length records"] Cons.prems Cons by simp
    moreover have "unat (seq + 1) + length records \<le> 2 ^ 64" using calculation Cons.prems by simp
    ultimately show ?thesis using Cons.IH [of "seq + 1"] map_add_upt_Suc [of "unat seq" "length records"] by simp
  qed simp
qed simp

lemma new_rows_sorted:
  assumes "unat seq + length records \<le> 2 ^ 64"
  shows "sorted_wrt (<) (map mr_MessageSeq (new_rows l now seq records))"
proof -
  have "sorted_wrt (<) (map (unat \<circ> mr_MessageSeq) (new_rows l now seq records))"
    unfolding new_rows_seqs [OF assms] by (simp add: sorted_wrt_map)
  then show ?thesis by (simp add: sorted_wrt_map word_less_nat_alt)
qed

lemma new_rows_range:
  assumes "unat seq + length records \<le> 2 ^ 64" "r \<in> set (new_rows l now seq records)"
  shows "unat seq \<le> unat (mr_MessageSeq r) \<and> unat (mr_MessageSeq r) < unat seq + length records"
proof -
  have "unat (mr_MessageSeq r) \<in> set (map (unat \<circ> mr_MessageSeq) (new_rows l now seq records))" using assms(2) by auto
  then show ?thesis unfolding new_rows_seqs [OF assms(1)] by auto
qed

lemma new_rows_good:
  assumes "cache_ok l" "list_all record_fits records" "unat seq + length records \<le> 2 ^ 64" "seq \<noteq> 0"
    and "fresh strict rows ids pairs (new_rows l now seq records)"
  shows "\<forall>r \<in> set (new_rows l now seq records). good_row (mr_MessageSeq r) r"
  using assms(2-)
proof (induction records arbitrary: seq ids pairs)
  case (Cons x records)
  have g: "good_row seq (new_row l now seq x)" using Cons.prems by (intro good_new_row [OF assms(1)]) auto
  show ?case
  proof (cases records)
    case Nil
    with g show ?thesis by simp
  next
    case (Cons y ys)
    have u: "unat (seq + 1) = unat seq + 1" using next_seq [of seq "length records"] Cons.prems(2) Cons by simp
    moreover have "seq + 1 \<noteq> 0" using u by (metis Suc_eq_plus1 nat.distinct(1) unat_0)
    ultimately show ?thesis using g Cons.IH [of "seq + 1"] Cons.prems by (auto simp del: new_row_fields(2-)) 
  qed
qed simp

section \<open>Appending\<close>

text \<open>
  A log with its frontier: the entries of the engine hold the rows, the handle's keys are those of its
  channel, and no row lies behind the frontier that the next operation sees.
\<close>

definition log_ok :: "'db Engine \<Rightarrow> 'db \<Rightarrow> ChannelLog \<Rightarrow> rows \<Rightarrow> u64 \<Rightarrow> bool" where
  "log_ok eng d l rows leo \<longleftrightarrow> cache_ok l \<and> holds (eg_Get eng d) (cl_key l) rows
     \<and> fst (loadLEOLocked eng d l) = Inr leo \<and> (\<forall>s \<in> dom rows. s \<le> leo)"

lemma log_okD:
  assumes "log_ok eng d l rows leo"
  shows "cache_ok l" "holds (eg_Get eng d) (cl_key l) rows" "\<forall>s \<in> dom rows. s \<le> leo"
    "loadLEOLocked eng d l = (Inr leo, l\<lparr>cl_leo := leo, cl_loaded := True\<rparr>)"
  using assms by (auto simp: log_ok_def loadLEOLocked_def split: if_splits sum.splits)

lemma cache_ok_load [simp]: "cache_ok (l\<lparr>cl_leo := leo, cl_loaded := b\<rparr>) = cache_ok l"
  by (simp add: cache_ok_def)

lemma loaded_leo [simp]: "fst (loadLEOLocked eng d (l\<lparr>cl_leo := leo, cl_loaded := True\<rparr>)) = Inr leo"
  by (simp add: loadLEOLocked_def)

lemma new_rows_load [simp]: "new_rows (l\<lparr>cl_leo := leo, cl_loaded := b\<rparr>) now seq records = new_rows l now seq records"
  by (induction records arbitrary: seq) (simp_all add: new_row_def recordToRow_def)

lemma stage_catalog_keys: "cache_ok l \<Longrightarrow> list_all (op_in (\<lambda>k. k = catalog_key (cl_key l))) (stageCatalog l)"
  by (simp add: stageCatalog_def cache_fields)

lemma catalog_holds:
  assumes "cache_ok l"
  shows "holds (apply_ops (stageCatalog l) m) ck rows = holds m ck rows"
  by (rule holds_cong) (rule apply_ops_outside [OF stage_catalog_keys [OF assms]], simp add: catalog_neq)

definition accepts :: "AppendOptions \<Rightarrow> ChannelLog \<Rightarrow> rows \<Rightarrow> u64 \<Rightarrow> u64 \<Rightarrow> Record list \<Rightarrow> bool" where
  "accepts opts l rows leo now records \<longleftrightarrow>
     (ao_BaseSeq opts = 0 \<or> ao_BaseSeq opts = leo + 1)
     \<and> fresh (ao_Mode opts = AppendStrict) rows {} {} (new_rows l now (leo + 1) records)"

definition append_batch :: "ChannelLog \<Rightarrow> u64 \<Rightarrow> u64 \<Rightarrow> Record list \<Rightarrow> BatchOp list" where
  "append_batch l now leo records = log_rows_batch (cl_key l) (new_rows l now (leo + 1) records) @ stageCatalog l"

lemma fold_append: "fold (\<lambda>r ops. ops @ f r) rs acc = acc @ concat (map f rs)"
  by (induction rs arbitrary: acc) simp_all

context ordered_engine
begin

lemma walk_append:
  assumes ok: "log_ok eng d l rows leo" and m: "ao_Mode opts = AppendStrict \<or> ao_Mode opts = AppendTrustedContiguous"
    and r: "list_all record_fits records" "unat leo + length records < 2 ^ 64"
    and on: "\<And>r acc. good_row (mr_MessageSeq r) r \<Longrightarrow> onRow r acc = Inr (f r acc)"
  shows "if accepts opts l rows leo now records
    then walkAppendRowsLocked eng d l records opts now onRow acc =
      (Inr (if records = [] then zero_AppendResult
         else \<lparr>ar_BaseSeq = leo + 1, ar_LastSeq = leo + of_nat (length records), ar_Count = length records\<rparr>,
        fold f (new_rows l now (leo + 1) records) acc), l\<lparr>cl_leo := leo, cl_loaded := True\<rparr>)
    else \<exists>e. walkAppendRowsLocked eng d l records opts now onRow acc = (Inl e, l\<lparr>cl_leo := leo, cl_loaded := True\<rparr>)"
proof (cases "records = []")
  case True
  then show ?thesis using m by (auto simp: walkAppendRowsLocked_def log_okD [OF ok] accepts_def Let_def)
next
  case False
  let ?l = "l\<lparr>cl_leo := leo, cl_loaded := True\<rparr>"
  have u: "unat (leo + 1) = unat leo + 1" using r(2) False by (simp add: unat_word_ariths Suc_le_eq length_greater_0_conv [symmetric] del: length_greater_0_conv)
  have b: "unat (leo + 1) + length records \<le> 2 ^ 64" using u r(2) by simp
  have nz: "leo + 1 \<noteq> 0" using u by (metis Suc_eq_plus1 nat.distinct(1) unat_0)
  have above: "\<forall>s \<in> dom rows. s < leo + 1" using log_okD(3) [OF ok] u by (simp add: word_less_nat_alt word_le_nat_alt less_Suc_eq_le)
  have lst: "leo + 1 + of_nat (length records - 1) = leo + of_nat (length records)"
    using False by (cases records) simp_all
  have h: "holds (eg_Get eng d) (cl_key ?l) rows" "cache_ok ?l" using log_okD [OF ok] by simp_all
  note w = walk_rows_held [where f = f and now = now and acc = acc and onRow = onRow, OF h m on r(1) b above nz seen_start]
  show ?thesis
  proof (cases "ao_BaseSeq opts = 0 \<or> ao_BaseSeq opts = leo + 1")
    case base: True
    show ?thesis
    proof (cases "fresh (ao_Mode opts = AppendStrict) rows {} {} (new_rows l now (leo + 1) records)")
      case True
      with w have "walk_rows eng d ?l (ao_Mode opts) now onRow (leo + 1) records newAppendValidationSeen acc =
        Inr (fold f (new_rows l now (leo + 1) records) acc)" by simp
      then show ?thesis using True base m False lst
        by (auto simp: walkAppendRowsLocked_def log_okD [OF ok] accepts_def Let_def bind_res_def)
    next
      case nf: False
      with w obtain e where "walk_rows eng d ?l (ao_Mode opts) now onRow (leo + 1) records newAppendValidationSeen acc = Inl e" by auto
      then show ?thesis using nf base m False
        by (auto simp: walkAppendRowsLocked_def log_okD [OF ok] accepts_def Let_def bind_res_def)
    qed
  next
    case False
    then show ?thesis using m by (auto simp: walkAppendRowsLocked_def log_okD [OF ok] accepts_def Let_def)
  qed
qed

lemma new_batch_holds:
  assumes ok: "log_ok eng d l rows leo" and r: "list_all record_fits records" "unat leo + length records < 2 ^ 64"
    and fr: "fresh True rows {} {} (new_rows l now (leo + 1) records)"
  shows "holds (apply_ops (log_rows_batch (cl_key l) (new_rows l now (leo + 1) records)) (eg_Get eng d)) (cl_key l) (add_rows rows (new_rows l now (leo + 1) records))"
    "\<forall>s \<in> dom (add_rows rows (new_rows l now (leo + 1) records)). s \<le> leo + of_nat (length records)"
proof -
  let ?rs = "new_rows l now (leo + 1) records"
  note k = log_okD [OF ok]
  have b: "unat (leo + 1) + length records \<le> 2 ^ 64" if "records \<noteq> []"
    using that r(2) by (cases records) (simp_all add: unat_word_ariths)
  have u: "unat (leo + 1) = unat leo + 1" if "records \<noteq> []" using that r(2) by (cases records) (simp_all add: unat_word_ariths)
  have l: "unat (leo + of_nat (length records)) = unat leo + length records"
    using r(2) by (simp add: unat_word_ariths unsigned_of_nat take_bit_nat_eq_self)
  show "holds (apply_ops (log_rows_batch (cl_key l) ?rs) (eg_Get eng d)) (cl_key l) (add_rows rows ?rs)"
  proof (cases "records = []")
    case True
    with k(2) show ?thesis by (simp add: log_rows_batch_def)
  next
    case False
    have nz: "leo + 1 \<noteq> 0" using u [OF False] by (metis Suc_eq_plus1 nat.distinct(1) unat_0)
    show ?thesis
    proof (rule batch_holds [OF k(2)])
      show "fresh False rows (log_ids rows) (log_pairs rows) ?rs" using fr fresh_union [of rows "{}" "{}" ?rs rows] by simp
      show "\<forall>r \<in> set ?rs. good_row (mr_MessageSeq r) r" by (rule new_rows_good [OF k(1) r(1) b [OF False] nz fr])
      show "sorted_wrt (<) (map mr_MessageSeq ?rs)" by (rule new_rows_sorted [OF b [OF False]])
      show "\<forall>s \<in> dom rows. \<forall>r \<in> set ?rs. s < mr_MessageSeq r"
      proof (intro ballI)
        fix s r
        assume "s \<in> dom rows" "r \<in> set ?rs"
        then have "unat s \<le> unat leo" "unat leo + 1 \<le> unat (mr_MessageSeq r)"
          using k(3) new_rows_range [OF b [OF False], of r l now] u [OF False] by (simp_all add: word_le_nat_alt)
        then show "s < mr_MessageSeq r" by (simp add: word_less_nat_alt)
      qed
    qed simp_all
  qed
  show "\<forall>s \<in> dom (add_rows rows ?rs). s \<le> leo + of_nat (length records)"
  proof (cases "records = []")
    case True
    with k(3) show ?thesis by simp
  next
    case False
    have "unat s \<le> unat leo + length records" if "s \<in> dom rows" for s
    proof -
      have "unat s \<le> unat leo" using k(3) that by (simp add: word_le_nat_alt)
      then show ?thesis by simp
    qed
    moreover have "unat (mr_MessageSeq r) \<le> unat leo + length records" if "r \<in> set ?rs" for r
      using new_rows_range [OF b [OF False] that] u [OF False] by simp
    ultimately show ?thesis by (auto simp: add_rows_dom word_le_nat_alt l)
  qed
qed

lemma append_batch_holds:
  assumes ok: "log_ok eng d l rows leo" and r: "list_all record_fits records" "unat leo + length records < 2 ^ 64"
    and fr: "fresh True rows {} {} (new_rows l now (leo + 1) records)"
    and c: "eg_Commit eng d (append_batch l now leo records) = Some d'"
  shows "holds (eg_Get eng d') (cl_key l) (add_rows rows (new_rows l now (leo + 1) records))"
    "\<forall>s \<in> dom (add_rows rows (new_rows l now (leo + 1) records)). s \<le> leo + of_nat (length records)"
  using new_batch_holds [OF ok r fr] by (simp_all add: get_commit [OF c] append_batch_def catalog_holds [OF log_okD(1) [OF ok]])

lemma Append_held:
  assumes ok: "log_ok eng d l rows leo" and m: "ao_Mode opts = AppendStrict"
    and r: "list_all record_fits records" "unat leo + length records < 2 ^ 64"
  shows "case Append eng d l records opts now of (res, d', l') \<Rightarrow>
    if accepts opts l rows leo now records \<and> (records = [] \<or> eg_Commit eng d (append_batch l now leo records) \<noteq> None)
    then res = Inr (if records = [] then zero_AppendResult
           else \<lparr>ar_BaseSeq = leo + 1, ar_LastSeq = leo + of_nat (length records), ar_Count = length records\<rparr>)
      \<and> log_ok eng d' l' (add_rows rows (new_rows l now (leo + 1) records)) (leo + of_nat (length records))
      \<and> (if records = [] then d' = d else eg_Commit eng d (append_batch l now leo records) = Some d')
    else (\<exists>e. res = Inl e) \<and> d' = d \<and> log_ok eng d' l' rows leo"
proof -
  let ?l = "l\<lparr>cl_leo := leo, cl_loaded := True\<rparr>"
  note k = log_okD [OF ok]
  have keep: "log_ok eng d ?l rows leo" using k by (simp add: log_ok_def)
  have on: "bind_res (stageMessageRow ?l q) (\<lambda>ops'. Inr (ops @ ops')) = Inr (ops @ row_ops (cl_key l) q)" if "good_row (mr_MessageSeq q) q" for q ops
    using stage_row [OF _ that, of ?l] k(1) by (simp add: bind_res_def)
  have st: "stageMessageRow l q = stageMessageRow ?l q" for q
    by (simp add: stageMessageRow_def stageMessageHeaderRow_def stageMessagePayloadRow_def stageMessageIDIndexRow_def
        stageClientMsgNoIndexRow_def stageIdempotencyIndexRow_def)
  have w: "if accepts opts l rows leo now records
    then prepareAndStageAppendLocked eng d l records opts now =
      (Inr (if records = [] then zero_AppendResult
         else \<lparr>ar_BaseSeq = leo + 1, ar_LastSeq = leo + of_nat (length records), ar_Count = length records\<rparr>,
        log_rows_batch (cl_key l) (new_rows l now (leo + 1) records)), ?l)
    else \<exists>e. prepareAndStageAppendLocked eng d l records opts now = (Inl e, ?l)"
    unfolding prepareAndStageAppendLocked_def st
    using walk_append [where f = "\<lambda>r ops. ops @ row_ops (cl_key l) r" and now = now and acc = "[]", OF ok disjI1 [OF m] r on]
    by (simp add: fold_append log_rows_batch_def)
  show ?thesis
  proof (cases "accepts opts l rows leo now records")
    case False
    with w keep show ?thesis by (auto simp: Append_def)
  next
    case True
    have cat: "stageCatalog ?l = stageCatalog l" by (simp add: stageCatalog_def)
    show ?thesis
    proof (cases "records = []")
      case nil: True
      with w True keep show ?thesis by (simp add: Append_def zero_AppendResult_def)
    next
      case ne: False
      show ?thesis
      proof (cases "eg_Commit eng d (append_batch l now leo records)")
        case None
        with w True ne keep cat show ?thesis by (simp add: Append_def append_batch_def)
      next
        case (Some d')
        have "fresh True rows {} {} (new_rows l now (leo + 1) records)" using True m by (simp add: accepts_def)
        note h = append_batch_holds [OF ok r this Some]
        have c: "cache_ok (l\<lparr>cl_leo := x, cl_loaded := True\<rparr>)" for x using k(1) by simp
        from Some w True ne h cat c show ?thesis
          by (simp add: Append_def append_batch_def publishAppendLocked_def log_ok_def loadLEOLocked_def)
      qed
    qed
  qed
qed

end

end
