(* ===== verification/MsgChange.thy ===== *)
theory MsgChange
  imports MsgAppend
begin

text \<open>
  Recovery, truncation and retention: the frontier a reopened log computes, and which rows the two ways of
  deleting leave.
\<close>

section \<open>Recovery\<close>

definition top_seq :: "rows \<Rightarrow> u64" where
  "top_seq rows = Max (insert 0 (dom rows))"

definition retained :: "RetentionState option \<Rightarrow> u64" where
  "retained st = (case st of None \<Rightarrow> 0 | Some st \<Rightarrow> rt_RetainedMax st)"

lemma foldl_filter: "(\<And>a e. \<not> P e \<Longrightarrow> f a e = a) \<Longrightarrow> foldl f a es = foldl f a (filter P es)"
  by (induction es arbitrary: a) simp_all

lemma max_header_filter: "max_header_seq ck es = max_header_seq ck (filter (is_row ck) es)"
  unfolding max_header_seq_def by (rule foldl_filter) (auto split: option.splits)

lemma max_header_entries:
  assumes "fits_key ck"
  shows "max_header_seq ck (concat (map (row_entries ck rows) ss)) = fold max ss 0"
proof -
  have "foldl (\<lambda>leo (k, _). case row_seq ck k of None \<Rightarrow> leo
       | Some (seq, familyID) \<Rightarrow> if familyID \<noteq> messageHeaderFamilyID then leo else if leo < seq then seq else leo)
      a (concat (map (row_entries ck rows) ss)) = fold max ss a" for a
    by (induction ss arbitrary: a) (auto simp: row_entries_def row_seq_row_key [OF assms] max_def)
  then show ?thesis by (simp add: max_header_seq_def)
qed

lemma fold_max_seqs: "fold max (seqs_from rows 0) 0 = top_seq rows"
  by (simp add: top_seq_def Max.set_eq_fold [symmetric] dom_def)

context ordered_engine
begin

lemma scan_all:
  assumes h: "holds (eg_Get eng d) ck rows"
  shows "filter (is_row ck) (scan_span eng d (NewPrefixSpan (chan_key ck (row_rest [])))) =
    concat (map (row_entries ck rows) (seqs_from rows 0))"
proof -
  have f: "fits_key ck" using h by (simp add: holds_def)
  have s: "span_Start (NewPrefixSpan (chan_key ck (row_rest []))) = chan_key ck (row_rest [])" by (simp add: NewPrefixSpan_def)
  show ?thesis
    unfolding scan_span_def s is_row_def [abs_def]
    by (rule scan_from [OF h]) (use row_bounds [OF f] row_above_prefix in auto)
qed

lemma recoverLEO_held:
  assumes h: "holds (eg_Get eng d) (cl_key l) rows"
  shows "recoverLEO eng d l = map_sum (\<lambda>e. e) (\<lambda>st. max (top_seq rows) (retained st)) (LoadRetentionState eng d l)"
proof -
  have f: "fits_key (cl_key l)" using h by (simp add: holds_def)
  have m: "max_header_seq (cl_key l) (scan_span eng d (NewPrefixSpan (chan_key (cl_key l) (row_rest [])))) = top_seq rows"
    by (subst max_header_filter) (simp add: scan_all [OF h] max_header_entries [OF f] fold_max_seqs)
  show ?thesis
    by (cases "LoadRetentionState eng d l")
      (auto simp: recoverLEO_def encode_keys f key_or_panic_def bind_res_def m Let_def retained_def max_def not_less split: option.splits)
qed

end

section \<open>Reading everything\<close>

lemma read_rows_all:
  "\<forall>r \<in> set rs. readable r \<Longrightarrow> read_rows out len \<lparr>ro_Limit = 0, ro_MaxBytes = 0\<rparr> 0 ms n rs = Inr (ms @ map out rs)"
  by (induction rs arbitrary: ms n) (auto simp: within_def readable_def appendReadMessage_def Let_def)

lemma read_rows_bad:
  "r \<in> set rs \<Longrightarrow> \<not> readable r \<Longrightarrow> \<exists>e. read_rows out len \<lparr>ro_Limit = 0, ro_MaxBytes = 0\<rparr> 0 ms n rs = Inl e"
  by (induction rs arbitrary: ms n) (auto simp: within_def readable_def appendReadMessage_def Let_def split: option.splits)

lemma read_rows_error:
  "\<forall>r \<in> set rs. readable r \<or> validateMaterializedMessageRow r = Some e \<Longrightarrow> \<exists>r \<in> set rs. \<not> readable r \<Longrightarrow>
    read_rows out len \<lparr>ro_Limit = 0, ro_MaxBytes = 0\<rparr> 0 ms n rs = Inl e"
proof (induction rs arbitrary: ms n)
  case (Cons r rs)
  show ?case
  proof (cases "readable r")
    case True
    then have "validateMaterializedMessageRow r = None" by (simp add: readable_def)
    moreover have "\<exists>q \<in> set rs. \<not> readable q" using Cons.prems(2) True by auto
    ultimately show ?thesis using Cons.IH Cons.prems(1) by (simp add: within_def appendReadMessage_def Let_def)
  qed (use Cons.prems in \<open>simp add: within_def\<close>)
qed simp

lemma read_rows_take:
  "\<forall>r \<in> set rs. readable r \<Longrightarrow> read_rows out len opts maxSeq ms n rs =
    Inr (take_messages len opts ms n (map out (takeWhile (\<lambda>r. within maxSeq (mr_MessageSeq r)) rs)))"
  by (induction rs arbitrary: ms n) (auto simp: readable_def split: prod.splits)

lemma rows_from_set: "set (rows_from rows s) = {r. \<exists>t. rows t = Some r \<and> s \<le> t}"
  by (force simp: rows_from_def)

section \<open>Deleting\<close>

definition delete_batch :: "ChannelKeyBytes \<Rightarrow> messageRow list \<Rightarrow> BatchOp list" where
  "delete_batch ck rs = concat (map (del_ops ck) rs)"

definition del_rows :: "rows \<Rightarrow> messageRow list \<Rightarrow> rows" where
  "del_rows rows rs = (\<lambda>s. if s \<in> mr_MessageSeq ` set rs then None else rows s)"

lemma delete_batch_holds:
  "holds m ck rows \<Longrightarrow> \<forall>r \<in> set rs. rows (mr_MessageSeq r) = Some r \<Longrightarrow> distinct (map mr_MessageSeq rs) \<Longrightarrow>
    holds (apply_ops (delete_batch ck rs) m) ck (del_rows rows rs)"
proof (induction rs arbitrary: m rows)
  case (Cons r rs)
  let ?rows = "rows(mr_MessageSeq r := None)"
  have a: "holds (apply_ops (del_ops ck r) m) ck ?rows" using Cons.prems(1,2) by (intro del_ops_hold) simp_all
  have b: "\<forall>q \<in> set rs. ?rows (mr_MessageSeq q) = Some q"
  proof
    fix q
    assume q: "q \<in> set rs"
    then have "mr_MessageSeq q \<in> mr_MessageSeq ` set rs" by simp
    then have "mr_MessageSeq q \<noteq> mr_MessageSeq r" using Cons.prems(3) by auto
    then show "?rows (mr_MessageSeq q) = Some q" using Cons.prems(2) q by simp
  qed
  have "holds (apply_ops (delete_batch ck rs) (apply_ops (del_ops ck r) m)) ck (del_rows ?rows rs)"
    by (rule Cons.IH [OF a b]) (use Cons.prems(3) in simp)
  moreover have "del_rows ?rows rs = del_rows rows (r # rs)"
    by (simp add: del_rows_def fun_eq_iff)
  ultimately show ?case by (simp add: delete_batch_def)
qed (simp add: delete_batch_def del_rows_def)

lemma delete_keys: "list_all (op_in (\<lambda>k. \<exists>rest. k = chan_key ck rest)) (delete_batch ck rs)"
  using del_ops_keys by (induction rs) (auto simp: delete_batch_def)

lemma stage_deletes:
  assumes "fits_key (cl_key l)" "\<forall>r \<in> set rs. good_row (mr_MessageSeq r) r"
  shows "stage_all (map (stageDeleteMessage l) (map messageFromRow rs)) = Inr (delete_batch (cl_key l) rs)"
  using assms(2) by (induction rs) (simp_all add: delete_batch_def bind_res_def stage_delete [OF assms(1), where s = "mr_MessageSeq r" and r = r for r])

lemma del_rows_from:
  assumes "\<And>s r. rows s = Some r \<Longrightarrow> mr_MessageSeq r = s"
  shows "del_rows rows (rows_from rows s) = rows |` {t. t < s}"
proof
  fix t
  show "del_rows rows (rows_from rows s) t = (rows |` {t. t < s}) t"
    using assms by (cases "rows t") (force simp: del_rows_def rows_from_set restrict_map_def not_less)+
qed

lemma rows_from_distinct:
  assumes "\<And>s r. rows s = Some r \<Longrightarrow> mr_MessageSeq r = s"
  shows "map mr_MessageSeq (rows_from rows s) = seqs_from rows s"
proof -
  have "mr_MessageSeq (the (rows t)) = t" if "t \<in> set (seqs_from rows s)" for t
    using that assms by (cases "rows t") auto
  then show ?thesis unfolding rows_from_def map_map by (intro map_idI) simp
qed

section \<open>Truncation\<close>

definition all_readable :: "messageRow list \<Rightarrow> bool" where
  "all_readable rs = list_all readable rs"

context ordered_engine
begin

lemma log_seqs: "holds m ck rows \<Longrightarrow> rows s = Some r \<Longrightarrow> mr_MessageSeq r = s"
  using holds_good by (auto simp: good_row_def)

lemma TruncateFrom_held:
  assumes ok: "log_ok eng d l rows leo" and s: "s = (if fromSeq = 0 then 1 else fromSeq)"
  shows "case TruncateFrom eng d l fromSeq of (err, d', l') \<Rightarrow>
    if leo < s then err = None \<and> d' = d \<and> log_ok eng d' l' rows leo
    else if all_readable (rows_from rows s) \<and> eg_Commit eng d (delete_batch (cl_key l) (rows_from rows s) @ stageCatalog l) \<noteq> None
    then err = None \<and> log_ok eng d' l' (rows |` {t. t < s}) (s - 1)
      \<and> eg_Commit eng d (delete_batch (cl_key l) (rows_from rows s) @ stageCatalog l) = Some d' \<and> cl_key l' = cl_key l
    else err \<noteq> None \<and> d' = d \<and> log_ok eng d' l' rows leo"
proof -
  let ?l = "l\<lparr>cl_leo := leo, cl_loaded := True\<rparr>"
  let ?rs = "rows_from rows s"
  note k = log_okD [OF ok]
  have f: "fits_key (cl_key l)" using k(1) by (simp add: cache_ok_def)
  have keep: "log_ok eng d ?l rows leo" using k by (simp add: log_ok_def)
  have "s \<noteq> 0" using s by simp
  then have rd: "Read eng d ?l s \<lparr>ro_Limit = 0, ro_MaxBytes = 0\<rparr> =
      read_rows messageFromRow (\<lambda>m. length (mg_Payload m)) \<lparr>ro_Limit = 0, ro_MaxBytes = 0\<rparr> 0 [] 0 ?rs"
    using k(2) by (simp add: Read_def readForward_def read_from_held)
  have good: "\<forall>r \<in> set ?rs. good_row (mr_MessageSeq r) r" "\<forall>r \<in> set ?rs. rows (mr_MessageSeq r) = Some r"
    using holds_good [OF k(2)] log_seqs [OF k(2)] by (auto simp: rows_from_set)
  have cat: "stageCatalog ?l = stageCatalog l" by (simp add: stageCatalog_def)
  have t: "TruncateFrom eng d l fromSeq =
      (if leo < s then (None, d, ?l)
       else case bind_res (Read eng d ?l s \<lparr>ro_Limit = 0, ro_MaxBytes = 0\<rparr>) (\<lambda>messages.
                 stage_all (map (stageDeleteMessage ?l) messages)) of
               Inl e \<Rightarrow> (Some e, d, ?l)
             | Inr ops \<Rightarrow>
                 (case eg_Commit eng d (ops @ stageCatalog l) of
                    None \<Rightarrow> (Some DBErrCommit, d, ?l)
                  | Some d \<Rightarrow> (None, d, ?l\<lparr>cl_leo := s - 1, cl_loaded := True\<rparr>)))"
    unfolding cat [symmetric] TruncateFrom_def Let_def s [symmetric] k(4) by simp
  show ?thesis
  proof (cases "leo < s")
    case True
    then show ?thesis using keep by (simp add: t)
  next
    case False
    show ?thesis
    proof (cases "all_readable ?rs")
      case all: True
      then have "bind_res (Read eng d ?l s \<lparr>ro_Limit = 0, ro_MaxBytes = 0\<rparr>) (\<lambda>messages. stage_all (map (stageDeleteMessage ?l) messages)) =
          Inr (delete_batch (cl_key l) ?rs)"
        using stage_deletes [of ?l ?rs] f good(1)
        by (simp add: rd read_rows_all all_readable_def list_all_iff bind_res_def)
      note t' = t [unfolded this]
      show ?thesis
      proof (cases "eg_Commit eng d (delete_batch (cl_key l) ?rs @ stageCatalog l)")
        case None
        then show ?thesis using False all keep by (simp add: t')
      next
        case (Some d')
        have "distinct (map mr_MessageSeq ?rs)"
          using seqs_from_sorted [of rows s] rows_from_distinct [of rows s] log_seqs [OF k(2)] by (simp add: strict_sorted_iff)
        then have h: "holds (eg_Get eng d') (cl_key l) (rows |` {t. t < s})"
          using delete_batch_holds [OF k(2) good(2)] del_rows_from [of rows s] log_seqs [OF k(2)]
          by (simp add: get_commit [OF Some] catalog_holds [OF k(1)])
        have "t \<le> s - 1" if "t < s" for t
          using that by unat_arith
        with h False all Some k(1) show ?thesis by (simp add: t' log_ok_def loadLEOLocked_def cache_ok_def)
      qed
    next
      case bad: False
      then obtain e where "Read eng d ?l s \<lparr>ro_Limit = 0, ro_MaxBytes = 0\<rparr> = Inl e"
        unfolding rd all_readable_def list_all_iff by (blast dest: read_rows_bad)
      then show ?thesis using False bad keep by (simp add: t bind_res_def)
    qed
  qed
qed

end

section \<open>Retention\<close>

definition retention_key :: "ChannelKeyBytes \<Rightarrow> key" where
  "retention_key ck = system_key ck messageSystemIDRetention []"

lemma retention_key_neq [simp]:
  "retention_key ck \<noteq> row_key_of ck s f" "retention_key ck \<noteq> id_key ck a" "retention_key ck \<noteq> client_key ck n t"
  "retention_key ck \<noteq> idem_key ck u n" "retention_key ck \<noteq> catalog_key ck'"
  "row_key_of ck s f \<noteq> retention_key ck" "id_key ck a \<noteq> retention_key ck" "client_key ck n t \<noteq> retention_key ck"
  "idem_key ck u n \<noteq> retention_key ck" "catalog_key ck' \<noteq> retention_key ck"
  by (simp_all add: retention_key_def key_defs rest_neq catalog_neq)

lemma encode_retention_key: "fits_key ck \<Longrightarrow> encodeRetentionStateKey ck = Some (retention_key ck)"
  by (simp add: encodeRetentionStateKey_def encode_keys retention_key_def)

lemma retention_value:
  assumes "validateRetentionState st = None"
  shows "decodeRetentionState (encodeRetentionState st) = Inr st"
proof -
  obtain a b c where st: "st = \<lparr>rt_Local = a, rt_Physical = b, rt_RetainedMax = c\<rparr>" by (cases st)
  have "get_u64 (encodeRetentionState st) 1 = a" "get_u64 (encodeRetentionState st) 9 = b" "get_u64 (encodeRetentionState st) 17 = c"
    using get_u64_put64 [of "[retentionStateVersion]" a "put64 b @ put64 c"]
      get_u64_put64 [of "retentionStateVersion # put64 a" b "put64 c"]
      get_u64_put64 [of "retentionStateVersion # put64 a @ put64 b" c "[]"]
    by (simp_all add: encodeRetentionState_def st)
  then show ?thesis using assms by (simp add: decodeRetentionState_def Let_def st) (simp add: encodeRetentionState_def)
qed

lemma set_retention_holds:
  "holds (m(retention_key ck \<mapsto> v)) ck rows = holds m ck rows"
  by (simp add: holds_def rows_held_def ids_held_def clients_held_def idems_held_def)

lemma row_ops_retention: "list_all (op_in (\<lambda>k. k \<noteq> retention_key ck)) (row_ops ck r)"
  "list_all (op_in (\<lambda>k. k \<noteq> retention_key ck)) (del_ops ck r)"
  by (simp_all add: row_ops_def del_ops_def Let_def)

lemma batches_retention: "list_all (op_in (\<lambda>k. k \<noteq> retention_key ck)) (log_rows_batch ck rs)"
  "list_all (op_in (\<lambda>k. k \<noteq> retention_key ck)) (delete_batch ck rs)"
  using row_ops_retention by (induction rs) (auto simp: log_rows_batch_def delete_batch_def)

lemma batch_keeps_retention:
  "apply_ops (log_rows_batch ck rs) m (retention_key ck) = m (retention_key ck)"
  "apply_ops (delete_batch ck rs) m (retention_key ck) = m (retention_key ck)"
  using apply_ops_outside [OF batches_retention(1)] apply_ops_outside [OF batches_retention(2)] by simp_all

lemma catalog_keeps_retention: "cache_ok l \<Longrightarrow> apply_ops (stageCatalog l) m (retention_key ck) = m (retention_key ck)"
  using apply_ops_outside [OF stage_catalog_keys] by simp

lemma load_retention:
  "fits_key (cl_key l) \<Longrightarrow> LoadRetentionState eng d l =
    (case eg_Get eng d (retention_key (cl_key l)) of None \<Rightarrow> Inr None | Some bs \<Rightarrow> bind_res (decodeRetentionState bs) (\<lambda>st. Inr (Some st)))"
  by (simp add: LoadRetentionState_def encode_retention_key key_or_panic_def bind_res_def)

text \<open>The rows that a trim removes.\<close>

definition trim_picked :: "rows \<Rightarrow> u64 \<Rightarrow> u64 \<Rightarrow> RetentionTrimOptions \<Rightarrow> messageRow list" where
  "trim_picked rows start through opts =
     take_messages (\<lambda>row. length (mr_Payload row))
       \<lparr>ro_Limit = (if 0 < to_MaxMessages opts then to_MaxMessages opts + 1 else 0), ro_MaxBytes = to_MaxBytes opts\<rparr> [] 0
       (takeWhile (\<lambda>r. within through (mr_MessageSeq r)) (rows_from rows start))"

definition trimmed :: "rows \<Rightarrow> u64 \<Rightarrow> u64 \<Rightarrow> RetentionTrimOptions \<Rightarrow> messageRow list" where
  "trimmed rows start through opts =
     (let rs = trim_picked rows start through opts
      in if 0 < to_MaxMessages opts \<and> to_MaxMessages opts < int (length rs) then take (nat (to_MaxMessages opts)) rs else rs)"

lemma take_messages_prefix: "\<exists>n. take_messages len opts ms b rs = ms @ take n rs"
proof (induction rs arbitrary: ms b)
  case (Cons r rs)
  obtain ms' b' stop where a: "appendReadMessage len ms b r opts = (ms', b', stop)" by (cases "appendReadMessage len ms b r opts") auto
  have "ms' = ms \<and> stop \<or> ms' = ms @ [r]" using a by (auto simp: appendReadMessage_def Let_def split: if_splits)
  then consider "ms' = ms" stop | "ms' = ms @ [r]" by blast
  then show ?case
  proof cases
    case 1
    then have "take_messages len opts ms b (r # rs) = ms @ take 0 (r # rs)" using a by simp
    then show ?thesis by blast
  next
    case 2
    obtain n where "take_messages len opts ms' b' rs = ms' @ take n rs" using Cons.IH by blast
    then have "take_messages len opts ms b (r # rs) = ms @ take (Suc (if stop then 0 else n)) (r # rs)" using a 2 by simp
    then show ?thesis by blast
  qed
qed simp

lemma trimmed_prefix: "\<exists>n. trimmed rows start through opts = take n (takeWhile (\<lambda>r. within through (mr_MessageSeq r)) (rows_from rows start))"
proof -
  obtain n where "trim_picked rows start through opts = take n (takeWhile (\<lambda>r. within through (mr_MessageSeq r)) (rows_from rows start))"
    using take_messages_prefix unfolding trim_picked_def by (metis append_Nil)
  then show ?thesis by (auto simp: trimmed_def Let_def take_take)
qed

lemma trimmed_rows:
  assumes "\<And>s r. rows s = Some r \<Longrightarrow> mr_MessageSeq r = s" "0 < through" "r \<in> set (trimmed rows start through opts)"
  shows "rows (mr_MessageSeq r) = Some r \<and> start \<le> mr_MessageSeq r \<and> mr_MessageSeq r \<le> through"
proof -
  obtain n where "trimmed rows start through opts = take n (takeWhile (\<lambda>r. within through (mr_MessageSeq r)) (rows_from rows start))"
    using trimmed_prefix by blast
  then have "r \<in> set (takeWhile (\<lambda>r. within through (mr_MessageSeq r)) (rows_from rows start))" using assms(3) by (metis in_set_takeD)
  then have "r \<in> set (rows_from rows start)" "within through (mr_MessageSeq r)" using set_takeWhileD by fastforce+
  then show ?thesis using assms(1,2) by (auto simp: rows_from_set within_def)
qed

lemma trimmed_distinct:
  assumes "\<And>s r. rows s = Some r \<Longrightarrow> mr_MessageSeq r = s"
  shows "distinct (map mr_MessageSeq (trimmed rows start through opts))"
proof -
  obtain n where "trimmed rows start through opts = take n (takeWhile (\<lambda>r. within through (mr_MessageSeq r)) (rows_from rows start))"
    using trimmed_prefix by blast
  moreover have "distinct (map mr_MessageSeq (rows_from rows start))"
    using seqs_from_sorted [of rows start] rows_from_distinct [where rows = rows, OF assms] by (simp add: strict_sorted_iff)
  ultimately show ?thesis
    by (subst (asm) takeWhile_eq_take) (simp add: take_map [symmetric] take_take distinct_take)
qed

lemma read_rows_some:
  "read_rows out len opts maxSeq ms n rs = Inr ms' \<Longrightarrow>
    ms' = take_messages len opts ms n (map out (takeWhile (\<lambda>r. within maxSeq (mr_MessageSeq r)) rs))"
  by (induction rs arbitrary: ms n) (auto split: prod.splits option.splits if_splits)

definition frontier_after_trim :: "u64 \<Rightarrow> u64 \<Rightarrow> RetentionState option \<Rightarrow> u64" where
  "frontier_after_trim leo through st = max (max leo through) (retained st)"

definition trim_start :: "RetentionState option \<Rightarrow> u64" where
  "trim_start st = (case st of None \<Rightarrow> 0 | Some st \<Rightarrow> rt_Physical st) + 1"

lemma next_retained: "rt_RetainedMax (next_retention (case st of Some st \<Rightarrow> st | None \<Rightarrow> zero_RetentionState) leo through True) =
    frontier_after_trim leo through st"
  by (auto simp: next_retention_def frontier_after_trim_def retained_def zero_RetentionState_def Let_def max_def not_less split: option.splits)

context ordered_engine
begin

lemma trim_rows_some:
  assumes h: "holds (eg_Get eng d) (cl_key l) rows" and t: "trim_rows eng d l start through opts = Inr (rs, more_rows)" and s: "start \<noteq> 0"
  shows "rs = trimmed rows start through opts"
proof -
  let ?o = "\<lparr>ro_Limit = (if 0 < to_MaxMessages opts then to_MaxMessages opts + 1 else 0), ro_MaxBytes = to_MaxBytes opts\<rparr>"
  obtain picked where p: "readRows eng d l start through ?o = Inr picked"
    using t by (cases "readRows eng d l start through ?o") (simp_all add: trim_rows_def bind_res_def)
  then have "read_rows (\<lambda>row. row) (\<lambda>row. length (mr_Payload row)) ?o through [] 0 (rows_from rows start) = Inr picked"
    using s by (simp only: readRows_def read_from_held [OF h] if_False)
  then have "picked = trim_picked rows start through opts"
    unfolding trim_picked_def by (drule_tac read_rows_some) simp
  with t p show ?thesis by (simp add: trim_rows_def bind_res_def Let_def trimmed_def)
qed

lemma Trim_held:
  assumes ok: "log_ok eng d l rows leo" and st: "LoadRetentionState eng d l = Inr st" and thr: "through \<noteq> 0"
  shows "case TrimPrefixThroughLimit eng d l through opts of (res, d', l') \<Rightarrow>
    (case res of
       Inl e \<Rightarrow> d' = d \<and> log_ok eng d' l' rows leo
     | Inr r \<Rightarrow>
         let del = trimmed rows (trim_start st) through opts
         in tr_Deleted r = length del \<and> log_ok eng d' l' (del_rows rows del) (frontier_after_trim leo through st)
            \<and> recoverLEO eng d' l' = Inr (frontier_after_trim leo through st))"
proof -
  let ?l = "l\<lparr>cl_leo := leo, cl_loaded := True\<rparr>"
  let ?st = "case st of Some st \<Rightarrow> st | None \<Rightarrow> zero_RetentionState"
  let ?start = "trim_start st"
  let ?del = "trimmed rows ?start through opts"
  let ?top = "frontier_after_trim leo through st"
  note k = log_okD [OF ok]
  have f: "fits_key (cl_key l)" using k(1) by (simp add: cache_ok_def)
  have keep: "log_ok eng d ?l rows leo" using k by (simp add: log_ok_def)
  have cat: "stageCatalog ?l = stageCatalog l" by (simp add: stageCatalog_def)
  have st': "LoadRetentionState eng d ?l = Inr st" using st f by (simp add: load_retention)
  have start: "rt_Physical ?st + 1 = ?start" by (simp add: trim_start_def zero_RetentionState_def split: option.splits)
  show ?thesis
  proof (cases "?start = 0")
    case True
    then show ?thesis using keep thr
      by (simp add: TrimPrefixThroughLimit_def trimPrefixThroughLimit_def k(4) st' bind_res_def Let_def start)
  next
    case s0: False
    show ?thesis
    proof (cases "trim_rows eng d ?l ?start through opts")
      case (Inl e)
      then show ?thesis using keep thr s0
        by (simp add: TrimPrefixThroughLimit_def trimPrefixThroughLimit_def k(4) st' bind_res_def Let_def start)
    next
      case (Inr p)
      obtain rs more_rows where p: "p = (rs, more_rows)" by (cases p)
      have rs: "rs = ?del" using trim_rows_some [of d ?l rows ?start through opts rs more_rows] Inr p s0 k(2) by simp
      have seqs: "\<And>s r. rows s = Some r \<Longrightarrow> mr_MessageSeq r = s" using log_seqs [OF k(2)] by blast
      have inl: "\<forall>r \<in> set rs. rows (mr_MessageSeq r) = Some r"
        using trimmed_rows [where rows = rows, OF seqs] thr unfolding rs by (simp add: word_neq_0_conv)
      have good: "\<forall>r \<in> set rs. good_row (mr_MessageSeq r) r" using inl holds_good [OF k(2)] by blast
      have dist: "distinct (map mr_MessageSeq rs)" using trimmed_distinct [where rows = rows, OF seqs] unfolding rs by blast
      have sd: "stage_all (map (\<lambda>row. stageDeleteMessage ?l (messageFromRow row)) rs) = Inr (delete_batch (cl_key l) rs)"
        using stage_deletes [of ?l rs] f good by (simp add: comp_def)
      define thru where "thru = (if rs = [] then 0 else mr_MessageSeq (last rs))"
      define nx0 where "nx0 = next_retention ?st leo through True"
      define nx where "nx = (if rt_Physical nx0 < thru then nx0\<lparr>rt_Physical := thru\<rparr> else nx0)"
      define ops where "ops = delete_batch (cl_key l) rs @ [OpSet (retention_key (cl_key l)) (encodeRetentionState nx)]"
      have top: "rt_RetainedMax nx = ?top" by (simp add: nx_def nx0_def next_retained)
      have t: "TrimPrefixThroughLimit eng d l through opts =
          (case validateRetentionState nx of
             Some e \<Rightarrow> (Inl e, d, ?l)
           | None \<Rightarrow>
               (case eg_Commit eng d (ops @ stageCatalog l) of
                  None \<Rightarrow> (Inl DBErrCommit, d, ?l)
                | Some d \<Rightarrow> (Inr \<lparr>tr_DeletedThroughSeq = thru, tr_Deleted = length rs, tr_More = more_rows\<rparr>, d,
                    ?l\<lparr>cl_leo := (if leo < rt_RetainedMax nx then rt_RetainedMax nx else leo), cl_loaded := True\<rparr>)))"
        using thr s0
        unfolding TrimPrefixThroughLimit_def trimPrefixThroughLimit_def k(4) prod.case sum.case
        unfolding st' bind_res_def sum.case Let_def start Inr p prod.case sd
        unfolding thru_def [symmetric] nx0_def [symmetric]
        unfolding nx_def [symmetric]
        by (simp add: check_error_def encode_retention_key f key_or_panic_def commit_ops_def cat ops_def split: option.split)
      show ?thesis
      proof (cases "validateRetentionState nx")
        case (Some e)
        with keep show ?thesis by (simp add: t)
      next
        case valid: None
        show ?thesis
        proof (cases "eg_Commit eng d (ops @ stageCatalog l)")
          case None
          with valid keep show ?thesis by (simp add: t)
        next
          case (Some d')
          have get: "eg_Get eng d' = apply_ops (stageCatalog l)
              ((apply_ops (delete_batch (cl_key l) rs) (eg_Get eng d))(retention_key (cl_key l) \<mapsto> encodeRetentionState nx))"
            by (simp add: get_commit [OF Some] ops_def)
          have h: "holds (eg_Get eng d') (cl_key l) (del_rows rows rs)"
            using delete_batch_holds [OF k(2) inl dist] by (simp add: get catalog_holds [OF k(1)] set_retention_holds)
          have "eg_Get eng d' (retention_key (cl_key l)) = Some (encodeRetentionState nx)"
            by (simp add: get catalog_keeps_retention [OF k(1)])
          then have ld: "LoadRetentionState eng d' l'' = Inr (Some nx)" if "cl_key l'' = cl_key l" for l''
            using f that by (simp add: load_retention retention_value [OF valid] bind_res_def)
          have le: "leo \<le> ?top" by (auto simp: frontier_after_trim_def max_def)
          have below: "\<forall>s \<in> dom (del_rows rows rs). s \<le> ?top"
            using k(3) le by (auto simp: del_rows_def split: if_splits intro: order.trans)
          have "top_seq (del_rows rows rs) \<le> ?top" using below by (simp add: top_seq_def)
          then have rec: "recoverLEO eng d' l'' = Inr ?top" if "cl_key l'' = cl_key l" for l''
            using that h recoverLEO_held [of d' l''] ld [OF that] by (simp add: retained_def top max_def)
          have "\<not> leo < ?top \<Longrightarrow> leo = ?top" using le by simp
          then have t': "TrimPrefixThroughLimit eng d l through opts =
              (Inr \<lparr>tr_DeletedThroughSeq = thru, tr_Deleted = length rs, tr_More = more_rows\<rparr>, d', l\<lparr>cl_leo := ?top, cl_loaded := True\<rparr>)"
            by (auto simp: t valid Some top)
          show ?thesis
            using h below rec k(1) by (simp add: t' rs [symmetric] log_ok_def Let_def)
        qed
      qed
    qed
  qed
qed

text \<open>
  What a handle recovers after a truncation: the boundary of the retention state is not lowered, so a truncation below it leaves the
  open handle at \<open>s - 1\<close> and a reopened one at the boundary.
\<close>

lemma truncate_recovery:
  assumes ok: "log_ok eng d l rows leo" and s: "s = (if fromSeq = 0 then 1 else fromSeq)" "\<not> leo < s"
    and st: "LoadRetentionState eng d l = Inr st" and t: "TruncateFrom eng d l fromSeq = (None, d', l')"
  shows "fst (loadLEOLocked eng d' l') = Inr (s - 1)
    \<and> recoverLEO eng d' l' = Inr (max (top_seq (rows |` {t. t < s})) (retained st))"
proof -
  have r: "log_ok eng d' l' (rows |` {t. t < s}) (s - 1)" "cl_key l' = cl_key l"
    and c: "eg_Commit eng d (delete_batch (cl_key l) (rows_from rows s) @ stageCatalog l) = Some d'"
    using TruncateFrom_held [OF ok s(1)] s(2) t by (auto split: if_splits)
  have k: "cache_ok l" and f: "fits_key (cl_key l)" using log_okD(1) [OF ok] by (auto simp: cache_ok_def)
  have "LoadRetentionState eng d' l' = Inr st"
    using st f r(2) by (simp add: load_retention get_commit [OF c] catalog_keeps_retention [OF k] batch_keeps_retention)
  then show ?thesis using r recoverLEO_held [OF log_okD(2) [OF r(1)]] by (simp add: log_ok_def)
qed

end

end
