(* ===== verification/MsgSafety.thy ===== *)
theory MsgSafety
  imports MsgChange
begin

text \<open>
  What the message log promises: accepted appends are exactly the new ones and survive a reopen, reads
  return the rows, truncation and retention remove what they should and nothing else, the lookups agree with
  the rows, and checkpoints do not go back.
\<close>

section \<open>A new log\<close>

lemma new_log_cache: "fits_key ck \<Longrightarrow> NewChannelLog ck i = Some l \<Longrightarrow> cache_ok l \<and> cl_key l = ck \<and> cl_id l = i \<and> \<not> cl_loaded l"
  by (auto simp: NewChannelLog_def cache_ok_def)

lemma new_log_some: "fits_key ck \<Longrightarrow> fits_key (ci_ID i) \<Longrightarrow> \<exists>l. NewChannelLog ck i = Some l"
  by (simp add: NewChannelLog_def newAppendKeyCache_def encode_keys encodeCatalogValue_def AppendString_def fits_key_def)

context ordered_engine
begin

lemma reopened_ok:
  assumes "cache_ok l" "\<not> cl_loaded l" "holds (eg_Get eng d) (cl_key l) rows" "recoverLEO eng d l = Inr leo"
  shows "log_ok eng d l rows leo"
proof -
  have "s \<le> leo" if "s \<in> dom rows" for s
  proof -
    have "s \<le> top_seq rows" using that by (simp add: top_seq_def)
    also have "\<dots> \<le> leo" using assms(4) unfolding recoverLEO_held [OF assms(3)]
      by (cases "LoadRetentionState eng d l") (auto simp: max_def split: if_splits)
    finally show ?thesis .
  qed
  with assms show ?thesis by (simp add: log_ok_def loadLEOLocked_def)
qed

lemma empty_log_ok:
  assumes "eg_Get eng d = Map.empty" "fits_key ck" "NewChannelLog ck i = Some l"
  shows "log_ok eng d l Map.empty 0"
proof (rule reopened_ok)
  have f: "fits_key (cl_key l)" "cl_key l = ck" using new_log_cache [OF assms(2,3)] assms(2) by auto
  show h: "holds (eg_Get eng d) (cl_key l) Map.empty"
    using f assms(1) by (simp add: holds_def rows_held_def ids_held_def clients_held_def idems_held_def row_entry_def)
  show "recoverLEO eng d l = Inr 0"
    using recoverLEO_held [OF h] f assms(1) by (simp add: load_retention top_seq_def retained_def)
qed (use new_log_cache [OF assms(2,3)] in auto)

end

section \<open>Other channels\<close>

lemma other_channel_key: "fits_key ck \<Longrightarrow> fits_key ck' \<Longrightarrow> ck \<noteq> ck' \<Longrightarrow> chan_key ck a \<noteq> chan_key ck' b"
  by (simp add: chan_key_eq)

lemma batch_other_channel:
  assumes "list_all (op_in (\<lambda>k. \<exists>rest. k = chan_key ck rest)) ops" "fits_key ck" "fits_key ck'" "ck \<noteq> ck'"
  shows "holds (apply_ops ops m) ck' rows = holds m ck' rows"
  by (rule holds_cong) (rule apply_ops_outside [OF assms(1)], use assms in \<open>simp add: chan_key_eq\<close>)

definition reopen :: "ChannelLog \<Rightarrow> ChannelLog" where
  "reopen l = l\<lparr>cl_leo := 0, cl_loaded := False\<rparr>"

lemma reopen_new: "cache_ok l \<Longrightarrow> NewChannelLog (cl_key l) (cl_id l) = Some (reopen l)"
  by (cases l) (simp add: NewChannelLog_def cache_ok_def reopen_def)

lemma reopen_fields [simp]: "cache_ok (reopen l) = cache_ok l" "cl_key (reopen l) = cl_key l" "\<not> cl_loaded (reopen l)"
  by (simp_all add: reopen_def cache_ok_def)

context ordered_engine
begin

lemma append_retention:
  assumes "cache_ok l" "eg_Commit eng d (append_batch l now leo records) = Some d'" "cl_key l' = cl_key l"
  shows "LoadRetentionState eng d' l' = LoadRetentionState eng d l"
proof -
  have "fits_key (cl_key l)" using assms(1) by (simp add: cache_ok_def)
  then show ?thesis
    using assms(3) by (simp add: load_retention get_commit [OF assms(2)] append_batch_def catalog_keeps_retention [OF assms(1)] batch_keeps_retention)
qed

lemma append_durable:
  assumes ok: "log_ok eng d l rows leo" and r: "list_all record_fits records" "unat leo + length records < 2 ^ 64" "records \<noteq> []"
    and st: "LoadRetentionState eng d l = Inr st" "retained st \<le> leo"
    and fr: "fresh True rows {} {} (new_rows l now (leo + 1) records)"
    and c: "eg_Commit eng d (append_batch l now leo records) = Some d'"
  shows "log_ok eng d' (reopen l) (add_rows rows (new_rows l now (leo + 1) records)) (leo + of_nat (length records))"
proof -
  let ?rs = "new_rows l now (leo + 1) records"
  let ?top = "leo + of_nat (length records)"
  note k = log_okD [OF ok]
  note h = append_batch_holds [OF ok r(1,2) fr c]
  have u: "unat (leo + 1) = unat leo + 1" using r(2,3) by (cases records) (simp_all add: unat_word_ariths)
  have b: "unat (leo + 1) + length records \<le> 2 ^ 64" using u r(2) by simp
  have l: "unat ?top = unat leo + length records"
    using r(2) by (simp add: unat_word_ariths unsigned_of_nat take_bit_nat_eq_self)
  have "unat leo + length records \<in> set (map (\<lambda>i. unat (leo + 1) + i) [0..<length records])"
    using r(3) u by (auto simp: image_iff intro!: bexI [of _ "length records - 1"])
  then have "unat ?top \<in> set (map (unat \<circ> mr_MessageSeq) ?rs)" unfolding new_rows_seqs [OF b] l .
  then have "?top \<in> mr_MessageSeq ` set ?rs" by (auto simp: word_unat_eq_iff)
  then have "?top \<in> dom (add_rows rows ?rs)" by (simp add: add_rows_dom)
  then have "top_seq (add_rows rows ?rs) = ?top" using h(2) unfolding top_seq_def by (intro Max_eqI) auto
  moreover have "retained st \<le> ?top" using st(2) l by (simp add: word_le_nat_alt)
  ultimately have "recoverLEO eng d' (reopen l) = Inr ?top"
    using recoverLEO_held [of d' "reopen l"] h(1) append_retention [OF k(1) c] st(1) by (simp add: max_def)
  with h(1) k(1) show ?thesis by (intro reopened_ok) simp_all
qed

end

section \<open>Reading what was appended\<close>

lemma add_rows_lookup:
  "distinct (map mr_MessageSeq rs) \<Longrightarrow> r \<in> set rs \<Longrightarrow> add_rows rows rs (mr_MessageSeq r) = Some r"
proof (induction rs arbitrary: rows)
  case (Cons q rs)
  have out: "s \<notin> mr_MessageSeq ` set rs \<Longrightarrow> add_rows rows rs s = rows s" for s rows
    by (induction rs arbitrary: rows) auto
  show ?case using Cons out [of "mr_MessageSeq q"] by auto
qed simp

lemma rows_from_added:
  assumes "sorted_wrt (<) (map mr_MessageSeq rs)" "\<forall>r \<in> set rs. s \<le> mr_MessageSeq r" "\<forall>t \<in> dom rows. t < s"
  shows "rows_from (add_rows rows rs) s = rs"
proof -
  have d: "distinct (map mr_MessageSeq rs)" using assms(1) by (simp add: strict_sorted_iff)
  have "\<forall>t \<in> dom rows. \<not> s \<le> t" using assms(3) by (simp add: not_le)
  then have "{t \<in> dom (add_rows rows rs). s \<le> t} = set (map mr_MessageSeq rs)"
    using assms(2) by (auto simp: add_rows_dom domI simp del: domIff) 
  then have "seqs_from (add_rows rows rs) s = map mr_MessageSeq rs"
    using assms(1) by (simp add: seqs_from_def strict_sorted_iff sorted_list_of_set.idem_if_sorted_distinct del: set_map)
  then show ?thesis
    using add_rows_lookup [OF d] by (simp add: rows_from_def map_idI)
qed

lemma new_row_readable: "rc_Payload r \<noteq> [] \<Longrightarrow> rc_ID r \<noteq> 0 \<Longrightarrow> readable (new_row l now seq r)"
  by (auto simp: readable_def validateMaterializedMessageRow_def new_row_def normalizeMessageRow_def recordToRow_def Let_def zero_row_def)

lemma new_row_empty:
  "rc_Payload r = [] \<Longrightarrow> rc_ID r \<noteq> 0 \<Longrightarrow> validateMaterializedMessageRow (new_row l now seq r) = Some DBErrCorruptState"
  by (simp add: validateMaterializedMessageRow_def new_row_def normalizeMessageRow_def recordToRow_def Let_def zero_row_def
      hashPayload_def fnv64aOffset_def)

lemma new_rows_decide:
  "fresh strict rows ids pairs (new_rows l now seq records) \<Longrightarrow>
    (\<forall>q \<in> set (new_rows l now seq records). readable q \<or> validateMaterializedMessageRow q = Some DBErrCorruptState)
    \<and> (list_all (\<lambda>r. rc_Payload r \<noteq> []) records \<longleftrightarrow> (\<forall>q \<in> set (new_rows l now seq records). readable q))"
proof (induction records arbitrary: seq ids pairs)
  case (Cons r records)
  then have id: "rc_ID r \<noteq> 0" by simp
  have "readable (new_row l now seq r) \<longleftrightarrow> rc_Payload r \<noteq> []"
    using new_row_readable [OF _ id] new_row_empty [OF _ id] by (auto simp: readable_def)
  then show ?case using Cons new_row_empty [OF _ id] by auto
qed simp

definition no_limit :: ReadOptions where
  "no_limit = \<lparr>ro_Limit = 0, ro_MaxBytes = 0\<rparr>"

context ordered_engine
begin

lemma Read_held:
  assumes "holds (eg_Get eng d) (cl_key l) rows"
  shows "Read eng d l from opts =
    read_rows messageFromRow (\<lambda>m. length (mg_Payload m)) opts 0 [] 0 (rows_from rows (if from = 0 then 1 else from))"
  using assms by (simp add: Read_def readForward_def read_from_held)

lemma read_back:
  assumes ok: "log_ok eng d' l' (add_rows rows (new_rows l now (leo + 1) records)) hi"
    and r: "unat leo + length records < 2 ^ 64" "records \<noteq> []"
    and old: "\<forall>s \<in> dom rows. s \<le> leo" and fr: "fresh True rows {} {} (new_rows l now (leo + 1) records)"
  shows "Read eng d' l' (leo + 1) no_limit =
    (if list_all (\<lambda>r. rc_Payload r \<noteq> []) records then Inr (map messageFromRow (new_rows l now (leo + 1) records))
     else Inl DBErrCorruptState)"
proof -
  let ?rs = "new_rows l now (leo + 1) records"
  have u: "unat (leo + 1) = unat leo + 1" using r by (cases records) (simp_all add: unat_word_ariths)
  have b: "unat (leo + 1) + length records \<le> 2 ^ 64" using u r(1) by simp
  have nz: "leo + 1 \<noteq> 0" using u by (metis Suc_eq_plus1 nat.distinct(1) unat_0)
  have "rows_from (add_rows rows ?rs) (leo + 1) = ?rs"
  proof (rule rows_from_added [OF new_rows_sorted [OF b]])
    show "\<forall>q \<in> set ?rs. leo + 1 \<le> mr_MessageSeq q" using new_rows_range [OF b] by (simp add: word_le_nat_alt)
    show "\<forall>t \<in> dom rows. t < leo + 1" using old u by (simp add: word_less_nat_alt word_le_nat_alt less_Suc_eq_le)
  qed
  moreover note dec = new_rows_decide [OF fr]
  ultimately show ?thesis
    using read_rows_all [of ?rs messageFromRow "\<lambda>m. length (mg_Payload m)" "[]" 0] nz
      read_rows_error [of ?rs DBErrCorruptState messageFromRow "\<lambda>m. length (mg_Payload m)" "[]" 0]
    by (auto simp: Read_held [OF log_okD(2) [OF ok]] no_limit_def)
qed

end

section \<open>The lookups\<close>

definition find_id :: "rows \<Rightarrow> u64 \<Rightarrow> messageRow option" where
  "find_id rows mid = find (\<lambda>r. mr_MessageID r = mid) (rows_from rows 0)"

definition find_pair :: "rows \<Rightarrow> IdempotencyKey \<Rightarrow> messageRow option" where
  "find_pair rows ik = find (\<lambda>r. mr_FromUID r = ik_FromUID ik \<and> mr_ClientMsgNo r = ik_ClientMsgNo ik) (rows_from rows 0)"

definition hit_of :: "messageRow \<Rightarrow> IdempotencyHit" where
  "hit_of r = \<lparr>ih_MessageSeq = mr_MessageSeq r, ih_MessageID = mr_MessageID r, ih_Offset = mr_MessageSeq r - 1,
     ih_PayloadHash = mr_PayloadHash r\<rparr>"

lemma find_rows:
  "find P (rows_from rows 0) = None \<Longrightarrow> rows s = Some r \<Longrightarrow> \<not> P r"
  "find P (rows_from rows 0) = Some r \<Longrightarrow> \<exists>s. rows s = Some r \<and> P r"
proof -
  show "find P (rows_from rows 0) = None \<Longrightarrow> rows s = Some r \<Longrightarrow> \<not> P r" by (auto simp: find_None_iff rows_from_set)
  assume "find P (rows_from rows 0) = Some r"
  then have "r \<in> set (rows_from rows 0)" "P r" by (auto simp: find_Some_iff)
  then show "\<exists>s. rows s = Some r \<and> P r" by (auto simp: rows_from_set)
qed

context ordered_engine
begin

lemma GetByMessageID_held:
  assumes ok: "log_ok eng d l rows leo" and rd: "all_readable (rows_from rows 0)" and z: "mid \<noteq> 0"
  shows "GetByMessageID eng d l mid = Inr (map_option messageFromRow (find_id rows mid))"
proof -
  note k = log_okD [OF ok]
  show ?thesis
  proof (cases "find_id rows mid")
    case None
    have "eg_Get eng d (id_key (cl_key l) mid) = None"
    proof (cases "eg_Get eng d (id_key (cl_key l) mid)")
      case (Some v)
      then obtain s r where "rows s = Some r" "mr_MessageID r = mid" by (auto simp: holds_ids [OF k(2)])
      then show ?thesis using None find_rows(1) [of "\<lambda>r. mr_MessageID r = mid" rows s r] by (simp add: find_id_def)
    qed
    then show ?thesis using None z
      by (simp add: GetByMessageID_def lookupMessageIDSeq_def cache_keys [OF k(1)] lookupMessageIDSeqByKey_def bind_res_def)
  next
    case (Some r)
    then obtain s where r: "rows s = Some r" "mr_MessageID r = mid" using find_rows(2) by (fastforce simp: find_id_def)
    have s: "s \<noteq> 0" using holds_good [OF k(2) r(1)] by (simp add: good_row_def)
    have "validateMaterializedMessageRow r = None" using rd r(1) by (auto simp: all_readable_def list_all_iff rows_from_set readable_def)
    moreover have "eg_Get eng d (id_key (cl_key l) mid) = Some (put64 s)" unfolding holds_ids [OF k(2)] using r by blast
    ultimately show ?thesis using Some z r
      by (simp add: GetByMessageID_def lookupMessageIDSeq_def cache_keys [OF k(1)] lookupMessageIDSeqByKey_def bind_res_def
          decode_id_value getRowBySeq_held [OF k(2) s])
  qed
qed

lemma LookupIdempotency_held:
  assumes ok: "log_ok eng d l rows leo" and rd: "all_readable (rows_from rows 0)"
    and ik: "ik_FromUID ik \<noteq> []" "ik_ClientMsgNo ik \<noteq> []" "fits_key (ik_FromUID ik)" "fits_key (ik_ClientMsgNo ik)"
  shows "LookupIdempotency eng d l ik = Inr (map_option hit_of (find_pair rows ik))"
proof -
  note k = log_okD [OF ok]
  let ?k = "idem_key (cl_key l) (ik_FromUID ik) (ik_ClientMsgNo ik)"
  note get = holds_idems [OF k(2) ik(3,4)]
  have look: "LookupIdempotency eng d l ik = lookupIdempotencyByKey eng d l ik ?k"
    using ik by (simp add: LookupIdempotency_def cache_keys [OF k(1)] bind_res_def)
  show ?thesis
  proof (cases "find_pair rows ik")
    case None
    have "eg_Get eng d ?k = None"
    proof (cases "eg_Get eng d ?k")
      case (Some v)
      then obtain s r where "rows s = Some r" "mr_FromUID r = ik_FromUID ik" "mr_ClientMsgNo r = ik_ClientMsgNo ik" by (auto simp: get)
      then show ?thesis using None
          find_rows(1) [of "\<lambda>r. mr_FromUID r = ik_FromUID ik \<and> mr_ClientMsgNo r = ik_ClientMsgNo ik" rows s r] by (simp add: find_pair_def)
    qed
    then show ?thesis using None by (simp add: look lookupIdempotencyByKey_def)
  next
    case (Some r)
    then obtain s where r: "rows s = Some r" "mr_FromUID r = ik_FromUID ik" "mr_ClientMsgNo r = ik_ClientMsgNo ik"
      using find_rows(2) by (fastforce simp: find_pair_def)
    have s: "s \<noteq> 0" "mr_MessageSeq r = s" using holds_good [OF k(2) r(1)] by (auto simp: good_row_def)
    have "validateMaterializedMessageRow r = None" using rd r(1) by (auto simp: all_readable_def list_all_iff rows_from_set readable_def)
    moreover have "eg_Get eng d ?k = Some (idem_value r)" unfolding get using r ik by blast
    ultimately show ?thesis using Some r s
      by (simp add: look lookupIdempotencyByKey_def bind_res_def decode_idem_value getRowBySeq_held [OF k(2) s(1)] hit_of_def word_neq_0_conv)
  qed
qed

end

end
