(* ===== verification/MsgFetch.thy ===== *)
theory MsgFetch
  imports MsgSafety
begin

text \<open>
  Checkpoints and fetched records: what replication stores beside the rows, in the same batch.
\<close>

section \<open>System entries\<close>

definition checkpoint_key :: "ChannelKeyBytes \<Rightarrow> key" where
  "checkpoint_key ck = system_key ck messageSystemIDCheckpoint []"

definition system_ops :: "ChannelKeyBytes \<Rightarrow> BatchOp list \<Rightarrow> bool" where
  "system_ops ck ops \<longleftrightarrow> list_all (op_in (\<lambda>k. \<exists>i r. k = system_key ck i r)) ops"

lemma system_key_neq [simp]:
  "system_key ck i r \<noteq> row_key_of ck s f" "system_key ck i r \<noteq> id_key ck a" "system_key ck i r \<noteq> client_key ck n t"
  "system_key ck i r \<noteq> idem_key ck u n" "system_key ck i r \<noteq> catalog_key ck'"
  "row_key_of ck s f \<noteq> system_key ck i r" "id_key ck a \<noteq> system_key ck i r" "client_key ck n t \<noteq> system_key ck i r"
  "idem_key ck u n \<noteq> system_key ck i r" "catalog_key ck' \<noteq> system_key ck i r"
  by (simp_all add: key_defs rest_neq catalog_neq)

lemma system_key_eq [simp]: "system_key ck i r = system_key ck j r' \<longleftrightarrow> i = j \<and> r = r'"
  by (simp add: system_key_def)

lemma system_holds:
  assumes "system_ops ck ops"
  shows "holds (apply_ops ops m) ck rows = holds m ck rows"
proof -
  have "apply_ops ops m k = m k" if "\<And>i r. k \<noteq> system_key ck i r" for k
    by (rule apply_ops_outside [OF assms [unfolded system_ops_def]]) (use that in auto)
  then show ?thesis by (simp add: holds_def rows_held_def ids_held_def clients_held_def idems_held_def)
qed

lemma encode_checkpoint_key: "fits_key ck \<Longrightarrow> encodeCheckpointKey ck = Some (checkpoint_key ck)"
  by (simp add: encodeCheckpointKey_def encode_keys checkpoint_key_def)

lemma encode_history_point_key:
  "fits_key ck \<Longrightarrow> encodeHistoryPointKey ck off ep = Some (system_key ck messageSystemIDHistory (put64 off @ put64 ep))"
  by (simp add: encodeHistoryPointKey_def encodeHistoryOffsetKey_def encodeHistoryPrefix_def encode_keys build_simps system_key_def
      chan_key_def system_rest_def)

lemma checkpoint_value: "decodeCheckpoint (encodeCheckpoint c) = Inr c"
proof -
  obtain a b e where c: "c = \<lparr>cp_Epoch = a, cp_LogStartOffset = b, cp_HW = e\<rparr>" by (cases c)
  show ?thesis
    using get_u64_put64 [of "[]" a "put64 b @ put64 e"] get_u64_put64 [of "put64 a" b "put64 e"] get_u64_put64 [of "put64 a @ put64 b" e "[]"]
    by (simp add: decodeCheckpoint_def encodeCheckpoint_def c)
qed

lemma load_checkpoint:
  "fits_key (cl_key l) \<Longrightarrow> LoadCheckpoint eng d l =
    (case eg_Get eng d (checkpoint_key (cl_key l)) of None \<Rightarrow> Inr None | Some bs \<Rightarrow> bind_res (decodeCheckpoint bs) (\<lambda>c. Inr (Some c)))"
  by (simp add: LoadCheckpoint_def encode_checkpoint_key key_or_panic_def bind_res_def)

lemma catalog_keeps_system: "cache_ok l \<Longrightarrow> apply_ops (stageCatalog l) m (system_key ck i r) = m (system_key ck i r)"
  using apply_ops_outside [OF stage_catalog_keys] by simp

lemma catalog_keeps_checkpoint: "cache_ok l \<Longrightarrow> apply_ops (stageCatalog l) m (checkpoint_key ck) = m (checkpoint_key ck)"
  by (simp add: checkpoint_key_def catalog_keeps_system)

section \<open>Checkpoints\<close>

definition checkpoint_le :: "Checkpoint \<Rightarrow> Checkpoint \<Rightarrow> bool" where
  "checkpoint_le a b \<longleftrightarrow> cp_HW a \<le> cp_HW b \<and> cp_LogStartOffset a \<le> cp_LogStartOffset b \<and> cp_Epoch a \<le> cp_Epoch b"

lemma validate_monotonic:
  "validateCheckpointMonotonic eng d l c visibleHW leo = Inr u \<Longrightarrow>
    cp_LogStartOffset c \<le> cp_HW c \<and> cp_HW c \<le> visibleHW \<and> cp_HW c \<le> leo
    \<and> (case LoadCheckpoint eng d l of Inr (Some cur) \<Rightarrow> checkpoint_le cur c | Inr None \<Rightarrow> True | Inl e \<Rightarrow> False)"
  by (auto simp: validateCheckpointMonotonic_def check_error_def validateCheckpoint_def bind_res_def checkpoint_le_def not_less
      split: if_splits sum.splits option.splits)

context ordered_engine
begin

lemma StoreCheckpoint_held:
  assumes c: "cache_ok l"
  shows "case StoreCheckpoint eng d l cp of (err, d') \<Rightarrow>
    (case err of Some e \<Rightarrow> d' = d
     | None \<Rightarrow> LoadCheckpoint eng d' l = Inr (Some cp) \<and> (\<forall>rows. holds (eg_Get eng d') (cl_key l) rows = holds (eg_Get eng d) (cl_key l) rows))"
proof -
  have f: "fits_key (cl_key l)" using c by (simp add: cache_ok_def)
  let ?op = "[OpSet (checkpoint_key (cl_key l)) (encodeCheckpoint cp)]"
  show ?thesis
  proof (cases "validateCheckpoint cp")
    case None
    show ?thesis
    proof (cases "eg_Commit eng d (?op @ stageCatalog l)")
      case (Some d')
      have get: "eg_Get eng d' = apply_ops (stageCatalog l) (apply_ops ?op (eg_Get eng d))" by (simp add: get_commit [OF Some])
      have "eg_Get eng d' (checkpoint_key (cl_key l)) = Some (encodeCheckpoint cp)"
        unfolding get checkpoint_key_def by (simp add: catalog_keeps_system [OF c])
      moreover have "holds (eg_Get eng d') (cl_key l) rows = holds (eg_Get eng d) (cl_key l) rows" for rows
        unfolding get catalog_holds [OF c] by (rule system_holds) (auto simp: system_ops_def checkpoint_key_def)
      ultimately show ?thesis using None Some f
        by (simp add: StoreCheckpoint_def commit_ops_def check_error_def bind_res_def encode_checkpoint_key key_or_panic_def load_checkpoint checkpoint_value)
    qed (use None f in \<open>simp add: StoreCheckpoint_def commit_ops_def check_error_def bind_res_def encode_checkpoint_key key_or_panic_def\<close>)
  qed (simp add: StoreCheckpoint_def commit_ops_def check_error_def bind_res_def)
qed

end

section \<open>Fetched records\<close>

lemma fresh_weaken: "fresh True rows ids pairs rs \<Longrightarrow> fresh strict rows ids pairs rs"
  by (induction rs arbitrary: ids pairs) auto

lemma stage_rows:
  "cache_ok l \<Longrightarrow> \<forall>r \<in> set rs. good_row (mr_MessageSeq r) r \<Longrightarrow> stageMessageRows l rs = Inr (log_rows_batch (cl_key l) rs)"
  by (induction rs) (simp_all add: log_rows_batch_def bind_res_def stage_row [where s = "mr_MessageSeq r" and r = r for r])

lemma history_op: "fits_key (cl_key l) \<Longrightarrow> writeHistoryPoint l p = Inr ops \<Longrightarrow>
    ops = [OpSet (system_key (cl_key l) messageSystemIDHistory (put64 (ep_StartOffset p) @ put64 (ep_Epoch p))) (encodeEpochPoint p)]"
  by (simp add: writeHistoryPoint_def encode_history_point_key key_or_panic_def bind_res_def split: if_splits)

lemma system_ids [simp]: "messageSystemIDHistory \<noteq> messageSystemIDCheckpoint" "messageSystemIDCheckpoint \<noteq> messageSystemIDHistory"
  by (simp_all add: messageSystemIDHistory_def messageSystemIDCheckpoint_def)

lemma fetch_ops_some:
  assumes c: "cache_ok l" and g: "\<forall>r \<in> set rs. good_row (mr_MessageSeq r) r" and o: "fetch_ops l req rs b = Inr ops"
  shows "\<exists>sys. ops = log_rows_batch (cl_key l) rs @ sys \<and> system_ops (cl_key l) sys \<and>
    (\<forall>m. apply_ops sys m (checkpoint_key (cl_key l)) =
      (case af_Checkpoint req of None \<Rightarrow> m (checkpoint_key (cl_key l)) | Some c \<Rightarrow> Some (encodeCheckpoint c)))"
proof -
  have f: "fits_key (cl_key l)" using c by (simp add: cache_ok_def)
  define cops where "cops = (case af_Checkpoint req of None \<Rightarrow> [] | Some c \<Rightarrow> [OpSet (checkpoint_key (cl_key l)) (encodeCheckpoint c)])"
  have ce: "(case af_Checkpoint req of None \<Rightarrow> Inr []
         | Some c \<Rightarrow> bind_res (key_or_panic (encodeCheckpointKey (cl_key l))) (\<lambda>k. Inr [OpSet k (encodeCheckpoint c)])) = Inr cops"
    by (simp add: cops_def encode_checkpoint_key [OF f] key_or_panic_def bind_res_def split: option.split)
  obtain hops where h: "(case af_EpochPoint req of Some p \<Rightarrow> if b then writeHistoryPoint l p else Inr [] | None \<Rightarrow> Inr []) = Inr hops"
    and ops: "ops = log_rows_batch (cl_key l) rs @ cops @ hops"
    using o by (auto simp: fetch_ops_def stage_rows [OF c g] ce bind_res_def split: sum.splits)
  have hs: "hops = [] \<or> (\<exists>p. hops = [OpSet (system_key (cl_key l) messageSystemIDHistory (put64 (ep_StartOffset p) @ put64 (ep_Epoch p))) (encodeEpochPoint p)])"
    using h history_op [OF f] by (auto split: option.splits if_splits)
  then have "system_ops (cl_key l) (cops @ hops)"
    by (auto simp: system_ops_def cops_def checkpoint_key_def split: option.splits)
  moreover have "apply_ops (cops @ hops) m (checkpoint_key (cl_key l)) =
      (case af_Checkpoint req of None \<Rightarrow> m (checkpoint_key (cl_key l)) | Some c \<Rightarrow> Some (encodeCheckpoint c))" for m
    using hs by (auto simp: cops_def checkpoint_key_def split: option.splits)
  ultimately show ?thesis using ops by blast
qed

lemma fold_snoc: "fold (\<lambda>r rs. rs @ [r]) xs acc = acc @ xs"
  by (induction xs arbitrary: acc) simp_all

lemma row_ops_system: "list_all (op_in (\<lambda>k. k \<noteq> system_key ck i r)) (row_ops ck q)"
  by (simp add: row_ops_def Let_def)

lemma batch_keeps_system: "apply_ops (log_rows_batch ck rs) m (system_key ck i r) = m (system_key ck i r)"
proof -
  have "list_all (op_in (\<lambda>k. k \<noteq> system_key ck i r)) (log_rows_batch ck rs)"
    using row_ops_system by (induction rs) (auto simp: log_rows_batch_def)
  then show ?thesis using apply_ops_outside by fastforce
qed

lemma batch_keeps_checkpoint: "apply_ops (log_rows_batch ck rs) m (checkpoint_key ck) = m (checkpoint_key ck)"
  by (simp add: checkpoint_key_def batch_keeps_system)

context ordered_engine
begin

lemma ApplyFetch_held:
  assumes ok: "log_ok eng d l rows leo" and r: "list_all record_fits (af_Records req)" "unat leo + length (af_Records req) < 2 ^ 64"
    and fr: "fresh True rows {} {} (new_rows l now (leo + 1) (af_Records req))"
  shows "case ApplyFetch eng d l req now of (res, d', l') \<Rightarrow>
    (case res of
       Inl e \<Rightarrow> d' = d \<and> log_ok eng d' l' rows leo
     | Inr _ \<Rightarrow> log_ok eng d' l' (add_rows rows (new_rows l now (leo + 1) (af_Records req))) (leo + of_nat (length (af_Records req)))
         \<and> (case af_Checkpoint req of
              None \<Rightarrow> LoadCheckpoint eng d' l' = LoadCheckpoint eng d l
            | Some c \<Rightarrow> LoadCheckpoint eng d' l' = Inr (Some c) \<and> cp_HW c \<le> leo + of_nat (length (af_Records req))))"
proof -
  let ?l = "l\<lparr>cl_leo := leo, cl_loaded := True\<rparr>"
  let ?rs = "new_rows l now (leo + 1) (af_Records req)"
  let ?top = "leo + of_nat (length (af_Records req))"
  let ?opts = "\<lparr>ao_Mode = AppendTrustedContiguous, ao_BaseSeq = af_BaseSeq req\<rparr>"
  note k = log_okD [OF ok]
  have f: "fits_key (cl_key l)" using k(1) by (simp add: cache_ok_def)
  have keep: "log_ok eng d ?l rows leo" using k by (simp add: log_ok_def)
  define result where "result = (if af_Records req = [] then zero_AppendResult
         else \<lparr>ar_BaseSeq = leo + 1, ar_LastSeq = ?top, ar_Count = length (af_Records req)\<rparr>)"
  have w: "if accepts ?opts l rows leo now (af_Records req)
    then prepareAppendRowsLocked eng d l (af_Records req) ?opts now = (Inr (result, ?rs), ?l)
    else \<exists>e. prepareAppendRowsLocked eng d l (af_Records req) ?opts now = (Inl e, ?l)"
    unfolding prepareAppendRowsLocked_def result_def
    using walk_append [where f = "\<lambda>r rs. rs @ [r]" and now = now and acc = "[]" and onRow = "\<lambda>row rows. Inr (rows @ [row])" and opts = ?opts, OF ok _ r]
    by (simp add: fold_snoc)
  show ?thesis
  proof (cases "accepts ?opts l rows leo now (af_Records req)")
    case False
    with w keep show ?thesis by (auto simp: ApplyFetch_def)
  next
    case True
    with w have p: "prepareAppendRowsLocked eng d l (af_Records req) ?opts now = (Inr (result, ?rs), ?l)" by simp
    have vis: "(if 0 < ar_Count result then ar_LastSeq result else cl_leo ?l) = ?top"
      by (simp add: result_def zero_AppendResult_def)
    have pub: "publishAppendLocked result ?l = l\<lparr>cl_leo := ?top, cl_loaded := True\<rparr>"
      by (simp add: publishAppendLocked_def result_def zero_AppendResult_def)
    have good: "\<forall>r \<in> set ?rs. good_row (mr_MessageSeq r) r"
    proof (cases "af_Records req = []")
      case False
      have u: "unat (leo + 1) = unat leo + 1" using r(2) False by (cases "af_Records req") (simp_all add: unat_word_ariths)
      then have nz: "leo + 1 \<noteq> 0" by (metis Suc_eq_plus1 nat.distinct(1) unat_0)
      show ?thesis by (rule new_rows_good [OF k(1) r(1) _ nz fr]) (use u r(2) in simp)
    qed simp
    show ?thesis
    proof (cases "fetch_checks eng d ?l req ?top")
      case (Inl e)
      with p keep vis show ?thesis by (simp add: ApplyFetch_def Let_def)
    next
      case (Inr b)
      have hw: "case af_Checkpoint req of None \<Rightarrow> True | Some c \<Rightarrow> cp_HW c \<le> ?top"
        using Inr by (auto simp: fetch_checks_def bind_res_def dest: validate_monotonic split: option.splits sum.splits)
      show ?thesis
      proof (cases "?rs = [] \<and> af_Checkpoint req = None \<and> \<not> b")
        case noop: True
        then have "af_Records req = []" by (cases "af_Records req") auto
        then show ?thesis using p vis Inr noop keep f by (simp add: ApplyFetch_def Let_def load_checkpoint)
      next
        case work: False
        have t: "ApplyFetch eng d l req now =
            (case commit_ops eng d ?l (fetch_ops ?l req ?rs b) of
               (Some e, d) \<Rightarrow> (Inl e, d, ?l) | (None, d) \<Rightarrow> (Inr result, d, l\<lparr>cl_leo := ?top, cl_loaded := True\<rparr>))"
          using work unfolding ApplyFetch_def p prod.case sum.case Let_def vis Inr pub by (simp only: if_False)
        show ?thesis
        proof (cases "fetch_ops ?l req ?rs b")
          case (Inl e)
          with t keep show ?thesis by (simp add: commit_ops_def)
        next
          case (Inr ops)
          have cat: "stageCatalog ?l = stageCatalog l" by (simp add: stageCatalog_def)
          have key: "cl_key ?l = cl_key l" and c: "cache_ok ?l" using k(1) by simp_all
          show ?thesis
          proof (cases "eg_Commit eng d (ops @ stageCatalog l)")
            case None
            with t Inr keep cat show ?thesis by (simp add: commit_ops_def)
          next
            case (Some d')
            have t': "ApplyFetch eng d l req now = (Inr result, d', l\<lparr>cl_leo := ?top, cl_loaded := True\<rparr>)"
              using t Inr Some cat by (simp add: commit_ops_def)
            obtain sys where sys: "ops = log_rows_batch (cl_key l) ?rs @ sys" "system_ops (cl_key l) sys"
              "\<And>m. apply_ops sys m (checkpoint_key (cl_key l)) =
                (case af_Checkpoint req of None \<Rightarrow> m (checkpoint_key (cl_key l)) | Some c \<Rightarrow> Some (encodeCheckpoint c))"
              using fetch_ops_some [of ?l ?rs req b ops, unfolded key, OF c good Inr] by blast
            have get: "eg_Get eng d' = apply_ops (stageCatalog l) (apply_ops sys (apply_ops (log_rows_batch (cl_key l) ?rs) (eg_Get eng d)))"
              by (simp add: get_commit [OF Some] sys(1))
            note nb = new_batch_holds [OF ok r fr]
            have h: "holds (eg_Get eng d') (cl_key l) (add_rows rows ?rs)"
              using nb(1) by (simp add: get catalog_holds [OF k(1)] system_holds [OF sys(2)])
            have cp: "eg_Get eng d' (checkpoint_key (cl_key l)) =
                (case af_Checkpoint req of None \<Rightarrow> eg_Get eng d (checkpoint_key (cl_key l)) | Some c \<Rightarrow> Some (encodeCheckpoint c))"
              unfolding get
              by (simp add: catalog_keeps_checkpoint [OF k(1)] sys(3) batch_keeps_checkpoint split: option.split)
            have "log_ok eng d' (l\<lparr>cl_leo := ?top, cl_loaded := True\<rparr>) (add_rows rows ?rs) ?top"
              using h nb(2) k(1) by (simp add: log_ok_def)
            moreover have "case af_Checkpoint req of
                None \<Rightarrow> LoadCheckpoint eng d' (l\<lparr>cl_leo := ?top, cl_loaded := True\<rparr>) = LoadCheckpoint eng d l
              | Some c \<Rightarrow> LoadCheckpoint eng d' (l\<lparr>cl_leo := ?top, cl_loaded := True\<rparr>) = Inr (Some c) \<and> cp_HW c \<le> ?top"
              using hw cp f by (simp add: load_checkpoint checkpoint_value bind_res_def split: option.splits)
            ultimately show ?thesis by (simp add: t')
          qed
        qed
      qed
    qed
  qed
qed

end

end
