(* ===== verification/MsgClaims.thy ===== *)
theory MsgClaims
  imports MsgFetch
begin

text \<open>
  The promises of the message log as properties, each with an instance on the engine of association lists.
\<close>

section \<open>An example\<close>

definition demo_log :: ChannelLog where
  "demo_log = the (NewChannelLog [99] \<lparr>ci_ID = [99], ci_Type = 2\<rparr>)"

definition demo_record :: "u64 \<Rightarrow> u8 list \<Rightarrow> Record" where
  "demo_record i payload = \<lparr>rc_ID = i, rc_ClientMsgNo = [110, ucast i], rc_FromUID = [117], rc_Payload = payload,
     rc_SizeBytes = 0, rc_ServerTimestampMS = 5\<rparr>"

definition demo_records :: "Record list" where
  "demo_records = [demo_record 7 [1], demo_record 8 [2, 3]]"

definition strict :: AppendOptions where
  "strict = \<lparr>ao_Mode = AppendStrict, ao_BaseSeq = 0\<rparr>"

lemma demo_new: "NewChannelLog [99] \<lparr>ci_ID = [99], ci_Type = 2\<rparr> = Some demo_log"
  using new_log_some [of "[99]" "\<lparr>ci_ID = [99], ci_Type = 2\<rparr>"] by (auto simp: demo_log_def fits_key_def maxStringLen_def)

lemma demo_ok: "log_ok list_engine [] demo_log Map.empty 0"
  by (rule list_engine.empty_log_ok [OF _ _ demo_new]) (simp_all add: list_engine_def fits_key_def maxStringLen_def)

lemma demo_fits: "list_all record_fits demo_records" "list_all (\<lambda>r. rc_Payload r \<noteq> []) demo_records" "demo_records \<noteq> []"
  by (simp_all add: demo_records_def demo_record_def record_fits_def fits_key_def maxStringLen_def)

lemma demo_fresh: "fresh True Map.empty {} {} (new_rows demo_log now 1 demo_records)"
  by (simp add: demo_records_def demo_record_def log_ids_def log_pairs_def row_pair_def)

lemma list_commits: "eg_Commit list_engine d ops \<noteq> None"
  by (simp add: list_engine_def)

lemma demo_log_accepts: "accepts strict demo_log Map.empty 0 now demo_records"
  using demo_fresh by (simp add: accepts_def strict_def)

section \<open>Appending\<close>

text \<open>
  C2: A strict append is accepted exactly when its base sequence is the frontier's successor (or left open), all message ids
  are set, new to the log and distinct, the pairs of sender and client number likewise, and the engine commits; then
  exactly the rows of the records follow the frontier, which moves by their number. A refused append leaves
  the store and the log as they were.
\<close>

theorem append_exact:
  assumes "ordered_engine eng" "log_ok eng d l rows leo" "ao_Mode opts = AppendStrict" "list_all record_fits records"
    and "unat leo + length records < 2 ^ 64"
  shows "case Append eng d l records opts now of (res, d', l') \<Rightarrow>
    if accepts opts l rows leo now records \<and> (records = [] \<or> eg_Commit eng d (append_batch l now leo records) \<noteq> None)
    then res = Inr (if records = [] then zero_AppendResult
           else \<lparr>ar_BaseSeq = leo + 1, ar_LastSeq = leo + of_nat (length records), ar_Count = length records\<rparr>)
      \<and> log_ok eng d' l' (add_rows rows (new_rows l now (leo + 1) records)) (leo + of_nat (length records))
      \<and> (if records = [] then d' = d else eg_Commit eng d (append_batch l now leo records) = Some d')
    else (\<exists>e. res = Inl e) \<and> d' = d \<and> log_ok eng d' l' rows leo"
  using ordered_engine.Append_held [OF assms] .

lemma append_exact_witness:
  "fst (Append list_engine [] demo_log demo_records strict 5) = Inr \<lparr>ar_BaseSeq = 1, ar_LastSeq = 2, ar_Count = 2\<rparr>"
  using append_exact [OF list_engine.ordered_engine_axioms demo_ok _ demo_fits(1), of strict 5] demo_log_accepts [of 5] list_commits
  by (simp add: strict_def demo_records_def split: prod.splits)

text \<open>What a caller sees of a message.\<close>

definition message_view :: "Message \<Rightarrow> u64 \<times> u64 \<times> u8 list \<times> u8 list \<times> u8 list" where
  "message_view m = (mg_MessageSeq m, mg_MessageID m, mg_FromUID m, mg_ClientMsgNo m, mg_Payload m)"

fun appended_view :: "u64 \<Rightarrow> Record list \<Rightarrow> (u64 \<times> u64 \<times> u8 list \<times> u8 list \<times> u8 list) list" where
  "appended_view seq [] = []"
| "appended_view seq (r # rs) = (seq, rc_ID r, rc_FromUID r, rc_ClientMsgNo r, rc_Payload r) # appended_view (seq + 1) rs"

lemma new_rows_view: "map message_view (map messageFromRow (new_rows l now seq records)) = appended_view seq records"
  by (induction records arbitrary: seq) (simp_all add: message_view_def messageFromRow_def)

lemma append_reads_back_aux:
  assumes e: "ordered_engine eng" and ok: "log_ok eng d l rows leo" and m: "ao_Mode opts = AppendStrict"
    and r: "list_all record_fits records" "unat leo + length records < 2 ^ 64" "records \<noteq> []"
    and a: "Append eng d l records opts now = (Inr res, d', l')"
  shows "map_sum (\<lambda>e. e) (map message_view) (Read eng d' l' (leo + 1) no_limit) =
    (if list_all (\<lambda>r. rc_Payload r \<noteq> []) records then Inr (appended_view (leo + 1) records) else Inl DBErrCorruptState)"
proof -
  have acc: "accepts opts l rows leo now records"
    and ok': "log_ok eng d' l' (add_rows rows (new_rows l now (leo + 1) records)) (leo + of_nat (length records))"
    using ordered_engine.Append_held [OF e ok m r(1,2), of now] a by (auto split: if_splits)
  have fr: "fresh True rows {} {} (new_rows l now (leo + 1) records)" using acc m by (simp add: accepts_def)
  show ?thesis
    using ordered_engine.read_back [OF e ok' r(2,3) log_okD(3) [OF ok] fr] new_rows_view by simp
qed

text \<open>
  C24: Reading from the first sequence of an accepted append returns its records in order, record by record, when none of them
  has an empty payload. An append accepts records with an empty payload as well, but their rows carry the hash 0 and not that of the empty
  payload: if there is one among the records, the read ends in \<open>ErrCorruptState\<close>.
\<close>

theorem append_reads_back:
  assumes "ordered_engine eng" "log_ok eng d l rows leo" "ao_Mode opts = AppendStrict" "list_all record_fits records"
    and "unat leo + length records < 2 ^ 64" "records \<noteq> []"
    and "Append eng d l records opts now = (Inr res, d', l')"
  shows "map_sum (\<lambda>e. e) (map message_view) (Read eng d' l' (leo + 1) no_limit) =
    (if list_all (\<lambda>r. rc_Payload r \<noteq> []) records then Inr (appended_view (leo + 1) records) else Inl DBErrCorruptState)"
  by (rule append_reads_back_aux) (rule assms)+

lemma demo_append_empty:
  "\<exists>d' l'. Append list_engine [] demo_log [demo_record 7 []] strict 5 = (Inr \<lparr>ar_BaseSeq = 1, ar_LastSeq = 1, ar_Count = 1\<rparr>, d', l')"
proof -
  have "list_all record_fits [demo_record 7 []]"
    by (simp add: demo_record_def record_fits_def fits_key_def maxStringLen_def)
  moreover have "accepts strict demo_log Map.empty 0 5 [demo_record 7 []]"
    by (simp add: accepts_def strict_def demo_record_def log_ids_def log_pairs_def row_pair_def)
  ultimately show ?thesis
    using list_engine.Append_held [OF demo_ok _, of strict "[demo_record 7 []]" 5] list_commits
    by (simp add: strict_def split: prod.splits)
qed

lemma demo_append:
  "\<exists>d' l'. Append list_engine [] demo_log demo_records strict 5 = (Inr \<lparr>ar_BaseSeq = 1, ar_LastSeq = 2, ar_Count = 2\<rparr>, d', l')
    \<and> log_ok list_engine d' l' (add_rows Map.empty (new_rows demo_log 5 1 demo_records)) 2"
  using list_engine.Append_held [OF demo_ok _ demo_fits(1), of strict 5] demo_log_accepts [of 5] list_commits
  by (simp add: strict_def demo_records_def split: prod.splits)

lemma append_reads_back_witness:
  "(case Append list_engine [] demo_log demo_records strict 5 of (res, d', l') \<Rightarrow>
      map_sum (\<lambda>e. e) (map message_view) (Read list_engine d' l' 1 no_limit) =
        Inr [(1, 7, [117], [110, 7], [1]), (2, 8, [117], [110, 8], [2, 3])])
    \<and> (case Append list_engine [] demo_log [demo_record 7 []] strict 5 of (res, d', l') \<Rightarrow>
      res = Inr \<lparr>ar_BaseSeq = 1, ar_LastSeq = 1, ar_Count = 1\<rparr>
      \<and> map_sum (\<lambda>e. e) (map message_view) (Read list_engine d' l' 1 no_limit) = Inl DBErrCorruptState)"
proof -
  note R = append_reads_back [OF list_engine.ordered_engine_axioms demo_ok]
  obtain d' l' where a1: "Append list_engine [] demo_log demo_records strict 5 = (Inr \<lparr>ar_BaseSeq = 1, ar_LastSeq = 2, ar_Count = 2\<rparr>, d', l')"
    using demo_append by blast
  from R [OF _ demo_fits(1) _ demo_fits(3) a1] demo_fits(2)
  have "map_sum (\<lambda>e. e) (map message_view) (Read list_engine d' l' 1 no_limit) = Inr (appended_view 1 demo_records)"
    by (simp add: strict_def demo_records_def)
  also have "appended_view 1 demo_records = [(1, 7, [117], [110, 7], [1]), (2, 8, [117], [110, 8], [2, 3])]"
    by (simp add: demo_records_def demo_record_def)
  moreover obtain d2 l2 where a: "Append list_engine [] demo_log [demo_record 7 []] strict 5
      = (Inr \<lparr>ar_BaseSeq = 1, ar_LastSeq = 1, ar_Count = 1\<rparr>, d2, l2)" using demo_append_empty by blast
  have "map_sum (\<lambda>e. e) (map message_view) (Read list_engine d2 l2 1 no_limit) = Inl DBErrCorruptState"
    using R [OF _ _ _ _ a] by (simp add: strict_def demo_record_def record_fits_def fits_key_def maxStringLen_def)
  ultimately show ?thesis by (simp add: a1 a)
qed

lemma append_reopen_aux:
  assumes e: "ordered_engine eng" and ok: "log_ok eng d l rows leo" and m: "ao_Mode opts = AppendStrict"
    and r: "list_all record_fits records" "unat leo + length records < 2 ^ 64" "records \<noteq> []"
    and st: "LoadRetentionState eng d l = Inr st" "retained st \<le> leo"
    and a: "Append eng d l records opts now = (Inr res, d', l')" and n: "NewChannelLog (cl_key l) (cl_id l) = Some l2"
  shows "log_ok eng d' l2 (add_rows rows (new_rows l now (leo + 1) records)) (ar_LastSeq res)"
proof -
  note h = ordered_engine.Append_held [OF e ok m r(1,2), of now]
  have acc: "accepts opts l rows leo now records" and c: "eg_Commit eng d (append_batch l now leo records) = Some d'"
    and res: "ar_LastSeq res = leo + of_nat (length records)"
    using h a r(3) by (auto split: if_splits)
  have l2: "l2 = reopen l" using n reopen_new [OF log_okD(1) [OF ok]] by simp
  show ?thesis
    using ordered_engine.append_durable [OF e ok r st _ c] acc m res by (simp add: accepts_def l2)
qed

text \<open>
  C16: The frontier of an accepted append is durable: the handle of a reopened store recovers it, and the log with it.
\<close>

theorem append_survives_reopen:
  assumes "ordered_engine eng" "log_ok eng d l rows leo" "ao_Mode opts = AppendStrict" "list_all record_fits records"
    and "unat leo + length records < 2 ^ 64" "records \<noteq> []"
    and "LoadRetentionState eng d l = Inr st" "retained st \<le> leo"
    and "Append eng d l records opts now = (Inr res, d', l')" "NewChannelLog (cl_key l) (cl_id l) = Some l2"
  shows "log_ok eng d' l2 (add_rows rows (new_rows l now (leo + 1) records)) (ar_LastSeq res)"
  by (rule append_reopen_aux) (rule assms)+

text \<open>The state after the example's append.\<close>

definition demo_rows :: rows where
  "demo_rows = add_rows Map.empty (new_rows demo_log 5 1 demo_records)"

lemma demo_store:
  "LoadRetentionState list_engine [] demo_log = Inr None" "NewChannelLog (cl_key demo_log) (cl_id demo_log) = Some demo_log"
  using log_okD(1) [OF demo_ok] new_log_cache [OF _ demo_new] demo_new
  by (simp_all add: load_retention cache_ok_def list_engine_def fits_key_def maxStringLen_def)

lemma append_survives_reopen_witness: "\<exists>d. log_ok list_engine d demo_log demo_rows 2"
proof -
  obtain d l where a: "Append list_engine [] demo_log demo_records strict 5 = (Inr \<lparr>ar_BaseSeq = 1, ar_LastSeq = 2, ar_Count = 2\<rparr>, d, l)"
    using demo_append by blast
  show ?thesis
    using append_survives_reopen [OF list_engine.ordered_engine_axioms demo_ok _ demo_fits(1) _ demo_fits(3) demo_store(1) _ a demo_store(2)]
    by (auto simp: demo_rows_def strict_def demo_records_def retained_def)
qed

lemma demo_state: "\<exists>d. log_ok list_engine d demo_log demo_rows 2 \<and> LoadRetentionState list_engine d demo_log = Inr None"
proof -
  obtain d where c: "eg_Commit list_engine [] (append_batch demo_log 5 0 demo_records) = Some d" using list_commits by blast
  have fr: "fresh True Map.empty {} {} (new_rows demo_log 5 (0 + 1) demo_records)" using demo_fresh by simp
  have "log_ok list_engine d (reopen demo_log) demo_rows 2"
    using list_engine.append_durable [OF demo_ok demo_fits(1) _ demo_fits(3) demo_store(1) _ fr c]
    by (simp add: demo_rows_def demo_records_def retained_def)
  moreover have "reopen demo_log = demo_log" using reopen_new [OF log_okD(1) [OF demo_ok]] demo_store(2) by simp
  ultimately show ?thesis
    using list_engine.append_retention [OF log_okD(1) [OF demo_ok] c, of demo_log] demo_store(1) by auto
qed

lemma demo_readable: "all_readable (rows_from demo_rows s)"
  unfolding all_readable_def list_all_iff rows_from_set demo_rows_def
  by (auto simp: demo_records_def demo_record_def intro!: new_row_readable split: if_splits)

lemma read_page_aux:
  assumes "ordered_engine eng" "log_ok eng d l rows leo" "s = (if from = 0 then 1 else from)" "all_readable (rows_from rows s)"
  shows "Read eng d l from opts = Inr (take_messages (\<lambda>m. length (mg_Payload m)) opts [] 0 (map messageFromRow (rows_from rows s)))"
proof -
  have t: "takeWhile (\<lambda>r. within 0 (mr_MessageSeq r)) (rows_from rows s) = rows_from rows s" by (simp add: takeWhile_eq_all_conv within_def)
  show ?thesis
    using assms(4) read_rows_take [of "rows_from rows s" messageFromRow "\<lambda>m. length (mg_Payload m)" opts 0 "[]" 0]
    unfolding ordered_engine.Read_held [OF assms(1) log_okD(2) [OF assms(2)]] assms(3) [symmetric] by (simp add: all_readable_def list_all_iff t)
qed

section \<open>Reading\<close>

text \<open>
  A read returns the messages of the log from the given sequence on, in order: as many as the limit on their number allows, and
  up to the limit on their bytes, with the first one always included.
\<close>

lemma read_page:
  assumes "ordered_engine eng" "log_ok eng d l rows leo" "s = (if from = 0 then 1 else from)" "all_readable (rows_from rows s)"
  shows "Read eng d l from opts = Inr (take_messages (\<lambda>m. length (mg_Payload m)) opts [] 0 (map messageFromRow (rows_from rows s)))"
  by (rule read_page_aux [OF assms])

lemma demo_rows_from: "rows_from demo_rows 1 = new_rows demo_log 5 1 demo_records"
proof -
  have b: "unat (1 :: u64) + length demo_records \<le> 2 ^ 64" by (simp add: demo_records_def)
  show ?thesis
    unfolding demo_rows_def
    by (rule rows_from_added [OF new_rows_sorted [OF b]]) (use new_rows_range [OF b] in \<open>auto simp: word_le_nat_alt\<close>)
qed

text \<open>
  C8: Truncation from a sequence removes exactly the rows from there on, with their index entries, and sets the frontier before it;
  when one of the rows cannot be read or the engine fails, nothing changes.
\<close>

theorem truncate_exact:
  assumes "ordered_engine eng" "log_ok eng d l rows leo" "s = (if fromSeq = 0 then 1 else fromSeq)"
  shows "case TruncateFrom eng d l fromSeq of (err, d', l') \<Rightarrow>
    if leo < s then err = None \<and> d' = d \<and> log_ok eng d' l' rows leo
    else if all_readable (rows_from rows s) \<and> eg_Commit eng d (delete_batch (cl_key l) (rows_from rows s) @ stageCatalog l) \<noteq> None
    then err = None \<and> log_ok eng d' l' (rows |` {t. t < s}) (s - 1)
      \<and> eg_Commit eng d (delete_batch (cl_key l) (rows_from rows s) @ stageCatalog l) = Some d' \<and> cl_key l' = cl_key l
    else err \<noteq> None \<and> d' = d \<and> log_ok eng d' l' rows leo"
  by (rule ordered_engine.TruncateFrom_held [OF assms])

lemma truncate_exact_witness:
  "\<exists>d. case TruncateFrom list_engine d demo_log 2 of (err, d', l') \<Rightarrow> err = None \<and> log_ok list_engine d' l' (demo_rows |` {t. t < 2}) 1"
proof -
  obtain d where "log_ok list_engine d demo_log demo_rows 2" using demo_state by blast
  from truncate_exact [OF list_engine.ordered_engine_axioms this, of 2 2] show ?thesis
    using demo_readable list_commits by (intro exI [of _ d]) (auto split: prod.splits)
qed

text \<open>
  C17: Trimming removes exactly a prefix of the rows up to the boundary, within its limits, and never loses the frontier: the next append
  continues behind both the log and the boundary, also after the store is reopened. A failed trim changes nothing.
\<close>

theorem trim_keeps_frontier:
  assumes "ordered_engine eng" "log_ok eng d l rows leo" "LoadRetentionState eng d l = Inr st" "through \<noteq> 0"
  shows "case TrimPrefixThroughLimit eng d l through opts of (res, d', l') \<Rightarrow>
    (case res of
       Inl e \<Rightarrow> d' = d \<and> log_ok eng d' l' rows leo
     | Inr r \<Rightarrow>
         let del = trimmed rows (trim_start st) through opts
         in tr_Deleted r = length del \<and> log_ok eng d' l' (del_rows rows del) (frontier_after_trim leo through st)
            \<and> recoverLEO eng d' l' = Inr (frontier_after_trim leo through st))"
  by (rule ordered_engine.Trim_held [OF assms])

lemma trim_keeps_frontier_witness:
  "\<exists>d. case TrimPrefixThroughLimit list_engine d demo_log 1 \<lparr>to_MaxMessages = 0, to_MaxBytes = 0\<rparr> of (res, d', l') \<Rightarrow>
    (case res of Inl e \<Rightarrow> d' = d | Inr r \<Rightarrow> recoverLEO list_engine d' l' = Inr 2)"
proof -
  obtain d where d: "log_ok list_engine d demo_log demo_rows 2" "LoadRetentionState list_engine d demo_log = Inr None" using demo_state by blast
  from trim_keeps_frontier [OF list_engine.ordered_engine_axioms d, of 1 "\<lparr>to_MaxMessages = 0, to_MaxBytes = 0\<rparr>"] show ?thesis
    by (intro exI [of _ d]) (auto simp: Let_def frontier_after_trim_def retained_def split: prod.splits sum.splits)
qed

section \<open>Lookups\<close>

text \<open>
  C22: Looking a message up by its id, or by its sender and client number, gives what a search through the rows of the log would
  find.
\<close>

theorem lookups_agree:
  assumes "ordered_engine eng" "log_ok eng d l rows leo" "all_readable (rows_from rows 0)" "mid \<noteq> 0"
    and "ik_FromUID ik \<noteq> []" "ik_ClientMsgNo ik \<noteq> []" "fits_key (ik_FromUID ik)" "fits_key (ik_ClientMsgNo ik)"
  shows "GetByMessageID eng d l mid = Inr (map_option messageFromRow (find_id rows mid))
    \<and> LookupIdempotency eng d l ik = Inr (map_option hit_of (find_pair rows ik))"
  using ordered_engine.GetByMessageID_held [OF assms(1-4)] ordered_engine.LookupIdempotency_held [OF assms(1-3) assms(5-8)] by simp

lemma demo_rows_all: "rows_from demo_rows 0 = new_rows demo_log 5 1 demo_records"
proof -
  have b: "unat (1 :: u64) + length demo_records \<le> 2 ^ 64" by (simp add: demo_records_def)
  show ?thesis
    unfolding demo_rows_def by (rule rows_from_added [OF new_rows_sorted [OF b]]) auto
qed

lemma lookups_agree_witness:
  "\<exists>d. map_sum (\<lambda>e. e) (map_option mg_MessageSeq) (GetByMessageID list_engine d demo_log 8) = Inr (Some 2)
    \<and> map_sum (\<lambda>e. e) (map_option ih_MessageID) (LookupIdempotency list_engine d demo_log \<lparr>ik_FromUID = [117], ik_ClientMsgNo = [110, 7]\<rparr>) = Inr (Some 7)"
proof -
  obtain d where d: "log_ok list_engine d demo_log demo_rows 2" using demo_state by blast
  have "find_id demo_rows 8 = Some (new_row demo_log 5 2 (demo_record 8 [2, 3]))"
    "find_pair demo_rows \<lparr>ik_FromUID = [117], ik_ClientMsgNo = [110, 7]\<rparr> = Some (new_row demo_log 5 1 (demo_record 7 [1]))"
    by (simp_all add: find_id_def find_pair_def demo_rows_all demo_records_def demo_record_def)
  then show ?thesis
    using lookups_agree [OF list_engine.ordered_engine_axioms d demo_readable, of 8 "\<lparr>ik_FromUID = [117], ik_ClientMsgNo = [110, 7]\<rparr>"]
    by (intro exI [of _ d]) (simp add: messageFromRow_def hit_of_def demo_record_def fits_key_def maxStringLen_def)
qed

section \<open>Empty payloads\<close>

lemma empty_payload_aux:
  assumes e: "ordered_engine eng" and ok: "log_ok eng d l rows leo" and m: "ao_Mode opts = AppendStrict" and r: "record_fits r" "rc_Payload r = []"
    and b: "unat leo + 1 < 2 ^ 64" and a: "Append eng d l [r] opts now = (Inr res, d', l')"
  shows "GetBySeq eng d' l' (ar_LastSeq res) = Inl DBErrCorruptState"
proof -
  let ?q = "new_row l now (leo + 1) r"
  have res: "ar_LastSeq res = leo + 1" and fr: "accepts opts l rows leo now [r]"
    and ok': "log_ok eng d' l' (add_rows rows (new_rows l now (leo + 1) [r])) (leo + 1)"
    using ordered_engine.Append_held [OF e ok m, of "[r]" now] r(1) b a by (auto split: if_splits)
  have id: "rc_ID r \<noteq> 0" using fr by (simp add: accepts_def)
  have "unat (leo + 1) = unat leo + 1" using b by (simp add: unat_word_ariths)
  then have nz: "leo + 1 \<noteq> 0" by (metis Suc_eq_plus1 nat.distinct(1) unat_0)
  have "validateMaterializedMessageRow ?q = Some DBErrCorruptState" by (rule new_row_empty [OF r(2) id])
  then show ?thesis
    using ordered_engine.getRowBySeq_held [OF e log_okD(2) [OF ok'] nz] by (simp add: GetBySeq_def res bind_res_def)
qed

text \<open>
  A record with an empty payload is accepted by an append but cannot be read: its stored hash is 0, not the hash of the
  empty payload, and every later read of the row ends in \<open>ErrCorruptState\<close>.
\<close>

lemma empty_payload_unreadable:
  assumes "ordered_engine eng" "log_ok eng d l rows leo" "ao_Mode opts = AppendStrict" "record_fits r" "rc_Payload r = []"
    and "unat leo + 1 < 2 ^ 64" "Append eng d l [r] opts now = (Inr res, d', l')"
  shows "GetBySeq eng d' l' (ar_LastSeq res) = Inl DBErrCorruptState"
  by (rule empty_payload_aux [OF assms])

section \<open>Replication\<close>

text \<open>
  C25: Applying fetched records is one step: either the records' rows follow the frontier and the checkpoint sent with them, which
  does not point past the new frontier, is the stored one, or nothing changes.
\<close>

theorem fetch_is_atomic:
  assumes "ordered_engine eng" "log_ok eng d l rows leo" "list_all record_fits (af_Records req)"
    and "unat leo + length (af_Records req) < 2 ^ 64" "fresh True rows {} {} (new_rows l now (leo + 1) (af_Records req))"
  shows "case ApplyFetch eng d l req now of (res, d', l') \<Rightarrow>
    (case res of
       Inl e \<Rightarrow> d' = d \<and> log_ok eng d' l' rows leo
     | Inr _ \<Rightarrow> log_ok eng d' l' (add_rows rows (new_rows l now (leo + 1) (af_Records req))) (leo + of_nat (length (af_Records req)))
         \<and> (case af_Checkpoint req of
              None \<Rightarrow> LoadCheckpoint eng d' l' = LoadCheckpoint eng d l
            | Some c \<Rightarrow> LoadCheckpoint eng d' l' = Inr (Some c) \<and> cp_HW c \<le> leo + of_nat (length (af_Records req))))"
  by (rule ordered_engine.ApplyFetch_held [OF assms])

definition demo_fetch :: ApplyFetchRequest where
  "demo_fetch = \<lparr>af_BaseSeq = 1, af_Records = demo_records, af_Checkpoint = Some \<lparr>cp_Epoch = 1, cp_LogStartOffset = 0, cp_HW = 2\<rparr>,
     af_EpochPoint = None\<rparr>"

lemma fetch_is_atomic_witness:
  "case ApplyFetch list_engine [] demo_log demo_fetch 5 of (res, d', l') \<Rightarrow>
    (case res of Inl e \<Rightarrow> d' = [] | Inr _ \<Rightarrow> LoadCheckpoint list_engine d' l' = Inr (Some \<lparr>cp_Epoch = 1, cp_LogStartOffset = 0, cp_HW = 2\<rparr>))"
  using fetch_is_atomic [OF list_engine.ordered_engine_axioms demo_ok, of demo_fetch 5] demo_fits(1) demo_fresh
  by (simp add: demo_fetch_def demo_records_def split: prod.splits sum.splits)

text \<open>
  A monotonic store of a checkpoint succeeds only within the visible part of the log and not behind the stored checkpoint in any component; what
  it stored is what is loaded, and a refusal changes nothing.
\<close>

lemma checkpoint_monotone:
  assumes "ordered_engine eng" "cache_ok l"
  shows "case StoreCheckpointMonotonic eng d l c visibleHW leo of (err, d') \<Rightarrow>
    (case err of
       Some e \<Rightarrow> d' = d
     | None \<Rightarrow> LoadCheckpoint eng d' l = Inr (Some c) \<and> cp_LogStartOffset c \<le> cp_HW c \<and> cp_HW c \<le> visibleHW \<and> cp_HW c \<le> leo
         \<and> (case LoadCheckpoint eng d l of Inr (Some cur) \<Rightarrow> checkpoint_le cur c | Inr None \<Rightarrow> True | Inl e \<Rightarrow> False))"
  using ordered_engine.StoreCheckpoint_held [OF assms, where d = d and cp = c] validate_monotonic [of eng d l c visibleHW leo]
  by (cases "validateCheckpointMonotonic eng d l c visibleHW leo")
    (auto simp: StoreCheckpointMonotonic_def split: prod.splits option.splits)

section \<open>The catalog\<close>

text \<open>
  Catalog keys order channels by length first, but a page drops the channels that are not above the cursor
  byte by byte: the page after \<open>b\<close> misses \<open>aa\<close>, which the full listing has.
\<close>

lemma catalog_lengths: "put16 1 = [0, 1]" "put16 2 = [0,2]" "get16 [0, 1, 98] = Some (1, [98])"  "get16 [0, 2, 97, 97] = Some (2, [97, 97])" 
 "get16 [0, 1, 98, 2] = Some (1, [98, 2])"  "get16 [0, 2, 97, 97, 2] = Some (2, [97, 97, 2])" by code_simp+

lemma catalog_demo_keys: "encodeCatalogKey [98] = Some [1,0,19,0,1,98]" "encodeCatalogKey [97,97] = Some [1,0,19,0,2,97,97]"
  by (simp_all add: encode_keys fits_key_def maxStringLen_def catalog_key_def channel_bytes_def key_consts catalog_lengths)

lemma catalog_demo_prefix: "encodeCatalogPrefix = Some [1,0,19]" by (simp add: encodeCatalogPrefix_def build_simps key_consts)

lemma catalog_demo_end: "span_End (NewPrefixSpan [1,0,19]) = [1,0,20]" by code_simp

lemma catalog_demo_values: "encodeCatalogValue \<lparr>ci_ID = [98], ci_Type = 2\<rparr> = Some [0,1,98,2]" "encodeCatalogValue \<lparr>ci_ID = [97,97], ci_Type = 2\<rparr> = Some [0,2,97,97,2]"
  by (simp_all add: encodeCatalogValue_def AppendString_def maxStringLen_def catalog_lengths)

lemma catalog_demo_decode_keys: "decodeCatalogKey [1,0,19,0,1,98] = Some (Some [98])" "decodeCatalogKey [1,0,19,0,2,97,97] = Some (Some [97,97])"
  by (simp_all add: decodeCatalogKey_def catalog_demo_prefix ReadString_def HasPrefix_def catalog_lengths)

lemma catalog_demo_decode_values: "decodeCatalogValue [0,1,98,2] = Inr \<lparr>ci_ID = [98], ci_Type = 2\<rparr>" "decodeCatalogValue [0,2,97,97,2] = Inr \<lparr>ci_ID = [97,97], ci_Type = 2\<rparr>"
  by (simp_all add: decodeCatalogValue_def ReadString_def catalog_lengths)

definition demo_catalog :: "(key \<times> u8 list) list" where
  "demo_catalog = map (\<lambda>ck. (the (encodeCatalogKey ck), the (encodeCatalogValue \<lparr>ci_ID = ck, ci_Type = 2\<rparr>))) [[98], [97, 97]]"

lemma catalog_demo_scans: "list_scan demo_catalog [1,0,19] [1,0,20] = demo_catalog" "list_scan demo_catalog [1,0,19,0,1,98] [1,0,20] = demo_catalog"
  by (simp_all add: list_scan_def demo_catalog_def catalog_demo_keys catalog_demo_values)

lemma catalog_page_skips:
  "map_sum (\<lambda>e. e) (map fst) (ListChannels list_engine demo_catalog) = Inr [[98], [97, 97]]"
  "ListChannelsPage list_engine demo_catalog [] 1 = Inr ([([98], \<lparr>ci_ID = [98], ci_Type = 2\<rparr>)], [98], True)"
  "ListChannelsPage list_engine demo_catalog [98] 1 = Inr ([], [], False)"
  unfolding ListChannels_def ListChannelsPage_def catalog_demo_prefix catalog_demo_keys
    apply (simp_all add: key_or_panic_def bind_res_def catalog_demo_end list_engine_def catalog_demo_scans)
   apply (simp_all add: demo_catalog_def catalog_demo_keys catalog_demo_values catalog_demo_decode_keys catalog_demo_decode_values bind_res_def)
  done

section \<open>Stored rows\<close>

text \<open>
  For both families of a row the encoder of the append path, which computes lengths first and fills a buffer of the engine, writes the bytes that
  the reference encoder over the column writer writes, whatever the buffer held, and decoding the two values gives the normalized row back.
\<close>

lemma row_encoders_agree:
  assumes "length hdst = encodedMessageHeaderLen row" "length pdst = encodedMessagePayloadLen row" "row_fits (normalizeMessageRow row)"
    and "mr_MessageID row \<noteq> 0"
  shows "case (encodeMessageHeaderTo hdst hk row, encodeMessagePayloadTo pdst pk row) of
      (Some (Inr h), Some (Inr p)) \<Rightarrow>
        encodeMessageHeader hk row = Inr h \<and> encodeMessagePayload pk row = Inr p
        \<and> bind_res (decodeMessageHeader hk h (zero_row\<lparr>mr_MessageSeq := mr_MessageSeq row\<rparr>)) (decodeMessagePayload pk p) = Inr (normalizeMessageRow row)
    | _ \<Rightarrow> False"
proof -
  let ?n = "normalizeMessageRow row"
  obtain h p where e: "encodeMessageHeader hk row = Inr h" "encodeMessagePayload pk row = Inr p"
    using assms(4) by (simp add: header_writes payload_writes Wrap_total)
  have "row_fits row" using assms(3) by (simp add: row_fits_def normalizeMessageRow_def Let_def split: if_splits)
  moreover have "?n\<lparr>mr_MessageSeq := mr_MessageSeq row, mr_Payload := mr_Payload row\<rparr> = ?n"
    by (cases row) (simp add: normalizeMessageRow_def Let_def)
  ultimately show ?thesis
    using header_encoders [OF assms(1)] payload_encoders [OF assms(2)] header_decodes [OF assms(3) e(1)] payload_decodes [OF _ e(2)]
    by (simp add: e bind_res_def zero_row_def)
qed

end
