(* ===== verification/MetaTypes.thy ===== *)
theory MetaTypes
  imports StoreEngine
begin

text \<open>
  The rows of the metadata store (\<open>pkg/db/meta\<close>) as they travel in commands and lie in tables. An \<open>int64\<close> is its two's
  complement in 64 bits, a string a list of bytes.
\<close>

section \<open>Rows\<close>

record User =
  us_UID :: "u8 list"
  us_Token :: "u8 list"
  us_DeviceFlag :: u64
  us_DeviceLevel :: u64

record Device =
  dv_UID :: "u8 list"
  dv_DeviceFlag :: u64
  dv_Token :: "u8 list"
  dv_DeviceLevel :: u64

record Channel =
  cn_ChannelID :: "u8 list"
  cn_ChannelType :: u64
  cn_Ban :: u64
  cn_Disband :: u64
  cn_SendBan :: u64
  cn_AllowStranger :: u64
  cn_Large :: u64
  cn_SubscriberMutationVersion :: u64
  cn_SubscriberCount :: u64

record ChannelRuntimeMeta =
  rm_ChannelID :: "u8 list"
  rm_ChannelType :: u64
  rm_ChannelEpoch :: u64
  rm_LeaderEpoch :: u64
  rm_RouteGeneration :: u64
  rm_Replicas :: "u64 list"
  rm_ISR :: "u64 list"
  rm_Leader :: u64
  rm_MinISR :: u64
  rm_Status :: u8
  rm_Features :: u64
  rm_LeaseUntilMS :: u64
  rm_RetentionThroughSeq :: u64
  rm_RetentionUpdatedAtMS :: u64
  rm_WriteFenceToken :: "u8 list"
  rm_WriteFenceVersion :: u64
  rm_WriteFenceReason :: u8
  rm_WriteFenceUntilMS :: u64

record ChannelRetentionAdvance =
  ra_ChannelID :: "u8 list"
  ra_ChannelType :: u64
  ra_ExpectedChannelEpoch :: u64
  ra_ExpectedLeaderEpoch :: u64
  ra_ExpectedLeader :: u64
  ra_ExpectedLeaseUntilMS :: u64
  ra_RetentionThroughSeq :: u64
  ra_RetentionUpdatedAtMS :: u64

record UserChannelMembership =
  um_UID :: "u8 list"
  um_ChannelID :: "u8 list"
  um_ChannelType :: u64
  um_JoinSeq :: u64
  um_UpdatedAt :: u64

record ChannelLatest =
  lt_ChannelID :: "u8 list"
  lt_ChannelType :: u64
  lt_LastMessageID :: u64
  lt_LastMessageSeq :: u64
  lt_LastAt :: u64
  lt_FromUID :: "u8 list"
  lt_ClientMsgNo :: "u8 list"
  lt_Payload :: "u8 list"
  lt_UpdatedAt :: u64

type_synonym ConversationKind = u8

definition ConversationKindNormal :: ConversationKind where "ConversationKindNormal = 1"
definition ConversationKindCMD :: ConversationKind where "ConversationKindCMD = 2"

record ConversationState =
  st_UID :: "u8 list"
  st_Kind :: ConversationKind
  st_ChannelID :: "u8 list"
  st_ChannelType :: u64
  st_ReadSeq :: u64
  st_DeletedToSeq :: u64
  st_ActiveAt :: u64
  st_UpdatedAt :: u64
  st_SparseActive :: bool

record ConversationActivePatch =
  pa_UID :: "u8 list"
  pa_Kind :: ConversationKind
  pa_ChannelID :: "u8 list"
  pa_ChannelType :: u64
  pa_ReadSeq :: u64
  pa_DeletedToSeq :: u64
  pa_ActiveAt :: u64
  pa_UpdatedAt :: u64
  pa_MessageSeq :: u64
  pa_SparseActive :: bool
  pa_SparseActiveSet :: bool

record ConversationDelete =
  cd_UID :: "u8 list"
  cd_Kind :: ConversationKind
  cd_ChannelID :: "u8 list"
  cd_ChannelType :: u64
  cd_DeletedToSeq :: u64
  cd_UpdatedAt :: u64

text \<open>The rows of the older encoders, before conversations had kinds.\<close>

record UserConversationState =
  uc_UID :: "u8 list"
  uc_ChannelID :: "u8 list"
  uc_ChannelType :: u64
  uc_ReadSeq :: u64
  uc_DeletedToSeq :: u64
  uc_ActiveAt :: u64
  uc_UpdatedAt :: u64
  uc_SparseActive :: bool

record UserConversationActivePatch =
  up_UID :: "u8 list"
  up_ChannelID :: "u8 list"
  up_ChannelType :: u64
  up_ReadSeq :: u64
  up_DeletedToSeq :: u64
  up_ActiveAt :: u64
  up_UpdatedAt :: u64
  up_MessageSeq :: u64
  up_SparseActive :: bool
  up_SparseActiveSet :: bool

record UserConversationDelete =
  ud_UID :: "u8 list"
  ud_ChannelID :: "u8 list"
  ud_ChannelType :: u64
  ud_DeletedToSeq :: u64
  ud_UpdatedAt :: u64

record CMDConversationState =
  mc_UID :: "u8 list"
  mc_ChannelID :: "u8 list"
  mc_ChannelType :: u64
  mc_ReadSeq :: u64
  mc_DeletedToSeq :: u64
  mc_ActiveAt :: u64
  mc_UpdatedAt :: u64

record CMDConversationReadPatch =
  mr_UID :: "u8 list"
  mr_ChannelID :: "u8 list"
  mr_ChannelType :: u64
  mr_ReadSeq :: u64
  mr_UpdatedAt :: u64

record ConversationKey =
  ck_ChannelID :: "u8 list"
  ck_ChannelType :: u64

record PluginUserBinding =
  pb_UID :: "u8 list"
  pb_PluginNo :: "u8 list"
  pb_CreatedAtMS :: u64
  pb_UpdatedAtMS :: u64

section \<open>The normal form of runtime metadata\<close>

fun dedup_sorted :: "u64 list \<Rightarrow> u64 list" where
  "dedup_sorted (x # y # xs) = (if x = y then dedup_sorted (y # xs) else x # dedup_sorted (y # xs))"
| "dedup_sorted xs = xs"

definition normalizeUint64Set :: "u64 list \<Rightarrow> u64 list" where
  "normalizeUint64Set values = (if values = [] then [] else dedup_sorted (sort_by (<) values))"

definition maxUint64_of :: "u64 list \<Rightarrow> u64" where
  "maxUint64_of values = foldl (\<lambda>out v. if out < v then v else out) 0 values"

definition normalizeChannelRuntimeMeta :: "ChannelRuntimeMeta \<Rightarrow> ChannelRuntimeMeta" where
  "normalizeChannelRuntimeMeta meta =
     (let meta = meta\<lparr>rm_Replicas := normalizeUint64Set (rm_Replicas meta), rm_ISR := normalizeUint64Set (rm_ISR meta)\<rparr>
      in if rm_RouteGeneration meta = 0
         then meta\<lparr>rm_RouteGeneration := maxUint64_of [rm_ChannelEpoch meta, rm_LeaderEpoch meta, rm_WriteFenceVersion meta, 1]\<rparr>
         else meta)"

lemma set_dedup_sorted [simp]: "set (dedup_sorted xs) = set xs"
  by (induction xs rule: dedup_sorted.induct) auto

lemma dedup_sorted_strict: "sorted xs \<Longrightarrow> sorted_wrt (<) (dedup_sorted xs)"
proof (induction xs rule: dedup_sorted.induct)
  case (1 x y xs)
  then show ?case by (auto simp: less_le)
qed auto

lemma dedup_sorted_id: "sorted_wrt (<) xs \<Longrightarrow> dedup_sorted xs = xs"
  by (induction xs rule: dedup_sorted.induct) auto

lemma normalize_set: "set (normalizeUint64Set vs) = set vs" "sorted_wrt (<) (normalizeUint64Set vs)"
  by (simp_all add: normalizeUint64Set_def dedup_sorted_strict)

lemma normalize_set_id: "sorted_wrt (<) vs \<Longrightarrow> normalizeUint64Set vs = vs"
proof -
  assume s: "sorted_wrt (<) vs"
  then have "sort vs = vs" by (simp add: sorted_sort_id strict_sorted_imp_sorted)
  with s show ?thesis by (simp add: normalizeUint64Set_def dedup_sorted_id)
qed

lemma normalize_set_idem [simp]: "normalizeUint64Set (normalizeUint64Set vs) = normalizeUint64Set vs"
  by (rule normalize_set_id) (rule normalize_set)

lemma max_route_pos: "maxUint64_of [a, b, c, 1] \<noteq> 0"
  by (auto simp: maxUint64_of_def)

lemma normalize_meta_idem [simp]: "normalizeChannelRuntimeMeta (normalizeChannelRuntimeMeta m) = normalizeChannelRuntimeMeta m"
  using max_route_pos [of "rm_ChannelEpoch m" "rm_LeaderEpoch m" "rm_WriteFenceVersion m"]
  by (simp add: normalizeChannelRuntimeMeta_def Let_def)

end
