(* ===== verification/SlotTLV.thy ===== *)
theory SlotTLV
  imports MetaTypes
begin

text \<open>
  The fields of the replicated slot commands (\<open>pkg/slot/fsm/command.go\<close>): a tag, the length of the value in four bytes, the
  value. The writers, the reader, and the loop that every decoder of a command runs over its fields.
\<close>

section \<open>Writers\<close>

definition headerSize :: nat where "headerSize = 2"
definition tlvOverhead :: nat where "tlvOverhead = 5"

text \<open>
  Two writers fill a buffer of the announced size; they return the new offset, and a write out of range panics. The
  others append.
\<close>

definition putStringField :: "u8 list \<Rightarrow> nat \<Rightarrow> u8 \<Rightarrow> u8 list \<Rightarrow> (u8 list \<times> nat) option" where
  "putStringField buf off tag s =
     Option.bind (put_at buf off [tag]) (\<lambda>buf.
     Option.bind (put_at buf (off + 1) (put32 (of_nat (length s)))) (\<lambda>buf.
     map_option (\<lambda>buf. (buf, off + tlvOverhead + length s)) (copy_at buf (off + tlvOverhead) s)))"

definition putInt64Field :: "u8 list \<Rightarrow> nat \<Rightarrow> u8 \<Rightarrow> u64 \<Rightarrow> (u8 list \<times> nat) option" where
  "putInt64Field buf off tag v =
     Option.bind (put_at buf off [tag]) (\<lambda>buf.
     Option.bind (put_at buf (off + 1) (put32 8)) (\<lambda>buf.
     map_option (\<lambda>buf. (buf, off + tlvOverhead + 8)) (put_at buf (off + tlvOverhead) (put64 v))))"

definition appendBytesTLVField :: "u8 list \<Rightarrow> u8 \<Rightarrow> u8 list \<Rightarrow> u8 list" where
  "appendBytesTLVField dst tag val = dst @ tag # put32 (of_nat (length val)) @ val"

definition appendStringTLVField :: "u8 list \<Rightarrow> u8 \<Rightarrow> u8 list \<Rightarrow> u8 list" where
  "appendStringTLVField dst tag val = dst @ tag # put32 (of_nat (length val)) @ val"

definition appendInt64TLVField :: "u8 list \<Rightarrow> u8 \<Rightarrow> u64 \<Rightarrow> u8 list" where
  "appendInt64TLVField dst tag val = dst @ [tag, 0, 0, 0, 8] @ put64 val"

definition appendUint64TLVField :: "u8 list \<Rightarrow> u8 \<Rightarrow> u64 \<Rightarrow> u8 list" where
  "appendUint64TLVField dst tag val = dst @ [tag, 0, 0, 0, 8] @ put64 val"

definition appendBoolTLVField :: "u8 list \<Rightarrow> u8 \<Rightarrow> bool \<Rightarrow> u8 list" where
  "appendBoolTLVField dst tag val = dst @ [tag, 0, 0, 0, 1] @ [if val then 1 else 0]"

section \<open>Reading\<close>

definition readTLV :: "u8 list \<Rightarrow> db_error + u8 \<times> u8 list \<times> nat" where
  "readTLV data =
     (if length data < tlvOverhead then Inl DBErrCorruptValue
      else
        let tag = hd data;
            len = be_val (take 4 (drop 1 data));
            end = tlvOverhead + len
        in if length data < end then Inl DBErrCorruptValue
           else Inr (tag, take len (drop tlvOverhead data), end))"

text \<open>The loop of the decoders: \<open>field\<close> is the switch over the tags.\<close>

function tlv_loop :: "(u8 \<Rightarrow> u8 list \<Rightarrow> 's \<Rightarrow> db_error + 's) \<Rightarrow> u8 list \<Rightarrow> 's \<Rightarrow> db_error + 's" where
  "tlv_loop field data s =
     (if data = [] then Inr s
      else case readTLV data of
        Inl e \<Rightarrow> Inl e
      | Inr (tag, val, n) \<Rightarrow>
          (case field tag val s of Inl e \<Rightarrow> Inl e | Inr s \<Rightarrow> tlv_loop field (drop n data) s))"
  by pat_completeness auto

termination
  by (relation "measure (\<lambda>(_, data, _). length data)") (auto simp: readTLV_def Let_def tlvOverhead_def split: if_splits)

declare tlv_loop.simps [simp del]

text \<open>The cases of the switches: values of eight bytes, and those with a further check.\<close>

definition u64_of :: "u8 list \<Rightarrow> u64" where
  "u64_of val = of_nat (be_val (take 8 val))"

definition uint64_field :: "u8 list \<Rightarrow> (u64 \<Rightarrow> 's) \<Rightarrow> db_error + 's" where
  "uint64_field val f = (if length val \<noteq> 8 then Inl DBErrCorruptValue else Inr (f (u64_of val)))"

definition uint8_field :: "u8 list \<Rightarrow> (u8 \<Rightarrow> 's) \<Rightarrow> db_error + 's" where
  "uint8_field val f =
     (if length val \<noteq> 8 then Inl DBErrCorruptValue
      else if u64_of val > 255 then Inl DBErrCorruptValue else Inr (f (ucast (u64_of val))))"

definition decodeBoolTLVValue :: "u8 list \<Rightarrow> db_error + bool" where
  "decodeBoolTLVValue val =
     (if length val \<noteq> 1 then Inl DBErrCorruptValue
      else if hd val = 0 then Inr False else if hd val = 1 then Inr True else Inl DBErrCorruptValue)"

definition decodeHashSlotTLVValue :: "u8 list \<Rightarrow> db_error + u16" where
  "decodeHashSlotTLVValue val =
     (if length val \<noteq> 8 then Inl DBErrCorruptValue
      else if u64_of val > 65535 then Inl DBErrCorruptValue else Inr (ucast (u64_of val)))"

definition validateConversationKind :: "ConversationKind \<Rightarrow> db_error option" where
  "validateConversationKind kind =
     (if kind = ConversationKindNormal \<or> kind = ConversationKindCMD then None else Some DBErrInvalidArgument)"

definition decodeConversationKindTLVValue :: "u8 list \<Rightarrow> db_error + ConversationKind" where
  "decodeConversationKindTLVValue val =
     (if length val \<noteq> 8 then Inl DBErrCorruptValue
      else if u64_of val > 255 then Inl DBErrCorruptValue
      else if validateConversationKind (ucast (u64_of val)) \<noteq> None then Inl DBErrCorruptValue
      else Inr (ucast (u64_of val)))"

section \<open>Sets and lists as values\<close>

definition encodeUint64Slice :: "u64 list \<Rightarrow> u8 list" where
  "encodeUint64Slice values = concat (map put64 values)"

fun slice_words :: "nat \<Rightarrow> u8 list \<Rightarrow> u64 list" where
  "slice_words 0 data = []"
| "slice_words (Suc n) data = u64_of data # slice_words n (drop 8 data)"

definition decodeUint64Slice :: "u8 list \<Rightarrow> db_error + u64 list" where
  "decodeUint64Slice data =
     (if data = [] then Inr []
      else if length data mod 8 \<noteq> 0 then Inl DBErrCorruptValue else Inr (slice_words (length data div 8) data))"

fun dedup_strings :: "u8 list list \<Rightarrow> u8 list list" where
  "dedup_strings (x # y # xs) = (if x = y then dedup_strings (y # xs) else x # dedup_strings (y # xs))"
| "dedup_strings xs = xs"

fun join_nul :: "u8 list list \<Rightarrow> u8 list" where
  "join_nul [] = []"
| "join_nul [x] = x"
| "join_nul (x # xs) = x @ 0 # join_nul xs"

fun split_nul :: "u8 list \<Rightarrow> u8 list \<Rightarrow> u8 list list" where
  "split_nul acc [] = [acc]"
| "split_nul acc (b # bs) = (if b = 0 then acc # split_nul [] bs else split_nul (acc @ [b]) bs)"

definition encodeStringSet :: "u8 list list \<Rightarrow> u8 list" where
  "encodeStringSet values = (if values = [] then [] else join_nul (dedup_strings (sort_by (<) values)))"

definition decodeStringSet :: "u8 list \<Rightarrow> u8 list list" where
  "decodeStringSet data = (if data = [] then [] else split_nul [] data)"

section \<open>What the readers make of the writers' bytes\<close>

definition tlv :: "u8 \<Rightarrow> u8 list \<Rightarrow> u8 list" where
  "tlv tag val = tag # put32 (of_nat (length val)) @ val"

lemma length_tlv [simp]: "length (tlv tag val) = tlvOverhead + length val"
  by (simp add: tlv_def tlvOverhead_def)

lemma tlv_not_Nil [simp]: "tlv tag val \<noteq> []"
  by (simp add: tlv_def)

definition fits_len :: "u8 list \<Rightarrow> bool" where
  "fits_len val \<longleftrightarrow> length val < 2 ^ 32"

lemma be_val_put32_nat: "be_val (put32 x) = unat x"
proof -
  have "unat x < 256 ^ 4" using unsigned_less [of x] by simp
  then show ?thesis by (simp add: put32_def be_val_be_bytes)
qed

lemma put32_8: "put32 8 = [0, 0, 0, 8]"
  by code_simp

lemma put32_1: "put32 1 = [0, 0, 0, 1]"
  by code_simp

lemma append_fields:
  "appendBytesTLVField dst tag val = dst @ tlv tag val"
  "appendStringTLVField dst tag val = dst @ tlv tag val"
  "appendInt64TLVField dst tag x = dst @ tlv tag (put64 x)"
  "appendUint64TLVField dst tag x = dst @ tlv tag (put64 x)"
  "appendBoolTLVField dst tag b = dst @ tlv tag [if b then 1 else 0]"
  by (simp_all add: appendBytesTLVField_def appendStringTLVField_def appendInt64TLVField_def appendUint64TLVField_def
      appendBoolTLVField_def tlv_def put32_8 put32_1)

lemma readTLV_tlv:
  assumes "fits_len val"
  shows "readTLV (tlv tag val @ rest) = Inr (tag, val, tlvOverhead + length val)"
proof -
  have "be_val (take 4 (put32 (of_nat (length val)) @ val @ rest)) = length val"
    using assms by (simp add: be_val_put32_nat fits_len_def unsigned_of_nat take_bit_nat_eq_self)
  then show ?thesis by (simp add: readTLV_def tlv_def tlvOverhead_def Let_def)
qed

lemma tlv_loop_Nil [simp]: "tlv_loop field [] s = Inr s"
  by (simp add: tlv_loop.simps)

lemma drop_tlv: "drop (tlvOverhead + length val) (tlv tag val @ rest) = rest"
  by (metis append_eq_conv_conj length_tlv)

lemma tlv_loop_tlv:
  assumes "fits_len val"
  shows "tlv_loop field (tlv tag val @ rest) s = bind_res (field tag val s) (tlv_loop field rest)"
  using readTLV_tlv [OF assms, of tag rest]
  by (subst tlv_loop.simps) (cases "field tag val s"; simp add: bind_res_def drop_tlv)

lemmas tlv_loop_last = tlv_loop_tlv [where rest = "[]", unfolded append_Nil2]

lemma fits_put64 [simp]: "fits_len (put64 x)" "fits_len [b]"
  by (simp_all add: fits_len_def)

lemma u64_of_put64 [simp]: "u64_of (put64 x @ rest) = x" "u64_of (put64 x) = x"
proof -
  have "unat x < 256 ^ 8" using unsigned_less [of x] by simp
  then have b: "be_val (put64 x) = unat x" by (simp add: put64_def be_val_be_bytes)
  then show "u64_of (put64 x @ rest) = x" "u64_of (put64 x) = x" by (simp_all add: u64_of_def)
qed

lemma uint64_field_put64 [simp]: "uint64_field (put64 x) f = Inr (f x)"
  by (simp add: uint64_field_def)

lemma widened_byte [simp]: "ucast (ucast (a :: u8) :: u64) = a" "\<not> 255 < (ucast (a :: u8) :: u64)"
proof -
  show "ucast (ucast a :: u64) = a" by (rule bit_word_eqI) (auto simp: bit_simps)
  have "unat a < 2 ^ 8" using unsigned_less [of a] by simp
  then show "\<not> 255 < (ucast a :: u64)" by (simp add: word_less_nat_alt unsigned_ucast_eq take_bit_nat_eq_self)
qed

lemma widened_u16 [simp]: "ucast (ucast (h :: u16) :: u64) = h" "\<not> 65535 < (ucast (h :: u16) :: u64)"
proof -
  show "ucast (ucast h :: u64) = h" by (rule bit_word_eqI) (auto simp: bit_simps)
  have "unat h < 2 ^ 16" using unsigned_less [of h] by simp
  then show "\<not> 65535 < (ucast h :: u64)" by (simp add: word_less_nat_alt unsigned_ucast_eq take_bit_nat_eq_self)
qed

lemma uint8_field_put64 [simp]: "uint8_field (put64 (ucast a)) f = Inr (f a)"
  by (simp add: uint8_field_def)

lemma decodeBool_byte [simp]: "decodeBoolTLVValue [if b then 1 else 0] = Inr b"
  by (simp add: decodeBoolTLVValue_def)

lemma decodeHashSlot_put64 [simp]: "decodeHashSlotTLVValue (put64 (ucast h)) = Inr h"
  by (simp add: decodeHashSlotTLVValue_def)

lemma decodeKind_put64: "validateConversationKind k = None \<Longrightarrow> decodeConversationKindTLVValue (put64 (ucast k)) = Inr k"
  by (simp add: decodeConversationKindTLVValue_def)

lemma slice_words_put: "slice_words (length vs) (concat (map put64 vs) @ rest) = vs"
  by (induction vs arbitrary: rest) simp_all

lemma length_slice: "length (concat (map put64 vs)) = 8 * length vs"
  by (induction vs) simp_all

lemma decodeUint64Slice_encode [simp]: "decodeUint64Slice (encodeUint64Slice vs) = Inr vs"
proof (cases vs)
  case (Cons v vs')
  then show ?thesis
    using slice_words_put [of vs "[]"] length_slice [of vs]
    by (cases "put64 v = []") (auto simp: decodeUint64Slice_def encodeUint64Slice_def dest: arg_cong [where f = length])
qed (simp add: decodeUint64Slice_def encodeUint64Slice_def)

lemma split_nul_join: "list_all (\<lambda>x. 0 \<notin> set x) (x # xs) \<Longrightarrow> split_nul acc (join_nul (x # xs)) = (acc @ x) # xs"
proof (induction xs arbitrary: acc x)
  case Nil
  have "0 \<notin> set x \<Longrightarrow> split_nul acc x = [acc @ x]" for acc by (induction x arbitrary: acc) auto
  then show ?case using Nil by simp
next
  case (Cons y ys)
  have "0 \<notin> set x \<Longrightarrow> split_nul acc (x @ 0 # bs) = (acc @ x) # split_nul [] bs" for acc bs by (induction x arbitrary: acc) auto
  then show ?case using Cons by simp
qed

lemma dedup_strings_set [simp]: "set (dedup_strings xs) = set xs"
  by (induction xs rule: dedup_strings.induct) auto

text \<open>A set of strings comes back sorted and without repetitions, unless one of them has a zero byte or the only one is empty.\<close>

lemma decodeStringSet_encode:
  assumes "list_all (\<lambda>x. 0 \<notin> set x \<and> x \<noteq> []) values"
  shows "decodeStringSet (encodeStringSet values) = dedup_strings (sort_by (<) values)"
proof (cases "dedup_strings (sort_by (<) values)")
  case Nil
  have "set (dedup_strings (sort_by (<) values)) = set values" by simp
  with Nil have "values = []" by simp
  then show ?thesis by (simp add: decodeStringSet_def encodeStringSet_def)
next
  case (Cons x xs)
  have s: "set (x # xs) = set values" using Cons [symmetric] by (simp only: dedup_strings_set set_sort_by)
  then have ok: "list_all (\<lambda>x. 0 \<notin> set x) (x # xs)" "x \<noteq> []" "values \<noteq> []" using assms by (auto simp: list_all_iff)
  have "join_nul (x # xs) \<noteq> []" using ok(2) by (cases xs) auto
  then show ?thesis
    using split_nul_join [OF ok(1), of "[]"] ok(3) unfolding decodeStringSet_def encodeStringSet_def Cons by simp
qed

section \<open>Writing into a buffer of the announced size\<close>

definition filled :: "u8 list \<Rightarrow> u8 list \<Rightarrow> (u8 list \<times> nat) option" where
  "filled out rest = Some (out @ rest, length out)"

lemma putStringField_end:
  assumes "tlvOverhead + length s \<le> length rest"
  shows "putStringField (out @ rest) (length out) tag s = filled (out @ tlv tag s) (drop (tlvOverhead + length s) rest)"
proof -
  let ?l = "put32 (of_nat (length s))"
  have 1: "put_at (out @ rest) (length out) [tag] = Some ((out @ [tag]) @ drop 1 rest)"
    using assms put_at_end [of "[tag]" rest out] by (simp add: tlvOverhead_def)
  have 2: "put_at ((out @ [tag]) @ drop 1 rest) (length out + 1) ?l = Some ((out @ [tag] @ ?l) @ drop 5 rest)"
    using assms put_at_end [of ?l "drop 1 rest" "out @ [tag]"] by (simp add: tlvOverhead_def)
  have 3: "copy_at ((out @ [tag] @ ?l) @ drop 5 rest) (length out + 5) s = Some ((out @ [tag] @ ?l @ s) @ drop (5 + length s) rest)"
    using assms copy_at_end [of s "drop 5 rest" "out @ [tag] @ ?l"] by (simp add: tlvOverhead_def add.commute)
  show ?thesis unfolding putStringField_def tlvOverhead_def 1 bind.bind_lunit 2 3 by (simp add: filled_def tlv_def tlvOverhead_def)
qed

lemma putInt64Field_end:
  assumes "tlvOverhead + 8 \<le> length rest"
  shows "putInt64Field (out @ rest) (length out) tag v = filled (out @ tlv tag (put64 v)) (drop (tlvOverhead + 8) rest)"
proof -
  have 1: "put_at (out @ rest) (length out) [tag] = Some ((out @ [tag]) @ drop 1 rest)"
    using assms put_at_end [of "[tag]" rest out] by (simp add: tlvOverhead_def)
  have 2: "put_at ((out @ [tag]) @ drop 1 rest) (length out + 1) (put32 8) = Some ((out @ [tag] @ put32 8) @ drop 5 rest)"
    using assms put_at_end [of "put32 8" "drop 1 rest" "out @ [tag]"] by (simp add: tlvOverhead_def)
  have 3: "put_at ((out @ [tag] @ put32 8) @ drop 5 rest) (length out + 5) (put64 v)
      = Some ((out @ [tag] @ put32 8 @ put64 v) @ drop 13 rest)"
    using assms put_at_end [of "put64 v" "drop 5 rest" "out @ [tag] @ put32 8"] by (simp add: tlvOverhead_def)
  show ?thesis unfolding putInt64Field_def tlvOverhead_def 1 bind.bind_lunit 2 3 by (simp add: filled_def tlv_def tlvOverhead_def)
qed

end
