(* ===== verification/SlotCommand.thy ===== *)
theory SlotCommand
  imports SlotTLV HashSlotTable
begin

text \<open>
  The replicated commands of a slot (\<open>pkg/slot/fsm/command.go\<close>, \<open>migration_cmds.go\<close>, \<open>plugin_binding_cmds.go\<close>,
  \<open>channel_migration_cmds.go\<close>): their encoders and decoders. A decoder keeps the row read so far together with the tags
  whose \<open>have\<close> flag is set. The commands of channel migrations carry JSON; its decoder is a parameter, what the code checks around it is modelled.
\<close>

section \<open>Types and tags\<close>

definition commandVersion :: u8 where "commandVersion = 1"
definition cmdTypeUpsertUser :: u8 where "cmdTypeUpsertUser = 1"
definition cmdTypeUpsertChannel :: u8 where "cmdTypeUpsertChannel = 2"
definition cmdTypeDeleteChannel :: u8 where "cmdTypeDeleteChannel = 3"
definition cmdTypeUpsertChannelRuntimeMeta :: u8 where "cmdTypeUpsertChannelRuntimeMeta = 4"
definition cmdTypeDeleteChannelRuntimeMeta :: u8 where "cmdTypeDeleteChannelRuntimeMeta = 5"
definition cmdTypeCreateUser :: u8 where "cmdTypeCreateUser = 6"
definition cmdTypeUpsertDevice :: u8 where "cmdTypeUpsertDevice = 7"
definition cmdTypeAddSubscribers :: u8 where "cmdTypeAddSubscribers = 8"
definition cmdTypeRemoveSubscribers :: u8 where "cmdTypeRemoveSubscribers = 9"
definition cmdTypeUpsertConversationStates :: u8 where "cmdTypeUpsertConversationStates = 10"
definition cmdTypeTouchConversationActiveAt :: u8 where "cmdTypeTouchConversationActiveAt = 11"
definition cmdTypeClearConversationActiveAt :: u8 where "cmdTypeClearConversationActiveAt = 12"
definition cmdTypeReservedConversationProjectionUpsert :: u8 where "cmdTypeReservedConversationProjectionUpsert = 13"
definition cmdTypeReservedConversationProjectionDelete :: u8 where "cmdTypeReservedConversationProjectionDelete = 14"
definition cmdTypeAdvanceChannelRetention :: u8 where "cmdTypeAdvanceChannelRetention = 15"
definition cmdTypeHideConversations :: u8 where "cmdTypeHideConversations = 16"
definition cmdTypeNoop :: u8 where "cmdTypeNoop = 19"
definition cmdTypeUpsertUserChannelMemberships :: u8 where "cmdTypeUpsertUserChannelMemberships = 44"
definition cmdTypeDeleteUserChannelMemberships :: u8 where "cmdTypeDeleteUserChannelMemberships = 45"
definition cmdTypeUpsertChannelLatest :: u8 where "cmdTypeUpsertChannelLatest = 46"
definition cmdTypeUpsertChannelLatestBatch :: u8 where "cmdTypeUpsertChannelLatestBatch = 47"
definition cmdTypeBindPluginUser :: u8 where "cmdTypeBindPluginUser = 42"
definition cmdTypeUnbindPluginUser :: u8 where "cmdTypeUnbindPluginUser = 43"
definition tagUserUID :: u8 where "tagUserUID = 1"
definition tagUserToken :: u8 where "tagUserToken = 2"
definition tagUserDeviceFlag :: u8 where "tagUserDeviceFlag = 3"
definition tagUserDeviceLevel :: u8 where "tagUserDeviceLevel = 4"
definition tagDeviceUID :: u8 where "tagDeviceUID = 1"
definition tagDeviceFlag :: u8 where "tagDeviceFlag = 2"
definition tagDeviceToken :: u8 where "tagDeviceToken = 3"
definition tagDeviceLevel :: u8 where "tagDeviceLevel = 4"
definition tagChannelID :: u8 where "tagChannelID = 1"
definition tagChannelType :: u8 where "tagChannelType = 2"
definition tagChannelBan :: u8 where "tagChannelBan = 3"
definition tagChannelDisband :: u8 where "tagChannelDisband = 4"
definition tagChannelSendBan :: u8 where "tagChannelSendBan = 5"
definition tagChannelAllowStranger :: u8 where "tagChannelAllowStranger = 6"
definition tagChannelLarge :: u8 where "tagChannelLarge = 7"
definition tagRuntimeMetaChannelID :: u8 where "tagRuntimeMetaChannelID = 1"
definition tagRuntimeMetaChannelType :: u8 where "tagRuntimeMetaChannelType = 2"
definition tagRuntimeMetaChannelEpoch :: u8 where "tagRuntimeMetaChannelEpoch = 3"
definition tagRuntimeMetaLeaderEpoch :: u8 where "tagRuntimeMetaLeaderEpoch = 4"
definition tagRuntimeMetaReplicas :: u8 where "tagRuntimeMetaReplicas = 5"
definition tagRuntimeMetaISR :: u8 where "tagRuntimeMetaISR = 6"
definition tagRuntimeMetaLeader :: u8 where "tagRuntimeMetaLeader = 7"
definition tagRuntimeMetaMinISR :: u8 where "tagRuntimeMetaMinISR = 8"
definition tagRuntimeMetaStatus :: u8 where "tagRuntimeMetaStatus = 9"
definition tagRuntimeMetaFeatures :: u8 where "tagRuntimeMetaFeatures = 10"
definition tagRuntimeMetaLeaseUntilMS :: u8 where "tagRuntimeMetaLeaseUntilMS = 11"
definition tagRuntimeMetaRetentionThroughSeq :: u8 where "tagRuntimeMetaRetentionThroughSeq = 12"
definition tagRuntimeMetaRetentionUpdatedAtMS :: u8 where "tagRuntimeMetaRetentionUpdatedAtMS = 13"
definition tagRuntimeMetaWriteFenceToken :: u8 where "tagRuntimeMetaWriteFenceToken = 14"
definition tagRuntimeMetaWriteFenceVersion :: u8 where "tagRuntimeMetaWriteFenceVersion = 15"
definition tagRuntimeMetaWriteFenceReason :: u8 where "tagRuntimeMetaWriteFenceReason = 16"
definition tagRuntimeMetaWriteFenceUntilMS :: u8 where "tagRuntimeMetaWriteFenceUntilMS = 17"
definition tagRuntimeMetaRouteGeneration :: u8 where "tagRuntimeMetaRouteGeneration = 18"
definition tagRetentionAdvanceChannelID :: u8 where "tagRetentionAdvanceChannelID = 1"
definition tagRetentionAdvanceChannelType :: u8 where "tagRetentionAdvanceChannelType = 2"
definition tagRetentionAdvanceExpectedChannelEpoch :: u8 where "tagRetentionAdvanceExpectedChannelEpoch = 3"
definition tagRetentionAdvanceExpectedLeaderEpoch :: u8 where "tagRetentionAdvanceExpectedLeaderEpoch = 4"
definition tagRetentionAdvanceExpectedLeader :: u8 where "tagRetentionAdvanceExpectedLeader = 5"
definition tagRetentionAdvanceExpectedLeaseUntilMS :: u8 where "tagRetentionAdvanceExpectedLeaseUntilMS = 6"
definition tagRetentionAdvanceThroughSeq :: u8 where "tagRetentionAdvanceThroughSeq = 7"
definition tagRetentionAdvanceUpdatedAtMS :: u8 where "tagRetentionAdvanceUpdatedAtMS = 8"
definition tagSubscriberChannelID :: u8 where "tagSubscriberChannelID = 1"
definition tagSubscriberChannelType :: u8 where "tagSubscriberChannelType = 2"
definition tagSubscriberUIDs :: u8 where "tagSubscriberUIDs = 3"
definition tagSubscriberMutationVersion :: u8 where "tagSubscriberMutationVersion = 4"
definition tagUserChannelMembershipCommandEntry :: u8 where "tagUserChannelMembershipCommandEntry = 1"
definition tagUserChannelMembershipEntryUID :: u8 where "tagUserChannelMembershipEntryUID = 1"
definition tagUserChannelMembershipChannelID :: u8 where "tagUserChannelMembershipChannelID = 2"
definition tagUserChannelMembershipChannelType :: u8 where "tagUserChannelMembershipChannelType = 3"
definition tagUserChannelMembershipJoinSeq :: u8 where "tagUserChannelMembershipJoinSeq = 4"
definition tagUserChannelMembershipUpdatedAt :: u8 where "tagUserChannelMembershipUpdatedAt = 5"
definition tagChannelLatestChannelID :: u8 where "tagChannelLatestChannelID = 1"
definition tagChannelLatestChannelType :: u8 where "tagChannelLatestChannelType = 2"
definition tagChannelLatestLastMessageID :: u8 where "tagChannelLatestLastMessageID = 3"
definition tagChannelLatestLastMessageSeq :: u8 where "tagChannelLatestLastMessageSeq = 4"
definition tagChannelLatestLastAt :: u8 where "tagChannelLatestLastAt = 5"
definition tagChannelLatestFromUID :: u8 where "tagChannelLatestFromUID = 6"
definition tagChannelLatestClientMsgNo :: u8 where "tagChannelLatestClientMsgNo = 7"
definition tagChannelLatestPayload :: u8 where "tagChannelLatestPayload = 8"
definition tagChannelLatestUpdatedAt :: u8 where "tagChannelLatestUpdatedAt = 9"
definition tagChannelLatestBatchEntry :: u8 where "tagChannelLatestBatchEntry = 10"
definition tagChannelLatestBatchEntryHashSlot :: u8 where "tagChannelLatestBatchEntryHashSlot = 1"
definition tagChannelLatestBatchEntryRecord :: u8 where "tagChannelLatestBatchEntryRecord = 2"
definition tagConversationStateCommandEntry :: u8 where "tagConversationStateCommandEntry = 1"
definition tagConversationStateEntryUID :: u8 where "tagConversationStateEntryUID = 1"
definition tagConversationStateEntryChannelID :: u8 where "tagConversationStateEntryChannelID = 2"
definition tagConversationStateEntryChannelType :: u8 where "tagConversationStateEntryChannelType = 3"
definition tagConversationStateEntryReadSeq :: u8 where "tagConversationStateEntryReadSeq = 4"
definition tagConversationStateEntryDeletedToSeq :: u8 where "tagConversationStateEntryDeletedToSeq = 5"
definition tagConversationStateEntryActiveAt :: u8 where "tagConversationStateEntryActiveAt = 6"
definition tagConversationStateEntryUpdatedAt :: u8 where "tagConversationStateEntryUpdatedAt = 7"
definition tagConversationStateEntrySparseActive :: u8 where "tagConversationStateEntrySparseActive = 8"
definition tagConversationStateEntryHashSlot :: u8 where "tagConversationStateEntryHashSlot = 9"
definition tagConversationActivePatchCommandEntry :: u8 where "tagConversationActivePatchCommandEntry = 1"
definition tagConversationActivePatchEntryUID :: u8 where "tagConversationActivePatchEntryUID = 1"
definition tagConversationActivePatchEntryChannelID :: u8 where "tagConversationActivePatchEntryChannelID = 2"
definition tagConversationActivePatchEntryChannelType :: u8 where "tagConversationActivePatchEntryChannelType = 3"
definition tagConversationActivePatchEntryActiveAt :: u8 where "tagConversationActivePatchEntryActiveAt = 4"
definition tagConversationActivePatchEntryMessageSeq :: u8 where "tagConversationActivePatchEntryMessageSeq = 5"
definition tagConversationActivePatchSparseActive :: u8 where "tagConversationActivePatchSparseActive = 6"
definition tagConversationActivePatchSparseActiveSet :: u8 where "tagConversationActivePatchSparseActiveSet = 7"
definition tagConversationActivePatchHashSlot :: u8 where "tagConversationActivePatchHashSlot = 8"
definition tagConversationActivePatchReadSeq :: u8 where "tagConversationActivePatchReadSeq = 9"
definition tagConversationActivePatchDeletedToSeq :: u8 where "tagConversationActivePatchDeletedToSeq = 10"
definition tagConversationActivePatchUpdatedAt :: u8 where "tagConversationActivePatchUpdatedAt = 11"
definition tagConversationDeleteCommandEntry :: u8 where "tagConversationDeleteCommandEntry = 1"
definition tagConversationDeleteEntryUID :: u8 where "tagConversationDeleteEntryUID = 1"
definition tagConversationDeleteEntryChannelID :: u8 where "tagConversationDeleteEntryChannelID = 2"
definition tagConversationDeleteEntryChannelType :: u8 where "tagConversationDeleteEntryChannelType = 3"
definition tagConversationDeleteEntryDeletedToSeq :: u8 where "tagConversationDeleteEntryDeletedToSeq = 4"
definition tagConversationDeleteEntryUpdatedAt :: u8 where "tagConversationDeleteEntryUpdatedAt = 5"
definition tagConversationDeleteEntryHashSlot :: u8 where "tagConversationDeleteEntryHashSlot = 6"
definition tagConversationEntryKind :: u8 where "tagConversationEntryKind = 12"
definition tagClearConversationActiveKind :: u8 where "tagClearConversationActiveKind = 1"
definition tagClearConversationActiveUID :: u8 where "tagClearConversationActiveUID = 2"
definition tagClearConversationActiveKey :: u8 where "tagClearConversationActiveKey = 3"
definition tagConversationKeyEntryChannelID :: u8 where "tagConversationKeyEntryChannelID = 1"
definition tagConversationKeyEntryChannelType :: u8 where "tagConversationKeyEntryChannelType = 2"
definition tagPluginUserBindingUID :: u8 where "tagPluginUserBindingUID = 1"
definition tagPluginUserBindingPluginNo :: u8 where "tagPluginUserBindingPluginNo = 2"
definition tagPluginUserBindingCreatedAtMS :: u8 where "tagPluginUserBindingCreatedAtMS = 3"
definition tagPluginUserBindingUpdatedAtMS :: u8 where "tagPluginUserBindingUpdatedAtMS = 4"
definition cmdTypeApplyDelta :: u8 where "cmdTypeApplyDelta = 20"
definition cmdTypeEnterFence :: u8 where "cmdTypeEnterFence = 21"
definition cmdTypeAckMigrationOutbox :: u8 where "cmdTypeAckMigrationOutbox = 22"
definition cmdTypeCleanupMigrationOutbox :: u8 where "cmdTypeCleanupMigrationOutbox = 23"
definition tagApplyDeltaSourceSlotID :: u8 where "tagApplyDeltaSourceSlotID = 1"
definition tagApplyDeltaSourceIndex :: u8 where "tagApplyDeltaSourceIndex = 2"
definition tagApplyDeltaHashSlot :: u8 where "tagApplyDeltaHashSlot = 3"
definition tagApplyDeltaOriginalCmd :: u8 where "tagApplyDeltaOriginalCmd = 4"
definition tagEnterFenceHashSlot :: u8 where "tagEnterFenceHashSlot = 1"
definition tagEnterFenceTarget :: u8 where "tagEnterFenceTarget = 2"
definition tagMigrationOutboxHashSlot :: u8 where "tagMigrationOutboxHashSlot = 1"
definition tagMigrationOutboxSourceSlot :: u8 where "tagMigrationOutboxSourceSlot = 2"
definition tagMigrationOutboxTargetSlot :: u8 where "tagMigrationOutboxTargetSlot = 3"
definition tagMigrationOutboxSourceIndex :: u8 where "tagMigrationOutboxSourceIndex = 4"
definition cmdTypeCreateChannelMigrationTask :: u8 where "cmdTypeCreateChannelMigrationTask = 30"
definition cmdTypeClaimChannelMigrationTask :: u8 where "cmdTypeClaimChannelMigrationTask = 31"
definition cmdTypeAdvanceChannelMigrationTask :: u8 where "cmdTypeAdvanceChannelMigrationTask = 32"
definition cmdTypeSetChannelWriteFence :: u8 where "cmdTypeSetChannelWriteFence = 33"
definition cmdTypeResetChannelWriteFence :: u8 where "cmdTypeResetChannelWriteFence = 34"
definition cmdTypeCommitChannelLeaderTransfer :: u8 where "cmdTypeCommitChannelLeaderTransfer = 35"
definition cmdTypeAddChannelLearner :: u8 where "cmdTypeAddChannelLearner = 36"
definition cmdTypePromoteLearnerAndRemoveReplica :: u8 where "cmdTypePromoteLearnerAndRemoveReplica = 37"
definition cmdTypeClearChannelWriteFence :: u8 where "cmdTypeClearChannelWriteFence = 38"
definition cmdTypeAbortChannelMigration :: u8 where "cmdTypeAbortChannelMigration = 39"
definition cmdTypeGarbageCollectMigrationTasks :: u8 where "cmdTypeGarbageCollectMigrationTasks = 40"
definition cmdTypeCreateChannelMigrationGuarded :: u8 where "cmdTypeCreateChannelMigrationGuarded = 41"
definition tagChannelMigrationCommandPayload :: u8 where "tagChannelMigrationCommandPayload = 1"

lemmas cmd_types = commandVersion_def cmdTypeUpsertUser_def cmdTypeUpsertChannel_def cmdTypeDeleteChannel_def
  cmdTypeUpsertChannelRuntimeMeta_def cmdTypeDeleteChannelRuntimeMeta_def cmdTypeCreateUser_def
  cmdTypeUpsertDevice_def cmdTypeAddSubscribers_def cmdTypeRemoveSubscribers_def cmdTypeUpsertConversationStates_def
  cmdTypeTouchConversationActiveAt_def cmdTypeClearConversationActiveAt_def
  cmdTypeReservedConversationProjectionUpsert_def cmdTypeReservedConversationProjectionDelete_def
  cmdTypeAdvanceChannelRetention_def cmdTypeHideConversations_def cmdTypeNoop_def
  cmdTypeUpsertUserChannelMemberships_def cmdTypeDeleteUserChannelMemberships_def cmdTypeUpsertChannelLatest_def
  cmdTypeUpsertChannelLatestBatch_def cmdTypeBindPluginUser_def cmdTypeUnbindPluginUser_def cmdTypeApplyDelta_def
  cmdTypeEnterFence_def cmdTypeAckMigrationOutbox_def cmdTypeCleanupMigrationOutbox_def
  cmdTypeCreateChannelMigrationTask_def cmdTypeClaimChannelMigrationTask_def cmdTypeAdvanceChannelMigrationTask_def
  cmdTypeSetChannelWriteFence_def cmdTypeResetChannelWriteFence_def cmdTypeCommitChannelLeaderTransfer_def
  cmdTypeAddChannelLearner_def cmdTypePromoteLearnerAndRemoveReplica_def cmdTypeClearChannelWriteFence_def
  cmdTypeAbortChannelMigration_def cmdTypeGarbageCollectMigrationTasks_def cmdTypeCreateChannelMigrationGuarded_def

lemmas field_tags = tagUserUID_def tagUserToken_def tagUserDeviceFlag_def tagUserDeviceLevel_def tagDeviceUID_def tagDeviceFlag_def
  tagDeviceToken_def tagDeviceLevel_def tagChannelID_def tagChannelType_def tagChannelBan_def tagChannelDisband_def
  tagChannelSendBan_def tagChannelAllowStranger_def tagChannelLarge_def tagRuntimeMetaChannelID_def
  tagRuntimeMetaChannelType_def tagRuntimeMetaChannelEpoch_def tagRuntimeMetaLeaderEpoch_def
  tagRuntimeMetaReplicas_def tagRuntimeMetaISR_def tagRuntimeMetaLeader_def tagRuntimeMetaMinISR_def
  tagRuntimeMetaStatus_def tagRuntimeMetaFeatures_def tagRuntimeMetaLeaseUntilMS_def
  tagRuntimeMetaRetentionThroughSeq_def tagRuntimeMetaRetentionUpdatedAtMS_def tagRuntimeMetaWriteFenceToken_def
  tagRuntimeMetaWriteFenceVersion_def tagRuntimeMetaWriteFenceReason_def tagRuntimeMetaWriteFenceUntilMS_def
  tagRuntimeMetaRouteGeneration_def tagRetentionAdvanceChannelID_def tagRetentionAdvanceChannelType_def
  tagRetentionAdvanceExpectedChannelEpoch_def tagRetentionAdvanceExpectedLeaderEpoch_def
  tagRetentionAdvanceExpectedLeader_def tagRetentionAdvanceExpectedLeaseUntilMS_def
  tagRetentionAdvanceThroughSeq_def tagRetentionAdvanceUpdatedAtMS_def tagSubscriberChannelID_def
  tagSubscriberChannelType_def tagSubscriberUIDs_def tagSubscriberMutationVersion_def
  tagUserChannelMembershipCommandEntry_def tagUserChannelMembershipEntryUID_def
  tagUserChannelMembershipChannelID_def tagUserChannelMembershipChannelType_def tagUserChannelMembershipJoinSeq_def
  tagUserChannelMembershipUpdatedAt_def tagChannelLatestChannelID_def tagChannelLatestChannelType_def
  tagChannelLatestLastMessageID_def tagChannelLatestLastMessageSeq_def tagChannelLatestLastAt_def
  tagChannelLatestFromUID_def tagChannelLatestClientMsgNo_def tagChannelLatestPayload_def
  tagChannelLatestUpdatedAt_def tagChannelLatestBatchEntry_def tagChannelLatestBatchEntryHashSlot_def
  tagChannelLatestBatchEntryRecord_def tagConversationStateCommandEntry_def tagConversationStateEntryUID_def
  tagConversationStateEntryChannelID_def tagConversationStateEntryChannelType_def
  tagConversationStateEntryReadSeq_def tagConversationStateEntryDeletedToSeq_def
  tagConversationStateEntryActiveAt_def tagConversationStateEntryUpdatedAt_def
  tagConversationStateEntrySparseActive_def tagConversationStateEntryHashSlot_def
  tagConversationActivePatchCommandEntry_def tagConversationActivePatchEntryUID_def
  tagConversationActivePatchEntryChannelID_def tagConversationActivePatchEntryChannelType_def
  tagConversationActivePatchEntryActiveAt_def tagConversationActivePatchEntryMessageSeq_def
  tagConversationActivePatchSparseActive_def tagConversationActivePatchSparseActiveSet_def
  tagConversationActivePatchHashSlot_def tagConversationActivePatchReadSeq_def
  tagConversationActivePatchDeletedToSeq_def tagConversationActivePatchUpdatedAt_def
  tagConversationDeleteCommandEntry_def tagConversationDeleteEntryUID_def tagConversationDeleteEntryChannelID_def
  tagConversationDeleteEntryChannelType_def tagConversationDeleteEntryDeletedToSeq_def
  tagConversationDeleteEntryUpdatedAt_def tagConversationDeleteEntryHashSlot_def tagConversationEntryKind_def
  tagClearConversationActiveKind_def tagClearConversationActiveUID_def tagClearConversationActiveKey_def
  tagConversationKeyEntryChannelID_def tagConversationKeyEntryChannelType_def tagPluginUserBindingUID_def
  tagPluginUserBindingPluginNo_def tagPluginUserBindingCreatedAtMS_def tagPluginUserBindingUpdatedAtMS_def
  tagApplyDeltaSourceSlotID_def tagApplyDeltaSourceIndex_def tagApplyDeltaHashSlot_def tagApplyDeltaOriginalCmd_def
  tagEnterFenceHashSlot_def tagEnterFenceTarget_def tagMigrationOutboxHashSlot_def tagMigrationOutboxSourceSlot_def
  tagMigrationOutboxTargetSlot_def tagMigrationOutboxSourceIndex_def tagChannelMigrationCommandPayload_def

text \<open>The flags of the fields that must be there.\<close>

definition have_all :: "u8 list \<Rightarrow> u8 list \<Rightarrow> bool" where
  "have_all tags seen = list_all (\<lambda>t. t \<in> set seen) tags"

definition finish :: "u8 list \<Rightarrow> db_error + 'r \<times> u8 list \<Rightarrow> db_error + 'r" where
  "finish tags res = bind_res res (\<lambda>(r, seen). if have_all tags seen then Inr r else Inl DBErrCorruptValue)"

section \<open>Users, devices, channels\<close>

text \<open>These encoders allocate the whole command and fill it field by field.\<close>

definition start_buffer :: "nat \<Rightarrow> u8 \<Rightarrow> (u8 list \<times> nat) option" where
  "start_buffer n cmdType =
     Option.bind (put_at (replicate n 0) 0 [commandVersion]) (\<lambda>buf.
     map_option (\<lambda>buf. (buf, 2)) (put_at buf 1 [cmdType]))"

definition encodeUserCommand :: "u8 \<Rightarrow> User \<Rightarrow> u8 list option" where
  "encodeUserCommand cmdType u =
     map_option fst
       (Option.bind (start_buffer (headerSize + (tlvOverhead + length (us_UID u)) + (tlvOverhead + length (us_Token u))
           + (tlvOverhead + 8) + (tlvOverhead + 8)) cmdType) (\<lambda>(buf, off).
        Option.bind (putStringField buf off tagUserUID (us_UID u)) (\<lambda>(buf, off).
        Option.bind (putStringField buf off tagUserToken (us_Token u)) (\<lambda>(buf, off).
        Option.bind (putInt64Field buf off tagUserDeviceFlag (us_DeviceFlag u)) (\<lambda>(buf, off).
        putInt64Field buf off tagUserDeviceLevel (us_DeviceLevel u))))))"

definition EncodeUpsertUserCommand :: "User \<Rightarrow> u8 list option" where
  "EncodeUpsertUserCommand u = encodeUserCommand cmdTypeUpsertUser u"

definition EncodeCreateUserCommand :: "User \<Rightarrow> u8 list option" where
  "EncodeCreateUserCommand u = encodeUserCommand cmdTypeCreateUser u"

definition EncodeUpsertDeviceCommand :: "Device \<Rightarrow> u8 list option" where
  "EncodeUpsertDeviceCommand d =
     map_option fst
       (Option.bind (start_buffer (headerSize + (tlvOverhead + length (dv_UID d)) + (tlvOverhead + 8)
           + (tlvOverhead + length (dv_Token d)) + (tlvOverhead + 8)) cmdTypeUpsertDevice) (\<lambda>(buf, off).
        Option.bind (putStringField buf off tagDeviceUID (dv_UID d)) (\<lambda>(buf, off).
        Option.bind (putInt64Field buf off tagDeviceFlag (dv_DeviceFlag d)) (\<lambda>(buf, off).
        Option.bind (putStringField buf off tagDeviceToken (dv_Token d)) (\<lambda>(buf, off).
        putInt64Field buf off tagDeviceLevel (dv_DeviceLevel d))))))"

definition EncodeUpsertChannelCommand :: "Channel \<Rightarrow> u8 list option" where
  "EncodeUpsertChannelCommand ch =
     map_option fst
       (Option.bind (start_buffer (headerSize + (tlvOverhead + length (cn_ChannelID ch)) + (tlvOverhead + 8) + (tlvOverhead + 8)
           + (tlvOverhead + 8) + (tlvOverhead + 8) + (tlvOverhead + 8) + (tlvOverhead + 8)) cmdTypeUpsertChannel) (\<lambda>(buf, off).
        Option.bind (putStringField buf off tagChannelID (cn_ChannelID ch)) (\<lambda>(buf, off).
        Option.bind (putInt64Field buf off tagChannelType (cn_ChannelType ch)) (\<lambda>(buf, off).
        Option.bind (putInt64Field buf off tagChannelBan (cn_Ban ch)) (\<lambda>(buf, off).
        Option.bind (putInt64Field buf off tagChannelDisband (cn_Disband ch)) (\<lambda>(buf, off).
        Option.bind (putInt64Field buf off tagChannelSendBan (cn_SendBan ch)) (\<lambda>(buf, off).
        Option.bind (putInt64Field buf off tagChannelAllowStranger (cn_AllowStranger ch)) (\<lambda>(buf, off).
        putInt64Field buf off tagChannelLarge (cn_Large ch)))))))))"

definition EncodeDeleteChannelCommand :: "u8 list \<Rightarrow> u64 \<Rightarrow> u8 list option" where
  "EncodeDeleteChannelCommand channelID channelType =
     map_option fst
       (Option.bind (start_buffer (headerSize + (tlvOverhead + length channelID) + (tlvOverhead + 8)) cmdTypeDeleteChannel) (\<lambda>(buf, off).
        Option.bind (putStringField buf off tagChannelID channelID) (\<lambda>(buf, off).
        putInt64Field buf off tagChannelType channelType)))"

definition zero_User :: User where
  "zero_User =
     \<lparr>us_UID = [], us_Token = [], us_DeviceFlag = 0, us_DeviceLevel = 0\<rparr>"

definition user_field ::
  "u8 \<Rightarrow> u8 list \<Rightarrow> User \<times> u8 list \<Rightarrow> db_error + User \<times> u8 list" where
  "user_field tag val s =
     (case s of (r, seen) \<Rightarrow>
        if tag = tagUserUID then Inr (r\<lparr>us_UID := val\<rparr>, seen)
        else if tag = tagUserToken then Inr (r\<lparr>us_Token := val\<rparr>, seen)
        else if tag = tagUserDeviceFlag then uint64_field val (\<lambda>v. (r\<lparr>us_DeviceFlag := v\<rparr>, seen))
        else if tag = tagUserDeviceLevel then uint64_field val (\<lambda>v. (r\<lparr>us_DeviceLevel := v\<rparr>, seen))
        else Inr (r, seen))"

definition decodeUser :: "u8 list \<Rightarrow> db_error + User" where
  "decodeUser data =
     finish []
       (tlv_loop user_field data (zero_User, []))"

definition zero_Device :: Device where
  "zero_Device =
     \<lparr>dv_UID = [], dv_DeviceFlag = 0, dv_Token = [], dv_DeviceLevel = 0\<rparr>"

definition device_field ::
  "u8 \<Rightarrow> u8 list \<Rightarrow> Device \<times> u8 list \<Rightarrow> db_error + Device \<times> u8 list" where
  "device_field tag val s =
     (case s of (r, seen) \<Rightarrow>
        if tag = tagDeviceUID then Inr (r\<lparr>dv_UID := val\<rparr>, seen)
        else if tag = tagDeviceFlag then uint64_field val (\<lambda>v. (r\<lparr>dv_DeviceFlag := v\<rparr>, seen))
        else if tag = tagDeviceToken then Inr (r\<lparr>dv_Token := val\<rparr>, seen)
        else if tag = tagDeviceLevel then uint64_field val (\<lambda>v. (r\<lparr>dv_DeviceLevel := v\<rparr>, seen))
        else Inr (r, seen))"

definition decodeDevice :: "u8 list \<Rightarrow> db_error + Device" where
  "decodeDevice data =
     finish []
       (tlv_loop device_field data (zero_Device, []))"

definition zero_Channel :: Channel where
  "zero_Channel =
     \<lparr>cn_ChannelID = [], cn_ChannelType = 0, cn_Ban = 0, cn_Disband = 0, cn_SendBan = 0, cn_AllowStranger = 0,
      cn_Large = 0, cn_SubscriberMutationVersion = 0, cn_SubscriberCount = 0\<rparr>"

definition channel_field ::
  "u8 \<Rightarrow> u8 list \<Rightarrow> Channel \<times> u8 list \<Rightarrow> db_error + Channel \<times> u8 list" where
  "channel_field tag val s =
     (case s of (r, seen) \<Rightarrow>
        if tag = tagChannelID then Inr (r\<lparr>cn_ChannelID := val\<rparr>, seen)
        else if tag = tagChannelType then uint64_field val (\<lambda>v. (r\<lparr>cn_ChannelType := v\<rparr>, seen))
        else if tag = tagChannelBan then uint64_field val (\<lambda>v. (r\<lparr>cn_Ban := v\<rparr>, seen))
        else if tag = tagChannelDisband then uint64_field val (\<lambda>v. (r\<lparr>cn_Disband := v\<rparr>, seen))
        else if tag = tagChannelSendBan then uint64_field val (\<lambda>v. (r\<lparr>cn_SendBan := v\<rparr>, seen))
        else if tag = tagChannelAllowStranger then uint64_field val (\<lambda>v. (r\<lparr>cn_AllowStranger := v\<rparr>, seen))
        else if tag = tagChannelLarge then uint64_field val (\<lambda>v. (r\<lparr>cn_Large := v\<rparr>, seen))
        else Inr (r, seen))"

definition decodeChannel :: "u8 list \<Rightarrow> db_error + Channel" where
  "decodeChannel data =
     finish []
       (tlv_loop channel_field data (zero_Channel, []))"

definition zero_ConversationKey :: ConversationKey where
  "zero_ConversationKey =
     \<lparr>ck_ChannelID = [], ck_ChannelType = 0\<rparr>"

definition channelIdentity_field ::
  "u8 \<Rightarrow> u8 list \<Rightarrow> ConversationKey \<times> u8 list \<Rightarrow> db_error + ConversationKey \<times> u8 list" where
  "channelIdentity_field tag val s =
     (case s of (r, seen) \<Rightarrow>
        if tag = tagChannelID then Inr (r\<lparr>ck_ChannelID := val\<rparr>, seen)
        else if tag = tagChannelType then uint64_field val (\<lambda>v. (r\<lparr>ck_ChannelType := v\<rparr>, seen))
        else Inr (r, seen))"

definition decodeChannelIdentity :: "u8 list \<Rightarrow> db_error + ConversationKey" where
  "decodeChannelIdentity data =
     finish []
       (tlv_loop channelIdentity_field data (zero_ConversationKey, []))"

section \<open>Runtime metadata\<close>

definition EncodeUpsertChannelRuntimeMetaCommand :: "ChannelRuntimeMeta \<Rightarrow> u8 list" where
  "EncodeUpsertChannelRuntimeMetaCommand meta =
     (let meta = normalizeChannelRuntimeMeta meta;
          buf = [commandVersion, cmdTypeUpsertChannelRuntimeMeta];
          buf = appendStringTLVField buf tagRuntimeMetaChannelID (rm_ChannelID meta);
          buf = appendInt64TLVField buf tagRuntimeMetaChannelType (rm_ChannelType meta);
          buf = appendUint64TLVField buf tagRuntimeMetaChannelEpoch (rm_ChannelEpoch meta);
          buf = appendUint64TLVField buf tagRuntimeMetaLeaderEpoch (rm_LeaderEpoch meta);
          buf = appendBytesTLVField buf tagRuntimeMetaReplicas (encodeUint64Slice (rm_Replicas meta));
          buf = appendBytesTLVField buf tagRuntimeMetaISR (encodeUint64Slice (rm_ISR meta));
          buf = appendUint64TLVField buf tagRuntimeMetaLeader (rm_Leader meta);
          buf = appendInt64TLVField buf tagRuntimeMetaMinISR (rm_MinISR meta);
          buf = appendUint64TLVField buf tagRuntimeMetaStatus (ucast (rm_Status meta));
          buf = appendUint64TLVField buf tagRuntimeMetaFeatures (rm_Features meta);
          buf = appendInt64TLVField buf tagRuntimeMetaLeaseUntilMS (rm_LeaseUntilMS meta);
          buf = appendUint64TLVField buf tagRuntimeMetaRetentionThroughSeq (rm_RetentionThroughSeq meta);
          buf = appendInt64TLVField buf tagRuntimeMetaRetentionUpdatedAtMS (rm_RetentionUpdatedAtMS meta);
          buf = (if rm_WriteFenceToken meta \<noteq> []
                 then appendStringTLVField buf tagRuntimeMetaWriteFenceToken (rm_WriteFenceToken meta) else buf);
          buf = appendUint64TLVField buf tagRuntimeMetaWriteFenceVersion (rm_WriteFenceVersion meta);
          buf = appendUint64TLVField buf tagRuntimeMetaWriteFenceReason (ucast (rm_WriteFenceReason meta));
          buf = appendInt64TLVField buf tagRuntimeMetaWriteFenceUntilMS (rm_WriteFenceUntilMS meta);
          buf = appendUint64TLVField buf tagRuntimeMetaRouteGeneration (rm_RouteGeneration meta)
      in buf)"

definition zero_ChannelRuntimeMeta :: ChannelRuntimeMeta where
  "zero_ChannelRuntimeMeta =
     \<lparr>rm_ChannelID = [], rm_ChannelType = 0, rm_ChannelEpoch = 0, rm_LeaderEpoch = 0, rm_RouteGeneration = 0,
      rm_Replicas = [], rm_ISR = [], rm_Leader = 0, rm_MinISR = 0, rm_Status = 0, rm_Features = 0,
      rm_LeaseUntilMS = 0, rm_RetentionThroughSeq = 0, rm_RetentionUpdatedAtMS = 0, rm_WriteFenceToken = [],
      rm_WriteFenceVersion = 0, rm_WriteFenceReason = 0, rm_WriteFenceUntilMS = 0\<rparr>"

definition runtimeMeta_field ::
  "u8 \<Rightarrow> u8 list \<Rightarrow> ChannelRuntimeMeta \<times> u8 list \<Rightarrow> db_error + ChannelRuntimeMeta \<times> u8 list" where
  "runtimeMeta_field tag val s =
     (case s of (r, seen) \<Rightarrow>
        if tag = tagRuntimeMetaChannelID then Inr (r\<lparr>rm_ChannelID := val\<rparr>, tagRuntimeMetaChannelID # seen)
        else if tag = tagRuntimeMetaChannelType
        then uint64_field val (\<lambda>v. (r\<lparr>rm_ChannelType := v\<rparr>, tagRuntimeMetaChannelType # seen))
        else if tag = tagRuntimeMetaChannelEpoch
        then uint64_field val (\<lambda>v. (r\<lparr>rm_ChannelEpoch := v\<rparr>, tagRuntimeMetaChannelEpoch # seen))
        else if tag = tagRuntimeMetaLeaderEpoch
        then uint64_field val (\<lambda>v. (r\<lparr>rm_LeaderEpoch := v\<rparr>, tagRuntimeMetaLeaderEpoch # seen))
        else if tag = tagRuntimeMetaReplicas
        then bind_res (decodeUint64Slice val) (\<lambda>v. Inr (r\<lparr>rm_Replicas := v\<rparr>, tagRuntimeMetaReplicas # seen))
        else if tag = tagRuntimeMetaISR
        then bind_res (decodeUint64Slice val) (\<lambda>v. Inr (r\<lparr>rm_ISR := v\<rparr>, tagRuntimeMetaISR # seen))
        else if tag = tagRuntimeMetaLeader
        then uint64_field val (\<lambda>v. (r\<lparr>rm_Leader := v\<rparr>, tagRuntimeMetaLeader # seen))
        else if tag = tagRuntimeMetaMinISR
        then uint64_field val (\<lambda>v. (r\<lparr>rm_MinISR := v\<rparr>, tagRuntimeMetaMinISR # seen))
        else if tag = tagRuntimeMetaStatus
        then uint8_field val (\<lambda>v. (r\<lparr>rm_Status := v\<rparr>, tagRuntimeMetaStatus # seen))
        else if tag = tagRuntimeMetaFeatures
        then uint64_field val (\<lambda>v. (r\<lparr>rm_Features := v\<rparr>, tagRuntimeMetaFeatures # seen))
        else if tag = tagRuntimeMetaLeaseUntilMS
        then uint64_field val (\<lambda>v. (r\<lparr>rm_LeaseUntilMS := v\<rparr>, tagRuntimeMetaLeaseUntilMS # seen))
        else if tag = tagRuntimeMetaRetentionThroughSeq
        then uint64_field val (\<lambda>v. (r\<lparr>rm_RetentionThroughSeq := v\<rparr>, seen))
        else if tag = tagRuntimeMetaRetentionUpdatedAtMS
        then uint64_field val (\<lambda>v. (r\<lparr>rm_RetentionUpdatedAtMS := v\<rparr>, seen))
        else if tag = tagRuntimeMetaWriteFenceToken then Inr (r\<lparr>rm_WriteFenceToken := val\<rparr>, seen)
        else if tag = tagRuntimeMetaWriteFenceVersion
        then uint64_field val (\<lambda>v. (r\<lparr>rm_WriteFenceVersion := v\<rparr>, seen))
        else if tag = tagRuntimeMetaWriteFenceReason
        then uint8_field val (\<lambda>v. (r\<lparr>rm_WriteFenceReason := v\<rparr>, seen))
        else if tag = tagRuntimeMetaWriteFenceUntilMS
        then uint64_field val (\<lambda>v. (r\<lparr>rm_WriteFenceUntilMS := v\<rparr>, seen))
        else if tag = tagRuntimeMetaRouteGeneration
        then uint64_field val (\<lambda>v. (r\<lparr>rm_RouteGeneration := v\<rparr>, seen))
        else Inr (r, seen))"

definition decodeRuntimeMeta :: "u8 list \<Rightarrow> db_error + ChannelRuntimeMeta" where
  "decodeRuntimeMeta data =
     finish [tagRuntimeMetaChannelID, tagRuntimeMetaChannelType, tagRuntimeMetaChannelEpoch, 
         tagRuntimeMetaLeaderEpoch, tagRuntimeMetaReplicas, tagRuntimeMetaISR, tagRuntimeMetaLeader, 
         tagRuntimeMetaMinISR, tagRuntimeMetaStatus, tagRuntimeMetaFeatures, tagRuntimeMetaLeaseUntilMS]
       (tlv_loop runtimeMeta_field data (zero_ChannelRuntimeMeta, []))"

definition EncodeDeleteChannelRuntimeMetaCommand :: "u8 list \<Rightarrow> u64 \<Rightarrow> u8 list" where
  "EncodeDeleteChannelRuntimeMetaCommand channelID channelType =
     (let buf = [commandVersion, cmdTypeDeleteChannelRuntimeMeta];
          buf = appendStringTLVField buf tagRuntimeMetaChannelID channelID;
          buf = appendInt64TLVField buf tagRuntimeMetaChannelType channelType
      in buf)"

definition runtimeMetaIdentity_field ::
  "u8 \<Rightarrow> u8 list \<Rightarrow> ConversationKey \<times> u8 list \<Rightarrow> db_error + ConversationKey \<times> u8 list" where
  "runtimeMetaIdentity_field tag val s =
     (case s of (r, seen) \<Rightarrow>
        if tag = tagRuntimeMetaChannelID then Inr (r\<lparr>ck_ChannelID := val\<rparr>, tagRuntimeMetaChannelID # seen)
        else if tag = tagRuntimeMetaChannelType
        then uint64_field val (\<lambda>v. (r\<lparr>ck_ChannelType := v\<rparr>, tagRuntimeMetaChannelType # seen))
        else Inr (r, seen))"

definition decodeRuntimeMetaIdentity :: "u8 list \<Rightarrow> db_error + ConversationKey" where
  "decodeRuntimeMetaIdentity data =
     finish [tagRuntimeMetaChannelID, tagRuntimeMetaChannelType]
       (tlv_loop runtimeMetaIdentity_field data (zero_ConversationKey, []))"

definition EncodeAdvanceChannelRetentionThroughSeqCommand :: "ChannelRetentionAdvance \<Rightarrow> u8 list" where
  "EncodeAdvanceChannelRetentionThroughSeqCommand req =
     (let buf = [commandVersion, cmdTypeAdvanceChannelRetention];
          buf = appendStringTLVField buf tagRetentionAdvanceChannelID (ra_ChannelID req);
          buf = appendInt64TLVField buf tagRetentionAdvanceChannelType (ra_ChannelType req);
          buf = appendUint64TLVField buf tagRetentionAdvanceExpectedChannelEpoch (ra_ExpectedChannelEpoch req);
          buf = appendUint64TLVField buf tagRetentionAdvanceExpectedLeaderEpoch (ra_ExpectedLeaderEpoch req);
          buf = appendUint64TLVField buf tagRetentionAdvanceExpectedLeader (ra_ExpectedLeader req);
          buf = appendInt64TLVField buf tagRetentionAdvanceExpectedLeaseUntilMS (ra_ExpectedLeaseUntilMS req);
          buf = appendUint64TLVField buf tagRetentionAdvanceThroughSeq (ra_RetentionThroughSeq req);
          buf = appendInt64TLVField buf tagRetentionAdvanceUpdatedAtMS (ra_RetentionUpdatedAtMS req)
      in buf)"

definition zero_ChannelRetentionAdvance :: ChannelRetentionAdvance where
  "zero_ChannelRetentionAdvance =
     \<lparr>ra_ChannelID = [], ra_ChannelType = 0, ra_ExpectedChannelEpoch = 0, ra_ExpectedLeaderEpoch = 0,
      ra_ExpectedLeader = 0, ra_ExpectedLeaseUntilMS = 0, ra_RetentionThroughSeq = 0,
      ra_RetentionUpdatedAtMS = 0\<rparr>"

definition retentionAdvance_field ::
  "u8 \<Rightarrow> u8 list \<Rightarrow> ChannelRetentionAdvance \<times> u8 list \<Rightarrow> db_error + ChannelRetentionAdvance \<times> u8 list" where
  "retentionAdvance_field tag val s =
     (case s of (r, seen) \<Rightarrow>
        if tag = tagRetentionAdvanceChannelID then Inr (r\<lparr>ra_ChannelID := val\<rparr>, tagRetentionAdvanceChannelID # seen)
        else if tag = tagRetentionAdvanceChannelType
        then uint64_field val (\<lambda>v. (r\<lparr>ra_ChannelType := v\<rparr>, tagRetentionAdvanceChannelType # seen))
        else if tag = tagRetentionAdvanceExpectedChannelEpoch
        then uint64_field val (\<lambda>v. (r\<lparr>ra_ExpectedChannelEpoch := v\<rparr>, tagRetentionAdvanceExpectedChannelEpoch # seen))
        else if tag = tagRetentionAdvanceExpectedLeaderEpoch
        then uint64_field val (\<lambda>v. (r\<lparr>ra_ExpectedLeaderEpoch := v\<rparr>, tagRetentionAdvanceExpectedLeaderEpoch # seen))
        else if tag = tagRetentionAdvanceExpectedLeader
        then uint64_field val (\<lambda>v. (r\<lparr>ra_ExpectedLeader := v\<rparr>, tagRetentionAdvanceExpectedLeader # seen))
        else if tag = tagRetentionAdvanceExpectedLeaseUntilMS
        then uint64_field val (\<lambda>v. (r\<lparr>ra_ExpectedLeaseUntilMS := v\<rparr>, tagRetentionAdvanceExpectedLeaseUntilMS # seen))
        else if tag = tagRetentionAdvanceThroughSeq
        then uint64_field val (\<lambda>v. (r\<lparr>ra_RetentionThroughSeq := v\<rparr>, tagRetentionAdvanceThroughSeq # seen))
        else if tag = tagRetentionAdvanceUpdatedAtMS
        then uint64_field val (\<lambda>v. (r\<lparr>ra_RetentionUpdatedAtMS := v\<rparr>, tagRetentionAdvanceUpdatedAtMS # seen))
        else Inr (r, seen))"

definition decodeRetentionAdvance :: "u8 list \<Rightarrow> db_error + ChannelRetentionAdvance" where
  "decodeRetentionAdvance data =
     finish [tagRetentionAdvanceChannelID, tagRetentionAdvanceChannelType, tagRetentionAdvanceExpectedChannelEpoch, 
         tagRetentionAdvanceExpectedLeaderEpoch, tagRetentionAdvanceExpectedLeader, 
         tagRetentionAdvanceExpectedLeaseUntilMS, tagRetentionAdvanceThroughSeq, tagRetentionAdvanceUpdatedAtMS]
       (tlv_loop retentionAdvance_field data (zero_ChannelRetentionAdvance, []))"

section \<open>Subscribers and memberships\<close>

definition MaxSubscriberCommandUIDs :: nat where "MaxSubscriberCommandUIDs = 1000"
definition MaxSubscriberCommandUIDBytes :: nat where "MaxSubscriberCommandUIDBytes = 64 * 1024"

definition validateSubscriberCommandUIDCount :: "nat \<Rightarrow> db_error option" where
  "validateSubscriberCommandUIDCount n = (if MaxSubscriberCommandUIDs < n then Some DBErrInvalidArgument else None)"

definition validateSubscriberCommandUIDBytes :: "nat \<Rightarrow> db_error option" where
  "validateSubscriberCommandUIDBytes n = (if MaxSubscriberCommandUIDBytes < n then Some DBErrInvalidArgument else None)"

definition ValidateSubscriberCommandLimits :: "u8 list list \<Rightarrow> db_error option" where
  "ValidateSubscriberCommandLimits uids =
     (case validateSubscriberCommandUIDCount (length uids) of
        Some e \<Rightarrow> Some e
      | None \<Rightarrow> validateSubscriberCommandUIDBytes (length (encodeStringSet uids)))"

text \<open>The version is a variadic argument; leaving it out and 0 are the same command.\<close>

definition encodeSubscribersCommand ::
  "u8 \<Rightarrow> u8 list \<Rightarrow> u64 \<Rightarrow> u8 list list \<Rightarrow> u64 list \<Rightarrow> u8 list" where
  "encodeSubscribersCommand cmdType channelID channelType uids subscriberMutationVersion =
     (let buf = [commandVersion, cmdType];
          buf = appendStringTLVField buf tagSubscriberChannelID channelID;
          buf = appendInt64TLVField buf tagSubscriberChannelType channelType;
          buf = (if 0 < length subscriberMutationVersion \<and> 0 < hd subscriberMutationVersion
                 then appendUint64TLVField buf tagSubscriberMutationVersion (hd subscriberMutationVersion) else buf);
          buf = appendBytesTLVField buf tagSubscriberUIDs (encodeStringSet uids)
      in buf)"

definition EncodeAddSubscribersCommandChecked ::
  "u8 list \<Rightarrow> u64 \<Rightarrow> u8 list list \<Rightarrow> u64 list \<Rightarrow> db_error + u8 list" where
  "EncodeAddSubscribersCommandChecked channelID channelType uids version =
     bind_res (check_error (ValidateSubscriberCommandLimits uids)) (\<lambda>_.
       Inr (encodeSubscribersCommand cmdTypeAddSubscribers channelID channelType uids version))"

definition EncodeRemoveSubscribersCommandChecked ::
  "u8 list \<Rightarrow> u64 \<Rightarrow> u8 list list \<Rightarrow> u64 list \<Rightarrow> db_error + u8 list" where
  "EncodeRemoveSubscribersCommandChecked channelID channelType uids version =
     bind_res (check_error (ValidateSubscriberCommandLimits uids)) (\<lambda>_.
       Inr (encodeSubscribersCommand cmdTypeRemoveSubscribers channelID channelType uids version))"

record Subscribers =
  sb_channelID :: "u8 list"
  sb_channelType :: u64
  sb_uids :: "u8 list list"
  sb_version :: u64

definition zero_Subscribers :: Subscribers where
  "zero_Subscribers =
     \<lparr>sb_channelID = [], sb_channelType = 0, sb_uids = [], sb_version = 0\<rparr>"

definition subscribers_field ::
  "u8 \<Rightarrow> u8 list \<Rightarrow> Subscribers \<times> u8 list \<Rightarrow> db_error + Subscribers \<times> u8 list" where
  "subscribers_field tag val s =
     (case s of (r, seen) \<Rightarrow>
        if tag = tagSubscriberChannelID then Inr (r\<lparr>sb_channelID := val\<rparr>, tagSubscriberChannelID # seen)
        else if tag = tagSubscriberChannelType
        then uint64_field val (\<lambda>v. (r\<lparr>sb_channelType := v\<rparr>, tagSubscriberChannelType # seen))
        else if tag = tagSubscriberUIDs then 
          bind_res (check_error (validateSubscriberCommandUIDBytes (length val))) (\<lambda>_.
          bind_res (check_error (validateSubscriberCommandUIDCount (length (decodeStringSet val)))) (\<lambda>_.
            Inr (r\<lparr>sb_uids := decodeStringSet val\<rparr>, tagSubscriberUIDs # seen)))
        else if tag = tagSubscriberMutationVersion then uint64_field val (\<lambda>v. (r\<lparr>sb_version := v\<rparr>, seen))
        else Inr (r, seen))"

definition decodeSubscribersCommand :: "u8 list \<Rightarrow> db_error + Subscribers" where
  "decodeSubscribersCommand data =
     finish [tagSubscriberChannelID, tagSubscriberChannelType, tagSubscriberUIDs]
       (tlv_loop subscribers_field data (zero_Subscribers, []))"

definition encodeUserChannelMembershipEntry :: "UserChannelMembership \<Rightarrow> bool \<Rightarrow> u8 list" where
  "encodeUserChannelMembershipEntry membership includeState =
     (let buf = [];
          buf = appendStringTLVField buf tagUserChannelMembershipEntryUID (um_UID membership);
          buf = appendStringTLVField buf tagUserChannelMembershipChannelID (um_ChannelID membership);
          buf = appendInt64TLVField buf tagUserChannelMembershipChannelType (um_ChannelType membership);
          buf = (if includeState then appendUint64TLVField buf tagUserChannelMembershipJoinSeq (um_JoinSeq membership) else buf);
          buf = (if includeState then appendInt64TLVField buf tagUserChannelMembershipUpdatedAt (um_UpdatedAt membership) else buf)
      in buf)"

definition zero_UserChannelMembership :: UserChannelMembership where
  "zero_UserChannelMembership =
     \<lparr>um_UID = [], um_ChannelID = [], um_ChannelType = 0, um_JoinSeq = 0, um_UpdatedAt = 0\<rparr>"

definition userChannelMembership_field ::
  "u8 \<Rightarrow> u8 list \<Rightarrow> UserChannelMembership \<times> u8 list \<Rightarrow> db_error + UserChannelMembership \<times> u8 list" where
  "userChannelMembership_field tag val s =
     (case s of (r, seen) \<Rightarrow>
        if tag = tagUserChannelMembershipEntryUID
        then Inr (r\<lparr>um_UID := val\<rparr>, tagUserChannelMembershipEntryUID # seen)
        else if tag = tagUserChannelMembershipChannelID
        then Inr (r\<lparr>um_ChannelID := val\<rparr>, tagUserChannelMembershipChannelID # seen)
        else if tag = tagUserChannelMembershipChannelType
        then uint64_field val (\<lambda>v. (r\<lparr>um_ChannelType := v\<rparr>, tagUserChannelMembershipChannelType # seen))
        else if tag = tagUserChannelMembershipJoinSeq
        then uint64_field val (\<lambda>v. (r\<lparr>um_JoinSeq := v\<rparr>, tagUserChannelMembershipJoinSeq # seen))
        else if tag = tagUserChannelMembershipUpdatedAt
        then uint64_field val (\<lambda>v. (r\<lparr>um_UpdatedAt := v\<rparr>, tagUserChannelMembershipUpdatedAt # seen))
        else Inr (r, seen))"

definition decodeUserChannelMembershipEntry :: "u8 list \<Rightarrow> bool \<Rightarrow> db_error + UserChannelMembership" where
  "decodeUserChannelMembershipEntry data requireState =
     finish ([tagUserChannelMembershipEntryUID, tagUserChannelMembershipChannelID, tagUserChannelMembershipChannelType]
         @ (if requireState then [tagUserChannelMembershipJoinSeq, tagUserChannelMembershipUpdatedAt] else []))
       (tlv_loop userChannelMembership_field data (zero_UserChannelMembership, []))"

text \<open>The loops that collect the entries under one tag.\<close>

definition entry_field ::
  "u8 \<Rightarrow> (u8 list \<Rightarrow> db_error + 'e) \<Rightarrow> u8 \<Rightarrow> u8 list \<Rightarrow> 'e list \<Rightarrow> db_error + 'e list" where
  "entry_field entryTag decode tag val entries =
     (if tag = entryTag then bind_res (decode val) (\<lambda>e. Inr (entries @ [e])) else Inr entries)"

definition decode_entries ::
  "u8 \<Rightarrow> (u8 list \<Rightarrow> db_error + 'e) \<Rightarrow> u8 list \<Rightarrow> db_error + 'e list" where
  "decode_entries entryTag decode data = tlv_loop (entry_field entryTag decode) data []"

definition nonempty :: "db_error + 'e list \<Rightarrow> db_error + 'e list" where
  "nonempty res = bind_res res (\<lambda>entries. if entries = [] then Inl DBErrInvalidArgument else Inr entries)"

definition encode_entries ::
  "u8 \<Rightarrow> u8 \<Rightarrow> ('e \<Rightarrow> u8 list) \<Rightarrow> 'e list \<Rightarrow> u8 list" where
  "encode_entries cmdType entryTag encode entries =
     foldl (\<lambda>buf e. appendBytesTLVField buf entryTag (encode e)) [commandVersion, cmdType] entries"

definition EncodeUpsertUserChannelMembershipsCommand :: "UserChannelMembership list \<Rightarrow> u8 list" where
  "EncodeUpsertUserChannelMembershipsCommand =
     encode_entries cmdTypeUpsertUserChannelMemberships tagUserChannelMembershipCommandEntry
       (\<lambda>m. encodeUserChannelMembershipEntry m True)"

definition EncodeDeleteUserChannelMembershipsCommand :: "UserChannelMembership list \<Rightarrow> u8 list" where
  "EncodeDeleteUserChannelMembershipsCommand =
     encode_entries cmdTypeDeleteUserChannelMemberships tagUserChannelMembershipCommandEntry
       (\<lambda>m. encodeUserChannelMembershipEntry m False)"

definition EncodeUpsertUserChannelMembershipsCommandChecked :: "UserChannelMembership list \<Rightarrow> db_error + u8 list" where
  "EncodeUpsertUserChannelMembershipsCommandChecked memberships =
     bind_res (check_error (ValidateSubscriberCommandLimits (map um_UID memberships))) (\<lambda>_.
       Inr (EncodeUpsertUserChannelMembershipsCommand memberships))"

definition EncodeDeleteUserChannelMembershipsCommandChecked :: "UserChannelMembership list \<Rightarrow> db_error + u8 list" where
  "EncodeDeleteUserChannelMembershipsCommandChecked memberships =
     bind_res (check_error (ValidateSubscriberCommandLimits (map um_UID memberships))) (\<lambda>_.
       Inr (EncodeDeleteUserChannelMembershipsCommand memberships))"

definition decodeUserChannelMembershipEntries ::
  "u8 list \<Rightarrow> bool \<Rightarrow> db_error + UserChannelMembership list" where
  "decodeUserChannelMembershipEntries data requireState =
     decode_entries tagUserChannelMembershipCommandEntry (\<lambda>val. decodeUserChannelMembershipEntry val requireState) data"

section \<open>Latest messages of channels\<close>

definition encodeChannelLatestRecord :: "ChannelLatest \<Rightarrow> u8 list" where
  "encodeChannelLatestRecord latest =
     (let buf = [];
          buf = appendStringTLVField buf tagChannelLatestChannelID (lt_ChannelID latest);
          buf = appendInt64TLVField buf tagChannelLatestChannelType (lt_ChannelType latest);
          buf = appendUint64TLVField buf tagChannelLatestLastMessageID (lt_LastMessageID latest);
          buf = appendUint64TLVField buf tagChannelLatestLastMessageSeq (lt_LastMessageSeq latest);
          buf = appendInt64TLVField buf tagChannelLatestLastAt (lt_LastAt latest);
          buf = appendStringTLVField buf tagChannelLatestFromUID (lt_FromUID latest);
          buf = appendStringTLVField buf tagChannelLatestClientMsgNo (lt_ClientMsgNo latest);
          buf = appendBytesTLVField buf tagChannelLatestPayload (lt_Payload latest);
          buf = appendInt64TLVField buf tagChannelLatestUpdatedAt (lt_UpdatedAt latest)
      in buf)"

definition zero_ChannelLatest :: ChannelLatest where
  "zero_ChannelLatest =
     \<lparr>lt_ChannelID = [], lt_ChannelType = 0, lt_LastMessageID = 0, lt_LastMessageSeq = 0, lt_LastAt = 0,
      lt_FromUID = [], lt_ClientMsgNo = [], lt_Payload = [], lt_UpdatedAt = 0\<rparr>"

definition channelLatestRecord_field ::
  "u8 \<Rightarrow> u8 list \<Rightarrow> ChannelLatest \<times> u8 list \<Rightarrow> db_error + ChannelLatest \<times> u8 list" where
  "channelLatestRecord_field tag val s =
     (case s of (r, seen) \<Rightarrow>
        if tag = tagChannelLatestChannelID then Inr (r\<lparr>lt_ChannelID := val\<rparr>, tagChannelLatestChannelID # seen)
        else if tag = tagChannelLatestChannelType
        then uint64_field val (\<lambda>v. (r\<lparr>lt_ChannelType := v\<rparr>, tagChannelLatestChannelType # seen))
        else if tag = tagChannelLatestLastMessageID
        then uint64_field val (\<lambda>v. (r\<lparr>lt_LastMessageID := v\<rparr>, tagChannelLatestLastMessageID # seen))
        else if tag = tagChannelLatestLastMessageSeq
        then uint64_field val (\<lambda>v. (r\<lparr>lt_LastMessageSeq := v\<rparr>, tagChannelLatestLastMessageSeq # seen))
        else if tag = tagChannelLatestLastAt
        then uint64_field val (\<lambda>v. (r\<lparr>lt_LastAt := v\<rparr>, tagChannelLatestLastAt # seen))
        else if tag = tagChannelLatestFromUID then Inr (r\<lparr>lt_FromUID := val\<rparr>, seen)
        else if tag = tagChannelLatestClientMsgNo then Inr (r\<lparr>lt_ClientMsgNo := val\<rparr>, seen)
        else if tag = tagChannelLatestPayload then Inr (r\<lparr>lt_Payload := val\<rparr>, seen)
        else if tag = tagChannelLatestUpdatedAt
        then uint64_field val (\<lambda>v. (r\<lparr>lt_UpdatedAt := v\<rparr>, tagChannelLatestUpdatedAt # seen))
        else Inr (r, seen))"

definition decodeChannelLatestRecord :: "u8 list \<Rightarrow> db_error + ChannelLatest" where
  "decodeChannelLatestRecord data =
     finish [tagChannelLatestChannelID, tagChannelLatestChannelType, tagChannelLatestLastMessageID, 
         tagChannelLatestLastMessageSeq, tagChannelLatestLastAt, tagChannelLatestUpdatedAt]
       (tlv_loop channelLatestRecord_field data (zero_ChannelLatest, []))"

definition EncodeUpsertChannelLatestCommand :: "ChannelLatest \<Rightarrow> u8 list" where
  "EncodeUpsertChannelLatestCommand latest = [commandVersion, cmdTypeUpsertChannelLatest] @ encodeChannelLatestRecord latest"

definition validateChannelLatest :: "ChannelLatest \<Rightarrow> db_error option" where
  "validateChannelLatest latest =
     (if lt_ChannelID latest = [] \<or> lt_ChannelType latest = 0 then Some DBErrInvalidArgument else None)"

record ChannelLatestBatchItem =
  li_HashSlot :: u16
  li_Latest :: ChannelLatest

definition encodeChannelLatestBatchItem :: "ChannelLatestBatchItem \<Rightarrow> u8 list" where
  "encodeChannelLatestBatchItem item =
     (let buf = appendUint64TLVField [] tagChannelLatestBatchEntryHashSlot (ucast (li_HashSlot item));
          buf = appendBytesTLVField buf tagChannelLatestBatchEntryRecord (encodeChannelLatestRecord (li_Latest item))
      in buf)"

definition EncodeUpsertChannelLatestBatchCommand :: "ChannelLatestBatchItem list \<Rightarrow> u8 list" where
  "EncodeUpsertChannelLatestBatchCommand =
     encode_entries cmdTypeUpsertChannelLatestBatch tagChannelLatestBatchEntry encodeChannelLatestBatchItem"

text \<open>The checked encoders refuse empty batches and rows the store would refuse.\<close>

fun first_error :: "('e \<Rightarrow> db_error option) \<Rightarrow> 'e list \<Rightarrow> db_error option" where
  "first_error check [] = None"
| "first_error check (e # es) = (case check e of Some err \<Rightarrow> Some err | None \<Rightarrow> first_error check es)"

definition checked ::
  "('e \<Rightarrow> db_error option) \<Rightarrow> ('e list \<Rightarrow> u8 list) \<Rightarrow> 'e list \<Rightarrow> db_error + u8 list" where
  "checked check encode items =
     (if items = [] then Inl DBErrInvalidArgument
      else case first_error check items of Some e \<Rightarrow> Inl e | None \<Rightarrow> Inr (encode items))"

definition EncodeUpsertChannelLatestCommandChecked :: "ChannelLatest \<Rightarrow> db_error + u8 list" where
  "EncodeUpsertChannelLatestCommandChecked latest =
     bind_res (check_error (validateChannelLatest latest)) (\<lambda>_. Inr (EncodeUpsertChannelLatestCommand latest))"

definition EncodeUpsertChannelLatestBatchCommandChecked :: "ChannelLatestBatchItem list \<Rightarrow> db_error + u8 list" where
  "EncodeUpsertChannelLatestBatchCommandChecked =
     checked (\<lambda>item. validateChannelLatest (li_Latest item)) EncodeUpsertChannelLatestBatchCommand"

definition channelLatestBatchItem_field ::
  "u8 \<Rightarrow> u8 list \<Rightarrow> ChannelLatestBatchItem \<times> u8 list \<Rightarrow> db_error + ChannelLatestBatchItem \<times> u8 list" where
  "channelLatestBatchItem_field tag val s =
     (case s of (r, seen) \<Rightarrow>
        if tag = tagChannelLatestBatchEntryHashSlot
        then bind_res (decodeHashSlotTLVValue val) (\<lambda>v. Inr (r\<lparr>li_HashSlot := v\<rparr>, tagChannelLatestBatchEntryHashSlot # seen))
        else if tag = tagChannelLatestBatchEntryRecord
        then bind_res (decodeChannelLatestRecord val) (\<lambda>v. Inr (r\<lparr>li_Latest := v\<rparr>, tagChannelLatestBatchEntryRecord # seen))
        else Inr (r, seen))"

definition decodeChannelLatestBatchItem :: "u8 list \<Rightarrow> db_error + ChannelLatestBatchItem" where
  "decodeChannelLatestBatchItem data =
     finish [tagChannelLatestBatchEntryHashSlot, tagChannelLatestBatchEntryRecord]
       (tlv_loop channelLatestBatchItem_field data (\<lparr>li_HashSlot = 0, li_Latest = zero_ChannelLatest\<rparr>, []))"

section \<open>Conversations\<close>

text \<open>A row of a batch may carry the hash slot it belongs to.\<close>

record 'r slot_entry =
  se_hashSlot :: "u16 option"
  se_row :: 'r

definition slot_field ::
  "u8 list \<Rightarrow> 'r slot_entry \<times> u8 list \<Rightarrow> db_error + 'r slot_entry \<times> u8 list" where
  "slot_field val s =
     (case s of (r, seen) \<Rightarrow> bind_res (decodeHashSlotTLVValue val) (\<lambda>v. Inr (r\<lparr>se_hashSlot := Some v\<rparr>, seen)))"

definition encodeConversationStateEntry :: "ConversationState \<Rightarrow> u8 list" where
  "encodeConversationStateEntry state =
     (let buf = [];
          buf = appendStringTLVField buf tagConversationStateEntryUID (st_UID state);
          buf = appendStringTLVField buf tagConversationStateEntryChannelID (st_ChannelID state);
          buf = appendInt64TLVField buf tagConversationStateEntryChannelType (st_ChannelType state);
          buf = appendUint64TLVField buf tagConversationStateEntryReadSeq (st_ReadSeq state);
          buf = appendUint64TLVField buf tagConversationStateEntryDeletedToSeq (st_DeletedToSeq state);
          buf = appendInt64TLVField buf tagConversationStateEntryActiveAt (st_ActiveAt state);
          buf = appendInt64TLVField buf tagConversationStateEntryUpdatedAt (st_UpdatedAt state);
          buf = appendBoolTLVField buf tagConversationStateEntrySparseActive (st_SparseActive state);
          buf = appendUint64TLVField buf tagConversationEntryKind (ucast (st_Kind state))
      in buf)"

definition encodeConversationStateBatchItem :: "u16 \<Rightarrow> ConversationState \<Rightarrow> u8 list" where
  "encodeConversationStateBatchItem hashSlot state =
     appendUint64TLVField (encodeConversationStateEntry state) tagConversationStateEntryHashSlot (ucast hashSlot)"

definition zero_ConversationState :: ConversationState where
  "zero_ConversationState =
     \<lparr>st_UID = [], st_Kind = 0, st_ChannelID = [], st_ChannelType = 0, st_ReadSeq = 0, st_DeletedToSeq = 0,
      st_ActiveAt = 0, st_UpdatedAt = 0, st_SparseActive = False\<rparr>"

definition conversationState_field ::
  "u8 \<Rightarrow> u8 list \<Rightarrow> ConversationState slot_entry \<times> u8 list \<Rightarrow> db_error + ConversationState slot_entry \<times> u8 list" where
  "conversationState_field tag val s =
     (case s of (r, seen) \<Rightarrow>
        if tag = tagConversationStateEntryUID
        then Inr (r\<lparr>se_row := (se_row r)\<lparr>st_UID := val\<rparr>\<rparr>, tagConversationStateEntryUID # seen)
        else if tag = tagConversationEntryKind
        then bind_res (decodeConversationKindTLVValue val) (\<lambda>v. Inr (r\<lparr>se_row := (se_row r)\<lparr>st_Kind := v\<rparr>\<rparr>, tagConversationEntryKind # seen))
        else if tag = tagConversationStateEntryChannelID
        then Inr (r\<lparr>se_row := (se_row r)\<lparr>st_ChannelID := val\<rparr>\<rparr>, tagConversationStateEntryChannelID # seen)
        else if tag = tagConversationStateEntryChannelType
        then uint64_field val (\<lambda>v. (r\<lparr>se_row := (se_row r)\<lparr>st_ChannelType := v\<rparr>\<rparr>, tagConversationStateEntryChannelType # seen))
        else if tag = tagConversationStateEntryReadSeq
        then uint64_field val (\<lambda>v. (r\<lparr>se_row := (se_row r)\<lparr>st_ReadSeq := v\<rparr>\<rparr>, tagConversationStateEntryReadSeq # seen))
        else if tag = tagConversationStateEntryDeletedToSeq
        then uint64_field val (\<lambda>v. (r\<lparr>se_row := (se_row r)\<lparr>st_DeletedToSeq := v\<rparr>\<rparr>, tagConversationStateEntryDeletedToSeq # seen))
        else if tag = tagConversationStateEntryActiveAt
        then uint64_field val (\<lambda>v. (r\<lparr>se_row := (se_row r)\<lparr>st_ActiveAt := v\<rparr>\<rparr>, tagConversationStateEntryActiveAt # seen))
        else if tag = tagConversationStateEntryUpdatedAt
        then uint64_field val (\<lambda>v. (r\<lparr>se_row := (se_row r)\<lparr>st_UpdatedAt := v\<rparr>\<rparr>, tagConversationStateEntryUpdatedAt # seen))
        else if tag = tagConversationStateEntrySparseActive
        then bind_res (decodeBoolTLVValue val) (\<lambda>v. Inr (r\<lparr>se_row := (se_row r)\<lparr>st_SparseActive := v\<rparr>\<rparr>, seen))
        else if tag = tagConversationStateEntryHashSlot then slot_field val (r, seen)
        else Inr (r, seen))"

definition decodeConversationStateEntry :: "u8 list \<Rightarrow> db_error + ConversationState slot_entry" where
  "decodeConversationStateEntry data =
     finish [tagConversationStateEntryUID, tagConversationEntryKind, tagConversationStateEntryChannelID, 
         tagConversationStateEntryChannelType, tagConversationStateEntryReadSeq, 
         tagConversationStateEntryDeletedToSeq, tagConversationStateEntryActiveAt, 
         tagConversationStateEntryUpdatedAt]
       (tlv_loop conversationState_field data (\<lparr>se_hashSlot = None, se_row = zero_ConversationState\<rparr>, []))"

definition validateConversationState :: "ConversationState \<Rightarrow> db_error option" where
  "validateConversationState state =
     (case validateConversationKind (st_Kind state) of
        Some e \<Rightarrow> Some e
      | None \<Rightarrow>
          if st_UID state = [] \<or> st_ChannelID state = [] \<or> st_ChannelType state = 0 then Some DBErrInvalidArgument else None)"

definition encodeConversationActivePatchEntry :: "ConversationActivePatch \<Rightarrow> u8 list" where
  "encodeConversationActivePatchEntry patch =
     (let buf = [];
          buf = appendStringTLVField buf tagConversationActivePatchEntryUID (pa_UID patch);
          buf = appendStringTLVField buf tagConversationActivePatchEntryChannelID (pa_ChannelID patch);
          buf = appendInt64TLVField buf tagConversationActivePatchEntryChannelType (pa_ChannelType patch);
          buf = appendUint64TLVField buf tagConversationActivePatchReadSeq (pa_ReadSeq patch);
          buf = appendUint64TLVField buf tagConversationActivePatchDeletedToSeq (pa_DeletedToSeq patch);
          buf = appendInt64TLVField buf tagConversationActivePatchEntryActiveAt (pa_ActiveAt patch);
          buf = appendInt64TLVField buf tagConversationActivePatchUpdatedAt (pa_UpdatedAt patch);
          buf = appendUint64TLVField buf tagConversationActivePatchEntryMessageSeq (pa_MessageSeq patch);
          buf = appendBoolTLVField buf tagConversationActivePatchSparseActive (pa_SparseActive patch);
          buf = appendBoolTLVField buf tagConversationActivePatchSparseActiveSet (pa_SparseActiveSet patch);
          buf = appendUint64TLVField buf tagConversationEntryKind (ucast (pa_Kind patch))
      in buf)"

definition encodeConversationActivePatchBatchItem :: "u16 \<Rightarrow> ConversationActivePatch \<Rightarrow> u8 list" where
  "encodeConversationActivePatchBatchItem hashSlot patch =
     appendUint64TLVField (encodeConversationActivePatchEntry patch) tagConversationActivePatchHashSlot (ucast hashSlot)"

definition zero_ConversationActivePatch :: ConversationActivePatch where
  "zero_ConversationActivePatch =
     \<lparr>pa_UID = [], pa_Kind = 0, pa_ChannelID = [], pa_ChannelType = 0, pa_ReadSeq = 0, pa_DeletedToSeq = 0,
      pa_ActiveAt = 0, pa_UpdatedAt = 0, pa_MessageSeq = 0, pa_SparseActive = False, pa_SparseActiveSet = False\<rparr>"

definition conversationActivePatch_field ::
  "u8 \<Rightarrow> u8 list \<Rightarrow> ConversationActivePatch slot_entry \<times> u8 list \<Rightarrow> db_error + ConversationActivePatch slot_entry \<times> u8 list" where
  "conversationActivePatch_field tag val s =
     (case s of (r, seen) \<Rightarrow>
        if tag = tagConversationActivePatchEntryUID
        then Inr (r\<lparr>se_row := (se_row r)\<lparr>pa_UID := val\<rparr>\<rparr>, tagConversationActivePatchEntryUID # seen)
        else if tag = tagConversationEntryKind
        then bind_res (decodeConversationKindTLVValue val) (\<lambda>v. Inr (r\<lparr>se_row := (se_row r)\<lparr>pa_Kind := v\<rparr>\<rparr>, tagConversationEntryKind # seen))
        else if tag = tagConversationActivePatchEntryChannelID
        then Inr (r\<lparr>se_row := (se_row r)\<lparr>pa_ChannelID := val\<rparr>\<rparr>, tagConversationActivePatchEntryChannelID # seen)
        else if tag = tagConversationActivePatchEntryChannelType
        then uint64_field val (\<lambda>v. (r\<lparr>se_row := (se_row r)\<lparr>pa_ChannelType := v\<rparr>\<rparr>, tagConversationActivePatchEntryChannelType # seen))
        else if tag = tagConversationActivePatchReadSeq
        then uint64_field val (\<lambda>v. (r\<lparr>se_row := (se_row r)\<lparr>pa_ReadSeq := v\<rparr>\<rparr>, seen))
        else if tag = tagConversationActivePatchDeletedToSeq
        then uint64_field val (\<lambda>v. (r\<lparr>se_row := (se_row r)\<lparr>pa_DeletedToSeq := v\<rparr>\<rparr>, seen))
        else if tag = tagConversationActivePatchEntryActiveAt
        then uint64_field val (\<lambda>v. (r\<lparr>se_row := (se_row r)\<lparr>pa_ActiveAt := v\<rparr>\<rparr>, seen))
        else if tag = tagConversationActivePatchUpdatedAt
        then uint64_field val (\<lambda>v. (r\<lparr>se_row := (se_row r)\<lparr>pa_UpdatedAt := v\<rparr>\<rparr>, seen))
        else if tag = tagConversationActivePatchEntryMessageSeq
        then uint64_field val (\<lambda>v. (r\<lparr>se_row := (se_row r)\<lparr>pa_MessageSeq := v\<rparr>\<rparr>, seen))
        else if tag = tagConversationActivePatchSparseActive
        then bind_res (decodeBoolTLVValue val) (\<lambda>v. Inr (r\<lparr>se_row := (se_row r)\<lparr>pa_SparseActive := v\<rparr>\<rparr>, seen))
        else if tag = tagConversationActivePatchSparseActiveSet
        then bind_res (decodeBoolTLVValue val) (\<lambda>v. Inr (r\<lparr>se_row := (se_row r)\<lparr>pa_SparseActiveSet := v\<rparr>\<rparr>, seen))
        else if tag = tagConversationActivePatchHashSlot then slot_field val (r, seen)
        else Inr (r, seen))"

definition decodeConversationActivePatchEntry :: "u8 list \<Rightarrow> db_error + ConversationActivePatch slot_entry" where
  "decodeConversationActivePatchEntry data =
     finish [tagConversationActivePatchEntryUID, tagConversationEntryKind, tagConversationActivePatchEntryChannelID, 
         tagConversationActivePatchEntryChannelType]
       (tlv_loop conversationActivePatch_field data (\<lparr>se_hashSlot = None, se_row = zero_ConversationActivePatch\<rparr>, []))"

definition validateConversationActivePatch :: "ConversationActivePatch \<Rightarrow> db_error option" where
  "validateConversationActivePatch patch =
     (case validateConversationKind (pa_Kind patch) of
        Some e \<Rightarrow> Some e
      | None \<Rightarrow>
          if pa_UID patch = [] \<or> pa_ChannelID patch = [] \<or> pa_ChannelType patch = 0 then Some DBErrInvalidArgument else None)"

definition encodeConversationDeleteEntry :: "ConversationDelete \<Rightarrow> u8 list" where
  "encodeConversationDeleteEntry req =
     (let buf = [];
          buf = appendStringTLVField buf tagConversationDeleteEntryUID (cd_UID req);
          buf = appendStringTLVField buf tagConversationDeleteEntryChannelID (cd_ChannelID req);
          buf = appendInt64TLVField buf tagConversationDeleteEntryChannelType (cd_ChannelType req);
          buf = appendUint64TLVField buf tagConversationDeleteEntryDeletedToSeq (cd_DeletedToSeq req);
          buf = appendInt64TLVField buf tagConversationDeleteEntryUpdatedAt (cd_UpdatedAt req);
          buf = appendUint64TLVField buf tagConversationEntryKind (ucast (cd_Kind req))
      in buf)"

definition encodeConversationDeleteBatchItem :: "u16 \<Rightarrow> ConversationDelete \<Rightarrow> u8 list" where
  "encodeConversationDeleteBatchItem hashSlot req =
     appendUint64TLVField (encodeConversationDeleteEntry req) tagConversationDeleteEntryHashSlot (ucast hashSlot)"

definition zero_ConversationDelete :: ConversationDelete where
  "zero_ConversationDelete =
     \<lparr>cd_UID = [], cd_Kind = 0, cd_ChannelID = [], cd_ChannelType = 0, cd_DeletedToSeq = 0, cd_UpdatedAt = 0\<rparr>"

definition conversationDelete_field ::
  "u8 \<Rightarrow> u8 list \<Rightarrow> ConversationDelete slot_entry \<times> u8 list \<Rightarrow> db_error + ConversationDelete slot_entry \<times> u8 list" where
  "conversationDelete_field tag val s =
     (case s of (r, seen) \<Rightarrow>
        if tag = tagConversationDeleteEntryUID
        then Inr (r\<lparr>se_row := (se_row r)\<lparr>cd_UID := val\<rparr>\<rparr>, tagConversationDeleteEntryUID # seen)
        else if tag = tagConversationEntryKind
        then bind_res (decodeConversationKindTLVValue val) (\<lambda>v. Inr (r\<lparr>se_row := (se_row r)\<lparr>cd_Kind := v\<rparr>\<rparr>, tagConversationEntryKind # seen))
        else if tag = tagConversationDeleteEntryChannelID
        then Inr (r\<lparr>se_row := (se_row r)\<lparr>cd_ChannelID := val\<rparr>\<rparr>, tagConversationDeleteEntryChannelID # seen)
        else if tag = tagConversationDeleteEntryChannelType
        then uint64_field val (\<lambda>v. (r\<lparr>se_row := (se_row r)\<lparr>cd_ChannelType := v\<rparr>\<rparr>, tagConversationDeleteEntryChannelType # seen))
        else if tag = tagConversationDeleteEntryDeletedToSeq
        then uint64_field val (\<lambda>v. (r\<lparr>se_row := (se_row r)\<lparr>cd_DeletedToSeq := v\<rparr>\<rparr>, tagConversationDeleteEntryDeletedToSeq # seen))
        else if tag = tagConversationDeleteEntryUpdatedAt
        then uint64_field val (\<lambda>v. (r\<lparr>se_row := (se_row r)\<lparr>cd_UpdatedAt := v\<rparr>\<rparr>, tagConversationDeleteEntryUpdatedAt # seen))
        else if tag = tagConversationDeleteEntryHashSlot then slot_field val (r, seen)
        else Inr (r, seen))"

definition decodeConversationDeleteEntry :: "u8 list \<Rightarrow> db_error + ConversationDelete slot_entry" where
  "decodeConversationDeleteEntry data =
     finish [tagConversationDeleteEntryUID, tagConversationEntryKind, tagConversationDeleteEntryChannelID, 
         tagConversationDeleteEntryChannelType, tagConversationDeleteEntryDeletedToSeq, 
         tagConversationDeleteEntryUpdatedAt]
       (tlv_loop conversationDelete_field data (\<lparr>se_hashSlot = None, se_row = zero_ConversationDelete\<rparr>, []))"

definition validateConversationDelete :: "ConversationDelete \<Rightarrow> db_error option" where
  "validateConversationDelete req =
     (case validateConversationKind (cd_Kind req) of
        Some e \<Rightarrow> Some e
      | None \<Rightarrow>
          if cd_UID req = [] \<or> cd_ChannelID req = [] \<or> cd_ChannelType req = 0 then Some DBErrInvalidArgument else None)"

definition validateConversationBatchHashSlot :: "u16 \<Rightarrow> u8 list \<Rightarrow> u16 \<Rightarrow> db_error option" where
  "validateConversationBatchHashSlot hashSlot uid hashSlotCount =
     (if hashSlotCount = 0 then Some DBErrInvalidArgument
      else if hashSlotCount \<le> hashSlot then Some DBErrInvalidArgument
      else if hashSlot \<noteq> HashSlotForKey uid hashSlotCount then Some DBErrInvalidArgument else None)"

definition EncodeUpsertConversationStatesCommand :: "ConversationState list \<Rightarrow> u8 list" where
  "EncodeUpsertConversationStatesCommand = encode_entries cmdTypeUpsertConversationStates tagConversationStateCommandEntry encodeConversationStateEntry"

definition EncodeUpsertConversationStatesCommandChecked :: "ConversationState list \<Rightarrow> db_error + u8 list" where
  "EncodeUpsertConversationStatesCommandChecked = checked validateConversationState EncodeUpsertConversationStatesCommand"

definition EncodeUpsertConversationStateBatchCommand :: "(u16 \<times> ConversationState) list \<Rightarrow> u8 list" where
  "EncodeUpsertConversationStateBatchCommand = encode_entries cmdTypeUpsertConversationStates tagConversationStateCommandEntry (\<lambda>(h, r). encodeConversationStateBatchItem h r)"

definition EncodeUpsertConversationStateBatchCommandChecked ::
  "u16 \<Rightarrow> (u16 \<times> ConversationState) list \<Rightarrow> db_error + u8 list" where
  "EncodeUpsertConversationStateBatchCommandChecked hashSlotCount =
     checked (\<lambda>(h, r). case validateConversationState r of
         Some e \<Rightarrow> Some e
       | None \<Rightarrow> validateConversationBatchHashSlot h (st_UID r) hashSlotCount) EncodeUpsertConversationStateBatchCommand"

definition decodeConversationStateEntries :: "u8 list \<Rightarrow> db_error + ConversationState slot_entry list" where
  "decodeConversationStateEntries = decode_entries tagConversationStateCommandEntry decodeConversationStateEntry"

definition EncodeTouchConversationActiveAtCommand :: "ConversationActivePatch list \<Rightarrow> u8 list" where
  "EncodeTouchConversationActiveAtCommand = encode_entries cmdTypeTouchConversationActiveAt tagConversationActivePatchCommandEntry encodeConversationActivePatchEntry"

definition EncodeTouchConversationActiveAtCommandChecked :: "ConversationActivePatch list \<Rightarrow> db_error + u8 list" where
  "EncodeTouchConversationActiveAtCommandChecked = checked validateConversationActivePatch EncodeTouchConversationActiveAtCommand"

definition EncodeTouchConversationActiveAtBatchCommand ::
  "(u16 \<times> ConversationActivePatch) list \<Rightarrow> u8 list" where
  "EncodeTouchConversationActiveAtBatchCommand = encode_entries cmdTypeTouchConversationActiveAt tagConversationActivePatchCommandEntry (\<lambda>(h, r). encodeConversationActivePatchBatchItem h r)"

definition EncodeTouchConversationActiveAtBatchCommandChecked ::
  "u16 \<Rightarrow> (u16 \<times> ConversationActivePatch) list \<Rightarrow> db_error + u8 list" where
  "EncodeTouchConversationActiveAtBatchCommandChecked hashSlotCount =
     checked (\<lambda>(h, r). case validateConversationActivePatch r of
         Some e \<Rightarrow> Some e
       | None \<Rightarrow> validateConversationBatchHashSlot h (pa_UID r) hashSlotCount) EncodeTouchConversationActiveAtBatchCommand"

definition decodeConversationActivePatchEntries ::
  "u8 list \<Rightarrow> db_error + ConversationActivePatch slot_entry list" where
  "decodeConversationActivePatchEntries = decode_entries tagConversationActivePatchCommandEntry decodeConversationActivePatchEntry"

definition EncodeHideConversationsCommand :: "ConversationDelete list \<Rightarrow> u8 list" where
  "EncodeHideConversationsCommand = encode_entries cmdTypeHideConversations tagConversationDeleteCommandEntry encodeConversationDeleteEntry"

definition EncodeHideConversationsCommandChecked :: "ConversationDelete list \<Rightarrow> db_error + u8 list" where
  "EncodeHideConversationsCommandChecked = checked validateConversationDelete EncodeHideConversationsCommand"

definition EncodeHideConversationBatchCommand :: "(u16 \<times> ConversationDelete) list \<Rightarrow> u8 list" where
  "EncodeHideConversationBatchCommand = encode_entries cmdTypeHideConversations tagConversationDeleteCommandEntry (\<lambda>(h, r). encodeConversationDeleteBatchItem h r)"

definition EncodeHideConversationBatchCommandChecked ::
  "u16 \<Rightarrow> (u16 \<times> ConversationDelete) list \<Rightarrow> db_error + u8 list" where
  "EncodeHideConversationBatchCommandChecked hashSlotCount =
     checked (\<lambda>(h, r). case validateConversationDelete r of
         Some e \<Rightarrow> Some e
       | None \<Rightarrow> validateConversationBatchHashSlot h (cd_UID r) hashSlotCount) EncodeHideConversationBatchCommand"

definition decodeConversationDeleteEntries :: "u8 list \<Rightarrow> db_error + ConversationDelete slot_entry list" where
  "decodeConversationDeleteEntries = decode_entries tagConversationDeleteCommandEntry decodeConversationDeleteEntry"

definition encodeConversationKeyEntry :: "ConversationKey \<Rightarrow> u8 list" where
  "encodeConversationKeyEntry key =
     (let buf = [];
          buf = appendStringTLVField buf tagConversationKeyEntryChannelID (ck_ChannelID key);
          buf = appendInt64TLVField buf tagConversationKeyEntryChannelType (ck_ChannelType key)
      in buf)"

definition conversationKeyEntry_field ::
  "u8 \<Rightarrow> u8 list \<Rightarrow> ConversationKey \<times> u8 list \<Rightarrow> db_error + ConversationKey \<times> u8 list" where
  "conversationKeyEntry_field tag val s =
     (case s of (r, seen) \<Rightarrow>
        if tag = tagConversationKeyEntryChannelID
        then Inr (r\<lparr>ck_ChannelID := val\<rparr>, tagConversationKeyEntryChannelID # seen)
        else if tag = tagConversationKeyEntryChannelType
        then uint64_field val (\<lambda>v. (r\<lparr>ck_ChannelType := v\<rparr>, tagConversationKeyEntryChannelType # seen))
        else Inr (r, seen))"

definition decodeConversationKeyEntry :: "u8 list \<Rightarrow> db_error + ConversationKey" where
  "decodeConversationKeyEntry data =
     finish [tagConversationKeyEntryChannelID, tagConversationKeyEntryChannelType]
       (tlv_loop conversationKeyEntry_field data (zero_ConversationKey, []))"

definition EncodeClearConversationActiveAtCommand ::
  "ConversationKind \<Rightarrow> u8 list \<Rightarrow> ConversationKey list \<Rightarrow> u8 list" where
  "EncodeClearConversationActiveAtCommand kind uid keys =
     (let buf = [commandVersion, cmdTypeClearConversationActiveAt];
          buf = appendUint64TLVField buf tagClearConversationActiveKind (ucast kind);
          buf = appendStringTLVField buf tagClearConversationActiveUID uid
      in foldl (\<lambda>buf key. appendBytesTLVField buf tagClearConversationActiveKey (encodeConversationKeyEntry key)) buf keys)"

record ClearActive =
  ca_kind :: ConversationKind
  ca_uid :: "u8 list"
  ca_keys :: "ConversationKey list"

definition clearConversationActiveAt_field ::
  "u8 \<Rightarrow> u8 list \<Rightarrow> ClearActive \<times> u8 list \<Rightarrow> db_error + ClearActive \<times> u8 list" where
  "clearConversationActiveAt_field tag val s =
     (case s of (r, seen) \<Rightarrow>
        if tag = tagClearConversationActiveKind
        then bind_res (decodeConversationKindTLVValue val) (\<lambda>v. Inr (r\<lparr>ca_kind := v\<rparr>, tagClearConversationActiveKind # seen))
        else if tag = tagClearConversationActiveUID
        then Inr (r\<lparr>ca_uid := val\<rparr>, tagClearConversationActiveUID # seen)
        else if tag = tagClearConversationActiveKey
        then bind_res (decodeConversationKeyEntry val) (\<lambda>key. Inr (r\<lparr>ca_keys := ca_keys r @ [key]\<rparr>, seen))
        else Inr (r, seen))"

definition decodeClearConversationActiveAt :: "u8 list \<Rightarrow> db_error + ClearActive" where
  "decodeClearConversationActiveAt data =
     bind_res (tlv_loop clearConversationActiveAt_field data (\<lparr>ca_kind = 0, ca_uid = [], ca_keys = []\<rparr>, [])) (\<lambda>(r, seen).
       if \<not> have_all [tagClearConversationActiveKind, tagClearConversationActiveUID] seen then Inl DBErrInvalidArgument
       else if ca_keys r = [] then Inl DBErrInvalidArgument else Inr r)"

text \<open>The older encoders go through the rows of their kind.\<close>

definition userConversationStatesToConversation :: "UserConversationState list \<Rightarrow> ConversationState list" where
  "userConversationStatesToConversation =
     map (\<lambda>r. \<lparr>st_UID = uc_UID r, st_Kind = ConversationKindNormal, st_ChannelID = uc_ChannelID r,
        st_ChannelType = uc_ChannelType r, st_ReadSeq = uc_ReadSeq r, st_DeletedToSeq = uc_DeletedToSeq r,
        st_ActiveAt = uc_ActiveAt r, st_UpdatedAt = uc_UpdatedAt r, st_SparseActive = uc_SparseActive r\<rparr>)"

definition userConversationActivePatchesToConversation ::
  "UserConversationActivePatch list \<Rightarrow> ConversationActivePatch list" where
  "userConversationActivePatchesToConversation =
     map (\<lambda>r. \<lparr>pa_UID = up_UID r, pa_Kind = ConversationKindNormal, pa_ChannelID = up_ChannelID r,
        pa_ChannelType = up_ChannelType r, pa_ReadSeq = up_ReadSeq r, pa_DeletedToSeq = up_DeletedToSeq r,
        pa_ActiveAt = up_ActiveAt r, pa_UpdatedAt = up_UpdatedAt r, pa_MessageSeq = up_MessageSeq r,
        pa_SparseActive = up_SparseActive r, pa_SparseActiveSet = up_SparseActiveSet r\<rparr>)"

definition userConversationDeletesToConversation :: "UserConversationDelete list \<Rightarrow> ConversationDelete list" where
  "userConversationDeletesToConversation =
     map (\<lambda>r. \<lparr>cd_UID = ud_UID r, cd_Kind = ConversationKindNormal, cd_ChannelID = ud_ChannelID r,
        cd_ChannelType = ud_ChannelType r, cd_DeletedToSeq = ud_DeletedToSeq r,
        cd_UpdatedAt = ud_UpdatedAt r\<rparr>)"

definition cmdConversationStatesToConversation :: "CMDConversationState list \<Rightarrow> ConversationState list" where
  "cmdConversationStatesToConversation =
     map (\<lambda>r. \<lparr>st_UID = mc_UID r, st_Kind = ConversationKindCMD, st_ChannelID = mc_ChannelID r,
        st_ChannelType = mc_ChannelType r, st_ReadSeq = mc_ReadSeq r, st_DeletedToSeq = mc_DeletedToSeq r,
        st_ActiveAt = mc_ActiveAt r, st_UpdatedAt = mc_UpdatedAt r, st_SparseActive = False\<rparr>)"

definition cmdConversationReadPatchesToConversation ::
  "CMDConversationReadPatch list \<Rightarrow> ConversationActivePatch list" where
  "cmdConversationReadPatchesToConversation =
     map (\<lambda>r. \<lparr>pa_UID = mr_UID r, pa_Kind = ConversationKindCMD, pa_ChannelID = mr_ChannelID r,
        pa_ChannelType = mr_ChannelType r, pa_ReadSeq = mr_ReadSeq r, pa_DeletedToSeq = 0, pa_ActiveAt = 0,
        pa_UpdatedAt = mr_UpdatedAt r, pa_MessageSeq = 0, pa_SparseActive = False,
        pa_SparseActiveSet = False\<rparr>)"

definition EncodeUpsertUserConversationStatesCommand :: "UserConversationState list \<Rightarrow> u8 list" where
  "EncodeUpsertUserConversationStatesCommand states = EncodeUpsertConversationStatesCommand (userConversationStatesToConversation states)"

definition EncodeTouchUserConversationActiveAtCommand :: "UserConversationActivePatch list \<Rightarrow> u8 list" where
  "EncodeTouchUserConversationActiveAtCommand patches = EncodeTouchConversationActiveAtCommand (userConversationActivePatchesToConversation patches)"

definition EncodeHideUserConversationsCommand :: "UserConversationDelete list \<Rightarrow> u8 list" where
  "EncodeHideUserConversationsCommand deletes = EncodeHideConversationsCommand (userConversationDeletesToConversation deletes)"

definition EncodeUpsertCMDConversationStatesCommand :: "CMDConversationState list \<Rightarrow> u8 list" where
  "EncodeUpsertCMDConversationStatesCommand states = EncodeUpsertConversationStatesCommand (cmdConversationStatesToConversation states)"

definition EncodeAdvanceCMDConversationReadSeqCommand :: "CMDConversationReadPatch list \<Rightarrow> u8 list" where
  "EncodeAdvanceCMDConversationReadSeqCommand patches = EncodeTouchConversationActiveAtCommand (cmdConversationReadPatchesToConversation patches)"

definition EncodeClearUserConversationActiveAtCommand :: "u8 list \<Rightarrow> ConversationKey list \<Rightarrow> u8 list" where
  "EncodeClearUserConversationActiveAtCommand uid keys = EncodeClearConversationActiveAtCommand ConversationKindNormal uid keys"

section \<open>Plugin bindings\<close>

definition EncodeBindPluginUserCommand :: "PluginUserBinding \<Rightarrow> u8 list" where
  "EncodeBindPluginUserCommand binding =
     (let buf = [commandVersion, cmdTypeBindPluginUser];
          buf = appendStringTLVField buf tagPluginUserBindingUID (pb_UID binding);
          buf = appendStringTLVField buf tagPluginUserBindingPluginNo (pb_PluginNo binding);
          buf = appendInt64TLVField buf tagPluginUserBindingCreatedAtMS (pb_CreatedAtMS binding);
          buf = appendInt64TLVField buf tagPluginUserBindingUpdatedAtMS (pb_UpdatedAtMS binding)
      in buf)"

definition EncodeUnbindPluginUserCommand :: "u8 list \<Rightarrow> u8 list \<Rightarrow> u8 list" where
  "EncodeUnbindPluginUserCommand uid pluginNo =
     (let buf = [commandVersion, cmdTypeUnbindPluginUser];
          buf = appendStringTLVField buf tagPluginUserBindingUID uid;
          buf = appendStringTLVField buf tagPluginUserBindingPluginNo pluginNo
      in buf)"

definition zero_PluginUserBinding :: PluginUserBinding where
  "zero_PluginUserBinding =
     \<lparr>pb_UID = [], pb_PluginNo = [], pb_CreatedAtMS = 0, pb_UpdatedAtMS = 0\<rparr>"

definition pluginUserBinding_field ::
  "u8 \<Rightarrow> u8 list \<Rightarrow> PluginUserBinding \<times> u8 list \<Rightarrow> db_error + PluginUserBinding \<times> u8 list" where
  "pluginUserBinding_field tag val s =
     (case s of (r, seen) \<Rightarrow>
        if tag = tagPluginUserBindingUID then Inr (r\<lparr>pb_UID := val\<rparr>, tagPluginUserBindingUID # seen)
        else if tag = tagPluginUserBindingPluginNo
        then Inr (r\<lparr>pb_PluginNo := val\<rparr>, tagPluginUserBindingPluginNo # seen)
        else if tag = tagPluginUserBindingCreatedAtMS
        then uint64_field val (\<lambda>v. (r\<lparr>pb_CreatedAtMS := v\<rparr>, tagPluginUserBindingCreatedAtMS # seen))
        else if tag = tagPluginUserBindingUpdatedAtMS
        then uint64_field val (\<lambda>v. (r\<lparr>pb_UpdatedAtMS := v\<rparr>, tagPluginUserBindingUpdatedAtMS # seen))
        else Inr (r, seen))"

definition decodePluginUserBindingFields :: "u8 list \<Rightarrow> db_error + PluginUserBinding \<times> u8 list" where
  "decodePluginUserBindingFields data = tlv_loop pluginUserBinding_field data (zero_PluginUserBinding, [])"

definition decodeBindPluginUser :: "u8 list \<Rightarrow> db_error + PluginUserBinding" where
  "decodeBindPluginUser data =
     finish [tagPluginUserBindingUID, tagPluginUserBindingPluginNo, tagPluginUserBindingCreatedAtMS, tagPluginUserBindingUpdatedAtMS]
       (decodePluginUserBindingFields data)"

definition decodeUnbindPluginUser :: "u8 list \<Rightarrow> db_error + PluginUserBinding" where
  "decodeUnbindPluginUser data =
     finish [tagPluginUserBindingUID, tagPluginUserBindingPluginNo] (decodePluginUserBindingFields data)"

section \<open>Hash-slot migrations\<close>

record applyDelta =
  ad_SourceSlotID :: u64
  ad_SourceIndex :: u64
  ad_HashSlot :: u16
  ad_OriginalCmd :: "u8 list"

definition EncodeApplyDeltaCommand :: "u64 \<Rightarrow> u64 \<Rightarrow> u16 \<Rightarrow> u8 list \<Rightarrow> u8 list" where
  "EncodeApplyDeltaCommand sourceSlotID sourceIndex hashSlot originalCmd =
     (let buf = [commandVersion, cmdTypeApplyDelta];
          buf = appendUint64TLVField buf tagApplyDeltaSourceSlotID sourceSlotID;
          buf = appendUint64TLVField buf tagApplyDeltaSourceIndex sourceIndex;
          buf = appendUint64TLVField buf tagApplyDeltaHashSlot (ucast hashSlot);
          buf = appendBytesTLVField buf tagApplyDeltaOriginalCmd originalCmd
      in buf)"

definition zero_applyDelta :: applyDelta where
  "zero_applyDelta =
     \<lparr>ad_SourceSlotID = 0, ad_SourceIndex = 0, ad_HashSlot = 0, ad_OriginalCmd = []\<rparr>"

definition applyDelta_field ::
  "u8 \<Rightarrow> u8 list \<Rightarrow> applyDelta \<times> u8 list \<Rightarrow> db_error + applyDelta \<times> u8 list" where
  "applyDelta_field tag val s =
     (case s of (r, seen) \<Rightarrow>
        if tag = tagApplyDeltaSourceSlotID
        then uint64_field val (\<lambda>v. (r\<lparr>ad_SourceSlotID := v\<rparr>, tagApplyDeltaSourceSlotID # seen))
        else if tag = tagApplyDeltaSourceIndex
        then uint64_field val (\<lambda>v. (r\<lparr>ad_SourceIndex := v\<rparr>, tagApplyDeltaSourceIndex # seen))
        else if tag = tagApplyDeltaHashSlot
        then bind_res (decodeHashSlotTLVValue val) (\<lambda>v. Inr (r\<lparr>ad_HashSlot := v\<rparr>, tagApplyDeltaHashSlot # seen))
        else if tag = tagApplyDeltaOriginalCmd then Inr (r\<lparr>ad_OriginalCmd := val\<rparr>, tagApplyDeltaOriginalCmd # seen)
        else Inr (r, seen))"

definition decodeApplyDelta :: "u8 list \<Rightarrow> db_error + applyDelta" where
  "decodeApplyDelta data =
     finish [tagApplyDeltaSourceSlotID, tagApplyDeltaSourceIndex, tagApplyDeltaHashSlot, tagApplyDeltaOriginalCmd]
       (tlv_loop applyDelta_field data (zero_applyDelta, []))"

record enterFence =
  ef_HashSlot :: u16
  ef_Target :: u64

definition EncodeEnterFenceCommand :: "u16 \<Rightarrow> u8 list" where
  "EncodeEnterFenceCommand hashSlot =
     appendUint64TLVField [commandVersion, cmdTypeEnterFence] tagEnterFenceHashSlot (ucast hashSlot)"

definition EncodeEnterFenceCommandForTarget :: "u16 \<Rightarrow> u64 \<Rightarrow> u8 list" where
  "EncodeEnterFenceCommandForTarget hashSlot target =
     appendUint64TLVField (EncodeEnterFenceCommand hashSlot) tagEnterFenceTarget target"

definition enterFence_field ::
  "u8 \<Rightarrow> u8 list \<Rightarrow> enterFence \<times> u8 list \<Rightarrow> db_error + enterFence \<times> u8 list" where
  "enterFence_field tag val s =
     (case s of (r, seen) \<Rightarrow>
        if tag = tagEnterFenceHashSlot
        then bind_res (decodeHashSlotTLVValue val) (\<lambda>v. Inr (r\<lparr>ef_HashSlot := v\<rparr>, tagEnterFenceHashSlot # seen))
        else if tag = tagEnterFenceTarget then uint64_field val (\<lambda>v. (r\<lparr>ef_Target := v\<rparr>, seen))
        else Inr (r, seen))"

definition decodeEnterFence :: "u8 list \<Rightarrow> db_error + enterFence" where
  "decodeEnterFence data =
     finish [tagEnterFenceHashSlot] (tlv_loop enterFence_field data (\<lparr>ef_HashSlot = 0, ef_Target = 0\<rparr>, []))"

text \<open>Acknowledging and cleaning up the outbox share their fields; here a value of another length is refused before its tag is looked at.\<close>

record outboxIdentity =
  oi_HashSlot :: u16
  oi_SourceSlot :: u64
  oi_TargetSlot :: u64
  oi_Index :: u64

definition EncodeAckHashSlotMigrationOutboxCommand ::
  "u16 \<Rightarrow> u64 \<Rightarrow> u64 \<Rightarrow> u64 \<Rightarrow> u8 list" where
  "EncodeAckHashSlotMigrationOutboxCommand hashSlot sourceSlot targetSlot sourceIndex =
     (let buf = [commandVersion, cmdTypeAckMigrationOutbox];
          buf = appendUint64TLVField buf tagMigrationOutboxHashSlot (ucast hashSlot);
          buf = appendUint64TLVField buf tagMigrationOutboxSourceSlot sourceSlot;
          buf = appendUint64TLVField buf tagMigrationOutboxTargetSlot targetSlot;
          buf = appendUint64TLVField buf tagMigrationOutboxSourceIndex sourceIndex
      in buf)"

definition EncodeCleanupHashSlotMigrationOutboxCommand ::
  "u16 \<Rightarrow> u64 \<Rightarrow> u64 \<Rightarrow> u64 \<Rightarrow> u8 list" where
  "EncodeCleanupHashSlotMigrationOutboxCommand hashSlot sourceSlot targetSlot throughIndex =
     (let buf = [commandVersion, cmdTypeCleanupMigrationOutbox];
          buf = appendUint64TLVField buf tagMigrationOutboxHashSlot (ucast hashSlot);
          buf = appendUint64TLVField buf tagMigrationOutboxSourceSlot sourceSlot;
          buf = appendUint64TLVField buf tagMigrationOutboxTargetSlot targetSlot;
          buf = appendUint64TLVField buf tagMigrationOutboxSourceIndex throughIndex
      in buf)"

definition outbox_field ::
  "u8 \<Rightarrow> u8 list \<Rightarrow> outboxIdentity \<times> u8 list \<Rightarrow> db_error + outboxIdentity \<times> u8 list" where
  "outbox_field tag val s =
     (case s of (r, seen) \<Rightarrow>
        if length val \<noteq> 8 then Inl DBErrCorruptValue
        else if tag = tagMigrationOutboxHashSlot
        then (if u64_of val > 65535 then Inl DBErrCorruptValue
              else Inr (r\<lparr>oi_HashSlot := ucast (u64_of val)\<rparr>, tagMigrationOutboxHashSlot # seen))
        else if tag = tagMigrationOutboxSourceSlot
        then Inr (r\<lparr>oi_SourceSlot := u64_of val\<rparr>, tagMigrationOutboxSourceSlot # seen)
        else if tag = tagMigrationOutboxTargetSlot
        then Inr (r\<lparr>oi_TargetSlot := u64_of val\<rparr>, tagMigrationOutboxTargetSlot # seen)
        else if tag = tagMigrationOutboxSourceIndex
        then Inr (r\<lparr>oi_Index := u64_of val\<rparr>, tagMigrationOutboxSourceIndex # seen)
        else Inr (r, seen))"

definition decodeMigrationOutboxIdentity :: "u8 list \<Rightarrow> db_error + outboxIdentity" where
  "decodeMigrationOutboxIdentity data =
     finish [tagMigrationOutboxHashSlot, tagMigrationOutboxSourceSlot, tagMigrationOutboxTargetSlot, tagMigrationOutboxSourceIndex]
       (tlv_loop outbox_field data (\<lparr>oi_HashSlot = 0, oi_SourceSlot = 0, oi_TargetSlot = 0, oi_Index = 0\<rparr>, []))"

section \<open>Channel migrations\<close>

text \<open>
  The tokens of a JSON text as \<open>encoding/json\<close> gives them (\<open>TokOther\<close>: numbers, booleans, null), with whether they end at the end of
  the text; keys are compared in lower case. \<open>js_decode\<close> decodes a text strictly into the request of a type of command and says whether
  nothing follows the value.
\<close>

datatype json_token = TokObject | TokArray | TokEnd | TokString "u8 list" | TokOther

record 'j JSON =
  js_tokens :: "u8 list \<Rightarrow> json_token list \<times> bool"
  js_lower :: "u8 list \<Rightarrow> u8 list"
  js_decode :: "u8 \<Rightarrow> u8 list \<Rightarrow> ('j \<times> bool) option"
  js_encode :: "'j \<Rightarrow> u8 list"

record jsonObjectScope =
  jo_object :: bool
  jo_expectKey :: bool
  jo_keys :: "u8 list list"

definition markValueConsumed :: "jsonObjectScope list \<Rightarrow> jsonObjectScope list" where
  "markValueConsumed stack =
     (case stack of
        [] \<Rightarrow> []
      | t # rest \<Rightarrow> (if jo_object t \<and> \<not> jo_expectKey t then t\<lparr>jo_expectKey := True\<rparr> else t) # rest)"

text \<open>The stack has its innermost scope first; the result says whether the text is accepted.\<close>

fun reject_loop :: "('a \<Rightarrow> u8 list \<Rightarrow> u8 list) \<Rightarrow> 'a \<Rightarrow> jsonObjectScope list \<Rightarrow> json_token list \<times> bool \<Rightarrow> bool" where
  "reject_loop lower a stack ([], eof) = (eof \<and> stack = [])"
| "reject_loop lower a stack (tok # toks, eof) =
     (case tok of
        TokObject \<Rightarrow> reject_loop lower a (\<lparr>jo_object = True, jo_expectKey = True, jo_keys = []\<rparr> # stack) (toks, eof)
      | TokArray \<Rightarrow> reject_loop lower a (\<lparr>jo_object = False, jo_expectKey = False, jo_keys = []\<rparr> # stack) (toks, eof)
      | TokEnd \<Rightarrow> (case stack of [] \<Rightarrow> False | _ # rest \<Rightarrow> reject_loop lower a (markValueConsumed rest) (toks, eof))
      | TokString s \<Rightarrow>
          (case stack of
             t # rest \<Rightarrow>
               if jo_object t \<and> jo_expectKey t
               then if lower a s \<in> set (jo_keys t) then False
                    else reject_loop lower a (t\<lparr>jo_keys := lower a s # jo_keys t, jo_expectKey := False\<rparr> # rest) (toks, eof)
               else reject_loop lower a (markValueConsumed stack) (toks, eof)
           | [] \<Rightarrow> reject_loop lower a (markValueConsumed stack) (toks, eof))
      | TokOther \<Rightarrow> reject_loop lower a (markValueConsumed stack) (toks, eof))"

definition rejectDuplicateJSONObjectKeys :: "'j JSON \<Rightarrow> u8 list \<Rightarrow> bool" where
  "rejectDuplicateJSONObjectKeys js payload = reject_loop js_lower js [] (js_tokens js payload)"

definition json_payload_field ::
  "u8 \<Rightarrow> u8 list \<Rightarrow> u8 list option \<Rightarrow> db_error + u8 list option" where
  "json_payload_field tag val found =
     (if tag \<noteq> tagChannelMigrationCommandPayload then Inr found
      else if found \<noteq> None then Inl DBErrCorruptValue else Inr (Some val))"

definition findSingleChannelMigrationJSONPayload :: "u8 list \<Rightarrow> db_error + u8 list option" where
  "findSingleChannelMigrationJSONPayload data = tlv_loop json_payload_field data None"

definition decodeChannelMigrationJSONPayload :: "'j JSON \<Rightarrow> u8 \<Rightarrow> u8 list \<Rightarrow> db_error + 'j" where
  "decodeChannelMigrationJSONPayload js cmdType data =
     bind_res (findSingleChannelMigrationJSONPayload data) (\<lambda>found.
       case found of
         None \<Rightarrow> Inl DBErrCorruptValue
       | Some payload \<Rightarrow>
           if \<not> rejectDuplicateJSONObjectKeys js payload then Inl DBErrCorruptValue
           else (case js_decode js cmdType payload of
                   None \<Rightarrow> Inl DBErrCorruptValue
                 | Some (req, eof) \<Rightarrow> if eof then Inr req else Inl DBErrCorruptValue))"

definition encodeChannelMigrationJSONCommand :: "'j JSON \<Rightarrow> u8 \<Rightarrow> 'j \<Rightarrow> u8 list" where
  "encodeChannelMigrationJSONCommand js cmdType payload =
     appendBytesTLVField [commandVersion, cmdType] tagChannelMigrationCommandPayload (js_encode js payload)"

definition channel_migration_types :: "u8 list" where
  "channel_migration_types =
     [cmdTypeCreateChannelMigrationTask, cmdTypeClaimChannelMigrationTask, cmdTypeAdvanceChannelMigrationTask, cmdTypeSetChannelWriteFence,
      cmdTypeResetChannelWriteFence, cmdTypeCommitChannelLeaderTransfer, cmdTypeAddChannelLearner, cmdTypePromoteLearnerAndRemoveReplica,
      cmdTypeClearChannelWriteFence, cmdTypeAbortChannelMigration, cmdTypeGarbageCollectMigrationTasks, cmdTypeCreateChannelMigrationGuarded]"

section \<open>Commands\<close>

datatype 'j command =
    noopCmd
  | upsertUserCmd User
  | createUserCmd User
  | upsertDeviceCmd Device
  | upsertChannelCmd Channel
  | deleteChannelCmd ConversationKey
  | upsertChannelRuntimeMetaCmd ChannelRuntimeMeta
  | deleteChannelRuntimeMetaCmd ConversationKey
  | advanceChannelRetentionThroughSeqCmd ChannelRetentionAdvance
  | addSubscribersCmd Subscribers
  | removeSubscribersCmd Subscribers
  | upsertUserChannelMembershipsCmd "UserChannelMembership list"
  | deleteUserChannelMembershipsCmd "UserChannelMembership list"
  | upsertChannelLatestCmd ChannelLatest
  | upsertChannelLatestBatchCmd "ChannelLatestBatchItem list"
  | upsertConversationStatesCmd "ConversationState slot_entry list"
  | touchConversationActiveAtCmd "ConversationActivePatch slot_entry list"
  | clearConversationActiveAtCmd ClearActive
  | reservedConversationProjectionCmd
  | hideConversationsCmd "ConversationDelete slot_entry list"
  | bindPluginUserCmd PluginUserBinding
  | unbindPluginUserCmd "u8 list" "u8 list"
  | applyDeltaCmd applyDelta
  | enterFenceCmd enterFence
  | ackMigrationOutboxCmd outboxIdentity
  | cleanupMigrationOutboxCmd outboxIdentity
  | channelMigrationCmd u8 'j

definition decodeNoop :: "u8 list \<Rightarrow> db_error + unit" where
  "decodeNoop data = tlv_loop (\<lambda>_ _ s. Inr s) data ()"

text \<open>The table of decoders.\<close>

definition commandDecoders :: "'j JSON \<Rightarrow> u8 \<Rightarrow> (u8 list \<Rightarrow> db_error + 'j command) option" where
  "commandDecoders js t =
     (if t = cmdTypeUpsertUser then Some (\<lambda>data. map_sum id upsertUserCmd (decodeUser data))
      else if t = cmdTypeUpsertChannel then Some (\<lambda>data. map_sum id upsertChannelCmd (decodeChannel data))
      else if t = cmdTypeDeleteChannel then Some (\<lambda>data. map_sum id deleteChannelCmd (decodeChannelIdentity data))
      else if t = cmdTypeUpsertChannelRuntimeMeta
      then Some (\<lambda>data. map_sum id (\<lambda>m. upsertChannelRuntimeMetaCmd (normalizeChannelRuntimeMeta m)) (decodeRuntimeMeta data))
      else if t = cmdTypeDeleteChannelRuntimeMeta then Some (\<lambda>data. map_sum id deleteChannelRuntimeMetaCmd (decodeRuntimeMetaIdentity data))
      else if t = cmdTypeCreateUser then Some (\<lambda>data. map_sum id createUserCmd (decodeUser data))
      else if t = cmdTypeUpsertDevice then Some (\<lambda>data. map_sum id upsertDeviceCmd (decodeDevice data))
      else if t = cmdTypeAddSubscribers then Some (\<lambda>data. map_sum id addSubscribersCmd (decodeSubscribersCommand data))
      else if t = cmdTypeRemoveSubscribers then Some (\<lambda>data. map_sum id removeSubscribersCmd (decodeSubscribersCommand data))
      else if t = cmdTypeUpsertConversationStates
      then Some (\<lambda>data. map_sum id upsertConversationStatesCmd (nonempty (decodeConversationStateEntries data)))
      else if t = cmdTypeTouchConversationActiveAt
      then Some (\<lambda>data. map_sum id touchConversationActiveAtCmd (nonempty (decodeConversationActivePatchEntries data)))
      else if t = cmdTypeClearConversationActiveAt
      then Some (\<lambda>data. map_sum id clearConversationActiveAtCmd (decodeClearConversationActiveAt data))
      else if t = cmdTypeReservedConversationProjectionUpsert \<or> t = cmdTypeReservedConversationProjectionDelete
      then Some (\<lambda>data. Inr reservedConversationProjectionCmd)
      else if t = cmdTypeAdvanceChannelRetention
      then Some (\<lambda>data. map_sum id advanceChannelRetentionThroughSeqCmd (decodeRetentionAdvance data))
      else if t = cmdTypeHideConversations
      then Some (\<lambda>data. map_sum id hideConversationsCmd (nonempty (decodeConversationDeleteEntries data)))
      else if t = cmdTypeNoop then Some (\<lambda>data. map_sum id (\<lambda>_. noopCmd) (decodeNoop data))
      else if t = cmdTypeUpsertUserChannelMemberships
      then Some (\<lambda>data. map_sum id upsertUserChannelMembershipsCmd (nonempty (decodeUserChannelMembershipEntries data True)))
      else if t = cmdTypeDeleteUserChannelMemberships
      then Some (\<lambda>data. map_sum id deleteUserChannelMembershipsCmd (nonempty (decodeUserChannelMembershipEntries data False)))
      else if t = cmdTypeUpsertChannelLatest then Some (\<lambda>data. map_sum id upsertChannelLatestCmd (decodeChannelLatestRecord data))
      else if t = cmdTypeUpsertChannelLatestBatch
      then Some (\<lambda>data. map_sum id upsertChannelLatestBatchCmd
             (nonempty (decode_entries tagChannelLatestBatchEntry decodeChannelLatestBatchItem data)))
      else if t = cmdTypeBindPluginUser then Some (\<lambda>data. map_sum id bindPluginUserCmd (decodeBindPluginUser data))
      else if t = cmdTypeUnbindPluginUser
      then Some (\<lambda>data. map_sum id (\<lambda>b. unbindPluginUserCmd (pb_UID b) (pb_PluginNo b)) (decodeUnbindPluginUser data))
      else if t = cmdTypeApplyDelta then Some (\<lambda>data. map_sum id applyDeltaCmd (decodeApplyDelta data))
      else if t = cmdTypeEnterFence then Some (\<lambda>data. map_sum id enterFenceCmd (decodeEnterFence data))
      else if t = cmdTypeAckMigrationOutbox then Some (\<lambda>data. map_sum id ackMigrationOutboxCmd (decodeMigrationOutboxIdentity data))
      else if t = cmdTypeCleanupMigrationOutbox then Some (\<lambda>data. map_sum id cleanupMigrationOutboxCmd (decodeMigrationOutboxIdentity data))
      else if t \<in> set channel_migration_types
      then Some (\<lambda>data. map_sum id (channelMigrationCmd t) (decodeChannelMigrationJSONPayload js t data))
      else None)"

definition decodeCommand :: "'j JSON \<Rightarrow> u8 list \<Rightarrow> db_error + 'j command" where
  "decodeCommand js data =
     (if length data < headerSize then Inl DBErrCorruptValue
      else if hd data \<noteq> commandVersion then Inl DBErrCorruptValue
      else case commandDecoders js (data ! 1) of
             None \<Rightarrow> Inl DBErrInvalidArgument
           | Some decoder \<Rightarrow> decoder (drop headerSize data))"

definition EncodeNoopCommand :: "u8 list" where
  "EncodeNoopCommand = [commandVersion, cmdTypeNoop]"

end
