(* ===== verification/SlotCommandSafety.thy ===== *)
theory SlotCommandSafety
  imports SlotCommand
begin

section \<open>Buffers of the announced size\<close>

lemma start_buffer_eq:
  assumes "headerSize \<le> n"
  shows "start_buffer n t = filled [commandVersion, t] (replicate (n - headerSize) 0)"
proof -
  have 1: "put_at (replicate n 0) 0 [commandVersion] = Some ([commandVersion] @ replicate (n - 1) 0)"
    using assms put_at_end [of "[commandVersion]" "replicate n 0" "[]"] by (simp add: headerSize_def)
  have 2: "put_at ([commandVersion] @ replicate (n - 1) 0) 1 [t] = Some ([commandVersion, t] @ replicate (n - 2) 0)"
    using assms put_at_end [of "[t]" "replicate (n - 1) 0" "[commandVersion]"] by (simp add: headerSize_def numeral_2_eq_2)
  show ?thesis unfolding start_buffer_def 1 bind.bind_lunit 2 by (simp add: filled_def headerSize_def)
qed

lemma fill_fields:
  "tlvOverhead + length s \<le> length rest \<Longrightarrow>
     Option.bind (filled out rest) (\<lambda>(buf, off). Option.bind (putStringField buf off tag s) k)
       = Option.bind (filled (out @ tlv tag s) (drop (tlvOverhead + length s) rest)) k"
  "tlvOverhead + 8 \<le> length rest \<Longrightarrow>
     Option.bind (filled out rest) (\<lambda>(buf, off). Option.bind (putInt64Field buf off tag v) k)
       = Option.bind (filled (out @ tlv tag (put64 v)) (drop (tlvOverhead + 8) rest)) k"
  "tlvOverhead + 8 \<le> length rest \<Longrightarrow>
     Option.bind (filled out rest) (\<lambda>(buf, off). putInt64Field buf off tag v)
       = filled (out @ tlv tag (put64 v)) (drop (tlvOverhead + 8) rest)"
  by (simp_all add: filled_def [of out] putStringField_end putInt64Field_end)

lemma fst_filled: "map_option fst (filled out rest) = Some (out @ rest)"
  by (simp add: filled_def)

lemmas buffer_steps = start_buffer_eq fill_fields fst_filled

lemma encodeUserCommand_eq:
  "encodeUserCommand t u =
     Some ([commandVersion, t] @ tlv tagUserUID (us_UID u) @ tlv tagUserToken (us_Token u)
       @ tlv tagUserDeviceFlag (put64 (us_DeviceFlag u)) @ tlv tagUserDeviceLevel (put64 (us_DeviceLevel u)))"
  unfolding encodeUserCommand_def by (simp add: buffer_steps)

lemma EncodeUpsertDeviceCommand_eq:
  "EncodeUpsertDeviceCommand d =
     Some ([commandVersion, cmdTypeUpsertDevice] @ tlv tagDeviceUID (dv_UID d) @ tlv tagDeviceFlag (put64 (dv_DeviceFlag d))
       @ tlv tagDeviceToken (dv_Token d) @ tlv tagDeviceLevel (put64 (dv_DeviceLevel d)))"
  unfolding EncodeUpsertDeviceCommand_def by (simp add: buffer_steps)

lemma EncodeUpsertChannelCommand_eq:
  "EncodeUpsertChannelCommand ch =
     Some ([commandVersion, cmdTypeUpsertChannel] @ tlv tagChannelID (cn_ChannelID ch)
       @ tlv tagChannelType (put64 (cn_ChannelType ch)) @ tlv tagChannelBan (put64 (cn_Ban ch))
       @ tlv tagChannelDisband (put64 (cn_Disband ch)) @ tlv tagChannelSendBan (put64 (cn_SendBan ch))
       @ tlv tagChannelAllowStranger (put64 (cn_AllowStranger ch)) @ tlv tagChannelLarge (put64 (cn_Large ch)))"
  unfolding EncodeUpsertChannelCommand_def by (simp add: buffer_steps)

lemma EncodeDeleteChannelCommand_eq:
  "EncodeDeleteChannelCommand channelID channelType =
     Some ([commandVersion, cmdTypeDeleteChannel] @ tlv tagChannelID channelID @ tlv tagChannelType (put64 channelType))"
  unfolding EncodeDeleteChannelCommand_def by (simp add: buffer_steps)


section \<open>What each decoder makes of its encoder's fields\<close>

lemmas read_fields = tlv_loop_tlv tlv_loop_last bind_res_def finish_def have_all_def

lemma decodeUser_fields:
  assumes "fits_len (us_UID u)" "fits_len (us_Token u)"
  shows "decodeUser (tlv tagUserUID (us_UID u) @ tlv tagUserToken (us_Token u)
       @ tlv tagUserDeviceFlag (put64 (us_DeviceFlag u)) @ tlv tagUserDeviceLevel (put64 (us_DeviceLevel u))) = Inr u"
  using assms by (simp add: decodeUser_def read_fields user_field_def field_tags zero_User_def)

lemma decodeDevice_fields:
  assumes "fits_len (dv_UID d)" "fits_len (dv_Token d)"
  shows "decodeDevice (tlv tagDeviceUID (dv_UID d) @ tlv tagDeviceFlag (put64 (dv_DeviceFlag d))
       @ tlv tagDeviceToken (dv_Token d) @ tlv tagDeviceLevel (put64 (dv_DeviceLevel d))) = Inr d"
  using assms by (simp add: decodeDevice_def read_fields device_field_def field_tags zero_Device_def)

lemma decodeChannel_fields:
  assumes "fits_len (cn_ChannelID ch)"
  shows "decodeChannel (tlv tagChannelID (cn_ChannelID ch)
       @ tlv tagChannelType (put64 (cn_ChannelType ch)) @ tlv tagChannelBan (put64 (cn_Ban ch))
       @ tlv tagChannelDisband (put64 (cn_Disband ch)) @ tlv tagChannelSendBan (put64 (cn_SendBan ch))
       @ tlv tagChannelAllowStranger (put64 (cn_AllowStranger ch)) @ tlv tagChannelLarge (put64 (cn_Large ch)))
     = Inr (ch\<lparr>cn_SubscriberMutationVersion := 0, cn_SubscriberCount := 0\<rparr>)"
  using assms by (simp add: decodeChannel_def read_fields channel_field_def field_tags zero_Channel_def)

lemma decodeChannelIdentity_fields:
  assumes "fits_len (ck_ChannelID k)"
  shows "decodeChannelIdentity (tlv tagChannelID (ck_ChannelID k) @ tlv tagChannelType (put64 (ck_ChannelType k))) = Inr k"
  using assms by (simp add: decodeChannelIdentity_def read_fields channelIdentity_field_def field_tags zero_ConversationKey_def)

lemma EncodeUpsertChannelRuntimeMetaCommand_read:
  assumes "fits_len (rm_ChannelID m)" "fits_len (rm_WriteFenceToken m)"
    and "fits_len (encodeUint64Slice (normalizeUint64Set (rm_Replicas m)))"
    and "fits_len (encodeUint64Slice (normalizeUint64Set (rm_ISR m)))"
  shows "\<exists>fs. EncodeUpsertChannelRuntimeMetaCommand m = [commandVersion, cmdTypeUpsertChannelRuntimeMeta] @ fs
     \<and> decodeRuntimeMeta fs = Inr (normalizeChannelRuntimeMeta m)"
proof -
  define n where "n = normalizeChannelRuntimeMeta m"
  have f: "fits_len (rm_ChannelID n)" "fits_len (rm_WriteFenceToken n)"
    "fits_len (encodeUint64Slice (rm_Replicas n))" "fits_len (encodeUint64Slice (rm_ISR n))"
    using assms by (simp_all add: n_def normalizeChannelRuntimeMeta_def Let_def)
  show ?thesis
    unfolding EncodeUpsertChannelRuntimeMetaCommand_def Let_def n_def [symmetric] append_fields
    by (cases "rm_WriteFenceToken n = []")
      (use f in \<open>simp_all add: decodeRuntimeMeta_def read_fields runtimeMeta_field_def field_tags zero_ChannelRuntimeMeta_def\<close>)
qed

lemma EncodeDeleteChannelRuntimeMetaCommand_read:
  assumes "fits_len (ck_ChannelID k)"
  shows "\<exists>fs. EncodeDeleteChannelRuntimeMetaCommand (ck_ChannelID k) (ck_ChannelType k)
       = [commandVersion, cmdTypeDeleteChannelRuntimeMeta] @ fs \<and> decodeRuntimeMetaIdentity fs = Inr k"
  using assms by (simp add: EncodeDeleteChannelRuntimeMetaCommand_def Let_def append_fields decodeRuntimeMetaIdentity_def read_fields
      runtimeMetaIdentity_field_def field_tags zero_ConversationKey_def)

lemma EncodeAdvanceChannelRetentionThroughSeqCommand_read:
  assumes "fits_len (ra_ChannelID r)"
  shows "\<exists>fs. EncodeAdvanceChannelRetentionThroughSeqCommand r = [commandVersion, cmdTypeAdvanceChannelRetention] @ fs
     \<and> decodeRetentionAdvance fs = Inr r"
  using assms by (simp add: EncodeAdvanceChannelRetentionThroughSeqCommand_def Let_def append_fields decodeRetentionAdvance_def
      read_fields retentionAdvance_field_def field_tags zero_ChannelRetentionAdvance_def)


section \<open>Subscribers, memberships, latest messages\<close>

lemma length_dedup_strings: "length (dedup_strings xs) \<le> length xs"
  by (induction xs rule: dedup_strings.induct) auto

lemma encodeSubscribersCommand_read:
  assumes "fits_len (sb_channelID s)" "list_all (\<lambda>x. 0 \<notin> set x \<and> x \<noteq> []) (sb_uids s)"
    and lim: "ValidateSubscriberCommandLimits (sb_uids s) = None"
  shows "\<exists>fs. encodeSubscribersCommand t (sb_channelID s) (sb_channelType s) (sb_uids s) [sb_version s] = [commandVersion, t] @ fs
     \<and> decodeSubscribersCommand fs = Inr (s\<lparr>sb_uids := dedup_strings (sort_by (<) (sb_uids s))\<rparr>)"
proof -
  let ?v = "encodeStringSet (sb_uids s)"
  have b: "length ?v \<le> MaxSubscriberCommandUIDBytes" "length (sb_uids s) \<le> MaxSubscriberCommandUIDs"
    using lim by (auto simp: ValidateSubscriberCommandLimits_def validateSubscriberCommandUIDBytes_def
        validateSubscriberCommandUIDCount_def split: if_splits option.splits)
  then have f: "fits_len ?v" by (simp add: fits_len_def MaxSubscriberCommandUIDBytes_def)
  have c: "length (dedup_strings (sort_by (<) (sb_uids s))) \<le> MaxSubscriberCommandUIDs"
    using b(2) length_dedup_strings [of "sort_by (<) (sb_uids s)"] by simp
  note d = decodeStringSet_encode [OF assms(2)]
  show ?thesis
    unfolding encodeSubscribersCommand_def Let_def append_fields
    by (cases "sb_version s = 0")
      (use assms(1) b(1) c d f in \<open>simp_all add: decodeSubscribersCommand_def read_fields subscribers_field_def field_tags
        zero_Subscribers_def validateSubscriberCommandUIDBytes_def validateSubscriberCommandUIDCount_def check_error_def word_neq_0_conv\<close>)
qed

lemma encode_entries_eq:
  "encode_entries t entryTag encode es = [commandVersion, t] @ concat (map (\<lambda>e. tlv entryTag (encode e)) es)"
proof -
  have "foldl (\<lambda>buf e. appendBytesTLVField buf entryTag (encode e)) out es = out @ concat (map (\<lambda>e. tlv entryTag (encode e)) es)" for out
    by (induction es arbitrary: out) (simp_all add: append_fields)
  then show ?thesis by (simp add: encode_entries_def)
qed

lemma decode_entries_map:
  assumes "\<And>e. e \<in> set es \<Longrightarrow> fits_len (encode e) \<and> decode (encode e) = Inr (f e)"
  shows "decode_entries entryTag decode (concat (map (\<lambda>e. tlv entryTag (encode e)) es)) = Inr (map f es)"
proof -
  have "tlv_loop (entry_field entryTag decode) (concat (map (\<lambda>e. tlv entryTag (encode e)) es)) acc = Inr (acc @ map f es)" for acc
    using assms by (induction es arbitrary: acc) (simp_all add: read_fields entry_field_def)
  then show ?thesis by (simp add: decode_entries_def)
qed

lemma entries_read:
  assumes "\<And>e. e \<in> set es \<Longrightarrow> fits_len (encode e) \<and> decode (encode e) = Inr (f e)" "es \<noteq> []"
  shows "\<exists>fs. encode_entries t entryTag encode es = [commandVersion, t] @ fs \<and> nonempty (decode_entries entryTag decode fs) = Inr (map f es)"
  using decode_entries_map [of es encode decode f entryTag, OF assms(1)] assms(2)
  by (simp add: encode_entries_eq nonempty_def bind_res_def)

lemma UserChannelMembershipEntry_read:
  assumes "fits_len (um_UID m)" "fits_len (um_ChannelID m)"
  shows "decodeUserChannelMembershipEntry (encodeUserChannelMembershipEntry m True) True = Inr m"
    and "decodeUserChannelMembershipEntry (encodeUserChannelMembershipEntry m False) False
       = Inr (m\<lparr>um_JoinSeq := 0, um_UpdatedAt := 0\<rparr>)"
  using assms
  by (simp_all add: encodeUserChannelMembershipEntry_def Let_def append_fields decodeUserChannelMembershipEntry_def read_fields
      userChannelMembership_field_def field_tags zero_UserChannelMembership_def)

lemma ChannelLatestRecord_read:
  assumes "fits_len (lt_ChannelID l)" "fits_len (lt_FromUID l)" "fits_len (lt_ClientMsgNo l)" "fits_len (lt_Payload l)"
  shows "decodeChannelLatestRecord (encodeChannelLatestRecord l) = Inr l"
  using assms
  by (simp add: encodeChannelLatestRecord_def Let_def append_fields decodeChannelLatestRecord_def read_fields
      channelLatestRecord_field_def field_tags zero_ChannelLatest_def)

lemma ChannelLatestBatchItem_read:
  assumes "fits_len (encodeChannelLatestRecord (li_Latest i))" "decodeChannelLatestRecord (encodeChannelLatestRecord (li_Latest i)) = Inr (li_Latest i)"
  shows "decodeChannelLatestBatchItem (encodeChannelLatestBatchItem i) = Inr i"
  using assms
  by (simp add: encodeChannelLatestBatchItem_def Let_def append_fields decodeChannelLatestBatchItem_def read_fields
      channelLatestBatchItem_field_def field_tags)

section \<open>Conversations\<close>

abbreviation kind_ok :: "ConversationKind \<Rightarrow> bool" where
  "kind_ok k \<equiv> validateConversationKind k = None"

lemma ConversationStateEntry_read:
  assumes "fits_len (st_UID r)" "fits_len (st_ChannelID r)" "kind_ok (st_Kind r)"
  shows "decodeConversationStateEntry (encodeConversationStateEntry r) = Inr \<lparr>se_hashSlot = None, se_row = r\<rparr>"
    and "decodeConversationStateEntry (encodeConversationStateBatchItem h r) = Inr \<lparr>se_hashSlot = Some h, se_row = r\<rparr>"
  using assms
  by (simp_all add: encodeConversationStateBatchItem_def encodeConversationStateEntry_def Let_def append_fields
      decodeConversationStateEntry_def read_fields conversationState_field_def slot_field_def field_tags zero_ConversationState_def
      decodeKind_put64)

lemma ConversationActivePatchEntry_read:
  assumes "fits_len (pa_UID r)" "fits_len (pa_ChannelID r)" "kind_ok (pa_Kind r)"
  shows "decodeConversationActivePatchEntry (encodeConversationActivePatchEntry r) = Inr \<lparr>se_hashSlot = None, se_row = r\<rparr>"
    and "decodeConversationActivePatchEntry (encodeConversationActivePatchBatchItem h r) = Inr \<lparr>se_hashSlot = Some h, se_row = r\<rparr>"
  using assms
  by (simp_all add: encodeConversationActivePatchBatchItem_def encodeConversationActivePatchEntry_def Let_def append_fields
      decodeConversationActivePatchEntry_def read_fields conversationActivePatch_field_def slot_field_def field_tags
      zero_ConversationActivePatch_def decodeKind_put64)

lemma ConversationDeleteEntry_read:
  assumes "fits_len (cd_UID r)" "fits_len (cd_ChannelID r)" "kind_ok (cd_Kind r)"
  shows "decodeConversationDeleteEntry (encodeConversationDeleteEntry r) = Inr \<lparr>se_hashSlot = None, se_row = r\<rparr>"
    and "decodeConversationDeleteEntry (encodeConversationDeleteBatchItem h r) = Inr \<lparr>se_hashSlot = Some h, se_row = r\<rparr>"
  using assms
  by (simp_all add: encodeConversationDeleteBatchItem_def encodeConversationDeleteEntry_def Let_def append_fields
      decodeConversationDeleteEntry_def read_fields conversationDelete_field_def slot_field_def field_tags zero_ConversationDelete_def
      decodeKind_put64)

lemma ConversationKeyEntry_read:
  assumes "fits_len (ck_ChannelID k)"
  shows "decodeConversationKeyEntry (encodeConversationKeyEntry k) = Inr k"
  using assms
  by (simp add: encodeConversationKeyEntry_def Let_def append_fields decodeConversationKeyEntry_def read_fields
      conversationKeyEntry_field_def field_tags zero_ConversationKey_def)

lemma ClearConversationActiveAt_read:
  assumes "kind_ok (ca_kind c)" "fits_len (ca_uid c)" "ca_keys c \<noteq> []"
    and "\<And>k. k \<in> set (ca_keys c) \<Longrightarrow> fits_len (ck_ChannelID k) \<and> fits_len (encodeConversationKeyEntry k)"
  shows "\<exists>fs. EncodeClearConversationActiveAtCommand (ca_kind c) (ca_uid c) (ca_keys c)
       = [commandVersion, cmdTypeClearConversationActiveAt] @ fs \<and> decodeClearConversationActiveAt fs = Inr c"
proof -
  have e: "foldl (\<lambda>buf key. buf @ tlv t (encodeConversationKeyEntry key)) out ks
      = out @ concat (map (\<lambda>k. tlv t (encodeConversationKeyEntry k)) ks)" for t out ks
    by (induction ks arbitrary: out) simp_all
  have l: "tlv_loop clearConversationActiveAt_field
        (concat (map (\<lambda>k. tlv tagClearConversationActiveKey (encodeConversationKeyEntry k)) ks)) (r, seen)
      = Inr (r\<lparr>ca_keys := ca_keys r @ ks\<rparr>, seen)"
    if "\<And>k. k \<in> set ks \<Longrightarrow> fits_len (ck_ChannelID k) \<and> fits_len (encodeConversationKeyEntry k)" for r seen ks
    using that by (induction ks arbitrary: r)
      (simp_all add: read_fields clearConversationActiveAt_field_def field_tags ConversationKeyEntry_read)
  show ?thesis
    unfolding EncodeClearConversationActiveAtCommand_def Let_def append_fields e
    using assms(1-3) l [where ks = "ca_keys c", OF assms(4), unfolded field_tags]
    by (simp add: decodeClearConversationActiveAt_def read_fields decodeKind_put64 clearConversationActiveAt_field_def
        field_tags)
qed

section \<open>Plugin bindings and hash-slot migrations\<close>

lemma EncodeBindPluginUserCommand_read:
  assumes "fits_len (pb_UID b)" "fits_len (pb_PluginNo b)"
  shows "\<exists>fs. EncodeBindPluginUserCommand b = [commandVersion, cmdTypeBindPluginUser] @ fs \<and> decodeBindPluginUser fs = Inr b"
  using assms by (simp add: EncodeBindPluginUserCommand_def Let_def append_fields decodeBindPluginUser_def
      decodePluginUserBindingFields_def read_fields pluginUserBinding_field_def field_tags zero_PluginUserBinding_def)

lemma EncodeUnbindPluginUserCommand_read:
  assumes "fits_len uid" "fits_len pluginNo"
  shows "\<exists>fs. EncodeUnbindPluginUserCommand uid pluginNo = [commandVersion, cmdTypeUnbindPluginUser] @ fs
     \<and> map_sum id (\<lambda>b. unbindPluginUserCmd (pb_UID b) (pb_PluginNo b)) (decodeUnbindPluginUser fs) = Inr (unbindPluginUserCmd uid pluginNo)"
  using assms by (simp add: EncodeUnbindPluginUserCommand_def Let_def append_fields decodeUnbindPluginUser_def
      decodePluginUserBindingFields_def read_fields pluginUserBinding_field_def field_tags zero_PluginUserBinding_def)

lemma EncodeApplyDeltaCommand_read:
  assumes "fits_len (ad_OriginalCmd d)"
  shows "\<exists>fs. EncodeApplyDeltaCommand (ad_SourceSlotID d) (ad_SourceIndex d) (ad_HashSlot d) (ad_OriginalCmd d)
       = [commandVersion, cmdTypeApplyDelta] @ fs \<and> decodeApplyDelta fs = Inr d"
  using assms by (simp add: EncodeApplyDeltaCommand_def Let_def append_fields decodeApplyDelta_def read_fields applyDelta_field_def
      field_tags zero_applyDelta_def)

lemma EncodeEnterFenceCommand_read:
  "\<exists>fs. EncodeEnterFenceCommandForTarget (ef_HashSlot f) (ef_Target f) = [commandVersion, cmdTypeEnterFence] @ fs
     \<and> decodeEnterFence fs = Inr f"
  by (simp add: EncodeEnterFenceCommandForTarget_def EncodeEnterFenceCommand_def append_fields decodeEnterFence_def read_fields
      enterFence_field_def field_tags)

lemma outbox_identity_read:
  "\<exists>fs. EncodeAckHashSlotMigrationOutboxCommand (oi_HashSlot i) (oi_SourceSlot i) (oi_TargetSlot i) (oi_Index i)
       = [commandVersion, cmdTypeAckMigrationOutbox] @ fs \<and> decodeMigrationOutboxIdentity fs = Inr i"
  "\<exists>fs. EncodeCleanupHashSlotMigrationOutboxCommand (oi_HashSlot i) (oi_SourceSlot i) (oi_TargetSlot i) (oi_Index i)
       = [commandVersion, cmdTypeCleanupMigrationOutbox] @ fs \<and> decodeMigrationOutboxIdentity fs = Inr i"
  by (simp_all add: EncodeAckHashSlotMigrationOutboxCommand_def EncodeCleanupHashSlotMigrationOutboxCommand_def Let_def append_fields
      decodeMigrationOutboxIdentity_def read_fields outbox_field_def field_tags)


section \<open>Every command\<close>

text \<open>The command a call of an encoder writes, when there is an encoder for it.\<close>

definition batch_of :: "('r list \<Rightarrow> u8 list) \<Rightarrow> ((u16 \<times> 'r) list \<Rightarrow> u8 list) \<Rightarrow> 'r slot_entry list \<Rightarrow> u8 list option" where
  "batch_of plain batch es =
     (if list_all (\<lambda>e. se_hashSlot e = None) es then Some (plain (map se_row es))
      else if list_all (\<lambda>e. se_hashSlot e \<noteq> None) es then Some (batch (map (\<lambda>e. (the (se_hashSlot e), se_row e)) es))
      else None)"

fun encode_command :: "'j JSON \<Rightarrow> 'j command \<Rightarrow> u8 list option" where
  "encode_command js noopCmd = Some EncodeNoopCommand"
| "encode_command js (upsertUserCmd u) = EncodeUpsertUserCommand u"
| "encode_command js (createUserCmd u) = EncodeCreateUserCommand u"
| "encode_command js (upsertDeviceCmd d) = EncodeUpsertDeviceCommand d"
| "encode_command js (upsertChannelCmd ch) = EncodeUpsertChannelCommand ch"
| "encode_command js (deleteChannelCmd k) = EncodeDeleteChannelCommand (ck_ChannelID k) (ck_ChannelType k)"
| "encode_command js (upsertChannelRuntimeMetaCmd m) = Some (EncodeUpsertChannelRuntimeMetaCommand m)"
| "encode_command js (deleteChannelRuntimeMetaCmd k) = Some (EncodeDeleteChannelRuntimeMetaCommand (ck_ChannelID k) (ck_ChannelType k))"
| "encode_command js (advanceChannelRetentionThroughSeqCmd r) = Some (EncodeAdvanceChannelRetentionThroughSeqCommand r)"
| "encode_command js (addSubscribersCmd s) =
     Some (encodeSubscribersCommand cmdTypeAddSubscribers (sb_channelID s) (sb_channelType s) (sb_uids s) [sb_version s])"
| "encode_command js (removeSubscribersCmd s) =
     Some (encodeSubscribersCommand cmdTypeRemoveSubscribers (sb_channelID s) (sb_channelType s) (sb_uids s) [sb_version s])"
| "encode_command js (upsertUserChannelMembershipsCmd ms) = Some (EncodeUpsertUserChannelMembershipsCommand ms)"
| "encode_command js (deleteUserChannelMembershipsCmd ms) = Some (EncodeDeleteUserChannelMembershipsCommand ms)"
| "encode_command js (upsertChannelLatestCmd l) = Some (EncodeUpsertChannelLatestCommand l)"
| "encode_command js (upsertChannelLatestBatchCmd is) = Some (EncodeUpsertChannelLatestBatchCommand is)"
| "encode_command js (upsertConversationStatesCmd es) =
     batch_of EncodeUpsertConversationStatesCommand EncodeUpsertConversationStateBatchCommand es"
| "encode_command js (touchConversationActiveAtCmd es) =
     batch_of EncodeTouchConversationActiveAtCommand EncodeTouchConversationActiveAtBatchCommand es"
| "encode_command js (clearConversationActiveAtCmd c) =
     Some (EncodeClearConversationActiveAtCommand (ca_kind c) (ca_uid c) (ca_keys c))"
| "encode_command js reservedConversationProjectionCmd = None"
| "encode_command js (hideConversationsCmd es) = batch_of EncodeHideConversationsCommand EncodeHideConversationBatchCommand es"
| "encode_command js (bindPluginUserCmd b) = Some (EncodeBindPluginUserCommand b)"
| "encode_command js (unbindPluginUserCmd uid no) = Some (EncodeUnbindPluginUserCommand uid no)"
| "encode_command js (applyDeltaCmd d) =
     Some (EncodeApplyDeltaCommand (ad_SourceSlotID d) (ad_SourceIndex d) (ad_HashSlot d) (ad_OriginalCmd d))"
| "encode_command js (enterFenceCmd f) = Some (EncodeEnterFenceCommandForTarget (ef_HashSlot f) (ef_Target f))"
| "encode_command js (ackMigrationOutboxCmd i) =
     Some (EncodeAckHashSlotMigrationOutboxCommand (oi_HashSlot i) (oi_SourceSlot i) (oi_TargetSlot i) (oi_Index i))"
| "encode_command js (cleanupMigrationOutboxCmd i) =
     Some (EncodeCleanupHashSlotMigrationOutboxCommand (oi_HashSlot i) (oi_SourceSlot i) (oi_TargetSlot i) (oi_Index i))"
| "encode_command js (channelMigrationCmd t req) = Some (encodeChannelMigrationJSONCommand js t req)"

text \<open>
  All the bytes the encoders write for a command: the fence may leave out its target, the subscribers their version. (The encoders of
  the older kinds of conversations convert their rows and call the ones above.)
\<close>

fun written :: "'j JSON \<Rightarrow> 'j command \<Rightarrow> u8 list list" where
  "written js (enterFenceCmd f) =
     EncodeEnterFenceCommandForTarget (ef_HashSlot f) (ef_Target f)
     # (if ef_Target f = 0 then [EncodeEnterFenceCommand (ef_HashSlot f)] else [])"
| "written js (addSubscribersCmd s) =
     encodeSubscribersCommand cmdTypeAddSubscribers (sb_channelID s) (sb_channelType s) (sb_uids s) [sb_version s]
     # (if sb_version s = 0 then [encodeSubscribersCommand cmdTypeAddSubscribers (sb_channelID s) (sb_channelType s) (sb_uids s) []] else [])"
| "written js (removeSubscribersCmd s) =
     encodeSubscribersCommand cmdTypeRemoveSubscribers (sb_channelID s) (sb_channelType s) (sb_uids s) [sb_version s]
     # (if sb_version s = 0 then [encodeSubscribersCommand cmdTypeRemoveSubscribers (sb_channelID s) (sb_channelType s) (sb_uids s) []] else [])"
| "written js c = (case encode_command js c of None \<Rightarrow> [] | Some data \<Rightarrow> [data])"

lemma fence_without_target:
  "ef_Target f = 0 \<Longrightarrow> \<exists>fs. EncodeEnterFenceCommand (ef_HashSlot f) = [commandVersion, cmdTypeEnterFence] @ fs \<and> decodeEnterFence fs = Inr f"
  by (cases f) (simp add: EncodeEnterFenceCommand_def append_fields decodeEnterFence_def read_fields enterFence_field_def field_tags)

lemma version_left_out: "encodeSubscribersCommand t c ct us [] = encodeSubscribersCommand t c ct us [0]"
  by (simp add: encodeSubscribersCommand_def)

text \<open>
  What the encoders leave to their callers: batches are not empty, kinds of conversations are known, subscribers have a name without
  zero bytes and fit the limits, a JSON request is one the decoder reads back.
\<close>

fun sendable :: "'j JSON \<Rightarrow> 'j command \<Rightarrow> bool" where
  "sendable js (addSubscribersCmd s) =
     (list_all (\<lambda>x. 0 \<notin> set x \<and> x \<noteq> []) (sb_uids s) \<and> ValidateSubscriberCommandLimits (sb_uids s) = None)"
| "sendable js (removeSubscribersCmd s) =
     (list_all (\<lambda>x. 0 \<notin> set x \<and> x \<noteq> []) (sb_uids s) \<and> ValidateSubscriberCommandLimits (sb_uids s) = None)"
| "sendable js (upsertUserChannelMembershipsCmd ms) = (ms \<noteq> [])"
| "sendable js (deleteUserChannelMembershipsCmd ms) = (ms \<noteq> [])"
| "sendable js (upsertChannelLatestBatchCmd is) = (is \<noteq> [])"
| "sendable js (upsertConversationStatesCmd es) = (es \<noteq> [] \<and> list_all (\<lambda>e. kind_ok (st_Kind (se_row e))) es)"
| "sendable js (touchConversationActiveAtCmd es) = (es \<noteq> [] \<and> list_all (\<lambda>e. kind_ok (pa_Kind (se_row e))) es)"
| "sendable js (hideConversationsCmd es) = (es \<noteq> [] \<and> list_all (\<lambda>e. kind_ok (cd_Kind (se_row e))) es)"
| "sendable js (clearConversationActiveAtCmd c) = (kind_ok (ca_kind c) \<and> ca_keys c \<noteq> [])"
| "sendable js (channelMigrationCmd t req) =
     (t \<in> set channel_migration_types \<and> rejectDuplicateJSONObjectKeys js (js_encode js req)
      \<and> js_decode js t (js_encode js req) = Some (req, True))"
| "sendable js _ = True"

text \<open>The command that arrives: rows in their normal form, and without what a command does not carry.\<close>

fun carried :: "'j command \<Rightarrow> 'j command" where
  "carried (upsertChannelCmd ch) = upsertChannelCmd (ch\<lparr>cn_SubscriberMutationVersion := 0, cn_SubscriberCount := 0\<rparr>)"
| "carried (upsertChannelRuntimeMetaCmd m) = upsertChannelRuntimeMetaCmd (normalizeChannelRuntimeMeta m)"
| "carried (addSubscribersCmd s) = addSubscribersCmd (s\<lparr>sb_uids := dedup_strings (sort_by (<) (sb_uids s))\<rparr>)"
| "carried (removeSubscribersCmd s) = removeSubscribersCmd (s\<lparr>sb_uids := dedup_strings (sort_by (<) (sb_uids s))\<rparr>)"
| "carried (deleteUserChannelMembershipsCmd ms) =
     deleteUserChannelMembershipsCmd (map (\<lambda>m. m\<lparr>um_JoinSeq := 0, um_UpdatedAt := 0\<rparr>) ms)"
| "carried c = c"

lemma decodeCommand_dispatch:
  "decodeCommand js ([commandVersion, t] @ fs) = (case commandDecoders js t of None \<Rightarrow> Inl DBErrInvalidArgument | Some d \<Rightarrow> d fs)"
  by (simp add: decodeCommand_def headerSize_def cong: option.case_cong)


text \<open>A command of less than four gigabytes has only fields that fit.\<close>

lemma fits_entry:
  assumes "length (encode_entries t entryTag encode es) < 2 ^ 32" "e \<in> set es"
  shows "fits_len (encode e)"
proof -
  from assms(2) obtain as bs where "es = as @ e # bs" by (auto simp: in_set_conv_decomp)
  with assms(1) show ?thesis by (simp add: encode_entries_eq fits_len_def)
qed

lemma fits_mono: "fits_len xs \<Longrightarrow> length ys \<le> length xs \<Longrightarrow> fits_len ys"
  by (simp add: fits_len_def)

lemma length_ConversationStateEntry:
  "length (st_UID r) \<le> length (encodeConversationStateEntry r)" "length (st_ChannelID r) \<le> length (encodeConversationStateEntry r)"
  "length (encodeConversationStateEntry r) \<le> length (encodeConversationStateBatchItem h r)"
  by (simp_all add: encodeConversationStateEntry_def encodeConversationStateBatchItem_def Let_def append_fields)

lemma length_ConversationActivePatchEntry:
  "length (pa_UID r) \<le> length (encodeConversationActivePatchEntry r)"
  "length (pa_ChannelID r) \<le> length (encodeConversationActivePatchEntry r)"
  "length (encodeConversationActivePatchEntry r) \<le> length (encodeConversationActivePatchBatchItem h r)"
  by (simp_all add: encodeConversationActivePatchEntry_def encodeConversationActivePatchBatchItem_def Let_def append_fields)

lemma length_ConversationDeleteEntry:
  "length (cd_UID r) \<le> length (encodeConversationDeleteEntry r)" "length (cd_ChannelID r) \<le> length (encodeConversationDeleteEntry r)"
  "length (encodeConversationDeleteEntry r) \<le> length (encodeConversationDeleteBatchItem h r)"
  by (simp_all add: encodeConversationDeleteEntry_def encodeConversationDeleteBatchItem_def Let_def append_fields)

lemma length_UserChannelMembershipEntry:
  "length (um_UID m) \<le> length (encodeUserChannelMembershipEntry m b)"
  "length (um_ChannelID m) \<le> length (encodeUserChannelMembershipEntry m b)"
  by (simp_all add: encodeUserChannelMembershipEntry_def Let_def append_fields)

lemma length_ChannelLatestRecord:
  "length (lt_ChannelID l) \<le> length (encodeChannelLatestRecord l)" "length (lt_FromUID l) \<le> length (encodeChannelLatestRecord l)"
  "length (lt_ClientMsgNo l) \<le> length (encodeChannelLatestRecord l)" "length (lt_Payload l) \<le> length (encodeChannelLatestRecord l)"
  "length (encodeChannelLatestRecord (li_Latest i)) \<le> length (encodeChannelLatestBatchItem i)"
  by (simp_all add: encodeChannelLatestRecord_def encodeChannelLatestBatchItem_def Let_def append_fields)

section \<open>Batches that come back\<close>

text \<open>What one kind of row needs for its batches: an entry is read back, with its hash slot or without.\<close>

locale batch_row =
  fixes entry :: "'r \<Rightarrow> u8 list" and item :: "u16 \<Rightarrow> 'r \<Rightarrow> u8 list"
    and decode :: "u8 list \<Rightarrow> db_error + 'r slot_entry" and ok :: "'r \<Rightarrow> bool"
  assumes entry_back: "fits_len (entry r) \<Longrightarrow> ok r \<Longrightarrow> decode (entry r) = Inr \<lparr>se_hashSlot = None, se_row = r\<rparr>"
    and item_back: "fits_len (item h r) \<Longrightarrow> ok r \<Longrightarrow> decode (item h r) = Inr \<lparr>se_hashSlot = Some h, se_row = r\<rparr>"
begin

lemma batch_back:
  assumes enc: "batch_of (encode_entries t tag entry) (encode_entries t tag (\<lambda>(h, r). item h r)) es = Some data"
    and len: "length data < 2 ^ 32" and ok: "es \<noteq> []" "list_all (\<lambda>e. ok (se_row e)) es"
  shows "\<exists>fs. data = [commandVersion, t] @ fs \<and> nonempty (decode_entries tag decode fs) = Inr es"
proof (cases "list_all (\<lambda>e. se_hashSlot e = None) es")
  case True
  then have data: "data = encode_entries t tag entry (map se_row es)" using enc by (simp add: batch_of_def)
  have "\<exists>fs. data = [commandVersion, t] @ fs
      \<and> nonempty (decode_entries tag decode fs) = Inr (map (\<lambda>r. \<lparr>se_hashSlot = None, se_row = r\<rparr>) (map se_row es))"
    unfolding data
  proof (rule entries_read)
    fix r assume r: "r \<in> set (map se_row es)"
    have f: "fits_len (entry r)" by (rule fits_entry [OF len [unfolded data] r])
    have "ok r" using r ok(2) by (auto simp: list_all_iff)
    with f show "fits_len (entry r) \<and> decode (entry r) = Inr \<lparr>se_hashSlot = None, se_row = r\<rparr>" by (simp add: entry_back)
  qed (use ok in simp)
  moreover have "map (\<lambda>r. \<lparr>se_hashSlot = None, se_row = r\<rparr>) (map se_row es) = es"
    using True by (induction es) auto
  ultimately show ?thesis by simp
next
  case False
  then have some: "list_all (\<lambda>e. se_hashSlot e \<noteq> None) es"
    and data: "data = encode_entries t tag (\<lambda>(h, r). item h r) (map (\<lambda>e. (the (se_hashSlot e), se_row e)) es)"
    using enc by (simp_all add: batch_of_def split: if_splits)
  have "\<exists>fs. data = [commandVersion, t] @ fs
      \<and> nonempty (decode_entries tag decode fs)
        = Inr (map (\<lambda>(h, r). \<lparr>se_hashSlot = Some h, se_row = r\<rparr>) (map (\<lambda>e. (the (se_hashSlot e), se_row e)) es))"
    unfolding data
  proof (rule entries_read)
    fix p assume p: "p \<in> set (map (\<lambda>e. (the (se_hashSlot e), se_row e)) es)"
    have f: "fits_len (case p of (h, r) \<Rightarrow> item h r)" by (rule fits_entry [OF len [unfolded data] p])
    have "ok (snd p)" using p ok(2) by (auto simp: list_all_iff)
    with f show "fits_len (case p of (h, r) \<Rightarrow> item h r)
        \<and> decode (case p of (h, r) \<Rightarrow> item h r) = Inr (case p of (h, r) \<Rightarrow> \<lparr>se_hashSlot = Some h, se_row = r\<rparr>)"
      by (cases p) (simp add: item_back)
  qed (use ok in simp)
  moreover have "map (\<lambda>(h, r). \<lparr>se_hashSlot = Some h, se_row = r\<rparr>) (map (\<lambda>e. (the (se_hashSlot e), se_row e)) es) = es"
    using some by (induction es) auto
  ultimately show ?thesis by simp
qed

end

interpretation state_row: batch_row encodeConversationStateEntry encodeConversationStateBatchItem decodeConversationStateEntry
  "\<lambda>r. kind_ok (st_Kind r)"
  by unfold_locales
    (meson ConversationStateEntry_read fits_mono length_ConversationStateEntry)+

interpretation patch_row: batch_row encodeConversationActivePatchEntry encodeConversationActivePatchBatchItem
  decodeConversationActivePatchEntry "\<lambda>r. kind_ok (pa_Kind r)"
  by unfold_locales
    (meson ConversationActivePatchEntry_read fits_mono length_ConversationActivePatchEntry)+

interpretation delete_row: batch_row encodeConversationDeleteEntry encodeConversationDeleteBatchItem decodeConversationDeleteEntry
  "\<lambda>r. kind_ok (cd_Kind r)"
  by unfold_locales
    (meson ConversationDeleteEntry_read fits_mono length_ConversationDeleteEntry)+

end
