(* ===== verification/SlotCommandClaims.thy ===== *)
theory SlotCommandClaims
  imports SlotCommandSafety
begin

section \<open>Round trip\<close>

text \<open>Encoders and decoders meet at the type of the command.\<close>

lemma decoder_of:
  "commandDecoders js cmdTypeUpsertUser = Some (\<lambda>data. map_sum id upsertUserCmd (decodeUser data))"
  "commandDecoders js cmdTypeCreateUser = Some (\<lambda>data. map_sum id createUserCmd (decodeUser data))"
  "commandDecoders js cmdTypeUpsertDevice = Some (\<lambda>data. map_sum id upsertDeviceCmd (decodeDevice data))"
  "commandDecoders js cmdTypeUpsertChannel = Some (\<lambda>data. map_sum id upsertChannelCmd (decodeChannel data))"
  "commandDecoders js cmdTypeDeleteChannel = Some (\<lambda>data. map_sum id deleteChannelCmd (decodeChannelIdentity data))"
  "commandDecoders js cmdTypeUpsertChannelRuntimeMeta
     = Some (\<lambda>data. map_sum id (\<lambda>m. upsertChannelRuntimeMetaCmd (normalizeChannelRuntimeMeta m)) (decodeRuntimeMeta data))"
  "commandDecoders js cmdTypeDeleteChannelRuntimeMeta = Some (\<lambda>data. map_sum id deleteChannelRuntimeMetaCmd (decodeRuntimeMetaIdentity data))"
  "commandDecoders js cmdTypeAdvanceChannelRetention
     = Some (\<lambda>data. map_sum id advanceChannelRetentionThroughSeqCmd (decodeRetentionAdvance data))"
  "commandDecoders js cmdTypeAddSubscribers = Some (\<lambda>data. map_sum id addSubscribersCmd (decodeSubscribersCommand data))"
  "commandDecoders js cmdTypeRemoveSubscribers = Some (\<lambda>data. map_sum id removeSubscribersCmd (decodeSubscribersCommand data))"
  "commandDecoders js cmdTypeUpsertUserChannelMemberships
     = Some (\<lambda>data. map_sum id upsertUserChannelMembershipsCmd (nonempty (decodeUserChannelMembershipEntries data True)))"
  "commandDecoders js cmdTypeDeleteUserChannelMemberships
     = Some (\<lambda>data. map_sum id deleteUserChannelMembershipsCmd (nonempty (decodeUserChannelMembershipEntries data False)))"
  "commandDecoders js cmdTypeUpsertChannelLatest = Some (\<lambda>data. map_sum id upsertChannelLatestCmd (decodeChannelLatestRecord data))"
  "commandDecoders js cmdTypeUpsertChannelLatestBatch = Some (\<lambda>data. map_sum id upsertChannelLatestBatchCmd
       (nonempty (decode_entries tagChannelLatestBatchEntry decodeChannelLatestBatchItem data)))"
  "commandDecoders js cmdTypeUpsertConversationStates
     = Some (\<lambda>data. map_sum id upsertConversationStatesCmd (nonempty (decodeConversationStateEntries data)))"
  "commandDecoders js cmdTypeTouchConversationActiveAt
     = Some (\<lambda>data. map_sum id touchConversationActiveAtCmd (nonempty (decodeConversationActivePatchEntries data)))"
  "commandDecoders js cmdTypeClearConversationActiveAt
     = Some (\<lambda>data. map_sum id clearConversationActiveAtCmd (decodeClearConversationActiveAt data))"
  "commandDecoders js cmdTypeHideConversations
     = Some (\<lambda>data. map_sum id hideConversationsCmd (nonempty (decodeConversationDeleteEntries data)))"
  "commandDecoders js cmdTypeNoop = Some (\<lambda>data. map_sum id (\<lambda>_. noopCmd) (decodeNoop data))"
  "commandDecoders js cmdTypeBindPluginUser = Some (\<lambda>data. map_sum id bindPluginUserCmd (decodeBindPluginUser data))"
  "commandDecoders js cmdTypeUnbindPluginUser
     = Some (\<lambda>data. map_sum id (\<lambda>b. unbindPluginUserCmd (pb_UID b) (pb_PluginNo b)) (decodeUnbindPluginUser data))"
  "commandDecoders js cmdTypeApplyDelta = Some (\<lambda>data. map_sum id applyDeltaCmd (decodeApplyDelta data))"
  "commandDecoders js cmdTypeEnterFence = Some (\<lambda>data. map_sum id enterFenceCmd (decodeEnterFence data))"
  "commandDecoders js cmdTypeAckMigrationOutbox = Some (\<lambda>data. map_sum id ackMigrationOutboxCmd (decodeMigrationOutboxIdentity data))"
  "commandDecoders js cmdTypeCleanupMigrationOutbox
     = Some (\<lambda>data. map_sum id cleanupMigrationOutboxCmd (decodeMigrationOutboxIdentity data))"
  by (simp_all add: commandDecoders_def cmd_types)

lemma decoder_of_migration:
  assumes "t \<in> set channel_migration_types"
  shows "commandDecoders js t = Some (\<lambda>data. map_sum id (channelMigrationCmd t) (decodeChannelMigrationJSONPayload js t data))"
proof -
  have "t \<notin> {cmdTypeUpsertUser, cmdTypeUpsertChannel, cmdTypeDeleteChannel, cmdTypeUpsertChannelRuntimeMeta,
     cmdTypeDeleteChannelRuntimeMeta, cmdTypeCreateUser, cmdTypeUpsertDevice, cmdTypeAddSubscribers,
     cmdTypeRemoveSubscribers, cmdTypeUpsertConversationStates, cmdTypeTouchConversationActiveAt,
     cmdTypeClearConversationActiveAt, cmdTypeReservedConversationProjectionUpsert,
     cmdTypeReservedConversationProjectionDelete, cmdTypeAdvanceChannelRetention, cmdTypeHideConversations,
     cmdTypeNoop, cmdTypeUpsertUserChannelMemberships, cmdTypeDeleteUserChannelMemberships,
     cmdTypeUpsertChannelLatest, cmdTypeUpsertChannelLatestBatch, cmdTypeBindPluginUser, cmdTypeUnbindPluginUser,
     cmdTypeApplyDelta, cmdTypeEnterFence, cmdTypeAckMigrationOutbox, cmdTypeCleanupMigrationOutbox}"
    using assms unfolding channel_migration_types_def cmd_types by (simp only: list.set insert_iff empty_iff) (elim disjE; simp)
  then show ?thesis using assms by (simp add: commandDecoders_def)
qed

text \<open>Users, devices and channels: their commands are the fields after the header.\<close>

lemma roundtrip_rows:
  "encode_command js (upsertUserCmd u) = Some data \<Longrightarrow> length data < 2 ^ 32 \<Longrightarrow> decodeCommand js data = Inr (upsertUserCmd u)"
  "encode_command js (createUserCmd u) = Some data \<Longrightarrow> length data < 2 ^ 32 \<Longrightarrow> decodeCommand js data = Inr (createUserCmd u)"
  "encode_command js (upsertDeviceCmd d) = Some data \<Longrightarrow> length data < 2 ^ 32 \<Longrightarrow> decodeCommand js data = Inr (upsertDeviceCmd d)"
  "encode_command js (upsertChannelCmd ch) = Some data \<Longrightarrow> length data < 2 ^ 32 \<Longrightarrow> decodeCommand js data = Inr (carried (upsertChannelCmd ch))"
  "encode_command js (deleteChannelCmd k) = Some data \<Longrightarrow> length data < 2 ^ 32 \<Longrightarrow> decodeCommand js data = Inr (deleteChannelCmd k)"
  by (auto simp: EncodeUpsertUserCommand_def EncodeCreateUserCommand_def encodeUserCommand_eq EncodeUpsertDeviceCommand_eq
      EncodeUpsertChannelCommand_eq EncodeDeleteChannelCommand_eq fits_len_def decoder_of
      decodeCommand_dispatch [unfolded append_Cons append_Nil] decodeUser_fields decodeDevice_fields decodeChannel_fields
      decodeChannelIdentity_fields)

lemma decode_read:
  assumes "\<exists>fs. data = [commandVersion, t] @ fs \<and> dec fs = Inr r"
    and "commandDecoders js t = Some (\<lambda>data. map_sum id c (dec data))"
  shows "decodeCommand js data = Inr (c r)"
  using assms decodeCommand_dispatch [of js t] by auto

lemma roundtrip_runtime:
  "length (EncodeUpsertChannelRuntimeMetaCommand m) < 2 ^ 32 \<Longrightarrow>
     decodeCommand js (EncodeUpsertChannelRuntimeMetaCommand m) = Inr (upsertChannelRuntimeMetaCmd (normalizeChannelRuntimeMeta m))"
  "length (EncodeDeleteChannelRuntimeMetaCommand (ck_ChannelID k) (ck_ChannelType k)) < 2 ^ 32 \<Longrightarrow>
     decodeCommand js (EncodeDeleteChannelRuntimeMetaCommand (ck_ChannelID k) (ck_ChannelType k)) = Inr (deleteChannelRuntimeMetaCmd k)"
  "length (EncodeAdvanceChannelRetentionThroughSeqCommand a) < 2 ^ 32 \<Longrightarrow>
     decodeCommand js (EncodeAdvanceChannelRetentionThroughSeqCommand a) = Inr (advanceChannelRetentionThroughSeqCmd a)"
proof -
  assume len: "length (EncodeUpsertChannelRuntimeMetaCommand m) < 2 ^ 32"
  define n where "n = normalizeChannelRuntimeMeta m"
  have same: "rm_ChannelID n = rm_ChannelID m" "rm_WriteFenceToken n = rm_WriteFenceToken m"
    "rm_Replicas n = normalizeUint64Set (rm_Replicas m)" "rm_ISR n = normalizeUint64Set (rm_ISR m)"
    by (simp_all add: n_def normalizeChannelRuntimeMeta_def Let_def)
  have "\<exists>fs. EncodeUpsertChannelRuntimeMetaCommand m = [commandVersion, cmdTypeUpsertChannelRuntimeMeta] @ fs
     \<and> decodeRuntimeMeta fs = Inr (normalizeChannelRuntimeMeta m)"
    by (rule EncodeUpsertChannelRuntimeMetaCommand_read; unfold same [symmetric])
      (use len in \<open>simp_all add: EncodeUpsertChannelRuntimeMetaCommand_def Let_def append_fields n_def [symmetric] fits_len_def
        split: if_splits\<close>)
  from decode_read [OF this decoder_of(6)]
  show "decodeCommand js (EncodeUpsertChannelRuntimeMetaCommand m) = Inr (upsertChannelRuntimeMetaCmd (normalizeChannelRuntimeMeta m))"
    by simp
next
  assume "length (EncodeDeleteChannelRuntimeMetaCommand (ck_ChannelID k) (ck_ChannelType k)) < 2 ^ 32"
  then have "fits_len (ck_ChannelID k)"
    by (simp add: EncodeDeleteChannelRuntimeMetaCommand_def Let_def append_fields fits_len_def)
  from decode_read [OF EncodeDeleteChannelRuntimeMetaCommand_read [OF this] decoder_of(7)]
  show "decodeCommand js (EncodeDeleteChannelRuntimeMetaCommand (ck_ChannelID k) (ck_ChannelType k)) = Inr (deleteChannelRuntimeMetaCmd k)" .
next
  assume "length (EncodeAdvanceChannelRetentionThroughSeqCommand a) < 2 ^ 32"
  then have "fits_len (ra_ChannelID a)"
    by (simp add: EncodeAdvanceChannelRetentionThroughSeqCommand_def Let_def append_fields fits_len_def)
  from decode_read [OF EncodeAdvanceChannelRetentionThroughSeqCommand_read [OF this] decoder_of(8)]
  show "decodeCommand js (EncodeAdvanceChannelRetentionThroughSeqCommand a) = Inr (advanceChannelRetentionThroughSeqCmd a)" .
qed


lemma roundtrip_subscribers:
  assumes "length (encodeSubscribersCommand t (sb_channelID s) (sb_channelType s) (sb_uids s) [sb_version s]) < 2 ^ 32"
    and "list_all (\<lambda>x. 0 \<notin> set x \<and> x \<noteq> []) (sb_uids s)" "ValidateSubscriberCommandLimits (sb_uids s) = None"
    and "commandDecoders js t = Some (\<lambda>data. map_sum id c (decodeSubscribersCommand data))"
  shows "decodeCommand js (encodeSubscribersCommand t (sb_channelID s) (sb_channelType s) (sb_uids s) [sb_version s])
    = Inr (c (s\<lparr>sb_uids := dedup_strings (sort_by (<) (sb_uids s))\<rparr>))"
proof -
  have "fits_len (sb_channelID s)"
    using assms(1) by (simp add: encodeSubscribersCommand_def Let_def append_fields fits_len_def split: if_splits)
  from decode_read [OF encodeSubscribersCommand_read [OF this assms(2,3)] assms(4)] show ?thesis .
qed

lemma membership_back:
  "fits_len (encodeUserChannelMembershipEntry m True) \<Longrightarrow>
     decodeUserChannelMembershipEntry (encodeUserChannelMembershipEntry m True) True = Inr m"
  "fits_len (encodeUserChannelMembershipEntry m False) \<Longrightarrow>
     decodeUserChannelMembershipEntry (encodeUserChannelMembershipEntry m False) False = Inr (m\<lparr>um_JoinSeq := 0, um_UpdatedAt := 0\<rparr>)"
  by (blast intro: UserChannelMembershipEntry_read fits_mono length_UserChannelMembershipEntry)+

lemma roundtrip_memberships:
  "length (EncodeUpsertUserChannelMembershipsCommand ms) < 2 ^ 32 \<Longrightarrow> ms \<noteq> [] \<Longrightarrow>
     decodeCommand js (EncodeUpsertUserChannelMembershipsCommand ms) = Inr (upsertUserChannelMembershipsCmd ms)"
  "length (EncodeDeleteUserChannelMembershipsCommand ms) < 2 ^ 32 \<Longrightarrow> ms \<noteq> [] \<Longrightarrow>
     decodeCommand js (EncodeDeleteUserChannelMembershipsCommand ms)
       = Inr (deleteUserChannelMembershipsCmd (map (\<lambda>m. m\<lparr>um_JoinSeq := 0, um_UpdatedAt := 0\<rparr>) ms))"
proof -
  assume len: "length (EncodeUpsertUserChannelMembershipsCommand ms) < 2 ^ 32" and ne: "ms \<noteq> []"
  have "\<exists>fs. EncodeUpsertUserChannelMembershipsCommand ms = [commandVersion, cmdTypeUpsertUserChannelMemberships] @ fs
      \<and> nonempty (decodeUserChannelMembershipEntries fs True) = Inr (map (\<lambda>m. m) ms)"
    unfolding EncodeUpsertUserChannelMembershipsCommand_def decodeUserChannelMembershipEntries_def
    by (rule entries_read)
      (use ne fits_entry [OF len [unfolded EncodeUpsertUserChannelMembershipsCommand_def]] in \<open>auto simp: membership_back\<close>)
  from decode_read [where dec = "\<lambda>data. nonempty (decodeUserChannelMembershipEntries data True)", OF this decoder_of(11)]
  show "decodeCommand js (EncodeUpsertUserChannelMembershipsCommand ms) = Inr (upsertUserChannelMembershipsCmd ms)" by simp
next
  assume len: "length (EncodeDeleteUserChannelMembershipsCommand ms) < 2 ^ 32" and ne: "ms \<noteq> []"
  have "\<exists>fs. EncodeDeleteUserChannelMembershipsCommand ms = [commandVersion, cmdTypeDeleteUserChannelMemberships] @ fs
      \<and> nonempty (decodeUserChannelMembershipEntries fs False) = Inr (map (\<lambda>m. m\<lparr>um_JoinSeq := 0, um_UpdatedAt := 0\<rparr>) ms)"
    unfolding EncodeDeleteUserChannelMembershipsCommand_def decodeUserChannelMembershipEntries_def
    by (rule entries_read)
      (use ne fits_entry [OF len [unfolded EncodeDeleteUserChannelMembershipsCommand_def]] in \<open>auto simp: membership_back\<close>)
  from decode_read [where dec = "\<lambda>data. nonempty (decodeUserChannelMembershipEntries data False)", OF this decoder_of(12)]
  show "decodeCommand js (EncodeDeleteUserChannelMembershipsCommand ms)
       = Inr (deleteUserChannelMembershipsCmd (map (\<lambda>m. m\<lparr>um_JoinSeq := 0, um_UpdatedAt := 0\<rparr>) ms))" .
qed

lemma latest_back: "fits_len (encodeChannelLatestRecord l) \<Longrightarrow> decodeChannelLatestRecord (encodeChannelLatestRecord l) = Inr l"
  by (blast intro: ChannelLatestRecord_read fits_mono length_ChannelLatestRecord)

lemma roundtrip_latest:
  "length (EncodeUpsertChannelLatestCommand l) < 2 ^ 32 \<Longrightarrow>
     decodeCommand js (EncodeUpsertChannelLatestCommand l) = Inr (upsertChannelLatestCmd l)"
  "length (EncodeUpsertChannelLatestBatchCommand is) < 2 ^ 32 \<Longrightarrow> is \<noteq> [] \<Longrightarrow>
     decodeCommand js (EncodeUpsertChannelLatestBatchCommand is) = Inr (upsertChannelLatestBatchCmd is)"
proof -
  assume "length (EncodeUpsertChannelLatestCommand l) < 2 ^ 32"
  then have "fits_len (encodeChannelLatestRecord l)" by (simp add: EncodeUpsertChannelLatestCommand_def fits_len_def)
  then show "decodeCommand js (EncodeUpsertChannelLatestCommand l) = Inr (upsertChannelLatestCmd l)"
    by (simp add: EncodeUpsertChannelLatestCommand_def decodeCommand_dispatch [unfolded append_Cons append_Nil] decoder_of latest_back)
next
  assume len: "length (EncodeUpsertChannelLatestBatchCommand is) < 2 ^ 32" and ne: "is \<noteq> []"
  have i: "fits_len (encodeChannelLatestRecord (li_Latest i))" if "fits_len (encodeChannelLatestBatchItem i)" for i
    using that by (blast intro: fits_mono length_ChannelLatestRecord)
  have "\<exists>fs. EncodeUpsertChannelLatestBatchCommand is = [commandVersion, cmdTypeUpsertChannelLatestBatch] @ fs
      \<and> nonempty (decode_entries tagChannelLatestBatchEntry decodeChannelLatestBatchItem fs) = Inr (map (\<lambda>i. i) is)"
    unfolding EncodeUpsertChannelLatestBatchCommand_def
    by (rule entries_read)
      (use ne fits_entry [OF len [unfolded EncodeUpsertChannelLatestBatchCommand_def]] in
        \<open>auto intro!: ChannelLatestBatchItem_read latest_back i\<close>)
  from decode_read [where dec = "\<lambda>data. nonempty (decode_entries tagChannelLatestBatchEntry decodeChannelLatestBatchItem data)",
      OF this decoder_of(14)]
  show "decodeCommand js (EncodeUpsertChannelLatestBatchCommand is) = Inr (upsertChannelLatestBatchCmd is)" by simp
qed

lemma roundtrip_conversations:
  "encode_command js (upsertConversationStatesCmd ss) = Some data \<Longrightarrow> length data < 2 ^ 32 \<Longrightarrow>
     sendable js (upsertConversationStatesCmd ss) \<Longrightarrow> decodeCommand js data = Inr (upsertConversationStatesCmd ss)"
  "encode_command js (touchConversationActiveAtCmd ps) = Some data \<Longrightarrow> length data < 2 ^ 32 \<Longrightarrow>
     sendable js (touchConversationActiveAtCmd ps) \<Longrightarrow> decodeCommand js data = Inr (touchConversationActiveAtCmd ps)"
  "encode_command js (hideConversationsCmd ds) = Some data \<Longrightarrow> length data < 2 ^ 32 \<Longrightarrow>
     sendable js (hideConversationsCmd ds) \<Longrightarrow> decodeCommand js data = Inr (hideConversationsCmd ds)"
  subgoal
    by (rule decode_read [where dec = "\<lambda>data. nonempty (decodeConversationStateEntries data)", OF _ decoder_of(15)],
        unfold decodeConversationStateEntries_def, rule state_row.batch_back)
      (simp_all add: EncodeUpsertConversationStatesCommand_def [abs_def] EncodeUpsertConversationStateBatchCommand_def [abs_def])
  subgoal
    by (rule decode_read [where dec = "\<lambda>data. nonempty (decodeConversationActivePatchEntries data)", OF _ decoder_of(16)],
        unfold decodeConversationActivePatchEntries_def, rule patch_row.batch_back)
      (simp_all add: EncodeTouchConversationActiveAtCommand_def [abs_def] EncodeTouchConversationActiveAtBatchCommand_def [abs_def])
  subgoal
    by (rule decode_read [where dec = "\<lambda>data. nonempty (decodeConversationDeleteEntries data)", OF _ decoder_of(18)],
        unfold decodeConversationDeleteEntries_def, rule delete_row.batch_back)
      (simp_all add: EncodeHideConversationsCommand_def [abs_def] EncodeHideConversationBatchCommand_def [abs_def])
  done

lemma roundtrip_clear:
  assumes len: "length (EncodeClearConversationActiveAtCommand (ca_kind c) (ca_uid c) (ca_keys c)) < 2 ^ 32"
    and "kind_ok (ca_kind c)" "ca_keys c \<noteq> []"
  shows "decodeCommand js (EncodeClearConversationActiveAtCommand (ca_kind c) (ca_uid c) (ca_keys c)) = Inr (clearConversationActiveAtCmd c)"
proof -
  have e: "length (foldl (\<lambda>buf key. buf @ tlv t (encodeConversationKeyEntry key)) out ks)
      = length out + (\<Sum>k\<leftarrow>ks. tlvOverhead + length (encodeConversationKeyEntry k))" for t out ks
    by (induction ks arbitrary: out) simp_all
  have s: "fits_len (ca_uid c)" "(\<Sum>k\<leftarrow>ca_keys c. tlvOverhead + length (encodeConversationKeyEntry k)) < 2 ^ 32"
    using len by (simp_all add: EncodeClearConversationActiveAtCommand_def Let_def append_fields fits_len_def e)
  have k: "fits_len (ck_ChannelID k)" "fits_len (encodeConversationKeyEntry k)" if "k \<in> set (ca_keys c)" for k
  proof -
    have "tlvOverhead + length (encodeConversationKeyEntry k) \<le> (\<Sum>k\<leftarrow>ca_keys c. tlvOverhead + length (encodeConversationKeyEntry k))"
      using that by (intro member_le_sum_list) auto
    then show f: "fits_len (encodeConversationKeyEntry k)" using s(2) by (simp add: fits_len_def)
    show "fits_len (ck_ChannelID k)"
      by (rule fits_mono [OF f]) (simp add: encodeConversationKeyEntry_def Let_def append_fields)
  qed
  from decode_read [OF ClearConversationActiveAt_read [OF assms(2) s(1) assms(3)] decoder_of(17)] k show ?thesis by simp
qed

lemma roundtrip_plugins:
  "length (EncodeBindPluginUserCommand b) < 2 ^ 32 \<Longrightarrow> decodeCommand js (EncodeBindPluginUserCommand b) = Inr (bindPluginUserCmd b)"
  "length (EncodeUnbindPluginUserCommand uid no) < 2 ^ 32 \<Longrightarrow>
     decodeCommand js (EncodeUnbindPluginUserCommand uid no) = Inr (unbindPluginUserCmd uid no)"
proof -
  assume "length (EncodeBindPluginUserCommand b) < 2 ^ 32"
  then have "fits_len (pb_UID b)" "fits_len (pb_PluginNo b)"
    by (simp_all add: EncodeBindPluginUserCommand_def Let_def append_fields fits_len_def)
  from decode_read [OF EncodeBindPluginUserCommand_read [OF this] decoder_of(20)]
  show "decodeCommand js (EncodeBindPluginUserCommand b) = Inr (bindPluginUserCmd b)" .
next
  assume "length (EncodeUnbindPluginUserCommand uid no) < 2 ^ 32"
  then have "fits_len uid" "fits_len no"
    by (simp_all add: EncodeUnbindPluginUserCommand_def Let_def append_fields fits_len_def)
  from EncodeUnbindPluginUserCommand_read [OF this] decoder_of(21) [of js] decodeCommand_dispatch [of js cmdTypeUnbindPluginUser]
  show "decodeCommand js (EncodeUnbindPluginUserCommand uid no) = Inr (unbindPluginUserCmd uid no)" by auto
qed

lemma roundtrip_delta:
  assumes "length (EncodeApplyDeltaCommand (ad_SourceSlotID d) (ad_SourceIndex d) (ad_HashSlot d) (ad_OriginalCmd d)) < 2 ^ 32"
  shows "decodeCommand js (EncodeApplyDeltaCommand (ad_SourceSlotID d) (ad_SourceIndex d) (ad_HashSlot d) (ad_OriginalCmd d))
    = Inr (applyDeltaCmd d)"
proof -
  have "fits_len (ad_OriginalCmd d)"
    using assms by (simp add: EncodeApplyDeltaCommand_def Let_def append_fields fits_len_def)
  from decode_read [OF EncodeApplyDeltaCommand_read [OF this] decoder_of(22)] show ?thesis .
qed

lemma roundtrip_channel_migration:
  assumes "length (encodeChannelMigrationJSONCommand js t req) < 2 ^ 32" "sendable js (channelMigrationCmd t req)"
  shows "decodeCommand js (encodeChannelMigrationJSONCommand js t req) = Inr (channelMigrationCmd t req)"
proof -
  have f: "fits_len (js_encode js req)"
    using assms(1) by (simp add: encodeChannelMigrationJSONCommand_def append_fields fits_len_def)
  then have "findSingleChannelMigrationJSONPayload (tlv tagChannelMigrationCommandPayload (js_encode js req)) = Inr (Some (js_encode js req))"
    by (simp add: findSingleChannelMigrationJSONPayload_def read_fields json_payload_field_def)
  then show ?thesis
    using assms(2)
    by (simp add: encodeChannelMigrationJSONCommand_def append_fields decodeCommand_dispatch [unfolded append_Cons append_Nil]
        decoder_of_migration decodeChannelMigrationJSONPayload_def bind_res_def)
qed

lemma command_back:
  assumes "encode_command js c = Some data" "length data < 2 ^ 32" "sendable js c"
  shows "decodeCommand js data = Inr (carried c)"
proof (cases c)
  case noopCmd
  then show ?thesis using assms(1)
    by (auto simp: EncodeNoopCommand_def decodeNoop_def decoder_of decodeCommand_dispatch [of js _ "[]", simplified])
qed (use assms in \<open>auto simp: roundtrip_rows roundtrip_runtime roundtrip_subscribers [where c = addSubscribersCmd]
    roundtrip_subscribers [where c = removeSubscribersCmd] roundtrip_memberships roundtrip_latest roundtrip_conversations roundtrip_clear
    roundtrip_plugins roundtrip_delta roundtrip_channel_migration decoder_of
    intro!: decode_read [OF EncodeEnterFenceCommand_read] decode_read [OF outbox_identity_read(1)] decode_read [OF outbox_identity_read(2)]\<close>)

lemma written_back:
  assumes "data \<in> set (written js c)" "length data < 2 ^ 32" "sendable js c"
  shows "decodeCommand js data = Inr (carried c)"
proof (cases "encode_command js c = Some data")
  case False
  then consider (fence) f where "c = enterFenceCmd f" "ef_Target f = 0" "data = EncodeEnterFenceCommand (ef_HashSlot f)"
    | (subscribers) "encode_command js c = Some data"
    using assms(1) version_left_out by (cases c) (auto split: option.splits if_splits)
  then show ?thesis
  proof cases
    case fence
    then show ?thesis using decode_read [OF fence_without_target [OF fence(2)] decoder_of(23)] by simp
  qed (use False in simp)
qed (rule command_back [OF _ assms(2,3)])

section \<open>Unknown fields\<close>

text \<open>The tags a type of command reads; every other field is for a later version.\<close>

definition known_tags :: "u8 \<Rightarrow> u8 list" where
  "known_tags t =
     (if t = cmdTypeUpsertUser \<or> t = cmdTypeCreateUser
      then [tagUserUID, tagUserToken, tagUserDeviceFlag, tagUserDeviceLevel]
      else if t = cmdTypeUpsertDevice
      then [tagDeviceUID, tagDeviceFlag, tagDeviceToken, tagDeviceLevel]
      else if t = cmdTypeUpsertChannel
      then [tagChannelID, tagChannelType, tagChannelBan, tagChannelDisband, tagChannelSendBan, tagChannelAllowStranger,
            tagChannelLarge]
      else if t = cmdTypeDeleteChannel
      then [tagChannelID, tagChannelType]
      else if t = cmdTypeUpsertChannelRuntimeMeta
      then [tagRuntimeMetaChannelID, tagRuntimeMetaChannelType, tagRuntimeMetaChannelEpoch, tagRuntimeMetaLeaderEpoch,
            tagRuntimeMetaReplicas, tagRuntimeMetaISR, tagRuntimeMetaLeader, tagRuntimeMetaMinISR, tagRuntimeMetaStatus,
            tagRuntimeMetaFeatures, tagRuntimeMetaLeaseUntilMS, tagRuntimeMetaRetentionThroughSeq,
            tagRuntimeMetaRetentionUpdatedAtMS, tagRuntimeMetaWriteFenceToken, tagRuntimeMetaWriteFenceVersion,
            tagRuntimeMetaWriteFenceReason, tagRuntimeMetaWriteFenceUntilMS, tagRuntimeMetaRouteGeneration]
      else if t = cmdTypeDeleteChannelRuntimeMeta
      then [tagRuntimeMetaChannelID, tagRuntimeMetaChannelType]
      else if t = cmdTypeAdvanceChannelRetention
      then [tagRetentionAdvanceChannelID, tagRetentionAdvanceChannelType, tagRetentionAdvanceExpectedChannelEpoch,
            tagRetentionAdvanceExpectedLeaderEpoch, tagRetentionAdvanceExpectedLeader,
            tagRetentionAdvanceExpectedLeaseUntilMS, tagRetentionAdvanceThroughSeq, tagRetentionAdvanceUpdatedAtMS]
      else if t = cmdTypeAddSubscribers \<or> t = cmdTypeRemoveSubscribers
      then [tagSubscriberChannelID, tagSubscriberChannelType, tagSubscriberUIDs, tagSubscriberMutationVersion]
      else if t = cmdTypeUpsertUserChannelMemberships \<or> t = cmdTypeDeleteUserChannelMemberships
      then [tagUserChannelMembershipCommandEntry]
      else if t = cmdTypeUpsertChannelLatest
      then [tagChannelLatestChannelID, tagChannelLatestChannelType, tagChannelLatestLastMessageID,
            tagChannelLatestLastMessageSeq, tagChannelLatestLastAt, tagChannelLatestFromUID, tagChannelLatestClientMsgNo,
            tagChannelLatestPayload, tagChannelLatestUpdatedAt]
      else if t = cmdTypeUpsertChannelLatestBatch
      then [tagChannelLatestBatchEntry]
      else if t = cmdTypeUpsertConversationStates
      then [tagConversationStateCommandEntry]
      else if t = cmdTypeTouchConversationActiveAt
      then [tagConversationActivePatchCommandEntry]
      else if t = cmdTypeHideConversations
      then [tagConversationDeleteCommandEntry]
      else if t = cmdTypeClearConversationActiveAt
      then [tagClearConversationActiveKind, tagClearConversationActiveUID, tagClearConversationActiveKey]
      else if t = cmdTypeBindPluginUser \<or> t = cmdTypeUnbindPluginUser
      then [tagPluginUserBindingUID, tagPluginUserBindingPluginNo, tagPluginUserBindingCreatedAtMS,
            tagPluginUserBindingUpdatedAtMS]
      else if t = cmdTypeApplyDelta
      then [tagApplyDeltaSourceSlotID, tagApplyDeltaSourceIndex, tagApplyDeltaHashSlot, tagApplyDeltaOriginalCmd]
      else if t = cmdTypeEnterFence
      then [tagEnterFenceHashSlot, tagEnterFenceTarget]
      else if t = cmdTypeAckMigrationOutbox \<or> t = cmdTypeCleanupMigrationOutbox
      then [tagMigrationOutboxHashSlot, tagMigrationOutboxSourceSlot, tagMigrationOutboxTargetSlot,
            tagMigrationOutboxSourceIndex]
      else if t \<in> set channel_migration_types then [tagChannelMigrationCommandPayload]
      else [])"

definition field_bytes :: "(u8 \<times> u8 list) list \<Rightarrow> u8 list" where
  "field_bytes fs = concat (map (\<lambda>(tag, val). tlv tag val) fs)"

lemma tlv_loop_skip:
  assumes "\<And>s. field tag val s = Inr s" "fits_len val" "list_all (\<lambda>(_, val). fits_len val) fs"
  shows "tlv_loop field (field_bytes fs @ tlv tag val @ rest) s = tlv_loop field (field_bytes fs @ rest) s"
  using assms(3)
proof (induction fs arbitrary: s)
  case Nil
  then show ?case using assms(1,2) by (simp add: field_bytes_def read_fields)
next
  case (Cons f fs)
  then show ?case by (cases f) (auto simp: field_bytes_def read_fields split: sum.split)
qed

text \<open>A decoder of a whole type of command ignores the field.\<close>

definition ignores :: "(u8 list \<Rightarrow> 'r) \<Rightarrow> u8 \<Rightarrow> u8 list \<Rightarrow> bool" where
  "ignores dec tag val \<longleftrightarrow>
     (\<forall>fs rest. list_all (\<lambda>(_, val). fits_len val) fs
        \<longrightarrow> dec (field_bytes fs @ tlv tag val @ rest) = dec (field_bytes fs @ rest))"

lemma ignores_loop:
  assumes "\<And>s. field tag val s = Inr s" "fits_len val"
  shows "ignores (\<lambda>data. f (tlv_loop field data s)) tag val"
  using tlv_loop_skip [of field tag val, OF assms] by (simp add: ignores_def)

lemma ignores_fun: "ignores dec tag val \<Longrightarrow> ignores (\<lambda>data. f (dec data)) tag val"
  by (simp add: ignores_def)

lemma ignores_const: "ignores (\<lambda>data. c) tag val"
  by (simp add: ignores_def)

lemma unknown_field:
  "tag \<notin> {tagUserUID, tagUserToken, tagUserDeviceFlag, tagUserDeviceLevel} \<Longrightarrow> user_field tag val s1 = Inr s1"
  "tag \<notin> {tagDeviceUID, tagDeviceFlag, tagDeviceToken, tagDeviceLevel} \<Longrightarrow> device_field tag val s2 = Inr s2"
  "tag \<notin> {tagChannelID, tagChannelType, tagChannelBan, tagChannelDisband, tagChannelSendBan,
      tagChannelAllowStranger, tagChannelLarge} \<Longrightarrow> channel_field tag val s3 = Inr s3"
  "tag \<notin> {tagChannelID, tagChannelType} \<Longrightarrow> channelIdentity_field tag val s4 = Inr s4"
  "tag \<notin> {tagRuntimeMetaChannelID, tagRuntimeMetaChannelType, tagRuntimeMetaChannelEpoch,
      tagRuntimeMetaLeaderEpoch, tagRuntimeMetaReplicas, tagRuntimeMetaISR, tagRuntimeMetaLeader,
      tagRuntimeMetaMinISR, tagRuntimeMetaStatus, tagRuntimeMetaFeatures, tagRuntimeMetaLeaseUntilMS,
      tagRuntimeMetaRetentionThroughSeq, tagRuntimeMetaRetentionUpdatedAtMS,
      tagRuntimeMetaWriteFenceToken, tagRuntimeMetaWriteFenceVersion, tagRuntimeMetaWriteFenceReason,
      tagRuntimeMetaWriteFenceUntilMS, tagRuntimeMetaRouteGeneration} \<Longrightarrow> runtimeMeta_field tag val s5 = Inr s5"
  "tag \<notin> {tagRuntimeMetaChannelID, tagRuntimeMetaChannelType} \<Longrightarrow> runtimeMetaIdentity_field tag val s6 = Inr s6"
  "tag \<notin> {tagRetentionAdvanceChannelID, tagRetentionAdvanceChannelType,
      tagRetentionAdvanceExpectedChannelEpoch, tagRetentionAdvanceExpectedLeaderEpoch,
      tagRetentionAdvanceExpectedLeader, tagRetentionAdvanceExpectedLeaseUntilMS,
      tagRetentionAdvanceThroughSeq, tagRetentionAdvanceUpdatedAtMS} \<Longrightarrow> retentionAdvance_field tag val s7 = Inr s7"
  "tag \<notin> {tagSubscriberChannelID, tagSubscriberChannelType, tagSubscriberUIDs, tagSubscriberMutationVersion} \<Longrightarrow> subscribers_field tag val s8 = Inr s8"
  "tag \<notin> {tagChannelLatestChannelID, tagChannelLatestChannelType, tagChannelLatestLastMessageID,
      tagChannelLatestLastMessageSeq, tagChannelLatestLastAt, tagChannelLatestFromUID,
      tagChannelLatestClientMsgNo, tagChannelLatestPayload, tagChannelLatestUpdatedAt} \<Longrightarrow> channelLatestRecord_field tag val s9 = Inr s9"
  "tag \<notin> {tagClearConversationActiveKind, tagClearConversationActiveUID, tagClearConversationActiveKey} \<Longrightarrow> clearConversationActiveAt_field tag val s10 = Inr s10"
  "tag \<notin> {tagPluginUserBindingUID, tagPluginUserBindingPluginNo, tagPluginUserBindingCreatedAtMS,
      tagPluginUserBindingUpdatedAtMS} \<Longrightarrow> pluginUserBinding_field tag val s11 = Inr s11"
  "tag \<notin> {tagApplyDeltaSourceSlotID, tagApplyDeltaSourceIndex, tagApplyDeltaHashSlot, tagApplyDeltaOriginalCmd} \<Longrightarrow> applyDelta_field tag val s12 = Inr s12"
  "tag \<notin> {tagEnterFenceHashSlot, tagEnterFenceTarget} \<Longrightarrow> enterFence_field tag val s13 = Inr s13"
  by (auto simp: user_field_def device_field_def channel_field_def channelIdentity_field_def runtimeMeta_field_def
      runtimeMetaIdentity_field_def retentionAdvance_field_def subscribers_field_def
      channelLatestRecord_field_def clearConversationActiveAt_field_def pluginUserBinding_field_def
      applyDelta_field_def enterFence_field_def split: prod.splits)

lemma ignores_rows:
  assumes "fits_len val"
  shows "tag \<notin> {tagUserUID, tagUserToken, tagUserDeviceFlag, tagUserDeviceLevel} \<Longrightarrow> ignores decodeUser tag val"
    and "tag \<notin> {tagDeviceUID, tagDeviceFlag, tagDeviceToken, tagDeviceLevel} \<Longrightarrow> ignores decodeDevice tag val"
    and "tag \<notin> {tagChannelID, tagChannelType, tagChannelBan, tagChannelDisband, tagChannelSendBan,
      tagChannelAllowStranger, tagChannelLarge} \<Longrightarrow> ignores decodeChannel tag val"
    and "tag \<notin> {tagChannelID, tagChannelType} \<Longrightarrow> ignores decodeChannelIdentity tag val"
    and "tag \<notin> {tagRuntimeMetaChannelID, tagRuntimeMetaChannelType, tagRuntimeMetaChannelEpoch,
      tagRuntimeMetaLeaderEpoch, tagRuntimeMetaReplicas, tagRuntimeMetaISR, tagRuntimeMetaLeader,
      tagRuntimeMetaMinISR, tagRuntimeMetaStatus, tagRuntimeMetaFeatures, tagRuntimeMetaLeaseUntilMS,
      tagRuntimeMetaRetentionThroughSeq, tagRuntimeMetaRetentionUpdatedAtMS,
      tagRuntimeMetaWriteFenceToken, tagRuntimeMetaWriteFenceVersion, tagRuntimeMetaWriteFenceReason,
      tagRuntimeMetaWriteFenceUntilMS, tagRuntimeMetaRouteGeneration} \<Longrightarrow> ignores decodeRuntimeMeta tag val"
    and "tag \<notin> {tagRuntimeMetaChannelID, tagRuntimeMetaChannelType} \<Longrightarrow> ignores decodeRuntimeMetaIdentity tag val"
    and "tag \<notin> {tagRetentionAdvanceChannelID, tagRetentionAdvanceChannelType,
      tagRetentionAdvanceExpectedChannelEpoch, tagRetentionAdvanceExpectedLeaderEpoch,
      tagRetentionAdvanceExpectedLeader, tagRetentionAdvanceExpectedLeaseUntilMS,
      tagRetentionAdvanceThroughSeq, tagRetentionAdvanceUpdatedAtMS} \<Longrightarrow> ignores decodeRetentionAdvance tag val"
    and "tag \<notin> {tagSubscriberChannelID, tagSubscriberChannelType, tagSubscriberUIDs, tagSubscriberMutationVersion} \<Longrightarrow> ignores decodeSubscribersCommand tag val"
    and "tag \<notin> {tagChannelLatestChannelID, tagChannelLatestChannelType, tagChannelLatestLastMessageID,
      tagChannelLatestLastMessageSeq, tagChannelLatestLastAt, tagChannelLatestFromUID,
      tagChannelLatestClientMsgNo, tagChannelLatestPayload, tagChannelLatestUpdatedAt} \<Longrightarrow> ignores decodeChannelLatestRecord tag val"
    and "tag \<notin> {tagClearConversationActiveKind, tagClearConversationActiveUID, tagClearConversationActiveKey} \<Longrightarrow> ignores decodeClearConversationActiveAt tag val"
    and "tag \<notin> {tagPluginUserBindingUID, tagPluginUserBindingPluginNo, tagPluginUserBindingCreatedAtMS,
      tagPluginUserBindingUpdatedAtMS} \<Longrightarrow> ignores decodePluginUserBindingFields tag val"
    and "tag \<notin> {tagApplyDeltaSourceSlotID, tagApplyDeltaSourceIndex, tagApplyDeltaHashSlot, tagApplyDeltaOriginalCmd} \<Longrightarrow> ignores decodeApplyDelta tag val"
    and "tag \<notin> {tagEnterFenceHashSlot, tagEnterFenceTarget} \<Longrightarrow> ignores decodeEnterFence tag val"
  unfolding decodeUser_def [abs_def] decodeDevice_def [abs_def] decodeChannel_def [abs_def]
    decodeChannelIdentity_def [abs_def] decodeRuntimeMeta_def [abs_def]
    decodeRuntimeMetaIdentity_def [abs_def] decodeRetentionAdvance_def [abs_def]
    decodeSubscribersCommand_def [abs_def] decodeChannelLatestRecord_def [abs_def]
    decodeClearConversationActiveAt_def [abs_def] decodePluginUserBindingFields_def [abs_def]
    decodeApplyDelta_def [abs_def] decodeEnterFence_def [abs_def]
  by (rule ignores_loop, erule unknown_field, rule assms)+

lemma ignores_entries: "tag \<noteq> entryTag \<Longrightarrow> fits_len val \<Longrightarrow> ignores (decode_entries entryTag decode) tag val"
  unfolding decode_entries_def [abs_def] by (rule ignores_loop) (simp_all add: entry_field_def)

lemma ignores_outbox:
  "tag \<notin> {tagMigrationOutboxHashSlot, tagMigrationOutboxSourceSlot, tagMigrationOutboxTargetSlot, tagMigrationOutboxSourceIndex} \<Longrightarrow>
     length val = 8 \<Longrightarrow> ignores decodeMigrationOutboxIdentity tag val"
  unfolding decodeMigrationOutboxIdentity_def [abs_def]
  by (rule ignores_loop) (auto simp: outbox_field_def fits_len_def)

lemma ignores_json:
  "tag \<noteq> tagChannelMigrationCommandPayload \<Longrightarrow> fits_len val \<Longrightarrow> ignores (decodeChannelMigrationJSONPayload js t) tag val"
  unfolding decodeChannelMigrationJSONPayload_def [abs_def] findSingleChannelMigrationJSONPayload_def
  by (rule ignores_loop) (simp_all add: json_payload_field_def)

lemma ignores_noop: "fits_len val \<Longrightarrow> ignores decodeNoop tag val"
  unfolding decodeNoop_def [abs_def] by (rule ignores_loop [where f = "\<lambda>r. r"]) simp_all


lemma ignores_steps:
  "ignores dec tag val \<Longrightarrow> ignores (\<lambda>data. map_sum id c (dec data)) tag val"
  "ignores dec' tag val \<Longrightarrow> ignores (\<lambda>data. nonempty (dec' data)) tag val"
  "ignores dec'' tag val \<Longrightarrow> ignores (\<lambda>data. finish tags (dec'' data)) tag val"
  by (simp_all add: ignores_def)

lemma ignores_batches:
  "tag \<noteq> tagConversationStateCommandEntry \<Longrightarrow> fits_len val \<Longrightarrow> ignores decodeConversationStateEntries tag val"
  "tag \<noteq> tagConversationActivePatchCommandEntry \<Longrightarrow> fits_len val \<Longrightarrow> ignores decodeConversationActivePatchEntries tag val"
  "tag \<noteq> tagConversationDeleteCommandEntry \<Longrightarrow> fits_len val \<Longrightarrow> ignores decodeConversationDeleteEntries tag val"
  "tag \<noteq> tagUserChannelMembershipCommandEntry \<Longrightarrow> fits_len val \<Longrightarrow> ignores (\<lambda>data. decodeUserChannelMembershipEntries data b) tag val"
  by (simp_all add: decodeConversationStateEntries_def decodeConversationActivePatchEntries_def decodeConversationDeleteEntries_def
      decodeUserChannelMembershipEntries_def ignores_entries)

lemma ignores_plugins:
  "tag \<notin> set (known_tags cmdTypeBindPluginUser) \<Longrightarrow> fits_len val \<Longrightarrow> ignores decodeBindPluginUser tag val"
  "tag \<notin> set (known_tags cmdTypeBindPluginUser) \<Longrightarrow> fits_len val \<Longrightarrow> ignores decodeUnbindPluginUser tag val"
  unfolding decodeBindPluginUser_def [abs_def] decodeUnbindPluginUser_def [abs_def]
  by (intro ignores_steps ignores_rows; simp add: known_tags_def cmd_types)+

lemma command_ignores_at:
  assumes "fits_len val"
  shows "tag \<notin> set (known_tags cmdTypeUpsertUser) \<Longrightarrow> ignores (\<lambda>data. map_sum id upsertUserCmd (decodeUser data)) tag val"
    and "tag \<notin> set (known_tags cmdTypeUpsertChannel) \<Longrightarrow>
      ignores (\<lambda>data. map_sum id upsertChannelCmd (decodeChannel data)) tag val"
    and "tag \<notin> set (known_tags cmdTypeDeleteChannel) \<Longrightarrow>
      ignores (\<lambda>data. map_sum id deleteChannelCmd (decodeChannelIdentity data)) tag val"
    and "tag \<notin> set (known_tags cmdTypeUpsertChannelRuntimeMeta) \<Longrightarrow>
      ignores (\<lambda>data. map_sum id (\<lambda>m. upsertChannelRuntimeMetaCmd (normalizeChannelRuntimeMeta m)) (decodeRuntimeMeta data)) tag val"
    and "tag \<notin> set (known_tags cmdTypeDeleteChannelRuntimeMeta) \<Longrightarrow>
      ignores (\<lambda>data. map_sum id deleteChannelRuntimeMetaCmd (decodeRuntimeMetaIdentity data)) tag val"
    and "tag \<notin> set (known_tags cmdTypeCreateUser) \<Longrightarrow> ignores (\<lambda>data. map_sum id createUserCmd (decodeUser data)) tag val"
    and "tag \<notin> set (known_tags cmdTypeUpsertDevice) \<Longrightarrow> ignores (\<lambda>data. map_sum id upsertDeviceCmd (decodeDevice data)) tag val"
    and "tag \<notin> set (known_tags cmdTypeAddSubscribers) \<Longrightarrow>
      ignores (\<lambda>data. map_sum id addSubscribersCmd (decodeSubscribersCommand data)) tag val"
    and "tag \<notin> set (known_tags cmdTypeRemoveSubscribers) \<Longrightarrow>
      ignores (\<lambda>data. map_sum id removeSubscribersCmd (decodeSubscribersCommand data)) tag val"
    and "tag \<notin> set (known_tags cmdTypeUpsertConversationStates) \<Longrightarrow>
      ignores (\<lambda>data. map_sum id upsertConversationStatesCmd (nonempty (decodeConversationStateEntries data))) tag val"
    and "tag \<notin> set (known_tags cmdTypeTouchConversationActiveAt) \<Longrightarrow>
      ignores (\<lambda>data. map_sum id touchConversationActiveAtCmd (nonempty (decodeConversationActivePatchEntries data))) tag val"
    and "tag \<notin> set (known_tags cmdTypeClearConversationActiveAt) \<Longrightarrow>
      ignores (\<lambda>data. map_sum id clearConversationActiveAtCmd (decodeClearConversationActiveAt data)) tag val"
    and "tag \<notin> set (known_tags cmdTypeReservedConversationProjectionUpsert) \<Longrightarrow>
      ignores (\<lambda>data. Inr reservedConversationProjectionCmd) tag val"
    and "tag \<notin> set (known_tags cmdTypeReservedConversationProjectionDelete) \<Longrightarrow>
      ignores (\<lambda>data. Inr reservedConversationProjectionCmd) tag val"
    and "tag \<notin> set (known_tags cmdTypeAdvanceChannelRetention) \<Longrightarrow>
      ignores (\<lambda>data. map_sum id advanceChannelRetentionThroughSeqCmd (decodeRetentionAdvance data)) tag val"
    and "tag \<notin> set (known_tags cmdTypeHideConversations) \<Longrightarrow>
      ignores (\<lambda>data. map_sum id hideConversationsCmd (nonempty (decodeConversationDeleteEntries data))) tag val"
    and "tag \<notin> set (known_tags cmdTypeNoop) \<Longrightarrow> ignores (\<lambda>data. map_sum id (\<lambda>_. noopCmd) (decodeNoop data)) tag val"
    and "tag \<notin> set (known_tags cmdTypeUpsertUserChannelMemberships) \<Longrightarrow>
      ignores (\<lambda>data. map_sum id upsertUserChannelMembershipsCmd (nonempty (decodeUserChannelMembershipEntries data True))) tag val"
    and "tag \<notin> set (known_tags cmdTypeDeleteUserChannelMemberships) \<Longrightarrow>
      ignores (\<lambda>data. map_sum id deleteUserChannelMembershipsCmd (nonempty (decodeUserChannelMembershipEntries data False))) tag val"
    and "tag \<notin> set (known_tags cmdTypeUpsertChannelLatest) \<Longrightarrow>
      ignores (\<lambda>data. map_sum id upsertChannelLatestCmd (decodeChannelLatestRecord data)) tag val"
    and "tag \<notin> set (known_tags cmdTypeUpsertChannelLatestBatch) \<Longrightarrow>
      ignores (\<lambda>data. map_sum id upsertChannelLatestBatchCmd (nonempty (decode_entries tagChannelLatestBatchEntry decodeChannelLatestBatchItem data))) tag val"
    and "tag \<notin> set (known_tags cmdTypeBindPluginUser) \<Longrightarrow>
      ignores (\<lambda>data. map_sum id bindPluginUserCmd (decodeBindPluginUser data)) tag val"
    and "tag \<notin> set (known_tags cmdTypeUnbindPluginUser) \<Longrightarrow>
      ignores (\<lambda>data. map_sum id (\<lambda>b. unbindPluginUserCmd (pb_UID b) (pb_PluginNo b)) (decodeUnbindPluginUser data)) tag val"
    and "tag \<notin> set (known_tags cmdTypeApplyDelta) \<Longrightarrow> ignores (\<lambda>data. map_sum id applyDeltaCmd (decodeApplyDelta data)) tag val"
    and "tag \<notin> set (known_tags cmdTypeEnterFence) \<Longrightarrow> ignores (\<lambda>data. map_sum id enterFenceCmd (decodeEnterFence data)) tag val"
    and "tag \<notin> set (known_tags cmdTypeAckMigrationOutbox) \<Longrightarrow> length val = 8 \<Longrightarrow>
      ignores (\<lambda>data. map_sum id ackMigrationOutboxCmd (decodeMigrationOutboxIdentity data)) tag val"
    and "tag \<notin> set (known_tags cmdTypeCleanupMigrationOutbox) \<Longrightarrow> length val = 8 \<Longrightarrow>
      ignores (\<lambda>data. map_sum id cleanupMigrationOutboxCmd (decodeMigrationOutboxIdentity data)) tag val"
  by (use assms in \<open>(intro ignores_steps)?; (intro ignores_rows ignores_entries ignores_outbox ignores_batches ignores_plugins ignores_json ignores_noop ignores_const)?;
      simp add: known_tags_def cmd_types channel_migration_types_def\<close>)+

lemma outbox_short:
  assumes "fits_len val" "length val \<noteq> 8" "list_all (\<lambda>(_, val). fits_len val) fs"
  shows "tlv_loop outbox_field (field_bytes fs @ tlv tag val @ rest) s = Inl DBErrCorruptValue"
  using assms(3)
proof (induction fs arbitrary: s)
  case Nil
  then show ?case using assms(1,2) by (simp add: field_bytes_def read_fields outbox_field_def split: prod.split)
next
  case (Cons f fs)
  have e: "outbox_field tag val s = Inl e \<Longrightarrow> e = DBErrCorruptValue" for tag val s e
    by (auto simp: outbox_field_def split: prod.splits if_splits)
  show ?case using Cons by (cases f) (auto simp: field_bytes_def read_fields dest!: e split: sum.split)
qed

lemma outbox_rejects:
  assumes "fits_len val" "length val \<noteq> 8" "list_all (\<lambda>(_, val). fits_len val) fs"
  shows "decodeMigrationOutboxIdentity (field_bytes fs @ tlv tag val @ rest) = Inl DBErrCorruptValue"
  by (simp add: decodeMigrationOutboxIdentity_def outbox_short [OF assms] finish_def bind_res_def)

lemma command_ignores:
  assumes "commandDecoders js t = Some dec" "tag \<notin> set (known_tags t)" "fits_len val"
    and "t = cmdTypeAckMigrationOutbox \<or> t = cmdTypeCleanupMigrationOutbox \<Longrightarrow> length val = 8"
  shows "ignores dec tag val"
proof (cases "t \<in> set channel_migration_types")
  case True
  then have "tag \<noteq> tagChannelMigrationCommandPayload"
    using assms(2) unfolding channel_migration_types_def by (auto simp: known_tags_def cmd_types channel_migration_types_def)
  then show ?thesis using assms(1,3) True by (auto simp: decoder_of_migration intro!: ignores_steps ignores_json)
next
  case False
  then show ?thesis
    using assms unfolding commandDecoders_def by (auto split: if_splits intro: command_ignores_at)
qed


section \<open>What every decoded command satisfies\<close>

fun well_formed :: "'j command \<Rightarrow> bool" where
  "well_formed (upsertChannelCmd ch) = (cn_SubscriberMutationVersion ch = 0 \<and> cn_SubscriberCount ch = 0)"
| "well_formed (upsertChannelRuntimeMetaCmd m) =
     (sorted_wrt (<) (rm_Replicas m) \<and> sorted_wrt (<) (rm_ISR m) \<and> rm_RouteGeneration m \<noteq> 0)"
| "well_formed (addSubscribersCmd s) = (length (sb_uids s) \<le> MaxSubscriberCommandUIDs)"
| "well_formed (removeSubscribersCmd s) = (length (sb_uids s) \<le> MaxSubscriberCommandUIDs)"
| "well_formed (upsertUserChannelMembershipsCmd ms) = (ms \<noteq> [])"
| "well_formed (deleteUserChannelMembershipsCmd ms) = (ms \<noteq> [])"
| "well_formed (upsertChannelLatestBatchCmd is) = (is \<noteq> [])"
| "well_formed (upsertConversationStatesCmd es) = (es \<noteq> [] \<and> list_all (\<lambda>e. kind_ok (st_Kind (se_row e))) es)"
| "well_formed (touchConversationActiveAtCmd es) = (es \<noteq> [] \<and> list_all (\<lambda>e. kind_ok (pa_Kind (se_row e))) es)"
| "well_formed (hideConversationsCmd es) = (es \<noteq> [] \<and> list_all (\<lambda>e. kind_ok (cd_Kind (se_row e))) es)"
| "well_formed (clearConversationActiveAtCmd c) = (kind_ok (ca_kind c) \<and> ca_keys c \<noteq> [])"
| "well_formed (channelMigrationCmd t req) = (t \<in> set channel_migration_types)"
| "well_formed _ = True"

lemma tlv_loop_inv:
  assumes "tlv_loop field data s = Inr s'" "P s"
    and "\<And>tag val s s'. P s \<Longrightarrow> field tag val s = Inr s' \<Longrightarrow> P s'"
  shows "P s'"
  using assms
proof (induction field data s rule: tlv_loop.induct)
  case (1 field data s)
  show ?case
  proof (cases "data = []")
    case False
    then obtain tag val n s1 where r: "readTLV data = Inr (tag, val, n)" and f: "field tag val s = Inr s1"
      and l: "tlv_loop field (drop n data) s1 = Inr s'"
      using "1.prems"(1) by (subst (asm) tlv_loop.simps) (auto split: sum.splits)
    have "P s1" by (rule "1.prems"(3) [OF "1.prems"(2) f])
    from "1.IH" [OF False r refl refl f l this "1.prems"(3)] show ?thesis .
  qed (use "1.prems" in simp)
qed


lemma decoded_kind: "decodeConversationKindTLVValue val = Inr k \<Longrightarrow> kind_ok k"
  by (auto simp: decodeConversationKindTLVValue_def split: if_splits)

lemma state_entry_kind: "decodeConversationStateEntry val = Inr e \<Longrightarrow> kind_ok (st_Kind (se_row e))"
proof -
  assume "decodeConversationStateEntry val = Inr e"
  then obtain seen where l: "tlv_loop conversationState_field val (\<lparr>se_hashSlot = None, se_row = zero_ConversationState\<rparr>, []) = Inr (e, seen)"
    and s: "tagConversationEntryKind \<in> set seen"
    by (auto simp: decodeConversationStateEntry_def finish_def bind_res_def have_all_def split: sum.splits if_splits)
  have "case (e, seen) of (r, seen) \<Rightarrow> tagConversationEntryKind \<in> set seen \<longrightarrow> kind_ok (st_Kind (se_row r))"
    by (rule tlv_loop_inv [OF l])
      (auto simp: conversationState_field_def slot_field_def uint64_field_def bind_res_def field_tags decoded_kind split: if_splits sum.splits)
  with s show ?thesis by simp
qed

lemma patch_entry_kind: "decodeConversationActivePatchEntry val = Inr e \<Longrightarrow> kind_ok (pa_Kind (se_row e))"
proof -
  assume "decodeConversationActivePatchEntry val = Inr e"
  then obtain seen where l: "tlv_loop conversationActivePatch_field val (\<lparr>se_hashSlot = None, se_row = zero_ConversationActivePatch\<rparr>, []) = Inr (e, seen)"
    and s: "tagConversationEntryKind \<in> set seen"
    by (auto simp: decodeConversationActivePatchEntry_def finish_def bind_res_def have_all_def split: sum.splits if_splits)
  have "case (e, seen) of (r, seen) \<Rightarrow> tagConversationEntryKind \<in> set seen \<longrightarrow> kind_ok (pa_Kind (se_row r))"
    by (rule tlv_loop_inv [OF l])
      (auto simp: conversationActivePatch_field_def slot_field_def uint64_field_def bind_res_def field_tags decoded_kind
        split: if_splits sum.splits)
  with s show ?thesis by simp
qed

lemma delete_entry_kind: "decodeConversationDeleteEntry val = Inr e \<Longrightarrow> kind_ok (cd_Kind (se_row e))"
proof -
  assume "decodeConversationDeleteEntry val = Inr e"
  then obtain seen where l: "tlv_loop conversationDelete_field val (\<lparr>se_hashSlot = None, se_row = zero_ConversationDelete\<rparr>, []) = Inr (e, seen)"
    and s: "tagConversationEntryKind \<in> set seen"
    by (auto simp: decodeConversationDeleteEntry_def finish_def bind_res_def have_all_def split: sum.splits if_splits)
  have "case (e, seen) of (r, seen) \<Rightarrow> tagConversationEntryKind \<in> set seen \<longrightarrow> kind_ok (cd_Kind (se_row r))"
    by (rule tlv_loop_inv [OF l])
      (auto simp: conversationDelete_field_def slot_field_def uint64_field_def bind_res_def field_tags decoded_kind
        split: if_splits sum.splits)
  with s show ?thesis by simp
qed

lemma decoded_entries:
  assumes "decode_entries entryTag decode data = Inr es" "\<And>val e. decode val = Inr e \<Longrightarrow> Q e"
  shows "list_all Q es"
  using assms(1) unfolding decode_entries_def
  by (rule tlv_loop_inv [where P = "list_all Q"])
    (auto simp: entry_field_def bind_res_def assms(2) split: if_splits sum.splits)

lemma decoded_nonempty: "nonempty res = Inr es \<Longrightarrow> es \<noteq> [] \<and> res = Inr es"
  by (auto simp: nonempty_def bind_res_def split: sum.splits if_splits)

lemma decoded_channel: "decodeChannel data = Inr ch \<Longrightarrow> cn_SubscriberMutationVersion ch = 0 \<and> cn_SubscriberCount ch = 0"
proof -
  assume "decodeChannel data = Inr ch"
  then obtain seen where l: "tlv_loop channel_field data (zero_Channel, []) = Inr (ch, seen)"
    by (auto simp: decodeChannel_def finish_def bind_res_def split: sum.splits if_splits)
  have "case (ch, seen) of (r, seen) \<Rightarrow> cn_SubscriberMutationVersion r = 0 \<and> cn_SubscriberCount r = 0"
    by (rule tlv_loop_inv [OF l])
      (auto simp: channel_field_def zero_Channel_def uint64_field_def split: if_splits)
  then show ?thesis by simp
qed

lemma decoded_subscribers: "decodeSubscribersCommand data = Inr s \<Longrightarrow> length (sb_uids s) \<le> MaxSubscriberCommandUIDs"
proof -
  assume "decodeSubscribersCommand data = Inr s"
  then obtain seen where l: "tlv_loop subscribers_field data (zero_Subscribers, []) = Inr (s, seen)"
    by (auto simp: decodeSubscribersCommand_def finish_def bind_res_def split: sum.splits if_splits)
  have "case (s, seen) of (r, seen) \<Rightarrow> length (sb_uids r) \<le> MaxSubscriberCommandUIDs"
    by (rule tlv_loop_inv [OF l])
      (auto simp: subscribers_field_def zero_Subscribers_def uint64_field_def bind_res_def check_error_def
        validateSubscriberCommandUIDCount_def split: if_splits sum.splits option.splits)
  then show ?thesis by simp
qed

lemma decoded_clear: "decodeClearConversationActiveAt data = Inr c \<Longrightarrow> kind_ok (ca_kind c) \<and> ca_keys c \<noteq> []"
proof -
  assume "decodeClearConversationActiveAt data = Inr c"
  then obtain seen where l: "tlv_loop clearConversationActiveAt_field data (\<lparr>ca_kind = 0, ca_uid = [], ca_keys = []\<rparr>, []) = Inr (c, seen)"
    and s: "tagClearConversationActiveKind \<in> set seen" "ca_keys c \<noteq> []"
    by (auto simp: decodeClearConversationActiveAt_def bind_res_def have_all_def split: sum.splits if_splits)
  have "case (c, seen) of (r, seen) \<Rightarrow> tagClearConversationActiveKind \<in> set seen \<longrightarrow> kind_ok (ca_kind r)"
    by (rule tlv_loop_inv [OF l])
      (auto simp: clearConversationActiveAt_field_def bind_res_def field_tags decoded_kind split: if_splits sum.splits)
  with s show ?thesis by simp
qed

lemma normalized_meta: "well_formed (upsertChannelRuntimeMetaCmd (normalizeChannelRuntimeMeta m))"
  using max_route_pos [of "rm_ChannelEpoch m" "rm_LeaderEpoch m" "rm_WriteFenceVersion m"]
  by (auto simp: normalizeChannelRuntimeMeta_def Let_def normalize_set)

lemma decoded_batches:
  "decodeConversationStateEntries data = Inr es \<Longrightarrow> list_all (\<lambda>e. kind_ok (st_Kind (se_row e))) es"
  "decodeConversationActivePatchEntries data = Inr ps \<Longrightarrow> list_all (\<lambda>e. kind_ok (pa_Kind (se_row e))) ps"
  "decodeConversationDeleteEntries data = Inr ds \<Longrightarrow> list_all (\<lambda>e. kind_ok (cd_Kind (se_row e))) ds"
  unfolding decodeConversationStateEntries_def decodeConversationActivePatchEntries_def decodeConversationDeleteEntries_def
  by (erule decoded_entries, erule state_entry_kind patch_entry_kind delete_entry_kind)+

lemma map_sum_Inr: "map_sum id f x = Inr c \<longleftrightarrow> (\<exists>r. x = Inr r \<and> c = f r)"
  by (cases x) auto

lemma decoded_well_formed:
  assumes "decodeCommand js data = Inr c"
  shows "well_formed c"
proof -
  obtain t dec fs where d: "commandDecoders js t = Some dec" "dec fs = Inr c"
    using assms by (auto simp: decodeCommand_def split: if_splits option.splits)
  show ?thesis
    using d unfolding commandDecoders_def
    by (auto simp: map_sum_Inr normalized_meta simp del: well_formed.simps(2) split: if_splits
        dest!: decoded_nonempty decoded_channel decoded_subscribers decoded_clear decoded_batches)
qed


lemma legacy_rows_of_their_kind:
  "list_all (\<lambda>r. kind_ok (st_Kind r)) (userConversationStatesToConversation us)"
  "list_all (\<lambda>r. kind_ok (pa_Kind r)) (userConversationActivePatchesToConversation ps)"
  "list_all (\<lambda>r. kind_ok (cd_Kind r)) (userConversationDeletesToConversation ds)"
  "list_all (\<lambda>r. kind_ok (st_Kind r)) (cmdConversationStatesToConversation cs)"
  "list_all (\<lambda>r. kind_ok (pa_Kind r)) (cmdConversationReadPatchesToConversation rs)"
  by (simp_all add: userConversationStatesToConversation_def userConversationActivePatchesToConversation_def
      userConversationDeletesToConversation_def cmdConversationStatesToConversation_def cmdConversationReadPatchesToConversation_def
      list_all_iff validateConversationKind_def)

section \<open>Properties\<close>

text \<open>A decoder of JSON for the examples: it takes every payload as it is.\<close>

definition plain_json :: "u8 list JSON" where
  "plain_json = \<lparr>js_tokens = (\<lambda>_. ([TokObject, TokEnd], True)), js_lower = (\<lambda>s. s), js_decode = (\<lambda>_ p. Some (p, True)),
     js_encode = (\<lambda>p. p)\<rparr>"

text \<open>
  C36: The bytes (less than four gigabytes) that an encoder of \<open>command.go\<close>, \<open>migration_cmds.go\<close>, \<open>plugin_binding_cmds.go\<close> or
  \<open>channel_migration_cmds.go\<close> writes for a \<open>sendable\<close> command are decoded to the same rows: runtime metadata in their normal form,
  subscribers sorted without repetitions, and without the columns a command does not carry. A command is sendable when its batches are
  not empty, its conversations have a known kind and its subscribers have a name without zero bytes and fit the limits. Of the
  commands of channel migrations this is the frame around their JSON only: that the decoder of JSON, a parameter, takes back the text
  of a request is part of sendable.
\<close>

theorem slot_command_roundtrip:
  assumes "data \<in> set (written js c)" "length data < 2 ^ 32" "sendable js c"
  shows "decodeCommand js data = Inr (carried c)"
  by (rule written_back [OF assms])

definition demo_subscribers :: Subscribers where
  "demo_subscribers = \<lparr>sb_channelID = [103], sb_channelType = 2, sb_uids = [[98], [97], [98]], sb_version = 0\<rparr>"

definition demo_hidden :: "ConversationDelete slot_entry" where
  "demo_hidden = \<lparr>se_hashSlot = Some 3, se_row = \<lparr>cd_UID = [97], cd_Kind = 1, cd_ChannelID = [103], cd_ChannelType = 2,
     cd_DeletedToSeq = 9, cd_UpdatedAt = 5\<rparr>\<rparr>"

lemma demo_subscribers_ok:
  "sendable js (addSubscribersCmd demo_subscribers)"
  "carried (addSubscribersCmd demo_subscribers) = (addSubscribersCmd (demo_subscribers\<lparr>sb_uids := [[97], [98]]\<rparr>) :: 'j command)"
proof -
  have "ValidateSubscriberCommandLimits [[98], [97], [98]] = None" by code_simp
  then show "sendable js (addSubscribersCmd demo_subscribers)" by (simp add: demo_subscribers_def)
  have "dedup_strings (sort_by (<) [[98], [97], [98 :: u8]]) = [[97], [98]]" by code_simp
  then show "carried (addSubscribersCmd demo_subscribers) = (addSubscribersCmd (demo_subscribers\<lparr>sb_uids := [[97], [98]]\<rparr>) :: 'j command)"
    by (simp add: demo_subscribers_def)
qed

lemma slot_command_roundtrip_witness:
  "decodeCommand plain_json (EncodeEnterFenceCommand 7) = Inr (enterFenceCmd \<lparr>ef_HashSlot = 7, ef_Target = 0\<rparr>)
    \<and> decodeCommand plain_json (encodeSubscribersCommand cmdTypeAddSubscribers [103] 2 [[98], [97], [98]] [])
        = Inr (addSubscribersCmd (demo_subscribers\<lparr>sb_uids := [[97], [98]]\<rparr>))
    \<and> decodeCommand plain_json (EncodeHideConversationBatchCommand [(3, se_row demo_hidden)]) = Inr (hideConversationsCmd [demo_hidden])"
proof (intro conjI)
  note R = slot_command_roundtrip [where js = plain_json]
  have "length (EncodeEnterFenceCommand 7) < 2 ^ 32" by (simp add: EncodeEnterFenceCommand_def append_fields tlvOverhead_def)
  then show "decodeCommand plain_json (EncodeEnterFenceCommand 7) = Inr (enterFenceCmd \<lparr>ef_HashSlot = 7, ef_Target = 0\<rparr>)"
    using R [of _ "enterFenceCmd \<lparr>ef_HashSlot = 7, ef_Target = 0\<rparr>"] by simp
  have "length (encodeSubscribersCommand cmdTypeAddSubscribers [103] 2 [[98], [97], [98]] []) < 2 ^ 32"
  proof -
    have "length (encodeStringSet [[98], [97], [98]]) < 100" by code_simp
    then show ?thesis by (simp add: encodeSubscribersCommand_def Let_def append_fields tlvOverhead_def)
  qed
  then show "decodeCommand plain_json (encodeSubscribersCommand cmdTypeAddSubscribers [103] 2 [[98], [97], [98]] [])
        = Inr (addSubscribersCmd (demo_subscribers\<lparr>sb_uids := [[97], [98]]\<rparr>))"
    using R [of _ "addSubscribersCmd demo_subscribers"] demo_subscribers_ok by (simp add: demo_subscribers_def)
  have "length (EncodeHideConversationBatchCommand [(3, se_row demo_hidden)]) < 2 ^ 32"
    by (simp add: EncodeHideConversationBatchCommand_def encode_entries_eq encodeConversationDeleteBatchItem_def
        encodeConversationDeleteEntry_def Let_def append_fields tlvOverhead_def demo_hidden_def)
  moreover have "sendable plain_json (hideConversationsCmd [demo_hidden])"
    by (simp add: demo_hidden_def validateConversationKind_def ConversationKindNormal_def)
  ultimately show "decodeCommand plain_json (EncodeHideConversationBatchCommand [(3, se_row demo_hidden)]) = Inr (hideConversationsCmd [demo_hidden])"
    using R [of _ "hideConversationsCmd [demo_hidden]"] by (simp add: batch_of_def demo_hidden_def)
qed

text \<open>
  C37: A field with a tag that a type of command does not know changes nothing, wherever it stands after complete fields and whatever
  follows: old nodes read the commands of newer ones. The only exception are the acknowledgement and the cleanup of the outbox: there an
  unknown field is skipped exactly when its value has eight bytes, and any other makes the command corrupt.
\<close>

theorem unknown_fields_skipped:
  assumes "commandDecoders js t = Some dec" "tag \<notin> set (known_tags t)" "fits_len val"
    and "list_all (\<lambda>(_, val). fits_len val) fs"
  shows "decodeCommand js ([commandVersion, t] @ field_bytes fs @ tlv tag val @ rest)
    = (if (t = cmdTypeAckMigrationOutbox \<or> t = cmdTypeCleanupMigrationOutbox) \<and> length val \<noteq> 8 then Inl DBErrCorruptValue
       else decodeCommand js ([commandVersion, t] @ field_bytes fs @ rest))"
  using command_ignores [OF assms(1-3)] outbox_rejects [OF assms(3) _ assms(4)] assms(1,4) decoder_of(24,25) [of js]
  by (auto simp: decodeCommand_dispatch ignores_def simp del: append_Cons)

lemma unknown_fields_skipped_witness:
  "decodeCommand plain_json ([commandVersion, cmdTypeEnterFence] @ field_bytes [(tagEnterFenceHashSlot, put64 7)] @ tlv 99 [1, 2, 3] @ [])
      = decodeCommand plain_json ([commandVersion, cmdTypeEnterFence] @ field_bytes [(tagEnterFenceHashSlot, put64 7)] @ [])
    \<and> decodeCommand plain_json ([commandVersion, cmdTypeAckMigrationOutbox] @ field_bytes [] @ tlv 99 [1, 2, 3] @ []) = Inl DBErrCorruptValue"
proof
  show "decodeCommand plain_json ([commandVersion, cmdTypeEnterFence] @ field_bytes [(tagEnterFenceHashSlot, put64 7)] @ tlv 99 [1, 2, 3] @ [])
      = decodeCommand plain_json ([commandVersion, cmdTypeEnterFence] @ field_bytes [(tagEnterFenceHashSlot, put64 7)] @ [])"
    by (subst unknown_fields_skipped [OF decoder_of(23)])
      (simp_all add: known_tags_def cmd_types field_tags fits_len_def channel_migration_types_def)
  show "decodeCommand plain_json ([commandVersion, cmdTypeAckMigrationOutbox] @ field_bytes [] @ tlv 99 [1, 2, 3] @ []) = Inl DBErrCorruptValue"
    by (subst unknown_fields_skipped [OF decoder_of(24)])
      (simp_all add: known_tags_def cmd_types field_tags fits_len_def channel_migration_types_def)
qed

text \<open>
  C38: Whatever bytes arrive, a command that is decoded is well formed: batches are not empty, conversations have a known kind, there
  are at most 1000 subscribers, the replica sets of runtime metadata are sorted without repetitions and their route generation is not 0,
  and the counters of a channel that only the store keeps are 0.
\<close>

theorem decoded_command_well_formed:
  assumes "decodeCommand js data = Inr c"
  shows "well_formed c"
  by (rule decoded_well_formed [OF assms])

lemma decoded_command_well_formed_witness:
  "decodeCommand plain_json (EncodeUpsertUserChannelMembershipsCommand [zero_UserChannelMembership])
     = Inr (upsertUserChannelMembershipsCmd [zero_UserChannelMembership])
   \<and> well_formed (upsertUserChannelMembershipsCmd [zero_UserChannelMembership] :: u8 list command)"
proof -
  have "length (EncodeUpsertUserChannelMembershipsCommand [zero_UserChannelMembership]) < 2 ^ 32"
    by (simp add: EncodeUpsertUserChannelMembershipsCommand_def encode_entries_eq encodeUserChannelMembershipEntry_def Let_def append_fields
        tlvOverhead_def zero_UserChannelMembership_def)
  then have "decodeCommand plain_json (EncodeUpsertUserChannelMembershipsCommand [zero_UserChannelMembership])
     = Inr (upsertUserChannelMembershipsCmd [zero_UserChannelMembership])"
    by (simp add: roundtrip_memberships)
  from this decoded_command_well_formed [OF this] show ?thesis ..
qed

end
