(* ===== verification/SlotWorker.thy ===== *)
theory SlotWorker
  imports Prelude
begin

text \<open>
  The worker that drives hash-slot migrations in progress, \<open>pkg/cluster/slotmigration\<close>: which migrations are active,
  in which phase, and how far the target's copy lags behind. Methods are modelled on a worker built by
  \<open>NewWorker\<close> (never nil, its maps made, its clock set). A time is a number of nanoseconds whose 0 is the zero time; one reading of
  the clock, \<open>now\<close>, is an argument of the operations that read it. A migration is a pointer that lives in the map
  only, so updating it is updating the map.
\<close>

section \<open>Data\<close>

datatype Phase = WPhaseSnapshot | WPhaseDelta | WPhaseSwitching | WPhaseDone

definition maxConcurrentMigrations :: nat where "maxConcurrentMigrations = 4"

definition maxConcurrentMigrationsPerSource :: nat where "maxConcurrentMigrationsPerSource = 2"

definition defaultMigrationStallTimeout :: int where "defaultMigrationStallTimeout = 10 * 60 * 1000000000"

type_synonym go_time = int

definition time_Sub :: "go_time \<Rightarrow> go_time \<Rightarrow> int" where
  "time_Sub t u = max (- (2 ^ 63)) (min (2 ^ 63 - 1) (t - u))"

record Progress =
  pg_SourceApplyIndex :: u64
  pg_TargetApplyIndex :: u64
  pg_DeltaLag :: int
  pg_StableWindowStart :: go_time
  pg_BytesTransferred :: int

record activeMigration =
  am_hashSlot :: u16
  am_source :: u64
  am_target :: u64
  am_phase :: Phase
  am_snapshotAt :: u64
  am_switchReady :: bool
  am_lastActivityAt :: go_time
  am_progress :: Progress

record Worker =
  wk_stableThreshold :: int
  wk_stableWindow :: int
  wk_stallTimeout :: int
  wk_migrations :: "(u16, activeMigration) gomap"

record Migration =
  mi_HashSlot :: u16
  mi_Source :: u64
  mi_Target :: u64
  mi_Phase :: Phase

record Transition =
  tn_HashSlot :: u16
  tn_Source :: u64
  tn_Target :: u64
  tn_From :: Phase
  tn_To :: Phase
  tn_TimedOut :: bool

datatype WorkerErr = ErrInvalidMigration | ErrMigrationExists | ErrMigrationNotFound

section \<open>Progress\<close>

definition zero_Progress :: Progress where
  "zero_Progress = \<lparr>pg_SourceApplyIndex = 0, pg_TargetApplyIndex = 0, pg_DeltaLag = 0, pg_StableWindowStart = 0, pg_BytesTransferred = 0\<rparr>"

definition isStableAt :: "Progress \<Rightarrow> int \<Rightarrow> int \<Rightarrow> go_time \<Rightarrow> bool" where
  "isStableAt p threshold window now =
     (if threshold \<le> pg_DeltaLag p \<or> pg_StableWindowStart p = 0 then False
      else window < time_Sub now (pg_StableWindowStart p))"

text \<open>The lag is converted to a signed integer.\<close>

definition Progress_Update :: "Progress \<Rightarrow> u64 \<Rightarrow> u64 \<Rightarrow> int \<Rightarrow> int \<Rightarrow> go_time \<Rightarrow> Progress" where
  "Progress_Update p sourceApplyIndex targetApplyIndex bytesTransferred stableThreshold now =
     (let p = p\<lparr>pg_SourceApplyIndex := sourceApplyIndex, pg_TargetApplyIndex := targetApplyIndex,
                pg_DeltaLag := (if targetApplyIndex < sourceApplyIndex then sint (sourceApplyIndex - targetApplyIndex) else 0)\<rparr>;
          p = (if pg_BytesTransferred p < bytesTransferred then p\<lparr>pg_BytesTransferred := bytesTransferred\<rparr> else p)
      in if pg_DeltaLag p < stableThreshold
         then if pg_StableWindowStart p = 0 then p\<lparr>pg_StableWindowStart := now\<rparr> else p
         else p\<lparr>pg_StableWindowStart := 0\<rparr>)"

section \<open>Operations\<close>

definition NewWorker :: "int \<Rightarrow> int \<Rightarrow> Worker" where
  "NewWorker stableThreshold stableWindow =
     \<lparr>wk_stableThreshold = stableThreshold, wk_stableWindow = stableWindow, wk_stallTimeout = defaultMigrationStallTimeout,
      wk_migrations = []\<rparr>"

definition ensureState :: "Worker \<Rightarrow> Worker" where
  "ensureState w = (if wk_stallTimeout w \<le> 0 then w\<lparr>wk_stallTimeout := defaultMigrationStallTimeout\<rparr> else w)"

definition countActiveFromSource :: "Worker \<Rightarrow> u64 \<Rightarrow> nat" where
  "countActiveFromSource w source = length (filter (\<lambda>(_, m). am_source m = source) (wk_migrations w))"

definition StartMigration :: "Worker \<Rightarrow> u16 \<Rightarrow> u64 \<Rightarrow> u64 \<Rightarrow> go_time \<Rightarrow> WorkerErr option \<times> Worker" where
  "StartMigration w hashSlot source target now =
     (if source = 0 \<or> target = 0 \<or> source = target then (Some ErrInvalidMigration, w)
      else
        let w = ensureState w
        in case map_of (wk_migrations w) hashSlot of
             Some existing \<Rightarrow>
               if am_source existing = source \<and> am_target existing = target then (None, w) else (Some ErrMigrationExists, w)
           | None \<Rightarrow>
               if maxConcurrentMigrations \<le> length (wk_migrations w) then (None, w)
               else if maxConcurrentMigrationsPerSource \<le> countActiveFromSource w source then (None, w)
               else (None, w\<lparr>wk_migrations := AList.update hashSlot
                       \<lparr>am_hashSlot = hashSlot, am_source = source, am_target = target, am_phase = WPhaseSnapshot, am_snapshotAt = 0,
                        am_switchReady = False, am_lastActivityAt = now, am_progress = zero_Progress\<rparr> (wk_migrations w)\<rparr>))"

text \<open>The methods that look a migration up and change it.\<close>

definition with_migration :: "Worker \<Rightarrow> u16 \<Rightarrow> (activeMigration \<Rightarrow> activeMigration) \<Rightarrow> WorkerErr option \<times> Worker" where
  "with_migration w hashSlot f =
     (case map_of (wk_migrations w) hashSlot of
        None \<Rightarrow> (Some ErrMigrationNotFound, w)
      | Some m \<Rightarrow> (None, w\<lparr>wk_migrations := AList.update hashSlot (f m) (wk_migrations w)\<rparr>))"

definition MarkSnapshotComplete :: "Worker \<Rightarrow> u16 \<Rightarrow> u64 \<Rightarrow> int \<Rightarrow> go_time \<Rightarrow> WorkerErr option \<times> Worker" where
  "MarkSnapshotComplete w hashSlot sourceApplyIndex bytesTransferred now =
     with_migration w hashSlot (\<lambda>m. m\<lparr>am_snapshotAt := sourceApplyIndex, am_lastActivityAt := now,
       am_progress := Progress_Update (am_progress m) sourceApplyIndex sourceApplyIndex bytesTransferred (wk_stableThreshold w) now\<rparr>)"

definition UpdateProgress :: "Worker \<Rightarrow> u16 \<Rightarrow> u64 \<Rightarrow> u64 \<Rightarrow> int \<Rightarrow> go_time \<Rightarrow> WorkerErr option \<times> Worker" where
  "UpdateProgress w hashSlot sourceApplyIndex targetApplyIndex bytesTransferred now =
     with_migration w hashSlot (\<lambda>m. m\<lparr>
       am_progress := Progress_Update (am_progress m) sourceApplyIndex targetApplyIndex bytesTransferred (wk_stableThreshold w) now,
       am_lastActivityAt := now\<rparr>)"

definition MarkSwitchComplete :: "Worker \<Rightarrow> u16 \<Rightarrow> go_time \<Rightarrow> WorkerErr option \<times> Worker" where
  "MarkSwitchComplete w hashSlot now =
     with_migration w hashSlot (\<lambda>m. m\<lparr>am_switchReady := True, am_lastActivityAt := now\<rparr>)"

definition sorted_slots :: "Worker \<Rightarrow> u16 list" where
  "sorted_slots w = sort_by (<) (map fst (wk_migrations w))"

definition ActiveMigrations :: "Worker \<Rightarrow> Migration list" where
  "ActiveMigrations w =
     (if length (wk_migrations w) = 0 then []
      else List.map_filter (\<lambda>hashSlot. map_option (\<lambda>m.
             \<lparr>mi_HashSlot = am_hashSlot m, mi_Source = am_source m, mi_Target = am_target m, mi_Phase = am_phase m\<rparr>)
             (map_of (wk_migrations w) hashSlot)) (sorted_slots w))"

definition removeMigration :: "Worker \<Rightarrow> u16 \<Rightarrow> Worker" where
  "removeMigration w hashSlot =
     (if length (wk_migrations w) = 0 then w else w\<lparr>wk_migrations := AList.delete hashSlot (wk_migrations w)\<rparr>)"

definition AbortMigration :: "Worker \<Rightarrow> u16 \<Rightarrow> Worker" where
  "AbortMigration w hashSlot = removeMigration (ensureState w) hashSlot"

definition transition_of :: "activeMigration \<Rightarrow> Phase \<Rightarrow> Phase \<Rightarrow> bool \<Rightarrow> Transition" where
  "transition_of m from to timedOut =
     \<lparr>tn_HashSlot = am_hashSlot m, tn_Source = am_source m, tn_Target = am_target m, tn_From = from, tn_To = to, tn_TimedOut = timedOut\<rparr>"

definition next_phase :: "Worker \<Rightarrow> activeMigration \<Rightarrow> go_time \<Rightarrow> Phase" where
  "next_phase w m now =
     (case am_phase m of
        WPhaseSnapshot \<Rightarrow> if am_snapshotAt m \<noteq> 0 then WPhaseDelta else WPhaseSnapshot
      | WPhaseDelta \<Rightarrow>
          if isStableAt (am_progress m) (wk_stableThreshold w) (wk_stableWindow w) now then WPhaseSwitching else WPhaseDelta
      | WPhaseSwitching \<Rightarrow> if am_switchReady m then WPhaseDone else WPhaseSwitching
      | WPhaseDone \<Rightarrow> WPhaseDone)"

text \<open>The worker, the migration, the transition if there is one, and whether the migration is to be removed.\<close>

definition tickMigration :: "Worker \<Rightarrow> activeMigration \<Rightarrow> go_time \<Rightarrow> Worker \<times> activeMigration \<times> Transition option \<times> bool" where
  "tickMigration w m now =
     (if am_phase m = WPhaseDone then (w, m, None, True)
      else
        let w = ensureState w
        in if am_lastActivityAt m \<noteq> 0 \<and> wk_stallTimeout w < time_Sub now (am_lastActivityAt m)
           then (w, m, Some (transition_of m (am_phase m) (am_phase m) True), True)
           else
             let from = am_phase m; to = next_phase w m now; m = m\<lparr>am_phase := to\<rparr>
             in if to = from then (w, m, None, False) else (w, m, Some (transition_of m from to False), False))"

fun tick_loop :: "Worker \<Rightarrow> go_time \<Rightarrow> u16 list \<Rightarrow> Worker \<times> Transition list" where
  "tick_loop w now [] = (w, [])"
| "tick_loop w now (hashSlot # hashSlots) =
     (case map_of (wk_migrations w) hashSlot of
        None \<Rightarrow> tick_loop w now hashSlots
      | Some m \<Rightarrow>
          (case tickMigration w m now of
             (w, m, tr, remove) \<Rightarrow>
               let w = w\<lparr>wk_migrations := AList.update hashSlot m (wk_migrations w)\<rparr>;
                   w = (if remove then removeMigration w hashSlot else w);
                   (w, trs) = tick_loop w now hashSlots
               in (w, (case tr of Some t \<Rightarrow> t # trs | None \<Rightarrow> trs))))"

definition Tick :: "Worker \<Rightarrow> go_time \<Rightarrow> Worker \<times> Transition list" where
  "Tick w now = (if length (wk_migrations w) = 0 then (w, []) else tick_loop w now (sorted_slots w))"

end
