(* ===== verification/SlotWorkerSafety.thy ===== *)
theory SlotWorkerSafety
  imports SlotWorker
begin

text \<open>
  What the migration worker promises: its limits hold in every run, and what a tick does to a migration is told by the history of the
  calls since its start: the snapshot, the reports of a small lag, the switch, and how long nothing was heard of it.
\<close>

section \<open>The invariant\<close>

definition migration_entry_ok :: "u16 \<Rightarrow> activeMigration \<Rightarrow> bool" where
  "migration_entry_ok h m \<longleftrightarrow> am_hashSlot m = h \<and> am_source m \<noteq> 0 \<and> am_target m \<noteq> 0 \<and> am_source m \<noteq> am_target m"

definition worker_inv :: "Worker \<Rightarrow> bool" where
  "worker_inv w \<longleftrightarrow> distinct (map fst (wk_migrations w)) \<and> (\<forall>(h, m) \<in> set (wk_migrations w). migration_entry_ok h m)
     \<and> length (wk_migrations w) \<le> maxConcurrentMigrations \<and> (\<forall>s. countActiveFromSource w s \<le> maxConcurrentMigrationsPerSource)"

lemma worker_invI:
  assumes "distinct (map fst (wk_migrations w))" "\<And>h m. (h, m) \<in> set (wk_migrations w) \<Longrightarrow> migration_entry_ok h m"
    and "length (wk_migrations w) \<le> maxConcurrentMigrations" "\<And>s. countActiveFromSource w s \<le> maxConcurrentMigrationsPerSource"
  shows "worker_inv w"
  using assms by (auto simp: worker_inv_def)

lemma worker_invD:
  assumes "worker_inv w"
  shows "distinct (map fst (wk_migrations w))" "(h, m) \<in> set (wk_migrations w) \<Longrightarrow> migration_entry_ok h m"
    "length (wk_migrations w) \<le> maxConcurrentMigrations" "countActiveFromSource w s \<le> maxConcurrentMigrationsPerSource"
  using assms by (auto simp: worker_inv_def)

lemma ensureState_migrations [simp]: "wk_migrations (ensureState w) = wk_migrations w"
  by (simp add: ensureState_def)

lemma count_ensure [simp]: "countActiveFromSource (ensureState w) s = countActiveFromSource w s"
  by (simp add: countActiveFromSource_def)

lemma worker_inv_cong: "wk_migrations w = wk_migrations w' \<Longrightarrow> worker_inv w = worker_inv w'"
  by (simp add: worker_inv_def countActiveFromSource_def)

text \<open>Replacing an entry by one with the same ends.\<close>

definition same_ends :: "activeMigration \<Rightarrow> activeMigration \<Rightarrow> bool" where
  "same_ends m m' \<longleftrightarrow> am_hashSlot m' = am_hashSlot m \<and> am_source m' = am_source m \<and> am_target m' = am_target m"

lemma length_filter_map:
  "(\<And>x. x \<in> set xs \<Longrightarrow> P (f x) = P x) \<Longrightarrow> length (filter P (map f xs)) = length (filter P xs)"
  by (induction xs) auto

lemma replace_keeps:
  assumes i: "worker_inv w" and m: "map_of (wk_migrations w) h = Some m" and e: "same_ends m m'"
  shows "worker_inv (w\<lparr>wk_migrations := AList.update h m' (wk_migrations w)\<rparr>)"
proof -
  let ?ms = "wk_migrations w" and ?f = "\<lambda>(k, v). (k, if k = h then m' else v)"
  have d: "distinct (map fst ?ms)" using worker_invD(1) [OF i] .
  have u: "AList.update h m' ?ms = map ?f ?ms"
    using m by (intro update_present [OF _ d]) (force dest: map_of_SomeD)
  have s: "am_source (snd (?f p)) = am_source (snd p)" if "p \<in> set ?ms" for p
  proof -
    have "map_of ?ms (fst p) = Some (snd p)" using map_of_is_SomeI [OF d] that by (cases p) simp
    then show ?thesis using m e by (cases p) (auto simp: same_ends_def)
  qed
  have "length (filter (\<lambda>(_, v). am_source v = t) (map ?f ?ms)) = length (filter (\<lambda>(_, v). am_source v = t) ?ms)" for t
    by (rule length_filter_map) (use s in \<open>simp add: split_def\<close>)
  note count = this
  have "migration_entry_ok h m'"
    using worker_invD(2) [OF i, of h m] m e by (auto simp: migration_entry_ok_def same_ends_def dest: map_of_SomeD)
  then show ?thesis
    using worker_invD [OF i] count d unfolding u
    by (intro worker_invI) (auto simp: countActiveFromSource_def o_def split_def split: if_splits)
qed

lemma delete_keeps:
  assumes i: "worker_inv w"
  shows "worker_inv (w\<lparr>wk_migrations := AList.delete h (wk_migrations w)\<rparr>)"
proof -
  have "length (filter P (filter Q xs)) \<le> length (filter P xs)" for P Q and xs :: "(u16 \<times> activeMigration) list"
    by (induction xs) auto
  note l = this [of _ "\<lambda>(k, _). k \<noteq> h" "wk_migrations w"]
  have "countActiveFromSource (w\<lparr>wk_migrations := AList.delete h (wk_migrations w)\<rparr>) s \<le> countActiveFromSource w s" for s
    using l by (simp add: countActiveFromSource_def delete_eq_filter)
  moreover have "length (AList.delete h (wk_migrations w)) \<le> length (wk_migrations w)"
    by (simp add: delete_eq_filter)
  ultimately show ?thesis
    using worker_invD [OF i]
    by (intro worker_invI) (auto simp: delete_eq_filter distinct_keys_filter intro: le_trans [OF _ worker_invD(3) [OF i]] le_trans [OF _ worker_invD(4) [OF i]])
qed

lemma removeMigration_eq: "removeMigration w h = w\<lparr>wk_migrations := AList.delete h (wk_migrations w)\<rparr>"
  by (cases w) (auto simp: removeMigration_def)

lemma removeMigration_inv: "worker_inv w \<Longrightarrow> worker_inv (removeMigration w h)"
  by (simp add: removeMigration_eq delete_keeps)

lemma ensureState_inv [simp]: "worker_inv (ensureState w) = worker_inv w"
  by (rule worker_inv_cong) simp

lemma count_zero: "map_of (wk_migrations w) h = None \<Longrightarrow> countActiveFromSource (w\<lparr>wk_migrations := AList.update h m (wk_migrations w)\<rparr>) s
    = countActiveFromSource w s + (if am_source m = s then 1 else 0)"
  by (simp add: countActiveFromSource_def map_of_None_iff update_fresh)

lemma worker_StartMigration_inv:
  assumes i: "worker_inv w"
  shows "worker_inv (snd (StartMigration w h source target now))"
proof -
  let ?m = "\<lparr>am_hashSlot = h, am_source = source, am_target = target, am_phase = WPhaseSnapshot, am_snapshotAt = 0,
     am_switchReady = False, am_lastActivityAt = now, am_progress = zero_Progress\<rparr>"
  let ?e = "ensureState w"
  have "worker_inv (?e\<lparr>wk_migrations := AList.update h ?m (wk_migrations ?e)\<rparr>)"
    if n: "map_of (wk_migrations w) h = None" and l: "length (wk_migrations w) < maxConcurrentMigrations"
      and c: "countActiveFromSource w source < maxConcurrentMigrationsPerSource" and v: "source \<noteq> 0" "target \<noteq> 0" "source \<noteq> target"
  proof (rule worker_invI)
    have e: "worker_inv ?e" using i by simp
    note D = worker_invD [OF e]
    have k: "h \<notin> fst ` set (wk_migrations w)" using n by (simp add: map_of_None_iff)
    show "distinct (map fst (wk_migrations (?e\<lparr>wk_migrations := AList.update h ?m (wk_migrations ?e)\<rparr>)))"
      using D(1) by simp
    show "length (wk_migrations (?e\<lparr>wk_migrations := AList.update h ?m (wk_migrations ?e)\<rparr>)) \<le> maxConcurrentMigrations"
      using l k by (simp add: update_fresh)
    show "countActiveFromSource (?e\<lparr>wk_migrations := AList.update h ?m (wk_migrations ?e)\<rparr>) s \<le> maxConcurrentMigrationsPerSource" for s
      using c D(4) [of s] n by (subst count_zero) auto
    show "migration_entry_ok h' m'" if "(h', m') \<in> set (wk_migrations (?e\<lparr>wk_migrations := AList.update h ?m (wk_migrations ?e)\<rparr>))" for h' m'
      using that D(2) v by (auto simp: update_fresh [OF k] migration_entry_ok_def)
  qed
  then show ?thesis using i by (auto simp: StartMigration_def Let_def not_le split: option.splits)
qed

lemma with_migration_inv:
  assumes "worker_inv w" "\<And>m. same_ends m (f m)"
  shows "worker_inv (snd (with_migration w h f))"
  using assms replace_keeps by (auto simp: with_migration_def split: option.splits)

section \<open>One tick\<close>

lemma tick_loop_inv: "worker_inv w \<Longrightarrow> worker_inv (fst (tick_loop w now hs))"
proof (induction hs arbitrary: w)
  case (Cons k hs)
  have "worker_inv (w'\<lparr>wk_migrations := AList.update k m' (wk_migrations w')\<rparr>)"
    if "map_of (wk_migrations w) k = Some m" "tickMigration w m now = (w', m', tr, rm)" for m w' m' tr rm
  proof -
    have "wk_migrations w' = wk_migrations w" "same_ends m m'"
      using that(2) by (auto simp: tickMigration_def Let_def same_ends_def split: if_splits)
    then show ?thesis using replace_keeps [of w' k m m'] that(1) Cons.prems worker_inv_cong [of w w'] by simp
  qed
  then show ?case
    using Cons by (auto simp: Let_def split: option.splits prod.splits dest: removeMigration_inv) (metis fst_conv removeMigration_inv)+
qed simp

text \<open>What a tick does to one migration: nothing is left of it when it was done or stalled.\<close>

definition stalled :: "Worker \<Rightarrow> go_time \<Rightarrow> activeMigration \<Rightarrow> bool" where
  "stalled w now m \<longleftrightarrow> am_lastActivityAt m \<noteq> 0 \<and> wk_stallTimeout (ensureState w) < time_Sub now (am_lastActivityAt m)"

definition ticked :: "Worker \<Rightarrow> go_time \<Rightarrow> activeMigration \<Rightarrow> activeMigration option" where
  "ticked w now m = (if am_phase m = WPhaseDone \<or> stalled w now m then None else Some (m\<lparr>am_phase := next_phase w m now\<rparr>))"

definition reported :: "Worker \<Rightarrow> go_time \<Rightarrow> activeMigration \<Rightarrow> Transition option" where
  "reported w now m =
     (if am_phase m = WPhaseDone then None
      else if stalled w now m then Some (transition_of m (am_phase m) (am_phase m) True)
      else if next_phase w m now = am_phase m then None
      else Some (transition_of m (am_phase m) (next_phase w m now) False))"

definition same_config :: "Worker \<Rightarrow> Worker \<Rightarrow> bool" where
  "same_config w w' \<longleftrightarrow> wk_stableThreshold w' = wk_stableThreshold w \<and> wk_stableWindow w' = wk_stableWindow w
     \<and> wk_stallTimeout (ensureState w') = wk_stallTimeout (ensureState w)"

lemma same_config_fun: "same_config w w' \<Longrightarrow> ticked w' = ticked w \<and> reported w' = reported w"
  by (intro conjI ext) (simp_all add: same_config_def ticked_def reported_def stalled_def next_phase_def)

lemma tickMigration_eq:
  "\<exists>w'. tickMigration w m now = (w', (case ticked w now m of Some m' \<Rightarrow> m' | None \<Rightarrow> m), reported w now m, ticked w now m = None)
    \<and> same_config w w' \<and> wk_migrations w' = wk_migrations w"
proof -
  have "next_phase (ensureState w) m now = next_phase w m now"
    by (simp add: next_phase_def ensureState_def)
  then show ?thesis
    by (auto simp: transition_of_def tickMigration_def ticked_def reported_def stalled_def same_config_def ensureState_def Let_def)
qed

lemma map_filter_cong: "(\<And>x. x \<in> set xs \<Longrightarrow> f x = g x) \<Longrightarrow> List.map_filter f xs = List.map_filter g xs"
  by (induction xs) (simp_all add: List.map_filter_simps cong: option.case_cong)

text \<open>Pointwise: the state after the loop and what it reports.\<close>

lemma tick_loop_eq:
  assumes "distinct hs"
  shows "map_of (wk_migrations (fst (tick_loop w now hs))) h =
      (if h \<in> set hs then Option.bind (map_of (wk_migrations w) h) (ticked w now) else map_of (wk_migrations w) h)
    \<and> snd (tick_loop w now hs) = List.map_filter (\<lambda>h. Option.bind (map_of (wk_migrations w) h) (reported w now)) hs
    \<and> same_config w (fst (tick_loop w now hs))"
  using assms
proof (induction hs arbitrary: w)
  case Nil
  then show ?case by (simp add: same_config_def List.map_filter_def)
next
  case (Cons k hs)
  show ?case
  proof (cases "map_of (wk_migrations w) k")
    case None
    then show ?thesis using Cons by (simp add: List.map_filter_simps)
  next
    case (Some m)
    obtain w' where t: "tickMigration w m now = (w', (case ticked w now m of Some m' \<Rightarrow> m' | None \<Rightarrow> m), reported w now m, ticked w now m = None)"
      and c: "same_config w w'" "wk_migrations w' = wk_migrations w" using tickMigration_eq by blast
    define w2 where "w2 = (let w1 = w'\<lparr>wk_migrations := AList.update k (case ticked w now m of Some m' \<Rightarrow> m' | None \<Rightarrow> m) (wk_migrations w')\<rparr>
      in if ticked w now m = None then removeMigration w1 k else w1)"
    have w2: "map_of (wk_migrations w2) = (map_of (wk_migrations w))(k := ticked w now m)" "same_config w w2"
      using c by (auto simp: w2_def Let_def removeMigration_eq same_config_def ensureState_def fun_eq_iff split: option.splits)
    have l: "tick_loop w now (k # hs) = (fst (tick_loop w2 now hs),
        (case reported w now m of Some t \<Rightarrow> t # snd (tick_loop w2 now hs) | None \<Rightarrow> snd (tick_loop w2 now hs)))"
      unfolding w2_def by (cases "ticked w now m") (auto simp: Some t Let_def cong: option.case_cong split: prod.splits)
    have same: "List.map_filter (\<lambda>h. Option.bind (map_of (wk_migrations w2) h) (reported w now)) hs
        = List.map_filter (\<lambda>h. Option.bind (map_of (wk_migrations w) h) (reported w now)) hs"
      using Cons.prems by (intro map_filter_cong) (auto simp: w2(1))
    have ih: "map_of (wk_migrations (fst (tick_loop w2 now hs))) h =
        (if h \<in> set hs then Option.bind (map_of (wk_migrations w2) h) (ticked w now) else map_of (wk_migrations w2) h)"
      "snd (tick_loop w2 now hs) = List.map_filter (\<lambda>h. Option.bind (map_of (wk_migrations w2) h) (reported w now)) hs"
      "same_config w2 (fst (tick_loop w2 now hs))"
      using Cons same_config_fun [OF w2(2)] by auto
    show ?thesis
      using Cons.prems ih(1,3) w2 unfolding l
      by (auto simp: ih(2) [unfolded same] Some List.map_filter_simps same_config_def split: option.splits)
  qed
qed


lemma tick_pointwise:
  assumes "worker_inv w" "Tick w now = (w', trs)"
  shows "map_of (wk_migrations w') h = Option.bind (map_of (wk_migrations w) h) (ticked w now)"
    and "trs = List.map_filter (\<lambda>h. Option.bind (map_of (wk_migrations w) h) (reported w now)) (sorted_slots w)"
proof -
  have d: "distinct (sorted_slots w)" "set (sorted_slots w) = dom (map_of (wk_migrations w))"
    using worker_invD(1) [OF assms(1)] by (simp_all add: sorted_slots_def dom_map_of_conv_image_fst)
  note loop = tick_loop_eq [OF d(1), of w now]
  show "map_of (wk_migrations w') h = Option.bind (map_of (wk_migrations w) h) (ticked w now)"
    using loop [of h] d(2) assms(2)
    by (cases "map_of (wk_migrations w) h") (auto simp: Tick_def dom_def sorted_slots_def split: prod.splits if_splits)
  show "trs = List.map_filter (\<lambda>h. Option.bind (map_of (wk_migrations w) h) (reported w now)) (sorted_slots w)"
    using loop assms(2) by (auto simp: Tick_def sorted_slots_def List.map_filter_simps split: prod.splits if_splits)
qed

section \<open>Runs\<close>

datatype worker_event =
    WStart u16 u64 u64 go_time
  | WSnapshot u16 u64 int go_time
  | WProgress u16 u64 u64 int go_time
  | WSwitch u16 go_time
  | WAbort u16
  | WTick go_time

fun worker_step :: "Worker \<Rightarrow> worker_event \<Rightarrow> Worker option" where
  "worker_step w (WStart h s t now) = Some (snd (StartMigration w h s t now))"
| "worker_step w (WSnapshot h i b now) = Some (snd (MarkSnapshotComplete w h i b now))"
| "worker_step w (WProgress h s t b now) = Some (snd (UpdateProgress w h s t b now))"
| "worker_step w (WSwitch h now) = Some (snd (MarkSwitchComplete w h now))"
| "worker_step w (WAbort h) = Some (AbortMigration w h)"
| "worker_step w (WTick now) = Some (fst (Tick w now))"

interpretation migration_worker: machine worker_step "\<lambda>_ _. True" worker_inv
proof
  fix w e
  assume i: "worker_inv w"
  have "worker_inv (fst (Tick w now))" for now
    using tick_loop_inv [OF i] i by (simp add: Tick_def)
  then show "\<exists>w'. worker_step w e = Some w' \<and> worker_inv w'"
    using i by (cases e) (auto simp: worker_StartMigration_inv MarkSnapshotComplete_def UpdateProgress_def MarkSwitchComplete_def AbortMigration_def
        same_ends_def intro: with_migration_inv removeMigration_inv)
qed

lemma NewWorker_inv: "worker_inv (NewWorker threshold window)"
  by (simp add: worker_inv_def NewWorker_def countActiveFromSource_def)

lemma worker_run_ok: "run_ok worker_step (\<lambda>_ _. True) w es"
proof (induction es arbitrary: w)
  case (Cons e es)
  then show ?case by (cases e) simp_all
qed simp

text \<open>
  C40: Whatever sequence of calls a worker gets, at most four migrations are active, at most two from one source, each under its own
  hash slot and between two different slots.
\<close>

theorem worker_limits:
  "\<exists>w. run_steps worker_step (NewWorker threshold window) es = Some w
     \<and> length (wk_migrations w) \<le> 4 \<and> length (filter (\<lambda>(_, m). am_source m = s) (wk_migrations w)) \<le> 2
     \<and> distinct (map am_hashSlot (map snd (wk_migrations w)))
     \<and> list_all (\<lambda>(_, m). am_source m \<noteq> am_target m) (wk_migrations w)"
proof -
  obtain w where w: "run_steps worker_step (NewWorker threshold window) es = Some w" "worker_inv w"
    using migration_worker.run_safe [OF NewWorker_inv worker_run_ok] by blast
  have "map am_hashSlot (map snd (wk_migrations w)) = map fst (wk_migrations w)"
    using worker_invD(2) [OF w(2)] by (auto simp: migration_entry_ok_def)
  then have "distinct (map am_hashSlot (map snd (wk_migrations w)))"
    using worker_invD(1) [OF w(2)] by (simp only:)
  with w worker_invD [OF w(2)] show ?thesis
    by (auto simp: maxConcurrentMigrations_def maxConcurrentMigrationsPerSource_def countActiveFromSource_def migration_entry_ok_def
        list_all_iff)
qed


section \<open>The history of a migration\<close>

text \<open>
  What the calls since the start of a migration say about it: a report is the time of a call and the lag it tells, a snapshot tells the
  index the copy was made at.
\<close>

fun report_of :: "u16 \<Rightarrow> worker_event \<Rightarrow> (go_time \<times> int) option" where
  "report_of h (WSnapshot k i b at) = (if k = h then Some (at, 0) else None)"
| "report_of h (WProgress k s t b at) = (if k = h then Some (at, if t < s then sint (s - t) else 0) else None)"
| "report_of h _ = None"

fun snapshot_of :: "u16 \<Rightarrow> worker_event \<Rightarrow> u64 option" where
  "snapshot_of h (WSnapshot k i b at) = (if k = h then Some i else None)"
| "snapshot_of h _ = None"

fun heard_of :: "u16 \<Rightarrow> worker_event \<Rightarrow> go_time option" where
  "heard_of h (WSnapshot k i b at) = (if k = h then Some at else None)"
| "heard_of h (WProgress k s t b at) = (if k = h then Some at else None)"
| "heard_of h (WSwitch k at) = (if k = h then Some at else None)"
| "heard_of h _ = None"

fun switch_of :: "u16 \<Rightarrow> worker_event \<Rightarrow> bool" where
  "switch_of h (WSwitch k at) = (k = h)"
| "switch_of h _ = False"

fun restart_of :: "u16 \<Rightarrow> worker_event \<Rightarrow> bool" where
  "restart_of h (WStart k s t at) = (k = h)"
| "restart_of h (WAbort k) = (k = h)"
| "restart_of h _ = False"

text \<open>
  The target has caught up since the first of the latest reports that all tell a lag below the threshold (a report at the zero time does
  not count as the first).
\<close>

definition caught_up_since :: "int \<Rightarrow> u16 \<Rightarrow> worker_event list \<Rightarrow> go_time option" where
  "caught_up_since threshold h es =
     List.find (\<lambda>t. t \<noteq> 0)
       (map fst (rev (takeWhile (\<lambda>(_, lag). lag < threshold) (rev (List.map_filter (report_of h) es)))))"

definition last_heard :: "u16 \<Rightarrow> go_time \<Rightarrow> worker_event list \<Rightarrow> go_time" where
  "last_heard h t0 es = List.last (t0 # List.map_filter (heard_of h) es)"

definition copied_at :: "u16 \<Rightarrow> worker_event list \<Rightarrow> u64" where
  "copied_at h es = List.last (0 # List.map_filter (snapshot_of h) es)"

text \<open>What each phase waits for, and the phase after it.\<close>

fun evidence :: "int \<Rightarrow> int \<Rightarrow> u16 \<Rightarrow> worker_event list \<Rightarrow> go_time \<Rightarrow> Phase \<Rightarrow> bool" where
  "evidence threshold window h es now WPhaseSnapshot = (copied_at h es \<noteq> 0)"
| "evidence threshold window h es now WPhaseDelta =
     (case caught_up_since threshold h es of None \<Rightarrow> False | Some t \<Rightarrow> window < time_Sub now t)"
| "evidence threshold window h es now WPhaseSwitching = list_ex (switch_of h) es"
| "evidence threshold window h es now WPhaseDone = False"

fun phase_after :: "Phase \<Rightarrow> Phase" where
  "phase_after WPhaseSnapshot = WPhaseDelta"
| "phase_after WPhaseDelta = WPhaseSwitching"
| "phase_after WPhaseSwitching = WPhaseDone"
| "phase_after WPhaseDone = WPhaseDone"

lemma run_steps_snoc: "run_steps step s (es @ [e]) = Option.bind (run_steps step s es) (\<lambda>s'. step s' e)"
  by (induction es arbitrary: s) (auto split: option.splits)

lemma map_filter_snoc: "List.map_filter f (xs @ [x]) = List.map_filter f xs @ (case f x of None \<Rightarrow> [] | Some y \<Rightarrow> [y])"
  by (induction xs) (auto simp: List.map_filter_simps split: option.splits)

lemma find_snoc: "List.find P (xs @ [x]) = (case List.find P xs of Some y \<Rightarrow> Some y | None \<Rightarrow> if P x then Some x else None)"
  by (induction xs) auto

lemma copied_snoc: "copied_at h (es @ [e]) = (case snapshot_of h e of None \<Rightarrow> copied_at h es | Some i \<Rightarrow> i)"
  by (simp add: copied_at_def map_filter_snoc split: option.split)

lemma heard_snoc: "last_heard h t0 (es @ [e]) = (case heard_of h e of None \<Rightarrow> last_heard h t0 es | Some t \<Rightarrow> t)"
  by (simp add: last_heard_def map_filter_snoc split: option.split)

lemma caught_up_snoc:
  "caught_up_since threshold h (es @ [e]) =
     (case report_of h e of
        None \<Rightarrow> caught_up_since threshold h es
      | Some (t, lag) \<Rightarrow>
          if lag < threshold
          then (case caught_up_since threshold h es of Some u \<Rightarrow> Some u | None \<Rightarrow> if t \<noteq> 0 then Some t else None)
          else None)"
  by (simp add: caught_up_since_def map_filter_snoc find_snoc split: option.split)

text \<open>What the worker keeps of a migration is what its history says.\<close>

definition tells :: "Worker \<Rightarrow> u16 \<Rightarrow> u64 \<Rightarrow> u64 \<Rightarrow> go_time \<Rightarrow> worker_event list \<Rightarrow> activeMigration \<Rightarrow> bool" where
  "tells w h s t t0 es m \<longleftrightarrow>
     am_hashSlot m = h \<and> am_source m = s \<and> am_target m = t \<and> am_snapshotAt m = copied_at h es
     \<and> am_switchReady m = list_ex (switch_of h) es \<and> am_lastActivityAt m = last_heard h t0 es
     \<and> pg_StableWindowStart (am_progress m) = (case caught_up_since (wk_stableThreshold w) h es of None \<Rightarrow> 0 | Some u \<Rightarrow> u)
     \<and> (pg_StableWindowStart (am_progress m) \<noteq> 0 \<longrightarrow> pg_DeltaLag (am_progress m) < wk_stableThreshold w)"

lemma caught_up_nonzero: "caught_up_since threshold h es = Some u \<Longrightarrow> u \<noteq> 0"
  by (auto simp: caught_up_since_def find_Some_iff)

lemma with_migration_config: "same_config w (snd (with_migration w h f))"
  by (simp add: with_migration_def same_config_def ensureState_def split: option.split)

lemma config_trans: "same_config w v \<Longrightarrow> same_config v u \<Longrightarrow> same_config w u"
  by (simp add: same_config_def)

lemma config_ensure: "same_config w (ensureState w)"
  by (simp add: same_config_def ensureState_def defaultMigrationStallTimeout_def)

lemma config_migrations: "same_config w (w\<lparr>wk_migrations := ms\<rparr>)"
  by (simp add: same_config_def ensureState_def)

lemma config_refl: "same_config w w"
  by (simp add: same_config_def)

lemmas config_rules = config_refl config_ensure config_trans [OF config_ensure config_migrations]

lemma StartMigration_config: "same_config w (snd (StartMigration w h s t now))"
  by (simp add: StartMigration_def Let_def config_rules split: option.split)

lemma AbortMigration_config: "same_config w (AbortMigration w h)"
  by (simp add: AbortMigration_def removeMigration_eq config_rules)

lemma Tick_config: "worker_inv w \<Longrightarrow> same_config w (fst (Tick w now))"
  using tick_loop_eq [of "sorted_slots w" w now] worker_invD(1) [of w] by (simp add: Tick_def sorted_slots_def config_refl)

lemma worker_step_config:
  assumes "worker_inv w" "worker_step w e = Some w'"
  shows "same_config w w'"
  using assms by (cases e) (auto simp: MarkSnapshotComplete_def UpdateProgress_def MarkSwitchComplete_def
      with_migration_config StartMigration_config AbortMigration_config Tick_config)

lemma Progress_Update_start:
  "pg_StableWindowStart (Progress_Update p s t b threshold now) =
     (if (if t < s then sint (s - t) else 0) < threshold then (if pg_StableWindowStart p = 0 then now else pg_StableWindowStart p) else 0)"
  "pg_DeltaLag (Progress_Update p s t b threshold now) = (if t < s then sint (s - t) else 0)"
  by (simp_all add: Progress_Update_def Let_def)

lemma with_migration_lookup:
  "map_of (wk_migrations (snd (with_migration w k f))) h = (if k = h then map_option f (map_of (wk_migrations w) h) else map_of (wk_migrations w) h)"
  by (auto simp: with_migration_def update_conv split: option.split)

lemma tells_step:
  assumes i: "worker_inv w" and e: "worker_step w e = Some w'" "\<not> restart_of h e" and m: "map_of (wk_migrations w') h = Some m'"
    and old: "\<And>m. map_of (wk_migrations w) h = Some m \<Longrightarrow> tells w h s t t0 es m"
  shows "tells w' h s t t0 (es @ [e]) m'"
proof -
  have c: "wk_stableThreshold w' = wk_stableThreshold w" using worker_step_config [OF i e(1)] by (simp add: same_config_def)
  note snoc = copied_snoc heard_snoc caught_up_snoc
  note nz = caught_up_nonzero [of "wk_stableThreshold w" h es]
  show ?thesis
  proof (cases e)
    case (WTick now)
    have w: "Tick w now = (w', snd (Tick w now))" using e(1) WTick by (cases "Tick w now") simp
    from m tick_pointwise(1) [OF i w, of h] obtain m where "map_of (wk_migrations w) h = Some m" "ticked w now m = Some m'"
      by (auto simp: bind_eq_Some_conv)
    with old [of m] show ?thesis by (auto simp: tells_def ticked_def c WTick snoc split: if_splits)
  next
    case (WStart k s t at)
    then have "map_of (wk_migrations w) h = Some m'" using e m
      by (auto simp: StartMigration_def Let_def update_conv split: option.splits if_splits)
    from old [OF this] show ?thesis by (simp add: tells_def c WStart snoc)
  next
    case (WAbort k)
    then have "map_of (wk_migrations w) h = Some m'" using e m
      by (auto simp: AbortMigration_def removeMigration_eq delete_conv split: if_splits)
    from old [OF this] show ?thesis by (simp add: tells_def c WAbort snoc)
  qed (use e(1) m old nz in \<open>auto simp: MarkSnapshotComplete_def UpdateProgress_def MarkSwitchComplete_def with_migration_lookup
      tells_def c snoc Progress_Update_start split: if_splits option.splits\<close>)
qed

lemma run_config:
  "worker_inv w \<Longrightarrow> run_steps worker_step w es = Some w' \<Longrightarrow> worker_inv w' \<and> same_config w w'"
proof (induction es arbitrary: w)
  case (Cons e es)
  then obtain v where v: "worker_step w e = Some v" "run_steps worker_step v es = Some w'" by (auto split: option.splits)
  have "worker_inv v" using migration_worker.step_keeps [OF Cons.prems(1) _ v(1)] by simp
  then show ?case using Cons.IH [OF _ v(2)] config_trans [OF worker_step_config [OF Cons.prems(1) v(1)]] by blast
qed (simp add: config_refl)

lemma sorted_slots_strict: "worker_inv w \<Longrightarrow> sorted_wrt (<) (sorted_slots w)"
  using worker_invD(1) [of w] by (simp add: sorted_slots_def strict_sorted_iff)

lemma tells_run:
  assumes i: "worker_inv w0" and n: "map_of (wk_migrations w0) h = None"
    and r: "run_steps worker_step w0 (WStart h s t t0 # es) = Some w" "list_all (\<lambda>e. \<not> restart_of h e) es"
  shows "worker_inv w \<and> same_config w0 w \<and> (\<forall>m. map_of (wk_migrations w) h = Some m \<longrightarrow> tells w h s t t0 es m)"
  using r
proof (induction es arbitrary: w rule: rev_induct)
  case Nil
  then have w: "w = snd (StartMigration w0 h s t t0)" by simp
  have "tells w h s t t0 [] m" if "map_of (wk_migrations w) h = Some m" for m
    using that n by (auto simp: w StartMigration_def Let_def tells_def copied_at_def last_heard_def caught_up_since_def zero_Progress_def
        List.map_filter_simps update_conv split: if_splits)
  then show ?case by (simp add: w worker_StartMigration_inv [OF i] StartMigration_config)
next
  case (snoc e es)
  from snoc.prems obtain v where v: "run_steps worker_step w0 (WStart h s t t0 # es) = Some v" "worker_step v e = Some w"
    by (cases "run_steps worker_step w0 (WStart h s t t0 # es)") (simp_all add: run_steps_snoc)
  from snoc.IH [OF v(1)] snoc.prems(2)
  have ih: "worker_inv v" "same_config w0 v" "\<And>m. map_of (wk_migrations v) h = Some m \<Longrightarrow> tells v h s t t0 es m" by auto
  have "worker_inv w" using migration_worker.step_keeps [OF ih(1) _ v(2)] by simp
  moreover have "same_config w0 w" using config_trans [OF ih(2) worker_step_config [OF ih(1) v(2)]] .
  moreover have "tells w h s t t0 (es @ [e]) m" if "map_of (wk_migrations w) h = Some m" for m
    using tells_step [OF ih(1) v(2) _ that ih(3)] snoc.prems(2) by simp
  ultimately show ?case by blast
qed

lemma filter_map_filter_one:
  assumes "distinct ks" "\<And>k x. k \<in> set ks \<Longrightarrow> f k = Some x \<Longrightarrow> g x = k"
  shows "filter (\<lambda>x. g x = h) (List.map_filter f ks) = (if h \<in> set ks then (case f h of None \<Rightarrow> [] | Some x \<Rightarrow> [x]) else [])"
  using assms
proof (induction ks)
  case (Cons k ks)
  then show ?case by (cases "k = h") (auto simp: List.map_filter_simps split: option.splits)
qed (simp add: List.map_filter_simps)

lemma keys_map_filter:
  assumes "sorted_wrt R ks" "\<And>k x. k \<in> set ks \<Longrightarrow> f k = Some x \<Longrightarrow> g x = k"
  shows "sorted_wrt R (map g (List.map_filter f ks))"
proof -
  have "set (map g (List.map_filter f ks)) \<subseteq> set ks" if "\<And>k x. k \<in> set ks \<Longrightarrow> f k = Some x \<Longrightarrow> g x = k" for ks
    using that by (auto simp: List.map_filter_def)
  note sub = this
  show ?thesis using assms
  proof (induction ks)
    case (Cons k ks)
    then have "g ` set (List.map_filter f ks) \<subseteq> set ks" using sub [of ks] by auto
    then have "R k (g x)" if "x \<in> set (List.map_filter f ks)" for x using that Cons.prems(1) by auto
    moreover have "f k = Some y \<Longrightarrow> g y = k" for y using Cons.prems(2) by simp
    ultimately show ?case using Cons by (auto simp: List.map_filter_simps split: option.splits)
  qed (simp add: List.map_filter_simps)
qed

lemma reported_slot: "reported w now m = Some tr \<Longrightarrow> tn_HashSlot tr = am_hashSlot m"
  by (auto simp: reported_def transition_of_def split: if_splits)

lemma tells_phase:
  assumes "tells w h s t t0 es m"
  shows "next_phase w m now =
    (if evidence (wk_stableThreshold w) (wk_stableWindow w) h es now (am_phase m) then phase_after (am_phase m) else am_phase m)"
  using assms caught_up_nonzero [of "wk_stableThreshold w" h es]
  by (cases "am_phase m") (auto simp: tells_def next_phase_def isStableAt_def not_le split: option.splits)

text \<open>
  C39: A tick moves a migration exactly on the evidence of the calls since its start, by one phase: the copy is done when
  the latest snapshot has an index, the target has kept up when the latest reports all told a lag below the threshold and the first of
  them is older than the window, the switch when it was reported. A migration that is done, or of which nothing was heard for more than ten
  minutes, is removed. Exactly the moves and the timeouts are reported, in the order of the hash slots.
\<close>

theorem tick_exact:
  assumes "run_steps worker_step (NewWorker threshold window) before = Some w0" "map_of (wk_migrations w0) h = None"
    and "run_steps worker_step w0 (WStart h s t t0 # es) = Some w" "list_all (\<lambda>e. \<not> restart_of h e) es"
    and "map_of (wk_migrations w) h = Some m"
  shows "case Tick w now of (w', trs) \<Rightarrow>
    let gone = (last_heard h t0 es \<noteq> 0 \<and> 10 * 60 * 1000000000 < time_Sub now (last_heard h t0 es));
        moves = evidence threshold window h es now (am_phase m);
        report = (\<lambda>to timedOut. \<lparr>tn_HashSlot = h, tn_Source = s, tn_Target = t, tn_From = am_phase m, tn_To = to, tn_TimedOut = timedOut\<rparr>)
    in map_of (wk_migrations w') h =
        (if am_phase m = WPhaseDone \<or> gone then None
         else if moves then Some (m\<lparr>am_phase := phase_after (am_phase m)\<rparr>) else Some m)
      \<and> filter (\<lambda>r. tn_HashSlot r = h) trs =
        (if am_phase m = WPhaseDone then [] else if gone then [report (am_phase m) True]
         else if moves then [report (phase_after (am_phase m)) False] else [])
      \<and> sorted_wrt (<) (map tn_HashSlot trs)"
proof -
  have i0: "worker_inv w0" "same_config (NewWorker threshold window) w0"
    using run_config [OF NewWorker_inv assms(1)] by blast+
  have T: "worker_inv w" "same_config w0 w" "tells w h s t t0 es m" using tells_run [OF i0(1) assms(2-4)] assms(5) by blast+
  have c: "wk_stableThreshold w = threshold" "wk_stableWindow w = window" "wk_stallTimeout (ensureState w) = 10 * 60 * 1000000000"
    using config_trans [OF i0(2) T(2)] by (simp_all add: same_config_def NewWorker_def ensureState_def defaultMigrationStallTimeout_def)
  obtain w' trs where r: "Tick w now = (w', trs)" by (cases "Tick w now")
  note p = tick_pointwise [OF T(1) r]
  have st: "stalled w now m \<longleftrightarrow> last_heard h t0 es \<noteq> 0 \<and> 10 * 60 * 1000000000 < time_Sub now (last_heard h t0 es)"
    using T(3) by (simp add: stalled_def tells_def c)
  note ph = tells_phase [OF T(3), unfolded c, of now]
  have ks: "tn_HashSlot tr = k" if "Option.bind (map_of (wk_migrations w) k) (reported w now) = Some tr" for k tr
    using that worker_invD(2) [OF T(1), of k] by (auto simp: bind_eq_Some_conv migration_entry_ok_def dest!: reported_slot map_of_SomeD)
  have srt: "sorted_wrt (<) (sorted_slots w)" "distinct (sorted_slots w)" "h \<in> set (sorted_slots w)"
    using worker_invD(1) [OF T(1)] assms(5) sorted_slots_strict [OF T(1)] by (force simp: sorted_slots_def dest: map_of_SomeD)+
  have ne: "phase_after (am_phase m) \<noteq> am_phase m" if "am_phase m \<noteq> WPhaseDone" using that by (cases "am_phase m") auto
  have f: "filter (\<lambda>r. tn_HashSlot r = h) trs = (case reported w now m of None \<Rightarrow> [] | Some tr \<Rightarrow> [tr])"
    unfolding p(2) by (subst filter_map_filter_one [OF srt(2) ks]) (simp_all add: srt(3) assms(5))
  have o: "sorted_wrt (<) (map tn_HashSlot trs)" unfolding p(2) by (rule keys_map_filter [OF srt(1) ks])
  show ?thesis using o ne T(3)
    by (auto simp: r Let_def p(1) f assms(5) ticked_def reported_def st ph transition_of_def tells_def)
qed

text \<open>A migration goes through: its copy, a quiet window, the switch.\<close>

definition demo_worker :: Worker where
  "demo_worker = snd (MarkSnapshotComplete (snd (StartMigration (NewWorker 100 200) 5 2 4 10)) 5 42 2048 20)"

lemma demo_worker_inv: "worker_inv demo_worker"
  unfolding demo_worker_def MarkSnapshotComplete_def
  by (intro with_migration_inv worker_StartMigration_inv NewWorker_inv) (simp add: same_ends_def)

definition demo_calls :: "worker_event list" where
  "demo_calls = [WSnapshot 5 42 2048 20, WTick 30, WProgress 5 50 50 3000 40]"

definition demo_delta :: Worker where
  "demo_delta = the (run_steps worker_step (NewWorker 100 200) (WStart 5 2 4 10 # demo_calls))"

lemma demo_delta_run: "run_steps worker_step (NewWorker 100 200) (WStart 5 2 4 10 # demo_calls) = Some demo_delta"
  by (simp add: demo_delta_def demo_calls_def)

lemma demo_delta_phase: "map_option am_phase (map_of (wk_migrations demo_delta) 5) = Some WPhaseDelta"
  unfolding demo_delta_def demo_calls_def by code_simp

lemma demo_evidence:
  "caught_up_since 100 5 demo_calls = Some 20" "last_heard 5 10 demo_calls = 40" "list_all (\<lambda>e. \<not> restart_of 5 e) demo_calls"
  by (simp_all add: demo_calls_def caught_up_since_def last_heard_def List.map_filter_simps)

lemma tick_exact_witness:
  "map tn_To (filter (\<lambda>r. tn_HashSlot r = 5) (snd (Tick demo_delta 221))) = [WPhaseSwitching]
    \<and> filter (\<lambda>r. tn_HashSlot r = 5) (snd (Tick demo_delta 220)) = []
    \<and> map_of (wk_migrations (fst (Tick demo_delta 600000000041))) 5 = None"
proof -
  obtain m where m: "map_of (wk_migrations demo_delta) 5 = Some m" "am_phase m = WPhaseDelta" using demo_delta_phase by auto
  note T = tick_exact [of 100 200 "[]" "NewWorker 100 200" 5 2 4 10 demo_calls demo_delta m, OF _ _ demo_delta_run demo_evidence(3) m(1)]
  show ?thesis
    using T [of 221] T [of 220] T [of 600000000041] m(2) demo_evidence(1,2)
    by (simp add: NewWorker_def time_Sub_def split: prod.splits)
qed

text \<open>The whole life of a migration in a run of the worker.\<close>

lemma migration_completes:
  "snd (Tick (fst (Tick (snd (MarkSwitchComplete (fst (Tick (fst (Tick demo_worker 30)) 300)) 5 310)) 320)) 330) = []
    \<and> wk_migrations (fst (Tick (fst (Tick (snd (MarkSwitchComplete (fst (Tick (fst (Tick demo_worker 30)) 300)) 5 310)) 320)) 330)) = []"
  by code_simp

end
