(* ===== verification/MetaMerge.thy ===== *)
theory MetaMerge
  imports MetaTypes
begin

text \<open>
  How a row of the metadata store is merged with the row that is stored (\<open>table_runtime_meta.go\<close>, \<open>table_conversation.go\<close>,
  \<open>table_user_channel_membership.go\<close>, \<open>table_channel_latest.go\<close>, \<open>table_plugin_binding.go\<close> of \<open>pkg/db/meta\<close>). These rules make the
  operations safe to repeat and to reorder. An \<open>int64\<close> is compared through \<open>sint\<close>; a row and whether it exists is an option.
\<close>

section \<open>Validation of runtime metadata\<close>

definition maxKeyStringLen :: nat where "maxKeyStringLen = 2 ^ 16 - 1"

definition validateKeyString :: "u8 list \<Rightarrow> db_error option" where
  "validateKeyString val = (if val = [] \<or> maxKeyStringLen < length val then Some DBErrInvalidArgument else None)"

definition validateChannelRuntimeMeta :: "ChannelRuntimeMeta \<Rightarrow> db_error option" where
  "validateChannelRuntimeMeta meta =
     (case validateKeyString (rm_ChannelID meta) of
        Some e \<Rightarrow> Some e
      | None \<Rightarrow>
          let meta = normalizeChannelRuntimeMeta meta
          in if rm_Replicas meta = [] then Some DBErrInvalidArgument
             else if sint (rm_MinISR meta) \<le> 0 \<or> int (length (rm_Replicas meta)) < sint (rm_MinISR meta) then Some DBErrInvalidArgument
             else if \<not> list_all (\<lambda>member. List.member (rm_Replicas meta) member) (rm_ISR meta) then Some DBErrInvalidArgument
             else if rm_Leader meta \<noteq> 0 \<and> \<not> (List.member (rm_Replicas meta) (rm_Leader meta) \<and> List.member (rm_ISR meta) (rm_Leader meta))
             then Some DBErrInvalidArgument
             else if rm_WriteFenceToken meta = [] then
               if rm_WriteFenceReason meta \<noteq> 0 \<or> rm_WriteFenceUntilMS meta \<noteq> 0 then Some DBErrInvalidArgument else None
             else if rm_WriteFenceVersion meta = 0 \<or> rm_WriteFenceReason meta = 0 \<or> sint (rm_WriteFenceUntilMS meta) \<le> 0
             then Some DBErrInvalidArgument
             else None)"

section \<open>Merging runtime metadata\<close>

datatype MonotonicResult = MonotonicApplied | MonotonicIgnoredStale | MonotonicConflict

definition nextChannelRouteGeneration :: "u64 \<Rightarrow> u64" where
  "nextChannelRouteGeneration current = (if current = NOT 0 then current else current + 1)"

definition runtimeRouteChanged :: "ChannelRuntimeMeta \<Rightarrow> ChannelRuntimeMeta \<Rightarrow> bool" where
  "runtimeRouteChanged a b \<longleftrightarrow>
     rm_ChannelEpoch a \<noteq> rm_ChannelEpoch b \<or> rm_LeaderEpoch a \<noteq> rm_LeaderEpoch b \<or> rm_Leader a \<noteq> rm_Leader b
     \<or> rm_Replicas a \<noteq> rm_Replicas b \<or> rm_ISR a \<noteq> rm_ISR b \<or> rm_MinISR a \<noteq> rm_MinISR b \<or> rm_Status a \<noteq> rm_Status b
     \<or> rm_LeaseUntilMS a \<noteq> rm_LeaseUntilMS b \<or> rm_RetentionThroughSeq a \<noteq> rm_RetentionThroughSeq b
     \<or> rm_RetentionUpdatedAtMS a \<noteq> rm_RetentionUpdatedAtMS b \<or> rm_WriteFenceToken a \<noteq> rm_WriteFenceToken b
     \<or> rm_WriteFenceVersion a \<noteq> rm_WriteFenceVersion b \<or> rm_WriteFenceReason a \<noteq> rm_WriteFenceReason b
     \<or> rm_WriteFenceUntilMS a \<noteq> rm_WriteFenceUntilMS b"

definition bumpRuntimeRoute :: "ChannelRuntimeMeta \<Rightarrow> ChannelRuntimeMeta \<Rightarrow> bool \<Rightarrow> ChannelRuntimeMeta" where
  "bumpRuntimeRoute existing candidate candidateHadRouteGeneration =
     (let candidate =
            (if \<not> candidateHadRouteGeneration \<and> rm_RouteGeneration candidate < rm_RouteGeneration existing
             then candidate\<lparr>rm_RouteGeneration := rm_RouteGeneration existing\<rparr> else candidate)
      in if runtimeRouteChanged existing candidate \<and> rm_RouteGeneration candidate \<le> rm_RouteGeneration existing
         then candidate\<lparr>rm_RouteGeneration := nextChannelRouteGeneration (rm_RouteGeneration existing)\<rparr>
         else candidate)"

definition preserveRuntimeMetaState :: "ChannelRuntimeMeta \<Rightarrow> ChannelRuntimeMeta \<Rightarrow> ChannelRuntimeMeta" where
  "preserveRuntimeMetaState existing candidate =
     (let candidate =
            (if rm_RetentionThroughSeq candidate < rm_RetentionThroughSeq existing
                \<or> rm_RetentionThroughSeq candidate = rm_RetentionThroughSeq existing
                  \<and> sint (rm_RetentionUpdatedAtMS candidate) < sint (rm_RetentionUpdatedAtMS existing)
             then candidate\<lparr>rm_RetentionThroughSeq := rm_RetentionThroughSeq existing,
                            rm_RetentionUpdatedAtMS := rm_RetentionUpdatedAtMS existing\<rparr>
             else candidate)
      in if rm_WriteFenceVersion candidate \<le> rm_WriteFenceVersion existing
         then candidate\<lparr>rm_WriteFenceToken := rm_WriteFenceToken existing, rm_WriteFenceVersion := rm_WriteFenceVersion existing,
                        rm_WriteFenceReason := rm_WriteFenceReason existing, rm_WriteFenceUntilMS := rm_WriteFenceUntilMS existing\<rparr>
         else candidate)"

definition resolveMonotonicChannelRuntimeMeta ::
  "ChannelRuntimeMeta option \<Rightarrow> ChannelRuntimeMeta \<Rightarrow> ChannelRuntimeMeta \<times> MonotonicResult" where
  "resolveMonotonicChannelRuntimeMeta stored candidate =
     (let had = rm_RouteGeneration candidate \<noteq> 0;
          candidate = normalizeChannelRuntimeMeta candidate
      in case stored of
           None \<Rightarrow> (candidate, MonotonicApplied)
         | Some existing \<Rightarrow>
             let existing = normalizeChannelRuntimeMeta existing
             in if had \<and> rm_RouteGeneration candidate < rm_RouteGeneration existing then (existing, MonotonicIgnoredStale)
                else if rm_ChannelEpoch candidate < rm_ChannelEpoch existing then (existing, MonotonicIgnoredStale)
                else if rm_ChannelEpoch existing < rm_ChannelEpoch candidate
                then (bumpRuntimeRoute existing (preserveRuntimeMetaState existing candidate) had, MonotonicApplied)
                else if rm_LeaderEpoch candidate < rm_LeaderEpoch existing then (existing, MonotonicIgnoredStale)
                else if rm_LeaderEpoch existing < rm_LeaderEpoch candidate
                then (bumpRuntimeRoute existing (preserveRuntimeMetaState existing candidate) had, MonotonicApplied)
                else if rm_Leader candidate \<noteq> rm_Leader existing then (existing, MonotonicConflict)
                else
                  let candidate = (if sint (rm_LeaseUntilMS candidate) < sint (rm_LeaseUntilMS existing)
                                   then candidate\<lparr>rm_LeaseUntilMS := rm_LeaseUntilMS existing\<rparr> else candidate)
                  in (bumpRuntimeRoute existing (preserveRuntimeMetaState existing candidate) had, MonotonicApplied))"

text \<open>The new row of \<open>AdvanceChannelRetentionThroughSeq\<close>, \<open>None\<close> when nothing is to be written.\<close>

definition advance_retention :: "ChannelRuntimeMeta \<Rightarrow> ChannelRetentionAdvance \<Rightarrow> db_error + ChannelRuntimeMeta option" where
  "advance_retention existing req =
     (if rm_ChannelEpoch existing \<noteq> ra_ExpectedChannelEpoch req \<or> rm_LeaderEpoch existing \<noteq> ra_ExpectedLeaderEpoch req
         \<or> rm_Leader existing \<noteq> ra_ExpectedLeader req \<or> rm_LeaseUntilMS existing \<noteq> ra_ExpectedLeaseUntilMS req
      then Inl DBErrConflict
      else if ra_RetentionThroughSeq req \<le> rm_RetentionThroughSeq existing then Inr None
      else Inr (Some (existing\<lparr>rm_RetentionThroughSeq := ra_RetentionThroughSeq req,
                               rm_RetentionUpdatedAtMS := ra_RetentionUpdatedAtMS req,
                               rm_RouteGeneration := nextChannelRouteGeneration (rm_RouteGeneration existing)\<rparr>)))"

section \<open>Conversations\<close>

definition mergeConversationState :: "ConversationState \<Rightarrow> ConversationState \<Rightarrow> ConversationState" where
  "mergeConversationState existing next =
     (let next = next\<lparr>st_UID := st_UID existing, st_Kind := st_Kind existing, st_ChannelID := st_ChannelID existing,
                      st_ChannelType := st_ChannelType existing\<rparr>;
          next = (if st_ReadSeq next < st_ReadSeq existing then next\<lparr>st_ReadSeq := st_ReadSeq existing\<rparr> else next);
          next = (if st_DeletedToSeq next < st_DeletedToSeq existing then next\<lparr>st_DeletedToSeq := st_DeletedToSeq existing\<rparr> else next);
          next = (if sint (st_ActiveAt next) < sint (st_ActiveAt existing) then next\<lparr>st_ActiveAt := st_ActiveAt existing\<rparr> else next)
      in if sint (st_UpdatedAt next) < sint (st_UpdatedAt existing) then next\<lparr>st_UpdatedAt := st_UpdatedAt existing\<rparr> else next)"

definition new_conversation :: "u8 list \<Rightarrow> ConversationKind \<Rightarrow> u8 list \<Rightarrow> u64 \<Rightarrow> ConversationState" where
  "new_conversation uid kind channelID channelType =
     \<lparr>st_UID = uid, st_Kind = kind, st_ChannelID = channelID, st_ChannelType = channelType, st_ReadSeq = 0, st_DeletedToSeq = 0,
      st_ActiveAt = 0, st_UpdatedAt = 0, st_SparseActive = False\<rparr>"

text \<open>The new row of \<open>TouchConversationActiveAt\<close>, \<open>HideConversation\<close> and \<open>ClearConversationActiveAt\<close>; \<open>None\<close> when nothing is written.\<close>

definition touch_conversation :: "ConversationState option \<Rightarrow> ConversationActivePatch \<Rightarrow> ConversationState option" where
  "touch_conversation stored patch =
     (let current = (case stored of Some c \<Rightarrow> c
                     | None \<Rightarrow> new_conversation (pa_UID patch) (pa_Kind patch) (pa_ChannelID patch) (pa_ChannelType patch));
          deleteBarrier = (if st_DeletedToSeq current < pa_DeletedToSeq patch then pa_DeletedToSeq patch else st_DeletedToSeq current);
          activeBlocked = (0 < pa_MessageSeq patch \<and> pa_MessageSeq patch \<le> deleteBarrier);
          activeChanged = (\<not> activeBlocked \<and> sint (st_ActiveAt current) < sint (pa_ActiveAt patch));
          sparseChanged = (pa_SparseActiveSet patch \<and> pa_SparseActive patch \<noteq> st_SparseActive current);
          floorsChanged = (st_ReadSeq current < pa_ReadSeq patch \<or> st_DeletedToSeq current < pa_DeletedToSeq patch
                           \<or> sint (st_UpdatedAt current) < sint (pa_UpdatedAt patch))
      in if \<not> activeChanged \<and> \<not> sparseChanged \<and> \<not> floorsChanged then None
         else
           let next = (if activeChanged then current\<lparr>st_ActiveAt := pa_ActiveAt patch\<rparr> else current);
               next = (if pa_SparseActiveSet patch then next\<lparr>st_SparseActive := pa_SparseActive patch\<rparr> else next);
               next = (if st_ReadSeq next < pa_ReadSeq patch then next\<lparr>st_ReadSeq := pa_ReadSeq patch\<rparr> else next);
               next = (if st_DeletedToSeq next < pa_DeletedToSeq patch then next\<lparr>st_DeletedToSeq := pa_DeletedToSeq patch\<rparr> else next)
           in Some (if sint (st_UpdatedAt next) < sint (pa_UpdatedAt patch) then next\<lparr>st_UpdatedAt := pa_UpdatedAt patch\<rparr> else next))"

definition hide_conversation :: "ConversationState option \<Rightarrow> ConversationDelete \<Rightarrow> ConversationState option" where
  "hide_conversation stored req =
     (if stored = None \<and> cd_DeletedToSeq req = 0 then None
      else
        let current = (case stored of Some c \<Rightarrow> c
                       | None \<Rightarrow> new_conversation (cd_UID req) (cd_Kind req) (cd_ChannelID req) (cd_ChannelType req))
        in if cd_DeletedToSeq req \<le> st_DeletedToSeq current then None
           else
             let next = current\<lparr>st_DeletedToSeq := cd_DeletedToSeq req, st_ActiveAt := 0\<rparr>
             in Some (if sint (st_UpdatedAt next) < sint (cd_UpdatedAt req) then next\<lparr>st_UpdatedAt := cd_UpdatedAt req\<rparr> else next))"

definition clear_conversation :: "ConversationState option \<Rightarrow> ConversationState option" where
  "clear_conversation stored =
     (case stored of
        None \<Rightarrow> None
      | Some current \<Rightarrow> if sint (st_ActiveAt current) \<le> 0 then None else Some (current\<lparr>st_ActiveAt := 0\<rparr>))"

section \<open>Memberships, latest messages and plugin bindings\<close>

definition resolveUserChannelMembership :: "UserChannelMembership option \<Rightarrow> UserChannelMembership \<Rightarrow> UserChannelMembership" where
  "resolveUserChannelMembership stored next =
     (case stored of
        None \<Rightarrow> next
      | Some existing \<Rightarrow>
          let next = (if um_JoinSeq next < um_JoinSeq existing then next\<lparr>um_JoinSeq := um_JoinSeq existing\<rparr> else next)
          in if sint (um_UpdatedAt next) < sint (um_UpdatedAt existing) then next\<lparr>um_UpdatedAt := um_UpdatedAt existing\<rparr> else next)"

definition resolveChannelLatest :: "ChannelLatest option \<Rightarrow> ChannelLatest \<Rightarrow> ChannelLatest" where
  "resolveChannelLatest stored next =
     (case stored of
        None \<Rightarrow> next
      | Some existing \<Rightarrow> if lt_LastMessageSeq next \<le> lt_LastMessageSeq existing then existing else next)"

text \<open>The row that \<open>BindPluginUser\<close> hands to the table.\<close>

definition merge_binding :: "PluginUserBinding option \<Rightarrow> PluginUserBinding \<Rightarrow> PluginUserBinding" where
  "merge_binding stored binding =
     (case stored of
        None \<Rightarrow> binding
      | Some existing \<Rightarrow>
          let binding = binding\<lparr>pb_CreatedAtMS := pb_CreatedAtMS existing\<rparr>
          in if sint (pb_UpdatedAtMS binding) < sint (pb_UpdatedAtMS existing)
             then binding\<lparr>pb_UpdatedAtMS := pb_UpdatedAtMS existing\<rparr> else binding)"

end
