(* ===== verification/TableKey.thy ===== *)
theory TableKey
  imports MetaMerge
begin

text \<open>
  The logical keys of the metadata tables (\<open>pkg/db/meta/table_key.go\<close>) and the primitives of row values (\<open>tx_helpers.go\<close>,
  \<open>table_channel_latest.go\<close>). A key is a list of typed parts; a layout is the list of their kinds.
\<close>

section \<open>Key parts\<close>

type_synonym KeyPartKind = u8

definition KeyString :: KeyPartKind where "KeyString = 1"
definition KeyInt64Ordered :: KeyPartKind where "KeyInt64Ordered = 2"
definition KeyInt64Desc :: KeyPartKind where "KeyInt64Desc = 3"
definition KeyUint64 :: KeyPartKind where "KeyUint64 = 4"
definition KeyUint8 :: KeyPartKind where "KeyUint8 = 5"

lemmas key_kinds = KeyString_def KeyInt64Ordered_def KeyInt64Desc_def KeyUint64_def KeyUint8_def

record KeyPart =
  kp_Kind :: KeyPartKind
  kp_S :: "u8 list"
  kp_I64 :: u64
  kp_U64 :: u64
  kp_U8 :: u8

type_synonym KeyParts = "KeyPart list"
type_synonym KeyLayout = "KeyPartKind list"

definition zero_part :: KeyPart where
  "zero_part = \<lparr>kp_Kind = 0, kp_S = [], kp_I64 = 0, kp_U64 = 0, kp_U8 = 0\<rparr>"

definition PartString :: "u8 list \<Rightarrow> KeyPart" where "PartString v = zero_part\<lparr>kp_Kind := KeyString, kp_S := v\<rparr>"
definition Int64Ordered :: "u64 \<Rightarrow> KeyPart" where "Int64Ordered v = zero_part\<lparr>kp_Kind := KeyInt64Ordered, kp_I64 := v\<rparr>"
definition Int64Desc :: "u64 \<Rightarrow> KeyPart" where "Int64Desc v = zero_part\<lparr>kp_Kind := KeyInt64Desc, kp_I64 := v\<rparr>"
definition Uint64 :: "u64 \<Rightarrow> KeyPart" where "Uint64 v = zero_part\<lparr>kp_Kind := KeyUint64, kp_U64 := v\<rparr>"
definition Uint8 :: "u8 \<Rightarrow> KeyPart" where "Uint8 v = zero_part\<lparr>kp_Kind := KeyUint8, kp_U8 := v\<rparr>"

definition KeyParts_Equal :: "KeyParts \<Rightarrow> KeyParts \<Rightarrow> bool" where
  "KeyParts_Equal parts other \<longleftrightarrow> parts = other"

section \<open>The ordered encoding\<close>

definition encodeKeyPart :: "key \<Rightarrow> KeyPart \<Rightarrow> db_error + key" where
  "encodeKeyPart dst part =
     (if kp_Kind part = KeyString then
        if maxKeyStringLen < length (kp_S part) then Inl DBErrInvalidArgument
        else key_or_panic (AppendString (kp_S part) dst)
      else if kp_Kind part = KeyInt64Ordered then key_or_panic (AppendInt64Ordered (kp_I64 part) dst)
      else if kp_Kind part = KeyInt64Desc then key_or_panic (AppendInt64Desc (kp_I64 part) dst)
      else if kp_Kind part = KeyUint64 then key_or_panic (AppendUint64 (kp_U64 part) dst)
      else if kp_Kind part = KeyUint8 then Inr (dst @ [kp_U8 part])
      else Inl DBErrInvalidArgument)"

fun encodeKeyParts :: "key \<Rightarrow> KeyParts \<Rightarrow> db_error + key" where
  "encodeKeyParts dst [] = Inr dst"
| "encodeKeyParts dst (part # parts) = bind_res (encodeKeyPart dst part) (\<lambda>dst. encodeKeyParts dst parts)"

definition decodeKeyPart :: "KeyPartKind \<Rightarrow> key \<Rightarrow> db_error + (KeyPart \<times> key)" where
  "decodeKeyPart kind rest =
     (if kind = KeyString then
        (case ReadString rest of None \<Rightarrow> Inl DBErrCorruptValue | Some (v, next) \<Rightarrow> Inr (PartString v, next))
      else if kind = KeyInt64Ordered then
        (case get64 rest of None \<Rightarrow> Inl DBErrCorruptValue
         | Some (ordered, next) \<Rightarrow> Inr (Int64Ordered (ordered XOR push_bit 63 1), next))
      else if kind = KeyInt64Desc then
        (case get64 rest of None \<Rightarrow> Inl DBErrCorruptValue
         | Some (ordered, next) \<Rightarrow> Inr (Int64Desc (NOT ordered XOR push_bit 63 1), next))
      else if kind = KeyUint64 then
        (case get64 rest of None \<Rightarrow> Inl DBErrCorruptValue | Some (v, next) \<Rightarrow> Inr (Uint64 v, next))
      else if kind = KeyUint8 then
        (case rest of [] \<Rightarrow> Inl DBErrCorruptValue | v # next \<Rightarrow> Inr (Uint8 v, next))
      else Inl DBErrInvalidArgument)"

fun decodeKeyParts :: "key \<Rightarrow> KeyLayout \<Rightarrow> db_error + (KeyParts \<times> key)" where
  "decodeKeyParts rest [] = Inr ([], rest)"
| "decodeKeyParts rest (kind # layout) =
     bind_res (decodeKeyPart kind rest) (\<lambda>(part, rest).
       bind_res (decodeKeyParts rest layout) (\<lambda>(parts, rest). Inr (part # parts, rest)))"

definition encodeTablePrimaryRowKey :: "HashSlot \<Rightarrow> u32 \<Rightarrow> KeyParts \<Rightarrow> u16 \<Rightarrow> db_error + key" where
  "encodeTablePrimaryRowKey hs tableID primary familyID =
     bind_res (key_or_panic (encodeRowPrefix hs tableID)) (\<lambda>k.
       bind_res (encodeKeyParts k primary) (\<lambda>k. key_or_panic (AppendUint16 familyID k)))"

definition encodeTableIndexScanPrefix :: "HashSlot \<Rightarrow> u32 \<Rightarrow> u16 \<Rightarrow> KeyParts \<Rightarrow> db_error + key" where
  "encodeTableIndexScanPrefix hs tableID indexID prefixParts =
     bind_res (key_or_panic (encodeIndexPrefix hs tableID indexID)) (\<lambda>k. encodeKeyParts k prefixParts)"

definition encodeTableIndexKey :: "HashSlot \<Rightarrow> u32 \<Rightarrow> u16 \<Rightarrow> KeyParts \<Rightarrow> KeyParts \<Rightarrow> db_error + key" where
  "encodeTableIndexKey hs tableID indexID indexParts primary =
     bind_res (encodeTableIndexScanPrefix hs tableID indexID indexParts) (\<lambda>k. encodeKeyParts k primary)"

section \<open>Checks\<close>

fun check_parts :: "KeyParts \<Rightarrow> KeyLayout \<Rightarrow> db_error option" where
  "check_parts (part # parts) (kind # layout) =
     (if kp_Kind part \<noteq> kind then Some DBErrInvalidArgument
      else if kp_Kind part = KeyString then
        (case validateKeyString (kp_S part) of Some e \<Rightarrow> Some e | None \<Rightarrow> check_parts parts layout)
      else check_parts parts layout)"
| "check_parts _ _ = None"

definition validateKeyPartsAgainstLayout :: "KeyParts \<Rightarrow> KeyLayout \<Rightarrow> db_error option" where
  "validateKeyPartsAgainstLayout parts layout =
     (if length parts \<noteq> length layout then Some DBErrInvalidArgument else check_parts parts layout)"

definition keyPartsHasPrefix :: "KeyParts \<Rightarrow> KeyParts \<Rightarrow> bool" where
  "keyPartsHasPrefix parts prefix \<longleftrightarrow> length prefix \<le> length parts \<and> take (length prefix) parts = prefix"

section \<open>Row values\<close>

definition appendValueString :: "u8 list \<Rightarrow> u8 list \<Rightarrow> db_error + u8 list" where
  "appendValueString dst val = key_or_panic (AppendString val dst)"

definition readValueString :: "u8 list \<Rightarrow> db_error + (u8 list \<times> u8 list)" where
  "readValueString src = (case ReadString src of None \<Rightarrow> Inl DBErrCorruptValue | Some r \<Rightarrow> Inr r)"

definition appendValueInt64 :: "u8 list \<Rightarrow> u64 \<Rightarrow> u8 list" where
  "appendValueInt64 dst val = dst @ put64 val"

definition readValueInt64 :: "u8 list \<Rightarrow> db_error + (u64 \<times> u8 list)" where
  "readValueInt64 src = (case get64 src of None \<Rightarrow> Inl DBErrCorruptValue | Some r \<Rightarrow> Inr r)"

definition appendValueUint64 :: "u8 list \<Rightarrow> u64 \<Rightarrow> u8 list" where
  "appendValueUint64 dst val = dst @ put64 val"

definition readValueUint64 :: "u8 list \<Rightarrow> db_error + (u64 \<times> u8 list)" where
  "readValueUint64 src = (case get64 src of None \<Rightarrow> Inl DBErrCorruptValue | Some r \<Rightarrow> Inr r)"

text \<open>The length is cut to 32 bits.\<close>

definition appendValueBytes :: "u8 list \<Rightarrow> u8 list \<Rightarrow> u8 list" where
  "appendValueBytes dst val = dst @ put32 (of_nat (length val)) @ val"

definition readValueBytes :: "u8 list \<Rightarrow> db_error + (u8 list \<times> u8 list)" where
  "readValueBytes src =
     (case get32 src of
        None \<Rightarrow> Inl DBErrCorruptValue
      | Some (n, src) \<Rightarrow> if length src < unat n then Inl DBErrCorruptValue else Inr (take (unat n) src, drop (unat n) src))"

end
