(* ===== verification/TableRuntime.thy ===== *)
theory TableRuntime
  imports TableKey
begin

text \<open>
  The table runtime of the metadata store (\<open>pkg/db/meta/table_runtime.go\<close>): a table is a specification of its keys, its
  value codec and its secondary indexes, and the runtime keeps rows and index entries over the key-value engine. Contexts are not
  cancelled, handles are open, reads and the staging of a batch do not fail; a write is one step under the lock of its hash slot and
  returns the engine's new state. The descriptors of columns and families only feed checks at start-up and are left out.
\<close>

section \<open>Specifications\<close>

record 'r PrimarySpec =
  pm_IndexID :: u16
  pm_FamilyID :: u16
  pm_Layout :: KeyLayout
  pm_OmitFamilySuffix :: bool
  pm_Key :: "'r \<Rightarrow> KeyParts"

record 'r IndexSpec =
  ix_ID :: u16
  ix_Unique :: bool
  ix_Layout :: KeyLayout
  ix_DescriptorOnly :: bool
  ix_PrimaryFromIndex :: bool
  ix_PrimaryKeyFromIndexParts :: "(KeyParts \<Rightarrow> KeyParts option) option"
  ix_CorruptIndexKeyIsError :: bool
  ix_StorePrimaryValue :: bool
  ix_Key :: "'r \<Rightarrow> KeyParts option"

record 'r TableSpec =
  ts_ID :: u32
  ts_Primary :: "'r PrimarySpec"
  ts_Indexes :: "'r IndexSpec list"
  ts_Validate :: "'r \<Rightarrow> db_error option"
  ts_EncodeValue :: "key \<Rightarrow> 'r \<Rightarrow> db_error + u8 list"
  ts_DecodeValue :: "key \<Rightarrow> KeyParts \<Rightarrow> u8 list \<Rightarrow> db_error + 'r"

datatype tableWriteMode = tableWriteCreate | tableWriteUpdate | tableWriteUpsert

section \<open>Keys of a table\<close>

definition validatePrimaryKey :: "'r TableSpec \<Rightarrow> KeyParts \<Rightarrow> db_error option" where
  "validatePrimaryKey t pk = validateKeyPartsAgainstLayout pk (pm_Layout (ts_Primary t))"

definition validatePrimaryPrefix :: "'r TableSpec \<Rightarrow> KeyParts \<Rightarrow> db_error option" where
  "validatePrimaryPrefix t prefix =
     (if length (pm_Layout (ts_Primary t)) < length prefix then Some DBErrInvalidArgument
      else validateKeyPartsAgainstLayout prefix (take (length prefix) (pm_Layout (ts_Primary t))))"

definition table_primaryKey :: "'r TableSpec \<Rightarrow> 'r \<Rightarrow> db_error + KeyParts" where
  "table_primaryKey t row =
     (let parts = pm_Key (ts_Primary t) row
      in case validatePrimaryKey t parts of Some e \<Rightarrow> Inl e | None \<Rightarrow> Inr parts)"

definition primaryRowKey :: "'r TableSpec \<Rightarrow> HashSlot \<Rightarrow> KeyParts \<Rightarrow> db_error + key" where
  "primaryRowKey t hs pk =
     bind_res (check_error (validatePrimaryKey t pk)) (\<lambda>_.
       if pm_OmitFamilySuffix (ts_Primary t)
       then bind_res (key_or_panic (encodeRowPrefix hs (ts_ID t))) (\<lambda>k. encodeKeyParts k pk)
       else encodeTablePrimaryRowKey hs (ts_ID t) pk (pm_FamilyID (ts_Primary t)))"

definition decodePrimaryRowKey :: "'r TableSpec \<Rightarrow> key \<Rightarrow> key \<Rightarrow> KeyParts option" where
  "decodePrimaryRowKey t prefix k =
     (if \<not> HasPrefix k prefix then None
      else
        case decodeKeyParts (drop (length prefix) k) (pm_Layout (ts_Primary t)) of
          Inl e \<Rightarrow> None
        | Inr (parts, rest) \<Rightarrow>
            if pm_OmitFamilySuffix (ts_Primary t) then if rest = [] then Some parts else None
            else if length rest \<noteq> 2 \<or> rest \<noteq> put16 (pm_FamilyID (ts_Primary t)) then None
            else Some parts)"

definition indexPartsForRow :: "'r \<Rightarrow> 'r IndexSpec \<Rightarrow> KeyParts \<Rightarrow> KeyParts option" where
  "indexPartsForRow row ix pk = (if ix_PrimaryFromIndex ix then Some pk else ix_Key ix row)"

definition indexEntryKey :: "'r TableSpec \<Rightarrow> HashSlot \<Rightarrow> 'r IndexSpec \<Rightarrow> KeyParts \<Rightarrow> KeyParts \<Rightarrow> db_error + key" where
  "indexEntryKey t hs ix indexParts primary =
     (if ix_PrimaryFromIndex ix \<or> ix_PrimaryKeyFromIndexParts ix \<noteq> None
      then encodeTableIndexScanPrefix hs (ts_ID t) (ix_ID ix) indexParts
      else encodeTableIndexKey hs (ts_ID t) (ix_ID ix) indexParts primary)"

text \<open>\<open>ok\<close>, \<open>err\<close> and the parts of the Go code: \<open>None\<close> is a key outside the prefix, which is no error.\<close>

definition decodeIndexKey :: "'r TableSpec \<Rightarrow> key \<Rightarrow> key \<Rightarrow> 'r IndexSpec \<Rightarrow> db_error + (KeyParts \<times> KeyParts) option" where
  "decodeIndexKey t prefix k ix =
     (if \<not> HasPrefix k prefix then Inr None
      else
        bind_res (decodeKeyParts (drop (length prefix) k) (ix_Layout ix)) (\<lambda>(indexParts, rest).
          if ix_PrimaryFromIndex ix then
            if rest \<noteq> [] then Inl DBErrCorruptValue else Inr (Some (indexParts, indexParts))
          else
            case ix_PrimaryKeyFromIndexParts ix of
              Some f \<Rightarrow>
                if rest \<noteq> [] then Inl DBErrCorruptValue
                else (case f indexParts of
                        None \<Rightarrow> Inl DBErrCorruptValue
                      | Some primaryParts \<Rightarrow>
                          if validatePrimaryKey t primaryParts \<noteq> None then Inl DBErrCorruptValue
                          else Inr (Some (indexParts, primaryParts)))
            | None \<Rightarrow>
                (case decodeKeyParts rest (pm_Layout (ts_Primary t)) of
                   Inl e \<Rightarrow> Inl DBErrCorruptValue
                 | Inr (primaryParts, rest) \<Rightarrow>
                     if rest \<noteq> [] then Inl DBErrCorruptValue else Inr (Some (indexParts, primaryParts)))))"

definition indexByID :: "'r TableSpec \<Rightarrow> u16 \<Rightarrow> 'r IndexSpec option" where
  "indexByID t indexID = find (\<lambda>ix. ix_ID ix = indexID \<and> \<not> ix_DescriptorOnly ix) (ts_Indexes t)"

definition rowMatchesIndex :: "'r TableSpec \<Rightarrow> 'r \<Rightarrow> 'r IndexSpec \<Rightarrow> KeyParts \<Rightarrow> bool" where
  "rowMatchesIndex t row ix expected =
     (case table_primaryKey t row of
        Inl e \<Rightarrow> False
      | Inr pk \<Rightarrow> (case indexPartsForRow row ix pk of None \<Rightarrow> False | Some actual \<Rightarrow> KeyParts_Equal actual expected))"

section \<open>Staging index entries\<close>

text \<open>The operations a loop over the indexes adds to the engine's batch.\<close>

definition stage_index ::
  "('r IndexSpec \<Rightarrow> bool) \<Rightarrow> ('r IndexSpec \<Rightarrow> key \<Rightarrow> BatchOp) \<Rightarrow> 'r TableSpec \<Rightarrow> HashSlot \<Rightarrow> 'r \<Rightarrow> KeyParts \<Rightarrow> 'r IndexSpec \<Rightarrow> db_error + BatchOp list" where
  "stage_index skip mk t hs row pk ix =
     (if skip ix then Inr []
      else
        case indexPartsForRow row ix pk of
          None \<Rightarrow> Inr []
        | Some indexParts \<Rightarrow>
            bind_res (check_error (validateKeyPartsAgainstLayout indexParts (ix_Layout ix))) (\<lambda>_.
              bind_res (indexEntryKey t hs ix indexParts pk) (\<lambda>k. Inr [mk ix k])))"

fun collect_ops :: "('i \<Rightarrow> db_error + BatchOp list) \<Rightarrow> 'i list \<Rightarrow> db_error + BatchOp list" where
  "collect_ops f [] = Inr []"
| "collect_ops f (i # is) = bind_res (f i) (\<lambda>xs. bind_res (collect_ops f is) (\<lambda>ys. Inr (xs @ ys)))"

definition stagePutIndexEntries :: "'r TableSpec \<Rightarrow> HashSlot \<Rightarrow> 'r \<Rightarrow> KeyParts \<Rightarrow> u8 list \<Rightarrow> db_error + BatchOp list" where
  "stagePutIndexEntries t hs row pk val =
     collect_ops (stage_index ix_DescriptorOnly (\<lambda>ix k. OpSet k (if ix_StorePrimaryValue ix then val else [])) t hs row pk) (ts_Indexes t)"

definition stageDeleteIndexEntries :: "'r TableSpec \<Rightarrow> HashSlot \<Rightarrow> 'r \<Rightarrow> KeyParts \<Rightarrow> db_error + BatchOp list" where
  "stageDeleteIndexEntries t hs row pk =
     collect_ops (stage_index (\<lambda>ix. ix_DescriptorOnly ix \<or> ix_PrimaryFromIndex ix) (\<lambda>ix k. OpDelete k) t hs row pk) (ts_Indexes t)"

definition stageDeletePrimaryFromIndexEntries :: "'r TableSpec \<Rightarrow> HashSlot \<Rightarrow> KeyParts \<Rightarrow> db_error + BatchOp list" where
  "stageDeletePrimaryFromIndexEntries t hs pk =
     collect_ops (\<lambda>ix. if ix_DescriptorOnly ix \<or> \<not> ix_PrimaryFromIndex ix then Inr []
                       else bind_res (indexEntryKey t hs ix pk pk) (\<lambda>k. Inr [OpDelete k])) (ts_Indexes t)"

definition hasDecodedIndexEntries :: "'r TableSpec \<Rightarrow> bool" where
  "hasDecodedIndexEntries t \<longleftrightarrow> list_ex (\<lambda>ix. \<not> ix_DescriptorOnly ix \<and> \<not> ix_PrimaryFromIndex ix) (ts_Indexes t)"

section \<open>Reading rows\<close>

definition getByPrimaryKey :: "'r TableSpec \<Rightarrow> 'db Engine \<Rightarrow> 'db \<Rightarrow> HashSlot \<Rightarrow> KeyParts \<Rightarrow> db_error + 'r option" where
  "getByPrimaryKey t eng d hs pk =
     bind_res (check_error (validatePrimaryKey t pk)) (\<lambda>_.
       bind_res (primaryRowKey t hs pk) (\<lambda>k.
         case eg_Get eng d k of
           None \<Rightarrow> Inr None
         | Some v \<Rightarrow> bind_res (ts_DecodeValue t k pk v) (\<lambda>row. Inr (Some row))))"

definition table_Get :: "'r TableSpec \<Rightarrow> 'db Engine \<Rightarrow> 'db \<Rightarrow> HashSlot \<Rightarrow> KeyParts \<Rightarrow> db_error + 'r option" where
  "table_Get = getByPrimaryKey"

text \<open>The rows that a batch has staged, over the engine's state when its commit began.\<close>

type_synonym tableRowOverlay = "(key \<times> u8 list option) list"

definition loadBatchValue :: "'db Engine \<Rightarrow> 'db \<Rightarrow> tableRowOverlay \<Rightarrow> key \<Rightarrow> u8 list option" where
  "loadBatchValue eng d ov k = (case map_of ov k of Some entry \<Rightarrow> entry | None \<Rightarrow> eg_Get eng d k)"

definition loadBatchRow ::
  "'r TableSpec \<Rightarrow> 'db Engine \<Rightarrow> 'db \<Rightarrow> tableRowOverlay \<Rightarrow> HashSlot \<Rightarrow> KeyParts \<Rightarrow> key \<Rightarrow> db_error + 'r option" where
  "loadBatchRow t eng d ov hs pk k =
     (case map_of ov k of
        Some None \<Rightarrow> Inr None
      | Some (Some v) \<Rightarrow> bind_res (ts_DecodeValue t k pk v) (\<lambda>row. Inr (Some row))
      | None \<Rightarrow> getByPrimaryKey t eng d hs pk)"

section \<open>Unique indexes\<close>

text \<open>\<open>ov\<close> is \<open>None\<close> outside a batch.\<close>

definition indexedPrimaryStillConflicts ::
  "'r TableSpec \<Rightarrow> 'db Engine \<Rightarrow> 'db \<Rightarrow> tableRowOverlay option \<Rightarrow> HashSlot \<Rightarrow> 'r IndexSpec \<Rightarrow> KeyParts \<Rightarrow> KeyParts \<Rightarrow> db_error + bool" where
  "indexedPrimaryStillConflicts t eng d ov hs ix indexParts indexedPK =
     bind_res (primaryRowKey t hs indexedPK) (\<lambda>k.
       bind_res (case ov of Some ov \<Rightarrow> loadBatchRow t eng d ov hs indexedPK k | None \<Rightarrow> getByPrimaryKey t eng d hs indexedPK) (\<lambda>r.
         case r of None \<Rightarrow> Inr False | Some row \<Rightarrow> Inr (rowMatchesIndex t row ix indexParts)))"

fun unique_scan ::
  "'r TableSpec \<Rightarrow> 'db Engine \<Rightarrow> 'db \<Rightarrow> tableRowOverlay option \<Rightarrow> HashSlot \<Rightarrow> 'r IndexSpec \<Rightarrow> key \<Rightarrow> KeyParts \<Rightarrow> KeyParts
    \<Rightarrow> (key \<times> u8 list) list \<Rightarrow> db_error + unit" where
  "unique_scan t eng d ov hs ix basePrefix indexParts pk [] = Inr ()"
| "unique_scan t eng d ov hs ix basePrefix indexParts pk ((k, v) # es) =
     (case decodeIndexKey t basePrefix k ix of
        Inr (Some (_, indexedPK)) \<Rightarrow>
          if KeyParts_Equal indexedPK pk then unique_scan t eng d ov hs ix basePrefix indexParts pk es
          else bind_res (indexedPrimaryStillConflicts t eng d ov hs ix indexParts indexedPK) (\<lambda>conflict.
                 if conflict then Inl DBErrAlreadyExists else unique_scan t eng d ov hs ix basePrefix indexParts pk es)
      | _ \<Rightarrow> unique_scan t eng d ov hs ix basePrefix indexParts pk es)"

fun unique_indexes ::
  "'r TableSpec \<Rightarrow> 'db Engine \<Rightarrow> 'db \<Rightarrow> tableRowOverlay option \<Rightarrow> HashSlot \<Rightarrow> 'r \<Rightarrow> KeyParts \<Rightarrow> 'r IndexSpec list \<Rightarrow> db_error + unit" where
  "unique_indexes t eng d ov hs row pk [] = Inr ()"
| "unique_indexes t eng d ov hs row pk (ix # is) =
     bind_res
       (if ix_DescriptorOnly ix \<or> \<not> ix_Unique ix then Inr ()
        else
          case indexPartsForRow row ix pk of
            None \<Rightarrow> Inr ()
          | Some indexParts \<Rightarrow>
              bind_res (check_error (validateKeyPartsAgainstLayout indexParts (ix_Layout ix))) (\<lambda>_.
                bind_res (encodeTableIndexScanPrefix hs (ts_ID t) (ix_ID ix) indexParts) (\<lambda>prefix.
                  bind_res (key_or_panic (encodeIndexPrefix hs (ts_ID t) (ix_ID ix))) (\<lambda>basePrefix.
                    unique_scan t eng d ov hs ix basePrefix indexParts pk (scan_span eng d (NewPrefixSpan prefix))))))
       (\<lambda>_. unique_indexes t eng d ov hs row pk is)"

text \<open>
  The rows that the batch holds itself. Go visits them in any order, so which of two errors is returned is open; here they come
  in the order of the list.
\<close>

fun unique_overlay ::
  "'r TableSpec \<Rightarrow> HashSlot \<Rightarrow> key \<Rightarrow> 'r \<Rightarrow> KeyParts \<Rightarrow> tableRowOverlay \<Rightarrow> db_error + unit" where
  "unique_overlay t hs rowPrefix row pk [] = Inr ()"
| "unique_overlay t hs rowPrefix row pk ((k, entry) # es) =
     bind_res
       (case entry of
          None \<Rightarrow> Inr ()
        | Some v \<Rightarrow>
            (case decodePrimaryRowKey t rowPrefix k of
               None \<Rightarrow> Inr ()
             | Some overlayPK \<Rightarrow>
                 if KeyParts_Equal overlayPK pk then Inr ()
                 else bind_res (ts_DecodeValue t k overlayPK v) (\<lambda>overlayRow.
                        if list_ex (\<lambda>ix. \<not> ix_DescriptorOnly ix \<and> ix_Unique ix \<and>
                             (case (indexPartsForRow row ix pk, indexPartsForRow overlayRow ix overlayPK) of
                                (Some left, Some right) \<Rightarrow> KeyParts_Equal left right
                              | _ \<Rightarrow> False)) (ts_Indexes t)
                        then Inl DBErrAlreadyExists else Inr ())))
       (\<lambda>_. unique_overlay t hs rowPrefix row pk es)"

definition stageUniqueIndexChecks ::
  "'r TableSpec \<Rightarrow> 'db Engine \<Rightarrow> 'db \<Rightarrow> tableRowOverlay option \<Rightarrow> HashSlot \<Rightarrow> 'r \<Rightarrow> KeyParts \<Rightarrow> db_error + unit" where
  "stageUniqueIndexChecks t eng d ov hs row pk =
     bind_res (unique_indexes t eng d ov hs row pk (ts_Indexes t)) (\<lambda>_.
       case ov of
         None \<Rightarrow> Inr ()
       | Some es \<Rightarrow> bind_res (key_or_panic (encodeRowPrefix hs (ts_ID t))) (\<lambda>rowPrefix. unique_overlay t hs rowPrefix row pk es))"

section \<open>Writing rows\<close>

definition commit_batch :: "'db Engine \<Rightarrow> 'db \<Rightarrow> BatchOp list \<Rightarrow> db_error + 'db" where
  "commit_batch eng d ops = (case eg_Commit eng d ops of None \<Rightarrow> Inl DBErrCommit | Some d' \<Rightarrow> Inr d')"

definition check_mode :: "tableWriteMode \<Rightarrow> bool \<Rightarrow> db_error + unit" where
  "check_mode mode exists =
     (case mode of
        tableWriteCreate \<Rightarrow> if exists then Inl DBErrAlreadyExists else Inr ()
      | tableWriteUpdate \<Rightarrow> if \<not> exists then Inl DBErrNotFound else Inr ()
      | tableWriteUpsert \<Rightarrow> Inr ())"

text \<open>The entries of the row that is there, and those of the new one.\<close>

definition stage_old ::
  "'r TableSpec \<Rightarrow> HashSlot \<Rightarrow> KeyParts \<Rightarrow> key \<Rightarrow> u8 list option \<Rightarrow> db_error + BatchOp list" where
  "stage_old t hs pk k stored =
     (case stored of
        None \<Rightarrow> Inr []
      | Some existingValue \<Rightarrow>
          bind_res (stageDeletePrimaryFromIndexEntries t hs pk) (\<lambda>ops1.
            bind_res (if hasDecodedIndexEntries t
                      then bind_res (ts_DecodeValue t k pk existingValue) (\<lambda>existing. stageDeleteIndexEntries t hs existing pk)
                      else Inr []) (\<lambda>ops2. Inr (ops1 @ ops2))))"

definition table_write :: "'r TableSpec \<Rightarrow> 'db Engine \<Rightarrow> 'db \<Rightarrow> HashSlot \<Rightarrow> 'r \<Rightarrow> tableWriteMode \<Rightarrow> db_error + 'db" where
  "table_write t eng d hs row mode =
     bind_res (check_error (ts_Validate t row)) (\<lambda>_.
       bind_res (table_primaryKey t row) (\<lambda>pk.
         bind_res (primaryRowKey t hs pk) (\<lambda>k.
           bind_res (ts_EncodeValue t k row) (\<lambda>val.
             bind_res (check_mode mode (eg_Get eng d k \<noteq> None)) (\<lambda>_.
               bind_res (stage_old t hs pk k (eg_Get eng d k)) (\<lambda>old.
                 bind_res (stageUniqueIndexChecks t eng d None hs row pk) (\<lambda>_.
                   bind_res (stagePutIndexEntries t hs row pk val) (\<lambda>put.
                     commit_batch eng d (old @ [OpSet k val] @ put)))))))))"

definition table_Delete :: "'r TableSpec \<Rightarrow> 'db Engine \<Rightarrow> 'db \<Rightarrow> HashSlot \<Rightarrow> KeyParts \<Rightarrow> db_error + 'db" where
  "table_Delete t eng d hs pk =
     bind_res (check_error (validatePrimaryKey t pk)) (\<lambda>_.
       bind_res (primaryRowKey t hs pk) (\<lambda>k.
         bind_res (stageDeletePrimaryFromIndexEntries t hs pk) (\<lambda>ops1.
           bind_res (case eg_Get eng d k of
                       None \<Rightarrow> Inr []
                     | Some v \<Rightarrow>
                         if hasDecodedIndexEntries t
                         then bind_res (ts_DecodeValue t k pk v) (\<lambda>old. stageDeleteIndexEntries t hs old pk)
                         else Inr []) (\<lambda>ops2.
             commit_batch eng d (ops1 @ ops2 @ [OpDelete k])))))"

section \<open>Scans\<close>

text \<open>
  The loop of a scan: \<open>rows\<close> are those collected, \<open>cur\<close> the key of the last one; \<open>limit\<close> is \<open>None\<close> for a scan without limit. The
  result is the rows, the cursor (\<open>[]\<close> for nil) and whether the scan is done.
\<close>

fun primary_loop ::
  "'r TableSpec \<Rightarrow> key \<Rightarrow> KeyParts \<Rightarrow> int option \<Rightarrow> bool \<Rightarrow> bool \<Rightarrow> (key \<times> u8 list) list \<Rightarrow> 'r list \<Rightarrow> KeyParts
    \<Rightarrow> db_error + ('r list \<times> KeyParts \<times> bool)" where
  "primary_loop t basePrefix prefix limit strict stopAtLimit [] rows cur = Inr (rows, [], True)"
| "primary_loop t basePrefix prefix limit strict stopAtLimit ((k, v) # es) rows cur =
     (case decodePrimaryRowKey t basePrefix k of
        None \<Rightarrow> if strict then Inl DBErrCorruptValue else primary_loop t basePrefix prefix limit strict stopAtLimit es rows cur
      | Some pk \<Rightarrow>
          if \<not> keyPartsHasPrefix pk prefix then
            if strict then Inl DBErrCorruptValue else primary_loop t basePrefix prefix limit strict stopAtLimit es rows cur
          else
            bind_res (ts_DecodeValue t k pk v) (\<lambda>row.
              if limit = Some (int (length rows)) then Inr (rows, cur, False)
              else
                let rows = rows @ [row]
                in if stopAtLimit \<and> limit = Some (int (length rows)) then Inr (rows, pk, False)
                   else primary_loop t basePrefix prefix limit strict stopAtLimit es rows pk))"

definition scanPrimary ::
  "'r TableSpec \<Rightarrow> 'db Engine \<Rightarrow> 'db \<Rightarrow> HashSlot \<Rightarrow> KeyParts \<Rightarrow> KeyParts \<Rightarrow> int option \<Rightarrow> bool \<Rightarrow> bool
    \<Rightarrow> db_error + ('r list \<times> KeyParts \<times> bool)" where
  "scanPrimary t eng d hs prefix after limit strict stopAtLimit =
     bind_res (check_error (validatePrimaryPrefix t prefix)) (\<lambda>_.
       bind_res (check_error (if after \<noteq> [] then validatePrimaryKey t after else None)) (\<lambda>_.
         bind_res (key_or_panic (encodeRowPrefix hs (ts_ID t))) (\<lambda>basePrefix.
           bind_res (encodeKeyParts basePrefix prefix) (\<lambda>scanPrefix.
             let span = NewPrefixSpan scanPrefix
             in bind_res (if after \<noteq> [] then bind_res (primaryRowKey t hs after) (\<lambda>afterKey. Inr (span\<lparr>span_Start := PrefixEnd afterKey\<rparr>))
                          else Inr span) (\<lambda>span.
                  primary_loop t basePrefix prefix limit strict stopAtLimit (scan_span eng d span) [] [])))))"

definition ScanPrimary :: "'r TableSpec \<Rightarrow> 'db Engine \<Rightarrow> 'db \<Rightarrow> HashSlot \<Rightarrow> KeyParts \<Rightarrow> int \<Rightarrow> db_error + ('r list \<times> KeyParts \<times> bool)" where
  "ScanPrimary t eng d hs after limit =
     (if limit \<le> 0 then Inr ([], [], True) else scanPrimary t eng d hs [] after (Some limit) False False)"

definition scan_limit :: "int \<Rightarrow> int option" where
  "scan_limit limit = (if limit \<le> 0 then None else Some limit)"

definition ScanPrimaryPrefix ::
  "'r TableSpec \<Rightarrow> 'db Engine \<Rightarrow> 'db \<Rightarrow> HashSlot \<Rightarrow> KeyParts \<Rightarrow> KeyParts \<Rightarrow> int \<Rightarrow> db_error + ('r list \<times> KeyParts \<times> bool)" where
  "ScanPrimaryPrefix t eng d hs prefix after limit = scanPrimary t eng d hs prefix after (scan_limit limit) False False"

definition scanPrimaryPrefixStrict ::
  "'r TableSpec \<Rightarrow> 'db Engine \<Rightarrow> 'db \<Rightarrow> HashSlot \<Rightarrow> KeyParts \<Rightarrow> KeyParts \<Rightarrow> int \<Rightarrow> db_error + ('r list \<times> KeyParts \<times> bool)" where
  "scanPrimaryPrefixStrict t eng d hs prefix after limit = scanPrimary t eng d hs prefix after (scan_limit limit) True False"

definition scanPrimaryPrefixRows ::
  "'r TableSpec \<Rightarrow> 'db Engine \<Rightarrow> 'db \<Rightarrow> HashSlot \<Rightarrow> KeyParts \<Rightarrow> KeyParts \<Rightarrow> int \<Rightarrow> db_error + ('r list \<times> KeyParts \<times> bool)" where
  "scanPrimaryPrefixRows t eng d hs prefix after limit = scanPrimary t eng d hs prefix after (scan_limit limit) False True"

fun index_loop ::
  "'r TableSpec \<Rightarrow> 'db Engine \<Rightarrow> 'db \<Rightarrow> HashSlot \<Rightarrow> 'r IndexSpec \<Rightarrow> key \<Rightarrow> KeyParts \<Rightarrow> int option \<Rightarrow> bool \<Rightarrow> (key \<times> u8 list) list
    \<Rightarrow> 'r list \<Rightarrow> KeyParts \<Rightarrow> db_error + ('r list \<times> KeyParts \<times> bool)" where
  "index_loop t eng d hs ix basePrefix prefix limit stopAtLimit [] rows cur = Inr (rows, [], True)"
| "index_loop t eng d hs ix basePrefix prefix limit stopAtLimit ((k, v) # es) rows cur =
     (case decodeIndexKey t basePrefix k ix of
        Inl e \<Rightarrow> if ix_CorruptIndexKeyIsError ix then Inl e
                  else index_loop t eng d hs ix basePrefix prefix limit stopAtLimit es rows cur
      | Inr None \<Rightarrow> index_loop t eng d hs ix basePrefix prefix limit stopAtLimit es rows cur
      | Inr (Some (indexParts, primaryParts)) \<Rightarrow>
          if \<not> keyPartsHasPrefix indexParts prefix then index_loop t eng d hs ix basePrefix prefix limit stopAtLimit es rows cur
          else
            bind_res (getByPrimaryKey t eng d hs primaryParts) (\<lambda>r.
              case r of
                None \<Rightarrow> index_loop t eng d hs ix basePrefix prefix limit stopAtLimit es rows cur
              | Some row \<Rightarrow>
                  if \<not> rowMatchesIndex t row ix indexParts
                  then index_loop t eng d hs ix basePrefix prefix limit stopAtLimit es rows cur
                  else if limit = Some (int (length rows)) then Inr (rows, cur, False)
                  else
                    let rows = rows @ [row]
                    in if stopAtLimit \<and> limit = Some (int (length rows)) then Inr (rows, indexParts, False)
                       else index_loop t eng d hs ix basePrefix prefix limit stopAtLimit es rows indexParts))"

definition scanIndexWithOptions ::
  "'r TableSpec \<Rightarrow> 'db Engine \<Rightarrow> 'db \<Rightarrow> HashSlot \<Rightarrow> u16 \<Rightarrow> KeyParts \<Rightarrow> KeyParts \<Rightarrow> int option \<Rightarrow> bool
    \<Rightarrow> db_error + ('r list \<times> KeyParts \<times> bool)" where
  "scanIndexWithOptions t eng d hs indexID prefix after limit stopAtLimit =
     (case indexByID t indexID of
        None \<Rightarrow> Inl DBErrInvalidArgument
      | Some ix \<Rightarrow>
          if length (ix_Layout ix) < length prefix then Inl DBErrInvalidArgument
          else
            bind_res (check_error (validateKeyPartsAgainstLayout prefix (take (length prefix) (ix_Layout ix)))) (\<lambda>_.
              bind_res (if after = [] then Inr ()
                        else if length (ix_Layout ix) < length after \<or> \<not> keyPartsHasPrefix after prefix then Inl DBErrInvalidArgument
                        else check_error (validateKeyPartsAgainstLayout after (take (length after) (ix_Layout ix)))) (\<lambda>_.
                bind_res (encodeTableIndexScanPrefix hs (ts_ID t) (ix_ID ix) prefix) (\<lambda>scanPrefix.
                  let span = NewPrefixSpan scanPrefix
                  in bind_res (if after = [] then Inr span
                               else bind_res (encodeTableIndexScanPrefix hs (ts_ID t) (ix_ID ix) after) (\<lambda>afterKey.
                                      Inr (span\<lparr>span_Start := PrefixEnd afterKey\<rparr>))) (\<lambda>span.
                       bind_res (key_or_panic (encodeIndexPrefix hs (ts_ID t) (ix_ID ix))) (\<lambda>basePrefix.
                         index_loop t eng d hs ix basePrefix prefix limit stopAtLimit (scan_span eng d span) [] []))))))"

definition ScanIndex ::
  "'r TableSpec \<Rightarrow> 'db Engine \<Rightarrow> 'db \<Rightarrow> HashSlot \<Rightarrow> u16 \<Rightarrow> KeyParts \<Rightarrow> KeyParts \<Rightarrow> int \<Rightarrow> db_error + ('r list \<times> KeyParts \<times> bool)" where
  "ScanIndex t eng d hs indexID prefix after limit =
     (if indexByID t indexID = None then Inl DBErrInvalidArgument
      else if limit \<le> 0 then Inr ([], [], True)
      else scanIndexWithOptions t eng d hs indexID prefix after (Some limit) False)"

definition ScanIndexAll :: "'r TableSpec \<Rightarrow> 'db Engine \<Rightarrow> 'db \<Rightarrow> HashSlot \<Rightarrow> u16 \<Rightarrow> KeyParts \<Rightarrow> db_error + 'r list" where
  "ScanIndexAll t eng d hs indexID prefix =
     bind_res (scanIndexWithOptions t eng d hs indexID prefix [] None False) (\<lambda>(rows, _). Inr rows)"

definition scanIndexRows :: "'r TableSpec \<Rightarrow> 'db Engine \<Rightarrow> 'db \<Rightarrow> HashSlot \<Rightarrow> u16 \<Rightarrow> KeyParts \<Rightarrow> int \<Rightarrow> db_error + 'r list" where
  "scanIndexRows t eng d hs indexID prefix limit =
     bind_res (scanIndexWithOptions t eng d hs indexID prefix [] (Some limit) True) (\<lambda>(rows, _). Inr rows)"

end
