(* ===== verification/MetaTables.thy ===== *)
theory MetaTables
  imports TableRuntime RowLoop EnvelopeSafety
begin

text \<open>
  The tables of the metadata store (\<open>pkg/db/meta/table_*.go\<close>): for each its key, its indexes and the codec of its values. The columns
  and families of a table only describe it and are left out. A value whose encoding panics, a string of more than 65535 bytes, is the
  error \<open>DBPanic\<close>.
\<close>

section \<open>Users and devices\<close>

definition TableIDDevice :: u32 where "TableIDDevice = 4"
definition TableIDUserChannelMembership :: u32 where "TableIDUserChannelMembership = 11"
definition TableIDChannelLatest :: u32 where "TableIDChannelLatest = 12"

definition encodeUserValue :: "User \<Rightarrow> db_error + u8 list" where
  "encodeUserValue user =
     bind_res (appendValueString [] (us_Token user)) (\<lambda>val.
       let val = appendValueInt64 val (us_DeviceFlag user)
       in Inr (appendValueInt64 val (us_DeviceLevel user)))"

definition decodeUserValue :: "u8 list \<Rightarrow> u8 list \<Rightarrow> db_error + User" where
  "decodeUserValue uid val =
     bind_res (readValueString val) (\<lambda>(token, rest).
       bind_res (readValueInt64 rest) (\<lambda>(deviceFlag, rest).
         bind_res (readValueInt64 rest) (\<lambda>(deviceLevel, rest).
           if rest \<noteq> [] then Inl DBErrCorruptValue
           else Inr \<lparr>us_UID = uid, us_Token = token, us_DeviceFlag = deviceFlag, us_DeviceLevel = deviceLevel\<rparr>)))"

definition userTable :: "User TableSpec" where
  "userTable =
     \<lparr>ts_ID = TableIDUser,
      ts_Primary = \<lparr>pm_IndexID = 1, pm_FamilyID = 0, pm_Layout = [KeyString], pm_OmitFamilySuffix = False,
        pm_Key = \<lambda>user. [PartString (us_UID user)]\<rparr>,
      ts_Indexes = [],
      ts_Validate = \<lambda>user. validateKeyString (us_UID user),
      ts_EncodeValue = \<lambda>k user. encodeUserValue user,
      ts_DecodeValue = \<lambda>k primary val. decodeUserValue (kp_S (primary ! 0)) val\<rparr>"

definition validateDevice :: "Device \<Rightarrow> db_error option" where
  "validateDevice device = validateKeyString (dv_UID device)"

definition encodeDeviceValue :: "Device \<Rightarrow> db_error + u8 list" where
  "encodeDeviceValue device =
     bind_res (appendValueString [] (dv_Token device)) (\<lambda>val. Inr (appendValueInt64 val (dv_DeviceLevel device)))"

definition decodeDeviceValue :: "u8 list \<Rightarrow> u64 \<Rightarrow> u8 list \<Rightarrow> db_error + Device" where
  "decodeDeviceValue uid deviceFlag val =
     bind_res (readValueString val) (\<lambda>(token, rest).
       bind_res (readValueInt64 rest) (\<lambda>(deviceLevel, rest).
         if rest \<noteq> [] then Inl DBErrCorruptValue
         else Inr \<lparr>dv_UID = uid, dv_DeviceFlag = deviceFlag, dv_Token = token, dv_DeviceLevel = deviceLevel\<rparr>))"

definition deviceTable :: "Device TableSpec" where
  "deviceTable =
     \<lparr>ts_ID = TableIDDevice,
      ts_Primary = \<lparr>pm_IndexID = 1, pm_FamilyID = 0, pm_Layout = [KeyString, KeyInt64Ordered], pm_OmitFamilySuffix = False,
        pm_Key = \<lambda>device. [PartString (dv_UID device), Int64Ordered (dv_DeviceFlag device)]\<rparr>,
      ts_Indexes = [],
      ts_Validate = validateDevice,
      ts_EncodeValue = \<lambda>k device. encodeDeviceValue device,
      ts_DecodeValue = \<lambda>k primary val. decodeDeviceValue (kp_S (primary ! 0)) (kp_I64 (primary ! 1)) val\<rparr>"

section \<open>Channels and subscribers\<close>

definition channelActiveIndexID :: u16 where "channelActiveIndexID = 3"

definition validateChannel :: "Channel \<Rightarrow> db_error option" where
  "validateChannel channel = validateKeyString (cn_ChannelID channel)"

definition encodeChannelValue :: "Channel \<Rightarrow> u8 list" where
  "encodeChannelValue channel =
     (let val = appendValueInt64 [] (cn_Ban channel);
          val = appendValueInt64 val (cn_Disband channel);
          val = appendValueInt64 val (cn_SendBan channel);
          val = appendValueInt64 val (cn_AllowStranger channel);
          val = appendValueUint64 val (cn_SubscriberMutationVersion channel);
          val = appendValueUint64 val (cn_SubscriberCount channel)
      in appendValueInt64 val (cn_Large channel))"

definition decodeChannelValue :: "u8 list \<Rightarrow> u64 \<Rightarrow> u8 list \<Rightarrow> db_error + Channel" where
  "decodeChannelValue channelID channelType val =
     bind_res (readValueInt64 val) (\<lambda>(ban, rest).
       bind_res (readValueInt64 rest) (\<lambda>(disband, rest).
         bind_res (readValueInt64 rest) (\<lambda>(sendBan, rest).
           bind_res (readValueInt64 rest) (\<lambda>(allowStranger, rest).
             bind_res (readValueUint64 rest) (\<lambda>(version, rest).
               bind_res (readValueUint64 rest) (\<lambda>(subscriberCount, rest).
                 bind_res (readValueInt64 rest) (\<lambda>(large, rest).
                   if rest \<noteq> [] then Inl DBErrCorruptValue
                   else Inr \<lparr>cn_ChannelID = channelID, cn_ChannelType = channelType, cn_Ban = ban, cn_Disband = disband,
                             cn_SendBan = sendBan, cn_AllowStranger = allowStranger, cn_Large = large,
                             cn_SubscriberMutationVersion = version, cn_SubscriberCount = subscriberCount\<rparr>)))))))"

definition channelTable :: "Channel TableSpec" where
  "channelTable =
     \<lparr>ts_ID = TableIDChannel,
      ts_Primary = \<lparr>pm_IndexID = 1, pm_FamilyID = 0, pm_Layout = [KeyString, KeyInt64Ordered], pm_OmitFamilySuffix = False,
        pm_Key = \<lambda>channel. [PartString (cn_ChannelID channel), Int64Ordered (cn_ChannelType channel)]\<rparr>,
      ts_Indexes =
        [\<lparr>ix_ID = channelIDIndexID, ix_Unique = False, ix_Layout = [KeyString, KeyInt64Ordered], ix_DescriptorOnly = False,
          ix_PrimaryFromIndex = True, ix_PrimaryKeyFromIndexParts = None, ix_CorruptIndexKeyIsError = False, ix_StorePrimaryValue = True,
          ix_Key = \<lambda>channel. Some [PartString (cn_ChannelID channel), Int64Ordered (cn_ChannelType channel)]\<rparr>,
         \<lparr>ix_ID = channelActiveIndexID, ix_Unique = False, ix_Layout = [KeyInt64Ordered, KeyString], ix_DescriptorOnly = True,
          ix_PrimaryFromIndex = False, ix_PrimaryKeyFromIndexParts = None, ix_CorruptIndexKeyIsError = False, ix_StorePrimaryValue = False,
          ix_Key = \<lambda>channel. None\<rparr>],
      ts_Validate = validateChannel,
      ts_EncodeValue = \<lambda>k channel. Inr (encodeChannelValue channel),
      ts_DecodeValue = \<lambda>k primary val. decodeChannelValue (kp_S (primary ! 0)) (kp_I64 (primary ! 1)) val\<rparr>"

record Subscriber =
  sb_ChannelID :: "u8 list"
  sb_ChannelType :: u64
  sb_UID :: "u8 list"

definition subscriberPrimaryKey :: "u8 list \<Rightarrow> u64 \<Rightarrow> u8 list \<Rightarrow> KeyParts" where
  "subscriberPrimaryKey channelID channelType uid = [PartString channelID, Int64Ordered channelType, PartString uid]"

definition validateSubscriber :: "Subscriber \<Rightarrow> db_error option" where
  "validateSubscriber subscriber =
     (case validateKeyString (sb_ChannelID subscriber) of Some e \<Rightarrow> Some e | None \<Rightarrow> validateKeyString (sb_UID subscriber))"

definition subscriberTable :: "Subscriber TableSpec" where
  "subscriberTable =
     \<lparr>ts_ID = TableIDSubscriber,
      ts_Primary = \<lparr>pm_IndexID = 1, pm_FamilyID = 0, pm_Layout = [KeyString, KeyInt64Ordered, KeyString], pm_OmitFamilySuffix = False,
        pm_Key = \<lambda>subscriber. subscriberPrimaryKey (sb_ChannelID subscriber) (sb_ChannelType subscriber) (sb_UID subscriber)\<rparr>,
      ts_Indexes = [],
      ts_Validate = validateSubscriber,
      ts_EncodeValue = \<lambda>k subscriber. Inr [],
      ts_DecodeValue = \<lambda>k primary val.
        Inr \<lparr>sb_ChannelID = kp_S (primary ! 0), sb_ChannelType = kp_I64 (primary ! 1), sb_UID = kp_S (primary ! 2)\<rparr>\<rparr>"

section \<open>Conversations\<close>

definition validateConversationKind :: "ConversationKind \<Rightarrow> db_error option" where
  "validateConversationKind kind = (if kind = 0 then Some DBErrInvalidArgument else None)"

definition validateConversationUID :: "u8 list \<Rightarrow> db_error option" where
  "validateConversationUID uid = validateKeyString uid"

definition validateConversationKey :: "ConversationKey \<Rightarrow> db_error option" where
  "validateConversationKey k = validateKeyString (ck_ChannelID k)"

definition first_error :: "db_error option list \<Rightarrow> db_error option" where
  "first_error checks = (case filter (\<lambda>c. c \<noteq> None) checks of [] \<Rightarrow> None | c # _ \<Rightarrow> c)"

definition validateConversationState :: "ConversationState \<Rightarrow> db_error option" where
  "validateConversationState state =
     first_error [validateConversationKind (st_Kind state), validateConversationUID (st_UID state),
       validateConversationKey \<lparr>ck_ChannelID = st_ChannelID state, ck_ChannelType = st_ChannelType state\<rparr>]"

definition validateConversationDelete :: "ConversationDelete \<Rightarrow> db_error option" where
  "validateConversationDelete req =
     first_error [validateConversationKind (cd_Kind req), validateConversationUID (cd_UID req),
       validateConversationKey \<lparr>ck_ChannelID = cd_ChannelID req, ck_ChannelType = cd_ChannelType req\<rparr>]"

definition validateConversationActivePatch :: "ConversationActivePatch \<Rightarrow> db_error option" where
  "validateConversationActivePatch patch =
     first_error [validateConversationKind (pa_Kind patch), validateConversationUID (pa_UID patch),
       validateConversationKey \<lparr>ck_ChannelID = pa_ChannelID patch, ck_ChannelType = pa_ChannelType patch\<rparr>]"

definition conversationPrimaryKeyParts :: "ConversationKind \<Rightarrow> u8 list \<Rightarrow> u8 list \<Rightarrow> u64 \<Rightarrow> KeyParts" where
  "conversationPrimaryKeyParts kind uid channelID channelType =
     [PartString uid, Uint64 (ucast kind), PartString channelID, Int64Ordered channelType]"

definition conversationPrimaryPrefixParts :: "ConversationKind \<Rightarrow> u8 list \<Rightarrow> KeyParts" where
  "conversationPrimaryPrefixParts kind uid = [PartString uid, Uint64 (ucast kind)]"

definition conversationActivePrefixParts :: "ConversationKind \<Rightarrow> u8 list \<Rightarrow> KeyParts" where
  "conversationActivePrefixParts kind uid = [PartString uid, Uint64 (ucast kind)]"

definition conversationPrimaryFromActiveIndexParts :: "KeyParts \<Rightarrow> KeyParts option" where
  "conversationPrimaryFromActiveIndexParts parts =
     (if length parts \<noteq> 5 then None else Some [parts ! 0, parts ! 1, parts ! 3, parts ! 4])"

definition encodeConversationValue :: "u64 \<Rightarrow> u64 \<Rightarrow> u64 \<Rightarrow> u64 \<Rightarrow> u8 list" where
  "encodeConversationValue readSeq deletedToSeq activeAt updatedAt =
     (let val = appendValueUint64 [] readSeq;
          val = appendValueUint64 val deletedToSeq;
          val = appendValueInt64 val activeAt
      in appendValueInt64 val updatedAt)"

definition encodeConversationStateValue :: "ConversationState \<Rightarrow> u8 list" where
  "encodeConversationStateValue state =
     (let val = encodeConversationValue (st_ReadSeq state) (st_DeletedToSeq state) (st_ActiveAt state) (st_UpdatedAt state)
      in if st_SparseActive state then val @ [1] else val @ [0])"

definition decodeConversationValueFields :: "u8 list \<Rightarrow> db_error + (u64 \<times> u64 \<times> u64 \<times> u64 \<times> u8 list)" where
  "decodeConversationValueFields val =
     bind_res (readValueUint64 val) (\<lambda>(readSeq, rest).
       bind_res (readValueUint64 rest) (\<lambda>(deletedToSeq, rest).
         bind_res (readValueInt64 rest) (\<lambda>(activeAt, rest).
           bind_res (readValueInt64 rest) (\<lambda>(updatedAt, rest).
             Inr (readSeq, deletedToSeq, activeAt, updatedAt, rest)))))"

definition decodeConversationStateValueFields :: "u8 list \<Rightarrow> db_error + (u64 \<times> u64 \<times> u64 \<times> u64 \<times> bool)" where
  "decodeConversationStateValueFields val =
     bind_res (decodeConversationValueFields val) (\<lambda>(readSeq, deletedToSeq, activeAt, updatedAt, rest).
       if rest = [] then Inr (readSeq, deletedToSeq, activeAt, updatedAt, False)
       else if length rest \<noteq> 1 then Inl DBErrCorruptValue
       else if hd rest = 0 then Inr (readSeq, deletedToSeq, activeAt, updatedAt, False)
       else if hd rest = 1 then Inr (readSeq, deletedToSeq, activeAt, updatedAt, True)
       else Inl DBErrCorruptValue)"

definition decodeConversationStateValue ::
  "u8 list \<Rightarrow> ConversationKind \<Rightarrow> u8 list \<Rightarrow> u64 \<Rightarrow> u8 list \<Rightarrow> db_error + ConversationState" where
  "decodeConversationStateValue uid kind channelID channelType val =
     bind_res (decodeConversationStateValueFields val) (\<lambda>(readSeq, deletedToSeq, activeAt, updatedAt, sparseActive).
       Inr \<lparr>st_UID = uid, st_Kind = kind, st_ChannelID = channelID, st_ChannelType = channelType, st_ReadSeq = readSeq,
            st_DeletedToSeq = deletedToSeq, st_ActiveAt = activeAt, st_UpdatedAt = updatedAt, st_SparseActive = sparseActive\<rparr>)"

definition conversationTable :: "ConversationState TableSpec" where
  "conversationTable =
     \<lparr>ts_ID = TableIDConversation,
      ts_Primary = \<lparr>pm_IndexID = 1, pm_FamilyID = 0, pm_Layout = [KeyString, KeyUint64, KeyString, KeyInt64Ordered],
        pm_OmitFamilySuffix = False,
        pm_Key = \<lambda>state. [PartString (st_UID state), Uint64 (ucast (st_Kind state)), PartString (st_ChannelID state),
                          Int64Ordered (st_ChannelType state)]\<rparr>,
      ts_Indexes =
        [\<lparr>ix_ID = conversationActiveIndexID, ix_Unique = False,
          ix_Layout = [KeyString, KeyUint64, KeyInt64Desc, KeyString, KeyInt64Ordered], ix_DescriptorOnly = False,
          ix_PrimaryFromIndex = False, ix_PrimaryKeyFromIndexParts = Some conversationPrimaryFromActiveIndexParts,
          ix_CorruptIndexKeyIsError = True, ix_StorePrimaryValue = False,
          ix_Key = \<lambda>state. if sint (st_ActiveAt state) \<le> 0 then None
            else Some [PartString (st_UID state), Uint64 (ucast (st_Kind state)), Int64Desc (st_ActiveAt state),
                       PartString (st_ChannelID state), Int64Ordered (st_ChannelType state)]\<rparr>],
      ts_Validate = validateConversationState,
      ts_EncodeValue = \<lambda>k state. Inr (encodeConversationStateValue state),
      ts_DecodeValue = \<lambda>k primary val.
        decodeConversationStateValue (kp_S (primary ! 0)) (ucast (kp_U64 (primary ! 1))) (kp_S (primary ! 2)) (kp_I64 (primary ! 3)) val\<rparr>"

section \<open>Memberships, latest messages and plugin bindings\<close>

definition userChannelMembershipPrimaryKey :: "u8 list \<Rightarrow> u8 list \<Rightarrow> u64 \<Rightarrow> KeyParts" where
  "userChannelMembershipPrimaryKey uid channelID channelType = [PartString uid, PartString channelID, Int64Ordered channelType]"

definition validateUserChannelMembershipIdentity :: "u8 list \<Rightarrow> u8 list \<Rightarrow> u64 \<Rightarrow> db_error option" where
  "validateUserChannelMembershipIdentity uid channelID channelType =
     first_error [validateConversationUID uid, validateConversationKey \<lparr>ck_ChannelID = channelID, ck_ChannelType = channelType\<rparr>]"

definition validateUserChannelMembership :: "UserChannelMembership \<Rightarrow> db_error option" where
  "validateUserChannelMembership membership =
     validateUserChannelMembershipIdentity (um_UID membership) (um_ChannelID membership) (um_ChannelType membership)"

definition encodeUserChannelMembershipValue :: "UserChannelMembership \<Rightarrow> u8 list" where
  "encodeUserChannelMembershipValue membership =
     (let val = appendValueUint64 [] (um_JoinSeq membership) in appendValueInt64 val (um_UpdatedAt membership))"

definition decodeUserChannelMembershipValue :: "u8 list \<Rightarrow> u8 list \<Rightarrow> u64 \<Rightarrow> u8 list \<Rightarrow> db_error + UserChannelMembership" where
  "decodeUserChannelMembershipValue uid channelID channelType val =
     bind_res (readValueUint64 val) (\<lambda>(joinSeq, rest).
       bind_res (readValueInt64 rest) (\<lambda>(updatedAt, rest).
         if rest \<noteq> [] then Inl DBErrCorruptValue
         else Inr \<lparr>um_UID = uid, um_ChannelID = channelID, um_ChannelType = channelType, um_JoinSeq = joinSeq, um_UpdatedAt = updatedAt\<rparr>))"

definition userChannelMembershipTable :: "UserChannelMembership TableSpec" where
  "userChannelMembershipTable =
     \<lparr>ts_ID = TableIDUserChannelMembership,
      ts_Primary = \<lparr>pm_IndexID = 1, pm_FamilyID = 0, pm_Layout = [KeyString, KeyString, KeyInt64Ordered], pm_OmitFamilySuffix = False,
        pm_Key = \<lambda>m. userChannelMembershipPrimaryKey (um_UID m) (um_ChannelID m) (um_ChannelType m)\<rparr>,
      ts_Indexes = [],
      ts_Validate = validateUserChannelMembership,
      ts_EncodeValue = \<lambda>k m. Inr (encodeUserChannelMembershipValue m),
      ts_DecodeValue = \<lambda>k primary val.
        decodeUserChannelMembershipValue (kp_S (primary ! 0)) (kp_S (primary ! 1)) (kp_I64 (primary ! 2)) val\<rparr>"

definition channelLatestPrimaryKey :: "u8 list \<Rightarrow> u64 \<Rightarrow> KeyParts" where
  "channelLatestPrimaryKey channelID channelType = [PartString channelID, Int64Ordered channelType]"

definition validateChannelLatest :: "ChannelLatest \<Rightarrow> db_error option" where
  "validateChannelLatest latest = validateConversationKey \<lparr>ck_ChannelID = lt_ChannelID latest, ck_ChannelType = lt_ChannelType latest\<rparr>"

definition encodeChannelLatestValue :: "ChannelLatest \<Rightarrow> db_error + u8 list" where
  "encodeChannelLatestValue latest =
     (let val = appendValueUint64 [] (lt_LastMessageID latest);
          val = appendValueUint64 val (lt_LastMessageSeq latest);
          val = appendValueInt64 val (lt_LastAt latest)
      in bind_res (appendValueString val (lt_FromUID latest)) (\<lambda>val.
           bind_res (appendValueString val (lt_ClientMsgNo latest)) (\<lambda>val.
             let val = appendValueBytes val (lt_Payload latest) in Inr (appendValueInt64 val (lt_UpdatedAt latest)))))"

definition decodeChannelLatestValue :: "u8 list \<Rightarrow> u64 \<Rightarrow> u8 list \<Rightarrow> db_error + ChannelLatest" where
  "decodeChannelLatestValue channelID channelType val =
     bind_res (readValueUint64 val) (\<lambda>(lastMessageID, rest).
       bind_res (readValueUint64 rest) (\<lambda>(lastMessageSeq, rest).
         bind_res (readValueInt64 rest) (\<lambda>(lastAt, rest).
           bind_res (readValueString rest) (\<lambda>(fromUID, rest).
             bind_res (readValueString rest) (\<lambda>(clientMsgNo, rest).
               bind_res (readValueBytes rest) (\<lambda>(payload, rest).
                 bind_res (readValueInt64 rest) (\<lambda>(updatedAt, rest).
                   if rest \<noteq> [] then Inl DBErrCorruptValue
                   else Inr \<lparr>lt_ChannelID = channelID, lt_ChannelType = channelType, lt_LastMessageID = lastMessageID,
                             lt_LastMessageSeq = lastMessageSeq, lt_LastAt = lastAt, lt_FromUID = fromUID,
                             lt_ClientMsgNo = clientMsgNo, lt_Payload = payload, lt_UpdatedAt = updatedAt\<rparr>)))))))"

definition channelLatestTable :: "ChannelLatest TableSpec" where
  "channelLatestTable =
     \<lparr>ts_ID = TableIDChannelLatest,
      ts_Primary = \<lparr>pm_IndexID = 1, pm_FamilyID = 0, pm_Layout = [KeyString, KeyInt64Ordered], pm_OmitFamilySuffix = False,
        pm_Key = \<lambda>latest. channelLatestPrimaryKey (lt_ChannelID latest) (lt_ChannelType latest)\<rparr>,
      ts_Indexes = [],
      ts_Validate = validateChannelLatest,
      ts_EncodeValue = \<lambda>k latest. encodeChannelLatestValue latest,
      ts_DecodeValue = \<lambda>k primary val. decodeChannelLatestValue (kp_S (primary ! 0)) (kp_I64 (primary ! 1)) val\<rparr>"

definition validatePluginBindingUID :: "u8 list \<Rightarrow> db_error option" where
  "validatePluginBindingUID uid = validateKeyString uid"

definition validatePluginBindingPluginNo :: "u8 list \<Rightarrow> db_error option" where
  "validatePluginBindingPluginNo pluginNo = validateKeyString pluginNo"

definition validatePluginUserBindingIdentity :: "u8 list \<Rightarrow> u8 list \<Rightarrow> db_error option" where
  "validatePluginUserBindingIdentity uid pluginNo = first_error [validatePluginBindingUID uid, validatePluginBindingPluginNo pluginNo]"

definition validatePluginUserBinding :: "PluginUserBinding \<Rightarrow> db_error option" where
  "validatePluginUserBinding binding =
     first_error [validatePluginUserBindingIdentity (pb_UID binding) (pb_PluginNo binding),
       if sint (pb_UpdatedAtMS binding) < sint (pb_CreatedAtMS binding) then Some DBErrInvalidArgument else None]"

definition encodePluginUserBindingValue :: "PluginUserBinding \<Rightarrow> u8 list" where
  "encodePluginUserBindingValue binding =
     (let val = appendValueInt64 [] (pb_CreatedAtMS binding) in appendValueInt64 val (pb_UpdatedAtMS binding))"

definition decodePluginUserBindingValue :: "u8 list \<Rightarrow> u8 list \<Rightarrow> u8 list \<Rightarrow> db_error + PluginUserBinding" where
  "decodePluginUserBindingValue uid pluginNo val =
     bind_res (readValueInt64 val) (\<lambda>(createdAt, rest).
       bind_res (readValueInt64 rest) (\<lambda>(updatedAt, rest).
         if rest \<noteq> [] then Inl DBErrCorruptValue
         else Inr \<lparr>pb_UID = uid, pb_PluginNo = pluginNo, pb_CreatedAtMS = createdAt, pb_UpdatedAtMS = updatedAt\<rparr>))"

definition pluginBindingTable :: "PluginUserBinding TableSpec" where
  "pluginBindingTable =
     \<lparr>ts_ID = TableIDPluginBinding,
      ts_Primary = \<lparr>pm_IndexID = 1, pm_FamilyID = 0, pm_Layout = [KeyString, KeyString], pm_OmitFamilySuffix = False,
        pm_Key = \<lambda>binding. [PartString (pb_UID binding), PartString (pb_PluginNo binding)]\<rparr>,
      ts_Indexes =
        [\<lparr>ix_ID = pluginBindingPluginIndexID, ix_Unique = False, ix_Layout = [KeyString, KeyString], ix_DescriptorOnly = False,
          ix_PrimaryFromIndex = False, ix_PrimaryKeyFromIndexParts = None, ix_CorruptIndexKeyIsError = False, ix_StorePrimaryValue = False,
          ix_Key = \<lambda>binding. Some [PartString (pb_PluginNo binding), PartString (pb_UID binding)]\<rparr>],
      ts_Validate = validatePluginUserBinding,
      ts_EncodeValue = \<lambda>k binding. Inr (encodePluginUserBindingValue binding),
      ts_DecodeValue = \<lambda>k primary val. decodePluginUserBindingValue (kp_S (primary ! 0)) (kp_S (primary ! 1)) val\<rparr>"

end
