(* ===== verification/MetaShard.thy ===== *)
theory MetaShard
  imports MetaTables
begin

text \<open>
  The operations of a hash slot on its tables (\<open>pkg/db/meta/table_*.go\<close>, methods of \<open>Shard\<close>). The state is that of the engine; the
  channel operations also see the cache of channels of \<open>db.go\<close>. Each operation is one step under the lock of its hash slot.
\<close>

section \<open>Users and devices\<close>

definition CreateUser :: "'db Engine \<Rightarrow> 'db \<Rightarrow> HashSlot \<Rightarrow> User \<Rightarrow> db_error + 'db" where
  "CreateUser eng d hs user = table_write userTable eng d hs user tableWriteCreate"

definition UpsertUser :: "'db Engine \<Rightarrow> 'db \<Rightarrow> HashSlot \<Rightarrow> User \<Rightarrow> db_error + 'db" where
  "UpsertUser eng d hs user = table_write userTable eng d hs user tableWriteUpsert"

definition UpdateUser :: "'db Engine \<Rightarrow> 'db \<Rightarrow> HashSlot \<Rightarrow> User \<Rightarrow> db_error + 'db" where
  "UpdateUser eng d hs user = table_write userTable eng d hs user tableWriteUpdate"

definition GetUser :: "'db Engine \<Rightarrow> 'db \<Rightarrow> HashSlot \<Rightarrow> u8 list \<Rightarrow> db_error + User option" where
  "GetUser eng d hs uid = bind_res (check_error (validateKeyString uid)) (\<lambda>_. table_Get userTable eng d hs [PartString uid])"

definition DeleteUser :: "'db Engine \<Rightarrow> 'db \<Rightarrow> HashSlot \<Rightarrow> u8 list \<Rightarrow> db_error + 'db" where
  "DeleteUser eng d hs uid = bind_res (check_error (validateKeyString uid)) (\<lambda>_. table_Delete userTable eng d hs [PartString uid])"

definition ListUsersPage :: "'db Engine \<Rightarrow> 'db \<Rightarrow> HashSlot \<Rightarrow> u8 list \<Rightarrow> int \<Rightarrow> db_error + (User list \<times> u8 list \<times> bool)" where
  "ListUsersPage eng d hs cursorUID limit =
     (if limit \<le> 0 then Inr ([], [], True)
      else
        bind_res (if cursorUID \<noteq> [] then bind_res (check_error (validateKeyString cursorUID)) (\<lambda>_. Inr [PartString cursorUID]) else Inr []) (\<lambda>after.
          bind_res (ScanPrimary userTable eng d hs after limit) (\<lambda>(users, cursor, finished).
            if finished \<or> cursor = [] then Inr (users, [], finished) else Inr (users, kp_S (cursor ! 0), finished))))"

definition UpsertDevice :: "'db Engine \<Rightarrow> 'db \<Rightarrow> HashSlot \<Rightarrow> Device \<Rightarrow> db_error + 'db" where
  "UpsertDevice eng d hs device = table_write deviceTable eng d hs device tableWriteUpsert"

definition GetDevice :: "'db Engine \<Rightarrow> 'db \<Rightarrow> HashSlot \<Rightarrow> u8 list \<Rightarrow> u64 \<Rightarrow> db_error + Device option" where
  "GetDevice eng d hs uid deviceFlag =
     bind_res (check_error (validateKeyString uid)) (\<lambda>_. table_Get deviceTable eng d hs [PartString uid, Int64Ordered deviceFlag])"

section \<open>Channels\<close>

record 'db MetaDB =
  md_engine :: 'db
  md_channelCache :: "(key \<times> Channel) list"

definition rememberChannel :: "'db MetaDB \<Rightarrow> key \<Rightarrow> Channel \<Rightarrow> 'db MetaDB" where
  "rememberChannel db cacheKey channel = db\<lparr>md_channelCache := AList.update cacheKey channel (md_channelCache db)\<rparr>"

definition cachedChannel :: "'db MetaDB \<Rightarrow> key \<Rightarrow> Channel option" where
  "cachedChannel db cacheKey = map_of (md_channelCache db) cacheKey"

definition forgetChannel :: "'db MetaDB \<Rightarrow> key \<Rightarrow> 'db MetaDB" where
  "forgetChannel db cacheKey = db\<lparr>md_channelCache := AList.delete cacheKey (md_channelCache db)\<rparr>"

definition clearChannelCache :: "'db MetaDB \<Rightarrow> 'db MetaDB" where
  "clearChannelCache db = db\<lparr>md_channelCache := []\<rparr>"

definition channelPrimaryFamilyID :: u16 where "channelPrimaryFamilyID = 0"

definition stageChannel :: "HashSlot \<Rightarrow> key \<Rightarrow> Channel \<Rightarrow> db_error + BatchOp list" where
  "stageChannel hs primaryKey channel =
     bind_res (table_primaryKey channelTable channel) (\<lambda>pk.
       bind_res (ts_EncodeValue channelTable primaryKey channel) (\<lambda>val.
         bind_res (stagePutIndexEntries channelTable hs channel pk val) (\<lambda>ops. Inr (OpSet primaryKey val # ops))))"

text \<open>A stored count of subscribers survives the write, unless the stored value is corrupt.\<close>

definition keep_count :: "tableWriteMode \<Rightarrow> u8 list option \<Rightarrow> Channel \<Rightarrow> db_error + Channel" where
  "keep_count mode stored channel =
     (case stored of
        Some existingValue \<Rightarrow>
          if mode = tableWriteCreate then Inr channel
          else (case decodeChannelValue (cn_ChannelID channel) (cn_ChannelType channel) existingValue of
                  Inl e \<Rightarrow> if e = DBErrCorruptValue then Inr channel else Inl e
                | Inr existing \<Rightarrow> Inr (channel\<lparr>cn_SubscriberCount := cn_SubscriberCount existing\<rparr>))
      | None \<Rightarrow> Inr channel)"

definition writeChannel :: "'db Engine \<Rightarrow> 'db \<Rightarrow> HashSlot \<Rightarrow> Channel \<Rightarrow> tableWriteMode \<Rightarrow> db_error + (key \<times> 'db)" where
  "writeChannel eng d hs channel mode =
     bind_res (check_error (validateChannel channel)) (\<lambda>_.
       bind_res (table_primaryKey channelTable channel) (\<lambda>pk.
         bind_res (primaryRowKey channelTable hs pk) (\<lambda>primaryKey.
           bind_res (check_mode mode (eg_Get eng d primaryKey \<noteq> None)) (\<lambda>_.
             bind_res (keep_count mode (eg_Get eng d primaryKey) channel) (\<lambda>channel.
               bind_res (stageChannel hs primaryKey channel) (\<lambda>ops.
                 bind_res (commit_batch eng d ops) (\<lambda>d'. Inr (primaryKey, d'))))))))"

definition put_channel :: "'db Engine \<Rightarrow> 'db MetaDB \<Rightarrow> HashSlot \<Rightarrow> Channel \<Rightarrow> tableWriteMode \<Rightarrow> db_error + 'db MetaDB" where
  "put_channel eng db hs channel mode =
     bind_res (writeChannel eng (md_engine db) hs channel mode) (\<lambda>(primaryKey, d').
       Inr (forgetChannel (db\<lparr>md_engine := d'\<rparr>) primaryKey))"

definition CreateChannel :: "'db Engine \<Rightarrow> 'db MetaDB \<Rightarrow> HashSlot \<Rightarrow> Channel \<Rightarrow> db_error + 'db MetaDB" where
  "CreateChannel eng db hs channel = put_channel eng db hs channel tableWriteCreate"

definition UpsertChannel :: "'db Engine \<Rightarrow> 'db MetaDB \<Rightarrow> HashSlot \<Rightarrow> Channel \<Rightarrow> db_error + 'db MetaDB" where
  "UpsertChannel eng db hs channel = put_channel eng db hs channel tableWriteUpsert"

definition UpdateChannel :: "'db Engine \<Rightarrow> 'db MetaDB \<Rightarrow> HashSlot \<Rightarrow> Channel \<Rightarrow> db_error + 'db MetaDB" where
  "UpdateChannel eng db hs channel = put_channel eng db hs channel tableWriteUpdate"

definition GetChannel :: "'db Engine \<Rightarrow> 'db MetaDB \<Rightarrow> HashSlot \<Rightarrow> u8 list \<Rightarrow> u64 \<Rightarrow> db_error + ('db MetaDB \<times> Channel option)" where
  "GetChannel eng db hs channelID channelType =
     bind_res (check_error (validateKeyString channelID)) (\<lambda>_.
       bind_res (key_or_panic (encodeChannelRowKey hs channelID channelType channelPrimaryFamilyID)) (\<lambda>primaryKey.
         case cachedChannel db primaryKey of
           Some channel \<Rightarrow> Inr (db, Some channel)
         | None \<Rightarrow>
             bind_res (table_Get channelTable eng (md_engine db) hs [PartString channelID, Int64Ordered channelType]) (\<lambda>r.
               case r of None \<Rightarrow> Inr (db, None) | Some channel \<Rightarrow> Inr (rememberChannel db primaryKey channel, Some channel))))"

definition DeleteChannel :: "'db Engine \<Rightarrow> 'db MetaDB \<Rightarrow> HashSlot \<Rightarrow> u8 list \<Rightarrow> u64 \<Rightarrow> db_error + 'db MetaDB" where
  "DeleteChannel eng db hs channelID channelType =
     bind_res (check_error (validateKeyString channelID)) (\<lambda>_.
       bind_res (key_or_panic (encodeChannelRowKey hs channelID channelType channelPrimaryFamilyID)) (\<lambda>primaryKey.
         bind_res (table_Delete channelTable eng (md_engine db) hs [PartString channelID, Int64Ordered channelType]) (\<lambda>d'.
           Inr (forgetChannel (db\<lparr>md_engine := d'\<rparr>) primaryKey))))"

definition ListChannelsByChannelID :: "'db Engine \<Rightarrow> 'db \<Rightarrow> HashSlot \<Rightarrow> u8 list \<Rightarrow> db_error + Channel list" where
  "ListChannelsByChannelID eng d hs channelID =
     bind_res (check_error (validateKeyString channelID)) (\<lambda>_. ScanIndexAll channelTable eng d hs channelIDIndexID [PartString channelID])"

section \<open>Subscribers\<close>

fun collect_uids :: "u8 list list \<Rightarrow> u8 list list \<Rightarrow> db_error + u8 list list" where
  "collect_uids seen [] = Inr []"
| "collect_uids seen (uid # uids) =
     bind_res (check_error (validateKeyString uid)) (\<lambda>_.
       if List.member seen uid then collect_uids seen uids
       else bind_res (collect_uids (uid # seen) uids) (\<lambda>rest. Inr (uid # rest)))"

definition normalizeSubscriberUIDs :: "u8 list list \<Rightarrow> db_error + u8 list list" where
  "normalizeSubscriberUIDs uids =
     (if uids = [] then Inr [] else bind_res (collect_uids [] uids) (\<lambda>uids. Inr (sort_by (<) uids)))"

definition subscriberRowKey :: "HashSlot \<Rightarrow> u8 list \<Rightarrow> u64 \<Rightarrow> u8 list \<Rightarrow> db_error + key" where
  "subscriberRowKey hs channelID channelType uid = primaryRowKey subscriberTable hs (subscriberPrimaryKey channelID channelType uid)"

text \<open>The loop over the uids: the operations it stages and the channel with its new count.\<close>

fun mutate_uids ::
  "'db Engine \<Rightarrow> 'db \<Rightarrow> HashSlot \<Rightarrow> bool \<Rightarrow> Channel \<Rightarrow> u8 list list \<Rightarrow> db_error + (BatchOp list \<times> Channel)" where
  "mutate_uids eng d hs add channel [] = Inr ([], channel)"
| "mutate_uids eng d hs add channel (uid # uids) =
     bind_res (subscriberRowKey hs (cn_ChannelID channel) (cn_ChannelType channel) uid) (\<lambda>k.
       let exists = (eg_Get eng d k \<noteq> None);
           channel = (if add then if \<not> exists then channel\<lparr>cn_SubscriberCount := cn_SubscriberCount channel + 1\<rparr> else channel
                      else if exists \<and> 0 < cn_SubscriberCount channel then channel\<lparr>cn_SubscriberCount := cn_SubscriberCount channel - 1\<rparr>
                      else channel)
       in bind_res (mutate_uids eng d hs add channel uids) (\<lambda>(ops, channel).
            Inr ((if add then OpSet k [] else OpDelete k) # ops, channel)))"

definition mutateSubscribers ::
  "'db Engine \<Rightarrow> 'db MetaDB \<Rightarrow> HashSlot \<Rightarrow> u8 list \<Rightarrow> u64 \<Rightarrow> u8 list list \<Rightarrow> u64 \<Rightarrow> bool \<Rightarrow> db_error + 'db MetaDB" where
  "mutateSubscribers eng db hs channelID channelType uids mutationVersion add =
     bind_res (check_error (validateKeyString channelID)) (\<lambda>_.
       bind_res (normalizeSubscriberUIDs uids) (\<lambda>normalized.
         bind_res (key_or_panic (encodeChannelRowKey hs channelID channelType channelPrimaryFamilyID)) (\<lambda>primaryKey.
           case eg_Get eng (md_engine db) primaryKey of
             None \<Rightarrow> Inl DBErrNotFound
           | Some val \<Rightarrow>
               bind_res (decodeChannelValue channelID channelType val) (\<lambda>channel.
                 let channel = (if cn_SubscriberMutationVersion channel < mutationVersion
                                then channel\<lparr>cn_SubscriberMutationVersion := mutationVersion\<rparr> else channel)
                 in bind_res (mutate_uids eng (md_engine db) hs add channel normalized) (\<lambda>(ops, channel).
                      bind_res (stageChannel hs primaryKey channel) (\<lambda>put.
                        bind_res (commit_batch eng (md_engine db) (ops @ put)) (\<lambda>d'.
                          Inr (forgetChannel (db\<lparr>md_engine := d'\<rparr>) primaryKey))))))))"

definition AddSubscribers ::
  "'db Engine \<Rightarrow> 'db MetaDB \<Rightarrow> HashSlot \<Rightarrow> u8 list \<Rightarrow> u64 \<Rightarrow> u8 list list \<Rightarrow> u64 \<Rightarrow> db_error + 'db MetaDB" where
  "AddSubscribers eng db hs channelID channelType uids mutationVersion =
     mutateSubscribers eng db hs channelID channelType uids mutationVersion True"

definition RemoveSubscribers ::
  "'db Engine \<Rightarrow> 'db MetaDB \<Rightarrow> HashSlot \<Rightarrow> u8 list \<Rightarrow> u64 \<Rightarrow> u8 list list \<Rightarrow> u64 \<Rightarrow> db_error + 'db MetaDB" where
  "RemoveSubscribers eng db hs channelID channelType uids mutationVersion =
     mutateSubscribers eng db hs channelID channelType uids mutationVersion False"

definition ContainsSubscriber :: "'db Engine \<Rightarrow> 'db \<Rightarrow> HashSlot \<Rightarrow> u8 list \<Rightarrow> u64 \<Rightarrow> u8 list \<Rightarrow> db_error + bool" where
  "ContainsSubscriber eng d hs channelID channelType uid =
     bind_res (check_error (validateKeyString channelID)) (\<lambda>_.
       bind_res (check_error (validateKeyString uid)) (\<lambda>_.
         bind_res (table_Get subscriberTable eng d hs (subscriberPrimaryKey channelID channelType uid)) (\<lambda>r. Inr (r \<noteq> None))))"

definition ListSubscribersPage ::
  "'db Engine \<Rightarrow> 'db \<Rightarrow> HashSlot \<Rightarrow> u8 list \<Rightarrow> u64 \<Rightarrow> u8 list \<Rightarrow> int \<Rightarrow> db_error + (u8 list list \<times> u8 list \<times> bool)" where
  "ListSubscribersPage eng d hs channelID channelType cursorUID limit =
     bind_res (check_error (validateKeyString channelID)) (\<lambda>_.
       if limit \<le> 0 then Inr ([], [], True)
       else
         let after = (if cursorUID \<noteq> [] then subscriberPrimaryKey channelID channelType cursorUID else [])
         in bind_res (scanPrimaryPrefixRows subscriberTable eng d hs [PartString channelID, Int64Ordered channelType] after limit)
              (\<lambda>(rows, next, finished).
                let uids = map sb_UID rows
                in if finished \<or> length next < 3 then Inr (uids, [], finished) else Inr (uids, kp_S (next ! 2), finished)))"

definition HasSubscribers :: "'db Engine \<Rightarrow> 'db \<Rightarrow> HashSlot \<Rightarrow> u8 list \<Rightarrow> u64 \<Rightarrow> db_error + bool" where
  "HasSubscribers eng d hs channelID channelType =
     bind_res (ListSubscribersPage eng d hs channelID channelType [] 1) (\<lambda>(list, _, _). Inr (0 < length list))"

text \<open>The loop of \<open>SnapshotSubscribers\<close> may run forever: then its value is \<open>None\<close>.\<close>

partial_function (option) snapshot_loop ::
  "'db Engine \<Rightarrow> 'db \<Rightarrow> HashSlot \<Rightarrow> u8 list \<Rightarrow> u64 \<Rightarrow> u8 list list \<Rightarrow> u8 list \<Rightarrow> (db_error + u8 list list) option" where
  "snapshot_loop eng d hs channelID channelType out cursor =
     (case ListSubscribersPage eng d hs channelID channelType cursor 256 of
        Inl e \<Rightarrow> Some (Inl e)
      | Inr (page, next, finished) \<Rightarrow>
          if finished then Some (Inr (out @ page)) else snapshot_loop eng d hs channelID channelType (out @ page) next)"

definition SnapshotSubscribers :: "'db Engine \<Rightarrow> 'db \<Rightarrow> HashSlot \<Rightarrow> u8 list \<Rightarrow> u64 \<Rightarrow> (db_error + u8 list list) option" where
  "SnapshotSubscribers eng d hs channelID channelType = snapshot_loop eng d hs channelID channelType [] []"

section \<open>Memberships and latest messages\<close>

definition GetUserChannelMembership :: "'db Engine \<Rightarrow> 'db \<Rightarrow> HashSlot \<Rightarrow> u8 list \<Rightarrow> u8 list \<Rightarrow> u64 \<Rightarrow> db_error + UserChannelMembership option" where
  "GetUserChannelMembership eng d hs uid channelID channelType =
     bind_res (check_error (validateUserChannelMembershipIdentity uid channelID channelType)) (\<lambda>_.
       table_Get userChannelMembershipTable eng d hs (userChannelMembershipPrimaryKey uid channelID channelType))"

definition UpsertUserChannelMembership :: "'db Engine \<Rightarrow> 'db \<Rightarrow> HashSlot \<Rightarrow> UserChannelMembership \<Rightarrow> db_error + 'db" where
  "UpsertUserChannelMembership eng d hs membership =
     bind_res (check_error (validateUserChannelMembership membership)) (\<lambda>_.
       let pk = userChannelMembershipPrimaryKey (um_UID membership) (um_ChannelID membership) (um_ChannelType membership)
       in bind_res (primaryRowKey userChannelMembershipTable hs pk) (\<lambda>primaryKey.
            bind_res (getByPrimaryKey userChannelMembershipTable eng d hs pk) (\<lambda>stored.
              commit_batch eng d [OpSet primaryKey (encodeUserChannelMembershipValue (resolveUserChannelMembership stored membership))])))"

definition DeleteUserChannelMembership :: "'db Engine \<Rightarrow> 'db \<Rightarrow> HashSlot \<Rightarrow> u8 list \<Rightarrow> ConversationKey \<Rightarrow> db_error + 'db" where
  "DeleteUserChannelMembership eng d hs uid k =
     bind_res (check_error (validateUserChannelMembershipIdentity uid (ck_ChannelID k) (ck_ChannelType k))) (\<lambda>_.
       table_Delete userChannelMembershipTable eng d hs (userChannelMembershipPrimaryKey uid (ck_ChannelID k) (ck_ChannelType k)))"

text \<open>Cursors of pages: the zero cursor starts a scan.\<close>

definition zero_key :: ConversationKey where "zero_key = \<lparr>ck_ChannelID = [], ck_ChannelType = 0\<rparr>"

definition validate_cursor :: "ConversationKey \<Rightarrow> db_error option" where
  "validate_cursor cursor =
     (if cursor = zero_key then None else if ck_ChannelID cursor = [] then Some DBErrInvalidArgument else validateConversationKey cursor)"

definition validateConversationLimit :: "int \<Rightarrow> db_error option" where
  "validateConversationLimit limit = (if limit \<le> 0 then Some DBErrInvalidArgument else None)"

definition ListUserChannelMembershipPage ::
  "'db Engine \<Rightarrow> 'db \<Rightarrow> HashSlot \<Rightarrow> u8 list \<Rightarrow> ConversationKey \<Rightarrow> int \<Rightarrow> db_error + (UserChannelMembership list \<times> ConversationKey \<times> bool)" where
  "ListUserChannelMembershipPage eng d hs uid cursor limit =
     bind_res (check_error (first_error [validateConversationUID uid, validate_cursor cursor, validateConversationLimit limit])) (\<lambda>_.
       let after = (if cursor \<noteq> zero_key then userChannelMembershipPrimaryKey uid (ck_ChannelID cursor) (ck_ChannelType cursor) else [])
       in bind_res (scanPrimaryPrefixStrict userChannelMembershipTable eng d hs [PartString uid] after limit) (\<lambda>(rows, next, finished).
            let nextCursor =
                  (if 3 \<le> length next then \<lparr>ck_ChannelID = kp_S (next ! 1), ck_ChannelType = kp_I64 (next ! 2)\<rparr>
                   else if rows \<noteq> [] then \<lparr>ck_ChannelID = um_ChannelID (last rows), ck_ChannelType = um_ChannelType (last rows)\<rparr>
                   else cursor)
            in Inr (rows, nextCursor, finished)))"

definition GetChannelLatest :: "'db Engine \<Rightarrow> 'db \<Rightarrow> HashSlot \<Rightarrow> u8 list \<Rightarrow> u64 \<Rightarrow> db_error + ChannelLatest option" where
  "GetChannelLatest eng d hs channelID channelType =
     bind_res (check_error (validateConversationKey \<lparr>ck_ChannelID = channelID, ck_ChannelType = channelType\<rparr>)) (\<lambda>_.
       table_Get channelLatestTable eng d hs (channelLatestPrimaryKey channelID channelType))"

definition UpsertChannelLatest :: "'db Engine \<Rightarrow> 'db \<Rightarrow> HashSlot \<Rightarrow> ChannelLatest \<Rightarrow> db_error + 'db" where
  "UpsertChannelLatest eng d hs latest =
     bind_res (check_error (validateChannelLatest latest)) (\<lambda>_.
       let pk = channelLatestPrimaryKey (lt_ChannelID latest) (lt_ChannelType latest)
       in bind_res (primaryRowKey channelLatestTable hs pk) (\<lambda>primaryKey.
            bind_res (getByPrimaryKey channelLatestTable eng d hs pk) (\<lambda>stored.
              bind_res (encodeChannelLatestValue (resolveChannelLatest stored latest)) (\<lambda>val.
                commit_batch eng d [OpSet primaryKey val]))))"

section \<open>Plugin bindings\<close>

definition GetPluginUserBinding :: "'db Engine \<Rightarrow> 'db \<Rightarrow> HashSlot \<Rightarrow> u8 list \<Rightarrow> u8 list \<Rightarrow> db_error + PluginUserBinding option" where
  "GetPluginUserBinding eng d hs uid pluginNo =
     bind_res (check_error (validatePluginUserBindingIdentity uid pluginNo)) (\<lambda>_.
       table_Get pluginBindingTable eng d hs [PartString uid, PartString pluginNo])"

text \<open>\<open>seen\<close> is the binding that was read before the lock was taken.\<close>

definition bind_seen :: "'db Engine \<Rightarrow> 'db \<Rightarrow> HashSlot \<Rightarrow> PluginUserBinding option \<Rightarrow> PluginUserBinding \<Rightarrow> db_error + 'db" where
  "bind_seen eng d hs seen binding = table_write pluginBindingTable eng d hs (merge_binding seen binding) tableWriteUpsert"

definition BindPluginUser :: "'db Engine \<Rightarrow> 'db \<Rightarrow> HashSlot \<Rightarrow> PluginUserBinding \<Rightarrow> db_error + 'db" where
  "BindPluginUser eng d hs binding =
     bind_res (check_error (validatePluginUserBinding binding)) (\<lambda>_.
       bind_res (GetPluginUserBinding eng d hs (pb_UID binding) (pb_PluginNo binding)) (\<lambda>seen. bind_seen eng d hs seen binding))"

definition UnbindPluginUser :: "'db Engine \<Rightarrow> 'db \<Rightarrow> HashSlot \<Rightarrow> u8 list \<Rightarrow> u8 list \<Rightarrow> db_error + 'db" where
  "UnbindPluginUser eng d hs uid pluginNo =
     bind_res (check_error (validatePluginUserBindingIdentity uid pluginNo)) (\<lambda>_.
       table_Delete pluginBindingTable eng d hs [PartString uid, PartString pluginNo])"

definition ListPluginBindingsByUID :: "'db Engine \<Rightarrow> 'db \<Rightarrow> HashSlot \<Rightarrow> u8 list \<Rightarrow> db_error + PluginUserBinding list" where
  "ListPluginBindingsByUID eng d hs uid =
     bind_res (check_error (validatePluginBindingUID uid)) (\<lambda>_.
       bind_res (ScanPrimaryPrefix pluginBindingTable eng d hs [PartString uid] [] 0) (\<lambda>(rows, _). Inr rows))"

definition ExistPluginBindingByUID :: "'db Engine \<Rightarrow> 'db \<Rightarrow> HashSlot \<Rightarrow> u8 list \<Rightarrow> db_error + bool" where
  "ExistPluginBindingByUID eng d hs uid =
     bind_res (check_error (validatePluginBindingUID uid)) (\<lambda>_.
       bind_res (ScanPrimaryPrefix pluginBindingTable eng d hs [PartString uid] [] 1) (\<lambda>(rows, _). Inr (0 < length rows)))"

record PluginUserBindingCursor =
  pc_PluginNo :: "u8 list"
  pc_UID :: "u8 list"

definition validatePluginUserBindingCursor :: "u8 list \<Rightarrow> PluginUserBindingCursor \<Rightarrow> db_error option" where
  "validatePluginUserBindingCursor pluginNo cursor =
     (if cursor = \<lparr>pc_PluginNo = [], pc_UID = []\<rparr> then None
      else if pc_PluginNo cursor \<noteq> pluginNo \<or> pc_UID cursor = [] then Some DBErrInvalidArgument
      else validatePluginBindingUID (pc_UID cursor))"

definition pluginBindingToCursor :: "PluginUserBinding \<Rightarrow> PluginUserBindingCursor" where
  "pluginBindingToCursor binding = \<lparr>pc_PluginNo = pb_PluginNo binding, pc_UID = pb_UID binding\<rparr>"

definition ScanPluginBindingsByPluginNo ::
  "'db Engine \<Rightarrow> 'db \<Rightarrow> HashSlot \<Rightarrow> u8 list \<Rightarrow> PluginUserBindingCursor \<Rightarrow> int
    \<Rightarrow> db_error + (PluginUserBinding list \<times> PluginUserBindingCursor \<times> bool)" where
  "ScanPluginBindingsByPluginNo eng d hs pluginNo cursor limit =
     bind_res (check_error (first_error [validatePluginBindingPluginNo pluginNo, validatePluginUserBindingCursor pluginNo cursor,
         if limit \<le> 0 then Some DBErrInvalidArgument else None])) (\<lambda>_.
       let after = (if pc_UID cursor \<noteq> [] then [PartString pluginNo, PartString (pc_UID cursor)] else [])
       in bind_res (ScanIndex pluginBindingTable eng d hs pluginBindingPluginIndexID [PartString pluginNo] after limit) (\<lambda>(rows, next, finished).
            let nextCursor =
                  (if 2 \<le> length next then \<lparr>pc_PluginNo = pluginNo, pc_UID = kp_S (next ! 1)\<rparr>
                   else if rows \<noteq> [] then pluginBindingToCursor (last rows) else cursor)
            in Inr (rows, nextCursor, finished)))"

end
