(* ===== verification/MetaConversation.thy ===== *)
theory MetaConversation
  imports MetaShard
begin

text \<open>
  Conversations and runtime metadata of a hash slot (\<open>pkg/db/meta/table_conversation.go\<close>, \<open>table_runtime_meta.go\<close>): the operations that
  read the stored row, merge it and write the result, and the column codec of runtime metadata.
\<close>

section \<open>Conversations\<close>

definition conversationPrimaryFamilyID :: u16 where "conversationPrimaryFamilyID = 0"

definition conversation_row_key :: "HashSlot \<Rightarrow> u8 list \<Rightarrow> ConversationKind \<Rightarrow> u8 list \<Rightarrow> u64 \<Rightarrow> db_error + key" where
  "conversation_row_key hs uid kind channelID channelType =
     key_or_panic (encodeConversationRowKey hs uid (ucast kind) channelID channelType conversationPrimaryFamilyID)"

definition GetConversationState ::
  "'db Engine \<Rightarrow> 'db \<Rightarrow> HashSlot \<Rightarrow> ConversationKind \<Rightarrow> u8 list \<Rightarrow> u8 list \<Rightarrow> u64 \<Rightarrow> db_error + ConversationState option" where
  "GetConversationState eng d hs kind uid channelID channelType =
     bind_res (check_error (first_error [validateConversationKind kind, validateConversationUID uid,
         validateConversationKey \<lparr>ck_ChannelID = channelID, ck_ChannelType = channelType\<rparr>])) (\<lambda>_.
       table_Get conversationTable eng d hs (conversationPrimaryKeyParts kind uid channelID channelType))"

text \<open>\<open>existing\<close> is \<open>None\<close> when no row is stored.\<close>

definition stageConversationState :: "HashSlot \<Rightarrow> key \<Rightarrow> ConversationState option \<Rightarrow> ConversationState \<Rightarrow> db_error + BatchOp list" where
  "stageConversationState hs primaryKey existing next =
     (let pk = conversationPrimaryKeyParts (st_Kind next) (st_UID next) (st_ChannelID next) (st_ChannelType next)
      in bind_res (case existing of Some old \<Rightarrow> stageDeleteIndexEntries conversationTable hs old pk | None \<Rightarrow> Inr []) (\<lambda>del.
           let val = encodeConversationStateValue next
           in bind_res (stagePutIndexEntries conversationTable hs next pk val) (\<lambda>put. Inr (del @ [OpSet primaryKey val] @ put))))"

definition UpsertConversationState :: "'db Engine \<Rightarrow> 'db \<Rightarrow> HashSlot \<Rightarrow> ConversationState \<Rightarrow> db_error + 'db" where
  "UpsertConversationState eng d hs state =
     bind_res (check_error (validateConversationState state)) (\<lambda>_.
       bind_res (conversation_row_key hs (st_UID state) (st_Kind state) (st_ChannelID state) (st_ChannelType state)) (\<lambda>primaryKey.
         bind_res (table_Get conversationTable eng d hs
             (conversationPrimaryKeyParts (st_Kind state) (st_UID state) (st_ChannelID state) (st_ChannelType state))) (\<lambda>existing.
           let state = (case existing of Some old \<Rightarrow> mergeConversationState old state | None \<Rightarrow> state)
           in bind_res (stageConversationState hs primaryKey existing state) (\<lambda>ops. commit_batch eng d ops))))"

definition TouchConversationActiveAt :: "'db Engine \<Rightarrow> 'db \<Rightarrow> HashSlot \<Rightarrow> ConversationActivePatch \<Rightarrow> db_error + 'db" where
  "TouchConversationActiveAt eng d hs patch =
     bind_res (check_error (validateConversationActivePatch patch)) (\<lambda>_.
       bind_res (conversation_row_key hs (pa_UID patch) (pa_Kind patch) (pa_ChannelID patch) (pa_ChannelType patch)) (\<lambda>primaryKey.
         bind_res (table_Get conversationTable eng d hs
             (conversationPrimaryKeyParts (pa_Kind patch) (pa_UID patch) (pa_ChannelID patch) (pa_ChannelType patch))) (\<lambda>existing.
           case touch_conversation existing patch of
             None \<Rightarrow> Inr d
           | Some next \<Rightarrow> bind_res (stageConversationState hs primaryKey existing next) (\<lambda>ops. commit_batch eng d ops))))"

definition HideConversation :: "'db Engine \<Rightarrow> 'db \<Rightarrow> HashSlot \<Rightarrow> ConversationDelete \<Rightarrow> db_error + 'db" where
  "HideConversation eng d hs req =
     bind_res (check_error (validateConversationDelete req)) (\<lambda>_.
       bind_res (conversation_row_key hs (cd_UID req) (cd_Kind req) (cd_ChannelID req) (cd_ChannelType req)) (\<lambda>primaryKey.
         bind_res (table_Get conversationTable eng d hs
             (conversationPrimaryKeyParts (cd_Kind req) (cd_UID req) (cd_ChannelID req) (cd_ChannelType req))) (\<lambda>existing.
           case hide_conversation existing req of
             None \<Rightarrow> Inr d
           | Some next \<Rightarrow> bind_res (stageConversationState hs primaryKey existing next) (\<lambda>ops. commit_batch eng d ops))))"

fun collect_conversation_keys :: "ConversationKey list \<Rightarrow> ConversationKey list \<Rightarrow> db_error + ConversationKey list" where
  "collect_conversation_keys seen [] = Inr []"
| "collect_conversation_keys seen (k # ks) =
     bind_res (check_error (validateConversationKey k)) (\<lambda>_.
       if List.member seen k then collect_conversation_keys seen ks
       else bind_res (collect_conversation_keys (k # seen) ks) (\<lambda>rest. Inr (k # rest)))"

definition conversation_key_less :: "ConversationKey \<Rightarrow> ConversationKey \<Rightarrow> bool" where
  "conversation_key_less a b \<longleftrightarrow>
     (if ck_ChannelID a \<noteq> ck_ChannelID b then ck_ChannelID a < ck_ChannelID b else sint (ck_ChannelType a) < sint (ck_ChannelType b))"

definition normalizeConversationKeys :: "ConversationKey list \<Rightarrow> db_error + ConversationKey list" where
  "normalizeConversationKeys ks =
     (if ks = [] then Inr [] else bind_res (collect_conversation_keys [] ks) (\<lambda>ks. Inr (sort_by conversation_key_less ks)))"

fun clear_keys ::
  "'db Engine \<Rightarrow> 'db \<Rightarrow> HashSlot \<Rightarrow> ConversationKind \<Rightarrow> u8 list \<Rightarrow> ConversationKey list \<Rightarrow> db_error + BatchOp list" where
  "clear_keys eng d hs kind uid [] = Inr []"
| "clear_keys eng d hs kind uid (k # ks) =
     bind_res (conversation_row_key hs uid kind (ck_ChannelID k) (ck_ChannelType k)) (\<lambda>primaryKey.
       bind_res (table_Get conversationTable eng d hs (conversationPrimaryKeyParts kind uid (ck_ChannelID k) (ck_ChannelType k))) (\<lambda>existing.
         bind_res (case clear_conversation existing of
                     None \<Rightarrow> Inr []
                   | Some next \<Rightarrow> stageConversationState hs primaryKey existing next) (\<lambda>ops.
           bind_res (clear_keys eng d hs kind uid ks) (\<lambda>rest. Inr (ops @ rest)))))"

definition ClearConversationActiveAt ::
  "'db Engine \<Rightarrow> 'db \<Rightarrow> HashSlot \<Rightarrow> ConversationKind \<Rightarrow> u8 list \<Rightarrow> ConversationKey list \<Rightarrow> db_error + 'db" where
  "ClearConversationActiveAt eng d hs kind uid ks =
     bind_res (check_error (first_error [validateConversationKind kind, validateConversationUID uid])) (\<lambda>_.
       bind_res (normalizeConversationKeys ks) (\<lambda>normalized.
         if normalized = [] then Inr d
         else bind_res (clear_keys eng d hs kind uid normalized) (\<lambda>ops. commit_batch eng d ops)))"

definition ListConversationActive ::
  "'db Engine \<Rightarrow> 'db \<Rightarrow> HashSlot \<Rightarrow> ConversationKind \<Rightarrow> u8 list \<Rightarrow> int \<Rightarrow> db_error + ConversationState list" where
  "ListConversationActive eng d hs kind uid limit =
     bind_res (check_error (first_error [validateConversationKind kind, validateConversationUID uid, validateConversationLimit limit])) (\<lambda>_.
       scanIndexRows conversationTable eng d hs conversationActiveIndexID (conversationActivePrefixParts kind uid) limit)"

record ConversationActiveCursor =
  cc_ActiveAt :: u64
  cc_ChannelID :: "u8 list"
  cc_ChannelType :: u64

definition zero_active_cursor :: ConversationActiveCursor where
  "zero_active_cursor = \<lparr>cc_ActiveAt = 0, cc_ChannelID = [], cc_ChannelType = 0\<rparr>"

definition validateConversationActiveCursor :: "ConversationActiveCursor \<Rightarrow> db_error option" where
  "validateConversationActiveCursor cursor =
     (if cursor = zero_active_cursor then None
      else if sint (cc_ActiveAt cursor) \<le> 0 \<or> cc_ChannelID cursor = [] then Some DBErrInvalidArgument
      else validateConversationKey \<lparr>ck_ChannelID = cc_ChannelID cursor, ck_ChannelType = cc_ChannelType cursor\<rparr>)"

definition ListConversationActivePage ::
  "'db Engine \<Rightarrow> 'db \<Rightarrow> HashSlot \<Rightarrow> ConversationKind \<Rightarrow> u8 list \<Rightarrow> ConversationActiveCursor \<Rightarrow> int
    \<Rightarrow> db_error + (ConversationState list \<times> ConversationActiveCursor \<times> bool)" where
  "ListConversationActivePage eng d hs kind uid cursor limit =
     bind_res (check_error (first_error [validateConversationKind kind, validateConversationUID uid,
         validateConversationActiveCursor cursor, validateConversationLimit limit])) (\<lambda>_.
       let after = (if cursor \<noteq> zero_active_cursor
                    then [PartString uid, Uint64 (ucast kind), Int64Desc (cc_ActiveAt cursor), PartString (cc_ChannelID cursor),
                          Int64Ordered (cc_ChannelType cursor)]
                    else [])
       in bind_res (ScanIndex conversationTable eng d hs conversationActiveIndexID (conversationActivePrefixParts kind uid) after limit)
            (\<lambda>(rows, next, finished).
              let nextCursor =
                    (if 5 \<le> length next
                     then \<lparr>cc_ActiveAt = kp_I64 (next ! 2), cc_ChannelID = kp_S (next ! 3), cc_ChannelType = kp_I64 (next ! 4)\<rparr>
                     else if rows \<noteq> []
                     then \<lparr>cc_ActiveAt = st_ActiveAt (last rows), cc_ChannelID = st_ChannelID (last rows),
                           cc_ChannelType = st_ChannelType (last rows)\<rparr>
                     else cursor)
              in Inr (rows, nextCursor, finished)))"

definition ListConversationStatePage ::
  "'db Engine \<Rightarrow> 'db \<Rightarrow> HashSlot \<Rightarrow> ConversationKind \<Rightarrow> u8 list \<Rightarrow> ConversationKey \<Rightarrow> int
    \<Rightarrow> db_error + (ConversationState list \<times> ConversationKey \<times> bool)" where
  "ListConversationStatePage eng d hs kind uid cursor limit =
     bind_res (check_error (first_error [validateConversationKind kind, validateConversationUID uid, validate_cursor cursor,
         validateConversationLimit limit])) (\<lambda>_.
       let after = (if cursor \<noteq> zero_key
                    then [PartString uid, Uint64 (ucast kind), PartString (ck_ChannelID cursor), Int64Ordered (ck_ChannelType cursor)]
                    else [])
       in bind_res (scanPrimaryPrefixStrict conversationTable eng d hs (conversationPrimaryPrefixParts kind uid) after limit)
            (\<lambda>(rows, next, finished).
              let nextCursor =
                    (if 4 \<le> length next then \<lparr>ck_ChannelID = kp_S (next ! 2), ck_ChannelType = kp_I64 (next ! 3)\<rparr>
                     else if rows \<noteq> [] then \<lparr>ck_ChannelID = st_ChannelID (last rows), ck_ChannelType = st_ChannelType (last rows)\<rparr>
                     else cursor)
              in Inr (rows, nextCursor, finished)))"

section \<open>The codec of runtime metadata\<close>

definition encodeUint64Slice :: "u64 list \<Rightarrow> u8 list" where
  "encodeUint64Slice values = foldl (\<lambda>out v. out @ put64 v) (appendUvarint [] (of_nat (length values))) values"

text \<open>
  The product \<open>count * 8\<close> wraps; a count that only fits after wrapping makes \<open>make\<close> panic. The loop is over the eight-byte groups.
\<close>

fun read_words :: "u8 list \<Rightarrow> u64 list" where
  "read_words (a # b # c # d # e # f # g # h # rest) = of_nat (be_val [a, b, c, d, e, f, g, h]) # read_words rest"
| "read_words _ = []"

definition decodeUint64Slice :: "u8 list \<Rightarrow> db_error + u64 list" where
  "decodeUint64Slice val =
     (case readUvarint val of
        None \<Rightarrow> Inl DBErrCorruptValue
      | Some (n, val) \<Rightarrow>
          if of_nat (length val) \<noteq> n * 8 then Inl DBErrCorruptValue
          else if 2 ^ 61 \<le> unat n then Inl DBPanic
          else Inr (read_words val))"

definition runtimeMetaValueVersion :: u8 where "runtimeMetaValueVersion = 1"

definition runtimeMetaColumnChannelEpoch :: u16 where "runtimeMetaColumnChannelEpoch = 1"
definition runtimeMetaColumnLeaderEpoch :: u16 where "runtimeMetaColumnLeaderEpoch = 2"
definition runtimeMetaColumnReplicas :: u16 where "runtimeMetaColumnReplicas = 3"
definition runtimeMetaColumnISR :: u16 where "runtimeMetaColumnISR = 4"
definition runtimeMetaColumnLeader :: u16 where "runtimeMetaColumnLeader = 5"
definition runtimeMetaColumnMinISR :: u16 where "runtimeMetaColumnMinISR = 6"
definition runtimeMetaColumnStatus :: u16 where "runtimeMetaColumnStatus = 7"
definition runtimeMetaColumnFeatures :: u16 where "runtimeMetaColumnFeatures = 8"
definition runtimeMetaColumnLeaseUntilMS :: u16 where "runtimeMetaColumnLeaseUntilMS = 9"
definition runtimeMetaColumnRetentionThroughSeq :: u16 where "runtimeMetaColumnRetentionThroughSeq = 10"
definition runtimeMetaColumnRetentionUpdatedAt :: u16 where "runtimeMetaColumnRetentionUpdatedAt = 11"
definition runtimeMetaColumnWriteFenceToken :: u16 where "runtimeMetaColumnWriteFenceToken = 12"
definition runtimeMetaColumnWriteFenceVersion :: u16 where "runtimeMetaColumnWriteFenceVersion = 13"
definition runtimeMetaColumnWriteFenceReason :: u16 where "runtimeMetaColumnWriteFenceReason = 14"
definition runtimeMetaColumnWriteFenceUntilMS :: u16 where "runtimeMetaColumnWriteFenceUntilMS = 15"
definition runtimeMetaColumnRouteGeneration :: u16 where "runtimeMetaColumnRouteGeneration = 16"

lemmas runtime_columns_ids = runtimeMetaColumnChannelEpoch_def runtimeMetaColumnLeaderEpoch_def runtimeMetaColumnReplicas_def
  runtimeMetaColumnISR_def runtimeMetaColumnLeader_def runtimeMetaColumnMinISR_def runtimeMetaColumnStatus_def
  runtimeMetaColumnFeatures_def runtimeMetaColumnLeaseUntilMS_def runtimeMetaColumnRetentionThroughSeq_def
  runtimeMetaColumnRetentionUpdatedAt_def runtimeMetaColumnWriteFenceToken_def runtimeMetaColumnWriteFenceVersion_def
  runtimeMetaColumnWriteFenceReason_def runtimeMetaColumnWriteFenceUntilMS_def runtimeMetaColumnRouteGeneration_def

definition runtime_writers :: "ChannelRuntimeMeta \<Rightarrow> (Writer \<Rightarrow> db_error + Writer) list" where
  "runtime_writers meta =
     [WriterUint64 runtimeMetaColumnChannelEpoch (rm_ChannelEpoch meta),
      WriterUint64 runtimeMetaColumnLeaderEpoch (rm_LeaderEpoch meta),
      WriterRawBytes runtimeMetaColumnReplicas (encodeUint64Slice (rm_Replicas meta)),
      WriterRawBytes runtimeMetaColumnISR (encodeUint64Slice (rm_ISR meta)),
      WriterUint64 runtimeMetaColumnLeader (rm_Leader meta),
      WriterInt64 runtimeMetaColumnMinISR (rm_MinISR meta),
      WriterUint8 runtimeMetaColumnStatus (rm_Status meta),
      WriterUint64 runtimeMetaColumnFeatures (rm_Features meta),
      WriterInt64 runtimeMetaColumnLeaseUntilMS (rm_LeaseUntilMS meta),
      WriterUint64 runtimeMetaColumnRetentionThroughSeq (rm_RetentionThroughSeq meta),
      WriterInt64 runtimeMetaColumnRetentionUpdatedAt (rm_RetentionUpdatedAtMS meta),
      WriterString runtimeMetaColumnWriteFenceToken (rm_WriteFenceToken meta),
      WriterUint64 runtimeMetaColumnWriteFenceVersion (rm_WriteFenceVersion meta),
      WriterUint8 runtimeMetaColumnWriteFenceReason (rm_WriteFenceReason meta),
      WriterInt64 runtimeMetaColumnWriteFenceUntilMS (rm_WriteFenceUntilMS meta),
      WriterUint64 runtimeMetaColumnRouteGeneration (rm_RouteGeneration meta)]"

text \<open>\<open>_ = w.Uint64(...)\<close>: a column that fails is left out.\<close>

fun ignore_errors :: "(Writer \<Rightarrow> db_error + Writer) list \<Rightarrow> Writer \<Rightarrow> Writer" where
  "ignore_errors [] w = w"
| "ignore_errors (f # fs) w = ignore_errors fs (case f w of Inl e \<Rightarrow> w | Inr w' \<Rightarrow> w')"

definition encodeChannelRuntimeMetaValue :: "key \<Rightarrow> ChannelRuntimeMeta \<Rightarrow> db_error + u8 list" where
  "encodeChannelRuntimeMetaValue k meta =
     (let meta = normalizeChannelRuntimeMeta meta
      in Wrap k runtimeMetaValueVersion CodecColumns FlagChecksum (WriterBytes (ignore_errors (runtime_writers meta) EmptyWriter)))"

definition decodeRuntimeMetaColumn :: "Scanner \<Rightarrow> ChannelRuntimeMeta \<Rightarrow> db_error + ChannelRuntimeMeta" where
  "decodeRuntimeMetaColumn s meta =
     (let i = sc_columnID s
      in if i = runtimeMetaColumnChannelEpoch then set_column (ScanUint64 s) (\<lambda>v. meta\<lparr>rm_ChannelEpoch := v\<rparr>)
         else if i = runtimeMetaColumnLeaderEpoch then set_column (ScanUint64 s) (\<lambda>v. meta\<lparr>rm_LeaderEpoch := v\<rparr>)
         else if i = runtimeMetaColumnReplicas
         then set_column (bind_res (ScanBytes s) decodeUint64Slice) (\<lambda>v. meta\<lparr>rm_Replicas := v\<rparr>)
         else if i = runtimeMetaColumnISR then set_column (bind_res (ScanBytes s) decodeUint64Slice) (\<lambda>v. meta\<lparr>rm_ISR := v\<rparr>)
         else if i = runtimeMetaColumnLeader then set_column (ScanUint64 s) (\<lambda>v. meta\<lparr>rm_Leader := v\<rparr>)
         else if i = runtimeMetaColumnMinISR then set_column (ScanInt64 s) (\<lambda>v. meta\<lparr>rm_MinISR := v\<rparr>)
         else if i = runtimeMetaColumnStatus then set_column (ScanUint8 s) (\<lambda>v. meta\<lparr>rm_Status := v\<rparr>)
         else if i = runtimeMetaColumnFeatures then set_column (ScanUint64 s) (\<lambda>v. meta\<lparr>rm_Features := v\<rparr>)
         else if i = runtimeMetaColumnLeaseUntilMS then set_column (ScanInt64 s) (\<lambda>v. meta\<lparr>rm_LeaseUntilMS := v\<rparr>)
         else if i = runtimeMetaColumnRetentionThroughSeq then set_column (ScanUint64 s) (\<lambda>v. meta\<lparr>rm_RetentionThroughSeq := v\<rparr>)
         else if i = runtimeMetaColumnRetentionUpdatedAt then set_column (ScanInt64 s) (\<lambda>v. meta\<lparr>rm_RetentionUpdatedAtMS := v\<rparr>)
         else if i = runtimeMetaColumnWriteFenceToken then set_column (ScanString s) (\<lambda>v. meta\<lparr>rm_WriteFenceToken := v\<rparr>)
         else if i = runtimeMetaColumnWriteFenceVersion then set_column (ScanUint64 s) (\<lambda>v. meta\<lparr>rm_WriteFenceVersion := v\<rparr>)
         else if i = runtimeMetaColumnWriteFenceReason then set_column (ScanUint8 s) (\<lambda>v. meta\<lparr>rm_WriteFenceReason := v\<rparr>)
         else if i = runtimeMetaColumnWriteFenceUntilMS then set_column (ScanInt64 s) (\<lambda>v. meta\<lparr>rm_WriteFenceUntilMS := v\<rparr>)
         else if i = runtimeMetaColumnRouteGeneration then set_column (ScanUint64 s) (\<lambda>v. meta\<lparr>rm_RouteGeneration := v\<rparr>)
         else Inr meta)"

definition zero_runtime_meta :: ChannelRuntimeMeta where
  "zero_runtime_meta =
     \<lparr>rm_ChannelID = [], rm_ChannelType = 0, rm_ChannelEpoch = 0, rm_LeaderEpoch = 0, rm_RouteGeneration = 0, rm_Replicas = [],
      rm_ISR = [], rm_Leader = 0, rm_MinISR = 0, rm_Status = 0, rm_Features = 0, rm_LeaseUntilMS = 0, rm_RetentionThroughSeq = 0,
      rm_RetentionUpdatedAtMS = 0, rm_WriteFenceToken = [], rm_WriteFenceVersion = 0, rm_WriteFenceReason = 0,
      rm_WriteFenceUntilMS = 0\<rparr>"

definition decodeChannelRuntimeMetaValue :: "key \<Rightarrow> u8 list \<Rightarrow> db_error + ChannelRuntimeMeta" where
  "decodeChannelRuntimeMetaValue k val =
     bind_res (Unwrap k val) (\<lambda>env.
       if ev_Version env \<noteq> runtimeMetaValueVersion \<or> ev_Codec env \<noteq> CodecColumns then Inl DBErrCorruptValue
       else bind_res (decode_columns decodeRuntimeMetaColumn (NewScanner (ev_Payload env)) zero_runtime_meta) (\<lambda>meta.
              Inr (normalizeChannelRuntimeMeta meta)))"

section \<open>The table of runtime metadata\<close>

definition channelRuntimeMetaPrimaryKey :: "u8 list \<Rightarrow> u64 \<Rightarrow> KeyParts" where
  "channelRuntimeMetaPrimaryKey channelID channelType = [PartString channelID, Int64Ordered channelType]"

definition channelRuntimeMetaTable :: "ChannelRuntimeMeta TableSpec" where
  "channelRuntimeMetaTable =
     \<lparr>ts_ID = TableIDChannelRuntimeMeta,
      ts_Primary = \<lparr>pm_IndexID = 1, pm_FamilyID = 0, pm_Layout = [KeyString, KeyInt64Ordered], pm_OmitFamilySuffix = False,
        pm_Key = \<lambda>meta. channelRuntimeMetaPrimaryKey (rm_ChannelID meta) (rm_ChannelType meta)\<rparr>,
      ts_Indexes = [],
      ts_Validate = validateChannelRuntimeMeta,
      ts_EncodeValue = encodeChannelRuntimeMetaValue,
      ts_DecodeValue = \<lambda>k primary val.
        bind_res (decodeChannelRuntimeMetaValue k val) (\<lambda>meta.
          Inr (meta\<lparr>rm_ChannelID := kp_S (primary ! 0), rm_ChannelType := kp_I64 (primary ! 1)\<rparr>))\<rparr>"

definition channelRuntimeMetaPrimaryFamilyID :: u16 where "channelRuntimeMetaPrimaryFamilyID = 0"

definition runtime_row_key :: "HashSlot \<Rightarrow> u8 list \<Rightarrow> u64 \<Rightarrow> db_error + key" where
  "runtime_row_key hs channelID channelType =
     key_or_panic (encodeChannelRuntimeMetaRowKey hs channelID channelType channelRuntimeMetaPrimaryFamilyID)"

definition getChannelRuntimeMetaByKey ::
  "'db Engine \<Rightarrow> 'db \<Rightarrow> key \<Rightarrow> u8 list \<Rightarrow> u64 \<Rightarrow> db_error + ChannelRuntimeMeta option" where
  "getChannelRuntimeMetaByKey eng d k channelID channelType =
     (case eg_Get eng d k of
        None \<Rightarrow> Inr None
      | Some val \<Rightarrow>
          bind_res (ts_DecodeValue channelRuntimeMetaTable k (channelRuntimeMetaPrimaryKey channelID channelType) val) (\<lambda>meta. Inr (Some meta)))"

text \<open>A conflict returns \<open>MonotonicConflict\<close> with \<open>ErrConflict\<close>.\<close>

definition UpsertChannelRuntimeMeta :: "'db Engine \<Rightarrow> 'db \<Rightarrow> HashSlot \<Rightarrow> ChannelRuntimeMeta \<Rightarrow> db_error + ('db \<times> MonotonicResult)" where
  "UpsertChannelRuntimeMeta eng d hs meta =
     bind_res (check_error (validateChannelRuntimeMeta meta)) (\<lambda>_.
       bind_res (runtime_row_key hs (rm_ChannelID meta) (rm_ChannelType meta)) (\<lambda>k.
         bind_res (getChannelRuntimeMetaByKey eng d k (rm_ChannelID meta) (rm_ChannelType meta)) (\<lambda>existing.
           case resolveMonotonicChannelRuntimeMeta existing meta of
             (next, MonotonicIgnoredStale) \<Rightarrow> Inr (d, MonotonicIgnoredStale)
           | (next, MonotonicConflict) \<Rightarrow> Inl DBErrConflict
           | (next, MonotonicApplied) \<Rightarrow>
               bind_res (ts_EncodeValue channelRuntimeMetaTable k next) (\<lambda>val.
                 bind_res (commit_batch eng d [OpSet k val]) (\<lambda>d'. Inr (d', MonotonicApplied))))))"

definition GetChannelRuntimeMeta :: "'db Engine \<Rightarrow> 'db \<Rightarrow> HashSlot \<Rightarrow> u8 list \<Rightarrow> u64 \<Rightarrow> db_error + ChannelRuntimeMeta option" where
  "GetChannelRuntimeMeta eng d hs channelID channelType =
     bind_res (check_error (validateKeyString channelID)) (\<lambda>_.
       table_Get channelRuntimeMetaTable eng d hs (channelRuntimeMetaPrimaryKey channelID channelType))"

definition DeleteChannelRuntimeMeta :: "'db Engine \<Rightarrow> 'db \<Rightarrow> HashSlot \<Rightarrow> u8 list \<Rightarrow> u64 \<Rightarrow> db_error + 'db" where
  "DeleteChannelRuntimeMeta eng d hs channelID channelType =
     bind_res (check_error (validateKeyString channelID)) (\<lambda>_.
       bind_res (runtime_row_key hs channelID channelType) (\<lambda>k.
         case eg_Get eng d k of None \<Rightarrow> Inl DBErrNotFound | Some _ \<Rightarrow> commit_batch eng d [OpDelete k]))"

definition AdvanceChannelRetentionThroughSeq :: "'db Engine \<Rightarrow> 'db \<Rightarrow> HashSlot \<Rightarrow> ChannelRetentionAdvance \<Rightarrow> db_error + 'db" where
  "AdvanceChannelRetentionThroughSeq eng d hs req =
     bind_res (check_error (validateKeyString (ra_ChannelID req))) (\<lambda>_.
       bind_res (runtime_row_key hs (ra_ChannelID req) (ra_ChannelType req)) (\<lambda>k.
         bind_res (getChannelRuntimeMetaByKey eng d k (ra_ChannelID req) (ra_ChannelType req)) (\<lambda>stored.
           case stored of
             None \<Rightarrow> Inl DBErrNotFound
           | Some existing \<Rightarrow>
               bind_res (advance_retention existing req) (\<lambda>change.
                 case change of
                   None \<Rightarrow> Inr d
                 | Some next \<Rightarrow>
                     bind_res (ts_EncodeValue channelRuntimeMetaTable k next) (\<lambda>val. commit_batch eng d [OpSet k val])))))"

text \<open>\<open>limit + 1\<close> wraps in 64 bits.\<close>

definition ListChannelRuntimeMetaPage ::
  "'db Engine \<Rightarrow> 'db \<Rightarrow> HashSlot \<Rightarrow> ConversationKey \<Rightarrow> int \<Rightarrow> db_error + (ChannelRuntimeMeta list \<times> ConversationKey \<times> bool)" where
  "ListChannelRuntimeMetaPage eng d hs cursor limit =
     bind_res (check_error (first_error [if cursor = zero_key then None
           else if ck_ChannelID cursor = [] then Some DBErrInvalidArgument else validateKeyString (ck_ChannelID cursor),
         if limit \<le> 0 then Some DBErrInvalidArgument else None])) (\<lambda>_.
       let after = (if cursor \<noteq> zero_key then channelRuntimeMetaPrimaryKey (ck_ChannelID cursor) (ck_ChannelType cursor) else [])
       in bind_res (ScanPrimary channelRuntimeMetaTable eng d hs after (sint (word_of_int (limit + 1) :: u64))) (\<lambda>(rows, _, _).
            let finished = int (length rows) \<le> limit;
                rows = (if limit < int (length rows) then take (nat limit) rows else rows);
                nextCursor = (if rows \<noteq> [] then \<lparr>ck_ChannelID = rm_ChannelID (last rows), ck_ChannelType = rm_ChannelType (last rows)\<rparr>
                              else cursor)
            in Inr (rows, nextCursor, finished)))"

end
