(* ===== verification/TableKeySafety.thy ===== *)
theory TableKeySafety
  imports TableRuntime
begin

text \<open>
  The keys of the table runtime: encoding a key of a layout and decoding it again, in both directions, and what it means for rows and
  index entries: keys of different rows, tables and hash slots never meet.
\<close>

section \<open>Parts\<close>

text \<open>The parts that the constructors build and whose encoding does not fail.\<close>

definition canonical :: "KeyPart \<Rightarrow> bool" where
  "canonical p \<longleftrightarrow>
     p = PartString (kp_S p) \<and> length (kp_S p) \<le> maxKeyStringLen \<or> p = Int64Ordered (kp_I64 p) \<or> p = Int64Desc (kp_I64 p)
     \<or> p = Uint64 (kp_U64 p) \<or> p = Uint8 (kp_U8 p)"

definition part_bytes :: "KeyPart \<Rightarrow> key" where
  "part_bytes p =
     (if kp_Kind p = KeyString then put16 (of_nat (length (kp_S p))) @ kp_S p
      else if kp_Kind p = KeyInt64Ordered then put64 (kp_I64 p XOR push_bit 63 1)
      else if kp_Kind p = KeyInt64Desc then put64 (NOT (kp_I64 p XOR push_bit 63 1))
      else if kp_Kind p = KeyUint64 then put64 (kp_U64 p)
      else [kp_U8 p])"

lemmas part_makers = PartString_def Int64Ordered_def Int64Desc_def Uint64_def Uint8_def

lemma part_kinds [simp]:
  "kp_Kind (PartString s) = KeyString" "kp_Kind (Int64Ordered v) = KeyInt64Ordered" "kp_Kind (Int64Desc v) = KeyInt64Desc"
  "kp_Kind (Uint64 v) = KeyUint64" "kp_Kind (Uint8 b) = KeyUint8"
  by (simp_all add: part_makers)

lemma part_fields [simp]:
  "kp_S (PartString s) = s" "kp_I64 (Int64Ordered v) = v" "kp_I64 (Int64Desc v) = v" "kp_U64 (Uint64 v) = v" "kp_U8 (Uint8 b) = b"
  by (simp_all add: part_makers)

lemma kinds_differ [simp]:
  "KeyString \<noteq> KeyInt64Ordered" "KeyString \<noteq> KeyInt64Desc" "KeyString \<noteq> KeyUint64" "KeyString \<noteq> KeyUint8"
  "KeyInt64Ordered \<noteq> KeyInt64Desc" "KeyInt64Ordered \<noteq> KeyUint64" "KeyInt64Ordered \<noteq> KeyUint8"
  "KeyInt64Desc \<noteq> KeyUint64" "KeyInt64Desc \<noteq> KeyUint8" "KeyUint64 \<noteq> KeyUint8"
  "KeyInt64Ordered \<noteq> KeyString" "KeyInt64Desc \<noteq> KeyString" "KeyUint64 \<noteq> KeyString" "KeyUint8 \<noteq> KeyString"
  "KeyInt64Desc \<noteq> KeyInt64Ordered" "KeyUint64 \<noteq> KeyInt64Ordered" "KeyUint8 \<noteq> KeyInt64Ordered"
  "KeyUint64 \<noteq> KeyInt64Desc" "KeyUint8 \<noteq> KeyInt64Desc" "KeyUint8 \<noteq> KeyUint64"
  by (simp_all add: key_kinds)

lemma canonical_makers [simp]:
  "canonical (PartString s) \<longleftrightarrow> length s \<le> maxKeyStringLen" "canonical (Int64Ordered v)" "canonical (Int64Desc v)"
  "canonical (Uint64 v)" "canonical (Uint8 b)"
  by (auto simp: canonical_def) (auto simp: part_makers key_kinds zero_part_def)

lemma canonical_cases:
  assumes "canonical p"
  obtains s where "p = PartString s" "length s \<le> maxKeyStringLen" | v where "p = Int64Ordered v" | v where "p = Int64Desc v"
    | v where "p = Uint64 v" | b where "p = Uint8 b"
  using assms by (auto simp: canonical_def)

lemma flip_twice [simp]: "(v XOR a) XOR a = (v :: u64)"
  by (simp add: xor.assoc)

lemma get64_put64 [simp]: "get64 (put64 v @ r) = Some (v, r)"
  by (rule be64.get_put) simp

lemma read_string: "length s \<le> maxKeyStringLen \<Longrightarrow> ReadString (put16 (of_nat (length s)) @ s @ r) = Some (s, r)"
proof -
  assume "length s \<le> maxKeyStringLen"
  then have "unat (of_nat (length s) :: u16) = length s"
    by (simp add: maxKeyStringLen_def unsigned_of_nat take_bit_nat_eq_self)
  then show ?thesis by (simp add: ReadString_def be16.get_put)
qed

lemma encode_part: "canonical p \<Longrightarrow> encodeKeyPart dst p = Inr (dst @ part_bytes p)"
  by (elim canonical_cases) (simp_all add: encodeKeyPart_def part_bytes_def key_or_panic_def AppendString_def maxKeyStringLen_def
      maxStringLen_def AppendInt64Ordered_def AppendInt64Desc_def AppendUint64_def)

lemma decode_part: "canonical p \<Longrightarrow> decodeKeyPart (kp_Kind p) (part_bytes p @ r) = Inr (p, r)"
  by (elim canonical_cases) (simp_all add: decodeKeyPart_def part_bytes_def read_string)

text \<open>Decoding gives canonical parts whose bytes it consumed.\<close>

lemma read_string_split:
  assumes "ReadString k = Some (s, r)"
  shows "k = put16 (of_nat (length s)) @ s @ r" "length s \<le> maxKeyStringLen"
proof -
  from assms obtain n k' where g: "get16 k = Some (n, k')" and s: "unat n \<le> length k'" "s = take (unat n) k'" "r = drop (unat n) k'"
    by (auto simp: ReadString_def split: option.splits if_splits)
  have "unat n < 2 ^ LENGTH(16)" by (rule unsigned_less)
  with s show "length s \<le> maxKeyStringLen" by (simp add: maxKeyStringLen_def min_absorb2)
  have "(of_nat (length s) :: u16) = n" using s by (simp add: min_absorb2)
  with get16_split [OF g] s show "k = put16 (of_nat (length s)) @ s @ r" by simp
qed

lemma decode_part_split:
  assumes "decodeKeyPart kind k = Inr (p, r)"
  shows "kp_Kind p = kind" "canonical p" "k = part_bytes p @ r"
proof -
  have not: "NOT (NOT x XOR a XOR a) = (x :: u64)" for x a by (simp add: xor.assoc)
  show "kp_Kind p = kind" "canonical p" "k = part_bytes p @ r"
    using assms
    by (auto simp: decodeKeyPart_def part_bytes_def split: if_splits option.splits list.splits dest: read_string_split get64_split)
qed

section \<open>Keys\<close>

definition parts_bytes :: "KeyParts \<Rightarrow> key" where
  "parts_bytes ps = concat (map part_bytes ps)"

lemma parts_bytes_simps [simp]: "parts_bytes [] = []" "parts_bytes (p # ps) = part_bytes p @ parts_bytes ps"
  "parts_bytes (ps @ qs) = parts_bytes ps @ parts_bytes qs"
  by (simp_all add: parts_bytes_def)

lemma encode_parts: "list_all canonical ps \<Longrightarrow> encodeKeyParts dst ps = Inr (dst @ parts_bytes ps)"
  by (induction ps arbitrary: dst) (simp_all add: encode_part bind_res_def)

lemma decode_parts: "list_all canonical ps \<Longrightarrow> decodeKeyParts (parts_bytes ps @ r) (map kp_Kind ps) = Inr (ps, r)"
  by (induction ps) (simp_all add: decode_part bind_res_def)

lemma decode_parts_split:
  "decodeKeyParts k layout = Inr (ps, r) \<Longrightarrow> map kp_Kind ps = layout \<and> list_all canonical ps \<and> k = parts_bytes ps @ r"
proof (induction layout arbitrary: k ps)
  case (Cons kind layout)
  from Cons.prems obtain p k1 qs where d: "decodeKeyPart kind k = Inr (p, k1)" "decodeKeyParts k1 layout = Inr (qs, r)" "ps = p # qs"
    by (auto simp: bind_res_def split: sum.splits)
  show ?case using decode_part_split [OF d(1)] Cons.IH [OF d(2)] d(3) by simp
qed simp

text \<open>A key of a layout: its parts are canonical, of the right kinds, and strings are not empty.\<close>

definition key_of :: "KeyLayout \<Rightarrow> KeyParts \<Rightarrow> bool" where
  "key_of layout ps \<longleftrightarrow> list_all canonical ps \<and> map kp_Kind ps = layout \<and> (\<forall>p \<in> set ps. kp_Kind p = KeyString \<longrightarrow> kp_S p \<noteq> [])"

lemma check_parts_exact:
  "list_all canonical ps \<Longrightarrow> length ps = length layout \<Longrightarrow>
    check_parts ps layout = (if map kp_Kind ps = layout \<and> (\<forall>p \<in> set ps. kp_Kind p = KeyString \<longrightarrow> kp_S p \<noteq> []) then None
      else Some DBErrInvalidArgument)"
proof (induction ps layout rule: check_parts.induct)
  case (1 p ps kind layout)
  then show ?case
    by (auto simp: validateKeyString_def elim!: canonical_cases)
qed auto

lemma validate_exact:
  "list_all canonical ps \<Longrightarrow> validateKeyPartsAgainstLayout ps layout = (if key_of layout ps then None else Some DBErrInvalidArgument)"
  by (auto simp: validateKeyPartsAgainstLayout_def key_of_def check_parts_exact)

lemma parts_inject:
  assumes "key_of layout ps" "key_of layout qs"
  shows "parts_bytes ps @ r = parts_bytes qs @ r' \<longleftrightarrow> ps = qs \<and> r = r'"
proof
  assume eq: "parts_bytes ps @ r = parts_bytes qs @ r'"
  have k: "list_all canonical ps" "map kp_Kind ps = layout" "list_all canonical qs" "map kp_Kind qs = layout"
    using assms unfolding key_of_def by blast+
  have "decodeKeyParts (parts_bytes ps @ r) layout = Inr (ps, r)" using decode_parts [OF k(1), of r] unfolding k(2) .
  moreover have "decodeKeyParts (parts_bytes qs @ r') layout = Inr (qs, r')" using decode_parts [OF k(3), of r'] unfolding k(4) .
  ultimately show "ps = qs \<and> r = r'" unfolding eq by (metis sum.inject(2) prod.inject)
qed simp

end
