(* ===== verification/TableStore.thy ===== *)
theory TableStore
  imports TableKeySafety
begin

text \<open>
  Why a table of the runtime is a map, on the contents of any engine: a table whose specification keeps the laws of the locale
  \<open>table_spec\<close> holds rows by their keys, its index entries are exactly those of its rows, and the operations that a write stages
  change one row, its entries and nothing else.
\<close>

section \<open>Keys of rows and of index entries\<close>

abbreviation row_pk :: "'r TableSpec \<Rightarrow> 'r \<Rightarrow> KeyParts" where
  "row_pk t \<equiv> pm_Key (ts_Primary t)"

abbreviation table_key :: "'r TableSpec \<Rightarrow> KeyParts \<Rightarrow> bool" where
  "table_key t \<equiv> key_of (pm_Layout (ts_Primary t))"

definition row_prefix_of :: "'r TableSpec \<Rightarrow> HashSlot \<Rightarrow> key" where
  "row_prefix_of t hs = slot_head hs SpaceRow @ put32 (ts_ID t)"

definition row_suffix :: "'r TableSpec \<Rightarrow> key" where
  "row_suffix t = (if pm_OmitFamilySuffix (ts_Primary t) then [] else put16 (pm_FamilyID (ts_Primary t)))"

definition row_key :: "'r TableSpec \<Rightarrow> HashSlot \<Rightarrow> KeyParts \<Rightarrow> key" where
  "row_key t hs pk = row_prefix_of t hs @ parts_bytes pk @ row_suffix t"

definition entry_prefix :: "'r TableSpec \<Rightarrow> HashSlot \<Rightarrow> 'r IndexSpec \<Rightarrow> key" where
  "entry_prefix t hs ix = slot_head hs SpaceIndex @ put32 (ts_ID t) @ put16 (ix_ID ix)"

definition entry_key :: "'r TableSpec \<Rightarrow> HashSlot \<Rightarrow> 'r IndexSpec \<Rightarrow> KeyParts \<Rightarrow> KeyParts \<Rightarrow> key" where
  "entry_key t hs ix parts pk =
     entry_prefix t hs ix @ parts_bytes parts
     @ (if ix_PrimaryFromIndex ix \<or> ix_PrimaryKeyFromIndexParts ix \<noteq> None then [] else parts_bytes pk)"

lemma head_differs: "slot_head hs SpaceRow @ r \<noteq> slot_head hs' SpaceIndex @ r'"
proof
  assume "slot_head hs SpaceRow @ r = slot_head hs' SpaceIndex @ r'"
  then have "HasPrefix (slot_head hs SpaceRow @ r) (slot_head hs' SpaceIndex)" by simp
  then show False by (simp add: slot_head_prefix key_consts)
qed

lemma head_inject: "slot_head hs sp @ r = slot_head hs' sp @ r' \<longleftrightarrow> hs = hs' \<and> r = r'"
  by (metis HasPrefix_append slot_head_prefix same_append_eq)

lemma row_not_entry: "row_key t hs pk \<noteq> entry_prefix t' hs' ix @ r" "entry_prefix t' hs' ix @ r \<noteq> row_key t hs pk"
  by (simp_all add: row_key_def row_prefix_of_def entry_prefix_def head_differs head_differs [symmetric])

lemma row_not_entry_key: "row_key t hs pk \<noteq> entry_key t' hs' ix parts pk'"
  by (simp add: entry_key_def row_not_entry)

lemma row_key_place: "row_prefix_of t hs @ r = row_prefix_of t' hs' @ r' \<longleftrightarrow> hs = hs' \<and> ts_ID t = ts_ID t' \<and> r = r'"
  using be32.put_inject by (auto simp: row_prefix_of_def head_inject)

lemma entry_place:
  "entry_prefix t hs ix @ r = entry_prefix t' hs' ix' @ r' \<longleftrightarrow> hs = hs' \<and> ts_ID t = ts_ID t' \<and> ix_ID ix = ix_ID ix' \<and> r = r'"
  using be32.put_inject be16.put_inject by (auto simp: entry_prefix_def head_inject)

lemma row_key_inject:
  "table_key t pk \<Longrightarrow> table_key t pk' \<Longrightarrow> row_key t hs pk = row_key t hs' pk' \<longleftrightarrow> hs = hs' \<and> pk = pk'"
  using parts_inject [of "pm_Layout (ts_Primary t)" pk pk' "row_suffix t" "row_suffix t"]
  by (auto simp: row_key_def row_key_place)

lemma primaryRowKey_exact:
  "list_all canonical pk \<Longrightarrow> primaryRowKey t hs pk = (if table_key t pk then Inr (row_key t hs pk) else Inl DBErrInvalidArgument)"
  by (simp add: primaryRowKey_def validatePrimaryKey_def validate_exact check_error_def bind_res_def slot_row_prefix key_or_panic_def
      encode_parts encodeTablePrimaryRowKey_def AppendUint16_def row_key_def row_prefix_of_def row_suffix_def)

lemma key_canonical: "key_of layout pk \<Longrightarrow> list_all canonical pk"
  by (simp add: key_of_def)

lemma primaryRowKey_ok: "table_key t pk \<Longrightarrow> primaryRowKey t hs pk = Inr (row_key t hs pk)"
  by (simp add: primaryRowKey_exact key_canonical)

lemma validate_ok: "key_of layout ps \<Longrightarrow> validateKeyPartsAgainstLayout ps layout = None"
  by (simp add: validate_exact key_canonical)

lemma indexEntryKey_exact:
  "list_all canonical parts \<Longrightarrow> list_all canonical pk \<Longrightarrow> indexEntryKey t hs ix parts pk = Inr (entry_key t hs ix parts pk)"
  by (simp add: indexEntryKey_def encodeTableIndexScanPrefix_def encodeTableIndexKey_def bind_res_def key_or_panic_def
      slot_index_prefix encode_parts entry_key_def entry_prefix_def)

lemma decode_row_key: "table_key t pk \<Longrightarrow> decodePrimaryRowKey t (row_prefix_of t hs) (row_key t hs pk) = Some pk"
proof -
  assume k: "table_key t pk"
  have "decodeKeyParts (parts_bytes pk @ row_suffix t) (map kp_Kind pk) = Inr (pk, row_suffix t)"
    using k by (simp add: decode_parts key_canonical)
  moreover have "map kp_Kind pk = pm_Layout (ts_Primary t)" using k by (simp add: key_of_def)
  ultimately show ?thesis by (simp add: decodePrimaryRowKey_def row_key_def row_suffix_def)
qed

section \<open>The laws of a specification\<close>

definition active :: "'r TableSpec \<Rightarrow> 'r IndexSpec list" where
  "active t = filter (\<lambda>ix. \<not> ix_DescriptorOnly ix) (ts_Indexes t)"

text \<open>\<open>good hs r\<close>: the row may be stored in the hash slot; its value is then encoded without loss.\<close>

locale table_spec =
  fixes t :: "'r TableSpec" and good :: "HashSlot \<Rightarrow> 'r \<Rightarrow> bool"
  assumes good_key: "good hs r \<Longrightarrow> table_key t (row_pk t r)"
    and good_valid: "good hs r \<Longrightarrow> ts_Validate t r = None"
    and good_encode: "good hs r \<Longrightarrow> \<exists>v. ts_EncodeValue t (row_key t hs (row_pk t r)) r = Inr v"
    and good_decode: "good hs r \<Longrightarrow> ts_EncodeValue t (row_key t hs (row_pk t r)) r = Inr v
      \<Longrightarrow> ts_DecodeValue t (row_key t hs (row_pk t r)) (row_pk t r) v = Inr r"
    and index_ids: "distinct (map ix_ID (ts_Indexes t))"
    and index_plain: "ix \<in> set (active t) \<Longrightarrow> \<not> ix_Unique ix"
    and index_key: "ix \<in> set (active t) \<Longrightarrow> good hs r \<Longrightarrow> indexPartsForRow r ix (row_pk t r) = Some parts \<Longrightarrow> key_of (ix_Layout ix) parts"
    and index_primary: "ix \<in> set (active t) \<Longrightarrow> ix_PrimaryFromIndex ix \<Longrightarrow> ix_PrimaryKeyFromIndexParts ix = None \<and> ix_Layout ix = pm_Layout (ts_Primary t)"
    and index_projects: "ix \<in> set (active t) \<Longrightarrow> good hs r \<Longrightarrow> ix_PrimaryKeyFromIndexParts ix = Some f
      \<Longrightarrow> ix_Key ix r = Some parts \<Longrightarrow> f parts = Some (row_pk t r)"

text \<open>The rows of a table as a map, and its invariant in a hash slot. The contents of an engine are what its lookups return.\<close>

type_synonym contents = "key \<Rightarrow> u8 list option"

definition table_rows :: "'r TableSpec \<Rightarrow> contents \<Rightarrow> HashSlot \<Rightarrow> KeyParts \<Rightarrow> 'r option" where
  "table_rows t m hs pk =
     (if \<not> table_key t pk then None
      else case m (row_key t hs pk) of
             None \<Rightarrow> None
           | Some v \<Rightarrow> (case ts_DecodeValue t (row_key t hs pk) pk v of Inl e \<Rightarrow> None | Inr r \<Rightarrow> Some r))"

definition row_stored :: "'r TableSpec \<Rightarrow> (HashSlot \<Rightarrow> 'r \<Rightarrow> bool) \<Rightarrow> HashSlot \<Rightarrow> KeyParts \<Rightarrow> u8 list \<Rightarrow> 'r \<Rightarrow> bool" where
  "row_stored t good hs pk v r \<longleftrightarrow> good hs r \<and> row_pk t r = pk \<and> ts_EncodeValue t (row_key t hs pk) r = Inr v"

definition entry_of_row :: "'r TableSpec \<Rightarrow> HashSlot \<Rightarrow> 'r IndexSpec \<Rightarrow> 'r \<Rightarrow> KeyParts \<Rightarrow> key \<Rightarrow> bool" where
  "entry_of_row t hs ix r pk k \<longleftrightarrow> (\<exists>parts. indexPartsForRow r ix pk = Some parts \<and> k = entry_key t hs ix parts pk)"

definition table_inv :: "'r TableSpec \<Rightarrow> (HashSlot \<Rightarrow> 'r \<Rightarrow> bool) \<Rightarrow> contents \<Rightarrow> HashSlot \<Rightarrow> bool" where
  "table_inv t good m hs \<longleftrightarrow>
     (\<forall>pk v. table_key t pk \<longrightarrow> m (row_key t hs pk) = Some v \<longrightarrow> (\<exists>r. row_stored t good hs pk v r))
     \<and> (\<forall>ix \<in> set (active t). \<forall>k. HasPrefix k (entry_prefix t hs ix) \<longrightarrow>
          (m k \<noteq> None \<longleftrightarrow> (\<exists>pk r. table_rows t m hs pk = Some r \<and> entry_of_row t hs ix r pk k)))"

lemma inv_row: "table_inv t good m hs \<Longrightarrow> table_key t pk \<Longrightarrow> m (row_key t hs pk) = Some v \<Longrightarrow> \<exists>r. row_stored t good hs pk v r"
  unfolding table_inv_def by blast

lemma inv_entry:
  "table_inv t good m hs \<Longrightarrow> ix \<in> set (active t) \<Longrightarrow> HasPrefix k (entry_prefix t hs ix) \<Longrightarrow>
    m k \<noteq> None \<longleftrightarrow> (\<exists>pk r. table_rows t m hs pk = Some r \<and> entry_of_row t hs ix r pk k)"
  unfolding table_inv_def by blast

section \<open>Staged entries\<close>

definition row_entries :: "'r TableSpec \<Rightarrow> HashSlot \<Rightarrow> 'r \<Rightarrow> KeyParts \<Rightarrow> 'r IndexSpec list \<Rightarrow> ('r IndexSpec \<times> key) list" where
  "row_entries t hs r pk is =
     concat (map (\<lambda>ix. case indexPartsForRow r ix pk of None \<Rightarrow> [] | Some parts \<Rightarrow> [(ix, entry_key t hs ix parts pk)]) is)"

lemma row_entries_simps [simp]:
  "row_entries t hs r pk [] = []"
  "row_entries t hs r pk (ix # is) =
     (case indexPartsForRow r ix pk of None \<Rightarrow> [] | Some parts \<Rightarrow> [(ix, entry_key t hs ix parts pk)]) @ row_entries t hs r pk is"
  by (simp_all add: row_entries_def)

lemma row_entries_set: "(ix, k) \<in> set (row_entries t hs r pk is) \<longleftrightarrow> ix \<in> set is \<and> entry_of_row t hs ix r pk k"
proof (induction "is")
  case (Cons a "is")
  then show ?case by (cases "indexPartsForRow r a pk") (auto simp: entry_of_row_def)
qed simp

lemma entry_keys: "k \<in> snd ` set (row_entries t hs r pk is) \<longleftrightarrow> (\<exists>ix \<in> set is. entry_of_row t hs ix r pk k)"
proof -
  have "k \<in> snd ` set (row_entries t hs r pk is) \<longleftrightarrow> (\<exists>ix. (ix, k) \<in> set (row_entries t hs r pk is))" by force
  then show ?thesis by (auto simp: row_entries_set)
qed

lemma collect_stage:
  assumes "\<And>ix parts. ix \<in> set is \<Longrightarrow> \<not> skip ix \<Longrightarrow> indexPartsForRow r ix pk = Some parts \<Longrightarrow> key_of (ix_Layout ix) parts"
    and pk: "list_all canonical pk"
  shows "collect_ops (stage_index skip mk t hs r pk) is = Inr (map (\<lambda>(ix, k). mk ix k) (row_entries t hs r pk (filter (\<lambda>ix. \<not> skip ix) is)))"
  using assms(1)
proof (induction "is")
  case (Cons ix "is")
  have IH: "collect_ops (stage_index skip mk t hs r pk) is = Inr (map (\<lambda>(ix, k). mk ix k) (row_entries t hs r pk (filter (\<lambda>ix. \<not> skip ix) is)))"
    using Cons.prems by (intro Cons.IH) auto
  have "stage_index skip mk t hs r pk ix = Inr (map (\<lambda>(ix, k). mk ix k) (row_entries t hs r pk (filter (\<lambda>ix. \<not> skip ix) [ix])))"
    using Cons.prems [of ix] pk
    by (auto simp: stage_index_def validate_ok check_error_def bind_res_def indexEntryKey_exact key_canonical split: option.split)
  then show ?case by (simp add: IH bind_res_def)
qed simp

text \<open>What a batch of such operations does.\<close>

lemma apply_deletes: "apply_ops (map OpDelete ks) m = (\<lambda>k. if k \<in> set ks then None else m k)"
  by (induction ks arbitrary: m) (auto simp: fun_eq_iff)

lemma apply_sets: "apply_ops (map (\<lambda>(ix, k). OpSet k (f ix)) es) m k = None \<longleftrightarrow> k \<notin> snd ` set es \<and> m k = None"
  by (induction es arbitrary: m) (auto split: if_splits)

lemma apply_sets_other: "k \<notin> snd ` set es \<Longrightarrow> apply_ops (map (\<lambda>(ix, k). OpSet k (f ix)) es) m k = m k"
  by (induction es arbitrary: m) auto

section \<open>Nothing else changes\<close>

definition outside :: "'r TableSpec \<Rightarrow> HashSlot \<Rightarrow> key \<Rightarrow> bool" where
  "outside t hs k \<longleftrightarrow> \<not> HasPrefix k (row_prefix_of t hs) \<and> \<not> HasPrefix k (slot_head hs SpaceIndex @ put32 (ts_ID t))"

definition rows_clean :: "'r TableSpec \<Rightarrow> contents \<Rightarrow> HashSlot \<Rightarrow> bool" where
  "rows_clean t m hs \<longleftrightarrow> (\<forall>k v. HasPrefix k (row_prefix_of t hs) \<longrightarrow> m k = Some v \<longrightarrow> (\<exists>pk. table_key t pk \<and> k = row_key t hs pk))"

lemma inside_row: "\<not> outside t hs (row_key t hs pk)"
  by (simp add: outside_def row_key_def)

lemma inside_entry: "HasPrefix k (entry_prefix t hs ix) \<Longrightarrow> \<not> outside t hs k"
proof -
  assume "HasPrefix k (entry_prefix t hs ix)"
  then obtain r where "k = (slot_head hs SpaceIndex @ put32 (ts_ID t)) @ put16 (ix_ID ix) @ r" by (auto simp: HasPrefix_iff entry_prefix_def)
  then have "HasPrefix k (slot_head hs SpaceIndex @ put32 (ts_ID t))" by (metis HasPrefix_append)
  then show ?thesis by (simp add: outside_def)
qed

lemma outside_other:
  assumes "hs' \<noteq> hs \<or> ts_ID t' \<noteq> ts_ID t"
  shows "outside t hs (row_key t' hs' pk)" "HasPrefix k (row_prefix_of t' hs') \<Longrightarrow> outside t hs k" "HasPrefix k (entry_prefix t' hs' ix) \<Longrightarrow> outside t hs k"
proof -
  have r: "outside t hs (row_prefix_of t' hs' @ x)" for x
    using assms head_differs [of hs' "put32 (ts_ID t') @ x" hs] row_key_place [of t' hs' x t hs]
    by (auto simp: outside_def HasPrefix_iff row_prefix_of_def)
  show "outside t hs (row_key t' hs' pk)" by (simp add: row_key_def r)
  show "HasPrefix k (row_prefix_of t' hs') \<Longrightarrow> outside t hs k" using r by (auto simp: HasPrefix_iff)
  have "slot_head hs' SpaceIndex @ y \<noteq> slot_head hs SpaceRow @ z" for y z by (metis head_differs)
  then have "outside t hs (entry_prefix t' hs' ix @ x)" for x
    using assms be32.put_inject by (auto simp: outside_def HasPrefix_iff row_prefix_of_def entry_prefix_def head_inject)
  then show "HasPrefix k (entry_prefix t' hs' ix) \<Longrightarrow> outside t hs k" by (auto simp: HasPrefix_iff)
qed

text \<open>Another table, or the same one in another hash slot, looks the same when only this one was written.\<close>

lemma others_unchanged:
  assumes eq: "\<And>k. outside t hs k \<Longrightarrow> m' k = m k" and o: "hs' \<noteq> hs \<or> ts_ID t' \<noteq> ts_ID t"
  shows "table_rows t' m' hs' = table_rows t' m hs'" "table_inv t' good' m' hs' = table_inv t' good' m hs'"
    "rows_clean t' m' hs' = rows_clean t' m hs'"
proof -
  have r: "m' (row_key t' hs' pk) = m (row_key t' hs' pk)" for pk using eq outside_other(1) [OF o] by blast
  then show rows: "table_rows t' m' hs' = table_rows t' m hs'" by (simp add: table_rows_def fun_eq_iff)
  have e: "m' k = m k" if "HasPrefix k (entry_prefix t' hs' ix)" for ix k using eq outside_other(3) [OF o that] by blast
  show "table_inv t' good' m' hs' = table_inv t' good' m hs'"
    unfolding table_inv_def rows using r e by (simp cong: conj_cong imp_cong)
  show "rows_clean t' m' hs' = rows_clean t' m hs'"
    unfolding rows_clean_def using eq outside_other(2) [OF o] by metis
qed


section \<open>The change of one row\<close>

text \<open>The row \<open>pk\<close> becomes \<open>w\<close>, with its entries, and nothing else changes.\<close>

definition row_update ::
  "'r TableSpec \<Rightarrow> (HashSlot \<Rightarrow> 'r \<Rightarrow> bool) \<Rightarrow> HashSlot \<Rightarrow> KeyParts \<Rightarrow> 'r option \<Rightarrow> contents \<Rightarrow> contents \<Rightarrow> bool" where
  "row_update t good hs pk w m m' \<longleftrightarrow>
     table_rows t m' hs = (table_rows t m hs)(pk := w) \<and> table_inv t good m' hs
     \<and> (\<forall>k. outside t hs k \<longrightarrow> m' k = m k) \<and> (rows_clean t m hs \<longrightarrow> rows_clean t m' hs)"

definition old_entries :: "'r TableSpec \<Rightarrow> contents \<Rightarrow> HashSlot \<Rightarrow> KeyParts \<Rightarrow> key set" where
  "old_entries t m hs pk = (case table_rows t m hs pk of None \<Rightarrow> {} | Some r \<Rightarrow> snd ` set (row_entries t hs r pk (active t)))"

section \<open>A table on its contents\<close>

context table_spec
begin

lemma stored_decodes: "row_stored t good hs pk v r \<Longrightarrow> ts_DecodeValue t (row_key t hs pk) pk v = Inr r"
  using good_decode by (auto simp: row_stored_def)

lemma rows_stored:
  assumes "table_inv t good m hs" "table_rows t m hs pk = Some r"
  obtains v where "table_key t pk" "m (row_key t hs pk) = Some v" "row_stored t good hs pk v r"
proof -
  from assms(2) obtain v where k: "table_key t pk" "m (row_key t hs pk) = Some v"
    and dec: "ts_DecodeValue t (row_key t hs pk) pk v = Inr r"
    by (auto simp: table_rows_def split: if_splits option.splits sum.splits)
  from inv_row [OF assms(1) k] obtain r' where "row_stored t good hs pk v r'" by blast
  with stored_decodes dec have "row_stored t good hs pk v r" by fastforce
  with k that show thesis by blast
qed

lemma rows_none:
  assumes "table_inv t good m hs" "table_key t pk"
  shows "table_rows t m hs pk = None \<longleftrightarrow> m (row_key t hs pk) = None"
  using inv_row [OF assms] stored_decodes assms(2) by (fastforce simp: table_rows_def split: option.splits sum.splits)

lemma active_index: "ix \<in> set (active t) \<Longrightarrow> ix \<in> set (ts_Indexes t) \<and> \<not> ix_DescriptorOnly ix"
  by (auto simp: active_def)

lemma same_index: "ix \<in> set (active t) \<Longrightarrow> ix' \<in> set (active t) \<Longrightarrow> ix_ID ix = ix_ID ix' \<Longrightarrow> ix = ix'"
  using index_ids by (auto simp: active_def distinct_map inj_on_def)

text \<open>An entry belongs to one row.\<close>

lemma entry_owner:
  assumes ix: "ix \<in> set (active t)" and r: "good hs r" "entry_of_row t hs ix r (row_pk t r) k"
    and r': "good hs r'" "entry_of_row t hs ix r' (row_pk t r') k"
  shows "row_pk t r = row_pk t r'"
proof -
  from r(2) obtain p where p: "indexPartsForRow r ix (row_pk t r) = Some p" "k = entry_key t hs ix p (row_pk t r)"
    by (auto simp: entry_of_row_def)
  from r'(2) obtain p' where p': "indexPartsForRow r' ix (row_pk t r') = Some p'" "k = entry_key t hs ix p' (row_pk t r')"
    by (auto simp: entry_of_row_def)
  have k: "key_of (ix_Layout ix) p" "key_of (ix_Layout ix) p'" using index_key [OF ix] r(1) r'(1) p p' by auto
  have pk: "table_key t (row_pk t r)" "table_key t (row_pk t r')" using good_key r(1) r'(1) by auto
  have eq: "entry_key t hs ix p (row_pk t r) = entry_key t hs ix p' (row_pk t r')" using p(2) p'(2) by simp
  show ?thesis
  proof (cases "ix_PrimaryFromIndex ix \<or> ix_PrimaryKeyFromIndexParts ix \<noteq> None")
    case True
    then have e: "p = p'" using eq parts_inject [OF k, of "[]" "[]"] by (auto simp: entry_key_def)
    show ?thesis
    proof (cases "ix_PrimaryFromIndex ix")
      case True
      then show ?thesis using e p(1) p'(1) by (simp add: indexPartsForRow_def)
    next
      case False
      then obtain f where f: "ix_PrimaryKeyFromIndexParts ix = Some f" using True by blast
      show ?thesis
        using index_projects [OF ix r(1) f] index_projects [OF ix r'(1) f] p(1) p'(1) e False by (simp add: indexPartsForRow_def)
    qed
  next
    case False
    then have "parts_bytes p @ parts_bytes (row_pk t r) = parts_bytes p' @ parts_bytes (row_pk t r')"
      using eq by (auto simp: entry_key_def)
    then have "parts_bytes (row_pk t r) @ [] = parts_bytes (row_pk t r') @ []" using parts_inject [OF k] by simp
    then show ?thesis using parts_inject [OF pk, of "[]" "[]"] by simp
  qed
qed

lemma entry_prefix_of: "entry_of_row t hs ix r pk k \<Longrightarrow> HasPrefix k (entry_prefix t hs ix)"
  by (auto simp: entry_of_row_def entry_key_def)

lemma entry_other_index:
  "ix \<in> set (active t) \<Longrightarrow> ix' \<in> set (active t) \<Longrightarrow> HasPrefix k (entry_prefix t hs ix) \<Longrightarrow> entry_of_row t hs' ix' r pk k \<Longrightarrow> ix' = ix \<and> hs' = hs"
  using entry_place [of t hs ix _ t hs' ix'] same_index [of ix ix'] by (auto simp: HasPrefix_iff entry_of_row_def entry_key_def)

lemma entry_members:
  assumes "ix \<in> set (active t)" "HasPrefix k (entry_prefix t hs ix)"
  shows "k \<in> snd ` set (row_entries t hs r pk (active t)) \<longleftrightarrow> entry_of_row t hs ix r pk k"
proof
  assume "k \<in> snd ` set (row_entries t hs r pk (active t))"
  then obtain ix' where m: "(ix', k) \<in> set (row_entries t hs r pk (active t))" by force
  then have "ix' \<in> set (active t)" "entry_of_row t hs ix' r pk k" by (simp_all add: row_entries_set)
  moreover from this have "ix' = ix" using entry_other_index [OF assms(1) _ assms(2)] by blast
  ultimately show "entry_of_row t hs ix r pk k" by simp
next
  assume "entry_of_row t hs ix r pk k"
  then have "(ix, k) \<in> set (row_entries t hs r pk (active t))" using assms(1) by (simp add: row_entries_set)
  then show "k \<in> snd ` set (row_entries t hs r pk (active t))" by force
qed

lemma row_no_member: "row_key t hs pk \<notin> snd ` set (row_entries t hs' r pk' (active t))"
proof
  assume "row_key t hs pk \<in> snd ` set (row_entries t hs' r pk' (active t))"
  then obtain ix where "(ix, row_key t hs pk) \<in> set (row_entries t hs' r pk' (active t))" by force
  then show False using row_not_entry_key [of t hs pk t hs' ix _ pk'] by (auto simp: row_entries_set entry_of_row_def)
qed

text \<open>One row replaced, inserted or removed together with its entries.\<close>

lemma update_inv:
  assumes inv: "table_inv t good m hs" and pk: "table_key t pk"
    and new: "case w of None \<Rightarrow> u = None | Some r \<Rightarrow> \<exists>v. u = Some v \<and> row_stored t good hs pk v r"
    and rows: "\<And>pk'. table_key t pk' \<Longrightarrow> m' (row_key t hs pk') = (if pk' = pk then u else m (row_key t hs pk'))"
    and entries: "\<And>ix k. ix \<in> set (active t) \<Longrightarrow> HasPrefix k (entry_prefix t hs ix) \<Longrightarrow>
      m' k \<noteq> None \<longleftrightarrow> (\<exists>r. w = Some r \<and> entry_of_row t hs ix r pk k)
        \<or> m k \<noteq> None \<and> \<not> (\<exists>r. table_rows t m hs pk = Some r \<and> entry_of_row t hs ix r pk k)"
  shows "table_rows t m' hs = (table_rows t m hs)(pk := w)" "table_inv t good m' hs"
proof -
  have here: "table_rows t m' hs pk = w"
    using new rows [OF pk] pk by (auto simp: table_rows_def stored_decodes split: option.splits)
  show rows': "table_rows t m' hs = (table_rows t m hs)(pk := w)"
  proof
    show "table_rows t m' hs pk' = ((table_rows t m hs)(pk := w)) pk'" for pk'
      using here rows [of pk'] by (cases "pk' = pk") (simp_all add: table_rows_def)
  qed
  have "\<exists>r. row_stored t good hs pk' v r" if "table_key t pk'" "m' (row_key t hs pk') = Some v" for pk' v
    using that rows [OF that(1)] inv_row [OF inv that(1), of v] new by (auto split: if_splits option.splits)
  moreover have "m' k \<noteq> None \<longleftrightarrow> (\<exists>pk' r. table_rows t m' hs pk' = Some r \<and> entry_of_row t hs ix r pk' k)"
    if ix: "ix \<in> set (active t)" and k: "HasPrefix k (entry_prefix t hs ix)" for ix k
  proof -
    have one: "pk' = pk" if "table_rows t m hs pk' = Some r'" "entry_of_row t hs ix r' pk' k"
      "table_rows t m hs pk = Some r" "entry_of_row t hs ix r pk k" for pk' r r'
      using rows_stored [OF inv that(1)] rows_stored [OF inv that(3)] entry_owner [OF ix, of hs r' k r] that(2,4)
      by (metis row_stored_def)
    have "m k \<noteq> None \<and> \<not> (\<exists>r. table_rows t m hs pk = Some r \<and> entry_of_row t hs ix r pk k)
        \<longleftrightarrow> (\<exists>pk' r. pk' \<noteq> pk \<and> table_rows t m hs pk' = Some r \<and> entry_of_row t hs ix r pk' k)"
      using inv_entry [OF inv ix k] one by metis
    then show ?thesis unfolding entries [OF ix k] rows' by auto
  qed
  ultimately show "table_inv t good m' hs" unfolding table_inv_def by blast
qed

lemma good_canonical: "good hs r \<Longrightarrow> list_all canonical (row_pk t r)"
  by (rule key_canonical) (rule good_key)

lemma put_ops:
  assumes "good hs r"
  shows "stagePutIndexEntries t hs r (row_pk t r) v =
    Inr (map (\<lambda>(ix, k). OpSet k (if ix_StorePrimaryValue ix then v else [])) (row_entries t hs r (row_pk t r) (active t)))"
  unfolding stagePutIndexEntries_def active_def
  by (rule collect_stage) (use assms index_key good_canonical in \<open>auto simp: active_def\<close>)

lemma delete_ops:
  assumes "good hs r"
  shows "stageDeleteIndexEntries t hs r (row_pk t r) =
    Inr (map (\<lambda>(ix, k). OpDelete k) (row_entries t hs r (row_pk t r) (filter (\<lambda>ix. \<not> ix_PrimaryFromIndex ix) (active t))))"
proof -
  have "filter (\<lambda>ix. \<not> (ix_DescriptorOnly ix \<or> ix_PrimaryFromIndex ix)) (ts_Indexes t) = filter (\<lambda>ix. \<not> ix_PrimaryFromIndex ix) (active t)"
    by (simp add: active_def conj_commute)
  moreover have "collect_ops (stage_index (\<lambda>ix. ix_DescriptorOnly ix \<or> ix_PrimaryFromIndex ix) (\<lambda>ix. OpDelete) t hs r (row_pk t r)) (ts_Indexes t) =
      Inr (map (\<lambda>(ix, k). OpDelete k) (row_entries t hs r (row_pk t r)
        (filter (\<lambda>ix. \<not> (ix_DescriptorOnly ix \<or> ix_PrimaryFromIndex ix)) (ts_Indexes t))))"
    by (rule collect_stage) (use assms index_key good_canonical in \<open>auto simp: active_def\<close>)
  ultimately show ?thesis by (simp add: stageDeleteIndexEntries_def)
qed

lemma delete_from_ops:
  assumes "table_key t pk"
  shows "stageDeletePrimaryFromIndexEntries t hs pk =
    Inr (map (\<lambda>(ix, k). OpDelete k) (row_entries t hs r pk (filter ix_PrimaryFromIndex (active t))))"
proof -
  let ?skip = "\<lambda>ix. ix_DescriptorOnly ix \<or> \<not> ix_PrimaryFromIndex ix"
  have "collect_ops (\<lambda>ix. if ?skip ix then Inr [] else bind_res (indexEntryKey t hs ix pk pk) (\<lambda>k. Inr [OpDelete k])) is
      = collect_ops (stage_index ?skip (\<lambda>ix. OpDelete) t hs r pk) is" if "set is \<subseteq> set (ts_Indexes t)" for "is"
    using that
  proof (induction "is")
    case (Cons ix "is")
    have "key_of (ix_Layout ix) pk" if "\<not> ?skip ix"
      using index_primary [of ix] that assms Cons.prems by (auto simp: active_def)
    then have "(if ?skip ix then Inr [] else bind_res (indexEntryKey t hs ix pk pk) (\<lambda>k. Inr [OpDelete k]))
        = stage_index ?skip (\<lambda>ix. OpDelete) t hs r pk ix"
      by (auto simp: stage_index_def indexPartsForRow_def validate_ok check_error_def bind_res_def)
    with Cons show ?case by simp
  qed simp
  moreover have "collect_ops (stage_index ?skip (\<lambda>ix. OpDelete) t hs r pk) (ts_Indexes t) =
      Inr (map (\<lambda>(ix, k). OpDelete k) (row_entries t hs r pk (filter (\<lambda>ix. \<not> ?skip ix) (ts_Indexes t))))"
  proof (rule collect_stage)
    show "key_of (ix_Layout ix) parts" if "ix \<in> set (ts_Indexes t)" "\<not> ?skip ix" "indexPartsForRow r ix pk = Some parts" for ix parts
      using that assms index_primary [of ix] by (auto simp: active_def indexPartsForRow_def)
  qed (use assms in \<open>simp add: key_canonical\<close>)
  moreover have "filter (\<lambda>ix. \<not> ?skip ix) (ts_Indexes t) = filter ix_PrimaryFromIndex (active t)"
    by (simp add: active_def conj_commute)
  ultimately show ?thesis by (simp add: stageDeletePrimaryFromIndexEntries_def)
qed

lemma entries_parts:
  "snd ` set (row_entries t hs r pk (filter ix_PrimaryFromIndex (active t))) \<union> snd ` set (row_entries t hs r pk (filter (\<lambda>ix. \<not> ix_PrimaryFromIndex ix) (active t)))
    = snd ` set (row_entries t hs r pk (active t))"
proof -
  have "set (row_entries t hs r pk (filter ix_PrimaryFromIndex (active t))) \<union> set (row_entries t hs r pk (filter (\<lambda>ix. \<not> ix_PrimaryFromIndex ix) (active t)))
      = set (row_entries t hs r pk (active t))"
    by (auto simp: row_entries_set)
  then show ?thesis by (metis image_Un)
qed

lemma no_decoded: "\<not> hasDecodedIndexEntries t \<Longrightarrow> filter (\<lambda>ix. \<not> ix_PrimaryFromIndex ix) (active t) = []"
  by (auto simp: hasDecodedIndexEntries_def list_ex_iff active_def filter_empty_conv)

lemma map_deletes: "map (\<lambda>(ix, k). OpDelete k) es = map OpDelete (map snd es)"
  by (simp add: case_prod_beta')

text \<open>The deletions a write or a delete stages for the row that is there.\<close>

lemma old_ops:
  assumes "row_stored t good hs pk v r" "table_key t pk"
  obtains ks where "set ks = snd ` set (row_entries t hs r pk (active t))"
    "stage_old t hs pk (row_key t hs pk) (Some v) = Inr (map OpDelete ks)"
    "bind_res (stageDeletePrimaryFromIndexEntries t hs pk) (\<lambda>ops1.
       bind_res (if hasDecodedIndexEntries t
                 then bind_res (ts_DecodeValue t (row_key t hs pk) pk v) (\<lambda>old. stageDeleteIndexEntries t hs old pk) else Inr [])
         (\<lambda>ops2. f (ops1 @ ops2))) = f (map OpDelete ks)"
proof -
  let ?from = "row_entries t hs r pk (filter ix_PrimaryFromIndex (active t))"
  let ?rest = "row_entries t hs r pk (filter (\<lambda>ix. \<not> ix_PrimaryFromIndex ix) (active t))"
  have g: "good hs r" "row_pk t r = pk" using assms(1) by (auto simp: row_stored_def)
  have r: "(if hasDecodedIndexEntries t
       then bind_res (ts_DecodeValue t (row_key t hs pk) pk v) (\<lambda>old. stageDeleteIndexEntries t hs old pk) else Inr []) = Inr (map OpDelete (map snd ?rest))"
    using delete_ops [OF g(1)] g(2) stored_decodes [OF assms(1)] no_decoded by (simp add: bind_res_def map_deletes)
  have f: "stageDeletePrimaryFromIndexEntries t hs pk = Inr (map OpDelete (map snd ?from))"
    using delete_from_ops [OF assms(2)] by (simp add: map_deletes)
  show thesis
  proof
    show "set (map snd ?from @ map snd ?rest) = snd ` set (row_entries t hs r pk (active t))"
      using entries_parts by (simp only: set_append set_map)
  qed (use r f in \<open>simp_all add: stage_old_def bind_res_def\<close>)
qed

lemma row_entries_inside: "k \<in> snd ` set (row_entries t hs r pk is) \<Longrightarrow> \<not> outside t hs k"
proof -
  assume "k \<in> snd ` set (row_entries t hs r pk is)"
  then obtain ix where e: "entry_of_row t hs ix r pk k" unfolding entry_keys by blast
  show ?thesis by (rule inside_entry [OF entry_prefix_of [OF e]])
qed

lemma row_prefix_not_entry: "HasPrefix k (row_prefix_of t hs) \<Longrightarrow> \<not> HasPrefix k (entry_prefix t hs' ix)"
  by (auto simp: HasPrefix_iff row_prefix_of_def entry_prefix_def head_differs)

section \<open>The effect of a batch\<close>

lemma staged_effect:
  assumes "k \<notin> set ks" "k \<notin> snd ` set es"
  shows "apply_ops (map OpDelete ks @ [OpSet k v] @ map (\<lambda>(ix, k). OpSet k (f ix)) es) m k = Some v"
    "k' \<noteq> k \<Longrightarrow> k' \<notin> set ks \<Longrightarrow> k' \<notin> snd ` set es \<Longrightarrow>
      apply_ops (map OpDelete ks @ [OpSet k v] @ map (\<lambda>(ix, k). OpSet k (f ix)) es) m k' = m k'"
    "k' \<noteq> k \<Longrightarrow> apply_ops (map OpDelete ks @ [OpSet k v] @ map (\<lambda>(ix, k). OpSet k (f ix)) es) m k' \<noteq> None
      \<longleftrightarrow> k' \<in> snd ` set es \<or> m k' \<noteq> None \<and> k' \<notin> set ks"
  using assms by (auto simp: apply_deletes apply_sets apply_sets_other)

lemma old_not_row: "row_key t hs pk' \<notin> old_entries t m hs pk"
  using row_no_member by (auto simp: old_entries_def split: option.splits)

lemma old_inside: "k \<in> old_entries t m hs pk \<Longrightarrow> \<not> outside t hs k"
  using row_entries_inside by (auto simp: old_entries_def split: option.splits)

lemma old_members:
  assumes "ix \<in> set (active t)" "HasPrefix k (entry_prefix t hs ix)"
  shows "k \<in> old_entries t m hs pk \<longleftrightarrow> (\<exists>r. table_rows t m hs pk = Some r \<and> entry_of_row t hs ix r pk k)"
  using entry_members [OF assms] by (auto simp: old_entries_def split: option.splits)

lemma put_update:
  assumes inv: "table_inv t good m hs" and good: "good hs r" and v: "ts_EncodeValue t (row_key t hs (row_pk t r)) r = Inr v"
    and ks: "set ks \<subseteq> old_entries t m hs (row_pk t r)"
      "old_entries t m hs (row_pk t r) \<subseteq> set ks \<union> snd ` set (row_entries t hs r (row_pk t r) (active t))"
  shows "row_update t good hs (row_pk t r) (Some r) m
    (apply_ops (map OpDelete ks @ [OpSet (row_key t hs (row_pk t r)) v]
       @ map (\<lambda>(ix, k). OpSet k (f ix)) (row_entries t hs r (row_pk t r) (active t))) m)"
proof -
  let ?pk = "row_pk t r" and ?k = "row_key t hs (row_pk t r)" and ?es = "row_entries t hs r (row_pk t r) (active t)"
  define m' where "m' = apply_ops (map OpDelete ks @ [OpSet ?k v] @ map (\<lambda>(ix, k). OpSet k (f ix)) ?es) m"
  have pk: "table_key t ?pk" using good by (rule good_key)
  have notin: "row_key t hs pk' \<notin> set ks" "row_key t hs pk' \<notin> snd ` set ?es" for pk'
    using ks(1) old_not_row row_no_member by blast+
  note eff = staged_effect [OF notin [of ?pk], where v = v and f = f and m = m, folded m'_def]
  have upd: "table_rows t m' hs = (table_rows t m hs)(?pk := Some r)" "table_inv t good m' hs"
  proof (rule_tac [!] update_inv [OF inv pk, where u = "Some v" and w = "Some r"])
    show s: "case Some r of None \<Rightarrow> Some v = None | Some r \<Rightarrow> \<exists>w. Some v = Some w \<and> row_stored t good hs ?pk w r"
      using good v by (simp add: row_stored_def)
    then show "case Some r of None \<Rightarrow> Some v = None | Some r \<Rightarrow> \<exists>w. Some v = Some w \<and> row_stored t good hs ?pk w r" .
    show g: "m' (row_key t hs pk') = (if pk' = ?pk then Some v else m (row_key t hs pk'))" if "table_key t pk'" for pk'
      using eff notin row_key_inject [OF that pk] by auto
    then show "table_key t pk' \<Longrightarrow> m' (row_key t hs pk') = (if pk' = ?pk then Some v else m (row_key t hs pk'))" for pk' .
    show e: "m' k \<noteq> None \<longleftrightarrow> (\<exists>r'. Some r = Some r' \<and> entry_of_row t hs ix r' ?pk k)
        \<or> m k \<noteq> None \<and> \<not> (\<exists>r. table_rows t m hs ?pk = Some r \<and> entry_of_row t hs ix r ?pk k)"
      if ix: "ix \<in> set (active t)" and k: "HasPrefix k (entry_prefix t hs ix)" for ix k
    proof -
      have "k \<noteq> ?k" using k row_not_entry(2) [of t hs ix] by (auto simp: HasPrefix_iff)
      then show ?thesis
        using eff(3) [of k] old_members [OF ix k, of m ?pk] entry_members [OF ix k, of r ?pk] ks by auto
    qed
    then show "ix \<in> set (active t) \<Longrightarrow> HasPrefix k (entry_prefix t hs ix) \<Longrightarrow>
        m' k \<noteq> None \<longleftrightarrow> (\<exists>r'. Some r = Some r' \<and> entry_of_row t hs ix r' ?pk k)
        \<or> m k \<noteq> None \<and> \<not> (\<exists>r. table_rows t m hs ?pk = Some r \<and> entry_of_row t hs ix r ?pk k)" for ix k .
  qed
  have frame: "m' k = m k" if "outside t hs k" for k
    using eff(2) [of k] that inside_row [of t hs ?pk] ks(1) old_inside [of k m hs ?pk] row_entries_inside [of k hs r ?pk "active t"] by blast
  have "rows_clean t m' hs" if clean: "rows_clean t m hs"
  proof -
    have "\<exists>pk. table_key t pk \<and> k = row_key t hs pk" if k: "HasPrefix k (row_prefix_of t hs)" and g: "m' k = Some u" for k u
    proof (cases "k = ?k")
      case False
      have "k \<notin> snd ` set ?es" unfolding entry_keys using row_prefix_not_entry [OF k] entry_prefix_of by metis
      then have "m k \<noteq> None" using eff(3) [OF False] g by simp
      then show ?thesis using clean k unfolding rows_clean_def by blast
    qed (use pk in blast)
    then show ?thesis unfolding rows_clean_def by blast
  qed
  with upd frame show ?thesis unfolding row_update_def m'_def [symmetric] by simp
qed

lemma remove_update:
  assumes inv: "table_inv t good m hs" and pk: "table_key t pk"
    and ks: "old_entries t m hs pk \<subseteq> set ks"
      "\<And>k. k \<in> set ks \<Longrightarrow> k \<in> old_entries t m hs pk \<or> m k = None \<and> (\<exists>ix \<in> set (active t). HasPrefix k (entry_prefix t hs ix))"
  shows "row_update t good hs pk None m (apply_ops (map OpDelete (ks @ [row_key t hs pk])) m)"
proof -
  define m' where "m' = apply_ops (map OpDelete (ks @ [row_key t hs pk])) m"
  have m': "m' k = (if k \<in> set ks \<or> k = row_key t hs pk then None else m k)" for k
    by (simp add: m'_def apply_deletes del: map_append)
  have rows: "row_key t hs pk' \<notin> set ks" for pk'
    using ks(2) old_not_row row_not_entry(1) by (fastforce simp: HasPrefix_iff)
  have "table_rows t m' hs = (table_rows t m hs)(pk := None)" "table_inv t good m' hs"
  proof -
    have a: "m' (row_key t hs pk') = (if pk' = pk then None else m (row_key t hs pk'))" if "table_key t pk'" for pk'
      using rows row_key_inject [OF that pk] by (simp add: m')
    have b: "m' k \<noteq> None \<longleftrightarrow> (\<exists>r. None = Some r \<and> entry_of_row t hs ix r pk k)
        \<or> m k \<noteq> None \<and> \<not> (\<exists>r. table_rows t m hs pk = Some r \<and> entry_of_row t hs ix r pk k)"
      if ix: "ix \<in> set (active t)" and k: "HasPrefix k (entry_prefix t hs ix)" for ix k
    proof -
      have "k \<noteq> row_key t hs pk" using k row_not_entry(2) [of t hs ix] by (auto simp: HasPrefix_iff)
      then show ?thesis using ks old_members [OF ix k, of m pk] by (auto simp: m')
    qed
    show "table_rows t m' hs = (table_rows t m hs)(pk := None)" "table_inv t good m' hs"
      using update_inv [OF inv pk, of None None m'] a b by simp_all
  qed
  moreover have "m' k = m k" if "outside t hs k" for k
    using that inside_row [of t hs pk] ks(2) [of k] old_inside [of k m hs pk] inside_entry [of k t hs] by (auto simp: m')
  moreover have "rows_clean t m' hs" if "rows_clean t m hs"
    using that unfolding rows_clean_def m' by (metis option.distinct(1))
  ultimately show ?thesis unfolding row_update_def m'_def [symmetric] by simp
qed

text \<open>A table without indexes: one key is set or deleted.\<close>

lemma plain_entries: "active t = [] \<Longrightarrow> old_entries t m hs pk = {}"
  by (simp add: old_entries_def split: option.split)

lemma plain_put:
  assumes "active t = []" "table_inv t good m hs" "good hs r" "ts_EncodeValue t (row_key t hs (row_pk t r)) r = Inr v"
  shows "row_update t good hs (row_pk t r) (Some r) m (m(row_key t hs (row_pk t r) \<mapsto> v))"
  using put_update [OF assms(2-4), of "[]"] plain_entries [OF assms(1)] assms(1) by simp

lemma plain_remove:
  assumes "active t = []" "table_inv t good m hs" "table_key t pk"
  shows "row_update t good hs pk None m (m(row_key t hs pk := None))"
  using remove_update [OF assms(2,3), of "[]"] plain_entries [OF assms(1)] by simp

end

end
