(* ===== verification/TableSafety.thy ===== *)
theory TableSafety
  imports TableStore
begin

text \<open>
  The operations of the table runtime over an engine, once for all tables: reading a row, writing one in each mode and deleting one
  act on the map that the table is, and a batch is committed as a whole or not at all.
\<close>

locale batch_table = batch_engine eng + table_spec t good
  for eng :: "'db Engine" and t :: "'r TableSpec" and good :: "HashSlot \<Rightarrow> 'r \<Rightarrow> bool"
begin

lemma get_exact:
  assumes "table_inv t good (eg_Get eng d) hs" "table_key t pk"
  shows "getByPrimaryKey t eng d hs pk = Inr (table_rows t (eg_Get eng d) hs pk)"
proof (cases "eg_Get eng d (row_key t hs pk)")
  case None
  then show ?thesis
    using assms by (simp add: getByPrimaryKey_def validatePrimaryKey_def validate_ok check_error_def bind_res_def primaryRowKey_ok table_rows_def)
next
  case (Some v)
  then obtain r where "row_stored t good hs pk v r" using inv_row [OF assms] by blast
  then show ?thesis
    using assms Some by (simp add: getByPrimaryKey_def validatePrimaryKey_def validate_ok check_error_def bind_res_def primaryRowKey_ok
        table_rows_def stored_decodes)
qed

lemma no_unique: "stageUniqueIndexChecks t eng d None hs r pk = Inr ()"
proof -
  have "unique_indexes t eng d None hs r pk is = Inr ()" if "set is \<subseteq> set (ts_Indexes t)" for "is"
    using that
  proof (induction "is")
    case (Cons ix "is")
    then have "ix_DescriptorOnly ix \<or> \<not> ix_Unique ix" using index_plain [of ix] by (auto simp: active_def)
    then show ?case using Cons by (auto simp: bind_res_def)
  qed simp
  then show ?thesis by (simp add: stageUniqueIndexChecks_def bind_res_def)
qed

lemma write_closed:
  assumes inv: "table_inv t good (eg_Get eng d) hs" and good: "good hs r"
  obtains ks f v where
    "ts_EncodeValue t (row_key t hs (row_pk t r)) r = Inr v"
    "set ks = old_entries t (eg_Get eng d) hs (row_pk t r)"
    "table_write t eng d hs r mode = bind_res (check_mode mode (table_rows t (eg_Get eng d) hs (row_pk t r) \<noteq> None)) (\<lambda>_.
       commit_batch eng d (map OpDelete ks @ [OpSet (row_key t hs (row_pk t r)) v]
         @ map (\<lambda>(ix, k). OpSet k (f ix)) (row_entries t hs r (row_pk t r) (active t))))"
proof -
  let ?pk = "row_pk t r" and ?k = "row_key t hs (row_pk t r)"
  have pk: "table_key t ?pk" using good by (rule good_key)
  obtain v where v: "ts_EncodeValue t ?k r = Inr v" using good_encode [OF good] by blast
  obtain ks where ks: "set ks = old_entries t (eg_Get eng d) hs ?pk"
    and st: "stage_old t hs ?pk ?k (eg_Get eng d ?k) = Inr (map OpDelete ks)"
  proof (cases "eg_Get eng d ?k")
    case None
    then show thesis using that [of "[]"] rows_none [OF inv pk] by (simp add: stage_old_def old_entries_def)
  next
    case (Some w)
    then obtain r0 where r0: "row_stored t good hs ?pk w r0" using inv_row [OF inv pk] by blast
    then have rw: "table_rows t (eg_Get eng d) hs ?pk = Some r0" using Some pk by (simp add: table_rows_def stored_decodes)
    obtain ks where "set ks = snd ` set (row_entries t hs r0 ?pk (active t))" "stage_old t hs ?pk ?k (Some w) = Inr (map OpDelete ks)"
      using old_ops [OF r0 pk] by metis
    with that [of ks] rw Some show thesis by (simp add: old_entries_def)
  qed
  have ex: "eg_Get eng d ?k \<noteq> None \<longleftrightarrow> table_rows t (eg_Get eng d) hs ?pk \<noteq> None" using rows_none [OF inv pk] by simp
  have w: "table_write t eng d hs r mode = bind_res (check_mode mode (table_rows t (eg_Get eng d) hs ?pk \<noteq> None)) (\<lambda>_.
       commit_batch eng d (map OpDelete ks @ [OpSet ?k v]
         @ map (\<lambda>(ix, k). OpSet k (if ix_StorePrimaryValue ix then v else [])) (row_entries t hs r ?pk (active t))))"
    unfolding table_write_def good_valid [OF good] check_error_def option.case bind_res_def sum.case table_primaryKey_def Let_def
      validatePrimaryKey_def validate_ok [OF pk] primaryRowKey_ok [OF pk] v ex st no_unique put_ops [OF good] ..
  show thesis by (rule that [where f = "\<lambda>ix. if ix_StorePrimaryValue ix then v else []", OF v ks w])
qed

text \<open>A write is refused exactly when its mode is, and a committed one is the update of the map.\<close>

lemma write_exact:
  assumes inv: "table_inv t good (eg_Get eng d) hs" and good: "good hs r"
  shows "case table_write t eng d hs r mode of
      Inl e \<Rightarrow> check_mode mode (table_rows t (eg_Get eng d) hs (row_pk t r) \<noteq> None) = (if e = DBErrCommit then Inr () else Inl e)
    | Inr d' \<Rightarrow> check_mode mode (table_rows t (eg_Get eng d) hs (row_pk t r) \<noteq> None) = Inr ()
        \<and> row_update t good hs (row_pk t r) (Some r) (eg_Get eng d) (eg_Get eng d')"
proof -
  obtain ks f v where v: "ts_EncodeValue t (row_key t hs (row_pk t r)) r = Inr v"
    and ks: "set ks = old_entries t (eg_Get eng d) hs (row_pk t r)"
    and w: "table_write t eng d hs r mode = bind_res (check_mode mode (table_rows t (eg_Get eng d) hs (row_pk t r) \<noteq> None)) (\<lambda>_.
       commit_batch eng d (map OpDelete ks @ [OpSet (row_key t hs (row_pk t r)) v]
         @ map (\<lambda>(ix, k). OpSet k (f ix)) (row_entries t hs r (row_pk t r) (active t))))"
    using write_closed [OF assms] .
  have up: "row_update t good hs (row_pk t r) (Some r) (eg_Get eng d) (eg_Get eng d')"
    if "eg_Commit eng d (map OpDelete ks @ [OpSet (row_key t hs (row_pk t r)) v]
         @ map (\<lambda>(ix, k). OpSet k (f ix)) (row_entries t hs r (row_pk t r) (active t))) = Some d'" for d'
    unfolding get_commit [OF that] by (rule put_update [OF inv good v]) (use ks in auto)
  have cm: "check_mode mode x = Inl e \<Longrightarrow> e \<noteq> DBErrCommit" for x e by (auto simp: check_mode_def split: tableWriteMode.splits if_splits)
  show ?thesis
    unfolding w using up cm by (auto simp: bind_res_def commit_batch_def split: sum.splits option.splits)
qed

lemma delete_closed:
  assumes inv: "table_inv t good (eg_Get eng d) hs" and pk: "table_key t pk"
  obtains ks where
    "case table_rows t (eg_Get eng d) hs pk of None \<Rightarrow> \<forall>k \<in> set ks. eg_Get eng d k = None \<and> (\<exists>ix \<in> set (active t). HasPrefix k (entry_prefix t hs ix))
      | Some r0 \<Rightarrow> set ks = snd ` set (row_entries t hs r0 pk (active t))"
    "table_Delete t eng d hs pk = commit_batch eng d (map OpDelete (ks @ [row_key t hs pk]))"
proof (cases "eg_Get eng d (row_key t hs pk)")
  case None
  then have n: "table_rows t (eg_Get eng d) hs pk = None" using rows_none [OF inv pk] by simp
  define es where "es = row_entries t hs undefined pk (filter ix_PrimaryFromIndex (active t))"
  have f: "stageDeletePrimaryFromIndexEntries t hs pk = Inr (map OpDelete (map snd es))"
    using delete_from_ops [OF pk] by (simp add: map_deletes es_def)
  have e: "eg_Get eng d k = None \<and> (\<exists>ix \<in> set (active t). HasPrefix k (entry_prefix t hs ix))" if "k \<in> snd ` set es" for k
  proof -
    from that obtain ix where m: "(ix, k) \<in> set es" by force
    then have ix: "ix \<in> set (active t)" "ix_PrimaryFromIndex ix" and k: "k = entry_key t hs ix pk pk"
      by (auto simp: es_def row_entries_set entry_of_row_def indexPartsForRow_def)
    have hp: "HasPrefix k (entry_prefix t hs ix)" using k by (simp add: entry_key_def)
    have "pk' = pk" if r: "table_rows t (eg_Get eng d) hs pk' = Some r" "entry_of_row t hs ix r pk' k" for pk' r
    proof -
      have "table_key t pk'" using rows_stored [OF inv r(1)] .
      moreover have "parts_bytes pk' @ [] = parts_bytes pk @ []"
        using r(2) ix(2) k by (auto simp: entry_of_row_def indexPartsForRow_def entry_key_def)
      ultimately show ?thesis using parts_inject [of _ pk' pk "[]" "[]"] pk by blast
    qed
    then have "\<not> (\<exists>pk' r. table_rows t (eg_Get eng d) hs pk' = Some r \<and> entry_of_row t hs ix r pk' k)" using n by fastforce
    then show ?thesis using inv_entry [OF inv ix(1) hp] ix(1) hp by blast
  qed
  show thesis
    by (rule that [of "map snd es"])
      (use n e f None in \<open>auto simp: table_Delete_def validatePrimaryKey_def validate_ok [OF pk] primaryRowKey_ok [OF pk] check_error_def bind_res_def\<close>)
next
  case (Some w)
  then obtain r0 where r0: "row_stored t good hs pk w r0" using inv_row [OF inv pk] by blast
  then have rw: "table_rows t (eg_Get eng d) hs pk = Some r0" using Some pk by (simp add: table_rows_def stored_decodes)
  obtain ks where ks: "set ks = snd ` set (row_entries t hs r0 pk (active t))"
    and ops: "bind_res (stageDeletePrimaryFromIndexEntries t hs pk) (\<lambda>ops1.
       bind_res (if hasDecodedIndexEntries t
                 then bind_res (ts_DecodeValue t (row_key t hs pk) pk w) (\<lambda>old. stageDeleteIndexEntries t hs old pk) else Inr [])
         (\<lambda>ops2. commit_batch eng d ((ops1 @ ops2) @ [OpDelete (row_key t hs pk)])))
      = commit_batch eng d (map OpDelete ks @ [OpDelete (row_key t hs pk)])"
    using old_ops [OF r0 pk, where f = "\<lambda>ops. commit_batch eng d (ops @ [OpDelete (row_key t hs pk)])"] by metis
  show thesis
    by (rule that [of ks])
      (use rw ks ops Some in \<open>simp_all add: table_Delete_def validatePrimaryKey_def validate_ok [OF pk] primaryRowKey_ok [OF pk] check_error_def bind_res_def cong: sum.case_cong\<close>)
qed

lemma delete_exact:
  assumes inv: "table_inv t good (eg_Get eng d) hs" and pk: "table_key t pk"
  shows "case table_Delete t eng d hs pk of
      Inl e \<Rightarrow> e = DBErrCommit
    | Inr d' \<Rightarrow> row_update t good hs pk None (eg_Get eng d) (eg_Get eng d')"
proof -
  obtain ks where ks: "case table_rows t (eg_Get eng d) hs pk of
        None \<Rightarrow> \<forall>k \<in> set ks. eg_Get eng d k = None \<and> (\<exists>ix \<in> set (active t). HasPrefix k (entry_prefix t hs ix))
      | Some r0 \<Rightarrow> set ks = snd ` set (row_entries t hs r0 pk (active t))"
    and del: "table_Delete t eng d hs pk = commit_batch eng d (map OpDelete (ks @ [row_key t hs pk]))"
    using delete_closed [OF assms] .
  have "row_update t good hs pk None (eg_Get eng d) (eg_Get eng d')" if "eg_Commit eng d (map OpDelete (ks @ [row_key t hs pk])) = Some d'" for d'
    unfolding get_commit [OF that] by (rule remove_update [OF inv pk]) (use ks in \<open>auto simp: old_entries_def split: option.splits\<close>)
  then show ?thesis by (simp add: del commit_batch_def split: option.split)
qed

end

text \<open>
  The scans of the table runtime: a scan lists the rows behind its cursor in the order of their keys, page by page.
\<close>

section \<open>Pages\<close>

text \<open>The page of a scan that would list \<open>rs\<close>: with \<open>stop\<close>, a full page is never the last one.\<close>

definition page :: "'r TableSpec \<Rightarrow> int option \<Rightarrow> bool \<Rightarrow> 'r list \<Rightarrow> 'r list \<times> KeyParts \<times> bool" where
  "page t limit stop rs =
     (case limit of
        None \<Rightarrow> (rs, [], True)
      | Some n \<Rightarrow>
          if int (length rs) < n \<or> \<not> stop \<and> int (length rs) = n then (rs, [], True)
          else (take (nat n) rs, row_pk t (last (take (nat n) rs)), False))"

definition listed :: "'r TableSpec \<Rightarrow> contents \<Rightarrow> HashSlot \<Rightarrow> KeyParts \<Rightarrow> KeyParts \<Rightarrow> 'r list \<Rightarrow> bool" where
  "listed t m hs prefix after rs \<longleftrightarrow>
     sorted_wrt (\<lambda>a b. row_key t hs (row_pk t a) < row_key t hs (row_pk t b)) rs
     \<and> (\<forall>r. r \<in> set rs \<longleftrightarrow> (\<exists>pk. table_rows t m hs pk = Some r \<and> keyPartsHasPrefix pk prefix
             \<and> (after = [] \<or> row_key t hs after < row_key t hs pk)))"

lemma key_bytes_prefix:
  assumes "key_of layout pk" "key_of (take (length prefix) layout) prefix"
  shows "HasPrefix (parts_bytes pk @ s) (parts_bytes prefix) \<longleftrightarrow> keyPartsHasPrefix pk prefix"
proof
  let ?n = "length prefix"
  assume "HasPrefix (parts_bytes pk @ s) (parts_bytes prefix)"
  then obtain r where r: "parts_bytes pk @ s = parts_bytes prefix @ r" by (auto simp: HasPrefix_iff)
  have "key_of (take ?n layout) (take ?n pk)"
    using assms(1) by (auto simp: key_of_def take_map [symmetric] list_all_iff dest: in_set_takeD)
  moreover have "parts_bytes (take ?n pk) @ parts_bytes (drop ?n pk) @ s = parts_bytes prefix @ r"
    using r by (metis append.assoc append_take_drop_id parts_bytes_simps(3))
  ultimately have e: "take ?n pk = prefix" using parts_inject assms(2) by blast
  then show "keyPartsHasPrefix pk prefix" unfolding keyPartsHasPrefix_def by (metis length_take min.cobounded1)
next
  assume "keyPartsHasPrefix pk prefix"
  then have "pk = prefix @ drop (length prefix) pk" by (metis append_take_drop_id keyPartsHasPrefix_def)
  then have "parts_bytes pk @ s = parts_bytes prefix @ parts_bytes (drop (length prefix) pk) @ s"
    by (metis append.assoc parts_bytes_simps(3))
  then show "HasPrefix (parts_bytes pk @ s) (parts_bytes prefix)" by (simp add: HasPrefix_iff)
qed

lemma head_below_max: "\<exists>b \<in> set (slot_head hs sp @ r). b \<noteq> 0xFF"
  by (simp add: slot_head_def key_consts)

lemma prefix_end_row:
  assumes "table_key t pk" "table_key t after"
  shows "PrefixEnd (row_key t hs after) \<le> row_key t hs pk \<longleftrightarrow> row_key t hs after < row_key t hs pk"
proof -
  let ?a = "row_key t hs after" and ?k = "row_key t hs pk"
  have b: "\<exists>b \<in> set ?a. b \<noteq> 0xFF" by (simp add: row_key_def row_prefix_of_def slot_head_def key_consts)
  have i: "?a \<le> x \<and> x < PrefixEnd ?a \<longleftrightarrow> HasPrefix x ?a" for x
    using span_exact [OF b, of x] by (simp add: in_span_def NewPrefixSpan_def)
  have self: "?a < PrefixEnd ?a" using i [of ?a] by (simp add: HasPrefix_def)
  have "HasPrefix ?k ?a \<longleftrightarrow> ?k = ?a"
  proof
    assume "HasPrefix ?k ?a"
    then obtain z where "?k = ?a @ z" by (auto simp: HasPrefix_iff)
    then have "parts_bytes pk @ row_suffix t = parts_bytes after @ row_suffix t @ z" by (simp add: row_key_def)
    then have "row_suffix t = row_suffix t @ z" using parts_inject [OF assms] by blast
    then show "?k = ?a" using \<open>?k = ?a @ z\<close> by simp
  qed (simp add: HasPrefix_def)
  with i [of ?k] self show ?thesis by (auto simp: not_less [symmetric])
qed

section \<open>The loop of a scan\<close>

definition fits :: "int option \<Rightarrow> bool \<Rightarrow> 'r list \<Rightarrow> bool" where
  "fits limit stop rs \<longleftrightarrow> (case limit of None \<Rightarrow> True | Some n \<Rightarrow> int (length rs) < n \<or> \<not> stop \<and> int (length rs) = n)"

lemma page_fits: "fits limit stop rs \<Longrightarrow> page t limit stop rs = (rs, [], True)"
  "\<not> fits (Some n) stop rs \<Longrightarrow> page t (Some n) stop rs = (take (nat n) rs, row_pk t (last (take (nat n) rs)), False)"
  by (auto simp: fits_def page_def split: option.splits)

lemma take_append_less: "nat n = length xs \<Longrightarrow> take (nat n) (xs @ ys) = xs"
  by simp

locale stored_table = ordered_engine eng + table_spec t good
  for eng :: "'db Engine" and t :: "'r TableSpec" and good :: "HashSlot \<Rightarrow> 'r \<Rightarrow> bool"

sublocale stored_table \<subseteq> batch_table ..

context stored_table
begin

lemma primary_loop_exact:
  assumes "list_all2 (\<lambda>(k, v) r. k = row_key t hs (row_pk t r) \<and> row_stored t good hs (row_pk t r) v r \<and> keyPartsHasPrefix (row_pk t r) prefix) es rs"
    and "\<And>n. limit = Some n \<Longrightarrow> 0 < n \<and> (int (length rows) < n \<or> \<not> stop \<and> int (length rows) = n)"
    and "rows \<noteq> [] \<longrightarrow> cur = row_pk t (last rows)"
  shows "primary_loop t (row_prefix_of t hs) prefix limit strict stop es rows cur = Inr (page t limit stop (rows @ rs))"
  using assms
proof (induction es rs arbitrary: rows cur rule: list_all2_induct)
  case Nil
  then have "fits limit stop rows" by (auto simp: fits_def split: option.split)
  then show ?case by (simp add: page_fits)
next
  case (Cons e es r rs)
  obtain k v where e: "e = (k, v)" by (cases e)
  with Cons.hyps have k: "k = row_key t hs (row_pk t r)" and s: "row_stored t good hs (row_pk t r) v r"
    and p: "keyPartsHasPrefix (row_pk t r) prefix" by auto
  have g: "table_key t (row_pk t r)" using s good_key by (auto simp: row_stored_def)
  have step: "primary_loop t (row_prefix_of t hs) prefix limit strict stop (e # es) rows cur =
      (if limit = Some (int (length rows)) then Inr (rows, cur, False)
       else if stop \<and> limit = Some (int (length (rows @ [r]))) then Inr (rows @ [r], row_pk t r, False)
       else primary_loop t (row_prefix_of t hs) prefix limit strict stop es (rows @ [r]) (row_pk t r))"
    by (simp add: e k decode_row_key [OF g] p stored_decodes [OF s] bind_res_def Let_def)
  show ?case
  proof (cases "limit = Some (int (length rows))")
    case True
    then have "rows \<noteq> []" "\<not> fits limit stop (rows @ r # rs)" using Cons.prems(1) by (auto simp: fits_def)
    then have "page t limit stop (rows @ r # rs) = (rows, cur, False)"
      using True Cons.prems(2) page_fits(2) [of "int (length rows)" stop "rows @ r # rs"] by simp
    then show ?thesis unfolding step using True by simp
  next
    case False
    show ?thesis
    proof (cases "stop \<and> limit = Some (int (length (rows @ [r])))")
      case True
      then have "\<not> fits limit stop (rows @ r # rs)" by (auto simp: fits_def)
      then have "page t limit stop (rows @ r # rs) = (rows @ [r], row_pk t r, False)"
        using True page_fits(2) [of "int (length (rows @ [r]))" stop "rows @ r # rs"] by (simp add: nat_add_distrib)
      then show ?thesis unfolding step using False True by simp
    next
      case nstop: False
      have "primary_loop t (row_prefix_of t hs) prefix limit strict stop es (rows @ [r]) (row_pk t r) = Inr (page t limit stop ((rows @ [r]) @ rs))"
      proof (rule Cons.IH)
        show "0 < n \<and> (int (length (rows @ [r])) < n \<or> \<not> stop \<and> int (length (rows @ [r])) = n)" if "limit = Some n" for n
          using Cons.prems(1) [OF that] False nstop that by auto
      qed simp
      then show ?thesis unfolding step using False nstop by auto
    qed
  qed
qed

lemma scan_exact:
  assumes inv: "table_inv t good (eg_Get eng d) hs" and clean: "rows_clean t (eg_Get eng d) hs"
    and prefix: "key_of (take (length prefix) (pm_Layout (ts_Primary t))) prefix" "length prefix \<le> length (pm_Layout (ts_Primary t))"
    and after: "after \<noteq> [] \<Longrightarrow> table_key t after \<and> keyPartsHasPrefix after prefix" and limit: "\<And>n. limit = Some n \<Longrightarrow> 0 < n"
  obtains rs where "listed t (eg_Get eng d) hs prefix after rs" "scanPrimary t eng d hs prefix after limit strict stop = Inr (page t limit stop rs)"
proof -
  let ?p = "row_prefix_of t hs @ parts_bytes prefix"
  let ?lo = "if after \<noteq> [] then PrefixEnd (row_key t hs after) else ?p"
  define es where "es = eg_Scan eng d ?lo (PrefixEnd ?p)"
  have sp: "?p \<le> k \<and> k < PrefixEnd ?p \<longleftrightarrow> HasPrefix k ?p" for k
    using span_exact [of ?p k] by (simp add: in_span_def NewPrefixSpan_def row_prefix_of_def slot_head_def key_consts)
  have scan: "scanPrimary t eng d hs prefix after limit strict stop = primary_loop t (row_prefix_of t hs) prefix limit strict stop es [] []"
    using prefix after
    by (simp add: scanPrimary_def validatePrimaryPrefix_def validatePrimaryKey_def validate_ok check_error_def bind_res_def key_or_panic_def
        slot_row_prefix row_prefix_of_def [symmetric] encode_parts key_canonical primaryRowKey_ok scan_span_def NewPrefixSpan_def es_def Let_def)
  have hp: "HasPrefix (row_key t hs q) ?p \<longleftrightarrow> keyPartsHasPrefix q prefix" if "table_key t q" for q
    using key_bytes_prefix [OF that prefix(1)] by (simp add: row_key_def)
  have place: "row_key t hs pk \<in> {k. ?lo \<le> k \<and> k < PrefixEnd ?p}
      \<longleftrightarrow> keyPartsHasPrefix pk prefix \<and> (after = [] \<or> row_key t hs after < row_key t hs pk)" if pk: "table_key t pk" for pk
  proof -
    show ?thesis
    proof (cases "after = []")
      case True
      then show ?thesis using sp [of "row_key t hs pk"] hp [OF pk] by simp
    next
      case False
      then have a: "table_key t after" "keyPartsHasPrefix after prefix" using after by auto
      have "?p \<le> row_key t hs after" using sp hp [OF a(1)] a(2) by blast
      then show ?thesis
        using False prefix_end_row [OF pk a(1)] sp [of "row_key t hs pk"] hp [OF pk] by auto
    qed
  qed
  have inside: "HasPrefix k ?p" if "?lo \<le> k" "k < PrefixEnd ?p" for k
  proof (cases "after = []")
    case False
    then have a: "table_key t after" "keyPartsHasPrefix after prefix" using after by auto
    have "?p \<le> row_key t hs after" using sp hp [OF a(1)] a(2) by blast
    moreover have "row_key t hs after \<le> PrefixEnd (row_key t hs after)"
      using span_exact [of "row_key t hs after" "row_key t hs after"]
      by (simp add: in_span_def NewPrefixSpan_def row_key_def row_prefix_of_def slot_head_def key_consts HasPrefix_def)
    ultimately show ?thesis using that False sp [of k] by auto
  next
    case True
    then show ?thesis using that sp [of k] by simp
  qed
  have row_of: "\<exists>r. k = row_key t hs (row_pk t r) \<and> row_stored t good hs (row_pk t r) v r" if m: "(k, v) \<in> set es" for k v
  proof -
    have g: "eg_Get eng d k = Some v" and hp: "HasPrefix k ?p" using m inside by (auto simp: es_def scan_entries)
    from hp have "HasPrefix k (row_prefix_of t hs)" by (auto simp: HasPrefix_iff)
    then obtain pk where pk: "table_key t pk" "k = row_key t hs pk" using clean g unfolding rows_clean_def by blast
    then show ?thesis using inv_row [OF inv pk(1)] g by (auto simp: row_stored_def)
  qed
  define row where "row = (\<lambda>(k, v). SOME r. k = row_key t hs (row_pk t r) \<and> row_stored t good hs (row_pk t r) v r)"
  have row: "k = row_key t hs (row_pk t (row (k, v))) \<and> row_stored t good hs (row_pk t (row (k, v))) v (row (k, v))" if "(k, v) \<in> set es" for k v
    using someI_ex [OF row_of [OF that]] by (simp add: row_def)
  define rs where "rs = map row es"
  have tk: "table_key t (row_pk t (row (k, v)))" if "(k, v) \<in> set es" for k v
    using row [OF that] good_key by (auto simp: row_stored_def)
  have pre: "keyPartsHasPrefix (row_pk t (row (k, v))) prefix \<and> (after = [] \<or> row_key t hs after < k)" if "(k, v) \<in> set es" for k v
    using place [OF tk [OF that]] row [OF that] that by (auto simp: es_def scan_entries)
  have "list_all2 (\<lambda>(k, v) r. k = row_key t hs (row_pk t r) \<and> row_stored t good hs (row_pk t r) v r \<and> keyPartsHasPrefix (row_pk t r) prefix) es rs"
    unfolding rs_def list.rel_map by (rule list.rel_refl_strong) (use row pre in auto)
  then have res: "scanPrimary t eng d hs prefix after limit strict stop = Inr (page t limit stop rs)"
    unfolding scan using primary_loop_exact [of hs prefix es rs limit "[]" stop "[]" strict] limit by simp
  have keys: "map (\<lambda>r. row_key t hs (row_pk t r)) rs = map fst es" using row by (auto simp: rs_def)
  have "sorted_wrt (<) (map fst es)" unfolding es_def by (rule scan_sorted)
  then have sorted: "sorted_wrt (\<lambda>a b. row_key t hs (row_pk t a) < row_key t hs (row_pk t b)) rs"
    unfolding keys [symmetric] by (simp add: sorted_wrt_map)
  have "r \<in> set rs \<longleftrightarrow> (\<exists>pk. table_rows t (eg_Get eng d) hs pk = Some r \<and> keyPartsHasPrefix pk prefix \<and> (after = [] \<or> row_key t hs after < row_key t hs pk))" for r
  proof
    assume "r \<in> set rs"
    then obtain k v where m: "(k, v) \<in> set es" "r = row (k, v)" by (auto simp: rs_def)
    then have "eg_Get eng d k = Some v" by (simp add: es_def scan_entries)
    moreover have "k = row_key t hs (row_pk t r)" "row_stored t good hs (row_pk t r) v r" "table_key t (row_pk t r)"
      using row [OF m(1)] tk [OF m(1)] m(2) by auto
    ultimately have "table_rows t (eg_Get eng d) hs (row_pk t r) = Some r"
      using stored_decodes by (simp add: table_rows_def)
    then show "\<exists>pk. table_rows t (eg_Get eng d) hs pk = Some r \<and> keyPartsHasPrefix pk prefix \<and> (after = [] \<or> row_key t hs after < row_key t hs pk)"
      using pre [OF m(1)] row [OF m(1)] m(2) by metis
  next
    assume "\<exists>pk. table_rows t (eg_Get eng d) hs pk = Some r \<and> keyPartsHasPrefix pk prefix \<and> (after = [] \<or> row_key t hs after < row_key t hs pk)"
    then obtain pk where r: "table_rows t (eg_Get eng d) hs pk = Some r" "keyPartsHasPrefix pk prefix" "after = [] \<or> row_key t hs after < row_key t hs pk" by blast
    from rows_stored [OF inv r(1)] obtain v where v: "table_key t pk" "eg_Get eng d (row_key t hs pk) = Some v" "row_stored t good hs pk v r" .
    then have m: "(row_key t hs pk, v) \<in> set es" using place [OF v(1)] r(2,3) by (auto simp: es_def scan_entries)
    have "row (row_key t hs pk, v) = r"
      using row [OF m] row_key_inject [OF v(1) tk [OF m]] stored_decodes [OF v(3)] stored_decodes by (metis sum.inject(2))
    then show "r \<in> set rs" using m by (force simp: rs_def)
  qed
  then have "listed t (eg_Get eng d) hs prefix after rs" using sorted by (simp add: listed_def)
  then show thesis using res by (rule that)
qed

text \<open>Where the pages of a scan meet.\<close>

lemma listed_unique:
  assumes "listed t (eg_Get eng d) hs prefix after rs" "listed t (eg_Get eng d) hs prefix after rs'"
  shows "rs = rs'"
proof (rule map_sorted_distinct_set_unique [where f = "\<lambda>r. row_key t hs (row_pk t r)"])
  have s: "sorted xs \<and> distinct xs" if "sorted_wrt (<) xs" for xs :: "key list" using that strict_sorted_iff by blast
  have "sorted_wrt (<) (map (\<lambda>r. row_key t hs (row_pk t r)) xs)" if "xs = rs \<or> xs = rs'" for xs
    using that assms by (auto simp: listed_def sorted_wrt_map)
  then show "sorted (map (\<lambda>r. row_key t hs (row_pk t r)) rs)" "distinct (map (\<lambda>r. row_key t hs (row_pk t r)) rs)"
    "sorted (map (\<lambda>r. row_key t hs (row_pk t r)) rs')" "distinct (map (\<lambda>r. row_key t hs (row_pk t r)) rs')" using s by blast+
  show e: "set rs = set rs'" using assms by (auto simp: listed_def)
  show "inj_on (\<lambda>r. row_key t hs (row_pk t r)) (set rs \<union> set rs')"
  proof -
    have "distinct (map (\<lambda>r. row_key t hs (row_pk t r)) rs)" using s assms(1) by (simp add: listed_def sorted_wrt_map)
    then show ?thesis using e by (simp add: distinct_map)
  qed
qed

lemma listed_row:
  assumes "table_inv t good (eg_Get eng d) hs" "listed t (eg_Get eng d) hs prefix after rs" "r \<in> set rs"
  shows "table_key t (row_pk t r)" "table_rows t (eg_Get eng d) hs (row_pk t r) = Some r" "keyPartsHasPrefix (row_pk t r) prefix"
    "after = [] \<or> row_key t hs after < row_key t hs (row_pk t r)"
proof -
  from assms(2,3) obtain pk where pk: "table_rows t (eg_Get eng d) hs pk = Some r" "keyPartsHasPrefix pk prefix"
    "after = [] \<or> row_key t hs after < row_key t hs pk" by (auto simp: listed_def)
  moreover from rows_stored [OF assms(1) pk(1)] have "table_key t pk" "row_pk t r = pk" by (auto simp: row_stored_def)
  ultimately show "table_key t (row_pk t r)" "table_rows t (eg_Get eng d) hs (row_pk t r) = Some r" "keyPartsHasPrefix (row_pk t r) prefix"
    "after = [] \<or> row_key t hs after < row_key t hs (row_pk t r)" by auto
qed

lemma listed_next:
  assumes inv: "table_inv t good (eg_Get eng d) hs" and l: "listed t (eg_Get eng d) hs prefix after (xs @ ys)" and ne: "xs \<noteq> []" "row_pk t (last xs) \<noteq> []"
  shows "listed t (eg_Get eng d) hs prefix (row_pk t (last xs)) ys"
proof -
  let ?k = "\<lambda>r. row_key t hs (row_pk t r)"
  have s: "sorted_wrt (\<lambda>a b. ?k a < ?k b) (xs @ ys)" using l by (simp add: listed_def)
  then have above: "?k (last xs) < ?k y" if "y \<in> set ys" for y using that ne by (auto simp: sorted_wrt_append)
  have below: "\<not> ?k (last xs) < ?k x" if "x \<in> set xs" for x
  proof -
    obtain zs where xs: "xs = zs @ [last xs]" using ne by (metis append_butlast_last_id)
    show ?thesis
    proof (cases "x = last xs")
      case False
      then have "x \<in> set zs" using that xs by (metis UnE empty_iff list.set(1) set_ConsD set_append)
      moreover have "sorted_wrt (\<lambda>a b. ?k a < ?k b) (zs @ [last xs])" using s xs by (simp add: sorted_wrt_append)
      ultimately have "?k x < ?k (last xs)" by (auto simp: sorted_wrt_append)
      then show ?thesis by simp
    qed simp
  qed
  have lo: "after = [] \<or> row_key t hs after < ?k (last xs)" using listed_row(4) [OF inv l] ne by simp
  have "r \<in> set ys \<longleftrightarrow> (\<exists>pk. table_rows t (eg_Get eng d) hs pk = Some r \<and> keyPartsHasPrefix pk prefix \<and> ?k (last xs) < row_key t hs pk)" for r
  proof
    assume "r \<in> set ys"
    then show "\<exists>pk. table_rows t (eg_Get eng d) hs pk = Some r \<and> keyPartsHasPrefix pk prefix \<and> ?k (last xs) < row_key t hs pk"
      using listed_row(2,3) [OF inv l, of r] above [of r] by auto
  next
    assume "\<exists>pk. table_rows t (eg_Get eng d) hs pk = Some r \<and> keyPartsHasPrefix pk prefix \<and> ?k (last xs) < row_key t hs pk"
    then obtain pk where pk: "table_rows t (eg_Get eng d) hs pk = Some r" "keyPartsHasPrefix pk prefix" "?k (last xs) < row_key t hs pk" by blast
    then have "r \<in> set (xs @ ys)" using l lo unfolding listed_def by (meson order.strict_trans)
    moreover have "row_pk t r = pk" using rows_stored [OF inv pk(1)] by (auto simp: row_stored_def)
    ultimately show "r \<in> set ys" using below pk(3) by auto
  qed
  then show ?thesis using s ne by (simp add: listed_def sorted_wrt_append)
qed

end

end
