(* ===== verification/MetaTablesSafety.thy ===== *)
theory MetaTablesSafety
  imports MetaConversation TableSafety
begin

text \<open>
  Each table of the metadata store keeps the laws of \<open>table_spec\<close>: its rows have keys, its values read back, and its indexes
  determine their rows.
\<close>

section \<open>Values read back\<close>

lemma read_values [simp]:
  "readValueInt64 (put64 v @ r) = Inr (v, r)" "readValueUint64 (put64 v @ r) = Inr (v, r)"
  "readValueInt64 (put64 v) = Inr (v, [])" "readValueUint64 (put64 v) = Inr (v, [])"
  using get64_put64 [of v "[]"] by (simp_all add: readValueInt64_def readValueUint64_def)

lemma read_string_value: "length s \<le> maxKeyStringLen \<Longrightarrow> readValueString (put16 (of_nat (length s)) @ s @ r) = Inr (s, r)"
  by (simp add: readValueString_def read_string)

lemma append_string: "length s \<le> maxKeyStringLen \<Longrightarrow> appendValueString dst s = Inr (dst @ put16 (of_nat (length s)) @ s)"
  by (simp add: appendValueString_def key_or_panic_def AppendString_def maxKeyStringLen_def maxStringLen_def)

lemma append_string_long: "\<not> length s \<le> maxKeyStringLen \<Longrightarrow> appendValueString dst s = Inl DBPanic"
  by (simp add: appendValueString_def key_or_panic_def AppendString_def maxKeyStringLen_def maxStringLen_def)

lemma read_bytes_value:
  assumes "length b < 2 ^ 32"
  shows "readValueBytes (put32 (of_nat (length b)) @ b @ r) = Inr (b, r)"
proof -
  have "unat (of_nat (length b) :: u32) = length b" using assms by (simp add: unsigned_of_nat take_bit_nat_eq_self)
  then show ?thesis by (simp add: readValueBytes_def be32.get_put get32_def [symmetric])
qed

lemmas value_codec = bind_res_def read_string_value append_string appendValueInt64_def appendValueUint64_def appendValueBytes_def Let_def

lemma valid_string: "validateKeyString s = None \<longleftrightarrow> s \<noteq> [] \<and> length s \<le> maxKeyStringLen"
  by (auto simp: validateKeyString_def)

lemma valid_string_error: "validateKeyString s \<noteq> None \<Longrightarrow> validateKeyString s = Some DBErrInvalidArgument"
  by (simp add: validateKeyString_def split: if_splits)

lemma first_error_None: "first_error cs = None \<longleftrightarrow> (\<forall>c \<in> set cs. c = None)"
  by (induction cs) (auto simp: first_error_def)

lemma key_of_simps:
  "key_of [] [] \<longleftrightarrow> True" "key_of (k # ks) (p # ps) \<longleftrightarrow> canonical p \<and> kp_Kind p = k \<and> (kp_Kind p = KeyString \<longrightarrow> kp_S p \<noteq> []) \<and> key_of ks ps"
  "key_of [] (p # ps) \<longleftrightarrow> False" "key_of (k # ks) [] \<longleftrightarrow> False"
  unfolding key_of_def by auto

section \<open>Users and devices\<close>

definition user_good :: "HashSlot \<Rightarrow> User \<Rightarrow> bool" where
  "user_good hs user \<longleftrightarrow> validateKeyString (us_UID user) = None \<and> length (us_Token user) \<le> maxKeyStringLen"

interpretation user_spec: table_spec userTable user_good
  by unfold_locales
    (auto simp: userTable_def user_good_def valid_string key_of_simps active_def encodeUserValue_def decodeUserValue_def value_codec)

definition device_good :: "HashSlot \<Rightarrow> Device \<Rightarrow> bool" where
  "device_good hs device \<longleftrightarrow> validateKeyString (dv_UID device) = None \<and> length (dv_Token device) \<le> maxKeyStringLen"

interpretation device_spec: table_spec deviceTable device_good
  by unfold_locales
    (auto simp: deviceTable_def device_good_def validateDevice_def valid_string key_of_simps active_def encodeDeviceValue_def
      decodeDeviceValue_def value_codec)

section \<open>Channels and subscribers\<close>

definition channel_good :: "HashSlot \<Rightarrow> Channel \<Rightarrow> bool" where
  "channel_good hs channel \<longleftrightarrow> validateKeyString (cn_ChannelID channel) = None"

lemma channel_value: "decodeChannelValue (cn_ChannelID c) (cn_ChannelType c) (encodeChannelValue c) = Inr c"
  by (simp add: decodeChannelValue_def encodeChannelValue_def value_codec)

interpretation channel_spec: table_spec channelTable channel_good
  by unfold_locales
    (auto simp: channelTable_def channel_good_def validateChannel_def valid_string key_of_simps active_def channel_value
      indexPartsForRow_def channelIDIndexID_def channelActiveIndexID_def)

definition subscriber_good :: "HashSlot \<Rightarrow> Subscriber \<Rightarrow> bool" where
  "subscriber_good hs s \<longleftrightarrow> validateKeyString (sb_ChannelID s) = None \<and> validateKeyString (sb_UID s) = None"

lemma valid_subscriber: "subscriber_good hs s \<longleftrightarrow> validateSubscriber s = None"
  by (auto simp: subscriber_good_def validateSubscriber_def split: option.split)

interpretation subscriber_spec: table_spec subscriberTable subscriber_good
proof -
  have "subscriber_good hs s \<Longrightarrow> key_of [KeyString, KeyInt64Ordered, KeyString] (subscriberPrimaryKey (sb_ChannelID s) (sb_ChannelType s) (sb_UID s))"
    for hs s by (simp add: subscriber_good_def valid_string subscriberPrimaryKey_def key_of_simps)
  then show "table_spec subscriberTable subscriber_good"
    by unfold_locales (auto simp: subscriberTable_def valid_subscriber active_def subscriberPrimaryKey_def)
qed

section \<open>Conversations\<close>

definition conversation_good :: "HashSlot \<Rightarrow> ConversationState \<Rightarrow> bool" where
  "conversation_good hs c \<longleftrightarrow> validateConversationState c = None"

lemma valid_conversation:
  "validateConversationState c = None \<longleftrightarrow> st_Kind c \<noteq> 0 \<and> validateKeyString (st_UID c) = None \<and> validateKeyString (st_ChannelID c) = None"
  by (simp add: validateConversationState_def first_error_None validateConversationKind_def validateConversationUID_def
      validateConversationKey_def)

lemma conversation_value:
  "decodeConversationStateValue (st_UID c) (st_Kind c) (st_ChannelID c) (st_ChannelType c) (encodeConversationStateValue c) = Inr c"
  by (simp add: decodeConversationStateValue_def decodeConversationStateValueFields_def decodeConversationValueFields_def
      encodeConversationStateValue_def encodeConversationValue_def value_codec)

lemma kind_back: "ucast (ucast k :: u64) = (k :: u8)"
  by (rule bit_word_eqI) (auto simp: bit_simps)

interpretation conversation_spec: table_spec conversationTable conversation_good
  by unfold_locales
    (auto simp: conversationTable_def conversation_good_def valid_conversation valid_string key_of_simps active_def conversation_value
      indexPartsForRow_def kind_back conversationPrimaryFromActiveIndexParts_def split: if_splits)

section \<open>Memberships, latest messages and plugin bindings\<close>

definition membership_good :: "HashSlot \<Rightarrow> UserChannelMembership \<Rightarrow> bool" where
  "membership_good hs m \<longleftrightarrow> validateUserChannelMembership m = None"

lemma valid_membership:
  "validateUserChannelMembershipIdentity uid c t = None \<longleftrightarrow> validateKeyString uid = None \<and> validateKeyString c = None"
  by (simp add: validateUserChannelMembershipIdentity_def first_error_None validateConversationUID_def validateConversationKey_def)

lemma membership_value:
  "decodeUserChannelMembershipValue (um_UID m) (um_ChannelID m) (um_ChannelType m) (encodeUserChannelMembershipValue m) = Inr m"
  by (simp add: decodeUserChannelMembershipValue_def encodeUserChannelMembershipValue_def value_codec)

interpretation membership_spec: table_spec userChannelMembershipTable membership_good
  by unfold_locales
    (auto simp: userChannelMembershipTable_def membership_good_def validateUserChannelMembership_def valid_membership valid_string
      key_of_simps active_def userChannelMembershipPrimaryKey_def membership_value)

definition latest_good :: "HashSlot \<Rightarrow> ChannelLatest \<Rightarrow> bool" where
  "latest_good hs l \<longleftrightarrow> validateChannelLatest l = None \<and> length (lt_FromUID l) \<le> maxKeyStringLen
     \<and> length (lt_ClientMsgNo l) \<le> maxKeyStringLen \<and> length (lt_Payload l) < 2 ^ 32"

interpretation latest_spec: table_spec channelLatestTable latest_good
  by unfold_locales
    (auto simp: channelLatestTable_def latest_good_def validateChannelLatest_def validateConversationKey_def valid_string key_of_simps
      active_def channelLatestPrimaryKey_def encodeChannelLatestValue_def decodeChannelLatestValue_def value_codec read_bytes_value)

definition binding_good :: "HashSlot \<Rightarrow> PluginUserBinding \<Rightarrow> bool" where
  "binding_good hs b \<longleftrightarrow> validatePluginUserBinding b = None"

lemma valid_binding:
  "validatePluginUserBindingIdentity uid p = None \<longleftrightarrow> validateKeyString uid = None \<and> validateKeyString p = None"
  "validatePluginUserBinding b = None \<longleftrightarrow> validateKeyString (pb_UID b) = None \<and> validateKeyString (pb_PluginNo b) = None
     \<and> sint (pb_CreatedAtMS b) \<le> sint (pb_UpdatedAtMS b)"
  by (auto simp: validatePluginUserBindingIdentity_def validatePluginUserBinding_def first_error_None validatePluginBindingUID_def
      validatePluginBindingPluginNo_def)

lemma binding_value: "decodePluginUserBindingValue (pb_UID b) (pb_PluginNo b) (encodePluginUserBindingValue b) = Inr b"
  by (simp add: decodePluginUserBindingValue_def encodePluginUserBindingValue_def value_codec)

interpretation binding_spec: table_spec pluginBindingTable binding_good
  by unfold_locales
    (auto simp: pluginBindingTable_def binding_good_def valid_binding valid_string key_of_simps active_def indexPartsForRow_def binding_value)

text \<open>
  The codec of runtime metadata reads back what it wrote, in the normal form, and its table keeps the laws of \<open>table_spec\<close>.
\<close>

section \<open>Values of runtime metadata\<close>

lemma slice_bytes: "encodeUint64Slice vs = put_uvarint (of_nat (length vs)) @ concat (map put64 vs)"
proof -
  have "foldl (\<lambda>out v. out @ put64 v) acc vs = acc @ concat (map put64 vs)" for acc by (induction vs arbitrary: acc) simp_all
  then show ?thesis by (simp add: encodeUint64Slice_def appendUvarint_def)
qed

lemma put64_cases: obtains a b c d e f g h where "put64 v = [a, b, c, d, e, f, g, h]"
proof -
  have "length (put64 v) = Suc (Suc (Suc (Suc (Suc (Suc (Suc (Suc 0)))))))" by simp
  then show thesis using that by (auto simp only: length_Suc_conv length_0_conv)
qed

lemma be_val_put64: "of_nat (be_val (put64 v)) = v"
  using get64_put64 [of v "[]"] by (simp add: get64_def get_be_def)

lemma read_words_bytes: "read_words (concat (map put64 vs)) = vs"
proof (induction vs)
  case (Cons v vs)
  obtain a b c d e f g h where p: "put64 v = [a, b, c, d, e, f, g, h]" by (rule put64_cases)
  then show ?case using Cons be_val_put64 [of v] by simp
qed simp

lemma slice_roundtrip:
  assumes "length vs < 2 ^ 61"
  shows "decodeUint64Slice (encodeUint64Slice vs) = Inr vs"
proof -
  have "length (concat (map put64 vs)) = length vs * 8" by (induction vs) simp_all
  moreover have "unat (of_nat (length vs) :: u64) = length vs" using assms by (simp add: unsigned_of_nat take_bit_nat_eq_self)
  ultimately show ?thesis
    using assms by (simp add: decodeUint64Slice_def slice_bytes readUvarint_def uvarint.get_put read_words_bytes)
qed

definition runtime_columns :: "ChannelRuntimeMeta \<Rightarrow> (u16 \<times> Column) list" where
  "runtime_columns meta =
     [(runtimeMetaColumnChannelEpoch, Uint64Col (rm_ChannelEpoch meta)),
      (runtimeMetaColumnLeaderEpoch, Uint64Col (rm_LeaderEpoch meta)),
      (runtimeMetaColumnReplicas, BytesCol (encodeUint64Slice (rm_Replicas meta))),
      (runtimeMetaColumnISR, BytesCol (encodeUint64Slice (rm_ISR meta))),
      (runtimeMetaColumnLeader, Uint64Col (rm_Leader meta)),
      (runtimeMetaColumnMinISR, Int64Col (rm_MinISR meta)),
      (runtimeMetaColumnStatus, Uint8Col (rm_Status meta)),
      (runtimeMetaColumnFeatures, Uint64Col (rm_Features meta)),
      (runtimeMetaColumnLeaseUntilMS, Int64Col (rm_LeaseUntilMS meta)),
      (runtimeMetaColumnRetentionThroughSeq, Uint64Col (rm_RetentionThroughSeq meta)),
      (runtimeMetaColumnRetentionUpdatedAt, Int64Col (rm_RetentionUpdatedAtMS meta)),
      (runtimeMetaColumnWriteFenceToken, StringCol (rm_WriteFenceToken meta)),
      (runtimeMetaColumnWriteFenceVersion, Uint64Col (rm_WriteFenceVersion meta)),
      (runtimeMetaColumnWriteFenceReason, Uint8Col (rm_WriteFenceReason meta)),
      (runtimeMetaColumnWriteFenceUntilMS, Int64Col (rm_WriteFenceUntilMS meta)),
      (runtimeMetaColumnRouteGeneration, Uint64Col (rm_RouteGeneration meta))]"

lemma runtime_ascending: "sorted_wrt (<) (0 # map fst (runtime_columns meta))"
  by (simp add: runtime_columns_def runtime_columns_ids)

lemma runtime_writers_eq: "runtime_writers meta = map write_column (runtime_columns meta)"
  by (simp add: runtime_writers_def runtime_columns_def fun_eq_iff)

lemma ignore_nothing: "run_writes fs w = Inr w' \<Longrightarrow> ignore_errors fs w = w'"
  by (induction fs arbitrary: w) (auto split: sum.splits)

lemma runtime_writes:
  "encodeChannelRuntimeMetaValue k meta =
     Wrap k runtimeMetaValueVersion CodecColumns FlagChecksum (row_bytes 0 (runtime_columns (normalizeChannelRuntimeMeta meta)))"
proof -
  let ?m = "normalizeChannelRuntimeMeta meta"
  have "run_writes (runtime_writers ?m) EmptyWriter =
      Inr \<lparr>wr_buf = row_bytes 0 (runtime_columns ?m), wr_last = last (0 # map fst (runtime_columns ?m))\<rparr>"
    using runtime_ascending [of ?m] by (simp add: runtime_writers_eq run_writes_columns write_columns_eq EmptyWriter_def)
  then show ?thesis by (simp add: encodeChannelRuntimeMetaValue_def ignore_nothing WriterBytes_def Let_def)
qed

definition runtime_fits :: "ChannelRuntimeMeta \<Rightarrow> bool" where
  "runtime_fits meta \<longleftrightarrow> length (rm_Replicas meta) < 2 ^ 59 \<and> length (rm_ISR meta) < 2 ^ 59 \<and> length (rm_WriteFenceToken meta) < 2 ^ 63"

lemma put_uvarint_len: "unat v < 128 ^ Suc n \<Longrightarrow> length (put_uvarint v) \<le> Suc n"
proof (induction n arbitrary: v)
  case 0
  then have "v < 128" by (simp add: word_less_nat_alt)
  then have "\<not> 0x80 \<le> v" by (simp add: not_le)
  then show ?case by (simp add: put_uvarint.simps [of v])
next
  case (Suc n)
  have "unat (drop_bit 7 v) < 128 ^ Suc n"
    using Suc.prems by (simp add: unsigned_drop_bit_eq drop_bit_eq_div div_less_iff_less_mult unat_div)
  from Suc.IH [OF this] show ?case by (simp add: put_uvarint.simps [of v])
qed

lemma slice_length: "length vs < 2 ^ 59 \<Longrightarrow> length (encodeUint64Slice vs) < 2 ^ 63"
proof -
  assume "length vs < 2 ^ 59"
  moreover have "length (concat (map put64 vs)) = length vs * 8" by (induction vs) simp_all
  moreover have "length (put_uvarint v) \<le> 10" for v
  proof -
    have "unat v < 2 ^ LENGTH(64)" by (rule unsigned_less)
    then show ?thesis using put_uvarint_len [of v 9] by simp
  qed
  from this [of "of_nat (length vs)"] have "length (put_uvarint (of_nat (length vs))) \<le> 10" .
  ultimately show ?thesis by (simp add: slice_bytes)
qed

lemma runtime_columns_fit: "runtime_fits meta \<Longrightarrow> \<forall>c \<in> set (runtime_columns meta). column_fits (snd c)"
  using slice_length [of "rm_Replicas meta"] slice_length [of "rm_ISR meta"] by (simp add: runtime_fits_def runtime_columns_def)

definition set_runtime :: "ChannelRuntimeMeta \<Rightarrow> u16 \<times> Column \<Rightarrow> ChannelRuntimeMeta \<Rightarrow> ChannelRuntimeMeta" where
  "set_runtime r ic meta =
     (let i = fst ic
      in if i = runtimeMetaColumnChannelEpoch then meta\<lparr>rm_ChannelEpoch := rm_ChannelEpoch r\<rparr>
         else if i = runtimeMetaColumnLeaderEpoch then meta\<lparr>rm_LeaderEpoch := rm_LeaderEpoch r\<rparr>
         else if i = runtimeMetaColumnReplicas then meta\<lparr>rm_Replicas := rm_Replicas r\<rparr>
         else if i = runtimeMetaColumnISR then meta\<lparr>rm_ISR := rm_ISR r\<rparr>
         else if i = runtimeMetaColumnLeader then meta\<lparr>rm_Leader := rm_Leader r\<rparr>
         else if i = runtimeMetaColumnMinISR then meta\<lparr>rm_MinISR := rm_MinISR r\<rparr>
         else if i = runtimeMetaColumnStatus then meta\<lparr>rm_Status := rm_Status r\<rparr>
         else if i = runtimeMetaColumnFeatures then meta\<lparr>rm_Features := rm_Features r\<rparr>
         else if i = runtimeMetaColumnLeaseUntilMS then meta\<lparr>rm_LeaseUntilMS := rm_LeaseUntilMS r\<rparr>
         else if i = runtimeMetaColumnRetentionThroughSeq then meta\<lparr>rm_RetentionThroughSeq := rm_RetentionThroughSeq r\<rparr>
         else if i = runtimeMetaColumnRetentionUpdatedAt then meta\<lparr>rm_RetentionUpdatedAtMS := rm_RetentionUpdatedAtMS r\<rparr>
         else if i = runtimeMetaColumnWriteFenceToken then meta\<lparr>rm_WriteFenceToken := rm_WriteFenceToken r\<rparr>
         else if i = runtimeMetaColumnWriteFenceVersion then meta\<lparr>rm_WriteFenceVersion := rm_WriteFenceVersion r\<rparr>
         else if i = runtimeMetaColumnWriteFenceReason then meta\<lparr>rm_WriteFenceReason := rm_WriteFenceReason r\<rparr>
         else if i = runtimeMetaColumnWriteFenceUntilMS then meta\<lparr>rm_WriteFenceUntilMS := rm_WriteFenceUntilMS r\<rparr>
         else meta\<lparr>rm_RouteGeneration := rm_RouteGeneration r\<rparr>)"

lemma runtime_column_read:
  assumes "(i, c) \<in> set (runtime_columns r)" "positioned s i c rest" "runtime_fits r"
  shows "decodeRuntimeMetaColumn s meta = Inr (set_runtime r (i, c) meta)"
proof -
  have i: "sc_columnID s = i" using assms(2) by (simp add: positioned_def)
  have sl: "decodeUint64Slice (encodeUint64Slice (rm_Replicas r)) = Inr (rm_Replicas r)"
    "decodeUint64Slice (encodeUint64Slice (rm_ISR r)) = Inr (rm_ISR r)"
    using assms(3) by (simp_all add: runtime_fits_def slice_roundtrip)
  show ?thesis
    using assms(1) unfolding runtime_columns_def
    apply (simp only: list.set insert_iff empty_iff prod.inject simp_thms)
    apply (elim disjE conjE)
    apply (use assms(2) in \<open>simp add: decodeRuntimeMetaColumn_def set_runtime_def set_column_def i runtime_columns_ids positioned_getters
        bind_res_def sl\<close>)+
    done
qed

lemma set_runtime_all: "fold (set_runtime r) (runtime_columns r) meta =
    r\<lparr>rm_ChannelID := rm_ChannelID meta, rm_ChannelType := rm_ChannelType meta\<rparr>"
  by (cases r; cases meta) (simp add: runtime_columns_def set_runtime_def runtime_columns_ids)

lemma normalize_ids:
  "normalizeChannelRuntimeMeta (meta\<lparr>rm_ChannelID := c, rm_ChannelType := t\<rparr>) =
     (normalizeChannelRuntimeMeta meta)\<lparr>rm_ChannelID := c, rm_ChannelType := t\<rparr>"
  by (simp add: normalizeChannelRuntimeMeta_def Let_def)

lemma normalize_keeps [simp]:
  "rm_ChannelID (normalizeChannelRuntimeMeta m) = rm_ChannelID m" "rm_ChannelType (normalizeChannelRuntimeMeta m) = rm_ChannelType m"
  by (simp_all add: normalizeChannelRuntimeMeta_def Let_def)

lemma runtime_value:
  assumes fits: "runtime_fits (normalizeChannelRuntimeMeta m)" and e: "encodeChannelRuntimeMetaValue k m = Inr val"
  shows "decodeChannelRuntimeMetaValue k val = Inr ((normalizeChannelRuntimeMeta m)\<lparr>rm_ChannelID := [], rm_ChannelType := 0\<rparr>)"
proof -
  let ?n = "normalizeChannelRuntimeMeta m"
  let ?p = "row_bytes 0 (runtime_columns ?n)"
  have "Unwrap k val = Inr \<lparr>ev_Version = runtimeMetaValueVersion, ev_Codec = CodecColumns, ev_Flags = FlagChecksum, ev_Payload = ?p\<rparr>"
    using e envelope_reads_back [of k runtimeMetaValueVersion CodecColumns FlagChecksum ?p] by (auto simp: runtime_writes)
  moreover have "decode_columns decodeRuntimeMetaColumn (NewScanner ?p) zero_runtime_meta =
      Inr (fold (set_runtime ?n) (runtime_columns ?n) zero_runtime_meta)"
  proof (rule decode_row)
    show "sorted_wrt (<) (sc_columnID (NewScanner ?p) # map fst (runtime_columns ?n))"
      using runtime_ascending by (simp add: NewScanner_def)
    show "\<forall>c \<in> set (runtime_columns ?n). column_fits (snd c)" using fits by (rule runtime_columns_fit)
  qed (use fits in \<open>simp_all add: NewScanner_def runtime_column_read del: row_bytes.simps\<close>)
  ultimately show ?thesis
    by (simp add: decodeChannelRuntimeMetaValue_def bind_res_def set_runtime_all normalize_ids zero_runtime_meta_def del: row_bytes.simps)
qed

section \<open>The table of runtime metadata\<close>

definition runtime_good :: "HashSlot \<Rightarrow> ChannelRuntimeMeta \<Rightarrow> bool" where
  "runtime_good hs meta \<longleftrightarrow> validateChannelRuntimeMeta meta = None \<and> normalizeChannelRuntimeMeta meta = meta \<and> runtime_fits meta"

lemma valid_runtime_key: "validateChannelRuntimeMeta meta = None \<Longrightarrow> validateKeyString (rm_ChannelID meta) = None"
  by (simp add: validateChannelRuntimeMeta_def split: option.splits)

interpretation runtime_spec: table_spec channelRuntimeMetaTable runtime_good
proof
  fix hs r v
  assume good: "runtime_good hs r"
  show "table_key channelRuntimeMetaTable (row_pk channelRuntimeMetaTable r)"
    using valid_runtime_key [of r] good
    by (simp add: channelRuntimeMetaTable_def runtime_good_def channelRuntimeMetaPrimaryKey_def key_of_simps valid_string)
  show "ts_Validate channelRuntimeMetaTable r = None" using good by (simp add: channelRuntimeMetaTable_def runtime_good_def)
  show "\<exists>v. ts_EncodeValue channelRuntimeMetaTable (row_key channelRuntimeMetaTable hs (row_pk channelRuntimeMetaTable r)) r = Inr v"
    by (simp add: channelRuntimeMetaTable_def runtime_writes Wrap_total del: row_bytes.simps)
  let ?k = "row_key channelRuntimeMetaTable hs (row_pk channelRuntimeMetaTable r)"
  assume "ts_EncodeValue channelRuntimeMetaTable ?k r = Inr v"
  then have "encodeChannelRuntimeMetaValue ?k r = Inr v" by (simp add: channelRuntimeMetaTable_def)
  then have "decodeChannelRuntimeMetaValue ?k v = Inr (r\<lparr>rm_ChannelID := [], rm_ChannelType := 0\<rparr>)"
    using runtime_value [of r ?k v] good by (simp add: runtime_good_def)
  then show "ts_DecodeValue channelRuntimeMetaTable ?k (row_pk channelRuntimeMetaTable r) v = Inr r"
    by (cases r) (simp add: channelRuntimeMetaTable_def channelRuntimeMetaPrimaryKey_def bind_res_def)
qed (simp_all add: channelRuntimeMetaTable_def active_def)

end
