(* ===== verification/MetaMergeSafety.thy ===== *)
theory MetaMergeSafety
  imports MetaMerge
begin

text \<open>
  What the merge rules of the metadata store promise: a row only moves forward in the order of its floors and epochs,
  and an upsert that is applied again changes nothing. Both laws are the locale \<open>forward_merge\<close>, whose clients
  are the tables; every table's rule is an interpretation.
\<close>

section \<open>The interface\<close>

locale forward_merge =
  fixes merge :: "'r option \<Rightarrow> 'r \<Rightarrow> 'r"
    and behind :: "'r \<Rightarrow> 'r \<Rightarrow> bool"
  assumes behind_refl: "behind a a"
    and behind_trans: "behind a b \<Longrightarrow> behind b c \<Longrightarrow> behind a c"
    and merge_forward: "behind a (merge (Some a) b)"
    and merge_again: "merge (Some (merge s b)) b = merge s b"
begin

lemma run_forward: "behind a (foldl (\<lambda>s b. merge (Some s) b) a bs)"
proof (induction bs arbitrary: a)
  case (Cons b bs)
  then show ?case by (auto intro: behind_trans [OF merge_forward])
qed (simp add: behind_refl)

lemma prefix_behind: "behind (foldl (\<lambda>s b. merge (Some s) b) a bs) (foldl (\<lambda>s b. merge (Some s) b) a (bs @ cs))"
  by (simp add: run_forward)

lemma last_again:
  "bs \<noteq> [] \<Longrightarrow> merge (Some (foldl (\<lambda>s b. merge (Some s) b) a bs)) (last bs) = foldl (\<lambda>s b. merge (Some s) b) a bs"
  by (cases bs rule: rev_cases) (simp_all add: merge_again)

end

section \<open>Runtime metadata\<close>

definition route :: "ChannelRuntimeMeta \<Rightarrow> (u64 \<times> u64 \<times> u64) \<times> (u64 list \<times> u64 list \<times> u64 \<times> u8 \<times> u64) \<times> (u64 \<times> u64) \<times> (u8 list \<times> u64 \<times> u8 \<times> u64)" where
  "route m = ((rm_ChannelEpoch m, rm_LeaderEpoch m, rm_Leader m),
     (rm_Replicas m, rm_ISR m, rm_MinISR m, rm_Status m, rm_LeaseUntilMS m),
     (rm_RetentionThroughSeq m, rm_RetentionUpdatedAtMS m),
     (rm_WriteFenceToken m, rm_WriteFenceVersion m, rm_WriteFenceReason m, rm_WriteFenceUntilMS m))"

lemma route_changed: "runtimeRouteChanged a b \<longleftrightarrow> route a \<noteq> route b"
  by (auto simp: runtimeRouteChanged_def route_def)

text \<open>
  \<open>b\<close> is not behind \<open>a\<close>: no epoch, no retention boundary and no fence has gone back, a lease has not been shortened under the same
  leadership, and a different route has a higher generation, unless the generation is at its maximum.
\<close>

definition meta_behind :: "ChannelRuntimeMeta \<Rightarrow> ChannelRuntimeMeta \<Rightarrow> bool" where
  "meta_behind a b \<longleftrightarrow>
     (let a = normalizeChannelRuntimeMeta a; b = normalizeChannelRuntimeMeta b
      in (rm_ChannelEpoch a < rm_ChannelEpoch b \<or> rm_ChannelEpoch a = rm_ChannelEpoch b \<and>
           (rm_LeaderEpoch a < rm_LeaderEpoch b \<or> rm_LeaderEpoch a = rm_LeaderEpoch b \<and> rm_Leader a = rm_Leader b
             \<and> sint (rm_LeaseUntilMS a) \<le> sint (rm_LeaseUntilMS b)))
         \<and> rm_RetentionThroughSeq a \<le> rm_RetentionThroughSeq b
         \<and> rm_WriteFenceVersion a \<le> rm_WriteFenceVersion b
         \<and> rm_RouteGeneration a \<le> rm_RouteGeneration b
         \<and> (route a \<noteq> route b \<longrightarrow> rm_RouteGeneration a < rm_RouteGeneration b \<or> rm_RouteGeneration b = NOT 0))"

lemma max_word: "x \<le> (NOT 0 :: u64)"
  by simp

lemma next_generation:
  "g \<le> nextChannelRouteGeneration g" "g \<noteq> NOT 0 \<Longrightarrow> g < nextChannelRouteGeneration g" "nextChannelRouteGeneration g \<noteq> 0"
proof -
  have "g < g + 1" if "g \<noteq> NOT 0"
    using that max_word_wrap [of g] unatSuc [of g] by (force simp: word_less_nat_alt add.commute)
  then show a: "g \<noteq> NOT 0 \<Longrightarrow> g < nextChannelRouteGeneration g" by (simp add: nextChannelRouteGeneration_def)
  show "g \<le> nextChannelRouteGeneration g" using a by (cases "g = NOT 0") (auto simp: nextChannelRouteGeneration_def)
  show "nextChannelRouteGeneration g \<noteq> 0" using a by (cases "g = NOT 0") (auto simp: nextChannelRouteGeneration_def)
qed

lemma normalize_fields [simp]:
  "rm_ChannelID (normalizeChannelRuntimeMeta m) = rm_ChannelID m" "rm_ChannelType (normalizeChannelRuntimeMeta m) = rm_ChannelType m"
  "rm_ChannelEpoch (normalizeChannelRuntimeMeta m) = rm_ChannelEpoch m" "rm_LeaderEpoch (normalizeChannelRuntimeMeta m) = rm_LeaderEpoch m"
  "rm_Leader (normalizeChannelRuntimeMeta m) = rm_Leader m" "rm_MinISR (normalizeChannelRuntimeMeta m) = rm_MinISR m"
  "rm_Replicas (normalizeChannelRuntimeMeta m) = normalizeUint64Set (rm_Replicas m)"
  "rm_ISR (normalizeChannelRuntimeMeta m) = normalizeUint64Set (rm_ISR m)"
  "rm_Status (normalizeChannelRuntimeMeta m) = rm_Status m" "rm_Features (normalizeChannelRuntimeMeta m) = rm_Features m"
  "rm_LeaseUntilMS (normalizeChannelRuntimeMeta m) = rm_LeaseUntilMS m"
  "rm_RetentionThroughSeq (normalizeChannelRuntimeMeta m) = rm_RetentionThroughSeq m"
  "rm_RetentionUpdatedAtMS (normalizeChannelRuntimeMeta m) = rm_RetentionUpdatedAtMS m"
  "rm_WriteFenceToken (normalizeChannelRuntimeMeta m) = rm_WriteFenceToken m"
  "rm_WriteFenceVersion (normalizeChannelRuntimeMeta m) = rm_WriteFenceVersion m"
  "rm_WriteFenceReason (normalizeChannelRuntimeMeta m) = rm_WriteFenceReason m"
  "rm_WriteFenceUntilMS (normalizeChannelRuntimeMeta m) = rm_WriteFenceUntilMS m"
  by (simp_all add: normalizeChannelRuntimeMeta_def Let_def)

lemma normalize_generation: "rm_RouteGeneration (normalizeChannelRuntimeMeta m) \<noteq> 0"
  "rm_RouteGeneration m \<noteq> 0 \<Longrightarrow> rm_RouteGeneration (normalizeChannelRuntimeMeta m) = rm_RouteGeneration m"
  by (simp_all add: normalizeChannelRuntimeMeta_def Let_def max_route_pos)

definition normal_meta :: "ChannelRuntimeMeta \<Rightarrow> bool" where
  "normal_meta m \<longleftrightarrow> rm_RouteGeneration m \<noteq> 0 \<and> sorted_wrt (<) (rm_Replicas m) \<and> sorted_wrt (<) (rm_ISR m)"

lemma normal_normalize [simp]: "normal_meta (normalizeChannelRuntimeMeta m)"
  by (simp add: normal_meta_def normalize_generation normalize_set)

lemma normalize_normal [simp]: "normal_meta m \<Longrightarrow> normalizeChannelRuntimeMeta m = m"
  by (simp add: normal_meta_def normalizeChannelRuntimeMeta_def normalize_set_id Let_def)

text \<open>The effect of the two steps of a merge, for normal rows.\<close>

lemma preserve_fields:
  "rm_ChannelID (preserveRuntimeMetaState e c) = rm_ChannelID c" "rm_ChannelType (preserveRuntimeMetaState e c) = rm_ChannelType c"
  "rm_ChannelEpoch (preserveRuntimeMetaState e c) = rm_ChannelEpoch c" "rm_LeaderEpoch (preserveRuntimeMetaState e c) = rm_LeaderEpoch c"
  "rm_Leader (preserveRuntimeMetaState e c) = rm_Leader c" "rm_Replicas (preserveRuntimeMetaState e c) = rm_Replicas c"
  "rm_ISR (preserveRuntimeMetaState e c) = rm_ISR c" "rm_MinISR (preserveRuntimeMetaState e c) = rm_MinISR c"
  "rm_LeaseUntilMS (preserveRuntimeMetaState e c) = rm_LeaseUntilMS c"
  "rm_RouteGeneration (preserveRuntimeMetaState e c) = rm_RouteGeneration c"
  "rm_RetentionThroughSeq e \<le> rm_RetentionThroughSeq (preserveRuntimeMetaState e c)"
  "rm_WriteFenceVersion e \<le> rm_WriteFenceVersion (preserveRuntimeMetaState e c)"
  by (auto simp: preserveRuntimeMetaState_def Let_def)

lemma preserve_normal: "normal_meta c \<Longrightarrow> normal_meta (preserveRuntimeMetaState e c)"
  by (simp add: normal_meta_def preserve_fields)

lemma bump_fields:
  "route (bumpRuntimeRoute e c h) = route c" "rm_ChannelID (bumpRuntimeRoute e c h) = rm_ChannelID c"
  "rm_ChannelType (bumpRuntimeRoute e c h) = rm_ChannelType c"
  by (auto simp: bumpRuntimeRoute_def route_def Let_def)

lemma route_fields:
  "route a = route b \<Longrightarrow> rm_ChannelEpoch a = rm_ChannelEpoch b" "route a = route b \<Longrightarrow> rm_LeaderEpoch a = rm_LeaderEpoch b"
  "route a = route b \<Longrightarrow> rm_Leader a = rm_Leader b" "route a = route b \<Longrightarrow> rm_LeaseUntilMS a = rm_LeaseUntilMS b"
  "route a = route b \<Longrightarrow> rm_RetentionThroughSeq a = rm_RetentionThroughSeq b"
  "route a = route b \<Longrightarrow> rm_WriteFenceVersion a = rm_WriteFenceVersion b"
  "route a = route b \<Longrightarrow> rm_Replicas a = rm_Replicas b" "route a = route b \<Longrightarrow> rm_ISR a = rm_ISR b"
  by (simp_all add: route_def)

lemmas bump_route = route_fields [OF bump_fields(1)]

lemma bump_generation:
  assumes "normal_meta e" "normal_meta c" "h \<longrightarrow> rm_RouteGeneration e \<le> rm_RouteGeneration c"
  shows "normal_meta (bumpRuntimeRoute e c h)" "rm_RouteGeneration e \<le> rm_RouteGeneration (bumpRuntimeRoute e c h)"
    "route e \<noteq> route c \<Longrightarrow> rm_RouteGeneration e < rm_RouteGeneration (bumpRuntimeRoute e c h)
       \<or> rm_RouteGeneration (bumpRuntimeRoute e c h) = NOT 0"
proof -
  have route_upd: "route (c\<lparr>rm_RouteGeneration := g\<rparr>) = route c" for g by (simp add: route_def)
  note d = bumpRuntimeRoute_def Let_def route_changed route_upd
  show "rm_RouteGeneration e \<le> rm_RouteGeneration (bumpRuntimeRoute e c h)"
    using assms(3) next_generation(1) by (auto simp: d not_less not_le)
  show "normal_meta (bumpRuntimeRoute e c h)"
    using assms(1,2) next_generation(3) by (auto simp: d normal_meta_def)
  show "rm_RouteGeneration e < rm_RouteGeneration (bumpRuntimeRoute e c h) \<or> rm_RouteGeneration (bumpRuntimeRoute e c h) = NOT 0"
    if "route e \<noteq> route c"
    using that next_generation(2) [of "rm_RouteGeneration e"] by (auto simp: d nextChannelRouteGeneration_def)
qed

definition merge_meta :: "ChannelRuntimeMeta option \<Rightarrow> ChannelRuntimeMeta \<Rightarrow> ChannelRuntimeMeta" where
  "merge_meta s c = fst (resolveMonotonicChannelRuntimeMeta s c)"

lemma normal_lease: "normal_meta c \<Longrightarrow> normal_meta (if b then c\<lparr>rm_LeaseUntilMS := l\<rparr> else c)"
  by (simp add: normal_meta_def)

text \<open>What an applied merge does to a normal row, in the three cases that apply.\<close>

lemma applied_forward:
  assumes e: "normal_meta e" and c: "normal_meta c" and h: "h \<longrightarrow> rm_RouteGeneration e \<le> rm_RouteGeneration c"
    and o: "rm_ChannelEpoch e < rm_ChannelEpoch c \<or> rm_ChannelEpoch e = rm_ChannelEpoch c \<and>
       (rm_LeaderEpoch e < rm_LeaderEpoch c \<or> rm_LeaderEpoch e = rm_LeaderEpoch c \<and> rm_Leader e = rm_Leader c
         \<and> sint (rm_LeaseUntilMS e) \<le> sint (rm_LeaseUntilMS c))"
  shows "meta_behind e (bumpRuntimeRoute e (preserveRuntimeMetaState e c) h)"
    "normal_meta (bumpRuntimeRoute e (preserveRuntimeMetaState e c) h)"
proof -
  let ?p = "preserveRuntimeMetaState e c"
  have p: "normal_meta ?p" using c by (rule preserve_normal)
  have hp: "h \<longrightarrow> rm_RouteGeneration e \<le> rm_RouteGeneration ?p" using h by (simp add: preserve_fields)
  note g = bump_generation [OF e p hp]
  show "normal_meta (bumpRuntimeRoute e ?p h)" by (rule g(1))
  have "route e \<noteq> route (bumpRuntimeRoute e ?p h) \<longrightarrow> rm_RouteGeneration e < rm_RouteGeneration (bumpRuntimeRoute e ?p h)
       \<or> rm_RouteGeneration (bumpRuntimeRoute e ?p h) = NOT 0" using g(3) by (simp add: bump_fields)
  then show "meta_behind e (bumpRuntimeRoute e ?p h)"
    using e g(1,2) o by (simp add: meta_behind_def bump_route preserve_fields Let_def)
qed

lemma meta_behind_refl: "meta_behind a a"
  by (simp add: meta_behind_def)

lemma behind_normal [simp]: "meta_behind (normalizeChannelRuntimeMeta a) b \<longleftrightarrow> meta_behind a b"
  "meta_behind a (normalizeChannelRuntimeMeta b) \<longleftrightarrow> meta_behind a b"
  by (simp_all add: meta_behind_def)

lemma meta_behind_trans:
  assumes "meta_behind a b" "meta_behind b c"
  shows "meta_behind a c"
proof -
  let ?n = normalizeChannelRuntimeMeta
  have g: "rm_RouteGeneration (?n a) \<le> rm_RouteGeneration (?n b)" "rm_RouteGeneration (?n b) \<le> rm_RouteGeneration (?n c)"
    using assms by (simp_all add: meta_behind_def Let_def)
  have full: "rm_RouteGeneration (?n b) = NOT 0 \<Longrightarrow> rm_RouteGeneration (?n c) = NOT 0"
    using g(2) by (metis max_word order_antisym)
  have r: "rm_RouteGeneration (?n a) < rm_RouteGeneration (?n c) \<or> rm_RouteGeneration (?n c) = NOT 0"
    if ne: "route (?n a) \<noteq> route (?n c)"
  proof (cases "route (?n a) = route (?n b)")
    case True
    then have "rm_RouteGeneration (?n b) < rm_RouteGeneration (?n c) \<or> rm_RouteGeneration (?n c) = NOT 0"
      using assms(2) ne by (simp add: meta_behind_def Let_def)
    then show ?thesis using g(1) by auto
  next
    case False
    then have "rm_RouteGeneration (?n a) < rm_RouteGeneration (?n b) \<or> rm_RouteGeneration (?n b) = NOT 0"
      using assms(1) by (simp add: meta_behind_def Let_def)
    then show ?thesis using g(2) full by auto
  qed
  show ?thesis
    using assms g r unfolding meta_behind_def Let_def normalize_fields by (intro conjI) (auto intro: order_trans)
qed

lemma merge_meta_forward: "meta_behind e (merge_meta (Some e) c)"
proof -
  let ?e = "normalizeChannelRuntimeMeta e" and ?c = "normalizeChannelRuntimeMeta c" and ?h = "rm_RouteGeneration c \<noteq> 0"
  show ?thesis
  proof (cases "?h \<and> rm_RouteGeneration ?c < rm_RouteGeneration ?e")
    case True
    then show ?thesis by (simp add: merge_meta_def resolveMonotonicChannelRuntimeMeta_def meta_behind_refl)
  next
    case False
    then have h: "?h \<longrightarrow> rm_RouteGeneration ?e \<le> rm_RouteGeneration ?c" by auto
    let ?l = "if sint (rm_LeaseUntilMS ?c) < sint (rm_LeaseUntilMS ?e) then ?c\<lparr>rm_LeaseUntilMS := rm_LeaseUntilMS ?e\<rparr> else ?c"
    have l: "normal_meta ?l" "?h \<longrightarrow> rm_RouteGeneration ?e \<le> rm_RouteGeneration ?l" using h by (simp_all add: normal_lease)
    note f = applied_forward [OF normal_normalize normal_normalize h]
    note fl = applied_forward [OF normal_normalize l]
    have "meta_behind ?e (merge_meta (Some e) c)"
      unfolding merge_meta_def resolveMonotonicChannelRuntimeMeta_def Let_def option.case
      using f fl False by (simp add: meta_behind_refl not_less)
    then show ?thesis by simp
  qed
qed

lemma preserve_twice:
  assumes "rm_RetentionThroughSeq q = rm_RetentionThroughSeq (preserveRuntimeMetaState e c)"
    "rm_RetentionUpdatedAtMS q = rm_RetentionUpdatedAtMS (preserveRuntimeMetaState e c)"
    "rm_WriteFenceToken q = rm_WriteFenceToken (preserveRuntimeMetaState e c)"
    "rm_WriteFenceVersion q = rm_WriteFenceVersion (preserveRuntimeMetaState e c)"
    "rm_WriteFenceReason q = rm_WriteFenceReason (preserveRuntimeMetaState e c)"
    "rm_WriteFenceUntilMS q = rm_WriteFenceUntilMS (preserveRuntimeMetaState e c)"
  shows "preserveRuntimeMetaState q c = preserveRuntimeMetaState e c"
  using assms by (auto simp: preserveRuntimeMetaState_def Let_def)

lemma bump_form: "bumpRuntimeRoute e p h = p\<lparr>rm_RouteGeneration := rm_RouteGeneration (bumpRuntimeRoute e p h)\<rparr>"
  by (auto simp: bumpRuntimeRoute_def Let_def)

lemma bump_above: "rm_RouteGeneration p \<le> rm_RouteGeneration (bumpRuntimeRoute e p h)"
  using next_generation(1) [of "rm_RouteGeneration e"] by (auto simp: bumpRuntimeRoute_def Let_def intro: order_trans)

lemma bump_twice:
  assumes "h \<longrightarrow> \<not> rm_RouteGeneration p < rm_RouteGeneration (bumpRuntimeRoute e p h)"
  shows "bumpRuntimeRoute (bumpRuntimeRoute e p h) p h = bumpRuntimeRoute e p h"
proof -
  define b where "b = bumpRuntimeRoute e p h"
  have f: "b = p\<lparr>rm_RouteGeneration := rm_RouteGeneration b\<rparr>" unfolding b_def by (rule bump_form)
  have a: "rm_RouteGeneration p \<le> rm_RouteGeneration b" unfolding b_def by (rule bump_above)
  have r: "route b = route p" unfolding b_def by (rule bump_fields)
  have ru: "route (p\<lparr>rm_RouteGeneration := g\<rparr>) = route p" for g by (simp add: route_def)
  have "bumpRuntimeRoute b p h = (if \<not> h \<and> rm_RouteGeneration p < rm_RouteGeneration b
      then p\<lparr>rm_RouteGeneration := rm_RouteGeneration b\<rparr> else p)"
    using r by (auto simp: bumpRuntimeRoute_def route_changed Let_def ru)
  also have "\<dots> = b"
  proof (cases "\<not> h \<and> rm_RouteGeneration p < rm_RouteGeneration b")
    case False
    then have "rm_RouteGeneration b = rm_RouteGeneration p" using a assms [folded b_def] by auto
    then show ?thesis using f False by simp
  qed (use f in simp)
  finally show ?thesis by (simp add: b_def)
qed

lemma applied_again:
  assumes "h \<longrightarrow> \<not> rm_RouteGeneration c < rm_RouteGeneration (bumpRuntimeRoute e (preserveRuntimeMetaState e c) h)"
  shows "bumpRuntimeRoute (bumpRuntimeRoute e (preserveRuntimeMetaState e c) h)
      (preserveRuntimeMetaState (bumpRuntimeRoute e (preserveRuntimeMetaState e c) h) c) h
    = bumpRuntimeRoute e (preserveRuntimeMetaState e c) h"
proof -
  let ?p = "preserveRuntimeMetaState e c"
  have "route (bumpRuntimeRoute e ?p h) = route ?p" by (rule bump_fields)
  then have "preserveRuntimeMetaState (bumpRuntimeRoute e ?p h) c = ?p"
    by (intro preserve_twice) (simp_all add: route_def)
  then show ?thesis using assms by (simp add: bump_twice preserve_fields)
qed

lemma applied_is_normal:
  "normal_meta e \<Longrightarrow> normal_meta c \<Longrightarrow> h \<longrightarrow> \<not> rm_RouteGeneration c < rm_RouteGeneration e \<Longrightarrow>
    normalizeChannelRuntimeMeta (bumpRuntimeRoute e (preserveRuntimeMetaState e c) h) = bumpRuntimeRoute e (preserveRuntimeMetaState e c) h"
  by (simp add: not_less bump_generation preserve_normal preserve_fields)

lemma preserve_lease: "preserveRuntimeMetaState e (c\<lparr>rm_LeaseUntilMS := l\<rparr>) = (preserveRuntimeMetaState e c)\<lparr>rm_LeaseUntilMS := l\<rparr>"
  by (simp add: preserveRuntimeMetaState_def Let_def)

lemma merge_meta_again: "merge_meta (Some (merge_meta s c)) c = merge_meta s c"
proof (cases s)
  case None
  have p: "preserveRuntimeMetaState k k = k" for k by (simp add: preserveRuntimeMetaState_def Let_def)
  have b: "bumpRuntimeRoute k k h = k" for k h by (simp add: bumpRuntimeRoute_def route_changed Let_def)
  show ?thesis
    unfolding None merge_meta_def resolveMonotonicChannelRuntimeMeta_def Let_def option.case by (simp add: p b)
next
  case (Some e0)
  define e where "e = normalizeChannelRuntimeMeta e0"
  define k where "k = normalizeChannelRuntimeMeta c"
  define h where "h \<longleftrightarrow> rm_RouteGeneration c \<noteq> 0"
  have n: "normal_meta e" "normal_meta k" by (simp_all add: e_def k_def)
  define l where "l = (if sint (rm_LeaseUntilMS k) < sint (rm_LeaseUntilMS e) then k\<lparr>rm_LeaseUntilMS := rm_LeaseUntilMS e\<rparr> else k)"
  have l: "normal_meta l" "rm_RouteGeneration l = rm_RouteGeneration k" "rm_ChannelEpoch l = rm_ChannelEpoch k"
    "rm_LeaderEpoch l = rm_LeaderEpoch k" "rm_Leader l = rm_Leader k" "\<not> sint (rm_LeaseUntilMS l) < sint (rm_LeaseUntilMS k)"
    using n by (simp_all add: l_def normal_lease)
  have again: "merge_meta (Some r) c =
      (if h \<and> rm_RouteGeneration k < rm_RouteGeneration r then r
       else if rm_ChannelEpoch k < rm_ChannelEpoch r then r
       else if rm_ChannelEpoch r < rm_ChannelEpoch k then bumpRuntimeRoute r (preserveRuntimeMetaState r k) h
       else if rm_LeaderEpoch k < rm_LeaderEpoch r then r
       else if rm_LeaderEpoch r < rm_LeaderEpoch k then bumpRuntimeRoute r (preserveRuntimeMetaState r k) h
       else if rm_Leader k \<noteq> rm_Leader r then r
       else bumpRuntimeRoute r (preserveRuntimeMetaState r
         (if sint (rm_LeaseUntilMS k) < sint (rm_LeaseUntilMS r) then k\<lparr>rm_LeaseUntilMS := rm_LeaseUntilMS r\<rparr> else k)) h)"
    if "normalizeChannelRuntimeMeta r = r" for r
    using that unfolding merge_meta_def resolveMonotonicChannelRuntimeMeta_def Let_def option.case k_def h_def
    by (simp cong: if_cong)
  have first: "merge_meta s c = merge_meta (Some e) c"
    unfolding Some merge_meta_def resolveMonotonicChannelRuntimeMeta_def Let_def option.case e_def by simp
  have settled: "merge_meta (Some (bumpRuntimeRoute e (preserveRuntimeMetaState e x) h)) c = bumpRuntimeRoute e (preserveRuntimeMetaState e x) h"
    if x: "x = k \<or> x = l" and s: "h \<longrightarrow> \<not> rm_RouteGeneration k < rm_RouteGeneration e" for x
  proof -
    let ?b = "bumpRuntimeRoute e (preserveRuntimeMetaState e x) h"
    have xn: "normal_meta x" "rm_RouteGeneration x = rm_RouteGeneration k" "rm_ChannelEpoch x = rm_ChannelEpoch k"
      "rm_LeaderEpoch x = rm_LeaderEpoch k" "rm_Leader x = rm_Leader k" "\<not> sint (rm_LeaseUntilMS x) < sint (rm_LeaseUntilMS k)"
      using x n l by auto
    have bn: "normalizeChannelRuntimeMeta ?b = ?b" using n xn s by (simp add: applied_is_normal)
    have xl: "(if sint (rm_LeaseUntilMS k) < sint (rm_LeaseUntilMS ?b) then k\<lparr>rm_LeaseUntilMS := rm_LeaseUntilMS ?b\<rparr> else k) = x"
      using x by (auto simp: bump_route preserve_fields l_def)
    show ?thesis
    proof (cases "h \<and> rm_RouteGeneration k < rm_RouteGeneration ?b")
      case False
      then have "bumpRuntimeRoute ?b (preserveRuntimeMetaState ?b x) h = ?b" by (intro applied_again) (simp add: xn)
      moreover have "rm_ChannelEpoch ?b = rm_ChannelEpoch k" "rm_LeaderEpoch ?b = rm_LeaderEpoch k" "rm_Leader ?b = rm_Leader k"
        using xn by (simp_all add: bump_route preserve_fields)
      ultimately show ?thesis using False by (simp only: again [OF bn] xl) simp
    next
      case True
      show ?thesis unfolding again [OF bn] if_P [OF True] ..
    qed
  qed
  have en: "normalizeChannelRuntimeMeta e = e" by (simp add: n)
  show ?thesis
    unfolding first again [OF en] using settled [of k] settled [of l] again [OF en]
    by (auto simp: l_def [symmetric])
qed

interpretation meta_merge: forward_merge merge_meta meta_behind
  by unfold_locales (auto intro: meta_behind_refl meta_behind_trans merge_meta_forward merge_meta_again)

text \<open>The two operations that change a stored row.\<close>

datatype meta_op = MetaUpsert ChannelRuntimeMeta | MetaAdvance ChannelRetentionAdvance

fun runtime_step :: "ChannelRuntimeMeta \<Rightarrow> meta_op \<Rightarrow> ChannelRuntimeMeta" where
  "runtime_step e (MetaUpsert c) = fst (resolveMonotonicChannelRuntimeMeta (Some e) c)"
| "runtime_step e (MetaAdvance req) = (case advance_retention e req of Inr (Some n) \<Rightarrow> n | _ \<Rightarrow> e)"

lemma merge_meta_normal: "normal_meta (merge_meta (Some e) c)"
proof -
  let ?e = "normalizeChannelRuntimeMeta e" and ?c = "normalizeChannelRuntimeMeta c" and ?h = "rm_RouteGeneration c \<noteq> 0"
  let ?l = "if sint (rm_LeaseUntilMS ?c) < sint (rm_LeaseUntilMS ?e) then ?c\<lparr>rm_LeaseUntilMS := rm_LeaseUntilMS ?e\<rparr> else ?c"
  have l: "normal_meta ?l" "rm_RouteGeneration ?l = rm_RouteGeneration ?c" by (simp_all add: normal_lease)
  show ?thesis
  proof (cases "?h \<and> rm_RouteGeneration ?c < rm_RouteGeneration ?e")
    case True
    then show ?thesis by (simp add: merge_meta_def resolveMonotonicChannelRuntimeMeta_def)
  next
    case False
    then have "normal_meta (bumpRuntimeRoute ?e (preserveRuntimeMetaState ?e x) ?h)" if "x = ?c \<or> x = ?l" for x
      using that l by (intro bump_generation) (auto simp: preserve_normal preserve_fields not_less)
    then show ?thesis
      unfolding merge_meta_def resolveMonotonicChannelRuntimeMeta_def Let_def option.case using False by simp
  qed
qed

lemma advance_forward:
  assumes "normal_meta e" "advance_retention e req = Inr (Some n)"
  shows "normal_meta n" "meta_behind e n"
proof -
  have n: "n = e\<lparr>rm_RetentionThroughSeq := ra_RetentionThroughSeq req, rm_RetentionUpdatedAtMS := ra_RetentionUpdatedAtMS req,
      rm_RouteGeneration := nextChannelRouteGeneration (rm_RouteGeneration e)\<rparr>"
    and lt: "rm_RetentionThroughSeq e < ra_RetentionThroughSeq req"
    using assms(2) by (auto simp: advance_retention_def not_le split: if_splits)
  show nn: "normal_meta n" using assms(1) next_generation(3) by (simp add: n normal_meta_def)
  have "rm_RouteGeneration e < rm_RouteGeneration n \<or> rm_RouteGeneration n = NOT 0"
    using next_generation(2) [of "rm_RouteGeneration e"] by (auto simp: n nextChannelRouteGeneration_def)
  moreover have "rm_RouteGeneration e \<le> rm_RouteGeneration n" using next_generation(1) by (simp add: n)
  ultimately show "meta_behind e n" using assms(1) nn lt by (simp add: meta_behind_def Let_def n)
qed

lemma runtime_step_forward:
  assumes "normal_meta e"
  shows "normal_meta (runtime_step e x)" "meta_behind e (runtime_step e x)"
  using assms merge_meta_normal merge_meta_forward advance_forward
  by (cases x; fastforce simp: merge_meta_def [symmetric] meta_behind_refl split: sum.split option.split)+

lemma meta_run_forward: "normal_meta e \<Longrightarrow> meta_behind e (foldl runtime_step e ops)"
proof (induction ops arbitrary: e)
  case (Cons x ops)
  then show ?case using runtime_step_forward [of e x] by (auto intro: meta_behind_trans)
qed (simp add: meta_behind_refl)

section \<open>The other tables\<close>

definition conversation_behind :: "ConversationState \<Rightarrow> ConversationState \<Rightarrow> bool" where
  "conversation_behind a b \<longleftrightarrow>
     st_UID a = st_UID b \<and> st_Kind a = st_Kind b \<and> st_ChannelID a = st_ChannelID b \<and> st_ChannelType a = st_ChannelType b
     \<and> st_ReadSeq a \<le> st_ReadSeq b \<and> st_DeletedToSeq a \<le> st_DeletedToSeq b \<and> sint (st_UpdatedAt a) \<le> sint (st_UpdatedAt b)"

definition merge_conversation :: "ConversationState option \<Rightarrow> ConversationState \<Rightarrow> ConversationState" where
  "merge_conversation s n = (case s of None \<Rightarrow> n | Some e \<Rightarrow> mergeConversationState e n)"

lemma conversation_behind_trans: "conversation_behind a b \<Longrightarrow> conversation_behind b c \<Longrightarrow> conversation_behind a c"
  by (auto simp: conversation_behind_def)

interpretation conversation_merge: forward_merge merge_conversation conversation_behind
proof
  fix a b and s
  show "conversation_behind a a" by (simp add: conversation_behind_def)
  show "conversation_behind a (merge_conversation (Some a) b)"
    by (simp add: conversation_behind_def merge_conversation_def mergeConversationState_def Let_def not_less)
  show "merge_conversation (Some (merge_conversation s b)) b = merge_conversation s b"
    by (simp add: merge_conversation_def mergeConversationState_def Let_def split: option.split)
qed (rule conversation_behind_trans)

interpretation membership_merge: forward_merge resolveUserChannelMembership
  "\<lambda>a b. um_JoinSeq a \<le> um_JoinSeq b \<and> sint (um_UpdatedAt a) \<le> sint (um_UpdatedAt b)"
  by unfold_locales (auto simp: resolveUserChannelMembership_def Let_def split: option.split)

interpretation latest_merge: forward_merge resolveChannelLatest
  "\<lambda>a b. lt_LastMessageSeq a < lt_LastMessageSeq b \<or> a = b"
  by unfold_locales (auto simp: resolveChannelLatest_def split: option.split)

interpretation binding_merge: forward_merge merge_binding
  "\<lambda>a b. pb_CreatedAtMS a = pb_CreatedAtMS b \<and> sint (pb_UpdatedAtMS a) \<le> sint (pb_UpdatedAtMS b)"
  by unfold_locales (auto simp: merge_binding_def Let_def split: option.split)

section \<open>Conversations\<close>

text \<open>The operations on one conversation row.\<close>

datatype conversation_op = ConvUpsert ConversationState | ConvTouch ConversationActivePatch | ConvHide ConversationDelete | ConvClear

fun conversation_write :: "ConversationState option \<Rightarrow> conversation_op \<Rightarrow> ConversationState option" where
  "conversation_write s (ConvUpsert n) = Some (merge_conversation s n)"
| "conversation_write s (ConvTouch p) = touch_conversation s p"
| "conversation_write s (ConvHide q) = hide_conversation s q"
| "conversation_write s ConvClear = clear_conversation s"

definition conversation_step :: "ConversationState \<Rightarrow> conversation_op \<Rightarrow> ConversationState" where
  "conversation_step c x = (case conversation_write (Some c) x of None \<Rightarrow> c | Some n \<Rightarrow> n)"

lemma conversation_write_forward: "conversation_write (Some c) x = Some n \<Longrightarrow> conversation_behind c n"
proof (cases x)
  case (ConvUpsert u)
  then show "conversation_write (Some c) x = Some n \<Longrightarrow> conversation_behind c n"
    using conversation_merge.merge_forward by auto
next
  case (ConvTouch p)
  then show "conversation_write (Some c) x = Some n \<Longrightarrow> conversation_behind c n"
    by (auto simp: touch_conversation_def conversation_behind_def Let_def split: if_splits)
next
  case (ConvHide q)
  then show "conversation_write (Some c) x = Some n \<Longrightarrow> conversation_behind c n"
    by (auto simp: hide_conversation_def conversation_behind_def Let_def split: if_splits)
next
  case ConvClear
  then show "conversation_write (Some c) x = Some n \<Longrightarrow> conversation_behind c n"
    by (auto simp: clear_conversation_def conversation_behind_def split: if_splits)
qed

lemma conversation_run_forward: "conversation_behind c (foldl conversation_step c ops)"
proof (induction ops arbitrary: c)
  case (Cons x ops)
  have "conversation_behind c (conversation_step c x)"
    by (auto simp: conversation_step_def conversation_merge.behind_refl conversation_write_forward split: option.split)
  then show ?case using Cons.IH by (auto intro: conversation_behind_trans)
qed (simp add: conversation_merge.behind_refl)

text \<open>A touch for a message at or below the delete barrier leaves the activity of the row as it is.\<close>

lemma touch_blocked:
  assumes "0 < pa_MessageSeq p" "pa_MessageSeq p \<le> st_DeletedToSeq c"
  shows "st_ActiveAt (conversation_step c (ConvTouch p)) = st_ActiveAt c"
  using assms by (auto simp: conversation_step_def touch_conversation_def Let_def split: option.split)

lemma touches_blocked:
  assumes "\<And>p. p \<in> set ps \<Longrightarrow> 0 < pa_MessageSeq p \<and> pa_MessageSeq p \<le> st_DeletedToSeq c"
  shows "st_ActiveAt (foldl conversation_step c (map ConvTouch ps)) = st_ActiveAt c"
  using assms
proof (induction ps arbitrary: c)
  case (Cons p ps)
  let ?d = "conversation_step c (ConvTouch p)"
  have "st_DeletedToSeq c \<le> st_DeletedToSeq ?d"
    using conversation_run_forward [of c "[ConvTouch p]"] by (simp add: conversation_behind_def)
  then have "st_ActiveAt (foldl conversation_step ?d (map ConvTouch ps)) = st_ActiveAt ?d"
    using Cons.prems by (intro Cons.IH) force
  then show ?case using touch_blocked Cons.prems by simp
qed simp

section \<open>Validity\<close>

lemma valid_normal: "validateChannelRuntimeMeta (normalizeChannelRuntimeMeta m) = validateChannelRuntimeMeta m"
  by (simp add: validateChannelRuntimeMeta_def Let_def cong: option.case_cong)

text \<open>The two parts of a valid row: its membership and its fence.\<close>

definition valid_members :: "ChannelRuntimeMeta \<Rightarrow> bool" where
  "valid_members m \<longleftrightarrow> validateKeyString (rm_ChannelID m) = None \<and> rm_Replicas m \<noteq> [] \<and> 0 < sint (rm_MinISR m)
     \<and> sint (rm_MinISR m) \<le> int (length (rm_Replicas m)) \<and> set (rm_ISR m) \<subseteq> set (rm_Replicas m)
     \<and> (rm_Leader m \<noteq> 0 \<longrightarrow> rm_Leader m \<in> set (rm_Replicas m) \<inter> set (rm_ISR m))"

definition valid_fence :: "u8 list \<Rightarrow> u64 \<Rightarrow> u8 \<Rightarrow> u64 \<Rightarrow> bool" where
  "valid_fence token version reason until \<longleftrightarrow>
     (if token = [] then reason = 0 \<and> until = 0 else version \<noteq> 0 \<and> reason \<noteq> 0 \<and> 0 < sint until)"

abbreviation fence_ok :: "ChannelRuntimeMeta \<Rightarrow> bool" where
  "fence_ok m \<equiv> valid_fence (rm_WriteFenceToken m) (rm_WriteFenceVersion m) (rm_WriteFenceReason m) (rm_WriteFenceUntilMS m)"

lemma valid_parts: "normal_meta m \<Longrightarrow> validateChannelRuntimeMeta m = None \<longleftrightarrow> valid_members m \<and> fence_ok m"
  by (auto simp: validateChannelRuntimeMeta_def Let_def valid_members_def valid_fence_def list_all_iff List.member_iff
      not_le not_less split: option.split)

lemma members_preserve: "valid_members (preserveRuntimeMetaState e c) = valid_members c"
  by (simp add: valid_members_def preserve_fields)

lemma fence_preserve: "fence_ok e \<Longrightarrow> fence_ok c \<Longrightarrow> fence_ok (preserveRuntimeMetaState e c)"
  by (simp add: preserveRuntimeMetaState_def Let_def)

lemma bump_valid: "valid_members (bumpRuntimeRoute e c h) = valid_members c" "fence_ok (bumpRuntimeRoute e c h) = fence_ok c"
  by (subst bump_form, simp add: valid_members_def)+

lemma merge_meta_valid:
  assumes e: "validateChannelRuntimeMeta e = None" and c: "validateChannelRuntimeMeta c = None"
  shows "validateChannelRuntimeMeta (merge_meta (Some e) c) = None"
proof -
  let ?e = "normalizeChannelRuntimeMeta e" and ?c = "normalizeChannelRuntimeMeta c"
  let ?l = "if sint (rm_LeaseUntilMS ?c) < sint (rm_LeaseUntilMS ?e) then ?c\<lparr>rm_LeaseUntilMS := rm_LeaseUntilMS ?e\<rparr> else ?c"
  have p: "valid_members ?e" "fence_ok ?e" "valid_members ?c" "fence_ok ?c"
    using e c valid_normal [of e] valid_normal [of c] valid_parts [of ?e] valid_parts [of ?c] by simp_all
  have l: "valid_members ?l" "fence_ok ?l" using p(3,4) by (simp_all add: valid_members_def)
  have b: "valid_members (bumpRuntimeRoute ?e (preserveRuntimeMetaState ?e x) h) \<and> fence_ok (bumpRuntimeRoute ?e (preserveRuntimeMetaState ?e x) h)"
    if "x = ?c \<or> x = ?l" for x h
    using that p(2,3,4) l fence_preserve [OF p(2)] unfolding bump_valid members_preserve by blast
  have "valid_members (merge_meta (Some e) c) \<and> fence_ok (merge_meta (Some e) c)"
    unfolding merge_meta_def resolveMonotonicChannelRuntimeMeta_def Let_def option.case
    using p(1,2) b by (simp split: if_splits)
  then show ?thesis using valid_parts [OF merge_meta_normal] by simp
qed

section \<open>Claims\<close>

text \<open>
  C11: However upserts and retention advances are ordered, repeated or delayed, the runtime metadata of a channel moves
  forward only: its epochs, its retention boundary and its fence never go back, a lease is not shortened while the leadership stays, and every change of the
  route raises the route generation, unless that is at its maximum.
\<close>

theorem runtime_meta_forward: "meta_behind e (foldl runtime_step (normalizeChannelRuntimeMeta e) ops)"
  using meta_run_forward [OF normal_normalize, of e ops] by simp

text \<open>
  An upsert of runtime metadata that arrives again right after it was applied leaves the row as it is, whether the first one
  created it, advanced it or was refused as stale.
\<close>

lemma runtime_meta_replay:
  "fst (resolveMonotonicChannelRuntimeMeta (Some (fst (resolveMonotonicChannelRuntimeMeta stored c))) c)
    = fst (resolveMonotonicChannelRuntimeMeta stored c)"
  using merge_meta_again [of stored c] by (simp add: merge_meta_def)

text \<open>
  Merging a valid candidate into a valid row gives a valid row, although its fence may come from one and its members from the
  other: the in-sync replicas are replicas, the leader is one of them, and a fence has a version, a reason and a deadline.
\<close>

lemma merged_meta_valid:
  assumes "validateChannelRuntimeMeta e = None" "validateChannelRuntimeMeta c = None"
  shows "validateChannelRuntimeMeta (fst (resolveMonotonicChannelRuntimeMeta (Some e) c)) = None"
  using merge_meta_valid [OF assms] by (simp add: merge_meta_def)

definition demo_meta :: ChannelRuntimeMeta where
  "demo_meta = \<lparr>rm_ChannelID = [1], rm_ChannelType = 2, rm_ChannelEpoch = 5, rm_LeaderEpoch = 3, rm_RouteGeneration = 0,
     rm_Replicas = [1, 2, 3], rm_ISR = [1, 2], rm_Leader = 1, rm_MinISR = 2, rm_Status = 1, rm_Features = 0, rm_LeaseUntilMS = 100,
     rm_RetentionThroughSeq = 0, rm_RetentionUpdatedAtMS = 0, rm_WriteFenceToken = [9], rm_WriteFenceVersion = 1,
     rm_WriteFenceReason = 1, rm_WriteFenceUntilMS = 50\<rparr>"

lemmas demo_meta_simps = demo_meta_def validateChannelRuntimeMeta_def normalizeChannelRuntimeMeta_def normalizeUint64Set_def
  maxUint64_of_def validateKeyString_def maxKeyStringLen_def

theorem merged_meta_valid_witness:
  "validateChannelRuntimeMeta (fst (resolveMonotonicChannelRuntimeMeta (Some demo_meta)
     (demo_meta\<lparr>rm_LeaderEpoch := 4, rm_Leader := 2, rm_WriteFenceToken := [], rm_WriteFenceVersion := 0,
        rm_WriteFenceReason := 0, rm_WriteFenceUntilMS := 0\<rparr>))) = None"
proof (rule merged_meta_valid)
  show "validateChannelRuntimeMeta demo_meta = None" by (simp add: demo_meta_simps)
  show "validateChannelRuntimeMeta (demo_meta\<lparr>rm_LeaderEpoch := 4, rm_Leader := 2, rm_WriteFenceToken := [],
      rm_WriteFenceVersion := 0, rm_WriteFenceReason := 0, rm_WriteFenceUntilMS := 0\<rparr>) = None"
    by (simp add: demo_meta_simps)
qed

text \<open>
  C15: A conversation that a user deleted stays out of the active list: after a delete that moves the barrier to a message, no number of
  activity hints for messages up to the barrier, in any order, sets an activity time again.
\<close>

theorem deleted_stays_hidden:
  assumes "hide_conversation stored req = Some c"
    and "\<And>p. p \<in> set ps \<Longrightarrow> 0 < pa_MessageSeq p \<and> pa_MessageSeq p \<le> cd_DeletedToSeq req"
  shows "st_ActiveAt (foldl conversation_step c (map ConvTouch ps)) = 0"
proof -
  have "st_ActiveAt c = 0" "st_DeletedToSeq c = cd_DeletedToSeq req"
    using assms(1) by (auto simp: hide_conversation_def Let_def split: if_splits)
  then show ?thesis using touches_blocked [of ps c] assms(2) by simp
qed

definition demo_hide :: ConversationDelete where
  "demo_hide = \<lparr>cd_UID = [7], cd_Kind = ConversationKindNormal, cd_ChannelID = [1], cd_ChannelType = 2, cd_DeletedToSeq = 10, cd_UpdatedAt = 5\<rparr>"

definition demo_touch :: "u64 \<Rightarrow> ConversationActivePatch" where
  "demo_touch q = \<lparr>pa_UID = [7], pa_Kind = ConversationKindNormal, pa_ChannelID = [1], pa_ChannelType = 2, pa_ReadSeq = 0,
     pa_DeletedToSeq = 0, pa_ActiveAt = 99, pa_UpdatedAt = 0, pa_MessageSeq = q, pa_SparseActive = False, pa_SparseActiveSet = False\<rparr>"

theorem deleted_stays_hidden_witness:
  "st_ActiveAt (foldl conversation_step (the (hide_conversation None demo_hide)) (map ConvTouch [demo_touch 10, demo_touch 3])) = 0"
proof (rule deleted_stays_hidden)
  show "hide_conversation None demo_hide = Some (the (hide_conversation None demo_hide))"
    by (simp add: hide_conversation_def demo_hide_def new_conversation_def)
  show "0 < pa_MessageSeq p \<and> pa_MessageSeq p \<le> cd_DeletedToSeq demo_hide" if "p \<in> set [demo_touch 10, demo_touch 3]" for p
    using that by (auto simp: demo_touch_def demo_hide_def)
qed

end
