(* ===== verification/MetaModel.thy ===== *)
theory MetaModel
  imports MetaTablesSafety MetaMergeSafety
begin

text \<open>
  What the metadata store promises: nine maps of rows per hash slot, each operation a function on them, and the relation between
  the maps and the contents of the engine. The operations are those of \<open>Shard\<close> in \<open>pkg/db/meta\<close>.
\<close>

section \<open>Operations\<close>

datatype MetaOp =
    OpCreateUser User | OpUpsertUser User | OpUpdateUser User | OpDeleteUser "u8 list"
  | OpUpsertDevice Device
  | OpCreateChannel Channel | OpUpsertChannel Channel | OpUpdateChannel Channel | OpDeleteChannel "u8 list" u64 | OpGetChannel "u8 list" u64
  | OpAddSubscribers "u8 list" u64 "u8 list list" u64 | OpRemoveSubscribers "u8 list" u64 "u8 list list" u64
  | OpUpsertRuntimeMeta ChannelRuntimeMeta | OpDeleteRuntimeMeta "u8 list" u64 | OpAdvanceRetention ChannelRetentionAdvance
  | OpUpsertConversation ConversationState | OpTouchConversation ConversationActivePatch | OpHideConversation ConversationDelete
  | OpClearConversations ConversationKind "u8 list" "ConversationKey list"
  | OpUpsertMembership UserChannelMembership | OpDeleteMembership "u8 list" ConversationKey
  | OpUpsertLatest ChannelLatest
  | OpBindPlugin PluginUserBinding | OpUnbindPlugin "u8 list" "u8 list"

definition on_engine :: "'db MetaDB \<Rightarrow> db_error + 'db \<Rightarrow> db_error + 'db MetaDB" where
  "on_engine db res = bind_res res (\<lambda>d'. Inr (db\<lparr>md_engine := d'\<rparr>))"

fun meta_step :: "'db Engine \<Rightarrow> HashSlot \<Rightarrow> 'db MetaDB \<Rightarrow> MetaOp \<Rightarrow> db_error + 'db MetaDB" where
  "meta_step eng hs db (OpCreateUser u) = on_engine db (CreateUser eng (md_engine db) hs u)"
| "meta_step eng hs db (OpUpsertUser u) = on_engine db (UpsertUser eng (md_engine db) hs u)"
| "meta_step eng hs db (OpUpdateUser u) = on_engine db (UpdateUser eng (md_engine db) hs u)"
| "meta_step eng hs db (OpDeleteUser uid) = on_engine db (DeleteUser eng (md_engine db) hs uid)"
| "meta_step eng hs db (OpUpsertDevice dv) = on_engine db (UpsertDevice eng (md_engine db) hs dv)"
| "meta_step eng hs db (OpCreateChannel c) = CreateChannel eng db hs c"
| "meta_step eng hs db (OpUpsertChannel c) = UpsertChannel eng db hs c"
| "meta_step eng hs db (OpUpdateChannel c) = UpdateChannel eng db hs c"
| "meta_step eng hs db (OpDeleteChannel i ty) = DeleteChannel eng db hs i ty"
| "meta_step eng hs db (OpGetChannel i ty) = map_sum (\<lambda>e. e) fst (GetChannel eng db hs i ty)"
| "meta_step eng hs db (OpAddSubscribers i ty uids v) = AddSubscribers eng db hs i ty uids v"
| "meta_step eng hs db (OpRemoveSubscribers i ty uids v) = RemoveSubscribers eng db hs i ty uids v"
| "meta_step eng hs db (OpUpsertRuntimeMeta m) = on_engine db (map_sum (\<lambda>e. e) fst (UpsertChannelRuntimeMeta eng (md_engine db) hs m))"
| "meta_step eng hs db (OpDeleteRuntimeMeta i ty) = on_engine db (DeleteChannelRuntimeMeta eng (md_engine db) hs i ty)"
| "meta_step eng hs db (OpAdvanceRetention req) = on_engine db (AdvanceChannelRetentionThroughSeq eng (md_engine db) hs req)"
| "meta_step eng hs db (OpUpsertConversation c) = on_engine db (UpsertConversationState eng (md_engine db) hs c)"
| "meta_step eng hs db (OpTouchConversation p) = on_engine db (TouchConversationActiveAt eng (md_engine db) hs p)"
| "meta_step eng hs db (OpHideConversation q) = on_engine db (HideConversation eng (md_engine db) hs q)"
| "meta_step eng hs db (OpClearConversations kind uid ks) = on_engine db (ClearConversationActiveAt eng (md_engine db) hs kind uid ks)"
| "meta_step eng hs db (OpUpsertMembership m) = on_engine db (UpsertUserChannelMembership eng (md_engine db) hs m)"
| "meta_step eng hs db (OpDeleteMembership uid k) = on_engine db (DeleteUserChannelMembership eng (md_engine db) hs uid k)"
| "meta_step eng hs db (OpUpsertLatest l) = on_engine db (UpsertChannelLatest eng (md_engine db) hs l)"
| "meta_step eng hs db (OpBindPlugin b) = on_engine db (BindPluginUser eng (md_engine db) hs b)"
| "meta_step eng hs db (OpUnbindPlugin uid p) = on_engine db (UnbindPluginUser eng (md_engine db) hs uid p)"

text \<open>Limits of the machine that the codecs rely on: the length of a payload fits 32 bits, that of a slice an \<open>int\<close>.\<close>

fun op_fits :: "MetaOp \<Rightarrow> bool" where
  "op_fits (OpUpsertRuntimeMeta m) = runtime_fits m"
| "op_fits (OpUpsertLatest l) = (length (lt_Payload l) < 2 ^ 32)"
| "op_fits _ = True"

section \<open>The maps\<close>

record MetaRows =
  ab_users :: "KeyParts \<Rightarrow> User option"
  ab_devices :: "KeyParts \<Rightarrow> Device option"
  ab_channels :: "KeyParts \<Rightarrow> Channel option"
  ab_subscribers :: "KeyParts \<Rightarrow> Subscriber option"
  ab_runtime :: "KeyParts \<Rightarrow> ChannelRuntimeMeta option"
  ab_conversations :: "KeyParts \<Rightarrow> ConversationState option"
  ab_memberships :: "KeyParts \<Rightarrow> UserChannelMembership option"
  ab_latest :: "KeyParts \<Rightarrow> ChannelLatest option"
  ab_bindings :: "KeyParts \<Rightarrow> PluginUserBinding option"

abbreviation channel_pk :: "u8 list \<Rightarrow> u64 \<Rightarrow> KeyParts" where
  "channel_pk channelID channelType \<equiv> [PartString channelID, Int64Ordered channelType]"

text \<open>A checked string, a checked size of value strings.\<close>

definition when_valid :: "db_error option \<Rightarrow> db_error + 'a \<Rightarrow> db_error + 'a" where
  "when_valid check res = (case check of Some e \<Rightarrow> Inl e | None \<Rightarrow> res)"

definition when_short :: "u8 list list \<Rightarrow> db_error + 'a \<Rightarrow> db_error + 'a" where
  "when_short ss res = (if \<exists>s \<in> set ss. maxKeyStringLen < length s then Inl DBPanic else res)"

definition spec_put :: "'r TableSpec \<Rightarrow> (KeyParts \<Rightarrow> 'r option) \<Rightarrow> 'r \<Rightarrow> tableWriteMode \<Rightarrow> db_error + (KeyParts \<Rightarrow> 'r option)" where
  "spec_put t rows r mode = bind_res (check_mode mode (rows (row_pk t r) \<noteq> None)) (\<lambda>_. Inr (rows(row_pk t r \<mapsto> r)))"

definition spec_user :: "MetaRows \<Rightarrow> User \<Rightarrow> tableWriteMode \<Rightarrow> db_error + MetaRows" where
  "spec_user s u mode =
     when_valid (validateKeyString (us_UID u)) (when_short [us_Token u]
       (bind_res (spec_put userTable (ab_users s) u mode) (\<lambda>rows. Inr (s\<lparr>ab_users := rows\<rparr>))))"

text \<open>A write keeps the count of subscribers of a channel that is there.\<close>

definition spec_channel :: "MetaRows \<Rightarrow> Channel \<Rightarrow> tableWriteMode \<Rightarrow> db_error + MetaRows" where
  "spec_channel s c mode =
     when_valid (validateKeyString (cn_ChannelID c))
       (let c' = (case ab_channels s (row_pk channelTable c) of None \<Rightarrow> c | Some old \<Rightarrow> c\<lparr>cn_SubscriberCount := cn_SubscriberCount old\<rparr>)
        in bind_res (spec_put channelTable (ab_channels s) c' mode) (\<lambda>rows. Inr (s\<lparr>ab_channels := rows\<rparr>)))"

text \<open>
  Subscribers: with \<open>add\<close> the rows of the uids are there afterwards, without they are not, all others as before; the count of the
  channel moves by the number of rows that came or went, not below zero, and its version does not go back.
\<close>

definition changed_uids :: "MetaRows \<Rightarrow> u8 list \<Rightarrow> u64 \<Rightarrow> u8 list list \<Rightarrow> bool \<Rightarrow> u8 list set" where
  "changed_uids s i ty uids add = {uid \<in> set uids. (ab_subscribers s (subscriberPrimaryKey i ty uid) = None) = add}"

definition new_count :: "u64 \<Rightarrow> nat \<Rightarrow> bool \<Rightarrow> u64" where
  "new_count c n add = (if add then c + of_nat n else of_nat (unat c - n))"

definition with_subscribers :: "(KeyParts \<Rightarrow> Subscriber option) \<Rightarrow> u8 list \<Rightarrow> u64 \<Rightarrow> u8 list set \<Rightarrow> bool \<Rightarrow> KeyParts \<Rightarrow> Subscriber option" where
  "with_subscribers rows i ty us add =
     (\<lambda>pk. if \<exists>uid \<in> us. pk = subscriberPrimaryKey i ty uid
           then if add then Some \<lparr>sb_ChannelID = i, sb_ChannelType = ty, sb_UID = kp_S (pk ! 2)\<rparr> else None
           else rows pk)"

definition spec_subscribers :: "MetaRows \<Rightarrow> u8 list \<Rightarrow> u64 \<Rightarrow> u8 list list \<Rightarrow> u64 \<Rightarrow> bool \<Rightarrow> db_error + MetaRows" where
  "spec_subscribers s i ty uids version add =
     when_valid (validateKeyString i)
       (if \<exists>uid \<in> set uids. validateKeyString uid \<noteq> None then Inl DBErrInvalidArgument
        else
          case ab_channels s (channel_pk i ty) of
            None \<Rightarrow> Inl DBErrNotFound
          | Some c \<Rightarrow>
              Inr (s\<lparr>ab_subscribers := with_subscribers (ab_subscribers s) i ty (set uids) add,
                     ab_channels := (ab_channels s)(channel_pk i ty \<mapsto>
                       c\<lparr>cn_SubscriberMutationVersion := max (cn_SubscriberMutationVersion c) version,
                         cn_SubscriberCount := new_count (cn_SubscriberCount c) (card (changed_uids s i ty uids add)) add\<rparr>)\<rparr>))"

definition spec_runtime :: "MetaRows \<Rightarrow> ChannelRuntimeMeta \<Rightarrow> db_error + MetaRows" where
  "spec_runtime s m =
     when_valid (validateChannelRuntimeMeta m)
       (let pk = channel_pk (rm_ChannelID m) (rm_ChannelType m)
        in case resolveMonotonicChannelRuntimeMeta (ab_runtime s pk) m of
             (next, MonotonicApplied) \<Rightarrow> Inr (s\<lparr>ab_runtime := (ab_runtime s)(pk \<mapsto> next)\<rparr>)
           | (next, MonotonicIgnoredStale) \<Rightarrow> Inr s
           | (next, MonotonicConflict) \<Rightarrow> Inl DBErrConflict)"

definition spec_retention :: "MetaRows \<Rightarrow> ChannelRetentionAdvance \<Rightarrow> db_error + MetaRows" where
  "spec_retention s req =
     when_valid (validateKeyString (ra_ChannelID req))
       (let pk = channel_pk (ra_ChannelID req) (ra_ChannelType req)
        in case ab_runtime s pk of
             None \<Rightarrow> Inl DBErrNotFound
           | Some e \<Rightarrow> (case advance_retention e req of
                          Inl err \<Rightarrow> Inl err
                        | Inr None \<Rightarrow> Inr s
                        | Inr (Some n) \<Rightarrow> Inr (s\<lparr>ab_runtime := (ab_runtime s)(pk \<mapsto> n)\<rparr>)))"

definition put_conversation :: "MetaRows \<Rightarrow> KeyParts \<Rightarrow> ConversationState option \<Rightarrow> MetaRows" where
  "put_conversation s pk next = (case next of None \<Rightarrow> s | Some n \<Rightarrow> s\<lparr>ab_conversations := (ab_conversations s)(pk \<mapsto> n)\<rparr>)"

definition cleared_rows :: "(KeyParts \<Rightarrow> ConversationState option) \<Rightarrow> KeyParts set \<Rightarrow> KeyParts \<Rightarrow> ConversationState option" where
  "cleared_rows rows pks = (\<lambda>pk. if pk \<in> pks \<and> clear_conversation (rows pk) \<noteq> None then clear_conversation (rows pk) else rows pk)"

fun meta_spec :: "MetaRows \<Rightarrow> MetaOp \<Rightarrow> db_error + MetaRows" where
  "meta_spec s (OpCreateUser u) = spec_user s u tableWriteCreate"
| "meta_spec s (OpUpsertUser u) = spec_user s u tableWriteUpsert"
| "meta_spec s (OpUpdateUser u) = spec_user s u tableWriteUpdate"
| "meta_spec s (OpDeleteUser uid) = when_valid (validateKeyString uid) (Inr (s\<lparr>ab_users := (ab_users s)([PartString uid] := None)\<rparr>))"
| "meta_spec s (OpUpsertDevice dv) =
     when_valid (validateKeyString (dv_UID dv)) (when_short [dv_Token dv]
       (Inr (s\<lparr>ab_devices := (ab_devices s)([PartString (dv_UID dv), Int64Ordered (dv_DeviceFlag dv)] \<mapsto> dv)\<rparr>)))"
| "meta_spec s (OpCreateChannel c) = spec_channel s c tableWriteCreate"
| "meta_spec s (OpUpsertChannel c) = spec_channel s c tableWriteUpsert"
| "meta_spec s (OpUpdateChannel c) = spec_channel s c tableWriteUpdate"
| "meta_spec s (OpDeleteChannel i ty) = when_valid (validateKeyString i) (Inr (s\<lparr>ab_channels := (ab_channels s)(channel_pk i ty := None)\<rparr>))"
| "meta_spec s (OpGetChannel i ty) = when_valid (validateKeyString i) (Inr s)"
| "meta_spec s (OpAddSubscribers i ty uids v) = spec_subscribers s i ty uids v True"
| "meta_spec s (OpRemoveSubscribers i ty uids v) = spec_subscribers s i ty uids v False"
| "meta_spec s (OpUpsertRuntimeMeta m) = spec_runtime s m"
| "meta_spec s (OpDeleteRuntimeMeta i ty) =
     when_valid (validateKeyString i)
       (if ab_runtime s (channel_pk i ty) = None then Inl DBErrNotFound
        else Inr (s\<lparr>ab_runtime := (ab_runtime s)(channel_pk i ty := None)\<rparr>))"
| "meta_spec s (OpAdvanceRetention req) = spec_retention s req"
| "meta_spec s (OpUpsertConversation c) =
     when_valid (validateConversationState c)
       (let pk = row_pk conversationTable c in Inr (put_conversation s pk (conversation_write (ab_conversations s pk) (ConvUpsert c))))"
| "meta_spec s (OpTouchConversation p) =
     when_valid (validateConversationActivePatch p)
       (let pk = conversationPrimaryKeyParts (pa_Kind p) (pa_UID p) (pa_ChannelID p) (pa_ChannelType p)
        in Inr (put_conversation s pk (conversation_write (ab_conversations s pk) (ConvTouch p))))"
| "meta_spec s (OpHideConversation q) =
     when_valid (validateConversationDelete q)
       (let pk = conversationPrimaryKeyParts (cd_Kind q) (cd_UID q) (cd_ChannelID q) (cd_ChannelType q)
        in Inr (put_conversation s pk (conversation_write (ab_conversations s pk) (ConvHide q))))"
| "meta_spec s (OpClearConversations kind uid ks) =
     when_valid (first_error [validateConversationKind kind, validateConversationUID uid])
       (if \<exists>k \<in> set ks. validateConversationKey k \<noteq> None then Inl DBErrInvalidArgument
        else Inr (s\<lparr>ab_conversations := cleared_rows (ab_conversations s)
                     ((\<lambda>k. conversationPrimaryKeyParts kind uid (ck_ChannelID k) (ck_ChannelType k)) ` set ks)\<rparr>))"
| "meta_spec s (OpUpsertMembership m) =
     when_valid (validateUserChannelMembership m)
       (let pk = row_pk userChannelMembershipTable m
        in Inr (s\<lparr>ab_memberships := (ab_memberships s)(pk \<mapsto> resolveUserChannelMembership (ab_memberships s pk) m)\<rparr>))"
| "meta_spec s (OpDeleteMembership uid k) =
     when_valid (validateUserChannelMembershipIdentity uid (ck_ChannelID k) (ck_ChannelType k))
       (Inr (s\<lparr>ab_memberships := (ab_memberships s)(userChannelMembershipPrimaryKey uid (ck_ChannelID k) (ck_ChannelType k) := None)\<rparr>))"
| "meta_spec s (OpUpsertLatest l) =
     when_valid (validateChannelLatest l)
       (let pk = row_pk channelLatestTable l; n = resolveChannelLatest (ab_latest s pk) l
        in when_short [lt_FromUID n, lt_ClientMsgNo n] (Inr (s\<lparr>ab_latest := (ab_latest s)(pk \<mapsto> n)\<rparr>)))"
| "meta_spec s (OpBindPlugin b) =
     when_valid (validatePluginUserBinding b)
       (let pk = row_pk pluginBindingTable b
        in Inr (s\<lparr>ab_bindings := (ab_bindings s)(pk \<mapsto> merge_binding (ab_bindings s pk) b)\<rparr>))"
| "meta_spec s (OpUnbindPlugin uid p) =
     when_valid (validatePluginUserBindingIdentity uid p)
       (Inr (s\<lparr>ab_bindings := (ab_bindings s)([PartString uid, PartString p] := None)\<rparr>))"

section \<open>Maps and contents\<close>

definition meta_rows :: "contents \<Rightarrow> HashSlot \<Rightarrow> MetaRows" where
  "meta_rows m hs =
     \<lparr>ab_users = table_rows userTable m hs, ab_devices = table_rows deviceTable m hs, ab_channels = table_rows channelTable m hs,
      ab_subscribers = table_rows subscriberTable m hs, ab_runtime = table_rows channelRuntimeMetaTable m hs,
      ab_conversations = table_rows conversationTable m hs, ab_memberships = table_rows userChannelMembershipTable m hs,
      ab_latest = table_rows channelLatestTable m hs, ab_bindings = table_rows pluginBindingTable m hs\<rparr>"

text \<open>Every stored row is good, the index entries are those of the rows, and the row space of a table holds rows only.\<close>

definition clean_table :: "'r TableSpec \<Rightarrow> (HashSlot \<Rightarrow> 'r \<Rightarrow> bool) \<Rightarrow> contents \<Rightarrow> HashSlot \<Rightarrow> bool" where
  "clean_table t good m hs \<longleftrightarrow> table_inv t good m hs \<and> rows_clean t m hs"

definition meta_inv :: "contents \<Rightarrow> HashSlot \<Rightarrow> bool" where
  "meta_inv m hs \<longleftrightarrow>
     clean_table userTable user_good m hs \<and> clean_table deviceTable device_good m hs \<and> clean_table channelTable channel_good m hs
     \<and> clean_table subscriberTable subscriber_good m hs \<and> clean_table channelRuntimeMetaTable runtime_good m hs
     \<and> clean_table conversationTable conversation_good m hs \<and> clean_table userChannelMembershipTable membership_good m hs
     \<and> clean_table channelLatestTable latest_good m hs \<and> clean_table pluginBindingTable binding_good m hs"

text \<open>Every cached channel is the stored one.\<close>

definition cache_ok :: "contents \<Rightarrow> (key \<times> Channel) list \<Rightarrow> bool" where
  "cache_ok m cache \<longleftrightarrow>
     (\<forall>k c. map_of cache k = Some c \<longrightarrow> (\<exists>hs pk. k = row_key channelTable hs pk \<and> table_rows channelTable m hs pk = Some c))"

definition store_inv :: "'db Engine \<Rightarrow> 'db MetaDB \<Rightarrow> bool" where
  "store_inv eng db \<longleftrightarrow>
     (\<forall>hs. meta_inv (eg_Get eng (md_engine db)) hs) \<and> cache_ok (eg_Get eng (md_engine db)) (md_channelCache db)"

text \<open>One hash slot changes to \<open>s\<close>, the others stay.\<close>

definition meta_change :: "HashSlot \<Rightarrow> MetaRows \<Rightarrow> contents \<Rightarrow> contents \<Rightarrow> bool" where
  "meta_change hs s m m' \<longleftrightarrow>
     meta_rows m' hs = s \<and> meta_inv m' hs \<and> (\<forall>hs'. hs' \<noteq> hs \<longrightarrow> meta_rows m' hs' = meta_rows m hs' \<and> meta_inv m' hs' = meta_inv m hs')"

text \<open>An operation does what the maps say, or its commit failed and it did nothing.\<close>

definition op_refines :: "'db Engine \<Rightarrow> HashSlot \<Rightarrow> contents \<Rightarrow> db_error + MetaRows \<Rightarrow> db_error + 'db \<Rightarrow> bool" where
  "op_refines eng hs m spec res \<longleftrightarrow>
     (case res of
        Inl e \<Rightarrow> e = DBErrCommit \<or> spec = Inl e
      | Inr d' \<Rightarrow> (\<exists>s. spec = Inr s \<and> meta_change hs s m (eg_Get eng d')))"

section \<open>The change of one table\<close>

lemma table_ids [simp]:
  "ts_ID userTable = 1" "ts_ID deviceTable = 4" "ts_ID channelTable = 2" "ts_ID subscriberTable = 5" "ts_ID channelRuntimeMetaTable = 3"
  "ts_ID conversationTable = 6" "ts_ID userChannelMembershipTable = 11" "ts_ID channelLatestTable = 12" "ts_ID pluginBindingTable = 8"
  by (simp_all add: userTable_def deviceTable_def channelTable_def subscriberTable_def channelRuntimeMetaTable_def conversationTable_def
      userChannelMembershipTable_def channelLatestTable_def pluginBindingTable_def TableIDUser_def TableIDDevice_def TableIDChannel_def
      TableIDSubscriber_def TableIDChannelRuntimeMeta_def TableIDConversation_def TableIDUserChannelMembership_def TableIDChannelLatest_def
      TableIDPluginBinding_def)

lemma update_others:
  assumes "row_update t good hs pk w m m'" "hs' \<noteq> hs \<or> ts_ID t' \<noteq> ts_ID t"
  shows "table_rows t' m' hs' = table_rows t' m hs'" "clean_table t' good' m' hs' = clean_table t' good' m hs'"
proof -
  have eq: "outside t hs k \<Longrightarrow> m' k = m k" for k using assms(1) by (simp add: row_update_def)
  show "table_rows t' m' hs' = table_rows t' m hs'" by (rule others_unchanged(1) [OF eq assms(2)])
  have "table_inv t' good' m' hs' = table_inv t' good' m hs'" by (rule others_unchanged(2) [OF eq assms(2)])
  moreover have "rows_clean t' m' hs' = rows_clean t' m hs'" by (rule others_unchanged(3) [OF eq assms(2)])
  ultimately show "clean_table t' good' m' hs' = clean_table t' good' m hs'" by (simp add: clean_table_def)
qed

lemma update_here:
  assumes "row_update t good hs pk w m m'" "clean_table t good m hs"
  shows "table_rows t m' hs = (table_rows t m hs)(pk := w)" "clean_table t good m' hs"
  using assms by (auto simp: row_update_def clean_table_def)

lemma meta_inv_tables:
  assumes "meta_inv m hs"
  shows "clean_table userTable user_good m hs" "clean_table deviceTable device_good m hs" "clean_table channelTable channel_good m hs"
    "clean_table subscriberTable subscriber_good m hs" "clean_table channelRuntimeMetaTable runtime_good m hs"
    "clean_table conversationTable conversation_good m hs" "clean_table userChannelMembershipTable membership_good m hs"
    "clean_table channelLatestTable latest_good m hs" "clean_table pluginBindingTable binding_good m hs"
  using assms by (simp_all add: meta_inv_def)

lemma clean_inv: "clean_table t good m hs \<Longrightarrow> table_inv t good m hs"
  by (simp add: clean_table_def)

lemma user_change:
  assumes "meta_inv m hs" "row_update userTable user_good hs pk w m m'"
  shows "meta_change hs ((meta_rows m hs)\<lparr>ab_users := (ab_users (meta_rows m hs))(pk := w)\<rparr>) m m'"
  using update_here [OF assms(2)] meta_inv_tables [OF assms(1)] assms(1)
  by (simp add: meta_change_def meta_rows_def meta_inv_def update_others [OF assms(2)])

lemma device_change:
  assumes "meta_inv m hs" "row_update deviceTable device_good hs pk w m m'"
  shows "meta_change hs ((meta_rows m hs)\<lparr>ab_devices := (ab_devices (meta_rows m hs))(pk := w)\<rparr>) m m'"
  using update_here [OF assms(2)] meta_inv_tables [OF assms(1)] assms(1)
  by (simp add: meta_change_def meta_rows_def meta_inv_def update_others [OF assms(2)])

lemma channel_change:
  assumes "meta_inv m hs" "row_update channelTable channel_good hs pk w m m'"
  shows "meta_change hs ((meta_rows m hs)\<lparr>ab_channels := (ab_channels (meta_rows m hs))(pk := w)\<rparr>) m m'"
  using update_here [OF assms(2)] meta_inv_tables [OF assms(1)] assms(1)
  by (simp add: meta_change_def meta_rows_def meta_inv_def update_others [OF assms(2)])

lemma subscriber_change:
  assumes "meta_inv m hs" "row_update subscriberTable subscriber_good hs pk w m m'"
  shows "meta_change hs ((meta_rows m hs)\<lparr>ab_subscribers := (ab_subscribers (meta_rows m hs))(pk := w)\<rparr>) m m'"
  using update_here [OF assms(2)] meta_inv_tables [OF assms(1)] assms(1)
  by (simp add: meta_change_def meta_rows_def meta_inv_def update_others [OF assms(2)])

lemma runtime_change:
  assumes "meta_inv m hs" "row_update channelRuntimeMetaTable runtime_good hs pk w m m'"
  shows "meta_change hs ((meta_rows m hs)\<lparr>ab_runtime := (ab_runtime (meta_rows m hs))(pk := w)\<rparr>) m m'"
  using update_here [OF assms(2)] meta_inv_tables [OF assms(1)] assms(1)
  by (simp add: meta_change_def meta_rows_def meta_inv_def update_others [OF assms(2)])

lemma conversation_change:
  assumes "meta_inv m hs" "row_update conversationTable conversation_good hs pk w m m'"
  shows "meta_change hs ((meta_rows m hs)\<lparr>ab_conversations := (ab_conversations (meta_rows m hs))(pk := w)\<rparr>) m m'"
  using update_here [OF assms(2)] meta_inv_tables [OF assms(1)] assms(1)
  by (simp add: meta_change_def meta_rows_def meta_inv_def update_others [OF assms(2)])

lemma membership_change:
  assumes "meta_inv m hs" "row_update userChannelMembershipTable membership_good hs pk w m m'"
  shows "meta_change hs ((meta_rows m hs)\<lparr>ab_memberships := (ab_memberships (meta_rows m hs))(pk := w)\<rparr>) m m'"
  using update_here [OF assms(2)] meta_inv_tables [OF assms(1)] assms(1)
  by (simp add: meta_change_def meta_rows_def meta_inv_def update_others [OF assms(2)])

lemma latest_change:
  assumes "meta_inv m hs" "row_update channelLatestTable latest_good hs pk w m m'"
  shows "meta_change hs ((meta_rows m hs)\<lparr>ab_latest := (ab_latest (meta_rows m hs))(pk := w)\<rparr>) m m'"
  using update_here [OF assms(2)] meta_inv_tables [OF assms(1)] assms(1)
  by (simp add: meta_change_def meta_rows_def meta_inv_def update_others [OF assms(2)])

lemma binding_change:
  assumes "meta_inv m hs" "row_update pluginBindingTable binding_good hs pk w m m'"
  shows "meta_change hs ((meta_rows m hs)\<lparr>ab_bindings := (ab_bindings (meta_rows m hs))(pk := w)\<rparr>) m m'"
  using update_here [OF assms(2)] meta_inv_tables [OF assms(1)] assms(1)
  by (simp add: meta_change_def meta_rows_def meta_inv_def update_others [OF assms(2)])

lemma change_none: "meta_inv m hs \<Longrightarrow> meta_change hs (meta_rows m hs) m m"
  by (simp add: meta_change_def)

lemma change_trans: "meta_change hs s m m' \<Longrightarrow> meta_change hs s' m' m'' \<Longrightarrow> meta_change hs s' m m''"
  by (auto simp: meta_change_def)

text \<open>
  Why the operations of a hash slot do what their maps say: each is shown, over any engine that commits batches as a whole, to refine
  its specification in \<open>MetaModel\<close>, and to leave the other hash slots as they are.
\<close>

section \<open>Tables over the engine\<close>

sublocale batch_engine \<subseteq> users: batch_table eng userTable user_good
  by (intro batch_table.intro batch_engine_axioms user_spec.table_spec_axioms)

sublocale batch_engine \<subseteq> devices: batch_table eng deviceTable device_good
  by (intro batch_table.intro batch_engine_axioms device_spec.table_spec_axioms)

sublocale batch_engine \<subseteq> channels: batch_table eng channelTable channel_good
  by (intro batch_table.intro batch_engine_axioms channel_spec.table_spec_axioms)

sublocale batch_engine \<subseteq> subscribers: batch_table eng subscriberTable subscriber_good
  by (intro batch_table.intro batch_engine_axioms subscriber_spec.table_spec_axioms)

sublocale batch_engine \<subseteq> runtime: batch_table eng channelRuntimeMetaTable runtime_good
  by (intro batch_table.intro batch_engine_axioms runtime_spec.table_spec_axioms)

sublocale batch_engine \<subseteq> conversations: batch_table eng conversationTable conversation_good
  by (intro batch_table.intro batch_engine_axioms conversation_spec.table_spec_axioms)

sublocale batch_engine \<subseteq> memberships: batch_table eng userChannelMembershipTable membership_good
  by (intro batch_table.intro batch_engine_axioms membership_spec.table_spec_axioms)

sublocale batch_engine \<subseteq> latest: batch_table eng channelLatestTable latest_good
  by (intro batch_table.intro batch_engine_axioms latest_spec.table_spec_axioms)

sublocale batch_engine \<subseteq> bindings: batch_table eng pluginBindingTable binding_good
  by (intro batch_table.intro batch_engine_axioms binding_spec.table_spec_axioms)

section \<open>Shapes of the steps\<close>

lemma part_injects [simp]:
  "PartString a = PartString b \<longleftrightarrow> a = b" "Int64Ordered v = Int64Ordered w \<longleftrightarrow> v = w" "Int64Desc v = Int64Desc w \<longleftrightarrow> v = w"
  "Uint64 v = Uint64 w \<longleftrightarrow> v = w"
  by (metis part_fields)+

lemma table_pks [simp]:
  "row_pk userTable u = [PartString (us_UID u)]" "row_pk deviceTable dv = [PartString (dv_UID dv), Int64Ordered (dv_DeviceFlag dv)]"
  "row_pk channelTable c = channel_pk (cn_ChannelID c) (cn_ChannelType c)"
  "row_pk subscriberTable s = subscriberPrimaryKey (sb_ChannelID s) (sb_ChannelType s) (sb_UID s)"
  "row_pk channelRuntimeMetaTable m = channel_pk (rm_ChannelID m) (rm_ChannelType m)"
  "row_pk conversationTable v = conversationPrimaryKeyParts (st_Kind v) (st_UID v) (st_ChannelID v) (st_ChannelType v)"
  "row_pk userChannelMembershipTable um = userChannelMembershipPrimaryKey (um_UID um) (um_ChannelID um) (um_ChannelType um)"
  "row_pk channelLatestTable l = channel_pk (lt_ChannelID l) (lt_ChannelType l)"
  "row_pk pluginBindingTable b = [PartString (pb_UID b), PartString (pb_PluginNo b)]"
  by (simp_all add: userTable_def deviceTable_def channelTable_def subscriberTable_def channelRuntimeMetaTable_def conversationTable_def
      userChannelMembershipTable_def channelLatestTable_def pluginBindingTable_def channelRuntimeMetaPrimaryKey_def
      conversationPrimaryKeyParts_def channelLatestPrimaryKey_def)

lemma table_keys [simp]:
  "table_key userTable [PartString uid] \<longleftrightarrow> validateKeyString uid = None"
  "table_key deviceTable [PartString uid, Int64Ordered f] \<longleftrightarrow> validateKeyString uid = None"
  "table_key channelTable (channel_pk i ty) \<longleftrightarrow> validateKeyString i = None"
  "table_key channelRuntimeMetaTable (channel_pk i ty) \<longleftrightarrow> validateKeyString i = None"
  "table_key channelLatestTable (channel_pk i ty) \<longleftrightarrow> validateKeyString i = None"
  "table_key subscriberTable (subscriberPrimaryKey i ty uid) \<longleftrightarrow> validateKeyString i = None \<and> validateKeyString uid = None"
  "table_key conversationTable (conversationPrimaryKeyParts kind uid i ty) \<longleftrightarrow> validateKeyString uid = None \<and> validateKeyString i = None"
  "table_key userChannelMembershipTable (userChannelMembershipPrimaryKey uid i ty) \<longleftrightarrow> validateKeyString uid = None \<and> validateKeyString i = None"
  "table_key pluginBindingTable [PartString uid, PartString p] \<longleftrightarrow> validateKeyString uid = None \<and> validateKeyString p = None"
  by (auto simp: userTable_def deviceTable_def channelTable_def subscriberTable_def channelRuntimeMetaTable_def conversationTable_def
      userChannelMembershipTable_def channelLatestTable_def pluginBindingTable_def key_of_simps valid_string subscriberPrimaryKey_def
      conversationPrimaryKeyParts_def userChannelMembershipPrimaryKey_def)

lemma meta_rows_simps [simp]:
  "ab_users (meta_rows m hs) = table_rows userTable m hs" "ab_devices (meta_rows m hs) = table_rows deviceTable m hs"
  "ab_channels (meta_rows m hs) = table_rows channelTable m hs" "ab_subscribers (meta_rows m hs) = table_rows subscriberTable m hs"
  "ab_runtime (meta_rows m hs) = table_rows channelRuntimeMetaTable m hs"
  "ab_conversations (meta_rows m hs) = table_rows conversationTable m hs"
  "ab_memberships (meta_rows m hs) = table_rows userChannelMembershipTable m hs"
  "ab_latest (meta_rows m hs) = table_rows channelLatestTable m hs" "ab_bindings (meta_rows m hs) = table_rows pluginBindingTable m hs"
  by (simp_all add: meta_rows_def)

lemma refines_invalid: "op_refines eng hs m (when_valid check spec) (bind_res (check_error check) res)"
  if "check = None \<Longrightarrow> op_refines eng hs m spec (res ())"
  using that by (cases check) (simp_all add: op_refines_def when_valid_def check_error_def bind_res_def)

lemma refines_commit:
  assumes "\<And>d'. eg_Commit eng d ops = Some d' \<Longrightarrow> meta_change hs s m (eg_Get eng d')"
  shows "op_refines eng hs m (Inr s) (commit_batch eng d ops)"
  using assms by (simp add: op_refines_def commit_batch_def split: option.split)

lemma refines_nothing: "meta_inv (eg_Get eng d) hs \<Longrightarrow> op_refines eng hs (eg_Get eng d) (Inr (meta_rows (eg_Get eng d) hs)) (Inr d)"
  by (simp add: op_refines_def change_none)

context batch_table
begin

lemma write_refines:
  assumes inv: "table_inv t good (eg_Get eng d) hs" and good: "good hs r"
    and put: "\<And>d'. row_update t good hs (row_pk t r) (Some r) (eg_Get eng d) (eg_Get eng d') \<Longrightarrow> meta_change hs (f ((table_rows t (eg_Get eng d) hs)(row_pk t r \<mapsto> r))) (eg_Get eng d) (eg_Get eng d')"
  shows "op_refines eng hs (eg_Get eng d) (bind_res (spec_put t (table_rows t (eg_Get eng d) hs) r mode) (\<lambda>rows. Inr (f rows)))
    (table_write t eng d hs r mode)"
  using write_exact [OF inv good, of mode] put
  by (auto simp: op_refines_def spec_put_def bind_res_def split: sum.splits if_splits)

lemma delete_refines:
  assumes inv: "table_inv t good (eg_Get eng d) hs" and pk: "table_key t pk"
    and put: "\<And>d'. row_update t good hs pk None (eg_Get eng d) (eg_Get eng d') \<Longrightarrow> meta_change hs s (eg_Get eng d) (eg_Get eng d')"
  shows "op_refines eng hs (eg_Get eng d) (Inr s) (table_Delete t eng d hs pk)"
  using delete_exact [OF inv pk] put by (auto simp: op_refines_def split: sum.splits)

end

lemma validate_keeps_key:
  "check_error (validatePrimaryKey t pk) = Inr ()" if "table_key t pk"
  using that by (simp add: validatePrimaryKey_def validate_ok check_error_def)

section \<open>Users and devices\<close>

context batch_engine
begin

lemma user_refines:
  assumes inv: "meta_inv (eg_Get eng d) hs"
  shows "op_refines eng hs (eg_Get eng d) (spec_user (meta_rows (eg_Get eng d) hs) u mode) (table_write userTable eng d hs u mode)"
proof (cases "validateKeyString (us_UID u)")
  case (Some e)
  then show ?thesis by (simp add: spec_user_def when_valid_def table_write_def userTable_def check_error_def bind_res_def op_refines_def)
next
  case None
  show ?thesis
  proof (cases "length (us_Token u) \<le> maxKeyStringLen")
    case True
    have "op_refines eng hs (eg_Get eng d)
        (bind_res (spec_put userTable (table_rows userTable (eg_Get eng d) hs) u mode) (\<lambda>rows. Inr ((meta_rows (eg_Get eng d) hs)\<lparr>ab_users := rows\<rparr>)))
        (table_write userTable eng d hs u mode)"
      by (rule users.write_refines)
        (use inv None True user_change [OF inv] in \<open>auto simp: user_good_def intro: clean_inv meta_inv_tables\<close>)
    then show ?thesis using None True by (simp add: spec_user_def when_valid_def when_short_def)
  next
    case False
    have k: "table_key userTable [PartString (us_UID u)]" using None by simp
    have "ts_Validate userTable u = None" "ts_EncodeValue userTable k u = Inl DBPanic" for k
      using None False by (simp_all add: userTable_def encodeUserValue_def append_string_long bind_res_def)
    then have "table_write userTable eng d hs u mode = Inl DBPanic"
      unfolding table_write_def using k
      by (simp add: table_primaryKey_def validatePrimaryKey_def validate_ok check_error_def bind_res_def primaryRowKey_ok)
    then show ?thesis using None False by (simp add: spec_user_def when_valid_def when_short_def op_refines_def)
  qed
qed

lemma delete_user_refines:
  assumes inv: "meta_inv (eg_Get eng d) hs"
  shows "op_refines eng hs (eg_Get eng d) (meta_spec (meta_rows (eg_Get eng d) hs) (OpDeleteUser uid)) (DeleteUser eng d hs uid)"
  unfolding DeleteUser_def meta_spec.simps
  by (rule refines_invalid, rule users.delete_refines)
    (use inv user_change [OF inv] in \<open>auto intro: clean_inv meta_inv_tables\<close>)

lemma device_refines:
  assumes inv: "meta_inv (eg_Get eng d) hs"
  shows "op_refines eng hs (eg_Get eng d) (meta_spec (meta_rows (eg_Get eng d) hs) (OpUpsertDevice dv)) (UpsertDevice eng d hs dv)"
proof (cases "validateKeyString (dv_UID dv)")
  case (Some e)
  then show ?thesis
    by (simp add: when_valid_def UpsertDevice_def table_write_def deviceTable_def validateDevice_def check_error_def bind_res_def op_refines_def)
next
  case None
  show ?thesis
  proof (cases "length (dv_Token dv) \<le> maxKeyStringLen")
    case True
    have "op_refines eng hs (eg_Get eng d)
        (bind_res (spec_put deviceTable (table_rows deviceTable (eg_Get eng d) hs) dv tableWriteUpsert)
          (\<lambda>rows. Inr ((meta_rows (eg_Get eng d) hs)\<lparr>ab_devices := rows\<rparr>)))
        (table_write deviceTable eng d hs dv tableWriteUpsert)"
      by (rule devices.write_refines)
        (use inv None True device_change [OF inv] in \<open>auto simp: device_good_def intro: clean_inv meta_inv_tables\<close>)
    then show ?thesis using None True
      by (simp add: when_valid_def when_short_def UpsertDevice_def spec_put_def check_mode_def bind_res_def)
  next
    case False
    have k: "table_key deviceTable [PartString (dv_UID dv), Int64Ordered (dv_DeviceFlag dv)]" using None by simp
    have "ts_Validate deviceTable dv = None" "ts_EncodeValue deviceTable k dv = Inl DBPanic" for k
      using None False by (simp_all add: deviceTable_def validateDevice_def encodeDeviceValue_def append_string_long bind_res_def)
    then have "UpsertDevice eng d hs dv = Inl DBPanic"
      unfolding UpsertDevice_def table_write_def using k
      by (simp add: table_primaryKey_def validatePrimaryKey_def validate_ok check_error_def bind_res_def primaryRowKey_ok)
    then show ?thesis using None False by (simp add: when_valid_def when_short_def op_refines_def)
  qed
qed

end

end
