(* ===== verification/MetaChannelSafety.thy ===== *)
theory MetaChannelSafety
  imports MetaModel
begin

text \<open>
  Channels and their subscribers: a write keeps the count of subscribers, a change of the subscribers moves it by the rows that
  came or went, and both are one batch.
\<close>

section \<open>Keys\<close>

lemma channel_row_key:
  "validateKeyString i = None \<Longrightarrow>
    key_or_panic (encodeChannelRowKey hs i ty channelPrimaryFamilyID) = Inr (row_key channelTable hs (channel_pk i ty))"
  by (simp add: encodeChannelRowKey_def slot_row_prefix with_parts_def key_or_panic_def AppendString_def maxStringLen_def
      valid_string maxKeyStringLen_def AppendInt64Ordered_def AppendUint16_def row_key_def row_prefix_of_def row_suffix_def channelTable_def
      part_bytes_def channelPrimaryFamilyID_def)

lemma put_fold: "apply_ops (map OpDelete [] @ [OpSet k v] @ xs) m = apply_ops (OpSet k v # xs) m"
  by simp

section \<open>Writing a channel\<close>

lemma channel_entries: "row_entries channelTable hs c pk (active channelTable) = row_entries channelTable hs c' pk (active channelTable)"
  by (simp add: channelTable_def active_def indexPartsForRow_def entry_key_def entry_prefix_def)

definition channel_ops :: "HashSlot \<Rightarrow> Channel \<Rightarrow> BatchOp list" where
  "channel_ops hs c =
     OpSet (row_key channelTable hs (row_pk channelTable c)) (encodeChannelValue c)
     # map (\<lambda>(ix, k). OpSet k (if ix_StorePrimaryValue ix then encodeChannelValue c else []))
         (row_entries channelTable hs c (row_pk channelTable c) (active channelTable))"

lemma stage_channel:
  assumes "validateKeyString (cn_ChannelID c) = None"
  shows "stageChannel hs (row_key channelTable hs (row_pk channelTable c)) c = Inr (channel_ops hs c)"
proof -
  have g: "channel_good hs c" using assms by (simp add: channel_good_def)
  have "table_primaryKey channelTable c = Inr (row_pk channelTable c)"
    using channel_spec.good_key [OF g] by (simp add: table_primaryKey_def validatePrimaryKey_def validate_ok Let_def del: table_pks)
  moreover have "ts_EncodeValue channelTable k c = Inr (encodeChannelValue c)" for k by (simp add: channelTable_def)
  ultimately show ?thesis
    using channel_spec.put_ops [OF g, of "encodeChannelValue c"] by (simp add: stageChannel_def bind_res_def channel_ops_def del: table_pks)
qed

lemma channel_put:
  assumes "table_inv channelTable channel_good m hs" "validateKeyString (cn_ChannelID c) = None"
  shows "row_update channelTable channel_good hs (row_pk channelTable c) (Some c) m (apply_ops (channel_ops hs c) m)"
proof -
  have g: "channel_good hs c" using assms(2) by (simp add: channel_good_def)
  have e: "ts_EncodeValue channelTable k c = Inr (encodeChannelValue c)" for k by (simp add: channelTable_def)
  have "old_entries channelTable m hs (row_pk channelTable c) \<subseteq> snd ` set (row_entries channelTable hs c (row_pk channelTable c) (active channelTable))"
    using channel_entries by (auto simp: old_entries_def split: option.splits) (metis channel_entries image_eqI snd_conv)
  then show ?thesis
    using channel_spec.put_update [OF assms(1) g e, of "[]" "\<lambda>ix. if ix_StorePrimaryValue ix then encodeChannelValue c else []"]
    unfolding channel_ops_def put_fold by simp
qed

text \<open>What is stored is what the decoder returns.\<close>

context batch_engine
begin

lemma stored_channel:
  assumes inv: "meta_inv (eg_Get eng d) hs" and i: "validateKeyString i = None"
  shows "(case eg_Get eng d (row_key channelTable hs (channel_pk i ty)) of None \<Rightarrow> None | Some v \<Rightarrow> Some (decodeChannelValue i ty v))
    = map_option Inr (table_rows channelTable (eg_Get eng d) hs (channel_pk i ty))"
proof (cases "eg_Get eng d (row_key channelTable hs (channel_pk i ty))")
  case None
  then show ?thesis by (simp add: table_rows_def)
next
  case (Some v)
  have k: "table_key channelTable (channel_pk i ty)" using i by simp
  from inv_row [OF clean_inv [OF meta_inv_tables(3) [OF inv]] k Some] obtain r where r: "row_stored channelTable channel_good hs (channel_pk i ty) v r" by blast
  have dec: "ts_DecodeValue channelTable q (channel_pk i ty) v = decodeChannelValue i ty v" for q by (simp add: channelTable_def)
  from channel_spec.stored_decodes [OF r] show ?thesis using Some k by (simp add: table_rows_def dec)
qed

lemma channel_refines:
  assumes inv: "meta_inv (eg_Get eng d) hs"
  shows "op_refines eng hs (eg_Get eng d) (spec_channel (meta_rows (eg_Get eng d) hs) c mode) (map_sum (\<lambda>e. e) snd (writeChannel eng d hs c mode))"
proof (cases "validateKeyString (cn_ChannelID c)")
  case (Some e)
  then show ?thesis
    by (simp add: spec_channel_def when_valid_def writeChannel_def validateChannel_def check_error_def bind_res_def op_refines_def)
next
  case None
  let ?pk = "channel_pk (cn_ChannelID c) (cn_ChannelType c)" and ?m = "eg_Get eng d"
  let ?k = "row_key channelTable hs ?pk"
  define c' where "c' = (case table_rows channelTable ?m hs ?pk of None \<Rightarrow> c | Some old \<Rightarrow> c\<lparr>cn_SubscriberCount := cn_SubscriberCount old\<rparr>)"
  have pk: "table_key channelTable ?pk" using None by simp
  have ti: "table_inv channelTable channel_good ?m hs" using meta_inv_tables(3) [OF inv] by (rule clean_inv)
  have ex: "?m ?k \<noteq> None \<longleftrightarrow> table_rows channelTable ?m hs ?pk \<noteq> None" using channel_spec.rows_none [OF ti pk] by simp
  have keep: "keep_count mode (?m ?k) c = Inr c'" if "check_mode mode (?m ?k \<noteq> None) = Inr ()"
    using that stored_channel [OF inv None, of "cn_ChannelType c"]
    by (auto simp: c'_def keep_count_def check_mode_def split: option.splits tableWriteMode.splits if_splits)
  have ids: "cn_ChannelID c' = cn_ChannelID c" "cn_ChannelType c' = cn_ChannelType c" by (simp_all add: c'_def split: option.split)
  then have v: "validateKeyString (cn_ChannelID c') = None" "row_pk channelTable c' = ?pk" using None by simp_all
  have st: "stageChannel hs ?k c' = Inr (channel_ops hs c')" using stage_channel [OF v(1), of hs] unfolding v(2) .
  have head: "check_error (validateChannel c) = Inr ()" "table_primaryKey channelTable c = Inr ?pk" "primaryRowKey channelTable hs ?pk = Inr ?k"
    using None pk by (simp_all add: validateChannel_def check_error_def table_primaryKey_def validatePrimaryKey_def validate_ok primaryRowKey_ok Let_def)
  have w: "map_sum (\<lambda>e. e) snd (writeChannel eng d hs c mode) =
      bind_res (check_mode mode (table_rows channelTable ?m hs ?pk \<noteq> None)) (\<lambda>_. commit_batch eng d (channel_ops hs c'))"
  proof (cases "check_mode mode (table_rows channelTable ?m hs ?pk \<noteq> None)")
    case (Inl e)
    then show ?thesis unfolding writeChannel_def head bind_res_def sum.case ex by simp
  next
    case (Inr u)
    then have kc: "keep_count mode (?m ?k) c = Inr c'" using keep unfolding ex by simp
    show ?thesis unfolding writeChannel_def head bind_res_def sum.case ex Inr kc st
      by (simp add: commit_batch_def split: option.split)
  qed
  have upd: "meta_change hs ((meta_rows ?m hs)\<lparr>ab_channels := (table_rows channelTable ?m hs)(?pk \<mapsto> c')\<rparr>) ?m (eg_Get eng d')"
    if "eg_Commit eng d (channel_ops hs c') = Some d'" for d'
    using channel_change [OF inv channel_put [OF ti v(1)]] unfolding get_commit [OF that] v(2) by simp
  have "op_refines eng hs ?m (Inr ((meta_rows ?m hs)\<lparr>ab_channels := (table_rows channelTable ?m hs)(?pk \<mapsto> c')\<rparr>)) (commit_batch eng d (channel_ops hs c'))"
    by (rule refines_commit) (rule upd)
  then show ?thesis
    unfolding w spec_channel_def None when_valid_def option.case Let_def spec_put_def meta_rows_simps table_pks c'_def [symmetric]
    by (auto simp: ids bind_res_def op_refines_def split: sum.splits)
qed

lemma delete_channel_refines:
  assumes inv: "meta_inv (eg_Get eng d) hs" and i: "validateKeyString i = None"
  shows "op_refines eng hs (eg_Get eng d) (Inr ((meta_rows (eg_Get eng d) hs)\<lparr>ab_channels := (table_rows channelTable (eg_Get eng d) hs)(channel_pk i ty := None)\<rparr>))
    (table_Delete channelTable eng d hs (channel_pk i ty))"
  by (rule channels.delete_refines) (use inv i channel_change [OF inv] in \<open>auto intro: clean_inv meta_inv_tables\<close>)

end

section \<open>Subscribers\<close>

lemma collect_uids_ok:
  "\<forall>uid \<in> set uids. validateKeyString uid = None \<Longrightarrow>
    \<exists>us. collect_uids seen uids = Inr us \<and> distinct us \<and> set us = set uids - set seen"
proof (induction uids arbitrary: seen)
  case (Cons uid uids)
  show ?case
  proof (cases "List.member seen uid")
    case True
    then show ?thesis using Cons by (auto simp: check_error_def bind_res_def List.member_iff)
  next
    case False
    obtain us where "collect_uids (uid # seen) uids = Inr us" "distinct us" "set us = set uids - set (uid # seen)"
      using Cons.IH [of "uid # seen"] Cons.prems by auto
    then show ?thesis using False Cons.prems by (auto simp: check_error_def bind_res_def List.member_iff)
  qed
qed simp

lemma collect_uids_bad: "\<exists>uid \<in> set uids. validateKeyString uid \<noteq> None \<Longrightarrow> collect_uids seen uids = Inl DBErrInvalidArgument"
proof (induction uids arbitrary: seen)
  case (Cons uid uids)
  then show ?case
    by (cases "validateKeyString uid") (auto simp: check_error_def bind_res_def validateKeyString_def split: if_splits)
qed simp

lemma normalize_uids:
  "normalizeSubscriberUIDs uids = Inl DBErrInvalidArgument" if "\<exists>uid \<in> set uids. validateKeyString uid \<noteq> None"
  using collect_uids_bad [OF that, of "[]"] that by (auto simp: normalizeSubscriberUIDs_def bind_res_def)

lemma normalize_uids_ok:
  assumes "\<forall>uid \<in> set uids. validateKeyString uid = None"
  obtains us where "normalizeSubscriberUIDs uids = Inr us" "distinct us" "set us = set uids" "sorted us"
proof -
  obtain us where "collect_uids [] uids = Inr us" "distinct us" "set us = set uids" using collect_uids_ok [OF assms, of "[]"] by auto
  then show thesis using that [of "sort us"] by (cases "uids = []") (auto simp: normalizeSubscriberUIDs_def bind_res_def)
qed

abbreviation sub_key :: "HashSlot \<Rightarrow> u8 list \<Rightarrow> u64 \<Rightarrow> u8 list \<Rightarrow> key" where
  "sub_key hs i ty uid \<equiv> row_key subscriberTable hs (subscriberPrimaryKey i ty uid)"

definition sub_op :: "HashSlot \<Rightarrow> u8 list \<Rightarrow> u64 \<Rightarrow> bool \<Rightarrow> u8 list \<Rightarrow> BatchOp" where
  "sub_op hs i ty add uid = (if add then OpSet (sub_key hs i ty uid) [] else OpDelete (sub_key hs i ty uid))"

lemma count_step:
  "new_count (if add then c + 1 else if 0 < c then c - 1 else c) n add = new_count c (Suc n) add"
proof (cases "add")
  case False
  have "unat (c - 1) = unat c - 1" if "0 < c" using that by (simp add: unat_minus_one)
  moreover have "unat c = 0" if "\<not> 0 < c" using that by (simp add: not_less word_le_nat_alt)
  ultimately show ?thesis using False by (auto simp: new_count_def)
qed (simp add: new_count_def ac_simps)

lemma new_count_zero: "new_count c 0 add = c"
  by (simp add: new_count_def)

lemma mutate_exact:
  assumes "validateKeyString (cn_ChannelID c) = None" "\<forall>uid \<in> set uids. validateKeyString uid = None"
  shows "mutate_uids eng d hs add c uids =
    Inr (map (sub_op hs (cn_ChannelID c) (cn_ChannelType c) add) uids,
      c\<lparr>cn_SubscriberCount := new_count (cn_SubscriberCount c)
        (length (filter (\<lambda>uid. (eg_Get eng d (sub_key hs (cn_ChannelID c) (cn_ChannelType c) uid) = None) = add) uids)) add\<rparr>)"
  using assms
proof (induction uids arbitrary: c)
  case (Cons uid uids)
  let ?k = "sub_key hs (cn_ChannelID c) (cn_ChannelType c) uid"
  have k: "subscriberRowKey hs (cn_ChannelID c) (cn_ChannelType c) uid = Inr ?k"
    using Cons.prems by (simp add: subscriberRowKey_def primaryRowKey_ok)
  let ?c = "c\<lparr>cn_SubscriberCount := (if (eg_Get eng d ?k = None) = add then if add then cn_SubscriberCount c + 1
    else if 0 < cn_SubscriberCount c then cn_SubscriberCount c - 1 else cn_SubscriberCount c else cn_SubscriberCount c)\<rparr>"
  have c: "(if add then if \<not> eg_Get eng d ?k \<noteq> None then c\<lparr>cn_SubscriberCount := cn_SubscriberCount c + 1\<rparr> else c
            else if eg_Get eng d ?k \<noteq> None \<and> 0 < cn_SubscriberCount c then c\<lparr>cn_SubscriberCount := cn_SubscriberCount c - 1\<rparr> else c) = ?c"
    by auto
  have "mutate_uids eng d hs add ?c uids =
    Inr (map (sub_op hs (cn_ChannelID c) (cn_ChannelType c) add) uids,
      ?c\<lparr>cn_SubscriberCount := new_count (cn_SubscriberCount ?c)
        (length (filter (\<lambda>uid. (eg_Get eng d (sub_key hs (cn_ChannelID c) (cn_ChannelType c) uid) = None) = add) uids)) add\<rparr>)"
    using Cons.IH [of ?c] Cons.prems by simp
  then show ?case
    unfolding mutate_uids.simps k bind_res_def sum.case Let_def c
    by (simp add: sub_op_def count_step [symmetric])
qed (simp add: new_count_zero)

text \<open>Staged changes of subscribers on the contents.\<close>

lemma subscribers_put:
  assumes "meta_inv m hs" "validateKeyString i = None" "\<forall>uid \<in> set uids. validateKeyString uid = None"
  shows "meta_change hs ((meta_rows m hs)\<lparr>ab_subscribers := with_subscribers (table_rows subscriberTable m hs) i ty (set uids) add\<rparr>) m
    (apply_ops (map (sub_op hs i ty add) uids) m)"
  using assms
proof (induction uids arbitrary: m)
  case Nil
  have "(meta_rows m hs)\<lparr>ab_subscribers := with_subscribers (table_rows subscriberTable m hs) i ty {} add\<rparr> = meta_rows m hs"
    by (simp add: with_subscribers_def meta_rows_def)
  then show ?case using change_none [OF Nil(1)] by simp
next
  case (Cons uid uids)
  let ?pk = "subscriberPrimaryKey i ty uid" and ?r = "\<lparr>sb_ChannelID = i, sb_ChannelType = ty, sb_UID = uid\<rparr>"
  let ?w = "if add then Some ?r else None" and ?m1 = "apply_op (sub_op hs i ty add uid) m"
  have ti: "table_inv subscriberTable subscriber_good m hs" using meta_inv_tables(4) [OF Cons.prems(1)] by (rule clean_inv)
  have ac: "active subscriberTable = []" by (simp add: active_def subscriberTable_def)
  have g: "subscriber_good hs ?r" using Cons.prems by (simp add: subscriber_good_def)
  have e: "ts_EncodeValue subscriberTable k ?r = Inr []" for k by (simp add: subscriberTable_def)
  have "row_update subscriberTable subscriber_good hs ?pk ?w m ?m1"
  proof (cases add)
    case True
    then show ?thesis using subscriber_spec.plain_put [OF ac ti g e] by (simp add: sub_op_def)
  next
    case False
    then show ?thesis using subscriber_spec.plain_remove [OF ac ti, of ?pk] Cons.prems by (simp add: sub_op_def)
  qed
  from subscriber_change [OF Cons.prems(1) this]
  have one: "meta_change hs ((meta_rows m hs)\<lparr>ab_subscribers := (table_rows subscriberTable m hs)(?pk := ?w)\<rparr>) m ?m1" by simp
  then have inv1: "meta_inv ?m1 hs" and rows1: "meta_rows ?m1 hs = (meta_rows m hs)\<lparr>ab_subscribers := (table_rows subscriberTable m hs)(?pk := ?w)\<rparr>"
    by (simp_all add: meta_change_def)
  have t1: "table_rows subscriberTable ?m1 hs = (table_rows subscriberTable m hs)(?pk := ?w)"
    using arg_cong [OF rows1, of ab_subscribers] by simp
  have "kp_S (subscriberPrimaryKey i ty uid ! 2) = uid" by (simp add: subscriberPrimaryKey_def)
  then have "with_subscribers ((table_rows subscriberTable m hs)(?pk := ?w)) i ty (set uids) add = with_subscribers (table_rows subscriberTable m hs) i ty (set (uid # uids)) add"
    by (auto simp: with_subscribers_def fun_eq_iff)
  then have "(meta_rows ?m1 hs)\<lparr>ab_subscribers := with_subscribers (table_rows subscriberTable ?m1 hs) i ty (set uids) add\<rparr>
      = (meta_rows m hs)\<lparr>ab_subscribers := with_subscribers (table_rows subscriberTable m hs) i ty (set (uid # uids)) add\<rparr>"
    unfolding rows1 t1 by simp
  then show ?case using change_trans [OF one] Cons.IH [OF inv1] Cons.prems by simp
qed

context batch_engine
begin

lemma subscribers_refine:
  assumes inv: "meta_inv (eg_Get eng (md_engine db)) hs"
  shows "op_refines eng hs (eg_Get eng (md_engine db)) (spec_subscribers (meta_rows (eg_Get eng (md_engine db)) hs) i ty uids version add)
    (map_sum (\<lambda>e. e) md_engine (mutateSubscribers eng db hs i ty uids version add))"
proof (cases "validateKeyString i")
  case (Some e)
  then show ?thesis by (simp add: spec_subscribers_def when_valid_def mutateSubscribers_def check_error_def bind_res_def op_refines_def)
next
  case None
  let ?d = "md_engine db" and ?m = "eg_Get eng (md_engine db)" and ?pk = "channel_pk i ty"
  let ?k = "row_key channelTable hs ?pk"
  note key = channel_row_key [OF None, of hs ty]
  show ?thesis
  proof (cases "\<exists>uid \<in> set uids. validateKeyString uid \<noteq> None")
    case True
    then show ?thesis
      by (simp add: spec_subscribers_def when_valid_def None mutateSubscribers_def check_error_def bind_res_def normalize_uids op_refines_def)
  next
    case False
    then have "\<forall>uid \<in> set uids. validateKeyString uid = None" by auto
    then obtain us where us: "normalizeSubscriberUIDs uids = Inr us" "distinct us" "set us = set uids" by (rule normalize_uids_ok)
    have vus: "\<forall>uid \<in> set us. validateKeyString uid = None" using False us(3) by auto
    note stored = stored_channel [OF inv None, of ty]
    show ?thesis
    proof (cases "?m ?k")
      case n: None
      then have "table_rows channelTable ?m hs ?pk = None" using stored by simp
      then show ?thesis using False n
        by (simp add: spec_subscribers_def when_valid_def None mutateSubscribers_def check_error_def bind_res_def us(1) key op_refines_def)
    next
      case (Some val)
      then obtain c where c: "table_rows channelTable ?m hs ?pk = Some c" and dec: "decodeChannelValue i ty val = Inr c"
        using stored by (cases "table_rows channelTable ?m hs ?pk") auto
      have ci: "cn_ChannelID c = i" "cn_ChannelType c = ty"
      proof -
        have "row_pk channelTable c = ?pk"
          using channel_spec.rows_stored [OF clean_inv [OF meta_inv_tables(3) [OF inv]] c] by (metis row_stored_def)
        then show "cn_ChannelID c = i" "cn_ChannelType c = ty" by simp_all
      qed
      define c1 where "c1 = (if cn_SubscriberMutationVersion c < version then c\<lparr>cn_SubscriberMutationVersion := version\<rparr> else c)"
      have c1: "cn_ChannelID c1 = i" "cn_ChannelType c1 = ty" "cn_SubscriberCount c1 = cn_SubscriberCount c" using ci by (simp_all add: c1_def)
      define n where "n = length (filter (\<lambda>uid. (?m (sub_key hs i ty uid) = None) = add) us)"
      define c2 where "c2 = c1\<lparr>cn_SubscriberCount := new_count (cn_SubscriberCount c) n add\<rparr>"
      have c2: "cn_ChannelID c2 = i" "row_pk channelTable c2 = ?pk" using c1 by (simp_all add: c2_def)
      have c2_max: "c2 = c\<lparr>cn_SubscriberMutationVersion := max (cn_SubscriberMutationVersion c) version,
          cn_SubscriberCount := new_count (cn_SubscriberCount c) n add\<rparr>"
        by (simp add: c2_def c1_def max_def not_le)
      have mu: "mutate_uids eng ?d hs add c1 us = Inr (map (sub_op hs i ty add) us, c2)"
        using mutate_exact [of c1 us eng ?d hs add] None vus unfolding c1 n_def [symmetric] c2_def by simp
      have st: "stageChannel hs ?k c2 = Inr (channel_ops hs c2)"
        using stage_channel [of c2 hs] None unfolding c2 by simp
      have "(?m (sub_key hs i ty uid) = None) = (table_rows subscriberTable ?m hs (subscriberPrimaryKey i ty uid) = None)" if "uid \<in> set us" for uid
        using subscriber_spec.rows_none [OF clean_inv [OF meta_inv_tables(4) [OF inv]], of "subscriberPrimaryKey i ty uid"] that vus None by simp
      then have "set (filter (\<lambda>uid. (?m (sub_key hs i ty uid) = None) = add) us) = changed_uids (meta_rows ?m hs) i ty uids add"
        using us(3) by (auto simp: changed_uids_def)
      then have n: "card (changed_uids (meta_rows ?m hs) i ty uids add) = n"
        unfolding n_def using us(2) by (metis distinct_card distinct_filter)
      have spec: "spec_subscribers (meta_rows ?m hs) i ty uids version add =
          Inr ((meta_rows ?m hs)\<lparr>ab_subscribers := with_subscribers (table_rows subscriberTable ?m hs) i ty (set us) add,
            ab_channels := (table_rows channelTable ?m hs)(?pk \<mapsto> c2)\<rparr>)"
        using False by (simp add: spec_subscribers_def when_valid_def None c n us(3) c2_max)
      have res: "map_sum (\<lambda>e. e) md_engine (mutateSubscribers eng db hs i ty uids version add) =
          commit_batch eng ?d (map (sub_op hs i ty add) us @ channel_ops hs c2)"
        unfolding mutateSubscribers_def None check_error_def option.case bind_res_def sum.case us(1) key Some dec Let_def c1_def [symmetric] mu prod.case st
        by (simp add: forgetChannel_def split: sum.split)
      show ?thesis
        unfolding spec res
      proof (rule refines_commit)
        fix d' assume cm: "eg_Commit eng ?d (map (sub_op hs i ty add) us @ channel_ops hs c2) = Some d'"
        let ?m1 = "apply_ops (map (sub_op hs i ty add) us) ?m"
        have one: "meta_change hs ((meta_rows ?m hs)\<lparr>ab_subscribers := with_subscribers (table_rows subscriberTable ?m hs) i ty (set us) add\<rparr>) ?m ?m1"
          using subscribers_put [OF inv None vus] .
        then have inv1: "meta_inv ?m1 hs" by (simp add: meta_change_def)
        have rows1: "meta_rows ?m1 hs = (meta_rows ?m hs)\<lparr>ab_subscribers := with_subscribers (table_rows subscriberTable ?m hs) i ty (set us) add\<rparr>"
          using one by (simp add: meta_change_def)
        have ch1: "table_rows channelTable ?m1 hs = table_rows channelTable ?m hs" using arg_cong [OF rows1, of ab_channels] by simp
        have v2: "validateKeyString (cn_ChannelID c2) = None" using None unfolding c2 .
        have "meta_change hs ((meta_rows ?m1 hs)\<lparr>ab_channels := (table_rows channelTable ?m1 hs)(?pk \<mapsto> c2)\<rparr>) ?m1 (apply_ops (channel_ops hs c2) ?m1)"
          using channel_change [OF inv1 channel_put [OF clean_inv [OF meta_inv_tables(3) [OF inv1]] v2]] unfolding c2 by simp
        from change_trans [OF one this]
        have "meta_change hs ((meta_rows ?m1 hs)\<lparr>ab_channels := (table_rows channelTable ?m1 hs)(?pk \<mapsto> c2)\<rparr>) ?m (eg_Get eng d')"
          unfolding get_commit [OF cm] by simp
        then show "meta_change hs ((meta_rows ?m hs)\<lparr>ab_subscribers := with_subscribers (table_rows subscriberTable ?m hs) i ty (set us) add,
            ab_channels := (table_rows channelTable ?m hs)(?pk \<mapsto> c2)\<rparr>) ?m (eg_Get eng d')"
          unfolding rows1 ch1 by simp
      qed
    qed
  qed
qed

end

text \<open>
  Runtime metadata, conversations, memberships, latest messages and plugin bindings: the stored row is merged with the request, and
  the merged row may be stored in turn.
\<close>

section \<open>Runtime metadata\<close>

lemma runtime_row_key_exact: "validateKeyString i = None \<Longrightarrow> runtime_row_key hs i ty = Inr (row_key channelRuntimeMetaTable hs (channel_pk i ty))"
  by (simp add: runtime_row_key_def encodeChannelRuntimeMetaRowKey_def encodeChannelRuntimeMetaRowPrefix_def slot_row_prefix with_parts_def
      key_or_panic_def AppendString_def maxStringLen_def valid_string maxKeyStringLen_def AppendInt64Ordered_def AppendUint16_def row_key_def
      row_prefix_of_def row_suffix_def channelRuntimeMetaTable_def part_bytes_def channelRuntimeMetaPrimaryFamilyID_def)

lemma dedup_length: "length (dedup_sorted xs) \<le> length xs"
  by (induction xs rule: dedup_sorted.induct) auto

lemma normalize_length: "length (normalizeUint64Set vs) \<le> length vs"
  using dedup_length [of "sort vs"] by (simp add: normalizeUint64Set_def)

lemma fits_normal: "runtime_fits m \<Longrightarrow> runtime_fits (normalizeChannelRuntimeMeta m)"
  using normalize_length [of "rm_Replicas m"] normalize_length [of "rm_ISR m"]
  by (auto simp: runtime_fits_def normalizeChannelRuntimeMeta_def Let_def)

definition merged_from :: "ChannelRuntimeMeta \<Rightarrow> ChannelRuntimeMeta \<Rightarrow> ChannelRuntimeMeta \<Rightarrow> bool" where
  "merged_from e c n \<longleftrightarrow> rm_ChannelID n = rm_ChannelID c \<and> rm_ChannelType n = rm_ChannelType c \<and> rm_Replicas n = rm_Replicas c
     \<and> rm_ISR n = rm_ISR c \<and> (rm_WriteFenceToken n = rm_WriteFenceToken c \<or> rm_WriteFenceToken n = rm_WriteFenceToken e)"

lemma merged_bump: "merged_from e c p \<Longrightarrow> merged_from e c (bumpRuntimeRoute x p h)"
  by (subst bump_form) (simp add: merged_from_def)

lemma merged_preserve: "merged_from e (c\<lparr>rm_LeaseUntilMS := l\<rparr>) (preserveRuntimeMetaState e (c\<lparr>rm_LeaseUntilMS := l\<rparr>))"
  "merged_from e c (preserveRuntimeMetaState e c)"
  by (simp_all add: merged_from_def preserveRuntimeMetaState_def Let_def)

lemma merged_lease: "merged_from e (c\<lparr>rm_LeaseUntilMS := l\<rparr>) n = merged_from e c n"
  by (simp add: merged_from_def)

lemma applied_shape:
  assumes "resolveMonotonicChannelRuntimeMeta (Some e) c = (n, MonotonicApplied)"
  shows "merged_from (normalizeChannelRuntimeMeta e) (normalizeChannelRuntimeMeta c) n"
proof -
  let ?e = "normalizeChannelRuntimeMeta e" and ?c = "normalizeChannelRuntimeMeta c"
  have "\<exists>x h. (x = ?c \<or> (\<exists>l. x = ?c\<lparr>rm_LeaseUntilMS := l\<rparr>)) \<and> n = bumpRuntimeRoute ?e (preserveRuntimeMetaState ?e x) h"
    using assms by (auto simp: resolveMonotonicChannelRuntimeMeta_def Let_def split: if_splits)
  then obtain x h where x: "x = ?c \<or> (\<exists>l. x = ?c\<lparr>rm_LeaseUntilMS := l\<rparr>)" and n: "n = bumpRuntimeRoute ?e (preserveRuntimeMetaState ?e x) h" by blast
  have "merged_from ?e ?c (preserveRuntimeMetaState ?e x)" using x merged_preserve merged_lease by blast
  then show ?thesis unfolding n by (rule merged_bump)
qed

lemma token_normal [simp]: "rm_WriteFenceToken (normalizeChannelRuntimeMeta m) = rm_WriteFenceToken m"
  by (simp add: normalizeChannelRuntimeMeta_def Let_def)

lemma applied_good:
  assumes c: "validateChannelRuntimeMeta c = None" "runtime_fits c"
    and e: "\<And>e. stored = Some e \<Longrightarrow> runtime_good hs e" and r: "resolveMonotonicChannelRuntimeMeta stored c = (n, MonotonicApplied)"
  shows "runtime_good hs n" "row_pk channelRuntimeMetaTable n = row_pk channelRuntimeMetaTable c"
proof -
  have "runtime_good hs n \<and> row_pk channelRuntimeMetaTable n = row_pk channelRuntimeMetaTable c"
  proof (cases stored)
    case None
    then have "n = normalizeChannelRuntimeMeta c" using r by (simp add: resolveMonotonicChannelRuntimeMeta_def Let_def)
    then show ?thesis using c by (simp add: runtime_good_def valid_normal fits_normal)
  next
    case (Some s)
    then have g: "runtime_good hs s" using e by simp
    have n: "n = merge_meta (Some s) c" using r Some by (simp add: merge_meta_def)
    have "validateChannelRuntimeMeta n = None" unfolding n by (rule merge_meta_valid) (use g c in \<open>simp_all add: runtime_good_def\<close>)
    moreover have "normalizeChannelRuntimeMeta n = n" unfolding n by (rule normalize_normal) (rule merge_meta_normal)
    moreover have m: "merged_from (normalizeChannelRuntimeMeta s) (normalizeChannelRuntimeMeta c) n" using applied_shape r Some by simp
    moreover have "runtime_fits n"
      using m fits_normal [OF c(2)] g by (auto simp: merged_from_def runtime_fits_def runtime_good_def)
    ultimately show ?thesis by (simp add: runtime_good_def merged_from_def)
  qed
  then show "runtime_good hs n" "row_pk channelRuntimeMetaTable n = row_pk channelRuntimeMetaTable c" by auto
qed

lemma normal_of: "normalizeChannelRuntimeMeta m = m \<Longrightarrow> normal_meta m"
  using normal_normalize [of m] by simp

lemma retention_good:
  assumes "runtime_good hs e" "advance_retention e req = Inr (Some n)"
  shows "runtime_good hs n" "row_pk channelRuntimeMetaTable n = row_pk channelRuntimeMetaTable e"
proof -
  have n: "n = e\<lparr>rm_RetentionThroughSeq := ra_RetentionThroughSeq req, rm_RetentionUpdatedAtMS := ra_RetentionUpdatedAtMS req,
      rm_RouteGeneration := nextChannelRouteGeneration (rm_RouteGeneration e)\<rparr>"
    using assms(2) by (auto simp: advance_retention_def split: if_splits)
  have e: "normal_meta e" using assms(1) normal_of unfolding runtime_good_def by blast
  have nn: "normal_meta n" using advance_forward(1) [OF e assms(2)] .
  have "valid_members n = valid_members e" "fence_ok n = fence_ok e" by (simp_all add: n valid_members_def)
  then have "validateChannelRuntimeMeta n = None" using valid_parts [OF nn] valid_parts [OF e] assms(1) by (simp add: runtime_good_def)
  then show "runtime_good hs n" using assms(1) normalize_normal [OF nn] by (simp add: runtime_good_def runtime_fits_def n)
  show "row_pk channelRuntimeMetaTable n = row_pk channelRuntimeMetaTable e" by (simp add: n)
qed

lemma no_indexes:
  "active subscriberTable = []" "active channelRuntimeMetaTable = []" "active userChannelMembershipTable = []" "active channelLatestTable = []"
  by (simp_all add: active_def subscriberTable_def channelRuntimeMetaTable_def userChannelMembershipTable_def channelLatestTable_def)

context batch_engine
begin

lemma runtime_get:
  assumes inv: "meta_inv (eg_Get eng d) hs" and i: "validateKeyString i = None"
  shows "getChannelRuntimeMetaByKey eng d (row_key channelRuntimeMetaTable hs (channel_pk i ty)) i ty
    = Inr (table_rows channelRuntimeMetaTable (eg_Get eng d) hs (channel_pk i ty))"
proof -
  have k: "table_key channelRuntimeMetaTable (channel_pk i ty)" using i by simp
  have "getByPrimaryKey channelRuntimeMetaTable eng d hs (channel_pk i ty) = Inr (table_rows channelRuntimeMetaTable (eg_Get eng d) hs (channel_pk i ty))"
    using runtime.get_exact [OF clean_inv [OF meta_inv_tables(5) [OF inv]] k] .
  then show ?thesis
    using k by (simp add: getByPrimaryKey_def validate_keeps_key primaryRowKey_ok bind_res_def getChannelRuntimeMetaByKey_def
        channelRuntimeMetaPrimaryKey_def cong: option.case_cong)
qed

lemma stored_good:
  assumes inv: "meta_inv m hs"
  shows "table_rows channelRuntimeMetaTable m hs pk = Some r \<Longrightarrow> runtime_good hs r \<and> row_pk channelRuntimeMetaTable r = pk"
    "table_rows conversationTable m hs pk = Some c \<Longrightarrow> conversation_good hs c \<and> row_pk conversationTable c = pk"
    "table_rows userChannelMembershipTable m hs pk = Some um \<Longrightarrow> membership_good hs um \<and> row_pk userChannelMembershipTable um = pk"
    "table_rows channelLatestTable m hs pk = Some l \<Longrightarrow> latest_good hs l \<and> row_pk channelLatestTable l = pk"
    "table_rows pluginBindingTable m hs pk = Some b \<Longrightarrow> binding_good hs b \<and> row_pk pluginBindingTable b = pk"
  using runtime_spec.rows_stored [OF clean_inv [OF meta_inv_tables(5) [OF inv]]]
    conversation_spec.rows_stored [OF clean_inv [OF meta_inv_tables(6) [OF inv]]]
    membership_spec.rows_stored [OF clean_inv [OF meta_inv_tables(7) [OF inv]]]
    latest_spec.rows_stored [OF clean_inv [OF meta_inv_tables(8) [OF inv]]]
    binding_spec.rows_stored [OF clean_inv [OF meta_inv_tables(9) [OF inv]]]
  by (metis row_stored_def)+

lemma runtime_put:
  assumes inv: "meta_inv (eg_Get eng d) hs" and good: "runtime_good hs n"
  shows "op_refines eng hs (eg_Get eng d)
    (Inr ((meta_rows (eg_Get eng d) hs)\<lparr>ab_runtime := (table_rows channelRuntimeMetaTable (eg_Get eng d) hs)(row_pk channelRuntimeMetaTable n \<mapsto> n)\<rparr>))
    (bind_res (ts_EncodeValue channelRuntimeMetaTable (row_key channelRuntimeMetaTable hs (row_pk channelRuntimeMetaTable n)) n)
      (\<lambda>val. commit_batch eng d [OpSet (row_key channelRuntimeMetaTable hs (row_pk channelRuntimeMetaTable n)) val]))"
proof -
  obtain v where v: "ts_EncodeValue channelRuntimeMetaTable (row_key channelRuntimeMetaTable hs (row_pk channelRuntimeMetaTable n)) n = Inr v"
    using runtime_spec.good_encode [OF good] by blast
  show ?thesis
    unfolding v bind_res_def sum.case
  proof (rule refines_commit)
    fix d' assume c: "eg_Commit eng d [OpSet (row_key channelRuntimeMetaTable hs (row_pk channelRuntimeMetaTable n)) v] = Some d'"
    show "meta_change hs ((meta_rows (eg_Get eng d) hs)\<lparr>ab_runtime := (table_rows channelRuntimeMetaTable (eg_Get eng d) hs)(row_pk channelRuntimeMetaTable n \<mapsto> n)\<rparr>)
        (eg_Get eng d) (eg_Get eng d')"
      using runtime_change [OF inv runtime_spec.plain_put [OF no_indexes(2) clean_inv [OF meta_inv_tables(5) [OF inv]] good v]]
      by (simp add: get_commit [OF c] del: table_pks)
  qed
qed

lemma runtime_refines:
  assumes inv: "meta_inv (eg_Get eng d) hs" and fits: "runtime_fits m"
  shows "op_refines eng hs (eg_Get eng d) (spec_runtime (meta_rows (eg_Get eng d) hs) m) (map_sum (\<lambda>e. e) fst (UpsertChannelRuntimeMeta eng d hs m))"
proof (cases "validateChannelRuntimeMeta m")
  case (Some e)
  then show ?thesis by (simp add: spec_runtime_def when_valid_def UpsertChannelRuntimeMeta_def check_error_def bind_res_def op_refines_def)
next
  case None
  have i: "validateKeyString (rm_ChannelID m) = None" using None by (rule valid_runtime_key)
  let ?pk = "channel_pk (rm_ChannelID m) (rm_ChannelType m)"
  define stored where "stored = table_rows channelRuntimeMetaTable (eg_Get eng d) hs ?pk"
  obtain n res where r: "resolveMonotonicChannelRuntimeMeta stored m = (n, res)" by (cases "resolveMonotonicChannelRuntimeMeta stored m")
  note head = None check_error_def option.case bind_res_def sum.case runtime_row_key_exact [OF i] runtime_get [OF inv i] stored_def [symmetric] r
  show ?thesis
  proof (cases res)
    case MonotonicApplied
    have good: "runtime_good hs n" "row_pk channelRuntimeMetaTable n = ?pk"
      using applied_good [OF None fits, of stored hs n] stored_good(1) [OF inv] r MonotonicApplied by (simp_all add: stored_def)
    have "op_refines eng hs (eg_Get eng d)
        (Inr ((meta_rows (eg_Get eng d) hs)\<lparr>ab_runtime := (table_rows channelRuntimeMetaTable (eg_Get eng d) hs)(?pk \<mapsto> n)\<rparr>))
        (bind_res (ts_EncodeValue channelRuntimeMetaTable (row_key channelRuntimeMetaTable hs ?pk) n)
          (\<lambda>val. commit_batch eng d [OpSet (row_key channelRuntimeMetaTable hs ?pk) val]))"
      using runtime_put [OF inv good(1)] unfolding good(2) .
    moreover have "map_sum (\<lambda>e. e) fst (UpsertChannelRuntimeMeta eng d hs m) =
        bind_res (ts_EncodeValue channelRuntimeMetaTable (row_key channelRuntimeMetaTable hs ?pk) n)
          (\<lambda>val. commit_batch eng d [OpSet (row_key channelRuntimeMetaTable hs ?pk) val])"
      unfolding UpsertChannelRuntimeMeta_def head MonotonicApplied by (simp split: sum.split)
    ultimately show ?thesis
      by (simp add: spec_runtime_def when_valid_def None Let_def stored_def [symmetric] r MonotonicApplied)
  next
    case MonotonicIgnoredStale
    then show ?thesis
      using refines_nothing [OF inv]
      by (simp add: spec_runtime_def when_valid_def UpsertChannelRuntimeMeta_def Let_def head)
  next
    case MonotonicConflict
    then show ?thesis
      by (simp add: spec_runtime_def when_valid_def UpsertChannelRuntimeMeta_def Let_def head op_refines_def)
  qed
qed

lemma retention_refines:
  assumes inv: "meta_inv (eg_Get eng d) hs"
  shows "op_refines eng hs (eg_Get eng d) (spec_retention (meta_rows (eg_Get eng d) hs) req) (AdvanceChannelRetentionThroughSeq eng d hs req)"
proof (cases "validateKeyString (ra_ChannelID req)")
  case (Some e)
  then show ?thesis by (simp add: spec_retention_def when_valid_def AdvanceChannelRetentionThroughSeq_def check_error_def bind_res_def op_refines_def)
next
  case None
  let ?pk = "channel_pk (ra_ChannelID req) (ra_ChannelType req)"
  note head = None check_error_def option.case bind_res_def sum.case runtime_row_key_exact [OF None] runtime_get [OF inv None]
  show ?thesis
  proof (cases "table_rows channelRuntimeMetaTable (eg_Get eng d) hs ?pk")
    case n: None
    then show ?thesis by (simp add: spec_retention_def when_valid_def AdvanceChannelRetentionThroughSeq_def Let_def head op_refines_def)
  next
    case (Some e)
    have e: "runtime_good hs e" "row_pk channelRuntimeMetaTable e = ?pk" using stored_good(1) [OF inv Some] by auto
    show ?thesis
    proof (cases "advance_retention e req")
      case (Inl err)
      then show ?thesis using Some
        by (simp add: spec_retention_def when_valid_def AdvanceChannelRetentionThroughSeq_def Let_def head op_refines_def)
    next
      case (Inr change)
      show ?thesis
      proof (cases change)
        case c: None
        then show ?thesis using Some Inr refines_nothing [OF inv]
          by (simp add: spec_retention_def when_valid_def AdvanceChannelRetentionThroughSeq_def Let_def head)
      next
        case c: (Some n)
        have g: "runtime_good hs n" "row_pk channelRuntimeMetaTable n = ?pk" using retention_good [OF e(1)] Inr c e(2) by auto
        show ?thesis using runtime_put [OF inv g(1)] unfolding g(2)
          using Some Inr c by (simp add: spec_retention_def when_valid_def AdvanceChannelRetentionThroughSeq_def Let_def head)
      qed
    qed
  qed
qed

lemma delete_runtime_refines:
  assumes inv: "meta_inv (eg_Get eng d) hs"
  shows "op_refines eng hs (eg_Get eng d) (meta_spec (meta_rows (eg_Get eng d) hs) (OpDeleteRuntimeMeta i ty)) (DeleteChannelRuntimeMeta eng d hs i ty)"
proof (cases "validateKeyString i")
  case (Some e)
  then show ?thesis by (simp add: when_valid_def DeleteChannelRuntimeMeta_def check_error_def bind_res_def op_refines_def)
next
  case None
  let ?pk = "channel_pk i ty" and ?t = channelRuntimeMetaTable
  note ti = clean_inv [OF meta_inv_tables(5) [OF inv]]
  have k: "table_key ?t ?pk" using None by simp
  have none: "table_rows ?t (eg_Get eng d) hs ?pk = None \<longleftrightarrow> eg_Get eng d (row_key ?t hs ?pk) = None" using runtime_spec.rows_none [OF ti k] .
  have upd: "meta_change hs ((meta_rows (eg_Get eng d) hs)\<lparr>ab_runtime := (table_rows ?t (eg_Get eng d) hs)(?pk := None)\<rparr>) (eg_Get eng d) (eg_Get eng d')"
    if c: "eg_Commit eng d [OpDelete (row_key ?t hs ?pk)] = Some d'" for d'
    using runtime_change [OF inv runtime_spec.plain_remove [OF no_indexes(2) ti k]] by (simp add: get_commit [OF c])
  have "op_refines eng hs (eg_Get eng d) (Inr ((meta_rows (eg_Get eng d) hs)\<lparr>ab_runtime := (table_rows ?t (eg_Get eng d) hs)(?pk := None)\<rparr>))
      (commit_batch eng d [OpDelete (row_key ?t hs ?pk)])"
    by (rule refines_commit) (rule upd)
  then show ?thesis
    using none
    by (cases "eg_Get eng d (row_key ?t hs ?pk)")
      (auto simp: when_valid_def DeleteChannelRuntimeMeta_def None check_error_def bind_res_def runtime_row_key_exact, simp add: op_refines_def)
qed

end

end
