(* ===== verification/MetaConvSafety.thy ===== *)
theory MetaConvSafety
  imports MetaChannelSafety
begin

text \<open>
  Conversations, memberships, latest messages and plugin bindings refine their maps.
\<close>

section \<open>Staging a conversation\<close>

lemma conversation_row_key_exact:
  "validateKeyString uid = None \<Longrightarrow> validateKeyString i = None \<Longrightarrow>
    conversation_row_key hs uid kind i ty = Inr (row_key conversationTable hs (conversationPrimaryKeyParts kind uid i ty))"
  by (simp add: conversation_row_key_def encodeConversationRowKey_def encodeConversationRowPrefix_def slot_row_prefix with_parts_def
      key_or_panic_def AppendString_def maxStringLen_def valid_string maxKeyStringLen_def AppendInt64Ordered_def AppendUint16_def
      AppendUint64_def row_key_def row_prefix_of_def row_suffix_def conversationTable_def part_bytes_def conversationPrimaryFamilyID_def
      conversationPrimaryKeyParts_def)

lemma conversation_stage:
  assumes inv: "meta_inv m hs" and good: "conversation_good hs n" and pk: "pk = row_pk conversationTable n"
    and old: "existing = table_rows conversationTable m hs pk"
  obtains ops where "stageConversationState hs (row_key conversationTable hs pk) existing n = Inr ops"
    "row_update conversationTable conversation_good hs pk (Some n) m (apply_ops ops m)"
proof -
  let ?t = conversationTable and ?v = "encodeConversationStateValue n"
  let ?f = "\<lambda>ix :: ConversationState IndexSpec. if ix_StorePrimaryValue ix then ?v else []"
  let ?es = "row_entries ?t hs n pk (active ?t)"
  note ti = clean_inv [OF meta_inv_tables(6) [OF inv]]
  have all: "filter (\<lambda>ix. \<not> ix_PrimaryFromIndex ix) (active ?t) = active ?t" by (simp add: active_def conversationTable_def)
  have put: "stagePutIndexEntries ?t hs n pk ?v = Inr (map (\<lambda>(ix, k). OpSet k (?f ix)) ?es)"
    unfolding pk by (rule conversation_spec.put_ops [OF good])
  have v: "ts_EncodeValue ?t k n = Inr ?v" for k by (simp add: conversationTable_def)
  have kp: "conversationPrimaryKeyParts (st_Kind n) (st_UID n) (st_ChannelID n) (st_ChannelType n) = pk" by (simp add: pk)
  obtain ks where ks: "set ks = old_entries ?t m hs pk"
    and del: "(case existing of Some old \<Rightarrow> stageDeleteIndexEntries ?t hs old pk | None \<Rightarrow> Inr []) = Inr (map OpDelete ks)"
  proof (cases existing)
    case None
    then show thesis using that [of "[]"] old by (simp add: old_entries_def)
  next
    case (Some o')
    have r: "table_rows ?t m hs pk = Some o'" using old Some by simp
    then have g: "conversation_good hs o'" "row_pk ?t o' = pk"
      using conversation_spec.rows_stored [OF ti r] by (metis row_stored_def)+
    let ?ds = "row_entries ?t hs o' pk (active ?t)"
    have "stageDeleteIndexEntries ?t hs o' pk = Inr (map OpDelete (map snd ?ds))"
      using conversation_spec.delete_ops [OF g(1)] unfolding g(2) all conversation_spec.map_deletes .
    moreover have "set (map snd ?ds) = old_entries ?t m hs pk" by (simp add: old_entries_def r)
    ultimately show thesis using that [of "map snd ?ds"] Some by simp
  qed
  let ?ops = "map OpDelete ks @ [OpSet (row_key ?t hs pk) ?v] @ map (\<lambda>(ix, k). OpSet k (?f ix)) ?es"
  have "stageConversationState hs (row_key ?t hs pk) existing n = Inr ?ops"
    unfolding stageConversationState_def kp Let_def del bind_res_def sum.case put ..
  moreover have "row_update ?t conversation_good hs pk (Some n) m (apply_ops ?ops m)"
    using conversation_spec.put_update [OF ti good v, of ks ?f] ks unfolding pk by blast
  ultimately show thesis by (rule that)
qed

lemma valid_requests:
  "validateConversationActivePatch p = None \<longleftrightarrow> pa_Kind p \<noteq> 0 \<and> validateKeyString (pa_UID p) = None \<and> validateKeyString (pa_ChannelID p) = None"
  "validateConversationDelete q = None \<longleftrightarrow> cd_Kind q \<noteq> 0 \<and> validateKeyString (cd_UID q) = None \<and> validateKeyString (cd_ChannelID q) = None"
  by (simp_all add: validateConversationActivePatch_def validateConversationDelete_def first_error_None validateConversationKind_def
      validateConversationUID_def validateConversationKey_def)

abbreviation conversation_id :: "ConversationState \<Rightarrow> ConversationKind \<times> u8 list \<times> u8 list \<times> u64" where
  "conversation_id c \<equiv> (st_Kind c, st_UID c, st_ChannelID c, st_ChannelType c)"

lemma same_id: "row_pk conversationTable c = row_pk conversationTable c' \<longleftrightarrow> conversation_id c = conversation_id c'"
proof -
  have "ucast a = (ucast b :: u64) \<longleftrightarrow> a = b" for a b :: u8 using kind_back by metis
  then show ?thesis by (auto simp: conversationPrimaryKeyParts_def)
qed

lemma good_id: "conversation_id n = (kind, uid, i, ty) \<Longrightarrow>
    conversation_good hs n \<longleftrightarrow> kind \<noteq> 0 \<and> validateKeyString uid = None \<and> validateKeyString i = None"
  by (auto simp: conversation_good_def valid_conversation)

lemma write_id:
  "touch_conversation stored p = Some n \<Longrightarrow> (\<And>c. stored = Some c \<Longrightarrow> conversation_id c = (pa_Kind p, pa_UID p, pa_ChannelID p, pa_ChannelType p))
    \<Longrightarrow> conversation_id n = (pa_Kind p, pa_UID p, pa_ChannelID p, pa_ChannelType p)"
  "hide_conversation stored q = Some n \<Longrightarrow> (\<And>c. stored = Some c \<Longrightarrow> conversation_id c = (cd_Kind q, cd_UID q, cd_ChannelID q, cd_ChannelType q))
    \<Longrightarrow> conversation_id n = (cd_Kind q, cd_UID q, cd_ChannelID q, cd_ChannelType q)"
  by (cases stored; auto simp: touch_conversation_def hide_conversation_def new_conversation_def Let_def split: if_splits)+

lemma clear_id: "clear_conversation (Some c) = Some n \<Longrightarrow> conversation_id n = conversation_id c"
  by (auto simp: clear_conversation_def split: if_splits)

context batch_engine
begin

text \<open>What is stored, and what a merged row becomes.\<close>

lemma conversation_get:
  assumes "meta_inv (eg_Get eng d) hs" "validateKeyString uid = None" "validateKeyString i = None"
  shows "table_Get conversationTable eng d hs (conversationPrimaryKeyParts kind uid i ty)
    = Inr (table_rows conversationTable (eg_Get eng d) hs (conversationPrimaryKeyParts kind uid i ty))"
  unfolding table_Get_def by (rule conversations.get_exact) (use assms in \<open>auto intro: clean_inv meta_inv_tables\<close>)

lemma conversation_commit:
  assumes inv: "meta_inv (eg_Get eng d) hs" and good: "\<And>n. next = Some n \<Longrightarrow> conversation_good hs n \<and> row_pk conversationTable n = pk"
  shows "op_refines eng hs (eg_Get eng d) (Inr (put_conversation (meta_rows (eg_Get eng d) hs) pk next))
    (case next of None \<Rightarrow> Inr d
     | Some n \<Rightarrow> bind_res (stageConversationState hs (row_key conversationTable hs pk) (table_rows conversationTable (eg_Get eng d) hs pk) n)
         (\<lambda>ops. commit_batch eng d ops))"
proof (cases "next")
  case None
  then show ?thesis using refines_nothing [OF inv] by (simp add: put_conversation_def)
next
  case (Some n)
  obtain ops where ops: "stageConversationState hs (row_key conversationTable hs pk) (table_rows conversationTable (eg_Get eng d) hs pk) n = Inr ops"
    and up: "row_update conversationTable conversation_good hs pk (Some n) (eg_Get eng d) (apply_ops ops (eg_Get eng d))"
  proof -
    have g: "conversation_good hs n" "pk = row_pk conversationTable n" using good [OF Some] by auto
    show thesis using conversation_stage [OF inv g refl] that by blast
  qed
  show ?thesis
    unfolding Some option.case ops bind_res_def sum.case put_conversation_def
    by (rule refines_commit) (use conversation_change [OF inv up] in \<open>simp add: get_commit\<close>)
qed

lemma upsert_conversation_refines:
  assumes inv: "meta_inv (eg_Get eng d) hs"
  shows "op_refines eng hs (eg_Get eng d) (meta_spec (meta_rows (eg_Get eng d) hs) (OpUpsertConversation c)) (UpsertConversationState eng d hs c)"
  unfolding UpsertConversationState_def meta_spec.simps
proof (rule refines_invalid)
  assume v: "validateConversationState c = None"
  let ?pk = "row_pk conversationTable c"
  have k: "validateKeyString (st_UID c) = None" "validateKeyString (st_ChannelID c) = None" "st_Kind c \<noteq> 0" using v by (simp_all add: valid_conversation)
  let ?stored = "table_rows conversationTable (eg_Get eng d) hs ?pk"
  let ?n = "case ?stored of Some old \<Rightarrow> mergeConversationState old c | None \<Rightarrow> c"
  have id: "conversation_id ?n = conversation_id c"
  proof (cases ?stored)
    case (Some old)
    then have "row_pk conversationTable old = ?pk" using stored_good(2) [OF inv] by blast
    then show ?thesis unfolding Some same_id by (simp add: mergeConversationState_def Let_def)
  qed simp
  then have "conversation_good hs ?n \<and> row_pk conversationTable ?n = ?pk" using k good_id [OF id] unfolding same_id by simp
  then show "op_refines eng hs (eg_Get eng d)
      (let pk = row_pk conversationTable c in Inr (put_conversation (meta_rows (eg_Get eng d) hs) pk
        (conversation_write (ab_conversations (meta_rows (eg_Get eng d) hs) pk) (ConvUpsert c))))
      (bind_res (conversation_row_key hs (st_UID c) (st_Kind c) (st_ChannelID c) (st_ChannelType c)) (\<lambda>primaryKey.
         bind_res (table_Get conversationTable eng d hs (conversationPrimaryKeyParts (st_Kind c) (st_UID c) (st_ChannelID c) (st_ChannelType c))) (\<lambda>existing.
           let state = (case existing of Some old \<Rightarrow> mergeConversationState old c | None \<Rightarrow> c)
           in bind_res (stageConversationState hs primaryKey existing state) (\<lambda>ops. commit_batch eng d ops))))"
    using conversation_commit [OF inv, of "Some ?n" ?pk]
    unfolding conversation_row_key_exact [OF k(1,2)] conversation_get [OF inv k(1,2)] bind_res_def sum.case Let_def conversation_write.simps
      merge_conversation_def meta_rows_simps table_pks option.case
    by (simp split: option.splits)
qed

lemma touch_conversation_refines:
  assumes inv: "meta_inv (eg_Get eng d) hs"
  shows "op_refines eng hs (eg_Get eng d) (meta_spec (meta_rows (eg_Get eng d) hs) (OpTouchConversation p)) (TouchConversationActiveAt eng d hs p)"
  unfolding TouchConversationActiveAt_def meta_spec.simps
proof (rule refines_invalid)
  assume "validateConversationActivePatch p = None"
  then have k: "validateKeyString (pa_UID p) = None" "validateKeyString (pa_ChannelID p) = None" "pa_Kind p \<noteq> 0" by (simp_all add: valid_requests)
  let ?pk = "conversationPrimaryKeyParts (pa_Kind p) (pa_UID p) (pa_ChannelID p) (pa_ChannelType p)"
  let ?stored = "table_rows conversationTable (eg_Get eng d) hs ?pk"
  have "conversation_good hs n \<and> row_pk conversationTable n = ?pk" if "touch_conversation ?stored p = Some n" for n
  proof -
    have "row_pk conversationTable c = row_pk conversationTable (new_conversation (pa_UID p) (pa_Kind p) (pa_ChannelID p) (pa_ChannelType p))"
      if "?stored = Some c" for c using stored_good(2) [OF inv that] by (simp add: new_conversation_def)
    then have "conversation_id n = (pa_Kind p, pa_UID p, pa_ChannelID p, pa_ChannelType p)"
      using write_id(1) [OF that] unfolding same_id by (simp add: new_conversation_def)
    then show ?thesis using k good_id by simp
  qed
  then show "op_refines eng hs (eg_Get eng d)
      (let pk = ?pk in Inr (put_conversation (meta_rows (eg_Get eng d) hs) pk
        (conversation_write (ab_conversations (meta_rows (eg_Get eng d) hs) pk) (ConvTouch p))))
      (bind_res (conversation_row_key hs (pa_UID p) (pa_Kind p) (pa_ChannelID p) (pa_ChannelType p)) (\<lambda>primaryKey.
         bind_res (table_Get conversationTable eng d hs ?pk) (\<lambda>existing.
           case touch_conversation existing p of
             None \<Rightarrow> Inr d
           | Some next \<Rightarrow> bind_res (stageConversationState hs primaryKey existing next) (\<lambda>ops. commit_batch eng d ops))))"
    using conversation_commit [OF inv, of "touch_conversation ?stored p" ?pk]
    by (cases "touch_conversation ?stored p") (simp_all add: conversation_row_key_exact [OF k(1,2)] conversation_get [OF inv k(1,2)] bind_res_def)
qed

lemma hide_conversation_refines:
  assumes inv: "meta_inv (eg_Get eng d) hs"
  shows "op_refines eng hs (eg_Get eng d) (meta_spec (meta_rows (eg_Get eng d) hs) (OpHideConversation p)) (HideConversation eng d hs p)"
  unfolding HideConversation_def meta_spec.simps
proof (rule refines_invalid)
  assume "validateConversationDelete p = None"
  then have k: "validateKeyString (cd_UID p) = None" "validateKeyString (cd_ChannelID p) = None" "cd_Kind p \<noteq> 0" by (simp_all add: valid_requests)
  let ?pk = "conversationPrimaryKeyParts (cd_Kind p) (cd_UID p) (cd_ChannelID p) (cd_ChannelType p)"
  let ?stored = "table_rows conversationTable (eg_Get eng d) hs ?pk"
  have "conversation_good hs n \<and> row_pk conversationTable n = ?pk" if "hide_conversation ?stored p = Some n" for n
  proof -
    have "row_pk conversationTable c = row_pk conversationTable (new_conversation (cd_UID p) (cd_Kind p) (cd_ChannelID p) (cd_ChannelType p))"
      if "?stored = Some c" for c using stored_good(2) [OF inv that] by (simp add: new_conversation_def)
    then have "conversation_id n = (cd_Kind p, cd_UID p, cd_ChannelID p, cd_ChannelType p)"
      using write_id(2) [OF that] unfolding same_id by (simp add: new_conversation_def)
    then show ?thesis using k good_id by simp
  qed
  then show "op_refines eng hs (eg_Get eng d)
      (let pk = ?pk in Inr (put_conversation (meta_rows (eg_Get eng d) hs) pk
        (conversation_write (ab_conversations (meta_rows (eg_Get eng d) hs) pk) (ConvHide p))))
      (bind_res (conversation_row_key hs (cd_UID p) (cd_Kind p) (cd_ChannelID p) (cd_ChannelType p)) (\<lambda>primaryKey.
         bind_res (table_Get conversationTable eng d hs ?pk) (\<lambda>existing.
           case hide_conversation existing p of
             None \<Rightarrow> Inr d
           | Some next \<Rightarrow> bind_res (stageConversationState hs primaryKey existing next) (\<lambda>ops. commit_batch eng d ops))))"
    using conversation_commit [OF inv, of "hide_conversation ?stored p" ?pk]
    by (cases "hide_conversation ?stored p") (simp_all add: conversation_row_key_exact [OF k(1,2)] conversation_get [OF inv k(1,2)] bind_res_def)
qed

end

section \<open>Clearing conversations\<close>

lemma collect_keys_ok:
  "\<forall>k \<in> set ks. validateConversationKey k = None \<Longrightarrow>
    \<exists>us. collect_conversation_keys seen ks = Inr us \<and> distinct us \<and> set us = set ks - set seen"
proof (induction ks arbitrary: seen)
  case (Cons k ks)
  show ?case
  proof (cases "List.member seen k")
    case True
    then show ?thesis using Cons by (auto simp: check_error_def bind_res_def List.member_iff)
  next
    case False
    obtain us where "collect_conversation_keys (k # seen) ks = Inr us" "distinct us" "set us = set ks - set (k # seen)"
      using Cons.IH [of "k # seen"] Cons.prems by auto
    then show ?thesis using False Cons.prems by (auto simp: check_error_def bind_res_def List.member_iff)
  qed
qed simp

lemma collect_keys_bad: "\<exists>k \<in> set ks. validateConversationKey k \<noteq> None \<Longrightarrow> collect_conversation_keys seen ks = Inl DBErrInvalidArgument"
proof (induction ks arbitrary: seen)
  case (Cons k ks)
  then show ?case
    by (cases "validateConversationKey k") (auto simp: check_error_def bind_res_def validateConversationKey_def validateKeyString_def split: if_splits)
qed simp

lemma normalize_keys_ok:
  assumes "\<forall>k \<in> set ks. validateConversationKey k = None"
  obtains us where "normalizeConversationKeys ks = Inr us" "distinct us" "set us = set ks"
proof -
  obtain us where "collect_conversation_keys [] ks = Inr us" "distinct us" "set us = set ks" using collect_keys_ok [OF assms, of "[]"] by auto
  then show thesis using that [of "sort_by conversation_key_less us"] by (cases "ks = []") (auto simp: normalizeConversationKeys_def bind_res_def)
qed

lemma normalize_keys_bad: "\<exists>k \<in> set ks. validateConversationKey k \<noteq> None \<Longrightarrow> normalizeConversationKeys ks = Inl DBErrInvalidArgument"
  using collect_keys_bad [of ks "[]"] by (auto simp: normalizeConversationKeys_def bind_res_def)

lemma key_inject: "conversationPrimaryKeyParts kind uid (ck_ChannelID k) (ck_ChannelType k) = conversationPrimaryKeyParts kind uid (ck_ChannelID k') (ck_ChannelType k')
    \<longleftrightarrow> k = (k' :: ConversationKey)"
  by (cases k; cases k') (simp add: conversationPrimaryKeyParts_def)

context batch_engine
begin

lemma clear_keys_exact:
  assumes inv: "meta_inv (eg_Get eng d) hs" and v: "validateKeyString uid = None" "kind \<noteq> 0"
    and ks: "\<forall>k \<in> set ks. validateConversationKey k = None" "distinct ks"
    and m: "meta_inv m hs" "\<And>k. k \<in> set ks \<Longrightarrow> table_rows conversationTable m hs (conversationPrimaryKeyParts kind uid (ck_ChannelID k) (ck_ChannelType k))
        = table_rows conversationTable (eg_Get eng d) hs (conversationPrimaryKeyParts kind uid (ck_ChannelID k) (ck_ChannelType k))"
  shows "\<exists>ops. clear_keys eng d hs kind uid ks = Inr ops
    \<and> meta_change hs ((meta_rows m hs)\<lparr>ab_conversations := cleared_rows (table_rows conversationTable m hs)
          ((\<lambda>k. conversationPrimaryKeyParts kind uid (ck_ChannelID k) (ck_ChannelType k)) ` set ks)\<rparr>) m (apply_ops ops m)"
  using ks m
proof (induction ks arbitrary: m)
  case Nil
  have "(meta_rows m hs)\<lparr>ab_conversations := cleared_rows (table_rows conversationTable m hs) {}\<rparr> = meta_rows m hs"
    by (simp add: cleared_rows_def meta_rows_def)
  then show ?case using change_none [OF Nil.prems(3)] by simp
next
  case (Cons k ks)
  let ?key = "\<lambda>k. conversationPrimaryKeyParts kind uid (ck_ChannelID k) (ck_ChannelType k)"
  let ?pk = "?key k" and ?t = conversationTable
  let ?stored = "table_rows ?t (eg_Get eng d) hs ?pk"
  have vk: "validateKeyString (ck_ChannelID k) = None" using Cons.prems(1) by (simp add: validateConversationKey_def)
  have same: "table_rows ?t m hs ?pk = ?stored" using Cons.prems(4) by simp
  obtain ops1 where ops1: "(case clear_conversation ?stored of None \<Rightarrow> Inr [] | Some n \<Rightarrow> stageConversationState hs (row_key ?t hs ?pk) ?stored n) = Inr ops1"
    and one: "meta_change hs ((meta_rows m hs)\<lparr>ab_conversations := cleared_rows (table_rows ?t m hs) {?pk}\<rparr>) m (apply_ops ops1 m)"
  proof (cases "clear_conversation ?stored")
    case None
    have "(meta_rows m hs)\<lparr>ab_conversations := cleared_rows (table_rows ?t m hs) {?pk}\<rparr> = meta_rows m hs"
      using None same by (auto simp: cleared_rows_def meta_rows_def fun_eq_iff)
    then show thesis using that [of "[]"] None change_none [OF Cons.prems(3)] by simp
  next
    case (Some n)
    then obtain c where c: "?stored = Some c" by (auto simp: clear_conversation_def split: option.splits)
    have "row_pk ?t n = row_pk ?t c" using clear_id Some c unfolding same_id by simp
    then have n: "?pk = row_pk ?t n" using stored_good(2) [OF inv c] by simp
    have g: "conversation_good hs n"
      using stored_good(2) [OF inv c] clear_id [of c n] Some c good_id [of n] good_id [of c] by (metis prod.exhaust_sel)
    obtain ops where "stageConversationState hs (row_key ?t hs ?pk) ?stored n = Inr ops"
      and up: "row_update ?t conversation_good hs ?pk (Some n) m (apply_ops ops m)"
      using conversation_stage [OF Cons.prems(3) g n same [symmetric]] by metis
    moreover have "(table_rows ?t m hs)(?pk := Some n) = cleared_rows (table_rows ?t m hs) {?pk}"
      using Some same by (auto simp: cleared_rows_def fun_eq_iff)
    ultimately show thesis using that [of ops] Some conversation_change [OF Cons.prems(3) up] by simp
  qed
  let ?m1 = "apply_ops ops1 m"
  have inv1: "meta_inv ?m1 hs" and rows1: "meta_rows ?m1 hs = (meta_rows m hs)\<lparr>ab_conversations := cleared_rows (table_rows ?t m hs) {?pk}\<rparr>"
    using one by (simp_all add: meta_change_def)
  have t1: "table_rows ?t ?m1 hs = cleared_rows (table_rows ?t m hs) {?pk}" using arg_cong [OF rows1, of ab_conversations] by simp
  have later: "table_rows ?t ?m1 hs (?key k') = table_rows ?t (eg_Get eng d) hs (?key k')" if "k' \<in> set ks" for k'
  proof -
    have "k' \<noteq> k" using that Cons.prems(2) by auto
    then show ?thesis using Cons.prems(4) [of k'] that key_inject [of kind uid k' k] by (simp add: t1 cleared_rows_def)
  qed
  obtain ops2 where ops2: "clear_keys eng d hs kind uid ks = Inr ops2"
    and two: "meta_change hs ((meta_rows ?m1 hs)\<lparr>ab_conversations := cleared_rows (table_rows ?t ?m1 hs) (?key ` set ks)\<rparr>) ?m1 (apply_ops ops2 ?m1)"
    using Cons.IH [OF _ _ inv1 later] Cons.prems(1,2) by auto
  have "cleared_rows (cleared_rows rows {?pk}) (?key ` set ks) = cleared_rows rows (?key ` set (k # ks))" for rows
  proof
    fix pk
    have "?pk \<notin> ?key ` set ks" using Cons.prems(2) by (auto simp: key_inject)
    then show "cleared_rows (cleared_rows rows {?pk}) (?key ` set ks) pk = cleared_rows rows (?key ` set (k # ks)) pk"
      by (auto simp: cleared_rows_def)
  qed
  then have "meta_change hs ((meta_rows m hs)\<lparr>ab_conversations := cleared_rows (table_rows ?t m hs) (?key ` set (k # ks))\<rparr>) m (apply_ops (ops1 @ ops2) m)"
    using change_trans [OF one two] unfolding rows1 t1 by simp
  moreover have "clear_keys eng d hs kind uid (k # ks) = Inr (ops1 @ ops2)"
    unfolding clear_keys.simps conversation_row_key_exact [OF v(1) vk] conversation_get [OF inv v(1) vk] bind_res_def sum.case ops1 ops2 ..
  ultimately show ?case by blast
qed

lemma clear_refines:
  assumes inv: "meta_inv (eg_Get eng d) hs"
  shows "op_refines eng hs (eg_Get eng d) (meta_spec (meta_rows (eg_Get eng d) hs) (OpClearConversations kind uid ks)) (ClearConversationActiveAt eng d hs kind uid ks)"
  unfolding ClearConversationActiveAt_def meta_spec.simps
proof (rule refines_invalid)
  assume "first_error [validateConversationKind kind, validateConversationUID uid] = None"
  then have v: "validateKeyString uid = None" "kind \<noteq> 0"
    by (auto simp: first_error_None validateConversationKind_def validateConversationUID_def split: if_splits)
  let ?key = "\<lambda>k. conversationPrimaryKeyParts kind uid (ck_ChannelID k) (ck_ChannelType k)"
  let ?rows = "(meta_rows (eg_Get eng d) hs)\<lparr>ab_conversations := cleared_rows (table_rows conversationTable (eg_Get eng d) hs) (?key ` set ks)\<rparr>"
  show "op_refines eng hs (eg_Get eng d)
     (if \<exists>k \<in> set ks. validateConversationKey k \<noteq> None then Inl DBErrInvalidArgument
      else Inr ((meta_rows (eg_Get eng d) hs)\<lparr>ab_conversations := cleared_rows (ab_conversations (meta_rows (eg_Get eng d) hs)) (?key ` set ks)\<rparr>))
     (bind_res (normalizeConversationKeys ks) (\<lambda>normalized.
         if normalized = [] then Inr d
         else bind_res (clear_keys eng d hs kind uid normalized) (\<lambda>ops. commit_batch eng d ops)))"
  proof (cases "\<exists>k \<in> set ks. validateConversationKey k \<noteq> None")
    case True
    then show ?thesis by (simp add: normalize_keys_bad bind_res_def op_refines_def)
  next
    case False
    then have "\<forall>k \<in> set ks. validateConversationKey k = None" by blast
    then obtain us where us: "normalizeConversationKeys ks = Inr us" "distinct us" "set us = set ks" by (rule normalize_keys_ok)
    obtain ops where ops: "clear_keys eng d hs kind uid us = Inr ops"
      and ch: "meta_change hs ?rows (eg_Get eng d) (apply_ops ops (eg_Get eng d))"
      using clear_keys_exact [OF inv v _ us(2) inv] False us(3) by auto
    have "op_refines eng hs (eg_Get eng d) (Inr ?rows) (if us = [] then Inr d else commit_batch eng d ops)"
    proof (cases "us = []")
      case True
      then show ?thesis using ch ops by (simp add: op_refines_def)
    next
      case ne: False
      have "op_refines eng hs (eg_Get eng d) (Inr ?rows) (commit_batch eng d ops)"
        by (rule refines_commit) (use ch in \<open>simp add: get_commit\<close>)
      then show ?thesis using ne by simp
    qed
    then show ?thesis unfolding us(1) bind_res_def sum.case ops using False by simp
  qed
qed

end

section \<open>Memberships, latest messages and bindings\<close>

context batch_engine
begin

lemma membership_refines:
  assumes inv: "meta_inv (eg_Get eng d) hs"
  shows "op_refines eng hs (eg_Get eng d) (meta_spec (meta_rows (eg_Get eng d) hs) (OpUpsertMembership m)) (UpsertUserChannelMembership eng d hs m)"
  unfolding UpsertUserChannelMembership_def meta_spec.simps
proof (rule refines_invalid)
  assume v: "validateUserChannelMembership m = None"
  let ?t = userChannelMembershipTable
  let ?pk = "row_pk ?t m"
  have k: "table_key ?t ?pk" using v by (simp add: validateUserChannelMembership_def valid_membership)
  note ti = clean_inv [OF meta_inv_tables(7) [OF inv]]
  let ?n = "resolveUserChannelMembership (table_rows ?t (eg_Get eng d) hs ?pk) m"
  have n: "membership_good hs ?n" "row_pk ?t ?n = ?pk"
    using v by (simp_all add: membership_good_def validateUserChannelMembership_def resolveUserChannelMembership_def Let_def split: option.split)
  have e: "ts_EncodeValue ?t k ?n = Inr (encodeUserChannelMembershipValue ?n)" for k by (simp add: userChannelMembershipTable_def)
  have up: "row_update ?t membership_good hs ?pk (Some ?n) (eg_Get eng d) ((eg_Get eng d)(row_key ?t hs ?pk \<mapsto> encodeUserChannelMembershipValue ?n))"
    using membership_spec.plain_put [OF no_indexes(3) ti n(1) e] unfolding n(2) .
  have get: "getByPrimaryKey ?t eng d hs ?pk = Inr (table_rows ?t (eg_Get eng d) hs ?pk)" by (rule memberships.get_exact [OF ti k])
  have "op_refines eng hs (eg_Get eng d) (Inr ((meta_rows (eg_Get eng d) hs)\<lparr>ab_memberships := (table_rows ?t (eg_Get eng d) hs)(?pk \<mapsto> ?n)\<rparr>))
      (commit_batch eng d [OpSet (row_key ?t hs ?pk) (encodeUserChannelMembershipValue ?n)])"
    by (rule refines_commit) (use membership_change [OF inv up] in \<open>simp add: get_commit\<close>)
  then show "op_refines eng hs (eg_Get eng d)
      (let pk = ?pk in Inr ((meta_rows (eg_Get eng d) hs)\<lparr>ab_memberships := (ab_memberships (meta_rows (eg_Get eng d) hs))
        (pk \<mapsto> resolveUserChannelMembership (ab_memberships (meta_rows (eg_Get eng d) hs) pk) m)\<rparr>))
      (let pk = userChannelMembershipPrimaryKey (um_UID m) (um_ChannelID m) (um_ChannelType m)
       in bind_res (primaryRowKey ?t hs pk) (\<lambda>primaryKey.
            bind_res (getByPrimaryKey ?t eng d hs pk) (\<lambda>stored.
              commit_batch eng d [OpSet primaryKey (encodeUserChannelMembershipValue (resolveUserChannelMembership stored m))])))"
    using get primaryRowKey_ok [OF k, of hs] by (simp add: bind_res_def Let_def)
qed

lemma delete_membership_refines:
  assumes inv: "meta_inv (eg_Get eng d) hs"
  shows "op_refines eng hs (eg_Get eng d) (meta_spec (meta_rows (eg_Get eng d) hs) (OpDeleteMembership uid k)) (DeleteUserChannelMembership eng d hs uid k)"
  unfolding DeleteUserChannelMembership_def meta_spec.simps
  by (rule refines_invalid, rule memberships.delete_refines)
    (use inv membership_change [OF inv] in \<open>auto simp: valid_membership intro: clean_inv meta_inv_tables\<close>)

lemma latest_refines:
  assumes inv: "meta_inv (eg_Get eng d) hs" and fits: "length (lt_Payload l) < 2 ^ 32"
  shows "op_refines eng hs (eg_Get eng d) (meta_spec (meta_rows (eg_Get eng d) hs) (OpUpsertLatest l)) (UpsertChannelLatest eng d hs l)"
  unfolding UpsertChannelLatest_def meta_spec.simps
proof (rule refines_invalid)
  assume v: "validateChannelLatest l = None"
  let ?t = channelLatestTable
  let ?pk = "row_pk ?t l"
  have k: "table_key ?t ?pk" using v by (simp add: validateChannelLatest_def validateConversationKey_def)
  note ti = clean_inv [OF meta_inv_tables(8) [OF inv]]
  let ?stored = "table_rows ?t (eg_Get eng d) hs ?pk"
  let ?n = "resolveChannelLatest ?stored l"
  have n: "row_pk ?t ?n = ?pk \<and> validateChannelLatest ?n = None \<and> length (lt_Payload ?n) < 2 ^ 32"
  proof (cases "?n = l")
    case False
    then have "?stored = Some ?n" by (auto simp: resolveChannelLatest_def split: option.splits)
    then show ?thesis using stored_good(4) [OF inv] by (auto simp: latest_good_def simp del: table_pks)
  qed (use v fits in simp)
  have get: "getByPrimaryKey ?t eng d hs ?pk = Inr ?stored" by (rule latest.get_exact [OF ti k])
  have run: "(let pk = channelLatestPrimaryKey (lt_ChannelID l) (lt_ChannelType l)
       in bind_res (primaryRowKey ?t hs pk) (\<lambda>primaryKey.
            bind_res (getByPrimaryKey ?t eng d hs pk) (\<lambda>stored.
              bind_res (encodeChannelLatestValue (resolveChannelLatest stored l)) (\<lambda>val. commit_batch eng d [OpSet primaryKey val]))))
     = bind_res (encodeChannelLatestValue ?n) (\<lambda>val. commit_batch eng d [OpSet (row_key ?t hs ?pk) val])"
    using get primaryRowKey_ok [OF k, of hs] by (simp add: bind_res_def channelLatestPrimaryKey_def Let_def)
  have "op_refines eng hs (eg_Get eng d)
      (when_short [lt_FromUID ?n, lt_ClientMsgNo ?n] (Inr ((meta_rows (eg_Get eng d) hs)\<lparr>ab_latest := (table_rows ?t (eg_Get eng d) hs)(?pk \<mapsto> ?n)\<rparr>)))
      (bind_res (encodeChannelLatestValue ?n) (\<lambda>val. commit_batch eng d [OpSet (row_key ?t hs ?pk) val]))"
  proof (cases "length (lt_FromUID ?n) \<le> maxKeyStringLen \<and> length (lt_ClientMsgNo ?n) \<le> maxKeyStringLen")
    case True
    then have good: "latest_good hs ?n" using n by (simp add: latest_good_def)
    obtain val where e: "encodeChannelLatestValue ?n = Inr val" using latest_spec.good_encode [OF good] by (auto simp: channelLatestTable_def)
    then have et: "ts_EncodeValue ?t k ?n = Inr val" for k by (simp add: channelLatestTable_def)
    have up: "row_update ?t latest_good hs ?pk (Some ?n) (eg_Get eng d) ((eg_Get eng d)(row_key ?t hs ?pk \<mapsto> val))"
      using latest_spec.plain_put [OF no_indexes(4) ti good et] n by (simp del: table_pks)
    have "op_refines eng hs (eg_Get eng d) (Inr ((meta_rows (eg_Get eng d) hs)\<lparr>ab_latest := (table_rows ?t (eg_Get eng d) hs)(?pk \<mapsto> ?n)\<rparr>))
      (commit_batch eng d [OpSet (row_key ?t hs ?pk) val])"
      by (rule refines_commit) (use latest_change [OF inv up] in \<open>simp add: get_commit\<close>)
    then show ?thesis unfolding e bind_res_def sum.case using True by (simp add: when_short_def not_less)
  next
    case False
    then have "encodeChannelLatestValue ?n = Inl DBPanic"
      by (cases "length (lt_FromUID ?n) \<le> maxKeyStringLen")
        (simp_all add: encodeChannelLatestValue_def append_string append_string_long bind_res_def Let_def)
    then show ?thesis using False by (auto simp: when_short_def bind_res_def op_refines_def not_le)
  qed
  then show "op_refines eng hs (eg_Get eng d)
      (let pk = ?pk; n = resolveChannelLatest (ab_latest (meta_rows (eg_Get eng d) hs) pk) l
       in when_short [lt_FromUID n, lt_ClientMsgNo n] (Inr ((meta_rows (eg_Get eng d) hs)\<lparr>ab_latest := (ab_latest (meta_rows (eg_Get eng d) hs))(pk \<mapsto> n)\<rparr>)))
      (let pk = channelLatestPrimaryKey (lt_ChannelID l) (lt_ChannelType l)
       in bind_res (primaryRowKey ?t hs pk) (\<lambda>primaryKey.
            bind_res (getByPrimaryKey ?t eng d hs pk) (\<lambda>stored.
              bind_res (encodeChannelLatestValue (resolveChannelLatest stored l)) (\<lambda>val. commit_batch eng d [OpSet primaryKey val]))))"
    unfolding run by (simp add: Let_def)
qed

lemma merged_binding_good:
  assumes "validatePluginUserBinding b = None" "\<And>e. stored = Some e \<Longrightarrow> binding_good hs e"
  shows "binding_good hs (merge_binding stored b)" "row_pk pluginBindingTable (merge_binding stored b) = row_pk pluginBindingTable b"
  using assms by (auto simp: binding_good_def valid_binding merge_binding_def Let_def split: option.split)

lemma bind_refines:
  assumes inv: "meta_inv (eg_Get eng d) hs"
  shows "op_refines eng hs (eg_Get eng d) (meta_spec (meta_rows (eg_Get eng d) hs) (OpBindPlugin b)) (BindPluginUser eng d hs b)"
  unfolding BindPluginUser_def meta_spec.simps
proof (rule refines_invalid)
  assume v: "validatePluginUserBinding b = None"
  let ?t = pluginBindingTable
  let ?pk = "row_pk ?t b"
  have k: "table_key ?t ?pk" using v by (simp add: valid_binding)
  note ti = clean_inv [OF meta_inv_tables(9) [OF inv]]
  let ?stored = "table_rows ?t (eg_Get eng d) hs ?pk"
  let ?n = "merge_binding ?stored b"
  have n: "binding_good hs ?n" "row_pk ?t ?n = ?pk"
    using merged_binding_good [OF v, of ?stored hs] stored_good(5) [OF inv] by blast+
  have get: "GetPluginUserBinding eng d hs (pb_UID b) (pb_PluginNo b) = Inr ?stored"
  proof -
    have "validatePluginUserBindingIdentity (pb_UID b) (pb_PluginNo b) = None" using v by (simp add: valid_binding)
    then show ?thesis using bindings.get_exact [OF ti k] by (simp add: GetPluginUserBinding_def check_error_def bind_res_def table_Get_def)
  qed
  have "op_refines eng hs (eg_Get eng d)
      (bind_res (spec_put ?t (table_rows ?t (eg_Get eng d) hs) ?n tableWriteUpsert) (\<lambda>rows. Inr ((meta_rows (eg_Get eng d) hs)\<lparr>ab_bindings := rows\<rparr>)))
      (table_write ?t eng d hs ?n tableWriteUpsert)"
    by (rule bindings.write_refines [OF ti n(1)]) (use binding_change [OF inv] n(2) in \<open>simp del: table_pks\<close>)
  then show "op_refines eng hs (eg_Get eng d)
      (let pk = ?pk in Inr ((meta_rows (eg_Get eng d) hs)\<lparr>ab_bindings := (ab_bindings (meta_rows (eg_Get eng d) hs))
        (pk \<mapsto> merge_binding (ab_bindings (meta_rows (eg_Get eng d) hs) pk) b)\<rparr>))
      (bind_res (GetPluginUserBinding eng d hs (pb_UID b) (pb_PluginNo b)) (\<lambda>seen. bind_seen eng d hs seen b))"
    unfolding get bind_res_def sum.case bind_seen_def spec_put_def check_mode_def tableWriteMode.case n(2) Let_def by (simp del: table_pks)
qed

lemma unbind_refines:
  assumes inv: "meta_inv (eg_Get eng d) hs"
  shows "op_refines eng hs (eg_Get eng d) (meta_spec (meta_rows (eg_Get eng d) hs) (OpUnbindPlugin uid p)) (UnbindPluginUser eng d hs uid p)"
  unfolding UnbindPluginUser_def meta_spec.simps
  by (rule refines_invalid, rule bindings.delete_refines)
    (use inv binding_change [OF inv] in \<open>auto simp: valid_binding intro: clean_inv meta_inv_tables\<close>)

end

end
