(* ===== verification/MetaStoreSafety.thy ===== *)
theory MetaStoreSafety
  imports MetaConvSafety
begin

text \<open>
  The store as a whole: every operation refines its specification, whatever the operations and their order, and the cache of channels
  never disagrees with the tables.
\<close>

section \<open>Every operation\<close>

context batch_engine
begin

lemma get_channel_exact:
  assumes inv: "meta_inv (eg_Get eng (md_engine db)) hs" and cache: "cache_ok (eg_Get eng (md_engine db)) (md_channelCache db)"
    and i: "validateKeyString i = None"
  obtains db' where "GetChannel eng db hs i ty = Inr (db', table_rows channelTable (eg_Get eng (md_engine db)) hs (channel_pk i ty))"
    "md_engine db' = md_engine db" "cache_ok (eg_Get eng (md_engine db)) (md_channelCache db')"
proof -
  let ?m = "eg_Get eng (md_engine db)" and ?pk = "channel_pk i ty"
  let ?k = "row_key channelTable hs ?pk" and ?r = "table_rows channelTable ?m hs ?pk"
  have pk: "table_key channelTable ?pk" using i by simp
  have get: "table_Get channelTable eng (md_engine db) hs ?pk = Inr ?r"
    unfolding table_Get_def by (rule channels.get_exact [OF clean_inv [OF meta_inv_tables(3) [OF inv]] pk])
  note head = GetChannel_def i check_error_def option.case bind_res_def sum.case channel_row_key [OF i]
  show thesis
  proof (cases "cachedChannel db ?k")
    case (Some c)
    then obtain hs' pk' where k': "?k = row_key channelTable hs' pk'" and r: "table_rows channelTable ?m hs' pk' = Some c"
      using cache Some unfolding cache_ok_def cachedChannel_def by blast
    have "table_key channelTable pk'" using r by (simp add: table_rows_def split: if_splits)
    then have "hs' = hs" "pk' = ?pk" using row_key_inject [OF pk, of pk' hs hs'] k' by auto
    then have "GetChannel eng db hs i ty = Inr (db, ?r)" unfolding head using Some r by simp
    then show thesis using that cache by blast
  next
    case None
    show thesis
    proof (cases ?r)
      case n: None
      then have "GetChannel eng db hs i ty = Inr (db, ?r)" unfolding head using None get by simp
      then show thesis using that cache by blast
    next
      case (Some c)
      then have "GetChannel eng db hs i ty = Inr (rememberChannel db ?k c, ?r)" unfolding head using None get by simp
      moreover have "cache_ok ?m (md_channelCache (rememberChannel db ?k c))"
        using cache Some by (auto simp: cache_ok_def rememberChannel_def update_conv')
      ultimately show thesis using that [of "rememberChannel db ?k c"] by (simp add: rememberChannel_def)
    qed
  qed
qed

lemma on_engine_exact: "map_sum (\<lambda>e. e) md_engine (on_engine db res) = res"
  by (cases res) (simp_all add: on_engine_def bind_res_def)

lemma put_channel_exact: "map_sum (\<lambda>e. e) md_engine (put_channel eng db hs c mode) = map_sum (\<lambda>e. e) snd (writeChannel eng (md_engine db) hs c mode)"
  by (simp add: put_channel_def bind_res_def forgetChannel_def split: sum.split)

lemma step_refines:
  assumes inv: "meta_inv (eg_Get eng (md_engine db)) hs" and cache: "cache_ok (eg_Get eng (md_engine db)) (md_channelCache db)" and fits: "op_fits op"
  shows "op_refines eng hs (eg_Get eng (md_engine db)) (meta_spec (meta_rows (eg_Get eng (md_engine db)) hs) op)
    (map_sum (\<lambda>e. e) md_engine (meta_step eng hs db op))"
proof (cases op)
  case (OpGetChannel i ty)
  show ?thesis
  proof (cases "validateKeyString i")
    case (Some e)
    then show ?thesis by (simp add: OpGetChannel GetChannel_def check_error_def bind_res_def when_valid_def op_refines_def)
  next
    case None
    then obtain db' where "GetChannel eng db hs i ty = Inr (db', table_rows channelTable (eg_Get eng (md_engine db)) hs (channel_pk i ty))"
      "md_engine db' = md_engine db" using get_channel_exact [OF inv cache] by metis
    then show ?thesis using None refines_nothing [OF inv] by (simp add: OpGetChannel when_valid_def)
  qed
next
  case (OpDeleteChannel i ty)
  have "map_sum (\<lambda>e. e) md_engine (DeleteChannel eng db hs i ty) =
      bind_res (check_error (validateKeyString i)) (\<lambda>_. table_Delete channelTable eng (md_engine db) hs (channel_pk i ty))"
    by (cases "validateKeyString i")
      (simp_all add: DeleteChannel_def check_error_def bind_res_def channel_row_key forgetChannel_def split: sum.split)
  then show ?thesis using refines_invalid [OF delete_channel_refines [OF inv]] by (simp add: OpDeleteChannel)
next
  case (OpUpsertRuntimeMeta m)
  then show ?thesis using runtime_refines [OF inv] fits by (simp add: on_engine_exact)
next
  case (OpUpsertLatest l)
  then show ?thesis using latest_refines [OF inv] fits by (simp add: on_engine_exact del: meta_spec.simps) 
qed (use user_refines [OF inv] in \<open>simp add: on_engine_exact CreateUser_def UpsertUser_def UpdateUser_def\<close>,
  use user_refines [OF inv] in \<open>simp add: on_engine_exact CreateUser_def UpsertUser_def UpdateUser_def\<close>,
  use user_refines [OF inv] in \<open>simp add: on_engine_exact CreateUser_def UpsertUser_def UpdateUser_def\<close>,
  use delete_user_refines [OF inv] in \<open>simp add: on_engine_exact del: meta_spec.simps\<close>,
  use device_refines [OF inv] in \<open>simp add: on_engine_exact del: meta_spec.simps\<close>,
  use channel_refines [OF inv] in \<open>simp add: put_channel_exact CreateChannel_def\<close>,
  use channel_refines [OF inv] in \<open>simp add: put_channel_exact UpsertChannel_def\<close>,
  use channel_refines [OF inv] in \<open>simp add: put_channel_exact UpdateChannel_def\<close>,
  use subscribers_refine [OF inv] in \<open>simp add: AddSubscribers_def\<close>,
  use subscribers_refine [OF inv] in \<open>simp add: RemoveSubscribers_def\<close>,
  use delete_runtime_refines [OF inv] in \<open>simp add: on_engine_exact del: meta_spec.simps\<close>,
  use retention_refines [OF inv] in \<open>simp add: on_engine_exact\<close>,
  use upsert_conversation_refines [OF inv] in \<open>simp add: on_engine_exact del: meta_spec.simps\<close>,
  use touch_conversation_refines [OF inv] in \<open>simp add: on_engine_exact del: meta_spec.simps\<close>,
  use hide_conversation_refines [OF inv] in \<open>simp add: on_engine_exact del: meta_spec.simps\<close>,
  use clear_refines [OF inv] in \<open>simp add: on_engine_exact del: meta_spec.simps\<close>,
  use membership_refines [OF inv] in \<open>simp add: on_engine_exact del: meta_spec.simps\<close>,
  use delete_membership_refines [OF inv] in \<open>simp add: on_engine_exact del: meta_spec.simps\<close>,
  use bind_refines [OF inv] in \<open>simp add: on_engine_exact del: meta_spec.simps\<close>,
  use unbind_refines [OF inv] in \<open>simp add: on_engine_exact del: meta_spec.simps\<close>)

end

text \<open>
  Runs of the store: the cache of channels never disagrees with the tables, and any sequence of operations, failed ones included,
  keeps the indexes and the cache in step with the rows.
\<close>

section \<open>The cache\<close>

text \<open>The channel whose row an operation writes.\<close>

fun op_channel :: "MetaOp \<Rightarrow> (u8 list \<times> u64) option" where
  "op_channel (OpCreateChannel c) = Some (cn_ChannelID c, cn_ChannelType c)"
| "op_channel (OpUpsertChannel c) = Some (cn_ChannelID c, cn_ChannelType c)"
| "op_channel (OpUpdateChannel c) = Some (cn_ChannelID c, cn_ChannelType c)"
| "op_channel (OpDeleteChannel i ty) = Some (i, ty)"
| "op_channel (OpAddSubscribers i ty uids v) = Some (i, ty)"
| "op_channel (OpRemoveSubscribers i ty uids v) = Some (i, ty)"
| "op_channel _ = None"

lemma bind_Inr: "bind_res r f = Inr y \<longleftrightarrow> (\<exists>x. r = Inr x \<and> f x = Inr y)"
  by (cases r) (simp_all add: bind_res_def)

lemma check_Inr: "check_error e = Inr u \<longleftrightarrow> e = None"
  by (cases e) (auto simp: check_error_def)

lemma fst_Inr: "map_sum (\<lambda>e. e) fst r = Inr y \<Longrightarrow> \<exists>z. r = Inr (y, z)"
  by (cases r) auto

lemma on_engine_cache: "on_engine db res = Inr db' \<Longrightarrow> md_channelCache db' = md_channelCache db"
  by (auto simp: on_engine_def bind_Inr)

lemma put_channel_cache:
  assumes "put_channel eng db hs c mode = Inr db'"
  shows "validateKeyString (cn_ChannelID c) = None
    \<and> md_channelCache db' = AList.delete (row_key channelTable hs (channel_pk (cn_ChannelID c) (cn_ChannelType c))) (md_channelCache db)"
proof -
  from assms obtain k d' where w: "writeChannel eng (md_engine db) hs c mode = Inr (k, d')" and db': "db' = forgetChannel (db\<lparr>md_engine := d'\<rparr>) k"
    by (auto simp: put_channel_def bind_Inr)
  from w have v: "validateChannel c = None" by (auto simp: writeChannel_def bind_Inr check_Inr)
  then have i: "validateKeyString (cn_ChannelID c) = None" by (simp add: validateChannel_def)
  then have g: "channel_good hs c" by (simp add: channel_good_def)
  from channel_spec.good_key [OF g] have key: "table_key channelTable (row_pk channelTable c)" .
  from w obtain pk where "table_primaryKey channelTable c = Inr pk" "primaryRowKey channelTable hs pk = Inr k"
    by (auto simp: writeChannel_def bind_Inr)
  then have "k = row_key channelTable hs (row_pk channelTable c)"
    using key by (auto simp: table_primaryKey_def bind_Inr check_Inr primaryRowKey_ok Let_def simp del: table_pks split: option.splits)
  then show ?thesis using i db' by (simp add: forgetChannel_def)
qed

lemma mutate_cache:
  assumes "mutateSubscribers eng db hs i ty uids v add = Inr db'"
  shows "validateKeyString i = None \<and> md_channelCache db' = AList.delete (row_key channelTable hs (channel_pk i ty)) (md_channelCache db)"
proof -
  from assms have i: "validateKeyString i = None" by (auto simp: mutateSubscribers_def bind_Inr check_Inr)
  then show ?thesis
    using assms channel_row_key [OF i, of hs ty]
    by (auto simp: mutateSubscribers_def bind_Inr check_Inr forgetChannel_def Let_def split: option.splits prod.splits)
qed

lemma step_cache:
  assumes "meta_step eng hs db op = Inr db'" "\<And>i ty. op \<noteq> OpGetChannel i ty"
  shows "case op_channel op of
      None \<Rightarrow> md_channelCache db' = md_channelCache db
    | Some (i, ty) \<Rightarrow> validateKeyString i = None \<and> md_channelCache db' = AList.delete (row_key channelTable hs (channel_pk i ty)) (md_channelCache db)"
proof (cases op)
  case (OpDeleteChannel i ty)
  then have i: "validateKeyString i = None" using assms by (auto simp: DeleteChannel_def bind_Inr check_Inr)
  then show ?thesis
    using assms channel_row_key [OF i, of hs ty] by (auto simp: OpDeleteChannel DeleteChannel_def bind_Inr check_Inr forgetChannel_def)
qed (use assms in \<open>auto simp: CreateChannel_def UpsertChannel_def UpdateChannel_def AddSubscribers_def RemoveSubscribers_def
    dest: on_engine_cache put_channel_cache mutate_cache\<close>)

lemma spec_channels:
  assumes "meta_spec s op = Inr s'" "\<And>i ty. op_channel op = Some (i, ty) \<Longrightarrow> pk \<noteq> channel_pk i ty"
  shows "ab_channels s' pk = ab_channels s pk"
  using assms
  by (cases op) (auto simp: spec_user_def spec_channel_def spec_subscribers_def spec_runtime_def spec_retention_def spec_put_def
      put_conversation_def when_valid_def when_short_def bind_Inr Let_def split: option.splits if_splits prod.splits sum.splits MonotonicResult.splits)

lemma cache_after:
  assumes inv: "cache_ok m cache" and ch: "meta_change hs s m m'"
    and same: "\<And>pk. pk \<noteq> pk0 \<Longrightarrow> ab_channels s pk = table_rows channelTable m hs pk" and k0: "table_key channelTable pk0"
  shows "cache_ok m' (AList.delete (row_key channelTable hs pk0) cache)"
  unfolding cache_ok_def
proof (intro allI impI)
  fix k c assume "map_of (AList.delete (row_key channelTable hs pk0) cache) k = Some c"
  then have k: "k \<noteq> row_key channelTable hs pk0" and "map_of cache k = Some c" by (auto simp: delete_conv' split: if_splits)
  then obtain hs' pk where e: "k = row_key channelTable hs' pk" "table_rows channelTable m hs' pk = Some c"
    using inv unfolding cache_ok_def by blast
  have "table_rows channelTable m' hs' pk = Some c"
  proof (cases "hs' = hs")
    case True
    then have "pk \<noteq> pk0" using e k by auto
    then have "ab_channels (meta_rows m' hs) pk = Some c" using ch same e(2) True by (simp add: meta_change_def)
    then show ?thesis using True by (simp add: meta_rows_def)
  next
    case False
    then have "meta_rows m' hs' = meta_rows m hs'" using ch by (simp add: meta_change_def)
    from arg_cong [OF this, of ab_channels] show ?thesis using e(2) by (simp add: meta_rows_def)
  qed
  then show "\<exists>hs pk. k = row_key channelTable hs pk \<and> table_rows channelTable m' hs pk = Some c" using e by blast
qed

lemma cache_same:
  assumes inv: "cache_ok m cache" and ch: "meta_change hs s m m'" and same: "ab_channels s = table_rows channelTable m hs"
  shows "cache_ok m' cache"
  unfolding cache_ok_def
proof (intro allI impI)
  fix k c assume "map_of cache k = Some c"
  then obtain hs' pk where e: "k = row_key channelTable hs' pk" "table_rows channelTable m hs' pk = Some c"
    using inv unfolding cache_ok_def by blast
  have "ab_channels (meta_rows m' hs') pk = Some c"
    using ch same e(2) by (cases "hs' = hs") (auto simp: meta_change_def meta_rows_def)
  then show "\<exists>hs pk. k = row_key channelTable hs pk \<and> table_rows channelTable m' hs pk = Some c" using e by (auto simp: meta_rows_def)
qed

section \<open>A step\<close>

context batch_engine
begin

lemma store_step:
  assumes inv: "store_inv eng db" and fits: "op_fits op" and step: "meta_step eng hs db op = Inr db'"
  shows "store_inv eng db'" "meta_spec (meta_rows (eg_Get eng (md_engine db)) hs) op = Inr (meta_rows (eg_Get eng (md_engine db')) hs)"
    "hs' \<noteq> hs \<Longrightarrow> meta_rows (eg_Get eng (md_engine db')) hs' = meta_rows (eg_Get eng (md_engine db)) hs'"
proof -
  let ?m = "eg_Get eng (md_engine db)" and ?m' = "eg_Get eng (md_engine db')"
  have mi: "meta_inv ?m hs" for hs using inv by (simp add: store_inv_def)
  have ci: "cache_ok ?m (md_channelCache db)" using inv by (simp add: store_inv_def)
  from step_refines [OF mi ci fits, of hs] obtain s where spec: "meta_spec (meta_rows ?m hs) op = Inr s" and ch: "meta_change hs s ?m ?m'"
    using step by (auto simp: op_refines_def)
  have rows: "meta_rows ?m' hs = s" using ch by (simp add: meta_change_def)
  then show "meta_spec (meta_rows ?m hs) op = Inr (meta_rows ?m' hs)" using spec by simp
  show "hs' \<noteq> hs \<Longrightarrow> meta_rows ?m' hs' = meta_rows ?m hs'" using ch by (simp add: meta_change_def)
  have mi': "meta_inv ?m' hs'" for hs' using ch mi by (cases "hs' = hs") (auto simp: meta_change_def)
  have "cache_ok ?m' (md_channelCache db')"
  proof (cases "\<exists>i ty. op = OpGetChannel i ty")
    case True
    then obtain i ty where op: "op = OpGetChannel i ty" by blast
    then have i: "validateKeyString i = None" using step by (auto simp: GetChannel_def bind_Inr check_Inr dest!: fst_Inr)
    from get_channel_exact [OF mi ci i, of hs ty] obtain db1 where "GetChannel eng db hs i ty = Inr (db1, table_rows channelTable ?m hs (channel_pk i ty))"
      "md_engine db1 = md_engine db" "cache_ok ?m (md_channelCache db1)" .
    then show ?thesis using step op by auto
  next
    case False
    then have get: "\<And>i ty. op \<noteq> OpGetChannel i ty" by blast
    show ?thesis
    proof (cases "op_channel op")
      case None
      then have "md_channelCache db' = md_channelCache db" using step_cache [OF step get] by simp
      moreover have "ab_channels s = table_rows channelTable ?m hs"
        using spec_channels [OF spec] None by (auto simp: fun_eq_iff meta_rows_def)
      ultimately show ?thesis using cache_same [OF ci ch] by simp
    next
      case (Some p)
      obtain i ty where p: "p = (i, ty)" by (cases p)
      then have c: "validateKeyString i = None" "md_channelCache db' = AList.delete (row_key channelTable hs (channel_pk i ty)) (md_channelCache db)"
        using step_cache [OF step get] Some by auto
      have "cache_ok ?m' (AList.delete (row_key channelTable hs (channel_pk i ty)) (md_channelCache db))"
        by (rule cache_after [OF ci ch]) (use spec_channels [OF spec] Some p c(1) in \<open>auto simp: meta_rows_def\<close>)
      then show ?thesis using c(2) by simp
    qed
  qed
  then show "store_inv eng db'" using mi' by (simp add: store_inv_def)
qed

end

section \<open>Runs\<close>

definition store_rows :: "'db Engine \<Rightarrow> 'db MetaDB \<Rightarrow> HashSlot \<Rightarrow> MetaRows" where
  "store_rows eng db hs = meta_rows (eg_Get eng (md_engine db)) hs"

text \<open>A failed operation leaves the store as it was.\<close>

fun meta_run :: "'db Engine \<Rightarrow> 'db MetaDB \<Rightarrow> (HashSlot \<times> MetaOp) list \<Rightarrow> 'db MetaDB" where
  "meta_run eng db [] = db"
| "meta_run eng db ((hs, op) # steps) = meta_run eng (case meta_step eng hs db op of Inl e \<Rightarrow> db | Inr db' \<Rightarrow> db') steps"

definition empty_store :: "'db \<Rightarrow> 'db MetaDB" where
  "empty_store d = \<lparr>md_engine = d, md_channelCache = []\<rparr>"

lemma empty_table: "m = Map.empty \<Longrightarrow> clean_table t good m hs"
  by (simp add: clean_table_def table_inv_def rows_clean_def table_rows_def)

lemma empty_meta: "meta_inv Map.empty hs"
  by (simp add: meta_inv_def empty_table)

lemma empty_store_inv: "eg_Get eng d = Map.empty \<Longrightarrow> store_inv eng (empty_store d)"
  by (simp add: store_inv_def empty_store_def empty_meta cache_ok_def)

context batch_engine
begin

lemma run_inv:
  assumes "store_inv eng db" "list_all (op_fits \<circ> snd) steps"
  shows "store_inv eng (meta_run eng db steps)"
  using assms
proof (induction steps arbitrary: db)
  case (Cons st steps)
  obtain hs op where st: "st = (hs, op)" by (cases st)
  have "store_inv eng (case meta_step eng hs db op of Inl e \<Rightarrow> db | Inr db' \<Rightarrow> db')"
    using store_step(1) [OF Cons.prems(1)] Cons.prems st by (auto split: sum.split)
  then show ?case using Cons st by simp
qed simp

lemma step_rows:
  assumes inv: "store_inv eng db" and fits: "op_fits op" and step: "meta_step eng hs db op = Inr db'"
  obtains s where "meta_spec (store_rows eng db hs) op = Inr s" "store_rows eng db' = (store_rows eng db)(hs := s)"
proof
  show "meta_spec (store_rows eng db hs) op = Inr (store_rows eng db' hs)"
    using store_step(2) [OF assms] by (simp add: store_rows_def)
  show "store_rows eng db' = (store_rows eng db)(hs := store_rows eng db' hs)"
    using store_step(3) [OF assms] by (auto simp: fun_eq_iff store_rows_def)
qed

lemma get_channel_direct:
  assumes "store_inv eng db"
  shows "map_sum (\<lambda>e. e) snd (GetChannel eng db hs i ty) =
    bind_res (check_error (validateKeyString i)) (\<lambda>_. table_Get channelTable eng (md_engine db) hs (channel_pk i ty))"
proof (cases "validateKeyString i")
  case (Some e)
  then show ?thesis by (simp add: GetChannel_def check_error_def bind_res_def)
next
  case None
  have inv: "meta_inv (eg_Get eng (md_engine db)) hs" and cache: "cache_ok (eg_Get eng (md_engine db)) (md_channelCache db)"
    using assms by (auto simp: store_inv_def)
  have "table_Get channelTable eng (md_engine db) hs (channel_pk i ty) = Inr (table_rows channelTable (eg_Get eng (md_engine db)) hs (channel_pk i ty))"
    unfolding table_Get_def by (rule channels.get_exact [OF clean_inv [OF meta_inv_tables(3) [OF inv]]]) (use None in simp)
  moreover obtain db' where "GetChannel eng db hs i ty = Inr (db', table_rows channelTable (eg_Get eng (md_engine db)) hs (channel_pk i ty))"
    using get_channel_exact [OF inv cache None] by metis
  ultimately show ?thesis using None by (simp add: check_error_def bind_res_def)
qed

end

section \<open>Outside the lock\<close>

text \<open>
  A read that remembers its row after another write of the channel leaves a stale entry: \<open>GetChannel\<close> reads and remembers without
  the lock of the hash slot, so the step of the model is not one step of the code when writers run beside it.
\<close>

lemma late_remember_stale:
  assumes "table_rows channelTable m hs pk = Some c'" "c \<noteq> c'"
  shows "\<not> cache_ok m (md_channelCache (rememberChannel db (row_key channelTable hs pk) c))"
proof
  assume "cache_ok m (md_channelCache (rememberChannel db (row_key channelTable hs pk) c))"
  then obtain hs' pk' where k: "row_key channelTable hs pk = row_key channelTable hs' pk'" and r: "table_rows channelTable m hs' pk' = Some c"
    unfolding cache_ok_def rememberChannel_def by (force simp: update_conv')
  have "table_key channelTable pk" "table_key channelTable pk'" using assms(1) r by (auto simp: table_rows_def split: if_splits)
  then have "hs' = hs" "pk' = pk" using row_key_inject [of channelTable pk pk' hs hs'] k by auto
  then show False using assms r by simp
qed

text \<open>The successor of the largest limit wraps, and the page is empty and final.\<close>

lemma runtime_page_overflow:
  "ListChannelRuntimeMetaPage eng d hs zero_key (2 ^ 63 - 1) = Inr ([], zero_key, True)"
  by (simp add: ListChannelRuntimeMetaPage_def zero_key_def validate_cursor_def check_error_def first_error_def bind_res_def ScanPrimary_def)

section \<open>The count of subscribers\<close>

definition subscriber_uids :: "MetaRows \<Rightarrow> u8 list \<Rightarrow> u64 \<Rightarrow> u8 list set" where
  "subscriber_uids s i ty = {uid. ab_subscribers s (subscriberPrimaryKey i ty uid) \<noteq> None}"

definition count_exact :: "MetaRows \<Rightarrow> u8 list \<Rightarrow> u64 \<Rightarrow> bool" where
  "count_exact s i ty \<longleftrightarrow>
     (case ab_channels s (channel_pk i ty) of None \<Rightarrow> True | Some c \<Rightarrow> cn_SubscriberCount c = of_nat (card (subscriber_uids s i ty)))"

lemma subscriber_pk_inject [simp]:
  "subscriberPrimaryKey i ty a = subscriberPrimaryKey j ty' b \<longleftrightarrow> i = j \<and> ty = ty' \<and> a = b"
  by (auto simp: subscriberPrimaryKey_def)

lemma subscribers_finite: "finite (subscriber_uids (meta_rows m hs) i ty)"
proof (rule finite_subset)
  show "subscriber_uids (meta_rows m hs) i ty \<subseteq> {uid. set uid \<subseteq> UNIV \<and> length uid \<le> maxKeyStringLen}"
    by (auto simp: subscriber_uids_def meta_rows_def table_rows_def valid_string split: if_splits)
qed (rule finite_lists_length_le [OF finite])

lemma with_subscribers_uids:
  "subscriber_uids (s\<lparr>ab_subscribers := with_subscribers (ab_subscribers s) i ty us add, ab_channels := ch\<rparr>) i ty
    = (if add then subscriber_uids s i ty \<union> us else subscriber_uids s i ty - us)"
  by (auto simp: subscriber_uids_def with_subscribers_def)

lemma count_spec:
  assumes spec: "spec_subscribers s i ty uids v add = Inr s'" and exact: "count_exact s i ty"
    and fin: "finite (subscriber_uids s i ty)" and fits: "card (subscriber_uids s i ty) < 2 ^ 64"
  shows "count_exact s' i ty"
proof -
  let ?old = "subscriber_uids s i ty" and ?n = "card (changed_uids s i ty uids add)"
  from spec obtain c where c: "ab_channels s (channel_pk i ty) = Some c"
    and s': "s' = s\<lparr>ab_subscribers := with_subscribers (ab_subscribers s) i ty (set uids) add,
      ab_channels := (ab_channels s)(channel_pk i ty \<mapsto> c\<lparr>cn_SubscriberMutationVersion := max (cn_SubscriberMutationVersion c) v,
        cn_SubscriberCount := new_count (cn_SubscriberCount c) ?n add\<rparr>)\<rparr>"
    by (auto simp: spec_subscribers_def when_valid_def split: option.splits if_splits)
  have count: "cn_SubscriberCount c = of_nat (card ?old)" using exact c by (simp add: count_exact_def)
  have "new_count (cn_SubscriberCount c) ?n add = of_nat (card (if add then ?old \<union> set uids else ?old - set uids))"
  proof (cases "add")
    case True
    have "changed_uids s i ty uids True = set uids - ?old" by (auto simp: changed_uids_def subscriber_uids_def)
    moreover have "card (?old \<union> set uids) = card ?old + card (set uids - ?old)"
      using card_Un_disjoint [OF fin, of "set uids - ?old"] by (simp add: Un_Diff_cancel)
    ultimately show ?thesis using True count by (simp add: new_count_def)
  next
    case False
    have "changed_uids s i ty uids False = ?old \<inter> set uids" by (auto simp: changed_uids_def subscriber_uids_def)
    moreover have "card (?old - set uids) = card ?old - card (?old \<inter> set uids)" by (rule card_Diff_subset_Int) simp
    moreover have "unat (of_nat (card ?old) :: u64) = card ?old" using fits by (simp add: unsigned_of_nat take_bit_nat_eq_self)
    ultimately show ?thesis using False count by (simp add: new_count_def)
  qed
  then show ?thesis unfolding s' count_exact_def with_subscribers_uids by simp
qed

section \<open>Listing the subscribers\<close>

abbreviation subscriber_rows :: "contents \<Rightarrow> HashSlot \<Rightarrow> KeyParts \<Rightarrow> Subscriber option" where
  "subscriber_rows m hs \<equiv> table_rows subscriberTable m hs"

sublocale ordered_engine \<subseteq> subscriber_scan: stored_table eng subscriberTable subscriber_good
  by (intro stored_table.intro ordered_engine_axioms subscriber_spec.table_spec_axioms)

context ordered_engine
begin

lemma subscribers_page:
  assumes inv: "meta_inv (eg_Get eng d) hs" and i: "validateKeyString i = None" and cur: "cursor \<noteq> [] \<Longrightarrow> validateKeyString cursor = None"
    and limit: "0 < limit"
    and l: "listed subscriberTable (eg_Get eng d) hs (channel_pk i ty) (if cursor \<noteq> [] then subscriberPrimaryKey i ty cursor else []) rs"
  shows "ListSubscribersPage eng d hs i ty cursor limit =
    Inr (if int (length rs) < limit then (map sb_UID rs, [], True)
         else (map sb_UID (take (nat limit) rs), sb_UID (last (take (nat limit) rs)), False))"
proof -
  let ?after = "if cursor \<noteq> [] then subscriberPrimaryKey i ty cursor else []"
  have ti: "table_inv subscriberTable subscriber_good (eg_Get eng d) hs" and rc: "rows_clean subscriberTable (eg_Get eng d) hs"
    using meta_inv_tables(4) [OF inv] by (simp_all add: clean_table_def)
  have layout: "pm_Layout (ts_Primary subscriberTable) = [KeyString, KeyInt64Ordered, KeyString]"
    by (simp add: subscriberTable_def)
  have pre: "key_of (take (length (channel_pk i ty)) (pm_Layout (ts_Primary subscriberTable))) (channel_pk i ty)"
    "length (channel_pk i ty) \<le> length (pm_Layout (ts_Primary subscriberTable))"
    using i by (simp_all add: layout key_of_simps valid_string)
  have after: "table_key subscriberTable ?after \<and> keyPartsHasPrefix ?after (channel_pk i ty)" if "?after \<noteq> []"
  proof -
    have "cursor \<noteq> []" using that by (auto split: if_splits)
    then show ?thesis using cur i by (simp add: keyPartsHasPrefix_def) (simp add: subscriberPrimaryKey_def)
  qed
  obtain rs' where l': "listed subscriberTable (eg_Get eng d) hs (channel_pk i ty) ?after rs'"
    and scan: "scanPrimary subscriberTable eng d hs (channel_pk i ty) ?after (Some limit) False True = Inr (page subscriberTable (Some limit) True rs')"
    using subscriber_scan.scan_exact [OF ti rc pre after, of "Some limit" False True] limit by auto
  have rs: "rs' = rs" using subscriber_scan.listed_unique [OF l' l] .
  have after': "(if cursor \<noteq> [] then subscriberPrimaryKey i ty cursor else []) = ?after" by simp
  show ?thesis
    using i limit
    by (simp add: ListSubscribersPage_def check_error_def bind_res_def Let_def scanPrimaryPrefixRows_def scan_limit_def scan rs page_def not_less)
      (simp add: subscriberPrimaryKey_def)
qed

lemma snapshot_lists:
  assumes inv: "meta_inv (eg_Get eng d) hs" and i: "validateKeyString i = None"
  shows "(cursor \<noteq> [] \<Longrightarrow> validateKeyString cursor = None) \<Longrightarrow>
    listed subscriberTable (eg_Get eng d) hs (channel_pk i ty) (if cursor \<noteq> [] then subscriberPrimaryKey i ty cursor else []) rs \<Longrightarrow>
    snapshot_loop eng d hs i ty out cursor = Some (Inr (out @ map sb_UID rs))"
proof (induction "length rs" arbitrary: rs out cursor rule: less_induct)
  case less
  note page = subscribers_page [OF inv i less.prems(1) _ less.prems(2), of 256]
  show ?case
  proof (cases "int (length rs) < 256")
    case True
    then show ?thesis using page by (simp add: snapshot_loop.simps)
  next
    case False
    let ?xs = "take 256 rs" and ?ys = "drop 256 rs"
    let ?r = "last ?xs"
    have ti: "table_inv subscriberTable subscriber_good (eg_Get eng d) hs"
      using meta_inv_tables(4) [OF inv] by (simp add: clean_table_def)
    have ne: "?xs \<noteq> []" using False by auto
    have mem: "?r \<in> set rs" using ne by (meson in_set_takeD last_in_set)
    note row = subscriber_scan.listed_row [OF ti less.prems(2) mem]
    have uid: "validateKeyString (sb_UID ?r) = None" using row(1) by simp
    have ne_uid: "sb_UID ?r \<noteq> []" using uid by (simp add: valid_string)
    have "row_pk subscriberTable ?r = subscriberPrimaryKey i ty (sb_UID ?r)"
      using row(3) by (simp add: keyPartsHasPrefix_def) (simp add: subscriberPrimaryKey_def)
    moreover have "row_pk subscriberTable ?r \<noteq> []" by (simp add: subscriberPrimaryKey_def)
    ultimately have "listed subscriberTable (eg_Get eng d) hs (channel_pk i ty) (subscriberPrimaryKey i ty (sb_UID ?r)) ?ys"
      using subscriber_scan.listed_next [OF ti _ ne] less.prems(2) by (metis append_take_drop_id)
    then have l: "listed subscriberTable (eg_Get eng d) hs (channel_pk i ty) (if sb_UID ?r \<noteq> [] then subscriberPrimaryKey i ty (sb_UID ?r) else []) ?ys"
      using ne_uid by simp
    have "snapshot_loop eng d hs i ty (out @ map sb_UID ?xs) (sb_UID ?r) = Some (Inr ((out @ map sb_UID ?xs) @ map sb_UID ?ys))"
      by (rule less.hyps [OF _ uid l]) (use False in simp)
    then have "snapshot_loop eng d hs i ty (out @ map sb_UID ?xs) (sb_UID ?r) = Some (Inr (out @ map sb_UID rs))"
      by (metis append.assoc append_take_drop_id map_append)
    then show ?thesis using page False by (subst snapshot_loop.simps) simp
  qed
qed

lemma snapshot_exact:
  assumes inv: "meta_inv (eg_Get eng d) hs" and i: "validateKeyString i = None"
  obtains us where "SnapshotSubscribers eng d hs i ty = Some (Inr us)"
    "sorted_wrt (\<lambda>a b. sub_key hs i ty a < sub_key hs i ty b) us" "set us = subscriber_uids (meta_rows (eg_Get eng d) hs) i ty"
proof -
  have ti: "table_inv subscriberTable subscriber_good (eg_Get eng d) hs" and rc: "rows_clean subscriberTable (eg_Get eng d) hs"
    using meta_inv_tables(4) [OF inv] by (simp_all add: clean_table_def)
  have pre: "key_of (take (length (channel_pk i ty)) (pm_Layout (ts_Primary subscriberTable))) (channel_pk i ty)"
    "length (channel_pk i ty) \<le> length (pm_Layout (ts_Primary subscriberTable))"
    using i by (simp_all add: subscriberTable_def key_of_simps valid_string)
  obtain rs where l: "listed subscriberTable (eg_Get eng d) hs (channel_pk i ty) [] rs"
    using subscriber_scan.scan_exact [OF ti rc pre, of "[]" None False True] by auto
  have pk: "row_pk subscriberTable r = subscriberPrimaryKey i ty (sb_UID r)" if "r \<in> set rs" for r
    using subscriber_scan.listed_row(3) [OF ti l that] by (simp add: keyPartsHasPrefix_def) (simp add: subscriberPrimaryKey_def)
  show thesis
  proof
    show "SnapshotSubscribers eng d hs i ty = Some (Inr (map sb_UID rs))"
      using snapshot_lists [OF inv i, of "[]" ty rs "[]"] l by (simp add: SnapshotSubscribers_def)
    show "sorted_wrt (\<lambda>a b. sub_key hs i ty a < sub_key hs i ty b) (map sb_UID rs)"
      using l unfolding listed_def sorted_wrt_map
      by (elim conjE sorted_wrt_mono_rel [rotated]) (simp add: pk del: table_pks)
    show "set (map sb_UID rs) = subscriber_uids (meta_rows (eg_Get eng d) hs) i ty"
    proof (intro set_eqI iffI)
      fix uid assume "uid \<in> set (map sb_UID rs)"
      then obtain r where r: "r \<in> set rs" "uid = sb_UID r" by auto
      show "uid \<in> subscriber_uids (meta_rows (eg_Get eng d) hs) i ty"
        using subscriber_scan.listed_row(2) [OF ti l r(1)] pk [OF r(1)] r(2) by (simp add: subscriber_uids_def meta_rows_def)
    next
      fix uid assume "uid \<in> subscriber_uids (meta_rows (eg_Get eng d) hs) i ty"
      then obtain r where r: "table_rows subscriberTable (eg_Get eng d) hs (subscriberPrimaryKey i ty uid) = Some r"
        by (auto simp: subscriber_uids_def meta_rows_def)
      moreover have "keyPartsHasPrefix (subscriberPrimaryKey i ty uid) (channel_pk i ty)"
        by (simp add: keyPartsHasPrefix_def subscriberPrimaryKey_def)
      ultimately have "r \<in> set rs" using l by (auto simp: listed_def)
      moreover have "row_pk subscriberTable r = subscriberPrimaryKey i ty uid"
        using subscriber_spec.rows_stored [OF ti r] by (metis row_stored_def)
      ultimately show "uid \<in> set (map sb_UID rs)" by auto
    qed
  qed
qed

end

end
