(* ===== verification/MetaStoreClaims.thy ===== *)
theory MetaStoreClaims
  imports MetaStoreSafety
begin

text \<open>
  What the metadata store promises its callers, on any engine with atomic batches, and the same on the list engine for a channel
  with two subscribers.
\<close>

interpretation list_subscribers: stored_table list_engine subscriberTable subscriber_good
  by (rule list_engine.subscriber_scan.stored_table_axioms)

section \<open>A concrete store\<close>

definition demo_channel :: Channel where
  "demo_channel = \<lparr>cn_ChannelID = [103], cn_ChannelType = 2, cn_Ban = 0, cn_Disband = 0, cn_SendBan = 0, cn_AllowStranger = 0,
     cn_Large = 0, cn_SubscriberMutationVersion = 0, cn_SubscriberCount = 0\<rparr>"

definition demo_steps :: "(HashSlot \<times> MetaOp) list" where
  "demo_steps = [(3, OpCreateChannel demo_channel), (3, OpAddSubscribers [103] 2 [[117], [118]] 7), (3, OpGetChannel [103] 2),
     (4, OpDeleteUser [117]), (3, OpUpdateChannel demo_channel)]"

text \<open>Commits of the list engine do not fail.\<close>

lemma list_commit: "commit_batch list_engine d ops = Inr (fold list_op ops d)"
  by (simp add: commit_batch_def list_engine_def)

lemma list_empty: "eg_Get list_engine [] = Map.empty"
  by (simp add: list_engine_def)

lemma empty_rows: "table_rows t (\<lambda>k. None) hs = Map.empty"
  by (simp add: table_rows_def fun_eq_iff)

lemma demo_id: "validateKeyString [103] = None" "validateKeyString [117] = None" "validateKeyString [118] = None"
  by (simp_all add: validateKeyString_def maxKeyStringLen_def)

lemma demo_create: "\<exists>db. meta_step list_engine 3 (empty_store []) (OpCreateChannel demo_channel) = Inr db"
proof -
  have g: "channel_good 3 demo_channel" using demo_id by (simp add: channel_good_def demo_channel_def)
  have "table_primaryKey channelTable demo_channel = Inr (row_pk channelTable demo_channel)"
    using channel_spec.good_key [OF g] by (simp add: table_primaryKey_def validatePrimaryKey_def validate_ok Let_def del: table_pks)
  moreover have "primaryRowKey channelTable 3 (row_pk channelTable demo_channel) = Inr (row_key channelTable 3 (row_pk channelTable demo_channel))"
    using channel_spec.good_key [OF g] by (simp add: primaryRowKey_ok)
  moreover have "validateChannel demo_channel = None" using demo_id by (simp add: validateChannel_def demo_channel_def)
  moreover have "stageChannel 3 (row_key channelTable 3 (row_pk channelTable demo_channel)) demo_channel = Inr (channel_ops 3 demo_channel)"
    by (rule stage_channel) (use demo_id in \<open>simp add: demo_channel_def\<close>)
  ultimately show ?thesis
    by (simp add: CreateChannel_def put_channel_def writeChannel_def check_error_def bind_res_def empty_store_def list_empty check_mode_def
        keep_count_def list_commit del: table_pks)
qed

lemma demo_created:
  obtains db where "store_inv list_engine db"
    "store_rows list_engine db 3 = (store_rows list_engine (empty_store []) 3)\<lparr>ab_channels := [channel_pk [103] 2 \<mapsto> demo_channel]\<rparr>"
proof -
  obtain db where step: "meta_step list_engine 3 (empty_store []) (OpCreateChannel demo_channel) = Inr db" using demo_create by blast
  have inv: "store_inv list_engine (empty_store [])" by (rule empty_store_inv [OF list_empty])
  have f: "op_fits (OpCreateChannel demo_channel)" by simp
  from list_engine.step_rows [OF inv f step] obtain s where
    s: "meta_spec (store_rows list_engine (empty_store []) 3) (OpCreateChannel demo_channel) = Inr s"
       "store_rows list_engine db = (store_rows list_engine (empty_store []))(3 := s)" .
  have "s = (store_rows list_engine (empty_store []) 3)\<lparr>ab_channels := [channel_pk [103] 2 \<mapsto> demo_channel]\<rparr>"
    using s(1) demo_id
    by (simp add: spec_channel_def when_valid_def spec_put_def check_mode_def bind_res_def store_rows_def meta_rows_def list_empty empty_store_def
        empty_rows demo_channel_def)
  then show thesis using that list_engine.store_step(1) [OF inv f step] s(2) by simp
qed

lemma demo_subscribed:
  obtains db db' where "store_inv list_engine db" "mutateSubscribers list_engine db 3 [103] 2 [[117], [118]] 7 True = Inr db'"
    "count_exact (store_rows list_engine db 3) [103] 2" "card (subscriber_uids (store_rows list_engine db 3) [103] 2) < 2 ^ 64"
    "subscriber_uids (store_rows list_engine db' 3) [103] 2 = {[117], [118]}" "store_inv list_engine db'"
proof -
  obtain db where inv: "store_inv list_engine db" and
    rows: "store_rows list_engine db 3 = (store_rows list_engine (empty_store []) 3)\<lparr>ab_channels := [channel_pk [103] 2 \<mapsto> demo_channel]\<rparr>"
    using demo_created .
  let ?m = "eg_Get list_engine (md_engine db)" and ?k = "row_key channelTable 3 (channel_pk [103] 2)"
  have mi: "meta_inv ?m 3" using inv by (simp add: store_inv_def)
  have "ab_channels (store_rows list_engine db 3) (channel_pk [103] 2) = Some demo_channel" unfolding rows by simp
  then have "table_rows channelTable ?m 3 (channel_pk [103] 2) = Some demo_channel" by (simp add: store_rows_def meta_rows_def)
  then obtain val where val: "?m ?k = Some val" "decodeChannelValue [103] 2 val = Inr demo_channel"
    using list_engine.stored_channel [OF mi demo_id(1), of 2] by (cases "?m ?k") auto
  have norm: "normalizeSubscriberUIDs [[117], [118]] = Inr [[117], [118]]"
    using demo_id by (simp add: normalizeSubscriberUIDs_def check_error_def bind_res_def)
  let ?c = "demo_channel\<lparr>cn_SubscriberMutationVersion := 7\<rparr>"
  have c: "cn_ChannelID ?c = [103]" "cn_ChannelType ?c = 2" "cn_SubscriberMutationVersion demo_channel = 0" by (simp_all add: demo_channel_def)
  obtain ops c2 where mu: "mutate_uids list_engine (md_engine db) 3 True ?c [[117], [118]] = Inr (ops, c2)"
    and c2: "cn_ChannelID c2 = [103]" "cn_ChannelType c2 = 2"
    using mutate_exact [of ?c "[[117], [118]]" list_engine "md_engine db" 3 True] demo_id c by fastforce
  have st: "stageChannel 3 ?k c2 = Inr (channel_ops 3 c2)" using stage_channel [of c2 3] demo_id c2 by simp
  have ex: "\<exists>db'. mutateSubscribers list_engine db 3 [103] 2 [[117], [118]] 7 True = Inr db'"
    unfolding mutateSubscribers_def
    using demo_id norm val mu st by (simp add: check_error_def bind_res_def channel_row_key c list_commit)
  then obtain db' where db': "mutateSubscribers list_engine db 3 [103] 2 [[117], [118]] 7 True = Inr db'" by blast
  have none: "ab_subscribers (store_rows list_engine db 3) pk = None" for pk
    unfolding rows by (simp add: store_rows_def meta_rows_def list_empty empty_store_def table_rows_def)
  then have before: "subscriber_uids (store_rows list_engine db 3) [103] 2 = {}" by (simp add: subscriber_uids_def)
  have step: "meta_step list_engine 3 db (OpAddSubscribers [103] 2 [[117], [118]] 7) = Inr db'" using db' by (simp add: AddSubscribers_def)
  have f: "op_fits (OpAddSubscribers [103] 2 [[117], [118]] 7)" by simp
  from list_engine.step_rows [OF inv f step] obtain s where
    s: "meta_spec (store_rows list_engine db 3) (OpAddSubscribers [103] 2 [[117], [118]] 7) = Inr s"
       "store_rows list_engine db' = (store_rows list_engine db)(3 := s)" .
  have "subscriber_uids s [103] 2 = {[117], [118]}"
    using s(1) before demo_id
    by (auto simp: spec_subscribers_def when_valid_def with_subscribers_uids split: option.splits if_splits)
  then show thesis
    using that [OF inv db'] before s(2) list_engine.store_step(1) [OF inv f step]
    by (simp add: count_exact_def rows demo_channel_def)
qed

section \<open>The promises\<close>

text \<open>
  C3: The metadata store implements its maps: whatever the engine with atomic batches, in a consistent store each of the 24
  operations either fails with the error its map function names, or with a failed commit, and changes nothing, or the rows of its
  hash slot become what the map function says and every other hash slot keeps its rows. It covers the modes of a write, the kept
  count of subscribers, monotonic runtime metadata, the merges of conversations, memberships, latest messages and bindings.
\<close>

theorem meta_store_refines:
  assumes "batch_engine eng" and "store_inv eng db" and "op_fits op"
  shows "case meta_step eng hs db op of
      Inl e \<Rightarrow> e = DBErrCommit \<or> meta_spec (store_rows eng db hs) op = Inl e
    | Inr db' \<Rightarrow> map_sum (\<lambda>e. e) (\<lambda>s. (store_rows eng db)(hs := s)) (meta_spec (store_rows eng db hs) op) = Inr (store_rows eng db')"
proof -
  show ?thesis
  proof (cases "meta_step eng hs db op")
    case (Inl e)
    have "meta_inv (eg_Get eng (md_engine db)) hs" "cache_ok (eg_Get eng (md_engine db)) (md_channelCache db)"
      using assms(2) by (auto simp: store_inv_def)
    from batch_engine.step_refines [OF assms(1) this assms(3)] show ?thesis using Inl by (simp add: op_refines_def store_rows_def)
  next
    case (Inr db')
    then obtain s where "meta_spec (store_rows eng db hs) op = Inr s" "store_rows eng db' = (store_rows eng db)(hs := s)"
      using batch_engine.step_rows [OF assms] by blast
    then show ?thesis using Inr by simp
  qed
qed

lemma meta_store_refines_witness:
  "case meta_step list_engine 3 (empty_store []) (OpCreateChannel demo_channel) of
      Inl e \<Rightarrow> e = DBErrCommit \<or> meta_spec (store_rows list_engine (empty_store []) 3) (OpCreateChannel demo_channel) = Inl e
    | Inr db' \<Rightarrow> map_sum (\<lambda>e. e) (\<lambda>s. (store_rows list_engine (empty_store []))(3 := s))
        (meta_spec (store_rows list_engine (empty_store []) 3) (OpCreateChannel demo_channel)) = Inr (store_rows list_engine db')"
  by (rule meta_store_refines [OF list_engine.batch_engine_axioms empty_store_inv [OF list_empty]]) simp

text \<open>
  C10: Any run of operations on a store that began empty, failed ones included, leaves every hash slot consistent: every row of
  every table decodes to a valid row under its own key, the index entries are exactly those of the rows, no stray key lies in a
  row space, and every cached channel equals the stored one.
\<close>

theorem meta_store_runs:
  assumes "batch_engine eng" and "eg_Get eng d = Map.empty" and "list_all (op_fits \<circ> snd) steps"
  shows "store_inv eng (meta_run eng (empty_store d) steps)"
  by (rule batch_engine.run_inv [OF assms(1) empty_store_inv [OF assms(2)] assms(3)])

lemma meta_store_runs_witness: "store_inv list_engine (meta_run list_engine (empty_store []) demo_steps)"
  by (rule meta_store_runs [OF list_engine.batch_engine_axioms list_empty]) (simp add: demo_steps_def)

text \<open>
  C13: The cache of channels is invisible: after any run \<open>GetChannel\<close> returns what a direct read of the row returns, the error
  of an invalid id included, whether the channel was cached, written, deleted or had its subscribers changed before.
\<close>

theorem cached_channel_is_stored:
  assumes "batch_engine eng" and "eg_Get eng d = Map.empty" and "list_all (op_fits \<circ> snd) steps"
  shows "map_sum (\<lambda>e. e) snd (GetChannel eng (meta_run eng (empty_store d) steps) hs i ty) =
    bind_res (check_error (validateKeyString i))
      (\<lambda>_. table_Get channelTable eng (md_engine (meta_run eng (empty_store d) steps)) hs [PartString i, Int64Ordered ty])"
  by (rule batch_engine.get_channel_direct [OF assms(1) batch_engine.run_inv [OF assms(1) empty_store_inv [OF assms(2)] assms(3)]])

lemma cached_channel_is_stored_witness:
  "map_sum (\<lambda>e. e) snd (GetChannel list_engine (meta_run list_engine (empty_store []) demo_steps) 3 [103] 2) =
    bind_res (check_error (validateKeyString [103]))
      (\<lambda>_. table_Get channelTable list_engine (md_engine (meta_run list_engine (empty_store []) demo_steps)) 3 [PartString [103], Int64Ordered 2])"
  by (rule cached_channel_is_stored [OF list_engine.batch_engine_axioms list_empty]) (simp add: demo_steps_def)

text \<open>
  C12: The subscriber count of a channel stays exact: when it is the number of stored subscribers, it still is after adding or
  removing any list of uids, with duplicates, with uids already there and with uids not there.
\<close>

theorem subscriber_count_exact:
  assumes "batch_engine eng" and "store_inv eng db" and "mutateSubscribers eng db hs i ty uids version add = Inr db'"
    and "count_exact (store_rows eng db hs) i ty" and "card (subscriber_uids (store_rows eng db hs) i ty) < 2 ^ 64"
  shows "count_exact (store_rows eng db' hs) i ty"
proof -
  have step: "meta_step eng hs db (if add then OpAddSubscribers i ty uids version else OpRemoveSubscribers i ty uids version) = Inr db'"
    using assms(3) by (cases add) (simp_all add: AddSubscribers_def RemoveSubscribers_def)
  have f: "op_fits (if add then OpAddSubscribers i ty uids version else OpRemoveSubscribers i ty uids version)" by simp
  obtain s where s: "meta_spec (store_rows eng db hs) (if add then OpAddSubscribers i ty uids version else OpRemoveSubscribers i ty uids version) = Inr s"
    "store_rows eng db' = (store_rows eng db)(hs := s)" using batch_engine.step_rows [OF assms(1,2) f step] by blast
  then have "spec_subscribers (store_rows eng db hs) i ty uids version add = Inr s" "store_rows eng db' hs = s" by (cases add; simp)+
  then show ?thesis
    using count_spec [OF _ assms(4) _ assms(5)] subscribers_finite by (simp add: store_rows_def)
qed

lemma subscriber_count_exact_witness:
  "\<exists>db. count_exact (store_rows list_engine db 3) [103] 2 \<and> subscriber_uids (store_rows list_engine db 3) [103] 2 = {[117], [118]}"
proof (rule demo_subscribed)
  fix db db' assume d: "store_inv list_engine db" "mutateSubscribers list_engine db 3 [103] 2 [[117], [118]] 7 True = Inr db'"
    "count_exact (store_rows list_engine db 3) [103] 2" "card (subscriber_uids (store_rows list_engine db 3) [103] 2) < 2 ^ 64"
    "subscriber_uids (store_rows list_engine db' 3) [103] 2 = {[117], [118]}" "store_inv list_engine db'"
  from subscriber_count_exact [OF list_engine.batch_engine_axioms d(1-4)] d(5) show ?thesis by blast
qed

text \<open>
  C14: \<open>SnapshotSubscribers\<close> returns: its loop over pages of 256 ends on every consistent store, and what it returns is every
  stored subscriber of the channel exactly once, in the order of the row keys.
\<close>

theorem snapshot_complete:
  assumes "ordered_engine eng" and "meta_inv (eg_Get eng d) hs" and "validateKeyString i = None"
  shows "\<exists>us. SnapshotSubscribers eng d hs i ty = Some (Inr us)
    \<and> sorted_wrt (\<lambda>a b. row_key subscriberTable hs (subscriberPrimaryKey i ty a) < row_key subscriberTable hs (subscriberPrimaryKey i ty b)) us
    \<and> set us = subscriber_uids (meta_rows (eg_Get eng d) hs) i ty"
  using ordered_engine.snapshot_exact [OF assms] by metis

lemma snapshot_complete_witness:
  "\<exists>d us. SnapshotSubscribers list_engine d 3 [103] 2 = Some (Inr us) \<and> set us = {[117], [118]}"
proof (rule demo_subscribed)
  fix db db' assume d: "store_inv list_engine db'" "subscriber_uids (store_rows list_engine db' 3) [103] 2 = {[117], [118]}"
  have "meta_inv (eg_Get list_engine (md_engine db')) 3" using d(1) by (simp add: store_inv_def)
  from snapshot_complete [OF list_engine.ordered_engine_axioms this demo_id(1), of 2] show ?thesis
    using d(2) by (auto simp: store_rows_def)
qed

end
