(* ===== verification/Spec2Isabelle.thy ===== *)
theory Spec2Isabelle
  imports ChannelSafety RebalancerSafety CtrlStoreSafety CtrlPlannerSafety CtrlTasks ClientReader
    MsgClaims SlotCommandClaims SlotWorkerSafety MetaStoreClaims
begin

text \<open>
  Verification of the core of the WuKongIM server, an instant-messaging cluster written in Go. Messages of a
  channel are appended to a replicated log; channels and users are grouped into hash slots, hash slots
  into physical slots, and a controller keeps the durable state that says which nodes serve which
  slot. Clients speak a binary protocol over a connection; what is stored lies in an ordered key-value
  store. Paths below are relative to \<open>src/\<close>.

  The parts and the theories that model them.

  \<^item> The channel log machine (\<open>pkg/channelv2/machine\<close>): \<open>ChannelTypes\<close> has the state of one
    channel replica (roles, offsets, pending appends, waiters) and \<open>ChannelMachine\<close> one definition per
    method: proposing a batch, storing it, acknowledging replicas, advancing the high watermark, changes of role and
    metadata. \<open>ChannelInvariant\<close> is the bookkeeping invariant with its preservation and
    \<open>ChannelSafety\<close> the promises to writers.
  \<^item> The hash-slot table and its rebalancer (\<open>pkg/cluster/hashslot\<close>): \<open>HashSlotTable\<close> (ownership,
    migrations, encoding), \<open>HashSlotSafety\<close>, \<open>Rebalancer\<close> (plans for adding and
    removing a physical slot and for balancing), \<open>RebalancerSafety\<close>.
  \<^item> The controller (\<open>pkg/controllerv2\<close>): \<open>CtrlState\<close> is the cluster state and its normal form
    (\<open>state/\<close>), \<open>CtrlValidate\<close> its checks, \<open>CtrlStateSafety\<close> what they decide;
    \<open>CtrlCommand\<close> the replicated commands (\<open>command/\<close>) and \<open>CtrlFSM\<close> the state machine that applies
    them (\<open>fsm/\<close>); \<open>CtrlFSMSafety\<close> and \<open>CtrlTasks\<close> its correctness; \<open>CtrlStore\<close> the encoding and the file the state is saved in
    (\<open>statefile/\<close>) and \<open>CtrlStoreSafety\<close> the machine over that file;
    \<open>CtrlPlanner\<close> the planner that proposes placements (\<open>planner/\<close>, \<open>server/\<close>) and
    \<open>CtrlPlannerSafety\<close> the two together.
  \<^item> The client protocol (\<open>pkg/protocol/frame\<close>, \<open>pkg/protocol/codec\<close>): \<open>ProtoFrame\<close> the packets,
    \<open>ProtoCodec\<close> their bodies, \<open>ProtoWire\<close> the framing; \<open>ProtoPackets\<close> and
    \<open>ProtoLength\<close> the round trips of bodies and sizes, \<open>ProtoSafety\<close> of frames; \<open>ProtoStream\<close> the
    decoding of byte streams in the client (\<open>pkg/client/reader.go\<close>) and in the gateway
    (\<open>pkg/gateway/protocol/wkproto/adapter.go\<close>).
  \<^item> The client (\<open>pkg/client\<close>): \<open>ClientPending\<close> the sends that wait for their acknowledgement, the
    waiter of a batch and the receive queue; \<open>ClientReader\<close> the router of incoming packets;
    \<open>ClientSafety\<close> their correctness.
  \<^item> The storage encoding (\<open>pkg/db\<close>): \<open>Varint\<close>, \<open>KeyCodec\<close> and \<open>MetaKeys\<close> the keys of the message and metadata
    stores (\<open>internal/keycodec\<close>, \<open>message/keys.go\<close>, \<open>meta/keys.go\<close>), \<open>RowCodec\<close> the row values and their
    envelope (\<open>internal/rowcodec\<close>); \<open>KeySafety\<close>, \<open>RowSafety\<close>, \<open>EnvelopeSafety\<close>.
  \<^item> The message log (\<open>pkg/db/message\<close>): \<open>MsgRow\<close> the stored row with its two encoders (\<open>row.go\<close>, \<open>codec.go\<close>) and
    \<open>MsgRowSafety\<close> their agreement; \<open>MsgStore\<close> the handle of a channel, reads, indexes and retention; \<open>MsgLog\<close>
    append and truncation; \<open>MsgSystem\<close> checkpoints, epoch history, snapshots, fetched records and the catalog. \<open>MsgKeys\<close>
    computes the keys, \<open>MsgRep\<close> is the abstraction (\<open>holds\<close>: the store holds exactly the rows of a map from sequences to rows, with
    their index entries), and \<open>MsgRead\<close>, \<open>MsgWrite\<close>, \<open>MsgAppend\<close>, \<open>MsgChange\<close>, \<open>MsgSafety\<close> and \<open>MsgFetch\<close> are what the
    operations do to it; \<open>MsgClaims\<close> has the promises and their instances.
  \<^item> The slots (\<open>pkg/slot/fsm\<close>): \<open>MetaTypes\<close> has the rows of the metadata store, \<open>SlotTLV\<close> the fields of the replicated commands,
    \<open>SlotCommand\<close> every encoder and decoder of a command (\<open>command.go\<close>, \<open>migration_cmds.go\<close>, \<open>plugin_binding_cmds.go\<close>,
    \<open>channel_migration_cmds.go\<close>); \<open>SlotCommandSafety\<close> and \<open>SlotCommandClaims\<close> their round trips. \<open>SlotWorker\<close> is the worker that
    drives migrations of hash slots (\<open>pkg/cluster/slotmigration\<close>), \<open>SlotWorkerSafety\<close> its limits and the history behind each phase.
  \<^item> The metadata store (\<open>pkg/db/meta\<close>): \<open>TableKey\<close> has typed keys and the primitives of values (\<open>table_key.go\<close>,
    \<open>tx_helpers.go\<close>), \<open>TableRuntime\<close> the generic table with its indexes, writes and scans (\<open>table_runtime.go\<close>); \<open>MetaTables\<close> the nine
    tables with their codecs and checks, \<open>MetaMerge\<close> the rules that merge a row with the stored one, \<open>MetaShard\<close> and \<open>MetaConversation\<close>
    the operations of a hash slot (\<open>table_user.go\<close>, \<open>table_device.go\<close>, \<open>table_channel.go\<close> and its cache in \<open>db.go\<close>, \<open>table_subscriber.go\<close>,
    \<open>table_conversation.go\<close>, \<open>table_runtime_meta.go\<close>, \<open>table_user_channel_membership.go\<close>, \<open>table_channel_latest.go\<close>,
    \<open>table_plugin_binding.go\<close>). \<open>TableKeySafety\<close>, \<open>TableStore\<close> and \<open>TableSafety\<close> prove the generic table a map of rows for any
    table that meets the locale \<open>table_spec\<close>; \<open>MetaTablesSafety\<close> shows that the nine tables meet it; \<open>MetaModel\<close> states
    the store as nine maps per hash slot and each operation as a function on them; \<open>MetaChannelSafety\<close> and \<open>MetaConvSafety\<close> prove the
    refinement operation by operation, \<open>MetaStoreSafety\<close> puts them together, with runs, the cache, the count of subscribers and the
    snapshot; \<open>MetaStoreClaims\<close> and \<open>MetaMergeSafety\<close> have the promises.
  \<^item> \<open>StoreEngine\<close> is the ordered key-value engine under the stores, with its laws.
  \<^item> \<open>Prelude\<close> has what they share: Go's sorting, slicing and maps, and the interfaces; \<open>Bytes\<close> has
    big-endian integers and CRC-32.

  How they interact. The planner reads the controller state and proposes commands; the state machine checks each
  command against the state and the validity of the result; a batch is saved before it is published.
  The table of hash slots routes a key to the physical slot that the controller state names, and the
  rebalancer's plans are executed as migrations of the table. The frame codec is what both the client's
  read loop and the gateway's decoder call; the read loop hands the frames to the router, the router resolves the tracker's
  entries, and the tracker completes the batch waiters. The rows of the message log are envelopes and columns
  under keys; the channel log machine hands its batches to a message log (through the parts not modelled). The slot commands carry
  rows of the metadata store, which lie in the same kind of engine under keys that begin with the hash slot.

  The conventions.

  \<^item> A Go struct is a record with a prefix of its own, an enum of strings or a tagged union a datatype,
    an integer of a fixed width a word (\<open>u8\<close> to \<open>u64\<close>; a signed one is a word in two's complement where only
    its bits matter, and an \<open>int\<close> where the code computes in ranges far from the bounds). A Go map is an association list or a
    function, a set of ids a list or set, a string a char list or byte list.
  \<^item> An error return is \<open>Inl\<close> of a sum, a panic or an index out of range is \<open>None\<close>; a function that
    changes its receiver returns the new one. Every early return is a branch.
  \<^item> The machines are total functions on one event; concurrent callers are sequences of events, since each
    operation holds the lock of its object from beginning to end. Pointers to entries that a caller keeps (a pending send) are names
    of an explicit table.
  \<^item> Loops over slices are structural recursion or folds; loops on numbers (the rebalancer, varints, sizes) have
    termination proofs; the loops on streams take what arrives next as a list of reads, so that a loop that waits is a list that has
    ended. The scan of a row is a \<open>partial_function\<close> in the option monad, with a theorem that it returns.
  \<^item> The code's cloning of values has no counterpart, and nil and empty slices are not told apart
    (it shows in the text of JSON, a parameter, and in one comparison of the controller, named at \<open>isNonBootstrapIdempotent\<close>).
  \<^item> \<open>sort.Slice\<close> is not stable: the model is one of its possible results, and the theorems that mention order
    hold where keys are distinct or for any stable order (\<open>validate_decides\<close>, \<open>normal_form_canonical\<close>).

  The parameters. Code that is not under \<open>src/\<close> or lies beyond a component is an argument, with
  its documented behaviour as hypotheses of the theorems that need it: JSON (\<open>marshal\<close>, \<open>unmarshal\<close>, \<open>view\<close>: what the text of a
  state says), the file system (a fault function that may fail any step of saving), the encryption of a gateway session
  (\<open>seal\<close>, \<open>decrypt\<close>), the router and the connection of a read loop, and the ordered key-value engine under the message log and the metadata store
  (\<open>Engine\<close>: get, scan of a range, commit of a batch). The laws of the engine are the locales \<open>batch_engine\<close>, a commit applies its operations in
  order or fails as a whole, and \<open>ordered_engine\<close>, a scan lists the range in the order of the bytes. They are interpreted by a store of
  association lists. The witnesses instantiate the parameters by concrete functions.

  What the lemmas show. For each machine (the channel log, the hash-slot table, the tracker of pending sends) an invariant that
  every operation keeps, proved once for all runs in the locale \<open>machine\<close>; what each operation does on every branch; for
  each codec that it is a \<open>codec\<close> (its decoder returns the value and the rest of the input) or a \<open>packet_body\<close> (the encoder writes as many
  bytes as its size function announces and the decoder inverts it); for the controller that the checks of
  the code decide an abstract notion of a well-formed state, that commands keep it, that batches agree
  with single commands, that the file never holds a state that was not valid, that planning reaches
  a state with every slot placed, and that tasks move only on evidence; for the client that every send has one
  outcome whatever the interleaving; for the channel log that a writer is answered exactly when its records are committed, told by the
  replicas that hold them; for the store that scans see exactly the rows they should, that values read back, and which damage of a value
  is noticed; for the slots that the commands of the encoders are decoded to their rows, also by older nodes, and that a migration moves
  exactly on the evidence of the calls since its start; for the message log that every operation refines its effect on a map from sequences to rows, that
  what was appended is read back, also after a restart, where no payload is empty, and that the indexes agree with the rows; for the metadata store that every
  operation refines its function on nine maps of rows, that any run keeps rows, indexes and the channel cache consistent, that counts
  of subscribers stay exact, that the snapshot of subscribers ends and is complete, and that merges only move rows forward.

  Bounds. The frame theorems need bodies below \<open>2 ^ 28\<close> bytes, which is where four bytes of the
  length end; strings of packets at most 65535 bytes, as the encoder enforces;
  storage key parts at most 65535 bytes, beyond which the builder panics; row values below
  \<open>2 ^ 63\<close> bytes, Go's limit of a slice; replica lists and payloads of the metadata store below its own limits (\<open>op_fits\<close>). A snapshot of
  subscribers reads pages of 256 rows and is a \<open>partial_function\<close>, with a theorem that it returns.

  Not modelled: the reactors, workers, transports, services and durable stores around the channel machine
  (\<open>pkg/channelv2\<close> outside \<open>machine/\<close>, and the older \<open>pkg/channel\<close>); Raft (\<open>controllerv2/raft\<close>, \<open>pkg/raftlog\<close>,
  \<open>pkg/slot/multiraft\<close>: drivers of an external library); the slot state machine (\<open>pkg/slot/fsm/statemachine.go\<close>) and the staged batches it
  writes through (\<open>pkg/db/meta/batch.go\<close>, \<open>compat.go\<close>), the snapshots of a hash slot and the bookkeeping tables of migrations
  (\<open>table_channel_migration.go\<close>, \<open>table_hashslot_migration.go\<close>), and the proxy (\<open>pkg/slot/proxy\<close>);
  the older controller (\<open>pkg/controller\<close>) and cluster (\<open>pkg/cluster\<close> outside \<open>hashslot/\<close> and \<open>slotmigration/\<close>), and \<open>pkg/clusterv2\<close>;
  the adapters of the older message store interface (\<open>pkg/db/message/compat.go\<close>);
  the gateway's transports, sessions and encryption; the JSON-RPC protocol; the use cases and runtimes of
  \<open>internal\<close> and \<open>internalv2\<close>; metrics, logs, benchmarks and command-line
  programs. Most of them are I/O, goroutine plumbing and glue over the parts above; of the client, the writer loop, the pool and
  reconnection.
\<close>

end
